(* ===== verification/Json_Value.thy ===== *)
theory Json_Value
  imports Hub_Strings
begin

text \<open>
  \<open>serde_json::Value\<close> and the accessors the sources use on it. A number is kept as serde keeps it:
  an integer (\<open>i64\<close>/\<open>u64\<close>) or a double. \<open>as_f64\<close> of an integer is the Rust cast, which rounds
  to 53 significant bits, ties to even.
\<close>

datatype json =
    JNull
  | JBool bool
  | JInt int
  | JFloat f64
  | JStr string
  | JArr "json list"
  | JObj "(string \<times> json) list"

fun json_get :: "json \<Rightarrow> string \<Rightarrow> json option" where
  "json_get (JObj kvs) k = map_of kvs k"
| "json_get _ k = None"

fun as_str :: "json \<Rightarrow> string option" where
  "as_str (JStr s) = Some s"
| "as_str _ = None"

fun as_array :: "json \<Rightarrow> json list option" where
  "as_array (JArr xs) = Some xs"
| "as_array _ = None"

fun as_object :: "json \<Rightarrow> (string \<times> json) list option" where
  "as_object (JObj kvs) = Some kvs"
| "as_object _ = None"

fun bit_length :: "nat \<Rightarrow> nat" where
  "bit_length n = (if n = 0 then 0 else Suc (bit_length (n div 2)))"

declare bit_length.simps [simp del]

text \<open>The integer \<open>n\<close> rounded to a double.\<close>

definition round_f64 :: "nat \<Rightarrow> nat" where
  "round_f64 n =
     (let e = bit_length n - 53; u = 2 ^ e; q = n div u; r = n mod u
      in if 2 * r < u \<or> (2 * r = u \<and> even q) then q * u else (q + 1) * u)"

definition f64_of_int :: "int \<Rightarrow> f64" where
  "f64_of_int n = (if n < 0 then - of_nat (round_f64 (nat (- n))) else of_nat (round_f64 (nat n)))"

fun as_f64 :: "json \<Rightarrow> f64 option" where
  "as_f64 (JInt n) = Some (f64_of_int n)"
| "as_f64 (JFloat x) = Some x"
| "as_f64 _ = None"

fun as_u64 :: "json \<Rightarrow> nat option" where
  "as_u64 (JInt n) = (if 0 \<le> n \<and> n < 2 ^ 64 then Some (nat n) else None)"
| "as_u64 _ = None"

definition get_str :: "json \<Rightarrow> string \<Rightarrow> string option" where
  "get_str v k = Option.bind (json_get v k) as_str"

definition get_u64 :: "json \<Rightarrow> string \<Rightarrow> nat option" where
  "get_u64 v k = Option.bind (json_get v k) as_u64"

definition get_object :: "json \<Rightarrow> string \<Rightarrow> (string \<times> json) list option" where
  "get_object v k = Option.bind (json_get v k) as_object"

definition unwrap_or_default :: "string option \<Rightarrow> string" where
  "unwrap_or_default s = (case s of None \<Rightarrow> [] | Some x \<Rightarrow> x)"

lemma bit_length_bound: "bit_length n \<le> b \<longleftrightarrow> n < 2 ^ b"
proof (induction n arbitrary: b rule: bit_length.induct)
  case (1 n)
  show ?case
  proof (cases "n = 0")
    case True
    then show ?thesis by (simp add: bit_length.simps)
  next
    case nz: False
    show ?thesis
    proof (cases b)
      case 0
      with nz show ?thesis by (subst bit_length.simps) simp
    next
      case (Suc c)
      have "n div 2 < 2 ^ c \<longleftrightarrow> n < 2 ^ Suc c" by auto
      with 1 [OF nz, of c] nz Suc show ?thesis by (subst bit_length.simps) simp
    qed
  qed
qed

lemma f64_of_int_exact: "\<bar>n\<bar> < 2 ^ 53 \<Longrightarrow> f64_of_int n = of_int n"
proof -
  assume "\<bar>n\<bar> < 2 ^ 53"
  have *: "round_f64 m = m" if "m < 2 ^ 53" for m
  proof -
    have "bit_length m - 53 = 0"
      using bit_length_bound [of m 53] that by simp
    then show ?thesis by (simp add: round_f64_def)
  qed
  show ?thesis
  proof (cases "n < 0")
    case True
    then have "nat (- n) < 2 ^ 53"
      using \<open>\<bar>n\<bar> < 2 ^ 53\<close> by simp
    from * [OF this] True show ?thesis
      by (simp add: f64_of_int_def of_nat_nat)
  next
    case False
    then have "nat n < 2 ^ 53"
      using \<open>\<bar>n\<bar> < 2 ^ 53\<close> by simp
    from * [OF this] False show ?thesis
      by (simp add: f64_of_int_def of_nat_nat)
  qed
qed

end
