(* ===== verification/Account_Types.thy ===== *)
theory Account_Types
  imports Json_Value
begin

text \<open>
  The data model of an account: \<open>src/src/config/cookie.rs\<close>, \<open>reason.rs\<close>, \<open>token.rs\<close> and
  \<open>mimicry.rs\<close>. Record fields keep their source names; where two structs share a field name, the
  later record has a prefix (\<open>rp_\<close> for \<open>RuntimeStateParams\<close>).
\<close>

section \<open>Kinds and reasons\<close>

datatype ModelFamily = Sonnet | Opus | Other

datatype AuthMethod = Cookie | OAuth | ApiKey

definition from_auth_source :: "string \<Rightarrow> AuthMethod" where
  "from_auth_source s =
     (if s = ''oauth'' then OAuth else if s = ''api_key'' then ApiKey else Cookie)"

datatype MimicryMode = Mimicry_None | Mimicry_ThirdParty

definition mimicry_from_db :: "string \<Rightarrow> MimicryMode" where
  "mimicry_from_db s = (if s = ''third_party'' then Mimicry_ThirdParty else Mimicry_None)"

fun mimicry_as_db :: "MimicryMode \<Rightarrow> string" where
  "mimicry_as_db Mimicry_None = ''none''"
| "mimicry_as_db Mimicry_ThirdParty = ''third_party''"

datatype AuthHeaderForm = Bearer | XApiKey

record ThirdPartyMimicryConfig =
  auth_header :: AuthHeaderForm
  cli_version :: "string option"
  strict_system :: bool
  extra_beta :: "string list"

definition default_mimicry_config :: ThirdPartyMimicryConfig where
  "default_mimicry_config =
     \<lparr>auth_header = Bearer, cli_version = None, strict_system = False, extra_beta = []\<rparr>"

definition is_valid_claude_cli_version :: "string \<Rightarrow> bool" where
  "is_valid_claude_cli_version value =
     (case split_on (CHR ''.'') value of
        [major, minor, patch] \<Rightarrow>
          list_all (\<lambda>part. part \<noteq> [] \<and> list_all is_ascii_digit part) [major, minor, patch]
      | _ \<Rightarrow> False)"

datatype Reason =
    Free
  | Disabled
  | Banned
  | Null
  | Restricted i64
  | TooManyRequest i64

definition from_db_string_checked :: "string \<Rightarrow> Reason option" where
  "from_db_string_checked s =
     (if s = ''free'' then Some Free
      else if s = ''disabled'' then Some Disabled
      else if s = ''banned'' then Some Banned
      else if s = ''null'' then Some Null
      else case strip_prefix s ''restricted:'' of
             Some ts \<Rightarrow> Some (Restricted (case parse_i64 ts of Some n \<Rightarrow> n | None \<Rightarrow> 0))
           | None \<Rightarrow>
               map_option (\<lambda>ts. TooManyRequest (case parse_i64 ts of Some n \<Rightarrow> n | None \<Rightarrow> 0))
                 (strip_prefix s ''too_many_request:''))"

fun to_db_string :: "Reason \<Rightarrow> string" where
  "to_db_string Free = ''free''"
| "to_db_string Disabled = ''disabled''"
| "to_db_string Banned = ''banned''"
| "to_db_string Null = ''null''"
| "to_db_string (Restricted ts) = ''restricted:'' @ show_i64 ts"
| "to_db_string (TooManyRequest ts) = ''too_many_request:'' @ show_i64 ts"

definition from_db_string :: "string \<Rightarrow> Reason" where
  "from_db_string s = (case from_db_string_checked s of Some r \<Rightarrow> r | None \<Rightarrow> Null)"

record InvalidAccountSlot =
  inv_account_id :: i64
  inv_auth_method :: AuthMethod
  inv_reason :: Reason

text \<open>The timestamps a reason can carry are \<open>i64\<close>.\<close>

fun reason_ok :: "Reason \<Rightarrow> bool" where
  "reason_ok (Restricted ts) = is_i64 ts"
| "reason_ok (TooManyRequest ts) = is_i64 ts"
| "reason_ok _ = True"

lemma starts_with_Cons_False: "c \<noteq> p \<Longrightarrow> \<not> starts_with (c # cs) (p # ps)"
  by simp

lemma from_db_string_checked_to_db_string:
  "reason_ok r \<Longrightarrow> from_db_string_checked (to_db_string r) = Some r"
  by (cases r) (simp_all add: from_db_string_checked_def strip_prefix_def parse_show_i64)

interpretation reason_text: codec to_db_string from_db_string_checked reason_ok
  by unfold_locales (rule from_db_string_checked_to_db_string)

interpretation mimicry_text: codec mimicry_as_db "\<lambda>s. Some (mimicry_from_db s)" "\<lambda>_. True"
proof
  fix m :: MimicryMode
  show "Some (mimicry_from_db (mimicry_as_db m)) = Some m"
    by (cases m) (simp_all add: mimicry_from_db_def)
qed

section \<open>Tokens\<close>

text \<open>Instants and durations are integers in nanoseconds (since the Unix epoch).\<close>

type_synonym instant = int
type_synonym duration = int

definition secs :: "int \<Rightarrow> duration" where
  "secs n = n * 1000000000"

record TokenInfo =
  access_token :: string
  expires_in :: duration
  organization_uuid_of :: string
  refresh_token :: string
  expires_at :: instant

definition token_from_parts ::
    "instant \<Rightarrow> string \<Rightarrow> string \<Rightarrow> duration \<Rightarrow> string \<Rightarrow> TokenInfo" where
  "token_from_parts now access refresh expires org =
     \<lparr>access_token = access, expires_in = expires, organization_uuid_of = org,
      refresh_token = refresh, expires_at = now + expires\<rparr>"

definition is_expired :: "instant \<Rightarrow> TokenInfo \<Rightarrow> bool" where
  "is_expired now t \<longleftrightarrow> now \<ge> expires_at t - secs (60 * 5)"

section \<open>Usage and runtime state\<close>

record UsageBreakdown =
  total_input_tokens :: u64
  total_output_tokens :: u64
  sonnet_input_tokens :: u64
  sonnet_output_tokens :: u64
  opus_input_tokens :: u64
  opus_output_tokens :: u64

definition default_usage :: UsageBreakdown where
  "default_usage =
     \<lparr>total_input_tokens = 0, total_output_tokens = 0, sonnet_input_tokens = 0,
      sonnet_output_tokens = 0, opus_input_tokens = 0, opus_output_tokens = 0\<rparr>"

record ScopedWeeklyLimit =
  model_display_name :: string
  sl_resets_at :: "i64 option"
  sl_utilization :: "f64 option"

text \<open>\<open>[UsageBreakdown; 5]\<close>: session, weekly, weekly_sonnet, weekly_opus, lifetime.\<close>

type_synonym usage_buckets =
  "UsageBreakdown \<times> UsageBreakdown \<times> UsageBreakdown \<times> UsageBreakdown \<times> UsageBreakdown"

record RuntimeStateParams =
  rp_reset_time :: "i64 option"
  rp_supports_claude_1m_sonnet :: "bool option"
  rp_supports_claude_1m_opus :: "bool option"
  rp_count_tokens_allowed :: "bool option"
  rp_session_resets_at :: "i64 option"
  rp_weekly_resets_at :: "i64 option"
  rp_weekly_sonnet_resets_at :: "i64 option"
  rp_weekly_opus_resets_at :: "i64 option"
  rp_resets_last_checked_at :: "i64 option"
  rp_session_has_reset :: "bool option"
  rp_weekly_has_reset :: "bool option"
  rp_weekly_sonnet_has_reset :: "bool option"
  rp_weekly_opus_has_reset :: "bool option"
  rp_session_utilization :: "f64 option"
  rp_weekly_utilization :: "f64 option"
  rp_weekly_sonnet_utilization :: "f64 option"
  rp_weekly_opus_utilization :: "f64 option"
  rp_buckets :: usage_buckets
  rp_weekly_scoped_limits :: "ScopedWeeklyLimit list"

section \<open>Account slots\<close>

datatype ClewdrCookie = ClewdrCookie (inner: string)

record AccountSlot =
  cookie :: "ClewdrCookie option"
  auth_method :: AuthMethod
  account_id :: "i64 option"
  proxy_url :: "string option"
  token :: "TokenInfo option"
  reset_time :: "i64 option"
  supports_claude_1m_sonnet :: "bool option"
  supports_claude_1m_opus :: "bool option"
  count_tokens_allowed :: "bool option"
  session_usage :: UsageBreakdown
  weekly_usage :: UsageBreakdown
  weekly_sonnet_usage :: UsageBreakdown
  weekly_opus_usage :: UsageBreakdown
  lifetime_usage :: UsageBreakdown
  session_resets_at :: "i64 option"
  weekly_resets_at :: "i64 option"
  weekly_sonnet_resets_at :: "i64 option"
  weekly_opus_resets_at :: "i64 option"
  resets_last_checked_at :: "i64 option"
  session_has_reset :: "bool option"
  weekly_has_reset :: "bool option"
  weekly_sonnet_has_reset :: "bool option"
  weekly_opus_has_reset :: "bool option"
  email :: "string option"
  account_type :: "string option"
  session_utilization :: "f64 option"
  weekly_utilization :: "f64 option"
  weekly_sonnet_utilization :: "f64 option"
  weekly_opus_utilization :: "f64 option"
  weekly_scoped_limits :: "ScopedWeeklyLimit list"
  api_key_base_url :: "string option"
  api_key_secret :: "string option"
  api_key_extra_headers :: "(string \<times> string) list option"
  api_key_extra_body :: "json option"
  mimicry_mode :: MimicryMode
  mimicry_config :: "ThirdPartyMimicryConfig option"

definition default_slot :: AccountSlot where
  "default_slot =
     \<lparr>cookie = None, auth_method = Cookie, account_id = None, proxy_url = None, token = None,
      reset_time = None, supports_claude_1m_sonnet = None, supports_claude_1m_opus = None,
      count_tokens_allowed = None,
      session_usage = default_usage, weekly_usage = default_usage,
      weekly_sonnet_usage = default_usage, weekly_opus_usage = default_usage,
      lifetime_usage = default_usage,
      session_resets_at = None, weekly_resets_at = None, weekly_sonnet_resets_at = None,
      weekly_opus_resets_at = None, resets_last_checked_at = None,
      session_has_reset = None, weekly_has_reset = None, weekly_sonnet_has_reset = None,
      weekly_opus_has_reset = None, email = None, account_type = None,
      session_utilization = None, weekly_utilization = None, weekly_sonnet_utilization = None,
      weekly_opus_utilization = None, weekly_scoped_limits = [],
      api_key_base_url = None, api_key_secret = None, api_key_extra_headers = None,
      api_key_extra_body = None, mimicry_mode = Mimicry_None, mimicry_config = None\<rparr>"

end
