(* ===== verification/Clewdr_Error.thy ===== *)
theory Clewdr_Error
  imports Account_Types
begin

text \<open>
  The error type of the program (\<open>enum ClewdrError\<close> in \<open>src/src/error.rs\<close>). A \<open>source\<close> that is an
  error value of a third-party crate is represented by its text; source locations are left out.
  \<open>ClewdrError\<close>'s \<open>Display\<close> is a parameter \<open>display\<close> of the definitions that print an error.
\<close>

record ClaudeErrorBody =
  eb_message :: json
  eb_type :: string
  eb_code :: "u16 option"
  eb_failure_source :: "string option"
  eb_failure_stage :: "string option"
  eb_upstream_http_status :: "u16 option"
  eb_normalized_reason_type :: "string option"

definition error_body :: "json \<Rightarrow> string \<Rightarrow> u16 \<Rightarrow> ClaudeErrorBody" where
  "error_body msg ty code =
     \<lparr>eb_message = msg, eb_type = ty, eb_code = Some code, eb_failure_source = None,
      eb_failure_stage = None, eb_upstream_http_status = None, eb_normalized_reason_type = None\<rparr>"

datatype (plugins only: code size) ClewdrError =
    HttpError string
  | RactorError string
  | RequestTokenError string
  | UrlError string string
  | ParseCookieError string
  | InvalidUri string string
  | JsonError string
  | PathRejection u16 string
  | QueryRejection u16 string
  | TestMessage
  | FmtError string
  | InvalidHeaderValue string
  | BadRequest string
  | BadRequestMessage string
  | TooManyRetries
  | UpstreamTimeout string
  | EventSourceAxumError string
  | EventSourceRquestError string
  | ZipError string
  | AssetError string
  | InvalidVersion string
  | ParseIntError string
  | AccountDispatchError string
  | UpstreamCoolingDown
  | NoValidUpstreamAccounts
  | InvalidCookie Reason
  | TomlDeError string
  | TomlSeError string
  | JsonRejection u16 string
  | WreqError string string
  | UTF8Error string
  | ClaudeHttpError u16 ClaudeErrorBody
  | UnexpectedNone string
  | UnexpectedMessage string
  | IoError string
  | PathNotFound string
  | TimestampError i64
  | InvalidAuth
  | PasswordChangeRequired
  | LoginRateLimited u64
  | UserConcurrencyExceeded
  | RpmExceeded
  | QuotaExceeded
  | NotFound string
  | DbNotFound string
  | Conflict string
  | ConflictMessage string
  | SqlxError string
  | MigrateError string
  | Whatever string "string option"

end
