(* ===== verification/Account_Slot.thy ===== *)
theory Account_Slot
  imports Account_Types
begin

text \<open>
  The operations on an account slot (\<open>impl AccountSlot\<close> in \<open>src/src/config/cookie.rs\<close>), the
  extraction of the scoped weekly limits, and their properties: usage counters are saturating sums
  of what was added, runtime parameters round-trip through a slot without touching its credential.
\<close>

section \<open>Constructors and small operations\<close>

definition slot_of_cookie :: "ClewdrCookie \<Rightarrow> i64 option \<Rightarrow> AccountSlot" where
  "slot_of_cookie c rt = default_slot\<lparr>cookie := Some c, auth_method := Cookie, reset_time := rt\<rparr>"

definition slot_oauth :: "i64 \<Rightarrow> TokenInfo \<Rightarrow> AccountSlot" where
  "slot_oauth aid tok =
     default_slot\<lparr>cookie := None, auth_method := OAuth, account_id := Some aid, token := Some tok\<rparr>"

definition slot_api_key ::
    "i64 \<Rightarrow> string \<Rightarrow> string \<Rightarrow> (string \<times> string) list option \<Rightarrow> json option
      \<Rightarrow> MimicryMode \<Rightarrow> ThirdPartyMimicryConfig option \<Rightarrow> AccountSlot" where
  "slot_api_key aid base_url secret headers body mode cfg =
     default_slot\<lparr>cookie := None, auth_method := ApiKey, account_id := Some aid,
       api_key_base_url := Some base_url, api_key_secret := Some secret,
       api_key_extra_headers := headers, api_key_extra_body := body,
       mimicry_mode := mode, mimicry_config := cfg\<rparr>"

definition slot_reset :: "i64 \<Rightarrow> AccountSlot \<Rightarrow> AccountSlot" where
  "slot_reset now s =
     (case reset_time s of
        Some t \<Rightarrow>
          if t \<le> now then
            s\<lparr>reset_time := None, session_usage := default_usage, weekly_usage := default_usage,
              weekly_sonnet_usage := default_usage, weekly_opus_usage := default_usage\<rparr>
          else s
      | None \<Rightarrow> s)"

definition add_token :: "AccountSlot \<Rightarrow> TokenInfo \<Rightarrow> AccountSlot" where
  "add_token s t = s\<lparr>token := Some t\<rparr>"

definition ellipse :: "ClewdrCookie \<Rightarrow> string" where
  "ellipse c = (if length (inner c) > 20 then take 20 (inner c) @ ''...'' else inner c)"

definition credential_label :: "AccountSlot \<Rightarrow> string" where
  "credential_label s =
     (case auth_method s of
        Cookie \<Rightarrow> (case cookie s of Some c \<Rightarrow> ellipse c | None \<Rightarrow> ''cookie#?'')
      | OAuth \<Rightarrow> (case account_id s of
            Some i \<Rightarrow> ''oauth#'' @ show_i64 i | None \<Rightarrow> ''oauth#?'')
      | ApiKey \<Rightarrow> (case account_id s of
            Some i \<Rightarrow> ''apikey#'' @ show_i64 i | None \<Rightarrow> ''apikey#?''))"

definition set_count_tokens_allowed :: "AccountSlot \<Rightarrow> bool option \<Rightarrow> AccountSlot" where
  "set_count_tokens_allowed s v = s\<lparr>count_tokens_allowed := v\<rparr>"

definition reset_window_usage :: "AccountSlot \<Rightarrow> AccountSlot" where
  "reset_window_usage s =
     s\<lparr>session_usage := default_usage, weekly_usage := default_usage,
       weekly_sonnet_usage := default_usage, weekly_opus_usage := default_usage\<rparr>"

section \<open>Usage aggregation\<close>

definition add_total :: "u64 \<Rightarrow> u64 \<Rightarrow> UsageBreakdown \<Rightarrow> UsageBreakdown" where
  "add_total i out u =
     u\<lparr>total_input_tokens := saturating_add (total_input_tokens u) i,
       total_output_tokens := saturating_add (total_output_tokens u) out\<rparr>"

definition add_sonnet :: "u64 \<Rightarrow> u64 \<Rightarrow> UsageBreakdown \<Rightarrow> UsageBreakdown" where
  "add_sonnet i out u =
     u\<lparr>sonnet_input_tokens := saturating_add (sonnet_input_tokens u) i,
       sonnet_output_tokens := saturating_add (sonnet_output_tokens u) out\<rparr>"

definition add_opus :: "u64 \<Rightarrow> u64 \<Rightarrow> UsageBreakdown \<Rightarrow> UsageBreakdown" where
  "add_opus i out u =
     u\<lparr>opus_input_tokens := saturating_add (opus_input_tokens u) i,
       opus_output_tokens := saturating_add (opus_output_tokens u) out\<rparr>"

fun add_family :: "ModelFamily \<Rightarrow> u64 \<Rightarrow> u64 \<Rightarrow> UsageBreakdown \<Rightarrow> UsageBreakdown" where
  "add_family Sonnet i out u = add_sonnet i out u"
| "add_family Opus i out u = add_opus i out u"
| "add_family Other i out u = u"

definition add_and_bucket_usage :: "u64 \<Rightarrow> u64 \<Rightarrow> ModelFamily \<Rightarrow> AccountSlot \<Rightarrow> AccountSlot" where
  "add_and_bucket_usage i out fam s =
     (if i = 0 \<and> out = 0 then s
      else
        let s1 = s\<lparr>session_usage := add_family fam i out (add_total i out (session_usage s))\<rparr>;
            s2 = s1\<lparr>weekly_usage := add_family fam i out (add_total i out (weekly_usage s1))\<rparr>;
            s3 = (if fam = Sonnet
                  then s2\<lparr>weekly_sonnet_usage :=
                         add_sonnet i out (add_total i out (weekly_sonnet_usage s2))\<rparr>
                  else s2);
            s4 = (if fam = Opus
                  then s3\<lparr>weekly_opus_usage :=
                         add_opus i out (add_total i out (weekly_opus_usage s3))\<rparr>
                  else s3)
        in s4\<lparr>lifetime_usage := add_family fam i out (add_total i out (lifetime_usage s4))\<rparr>)"

section \<open>Runtime parameters\<close>

definition to_runtime_params :: "AccountSlot \<Rightarrow> RuntimeStateParams" where
  "to_runtime_params s =
     \<lparr>rp_reset_time = reset_time s,
      rp_supports_claude_1m_sonnet = supports_claude_1m_sonnet s,
      rp_supports_claude_1m_opus = supports_claude_1m_opus s,
      rp_count_tokens_allowed = count_tokens_allowed s,
      rp_session_resets_at = session_resets_at s,
      rp_weekly_resets_at = weekly_resets_at s,
      rp_weekly_sonnet_resets_at = weekly_sonnet_resets_at s,
      rp_weekly_opus_resets_at = weekly_opus_resets_at s,
      rp_resets_last_checked_at = resets_last_checked_at s,
      rp_session_has_reset = session_has_reset s,
      rp_weekly_has_reset = weekly_has_reset s,
      rp_weekly_sonnet_has_reset = weekly_sonnet_has_reset s,
      rp_weekly_opus_has_reset = weekly_opus_has_reset s,
      rp_session_utilization = session_utilization s,
      rp_weekly_utilization = weekly_utilization s,
      rp_weekly_sonnet_utilization = weekly_sonnet_utilization s,
      rp_weekly_opus_utilization = weekly_opus_utilization s,
      rp_buckets = (session_usage s, weekly_usage s, weekly_sonnet_usage s,
                    weekly_opus_usage s, lifetime_usage s),
      rp_weekly_scoped_limits = weekly_scoped_limits s\<rparr>"

definition apply_runtime_state :: "RuntimeStateParams \<Rightarrow> AccountSlot \<Rightarrow> AccountSlot" where
  "apply_runtime_state p s =
     (case rp_buckets p of (b0, b1, b2, b3, b4) \<Rightarrow>
        s\<lparr>reset_time := rp_reset_time p,
          supports_claude_1m_sonnet := rp_supports_claude_1m_sonnet p,
          supports_claude_1m_opus := rp_supports_claude_1m_opus p,
          count_tokens_allowed := rp_count_tokens_allowed p,
          session_resets_at := rp_session_resets_at p,
          weekly_resets_at := rp_weekly_resets_at p,
          weekly_sonnet_resets_at := rp_weekly_sonnet_resets_at p,
          weekly_opus_resets_at := rp_weekly_opus_resets_at p,
          resets_last_checked_at := rp_resets_last_checked_at p,
          session_has_reset := rp_session_has_reset p,
          weekly_has_reset := rp_weekly_has_reset p,
          weekly_sonnet_has_reset := rp_weekly_sonnet_has_reset p,
          weekly_opus_has_reset := rp_weekly_opus_has_reset p,
          session_utilization := rp_session_utilization p,
          weekly_utilization := rp_weekly_utilization p,
          weekly_sonnet_utilization := rp_weekly_sonnet_utilization p,
          weekly_opus_utilization := rp_weekly_opus_utilization p,
          session_usage := b0,
          weekly_usage := b1,
          weekly_sonnet_usage := b2,
          weekly_opus_usage := b3,
          lifetime_usage := b4,
          weekly_scoped_limits := rp_weekly_scoped_limits p\<rparr>)"

definition apply_oauth_snapshot_runtime :: "RuntimeStateParams \<Rightarrow> AccountSlot \<Rightarrow> AccountSlot" where
  "apply_oauth_snapshot_runtime p s =
     s\<lparr>reset_time := rp_reset_time p,
       session_resets_at := rp_session_resets_at p,
       weekly_resets_at := rp_weekly_resets_at p,
       weekly_sonnet_resets_at := rp_weekly_sonnet_resets_at p,
       weekly_opus_resets_at := rp_weekly_opus_resets_at p,
       resets_last_checked_at := rp_resets_last_checked_at p,
       session_has_reset := rp_session_has_reset p,
       weekly_has_reset := rp_weekly_has_reset p,
       weekly_sonnet_has_reset := rp_weekly_sonnet_has_reset p,
       weekly_opus_has_reset := rp_weekly_opus_has_reset p,
       session_utilization := rp_session_utilization p,
       weekly_utilization := rp_weekly_utilization p,
       weekly_sonnet_utilization := rp_weekly_sonnet_utilization p,
       weekly_opus_utilization := rp_weekly_opus_utilization p,
       weekly_scoped_limits := rp_weekly_scoped_limits p\<rparr>"

section \<open>Scoped weekly limits\<close>

text \<open>
  \<open>rfc3339\<close> stands for \<open>chrono::DateTime::parse_from_rfc3339\<close> followed by \<open>timestamp\<close>.
\<close>

definition scoped_entry :: "(string \<Rightarrow> i64 option) \<Rightarrow> json \<Rightarrow> ScopedWeeklyLimit option" where
  "scoped_entry rfc3339 entry =
     (if Option.bind (json_get entry ''kind'') as_str \<noteq> Some ''weekly_scoped'' then None
      else
        case Option.bind (json_get entry ''scope'')
               (\<lambda>v. Option.bind (json_get v ''model'')
                 (\<lambda>v. Option.bind (json_get v ''display_name'') as_str)) of
          None \<Rightarrow> None
        | Some raw \<Rightarrow>
            let name = trim raw in
            if name = [] then None
            else
              let resets = Option.bind (json_get entry ''resets_at'')
                             (\<lambda>v. Option.bind (as_str v) rfc3339);
                  util = Option.bind (json_get entry ''percent'') as_f64
              in if resets = None \<and> util = None then None
                 else Some \<lparr>model_display_name = name, sl_resets_at = resets,
                            sl_utilization = util\<rparr>)"

text \<open>Replace the first entry of the same name (ASCII case ignored), or append.\<close>

fun upsert_scoped :: "ScopedWeeklyLimit \<Rightarrow> ScopedWeeklyLimit list \<Rightarrow> ScopedWeeklyLimit list" where
  "upsert_scoped x [] = [x]"
| "upsert_scoped x (e # es) =
     (if eq_ignore_ascii_case (model_display_name e) (model_display_name x) then x # es
      else e # upsert_scoped x es)"

fun collect_scoped ::
    "(string \<Rightarrow> i64 option) \<Rightarrow> ScopedWeeklyLimit list \<Rightarrow> json list \<Rightarrow> ScopedWeeklyLimit list" where
  "collect_scoped rfc3339 acc [] = acc"
| "collect_scoped rfc3339 acc (e # es) =
     (case scoped_entry rfc3339 e of
        None \<Rightarrow> collect_scoped rfc3339 acc es
      | Some x \<Rightarrow> collect_scoped rfc3339 (upsert_scoped x acc) es)"

definition parse_weekly_scoped_limits ::
    "(string \<Rightarrow> i64 option) \<Rightarrow> json \<Rightarrow> ScopedWeeklyLimit list" where
  "parse_weekly_scoped_limits rfc3339 usage_raw =
     (case Option.bind (json_get usage_raw ''limits'') as_array of
        None \<Rightarrow> []
      | Some limits \<Rightarrow> collect_scoped rfc3339 [] limits)"

definition scoped_legacy_backfill ::
    "ScopedWeeklyLimit list \<Rightarrow> string \<Rightarrow> (i64 option \<times> f64 option) option" where
  "scoped_legacy_backfill entries want =
     map_option (\<lambda>e. (sl_resets_at e, sl_utilization e))
       (find (\<lambda>e. eq_ignore_ascii_case (model_display_name e) want) (rev entries))"

section \<open>What belongs to the credential\<close>

text \<open>
  The identity and credential fields of a slot, as opposed to its runtime state: the fields no
  runtime update may touch.
\<close>

definition credential :: "AccountSlot \<Rightarrow> AccountSlot" where
  "credential s =
     default_slot\<lparr>cookie := cookie s, auth_method := auth_method s, account_id := account_id s,
       proxy_url := proxy_url s, token := token s, email := email s,
       account_type := account_type s, api_key_base_url := api_key_base_url s,
       api_key_secret := api_key_secret s, api_key_extra_headers := api_key_extra_headers s,
       api_key_extra_body := api_key_extra_body s, mimicry_mode := mimicry_mode s,
       mimicry_config := mimicry_config s\<rparr>"

lemma credential_reset [simp]: "credential (slot_reset now s) = credential s"
  by (simp add: slot_reset_def credential_def split: option.splits)

lemma credential_apply [simp]: "credential (apply_runtime_state p s) = credential s"
  by (simp add: apply_runtime_state_def credential_def split: prod.splits)

lemma credential_snapshot [simp]: "credential (apply_oauth_snapshot_runtime p s) = credential s"
  by (simp add: apply_oauth_snapshot_runtime_def credential_def)

lemma credential_reset_window [simp]: "credential (reset_window_usage s) = credential s"
  by (simp add: reset_window_usage_def credential_def)

lemma credential_set_reset_time [simp]: "credential (s\<lparr>reset_time := t\<rparr>) = credential s"
  by (simp add: credential_def)

lemma credential_add_usage [simp]: "credential (add_and_bucket_usage i out fam s) = credential s"
  by (simp add: add_and_bucket_usage_def credential_def Let_def)

lemma credential_eqD:
  assumes "credential s = credential t"
  shows "account_id s = account_id t" "auth_method s = auth_method t" "cookie s = cookie t"
    "token s = token t" "api_key_secret s = api_key_secret t"
  using assms by (simp_all add: credential_def default_slot_def)

lemma reset_window_usage_keeps [simp]:
  "account_id (reset_window_usage s) = account_id s"
  "auth_method (reset_window_usage s) = auth_method s"
  "reset_time (reset_window_usage s) = reset_time s"
  by (simp_all add: reset_window_usage_def)

lemma apply_runtime_state_keeps [simp]:
  "account_id (apply_runtime_state p s) = account_id s"
  "auth_method (apply_runtime_state p s) = auth_method s"
  "reset_time (apply_runtime_state p s) = rp_reset_time p"
  by (simp_all add: apply_runtime_state_def split: prod.splits)

lemma apply_oauth_snapshot_keeps [simp]:
  "account_id (apply_oauth_snapshot_runtime p s) = account_id s"
  "auth_method (apply_oauth_snapshot_runtime p s) = auth_method s"
  "reset_time (apply_oauth_snapshot_runtime p s) = rp_reset_time p"
  by (simp_all add: apply_oauth_snapshot_runtime_def)

lemma slot_reset_keeps [simp]: "account_id (slot_reset now s) = account_id s"
  by (simp add: slot_reset_def split: option.splits)

lemma slot_reset_reset_time:
  "reset_time (slot_reset now s) =
     (case reset_time s of Some t \<Rightarrow> if t \<le> now then None else Some t | None \<Rightarrow> None)"
  by (simp add: slot_reset_def split: option.splits)

section \<open>Properties\<close>

subsection \<open>Round trip of the runtime parameters\<close>

text \<open>
  The runtime parameters extracted from a slot and applied to any slot \<open>t\<close> are read back
  unchanged, the credential of \<open>t\<close> is untouched, and applying a slot's own parameters is the identity.
\<close>

theorem runtime_params_roundtrip:
  "to_runtime_params (apply_runtime_state p t) = p
   \<and> credential (apply_runtime_state p t) = credential t
   \<and> apply_runtime_state (to_runtime_params t) t = t"
proof (intro conjI)
  show "to_runtime_params (apply_runtime_state p t) = p"
    by (simp add: to_runtime_params_def apply_runtime_state_def split: prod.splits)
  show "credential (apply_runtime_state p t) = credential t"
    by (rule credential_apply)
  show "apply_runtime_state (to_runtime_params t) t = t"
    by (simp add: to_runtime_params_def apply_runtime_state_def)
qed

text \<open>
  An OAuth snapshot only moves the upstream-owned fields: the usage counters of all five
  buckets, the capability probes and the credential of the slot survive, and a second snapshot
  overrides the first completely.
\<close>

theorem oauth_snapshot_keeps_local_counters:
  "rp_buckets (to_runtime_params (apply_oauth_snapshot_runtime p s)) = rp_buckets (to_runtime_params s)
   \<and> count_tokens_allowed (apply_oauth_snapshot_runtime p s) = count_tokens_allowed s
   \<and> supports_claude_1m_sonnet (apply_oauth_snapshot_runtime p s) = supports_claude_1m_sonnet s
   \<and> supports_claude_1m_opus (apply_oauth_snapshot_runtime p s) = supports_claude_1m_opus s
   \<and> credential (apply_oauth_snapshot_runtime p s) = credential s
   \<and> apply_oauth_snapshot_runtime q (apply_oauth_snapshot_runtime p s)
       = apply_oauth_snapshot_runtime q s"
  by (simp add: to_runtime_params_def apply_oauth_snapshot_runtime_def credential_def)

subsection \<open>Usage counters\<close>

type_synonym usage_event = "u64 \<times> u64 \<times> ModelFamily"

definition add_usages :: "usage_event list \<Rightarrow> AccountSlot \<Rightarrow> AccountSlot" where
  "add_usages evs s = foldl (\<lambda>s (i, out, fam). add_and_bucket_usage i out fam s) s evs"

lemma min_min_add: "min M (min M a + b) = min M (a + (b::nat))"
  by simp

lemma saturating_fold:
  fixes g :: "'s \<Rightarrow> 'a::len word"
  assumes "\<And>s e. g (f s e) = saturating_add (g s) (w e)"
  shows "unat (g (foldl f s es)) = min (2 ^ LENGTH('a) - 1) (unat (g s) + (\<Sum>e\<leftarrow>es. unat (w e)))"
proof (induction es arbitrary: s)
  case Nil
  have "unat (g s) \<le> 2 ^ LENGTH('a) - 1"
    using unat_less_pow [of "g s"] by linarith
  then show ?case by simp
next
  case (Cons e es)
  then show ?case
    by (simp only: foldl_Cons assms unat_saturating_add list.map sum_list.Cons min_min_add add.assoc)
qed

lemma add_family_total [simp]:
  "total_input_tokens (add_family fam i out u) = total_input_tokens u"
  "total_output_tokens (add_family fam i out u) = total_output_tokens u"
  by (cases fam; simp add: add_sonnet_def add_opus_def)+

text \<open>
  What a list of reports adds to one bucket: to the totals all reports of the families the bucket counts, to
  the counters of a family the reports of that family among them, each saturating at the top of \<open>u64\<close>.
\<close>

definition bucket_of_reports ::
    "(ModelFamily \<Rightarrow> bool) \<Rightarrow> usage_event list \<Rightarrow> UsageBreakdown \<Rightarrow> UsageBreakdown \<Rightarrow> bool" where
  "bucket_of_reports counts evs u u' \<longleftrightarrow>
     (let sum = (\<lambda>p f. \<Sum>(i, out, fam)\<leftarrow>evs. if counts fam \<and> p fam then f (unat i) (unat out) else 0);
          grown = (\<lambda>get p f. unat (get u') = min (2 ^ 64 - 1) (unat (get u) + sum p f))
      in grown total_input_tokens (\<lambda>_. True) (\<lambda>i out. i)
         \<and> grown total_output_tokens (\<lambda>_. True) (\<lambda>i out. out)
         \<and> grown sonnet_input_tokens (\<lambda>fam. fam = Sonnet) (\<lambda>i out. i)
         \<and> grown sonnet_output_tokens (\<lambda>fam. fam = Sonnet) (\<lambda>i out. out)
         \<and> grown opus_input_tokens (\<lambda>fam. fam = Opus) (\<lambda>i out. i)
         \<and> grown opus_output_tokens (\<lambda>fam. fam = Opus) (\<lambda>i out. out))"

lemma saturating_family_fold:
  fixes g :: "AccountSlot \<Rightarrow> u64"
  assumes "\<And>s i out fam. g (add_and_bucket_usage i out fam s) =
    saturating_add (g s) (if p fam then f i out else 0)"
  shows "unat (g (add_usages evs s)) =
    min (2 ^ 64 - 1) (unat (g s) + (\<Sum>(i, out, fam)\<leftarrow>evs. if p fam then unat (f i out) else 0))"
proof -
  have "unat (g (add_usages evs s)) = min (2 ^ 64 - 1)
      (unat (g s) + (\<Sum>e\<leftarrow>evs. unat (case e of (i, out, fam) \<Rightarrow> if p fam then f i out else 0)))"
    unfolding add_usages_def
    by (subst saturating_fold [where 'a = 64]) (auto simp: assms split: prod.splits)
  moreover have "(\<Sum>e\<leftarrow>evs. unat (case e of (i, out, fam) \<Rightarrow> if p fam then f i out else 0))
      = (\<Sum>(i, out, fam)\<leftarrow>evs. if p fam then unat (f i out) else 0)"
    by (intro arg_cong [of _ _ sum_list] map_cong) auto
  ultimately show ?thesis by simp
qed

lemma report_counters:
  fixes i out :: u64 and fam :: ModelFamily and s :: AccountSlot
  defines "t \<equiv> add_and_bucket_usage i out fam s"
  shows "b \<in> {session_usage, weekly_usage, lifetime_usage} \<Longrightarrow>
      b t = add_family fam i out (add_total i out (b s))"
    and "weekly_sonnet_usage t = (if fam = Sonnet then add_sonnet i out (add_total i out (weekly_sonnet_usage s))
           else weekly_sonnet_usage s)"
    and "weekly_opus_usage t = (if fam = Opus then add_opus i out (add_total i out (weekly_opus_usage s))
           else weekly_opus_usage s)"
  by (cases fam; auto simp: t_def add_and_bucket_usage_def Let_def add_total_def add_sonnet_def add_opus_def)+

lemma add_family_counters:
  "sonnet_input_tokens (add_family fam i out u) =
     saturating_add (sonnet_input_tokens u) (if fam = Sonnet then i else 0)"
  "sonnet_output_tokens (add_family fam i out u) =
     saturating_add (sonnet_output_tokens u) (if fam = Sonnet then out else 0)"
  "opus_input_tokens (add_family fam i out u) =
     saturating_add (opus_input_tokens u) (if fam = Opus then i else 0)"
  "opus_output_tokens (add_family fam i out u) =
     saturating_add (opus_output_tokens u) (if fam = Opus then out else 0)"
  by (cases fam; simp add: add_sonnet_def add_opus_def)+

text \<open>
  C37: After any sequence of usage reports every one of the thirty counters of a slot is the saturated
  sum of what was reported to it: the totals of the session, weekly and lifetime buckets count all
  reports and their family counters those of the family, the weekly Sonnet bucket counts the Sonnet reports
  only and the weekly Opus bucket the Opus reports only. Saturation at the top of \<open>u64\<close> is the only loss.
\<close>

theorem usage_conservation:
  "bucket_of_reports (\<lambda>_. True) evs (session_usage s) (session_usage (add_usages evs s))
   \<and> bucket_of_reports (\<lambda>_. True) evs (weekly_usage s) (weekly_usage (add_usages evs s))
   \<and> bucket_of_reports (\<lambda>_. True) evs (lifetime_usage s) (lifetime_usage (add_usages evs s))
   \<and> bucket_of_reports (\<lambda>fam. fam = Sonnet) evs (weekly_sonnet_usage s) (weekly_sonnet_usage (add_usages evs s))
   \<and> bucket_of_reports (\<lambda>fam. fam = Opus) evs (weekly_opus_usage s) (weekly_opus_usage (add_usages evs s))"
proof -
  have all: "bucket_of_reports (\<lambda>_. True) evs (b s) (b (add_usages evs s))"
    if "b \<in> {session_usage, weekly_usage, lifetime_usage}" for b
    unfolding bucket_of_reports_def Let_def
    by (intro conjI; subst saturating_family_fold)
      (auto simp: report_counters(1) [OF that] add_family_counters add_total_def)
  have "bucket_of_reports (\<lambda>fam. fam = Sonnet) evs (weekly_sonnet_usage s) (weekly_sonnet_usage (add_usages evs s))"
    unfolding bucket_of_reports_def Let_def
    by (intro conjI; subst saturating_family_fold)
      (auto simp: report_counters(2) add_sonnet_def add_total_def)
  moreover have "bucket_of_reports (\<lambda>fam. fam = Opus) evs (weekly_opus_usage s) (weekly_opus_usage (add_usages evs s))"
    unfolding bucket_of_reports_def Let_def
    by (intro conjI; subst saturating_family_fold)
      (auto simp: report_counters(3) add_opus_def add_total_def)
  ultimately show ?thesis
    using all by simp
qed

text \<open>In every bucket the family counters stay below the totals.\<close>

definition usage_ordered :: "UsageBreakdown \<Rightarrow> bool" where
  "usage_ordered u \<longleftrightarrow>
     sonnet_input_tokens u \<le> total_input_tokens u \<and> sonnet_output_tokens u \<le> total_output_tokens u
     \<and> opus_input_tokens u \<le> total_input_tokens u \<and> opus_output_tokens u \<le> total_output_tokens u"

definition slot_usage_ordered :: "AccountSlot \<Rightarrow> bool" where
  "slot_usage_ordered s \<longleftrightarrow>
     usage_ordered (session_usage s) \<and> usage_ordered (weekly_usage s)
     \<and> usage_ordered (weekly_sonnet_usage s) \<and> usage_ordered (weekly_opus_usage s)
     \<and> usage_ordered (lifetime_usage s)"

lemma usage_ordered_default [simp]: "usage_ordered default_usage"
  by (simp add: usage_ordered_def default_usage_def)

lemma le_saturating_add: "a \<le> b \<Longrightarrow> a \<le> saturating_add b c"
  by (meson order_trans saturating_add_ge)

lemma usage_ordered_add:
  "usage_ordered u \<Longrightarrow> usage_ordered (add_family fam i out (add_total i out u))"
  by (cases fam)
     (auto simp: usage_ordered_def add_total_def add_sonnet_def add_opus_def le_saturating_add
        intro: saturating_add_mono)

lemma slot_usage_ordered_add:
  "slot_usage_ordered s \<Longrightarrow> slot_usage_ordered (add_and_bucket_usage i out fam s)"
  using usage_ordered_add [where fam = Sonnet] usage_ordered_add [where fam = Opus]
    usage_ordered_add [where fam = Other]
  by (cases fam) (simp_all add: slot_usage_ordered_def add_and_bucket_usage_def Let_def)

text \<open>The operations on the usage of a slot: a report, the end of a cooldown, and the reset of the windows.\<close>

datatype usage_op = Report u64 u64 ModelFamily | Cooldown_Over i64 | Window_Reset

fun usage_op_step :: "AccountSlot \<Rightarrow> usage_op \<Rightarrow> AccountSlot" where
  "usage_op_step s (Report i out fam) = add_and_bucket_usage i out fam s"
| "usage_op_step s (Cooldown_Over now) = slot_reset now s"
| "usage_op_step s Window_Reset = reset_window_usage s"

lemma slot_usage_ordered_op: "slot_usage_ordered s \<Longrightarrow> slot_usage_ordered (usage_op_step s op)"
proof (cases op)
  case (Cooldown_Over now)
  assume "slot_usage_ordered s"
  with Cooldown_Over show ?thesis
    by (simp add: slot_usage_ordered_def slot_reset_def split: option.split)
next
  case Window_Reset
  assume "slot_usage_ordered s"
  with Window_Reset show ?thesis
    by (simp add: slot_usage_ordered_def reset_window_usage_def)
qed (simp add: slot_usage_ordered_add)

text \<open>
  Starting from a slot whose family counters are below its totals, any sequence of reports, ends of a
  cooldown and window resets, in any order, keeps them below: no bucket ever shows more Sonnet (or Opus)
  tokens than tokens overall.
\<close>

theorem usage_order_invariant:
  assumes "slot_usage_ordered s"
  shows "slot_usage_ordered (foldl usage_op_step s ops)"
  using assms by (induction ops arbitrary: s) (simp_all add: slot_usage_ordered_op)

theorem usage_order_invariant_witness:
  "slot_usage_ordered default_slot
   \<and> slot_usage_ordered (foldl usage_op_step default_slot
        [Report 5 7 Sonnet, Window_Reset, Report 1 0 Opus, Cooldown_Over 3])"
proof -
  have "slot_usage_ordered default_slot"
    by (simp add: slot_usage_ordered_def default_slot_def)
  then show ?thesis
    using usage_order_invariant by blast
qed

subsection \<open>Scoped weekly limits\<close>

abbreviation folded_name :: "ScopedWeeklyLimit \<Rightarrow> string" where
  "folded_name e \<equiv> to_ascii_lowercase (model_display_name e)"

definition scoped_entries :: "(string \<Rightarrow> i64 option) \<Rightarrow> json list \<Rightarrow> ScopedWeeklyLimit list" where
  "scoped_entries rfc3339 limits = List.map_filter (scoped_entry rfc3339) limits"

lemma scoped_entries_Cons [simp]:
  "scoped_entries rfc (e # es) =
     (case scoped_entry rfc e of None \<Rightarrow> scoped_entries rfc es
      | Some x \<Rightarrow> x # scoped_entries rfc es)"
  "scoped_entries rfc [] = []"
  by (simp_all add: scoped_entries_def map_filter_simps split: option.splits)

lemma set_upsert_scoped: "set (upsert_scoped x acc) \<subseteq> insert x (set acc)"
  by (induction acc) auto

lemma folded_upsert_scoped:
  "folded_name ` set (upsert_scoped x acc) = insert (folded_name x) (folded_name ` set acc)"
  by (induction acc) (auto simp: eq_ignore_ascii_case_def)

lemma distinct_upsert_scoped:
  "distinct (map folded_name acc) \<Longrightarrow> distinct (map folded_name (upsert_scoped x acc))"
  by (induction acc) (auto simp: eq_ignore_ascii_case_def folded_upsert_scoped)

lemma distinct_collect_scoped:
  "distinct (map folded_name acc) \<Longrightarrow> distinct (map folded_name (collect_scoped rfc acc es))"
  by (induction es arbitrary: acc) (auto simp: distinct_upsert_scoped split: option.splits)

lemma set_collect_scoped:
  "set (collect_scoped rfc acc es) \<subseteq> set acc \<union> set (scoped_entries rfc es)"
proof (induction es arbitrary: acc)
  case (Cons e es)
  show ?case
  proof (cases "scoped_entry rfc e")
    case None
    with Cons show ?thesis by simp
  next
    case (Some x)
    with Cons [of "upsert_scoped x acc"] set_upsert_scoped [of x acc] show ?thesis by auto
  qed
qed simp

lemma backfill_eq:
  "scoped_legacy_backfill es want =
     map_option (\<lambda>e. (sl_resets_at e, sl_utilization e))
       (find (\<lambda>e. folded_name e = to_ascii_lowercase want) (rev es))"
  by (simp add: scoped_legacy_backfill_def eq_ignore_ascii_case_def)

lemma find_append: "find p (xs @ ys) = (case find p xs of None \<Rightarrow> find p ys | Some x \<Rightarrow> Some x)"
  by (induction xs) auto

lemma find_rev_upsert:
  "distinct (map folded_name acc) \<Longrightarrow>
   find (\<lambda>e. folded_name e = k) (rev (upsert_scoped x acc)) =
     (if folded_name x = k then Some x else find (\<lambda>e. folded_name e = k) (rev acc))"
proof (induction acc)
  case (Cons e es)
  have *: "find (\<lambda>e. folded_name e = k) (rev es) = None" if "folded_name e = k"
    using Cons.prems that by (auto simp: find_None_iff) (metis image_eqI)
  from Cons * show ?case
    by (auto simp: find_append eq_ignore_ascii_case_def split: option.splits)
qed simp

lemma find_rev_collect:
  "distinct (map folded_name acc) \<Longrightarrow>
   find (\<lambda>e. folded_name e = k) (rev (collect_scoped rfc acc es)) =
     find (\<lambda>e. folded_name e = k) (rev (acc @ scoped_entries rfc es))"
proof (induction es arbitrary: acc)
  case (Cons e es)
  show ?case
  proof (cases "scoped_entry rfc e")
    case None
    with Cons show ?thesis by simp
  next
    case (Some x)
    with Cons.IH [OF distinct_upsert_scoped [OF Cons.prems, of x]] Cons.prems
    show ?thesis by (simp add: find_append find_rev_upsert split: option.splits)
  qed
qed simp

lemma scoped_entry_wf:
  "scoped_entry rfc e = Some x \<Longrightarrow>
   model_display_name x \<noteq> [] \<and> (sl_resets_at x \<noteq> None \<or> sl_utilization x \<noteq> None)"
  by (auto simp: scoped_entry_def Let_def split: if_splits option.splits)

lemma scoped_entries_wf:
  "x \<in> set (scoped_entries rfc es) \<Longrightarrow>
   model_display_name x \<noteq> [] \<and> (sl_resets_at x \<noteq> None \<or> sl_utilization x \<noteq> None)"
  by (induction es) (auto dest: scoped_entry_wf split: option.splits)

text \<open>
  Whatever JSON the usage endpoint returns, the extracted limits carry pairwise different model
  names (ASCII case ignored), each non-empty and with a reset time or a utilisation, and
  removing duplicates is invisible to the legacy back-fill: for every name it finds exactly the last
  entry of that name in the response.
\<close>

theorem scoped_limits_correct:
  fixes limits :: "json list" and rfc :: "string \<Rightarrow> i64 option"
  defines "res \<equiv> parse_weekly_scoped_limits rfc (JObj [(''limits'', JArr limits)])"
  shows "distinct (map folded_name res)
    \<and> (\<forall>e \<in> set res. e \<in> set (scoped_entries rfc limits) \<and> model_display_name e \<noteq> []
         \<and> (sl_resets_at e \<noteq> None \<or> sl_utilization e \<noteq> None))
    \<and> scoped_legacy_backfill res want = scoped_legacy_backfill (scoped_entries rfc limits) want"
proof -
  have res: "res = collect_scoped rfc [] limits"
    by (simp add: res_def parse_weekly_scoped_limits_def)
  have "set res \<subseteq> set (scoped_entries rfc limits)"
    using set_collect_scoped [of rfc "[]" limits] res by simp
  then show ?thesis
    using res distinct_collect_scoped [of "[]" rfc limits]
      find_rev_collect [of "[]" "to_ascii_lowercase want" rfc limits]
    by (auto simp: backfill_eq dest: scoped_entries_wf)
qed

definition sample_limits :: "json list" where
  "sample_limits =
     [JObj [(''kind'', JStr ''weekly_scoped''), (''percent'', JInt 40),
            (''scope'', JObj [(''model'', JObj [(''display_name'', JStr '' Opus'')])])],
      JObj [(''kind'', JStr ''session''), (''percent'', JInt 2)],
      JObj [(''kind'', JStr ''weekly_scoped''), (''percent'', JInt 98),
            (''scope'', JObj [(''model'', JObj [(''display_name'', JStr ''OPUS'')])])]]"

theorem scoped_limits_correct_witness:
  "scoped_legacy_backfill
     (parse_weekly_scoped_limits (\<lambda>_. None) (JObj [(''limits'', JArr sample_limits)])) ''opus''
   = Some (None, Some 98)"
proof -
  have "scoped_legacy_backfill (scoped_entries (\<lambda>_. None) sample_limits) ''opus''
    = Some (None, Some 98)"
    unfolding scoped_entries_def by code_simp
  with scoped_limits_correct [of "\<lambda>_. None" sample_limits "''opus''"] show ?thesis
    by simp
qed

end
