(* ===== verification/Account_Failure.thy ===== *)
theory Account_Failure
  imports Clewdr_Error Account_Slot
begin

text \<open>
  The account-failure classifier (\<open>src/src/services/account_error.rs\<close>), the translation of an
  upstream HTTP response into an error (\<open>claude_error_from_response_parts\<close> in \<open>src/src/error.rs\<close>)
  and the log status of an error (\<open>error_to_log_status\<close> in \<open>src/src/api/common.rs\<close>).

  External functions are parameters: \<open>display\<close> (the \<open>Display\<close> text of an error), \<open>json_text\<close>
  (\<open>serde_json\<close> printing a value), \<open>parse_body\<close> (\<open>serde_json\<close> reading a \<open>ClaudeError\<close>) and \<open>ts_valid\<close>
  (whether \<open>chrono::DateTime::from_timestamp\<close> accepts a timestamp).
\<close>

section \<open>Data\<close>

datatype AccountFailureAction =
    TerminalAuth
  | TerminalDisabled
  | Cooldown i64
  | TransientUpstream
  | InternalError

datatype AccountNormalizedReason =
    NR_OauthRefreshInvalid
  | NR_OauthOrgAuthNotAllowed
  | NR_OauthProfileRejected
  | NR_OauthUsageRejected
  | NR_CookieMembershipMissing
  | NR_CookieNoChatCapability
  | NR_OrganizationDisabled
  | NR_AccountBanned
  | NR_FreeTier
  | NR_RateLimited i64
  | NR_Restricted i64
  | NR_UpstreamAuthRejected
  | NR_UpstreamHttp u16
  | NR_UpstreamTransient
  | NR_InternalError

datatype FailureSource =
    FS_Messages | FS_CountTokens | FS_Test | FS_ProbeCookie | FS_ProbeOauth
  | FS_OauthRefresh | FS_Bootstrap

fun failure_source_as_str :: "FailureSource \<Rightarrow> string" where
  "failure_source_as_str FS_Messages = ''messages''"
| "failure_source_as_str FS_CountTokens = ''count_tokens''"
| "failure_source_as_str FS_Test = ''test''"
| "failure_source_as_str FS_ProbeCookie = ''probe_cookie''"
| "failure_source_as_str FS_ProbeOauth = ''probe_oauth''"
| "failure_source_as_str FS_OauthRefresh = ''oauth_refresh''"
| "failure_source_as_str FS_Bootstrap = ''bootstrap''"

record AccountFailureContext =
  fc_action :: AccountFailureAction
  fc_normalized_reason :: AccountNormalizedReason
  fc_source :: FailureSource
  fc_stage :: "string option"
  fc_upstream_http_status :: "u16 option"
  fc_raw_message :: string

record AccountFailureContextPersisted =
  fp_action :: AccountFailureAction
  fp_normalized_reason :: AccountNormalizedReason
  fp_normalized_reason_type :: string
  fp_source :: FailureSource
  fp_stage :: "string option"
  fp_upstream_http_status :: "u16 option"
  fp_raw_message :: string

fun to_log_status :: "AccountFailureAction \<Rightarrow> string" where
  "to_log_status TerminalAuth = ''auth_rejected''"
| "to_log_status TerminalDisabled = ''auth_rejected''"
| "to_log_status (Cooldown t) = ''no_account_available''"
| "to_log_status TransientUpstream = ''upstream_error''"
| "to_log_status InternalError = ''internal_error''"

fun as_type_str :: "AccountNormalizedReason \<Rightarrow> string" where
  "as_type_str NR_OauthRefreshInvalid = ''oauth_refresh_invalid''"
| "as_type_str NR_OauthOrgAuthNotAllowed = ''oauth_org_auth_not_allowed''"
| "as_type_str NR_OauthProfileRejected = ''oauth_profile_rejected''"
| "as_type_str NR_OauthUsageRejected = ''oauth_usage_rejected''"
| "as_type_str NR_CookieMembershipMissing = ''cookie_membership_missing''"
| "as_type_str NR_CookieNoChatCapability = ''cookie_no_chat_capability''"
| "as_type_str NR_OrganizationDisabled = ''organization_disabled''"
| "as_type_str NR_AccountBanned = ''account_banned''"
| "as_type_str NR_FreeTier = ''free_tier''"
| "as_type_str (NR_RateLimited t) = ''rate_limited''"
| "as_type_str (NR_Restricted t) = ''restricted''"
| "as_type_str NR_UpstreamAuthRejected = ''upstream_auth_rejected''"
| "as_type_str (NR_UpstreamHttp s) = ''upstream_http_error''"
| "as_type_str NR_UpstreamTransient = ''upstream_transient''"
| "as_type_str NR_InternalError = ''internal_error''"

fun to_reason :: "AccountNormalizedReason \<Rightarrow> Reason option" where
  "to_reason NR_OauthRefreshInvalid = Some Null"
| "to_reason NR_OauthOrgAuthNotAllowed = Some Null"
| "to_reason NR_OauthProfileRejected = Some Null"
| "to_reason NR_OauthUsageRejected = Some Null"
| "to_reason NR_CookieMembershipMissing = Some Null"
| "to_reason NR_CookieNoChatCapability = Some Null"
| "to_reason NR_UpstreamAuthRejected = Some Null"
| "to_reason NR_OrganizationDisabled = Some Disabled"
| "to_reason NR_AccountBanned = Some Banned"
| "to_reason NR_FreeTier = Some Free"
| "to_reason (NR_RateLimited t) = Some (TooManyRequest t)"
| "to_reason (NR_Restricted t) = Some (Restricted t)"
| "to_reason (NR_UpstreamHttp s) = None"
| "to_reason NR_UpstreamTransient = None"
| "to_reason NR_InternalError = None"

definition to_persisted :: "AccountFailureContext \<Rightarrow> AccountFailureContextPersisted" where
  "to_persisted ctx =
     \<lparr>fp_action = fc_action ctx, fp_normalized_reason = fc_normalized_reason ctx,
      fp_normalized_reason_type = as_type_str (fc_normalized_reason ctx),
      fp_source = fc_source ctx, fp_stage = fc_stage ctx,
      fp_upstream_http_status = fc_upstream_http_status ctx, fp_raw_message = fc_raw_message ctx\<rparr>"

section \<open>Classification\<close>

definition refine_null_reason :: "FailureSource \<Rightarrow> string option \<Rightarrow> AccountNormalizedReason" where
  "refine_null_reason source stage =
     (if source = FS_OauthRefresh then NR_OauthRefreshInvalid
      else if source = FS_ProbeOauth \<and> stage = Some ''refresh'' then NR_OauthRefreshInvalid
      else if source = FS_ProbeOauth \<and> (stage = Some ''profile'' \<or> stage = Some ''bootstrap'')
        then NR_OauthProfileRejected
      else if source = FS_ProbeOauth \<and> stage = Some ''usage'' then NR_OauthUsageRejected
      else if (source = FS_Bootstrap \<or> source = FS_ProbeCookie) \<and> stage = Some ''memberships''
        then NR_CookieMembershipMissing
      else if (source = FS_Bootstrap \<or> source = FS_ProbeCookie) \<and> stage = Some ''chat_capability''
        then NR_CookieNoChatCapability
      else NR_OauthOrgAuthNotAllowed)"

definition extract_status_code :: "string \<Rightarrow> u16 option" where
  "extract_status_code msg =
     (case str_find msg ''status '' of
        None \<Rightarrow> None
      | Some idx \<Rightarrow>
          let after = drop (idx + length ''status '') msg;
              digits = takeWhile is_ascii_digit after
          in if length digits \<noteq> 3 then None
             else case parse_digits digits of
                    None \<Rightarrow> None
                  | Some status \<Rightarrow> if 100 \<le> status \<and> status < 600 then Some status else None)"

definition classify_whatever_message ::
    "string \<Rightarrow> (AccountFailureAction \<times> AccountNormalizedReason \<times> u16 option) option" where
  "classify_whatever_message message =
     (let msg = to_ascii_lowercase message;
          refresh_token_invalid =
            str_contains msg ''invalid_grant''
            \<or> str_contains msg ''refresh token not found''
            \<or> (str_contains msg ''refresh token''
                 \<and> (str_contains msg ''invalid'' \<or> str_contains msg ''expired''))
            \<or> (str_contains msg ''access token''
                 \<and> (str_contains msg ''expired'' \<or> str_contains msg ''invalid''))
      in if refresh_token_invalid then Some (TerminalAuth, NR_OauthRefreshInvalid, None)
         else case extract_status_code msg of
                Some status \<Rightarrow>
                  Some (if status = 401 \<or> status = 403
                        then (TerminalAuth, NR_UpstreamAuthRejected, Some status)
                        else (TransientUpstream, NR_UpstreamHttp status, Some status))
              | None \<Rightarrow> None)"

text \<open>The lower-cased text of an error message field: the string itself, or the printed JSON.\<close>

definition message_lower :: "(json \<Rightarrow> string) \<Rightarrow> json \<Rightarrow> string" where
  "message_lower json_text m =
     (case as_str m of Some s \<Rightarrow> to_ascii_lowercase s | None \<Rightarrow> to_ascii_lowercase (json_text m))"

fun classify_error ::
    "(json \<Rightarrow> string) \<Rightarrow> ClewdrError \<Rightarrow> FailureSource \<Rightarrow> string option
      \<Rightarrow> AccountFailureAction \<times> AccountNormalizedReason \<times> u16 option" where
  "classify_error json_text (InvalidCookie Free) source stage = (TerminalDisabled, NR_FreeTier, None)"
| "classify_error json_text (InvalidCookie Disabled) source stage =
     (TerminalDisabled, NR_OrganizationDisabled, Some 400)"
| "classify_error json_text (InvalidCookie Banned) source stage = (TerminalAuth, NR_AccountBanned, None)"
| "classify_error json_text (InvalidCookie Null) source stage =
     (TerminalAuth, refine_null_reason source stage, None)"
| "classify_error json_text (InvalidCookie (TooManyRequest ts)) source stage =
     (Cooldown ts, NR_RateLimited ts, Some 429)"
| "classify_error json_text (InvalidCookie (Restricted ts)) source stage =
     (Cooldown ts, NR_Restricted ts, None)"
| "classify_error json_text (ClaudeHttpError code body) source stage =
     (if code = 400 then
        if str_contains (message_lower json_text (eb_message body)) ''organization has been disabled''
        then (TerminalDisabled, NR_OrganizationDisabled, Some 400)
        else (TransientUpstream, NR_UpstreamHttp 400, Some 400)
      else if code = 401 \<or> code = 403 then (TerminalAuth, NR_UpstreamAuthRejected, Some code)
      else (TransientUpstream, NR_UpstreamHttp code, Some code))"
| "classify_error json_text (Whatever message source_err) source stage =
     (case classify_whatever_message message of
        Some v \<Rightarrow> v | None \<Rightarrow> (InternalError, NR_InternalError, None))"
| "classify_error json_text (RequestTokenError e) source stage =
     (TerminalAuth, NR_OauthRefreshInvalid, None)"
| "classify_error json_text (WreqError m e) source stage = (TransientUpstream, NR_UpstreamTransient, None)"
| "classify_error json_text (UpstreamTimeout m) source stage =
     (TransientUpstream, NR_UpstreamTransient, None)"
| "classify_error json_text (EventSourceAxumError e) source stage =
     (TransientUpstream, NR_UpstreamTransient, None)"
| "classify_error json_text (EventSourceRquestError e) source stage =
     (TransientUpstream, NR_UpstreamTransient, None)"
| "classify_error json_text (HttpError e) source stage = (TransientUpstream, NR_UpstreamTransient, None)"
| "classify_error json_text _ source stage = (InternalError, NR_InternalError, None)"

fun is_cooldown :: "AccountFailureAction \<Rightarrow> bool" where
  "is_cooldown (Cooldown t) = True"
| "is_cooldown _ = False"

definition classify_account_failure ::
    "(ClewdrError \<Rightarrow> string) \<Rightarrow> (json \<Rightarrow> string) \<Rightarrow> ClewdrError \<Rightarrow> FailureSource \<Rightarrow> string option
      \<Rightarrow> AuthMethod option \<Rightarrow> AccountFailureContext" where
  "classify_account_failure display json_text err source stage am =
     (case classify_error json_text err source stage of
        (action0, nr, status) \<Rightarrow>
          \<lparr>fc_action = (if am = Some ApiKey \<and> is_cooldown action0 then TransientUpstream else action0),
           fc_normalized_reason = nr, fc_source = source, fc_stage = stage,
           fc_upstream_http_status = status, fc_raw_message = display err\<rparr>)"

section \<open>Upstream responses as errors\<close>

text \<open>\<open>message["resetsAt"].as_i64()\<close>; indexing a non-object gives \<open>Null\<close>.\<close>

definition resets_at_of :: "json \<Rightarrow> i64 option" where
  "resets_at_of m =
     (case json_get m ''resetsAt'' of
        Some (JInt n) \<Rightarrow> if is_i64 n then Some n else None
      | _ \<Rightarrow> None)"

definition claude_error_from_response_parts ::
    "i64 \<Rightarrow> (i64 \<Rightarrow> bool) \<Rightarrow> (json \<Rightarrow> string) \<Rightarrow> (string \<Rightarrow> ClaudeErrorBody option)
      \<Rightarrow> u16 \<Rightarrow> string option \<Rightarrow> string \<Rightarrow> ClewdrError" where
  "claude_error_from_response_parts now ts_valid json_text parse_body status reset_header text =
     (if status = 302 then
        ClaudeHttpError status (error_body (JStr ''Blocked, check your IP address'') ''error'' status)
      else case parse_body text of
        None \<Rightarrow>
          ClaudeHttpError status
            (error_body (JStr (''Unknown error: '' @ text)) ''error_parse_error_body'' status)
      | Some err \<Rightarrow>
          let msg = message_lower json_text (eb_message err) in
          if status = 400 \<and> str_contains msg ''organization has been disabled''
          then InvalidCookie Disabled
          else if (status = 401 \<or> status = 403)
             \<and> str_contains msg ''oauth authentication is currently not allowed for this organization''
          then InvalidCookie Null
          else if status = 429 then
            if str_contains msg ''extra usage is required for long context requests''
            then ClaudeHttpError status err
            else
              case (case resets_at_of (eb_message err) of
                      Some ts \<Rightarrow> Some ts
                    | None \<Rightarrow> Option.bind reset_header parse_i64) of
                Some ts \<Rightarrow>
                  if ts_valid ts then InvalidCookie (TooManyRequest ts) else TimestampError ts
              | None \<Rightarrow> InvalidCookie (TooManyRequest (now + 18000))
          else ClaudeHttpError status err)"

section \<open>Log status\<close>

fun error_to_log_status_direct :: "ClewdrError \<Rightarrow> (string \<times> u16) option" where
  "error_to_log_status_direct QuotaExceeded = Some (''quota_rejected'', 429)"
| "error_to_log_status_direct UserConcurrencyExceeded = Some (''user_concurrency_rejected'', 429)"
| "error_to_log_status_direct RpmExceeded = Some (''rpm_rejected'', 429)"
| "error_to_log_status_direct UpstreamCoolingDown = Some (''no_account_available'', 429)"
| "error_to_log_status_direct NoValidUpstreamAccounts = Some (''no_account_available'', 503)"
| "error_to_log_status_direct TooManyRetries = Some (''no_account_available'', 504)"
| "error_to_log_status_direct (UpstreamTimeout m) = Some (''upstream_error'', 504)"
| "error_to_log_status_direct _ = None"

definition error_to_log_status ::
    "(ClewdrError \<Rightarrow> string) \<Rightarrow> (json \<Rightarrow> string) \<Rightarrow> ClewdrError \<Rightarrow> string \<times> u16" where
  "error_to_log_status display json_text err =
     (case error_to_log_status_direct err of
        Some r \<Rightarrow> r
      | None \<Rightarrow>
          let ctx = classify_account_failure display json_text err FS_Messages None None
          in (to_log_status (fc_action ctx),
              case fc_action ctx of
                TerminalAuth \<Rightarrow> (case fc_upstream_http_status ctx of Some s \<Rightarrow> s | None \<Rightarrow> 400)
              | TerminalDisabled \<Rightarrow> (case fc_upstream_http_status ctx of Some s \<Rightarrow> s | None \<Rightarrow> 400)
              | Cooldown t \<Rightarrow> 429
              | TransientUpstream \<Rightarrow> (case fc_upstream_http_status ctx of Some s \<Rightarrow> s | None \<Rightarrow> 502)
              | InternalError \<Rightarrow> 500))"

section \<open>Properties\<close>

text \<open>How a scheduling action and the legacy reason it is persisted with go together.\<close>

fun action_reason_ok :: "AccountFailureAction \<Rightarrow> Reason option \<Rightarrow> bool" where
  "action_reason_ok TerminalAuth r \<longleftrightarrow> r = Some Null \<or> r = Some Banned"
| "action_reason_ok TerminalDisabled r \<longleftrightarrow> r = Some Free \<or> r = Some Disabled"
| "action_reason_ok (Cooldown t) r \<longleftrightarrow> r = Some (TooManyRequest t) \<or> r = Some (Restricted t)"
| "action_reason_ok TransientUpstream r \<longleftrightarrow> r = None"
| "action_reason_ok InternalError r \<longleftrightarrow> r = None"

lemma to_reason_refine_null: "to_reason (refine_null_reason source stage) = Some Null"
  by (simp add: refine_null_reason_def)

lemma whatever_coherent:
  "classify_whatever_message m = Some (a, nr, st) \<Longrightarrow> action_reason_ok a (to_reason nr)"
  by (auto simp: classify_whatever_message_def Let_def split: if_splits option.splits)

lemma classify_error_coherent:
  "classify_error jt err source stage = (a, nr, st) \<Longrightarrow> action_reason_ok a (to_reason nr)"
proof (cases err)
  case (InvalidCookie r)
  moreover assume "classify_error jt err source stage = (a, nr, st)"
  ultimately show ?thesis by (cases r) (auto simp: to_reason_refine_null)
next
  case (Whatever m e)
  moreover assume "classify_error jt err source stage = (a, nr, st)"
  ultimately show ?thesis by (auto dest: whatever_coherent split: option.splits)
qed (auto split: if_splits)

lemma classify_error_not_whatever_cooldown:
  "classify_error jt err source stage = (Cooldown t, nr, st) \<Longrightarrow>
   err = InvalidCookie (TooManyRequest t) \<or> err = InvalidCookie (Restricted t)"
proof (cases err)
  case (InvalidCookie r)
  moreover assume "classify_error jt err source stage = (Cooldown t, nr, st)"
  ultimately show ?thesis by (cases r) auto
next
  case (Whatever m e)
  moreover assume "classify_error jt err source stage = (Cooldown t, nr, st)"
  ultimately show ?thesis
    by (auto simp: classify_whatever_message_def Let_def split: option.splits if_splits)
qed (auto split: if_splits)

text \<open>
  C34: For every error, entry point, stage and account kind the scheduling action and the reason that
  is persisted agree: a terminal verdict carries a terminal reason, a cooldown carries its own reset
  time, transient and internal failures carry no reason, so they cannot be persisted as an invalid reason.
  The only exception is the pay-as-you-go downgrade, where the action is transient and the display
  reason keeps the rate limit; an API-key account is never put into cooldown.
\<close>

theorem classifier_coherent:
  fixes err :: ClewdrError and am :: "AuthMethod option" and display and jt and source and stage
  defines "ctx \<equiv> classify_account_failure display jt err source stage am"
  shows "(action_reason_ok (fc_action ctx) (to_reason (fc_normalized_reason ctx))
          \<or> (am = Some ApiKey \<and> fc_action ctx = TransientUpstream
             \<and> (\<exists>t. to_reason (fc_normalized_reason ctx) \<in> {Some (TooManyRequest t), Some (Restricted t)})))
         \<and> (is_cooldown (fc_action ctx) \<longrightarrow> am \<noteq> Some ApiKey)"
proof -
  obtain a nr st where c: "classify_error jt err source stage = (a, nr, st)"
    by (cases "classify_error jt err source stage") auto
  from classify_error_coherent [OF c] show ?thesis
    by (cases a) (auto simp: ctx_def classify_account_failure_def c)
qed

theorem classifier_coherent_witness:
  "fc_action (classify_account_failure (\<lambda>_. []) (\<lambda>_. []) (InvalidCookie (TooManyRequest 9))
      FS_Messages None (Some OAuth)) = Cooldown 9
   \<and> Some OAuth \<noteq> Some ApiKey"
  using classifier_coherent [of "\<lambda>_. []" "\<lambda>_. []" "InvalidCookie (TooManyRequest 9)" FS_Messages None
      "Some OAuth"]
  by (simp add: classify_account_failure_def)

text \<open>
  The status code read out of a wrapped message is a proper HTTP status, and it is the three
  digits that follow the first occurrence of the word ``status'': a longer digit run is not cut down to
  a prefix.
\<close>

theorem extract_status_code_sound:
  assumes "extract_status_code msg = Some n"
  shows "\<exists>pre ds rest. msg = pre @ ''status '' @ ds @ rest \<and> length ds = 3 \<and> list_all is_ascii_digit ds
    \<and> (rest = [] \<or> \<not> is_ascii_digit (hd rest)) \<and> n = digits_val ds \<and> 100 \<le> n \<and> n < 600"
proof -
  from assms obtain idx where idx: "str_find msg ''status '' = Some idx"
    by (auto simp: extract_status_code_def split: option.splits)
  define after where "after = drop (idx + length ''status '') msg"
  let ?ds = "takeWhile is_ascii_digit after" and ?rest = "dropWhile is_ascii_digit after"
  have found: "msg = take idx msg @ ''status '' @ after"
    using str_find_SomeD [OF idx] unfolding after_def .
  have "length ?ds = 3" "n = digits_val ?ds" "100 \<le> n" "n < 600"
    using assms idx
    by (auto simp: extract_status_code_def after_def parse_digits_def Let_def split: if_splits)
  moreover have "list_all is_ascii_digit ?ds"
    by (auto simp: list_all_iff dest: set_takeWhileD)
  moreover have "?rest = [] \<or> \<not> is_ascii_digit (hd ?rest)"
    using hd_dropWhile [of is_ascii_digit after] by blast
  moreover have "msg = take idx msg @ ''status '' @ ?ds @ ?rest"
    using found by simp
  ultimately show ?thesis by blast
qed

theorem extract_status_code_sound_witness:
  "extract_status_code ''failed with status 503: x'' = Some 503
   \<and> (\<exists>pre ds rest. ''failed with status 503: x'' = pre @ ''status '' @ ds @ rest \<and> length ds = 3
        \<and> list_all is_ascii_digit ds \<and> (rest = [] \<or> \<not> is_ascii_digit (hd rest))
        \<and> 503 = digits_val ds \<and> 100 \<le> (503::nat) \<and> (503::nat) < 600)"
proof -
  have "extract_status_code ''failed with status 503: x'' = Some 503" by code_simp
  from this extract_status_code_sound [OF this] show ?thesis by blast
qed

text \<open>
  The scheduling verdict does not depend on where an upstream rejection is recognised: for a
  parsed body with status 400, 401 or 403, classifying the error that \<open>claude_error_from_response_parts\<close>
  builds (which phrase-matches some bodies into an invalid-cookie error) gives the same action, the
  same API-key downgrade and the same request-log status as classifying the bare HTTP error.
\<close>

theorem phrase_match_same_verdict:
  fixes now and tv and jt and parse_body and status and hdr and raw
  assumes "parse_body raw = Some body" and "status = 400 \<or> status = 401 \<or> status = 403"
  defines "err \<equiv> claude_error_from_response_parts now tv jt parse_body status hdr raw"
  shows "fc_action (classify_account_failure d jt err source stage am)
           = fc_action (classify_account_failure d jt (ClaudeHttpError status body) source stage am)
         \<and> fst (error_to_log_status d jt err)
           = fst (error_to_log_status d jt (ClaudeHttpError status body))"
proof -
  have cases: "err = ClaudeHttpError status body
    \<or> (status = 400 \<and> err = InvalidCookie Disabled
        \<and> str_contains (message_lower jt (eb_message body)) ''organization has been disabled'')
    \<or> ((status = 401 \<or> status = 403) \<and> err = InvalidCookie Null)"
    using assms(1,2) unfolding err_def claude_error_from_response_parts_def Let_def
    by (auto split: if_splits)
  then show ?thesis
    by (auto simp: classify_account_failure_def error_to_log_status_def)
qed

theorem phrase_match_same_verdict_witness:
  "fc_action (classify_account_failure (\<lambda>_. []) (\<lambda>_. [])
      (claude_error_from_response_parts 0 (\<lambda>_. True) (\<lambda>_. [])
         (\<lambda>_. Some (error_body (JStr ''This Organization has been disabled.'') ''e'' 400)) 400 None [])
      FS_Messages None None) = TerminalDisabled"
proof -
  let ?b = "error_body (JStr ''This Organization has been disabled.'') ''e'' 400"
  have "fc_action (classify_account_failure (\<lambda>_. []) (\<lambda>_. []) (ClaudeHttpError 400 ?b)
      FS_Messages None None) = TerminalDisabled"
    by code_simp
  with phrase_match_same_verdict [of "\<lambda>_. Some ?b" "[]" ?b 400 "\<lambda>_. []" "\<lambda>_. []" 0 "\<lambda>_. True"
      None FS_Messages None None]
  show ?thesis by simp
qed

text \<open>
  The verdict on a parsed 429 whose message is not the long-context feature gate: an account that is
  not a key account is parked until \<open>resetsAt\<close> of the body if present, else until the reset header, else for
  five hours; a key account is not parked; an unrepresentable timestamp is an internal error and
  parks nothing.
\<close>

theorem rate_limit_cooldown:
  fixes body and hdr
  assumes "parse_body raw = Some body"
    and "\<not> str_contains (message_lower jt (eb_message body))
           ''extra usage is required for long context requests''"
  defines "ts \<equiv> (case resets_at_of (eb_message body) of Some t \<Rightarrow> Some t
                 | None \<Rightarrow> Option.bind hdr parse_i64)"
  shows "fc_action (classify_account_failure d jt
           (claude_error_from_response_parts now tv jt parse_body 429 hdr raw) source stage am)
         = (case ts of
              None \<Rightarrow> if am = Some ApiKey then TransientUpstream else Cooldown (now + 18000)
            | Some t \<Rightarrow> if \<not> tv t then InternalError
                else if am = Some ApiKey then TransientUpstream else Cooldown t)"
  using assms
  by (auto simp: claude_error_from_response_parts_def Let_def classify_account_failure_def
      split: option.splits)

theorem rate_limit_cooldown_witness:
  "fc_action (classify_account_failure (\<lambda>_. []) (\<lambda>_. [])
      (claude_error_from_response_parts 5 (\<lambda>_. True) (\<lambda>_. [])
         (\<lambda>_. Some (error_body (JStr ''slow down'') ''e'' 429)) 429 (Some ''1700'') [])
      FS_Messages None None) = Cooldown 1700"
proof -
  let ?b = "error_body (JStr ''slow down'') ''e'' 429"
  have 1: "\<not> str_contains (message_lower (\<lambda>_. []) (eb_message ?b))
      ''extra usage is required for long context requests''"
    by code_simp
  have 2: "resets_at_of (eb_message ?b) = None" "parse_i64 ''1700'' = Some 1700"
    by code_simp+
  show ?thesis
    using rate_limit_cooldown [of "\<lambda>_. Some ?b" "[]" ?b "\<lambda>_. []" "\<lambda>_. []" 5 "\<lambda>_. True"
        "Some ''1700''" FS_Messages None None] 1 2
    by simp
qed

end
