(* ===== verification/Cookie_Parse.thy ===== *)
theory Cookie_Parse
  imports Clewdr_Error Account_Slot
begin

text \<open>
  Parsing a session cookie (\<open>impl FromStr for ClewdrCookie\<close> in \<open>src/src/config/cookie.rs\<close>). The two
  regular expressions of the source are written out as matchers with the leftmost, greedy
  semantics of the regex crate.
\<close>

definition cookie_char :: "char \<Rightarrow> bool" where
  "cookie_char c \<longleftrightarrow> is_ascii_alphanumeric c \<or> c = CHR ''_'' \<or> c = CHR ''-''"

text \<open>\<open>[0-9A-Za-z_-]{n}-[0-9A-Za-z_-]{6}AA\<close> at the start of a string; it consumes \<open>n + 9\<close> bytes.\<close>

definition body_at :: "nat \<Rightarrow> string \<Rightarrow> bool" where
  "body_at n s \<longleftrightarrow>
     n + 9 \<le> length s \<and> list_all cookie_char (take n s) \<and> s ! n = CHR ''-''
     \<and> list_all cookie_char (take 6 (drop (n + 1) s)) \<and> take 2 (drop (n + 7) s) = ''AA''"

text \<open>The repetition \<open>{86,120}\<close> is greedy: the largest count that lets the rest match.\<close>

definition body_counts :: "nat list" where
  "body_counts = [86..<121]"

definition greedy_body :: "string \<Rightarrow> nat option" where
  "greedy_body s = find (\<lambda>n. body_at n s) (rev body_counts)"

text \<open>\<open>sk-ant-sid\d{2}-\<close> followed by the body; the matched text.\<close>

definition full_at :: "string \<Rightarrow> string option" where
  "full_at s =
     (case strip_prefix s ''sk-ant-sid'' of
        Some (d1 # d2 # c # r) \<Rightarrow>
          if is_ascii_digit d1 \<and> is_ascii_digit d2 \<and> c = CHR ''-''
          then map_option (\<lambda>n. take (13 + (n + 9)) s) (greedy_body r)
          else None
      | _ \<Rightarrow> None)"

text \<open>\<open>RE_FULL.find\<close>: the leftmost match.\<close>

fun find_full :: "string \<Rightarrow> string option" where
  "find_full [] = None"
| "find_full (c # cs) = (case full_at (c # cs) of Some m \<Rightarrow> Some m | None \<Rightarrow> find_full cs)"

text \<open>\<open>RE_BASE.is_match\<close>: anchored at both ends.\<close>

definition base_match :: "string \<Rightarrow> bool" where
  "base_match s \<longleftrightarrow> list_ex (\<lambda>n. body_at n s \<and> length s = n + 9) body_counts"

definition clean_cookie :: "string \<Rightarrow> string" where
  "clean_cookie s = filter cookie_char (trim s)"

definition cookie_from_str :: "string \<Rightarrow> ClewdrError + ClewdrCookie" where
  "cookie_from_str s =
     (let cleaned = clean_cookie s in
      case find_full cleaned of
        Some found \<Rightarrow> Inr (ClewdrCookie found)
      | None \<Rightarrow> if base_match cleaned then Inr (ClewdrCookie cleaned)
                else Inl (ParseCookieError ''Invalid cookie format''))"

definition slot_new :: "string \<Rightarrow> i64 option \<Rightarrow> ClewdrError + AccountSlot" where
  "slot_new s rt =
     (case cookie_from_str s of
        Inl e \<Rightarrow> Inl e
      | Inr c \<Rightarrow> Inr (slot_of_cookie c rt))"

definition cookie_display :: "ClewdrCookie \<Rightarrow> string" where
  "cookie_display c = ''sessionKey='' @ inner c"

section \<open>Trimming a cookie string\<close>

lemma cookie_char_not_space:
  assumes "list_all cookie_char s"
  shows "leading_space white_space s = None" and "leading_space (map rev white_space) (rev s) = None"
proof -
  have ends: "list_all (\<lambda>w. w \<noteq> [] \<and> \<not> cookie_char (hd w) \<and> \<not> cookie_char (last w)) white_space"
    by code_simp
  have bad: "\<not> cookie_char (hd w)" "\<not> cookie_char (last w)" "w \<noteq> []" if "w \<in> set white_space" for w
    using that ends by (auto simp: list_all_iff)
  show "leading_space white_space s = None"
  proof (rule ccontr)
    assume "\<not> ?thesis"
    then obtain w r where "w \<in> set white_space" "s = w @ r"
      by (auto dest: leading_space_Some)
    with bad(1,3) [of w] assms show False by (cases w) auto
  qed
  show "leading_space (map rev white_space) (rev s) = None"
  proof (rule ccontr)
    assume "\<not> ?thesis"
    then obtain v r where "v \<in> set (map rev white_space)" "rev s = v @ r"
      by (blast dest: leading_space_Some)
    then obtain w where w: "w \<in> set white_space" "rev s = rev w @ r"
      by auto
    then have "s = rev r @ w" by (metis rev_append rev_rev_ident)
    with w(1) bad(2,3) [of w] assms show False by (cases w rule: rev_cases) auto
  qed
qed

lemma strip_while_none: "leading_space ws s = None \<Longrightarrow> strip_while n ws s = s"
  by (cases n) auto

lemma clean_cookie_id: "list_all cookie_char s \<Longrightarrow> clean_cookie s = s"
proof -
  assume s: "list_all cookie_char s"
  have "trim_start s = s"
    by (simp add: trim_start_def strip_while_none cookie_char_not_space(1) [OF s])
  moreover have "trim_end s = s"
    by (simp add: trim_end_def strip_while_none cookie_char_not_space(2) [OF s])
  ultimately show "clean_cookie s = s"
    using s by (simp add: clean_cookie_def trim_def list_all_iff)
qed

lemma clean_cookie_chars: "list_all cookie_char (clean_cookie s)"
  by (simp add: clean_cookie_def list_all_iff)

section \<open>Re-parsing a parsed cookie\<close>

lemma body_at_take:
  "body_at n s \<Longrightarrow> body_at n (take (n + 9) s)"
  by (auto simp: body_at_def take_drop min_def)

lemma set_body_counts: "set body_counts = {86..<121}"
  unfolding body_counts_def by (rule set_upt)

lemma upt_split: "a \<le> n \<Longrightarrow> n < b \<Longrightarrow> [a..<b] = [a..<n] @ n # [Suc n..<b]"
  by (metis less_imp_le_nat upt_add_eq_append upt_conv_Cons le_add_diff_inverse)

lemma greedy_body_SomeD:
  assumes "greedy_body s = Some n"
  shows "body_at n s" and "86 \<le> n" and "n < 121"
proof -
  from assms show "body_at n s"
    unfolding greedy_body_def by (auto simp: find_Some_iff)
  from assms have "n \<in> set (rev body_counts)"
    unfolding greedy_body_def find_Some_iff by (metis nth_mem)
  then show "86 \<le> n" "n < 121"
    by (simp_all add: set_body_counts)
qed

lemma greedy_body_take:
  assumes "greedy_body s = Some n"
  shows "greedy_body (take (n + 9) s) = Some n"
proof -
  note n = greedy_body_SomeD [OF assms]
  let ?t = "take (n + 9) s"
  have small: "\<not> body_at m ?t" if "n < m" for m
    using that n by (auto simp: body_at_def)
  have split: "rev body_counts = rev [Suc n..<121] @ n # rev [86..<n]"
    unfolding body_counts_def upt_split [OF n(2,3)] by simp
  have "find (\<lambda>m. body_at m ?t) (rev [Suc n..<121]) = None"
    using small by (auto simp: find_None_iff)
  then show ?thesis
    unfolding greedy_body_def split find_append using body_at_take [OF n(1)] by simp
qed

lemma full_at_SomeE:
  assumes "full_at s = Some m"
  obtains d1 d2 r n where "s = ''sk-ant-sid'' @ d1 # d2 # CHR ''-'' # r"
    "is_ascii_digit d1" "is_ascii_digit d2" "greedy_body r = Some n"
    "m = ''sk-ant-sid'' @ d1 # d2 # CHR ''-'' # take (n + 9) r"
proof -
  from assms obtain d1 d2 c r n where *: "strip_prefix s ''sk-ant-sid'' = Some (d1 # d2 # c # r)"
    "is_ascii_digit d1" "is_ascii_digit d2" "c = CHR ''-''" "greedy_body r = Some n"
    "m = take (13 + (n + 9)) s"
    by (auto simp: full_at_def split: option.splits list.splits if_splits)
  then have s: "s = ''sk-ant-sid'' @ d1 # d2 # CHR ''-'' # r"
    by (simp add: strip_prefix_Some_iff)
  then have "m = ''sk-ant-sid'' @ d1 # d2 # CHR ''-'' # take (n + 9) r"
  proof -
    let ?P = "''sk-ant-sid'' @ [d1, d2, CHR ''-'']"
    have "take (length ?P + (n + 9)) (?P @ r) = ?P @ take (n + 9) r"
      by (simp only: take_append) (simp add: add.commute)
    with *(6) s show ?thesis by (simp add: add.commute)
  qed
  with s * that show thesis by blast
qed

lemma full_at_idem: "full_at s = Some m \<Longrightarrow> full_at m = Some m"
proof -
  assume "full_at s = Some m"
  then obtain d1 d2 r n where *: "is_ascii_digit d1" "is_ascii_digit d2" "greedy_body r = Some n"
    "m = ''sk-ant-sid'' @ d1 # d2 # CHR ''-'' # take (n + 9) r"
    by (rule full_at_SomeE)
  have g: "greedy_body (take (n + 9) r) = Some n"
    using * by (simp add: greedy_body_take)
  have "length m = 13 + (n + 9)"
    using * greedy_body_SomeD(1) [of r n] by (simp add: body_at_def)
  with * g show ?thesis
    by (simp add: full_at_def strip_prefix_def)
qed

lemma find_full_SomeD: "find_full s = Some m \<Longrightarrow> \<exists>u v. s = u @ v \<and> full_at v = Some m"
proof (induction s)
  case (Cons c cs)
  show ?case
  proof (cases "full_at (c # cs)")
    case None
    with Cons obtain u v where "cs = u @ v" "full_at v = Some m" by auto
    then show ?thesis by (metis append_Cons)
  next
    case (Some m')
    with Cons.prems show ?thesis by (metis append_Nil find_full.simps(2) option.inject option.simps(5))
  qed
qed simp

lemma full_at_prefix:
  assumes "full_at v = Some m"
  shows "\<exists>r. v = m @ r" and "m \<noteq> []"
proof -
  from assms obtain d1 d2 r n where "v = ''sk-ant-sid'' @ d1 # d2 # CHR ''-'' # r"
    "m = ''sk-ant-sid'' @ d1 # d2 # CHR ''-'' # take (n + 9) r"
    by (rule full_at_SomeE)
  then have "v = m @ drop (n + 9) r" "m \<noteq> []"
    by (simp_all only: append_Cons append_assoc append_Nil append_take_drop_id list.distinct not_False_eq_True)
  then show "\<exists>r. v = m @ r" "m \<noteq> []" by blast+
qed

lemma find_full_idem: "find_full s = Some m \<Longrightarrow> find_full m = Some m"
proof -
  assume "find_full s = Some m"
  then obtain v where v: "full_at v = Some m" by (blast dest: find_full_SomeD)
  then have "full_at m = Some m" by (rule full_at_idem)
  moreover obtain c cs where "m = c # cs"
    using full_at_prefix(2) [OF v] by (cases m) auto
  ultimately show ?thesis by simp
qed

lemma find_full_chars:
  "list_all cookie_char s \<Longrightarrow> find_full s = Some m \<Longrightarrow> list_all cookie_char m"
  using find_full_SomeD [of s m] full_at_prefix(1) [of _ m] by (fastforce simp: list_all_iff)

text \<open>
  Cookie parsing reaches a normal form: whenever a string is accepted, the stored cookie consists
  of cookie characters only and is accepted again as itself, so a cookie written to the database is read
  back unchanged at the next reload.
\<close>

theorem cookie_parse_normal_form:
  assumes "cookie_from_str s = Inr c"
  shows "cookie_from_str (inner c) = Inr c \<and> list_all cookie_char (inner c)"
proof (cases "find_full (clean_cookie s)")
  case None
  with assms have *: "base_match (clean_cookie s)" "inner c = clean_cookie s"
    by (auto simp: cookie_from_str_def Let_def split: if_splits)
  then have "clean_cookie (inner c) = inner c"
    by (simp add: clean_cookie_id clean_cookie_chars)
  with None * show ?thesis
    by (simp add: cookie_from_str_def clean_cookie_chars) (metis ClewdrCookie.collapse)
next
  case (Some m)
  with assms have c: "c = ClewdrCookie m"
    by (simp add: cookie_from_str_def)
  have m: "list_all cookie_char m"
    using find_full_chars [OF clean_cookie_chars Some] .
  then have "clean_cookie m = m" by (rule clean_cookie_id)
  with c m find_full_idem [OF Some] show ?thesis
    by (simp add: cookie_from_str_def)
qed

definition sample_cookie :: string where
  "sample_cookie = ''sk-ant-sid01-'' @ replicate 86 (CHR ''a'') @ ''-bbbbbbAA''"

lemma sample_cookie_parses:
  "cookie_from_str ('' sessionKey='' @ sample_cookie) = Inr (ClewdrCookie sample_cookie)"
  by code_simp

theorem cookie_parse_normal_form_witness:
  "cookie_from_str (inner (ClewdrCookie sample_cookie)) = Inr (ClewdrCookie sample_cookie)
   \<and> list_all cookie_char sample_cookie"
  using cookie_parse_normal_form [OF sample_cookie_parses] by simp

end
