(* ===== verification/Account_Db.thy ===== *)
theory Account_Db
  imports Account_Failure Cookie_Parse
begin

text \<open>
  The account tables and the statements on them (\<open>src/src/db/accounts.rs\<close>). A table is a list of rows
  (\<open>accounts\<close>, primary key \<open>id\<close>) or a map from the key (\<open>account_runtime_state\<close>, \<open>proxies\<close>); a statement
  is the function that gives the tables after it succeeded, together with the number of affected
  rows where the code reads it. A statement that fails leaves the tables unchanged (the batch runs in
  one transaction); whether it fails is decided by the caller's fault argument. The
  \<open>created_at\<close>/\<open>updated_at\<close> bookkeeping columns are left out.

  Library functions are the fields of \<open>db_ext\<close>: RFC 3339 parsing and printing, the JSON encoding of
  the scoped limits and of a failure context, and parsing and updating a URL.
\<close>

section \<open>Tables\<close>

record account_row =
  a_id :: i64
  a_name :: string
  a_rr_order :: i64
  a_max_slots :: i64
  a_proxy_id :: "i64 option"
  a_drain_first :: i64
  a_status :: string
  a_auth_source :: string
  a_cookie_blob :: "string option"
  a_oauth_access_token :: "string option"
  a_oauth_refresh_token :: "string option"
  a_oauth_expires_at :: "string option"
  a_organization_uuid :: "string option"
  a_last_refresh_at :: "string option"
  a_last_error :: "string option"
  a_invalid_reason :: "string option"
  a_last_failure_json :: "string option"
  a_email :: "string option"
  a_account_type :: "string option"
  a_rate_limit_tier :: "string option"
  a_subscription_created_at :: "string option"
  a_billing_type :: "string option"
  a_api_key_base_url :: "string option"
  a_api_key_secret :: "string option"
  a_api_key_extra_headers :: "string option"
  a_api_key_extra_body :: "string option"
  a_mimicry_mode :: string
  a_mimicry_config :: "string option"

record usage_cols =
  u_total_input :: i64
  u_total_output :: i64
  u_sonnet_input :: i64
  u_sonnet_output :: i64
  u_opus_input :: i64
  u_opus_output :: i64

record runtime_cols =
  c_reset_time :: "i64 option"
  c_supports_claude_1m_sonnet :: "i64 option"
  c_supports_claude_1m_opus :: "i64 option"
  c_count_tokens_allowed :: "i64 option"
  c_session_resets_at :: "i64 option"
  c_weekly_resets_at :: "i64 option"
  c_weekly_sonnet_resets_at :: "i64 option"
  c_weekly_opus_resets_at :: "i64 option"
  c_resets_last_checked_at :: "i64 option"
  c_session_has_reset :: "i64 option"
  c_weekly_has_reset :: "i64 option"
  c_weekly_sonnet_has_reset :: "i64 option"
  c_weekly_opus_has_reset :: "i64 option"
  c_session :: usage_cols
  c_weekly :: usage_cols
  c_ws :: usage_cols
  c_wo :: usage_cols
  c_lifetime :: usage_cols
  c_session_utilization :: "f64 option"
  c_weekly_utilization :: "f64 option"
  c_weekly_sonnet_utilization :: "f64 option"
  c_weekly_opus_utilization :: "f64 option"
  c_weekly_scoped_limits_json :: "string option"

record proxy_cols =
  px_name :: string
  px_protocol :: string
  px_host :: string
  px_port :: i64
  px_username :: "string option"
  px_password :: "string option"

record log_cols =
  l_account_id :: "i64 option"
  l_request_type :: string
  l_cost_nanousd :: i64

record database =
  accounts :: "account_row list"
  runtime_state :: "(i64, runtime_cols) hash_map"
  proxies :: "(i64, proxy_cols) hash_map"
  request_logs :: "log_cols list"

record db_ext =
  x_parse_rfc3339 :: "string \<Rightarrow> instant option"
  x_fmt_rfc3339 :: "instant \<Rightarrow> string"
  x_scoped_to_json :: "ScopedWeeklyLimit list \<Rightarrow> string option"
  x_scoped_of_json :: "string \<Rightarrow> ScopedWeeklyLimit list option"
  x_failure_to_json :: "AccountFailureContextPersisted \<Rightarrow> string option"
  x_failure_of_json :: "string \<Rightarrow> AccountFailureContextPersisted option"
  x_url_parse :: "string \<Rightarrow> string option"
  x_url_set_username :: "string \<Rightarrow> string \<Rightarrow> string"
  x_url_set_password :: "string \<Rightarrow> string option \<Rightarrow> string"

section \<open>Rows as the program sees them\<close>

record RuntimeStateRow =
  rr_reset_time :: "i64 option"
  rr_supports_claude_1m_sonnet :: "bool option"
  rr_supports_claude_1m_opus :: "bool option"
  rr_count_tokens_allowed :: "bool option"
  rr_session_resets_at :: "i64 option"
  rr_weekly_resets_at :: "i64 option"
  rr_weekly_sonnet_resets_at :: "i64 option"
  rr_weekly_opus_resets_at :: "i64 option"
  rr_resets_last_checked_at :: "i64 option"
  rr_session_has_reset :: "bool option"
  rr_weekly_has_reset :: "bool option"
  rr_weekly_sonnet_has_reset :: "bool option"
  rr_weekly_opus_has_reset :: "bool option"
  rr_session_utilization :: "f64 option"
  rr_weekly_utilization :: "f64 option"
  rr_weekly_sonnet_utilization :: "f64 option"
  rr_weekly_opus_utilization :: "f64 option"
  rr_buckets :: usage_buckets
  rr_weekly_scoped_limits :: "ScopedWeeklyLimit list"

record AccountWithRuntime =
  acc_id :: i64
  acc_name :: string
  acc_rr_order :: i64
  acc_max_slots :: i64
  acc_proxy_id :: "i64 option"
  acc_proxy_name :: "string option"
  acc_proxy_url :: "string option"
  acc_drain_first :: bool
  acc_status :: string
  acc_auth_source :: string
  acc_cookie_blob :: "string option"
  acc_oauth_token :: "TokenInfo option"
  acc_oauth_expires_at :: "string option"
  acc_last_refresh_at :: "string option"
  acc_last_error :: "string option"
  acc_organization_uuid :: "string option"
  acc_invalid_reason :: "string option"
  acc_last_failure :: "AccountFailureContextPersisted option"
  acc_email :: "string option"
  acc_account_type :: "string option"
  acc_rate_limit_tier :: "string option"
  acc_subscription_created_at :: "string option"
  acc_billing_type :: "string option"
  acc_api_key_base_url :: "string option"
  acc_api_key_secret :: "string option"
  acc_api_key_extra_headers :: "string option"
  acc_api_key_extra_body :: "string option"
  acc_mimicry_mode :: string
  acc_mimicry_config :: "string option"
  acc_total_cost_nanousd :: i64
  acc_runtime :: "RuntimeStateRow option"

definition to_params :: "RuntimeStateRow \<Rightarrow> RuntimeStateParams" where
  "to_params r =
     \<lparr>rp_reset_time = rr_reset_time r,
      rp_supports_claude_1m_sonnet = rr_supports_claude_1m_sonnet r,
      rp_supports_claude_1m_opus = rr_supports_claude_1m_opus r,
      rp_count_tokens_allowed = rr_count_tokens_allowed r,
      rp_session_resets_at = rr_session_resets_at r,
      rp_weekly_resets_at = rr_weekly_resets_at r,
      rp_weekly_sonnet_resets_at = rr_weekly_sonnet_resets_at r,
      rp_weekly_opus_resets_at = rr_weekly_opus_resets_at r,
      rp_resets_last_checked_at = rr_resets_last_checked_at r,
      rp_session_has_reset = rr_session_has_reset r,
      rp_weekly_has_reset = rr_weekly_has_reset r,
      rp_weekly_sonnet_has_reset = rr_weekly_sonnet_has_reset r,
      rp_weekly_opus_has_reset = rr_weekly_opus_has_reset r,
      rp_session_utilization = rr_session_utilization r,
      rp_weekly_utilization = rr_weekly_utilization r,
      rp_weekly_sonnet_utilization = rr_weekly_sonnet_utilization r,
      rp_weekly_opus_utilization = rr_weekly_opus_utilization r,
      rp_buckets = rr_buckets r,
      rp_weekly_scoped_limits = rr_weekly_scoped_limits r\<rparr>"

definition bool_from_int :: "i64 option \<Rightarrow> bool option" where
  "bool_from_int v = map_option (\<lambda>i. i \<noteq> 0) v"

definition bool_to_int :: "bool option \<Rightarrow> i64 option" where
  "bool_to_int v = map_option (\<lambda>b. if b then 1 else 0) v"

text \<open>\<open>now\<close> is \<open>Utc::now().timestamp()\<close>.\<close>

definition active_reset_time :: "i64 \<Rightarrow> AccountWithRuntime \<Rightarrow> i64 option" where
  "active_reset_time now account =
     (case Option.bind (acc_runtime account) rr_reset_time of
        Some ts \<Rightarrow> if ts > now then Some ts else None
      | None \<Rightarrow> None)"

definition make_bucket :: "usage_cols \<Rightarrow> UsageBreakdown" where
  "make_bucket c =
     \<lparr>total_input_tokens = word_of_int (u_total_input c),
      total_output_tokens = word_of_int (u_total_output c),
      sonnet_input_tokens = word_of_int (u_sonnet_input c),
      sonnet_output_tokens = word_of_int (u_sonnet_output c),
      opus_input_tokens = word_of_int (u_opus_input c),
      opus_output_tokens = word_of_int (u_opus_output c)\<rparr>"

text \<open>\<open>tokens as i64\<close> for the six counters of a bucket.\<close>

definition bucket_cols :: "UsageBreakdown \<Rightarrow> usage_cols" where
  "bucket_cols b =
     \<lparr>u_total_input = sint (total_input_tokens b),
      u_total_output = sint (total_output_tokens b),
      u_sonnet_input = sint (sonnet_input_tokens b),
      u_sonnet_output = sint (sonnet_output_tokens b),
      u_opus_input = sint (opus_input_tokens b),
      u_opus_output = sint (opus_output_tokens b)\<rparr>"

definition load_runtime :: "db_ext \<Rightarrow> runtime_cols \<Rightarrow> RuntimeStateRow" where
  "load_runtime x c =
     \<lparr>rr_reset_time = c_reset_time c,
      rr_supports_claude_1m_sonnet = bool_from_int (c_supports_claude_1m_sonnet c),
      rr_supports_claude_1m_opus = bool_from_int (c_supports_claude_1m_opus c),
      rr_count_tokens_allowed = bool_from_int (c_count_tokens_allowed c),
      rr_session_resets_at = c_session_resets_at c,
      rr_weekly_resets_at = c_weekly_resets_at c,
      rr_weekly_sonnet_resets_at = c_weekly_sonnet_resets_at c,
      rr_weekly_opus_resets_at = c_weekly_opus_resets_at c,
      rr_resets_last_checked_at = c_resets_last_checked_at c,
      rr_session_has_reset = bool_from_int (c_session_has_reset c),
      rr_weekly_has_reset = bool_from_int (c_weekly_has_reset c),
      rr_weekly_sonnet_has_reset = bool_from_int (c_weekly_sonnet_has_reset c),
      rr_weekly_opus_has_reset = bool_from_int (c_weekly_opus_has_reset c),
      rr_session_utilization = c_session_utilization c,
      rr_weekly_utilization = c_weekly_utilization c,
      rr_weekly_sonnet_utilization = c_weekly_sonnet_utilization c,
      rr_weekly_opus_utilization = c_weekly_opus_utilization c,
      rr_buckets = (make_bucket (c_session c), make_bucket (c_weekly c), make_bucket (c_ws c),
                    make_bucket (c_wo c), make_bucket (c_lifetime c)),
      rr_weekly_scoped_limits =
        (case c_weekly_scoped_limits_json c of
           None \<Rightarrow> []
         | Some s \<Rightarrow> (case x_scoped_of_json x s of Some ls \<Rightarrow> ls | None \<Rightarrow> []))\<rparr>"

text \<open>\<open>nowi\<close> is \<open>Utc::now()\<close> as an instant; a negative remaining time becomes a zero duration.\<close>

definition load_token :: "db_ext \<Rightarrow> instant \<Rightarrow> account_row \<Rightarrow> TokenInfo option" where
  "load_token x nowi a =
     (case (a_oauth_access_token a, a_oauth_refresh_token a, a_oauth_expires_at a,
            a_organization_uuid a) of
        (Some acc, Some ref, Some ex, Some org) \<Rightarrow>
          map_option
            (\<lambda>e. \<lparr>access_token = acc, expires_in = max 0 (e - nowi), organization_uuid_of = org,
                  refresh_token = ref, expires_at = e\<rparr>)
            (x_parse_rfc3339 x ex)
      | _ \<Rightarrow> None)"

text \<open>A URL is represented by its serialization; a setter that fails leaves it unchanged.\<close>

definition trimmed_non_empty :: "string option \<Rightarrow> string option" where
  "trimmed_non_empty v =
     (case v of Some s \<Rightarrow> if trim s = [] then None else Some (trim s) | None \<Rightarrow> None)"

definition build_proxy_url_from_parts ::
    "db_ext \<Rightarrow> string \<Rightarrow> string \<Rightarrow> i64 \<Rightarrow> string option \<Rightarrow> string option \<Rightarrow> string option" where
  "build_proxy_url_from_parts x protocol host port username password =
     (case x_url_parse x (protocol @ ''://'' @ host @ '':'' @ show_i64 port) of
        None \<Rightarrow> None
      | Some url \<Rightarrow>
          Some (case (trimmed_non_empty username, trimmed_non_empty password) of
                  (Some user, Some pass) \<Rightarrow>
                    x_url_set_password x (x_url_set_username x url user) (Some pass)
                | (Some user, None) \<Rightarrow>
                    x_url_set_password x (x_url_set_username x url user) None
                | _ \<Rightarrow> url))"

definition load_proxy_url :: "db_ext \<Rightarrow> database \<Rightarrow> account_row \<Rightarrow> string option" where
  "load_proxy_url x db a =
     (case Option.bind (a_proxy_id a) (hm_get (proxies db)) of
        Some p \<Rightarrow> build_proxy_url_from_parts x (px_protocol p) (px_host p) (px_port p) (px_username p) (px_password p)
      | None \<Rightarrow> None)"

definition total_cost :: "database \<Rightarrow> i64 \<Rightarrow> i64" where
  "total_cost db aid =
     (\<Sum>l\<leftarrow>request_logs db.
        if l_account_id l = Some aid \<and> l_request_type l = ''messages'' then l_cost_nanousd l else 0)"

definition load_account :: "db_ext \<Rightarrow> instant \<Rightarrow> database \<Rightarrow> account_row \<Rightarrow> AccountWithRuntime" where
  "load_account x nowi db a =
     \<lparr>acc_id = a_id a, acc_name = a_name a, acc_rr_order = a_rr_order a, acc_max_slots = a_max_slots a,
      acc_proxy_id = a_proxy_id a,
      acc_proxy_name = map_option px_name (Option.bind (a_proxy_id a) (hm_get (proxies db))),
      acc_proxy_url = load_proxy_url x db a,
      acc_drain_first = (a_drain_first a \<noteq> 0),
      acc_status = a_status a, acc_auth_source = a_auth_source a, acc_cookie_blob = a_cookie_blob a,
      acc_oauth_token = load_token x nowi a,
      acc_oauth_expires_at = a_oauth_expires_at a, acc_last_refresh_at = a_last_refresh_at a,
      acc_last_error = a_last_error a, acc_organization_uuid = a_organization_uuid a,
      acc_invalid_reason = a_invalid_reason a,
      acc_last_failure = Option.bind (a_last_failure_json a) (x_failure_of_json x),
      acc_email = a_email a, acc_account_type = a_account_type a,
      acc_rate_limit_tier = a_rate_limit_tier a,
      acc_subscription_created_at = a_subscription_created_at a, acc_billing_type = a_billing_type a,
      acc_api_key_base_url = a_api_key_base_url a, acc_api_key_secret = a_api_key_secret a,
      acc_api_key_extra_headers = a_api_key_extra_headers a,
      acc_api_key_extra_body = a_api_key_extra_body a,
      acc_mimicry_mode = a_mimicry_mode a, acc_mimicry_config = a_mimicry_config a,
      acc_total_cost_nanousd = total_cost db (a_id a),
      acc_runtime = map_option (load_runtime x) (hm_get (runtime_state db) (a_id a))\<rparr>"

definition load_all_accounts :: "db_ext \<Rightarrow> instant \<Rightarrow> database \<Rightarrow> AccountWithRuntime list" where
  "load_all_accounts x nowi db = map (load_account x nowi db) (sort_key a_rr_order (accounts db))"

definition get_account_by_id :: "db_ext \<Rightarrow> instant \<Rightarrow> database \<Rightarrow> i64 \<Rightarrow> AccountWithRuntime option" where
  "get_account_by_id x nowi db aid = find (\<lambda>a. acc_id a = aid) (load_all_accounts x nowi db)"

end
