(* ===== verification/Account_Statements.thy ===== *)
theory Account_Statements
  imports Account_Db
begin

text \<open>
  The statements of \<open>src/src/db/accounts.rs\<close> that change the account tables, and what they promise:
  the runtime state written by a flush is read back unchanged, a statement guarded by a refresh
  token takes effect only while that token is current, and none of the runtime or status statements
  touches a credential column.
\<close>

section \<open>Statements\<close>

definition update_where ::
    "(account_row \<Rightarrow> bool) \<Rightarrow> (account_row \<Rightarrow> account_row) \<Rightarrow> database \<Rightarrow> database" where
  "update_where w f db = db\<lparr>accounts := map (\<lambda>a. if w a then f a else a) (accounts db)\<rparr>"

definition rows_affected :: "(account_row \<Rightarrow> bool) \<Rightarrow> database \<Rightarrow> nat" where
  "rows_affected w db = length (filter w (accounts db))"

definition default_usage_cols :: usage_cols where
  "default_usage_cols =
     \<lparr>u_total_input = 0, u_total_output = 0, u_sonnet_input = 0, u_sonnet_output = 0,
      u_opus_input = 0, u_opus_output = 0\<rparr>"

text \<open>A fresh row: nullable columns are null, the counters have the column default 0.\<close>

definition default_runtime_cols :: runtime_cols where
  "default_runtime_cols =
     \<lparr>c_reset_time = None, c_supports_claude_1m_sonnet = None, c_supports_claude_1m_opus = None,
      c_count_tokens_allowed = None, c_session_resets_at = None, c_weekly_resets_at = None,
      c_weekly_sonnet_resets_at = None, c_weekly_opus_resets_at = None,
      c_resets_last_checked_at = None, c_session_has_reset = None, c_weekly_has_reset = None,
      c_weekly_sonnet_has_reset = None, c_weekly_opus_has_reset = None,
      c_session = default_usage_cols, c_weekly = default_usage_cols, c_ws = default_usage_cols,
      c_wo = default_usage_cols, c_lifetime = default_usage_cols,
      c_session_utilization = None, c_weekly_utilization = None,
      c_weekly_sonnet_utilization = None, c_weekly_opus_utilization = None,
      c_weekly_scoped_limits_json = None\<rparr>"

definition cols_of_params :: "db_ext \<Rightarrow> RuntimeStateParams \<Rightarrow> runtime_cols" where
  "cols_of_params x p =
     (case rp_buckets p of (b0, b1, b2, b3, b4) \<Rightarrow>
        \<lparr>c_reset_time = rp_reset_time p,
         c_supports_claude_1m_sonnet = bool_to_int (rp_supports_claude_1m_sonnet p),
         c_supports_claude_1m_opus = bool_to_int (rp_supports_claude_1m_opus p),
         c_count_tokens_allowed = bool_to_int (rp_count_tokens_allowed p),
         c_session_resets_at = rp_session_resets_at p,
         c_weekly_resets_at = rp_weekly_resets_at p,
         c_weekly_sonnet_resets_at = rp_weekly_sonnet_resets_at p,
         c_weekly_opus_resets_at = rp_weekly_opus_resets_at p,
         c_resets_last_checked_at = rp_resets_last_checked_at p,
         c_session_has_reset = bool_to_int (rp_session_has_reset p),
         c_weekly_has_reset = bool_to_int (rp_weekly_has_reset p),
         c_weekly_sonnet_has_reset = bool_to_int (rp_weekly_sonnet_has_reset p),
         c_weekly_opus_has_reset = bool_to_int (rp_weekly_opus_has_reset p),
         c_session = bucket_cols b0, c_weekly = bucket_cols b1, c_ws = bucket_cols b2,
         c_wo = bucket_cols b3, c_lifetime = bucket_cols b4,
         c_session_utilization = rp_session_utilization p,
         c_weekly_utilization = rp_weekly_utilization p,
         c_weekly_sonnet_utilization = rp_weekly_sonnet_utilization p,
         c_weekly_opus_utilization = rp_weekly_opus_utilization p,
         c_weekly_scoped_limits_json = x_scoped_to_json x (rp_weekly_scoped_limits p)\<rparr>)"

definition batch_upsert_runtime_states ::
    "db_ext \<Rightarrow> (i64 \<times> RuntimeStateParams) list \<Rightarrow> database \<Rightarrow> database" where
  "batch_upsert_runtime_states x states db =
     db\<lparr>runtime_state :=
        foldl (\<lambda>m (aid, p). hm_insert aid (cols_of_params x p) m) (runtime_state db) states\<rparr>"

definition snapshot_cols :: "db_ext \<Rightarrow> RuntimeStateParams \<Rightarrow> runtime_cols \<Rightarrow> runtime_cols" where
  "snapshot_cols x p c =
     c\<lparr>c_reset_time := rp_reset_time p,
       c_session_resets_at := rp_session_resets_at p,
       c_weekly_resets_at := rp_weekly_resets_at p,
       c_weekly_sonnet_resets_at := rp_weekly_sonnet_resets_at p,
       c_weekly_opus_resets_at := rp_weekly_opus_resets_at p,
       c_resets_last_checked_at := rp_resets_last_checked_at p,
       c_session_has_reset := bool_to_int (rp_session_has_reset p),
       c_weekly_has_reset := bool_to_int (rp_weekly_has_reset p),
       c_weekly_sonnet_has_reset := bool_to_int (rp_weekly_sonnet_has_reset p),
       c_weekly_opus_has_reset := bool_to_int (rp_weekly_opus_has_reset p),
       c_session_utilization := rp_session_utilization p,
       c_weekly_utilization := rp_weekly_utilization p,
       c_weekly_sonnet_utilization := rp_weekly_sonnet_utilization p,
       c_weekly_opus_utilization := rp_weekly_opus_utilization p,
       c_weekly_scoped_limits_json := x_scoped_to_json x (rp_weekly_scoped_limits p)\<rparr>"

text \<open>\<open>INSERT \<dots> ON CONFLICT(account_id) DO UPDATE SET \<dots>\<close>: the given columns of the existing row, or of
  a fresh one.\<close>

definition upsert_runtime :: "i64 \<Rightarrow> (runtime_cols \<Rightarrow> runtime_cols) \<Rightarrow> database \<Rightarrow> database" where
  "upsert_runtime aid f db =
     db\<lparr>runtime_state :=
        hm_insert aid
          (f (case hm_get (runtime_state db) aid of Some c \<Rightarrow> c | None \<Rightarrow> default_runtime_cols))
          (runtime_state db)\<rparr>"

definition upsert_oauth_snapshot_runtime_fields ::
    "db_ext \<Rightarrow> i64 \<Rightarrow> RuntimeStateParams \<Rightarrow> database \<Rightarrow> database" where
  "upsert_oauth_snapshot_runtime_fields x aid p db = upsert_runtime aid (snapshot_cols x p) db"

definition set_account_reset_time :: "i64 \<Rightarrow> i64 \<Rightarrow> database \<Rightarrow> database" where
  "set_account_reset_time aid t db = upsert_runtime aid (\<lambda>c. c\<lparr>c_reset_time := Some t\<rparr>) db"

definition set_account_disabled :: "i64 \<Rightarrow> string \<Rightarrow> database \<Rightarrow> database" where
  "set_account_disabled aid reason db =
     update_where (\<lambda>a. a_id a = aid)
       (\<lambda>a. a\<lparr>a_status := ''disabled'', a_invalid_reason := Some reason\<rparr>) db"

definition serialize_last_failure ::
    "db_ext \<Rightarrow> AccountFailureContextPersisted option \<Rightarrow> string option" where
  "serialize_last_failure x failure =
     (case failure of Some ctx \<Rightarrow> x_failure_to_json x ctx | None \<Rightarrow> None)"

definition set_account_last_failure ::
    "db_ext \<Rightarrow> i64 \<Rightarrow> AccountFailureContextPersisted option \<Rightarrow> database \<Rightarrow> database" where
  "set_account_last_failure x aid failure db =
     update_where (\<lambda>a. a_id a = aid)
       (\<lambda>a. a\<lparr>a_last_failure_json := serialize_last_failure x failure\<rparr>) db"

definition set_oauth_account_failure_if_current ::
    "db_ext \<Rightarrow> i64 \<Rightarrow> string \<Rightarrow> string \<Rightarrow> string option \<Rightarrow> string
      \<Rightarrow> AccountFailureContextPersisted \<Rightarrow> database \<Rightarrow> bool \<times> database" where
  "set_oauth_account_failure_if_current x aid expected status reason last_error failure db =
     (let w = (\<lambda>a. a_id a = aid \<and> a_auth_source a = ''oauth''
                   \<and> a_oauth_refresh_token a = Some expected)
      in (rows_affected w db = 1,
          update_where w
            (\<lambda>a. a\<lparr>a_status := status, a_invalid_reason := reason, a_last_error := Some last_error,
                   a_last_failure_json := serialize_last_failure x (Some failure)\<rparr>) db))"

definition set_accounts_active :: "i64 set \<Rightarrow> database \<Rightarrow> database" where
  "set_accounts_active ids db =
     update_where (\<lambda>a. a_id a \<in> ids \<and> (a_status a = ''disabled'' \<or> a_status a = ''auth_error''))
       (\<lambda>a. a\<lparr>a_status := ''active'', a_invalid_reason := None, a_last_error := None,
              a_last_failure_json := None\<rparr>) db"

definition set_account_active :: "i64 \<Rightarrow> database \<Rightarrow> database" where
  "set_account_active aid db =
     update_where (\<lambda>a. a_id a = aid \<and> a_status a \<noteq> ''disabled'')
       (\<lambda>a. a\<lparr>a_status := ''active'', a_invalid_reason := None, a_last_error := None,
              a_last_failure_json := None\<rparr>) db"

definition clear_account_cooldown :: "i64 \<Rightarrow> database \<Rightarrow> database" where
  "clear_account_cooldown aid db =
     db\<lparr>runtime_state := hm_modify aid (\<lambda>c. c\<lparr>c_reset_time := None\<rparr>) (runtime_state db)\<rparr>"

record AccountMetadataUpdate =
  mu_email :: "string option"
  mu_account_type :: "string option"
  mu_organization_uuid :: "string option"
  mu_rate_limit_tier :: "string option"
  mu_subscription_created_at :: "string option"
  mu_billing_type :: "string option"

definition coalesce :: "'a option \<Rightarrow> 'a option \<Rightarrow> 'a option" where
  "coalesce a b = (case a of Some v \<Rightarrow> Some v | None \<Rightarrow> b)"

definition apply_metadata :: "AccountMetadataUpdate \<Rightarrow> account_row \<Rightarrow> account_row" where
  "apply_metadata u a =
     a\<lparr>a_email := coalesce (mu_email u) (a_email a),
       a_account_type := coalesce (mu_account_type u) (a_account_type a),
       a_organization_uuid := coalesce (mu_organization_uuid u) (a_organization_uuid a),
       a_rate_limit_tier := coalesce (mu_rate_limit_tier u) (a_rate_limit_tier a),
       a_subscription_created_at :=
         coalesce (mu_subscription_created_at u) (a_subscription_created_at a),
       a_billing_type := coalesce (mu_billing_type u) (a_billing_type a)\<rparr>"

text \<open>\<open>substr(col, 1, len) = prefix\<close>; null never matches.\<close>

definition has_prefix :: "string option \<Rightarrow> string \<Rightarrow> bool" where
  "has_prefix col p = (case col of Some s \<Rightarrow> take (length p) s = p | None \<Rightarrow> False)"

definition cookie_prefix_guard :: "string \<Rightarrow> account_row \<Rightarrow> bool" where
  "cookie_prefix_guard p a \<longleftrightarrow>
     has_prefix (a_cookie_blob a) p \<or> has_prefix (a_cookie_blob a) (''sessionKey='' @ p)"

definition update_account_metadata ::
    "i64 \<Rightarrow> AccountMetadataUpdate \<Rightarrow> string \<Rightarrow> string \<Rightarrow> database \<Rightarrow> database" where
  "update_account_metadata aid u expected_source pfx db =
     (if expected_source = ''cookie'' then
        update_where (\<lambda>a. a_id a = aid \<and> cookie_prefix_guard pfx a) (apply_metadata u) db
      else if expected_source = ''oauth'' then
        update_where (\<lambda>a. a_id a = aid \<and> has_prefix (a_oauth_access_token a) pfx)
          (apply_metadata u) db
      else db)"

definition account_credential_matches_prefix :: "i64 \<Rightarrow> string \<Rightarrow> string \<Rightarrow> database \<Rightarrow> bool" where
  "account_credential_matches_prefix aid expected_source pfx db =
     (if expected_source = ''cookie'' then
        list_ex (\<lambda>a. a_id a = aid \<and> a_auth_source a = ''cookie'' \<and> cookie_prefix_guard pfx a)
          (accounts db)
      else if expected_source = ''oauth'' then
        list_ex (\<lambda>a. a_id a = aid \<and> a_auth_source a = ''oauth''
                   \<and> has_prefix (a_oauth_access_token a) pfx) (accounts db)
      else False)"

definition update_account_metadata_unchecked ::
    "i64 \<Rightarrow> AccountMetadataUpdate \<Rightarrow> database \<Rightarrow> database" where
  "update_account_metadata_unchecked aid u db =
     update_where (\<lambda>a. a_id a = aid) (\<lambda>a. (apply_metadata u a)\<lparr>a_invalid_reason := None\<rparr>) db"

definition upsert_account_oauth ::
    "db_ext \<Rightarrow> instant \<Rightarrow> i64 \<Rightarrow> TokenInfo option \<Rightarrow> string option \<Rightarrow> string option
      \<Rightarrow> database \<Rightarrow> bool \<times> database" where
  "upsert_account_oauth x nowi aid tok last_error expected db =
     (let w = (\<lambda>a. a_id a = aid
                 \<and> (expected = None
                    \<or> (a_auth_source a = ''oauth'' \<and> a_oauth_refresh_token a = expected)))
      in (rows_affected w db = 1,
          update_where w
            (\<lambda>a. a\<lparr>a_oauth_access_token := map_option access_token tok,
                   a_oauth_refresh_token := map_option refresh_token tok,
                   a_oauth_expires_at := map_option (\<lambda>t. x_fmt_rfc3339 x (expires_at t)) tok,
                   a_last_refresh_at :=
                     coalesce (map_option (\<lambda>_. x_fmt_rfc3339 x nowi) tok) (a_last_refresh_at a),
                   a_last_error := last_error\<rparr>) db))"

definition set_account_auth_error :: "i64 \<Rightarrow> string \<Rightarrow> database \<Rightarrow> database" where
  "set_account_auth_error aid last_error db =
     update_where (\<lambda>a. a_id a = aid)
       (\<lambda>a. a\<lparr>a_status := ''auth_error'', a_invalid_reason := None,
              a_last_error := Some last_error\<rparr>) db"

definition find_account_by_organization_uuid ::
    "string \<Rightarrow> i64 option \<Rightarrow> database \<Rightarrow> (i64 \<times> string) option" where
  "find_account_by_organization_uuid org excluded db =
     (case sort_key a_id (filter (\<lambda>a. a_organization_uuid a = Some org
                                    \<and> (excluded = None \<or> excluded \<noteq> Some (a_id a))) (accounts db)) of
        [] \<Rightarrow> None
      | a # _ \<Rightarrow> Some (a_id a, a_name a))"

section \<open>Well-formed tables and frames\<close>

definition db_wf :: "database \<Rightarrow> bool" where
  "db_wf db \<longleftrightarrow> distinct (map a_id (accounts db)) \<and> hm_wf (runtime_state db)"

text \<open>The columns that hold a credential or say which kind it is.\<close>

definition credential_cols ::
    "account_row \<Rightarrow> i64 \<times> string \<times> string option \<times> string option \<times> string option \<times> string option
      \<times> string option \<times> string option" where
  "credential_cols a =
     (a_id a, a_auth_source a, a_cookie_blob a, a_oauth_access_token a, a_oauth_refresh_token a,
      a_oauth_expires_at a, a_api_key_base_url a, a_api_key_secret a)"

definition credentials :: "database \<Rightarrow>
    (i64 \<times> string \<times> string option \<times> string option \<times> string option \<times> string option
      \<times> string option \<times> string option) list" where
  "credentials db = map credential_cols (accounts db)"

lemma map_update_where:
  "(\<And>a. g (f a) = g a) \<Longrightarrow> map g (accounts (update_where w f db)) = map g (accounts db)"
  by (simp add: update_where_def)

lemma update_where_frame [simp]:
  "runtime_state (update_where w f db) = runtime_state db"
  "proxies (update_where w f db) = proxies db"
  "request_logs (update_where w f db) = request_logs db"
  by (simp_all add: update_where_def)

lemma update_where_id_if: "rows_affected w db = 0 \<Longrightarrow> update_where w f db = db"
  by (auto simp: update_where_def rows_affected_def filter_empty_conv intro!: database.equality map_idI)

lemma db_wf_update_where: "(\<And>a. a_id (f a) = a_id a) \<Longrightarrow> db_wf db \<Longrightarrow> db_wf (update_where w f db)"
  by (simp add: db_wf_def map_update_where)

lemma credentials_update_where:
  "(\<And>a. credential_cols (f a) = credential_cols a) \<Longrightarrow> credentials (update_where w f db) = credentials db"
  by (simp add: credentials_def map_update_where)

lemma hm_wf_fold_insert: "hm_wf m \<Longrightarrow> hm_wf (foldl (\<lambda>m (k, v). hm_insert k (f v) m) m xs)"
  by (induction xs arbitrary: m) (auto split: prod.splits)

lemma db_wf_statements [simp]:
  "db_wf db \<Longrightarrow> db_wf (batch_upsert_runtime_states x st db)"
  "db_wf db \<Longrightarrow> db_wf (set_account_disabled aid reason db)"
  "db_wf db \<Longrightarrow> db_wf (set_accounts_active ids db)"
  by (auto simp: batch_upsert_runtime_states_def set_account_disabled_def set_accounts_active_def
      intro: db_wf_update_where) (auto simp: db_wf_def intro: hm_wf_fold_insert)

lemma credentials_statements [simp]:
  "credentials (batch_upsert_runtime_states x st db) = credentials db"
  "credentials (set_account_disabled aid reason db) = credentials db"
  "credentials (set_accounts_active ids db) = credentials db"
  "credentials (set_account_active aid db) = credentials db"
  "credentials (set_account_auth_error aid e db) = credentials db"
  "credentials (set_account_last_failure x aid fl db) = credentials db"
  "credentials (clear_account_cooldown aid db) = credentials db"
  "credentials (set_account_reset_time aid t db) = credentials db"
  "credentials (upsert_oauth_snapshot_runtime_fields x aid p db) = credentials db"
  "credentials (update_account_metadata aid u src pre db) = credentials db"
  "credentials (update_account_metadata_unchecked aid u db) = credentials db"
  by (auto simp: set_account_disabled_def set_accounts_active_def set_account_active_def
      set_account_auth_error_def set_account_last_failure_def update_account_metadata_def
      update_account_metadata_unchecked_def apply_metadata_def credential_cols_def
      intro!: credentials_update_where)
     (simp_all add: credentials_def batch_upsert_runtime_states_def clear_account_cooldown_def
      set_account_reset_time_def upsert_oauth_snapshot_runtime_fields_def upsert_runtime_def)

section \<open>Runtime state survives the database\<close>

text \<open>What the code relies on of the JSON library: a list of limits it wrote is read back.\<close>

definition scoped_json_ok :: "db_ext \<Rightarrow> ScopedWeeklyLimit list \<Rightarrow> bool" where
  "scoped_json_ok x ls \<longleftrightarrow>
     (case x_scoped_to_json x ls of Some j \<Rightarrow> x_scoped_of_json x j = Some ls | None \<Rightarrow> False)"

interpretation bool_column: codec bool_to_int "\<lambda>v. Some (bool_from_int v)" "\<lambda>_. True"
proof
  fix b :: "bool option"
  show "Some (bool_from_int (bool_to_int b)) = Some b"
    by (cases b) (auto simp: bool_from_int_def bool_to_int_def)
qed

lemma bool_column_roundtrip [simp]: "bool_from_int (bool_to_int b) = b"
  using bool_column.dec_enc by simp

text \<open>\<open>u64 as i64 as u64\<close> is the identity, also above \<open>i64::MAX\<close>.\<close>

lemma make_bucket_bucket_cols [simp]: "make_bucket (bucket_cols b) = b"
  by (simp add: make_bucket_def bucket_cols_def)

lemma to_params_load_runtime:
  assumes "scoped_json_ok x (rp_weekly_scoped_limits p)"
  shows "to_params (load_runtime x (cols_of_params x p)) = p"
proof -
  obtain j where j: "x_scoped_to_json x (rp_weekly_scoped_limits p) = Some j"
    "x_scoped_of_json x j = Some (rp_weekly_scoped_limits p)"
    using assms by (auto simp: scoped_json_ok_def split: option.splits)
  obtain b0 b1 b2 b3 b4 where b: "rp_buckets p = (b0, b1, b2, b3, b4)"
    by (cases "rp_buckets p") auto
  show ?thesis
    by (rule RuntimeStateParams.equality)
      (simp_all add: to_params_def load_runtime_def cols_of_params_def j b)
qed

lemma hm_get_fold_insert:
  "distinct (map fst xs) \<Longrightarrow>
   hm_get (foldl (\<lambda>m (k, v). hm_insert k (f v) m) m xs) k =
     (case map_of xs k of Some v \<Rightarrow> Some (f v) | None \<Rightarrow> hm_get m k)"
proof (induction xs arbitrary: m)
  case (Cons y ys)
  obtain k' v where y: "y = (k', v)" by (cases y)
  with Cons.prems have "map_of ys k' = None"
    by (simp add: map_of_eq_None_iff)
  with Cons y show ?case
    by (auto simp: hm_get_insert split: option.splits)
qed simp

lemma find_loaded:
  assumes "a \<in> set (accounts db)"
  shows "\<exists>b. b \<in> set (accounts db) \<and> a_id b = a_id a
    \<and> get_account_by_id x nowi db (a_id a) = Some (load_account x nowi db b)"
proof -
  let ?p = "\<lambda>r. acc_id r = a_id a"
  have "find ?p (load_all_accounts x nowi db) \<noteq> None"
    using assms by (auto simp: find_None_iff load_all_accounts_def load_account_def)
  then obtain r where r: "find ?p (load_all_accounts x nowi db) = Some r"
    by auto
  then have "r \<in> set (load_all_accounts x nowi db)" "acc_id r = a_id a"
    by (auto simp: find_Some_iff)
  then obtain b where "b \<in> set (accounts db)" "r = load_account x nowi db b"
    by (auto simp: load_all_accounts_def)
  with r \<open>acc_id r = a_id a\<close> show ?thesis
    by (auto simp: get_account_by_id_def load_account_def)
qed

text \<open>
  C35: What a flush writes is what a later load returns: after the batch upsert of runtime states with
  distinct ids, loading any of those accounts gives exactly the parameters that were written, with all
  thirty usage counters intact over the whole \<open>u64\<close> range although the columns are signed.
\<close>

theorem flush_load_roundtrip:
  assumes "scoped_json_ok x (rp_weekly_scoped_limits p)" and "distinct (map fst states)" and "(a_id a, p) \<in> set states"
    and "a \<in> set (accounts db)"
  shows "\<exists>acc. get_account_by_id x nowi (batch_upsert_runtime_states x states db) (a_id a) = Some acc
     \<and> map_option to_params (acc_runtime acc) = Some p"
proof -
  let ?db = "batch_upsert_runtime_states x states db"
  have "a \<in> set (accounts ?db)"
    using assms(4) by (simp add: batch_upsert_runtime_states_def)
  from find_loaded [OF this, of x nowi] obtain b where
    b: "a_id b = a_id a" "get_account_by_id x nowi ?db (a_id a) = Some (load_account x nowi ?db b)"
    by blast
  have "map_of states (a_id a) = Some p"
    using assms(2,3) by simp
  then have "hm_get (runtime_state ?db) (a_id a) = Some (cols_of_params x p)"
    using assms(2) by (simp add: batch_upsert_runtime_states_def hm_get_fold_insert)
  with b show ?thesis
    by (simp add: load_account_def to_params_load_runtime [OF assms(1)])
qed

text \<open>An external library for the witnesses: encodings that are trivially invertible.\<close>

definition sample_ext :: db_ext where
  "sample_ext =
     \<lparr>x_parse_rfc3339 = parse_i64, x_fmt_rfc3339 = show_i64,
      x_scoped_to_json = (\<lambda>ls. Some (if ls = [] then ''[]'' else ''?'')),
      x_scoped_of_json = (\<lambda>s. if s = ''[]'' then Some [] else None),
      x_failure_to_json = (\<lambda>_. Some ''{}''), x_failure_of_json = (\<lambda>_. None),
      x_url_parse = Some, x_url_set_username = (\<lambda>u _. u), x_url_set_password = (\<lambda>u _. u)\<rparr>"

definition sample_row :: "i64 \<Rightarrow> account_row" where
  "sample_row i =
     \<lparr>a_id = i, a_name = ''acct'', a_rr_order = i, a_max_slots = 5, a_proxy_id = None,
      a_drain_first = 0, a_status = ''active'', a_auth_source = ''oauth'', a_cookie_blob = None,
      a_oauth_access_token = Some ''at'', a_oauth_refresh_token = Some ''rt'',
      a_oauth_expires_at = Some ''900'', a_organization_uuid = Some ''org'',
      a_last_refresh_at = None, a_last_error = None, a_invalid_reason = None,
      a_last_failure_json = None, a_email = None, a_account_type = None, a_rate_limit_tier = None,
      a_subscription_created_at = None, a_billing_type = None, a_api_key_base_url = None,
      a_api_key_secret = None, a_api_key_extra_headers = None, a_api_key_extra_body = None,
      a_mimicry_mode = ''none'', a_mimicry_config = None\<rparr>"

definition sample_db :: database where
  "sample_db = \<lparr>accounts = [sample_row 2, sample_row 1], runtime_state = [], proxies = [],
                request_logs = []\<rparr>"

definition sample_params :: RuntimeStateParams where
  "sample_params =
     to_runtime_params
       (default_slot\<lparr>reset_time := Some 99, session_usage := default_usage\<lparr>total_input_tokens := 2 ^ 63 + 5\<rparr>\<rparr>)"

theorem flush_load_roundtrip_witness:
  "scoped_json_ok sample_ext (rp_weekly_scoped_limits sample_params)
   \<and> (\<exists>acc. get_account_by_id sample_ext 0
        (batch_upsert_runtime_states sample_ext [(2, sample_params)] sample_db) 2 = Some acc
      \<and> map_option to_params (acc_runtime acc) = Some sample_params)"
proof
  show ok: "scoped_json_ok sample_ext (rp_weekly_scoped_limits sample_params)"
    by (simp add: scoped_json_ok_def sample_ext_def sample_params_def to_runtime_params_def
        default_slot_def)
  show "\<exists>acc. get_account_by_id sample_ext 0
        (batch_upsert_runtime_states sample_ext [(2, sample_params)] sample_db) 2 = Some acc
      \<and> map_option to_params (acc_runtime acc) = Some sample_params"
    using flush_load_roundtrip [OF ok, of "[(2, sample_params)]" "sample_row 2" sample_db 0]
    by (simp add: sample_db_def sample_row_def)
qed

section \<open>Statements guarded by the current refresh token\<close>

text \<open>
  The refresh token an OAuth account currently has in the database.
\<close>

definition oauth_token_of :: "i64 \<Rightarrow> database \<Rightarrow> string option" where
  "oauth_token_of aid db =
     (case find (\<lambda>a. a_id a = aid) (accounts db) of
        Some a \<Rightarrow> if a_auth_source a = ''oauth'' then a_oauth_refresh_token a else None
      | None \<Rightarrow> None)"

text \<open>
  The interface of a guarded statement: it runs with the token its caller believes to be current, reports
  whether it took effect, and does nothing when the belief is stale.
\<close>

locale token_guarded =
  fixes current :: "'db \<Rightarrow> 't option" and wf :: "'db \<Rightarrow> bool"
    and exec :: "'t \<Rightarrow> 'db \<Rightarrow> bool \<times> 'db"
  assumes hit: "wf db \<Longrightarrow> current db = Some t \<Longrightarrow> fst (exec t db)"
    and miss: "wf db \<Longrightarrow> current db \<noteq> Some t \<Longrightarrow> exec t db = (False, db)"
    and wf_exec: "wf db \<Longrightarrow> wf (snd (exec t db))"
begin

lemma took_effect_iff: "wf db \<Longrightarrow> fst (exec t db) \<longleftrightarrow> current db = Some t"
  using hit miss by fastforce

lemma stale_is_noop: "wf db \<Longrightarrow> current db \<noteq> Some t \<Longrightarrow> snd (exec t db) = db"
  by (simp add: miss)

text \<open>After a statement that rotated the token, a second one still holding the old token is void.\<close>

lemma old_token_void:
  assumes "wf db" and "current (snd (exec t db)) \<noteq> Some t"
  shows "exec t (snd (exec t db)) = (False, snd (exec t db))"
  using assms wf_exec miss by blast

end

lemma rows_affected_guard:
  assumes "db_wf db"
  shows "rows_affected (\<lambda>a. a_id a = aid \<and> q a) db =
    (case find (\<lambda>a. a_id a = aid) (accounts db) of Some a \<Rightarrow> if q a then 1 else 0 | None \<Rightarrow> 0)"
proof -
  have "distinct (map a_id xs) \<Longrightarrow>
      length (filter (\<lambda>a. a_id a = aid \<and> q a) xs) =
        (case find (\<lambda>a. a_id a = aid) xs of Some a \<Rightarrow> if q a then 1 else 0 | None \<Rightarrow> 0)" for xs
  proof (induction xs)
    case (Cons y ys)
    show ?case
    proof (cases "a_id y = aid")
      case True
      with Cons.prems have "\<forall>z \<in> set ys. a_id z \<noteq> aid"
        by (metis distinct.simps(2) image_eqI list.simps(9) set_map)
      then have "filter (\<lambda>a. a_id a = aid \<and> q a) ys = []"
        by (auto simp: filter_empty_conv)
      with True show ?thesis by simp
    next
      case False
      with Cons show ?thesis by simp
    qed
  qed simp
  with assms show ?thesis
    by (simp add: rows_affected_def db_wf_def)
qed

lemma token_guard_rows:
  assumes "db_wf db"
  shows "rows_affected (\<lambda>a. a_id a = aid \<and> a_auth_source a = ''oauth''
            \<and> a_oauth_refresh_token a = Some t) db
    = (if oauth_token_of aid db = Some t then 1 else 0)"
  unfolding rows_affected_guard [OF assms] oauth_token_of_def by (auto split: option.splits)

interpretation failure_verdict: token_guarded "oauth_token_of aid" db_wf
  "\<lambda>t. set_oauth_account_failure_if_current x aid t status reason err failure"
  for x aid status reason err failure
proof
  fix db t
  assume wf: "db_wf db"
  show "oauth_token_of aid db = Some t
    \<Longrightarrow> fst (set_oauth_account_failure_if_current x aid t status reason err failure db)"
    by (simp add: set_oauth_account_failure_if_current_def token_guard_rows [OF wf])
  show "oauth_token_of aid db \<noteq> Some t
    \<Longrightarrow> set_oauth_account_failure_if_current x aid t status reason err failure db = (False, db)"
    by (simp add: set_oauth_account_failure_if_current_def token_guard_rows [OF wf] update_where_id_if)
  show "db_wf (snd (set_oauth_account_failure_if_current x aid t status reason err failure db))"
    using wf by (simp add: set_oauth_account_failure_if_current_def Let_def db_wf_update_where)
qed

interpretation token_rotation: token_guarded "oauth_token_of aid" db_wf
  "\<lambda>t. upsert_account_oauth x nowi aid tok err (Some t)"
  for x nowi aid tok err
proof
  fix db t
  assume wf: "db_wf db"
  show "oauth_token_of aid db = Some t \<Longrightarrow> fst (upsert_account_oauth x nowi aid tok err (Some t) db)"
    by (simp add: upsert_account_oauth_def token_guard_rows [OF wf])
  show "oauth_token_of aid db \<noteq> Some t
    \<Longrightarrow> upsert_account_oauth x nowi aid tok err (Some t) db = (False, db)"
    by (simp add: upsert_account_oauth_def token_guard_rows [OF wf] update_where_id_if)
  show "db_wf (snd (upsert_account_oauth x nowi aid tok err (Some t) db))"
    using wf by (simp add: upsert_account_oauth_def Let_def db_wf_update_where)
qed

lemma find_map_upd:
  "(\<And>a. a_id (g a) = a_id a) \<Longrightarrow>
   find (\<lambda>a. a_id a = aid) (map g xs) = map_option g (find (\<lambda>a. a_id a = aid) xs)"
  by (induction xs) auto

lemma oauth_token_of_rotated:
  assumes "db_wf db" and "oauth_token_of aid db = Some t"
  shows "oauth_token_of aid (snd (upsert_account_oauth x nowi aid (Some tok) err (Some t) db))
    = Some (refresh_token tok)"
  using assms(2)
  by (auto simp: oauth_token_of_def upsert_account_oauth_def update_where_def find_map_upd
      split: option.splits if_splits dest: find_Some_iff [THEN iffD1])

text \<open>
  C28: A refresh and a late failure verdict cannot cross: once a refresh with the old token \<open>t\<close> has
  stored a new refresh token, a terminal verdict that was reached with \<open>t\<close> reports that it did not apply
  and leaves the whole database as it is, so the freshly rotated account cannot be flipped to
  \<open>auth_error\<close>; a second refresh that still presents \<open>t\<close> is void as well.
\<close>

theorem rotated_token_voids_stale_writers:
  assumes "db_wf db" and "oauth_token_of aid db = Some t" and "refresh_token tok \<noteq> t"
    and "upsert_account_oauth x nowi aid (Some tok) None (Some t) db = (applied, db')"
  shows "applied \<and> oauth_token_of aid db' = Some (refresh_token tok)
    \<and> set_oauth_account_failure_if_current x aid t status reason err failure db' = (False, db')
    \<and> upsert_account_oauth x nowi aid tok2 err2 (Some t) db' = (False, db')"
proof -
  have db': "db' = snd (upsert_account_oauth x nowi aid (Some tok) None (Some t) db)"
    and applied: "applied = fst (upsert_account_oauth x nowi aid (Some tok) None (Some t) db)"
    using assms(4) by simp_all
  have rot: "oauth_token_of aid db' = Some (refresh_token tok)"
    unfolding db' by (rule oauth_token_of_rotated [OF assms(1,2)])
  have wf: "db_wf db'"
    unfolding db' by (rule token_rotation.wf_exec [OF assms(1)])
  have stale: "oauth_token_of aid db' \<noteq> Some t"
    using rot assms(3) by simp
  have "applied"
    unfolding applied by (rule token_rotation.hit [OF assms(1,2)])
  with rot failure_verdict.miss [OF wf stale] token_rotation.miss [OF wf stale]
  show ?thesis by simp
qed

definition sample_token :: "string \<Rightarrow> TokenInfo" where
  "sample_token rt = token_from_parts 0 ''at2'' rt 1000000000 ''org''"

theorem rotated_token_voids_stale_writers_witness:
  "oauth_token_of 1 sample_db = Some ''rt''
   \<and> (let r = upsert_account_oauth sample_ext 0 1 (Some (sample_token ''rt2'')) None (Some ''rt'') sample_db;
          db' = snd r
      in fst r \<and> oauth_token_of 1 db' = Some ''rt2''
        \<and> upsert_account_oauth sample_ext 0 1 None None (Some ''rt'') db' = (False, db'))"
proof
  show tok: "oauth_token_of 1 sample_db = Some ''rt''"
    by (simp add: oauth_token_of_def sample_db_def sample_row_def)
  have wf: "db_wf sample_db"
    by (simp add: db_wf_def sample_db_def sample_row_def)
  have rt: "refresh_token (sample_token ''rt2'') = ''rt2''"
    by (simp add: sample_token_def token_from_parts_def)
  show "let r = upsert_account_oauth sample_ext 0 1 (Some (sample_token ''rt2'')) None (Some ''rt'') sample_db;
          db' = snd r
      in fst r \<and> oauth_token_of 1 db' = Some ''rt2''
        \<and> upsert_account_oauth sample_ext 0 1 None None (Some ''rt'') db' = (False, db')"
    using rotated_token_voids_stale_writers
      [OF wf tok _ prod.collapse [symmetric], of "sample_token ''rt2''" sample_ext 0 _ _ _ _ None None]
    by (simp add: rt Let_def)
qed

end
