(* ===== verification/Pool_State.thy ===== *)
theory Pool_State
  imports Account_Statements
begin

text \<open>
  The state of the account pool actor, from \<open>src/src/services/account_pool/state.rs\<close>: the three buckets
  (valid, exhausted, invalid), the affinity cache, the counters of requests in flight, the sets of dirty,
  probing and drain-first accounts; the wake-up of accounts whose cooldown has lapsed and the roll-over of
  the usage windows; and the invariant of the pool.

  The cache (crate moka) is a parameter: its operations are fields of \<open>pool_env\<close> over an arbitrary
  cache type, and \<open>affinity_cache\<close> states what its documentation promises. So is the hash that
  combines a prompt hash with the bound accounts, since the standard library does not specify it. A
  hash map is an association list without duplicate keys; its order stands for the unspecified iteration
  order. Time is an argument, one reading per actor turn.
\<close>

section \<open>State\<close>

record 'c AccountPoolState =
  valid :: "AccountSlot list"
  exhausted :: "(i64, AccountSlot) hash_map"
  invalid :: "(i64, InvalidAccountSlot) hash_map"
  moka :: 'c
  pool_db :: database
  refresh_events :: nat
  dirty :: "i64 set"
  has_handle :: bool
  inflight :: "(i64, u32 \<times> u32) hash_map"
  probing :: "i64 set"
  reactivated :: "i64 set"
  probe_errors :: "(i64, string) hash_map"
  drain_first_ids :: "i64 set"
  spawned_probes :: "(i64 \<times> RuntimeStateParams option) list"

text \<open>
  The libraries the pool calls: the cache, the hasher, and the JSON parsers of the reload path. A cache
  read may refresh the idle timer or drop entries, so it returns the cache as well.
\<close>

record 'c pool_env =
  mk_get :: "'c \<Rightarrow> u64 \<Rightarrow> i64 option \<times> 'c"
  mk_insert :: "'c \<Rightarrow> u64 \<Rightarrow> i64 \<Rightarrow> 'c"
  mk_invalidate :: "'c \<Rightarrow> u64 \<Rightarrow> 'c"
  mk_invalidate_all :: "'c \<Rightarrow> 'c"
  mk_invalidate_entries_if :: "'c \<Rightarrow> (u64 \<Rightarrow> i64 \<Rightarrow> bool) \<Rightarrow> 'c"
  hash_with_bound :: "u64 \<Rightarrow> i64 list \<Rightarrow> u64"
  env_db :: db_ext
  parse_header_map :: "string \<Rightarrow> (string \<times> string) list option"
  parse_json :: "string \<Rightarrow> json option"
  parse_mimicry_config :: "string \<Rightarrow> ThirdPartyMimicryConfig option"

record AccountPoolStatus =
  st_valid :: "AccountSlot list"
  st_exhausted :: "AccountSlot list"
  st_invalid :: "InvalidAccountSlot list"

datatype RuntimeMergeMode = Full | OAuthSnapshot

definition session_window_secs :: i64 where
  "session_window_secs = 5 * 60 * 60"

definition weekly_window_secs :: i64 where
  "weekly_window_secs = 7 * 24 * 60 * 60"

definition emit_accounts_refresh :: "'c AccountPoolState \<Rightarrow> 'c AccountPoolState" where
  "emit_accounts_refresh s = s\<lparr>refresh_events := Suc (refresh_events s)\<rparr>"

definition mark_dirty :: "i64 option \<Rightarrow> 'c AccountPoolState \<Rightarrow> 'c AccountPoolState" where
  "mark_dirty aid s =
     (case aid of Some i \<Rightarrow> s\<lparr>dirty := insert i (dirty s)\<rparr> | None \<Rightarrow> s)"

definition mark_all_dirty :: "'c AccountPoolState \<Rightarrow> 'c AccountPoolState" where
  "mark_all_dirty s =
     (let s1 = foldl (\<lambda>s c. mark_dirty (account_id c) s) s (valid s @ map snd (exhausted s))
      in foldl (\<lambda>s u. s\<lparr>dirty := insert (inv_account_id u) (dirty s)\<rparr>) s1 (map snd (invalid s)))"

section \<open>Lapsed cooldowns\<close>

definition lapsed :: "i64 \<Rightarrow> AccountSlot \<Rightarrow> bool" where
  "lapsed now c \<longleftrightarrow> reset_time (slot_reset now c) = None"

definition pool_reset :: "i64 \<Rightarrow> 'c AccountPoolState \<Rightarrow> 'c AccountPoolState" where
  "pool_reset now s =
     (let reset_cookies = [slot_reset now c. (k, c) \<leftarrow> exhausted s, lapsed now c];
          s1 = s\<lparr>exhausted := filter (\<lambda>(k, c). \<not> lapsed now c) (exhausted s)\<rparr>
      in if reset_cookies = [] then s1
         else foldl (\<lambda>s c. let s' = mark_dirty (account_id c) s in s'\<lparr>valid := valid s' @ [c]\<rparr>)
                s1 reset_cookies)"

section \<open>Usage windows\<close>

text \<open>Returns whether the window was reset, its new end, its usage and its utilization.\<close>

definition reset_if_due ::
    "bool option \<Rightarrow> i64 option \<Rightarrow> UsageBreakdown \<Rightarrow> f64 option \<Rightarrow> i64 \<Rightarrow> i64
      \<Rightarrow> bool \<times> i64 option \<times> UsageBreakdown \<times> f64 option" where
  "reset_if_due has_reset resets_at usage utilization window_secs now =
     (if has_reset = Some True \<and> (case resets_at of Some ts \<Rightarrow> now \<ge> ts | None \<Rightarrow> False)
      then (True, Some (now + window_secs), default_usage, Some 0)
      else (False, resets_at, usage, utilization))"

definition apply_resets :: "i64 \<Rightarrow> AccountSlot \<Rightarrow> bool \<times> AccountSlot" where
  "apply_resets now c =
     (case reset_if_due (session_has_reset c) (session_resets_at c) (session_usage c)
             (session_utilization c) session_window_secs now of (ch1, at1, us1, ut1) \<Rightarrow>
      case reset_if_due (weekly_has_reset c) (weekly_resets_at c) (weekly_usage c)
             (weekly_utilization c) weekly_window_secs now of (ch2, at2, us2, ut2) \<Rightarrow>
      case reset_if_due (weekly_sonnet_has_reset c) (weekly_sonnet_resets_at c)
             (weekly_sonnet_usage c) (weekly_sonnet_utilization c) weekly_window_secs now of
        (ch3, at3, us3, ut3) \<Rightarrow>
      case reset_if_due (weekly_opus_has_reset c) (weekly_opus_resets_at c) (weekly_opus_usage c)
             (weekly_opus_utilization c) weekly_window_secs now of (ch4, at4, us4, ut4) \<Rightarrow>
        (ch1 \<or> ch2 \<or> ch3 \<or> ch4,
         c\<lparr>session_resets_at := at1, session_usage := us1, session_utilization := ut1,
           weekly_resets_at := at2, weekly_usage := us2, weekly_utilization := ut2,
           weekly_sonnet_resets_at := at3, weekly_sonnet_usage := us3,
           weekly_sonnet_utilization := ut3,
           weekly_opus_resets_at := at4, weekly_opus_usage := us4,
           weekly_opus_utilization := ut4\<rparr>))"

definition due_ids :: "i64 \<Rightarrow> AccountSlot list \<Rightarrow> i64 list" where
  "due_ids now cs =
     List.map_filter (\<lambda>c. if fst (apply_resets now c) then account_id c else None) cs"

definition refresh_usage_windows :: "i64 \<Rightarrow> 'c AccountPoolState \<Rightarrow> bool \<times> 'c AccountPoolState" where
  "refresh_usage_windows now s =
     (let cs = valid s; es = map snd (exhausted s)
      in (list_ex (\<lambda>c. fst (apply_resets now c)) (cs @ es),
          s\<lparr>valid := map (\<lambda>c. snd (apply_resets now c)) cs,
            exhausted := map (\<lambda>(k, c). (k, snd (apply_resets now c))) (exhausted s),
            dirty := dirty s \<union> set (due_ids now cs) \<union> set (due_ids now es)\<rparr>))"

section \<open>The invariant\<close>

text \<open>The accounts of each bucket.\<close>

definition ids_of :: "AccountSlot list \<Rightarrow> i64 set" where
  "ids_of cs = {i. Some i \<in> account_id ` set cs}"

abbreviation valid_ids :: "'c AccountPoolState \<Rightarrow> i64 set" where
  "valid_ids s \<equiv> ids_of (valid s)"

abbreviation exhausted_ids :: "'c AccountPoolState \<Rightarrow> i64 set" where
  "exhausted_ids s \<equiv> hm_keys (exhausted s)"

abbreviation invalid_ids :: "'c AccountPoolState \<Rightarrow> i64 set" where
  "invalid_ids s \<equiv> hm_keys (invalid s)"

text \<open>
  \<open>buckets_ok\<close>: every slot of the valid queue has an id of its own and no cooldown, every exhausted slot
  is stored under its own id and has a cooldown, every invalid record is stored under its own id, and no
  account is in two buckets. \<open>pool_inv\<close> adds that every pooled account has a counter of requests in
  flight, that no account waits for a reactivation write, and that the tables have unique ids.
\<close>

definition valid_ok :: "AccountSlot list \<Rightarrow> bool" where
  "valid_ok vs \<longleftrightarrow> distinct (map account_id vs)
     \<and> (\<forall>c \<in> set vs. account_id c \<noteq> None \<and> reset_time c = None)"

definition exhausted_ok :: "(i64, AccountSlot) hash_map \<Rightarrow> bool" where
  "exhausted_ok ex \<longleftrightarrow> hm_wf ex
     \<and> (\<forall>k c. (k, c) \<in> set ex \<longrightarrow> account_id c = Some k \<and> reset_time c \<noteq> None)"

definition invalid_ok :: "(i64, InvalidAccountSlot) hash_map \<Rightarrow> bool" where
  "invalid_ok iv \<longleftrightarrow> hm_wf iv \<and> (\<forall>k u. (k, u) \<in> set iv \<longrightarrow> inv_account_id u = k)"

definition buckets_ok ::
    "AccountSlot list \<Rightarrow> (i64, AccountSlot) hash_map \<Rightarrow> (i64, InvalidAccountSlot) hash_map \<Rightarrow> bool" where
  "buckets_ok vs ex iv \<longleftrightarrow>
     valid_ok vs \<and> exhausted_ok ex \<and> invalid_ok iv
     \<and> ids_of vs \<inter> hm_keys ex = {} \<and> ids_of vs \<inter> hm_keys iv = {} \<and> hm_keys ex \<inter> hm_keys iv = {}"

definition pooled_ids :: "'c AccountPoolState \<Rightarrow> i64 set" where
  "pooled_ids s = valid_ids s \<union> exhausted_ids s \<union> invalid_ids s"

definition pool_inv :: "'c AccountPoolState \<Rightarrow> bool" where
  "pool_inv s \<longleftrightarrow>
     buckets_ok (valid s) (exhausted s) (invalid s)
     \<and> hm_wf (inflight s) \<and> pooled_ids s \<subseteq> hm_keys (inflight s)
     \<and> reactivated s = {} \<and> db_wf (pool_db s)"

subsection \<open>Bucket lemmas\<close>

named_theorems bucket_intros \<open>introduction rules of the bucket predicates\<close>

lemma ids_of_simps [simp]:
  "ids_of [] = {}"
  "ids_of (xs @ ys) = ids_of xs \<union> ids_of ys"
  "account_id c = Some i \<Longrightarrow> ids_of (c # cs) = insert i (ids_of cs)"
  by (auto simp: ids_of_def)

lemma ids_of_mono: "set xs \<subseteq> set ys \<Longrightarrow> ids_of xs \<subseteq> ids_of ys"
  by (auto simp: ids_of_def)

lemma ids_of_set_cong: "set xs = set ys \<Longrightarrow> ids_of xs = ids_of ys"
  by (simp add: ids_of_def)

lemma ids_of_map [simp]: "(\<And>c. account_id (f c) = account_id c) \<Longrightarrow> ids_of (map f cs) = ids_of cs"
  by (simp add: ids_of_def image_image)

lemma mem_ids_of: "c \<in> set cs \<Longrightarrow> account_id c = Some i \<Longrightarrow> i \<in> ids_of cs"
  by (force simp: ids_of_def)

lemma ids_ofE:
  assumes "i \<in> ids_of cs"
  obtains c where "c \<in> set cs" "account_id c = Some i"
  using assms by (auto simp: ids_of_def)

lemma ids_of_filter_not [simp]: "ids_of (filter (\<lambda>c. account_id c \<noteq> Some i) cs) = ids_of cs - {i}"
  by (auto simp: ids_of_def)

lemma valid_ok_Nil [simp]: "valid_ok []"
  by (simp add: valid_ok_def)

lemma valid_ok_append:
  "valid_ok (xs @ [c]) \<longleftrightarrow>
     valid_ok xs \<and> reset_time c = None \<and> (\<exists>i. account_id c = Some i \<and> i \<notin> ids_of xs)"
  by (force simp: valid_ok_def ids_of_def)

lemma valid_ok_mset: "mset xs = mset ys \<Longrightarrow> valid_ok xs = valid_ok ys"
  by (metis distinct_map_mset_cong mset_eq_setD valid_ok_def)

lemma valid_ok_filter [bucket_intros]: "valid_ok vs \<Longrightarrow> valid_ok (filter p vs)"
  by (auto simp: valid_ok_def intro: distinct_map_filter)

lemma valid_ok_map [bucket_intros]:
  "(\<And>c. account_id (f c) = account_id c \<and> reset_time (f c) = reset_time c)
    \<Longrightarrow> valid_ok vs \<Longrightarrow> valid_ok (map f vs)"
  by (auto simp: valid_ok_def comp_def)

lemma valid_ok_unique:
  "valid_ok vs \<Longrightarrow> c \<in> set vs \<Longrightarrow> d \<in> set vs \<Longrightarrow> account_id c = account_id d \<Longrightarrow> c = d"
  by (auto simp: valid_ok_def distinct_map dest: inj_onD)

lemma remove_position_filter:
  assumes "distinct (map f xs)" and "position (\<lambda>c. f c = k) xs = Some i"
  shows "remove_nth i xs = filter (\<lambda>c. f c \<noteq> k) xs"
proof -
  from assms(2) obtain ys x zs where *: "xs = ys @ x # zs" "length ys = i" "f x = k"
    "\<forall>y \<in> set ys. f y \<noteq> k"
    by (rule position_SomeE)
  moreover have "\<forall>z \<in> set zs. f z \<noteq> k"
    using assms(1) * by (auto simp: image_iff)
  ultimately show ?thesis
    by (auto simp: filter_True)
qed

lemma exhausted_ok_filter [bucket_intros]: "exhausted_ok ex \<Longrightarrow> exhausted_ok (filter p ex)"
  by (auto simp: exhausted_ok_def intro: distinct_map_filter)

lemma exhausted_ok_remove [bucket_intros]: "exhausted_ok ex \<Longrightarrow> exhausted_ok (hm_remove k ex)"
  by (auto simp: exhausted_ok_def set_hm_remove)

lemma exhausted_ok_insert [bucket_intros]:
  "exhausted_ok ex \<Longrightarrow> account_id c = Some k \<Longrightarrow> reset_time c \<noteq> None \<Longrightarrow> exhausted_ok (hm_insert k c ex)"
  by (auto simp: exhausted_ok_def set_hm_insert)

lemma exhausted_ok_map [bucket_intros]:
  "(\<And>k c. account_id (f k c) = account_id c \<and> reset_time (f k c) = reset_time c)
    \<Longrightarrow> exhausted_ok ex \<Longrightarrow> exhausted_ok (map (\<lambda>(k, c). (k, f k c)) ex)"
  by (auto simp: exhausted_ok_def case_prod_beta comp_def)

lemma exhausted_ok_get:
  "exhausted_ok ex \<Longrightarrow> hm_get ex k = Some c \<Longrightarrow> account_id c = Some k \<and> reset_time c \<noteq> None"
  by (auto simp: exhausted_ok_def dest: map_of_SomeD)

lemma fst_image_map_snd [simp]: "fst ` (\<lambda>(k, c). (k, f k c)) ` A = fst ` A"
  by (force simp: image_iff)

lemma invalid_ok_insert [bucket_intros]:
  "invalid_ok iv \<Longrightarrow> inv_account_id u = k \<Longrightarrow> invalid_ok (hm_insert k u iv)"
  by (auto simp: invalid_ok_def set_hm_insert)

lemma invalid_ok_remove [bucket_intros]: "invalid_ok iv \<Longrightarrow> invalid_ok (hm_remove k iv)"
  by (auto simp: invalid_ok_def set_hm_remove)

lemma empty_ok [simp]: "exhausted_ok []" "invalid_ok []"
  by (simp_all add: exhausted_ok_def invalid_ok_def)

subsection \<open>The wake-up and the windows keep it\<close>

lemma mark_dirty_simps [simp]:
  "valid (mark_dirty a s) = valid s" "exhausted (mark_dirty a s) = exhausted s"
  "invalid (mark_dirty a s) = invalid s" "moka (mark_dirty a s) = moka s"
  "pool_db (mark_dirty a s) = pool_db s" "inflight (mark_dirty a s) = inflight s"
  "reactivated (mark_dirty a s) = reactivated s" "has_handle (mark_dirty a s) = has_handle s"
  "probing (mark_dirty a s) = probing s" "drain_first_ids (mark_dirty a s) = drain_first_ids s"
  "probe_errors (mark_dirty a s) = probe_errors s"
  "dirty (mark_dirty a s) = dirty s \<union> set_option a"
  by (auto simp: mark_dirty_def split: option.splits)

lemma emit_simps [simp]:
  "valid (emit_accounts_refresh s) = valid s" "exhausted (emit_accounts_refresh s) = exhausted s"
  "invalid (emit_accounts_refresh s) = invalid s" "moka (emit_accounts_refresh s) = moka s"
  "pool_db (emit_accounts_refresh s) = pool_db s" "inflight (emit_accounts_refresh s) = inflight s"
  "reactivated (emit_accounts_refresh s) = reactivated s"
  "probing (emit_accounts_refresh s) = probing s" "dirty (emit_accounts_refresh s) = dirty s"
  "has_handle (emit_accounts_refresh s) = has_handle s"
  "drain_first_ids (emit_accounts_refresh s) = drain_first_ids s"
  "probe_errors (emit_accounts_refresh s) = probe_errors s"
  by (simp_all add: emit_accounts_refresh_def)

lemma lapsed_iff: "lapsed now c \<longleftrightarrow> (case reset_time c of Some t \<Rightarrow> t \<le> now | None \<Rightarrow> True)"
  by (simp add: lapsed_def slot_reset_reset_time split: option.splits)

text \<open>What the wake-up does, in one equation per field.\<close>

definition woken :: "i64 \<Rightarrow> 'c AccountPoolState \<Rightarrow> AccountSlot list" where
  "woken now s = map (\<lambda>(k, c). slot_reset now c) (filter (\<lambda>(k, c). lapsed now c) (exhausted s))"

lemma pool_reset_eq:
  fixes s :: "'c AccountPoolState"
  shows "pool_reset now s =
     s\<lparr>valid := valid s @ woken now s,
       exhausted := filter (\<lambda>(k, c). \<not> lapsed now c) (exhausted s),
       dirty := dirty s \<union> ids_of (woken now s)\<rparr>"
proof -
  have fold: "foldl (\<lambda>s c. let s' = mark_dirty (account_id c) s in s'\<lparr>valid := valid s' @ [c]\<rparr>) t cs =
      t\<lparr>valid := valid t @ cs, dirty := dirty t \<union> ids_of cs\<rparr>" for t :: "'c AccountPoolState" and cs
  proof (induction cs arbitrary: t)
    case (Cons c cs)
    have "set_option (account_id c) \<union> ids_of cs = ids_of (c # cs)"
      by (auto simp: ids_of_def)
    with Cons show ?case
      by (auto simp: mark_dirty_def Let_def ids_of_def intro!: AccountPoolState.equality
          split: option.splits)
  qed simp
  have "[slot_reset now c. (k, c) \<leftarrow> m, lapsed now c] =
      map (\<lambda>(k, c). slot_reset now c) (filter (\<lambda>(k, c). lapsed now c) m)"
    for m :: "(i64, AccountSlot) hash_map"
    by (induction m) auto
  then have "[slot_reset now c. (k, c) \<leftarrow> exhausted s, lapsed now c] = woken now s"
    by (simp add: woken_def)
  with fold show ?thesis
    by (auto simp: pool_reset_def Let_def intro!: AccountPoolState.equality)
qed

lemma woken_ids:
  assumes "exhausted_ok ex"
  shows "ids_of (map (\<lambda>(k, c). slot_reset now c) (filter p ex)) = hm_keys (filter p ex)"
proof -
  have "account_id (slot_reset now c) = Some k" if "(k, c) \<in> set ex" for k c
    using that assms by (simp add: exhausted_ok_def)
  then show ?thesis
    by (force simp: ids_of_def image_iff)
qed

lemma valid_ok_woken:
  assumes "exhausted_ok ex"
  shows "valid_ok (map (\<lambda>(k, c). slot_reset now c) (filter (\<lambda>(k, c). lapsed now c) ex))"
proof -
  have "map account_id (map (\<lambda>(k, c). slot_reset now c) (filter p ex)) = map Some (map fst (filter p ex))"
    for p
    using assms by (auto simp: exhausted_ok_def)
  moreover have "distinct (map Some (map fst (filter p ex)))" for p
    using assms by (simp add: exhausted_ok_def distinct_map inj_on_def distinct_map_filter)
  ultimately have "distinct (map account_id (map (\<lambda>(k, c). slot_reset now c)
      (filter (\<lambda>(k, c). lapsed now c) ex)))"
    by metis
  then show ?thesis
    using assms by (auto simp: valid_ok_def exhausted_ok_def lapsed_def)
qed

lemma valid_ok_append_list:
  "valid_ok xs \<Longrightarrow> valid_ok ys \<Longrightarrow> ids_of xs \<inter> ids_of ys = {} \<Longrightarrow> valid_ok (xs @ ys)"
proof -
  assume ok: "valid_ok xs" "valid_ok ys" and disj: "ids_of xs \<inter> ids_of ys = {}"
  have "account_id ` set xs \<inter> account_id ` set ys = {}"
  proof (rule equals0I)
    fix a assume a: "a \<in> account_id ` set xs \<inter> account_id ` set ys"
    with ok obtain i where "a = Some i" by (auto simp: valid_ok_def)
    with a have "i \<in> ids_of xs \<inter> ids_of ys" by (simp add: ids_of_def)
    with disj show False by simp
  qed
  with ok show ?thesis by (auto simp: valid_ok_def)
qed

lemma filter_keys_partition:
  assumes "hm_wf m"
  shows "hm_keys (filter p m) \<union> hm_keys (filter (\<lambda>x. \<not> p x) m) = hm_keys m"
    and "hm_keys (filter p m) \<inter> hm_keys (filter (\<lambda>x. \<not> p x) m) = {}"
proof -
  show "hm_keys (filter p m) \<union> hm_keys (filter (\<lambda>x. \<not> p x) m) = hm_keys m" by auto
  show "hm_keys (filter p m) \<inter> hm_keys (filter (\<lambda>x. \<not> p x) m) = {}"
    using eq_key_imp_eq_value [OF assms] by fastforce
qed

lemma split_bucket:
  assumes "A \<union> B = E" "A \<inter> B = {}" "V \<inter> E = {}" "V \<inter> I = {}" "E \<inter> I = {}"
  shows "V \<inter> A = {}" "(V \<union> A) \<inter> B = {}" "(V \<union> A) \<inter> I = {}" "B \<inter> I = {}"
    "V \<union> A \<union> B \<union> I = V \<union> E \<union> I"
  using assms by blast+

lemma buckets_ok_reset:
  assumes ok: "buckets_ok (valid s) (exhausted s) (invalid s)"
  shows "buckets_ok (valid (pool_reset now s)) (exhausted (pool_reset now s)) (invalid (pool_reset now s))"
    and "pooled_ids (pool_reset now s) = pooled_ids s"
proof -
  let ?p = "\<lambda>(k, c). lapsed now c"
  have not: "(\<lambda>(k, c). \<not> lapsed now c) = (\<lambda>x. \<not> ?p x)" by auto
  have ex: "exhausted_ok (exhausted s)" and wf: "hm_wf (exhausted s)"
    using ok by (simp_all add: buckets_ok_def exhausted_ok_def)
  have ids: "ids_of (woken now s) = hm_keys (filter ?p (exhausted s))"
    unfolding woken_def by (rule woken_ids [OF ex])
  note part = filter_keys_partition [OF wf, of ?p]
  have dis: "valid_ids s \<inter> exhausted_ids s = {}" "valid_ids s \<inter> invalid_ids s = {}"
    "exhausted_ids s \<inter> invalid_ids s = {}"
    using ok by (simp_all add: buckets_ok_def)
  note sp = split_bucket [OF part dis, folded ids]
  have "valid_ok (woken now s)" "valid_ok (valid s)"
    using ok valid_ok_woken [OF ex] by (simp_all add: woken_def buckets_ok_def)
  then have v: "valid_ok (valid s @ woken now s)"
    using sp(1) by (simp add: valid_ok_append_list)
  have fields: "valid (pool_reset now s) = valid s @ woken now s"
    "exhausted (pool_reset now s) = filter (\<lambda>x. \<not> ?p x) (exhausted s)"
    "invalid (pool_reset now s) = invalid s"
    by (simp_all add: pool_reset_eq not)
  show "buckets_ok (valid (pool_reset now s)) (exhausted (pool_reset now s))
      (invalid (pool_reset now s))"
    unfolding fields buckets_ok_def ids_of_simps(2)
    using v sp(2-4) ok exhausted_ok_filter [OF ex] by (simp add: buckets_ok_def)
  show "pooled_ids (pool_reset now s) = pooled_ids s"
    unfolding pooled_ids_def fields ids_of_simps(2) by (rule sp(5))
qed

lemma pool_inv_reset: "pool_inv s \<Longrightarrow> pool_inv (pool_reset now s)"
  using buckets_ok_reset [of s now] by (simp add: pool_inv_def) (simp add: pool_reset_eq)

lemma apply_resets_keeps [simp]:
  "account_id (snd (apply_resets now c)) = account_id c"
  "reset_time (snd (apply_resets now c)) = reset_time c"
  "credential (snd (apply_resets now c)) = credential c"
  by (simp_all add: apply_resets_def credential_def split: prod.splits)

lemma pool_inv_windows: "pool_inv s \<Longrightarrow> pool_inv (snd (refresh_usage_windows now s))"
  by (simp add: pool_inv_def buckets_ok_def pooled_ids_def refresh_usage_windows_def Let_def
      valid_ok_map exhausted_ok_map)

end
