(* ===== verification/Pool_Dispatch.thy ===== *)
theory Pool_Dispatch
  imports Pool_State
begin

text \<open>
  Dispatch of a request to an account, from \<open>src/src/services/account_pool/dispatch.rs\<close>: the affinity
  phase, the drain-first phase, the round-robin phase, the commit that charges a slot, and the
  classification of a failed dispatch.
\<close>

section \<open>Operations\<close>

definition cache_key :: "'c pool_env \<Rightarrow> u64 option \<Rightarrow> i64 list \<Rightarrow> u64 option" where
  "cache_key env hash bound =
     map_option (\<lambda>h. if bound = [] then h else hash_with_bound env h bound) hash"

definition bound_ok :: "i64 list \<Rightarrow> i64 \<Rightarrow> bool" where
  "bound_ok bound i \<longleftrightarrow> bound = [] \<or> i \<in> set bound"

definition slot_ok :: "i64 \<Rightarrow> (i64, u32 \<times> u32) hash_map \<Rightarrow> bool" where
  "slot_ok i infl \<longleftrightarrow> (case hm_get infl i of None \<Rightarrow> True | Some (cur, mx) \<Rightarrow> cur < mx)"

definition is_usable :: "i64 list \<Rightarrow> (i64, u32 \<times> u32) hash_map \<Rightarrow> AccountSlot \<Rightarrow> bool" where
  "is_usable bound infl c \<longleftrightarrow>
     (case account_id c of Some i \<Rightarrow> bound_ok bound i \<and> slot_ok i infl | None \<Rightarrow> False)"

definition is_drain :: "'c AccountPoolState \<Rightarrow> AccountSlot \<Rightarrow> bool" where
  "is_drain s c \<longleftrightarrow> (case account_id c of Some i \<Rightarrow> i \<in> drain_first_ids s | None \<Rightarrow> False)"

definition charge :: "i64 \<Rightarrow> (i64, u32 \<times> u32) hash_map \<Rightarrow> (i64, u32 \<times> u32) hash_map" where
  "charge i infl = hm_modify i (\<lambda>(cur, mx). (cur + 1, mx)) infl"

definition commit_dispatch ::
    "'c pool_env \<Rightarrow> nat \<Rightarrow> u64 option \<Rightarrow> bool \<Rightarrow> 'c AccountPoolState
      \<Rightarrow> (ClewdrError + AccountSlot) \<times> 'c AccountPoolState" where
  "commit_dispatch env pos key rewrite s =
     (let c = valid s ! pos;
          s1 = s\<lparr>valid := remove_nth pos (valid s)\<rparr>;
          s2 = (case account_id c of
                  Some aid \<Rightarrow> s1\<lparr>inflight := charge aid (inflight s1)\<rparr>
                | None \<Rightarrow> s1);
          s3 = s2\<lparr>valid := valid s2 @ [c]\<rparr>;
          s4 = (if rewrite
                then case (key, account_id c) of
                       (Some k, Some aid) \<Rightarrow> s3\<lparr>moka := mk_insert env (moka s3) k aid\<rparr>
                     | _ \<Rightarrow> s3
                else s3)
      in (Inr c, s4))"

definition in_bound_slot :: "i64 list \<Rightarrow> AccountSlot \<Rightarrow> bool" where
  "in_bound_slot bound c \<longleftrightarrow>
     bound = [] \<or> (case account_id c of Some i \<Rightarrow> i \<in> set bound | None \<Rightarrow> False)"

definition dispatch_empty_error :: "'c AccountPoolState \<Rightarrow> i64 list \<Rightarrow> ClewdrError" where
  "dispatch_empty_error s bound =
     (let has_relevant_valid = list_ex (in_bound_slot bound) (valid s);
          has_relevant_exhausted = list_ex (in_bound_slot bound) (map snd (exhausted s))
      in if has_relevant_valid \<or> has_relevant_exhausted then UpstreamCoolingDown
         else NoValidUpstreamAccounts)"

text \<open>Phases B (drain-first) and C (round-robin).\<close>

definition dispatch_bc ::
    "'c pool_env \<Rightarrow> u64 option \<Rightarrow> i64 list \<Rightarrow> 'c AccountPoolState
      \<Rightarrow> (ClewdrError + AccountSlot) \<times> 'c AccountPoolState" where
  "dispatch_bc env key bound s =
     (case (if drain_first_ids s \<noteq> {}
            then position (\<lambda>c. is_usable bound (inflight s) c \<and> is_drain s c) (valid s)
            else None) of
        Some pos \<Rightarrow> commit_dispatch env pos key True s
      | None \<Rightarrow>
          (case position (is_usable bound (inflight s)) (valid s) of
             Some pos \<Rightarrow> commit_dispatch env pos key True s
           | None \<Rightarrow> (Inl (dispatch_empty_error s bound), s)))"

text \<open>The account to borrow while the cached one is saturated.\<close>

definition borrow_pos :: "i64 list \<Rightarrow> i64 \<Rightarrow> 'c AccountPoolState \<Rightarrow> nat option" where
  "borrow_pos bound cached_id s =
     (case position (\<lambda>c. account_id c \<noteq> Some cached_id \<and> is_usable bound (inflight s) c
                        \<and> is_drain s c) (valid s) of
        Some p \<Rightarrow> Some p
      | None \<Rightarrow> position (\<lambda>c. account_id c \<noteq> Some cached_id \<and> is_usable bound (inflight s) c)
                  (valid s))"

definition dispatch_cached ::
    "'c pool_env \<Rightarrow> u64 \<Rightarrow> i64 \<Rightarrow> i64 list \<Rightarrow> 'c AccountPoolState
      \<Rightarrow> (ClewdrError + AccountSlot) \<times> 'c AccountPoolState" where
  "dispatch_cached env k cached_id bound s =
     (case position (\<lambda>c. account_id c = Some cached_id) (valid s) of
        None \<Rightarrow> dispatch_bc env (Some k) bound (s\<lparr>moka := mk_invalidate env (moka s) k\<rparr>)
      | Some pos \<Rightarrow>
          (case (if cached_id \<notin> drain_first_ids s
                 then position (\<lambda>c. is_usable bound (inflight s) c \<and> is_drain s c) (valid s)
                 else None) of
             Some drain_pos \<Rightarrow> commit_dispatch env drain_pos (Some k) True s
           | None \<Rightarrow>
               if is_usable bound (inflight s) (valid s ! pos)
               then commit_dispatch env pos (Some k) False s
               else if \<not> bound_ok bound cached_id
               then dispatch_bc env (Some k) bound (s\<lparr>moka := mk_invalidate env (moka s) k\<rparr>)
               else (case borrow_pos bound cached_id s of
                       Some p \<Rightarrow> commit_dispatch env p (Some k) False s
                     | None \<Rightarrow> (Inl (dispatch_empty_error s bound), s))))"

definition dispatch ::
    "'c pool_env \<Rightarrow> i64 \<Rightarrow> u64 option \<Rightarrow> i64 list \<Rightarrow> 'c AccountPoolState
      \<Rightarrow> (ClewdrError + AccountSlot) \<times> 'c AccountPoolState" where
  "dispatch env now hash bound s =
     (let s0 = pool_reset now s; key = cache_key env hash bound
      in case key of
           None \<Rightarrow> dispatch_bc env key bound s0
         | Some k \<Rightarrow>
             (case mk_get env (moka s0) k of
                (None, m) \<Rightarrow> dispatch_bc env key bound (s0\<lparr>moka := m\<rparr>)
              | (Some cached_id, m) \<Rightarrow> dispatch_cached env k cached_id bound (s0\<lparr>moka := m\<rparr>)))"

section \<open>What a dispatch can do\<close>

text \<open>
  A dispatch on the woken-up pool \<open>s0\<close> either commits a usable position, or fails because there is none;
  besides that it only changes the cache. \<open>dispatch_outcome\<close> says so, and says which position is chosen
  when a drain-first account is usable.
\<close>

definition dispatch_outcome ::
    "'c pool_env \<Rightarrow> i64 list \<Rightarrow> 'c AccountPoolState
      \<Rightarrow> (ClewdrError + AccountSlot) \<times> 'c AccountPoolState \<Rightarrow> bool" where
  "dispatch_outcome env bound s0 out \<longleftrightarrow>
     (\<exists>m key rw pos. out = commit_dispatch env pos key rw (s0\<lparr>moka := m\<rparr>)
        \<and> pos < length (valid s0) \<and> is_usable bound (inflight s0) (valid s0 ! pos)
        \<and> ((\<exists>c \<in> set (valid s0). is_usable bound (inflight s0) c \<and> is_drain s0 c)
             \<longrightarrow> is_drain s0 (valid s0 ! pos)))
     \<or> (\<exists>m. out = (Inl (dispatch_empty_error s0 bound), s0\<lparr>moka := m\<rparr>)
          \<and> (\<forall>c \<in> set (valid s0). \<not> is_usable bound (inflight s0) c))"

lemma moka_irrelevant [simp]:
  "is_drain (s\<lparr>moka := m\<rparr>) = is_drain s"
  "dispatch_empty_error (s\<lparr>moka := m\<rparr>) bound = dispatch_empty_error s bound"
  "borrow_pos bound i (s\<lparr>moka := m\<rparr>) = borrow_pos bound i s"
  by (simp_all add: fun_eq_iff is_drain_def dispatch_empty_error_def borrow_pos_def
      cong: option.case_cong)

lemma outcome_commit:
  assumes "position p (valid s0) = Some pos"
    and "\<And>c. p c \<Longrightarrow> is_usable bound (inflight s0) c"
    and "\<And>c d. p c \<Longrightarrow> d \<in> set (valid s0) \<Longrightarrow> is_usable bound (inflight s0) d \<Longrightarrow> is_drain s0 d
           \<Longrightarrow> is_drain s0 c"
  shows "dispatch_outcome env bound s0 (commit_dispatch env pos key rw (s0\<lparr>moka := m\<rparr>))"
  using position_SomeD [OF assms(1)] assms(2,3) unfolding dispatch_outcome_def by blast

lemma outcome_error:
  assumes "\<forall>c \<in> set (valid s0). \<not> is_usable bound (inflight s0) c"
  shows "dispatch_outcome env bound s0 (Inl (dispatch_empty_error s0 bound), s0\<lparr>moka := m\<rparr>)"
  using assms unfolding dispatch_outcome_def by blast

lemma dispatch_bc_outcome: "dispatch_outcome env bound s0 (dispatch_bc env key bound (s0\<lparr>moka := m\<rparr>))"
proof (cases "position (\<lambda>c. is_usable bound (inflight s0) c \<and> is_drain s0 c) (valid s0)")
  case (Some pos)
  then have "drain_first_ids s0 \<noteq> {}"
    by (auto dest!: position_SomeD(2) simp: is_drain_def split: option.splits)
  with Some show ?thesis
    by (auto simp: dispatch_bc_def intro: outcome_commit)
next
  case no_drain: None
  then have nd: "\<And>d. d \<in> set (valid s0) \<Longrightarrow> is_usable bound (inflight s0) d \<Longrightarrow> \<not> is_drain s0 d"
    by (auto simp: position_None_iff)
  show ?thesis
  proof (cases "position (is_usable bound (inflight s0)) (valid s0)")
    case None
    then have "\<forall>c \<in> set (valid s0). \<not> is_usable bound (inflight s0) c"
      by (simp add: position_None_iff)
    with None no_drain show ?thesis
      by (simp add: dispatch_bc_def outcome_error)
  next
    case (Some pos)
    with nd no_drain show ?thesis
      by (auto simp: dispatch_bc_def intro: outcome_commit)
  qed
qed

lemma borrow_pos_outcome:
  assumes "valid_ok (valid s0)" and "account_id c0 = Some cached" and "c0 \<in> set (valid s0)"
    and "\<not> is_usable bound (inflight s0) c0"
  shows "dispatch_outcome env bound s0
    (case borrow_pos bound cached s0 of
       Some p \<Rightarrow> commit_dispatch env p key False (s0\<lparr>moka := m\<rparr>)
     | None \<Rightarrow> (Inl (dispatch_empty_error s0 bound), s0\<lparr>moka := m\<rparr>))"
proof -
  have other: "account_id c \<noteq> Some cached"
    if "c \<in> set (valid s0)" "is_usable bound (inflight s0) c" for c
    using valid_ok_unique [OF assms(1) that(1) assms(3)] assms(2,4) that(2) by auto
  show ?thesis
  proof (cases "position (\<lambda>c. account_id c \<noteq> Some cached \<and> is_usable bound (inflight s0) c
      \<and> is_drain s0 c) (valid s0)")
    case (Some p)
    then show ?thesis
      by (auto simp: borrow_pos_def intro: outcome_commit)
  next
    case no_drain: None
    then have nd: "\<And>d. d \<in> set (valid s0) \<Longrightarrow> is_usable bound (inflight s0) d \<Longrightarrow> \<not> is_drain s0 d"
      using other by (auto simp: position_None_iff)
    show ?thesis
    proof (cases "position (\<lambda>c. account_id c \<noteq> Some cached \<and> is_usable bound (inflight s0) c) (valid s0)")
      case None
      with other have "\<forall>c \<in> set (valid s0). \<not> is_usable bound (inflight s0) c"
        by (auto simp: position_None_iff)
      with None no_drain show ?thesis
        by (simp add: borrow_pos_def outcome_error)
    next
      case (Some p)
      with nd no_drain show ?thesis
        by (auto simp: borrow_pos_def intro: outcome_commit)
    qed
  qed
qed

lemma dispatch_cached_outcome:
  assumes "valid_ok (valid s0)"
  shows "dispatch_outcome env bound s0 (dispatch_cached env k cached bound (s0\<lparr>moka := m\<rparr>))"
proof (cases "position (\<lambda>c. account_id c = Some cached) (valid s0)")
  case None
  then show ?thesis
    by (simp add: dispatch_cached_def dispatch_bc_outcome)
next
  case (Some pos)
  note pos = position_SomeD [OF Some]
  let ?drain = "if cached \<notin> drain_first_ids s0
    then position (\<lambda>c. is_usable bound (inflight s0) c \<and> is_drain s0 c) (valid s0) else None"
  show ?thesis
  proof (cases ?drain)
    case drain: (Some dp)
    then have "position (\<lambda>c. is_usable bound (inflight s0) c \<and> is_drain s0 c) (valid s0) = Some dp"
      by (auto split: if_splits)
    with drain Some show ?thesis
      by (auto simp: dispatch_cached_def intro!: outcome_commit)
  next
    case drain: None
    show ?thesis
    proof (cases "is_usable bound (inflight s0) (valid s0 ! pos)")
      case True
      have "is_drain s0 (valid s0 ! pos)"
        if "d \<in> set (valid s0)" "is_usable bound (inflight s0) d" "is_drain s0 d" for d
        using that drain pos(2) by (auto simp: is_drain_def position_None_iff split: if_splits)
      with True pos have "dispatch_outcome env bound s0
          (commit_dispatch env pos (Some k) False (s0\<lparr>moka := m\<rparr>))"
        unfolding dispatch_outcome_def by blast
      with True Some drain show ?thesis
        by (cases "cached \<in> drain_first_ids s0") (simp_all add: dispatch_cached_def)
    next
      case False
      with Some drain borrow_pos_outcome [OF assms pos(2,3) False, where key = "Some k"] show ?thesis
        by (cases "cached \<in> drain_first_ids s0")
          (simp_all add: dispatch_cached_def dispatch_bc_outcome cong: option.case_cong)
    qed
  qed
qed

lemma dispatch_has_outcome:
  assumes "valid_ok (valid (pool_reset now s))"
  shows "dispatch_outcome env bound (pool_reset now s) (dispatch env now hash bound s)"
  using dispatch_bc_outcome [of env bound "pool_reset now s" None "moka (pool_reset now s)"]
  by (auto simp: dispatch_def Let_def dispatch_bc_outcome dispatch_cached_outcome [OF assms]
      split: option.splits prod.splits)

lemma commit_dispatch_eq:
  assumes "account_id (valid s ! pos) = Some i"
  shows "commit_dispatch env pos key rw s =
    (Inr (valid s ! pos),
     s\<lparr>valid := remove_nth pos (valid s) @ [valid s ! pos], inflight := charge i (inflight s),
       moka := (case key of Some k \<Rightarrow> if rw then mk_insert env (moka s) k i else moka s
                | None \<Rightarrow> moka s)\<rparr>)"
  using assms by (cases key; cases rw) (simp_all add: commit_dispatch_def Let_def)

lemma commit_fields:
  assumes "pos < length (valid s)" and "account_id (valid s ! pos) = Some i"
    and "commit_dispatch env pos key rw s = (r, t)"
  shows "r = Inr (valid s ! pos)" "valid t = remove_nth pos (valid s) @ [valid s ! pos]"
    "exhausted t = exhausted s" "invalid t = invalid s" "inflight t = charge i (inflight s)"
    "dirty t = dirty s" "probing t = probing s" "reactivated t = reactivated s"
    "pool_db t = pool_db s" "drain_first_ids t = drain_first_ids s" "has_handle t = has_handle s"
    "probe_errors t = probe_errors s"
  using assms(3) unfolding commit_dispatch_eq [OF assms(2)] by auto

lemma valid_slot_id:
  assumes "pool_inv s" and "pos < length (valid s)"
  obtains i where "account_id (valid s ! pos) = Some i" "i \<in> valid_ids s"
  using assms by (metis buckets_ok_def mem_ids_of not_None_eq nth_mem pool_inv_def valid_ok_def)

lemma valid_ok_of_inv: "pool_inv s \<Longrightarrow> valid_ok (valid s)"
  by (simp add: pool_inv_def buckets_ok_def)

lemma hm_keys_charge [simp]: "hm_keys (charge i m) = hm_keys m" "map fst (charge i m) = map fst m"
  by (simp_all add: charge_def)

lemma pool_inv_commit:
  assumes inv: "pool_inv s" and pos: "pos < length (valid s)"
    and t: "commit_dispatch env pos key rw s = (r, t)"
  shows "pool_inv t"
proof -
  obtain i where i: "account_id (valid s ! pos) = Some i"
    using valid_slot_id [OF inv pos] .
  note f = commit_fields [OF pos i t]
  have "mset (valid t) = mset (valid s)"
    unfolding f using mset_rotate_nth [OF pos] .
  then have "valid_ok (valid t) = valid_ok (valid s)" "ids_of (valid t) = ids_of (valid s)"
    by (rule valid_ok_mset, metis ids_of_set_cong mset_eq_setD)
  with inv show ?thesis
    by (simp add: pool_inv_def buckets_ok_def pooled_ids_def f(3-))
qed

lemma pool_inv_moka [simp]: "pool_inv (s\<lparr>moka := m\<rparr>) = pool_inv s"
  by (simp add: pool_inv_def pooled_ids_def)

lemma inflight_reset [simp]: "inflight (pool_reset now s) = inflight s"
  by (simp add: pool_reset_eq)

text \<open>The case analysis of a dispatch from a pool that satisfies the invariant.\<close>

lemma dispatch_cases:
  assumes "pool_inv s" and "dispatch env now hash bound s = (r, t)"
  obtains (served) m key rw pos i where
      "commit_dispatch env pos key rw ((pool_reset now s)\<lparr>moka := m\<rparr>) = (r, t)"
      "pos < length (valid (pool_reset now s))"
      "account_id (valid (pool_reset now s) ! pos) = Some i"
      "r = Inr (valid (pool_reset now s) ! pos)" "inflight t = charge i (inflight s)"
      "bound_ok bound i" "slot_ok i (inflight s)" "i \<in> valid_ids (pool_reset now s)"
      "(\<exists>c \<in> set (valid (pool_reset now s)). is_usable bound (inflight s) c
          \<and> is_drain (pool_reset now s) c)
        \<longrightarrow> is_drain (pool_reset now s) (valid (pool_reset now s) ! pos)"
    | (refused) m where
      "r = Inl (dispatch_empty_error (pool_reset now s) bound)" "t = (pool_reset now s)\<lparr>moka := m\<rparr>"
      "\<forall>c \<in> set (valid (pool_reset now s)). \<not> is_usable bound (inflight s) c"
proof -
  have inv: "pool_inv (pool_reset now s)"
    by (rule pool_inv_reset [OF assms(1)])
  from dispatch_has_outcome [OF valid_ok_of_inv [OF inv], of env bound hash] assms(2)
  have "dispatch_outcome env bound (pool_reset now s) (r, t)" by simp
  then consider
      (ok) m key rw pos where
        "commit_dispatch env pos key rw ((pool_reset now s)\<lparr>moka := m\<rparr>) = (r, t)"
        "pos < length (valid (pool_reset now s))"
        "is_usable bound (inflight s) (valid (pool_reset now s) ! pos)"
        "(\<exists>c \<in> set (valid (pool_reset now s)). is_usable bound (inflight s) c
            \<and> is_drain (pool_reset now s) c)
          \<longrightarrow> is_drain (pool_reset now s) (valid (pool_reset now s) ! pos)"
    | (err) m where
        "r = Inl (dispatch_empty_error (pool_reset now s) bound)" "t = (pool_reset now s)\<lparr>moka := m\<rparr>"
        "\<forall>c \<in> set (valid (pool_reset now s)). \<not> is_usable bound (inflight s) c"
    unfolding dispatch_outcome_def inflight_reset by (elim disjE exE conjE) (metis prod.inject)+
  then show thesis
  proof cases
    case ok
    obtain i where i: "account_id (valid (pool_reset now s) ! pos) = Some i"
      "i \<in> valid_ids (pool_reset now s)"
      using valid_slot_id [OF inv ok(2)] .
    have "r = Inr (valid (pool_reset now s) ! pos)" "inflight t = charge i (inflight s)"
      using commit_fields(1,5) [OF _ _ ok(1)] ok(2) i(1) by auto
    moreover have "bound_ok bound i" "slot_ok i (inflight s)"
      using ok(3) i(1) by (simp_all add: is_usable_def)
    ultimately show thesis
      using served ok i by metis
  next
    case err
    then show thesis by (rule refused)
  qed
qed

lemma pool_inv_dispatch:
  assumes "pool_inv s" and "dispatch env now hash bound s = (r, t)"
  shows "pool_inv t"
  using assms
proof (cases rule: dispatch_cases)
  case (served m key rw pos i)
  then show ?thesis
    using pool_inv_commit [OF _ _ served(1)] pool_inv_reset [OF assms(1)] by simp
next
  case (refused m)
  then show ?thesis
    using pool_inv_reset [OF assms(1)] by simp
qed

section \<open>Properties\<close>

text \<open>
  C3: A served request is charged to exactly one account and within its limit: whatever the cache
  says, the slot returned was in the valid queue after lapsed cooldowns were lifted, it is inside the
  caller's bound set, its counter of requests in flight was below its maximum and goes up by exactly
  one without overflowing \<open>u32\<close> and without passing the maximum, and no other counter moves. A refused
  request changes no counter at all.
\<close>

theorem dispatch_charges_one_slot:
  assumes "pool_inv s" and "dispatch env now hash bound s = (r, t)"
  shows "case r of
      Inr c \<Rightarrow>
        c \<in> set (valid (pool_reset now s))
        \<and> (\<exists>i cur mx. account_id c = Some i \<and> (bound = [] \<or> i \<in> set bound)
             \<and> hm_get (inflight s) i = Some (cur, mx) \<and> unat cur < unat mx
             \<and> hm_get (inflight t) i = Some (cur + 1, mx)
             \<and> unat (cur + 1) = unat cur + 1 \<and> unat (cur + 1) \<le> unat mx
             \<and> (\<forall>j. j \<noteq> i \<longrightarrow> hm_get (inflight t) j = hm_get (inflight s) j))
    | Inl e \<Rightarrow> inflight t = inflight s"
  using assms
proof (cases rule: dispatch_cases)
  case (served m key rw pos i)
  have "hm_contains (inflight s) i"
    using served(8) pool_inv_reset [OF assms(1), of now]
    unfolding hm_contains_iff pool_inv_def pooled_ids_def inflight_reset by blast
  then obtain cur mx where cm: "hm_get (inflight s) i = Some (cur, mx)" by auto
  then have lt: "unat cur < unat mx"
    using served(7) by (simp add: slot_ok_def word_less_nat_alt)
  then have up: "unat (cur + 1) = unat cur + 1"
    using unat_less_pow [of mx] by (simp add: unat_word_ariths)
  have "hm_get (inflight t) i = Some (cur + 1, mx)"
    "\<forall>j. j \<noteq> i \<longrightarrow> hm_get (inflight t) j = hm_get (inflight s) j"
    using cm by (simp_all add: served(5) charge_def hm_get_modify)
  with served(2-4,6) cm lt up show ?thesis
    by (auto simp: bound_ok_def)
next
  case (refused m)
  then show ?thesis by simp
qed

lemma usable_ex_iff:
  assumes "valid_ok vs"
  shows "(\<exists>c \<in> set vs. is_usable bound infl c) \<longleftrightarrow> (\<exists>i \<in> ids_of vs. bound_ok bound i \<and> slot_ok i infl)"
proof
  assume "\<exists>c \<in> set vs. is_usable bound infl c"
  then obtain c i where "c \<in> set vs" "account_id c = Some i" "bound_ok bound i" "slot_ok i infl"
    by (auto simp: is_usable_def split: option.splits)
  then show "\<exists>i \<in> ids_of vs. bound_ok bound i \<and> slot_ok i infl"
    by (blast intro: mem_ids_of)
next
  assume "\<exists>i \<in> ids_of vs. bound_ok bound i \<and> slot_ok i infl"
  then show "\<exists>c \<in> set vs. is_usable bound infl c"
    by (auto elim!: ids_ofE simp: is_usable_def intro!: bexI)
qed

lemma in_bound_ids:
  assumes "pool_inv s"
  shows "list_ex (in_bound_slot bound) (valid s) \<or> list_ex (in_bound_slot bound) (map snd (exhausted s))
    \<longleftrightarrow> (\<exists>i \<in> valid_ids s \<union> exhausted_ids s. bound_ok bound i)"
proof -
  have v: "list_ex (in_bound_slot bound) cs \<longleftrightarrow> (\<exists>i \<in> ids_of cs. bound_ok bound i)"
    if "\<forall>c \<in> set cs. account_id c \<noteq> None" for cs
  proof -
    have "in_bound_slot bound c \<longleftrightarrow> (\<exists>i. account_id c = Some i \<and> bound_ok bound i)" if "c \<in> set cs" for c
      using \<open>\<forall>c \<in> set cs. account_id c \<noteq> None\<close> that
      by (auto simp: in_bound_slot_def bound_ok_def split: option.splits)
    then show ?thesis
      by (auto simp: list_ex_iff elim!: ids_ofE) (metis mem_ids_of)+
  qed
  have ex: "exhausted_ok (exhausted s)" and va: "valid_ok (valid s)"
    using assms by (simp_all add: pool_inv_def buckets_ok_def)
  have "ids_of (map snd (exhausted s)) = exhausted_ids s"
    using ex by (force simp: exhausted_ok_def ids_of_def image_iff)
  moreover have "\<forall>c \<in> set (map snd (exhausted s)). account_id c \<noteq> None"
    using ex by (auto simp: exhausted_ok_def)
  ultimately show ?thesis
    using v [of "valid s"] v [of "map snd (exhausted s)"] va unfolding valid_ok_def bex_Un by simp
qed

lemma cancel_disjoint_union:
  "V \<union> E \<union> I = V' \<union> E' \<union> I \<Longrightarrow> V \<inter> I = {} \<Longrightarrow> E \<inter> I = {} \<Longrightarrow> V' \<inter> I = {} \<Longrightarrow> E' \<inter> I = {}
    \<Longrightarrow> V \<union> E = V' \<union> E'"
  by blast

lemma servable_ids_reset:
  assumes "pool_inv s"
  shows "valid_ids (pool_reset now s) \<union> exhausted_ids (pool_reset now s) = valid_ids s \<union> exhausted_ids s"
proof -
  have ok: "buckets_ok (valid s) (exhausted s) (invalid s)"
    using assms by (simp add: pool_inv_def)
  have iv: "invalid (pool_reset now s) = invalid s"
    by (simp add: pool_reset_eq)
  have b: "valid_ids (pool_reset now s) \<inter> invalid_ids s = {}"
    "exhausted_ids (pool_reset now s) \<inter> invalid_ids s = {}"
    "valid_ids s \<inter> invalid_ids s = {}" "exhausted_ids s \<inter> invalid_ids s = {}"
    using ok buckets_ok_reset(1) [OF ok, of now] unfolding buckets_ok_def iv by iprover+
  have p: "valid_ids (pool_reset now s) \<union> exhausted_ids (pool_reset now s) \<union> invalid_ids s
      = valid_ids s \<union> exhausted_ids s \<union> invalid_ids s"
    using buckets_ok_reset(2) [OF ok, of now] unfolding pooled_ids_def iv .
  show ?thesis
    by (rule cancel_disjoint_union [OF p b])
qed

lemma dispatch_ok_iff:
  assumes "pool_inv s" and "dispatch env now hash bound s = (r, t)"
  shows "(\<exists>c. r = Inr c) \<longleftrightarrow>
      (\<exists>i \<in> valid_ids (pool_reset now s). bound_ok bound i \<and> slot_ok i (inflight s))"
  using assms
proof (cases rule: dispatch_cases)
  case (served m key rw pos i)
  then show ?thesis by auto
next
  case (refused m)
  have inv: "pool_inv (pool_reset now s)"
    by (rule pool_inv_reset [OF assms(1)])
  show ?thesis
    using refused(1,3) usable_ex_iff [OF valid_ok_of_inv [OF inv], of bound "inflight s"] by simp
qed

lemma dispatch_error_eq:
  assumes "pool_inv s" and "dispatch env now hash bound s = (Inl e, t)"
  shows "e = (if \<exists>i \<in> valid_ids s \<union> exhausted_ids s. bound_ok bound i
              then UpstreamCoolingDown else NoValidUpstreamAccounts)"
  using assms
proof (cases rule: dispatch_cases)
  case (refused m)
  have inv: "pool_inv (pool_reset now s)"
    by (rule pool_inv_reset [OF assms(1)])
  have "dispatch_empty_error (pool_reset now s) bound =
      (if \<exists>i \<in> valid_ids s \<union> exhausted_ids s. bound_ok bound i
       then UpstreamCoolingDown else NoValidUpstreamAccounts)"
    unfolding dispatch_empty_error_def Let_def in_bound_ids [OF inv] servable_ids_reset [OF assms(1)] ..
  with refused(1) show ?thesis by simp
qed simp

text \<open>
  C7: Dispatch never gives up too early and says why it gives up: a request is served exactly when
  some account of the valid queue (after the wake-up) is inside the bound set and below its limit; if none
  is, the error is \<open>UpstreamCoolingDown\<close> exactly when an account of the bound set is merely busy or
  cooling down, and \<open>NoValidUpstreamAccounts\<close> when there is no account left to wait for. The affinity
  cache, whatever it contains, can neither cause nor prevent a refusal.
\<close>

theorem dispatch_served_iff:
  assumes "pool_inv s" and "dispatch env now hash bound s = (r, t)"
  shows "((\<exists>c. r = Inr c) \<longleftrightarrow>
        (\<exists>i \<in> valid_ids (pool_reset now s). bound_ok bound i \<and> slot_ok i (inflight s)))
    \<and> (\<forall>e. r = Inl e \<longrightarrow>
        e = (if \<exists>i \<in> valid_ids s \<union> exhausted_ids s. bound_ok bound i
             then UpstreamCoolingDown else NoValidUpstreamAccounts))"
  using dispatch_ok_iff [OF assms] dispatch_error_eq [OF assms(1)] assms(2) by blast

text \<open>
  C33: Drain-first accounts are drained first: as long as one of them is usable for a request, the
  account that serves it is a drain-first account, even when the affinity cache points elsewhere.
\<close>

theorem dispatch_drains_first:
  assumes "pool_inv s" and "dispatch env now hash bound s = (Inr c, t)"
    and "d \<in> valid_ids (pool_reset now s)" and "d \<in> drain_first_ids s"
    and "bound_ok bound d" and "slot_ok d (inflight s)"
  shows "\<exists>i \<in> drain_first_ids s. account_id c = Some i"
  using assms(1,2)
proof (cases rule: dispatch_cases)
  case (served m key rw pos i)
  have dr: "is_drain (pool_reset now s) c' \<longleftrightarrow> (\<exists>i \<in> drain_first_ids s. account_id c' = Some i)" for c'
    by (auto simp: is_drain_def pool_reset_eq split: option.splits)
  obtain c' where "c' \<in> set (valid (pool_reset now s))" "account_id c' = Some d"
    using assms(3) by (rule ids_ofE)
  with assms(4-6) served(9) have "is_drain (pool_reset now s) (valid (pool_reset now s) ! pos)"
    by (force simp: is_usable_def dr)
  with served(4) dr show ?thesis by simp
qed simp

section \<open>Round robin\<close>

text \<open>\<open>n\<close> requests without a prompt hash, one after the other.\<close>

fun serve_n ::
    "'c pool_env \<Rightarrow> i64 \<Rightarrow> i64 list \<Rightarrow> nat \<Rightarrow> 'c AccountPoolState
      \<Rightarrow> (ClewdrError + AccountSlot) list \<times> 'c AccountPoolState" where
  "serve_n env now bound 0 s = ([], s)"
| "serve_n env now bound (Suc n) s =
     (let (r, s1) = dispatch env now None bound s; (rs, s2) = serve_n env now bound n s1
      in (r # rs, s2))"

definition none_lapsed :: "i64 \<Rightarrow> 'c AccountPoolState \<Rightarrow> bool" where
  "none_lapsed now s \<longleftrightarrow> list_all (\<lambda>(k, c). \<not> lapsed now c) (exhausted s)"

lemma pool_reset_none_lapsed: "none_lapsed now s \<Longrightarrow> pool_reset now s = s"
proof -
  assume "none_lapsed now s"
  then have "filter (\<lambda>(k, c). \<not> lapsed now c) (exhausted s) = exhausted s"
    "filter (\<lambda>(k, c). lapsed now c) (exhausted s) = []"
    by (auto simp: none_lapsed_def list_all_iff filter_empty_conv intro: filter_True)
  then show ?thesis
    by (simp add: pool_reset_eq woken_def)
qed

lemma dispatch_unhashed_head:
  assumes "none_lapsed now s" and "drain_first_ids s = {}" and "valid s = x # zs"
    and "is_usable bound (inflight s) x" and "account_id x = Some i"
  shows "dispatch env now None bound s =
    (Inr x, s\<lparr>valid := zs @ [x], inflight := charge i (inflight s)\<rparr>)"
  using assms
  by (simp add: dispatch_def Let_def cache_key_def pool_reset_none_lapsed dispatch_bc_def
      commit_dispatch_def remove_nth_def)

lemma usable_charge_other:
  "account_id c \<noteq> Some i \<Longrightarrow> is_usable bound (charge i infl) c = is_usable bound infl c"
  by (auto simp: is_usable_def slot_ok_def charge_def hm_get_modify split: option.splits)

text \<open>
  C31: Round robin is fair: when no account is preferred and no cooldown lapses, a batch of requests
  as long as a prefix \<open>xs\<close> of usable accounts of the queue is served by exactly these accounts, each once
  and in queue order, and they end up behind the accounts that were waiting after them.
\<close>

theorem round_robin_fair:
  assumes "pool_inv s" and "valid s = xs @ ys" and "drain_first_ids s = {}" and "none_lapsed now s"
    and "\<forall>c \<in> set xs. is_usable bound (inflight s) c"
  shows "fst (serve_n env now bound (length xs) s) = map Inr xs
    \<and> valid (snd (serve_n env now bound (length xs) s)) = ys @ xs"
  using assms
proof (induction xs arbitrary: s ys)
  case (Cons x xs)
  obtain i where i: "account_id x = Some i"
    using Cons.prems(5) by (auto simp: is_usable_def split: option.splits)
  let ?t = "s\<lparr>valid := (xs @ ys) @ [x], inflight := charge i (inflight s)\<rparr>"
  have d: "dispatch env now None bound s = (Inr x, ?t)"
    using Cons.prems i by (intro dispatch_unhashed_head) simp_all
  have "account_id c \<noteq> Some i" if "c \<in> set xs" for c
    using that valid_ok_of_inv [OF Cons.prems(1)] i Cons.prems(2) by (force simp: valid_ok_def)
  then have "\<forall>c \<in> set xs. is_usable bound (inflight ?t) c"
    using Cons.prems(5) by (simp add: usable_charge_other)
  moreover have "pool_inv ?t"
    by (rule pool_inv_dispatch [OF Cons.prems(1) d])
  ultimately have "fst (serve_n env now bound (length xs) ?t) = map Inr xs
      \<and> valid (snd (serve_n env now bound (length xs) ?t)) = (ys @ [x]) @ xs"
    using Cons.prems(3,4) by (intro Cons.IH) (simp_all add: none_lapsed_def)
  then show ?case
    by (simp add: d case_prod_beta)
qed simp

end
