(* ===== verification/Pool_Affinity.thy ===== *)
theory Pool_Affinity
  imports Pool_Dispatch
begin

text \<open>
  The affinity of a conversation to an account, and a concrete pool on which the dispatch properties are
  instantiated. The cache of the witnesses is an association list that never evicts.
\<close>

section \<open>A concrete pool\<close>

definition list_env :: "(u64, i64) hash_map pool_env" where
  "list_env =
     \<lparr>mk_get = (\<lambda>c k. (hm_get c k, c)), mk_insert = (\<lambda>c k v. hm_insert k v c),
      mk_invalidate = (\<lambda>c k. hm_remove k c), mk_invalidate_all = (\<lambda>_. []),
      mk_invalidate_entries_if = (\<lambda>c p. filter (\<lambda>(k, v). \<not> p k v) c),
      hash_with_bound = (\<lambda>h bs. h + of_int (sum_list bs)),
      env_db = sample_ext, parse_header_map = (\<lambda>_. None), parse_json = (\<lambda>_. None),
      parse_mimicry_config = (\<lambda>_. None)\<rparr>"

definition sample_slot :: "i64 \<Rightarrow> AccountSlot" where
  "sample_slot i = slot_oauth i (sample_token ''rt'')"

definition sample_pool :: "(u64, i64) hash_map AccountPoolState" where
  "sample_pool =
     \<lparr>valid = [sample_slot 1, sample_slot 2],
      exhausted = [(3, (sample_slot 3)\<lparr>reset_time := Some 500\<rparr>)],
      invalid = [(4, \<lparr>inv_account_id = 4, inv_auth_method = OAuth, inv_reason = Banned\<rparr>)],
      moka = [(7, 1)], pool_db = sample_db, refresh_events = 0, dirty = {}, has_handle = True,
      inflight = [(1, (0, 1)), (2, (0, 2)), (3, (1, 2)), (4, (0, 1))],
      probing = {}, reactivated = {}, probe_errors = [], drain_first_ids = {},
      spawned_probes = []\<rparr>"

lemma sample_pool_inv: "pool_inv sample_pool"
  by (simp add: pool_inv_def buckets_ok_def valid_ok_def exhausted_ok_def invalid_ok_def
      pooled_ids_def sample_pool_def sample_slot_def slot_oauth_def default_slot_def ids_of_def
      db_wf_def sample_db_def sample_row_def) auto

theorem dispatch_charges_one_slot_witness:
  "hm_get (inflight (snd (dispatch list_env 100 None [2] sample_pool))) 2 = Some (1, 2)
   \<and> hm_get (inflight (snd (dispatch list_env 100 None [2] sample_pool))) 3 = Some (1, 2)"
proof -
  let ?d = "dispatch list_env 100 None [2] sample_pool"
  have id: "map_sum id account_id (fst ?d) = Inr (Some 2)"
    by code_simp
  then obtain c where c: "fst ?d = Inr c" "account_id c = Some 2"
    by (cases "fst ?d") simp_all
  from dispatch_charges_one_slot [OF sample_pool_inv, of list_env 100 None "[2]" "Inr c" "snd ?d"] c
  have "hm_get (inflight (snd ?d)) 3 = hm_get (inflight sample_pool) 3"
    "\<exists>cur mx. hm_get (inflight sample_pool) 2 = Some (cur, mx)
       \<and> hm_get (inflight (snd ?d)) 2 = Some (cur + 1, mx)"
    by (auto simp: prod_eq_iff)
  then show ?thesis
    by (simp add: sample_pool_def)
qed

theorem dispatch_served_iff_witness:
  "fst (dispatch list_env 100 None [3, 4] sample_pool) = Inl UpstreamCoolingDown
   \<and> fst (dispatch list_env 100 None [4] sample_pool) = Inl NoValidUpstreamAccounts"
proof -
  have vids: "valid_ids (pool_reset 100 sample_pool) = {1, 2}"
    by (auto simp: pool_reset_eq woken_def lapsed_iff sample_pool_def sample_slot_def slot_oauth_def
        ids_of_def)
  have ids: "valid_ids sample_pool \<union> exhausted_ids sample_pool = {1, 2, 3}"
    by (auto simp: sample_pool_def sample_slot_def slot_oauth_def ids_of_def)
  have "fst (dispatch list_env 100 None bound sample_pool) =
      Inl (if \<exists>i \<in> {1, 2, 3}. bound_ok bound i then UpstreamCoolingDown else NoValidUpstreamAccounts)"
    if "\<forall>i \<in> {1, 2}. \<not> bound_ok bound i" for bound
    using dispatch_served_iff [OF sample_pool_inv prod.collapse [symmetric], of list_env 100 None bound]
      that unfolding vids ids by (cases "fst (dispatch list_env 100 None bound sample_pool)") auto
  from this [of "[3, 4]"] this [of "[4]"] show ?thesis
    by (simp add: bound_ok_def)
qed

theorem dispatch_drains_first_witness:
  "map_sum id account_id (fst (dispatch list_env 100 (Some 7) [] (sample_pool\<lparr>drain_first_ids := {2}\<rparr>)))
    = Inr (Some 2)"
proof -
  let ?s = "sample_pool\<lparr>drain_first_ids := {2}\<rparr>"
  let ?d = "dispatch list_env 100 (Some 7) [] ?s"
  have inv: "pool_inv ?s"
    using sample_pool_inv by (simp add: pool_inv_def pooled_ids_def)
  have "isl (fst ?d) = False"
    by code_simp
  then obtain c where c: "?d = (Inr c, snd ?d)"
    by (cases "fst ?d") (simp_all add: prod_eq_iff)
  have "2 \<in> valid_ids (pool_reset 100 ?s)" "slot_ok 2 (inflight ?s)"
    by (auto simp: pool_reset_eq woken_def lapsed_iff sample_pool_def sample_slot_def slot_oauth_def
        ids_of_def slot_ok_def)
  with dispatch_drains_first [OF inv c, of 2] have "account_id c = Some 2"
    by (simp add: bound_ok_def)
  with c show ?thesis
    by (metis fst_conv map_sum.simps(2))
qed

theorem round_robin_fair_witness:
  "map (map_sum id account_id) (fst (serve_n list_env 100 [] 2 sample_pool)) = [Inr (Some 1), Inr (Some 2)]
   \<and> map account_id (valid (snd (serve_n list_env 100 [] 1 sample_pool))) = [Some 2, Some 1]"
proof -
  have fields: "valid sample_pool = [sample_slot 1, sample_slot 2]" "drain_first_ids sample_pool = {}"
    "account_id (sample_slot i) = Some i" for i
    by (simp_all add: sample_pool_def sample_slot_def slot_oauth_def)
  have nl: "none_lapsed 100 sample_pool"
    by (simp add: none_lapsed_def lapsed_iff sample_pool_def)
  have us: "is_usable [] (inflight sample_pool) (sample_slot 1)"
    "is_usable [] (inflight sample_pool) (sample_slot 2)"
    by (simp_all add: is_usable_def slot_ok_def bound_ok_def fields) (simp_all add: sample_pool_def)
  from round_robin_fair [OF sample_pool_inv _ fields(2) nl, of "[sample_slot 1, sample_slot 2]" "[]" "[]" list_env]
    round_robin_fair [OF sample_pool_inv _ fields(2) nl, of "[sample_slot 1]" "[sample_slot 2]" "[]" list_env] us
  show ?thesis
    by (simp add: fields numeral_2_eq_2)
qed

section \<open>Affinity\<close>

lemma moka_reset [simp]: "moka (pool_reset now s) = moka s"
  by (simp add: pool_reset_eq)

lemma commit_keeps_moka [simp]: "moka (snd (commit_dispatch env pos key False s)) = moka s"
  by (simp add: commit_dispatch_def Let_def split: option.splits)

text \<open>
  C32: A conversation stays with its account: when the cache binds the request's key to account \<open>i\<close>,
  \<open>i\<close> is still valid and inside the bound set, and no drain-first account outranks it, the binding is not
  rewritten by the dispatch, so that a later request finds it. If \<open>i\<close> has a free slot it serves the
  request; if it is saturated, another account of the bound set with a free slot serves this request when
  there is one, and the request is refused when there is none.
\<close>

theorem affinity_kept:
  assumes "pool_inv s" and "cache_key env hash bound = Some k"
    and "mk_get env (moka s) k = (Some i, m)"
    and "i \<in> valid_ids (pool_reset now s)" and "bound_ok bound i"
    and "i \<in> drain_first_ids s
      \<or> (\<forall>d \<in> valid_ids (pool_reset now s) \<inter> drain_first_ids s. bound_ok bound d \<longrightarrow> \<not> slot_ok d (inflight s))"
    and "dispatch env now hash bound s = (r, t)"
  shows "moka t = m
    \<and> (slot_ok i (inflight s) \<longrightarrow> (\<exists>c. r = Inr c \<and> account_id c = Some i))
    \<and> (\<not> slot_ok i (inflight s) \<longrightarrow>
        (if \<exists>j \<in> valid_ids (pool_reset now s). bound_ok bound j \<and> slot_ok j (inflight s)
         then \<exists>c j. r = Inr c \<and> account_id c = Some j \<and> j \<noteq> i \<and> bound_ok bound j \<and> slot_ok j (inflight s)
         else \<exists>e. r = Inl e))"
proof -
  let ?s = "(pool_reset now s)\<lparr>moka := m\<rparr>"
  have d: "dispatch_cached env k i bound ?s = (r, t)"
    using assms(2,3,7) by (simp add: dispatch_def)
  obtain c where c: "c \<in> set (valid ?s)" "account_id c = Some i"
    using assms(4) by (auto elim: ids_ofE)
  then obtain pos where pos: "position (\<lambda>c. account_id c = Some i) (valid ?s) = Some pos"
    using position_ex [of c "valid ?s" "\<lambda>c. account_id c = Some i"] by blast
  have "position (\<lambda>c. is_usable bound (inflight ?s) c \<and> is_drain ?s c) (valid ?s) = None"
    if "i \<notin> drain_first_ids s"
    using that assms(6) mem_ids_of
    by (fastforce simp: position_None_iff is_usable_def is_drain_def pool_reset_eq
        split: option.splits)
  then have nd: "(if i \<notin> drain_first_ids ?s
      then position (\<lambda>c. is_usable bound (inflight ?s) c \<and> is_drain ?s c) (valid ?s) else None) = None"
    by (simp add: pool_reset_eq)
  have ai: "account_id (valid ?s ! pos) = Some i"
    using position_SomeD(2) [OF pos] .
  have rt: "(r, t) = (if slot_ok i (inflight s) then commit_dispatch env pos (Some k) False ?s
      else case borrow_pos bound i ?s of
             Some p \<Rightarrow> commit_dispatch env p (Some k) False ?s
           | None \<Rightarrow> (Inl (dispatch_empty_error ?s bound), ?s))"
    using d assms(5) ai unfolding dispatch_cached_def pos nd option.case
    by (cases "slot_ok i (inflight s)") (simp_all add: is_usable_def)
  show ?thesis
  proof (cases "slot_ok i (inflight s)")
    case True
    with rt have "(r, t) = commit_dispatch env pos (Some k) False ?s" by simp
    with ai True show ?thesis
      by (simp add: commit_dispatch_eq)
  next
    case False
    have "t = snd (case borrow_pos bound i ?s of
             Some p \<Rightarrow> commit_dispatch env p (Some k) False ?s
           | None \<Rightarrow> (Inl (dispatch_empty_error ?s bound), ?s))"
      using rt False by (metis snd_conv)
    then have "moka t = m"
      by (simp split: option.splits)
    moreover have "\<exists>c j. r = Inr c \<and> account_id c = Some j \<and> j \<noteq> i \<and> bound_ok bound j \<and> slot_ok j (inflight s)"
      if "r = Inr c" for c
      using assms(1,7)
    proof (cases rule: dispatch_cases)
      case (served m key rw pos j)
      with that False show ?thesis by auto
    qed (use that in simp)
    ultimately show ?thesis
      using False dispatch_ok_iff [OF assms(1,7)] by (cases r) auto
  qed
qed

theorem affinity_kept_witness:
  "map_sum id account_id (fst (dispatch list_env 100 (Some 7) [] sample_pool)) = Inr (Some 1)
   \<and> moka (snd (dispatch list_env 100 (Some 7) [] sample_pool)) = [(7, 1)]"
proof -
  let ?d = "dispatch list_env 100 (Some 7) [] sample_pool"
  have *: "cache_key list_env (Some 7) [] = Some 7" "mk_get list_env (moka sample_pool) 7 = (Some 1, [(7, 1)])"
    "bound_ok [] 1" "slot_ok 1 (inflight sample_pool)" "1 \<in> valid_ids (pool_reset 100 sample_pool)"
    "drain_first_ids sample_pool = {}"
    by (auto simp: cache_key_def list_env_def sample_pool_def bound_ok_def slot_ok_def pool_reset_eq
        ids_of_def sample_slot_def slot_oauth_def)
  from affinity_kept [OF sample_pool_inv *(1,2,5,3) _ prod.collapse [symmetric]] *(4,6)
  show ?thesis by auto
qed

end
