(* ===== verification/Pool_Collect.thy ===== *)
theory Pool_Collect
  imports Pool_Affinity
begin

text \<open>
  The return path of the pool, from \<open>src/src/services/account_pool/fingerprint.rs\<close>: credential
  fingerprints, the credential updates, the explicit invalidation, and the collection of a finished
  request with its sticky-reason and fingerprint guards. Strings are byte strings, so a prefix of twenty
  bytes is always a slice.
\<close>

section \<open>Operations\<close>

datatype CredentialFingerprint = FP_Cookie string | FP_OAuth string | FP_ApiKey string

definition credential_fingerprint_len :: nat where
  "credential_fingerprint_len = 20"

definition fp_prefix :: "string \<Rightarrow> string" where
  "fp_prefix s = take (min credential_fingerprint_len (length s)) s"

definition from_oauth_refresh_token :: "string \<Rightarrow> CredentialFingerprint" where
  "from_oauth_refresh_token rt = FP_OAuth (fp_prefix rt)"

definition from_slot :: "AccountSlot \<Rightarrow> CredentialFingerprint option" where
  "from_slot c =
     (case auth_method c of
        Cookie \<Rightarrow> map_option (\<lambda>k. FP_Cookie (fp_prefix (inner k))) (cookie c)
      | OAuth \<Rightarrow> map_option (\<lambda>t. FP_OAuth (fp_prefix (refresh_token t))) (token c)
      | ApiKey \<Rightarrow> map_option (\<lambda>k. FP_ApiKey (fp_prefix k)) (api_key_secret c))"

definition update_slot_credential ::
    "i64 \<Rightarrow> TokenInfo option \<Rightarrow> 'c AccountPoolState \<Rightarrow> 'c AccountPoolState" where
  "update_slot_credential aid tok s =
     s\<lparr>valid := map (\<lambda>c. if account_id c = Some aid then c\<lparr>token := tok\<rparr> else c) (valid s),
       exhausted := hm_modify aid (\<lambda>c. c\<lparr>token := tok\<rparr>) (exhausted s)\<rparr>"

text \<open>The slot of an account: the valid queue first, then the exhausted bucket.\<close>

definition pool_slot :: "'c AccountPoolState \<Rightarrow> i64 \<Rightarrow> AccountSlot option" where
  "pool_slot s aid =
     (case find (\<lambda>c. account_id c = Some aid) (valid s) of
        Some c \<Rightarrow> Some c
      | None \<Rightarrow> hm_get (exhausted s) aid)"

definition pool_oauth_refresh_token_matches :: "'c AccountPoolState \<Rightarrow> i64 \<Rightarrow> string \<Rightarrow> bool" where
  "pool_oauth_refresh_token_matches s aid expected =
     (case pool_slot s aid of
        Some c \<Rightarrow> (case token c of Some t \<Rightarrow> refresh_token t = expected | None \<Rightarrow> False)
      | None \<Rightarrow> False)"

definition removed_kind :: "i64 \<Rightarrow> 'c AccountPoolState \<Rightarrow> AuthMethod option" where
  "removed_kind aid s =
     (case find (\<lambda>c. account_id c = Some aid) (valid s) of
        Some c \<Rightarrow> Some (auth_method c)
      | None \<Rightarrow> map_option auth_method (hm_get (exhausted s) aid))"

definition converge_invalidate ::
    "'c pool_env \<Rightarrow> i64 \<Rightarrow> Reason \<Rightarrow> 'c AccountPoolState \<Rightarrow> 'c AccountPoolState" where
  "converge_invalidate env aid reason s =
     (let kind = removed_kind aid s;
          s1 = s\<lparr>valid := filter (\<lambda>c. account_id c \<noteq> Some aid) (valid s),
                 exhausted := hm_remove aid (exhausted s)\<rparr>;
          s2 = (case kind of
                  Some am \<Rightarrow>
                    s1\<lparr>invalid := hm_insert aid
                        \<lparr>inv_account_id = aid, inv_auth_method = am, inv_reason = reason\<rparr> (invalid s1)\<rparr>
                | None \<Rightarrow> s1)
      in emit_accounts_refresh
           (s2\<lparr>drain_first_ids := drain_first_ids s2 - {aid},
               reactivated := reactivated s2 - {aid},
               dirty := dirty s2 - {aid},
               moka := mk_invalidate_entries_if env (moka s2) (\<lambda>_ v. v = aid)\<rparr>))"

definition pool_credential_fingerprint ::
    "'c AccountPoolState \<Rightarrow> i64 \<Rightarrow> CredentialFingerprint option" where
  "pool_credential_fingerprint s aid =
     (case find (\<lambda>c. account_id c = Some aid) (valid s) of
        Some c \<Rightarrow> from_slot c
      | None \<Rightarrow> (case hm_get (exhausted s) aid of Some c \<Rightarrow> from_slot c | None \<Rightarrow> None))"

definition sticky :: "Reason \<Rightarrow> bool" where
  "sticky r \<longleftrightarrow> r = Free \<or> r = Disabled \<or> r = Banned \<or> r = Null"

definition merge_runtime :: "RuntimeMergeMode \<Rightarrow> RuntimeStateParams \<Rightarrow> AccountSlot \<Rightarrow> AccountSlot" where
  "merge_runtime mode update c =
     (case mode of
        Full \<Rightarrow> apply_runtime_state update c
      | OAuthSnapshot \<Rightarrow> apply_oauth_snapshot_runtime update c)"

text \<open>The bucket a returned slot goes to.\<close>

definition rebucket :: "i64 \<Rightarrow> Reason option \<Rightarrow> AccountSlot \<Rightarrow> 'c AccountPoolState \<Rightarrow> 'c AccountPoolState" where
  "rebucket aid reason c s =
     (case reason of
        None \<Rightarrow>
          if reset_time c \<noteq> None then s\<lparr>exhausted := hm_insert aid c (exhausted s)\<rparr>
          else s\<lparr>valid := valid s @ [c]\<rparr>
      | Some (TooManyRequest i) \<Rightarrow>
          s\<lparr>exhausted := hm_insert aid (reset_window_usage (c\<lparr>reset_time := Some i\<rparr>)) (exhausted s)\<rparr>
      | Some (Restricted i) \<Rightarrow>
          s\<lparr>exhausted := hm_insert aid (reset_window_usage (c\<lparr>reset_time := Some i\<rparr>)) (exhausted s)\<rparr>
      | Some r \<Rightarrow>
          s\<lparr>invalid := hm_insert aid
              \<lparr>inv_account_id = aid, inv_auth_method = auth_method (reset_window_usage c),
               inv_reason = r\<rparr> (invalid s)\<rparr>)"

definition transient :: "Reason option \<Rightarrow> bool" where
  "transient reason =
     (case reason of None \<Rightarrow> True | Some (TooManyRequest _) \<Rightarrow> True | Some (Restricted _) \<Rightarrow> True
      | Some _ \<Rightarrow> False)"

definition sticky_guard :: "'c AccountPoolState \<Rightarrow> i64 \<Rightarrow> bool" where
  "sticky_guard s aid =
     (case hm_get (invalid s) aid of Some u \<Rightarrow> sticky (inv_reason u) | None \<Rightarrow> False)"

definition fingerprint_guard ::
    "'c AccountPoolState \<Rightarrow> i64 \<Rightarrow> CredentialFingerprint option \<Rightarrow> bool" where
  "fingerprint_guard s aid expected_fp =
     (case expected_fp of
        Some e \<Rightarrow> pool_credential_fingerprint s aid \<noteq> Some e
      | None \<Rightarrow> False)"

definition collect_by_id ::
    "i64 \<Rightarrow> RuntimeStateParams \<Rightarrow> Reason option \<Rightarrow> CredentialFingerprint option \<Rightarrow> RuntimeMergeMode
      \<Rightarrow> 'c AccountPoolState \<Rightarrow> bool \<times> 'c AccountPoolState" where
  "collect_by_id aid update reason expected_fp mode s =
     (let removed_probe = (aid \<in> probing s);
          s1 = s\<lparr>probing := probing s - {aid}\<rparr>
      in if sticky_guard s1 aid then (removed_probe, s1)
         else if fingerprint_guard s1 aid expected_fp then (removed_probe, s1)
         else
           let vpos = position (\<lambda>c. account_id c = Some aid) (valid s1);
               had_valid = map_option (\<lambda>i. valid s1 ! i) vpos;
               s2 = (case vpos of Some i \<Rightarrow> s1\<lparr>valid := remove_nth i (valid s1)\<rparr> | None \<Rightarrow> s1);
               had_exhausted = hm_get (exhausted s2) aid;
               s3 = s2\<lparr>exhausted := hm_remove aid (exhausted s2)\<rparr>;
               had_invalid_flag = hm_contains (invalid s3) aid
           in case (case had_valid of Some c \<Rightarrow> Some c | None \<Rightarrow> had_exhausted) of
                None \<Rightarrow> (removed_probe, s3)
              | Some c \<Rightarrow>
                  let s4 = s3\<lparr>invalid := hm_remove aid (invalid s3)\<rparr>;
                      s5 = rebucket aid reason (merge_runtime mode update c) s4;
                      s6 = (if had_invalid_flag \<and> transient reason
                            then s5\<lparr>reactivated := insert aid (reactivated s5)\<rparr> else s5)
                  in (removed_probe, mark_dirty (Some aid) s6))"

definition apply_in_memory_runtime :: "AccountSlot \<Rightarrow> AccountSlot \<Rightarrow> bool \<Rightarrow> AccountSlot" where
  "apply_in_memory_runtime dst mem preserve_token =
     dst\<lparr>token := (if preserve_token then token mem else token dst),
       reset_time := reset_time mem,
       session_usage := session_usage mem, weekly_usage := weekly_usage mem,
       weekly_sonnet_usage := weekly_sonnet_usage mem, weekly_opus_usage := weekly_opus_usage mem,
       lifetime_usage := lifetime_usage mem,
       session_resets_at := session_resets_at mem, weekly_resets_at := weekly_resets_at mem,
       weekly_sonnet_resets_at := weekly_sonnet_resets_at mem,
       weekly_opus_resets_at := weekly_opus_resets_at mem,
       resets_last_checked_at := resets_last_checked_at mem,
       session_has_reset := session_has_reset mem, weekly_has_reset := weekly_has_reset mem,
       weekly_sonnet_has_reset := weekly_sonnet_has_reset mem,
       weekly_opus_has_reset := weekly_opus_has_reset mem,
       supports_claude_1m_sonnet := supports_claude_1m_sonnet mem,
       supports_claude_1m_opus := supports_claude_1m_opus mem,
       count_tokens_allowed := count_tokens_allowed mem,
       session_utilization := session_utilization mem,
       weekly_utilization := weekly_utilization mem,
       weekly_sonnet_utilization := weekly_sonnet_utilization mem,
       weekly_opus_utilization := weekly_opus_utilization mem,
       weekly_scoped_limits := weekly_scoped_limits mem,
       email := (case email dst of None \<Rightarrow> email mem | Some e \<Rightarrow> Some e),
       account_type := (case account_type dst of None \<Rightarrow> account_type mem | Some e \<Rightarrow> Some e)\<rparr>"

section \<open>The operations keep the invariant\<close>

lemma find_valid:
  assumes "valid_ok vs"
  shows "find (\<lambda>c. account_id c = Some i) vs = Some c \<longleftrightarrow> c \<in> set vs \<and> account_id c = Some i"
proof
  assume "find (\<lambda>c. account_id c = Some i) vs = Some c"
  then show "c \<in> set vs \<and> account_id c = Some i"
    by (auto simp: find_Some_iff)
next
  assume c: "c \<in> set vs \<and> account_id c = Some i"
  then obtain d where d: "find (\<lambda>c. account_id c = Some i) vs = Some d"
    using find_None_iff [of "\<lambda>c. account_id c = Some i" vs] by (metis not_None_eq)
  then have "d \<in> set vs" "account_id d = Some i"
    by (auto simp: find_Some_iff)
  with c have "c = d" using valid_ok_unique [OF assms] by metis
  with d show "find (\<lambda>c. account_id c = Some i) vs = Some c" by simp
qed

lemma find_none_iff_ids: "find (\<lambda>c. account_id c = Some i) vs = None \<longleftrightarrow> i \<notin> ids_of vs"
  by (auto simp: find_None_iff ids_of_def image_iff)

lemma pool_slot_ids:
  assumes "pool_slot s i = Some c" and "pool_inv s"
  shows "account_id c = Some i" and "i \<in> valid_ids s \<union> exhausted_ids s" and "i \<notin> invalid_ids s"
proof -
  have ok: "valid_ok (valid s)" "exhausted_ok (exhausted s)"
    and disj: "valid_ids s \<inter> invalid_ids s = {}" "exhausted_ids s \<inter> invalid_ids s = {}"
    using assms(2) by (simp_all add: pool_inv_def buckets_ok_def)
  have "(c \<in> set (valid s) \<and> account_id c = Some i) \<or> hm_get (exhausted s) i = Some c"
    using assms(1) by (auto simp: pool_slot_def find_valid [OF ok(1)] split: option.splits)
  then have *: "account_id c = Some i \<and> i \<in> valid_ids s \<union> exhausted_ids s"
    using exhausted_ok_get [OF ok(2), of i c] mem_ids_of [of c "valid s" i] hm_contains_iff [of "exhausted s" i]
    by auto
  with disj show "account_id c = Some i" "i \<in> valid_ids s \<union> exhausted_ids s" "i \<notin> invalid_ids s"
    by blast+
qed

lemma pool_slot_None_iff: "pool_slot s i = None \<longleftrightarrow> i \<notin> valid_ids s \<and> i \<notin> exhausted_ids s"
  by (auto simp: pool_slot_def find_none_iff_ids map_of_eq_None_iff split: option.splits)
     (metis find_none_iff_ids option.distinct(1))+

lemma pool_inv_update_credential: "pool_inv s \<Longrightarrow> pool_inv (update_slot_credential aid tok s)"
proof -
  assume "pool_inv s"
  moreover have "exhausted_ok ex \<Longrightarrow> exhausted_ok (hm_modify aid (\<lambda>c. c\<lparr>token := tok\<rparr>) ex)" for ex
    by (simp add: hm_modify_def exhausted_ok_map)
  moreover have "valid_ok vs \<Longrightarrow>
      valid_ok (map (\<lambda>c. if account_id c = Some aid then c\<lparr>token := tok\<rparr> else c) vs)" for vs
    by (rule valid_ok_map) auto
  ultimately show ?thesis
    by (simp add: pool_inv_def buckets_ok_def pooled_ids_def update_slot_credential_def)
qed

text \<open>The three buckets without account \<open>aid\<close>, and the three ways to put it back.\<close>

definition without :: "i64 \<Rightarrow> 'c AccountPoolState \<Rightarrow> 'c AccountPoolState" where
  "without aid s =
     s\<lparr>valid := filter (\<lambda>c. account_id c \<noteq> Some aid) (valid s),
       exhausted := hm_remove aid (exhausted s)\<rparr>"

lemma buckets_without:
  assumes "buckets_ok vs ex iv"
  shows "buckets_ok (filter (\<lambda>c. account_id c \<noteq> Some aid) vs) (hm_remove aid ex) iv"
  using assms unfolding buckets_ok_def
  by (auto intro: bucket_intros)

lemma buckets_push_valid:
  assumes "buckets_ok vs ex iv" and "account_id c = Some aid" and "reset_time c = None"
    and "aid \<notin> ids_of vs" and "aid \<notin> hm_keys ex" and "aid \<notin> hm_keys iv"
  shows "buckets_ok (vs @ [c]) ex iv"
  using assms unfolding buckets_ok_def by (simp add: valid_ok_append)

lemma buckets_insert_exhausted:
  assumes "buckets_ok vs ex iv" and "account_id c = Some aid" and "reset_time c \<noteq> None"
    and "aid \<notin> ids_of vs" and "aid \<notin> hm_keys iv"
  shows "buckets_ok vs (hm_insert aid c ex) iv"
  using assms unfolding buckets_ok_def by (simp add: exhausted_ok_insert)

lemma buckets_insert_invalid:
  assumes "buckets_ok vs ex iv" and "inv_account_id u = aid"
    and "aid \<notin> ids_of vs" and "aid \<notin> hm_keys ex"
  shows "buckets_ok vs ex (hm_insert aid u iv)"
  using assms unfolding buckets_ok_def by (simp add: invalid_ok_insert)

lemma rebucket_simps [simp]:
  "inflight (rebucket aid r c s) = inflight s" "reactivated (rebucket aid r c s) = reactivated s"
  "pool_db (rebucket aid r c s) = pool_db s" "probing (rebucket aid r c s) = probing s"
  "dirty (rebucket aid r c s) = dirty s" "moka (rebucket aid r c s) = moka s"
  "drain_first_ids (rebucket aid r c s) = drain_first_ids s"
  "has_handle (rebucket aid r c s) = has_handle s"
  by (simp_all add: rebucket_def split: option.splits Reason.splits)

lemma buckets_rebucket:
  assumes "buckets_ok (valid s) (exhausted s) (invalid s)" and "account_id c = Some aid"
    and "aid \<notin> pooled_ids s"
  shows "buckets_ok (valid (rebucket aid r c s)) (exhausted (rebucket aid r c s)) (invalid (rebucket aid r c s))"
    and "pooled_ids (rebucket aid r c s) = insert aid (pooled_ids s)"
proof -
  have n: "aid \<notin> valid_ids s" "aid \<notin> exhausted_ids s" "aid \<notin> invalid_ids s"
    using assms(3) by (simp_all add: pooled_ids_def)
  note rules = buckets_push_valid [OF assms(1)] buckets_insert_exhausted [OF assms(1)]
    buckets_insert_invalid [OF assms(1)]
  show "buckets_ok (valid (rebucket aid r c s)) (exhausted (rebucket aid r c s)) (invalid (rebucket aid r c s))"
    using assms(2) n by (auto simp: rebucket_def rules split: option.splits Reason.splits)
  show "pooled_ids (rebucket aid r c s) = insert aid (pooled_ids s)"
    using assms(2) by (auto simp: rebucket_def pooled_ids_def split: option.splits Reason.splits)
qed

lemma pooled_without: "pooled_ids (without aid s) = pooled_ids s - {aid} \<union> (invalid_ids s \<inter> {aid})"
  by (auto simp: pooled_ids_def without_def)

lemma merge_runtime_keeps [simp]:
  "account_id (merge_runtime mode u c) = account_id c"
  "auth_method (merge_runtime mode u c) = auth_method c"
  "credential (merge_runtime mode u c) = credential c"
  "reset_time (merge_runtime mode u c) = rp_reset_time u"
  by (cases mode; simp add: merge_runtime_def)+

lemma pool_slot_without: "pool_slot (without aid s) i = (if i = aid then None else pool_slot s i)"
proof -
  have f: "find (\<lambda>c. account_id c = Some i) (filter (\<lambda>c. account_id c \<noteq> Some aid) vs) =
      (if i = aid then None else find (\<lambda>c. account_id c = Some i) vs)" for vs
    by (induction vs) auto
  show ?thesis
    by (simp add: pool_slot_def without_def hm_get_remove f cong: option.case_cong)
qed

text \<open>What a collection does, under the invariant: nothing but ending the probe when a guard fires or the
  account is not pooled, and otherwise one merge and one move.\<close>

lemma collect_eq:
  assumes inv: "pool_inv s"
  shows "collect_by_id aid update reason fp mode s =
    (aid \<in> probing s,
     case (if sticky_guard s aid \<or> fingerprint_guard s aid fp then None else pool_slot s aid) of
       None \<Rightarrow> s\<lparr>probing := probing s - {aid}\<rparr>
     | Some c \<Rightarrow> mark_dirty (Some aid)
         (rebucket aid reason (merge_runtime mode update c)
           (without aid (s\<lparr>probing := probing s - {aid}\<rparr>))))"
proof -
  let ?s1 = "s\<lparr>probing := probing s - {aid}\<rparr>"
  have ok: "valid_ok (valid s)" "exhausted_ok (exhausted s)"
    using inv by (simp_all add: pool_inv_def buckets_ok_def)
  have g: "sticky_guard ?s1 aid = sticky_guard s aid"
    "fingerprint_guard ?s1 aid fp = fingerprint_guard s aid fp"
    by (simp_all add: sticky_guard_def fingerprint_guard_def pool_credential_fingerprint_def
        cong: option.case_cong)
  have dis: "distinct (map account_id (valid s))"
    using ok(1) by (simp add: valid_ok_def)
  let ?vpos = "position (\<lambda>c. account_id c = Some aid) (valid s)"
  show ?thesis
  proof (cases ?vpos)
    case pos: (Some i)
    have c: "pool_slot s aid = Some (valid s ! i)"
      using position_SomeD(2,3) [OF pos] find_valid [OF ok(1), of aid "valid s ! i"]
      by (simp add: pool_slot_def)
    then have "aid \<notin> invalid_ids s"
      using pool_slot_ids [OF _ inv] by blast
    then have "hm_remove aid (invalid s) = invalid s" "hm_get (invalid s) aid = None"
      by (auto simp: map_of_eq_None_iff intro: delete_idem)
    with c pos remove_position_filter [OF dis pos] show ?thesis
      by (simp add: collect_by_id_def g Let_def without_def)
  next
    case pos: None
    then have fl: "filter (\<lambda>c. account_id c \<noteq> Some aid) (valid s) = valid s"
      and ps: "pool_slot s aid = hm_get (exhausted s) aid"
      by (simp_all add: position_None_iff pool_slot_def find_None_iff [THEN iffD2])
    show ?thesis
    proof (cases "hm_get (exhausted s) aid")
      case None
      then have "hm_remove aid (exhausted s) = exhausted s"
        by (auto simp: map_of_eq_None_iff intro: delete_idem)
      with None pos ps show ?thesis
        by (simp add: collect_by_id_def g Let_def)
    next
      case (Some c)
      then have "aid \<notin> invalid_ids s"
        using pool_slot_ids(3) [OF _ inv, of aid c] ps by simp
      then have "hm_remove aid (invalid s) = invalid s" "hm_get (invalid s) aid = None"
        by (auto simp: map_of_eq_None_iff intro: delete_idem)
      with Some pos ps fl show ?thesis
        by (simp add: collect_by_id_def g Let_def without_def)
    qed
  qed
qed

lemma pool_inv_without_rebucket:
  assumes inv: "pool_inv s" and c: "pool_slot s aid = Some c" and ai: "account_id c' = Some aid"
  shows "pool_inv (mark_dirty (Some aid) (rebucket aid reason c' (without aid (s\<lparr>probing := P\<rparr>))))"
proof -
  let ?w = "without aid (s\<lparr>probing := P\<rparr>)"
  have "aid \<notin> invalid_ids s" "aid \<in> pooled_ids s"
    using pool_slot_ids [OF c inv] by (auto simp: pooled_ids_def)
  moreover have "buckets_ok (valid ?w) (exhausted ?w) (invalid ?w)"
    using inv by (simp add: without_def pool_inv_def buckets_without)
  moreover have "pooled_ids ?w = pooled_ids (without aid s)"
    by (simp add: pooled_ids_def without_def)
  ultimately have "buckets_ok (valid (rebucket aid reason c' ?w)) (exhausted (rebucket aid reason c' ?w))
      (invalid (rebucket aid reason c' ?w))" "pooled_ids (rebucket aid reason c' ?w) = pooled_ids s"
    using buckets_rebucket [of ?w c' aid reason] ai by (auto simp: pooled_without)
  moreover have "pooled_ids (mark_dirty (Some aid) t) = pooled_ids t" for t :: "'a AccountPoolState"
    by (simp add: pooled_ids_def)
  ultimately show ?thesis
    using inv by (simp add: pool_inv_def) (simp add: without_def)
qed

lemma pool_inv_probing [simp]: "pool_inv (s\<lparr>probing := P\<rparr>) = pool_inv s"
  by (simp add: pool_inv_def pooled_ids_def)

lemma pool_inv_collect:
  assumes "pool_inv s"
  shows "pool_inv (snd (collect_by_id aid update reason fp mode s))"
  using assms pool_slot_ids(1) [OF _ assms]
  by (auto simp: collect_eq intro!: pool_inv_without_rebucket split: option.splits if_splits)

lemma pool_inv_converge:
  assumes inv: "pool_inv s"
  shows "pool_inv (converge_invalidate env aid reason s)"
proof -
  let ?vs = "filter (\<lambda>c. account_id c \<noteq> Some aid) (valid s)" and ?ex = "hm_remove aid (exhausted s)"
  have b: "buckets_ok ?vs ?ex (invalid s)"
    using inv by (simp add: pool_inv_def buckets_without)
  have "buckets_ok ?vs ?ex (hm_insert aid u (invalid s))" if "inv_account_id u = aid" for u
    using buckets_insert_invalid [OF b that] by simp
  moreover have "aid \<in> hm_keys (inflight s)" if "removed_kind aid s = Some am" for am
  proof -
    have "aid \<in> pooled_ids s"
      using that find_none_iff_ids [of aid "valid s"]
      by (auto simp: removed_kind_def pooled_ids_def hm_contains_iff [symmetric] split: option.splits)
    then show ?thesis
      using inv by (auto simp: pool_inv_def)
  qed
  ultimately show ?thesis
    using inv b by (auto simp: pool_inv_def converge_invalidate_def Let_def pooled_ids_def
        split: option.splits)
qed

section \<open>Properties\<close>

lemma pool_slot_rebucket_other:
  "account_id c = Some aid \<Longrightarrow> i \<noteq> aid \<Longrightarrow> pool_slot (rebucket aid r c s) i = pool_slot s i"
  "i \<noteq> aid \<Longrightarrow> hm_get (invalid (rebucket aid r c s)) i = hm_get (invalid s) i"
proof -
  have "find (\<lambda>c. account_id c = Some i) (vs @ [c]) = find (\<lambda>c. account_id c = Some i) vs"
    if "account_id c = Some aid" "i \<noteq> aid" for vs
    using that by (induction vs) auto
  then show "account_id c = Some aid \<Longrightarrow> i \<noteq> aid \<Longrightarrow> pool_slot (rebucket aid r c s) i = pool_slot s i"
    by (simp add: pool_slot_def rebucket_def hm_get_insert split: option.splits Reason.splits)
  show "i \<noteq> aid \<Longrightarrow> hm_get (invalid (rebucket aid r c s)) i = hm_get (invalid s) i"
    by (simp add: rebucket_def hm_get_insert split: option.splits Reason.splits)
qed

lemma pool_slot_mark_dirty [simp]: "pool_slot (mark_dirty a s) = pool_slot s"
  by (simp add: fun_eq_iff pool_slot_def cong: option.case_cong)

lemma pool_slot_probing [simp]: "pool_slot (s\<lparr>probing := P\<rparr>) = pool_slot s"
  by (simp add: fun_eq_iff pool_slot_def cong: option.case_cong)

text \<open>Where the returned account is afterwards.\<close>

lemma pool_slot_rebucket_self:
  assumes "account_id c = Some aid" and "pool_slot s aid = None"
  shows "pool_slot (rebucket aid r c s) aid =
    (case r of
       None \<Rightarrow> Some c
     | Some (TooManyRequest t) \<Rightarrow> Some (reset_window_usage (c\<lparr>reset_time := Some t\<rparr>))
     | Some (Restricted t) \<Rightarrow> Some (reset_window_usage (c\<lparr>reset_time := Some t\<rparr>))
     | Some _ \<Rightarrow> None)"
proof -
  have n: "find (\<lambda>c. account_id c = Some aid) (valid s) = None" "hm_get (exhausted s) aid = None"
    using assms(2) by (auto simp: pool_slot_def split: option.splits)
  then have "find (\<lambda>c. account_id c = Some aid) (valid s @ [c]) = Some c"
    using assms(1) by (induction "valid s") (auto simp: find_None_iff find_Some_iff nth_append intro!: exI [of _ "length (valid s)"])
  with n assms(1) show ?thesis
    by (simp add: pool_slot_def rebucket_def hm_get_insert split: option.splits Reason.splits)
qed

lemma collect_frame:
  assumes "pool_inv s" and "collect_by_id aid update reason fp mode s = (p, t)"
  shows "j \<noteq> aid \<Longrightarrow> pool_slot t j = pool_slot s j"
    and "j \<noteq> aid \<Longrightarrow> hm_get (invalid t) j = hm_get (invalid s) j"
    and "inflight t = inflight s"
    and "pool_slot t aid = Some c' \<Longrightarrow> \<exists>c. pool_slot s aid = Some c \<and> credential c' = credential c"
proof -
  have "(\<forall>j. j \<noteq> aid \<longrightarrow> pool_slot t j = pool_slot s j \<and> hm_get (invalid t) j = hm_get (invalid s) j)
      \<and> inflight t = inflight s
      \<and> (\<forall>c'. pool_slot t aid = Some c' \<longrightarrow> (\<exists>c. pool_slot s aid = Some c \<and> credential c' = credential c))"
  proof (cases "if sticky_guard s aid \<or> fingerprint_guard s aid fp then None else pool_slot s aid")
    case None
    then have "t = s\<lparr>probing := probing s - {aid}\<rparr>"
      using assms by (simp add: collect_eq)
    then show ?thesis by simp
  next
    case (Some c)
    let ?m = "merge_runtime mode update c" and ?w = "without aid (s\<lparr>probing := probing s - {aid}\<rparr>)"
    have t: "t = mark_dirty (Some aid) (rebucket aid reason ?m ?w)"
      using assms Some by (simp add: collect_eq)
    have c: "pool_slot s aid = Some c"
      using Some by (simp split: if_splits)
    have ai: "account_id ?m = Some aid"
      using pool_slot_ids(1) [OF c assms(1)] by simp
    have "pool_slot ?w j = (if j = aid then None else pool_slot s j)" for j
      by (simp add: pool_slot_without)
    with ai show ?thesis
      unfolding t by (auto simp: pool_slot_rebucket_other pool_slot_rebucket_self c without_def
          split: option.splits Reason.splits)
  qed
  then show "j \<noteq> aid \<Longrightarrow> pool_slot t j = pool_slot s j"
    "j \<noteq> aid \<Longrightarrow> hm_get (invalid t) j = hm_get (invalid s) j" "inflight t = inflight s"
    "pool_slot t aid = Some c' \<Longrightarrow> \<exists>c. pool_slot s aid = Some c \<and> credential c' = credential c"
    by blast+
qed

text \<open>
  A finished request touches only its own account and never its credential: the slots and the
  invalid records of all other accounts and every counter of requests in flight are unchanged, and the
  account's slot afterwards, if it is still in service, carries the same cookie, token, key, proxy and
  identity as before.
\<close>

theorem collect_frames_credentials:
  assumes "pool_inv s" and "collect_by_id aid update reason fp mode s = (p, t)"
  shows "(\<forall>j. j \<noteq> aid \<longrightarrow> pool_slot t j = pool_slot s j \<and> hm_get (invalid t) j = hm_get (invalid s) j)
    \<and> inflight t = inflight s
    \<and> (\<forall>c'. pool_slot t aid = Some c' \<longrightarrow>
          (\<exists>c. pool_slot s aid = Some c \<and> credential c' = credential c))"
  using collect_frame [OF assms] by blast

lemma exhausted_not_dispatched:
  assumes "pool_inv s" and "hm_get (exhausted s) aid = Some c" and "reset_time c = Some u" and "now < u"
    and "dispatch env now hash bound s = (Inr d, t)"
  shows "account_id d \<noteq> Some aid"
  using assms(1,5)
proof (cases rule: dispatch_cases)
  case (served m key rw pos i)
  have "(aid, c) \<in> set (exhausted s)"
    using assms(2) by (rule map_of_SomeD)
  then have "aid \<in> exhausted_ids (pool_reset now s)"
    using assms(3,4) by (force simp: pool_reset_eq lapsed_iff)
  moreover have "valid_ids (pool_reset now s) \<inter> exhausted_ids (pool_reset now s) = {}"
    using pool_inv_reset [OF assms(1)] by (simp add: pool_inv_def buckets_ok_def)
  ultimately show ?thesis
    using served(3,4,8) by auto
qed simp

lemma exhausted_wakes:
  assumes "pool_inv s" and "hm_get (exhausted s) aid = Some c" and "reset_time c = Some u" and "u \<le> now"
  shows "pool_slot (pool_reset now s) aid = Some (slot_reset now c)"
    and "slot_reset now c \<in> set (valid (pool_reset now s))"
proof -
  have "(aid, c) \<in> set (exhausted s)"
    using assms(2) by (rule map_of_SomeD)
  then show mem: "slot_reset now c \<in> set (valid (pool_reset now s))"
    using assms(3,4) by (force simp: pool_reset_eq woken_def lapsed_iff)
  have "account_id c = Some aid"
    using assms(1,2) by (meson buckets_ok_def exhausted_ok_get pool_inv_def)
  with mem show "pool_slot (pool_reset now s) aid = Some (slot_reset now c)"
    using find_valid [OF valid_ok_of_inv [OF pool_inv_reset [OF assms(1), of now]], of aid "slot_reset now c"]
    by (simp add: pool_slot_def)
qed

lemma fingerprint_of_slot: "pool_credential_fingerprint s aid = Option.bind (pool_slot s aid) from_slot"
  by (simp add: pool_credential_fingerprint_def pool_slot_def split: option.splits)

lemma pool_slot_update_credential:
  "pool_slot (update_slot_credential aid tok s) i =
     (if i = aid then map_option (\<lambda>c. c\<lparr>token := tok\<rparr>) (pool_slot s i) else pool_slot s i)"
proof -
  have f: "find (\<lambda>c. account_id c = Some i)
       (map (\<lambda>c. if account_id c = Some aid then c\<lparr>token := tok\<rparr> else c) vs) =
     (if i = aid then map_option (\<lambda>c. c\<lparr>token := tok\<rparr>) (find (\<lambda>c. account_id c = Some i) vs)
      else find (\<lambda>c. account_id c = Some i) vs)" for vs
    by (induction vs) auto
  show ?thesis
    unfolding pool_slot_def update_slot_credential_def
    by (simp add: f hm_get_modify split: option.splits)
qed

text \<open>
  C30: The fingerprint guard separates a refresh from a replacement: a request that returns with the
  fingerprint of another credential than the one now pooled changes nothing but ending its probe, so a
  replaced account inherits neither usage nor verdict; and an OAuth refresh that keeps the refresh token
  keeps the fingerprint, so the requests in flight across it are still accepted.
\<close>

theorem fingerprint_guard_exact:
  assumes "pool_inv s" and "pool_slot s aid = Some c" and "from_slot c = Some e"
  shows "(e' \<noteq> e \<longrightarrow> snd (collect_by_id aid update reason (Some e') mode s) = s\<lparr>probing := probing s - {aid}\<rparr>)
    \<and> (auth_method c = OAuth \<longrightarrow> map_option refresh_token (token c) = Some (refresh_token tok')
        \<longrightarrow> \<not> fingerprint_guard (update_slot_credential aid (Some tok') s) aid (Some e))"
proof (intro conjI impI)
  assume "e' \<noteq> e"
  then have "fingerprint_guard s aid (Some e')"
    using assms(2,3) by (simp add: fingerprint_guard_def fingerprint_of_slot)
  then show "snd (collect_by_id aid update reason (Some e') mode s) = s\<lparr>probing := probing s - {aid}\<rparr>"
    by (simp add: collect_eq [OF assms(1)])
next
  assume "auth_method c = OAuth" "map_option refresh_token (token c) = Some (refresh_token tok')"
  then show "\<not> fingerprint_guard (update_slot_credential aid (Some tok') s) aid (Some e)"
    using assms(2,3)
    by (auto simp: fingerprint_guard_def fingerprint_of_slot pool_slot_update_credential from_slot_def)
qed

subsection \<open>Witnesses\<close>

lemma sample_slot_2: "pool_slot sample_pool 2 = Some (sample_slot 2)"
  by (simp add: pool_slot_def sample_pool_def sample_slot_def slot_oauth_def)

theorem collect_frames_credentials_witness:
  "pool_slot (snd (collect_by_id 2 sample_params (Some Banned) None Full sample_pool)) 1 = Some (sample_slot 1)
   \<and> pool_slot (snd (collect_by_id 2 sample_params (Some Banned) None Full sample_pool)) 2 = None"
proof
  show "pool_slot (snd (collect_by_id 2 sample_params (Some Banned) None Full sample_pool)) 1
      = Some (sample_slot 1)"
    using collect_frames_credentials [OF sample_pool_inv prod.collapse [symmetric],
        of 2 sample_params "Some Banned" None Full]
    by (simp add: pool_slot_def sample_pool_def sample_slot_def slot_oauth_def)
  show "pool_slot (snd (collect_by_id 2 sample_params (Some Banned) None Full sample_pool)) 2 = None"
    by code_simp
qed

theorem fingerprint_guard_exact_witness:
  "snd (collect_by_id 2 sample_params (Some Banned) (Some (FP_OAuth ''old'')) Full sample_pool)
     = sample_pool\<lparr>probing := {}\<rparr>
   \<and> \<not> fingerprint_guard (update_slot_credential 2 (Some (sample_token ''rt'')) sample_pool) 2
        (Some (FP_OAuth ''rt''))"
proof -
  have fp: "from_slot (sample_slot 2) = Some (FP_OAuth ''rt'')"
    by (simp add: from_slot_def sample_slot_def slot_oauth_def sample_token_def token_from_parts_def
        fp_prefix_def credential_fingerprint_len_def)
  from fingerprint_guard_exact [OF sample_pool_inv sample_slot_2 fp, of "FP_OAuth ''old''" sample_params
      "Some Banned" Full "sample_token ''rt''"]
  show ?thesis
    by (simp add: sample_slot_def slot_oauth_def) (simp add: sample_pool_def)
qed

end
