(* ===== verification/Pool_Persistence.thy ===== *)
theory Pool_Persistence
  imports Pool_Collect Cookie_Parse
begin

text \<open>
  Probes, flush and reload of the pool, from \<open>src/src/services/account_pool/probes.rs\<close> and
  \<open>persistence.rs\<close>. A database statement may fail: which ones do in a turn is given by \<open>db_faults\<close>, and a
  failed statement leaves the tables unchanged (the batch runs in a transaction).
\<close>

section \<open>Probes\<close>

definition spawn_probe_guarded :: "i64 \<Rightarrow> 'c AccountPoolState \<Rightarrow> 'c AccountPoolState" where
  "spawn_probe_guarded aid s =
     (if aid \<in> probing s then s
      else if \<not> has_handle s then s
      else
        let mem_runtime = map_option to_runtime_params (pool_slot s aid)
        in (emit_accounts_refresh
             (s\<lparr>probing := insert aid (probing s), probe_errors := hm_remove aid (probe_errors s)\<rparr>))
             \<lparr>spawned_probes := spawned_probes s @ [(aid, mem_runtime)]\<rparr>)"

definition build_cookie_probe_slot ::
    "i64 \<Rightarrow> AccountWithRuntime \<Rightarrow> RuntimeStateParams option \<Rightarrow> string + AccountSlot" where
  "build_cookie_probe_slot now account mem_runtime =
     (case acc_cookie_blob account of
        None \<Rightarrow> Inl ''cookie account missing cookie_blob''
      | Some blob \<Rightarrow>
          (case slot_new blob None of
             Inl e \<Rightarrow> Inl ''invalid cookie blob''
           | Inr slot \<Rightarrow>
               let slot1 = slot\<lparr>account_id := Some (acc_id account), auth_method := Cookie,
                             proxy_url := acc_proxy_url account, email := acc_email account,
                             account_type := acc_account_type account\<rparr>;
                   slot2 = (case mem_runtime of
                              Some p \<Rightarrow> apply_runtime_state p slot1
                            | None \<Rightarrow>
                                (case acc_runtime account of
                                   Some r \<Rightarrow> apply_runtime_state (to_params r) slot1
                                 | None \<Rightarrow> slot1))
               in Inr (slot2\<lparr>reset_time := active_reset_time now account\<rparr>)))"

definition bootstrap_probe_account_ids :: "'c AccountPoolState \<Rightarrow> i64 list" where
  "bootstrap_probe_account_ids s =
     List.map_filter account_id
       (filter (\<lambda>c. email c = None \<or> account_type c = None)
         (filter (\<lambda>c. auth_method c = Cookie) (valid s)))"

definition spawn_probe_accounts :: "i64 list \<Rightarrow> 'c AccountPoolState \<Rightarrow> 'c AccountPoolState" where
  "spawn_probe_accounts ids s = foldl (\<lambda>s i. spawn_probe_guarded i s) s ids"

definition spawn_probes_for_unprobed :: "'c AccountPoolState \<Rightarrow> 'c AccountPoolState" where
  "spawn_probes_for_unprobed s =
     foldl (\<lambda>s i. spawn_probe_guarded i s) s (bootstrap_probe_account_ids s)"

section \<open>Flush\<close>

record db_faults =
  f_batch :: bool
  f_active :: bool
  f_disabled :: "i64 set"
  f_load :: bool

definition flush_params :: "i64 set \<Rightarrow> 'c AccountPoolState \<Rightarrow> (i64 \<times> RuntimeStateParams) list" where
  "flush_params dirty_ids s =
     List.map_filter
       (\<lambda>c. case account_id c of
              Some i \<Rightarrow> if i \<in> dirty_ids then Some (i, to_runtime_params c) else None
            | None \<Rightarrow> None)
       (valid s @ map snd (exhausted s))"

definition flush_disabled :: "i64 set \<Rightarrow> 'c AccountPoolState \<Rightarrow> (i64 \<times> string) list" where
  "flush_disabled dirty_ids s =
     [(inv_account_id u, to_db_string (inv_reason u)).
        u \<leftarrow> map snd (invalid s), inv_account_id u \<in> dirty_ids]"

definition do_flush :: "'c pool_env \<Rightarrow> db_faults \<Rightarrow> 'c AccountPoolState \<Rightarrow> 'c AccountPoolState" where
  "do_flush env fl s =
     (if dirty s = {} then s
      else
        let dirty_ids = dirty s;
            s0 = s\<lparr>dirty := {}\<rparr>;
            params = flush_params dirty_ids s0;
            disabled = flush_disabled dirty_ids s0;
            s1 = (if params = [] then s0
                  else if f_batch fl then s0\<lparr>dirty := dirty s0 \<union> set (map fst params)\<rparr>
                  else s0\<lparr>pool_db := batch_upsert_runtime_states (env_db env) params (pool_db s0)\<rparr>);
            s2 = (if reactivated s1 = {} then s1
                  else if f_active fl then s1\<lparr>reactivated := {}\<rparr>
                  else s1\<lparr>reactivated := {},
                          pool_db := set_accounts_active (reactivated s1) (pool_db s1)\<rparr>)
        in foldl (\<lambda>s (i, reason).
                    if i \<in> f_disabled fl then s\<lparr>dirty := insert i (dirty s)\<rparr>
                    else s\<lparr>pool_db := set_account_disabled i reason (pool_db s)\<rparr>)
             s2 disabled)"

text \<open>The flush of \<open>post_stop\<close>: everything is dirty and nothing is retried.\<close>

definition post_stop :: "'c pool_env \<Rightarrow> db_faults \<Rightarrow> 'c AccountPoolState \<Rightarrow> 'c AccountPoolState" where
  "post_stop env fl s =
     (let s0 = mark_all_dirty s;
          dirty_ids = dirty s0;
          s1 = s0\<lparr>dirty := {}\<rparr>;
          params = flush_params dirty_ids s1;
          s2 = (if f_batch fl then s1
                else s1\<lparr>pool_db := batch_upsert_runtime_states (env_db env) params (pool_db s1)\<rparr>)
      in foldl (\<lambda>s (i, reason).
                  if i \<in> f_disabled fl then s
                  else s\<lparr>pool_db := set_account_disabled i reason (pool_db s)\<rparr>)
           s2 (flush_disabled dirty_ids s2))"

section \<open>Reload\<close>

definition row_has_credential :: "AccountWithRuntime \<Rightarrow> bool" where
  "row_has_credential row \<longleftrightarrow>
     \<not> (acc_cookie_blob row = None \<and> acc_oauth_token row = None \<and> acc_api_key_secret row = None)"

definition row_invalid :: "AccountWithRuntime \<Rightarrow> bool" where
  "row_invalid row \<longleftrightarrow> acc_status row = ''disabled'' \<or> acc_status row = ''auth_error''"

definition invalid_of_row :: "AccountWithRuntime \<Rightarrow> InvalidAccountSlot" where
  "invalid_of_row row =
     \<lparr>inv_account_id = acc_id row, inv_auth_method = from_auth_source (acc_auth_source row),
      inv_reason = (case acc_invalid_reason row of Some r \<Rightarrow> from_db_string r | None \<Rightarrow> Null)\<rparr>"

definition load_extra_headers :: "'c pool_env \<Rightarrow> AccountWithRuntime \<Rightarrow> (string \<times> string) list option" where
  "load_extra_headers env row =
     (case acc_api_key_extra_headers row of
        None \<Rightarrow> None
      | Some raw \<Rightarrow>
          if raw = '''' then None
          else (case parse_header_map env raw of
                  Some m \<Rightarrow> if m \<noteq> [] then Some m else None
                | None \<Rightarrow> None))"

definition load_extra_body :: "'c pool_env \<Rightarrow> AccountWithRuntime \<Rightarrow> json option" where
  "load_extra_body env row =
     (case acc_api_key_extra_body row of
        None \<Rightarrow> None
      | Some raw \<Rightarrow>
          if raw = '''' then None
          else (case parse_json env raw of
                  Some v \<Rightarrow> (case as_object v of
                               Some kvs \<Rightarrow> if kvs \<noteq> [] then Some v else None
                             | None \<Rightarrow> None)
                | None \<Rightarrow> None))"

definition load_mimicry_config ::
    "'c pool_env \<Rightarrow> AccountWithRuntime \<Rightarrow> ThirdPartyMimicryConfig option" where
  "load_mimicry_config env row =
     (case (mimicry_from_db (acc_mimicry_mode row), acc_mimicry_config row) of
        (Mimicry_ThirdParty, Some raw) \<Rightarrow>
          if raw = '''' then None
          else (case parse_mimicry_config env raw of
                  Some cfg \<Rightarrow> Some cfg
                | None \<Rightarrow> Some default_mimicry_config)
      | _ \<Rightarrow> None)"

text \<open>The slot of a row's credential; \<open>None\<close> when the row is skipped.\<close>

definition slot_of_row :: "'c pool_env \<Rightarrow> AccountWithRuntime \<Rightarrow> AccountSlot option" where
  "slot_of_row env row =
     (let row_kind = from_auth_source (acc_auth_source row);
          base =
            (case row_kind of
               ApiKey \<Rightarrow>
                 (case (acc_api_key_base_url row, acc_api_key_secret row) of
                    (Some base_url, Some secret) \<Rightarrow>
                      Some (slot_api_key (acc_id row) base_url secret (load_extra_headers env row)
                              (load_extra_body env row) (mimicry_from_db (acc_mimicry_mode row))
                              (load_mimicry_config env row))
                  | _ \<Rightarrow> None)
             | _ \<Rightarrow>
                 (case (acc_cookie_blob row, acc_oauth_token row) of
                    (Some blob, _) \<Rightarrow>
                      (case slot_new blob None of Inr c \<Rightarrow> Some c | Inl _ \<Rightarrow> None)
                  | (None, Some t) \<Rightarrow> Some (slot_oauth (acc_id row) t)
                  | (None, None) \<Rightarrow> None))
      in map_option
           (\<lambda>c. let c1 = c\<lparr>account_id := Some (acc_id row), auth_method := row_kind,
                          proxy_url := acc_proxy_url row, email := acc_email row,
                          account_type := acc_account_type row\<rparr>
                in case acc_oauth_token row of Some t \<Rightarrow> c1\<lparr>token := Some t\<rparr> | None \<Rightarrow> c1)
           base)"

datatype reload_origin = Kept | Replaced | Cold bool | Fresh

text \<open>
  The merge with the slot in memory: the slot, and whether memory was kept, replaced, or the stored runtime
  was used (with a flag when its cooldown had lapsed), or nothing was known.
\<close>

definition reload_slot ::
    "i64 \<Rightarrow> AccountWithRuntime \<Rightarrow> AccountSlot option \<Rightarrow> AccountSlot \<Rightarrow> reload_origin \<times> AccountSlot" where
  "reload_slot now row mem cs =
     (let row_kind = from_auth_source (acc_auth_source row)
      in case mem of
           Some m \<Rightarrow>
             let same_kind = (auth_method m = row_kind);
                 cookie_content_swap = (same_kind \<and> row_kind = Cookie \<and> cookie m \<noteq> cookie cs)
             in if same_kind \<and> \<not> cookie_content_swap
                then (Kept, (apply_in_memory_runtime cs m (row_kind = Cookie))
                              \<lparr>proxy_url := acc_proxy_url row\<rparr>)
                else (Replaced, cs)
         | None \<Rightarrow>
             (case acc_runtime row of
                Some r \<Rightarrow>
                  if row_kind \<noteq> ApiKey then
                    let cs1 = apply_runtime_state (to_params r) cs;
                        normalized_reset = active_reset_time now row
                    in if reset_time cs1 \<noteq> normalized_reset
                       then (Cold True, cs1\<lparr>reset_time := normalized_reset\<rparr>)
                       else (Cold False, cs1)
                  else (Fresh, cs)
              | None \<Rightarrow> (Fresh, cs)))"

text \<open>One row: the state, the slots in memory not yet matched, and the replaced ids.\<close>

definition reload_row ::
    "'c pool_env \<Rightarrow> i64 \<Rightarrow> AccountWithRuntime
      \<Rightarrow> 'c AccountPoolState \<times> (i64, AccountSlot) hash_map \<times> i64 list
      \<Rightarrow> 'c AccountPoolState \<times> (i64, AccountSlot) hash_map \<times> i64 list" where
  "reload_row env now row = (\<lambda>(s, mem, replaced).
     if row_invalid row then
       (if row_has_credential row
        then (s\<lparr>invalid := hm_insert (acc_id row) (invalid_of_row row) (invalid s)\<rparr>, mem, replaced)
        else (s, mem, replaced))
     else
       (case slot_of_row env row of
          None \<Rightarrow> (s, mem, replaced)
        | Some cs \<Rightarrow>
            let (origin, c) = reload_slot now row (hm_get mem (acc_id row)) cs;
                s1 = (if origin = Cold True then mark_dirty (account_id c) s else s);
                s2 = (if reset_time c \<noteq> None
                      then s1\<lparr>exhausted := hm_insert (acc_id row) c (exhausted s1)\<rparr>
                      else s1\<lparr>valid := valid s1 @ [c]\<rparr>)
            in (s2, hm_remove (acc_id row) mem,
                if origin = Replaced then replaced @ [acc_id row] else replaced)))"

definition mem_index :: "'c AccountPoolState \<Rightarrow> (i64, AccountSlot) hash_map" where
  "mem_index s =
     foldl (\<lambda>m (i, c). hm_insert i c m)
       (foldl (\<lambda>m c. case account_id c of Some i \<Rightarrow> hm_insert i c m | None \<Rightarrow> m) [] (valid s))
       (exhausted s)"

text \<open>\<open>row.max_slots as u32\<close> keeps the low 32 bits.\<close>

definition rebuild_inflight ::
    "AccountWithRuntime list \<Rightarrow> (i64, u32 \<times> u32) hash_map \<Rightarrow> (i64, u32 \<times> u32) hash_map" where
  "rebuild_inflight rows old =
     foldl (\<lambda>m row. hm_insert (acc_id row)
                (case hm_get old (acc_id row) of Some (cur, _) \<Rightarrow> cur | None \<Rightarrow> 0,
                 word_of_int (acc_max_slots row)) m)
       [] (filter row_has_credential rows)"

definition reload_rows ::
    "'c pool_env \<Rightarrow> i64 \<Rightarrow> AccountWithRuntime list \<Rightarrow> 'c AccountPoolState \<Rightarrow> 'c AccountPoolState" where
  "reload_rows env now rows s =
     (let mem = mem_index s;
          (s1, _, replaced) =
            fold (reload_row env now) rows (s\<lparr>valid := [], exhausted := [], invalid := []\<rparr>, mem, []);
          s2 = s1\<lparr>moka := mk_invalidate_all env (moka s1),
                  inflight := rebuild_inflight rows (inflight s1),
                  drain_first_ids := set (map acc_id (filter acc_drain_first rows)),
                  probing := probing s1 \<inter> set (map acc_id rows) - set replaced\<rparr>
      in emit_accounts_refresh (spawn_probes_for_unprobed s2))"

definition do_reload ::
    "'c pool_env \<Rightarrow> db_faults \<Rightarrow> i64 \<Rightarrow> instant \<Rightarrow> 'c AccountPoolState \<Rightarrow> 'c AccountPoolState" where
  "do_reload env fl now nowi s =
     (let s1 = do_flush env fl s
      in if f_load fl then s1
         else reload_rows env now (load_all_accounts (env_db env) nowi (pool_db s1)) s1)"

section \<open>Flush: what is written and what is retried\<close>

lemma spawn_simps [simp]:
  "valid (spawn_probe_guarded i s) = valid s" "exhausted (spawn_probe_guarded i s) = exhausted s"
  "invalid (spawn_probe_guarded i s) = invalid s" "inflight (spawn_probe_guarded i s) = inflight s"
  "reactivated (spawn_probe_guarded i s) = reactivated s" "dirty (spawn_probe_guarded i s) = dirty s"
  "pool_db (spawn_probe_guarded i s) = pool_db s" "moka (spawn_probe_guarded i s) = moka s"
  "drain_first_ids (spawn_probe_guarded i s) = drain_first_ids s"
  "has_handle (spawn_probe_guarded i s) = has_handle s"
  by (simp_all add: spawn_probe_guarded_def Let_def)

lemma spawn_all_simps [simp]:
  "valid (foldl (\<lambda>s i. spawn_probe_guarded i s) s ids) = valid s"
  "exhausted (foldl (\<lambda>s i. spawn_probe_guarded i s) s ids) = exhausted s"
  "invalid (foldl (\<lambda>s i. spawn_probe_guarded i s) s ids) = invalid s"
  "inflight (foldl (\<lambda>s i. spawn_probe_guarded i s) s ids) = inflight s"
  "reactivated (foldl (\<lambda>s i. spawn_probe_guarded i s) s ids) = reactivated s"
  "dirty (foldl (\<lambda>s i. spawn_probe_guarded i s) s ids) = dirty s"
  "pool_db (foldl (\<lambda>s i. spawn_probe_guarded i s) s ids) = pool_db s"
  "moka (foldl (\<lambda>s i. spawn_probe_guarded i s) s ids) = moka s"
  "drain_first_ids (foldl (\<lambda>s i. spawn_probe_guarded i s) s ids) = drain_first_ids s"
  "has_handle (foldl (\<lambda>s i. spawn_probe_guarded i s) s ids) = has_handle s"
  by (induction ids arbitrary: s) simp_all

lemma pool_inv_spawn: "pool_inv (foldl (\<lambda>s i. spawn_probe_guarded i s) s ids) = pool_inv s"
  by (simp add: pool_inv_def pooled_ids_def)

text \<open>The status writes of a flush, as one equation.\<close>

definition write_disabled :: "i64 set \<Rightarrow> (i64 \<times> string) list \<Rightarrow> database \<Rightarrow> database" where
  "write_disabled failing ds db =
     foldl (\<lambda>db (i, reason). if i \<in> failing then db else set_account_disabled i reason db) db ds"

lemma flush_disabled_fold:
  "foldl (\<lambda>s (i, reason).
      if i \<in> failing then s\<lparr>dirty := insert i (dirty s)\<rparr>
      else s\<lparr>pool_db := set_account_disabled i reason (pool_db s)\<rparr>) s ds =
   s\<lparr>dirty := dirty s \<union> (set (map fst ds) \<inter> failing), pool_db := write_disabled failing ds (pool_db s)\<rparr>"
proof (induction ds arbitrary: s)
  case (Cons d ds)
  obtain i r where d: "d = (i, r)" by (cases d)
  show ?case
    by (cases "i \<in> failing") (simp_all add: d Cons.IH write_disabled_def Un_assoc insert_absorb)
qed (simp add: write_disabled_def)

lemma credentials_write_disabled [simp]: "credentials (write_disabled failing ds db) = credentials db"
proof -
  have "credentials (foldl (\<lambda>db (i, reason). if i \<in> failing then db else set_account_disabled i reason db) db ds)
      = credentials db"
    by (induction ds arbitrary: db) auto
  then show ?thesis by (simp add: write_disabled_def)
qed

lemma db_wf_write_disabled [simp]: "db_wf db \<Longrightarrow> db_wf (write_disabled failing ds db)"
proof -
  assume "db_wf db"
  then have "db_wf (foldl (\<lambda>db (i, reason). if i \<in> failing then db else set_account_disabled i reason db) db ds)"
    by (induction ds arbitrary: db) auto
  then show ?thesis by (simp add: write_disabled_def)
qed

definition flush_db :: "'c pool_env \<Rightarrow> db_faults \<Rightarrow> 'c AccountPoolState \<Rightarrow> database" where
  "flush_db env fl s =
     write_disabled (f_disabled fl) (flush_disabled (dirty s) s)
       (if f_batch fl then pool_db s
        else batch_upsert_runtime_states (env_db env) (flush_params (dirty s) s) (pool_db s))"

definition flush_retry :: "db_faults \<Rightarrow> 'c AccountPoolState \<Rightarrow> i64 set" where
  "flush_retry fl s =
     (if f_batch fl then set (map fst (flush_params (dirty s) s)) else {})
     \<union> (set (map fst (flush_disabled (dirty s) s)) \<inter> f_disabled fl)"

lemma flush_lists_dirty [simp]:
  "flush_params d (s\<lparr>dirty := e\<rparr>) = flush_params d s"
  "flush_disabled d (s\<lparr>dirty := e\<rparr>) = flush_disabled d s"
  by (simp_all add: flush_params_def flush_disabled_def)

lemma flush_lists_empty [simp]: "flush_params {} s = []" "flush_disabled {} s = []"
  by (auto simp: flush_params_def flush_disabled_def List.map_filter_def filter_empty_conv
      split: option.splits)

lemma do_flush_eq:
  assumes "reactivated s = {}"
  shows "do_flush env fl s = s\<lparr>dirty := flush_retry fl s, pool_db := flush_db env fl s\<rparr>"
proof (cases "dirty s = {}")
  case True
  then show ?thesis
    by (simp add: do_flush_def flush_retry_def flush_db_def batch_upsert_runtime_states_def write_disabled_def)
next
  case False
  have "batch_upsert_runtime_states x [] db = db" for x db
    by (simp add: batch_upsert_runtime_states_def)
  with False assms show ?thesis
    by (simp add: do_flush_def Let_def flush_disabled_fold flush_retry_def flush_db_def)
qed

lemma do_flush_keeps [simp]:
  assumes "reactivated s = {}"
  shows "valid (do_flush env fl s) = valid s" "exhausted (do_flush env fl s) = exhausted s"
    "invalid (do_flush env fl s) = invalid s" "inflight (do_flush env fl s) = inflight s"
    "moka (do_flush env fl s) = moka s" "reactivated (do_flush env fl s) = {}"
    "probing (do_flush env fl s) = probing s" "has_handle (do_flush env fl s) = has_handle s"
    "drain_first_ids (do_flush env fl s) = drain_first_ids s"
  using assms by (simp_all add: do_flush_eq)

lemma pool_inv_flush:
  assumes "pool_inv s"
  shows "pool_inv (do_flush env fl s)"
proof -
  have r: "reactivated s = {}" and wf: "db_wf (pool_db s)"
    using assms by (simp_all add: pool_inv_def)
  have "db_wf (pool_db (do_flush env fl s))"
    using wf by (simp add: do_flush_eq [OF r] flush_db_def)
  with assms r show ?thesis
    by (simp add: pool_inv_def pooled_ids_def)
qed

lemma map_fst_flush_params:
  "map fst (flush_params d s) =
     filter (\<lambda>i. i \<in> d) (List.map_filter account_id (valid s @ map snd (exhausted s)))"
proof -
  have "map fst (List.map_filter (\<lambda>c. case account_id c of
              Some i \<Rightarrow> if i \<in> d then Some (i, to_runtime_params c) else None | None \<Rightarrow> None) cs) =
      filter (\<lambda>i. i \<in> d) (List.map_filter account_id cs)" for cs
    by (induction cs) (auto simp: List.map_filter_simps split: option.splits)
  then show ?thesis by (simp add: flush_params_def)
qed

lemma map_filter_some_ids:
  "\<forall>c \<in> set cs. account_id c \<noteq> None \<Longrightarrow> map Some (List.map_filter account_id cs) = map account_id cs"
  by (induction cs) (auto simp: List.map_filter_simps)

lemma set_map_filter_ids: "set (List.map_filter account_id cs) = ids_of cs"
  by (induction cs) (auto simp: List.map_filter_simps ids_of_def split: option.splits)

lemma map_filter_mem: "x \<in> set xs \<Longrightarrow> f x = Some y \<Longrightarrow> y \<in> set (List.map_filter f xs)"
  by (induction xs) (auto simp: List.map_filter_simps split: option.splits)

lemma ids_of_exhausted: "exhausted_ok ex \<Longrightarrow> ids_of (map snd ex) = hm_keys ex"
  by (force simp: exhausted_ok_def ids_of_def image_iff)

lemma distinct_slot_ids:
  assumes "buckets_ok vs ex iv"
  shows "distinct (List.map_filter account_id (vs @ map snd ex))"
proof -
  have v: "distinct (map account_id vs)" "\<forall>c \<in> set vs. account_id c \<noteq> None"
    and e: "exhausted_ok ex" and d: "ids_of vs \<inter> hm_keys ex = {}"
    using assms by (auto simp: buckets_ok_def valid_ok_def)
  have "map account_id (map snd ex) = map Some (map fst ex)"
    using e by (auto simp: exhausted_ok_def)
  moreover have "distinct (map Some (map fst ex))"
    using e by (subst distinct_map) (simp add: exhausted_ok_def)
  ultimately have "distinct (map account_id (map snd ex))" by (simp only:)
  moreover have "\<forall>c \<in> set (map snd ex). account_id c \<noteq> None"
    using e by (auto simp: exhausted_ok_def)
  ultimately have "distinct (List.map_filter account_id vs)" "distinct (List.map_filter account_id (map snd ex))"
    using v by (metis distinct_map map_filter_some_ids)+
  moreover have "set (List.map_filter account_id vs) \<inter> set (List.map_filter account_id (map snd ex)) = {}"
    using d ids_of_exhausted [OF e] by (simp add: set_map_filter_ids)
  moreover have "List.map_filter account_id (vs @ map snd ex)
      = List.map_filter account_id vs @ List.map_filter account_id (map snd ex)"
    by (simp add: List.map_filter_def)
  ultimately show ?thesis by simp
qed

lemma flush_params_mem:
  assumes "pool_inv s" and "pool_slot s i = Some c" and "i \<in> d"
  shows "(i, to_runtime_params c) \<in> set (flush_params d s)"
proof -
  have "c \<in> set (valid s @ map snd (exhausted s))"
  proof (cases "find (\<lambda>c. account_id c = Some i) (valid s)")
    case None
    with assms(2) have "(i, c) \<in> set (exhausted s)"
      by (auto simp: pool_slot_def dest: map_of_SomeD)
    then show ?thesis by force
  next
    case (Some d)
    with assms(2) show ?thesis
      by (auto simp: pool_slot_def find_Some_iff)
  qed
  moreover have "account_id c = Some i"
    using pool_slot_ids(1) [OF assms(2,1)] .
  then have "(case account_id c of
      Some i \<Rightarrow> if i \<in> d then Some (i, to_runtime_params c) else None | None \<Rightarrow> None)
    = Some (i, to_runtime_params c)"
    using assms(3) by (simp only: option.case if_True)
  ultimately show ?thesis
    unfolding flush_params_def by (rule map_filter_mem)
qed

lemma flush_disabled_mem:
  assumes "pool_inv s" and "hm_get (invalid s) i = Some u" and "i \<in> d"
  shows "(i, to_db_string (inv_reason u)) \<in> set (flush_disabled d s)"
proof -
  have "(i, u) \<in> set (invalid s)" "inv_account_id u = i"
    using assms(1,2) by (auto simp: pool_inv_def buckets_ok_def invalid_ok_def dest: map_of_SomeD)
  with assms(3) show ?thesis
    by (force simp: flush_disabled_def)
qed

lemma distinct_flush_disabled:
  assumes "pool_inv s"
  shows "distinct (map fst (flush_disabled d s))"
proof -
  have iv: "invalid_ok (invalid s)"
    using assms by (simp add: pool_inv_def buckets_ok_def)
  have "map fst [(inv_account_id u, to_db_string (inv_reason u)). u \<leftarrow> map snd m, inv_account_id u \<in> d]
      = filter (\<lambda>i. i \<in> d) (map fst m)"
    if "\<forall>k u. (k, u) \<in> set m \<longrightarrow> inv_account_id u = k" for m :: "(i64, InvalidAccountSlot) hash_map"
    using that
  proof (induction m)
    case (Cons p m)
    obtain k u where p: "p = (k, u)" by (cases p)
    with Cons.prems have "inv_account_id u = k" by simp
    moreover have "map fst [(inv_account_id u, to_db_string (inv_reason u)). u \<leftarrow> map snd m, inv_account_id u \<in> d]
        = filter (\<lambda>i. i \<in> d) (map fst m)"
      using Cons.prems by (intro Cons.IH) simp
    ultimately show ?case by (simp add: p)
  qed simp
  then show ?thesis
    using iv by (simp add: flush_disabled_def invalid_ok_def)
qed

lemma runtime_state_write_disabled [simp]: "runtime_state (write_disabled F ds db) = runtime_state db"
proof -
  have "runtime_state (foldl (\<lambda>db (i, reason). if i \<in> F then db else set_account_disabled i reason db) db ds)
      = runtime_state db"
    by (induction ds arbitrary: db) (auto simp: set_account_disabled_def)
  then show ?thesis by (simp add: write_disabled_def)
qed

lemma accounts_set_account_disabled:
  "a \<in> set (accounts (set_account_disabled j r db)) \<Longrightarrow>
     (a_id a = j \<and> a_status a = ''disabled'' \<and> a_invalid_reason a = Some r)
     \<or> (a_id a \<noteq> j \<and> a \<in> set (accounts db))"
  by (auto simp: set_account_disabled_def update_where_def)

lemma write_disabled_other:
  "a \<in> set (accounts (write_disabled F ds db)) \<Longrightarrow> a_id a \<notin> set (map fst ds) \<Longrightarrow> a \<in> set (accounts db)"
  unfolding write_disabled_def
proof (induction ds arbitrary: db)
  case (Cons d ds)
  obtain j q where d: "d = (j, q)" by (cases d)
  have "a \<in> set (accounts (if j \<in> F then db else set_account_disabled j q db))"
    using Cons.prems by - (rule Cons.IH, simp_all add: d)
  then show ?case
    using Cons.prems(2) accounts_set_account_disabled [of a j q db] by (simp add: d split: if_splits)
qed simp

lemma write_disabled_row:
  assumes "distinct (map fst ds)" and "(i, r) \<in> set ds" and "i \<notin> F"
    and "a \<in> set (accounts (write_disabled F ds db))" and "a_id a = i"
  shows "a_status a = ''disabled'' \<and> a_invalid_reason a = Some r"
  using assms
proof (induction ds arbitrary: db)
  case (Cons d ds)
  obtain j q where d: "d = (j, q)" by (cases d)
  have step: "write_disabled F (d # ds) db =
      write_disabled F ds (if j \<in> F then db else set_account_disabled j q db)"
    by (simp add: write_disabled_def d)
  show ?case
  proof (cases "j = i")
    case True
    with Cons.prems d have "r = q" "i \<notin> set (map fst ds)" by (force)+
    with Cons.prems True d show ?thesis
      using write_disabled_other [of a F ds "set_account_disabled i q db"]
        accounts_set_account_disabled [of a i q db] unfolding step by simp
  next
    case False
    with Cons d show ?thesis unfolding step by auto
  qed
qed simp

text \<open>
  C12: A flush loses no change and writes no credential: every dirty account in service ends up either
  with exactly its current runtime parameters in the runtime table or still dirty; every dirty invalid
  account either with status \<open>disabled\<close> and its reason in its row or still dirty; and the credential
  columns of all accounts are untouched, whichever of the statements fail.
\<close>

theorem flush_no_lost_update:
  assumes "pool_inv s" and "i \<in> dirty s"
  shows "credentials (pool_db (do_flush env fl s)) = credentials (pool_db s)
    \<and> (\<forall>c. pool_slot s i = Some c \<longrightarrow>
          i \<in> dirty (do_flush env fl s)
          \<or> hm_get (runtime_state (pool_db (do_flush env fl s))) i
              = Some (cols_of_params (env_db env) (to_runtime_params c)))
    \<and> (\<forall>u. hm_get (invalid s) i = Some u \<longrightarrow>
          i \<in> dirty (do_flush env fl s)
          \<or> (\<forall>a \<in> set (accounts (pool_db (do_flush env fl s))). a_id a = i \<longrightarrow>
               a_status a = ''disabled'' \<and> a_invalid_reason a = Some (to_db_string (inv_reason u))))"
proof -
  have r: "reactivated s = {}" and b: "buckets_ok (valid s) (exhausted s) (invalid s)"
    using assms(1) by (simp_all add: pool_inv_def)
  note eq = do_flush_eq [OF r, of env fl]
  have "distinct (map fst (flush_params (dirty s) s))"
    unfolding map_fst_flush_params by (intro distinct_filter distinct_slot_ids [OF b])
  note get = hm_get_fold_insert [OF this, of "cols_of_params (env_db env)" "runtime_state (pool_db s)" i]
  have slot: "i \<in> dirty (do_flush env fl s)
      \<or> hm_get (runtime_state (pool_db (do_flush env fl s))) i = Some (cols_of_params (env_db env) (to_runtime_params c))"
    if "pool_slot s i = Some c" for c
  proof (cases "f_batch fl")
    case True
    have "i \<in> set (map fst (flush_params (dirty s) s))"
      using flush_params_mem [OF assms(1) that assms(2)] by force
    with True show ?thesis
      by (simp add: eq flush_retry_def)
  next
    case False
    have "map_of (flush_params (dirty s) s) i = Some (to_runtime_params c)"
      using flush_params_mem [OF assms(1) that assms(2)] \<open>distinct _\<close> by simp
    with False get show ?thesis
      by (simp add: eq flush_db_def batch_upsert_runtime_states_def)
  qed
  have inv: "i \<in> dirty (do_flush env fl s)
      \<or> (\<forall>a \<in> set (accounts (pool_db (do_flush env fl s))). a_id a = i \<longrightarrow>
           a_status a = ''disabled'' \<and> a_invalid_reason a = Some (to_db_string (inv_reason u)))"
    if "hm_get (invalid s) i = Some u" for u
  proof (cases "i \<in> f_disabled fl")
    case True
    with flush_disabled_mem [OF assms(1) that assms(2)] show ?thesis
      by (force simp: eq flush_retry_def)
  next
    case False
    with flush_disabled_mem [OF assms(1) that assms(2)] show ?thesis
      using write_disabled_row [OF distinct_flush_disabled [OF assms(1)]]
      by (simp add: eq flush_db_def)
  qed
  show ?thesis
    using slot inv by (simp add: eq) (simp add: flush_db_def)
qed

end
