(* ===== verification/Pool_Reload.thy ===== *)
theory Pool_Reload
  imports Pool_Persistence
begin

text \<open>
  What a reload produces. The loop over the rows is refined to a specification per account:
  \<open>expected_slot\<close> and \<open>expected_invalid\<close> say, from the row and the slot in memory alone, in which bucket
  the account must be and with which contents.
\<close>

section \<open>One row\<close>

definition expected_slot ::
    "'c pool_env \<Rightarrow> i64 \<Rightarrow> (i64 \<Rightarrow> AccountSlot option) \<Rightarrow> AccountWithRuntime \<Rightarrow> AccountSlot option" where
  "expected_slot env now mem row =
     (if row_invalid row then None
      else map_option (\<lambda>cs. snd (reload_slot now row (mem (acc_id row)) cs)) (slot_of_row env row))"

definition expected_invalid :: "AccountWithRuntime \<Rightarrow> InvalidAccountSlot option" where
  "expected_invalid row =
     (if row_invalid row \<and> row_has_credential row then Some (invalid_of_row row) else None)"

lemma slot_of_row_facts:
  assumes "slot_of_row env row = Some cs"
  shows "account_id cs = Some (acc_id row)"
    and "auth_method cs = from_auth_source (acc_auth_source row)"
    and "row_has_credential row"
proof -
  show "account_id cs = Some (acc_id row)" "auth_method cs = from_auth_source (acc_auth_source row)"
    using assms by (auto simp: slot_of_row_def Let_def split: option.splits)
  show "row_has_credential row"
    using assms by (auto simp: slot_of_row_def Let_def row_has_credential_def
        split: AuthMethod.splits option.splits prod.splits)
qed

lemma apply_in_memory_id [simp]: "account_id (apply_in_memory_runtime d m p) = account_id d"
  "auth_method (apply_in_memory_runtime d m p) = auth_method d"
  by (simp_all add: apply_in_memory_runtime_def)

lemma reload_slot_id [simp]: "account_id (snd (reload_slot now row mem cs)) = account_id cs"
  by (simp add: reload_slot_def Let_def split: option.splits)

text \<open>The fields a reload of rows does not touch.\<close>

definition same_rest :: "'c AccountPoolState \<Rightarrow> 'c AccountPoolState \<Rightarrow> bool" where
  "same_rest s t \<longleftrightarrow> inflight t = inflight s \<and> moka t = moka s \<and> pool_db t = pool_db s
     \<and> reactivated t = reactivated s \<and> probing t = probing s \<and> has_handle t = has_handle s"

lemma same_rest_refl [simp]: "same_rest s s"
  and same_rest_trans: "same_rest s t \<Longrightarrow> same_rest t u \<Longrightarrow> same_rest s u"
  by (simp_all add: same_rest_def)

lemma reload_row_slot:
  assumes "\<not> row_invalid row" and "slot_of_row env row = Some cs"
    and "reload_slot now row (hm_get mem (acc_id row)) cs = (orig, c)"
  shows "\<exists>s1. reload_row env now row (s, mem, rep) =
      (rebucket (acc_id row) None c s1, hm_remove (acc_id row) mem,
       if orig = Replaced then rep @ [acc_id row] else rep)
    \<and> valid s1 = valid s \<and> exhausted s1 = exhausted s \<and> invalid s1 = invalid s \<and> same_rest s s1"
  using assms
  by (auto simp: reload_row_def Let_def rebucket_def same_rest_def
      intro!: exI [of _ "if orig = Cold True then mark_dirty (account_id c) s else s"])

lemma pool_slot_cong:
  "valid s1 = valid s \<Longrightarrow> exhausted s1 = exhausted s \<Longrightarrow> pool_slot s1 i = pool_slot s i"
  by (simp add: pool_slot_def cong: option.case_cong)

lemma pool_slot_invalid [simp]: "pool_slot (s\<lparr>invalid := m\<rparr>) = pool_slot s"
  by (rule ext, rule pool_slot_cong) simp_all

lemma pooled_ids_iff: "i \<in> pooled_ids s \<longleftrightarrow> pool_slot s i \<noteq> None \<or> hm_get (invalid s) i \<noteq> None"
  by (auto simp: pooled_ids_def pool_slot_None_iff map_of_eq_None_iff)

text \<open>The contract of one row, for an account not yet in a bucket.\<close>

definition row_done ::
    "'c pool_env \<Rightarrow> i64 \<Rightarrow> AccountWithRuntime \<Rightarrow> 'c AccountPoolState \<Rightarrow> (i64, AccountSlot) hash_map
      \<Rightarrow> 'c AccountPoolState \<Rightarrow> (i64, AccountSlot) hash_map \<Rightarrow> bool" where
  "row_done env now row s mem t mem' \<longleftrightarrow>
     buckets_ok (valid t) (exhausted t) (invalid t) \<and> same_rest s t
     \<and> pool_slot t (acc_id row) = expected_slot env now (hm_get mem) row
     \<and> hm_get (invalid t) (acc_id row) = expected_invalid row
     \<and> (\<forall>j. j \<noteq> acc_id row \<longrightarrow> pool_slot t j = pool_slot s j
           \<and> hm_get (invalid t) j = hm_get (invalid s) j \<and> hm_get mem' j = hm_get mem j)"

lemma reload_row_done:
  assumes ok: "buckets_ok (valid s) (exhausted s) (invalid s)" and new: "acc_id row \<notin> pooled_ids s"
    and t: "reload_row env now row (s, mem, rep) = (t, mem', rep')"
  shows "row_done env now row s mem t mem'"
proof (cases "row_invalid row")
  case True
  have n: "pool_slot s (acc_id row) = None" "hm_get (invalid s) (acc_id row) = None"
    and n': "acc_id row \<notin> valid_ids s" "acc_id row \<notin> exhausted_ids s"
    using new unfolding pooled_ids_iff [of "acc_id row" s] by (simp_all add: pool_slot_None_iff)
  show ?thesis
  proof (cases "row_has_credential row")
    case cred: True
    have "buckets_ok (valid s) (exhausted s) (hm_insert (acc_id row) (invalid_of_row row) (invalid s))"
      by (rule buckets_insert_invalid [OF ok _ n']) (simp add: invalid_of_row_def)
    moreover have "t = s\<lparr>invalid := hm_insert (acc_id row) (invalid_of_row row) (invalid s)\<rparr>" "mem' = mem"
      using True cred t by (simp_all add: reload_row_def)
    ultimately show ?thesis
      using True cred n
      by (simp add: row_done_def expected_slot_def expected_invalid_def same_rest_def hm_get_insert)
  next
    case False
    with True t n ok show ?thesis
      by (auto simp: row_done_def reload_row_def expected_slot_def expected_invalid_def)
  qed
next
  case valid_row: False
  have n: "pool_slot s (acc_id row) = None" "hm_get (invalid s) (acc_id row) = None"
    using new by (auto simp: pooled_ids_iff)
  show ?thesis
  proof (cases "slot_of_row env row")
    case None
    with valid_row t n ok show ?thesis
      by (auto simp: row_done_def reload_row_def expected_slot_def expected_invalid_def)
  next
    case (Some cs)
    obtain orig c where oc: "reload_slot now row (hm_get mem (acc_id row)) cs = (orig, c)"
      by fastforce
    have ai: "account_id c = Some (acc_id row)"
      using reload_slot_id [of now row "hm_get mem (acc_id row)" cs] slot_of_row_facts(1) [OF Some]
      by (simp add: oc)
    obtain s1 where s1: "t = rebucket (acc_id row) None c s1" "mem' = hm_remove (acc_id row) mem"
      "valid s1 = valid s" "exhausted s1 = exhausted s" "invalid s1 = invalid s" "same_rest s s1"
      using reload_row_slot [OF valid_row Some oc, of s rep] t by auto
    have "acc_id row \<notin> pooled_ids s1"
      using new by (simp add: pooled_ids_def s1(3-5))
    moreover have "buckets_ok (valid s1) (exhausted s1) (invalid s1)"
      using ok by (simp add: s1(3-5))
    ultimately have b: "buckets_ok (valid t) (exhausted t) (invalid t)"
      unfolding s1(1) using buckets_rebucket(1) [OF _ ai] by blast
    have ps: "pool_slot s1 j = pool_slot s j" for j
      by (rule pool_slot_cong [OF s1(3,4)])
    have "pool_slot t (acc_id row) = Some c"
      unfolding s1(1) using pool_slot_rebucket_self [OF ai, of s1 None] n ps by simp
    moreover have "invalid t = invalid s"
      using s1 by (simp add: rebucket_def)
    moreover have "same_rest s t"
      using s1 by (simp add: same_rest_def)
    moreover have "pool_slot t j = pool_slot s j" if "j \<noteq> acc_id row" for j
      unfolding s1(1) by (simp only: pool_slot_rebucket_other(1) [OF ai that] ps)
    ultimately show ?thesis
      using b n valid_row Some oc s1(2)
      by (simp add: row_done_def expected_slot_def expected_invalid_def hm_get_remove)
  qed
qed

section \<open>All rows\<close>

lemma reload_rows_done:
  assumes "buckets_ok (valid s) (exhausted s) (invalid s)" and "distinct (map acc_id rows)"
    and "\<forall>row \<in> set rows. acc_id row \<notin> pooled_ids s"
    and "fold (reload_row env now) rows (s, mem, rep) = (t, mem', rep')"
  shows "buckets_ok (valid t) (exhausted t) (invalid t) \<and> same_rest s t
    \<and> (\<forall>row \<in> set rows. pool_slot t (acc_id row) = expected_slot env now (hm_get mem) row
          \<and> hm_get (invalid t) (acc_id row) = expected_invalid row)
    \<and> (\<forall>j. j \<notin> acc_id ` set rows \<longrightarrow> pool_slot t j = pool_slot s j
          \<and> hm_get (invalid t) j = hm_get (invalid s) j)"
  using assms
proof (induction rows arbitrary: s mem rep)
  case (Cons row rows)
  obtain s1 mem1 rep1 where step: "reload_row env now row (s, mem, rep) = (s1, mem1, rep1)"
    by (cases "reload_row env now row (s, mem, rep)")
  have d: "row_done env now row s mem s1 mem1"
    using reload_row_done [OF Cons.prems(1) _ step] Cons.prems(3) by simp
  have ne: "acc_id r \<noteq> acc_id row" if "r \<in> set rows" for r
    using Cons.prems(2) that by (metis distinct.simps(2) image_eqI list.simps(9) set_map)
  have "\<forall>r \<in> set rows. acc_id r \<notin> pooled_ids s1"
    using Cons.prems(3) d ne by (auto simp: row_done_def pooled_ids_iff)
  moreover have "fold (reload_row env now) rows (s1, mem1, rep1) = (t, mem', rep')"
    using Cons.prems(4) step by simp
  moreover have "buckets_ok (valid s1) (exhausted s1) (invalid s1)" "distinct (map acc_id rows)"
    using d Cons.prems(2) by (simp_all add: row_done_def)
  ultimately have ih: "buckets_ok (valid t) (exhausted t) (invalid t) \<and> same_rest s1 t
    \<and> (\<forall>row \<in> set rows. pool_slot t (acc_id row) = expected_slot env now (hm_get mem1) row
          \<and> hm_get (invalid t) (acc_id row) = expected_invalid row)
    \<and> (\<forall>j. j \<notin> acc_id ` set rows \<longrightarrow> pool_slot t j = pool_slot s1 j
          \<and> hm_get (invalid t) j = hm_get (invalid s1) j)"
    using Cons.IH by blast
  have notin: "acc_id row \<notin> acc_id ` set rows"
    using Cons.prems(2) by simp
  have mem: "expected_slot env now (hm_get mem1) r = expected_slot env now (hm_get mem) r"
    if "r \<in> set rows" for r
    using d ne [OF that] by (simp add: row_done_def expected_slot_def)
  have head: "pool_slot t (acc_id row) = expected_slot env now (hm_get mem) row"
    "hm_get (invalid t) (acc_id row) = expected_invalid row"
    using ih d notin unfolding row_done_def by metis+
  have rest: "pool_slot t j = pool_slot s j \<and> hm_get (invalid t) j = hm_get (invalid s) j"
    if "j \<notin> acc_id ` set (row # rows)" for j
    using ih d that unfolding row_done_def by (metis image_insert insertCI list.set(2))
  show ?case
    using ih head rest mem d same_rest_trans [of s s1 t] unfolding row_done_def by auto
qed simp

lemma mem_index_get:
  assumes "buckets_ok (valid s) (exhausted s) (invalid s)"
  shows "hm_get (mem_index s) i = pool_slot s i"
proof -
  let ?f = "\<lambda>m c. case account_id c of Some i \<Rightarrow> hm_insert i c m | None \<Rightarrow> m"
  have v: "hm_get (foldl ?f m vs) i =
      (case find (\<lambda>c. account_id c = Some i) vs of Some c \<Rightarrow> Some c | None \<Rightarrow> hm_get m i)"
    if "valid_ok vs" for vs m
    using that
  proof (induction vs arbitrary: m)
    case (Cons c vs)
    then obtain k where k: "account_id c = Some k" "k \<notin> ids_of vs" "valid_ok vs"
      by (force simp: valid_ok_def ids_of_def)
    with Cons.IH [OF k(3)] show ?case
      by (auto simp: hm_get_insert find_none_iff_ids [symmetric] split: option.splits)
  qed simp
  have e: "distinct (map fst ex) \<Longrightarrow> hm_get (foldl (\<lambda>m (i, c). hm_insert i c m) m ex) i =
      (case hm_get ex i of Some c \<Rightarrow> Some c | None \<Rightarrow> hm_get m i)" for ex m
    using hm_get_fold_insert [of ex "\<lambda>x. x" m i] by simp
  have ok: "valid_ok (valid s)" "distinct (map fst (exhausted s))" "valid_ids s \<inter> exhausted_ids s = {}"
    using assms by (simp_all add: buckets_ok_def exhausted_ok_def)
  show ?thesis
    using find_none_iff_ids [of i "valid s"] ok(3)
    by (force simp: mem_index_def e [OF ok(2)] v [OF ok(1)] pool_slot_def
        split: option.splits dest: map_of_SomeD)
qed

lemma rebuild_inflight_get:
  assumes "distinct (map acc_id rows)"
  shows "hm_wf (rebuild_inflight rows old)"
    and "hm_keys (rebuild_inflight rows old) = acc_id ` {r \<in> set rows. row_has_credential r}"
    and "row \<in> set rows \<Longrightarrow> row_has_credential row \<Longrightarrow>
      hm_get (rebuild_inflight rows old) (acc_id row) =
        Some (case hm_get old (acc_id row) of Some (cur, _) \<Rightarrow> cur | None \<Rightarrow> 0,
              word_of_int (acc_max_slots row))"
proof -
  let ?v = "\<lambda>row. (case hm_get old (acc_id row) of Some (cur, _) \<Rightarrow> cur | None \<Rightarrow> 0,
    word_of_int (acc_max_slots row) :: u32)"
  let ?f = "\<lambda>m row. hm_insert (acc_id row) (?v row) m"
  have wf: "hm_wf m \<Longrightarrow> hm_wf (foldl ?f m rs)" for m rs
    by (induction rs arbitrary: m) auto
  have keys: "hm_keys (foldl ?f m rs) = hm_keys m \<union> acc_id ` set rs" for m rs
    by (induction rs arbitrary: m) auto
  have other: "i \<notin> acc_id ` set rs \<Longrightarrow> hm_get (foldl ?f m rs) i = hm_get m i" for i m rs
    by (induction rs arbitrary: m) (auto simp: hm_get_insert)
  have get: "distinct (map acc_id rs) \<Longrightarrow> row \<in> set rs \<Longrightarrow>
      hm_get (foldl ?f m rs) (acc_id row) = Some (?v row)" for m rs
  proof (induction rs arbitrary: m)
    case (Cons r rs)
    show ?case
    proof (cases "row = r")
      case True
      with Cons.prems(1) other [of "acc_id r" rs] show ?thesis by (simp add: hm_get_insert)
    next
      case False
      with Cons show ?thesis by simp
    qed
  qed simp
  show "hm_wf (rebuild_inflight rows old)"
    unfolding rebuild_inflight_def by (rule wf) simp
  show "hm_keys (rebuild_inflight rows old) = acc_id ` {r \<in> set rows. row_has_credential r}"
    unfolding rebuild_inflight_def keys by simp
  show "row \<in> set rows \<Longrightarrow> row_has_credential row \<Longrightarrow>
      hm_get (rebuild_inflight rows old) (acc_id row) = Some (?v row)"
    unfolding rebuild_inflight_def using assms by (intro get) (auto intro: distinct_map_filter)
qed

section \<open>The reload\<close>

lemma distinct_loaded_ids: "db_wf db \<Longrightarrow> distinct (map acc_id (load_all_accounts x nowi db))"
proof -
  assume "db_wf db"
  then have "distinct (map a_id (sort_key a_rr_order (accounts db)))"
    using distinct_map_mset_cong [of "sort_key a_rr_order (accounts db)" "accounts db" a_id]
    by (simp add: db_wf_def)
  then show ?thesis
    by (simp add: load_all_accounts_def load_account_def comp_def)
qed

lemma reload_rows_spec:
  assumes ok: "buckets_ok (valid s) (exhausted s) (invalid s)" and dis: "distinct (map acc_id rows)"
    and t: "t = reload_rows env now rows s"
  shows "buckets_ok (valid t) (exhausted t) (invalid t)"
    and "row \<in> set rows \<Longrightarrow> pool_slot t (acc_id row) = expected_slot env now (pool_slot s) row"
    and "row \<in> set rows \<Longrightarrow> hm_get (invalid t) (acc_id row) = expected_invalid row"
    and "j \<notin> acc_id ` set rows \<Longrightarrow> pool_slot t j = None \<and> hm_get (invalid t) j = None"
    and "inflight t = rebuild_inflight rows (inflight s)" and "pool_db t = pool_db s"
    and "reactivated t = reactivated s" and "moka t = mk_invalidate_all env (moka s)"
    and "drain_first_ids t = acc_id ` {r \<in> set rows. acc_drain_first r}"
proof -
  let ?s0 = "s\<lparr>valid := [], exhausted := [], invalid := []\<rparr>"
  obtain s1 mem1 rep1 where f: "fold (reload_row env now) rows (?s0, mem_index s, []) = (s1, mem1, rep1)"
    by (cases "fold (reload_row env now) rows (?s0, mem_index s, [])")
  have "buckets_ok (valid ?s0) (exhausted ?s0) (invalid ?s0)" "\<forall>row \<in> set rows. acc_id row \<notin> pooled_ids ?s0"
    by (simp_all add: buckets_ok_def pooled_ids_def)
  note d = reload_rows_done [OF this(1) dis this(2) f]
  have g: "hm_get (mem_index s) = pool_slot s"
    by (rule ext) (rule mem_index_get [OF ok])
  have fields: "valid t = valid s1" "exhausted t = exhausted s1" "invalid t = invalid s1"
    "inflight t = rebuild_inflight rows (inflight s1)" "pool_db t = pool_db s1"
    "reactivated t = reactivated s1" "moka t = mk_invalidate_all env (moka s1)"
    "drain_first_ids t = acc_id ` {r \<in> set rows. acc_drain_first r}"
    by (simp_all add: t reload_rows_def f spawn_probes_for_unprobed_def)
  have ps: "pool_slot t j = pool_slot s1 j" for j
    by (rule pool_slot_cong [OF fields(1,2)])
  have n: "pool_slot ?s0 j = None" for j
    by (simp add: pool_slot_def)
  show "buckets_ok (valid t) (exhausted t) (invalid t)"
    "row \<in> set rows \<Longrightarrow> pool_slot t (acc_id row) = expected_slot env now (pool_slot s) row"
    "row \<in> set rows \<Longrightarrow> hm_get (invalid t) (acc_id row) = expected_invalid row"
    "j \<notin> acc_id ` set rows \<Longrightarrow> pool_slot t j = None \<and> hm_get (invalid t) j = None"
    using d n by (simp_all add: ps fields g)
  show "inflight t = rebuild_inflight rows (inflight s)" "pool_db t = pool_db s"
    "reactivated t = reactivated s" "moka t = mk_invalidate_all env (moka s)"
    "drain_first_ids t = acc_id ` {r \<in> set rows. acc_drain_first r}"
    using d by (simp_all add: fields same_rest_def)
qed

lemma expected_has_credential:
  "expected_slot env now mem row = Some c \<Longrightarrow> row_has_credential row"
  "expected_invalid row = Some u \<Longrightarrow> row_has_credential row"
  by (auto simp: expected_slot_def expected_invalid_def slot_of_row_facts split: if_splits)

lemma pool_inv_reload_rows:
  assumes inv: "pool_inv s" and dis: "distinct (map acc_id rows)"
  shows "pool_inv (reload_rows env now rows s)"
proof -
  let ?t = "reload_rows env now rows s"
  have ok: "buckets_ok (valid s) (exhausted s) (invalid s)"
    using inv by (simp add: pool_inv_def)
  note r = reload_rows_spec [OF ok dis refl, where env = env and now = now]
  have "i \<in> hm_keys (inflight ?t)" if i: "i \<in> pooled_ids ?t" for i
  proof -
    obtain row where row: "row \<in> set rows" "i = acc_id row"
      using i r(4) [of i] unfolding pooled_ids_iff by (metis imageE)
    with i r(2,3) [OF row(1)] have "row_has_credential row"
      by (auto simp: pooled_ids_iff intro: expected_has_credential)
    with row show ?thesis
      by (auto simp: r(5) rebuild_inflight_get(2) [OF dis])
  qed
  with r inv rebuild_inflight_get(1) [OF dis] show ?thesis
    by (auto simp: pool_inv_def)
qed

lemma pool_inv_reload: "pool_inv s \<Longrightarrow> pool_inv (do_reload env fl now nowi s)"
proof -
  assume "pool_inv s"
  then have f: "pool_inv (do_flush env fl s)"
    by (rule pool_inv_flush)
  then have "db_wf (pool_db (do_flush env fl s))"
    by (simp add: pool_inv_def)
  with f show ?thesis
    by (simp add: do_reload_def Let_def pool_inv_reload_rows distinct_loaded_ids)
qed

text \<open>The same for the whole operation, flush included.\<close>

lemma do_reload_spec:
  assumes "pool_inv s" and "\<not> f_load fl"
    and "rows = load_all_accounts (env_db env) nowi (pool_db (do_flush env fl s))"
    and "do_reload env fl now nowi s = t"
  shows "row \<in> set rows \<Longrightarrow> pool_slot t (acc_id row) = expected_slot env now (pool_slot s) row"
    and "row \<in> set rows \<Longrightarrow> hm_get (invalid t) (acc_id row) = expected_invalid row"
    and "row \<in> set rows \<Longrightarrow> row_has_credential row \<Longrightarrow> hm_get (inflight t) (acc_id row) =
           Some (case hm_get (inflight s) (acc_id row) of Some (cur, _) \<Rightarrow> cur | None \<Rightarrow> 0,
                 word_of_int (acc_max_slots row))"
    and "pooled_ids t \<subseteq> acc_id ` set rows"
    and "drain_first_ids t = acc_id ` {r \<in> set rows. acc_drain_first r}"
    and "moka t = mk_invalidate_all env (moka s)"
proof -
  let ?s = "do_flush env fl s"
  have r: "reactivated s = {}" and ok: "buckets_ok (valid s) (exhausted s) (invalid s)"
    using assms(1) by (simp_all add: pool_inv_def)
  have ok': "buckets_ok (valid ?s) (exhausted ?s) (invalid ?s)"
    using ok r by simp
  have dis: "distinct (map acc_id rows)"
    using pool_inv_flush [OF assms(1), of env fl] unfolding assms(3)
    by (intro distinct_loaded_ids) (simp add: pool_inv_def)
  have t: "t = reload_rows env now rows ?s"
    using assms(2-4) by (simp add: do_reload_def Let_def)
  have ps: "pool_slot ?s = pool_slot s"
    by (rule ext, rule pool_slot_cong) (simp_all add: r)
  note sp = reload_rows_spec [OF ok' dis t, unfolded ps]
  show "pooled_ids t \<subseteq> acc_id ` set rows"
    using sp(4) unfolding subset_iff pooled_ids_iff by metis
  show "row \<in> set rows \<Longrightarrow> pool_slot t (acc_id row) = expected_slot env now (pool_slot s) row"
    "row \<in> set rows \<Longrightarrow> hm_get (invalid t) (acc_id row) = expected_invalid row"
    "row \<in> set rows \<Longrightarrow> row_has_credential row \<Longrightarrow> hm_get (inflight t) (acc_id row) =
       Some (case hm_get (inflight s) (acc_id row) of Some (cur, _) \<Rightarrow> cur | None \<Rightarrow> 0,
             word_of_int (acc_max_slots row))"
    "drain_first_ids t = acc_id ` {r \<in> set rows. acc_drain_first r}"
    "moka t = mk_invalidate_all env (moka s)"
    using sp(2,3,5,8,9) rebuild_inflight_get(3) [OF dis] by (simp_all add: r)
qed


subsection \<open>Witnesses\<close>

definition no_faults :: db_faults where
  "no_faults = \<lparr>f_batch = False, f_active = False, f_disabled = {}, f_load = False\<rparr>"

lemma sample_flush: "do_flush list_env no_faults sample_pool = sample_pool"
  by (simp add: do_flush_def sample_pool_def)

lemma sample_rows:
  "load_all_accounts (env_db list_env) nowi (pool_db sample_pool) =
     [load_account sample_ext nowi sample_db (sample_row 1), load_account sample_ext nowi sample_db (sample_row 2)]"
  by (simp add: load_all_accounts_def sample_pool_def sample_db_def sample_row_def list_env_def)

theorem flush_no_lost_update_witness:
  "hm_get (runtime_state (pool_db (do_flush list_env no_faults (sample_pool\<lparr>dirty := {2}\<rparr>)))) 2
     = Some (cols_of_params sample_ext (to_runtime_params (sample_slot 2)))"
proof -
  let ?s = "sample_pool\<lparr>dirty := {2}\<rparr>"
  have inv: "pool_inv ?s"
    using sample_pool_inv by (simp add: pool_inv_def pooled_ids_def)
  have slot: "pool_slot ?s 2 = Some (sample_slot 2)"
    by (simp add: pool_slot_def sample_pool_def sample_slot_def slot_oauth_def)
  have "dirty (do_flush list_env no_faults ?s) = {}"
    by (subst do_flush_eq) (simp_all add: sample_pool_def flush_retry_def no_faults_def)
  with flush_no_lost_update [OF inv, of 2 list_env no_faults] slot show ?thesis
    by (simp add: list_env_def)
qed

lemma sample_row_loaded:
  "acc_id (load_account sample_ext 0 sample_db (sample_row i)) = i"
  "acc_max_slots (load_account sample_ext 0 sample_db (sample_row i)) = 5"
  "row_has_credential (load_account sample_ext 0 sample_db (sample_row i))"
  "\<not> row_invalid (load_account sample_ext 0 sample_db (sample_row i))"
  "acc_auth_source (load_account sample_ext 0 sample_db (sample_row i)) = ''oauth''"
proof -
  have "parse_i64 ''900'' = Some 900"
    by code_simp
  then show "row_has_credential (load_account sample_ext 0 sample_db (sample_row i))"
    by (simp add: row_has_credential_def load_account_def load_token_def sample_row_def sample_ext_def)
qed (simp_all add: load_account_def sample_row_def row_invalid_def)


end
