(* ===== verification/Account_Health.thy ===== *)
theory Account_Health
  imports Account_Db
begin

text \<open>
  The account health view of \<open>src/src/services/account_health.rs\<close>: the state of one account composed
  from its pool bucket and its database row, and the summary counters. Counters are unbounded here: a
  summary counts the loaded accounts.
\<close>

section \<open>Data\<close>

datatype InvalidKind = Kind_AuthError | Kind_Disabled

datatype AccountHealthState =
    Active
  | CoolingDown i64
  | Invalid_State InvalidKind "Reason option"
  | Unconfigured

record AccountHealth =
  h_state :: AccountHealthState
  h_probing :: bool
  h_last_probe_error :: "string option"
  h_last_failure :: "AccountFailureContextPersisted option"

datatype PoolBucket = In_Valid | In_Exhausted "i64 option" | In_Invalid Reason

record PoolAccountView =
  pv_bucket :: "PoolBucket option"
  pv_inflight :: "(u32 \<times> u32) option"
  pv_probing :: bool
  pv_reactivated :: bool
  pv_last_probe_error :: "string option"

record PoolCounts =
  pc_valid :: nat
  pc_exhausted :: nat
  pc_invalid :: nat

record HealthDetail =
  hd_dispatchable_now :: nat
  hd_saturated :: nat
  hd_cooling_down :: nat
  hd_probing :: nat
  hd_invalid_auth :: nat
  hd_invalid_disabled :: nat
  hd_unconfigured :: nat

record InvalidBreakdown =
  ib_free :: nat
  ib_disabled :: nat
  ib_banned :: nat
  ib_null :: nat
  ib_restricted :: nat
  ib_too_many_request :: nat

record ProbeSummary =
  pr_probing_count :: nat
  pr_probing_ids :: "i64 list"
  pr_last_errors :: "(i64, string) hash_map"

record AuthSourceCounts =
  as_oauth :: nat
  as_cookie :: nat
  as_api_key :: nat

record AccountHealthSummary =
  sm_total :: nat
  sm_pool :: PoolCounts
  sm_detail :: HealthDetail
  sm_invalid_breakdown :: InvalidBreakdown
  sm_probe :: ProbeSummary
  sm_auth_sources :: AuthSourceCounts
  sm_generated_at :: i64

record AccountHealthSnapshot =
  sn_summary :: AccountHealthSummary
  sn_per_account :: "(i64, AccountHealth) hash_map"

record PoolSnapshotView =
  sv_valid_ids :: "i64 set"
  sv_exhausted :: "(i64, i64 option) hash_map"
  sv_invalid :: "(i64, Reason) hash_map"
  sv_inflight :: "(i64, u32 \<times> u32) hash_map"
  sv_probing :: "i64 set"
  sv_reactivated :: "i64 set"
  sv_probe_errors :: "(i64, string) hash_map"

section \<open>The state of one account\<close>

definition non_empty :: "string option \<Rightarrow> bool" where
  "non_empty v = (case v of Some s \<Rightarrow> s \<noteq> '''' | None \<Rightarrow> False)"

definition has_credential :: "AccountWithRuntime \<Rightarrow> bool" where
  "has_credential account =
     (if acc_auth_source account = ''api_key'' then
        non_empty (acc_api_key_base_url account) \<and> non_empty (acc_api_key_secret account)
      else if acc_auth_source account = ''oauth'' then acc_oauth_token account \<noteq> None
      else non_empty (acc_cookie_blob account))"

definition parse_db_invalid_reason :: "AccountWithRuntime \<Rightarrow> Reason option" where
  "parse_db_invalid_reason account = Option.bind (acc_invalid_reason account) from_db_string_checked"

definition infer_invalid_kind :: "AccountWithRuntime \<Rightarrow> Reason \<Rightarrow> InvalidKind" where
  "infer_invalid_kind account pool_reason =
     (if acc_status account = ''disabled'' then Kind_Disabled
      else if acc_status account = ''auth_error'' then Kind_AuthError
      else if pool_reason = Disabled then Kind_Disabled else Kind_AuthError)"

definition compose_from_db :: "i64 \<Rightarrow> AccountWithRuntime \<Rightarrow> AccountHealthState" where
  "compose_from_db now account =
     (if acc_status account = ''auth_error''
      then Invalid_State Kind_AuthError (parse_db_invalid_reason account)
      else if acc_status account = ''disabled''
      then Invalid_State Kind_Disabled (parse_db_invalid_reason account)
      else if \<not> has_credential account then Unconfigured
      else (case active_reset_time now account of
              Some reset \<Rightarrow> CoolingDown reset
            | None \<Rightarrow> Active))"

definition compose_terminal_from_db :: "AccountWithRuntime \<Rightarrow> AccountHealthState option" where
  "compose_terminal_from_db account =
     (if acc_status account = ''auth_error''
      then Some (Invalid_State Kind_AuthError (parse_db_invalid_reason account))
      else if acc_status account = ''disabled''
      then Some (Invalid_State Kind_Disabled (parse_db_invalid_reason account))
      else None)"

definition compose_from_pool_or_db ::
    "AccountWithRuntime \<Rightarrow> PoolBucket option \<Rightarrow> i64 \<Rightarrow> AccountHealthState" where
  "compose_from_pool_or_db account bucket now =
     (case bucket of
        Some In_Valid \<Rightarrow> Active
      | Some (In_Exhausted rt) \<Rightarrow>
          (let effective = (case rt of
                              Some t \<Rightarrow> if t > now then Some t else active_reset_time now account
                            | None \<Rightarrow> active_reset_time now account)
           in case effective of Some t \<Rightarrow> CoolingDown t | None \<Rightarrow> Active)
      | Some (In_Invalid reason) \<Rightarrow> Invalid_State (infer_invalid_kind account reason) (Some reason)
      | None \<Rightarrow> compose_from_db now account)"

definition compose_health :: "AccountWithRuntime \<Rightarrow> PoolAccountView \<Rightarrow> i64 \<Rightarrow> AccountHealth" where
  "compose_health account view now =
     (let state =
        (case pv_bucket view of
           Some (In_Invalid r) \<Rightarrow> compose_from_pool_or_db account (pv_bucket view) now
         | _ \<Rightarrow>
             if \<not> pv_reactivated view then
               (case compose_terminal_from_db account of
                  Some st \<Rightarrow> st
                | None \<Rightarrow> compose_from_pool_or_db account (pv_bucket view) now)
             else compose_from_pool_or_db account (pv_bucket view) now);
          last_failure = (case state of Invalid_State _ _ \<Rightarrow> acc_last_failure account | _ \<Rightarrow> None)
      in \<lparr>h_state = state, h_probing = pv_probing view,
          h_last_probe_error = pv_last_probe_error view, h_last_failure = last_failure\<rparr>)"

definition inflight_saturated :: "(u32 \<times> u32) option \<Rightarrow> bool" where
  "inflight_saturated infl = (case infl of Some (cur, mx) \<Rightarrow> mx > 0 \<and> cur \<ge> mx | None \<Rightarrow> False)"

section \<open>The summary\<close>

type_synonym tally = "HealthDetail \<times> InvalidBreakdown \<times> AuthSourceCounts"

definition empty_detail :: HealthDetail where
  "empty_detail = \<lparr>hd_dispatchable_now = 0, hd_saturated = 0, hd_cooling_down = 0, hd_probing = 0,
     hd_invalid_auth = 0, hd_invalid_disabled = 0, hd_unconfigured = 0\<rparr>"

definition empty_breakdown :: InvalidBreakdown where
  "empty_breakdown = \<lparr>ib_free = 0, ib_disabled = 0, ib_banned = 0, ib_null = 0, ib_restricted = 0,
     ib_too_many_request = 0\<rparr>"

definition count_auth_source :: "string \<Rightarrow> AuthSourceCounts \<Rightarrow> AuthSourceCounts" where
  "count_auth_source src c =
     (if src = ''oauth'' then c\<lparr>as_oauth := Suc (as_oauth c)\<rparr>
      else if src = ''cookie'' then c\<lparr>as_cookie := Suc (as_cookie c)\<rparr>
      else if src = ''api_key'' then c\<lparr>as_api_key := Suc (as_api_key c)\<rparr>
      else c)"

fun count_reason :: "Reason \<Rightarrow> InvalidBreakdown \<Rightarrow> InvalidBreakdown" where
  "count_reason Free b = b\<lparr>ib_free := Suc (ib_free b)\<rparr>"
| "count_reason Disabled b = b\<lparr>ib_disabled := Suc (ib_disabled b)\<rparr>"
| "count_reason Banned b = b\<lparr>ib_banned := Suc (ib_banned b)\<rparr>"
| "count_reason Null b = b\<lparr>ib_null := Suc (ib_null b)\<rparr>"
| "count_reason (Restricted _) b = b\<lparr>ib_restricted := Suc (ib_restricted b)\<rparr>"
| "count_reason (TooManyRequest _) b = b\<lparr>ib_too_many_request := Suc (ib_too_many_request b)\<rparr>"

definition count_state ::
    "(u32 \<times> u32) option \<Rightarrow> AccountHealthState \<Rightarrow> HealthDetail \<Rightarrow> HealthDetail" where
  "count_state infl st d =
     (case st of
        Active \<Rightarrow>
          if inflight_saturated infl then d\<lparr>hd_saturated := Suc (hd_saturated d)\<rparr>
          else d\<lparr>hd_dispatchable_now := Suc (hd_dispatchable_now d)\<rparr>
      | CoolingDown _ \<Rightarrow> d\<lparr>hd_cooling_down := Suc (hd_cooling_down d)\<rparr>
      | Invalid_State Kind_AuthError _ \<Rightarrow> d\<lparr>hd_invalid_auth := Suc (hd_invalid_auth d)\<rparr>
      | Invalid_State Kind_Disabled _ \<Rightarrow> d\<lparr>hd_invalid_disabled := Suc (hd_invalid_disabled d)\<rparr>
      | Unconfigured \<Rightarrow> d\<lparr>hd_unconfigured := Suc (hd_unconfigured d)\<rparr>)"

definition tally_account ::
    "(i64, AccountHealth) hash_map \<Rightarrow> (i64, u32 \<times> u32) hash_map \<Rightarrow> tally \<Rightarrow> AccountWithRuntime \<Rightarrow> tally" where
  "tally_account per_account infl = (\<lambda>(d, b, src) account.
     let src1 = count_auth_source (acc_auth_source account) src
     in case hm_get per_account (acc_id account) of
          None \<Rightarrow> (d, b, src1)
        | Some health \<Rightarrow>
            let d1 = (if h_probing health then d\<lparr>hd_probing := Suc (hd_probing d)\<rparr> else d);
                d2 = count_state (hm_get infl (acc_id account)) (h_state health) d1;
                b1 = (case h_state health of Invalid_State _ (Some r) \<Rightarrow> count_reason r b | _ \<Rightarrow> b)
            in (d2, b1, src1))"

definition summarize ::
    "AccountWithRuntime list \<Rightarrow> (i64, AccountHealth) hash_map \<Rightarrow> (i64, u32 \<times> u32) hash_map
      \<Rightarrow> PoolCounts \<Rightarrow> ProbeSummary \<Rightarrow> i64 \<Rightarrow> AccountHealthSummary" where
  "summarize accs per_account infl pool_counts probe generated_at =
     (case foldl (tally_account per_account infl)
             (empty_detail, empty_breakdown, \<lparr>as_oauth = 0, as_cookie = 0, as_api_key = 0\<rparr>) accs of
        (d, b, src) \<Rightarrow>
          \<lparr>sm_total = length accs, sm_pool = pool_counts, sm_detail = d, sm_invalid_breakdown = b,
           sm_probe = probe, sm_auth_sources = src, sm_generated_at = generated_at\<rparr>)"

definition bucket_of_view :: "PoolSnapshotView \<Rightarrow> i64 \<Rightarrow> PoolBucket option" where
  "bucket_of_view view i =
     (if i \<in> sv_valid_ids view then Some In_Valid
      else (case hm_get (sv_exhausted view) i of
              Some reset \<Rightarrow> Some (In_Exhausted reset)
            | None \<Rightarrow> map_option In_Invalid (hm_get (sv_invalid view) i)))"

definition account_view :: "PoolSnapshotView \<Rightarrow> i64 \<Rightarrow> PoolAccountView" where
  "account_view view i =
     \<lparr>pv_bucket = bucket_of_view view i, pv_inflight = hm_get (sv_inflight view) i,
      pv_probing = (i \<in> sv_probing view), pv_reactivated = (i \<in> sv_reactivated view),
      pv_last_probe_error = hm_get (sv_probe_errors view) i\<rparr>"

definition count_pool :: "PoolCounts \<Rightarrow> AccountHealth \<Rightarrow> PoolCounts" where
  "count_pool c h =
     (case h_state h of
        Active \<Rightarrow> c\<lparr>pc_valid := Suc (pc_valid c)\<rparr>
      | CoolingDown _ \<Rightarrow> c\<lparr>pc_exhausted := Suc (pc_exhausted c)\<rparr>
      | Invalid_State _ _ \<Rightarrow> c\<lparr>pc_invalid := Suc (pc_invalid c)\<rparr>
      | Unconfigured \<Rightarrow> c)"

definition compose_health_snapshot ::
    "PoolSnapshotView \<Rightarrow> AccountWithRuntime list \<Rightarrow> i64 \<Rightarrow> AccountHealthSnapshot" where
  "compose_health_snapshot view accs now =
     (let per_account =
            foldl (\<lambda>m a. hm_insert (acc_id a) (compose_health a (account_view view (acc_id a)) now) m)
              [] accs;
          pool_counts =
            foldl count_pool \<lparr>pc_valid = 0, pc_exhausted = 0, pc_invalid = 0\<rparr> (map snd per_account);
          probe = \<lparr>pr_probing_count = card (sv_probing view),
                   pr_probing_ids = sorted_list_of_set (sv_probing view),
                   pr_last_errors = sv_probe_errors view\<rparr>
      in \<lparr>sn_summary = summarize accs per_account (sv_inflight view) pool_counts probe now,
          sn_per_account = per_account\<rparr>)"

section \<open>Properties\<close>

lemma hm_insert_new: "k \<notin> hm_keys m \<Longrightarrow> hm_insert k v m = m @ [(k, v)]"
  by (induction m) auto

lemma foldl_insert_fresh:
  "distinct (map key xs) \<Longrightarrow> \<forall>x \<in> set xs. key x \<notin> hm_keys m \<Longrightarrow>
   foldl (\<lambda>m x. hm_insert (key x) (f x) m) m xs = m @ map (\<lambda>x. (key x, f x)) xs"
proof (induction xs arbitrary: m)
  case (Cons x xs)
  have x: "key x \<notin> hm_keys m" and xs: "distinct (map key xs)" "key x \<notin> key ` set xs"
    using Cons.prems by auto
  have "\<forall>y \<in> set xs. key y \<notin> hm_keys (m @ [(key x, f x)])"
    using Cons.prems(2) xs(2) by (auto simp: image_iff)
  from Cons.IH [OF xs(1) this] show ?case
    by (simp add: hm_insert_new [OF x])
qed simp

definition is_cooling :: "AccountHealthState \<Rightarrow> bool" where
  "is_cooling st = (case st of CoolingDown _ \<Rightarrow> True | _ \<Rightarrow> False)"

definition is_invalid :: "AccountHealthState \<Rightarrow> bool" where
  "is_invalid st = (case st of Invalid_State _ _ \<Rightarrow> True | _ \<Rightarrow> False)"

lemmas state_class_defs = is_cooling_def is_invalid_def

lemma count_state_sums:
  "hd_dispatchable_now (count_state infl st d) + hd_saturated (count_state infl st d)
     = hd_dispatchable_now d + hd_saturated d + (if st = Active then 1 else 0)"
  "hd_cooling_down (count_state infl st d) = hd_cooling_down d + (if is_cooling st then 1 else 0)"
  "hd_invalid_auth (count_state infl st d) + hd_invalid_disabled (count_state infl st d)
     = hd_invalid_auth d + hd_invalid_disabled d + (if is_invalid st then 1 else 0)"
  "hd_unconfigured (count_state infl st d) = hd_unconfigured d + (if st = Unconfigured then 1 else 0)"
  by (simp_all add: count_state_def state_class_defs split: AccountHealthState.splits InvalidKind.splits)

lemma tally_sums:
  assumes "\<forall>a \<in> set accs. hm_get pa (acc_id a) = Some (hf a)"
    and "foldl (tally_account pa infl) (d, b, src) accs = (d', b', src')"
  shows "hd_dispatchable_now d' + hd_saturated d'
      = hd_dispatchable_now d + hd_saturated d + length (filter (\<lambda>a. h_state (hf a) = Active) accs)
    \<and> hd_cooling_down d' = hd_cooling_down d + length (filter (\<lambda>a. is_cooling (h_state (hf a))) accs)
    \<and> hd_invalid_auth d' + hd_invalid_disabled d'
      = hd_invalid_auth d + hd_invalid_disabled d + length (filter (\<lambda>a. is_invalid (h_state (hf a))) accs)
    \<and> hd_unconfigured d'
      = hd_unconfigured d + length (filter (\<lambda>a. h_state (hf a) = Unconfigured) accs)"
  using assms
proof (induction accs arbitrary: d b src)
  case (Cons a accs)
  let ?d1 = "if h_probing (hf a) then d\<lparr>hd_probing := Suc (hd_probing d)\<rparr> else d"
  obtain b1 src1 where step: "tally_account pa infl (d, b, src) a
      = (count_state (hm_get infl (acc_id a)) (h_state (hf a)) ?d1, b1, src1)"
    using Cons.prems(1) by (simp add: tally_account_def)
  have d1: "hd_dispatchable_now ?d1 = hd_dispatchable_now d" "hd_saturated ?d1 = hd_saturated d"
    "hd_cooling_down ?d1 = hd_cooling_down d" "hd_invalid_auth ?d1 = hd_invalid_auth d"
    "hd_invalid_disabled ?d1 = hd_invalid_disabled d" "hd_unconfigured ?d1 = hd_unconfigured d"
    by simp_all
  from Cons.prems have "foldl (tally_account pa infl)
      (count_state (hm_get infl (acc_id a)) (h_state (hf a)) ?d1, b1, src1) accs = (d', b', src')"
    by (simp only: foldl_Cons step)
  with Cons.prems(1) have "\<forall>a \<in> set accs. hm_get pa (acc_id a) = Some (hf a)" by simp
  from Cons.IH [OF this \<open>foldl _ _ accs = _\<close>] show ?case
    unfolding count_state_sums(2,4) using count_state_sums [of "hm_get infl (acc_id a)" "h_state (hf a)" ?d1]
    unfolding d1 by simp
qed simp

lemma count_pool_sums:
  "pc_valid (foldl count_pool c hs) = pc_valid c + length (filter (\<lambda>h. h_state h = Active) hs)
   \<and> pc_exhausted (foldl count_pool c hs) = pc_exhausted c + length (filter (\<lambda>h. is_cooling (h_state h)) hs)
   \<and> pc_invalid (foldl count_pool c hs) = pc_invalid c + length (filter (\<lambda>h. is_invalid (h_state h)) hs)"
proof (induction hs arbitrary: c)
  case (Cons h hs)
  have "pc_valid (count_pool c h) = pc_valid c + (if h_state h = Active then 1 else 0)"
    "pc_exhausted (count_pool c h) = pc_exhausted c + (if is_cooling (h_state h) then 1 else 0)"
    "pc_invalid (count_pool c h) = pc_invalid c + (if is_invalid (h_state h) then 1 else 0)"
    by (simp_all add: count_pool_def state_class_defs split: AccountHealthState.splits)
  with Cons.IH [of "count_pool c h"] show ?case by simp
qed simp

lemma state_partition:
  "length (filter (\<lambda>a. f a = Active) xs) + length (filter (\<lambda>a. is_cooling (f a)) xs)
   + length (filter (\<lambda>a. is_invalid (f a)) xs) + length (filter (\<lambda>a. f a = Unconfigured) xs) = length xs"
  by (induction xs) (auto simp: state_class_defs split: AccountHealthState.splits)

text \<open>The per-account map: every loaded account has its composed health.\<close>

lemma per_account_get:
  assumes "distinct (map acc_id accs)" and "a \<in> set accs"
  shows "hm_get (sn_per_account (compose_health_snapshot view accs now)) (acc_id a)
    = Some (compose_health a (account_view view (acc_id a)) now)"
proof -
  have "sn_per_account (compose_health_snapshot view accs now)
      = map (\<lambda>a. (acc_id a, compose_health a (account_view view (acc_id a)) now)) accs"
    using foldl_insert_fresh [OF assms(1), of "[]" "\<lambda>a. compose_health a (account_view view (acc_id a)) now"]
    by (simp add: compose_health_snapshot_def Let_def)
  moreover have "map_of (map (\<lambda>a. (acc_id a, f a)) accs) (acc_id a) = Some (f a)" for f :: "_ \<Rightarrow> AccountHealth"
    using assms by (intro map_of_is_SomeI) (auto simp: comp_def)
  ultimately show ?thesis by simp
qed

text \<open>
  C36: The read surfaces cannot disagree: for loaded accounts with distinct ids, whatever the pool view
  says, the three legacy bucket counts are exactly the sums of the detail counts (valid accounts are the
  dispatchable and the saturated ones, exhausted the cooling ones, invalid the two invalid kinds), and
  together with the unconfigured accounts they add up to the total number of accounts, each counted once.
\<close>

theorem health_counts_partition:
  assumes "distinct (map acc_id accs)"
    and "sm = sn_summary (compose_health_snapshot view accs now)"
  shows "pc_valid (sm_pool sm) = hd_dispatchable_now (sm_detail sm) + hd_saturated (sm_detail sm)
    \<and> pc_exhausted (sm_pool sm) = hd_cooling_down (sm_detail sm)
    \<and> pc_invalid (sm_pool sm) = hd_invalid_auth (sm_detail sm) + hd_invalid_disabled (sm_detail sm)
    \<and> pc_valid (sm_pool sm) + pc_exhausted (sm_pool sm) + pc_invalid (sm_pool sm)
        + hd_unconfigured (sm_detail sm) = sm_total sm
    \<and> sm_total sm = length accs"
proof -
  let ?hf = "\<lambda>a. compose_health a (account_view view (acc_id a)) now"
  let ?pa = "map (\<lambda>a. (acc_id a, ?hf a)) accs"
  have pa: "foldl (\<lambda>m a. hm_insert (acc_id a) (?hf a) m) [] accs = ?pa"
    using foldl_insert_fresh [OF assms(1), of "[]" ?hf] by simp
  have get: "\<forall>a \<in> set accs. hm_get ?pa (acc_id a) = Some (?hf a)"
    using assms(1) by (auto intro!: map_of_is_SomeI simp: comp_def)
  obtain d b src where t: "foldl (tally_account ?pa (sv_inflight view))
      (empty_detail, empty_breakdown, \<lparr>as_oauth = 0, as_cookie = 0, as_api_key = 0\<rparr>) accs = (d, b, src)"
    by (rule prod_cases3)
  have d: "sm_detail sm = d" and p: "sm_pool sm = foldl count_pool \<lparr>pc_valid = 0, pc_exhausted = 0, pc_invalid = 0\<rparr>
      (map snd ?pa)" and n: "sm_total sm = length accs"
    unfolding assms(2) compose_health_snapshot_def pa Let_def summarize_def by (simp_all add: t)
  have snd: "map snd ?pa = map ?hf accs" by simp
  from tally_sums [OF get t] count_pool_sums [of "\<lparr>pc_valid = 0, pc_exhausted = 0, pc_invalid = 0\<rparr>" "map ?hf accs"]
    state_partition [of "\<lambda>a. h_state (?hf a)" accs]
  show ?thesis
    unfolding d p n snd by (simp add: empty_detail_def filter_map comp_def)
qed

end
