(* ===== verification/Pool_Actor.thy ===== *)
theory Pool_Actor
  imports Pool_Reload Account_Health
begin

text \<open>
  The account pool actor, from \<open>src/src/services/account_pool/actor.rs\<close> and \<open>reporting.rs\<close>: its messages,
  the handler of every message with its reply, the start-up, and the machine they form together with the
  other writers of the database. A turn carries what the outside decides: the clock, the database faults,
  and whether the caller still waits on the reply port; a reply to a caller that has gone is an error of
  the handler, and the actor framework stops an actor whose handler fails.
\<close>

section \<open>Messages and replies\<close>

datatype (plugins only: code size) AccountPoolMessage =
    Return i64 RuntimeStateParams "Reason option" "CredentialFingerprint option" RuntimeMergeMode
  | CheckReset
  | Request "u64 option" "i64 list"
  | GetStatus
  | ReloadFromDb
  | ProbeAccounts "i64 list"
  | BeginProbe i64
  | FlushDirty
  | SetHandle
  | ReleaseSlot i64
  | GetProbingIds
  | ClearProbing i64
  | SetProbeError i64 string
  | ClearProbeError i64
  | GetProbeErrors
  | UpdateCredential i64 "TokenInfo option"
  | UpdateCredentialIfCurrent i64 string "TokenInfo option"
  | GetToken i64
  | Invalidate i64 Reason
  | InvalidateIfCurrent i64 string Reason
  | SnapshotPoolState

datatype (plugins only: code size) pool_reply =
    No_Reply
  | Slot_Reply "ClewdrError + AccountSlot"
  | Status_Reply AccountPoolStatus
  | Ids_Reply "i64 list"
  | Id_Set_Reply "i64 set"
  | Bool_Reply bool
  | Errors_Reply "(i64, string) hash_map"
  | Token_Reply "TokenInfo option"
  | View_Reply PoolSnapshotView

record turn =
  t_now :: i64
  t_instant :: instant
  t_faults :: db_faults
  t_port_open :: bool

section \<open>Reports\<close>

definition report :: "'c AccountPoolState \<Rightarrow> AccountPoolStatus" where
  "report s = \<lparr>st_valid = valid s, st_exhausted = map snd (exhausted s), st_invalid = map snd (invalid s)\<rparr>"

definition snapshot_view :: "'c AccountPoolState \<Rightarrow> PoolSnapshotView" where
  "snapshot_view s =
     \<lparr>sv_valid_ids = set (List.map_filter account_id (valid s)),
      sv_exhausted = map (\<lambda>(i, c). (i, reset_time c)) (exhausted s),
      sv_invalid = map (\<lambda>(i, u). (i, inv_reason u)) (invalid s),
      sv_inflight = inflight s, sv_probing = probing s, sv_reactivated = reactivated s,
      sv_probe_errors = probe_errors s\<rparr>"

section \<open>The handler\<close>

definition release_slot :: "i64 \<Rightarrow> (i64, u32 \<times> u32) hash_map \<Rightarrow> (i64, u32 \<times> u32) hash_map" where
  "release_slot aid infl = hm_modify aid (\<lambda>(cur, mx). (saturating_sub cur 1, mx)) infl"

definition get_token :: "'c AccountPoolState \<Rightarrow> i64 \<Rightarrow> TokenInfo option" where
  "get_token s aid =
     Option.bind (find (\<lambda>c. account_id c = Some aid) (valid s @ map snd (exhausted s))) token"

text \<open>Result of a turn: whether the handler succeeded, what was sent, the new state.\<close>

definition reply :: "turn \<Rightarrow> pool_reply \<Rightarrow> 'c AccountPoolState \<Rightarrow> bool \<times> pool_reply \<times> 'c AccountPoolState" where
  "reply tn r s = (t_port_open tn, r, s)"

definition finish :: "'c AccountPoolState \<Rightarrow> bool \<times> pool_reply \<times> 'c AccountPoolState" where
  "finish s = (True, No_Reply, s)"

fun handle ::
    "'c pool_env \<Rightarrow> turn \<Rightarrow> AccountPoolMessage \<Rightarrow> 'c AccountPoolState
      \<Rightarrow> bool \<times> pool_reply \<times> 'c AccountPoolState" where
  "handle env tn (Return aid update reason fp mode) s =
     (case collect_by_id aid update reason fp mode s of
        (completed_probe, s1) \<Rightarrow>
          finish (if completed_probe then emit_accounts_refresh (do_flush env (t_faults tn) s1) else s1))"
| "handle env tn CheckReset s =
     finish (pool_reset (t_now tn) (snd (refresh_usage_windows (t_now tn) s)))"
| "handle env tn (Request cache_hash bound) s =
     (case dispatch env (t_now tn) cache_hash bound s of (r, s1) \<Rightarrow> reply tn (Slot_Reply r) s1)"
| "handle env tn GetStatus s =
     (let s1 = snd (refresh_usage_windows (t_now tn) s) in reply tn (Status_Reply (report s1)) s1)"
| "handle env tn ReloadFromDb s = finish (do_reload env (t_faults tn) (t_now tn) (t_instant tn) s)"
| "handle env tn (ProbeAccounts ids) s =
     (let s1 = spawn_probe_accounts ids s
      in reply tn (Ids_Reply (filter (\<lambda>i. i \<in> probing s1) ids)) s1)"
| "handle env tn (BeginProbe aid) s =
     (if aid \<in> probing s then reply tn (Bool_Reply False) s
      else reply tn (Bool_Reply True)
             (emit_accounts_refresh
               (s\<lparr>probing := insert aid (probing s), probe_errors := hm_remove aid (probe_errors s)\<rparr>)))"
| "handle env tn FlushDirty s = finish (do_flush env (t_faults tn) s)"
| "handle env tn SetHandle s = finish (spawn_probes_for_unprobed (s\<lparr>has_handle := True\<rparr>))"
| "handle env tn (ReleaseSlot aid) s = finish (s\<lparr>inflight := release_slot aid (inflight s)\<rparr>)"
| "handle env tn GetProbingIds s = reply tn (Id_Set_Reply (probing s)) s"
| "handle env tn (ClearProbing aid) s =
     finish (if aid \<in> probing s then emit_accounts_refresh (s\<lparr>probing := probing s - {aid}\<rparr>) else s)"
| "handle env tn (SetProbeError aid msg) s =
     finish (emit_accounts_refresh (s\<lparr>probe_errors := hm_insert aid msg (probe_errors s)\<rparr>))"
| "handle env tn (ClearProbeError aid) s =
     finish (if hm_contains (probe_errors s) aid
           then emit_accounts_refresh (s\<lparr>probe_errors := hm_remove aid (probe_errors s)\<rparr>) else s)"
| "handle env tn GetProbeErrors s = reply tn (Errors_Reply (probe_errors s)) s"
| "handle env tn (UpdateCredential aid tok) s = finish (update_slot_credential aid tok s)"
| "handle env tn (UpdateCredentialIfCurrent aid expected tok) s =
     (let matched = pool_oauth_refresh_token_matches s aid expected
      in reply tn (Bool_Reply matched) (if matched then update_slot_credential aid tok s else s))"
| "handle env tn (GetToken aid) s = reply tn (Token_Reply (get_token s aid)) s"
| "handle env tn (Invalidate aid reason) s = finish (converge_invalidate env aid reason s)"
| "handle env tn (InvalidateIfCurrent aid expected reason) s =
     (let matched = pool_oauth_refresh_token_matches s aid expected
      in reply tn (Bool_Reply matched) (if matched then converge_invalidate env aid reason s else s))"
| "handle env tn SnapshotPoolState s = reply tn (View_Reply (snapshot_view s)) s"

text \<open>\<open>pre_start\<close>: an empty pool and a first reload.\<close>

definition pre_start :: "'c pool_env \<Rightarrow> turn \<Rightarrow> 'c \<Rightarrow> database \<Rightarrow> 'c AccountPoolState" where
  "pre_start env tn cache db0 =
     do_reload env (t_faults tn) (t_now tn) (t_instant tn)
       \<lparr>valid = [], exhausted = [], invalid = [], moka = cache, pool_db = db0, refresh_events = 0,
        dirty = {}, has_handle = False, inflight = [], probing = {}, reactivated = {},
        probe_errors = [], drain_first_ids = {}, spawned_probes = []\<rparr>"

section \<open>The machine\<close>

text \<open>
  An event is a message processed in a turn, or a change of the tables by another writer (the admin
  interface, a refresh), which keeps the ids unique.
\<close>

datatype pool_event = Msg turn AccountPoolMessage | External database

inductive pool_step :: "'c pool_env \<Rightarrow> 'c AccountPoolState \<Rightarrow> pool_event \<Rightarrow> 'c AccountPoolState \<Rightarrow> bool"
  for env :: "'c pool_env" where
  step_msg: "handle env tn msg s = (ok, r, t) \<Longrightarrow> pool_step env s (Msg tn msg) t"
| step_external: "db_wf db' \<Longrightarrow> pool_step env s (External db') (s\<lparr>pool_db := db'\<rparr>)"

inductive_simps pool_step_msg: "pool_step env s (Msg tn msg) t"
inductive_simps pool_step_external: "pool_step env s (External db') t"

lemma pool_step_handle: "pool_step env s (Msg tn msg) t \<longleftrightarrow> t = snd (snd (handle env tn msg s))"
  by (auto simp: pool_step_msg prod_eq_iff)

section \<open>Every message keeps the invariant\<close>

lemmas turn_result = reply_def finish_def Let_def

lemma pool_inv_trivial [simp]:
  "pool_inv (emit_accounts_refresh s) = pool_inv s"
  "pool_inv (s\<lparr>probe_errors := e\<rparr>) = pool_inv s"
  "pool_inv (s\<lparr>has_handle := h\<rparr>) = pool_inv s"
  "pool_inv (s\<lparr>probing := P, probe_errors := e\<rparr>) = pool_inv s"
  "db_wf db' \<Longrightarrow> pool_inv s \<Longrightarrow> pool_inv (s\<lparr>pool_db := db'\<rparr>)"
  by (simp_all add: pool_inv_def pooled_ids_def)

lemma pool_inv_release: "pool_inv s \<Longrightarrow> pool_inv (s\<lparr>inflight := release_slot aid (inflight s)\<rparr>)"
  by (simp add: pool_inv_def pooled_ids_def release_slot_def)

lemma pool_inv_handle:
  assumes "pool_inv s"
  shows "pool_inv (snd (snd (handle env tn msg s)))"
proof (cases msg)
  case (Return aid update reason fp mode)
  with pool_inv_collect [OF assms, of aid update reason fp mode] show ?thesis
    by (auto simp: turn_result pool_inv_flush split: prod.splits)
next
  case (Request h bound)
  with pool_inv_dispatch [OF assms] show ?thesis
    by (auto simp: turn_result split: prod.splits)
qed (use assms in \<open>simp_all add: turn_result pool_inv_windows pool_inv_reset pool_inv_reload pool_inv_flush
       spawn_probe_accounts_def spawn_probes_for_unprobed_def pool_inv_spawn pool_inv_release
       pool_inv_update_credential pool_inv_converge\<close>)

interpretation pool: invariant_machine "pool_step env" pool_inv for env :: "'c pool_env"
proof
  fix s t :: "'c AccountPoolState" and e
  assume "pool_inv s" "pool_step env s e t"
  then show "pool_inv t"
    by (cases e) (auto simp: pool_step_handle pool_step_external pool_inv_handle)
qed

lemma pool_inv_pre_start: "db_wf db0 \<Longrightarrow> pool_inv (pre_start env tn cache db0)"
  unfolding pre_start_def
  by (rule pool_inv_reload) (simp add: pool_inv_def buckets_ok_def pooled_ids_def)

text \<open>
  C1: The pool is consistent at all times: from start-up, after any sequence of messages in any order,
  with any database faults, any behaviour of the cache and any concurrent change of the tables, no account
  is in two buckets or twice in the queue, every queued account is out of cooldown and every exhausted one
  in cooldown, records are stored under their own ids, every pooled account has a request counter, and
  the set of accounts waiting for a reactivation write is empty, so that a flush never issues one.
\<close>

theorem pool_always_consistent:
  assumes "db_wf db0" and "run (pool_step env) (pre_start env tn cache db0) es t"
  shows "distinct (map account_id (valid t))
    \<and> (\<forall>c \<in> set (valid t). account_id c \<noteq> None \<and> reset_time c = None)
    \<and> (\<forall>i c. hm_get (exhausted t) i = Some c \<longrightarrow> account_id c = Some i \<and> reset_time c \<noteq> None)
    \<and> (\<forall>i u. hm_get (invalid t) i = Some u \<longrightarrow> inv_account_id u = i)
    \<and> valid_ids t \<inter> exhausted_ids t = {} \<and> valid_ids t \<inter> invalid_ids t = {}
    \<and> exhausted_ids t \<inter> invalid_ids t = {}
    \<and> valid_ids t \<union> exhausted_ids t \<union> invalid_ids t \<subseteq> hm_keys (inflight t)
    \<and> reactivated t = {}"
proof -
  have "pool_inv t"
    using pool.run_inv [OF assms(2) pool_inv_pre_start [OF assms(1)]] .
  then show ?thesis
    by (auto simp: pool_inv_def buckets_ok_def valid_ok_def exhausted_ok_def invalid_ok_def pooled_ids_def
        dest: map_of_SomeD)
qed

section \<open>The concurrency limit\<close>

definition within_limits :: "'c AccountPoolState \<Rightarrow> bool" where
  "within_limits s \<longleftrightarrow> (\<forall>i cur mx. hm_get (inflight s) i = Some (cur, mx) \<longrightarrow> cur \<le> mx)"

definition not_reload :: "pool_event \<Rightarrow> bool" where
  "not_reload e = (case e of Msg _ ReloadFromDb \<Rightarrow> False | _ \<Rightarrow> True)"

lemma inflight_converge [simp]: "inflight (converge_invalidate env aid reason s) = inflight s"
  by (simp add: converge_invalidate_def Let_def split: option.splits)

lemma inflight_windows [simp]: "inflight (snd (refresh_usage_windows now s)) = inflight s"
  by (simp add: refresh_usage_windows_def Let_def)

lemma inflight_update_credential [simp]: "inflight (update_slot_credential aid tok s) = inflight s"
  by (simp add: update_slot_credential_def)

lemma reactivated_collect: "pool_inv s \<Longrightarrow> reactivated (snd (collect_by_id aid u r fp mode s)) = {}"
  using pool_inv_collect [of s aid u r fp mode] by (simp add: pool_inv_def)

text \<open>What a message other than a reload does to the counters.\<close>

lemma handle_inflight:
  assumes inv: "pool_inv s" and "msg \<noteq> ReloadFromDb"
  shows "inflight (snd (snd (handle env tn msg s))) =
    (case msg of
       Request h bound \<Rightarrow> inflight (snd (dispatch env (t_now tn) h bound s))
     | ReleaseSlot aid \<Rightarrow> release_slot aid (inflight s)
     | _ \<Rightarrow> inflight s)"
proof (cases msg)
  case (Return aid update reason fp mode)
  obtain p t where c: "collect_by_id aid update reason fp mode s = (p, t)"
    by (cases "collect_by_id aid update reason fp mode s")
  have "inflight t = inflight s" "reactivated t = {}"
    using collect_frame(3) [OF inv c] reactivated_collect [OF inv, of aid update reason fp mode]
    by (simp_all add: c)
  with Return c show ?thesis
    by (simp add: turn_result)
qed (use assms in \<open>simp_all add: turn_result spawn_probe_accounts_def spawn_probes_for_unprobed_def
       pool_inv_def split: prod.splits\<close>)

lemma within_limits_charge:
  assumes "\<forall>i cur mx. hm_get infl i = Some (cur, mx) \<longrightarrow> cur \<le> mx" and "slot_ok i infl"
  shows "\<forall>j cur mx. hm_get (charge i infl) j = Some (cur, mx) \<longrightarrow> cur \<le> mx"
  using assms by (auto simp: charge_def hm_get_modify slot_ok_def inc_le split: option.splits)

lemma within_limits_release:
  assumes "\<forall>i cur mx. hm_get infl i = Some (cur, mx) \<longrightarrow> cur \<le> mx"
  shows "\<forall>j cur mx. hm_get (release_slot i infl) j = Some (cur, mx) \<longrightarrow> cur \<le> mx"
proof -
  have "saturating_sub cur 1 \<le> mx" if "cur \<le> mx" for cur mx :: u32
    using that by (simp add: word_le_nat_alt unat_saturating_sub)
  with assms show ?thesis
    by (auto simp: release_slot_def hm_get_modify split: option.splits)
qed

interpretation limits: stable_machine "pool_step env" pool_inv not_reload within_limits
  for env :: "'c pool_env"
proof
  fix s t :: "'c AccountPoolState" and e
  assume inv: "pool_inv s" and lim: "within_limits s" and al: "not_reload e" and st: "pool_step env s e t"
  show "within_limits t"
  proof (cases e)
    case (External db')
    with st lim show ?thesis by (simp add: pool_step_external within_limits_def)
  next
    case (Msg tn msg)
    with al have nr: "msg \<noteq> ReloadFromDb" by (auto simp: not_reload_def)
    have t: "t = snd (snd (handle env tn msg s))"
      using st by (simp add: Msg pool_step_handle)
    show ?thesis
    proof (cases "\<exists>h bound. msg = Request h bound")
      case True
      then obtain h bound where m: "msg = Request h bound" by blast
      obtain r u where d: "dispatch env (t_now tn) h bound s = (r, u)" by fastforce
      have "within_limits u"
        using inv d
      proof (cases rule: dispatch_cases)
        case (served m key rw pos i)
        then show ?thesis
          using within_limits_charge lim by (simp add: within_limits_def)
      next
        case (refused m)
        then show ?thesis
          using lim by (simp add: within_limits_def)
      qed
      moreover have "inflight t = inflight u"
        using handle_inflight [OF inv nr, of env tn] by (simp add: t m d)
      ultimately show ?thesis by (simp add: within_limits_def)
    next
      case False
      then show ?thesis
        using lim within_limits_release handle_inflight [OF inv nr, of env tn]
        by (simp add: t within_limits_def split: AccountPoolMessage.splits)
    qed
  qed
qed

text \<open>
  C8: The concurrency limit is never exceeded: starting from counters within their limits, after any
  sequence of messages other than a reload (which may lower a limit), interleaved with any change of the
  tables, no account has more requests in flight than its maximum, and no counter has wrapped around.
\<close>

theorem concurrency_limit_respected:
  assumes "pool_inv s" and "within_limits s" and "run (pool_step env) s es t" and "list_all not_reload es"
    and "hm_get (inflight t) i = Some (cur, mx)"
  shows "unat cur \<le> unat mx"
proof -
  have "within_limits t"
    using limits.run_stable [OF assms(3,1,2,4)] by blast
  with assms(5) show ?thesis
    by (simp add: within_limits_def word_le_nat_alt)
qed

section \<open>Invalid accounts stay out\<close>

definition invalid_as :: "i64 \<Rightarrow> InvalidAccountSlot \<Rightarrow> 'c AccountPoolState \<Rightarrow> bool" where
  "invalid_as i u s \<longleftrightarrow> hm_get (invalid s) i = Some u"

lemma invalid_not_pooled:
  assumes "pool_inv s" and "hm_get (invalid s) i = Some u"
  shows "pool_slot s i = None"
proof -
  have "i \<in> invalid_ids s"
    using assms(2) hm_contains_iff [of "invalid s" i] by simp
  with assms(1) show ?thesis
    by (auto simp: pool_slot_None_iff pool_inv_def buckets_ok_def)
qed

lemma invalid_collect:
  assumes "pool_inv s" and "hm_get (invalid s) i = Some u"
  shows "hm_get (invalid (snd (collect_by_id aid upd r fp mode s))) i = Some u"
proof (cases "aid = i")
  case True
  with invalid_not_pooled [OF assms] assms show ?thesis
    by (simp add: collect_eq)
next
  case False
  then show ?thesis
    using collect_frame(2) [OF assms(1) prod.collapse [symmetric], of i aid upd r fp mode] assms(2)
    by simp
qed

lemma invalid_converge:
  assumes "pool_inv s" and "hm_get (invalid s) i = Some u"
  shows "hm_get (invalid (converge_invalidate env aid r s)) i = Some u"
proof (cases "aid = i")
  case True
  have "removed_kind aid s = None"
    using invalid_not_pooled [OF assms] True
    by (auto simp: removed_kind_def pool_slot_def split: option.splits)
  with assms show ?thesis
    by (simp add: converge_invalidate_def)
next
  case False
  with assms show ?thesis
    by (simp add: converge_invalidate_def Let_def hm_get_insert split: option.splits)
qed

lemma invalid_dispatch:
  assumes "pool_inv s" and "dispatch env now h bound s = (r, t)"
  shows "invalid t = invalid s"
  using assms
proof (cases rule: dispatch_cases)
  case (served m key rw pos i)
  then show ?thesis
    using commit_fields(4) [OF _ _ served(1)] by (simp add: pool_reset_eq)
qed (simp add: pool_reset_eq)

lemma handle_invalid:
  assumes inv: "pool_inv s" and "msg \<noteq> ReloadFromDb" and "hm_get (invalid s) i = Some u"
  shows "hm_get (invalid (snd (snd (handle env tn msg s)))) i = Some u"
proof (cases msg)
  case (Return aid update reason fp mode)
  obtain p t where c: "collect_by_id aid update reason fp mode s = (p, t)"
    by (cases "collect_by_id aid update reason fp mode s")
  have "reactivated t = {}" "hm_get (invalid t) i = Some u"
    using reactivated_collect [OF inv, of aid update reason fp mode]
      invalid_collect [OF inv assms(3), of aid update reason fp mode] by (simp_all add: c)
  with Return c show ?thesis
    by (simp add: turn_result)
next
  case (Request h bound)
  with invalid_dispatch [OF inv] assms(3) show ?thesis
    by (auto simp: turn_result split: prod.splits)
qed (use assms invalid_converge [OF inv assms(3)] in \<open>simp_all add: turn_result spawn_probe_accounts_def
       spawn_probes_for_unprobed_def pool_inv_def pool_reset_eq refresh_usage_windows_def
       update_slot_credential_def\<close>)

interpretation invalid_stays: stable_machine "pool_step env" pool_inv not_reload "invalid_as i u"
  for env :: "'c pool_env" and i u
proof
  fix s t :: "'c AccountPoolState" and e
  assume inv: "pool_inv s" and iv: "invalid_as i u s" and al: "not_reload e" and st: "pool_step env s e t"
  show "invalid_as i u t"
  proof (cases e)
    case (External db')
    with st iv show ?thesis by (simp add: pool_step_external invalid_as_def)
  next
    case (Msg tn msg)
    with al have "msg \<noteq> ReloadFromDb" by (auto simp: not_reload_def)
    with handle_invalid [OF inv this] iv st show ?thesis
      by (simp add: Msg pool_step_handle invalid_as_def)
  qed
qed

text \<open>
  C10: An invalidated account stays out of service until a reload: once it is in the invalid bucket, no
  sequence of late returns, credential updates, further invalidations, flushes, resets or table changes
  moves it out or changes its recorded reason, and no request is answered with it, although requests
  for it may still be in flight and the cache may still point at it.
\<close>

theorem invalid_until_reload:
  assumes "pool_inv s" and "hm_get (invalid s) i = Some u"
    and "run (pool_step env) s es t" and "list_all not_reload es"
  shows "hm_get (invalid t) i = Some u
    \<and> (\<forall>tn h bound c. fst (snd (handle env tn (Request h bound) t)) = Slot_Reply (Inr c)
          \<longrightarrow> account_id c \<noteq> Some i)"
proof -
  have inv: "pool_inv t" and iv: "hm_get (invalid t) i = Some u"
    using invalid_stays.run_stable [OF assms(3,1) _ assms(4), of i u] assms(2)
    by (simp_all add: invalid_as_def)
  have "account_id c \<noteq> Some i"
    if "fst (snd (handle env tn (Request h bound) t)) = Slot_Reply (Inr c)" for tn h bound c
  proof -
    obtain r w where rw: "dispatch env (t_now tn) h bound t = (r, w)" by fastforce
    with that have d: "dispatch env (t_now tn) h bound t = (Inr c, w)"
      by (simp add: turn_result)
    show ?thesis
      using inv d
    proof (cases rule: dispatch_cases)
      case (served m key rw pos j)
      have "pool_inv (pool_reset (t_now tn) t)"
        by (rule pool_inv_reset [OF inv])
      then have "valid_ids (pool_reset (t_now tn) t) \<inter> invalid_ids t = {}"
        by (simp add: pool_inv_def buckets_ok_def) (simp add: pool_reset_eq)
      moreover have "i \<in> invalid_ids t"
        using iv hm_contains_iff [of "invalid t" i] by simp
      ultimately show ?thesis
        using served(3,4,8) by auto
    qed simp
  qed
  with iv show ?thesis by blast
qed

section \<open>Compare and swap on the refresh token\<close>

definition pool_token :: "i64 \<Rightarrow> 'c AccountPoolState \<Rightarrow> string option" where
  "pool_token i s = map_option refresh_token (Option.bind (pool_slot s i) token)"

lemma token_matches_iff: "pool_oauth_refresh_token_matches s i t \<longleftrightarrow> pool_token i s = Some t"
  by (auto simp: pool_oauth_refresh_token_matches_def pool_token_def split: option.splits)

text \<open>The two conditional messages as statements guarded by the token in the pool.\<close>

definition exec_bool :: "'c pool_env \<Rightarrow> turn \<Rightarrow> AccountPoolMessage \<Rightarrow> 'c AccountPoolState \<Rightarrow> bool \<times> 'c AccountPoolState" where
  "exec_bool env tn msg s =
     (case handle env tn msg s of (_, r, t) \<Rightarrow> (case r of Bool_Reply b \<Rightarrow> b | _ \<Rightarrow> False, t))"

interpretation pool_rotation: token_guarded "pool_token i" pool_inv
  "\<lambda>t. exec_bool env tn (UpdateCredentialIfCurrent i t tok)"
  for env :: "'c pool_env" and tn i tok
proof
  fix s :: "'c AccountPoolState" and t
  assume inv: "pool_inv s"
  show "pool_token i s = Some t \<Longrightarrow> fst (exec_bool env tn (UpdateCredentialIfCurrent i t tok) s)"
    "pool_token i s \<noteq> Some t \<Longrightarrow> exec_bool env tn (UpdateCredentialIfCurrent i t tok) s = (False, s)"
    by (simp_all add: exec_bool_def turn_result token_matches_iff)
  show "pool_inv (snd (exec_bool env tn (UpdateCredentialIfCurrent i t tok) s))"
    using inv by (simp add: exec_bool_def turn_result pool_inv_update_credential)
qed

interpretation pool_verdict: token_guarded "pool_token i" pool_inv
  "\<lambda>t. exec_bool env tn (InvalidateIfCurrent i t reason)"
  for env :: "'c pool_env" and tn i reason
proof
  fix s :: "'c AccountPoolState" and t
  assume inv: "pool_inv s"
  show "pool_token i s = Some t \<Longrightarrow> fst (exec_bool env tn (InvalidateIfCurrent i t reason) s)"
    "pool_token i s \<noteq> Some t \<Longrightarrow> exec_bool env tn (InvalidateIfCurrent i t reason) s = (False, s)"
    by (simp_all add: exec_bool_def turn_result token_matches_iff)
  show "pool_inv (snd (exec_bool env tn (InvalidateIfCurrent i t reason) s))"
    using inv by (simp add: exec_bool_def turn_result pool_inv_converge)
qed

text \<open>
  C29: In the pool, too, a refresh and a late verdict cannot cross: the conditional credential update
  succeeds exactly when the pooled refresh token is the expected one; after it has installed a token with
  another refresh token, a conditional invalidation that still names the old one answers false and leaves
  the whole pool as it is, and so does a second conditional update; and the updated account is still in
  the bucket it was in.
\<close>

theorem rotated_pool_token_voids_stale_verdict:
  assumes "pool_inv s" and "pool_token i s = Some t" and "refresh_token tok \<noteq> t"
    and "exec_bool env tn (UpdateCredentialIfCurrent i t (Some tok)) s = (applied, s')"
  shows "applied \<and> pool_token i s' = Some (refresh_token tok)
    \<and> exec_bool env tn' (InvalidateIfCurrent i t reason) s' = (False, s')
    \<and> exec_bool env tn' (UpdateCredentialIfCurrent i t tok') s' = (False, s')
    \<and> valid_ids s' = valid_ids s \<and> exhausted_ids s' = exhausted_ids s"
proof -
  have s': "s' = snd (exec_bool env tn (UpdateCredentialIfCurrent i t (Some tok)) s)"
    and ap: "applied = fst (exec_bool env tn (UpdateCredentialIfCurrent i t (Some tok)) s)"
    using assms(4) by simp_all
  have u: "s' = update_slot_credential i (Some tok) s"
    using assms(2) by (simp add: s' exec_bool_def turn_result token_matches_iff)
  have tk: "pool_token i s' = Some (refresh_token tok)"
    using assms(2) by (cases "pool_slot s i") (auto simp: u pool_token_def pool_slot_update_credential)
  then have stale: "pool_token i s' \<noteq> Some t"
    using assms(3) by simp
  have inv: "pool_inv s'"
    unfolding s' by (rule pool_rotation.wf_exec [OF assms(1)])
  have "valid_ids s' = valid_ids s" "exhausted_ids s' = exhausted_ids s"
    by (simp_all add: u update_slot_credential_def)
  then show ?thesis
    using tk ap pool_rotation.hit [OF assms(1,2)] pool_verdict.miss [OF inv stale]
      pool_rotation.miss [OF inv stale] by simp
qed

section \<open>Replies to callers that have gone\<close>

text \<open>
  A caller that goes away while its request is queued: when the caller of a request that can be
  served has dropped its reply port, the handler charges the slot of the chosen account and then fails, for
  the error of the send is propagated; the same turn with a waiting caller succeeds with the same state.
\<close>

theorem lost_caller_fails_handler:
  assumes "pool_inv s" and "dispatch env (t_now tn) h bound s = (Inr c, t)" and "\<not> t_port_open tn"
  shows "handle env tn (Request h bound) s = (False, Slot_Reply (Inr c), t)
    \<and> (\<exists>i. account_id c = Some i \<and> inflight t = charge i (inflight s))
    \<and> handle env (tn\<lparr>t_port_open := True\<rparr>) (Request h bound) s = (True, Slot_Reply (Inr c), t)"
  using assms(1,2)
proof (cases rule: dispatch_cases)
  case (served m key rw pos i)
  with assms(2,3) show ?thesis
    by (auto simp: turn_result)
qed simp

section \<open>Health and dispatch\<close>

lemma valid_ids_reset_iff:
  assumes "pool_inv s"
  shows "i \<in> valid_ids (pool_reset now s)
    \<longleftrightarrow> i \<in> valid_ids s \<or> (\<exists>c. hm_get (exhausted s) i = Some c \<and> lapsed now c)"
proof -
  have ex: "exhausted_ok (exhausted s)"
    using assms by (simp add: pool_inv_def buckets_ok_def)
  then have wf: "hm_wf (exhausted s)"
    by (simp add: exhausted_ok_def)
  have "ids_of (woken now s) = hm_keys (filter (\<lambda>(k, c). lapsed now c) (exhausted s))"
    unfolding woken_def by (rule woken_ids [OF ex])
  then show ?thesis
    by (force simp: pool_reset_eq hm_get_mem [OF wf])
qed

lemma snapshot_bucket:
  "bucket_of_view (snapshot_view s) i =
     (if i \<in> valid_ids s then Some In_Valid
      else (case hm_get (exhausted s) i of
              Some c \<Rightarrow> Some (In_Exhausted (reset_time c))
            | None \<Rightarrow> map_option (\<lambda>u. In_Invalid (inv_reason u)) (hm_get (invalid s) i)))"
proof -
  have m: "hm_get (map (\<lambda>(i, c). (i, f c)) m) i = map_option f (hm_get m i)"
    for m :: "(i64, 'x) hash_map" and f :: "'x \<Rightarrow> 'y"
    by (induction m) auto
  show ?thesis
    by (simp add: bucket_of_view_def snapshot_view_def set_map_filter_ids m option.map_comp comp_def
        split: option.splits)
qed

text \<open>
  What the health view calls dispatchable is what the dispatcher can serve: for an account in service
  whose row has no terminal status and whose limit is positive, if it is reported active and not
  saturated then a request bound to it is served now; conversely, if it can be served and its row has no
  running cooldown, it is reported active and not saturated.
\<close>

theorem health_matches_dispatch:
  assumes "pool_inv s" and "acc_id row = i" and "compose_terminal_from_db row = None"
    and "i \<in> valid_ids s \<union> exhausted_ids s" and "hm_get (inflight s) i = Some (cur, mx)" and "mx \<noteq> 0"
    and "h = compose_health row (account_view (snapshot_view s) i) now"
  shows "(h_state h = Active \<and> \<not> inflight_saturated (hm_get (inflight s) i)
        \<longrightarrow> (\<exists>c t. dispatch env now None [i] s = (Inr c, t) \<and> account_id c = Some i))
    \<and> (active_reset_time now row = None
        \<longrightarrow> (\<exists>c t. dispatch env now None [i] s = (Inr c, t))
        \<longrightarrow> h_state h = Active \<and> \<not> inflight_saturated (hm_get (inflight s) i))"
proof -
  obtain r t where d: "dispatch env now None [i] s = (r, t)" by fastforce
  have b: "bound_ok [i] j \<longleftrightarrow> j = i" for j
    by (simp add: bound_ok_def)
  have served: "(\<exists>c. r = Inr c) \<longleftrightarrow> i \<in> valid_ids (pool_reset now s) \<and> slot_ok i (inflight s)"
    using dispatch_ok_iff [OF assms(1) d] by (auto simp: b)
  have who: "account_id c = Some i" if "r = Inr c" for c
    using assms(1) d
  proof (cases rule: dispatch_cases)
    case (served m key rw pos j)
    with that show ?thesis by (simp add: b)
  qed (simp add: that)
  have sat: "slot_ok i (inflight s) \<longleftrightarrow> \<not> inflight_saturated (hm_get (inflight s) i)"
    using assms(5,6) by (auto simp: slot_ok_def inflight_saturated_def not_le word_neq_0_conv)
  have react: "reactivated s = {}"
    using assms(1) by (simp add: pool_inv_def)
  have st: "h_state h = (if i \<in> valid_ids s then Active
      else compose_from_pool_or_db row (Some (In_Exhausted (Option.bind (hm_get (exhausted s) i) reset_time))) now)"
    using assms(3,4) hm_contains_iff [of "exhausted s" i]
    by (auto simp: assms(7) compose_health_def account_view_def snapshot_bucket compose_from_pool_or_db_def
        Let_def split: option.splits)
  have act: "h_state h = Active \<longrightarrow> i \<in> valid_ids (pool_reset now s)"
    "active_reset_time now row = None \<longrightarrow> i \<in> valid_ids (pool_reset now s) \<longrightarrow> h_state h = Active"
    using assms(4) hm_contains_iff [of "exhausted s" i]
    by (auto simp: st valid_ids_reset_iff [OF assms(1)] lapsed_iff compose_from_pool_or_db_def Let_def
        split: option.splits if_splits)
  show ?thesis
    using act served sat who by (auto simp: d)
qed

text \<open>
  C38: A limit that is a multiple of \<open>2 ^ 32\<close> takes an account out of service unnoticed: the admin interface
  and the table accept any positive limit, but the reload truncates it to 32 bits, so the account ends up
  with limit 0; no request is ever answered with it, while the health view does not count it as
  saturated.
\<close>

theorem truncated_limit_never_served:
  assumes "pool_inv s" and "\<not> f_load fl"
    and "row \<in> set (load_all_accounts (env_db env) nowi (pool_db (do_flush env fl s)))"
    and "row_has_credential row" and "acc_max_slots row = 2 ^ 32 * k"
    and "do_reload env fl now nowi s = t"
  shows "\<not> inflight_saturated (hm_get (inflight t) (acc_id row))
    \<and> (\<forall>tn h bound c. fst (snd (handle env tn (Request h bound) t)) = Slot_Reply (Inr c)
          \<longrightarrow> account_id c \<noteq> Some (acc_id row))"
proof -
  have "(word_of_int (2 ^ 32 * k) :: u32) = 0"
    unfolding word_of_int_eq_0_iff by simp
  then obtain cur where infl: "hm_get (inflight t) (acc_id row) = Some (cur, 0)"
    using do_reload_spec(3) [OF assms(1,2) refl assms(6,3,4)] assms(5) by (auto split: option.splits)
  then have no: "\<not> slot_ok (acc_id row) (inflight t)"
    by (simp add: slot_ok_def)
  have inv: "pool_inv t"
    unfolding assms(6) [symmetric] by (rule pool_inv_reload [OF assms(1)])
  have "account_id c \<noteq> Some (acc_id row)"
    if r: "fst (snd (handle env tn (Request h bound) t)) = Slot_Reply (Inr c)" for tn h bound c
  proof -
    obtain w where d: "dispatch env (t_now tn) h bound t = (Inr c, w)"
      using r by (cases "dispatch env (t_now tn) h bound t") (simp add: turn_result)
    show ?thesis
      using inv d
    proof (cases rule: dispatch_cases)
      case (served m key rw pos j)
      with no show ?thesis by auto
    qed simp
  qed
  with infl show ?thesis
    by (auto simp: inflight_saturated_def)
qed

subsection \<open>Witnesses\<close>

definition sample_turn :: turn where
  "sample_turn = \<lparr>t_now = 100, t_instant = 0, t_faults = no_faults, t_port_open = True\<rparr>"

lemma sample_db_wf: "db_wf sample_db"
  by (simp add: db_wf_def sample_db_def sample_row_def)

lemma sample_step: "pool_step env s (Msg tn msg) (snd (snd (handle env tn msg s)))"
  by (simp add: pool_step_handle)

theorem pool_always_consistent_witness:
  "distinct (map account_id (valid (snd (snd (handle list_env sample_turn (Request None [])
     (pre_start list_env sample_turn [] sample_db))))))"
  using pool_always_consistent [OF sample_db_wf, of list_env sample_turn "[]"
      "[Msg sample_turn (Request None [])]"]
  by (simp add: run_Cons_iff pool_step_handle)

lemma sample_within: "within_limits sample_pool"
  by (auto simp: within_limits_def sample_pool_def split: if_splits)

theorem concurrency_limit_respected_witness:
  "\<exists>cur mx. hm_get (inflight (snd (snd (handle list_env sample_turn (Request None [1]) sample_pool)))) 1
     = Some (cur, mx) \<and> unat cur \<le> unat mx"
proof -
  let ?t = "snd (snd (handle list_env sample_turn (Request None [1]) sample_pool))"
  have "hm_get (inflight ?t) 1 = Some (1, 1)"
    by code_simp
  with concurrency_limit_respected [OF sample_pool_inv sample_within,
      of list_env "[Msg sample_turn (Request None [1])]" ?t 1 1 1]
  show ?thesis
    by (auto simp: run_Cons_iff pool_step_handle not_reload_def)
qed

theorem invalid_until_reload_witness:
  "hm_get (invalid (snd (snd (handle list_env sample_turn (Return 4 sample_params None None Full) sample_pool)))) 4
     = Some \<lparr>inv_account_id = 4, inv_auth_method = OAuth, inv_reason = Banned\<rparr>"
proof -
  have "hm_get (invalid sample_pool) 4 = Some \<lparr>inv_account_id = 4, inv_auth_method = OAuth, inv_reason = Banned\<rparr>"
    by (simp add: sample_pool_def)
  from invalid_until_reload [OF sample_pool_inv this,
      of list_env "[Msg sample_turn (Return 4 sample_params None None Full)]"]
  show ?thesis
    by (simp add: run_Cons_iff pool_step_handle not_reload_def)
qed

theorem rotated_pool_token_voids_stale_verdict_witness:
  "pool_token 1 sample_pool = Some ''rt''
   \<and> (let s' = snd (exec_bool list_env sample_turn
                (UpdateCredentialIfCurrent 1 ''rt'' (Some (sample_token ''rt2''))) sample_pool)
      in pool_token 1 s' = Some ''rt2''
         \<and> exec_bool list_env sample_turn (InvalidateIfCurrent 1 ''rt'' Banned) s' = (False, s'))"
proof
  show tok: "pool_token 1 sample_pool = Some ''rt''"
    by (simp add: pool_token_def pool_slot_def sample_pool_def sample_slot_def slot_oauth_def
        sample_token_def token_from_parts_def)
  have rt: "refresh_token (sample_token ''rt2'') = ''rt2''"
    by (simp add: sample_token_def token_from_parts_def)
  show "let s' = snd (exec_bool list_env sample_turn
                (UpdateCredentialIfCurrent 1 ''rt'' (Some (sample_token ''rt2''))) sample_pool)
      in pool_token 1 s' = Some ''rt2''
         \<and> exec_bool list_env sample_turn (InvalidateIfCurrent 1 ''rt'' Banned) s' = (False, s')"
    using rotated_pool_token_voids_stale_verdict [OF sample_pool_inv tok _ prod.collapse [symmetric],
        of "sample_token ''rt2''" list_env sample_turn sample_turn Banned None]
    by (simp add: rt Let_def)
qed

theorem lost_caller_fails_handler_witness:
  "fst (handle list_env (sample_turn\<lparr>t_port_open := False\<rparr>) (Request None [1]) sample_pool) = False
   \<and> hm_get (inflight (snd (snd (handle list_env (sample_turn\<lparr>t_port_open := False\<rparr>) (Request None [1])
        sample_pool)))) 1 = Some (1, 1)"
proof -
  let ?tn = "sample_turn\<lparr>t_port_open := False\<rparr>"
  let ?d = "dispatch list_env (t_now ?tn) None [1] sample_pool"
  have "isl (fst ?d) = False" and i: "hm_get (inflight (snd ?d)) 1 = Some (1, 1)"
    by code_simp+
  then obtain c where "?d = (Inr c, snd ?d)"
    by (cases "fst ?d") (simp_all add: prod_eq_iff)
  from lost_caller_fails_handler [OF sample_pool_inv this] i show ?thesis
    by simp
qed

theorem health_matches_dispatch_witness:
  "h_state (compose_health (load_account sample_ext 0 sample_db (sample_row 1))
       (account_view (snapshot_view sample_pool) 1) 100) = Active
   \<and> (\<exists>c t. dispatch list_env 100 None [1] sample_pool = (Inr c, t) \<and> account_id c = Some 1)"
proof
  let ?row = "load_account sample_ext 0 sample_db (sample_row 1)"
  show a: "h_state (compose_health ?row (account_view (snapshot_view sample_pool) 1) 100) = Active"
    by code_simp
  have t: "compose_terminal_from_db ?row = None"
    by (simp add: compose_terminal_from_db_def load_account_def sample_row_def)
  have i: "1 \<in> valid_ids sample_pool \<union> exhausted_ids sample_pool" "hm_get (inflight sample_pool) 1 = Some (0, 1)"
    by (auto simp: sample_pool_def sample_slot_def slot_oauth_def ids_of_def)
  show "\<exists>c t. dispatch list_env 100 None [1] sample_pool = (Inr c, t) \<and> account_id c = Some 1"
    using health_matches_dispatch [OF sample_pool_inv sample_row_loaded(1) t i _ refl, of 100 list_env] a i(2)
    by (simp add: inflight_saturated_def)
qed

theorem health_counts_partition_witness:
  "sm_total (sn_summary (compose_health_snapshot (snapshot_view sample_pool)
     (load_all_accounts sample_ext 0 sample_db) 100)) = 2"
  using health_counts_partition [OF distinct_loaded_ids [OF sample_db_wf, of sample_ext 0] refl,
      of "snapshot_view sample_pool" 100]
  by (simp add: load_all_accounts_def sample_db_def)

definition wide_db :: database where
  "wide_db = sample_db\<lparr>accounts := [(sample_row 1)\<lparr>a_max_slots := 2 ^ 32\<rparr>]\<rparr>"

theorem truncated_limit_never_served_witness:
  "\<not> inflight_saturated (hm_get (inflight (do_reload list_env no_faults 100 0 (sample_pool\<lparr>pool_db := wide_db\<rparr>))) 1)
   \<and> fst (snd (handle list_env sample_turn (Request None [])
         (do_reload list_env no_faults 100 0 (sample_pool\<lparr>pool_db := wide_db\<rparr>)))) \<noteq> Slot_Reply (Inr (sample_slot 1))"
proof -
  let ?s = "sample_pool\<lparr>pool_db := wide_db\<rparr>"
  let ?row = "load_account sample_ext 0 wide_db ((sample_row 1)\<lparr>a_max_slots := 2 ^ 32\<rparr>)"
  have inv: "pool_inv ?s"
    by (rule pool_inv_trivial(5) [OF _ sample_pool_inv])
      (simp add: db_wf_def wide_db_def sample_db_def sample_row_def)
  have fl: "do_flush list_env no_faults ?s = ?s" "\<not> f_load no_faults"
    by (simp_all add: do_flush_def sample_pool_def no_faults_def)
  have row: "?row \<in> set (load_all_accounts (env_db list_env) 0 (pool_db (do_flush list_env no_faults ?s)))"
    unfolding fl by (simp add: load_all_accounts_def wide_db_def list_env_def)
  have "parse_i64 ''900'' = Some 900"
    by code_simp
  then have cred: "row_has_credential ?row"
    by (simp add: row_has_credential_def load_account_def load_token_def sample_row_def sample_ext_def)
  have mx: "acc_max_slots ?row = 2 ^ 32 * 1" "acc_id ?row = 1"
    by (simp_all add: load_account_def sample_row_def)
  have id1: "account_id (sample_slot 1) = Some 1"
    by (simp add: sample_slot_def slot_oauth_def default_slot_def)
  from truncated_limit_never_served [OF inv fl(2) row cred mx(1) refl, of 100] show ?thesis
    unfolding mx(2) using id1 by blast
qed

end
