(* ===== verification/User_Limiter.thy ===== *)
theory User_Limiter
  imports Clewdr_Error
begin

text \<open>
  The per-user limiter (\<open>src/src/services/user_limiter.rs\<close>): a semaphore bounds the requests of
  a user that are in flight, and a queue of instants bounds the requests admitted per minute.

  A limiter is shared by reference (\<open>Arc\<close>): a request keeps using the limiter it looked up even
  when the map has replaced it since. The state is therefore a store of limiters, whose index is
  the reference, beside the map from users to references. A permit is the reference of the
  limiter it was taken from. Instants are nanoseconds of the monotonic clock.

  The semaphore is tokio's: its operations are an argument of the definitions, and
  \<open>semaphore_ok\<close> states what its documentation promises.
\<close>

section \<open>The semaphore\<close>

record 'sem semaphore_ops =
  sem_new :: "nat \<Rightarrow> 'sem"
  sem_try_acquire :: "'sem \<Rightarrow> 'sem option"
  sem_add_permit :: "'sem \<Rightarrow> 'sem"

definition semaphore_ok :: "'sem semaphore_ops \<Rightarrow> ('sem \<Rightarrow> nat) \<Rightarrow> bool" where
  "semaphore_ok ops avail \<longleftrightarrow>
     (\<forall>n. avail (sem_new ops n) = n)
     \<and> (\<forall>s. sem_try_acquire ops s = None \<longleftrightarrow> avail s = 0)
     \<and> (\<forall>s t. sem_try_acquire ops s = Some t \<longrightarrow> Suc (avail t) = avail s)
     \<and> (\<forall>s. avail (sem_add_permit ops s) = Suc (avail s))"

lemma semaphore_okD:
  assumes "semaphore_ok ops avail"
  shows "avail (sem_new ops n) = n"
    and "sem_try_acquire ops s = None \<longleftrightarrow> avail s = 0"
    and "sem_try_acquire ops s = Some t \<Longrightarrow> Suc (avail t) = avail s"
    and "avail (sem_add_permit ops s) = Suc (avail s)"
  using assms by (auto simp: semaphore_ok_def)

section \<open>State\<close>

record 'sem UserLimiter =
  concurrency :: 'sem
  rpm :: "nat list"
  max_concurrent :: u32
  rpm_limit :: u32

record 'sem UserLimiterMap =
  limiters :: "'sem UserLimiter list"
  limiter_of :: "(i64, nat) hash_map"

definition limiter_map_new :: "'sem UserLimiterMap" where
  "limiter_map_new = \<lparr>limiters = [], limiter_of = []\<rparr>"

definition set_limiter :: "nat \<Rightarrow> 'sem UserLimiter \<Rightarrow> 'sem UserLimiterMap \<Rightarrow> 'sem UserLimiterMap" where
  "set_limiter a l m = m\<lparr>limiters := (limiters m)[a := l]\<rparr>"

section \<open>Operations\<close>

definition limiter_remove :: "i64 \<Rightarrow> 'sem UserLimiterMap \<Rightarrow> 'sem UserLimiterMap" where
  "limiter_remove user_id m = m\<lparr>limiter_of := hm_remove user_id (limiter_of m)\<rparr>"

text \<open>\<open>max_concurrent.max(1) as u32\<close>.\<close>

definition at_least_one :: "int \<Rightarrow> u32" where
  "at_least_one n = word_of_int (max n 1)"

text \<open>
  \<open>get_or_create\<close>: the read-locked fast path, then the write-locked path that looks again before it
  creates or replaces. Both are critical sections; the fast path returns what the second look
  would return in the same state.
\<close>

definition lookup_limiter :: "i64 \<Rightarrow> u32 \<Rightarrow> u32 \<Rightarrow> 'sem UserLimiterMap \<Rightarrow> nat option" where
  "lookup_limiter user_id mc rl m =
     (case hm_get (limiter_of m) user_id of
        None \<Rightarrow> None
      | Some a \<Rightarrow> if max_concurrent (limiters m ! a) = mc \<and> rpm_limit (limiters m ! a) = rl
                  then Some a else None)"

definition create_limiter ::
  "'sem semaphore_ops \<Rightarrow> i64 \<Rightarrow> u32 \<Rightarrow> u32 \<Rightarrow> 'sem UserLimiterMap \<Rightarrow> nat \<times> 'sem UserLimiterMap" where
  "create_limiter ops user_id mc rl m =
     (let a = length (limiters m);
          l = \<lparr>concurrency = sem_new ops (unat mc), rpm = [], max_concurrent = mc, rpm_limit = rl\<rparr>
      in (a, m\<lparr>limiters := limiters m @ [l], limiter_of := hm_insert user_id a (limiter_of m)\<rparr>))"

definition get_or_create ::
  "'sem semaphore_ops \<Rightarrow> i64 \<Rightarrow> u32 \<Rightarrow> u32 \<Rightarrow> 'sem UserLimiterMap \<Rightarrow> nat \<times> 'sem UserLimiterMap" where
  "get_or_create ops user_id mc rl m =
     (case lookup_limiter user_id mc rl m of
        Some a \<Rightarrow> (a, m)
      | None \<Rightarrow> create_limiter ops user_id mc rl m)"

text \<open>\<open>now.duration_since(*t).as_secs() >= 60\<close>, and the loop that pops the front while it holds.\<close>

definition rpm_stale :: "nat \<Rightarrow> nat \<Rightarrow> bool" where
  "rpm_stale now t \<longleftrightarrow> 60 \<le> (now - t) div 1000000000"

fun prune_rpm :: "nat \<Rightarrow> nat list \<Rightarrow> nat list" where
  "prune_rpm now [] = []"
| "prune_rpm now (t # ts) = (if rpm_stale now t then prune_rpm now ts else t # ts)"

definition check_rpm_limit ::
  "nat \<Rightarrow> nat \<Rightarrow> u32 \<Rightarrow> 'sem UserLimiterMap \<Rightarrow> (ClewdrError + unit) \<times> 'sem UserLimiterMap" where
  "check_rpm_limit now a rl m =
     (let l = limiters m ! a; q = prune_rpm now (rpm l)
      in if unat rl \<le> length q then (Inl RpmExceeded, set_limiter a (l\<lparr>rpm := q\<rparr>) m)
         else (Inr (), set_limiter a (l\<lparr>rpm := q @ [now]\<rparr>) m))"

definition try_acquire_owned ::
  "'sem semaphore_ops \<Rightarrow> nat \<Rightarrow> 'sem UserLimiterMap \<Rightarrow> 'sem UserLimiterMap option" where
  "try_acquire_owned ops a m =
     (case sem_try_acquire ops (concurrency (limiters m ! a)) of
        None \<Rightarrow> None
      | Some s \<Rightarrow> Some (set_limiter a ((limiters m ! a)\<lparr>concurrency := s\<rparr>) m))"

definition drop_permit :: "'sem semaphore_ops \<Rightarrow> nat \<Rightarrow> 'sem UserLimiterMap \<Rightarrow> 'sem UserLimiterMap" where
  "drop_permit ops a m =
     (let l = limiters m ! a
      in set_limiter a (l\<lparr>concurrency := sem_add_permit ops (concurrency l)\<rparr>) m)"

definition acquire ::
  "'sem semaphore_ops \<Rightarrow> nat \<Rightarrow> i64 \<Rightarrow> int \<Rightarrow> int \<Rightarrow> 'sem UserLimiterMap
     \<Rightarrow> (ClewdrError + nat) \<times> 'sem UserLimiterMap" where
  "acquire ops now user_id mc rl m =
     (let mc' = at_least_one mc; rl' = at_least_one rl;
          (a, m1) = get_or_create ops user_id mc' rl' m
      in case try_acquire_owned ops a m1 of
           None \<Rightarrow> (Inl UserConcurrencyExceeded, m1)
         | Some m2 \<Rightarrow>
             (case check_rpm_limit now a rl' m2 of
                (Inl e, m3) \<Rightarrow> (Inl e, drop_permit ops a m3)
              | (Inr _, m3) \<Rightarrow> (Inr a, m3)))"

definition check_rpm ::
  "'sem semaphore_ops \<Rightarrow> nat \<Rightarrow> i64 \<Rightarrow> int \<Rightarrow> int \<Rightarrow> 'sem UserLimiterMap
     \<Rightarrow> (ClewdrError + unit) \<times> 'sem UserLimiterMap" where
  "check_rpm ops now user_id mc rl m =
     (let mc' = at_least_one mc; rl' = at_least_one rl;
          (a, m1) = get_or_create ops user_id mc' rl' m
      in check_rpm_limit now a rl' m1)"

section \<open>The limiter as a machine\<close>

text \<open>
  Requests of many tasks interleave at the granularity of the critical sections: the look-up, the
  semaphore, the queue under its mutex, and the drop of a permit. The history records the permits
  that are outstanding, the instants at which each limiter admitted a request, and the clock,
  which is monotonic because the instant is read under the mutex.
\<close>

datatype limiter_event =
    Get_Limiter i64 u32 u32
  | Try_Permit nat
  | Check_Rpm nat nat
  | Drop_Permit nat
  | Remove_User i64

record 'sem limiter_run =
  lmap :: "'sem UserLimiterMap"
  permits :: "nat list"
  admitted :: "nat \<Rightarrow> nat list"
  lclock :: nat

definition limiter_init :: "'sem limiter_run" where
  "limiter_init = \<lparr>lmap = limiter_map_new, permits = [], admitted = (\<lambda>_. []), lclock = 0\<rparr>"

inductive limiter_step ::
  "'sem semaphore_ops \<Rightarrow> 'sem limiter_run \<Rightarrow> limiter_event \<Rightarrow> 'sem limiter_run \<Rightarrow> bool"
  for ops :: "'sem semaphore_ops" where
  step_get: "get_or_create ops u mc rl (lmap s) = (a, m) \<Longrightarrow>
     limiter_step ops s (Get_Limiter u mc rl) (s\<lparr>lmap := m\<rparr>)"
| step_permit: "a < length (limiters (lmap s)) \<Longrightarrow> try_acquire_owned ops a (lmap s) = Some m \<Longrightarrow>
     limiter_step ops s (Try_Permit a) (s\<lparr>lmap := m, permits := a # permits s\<rparr>)"
| step_busy: "a < length (limiters (lmap s)) \<Longrightarrow> try_acquire_owned ops a (lmap s) = None \<Longrightarrow>
     limiter_step ops s (Try_Permit a) s"
| step_admit: "a < length (limiters (lmap s)) \<Longrightarrow> lclock s \<le> now \<Longrightarrow>
     check_rpm_limit now a (rpm_limit (limiters (lmap s) ! a)) (lmap s) = (Inr (), m) \<Longrightarrow>
     limiter_step ops s (Check_Rpm a now)
       (s\<lparr>lmap := m, admitted := (admitted s)(a := admitted s a @ [now]), lclock := now\<rparr>)"
| step_refuse: "a < length (limiters (lmap s)) \<Longrightarrow> lclock s \<le> now \<Longrightarrow>
     check_rpm_limit now a (rpm_limit (limiters (lmap s) ! a)) (lmap s) = (Inl e, m) \<Longrightarrow>
     limiter_step ops s (Check_Rpm a now) (s\<lparr>lmap := m, lclock := now\<rparr>)"
| step_drop: "a \<in> set (permits s) \<Longrightarrow>
     limiter_step ops s (Drop_Permit a)
       (s\<lparr>lmap := drop_permit ops a (lmap s), permits := remove1 a (permits s)\<rparr>)"
| step_remove: "limiter_step ops s (Remove_User u) (s\<lparr>lmap := limiter_remove u (lmap s)\<rparr>)"

inductive_cases limiter_stepE: "limiter_step ops s e t"

section \<open>Lemmas on the operations\<close>

lemma limiters_set_limiter [simp]: "limiters (set_limiter a l m) = (limiters m)[a := l]"
  by (simp add: set_limiter_def)

lemma limiter_of_set_limiter [simp]: "limiter_of (set_limiter a l m) = limiter_of m"
  by (simp add: set_limiter_def)

lemma rpm_stale_iff: "rpm_stale now t \<longleftrightarrow> t + 60000000000 \<le> now"
proof -
  have "60 \<le> (now - t) div 1000000000 \<longleftrightarrow> 60 * 1000000000 \<le> now - t"
    by (rule less_eq_div_iff_mult_less_eq) simp
  then show ?thesis
    by (auto simp: rpm_stale_def)
qed

lemma prune_rpm_split:
  obtains old where "q = old @ prune_rpm now q" "\<forall>t \<in> set old. rpm_stale now t"
proof -
  have "\<exists>old. q = old @ prune_rpm now q \<and> (\<forall>t \<in> set old. rpm_stale now t)"
  proof (induction q)
    case (Cons t ts)
    then obtain old where *: "ts = old @ prune_rpm now ts" "\<forall>t \<in> set old. rpm_stale now t" by blast
    show ?case
    proof (cases "rpm_stale now t")
      case True
      with * have "t # ts = (t # old) @ prune_rpm now (t # ts)" "\<forall>x \<in> set (t # old). rpm_stale now x"
        by auto
      then show ?thesis by blast
    qed simp
  qed simp
  with that show thesis by blast
qed

lemma prune_rpm_fresh:
  assumes "sorted q" and "t \<in> set (prune_rpm now q)"
  shows "\<not> rpm_stale now t"
  using assms by (induction q) (auto simp: rpm_stale_iff split: if_splits)

lemma get_or_create_spec:
  assumes "get_or_create ops u mc rl m = (a, m')"
    and "\<And>u b. hm_get (limiter_of m) u = Some b \<Longrightarrow> b < length (limiters m)"
  shows "a < length (limiters m')"
    and "max_concurrent (limiters m' ! a) = mc" and "rpm_limit (limiters m' ! a) = rl"
    and "hm_get (limiter_of m') u = Some a"
    and "m' = m \<or>
      m' = m\<lparr>limiters := limiters m @
               [\<lparr>concurrency = sem_new ops (unat mc), rpm = [], max_concurrent = mc, rpm_limit = rl\<rparr>],
             limiter_of := hm_insert u (length (limiters m)) (limiter_of m)\<rparr>"
  using assms(1) assms(2) [of u]
  by (auto simp: get_or_create_def lookup_limiter_def create_limiter_def hm_get_insert Let_def
      split: option.splits if_splits)

section \<open>The invariant\<close>

text \<open>
  \<open>spaced r\<close>: any \<open>r + 1\<close> consecutive admissions span at least sixty seconds. The queue holds the
  admissions that are not known to be older than a minute.
\<close>

definition spaced :: "nat \<Rightarrow> nat list \<Rightarrow> bool" where
  "spaced r ts \<longleftrightarrow> (\<forall>i. i + r < length ts \<longrightarrow> ts ! i + 60000000000 \<le> ts ! (i + r))"

definition rpm_ok :: "nat \<Rightarrow> nat \<Rightarrow> nat list \<Rightarrow> nat list \<Rightarrow> bool" where
  "rpm_ok r clock adm q \<longleftrightarrow>
     (\<exists>old. adm = old @ q \<and> (\<forall>t \<in> set old. rpm_stale clock t))
     \<and> sorted adm \<and> (\<forall>t \<in> set adm. t \<le> clock) \<and> spaced r adm"

definition limiter_inv :: "('sem \<Rightarrow> nat) \<Rightarrow> 'sem limiter_run \<Rightarrow> bool" where
  "limiter_inv avail s \<longleftrightarrow>
     (\<forall>u a. hm_get (limiter_of (lmap s)) u = Some a \<longrightarrow> a < length (limiters (lmap s)))
     \<and> (\<forall>a. a \<in> set (permits s) \<or> admitted s a \<noteq> [] \<longrightarrow> a < length (limiters (lmap s)))
     \<and> (\<forall>a < length (limiters (lmap s)).
          count_list (permits s) a + avail (concurrency (limiters (lmap s) ! a))
            = unat (max_concurrent (limiters (lmap s) ! a))
        \<and> rpm_ok (unat (rpm_limit (limiters (lmap s) ! a))) (lclock s) (admitted s a)
            (rpm (limiters (lmap s) ! a)))"

lemma limiter_invI:
  assumes "\<And>u a. hm_get (limiter_of (lmap s)) u = Some a \<Longrightarrow> a < length (limiters (lmap s))"
    and "\<And>a. a \<in> set (permits s) \<or> admitted s a \<noteq> [] \<Longrightarrow> a < length (limiters (lmap s))"
    and "\<And>a. a < length (limiters (lmap s)) \<Longrightarrow>
      count_list (permits s) a + avail (concurrency (limiters (lmap s) ! a))
        = unat (max_concurrent (limiters (lmap s) ! a))"
    and "\<And>a. a < length (limiters (lmap s)) \<Longrightarrow>
      rpm_ok (unat (rpm_limit (limiters (lmap s) ! a))) (lclock s) (admitted s a)
        (rpm (limiters (lmap s) ! a))"
  shows "limiter_inv avail s"
  using assms unfolding limiter_inv_def by blast

lemma limiter_invD:
  assumes "limiter_inv avail s"
  shows "hm_get (limiter_of (lmap s)) u = Some a \<Longrightarrow> a < length (limiters (lmap s))"
    and "a \<in> set (permits s) \<or> admitted s a \<noteq> [] \<Longrightarrow> a < length (limiters (lmap s))"
    and "a < length (limiters (lmap s)) \<Longrightarrow>
      count_list (permits s) a + avail (concurrency (limiters (lmap s) ! a))
        = unat (max_concurrent (limiters (lmap s) ! a))"
    and "a < length (limiters (lmap s)) \<Longrightarrow>
      rpm_ok (unat (rpm_limit (limiters (lmap s) ! a))) (lclock s) (admitted s a)
        (rpm (limiters (lmap s) ! a))"
  using assms unfolding limiter_inv_def by blast+

lemma rpm_stale_mono: "rpm_stale c t \<Longrightarrow> c \<le> now \<Longrightarrow> rpm_stale now t"
  by (simp add: rpm_stale_iff)

lemma rpm_ok_later: "rpm_ok r c adm q \<Longrightarrow> c \<le> now \<Longrightarrow> rpm_ok r now adm q"
  unfolding rpm_ok_def by (blast intro: order_trans rpm_stale_mono)

lemma rpm_ok_prune:
  assumes "rpm_ok r c adm q" and "c \<le> now"
  shows "rpm_ok r now adm (prune_rpm now q)"
proof -
  from rpm_ok_later [OF assms] obtain old where old: "adm = old @ q" "\<forall>t \<in> set old. rpm_stale now t"
    and rest: "sorted adm" "\<forall>t \<in> set adm. t \<le> now" "spaced r adm"
    by (auto simp: rpm_ok_def)
  obtain old' where "q = old' @ prune_rpm now q" "\<forall>t \<in> set old'. rpm_stale now t"
    by (rule prune_rpm_split)
  with old have "adm = (old @ old') @ prune_rpm now q" "\<forall>t \<in> set (old @ old'). rpm_stale now t"
    by auto
  with rest show ?thesis
    unfolding rpm_ok_def by blast
qed

lemma rpm_ok_push:
  assumes "rpm_ok r now adm q" and "length q < r"
  shows "rpm_ok r now (adm @ [now]) (q @ [now])"
proof -
  from assms(1) obtain old where old: "adm = old @ q" "\<forall>t \<in> set old. rpm_stale now t"
    and rest: "sorted adm" "\<forall>t \<in> set adm. t \<le> now" "spaced r adm"
    by (auto simp: rpm_ok_def)
  have "spaced r (adm @ [now])"
    unfolding spaced_def
  proof (intro allI impI)
    fix i assume i: "i + r < length (adm @ [now])"
    show "(adm @ [now]) ! i + 60000000000 \<le> (adm @ [now]) ! (i + r)"
    proof (cases "i + r < length adm")
      case True
      with rest(3) show ?thesis by (simp add: spaced_def nth_append)
    next
      case False
      with i have n: "i + r = length adm" by simp
      with assms(2) old(1) have "i < length old" by simp
      with old have "rpm_stale now (adm ! i)" by (simp add: nth_append)
      with n \<open>i < length old\<close> old(1) show ?thesis by (simp add: nth_append rpm_stale_iff)
    qed
  qed
  with old rest show ?thesis
    by (auto simp: rpm_ok_def sorted_append)
qed

text \<open>The window as it would be computed from the history alone.\<close>

lemma rpm_ok_window:
  assumes "rpm_ok r c adm q" and "c \<le> now"
  shows "prune_rpm now q = filter (\<lambda>t. now < t + 60000000000) adm"
proof -
  from rpm_ok_prune [OF assms] obtain old where old: "adm = old @ prune_rpm now q"
    "\<forall>t \<in> set old. rpm_stale now t" "sorted adm"
    by (auto simp: rpm_ok_def)
  from assms(1) have "sorted q"
    by (auto simp: rpm_ok_def sorted_append)
  then have "\<forall>t \<in> set (prune_rpm now q). \<not> rpm_stale now t"
    using prune_rpm_fresh by blast
  with old(2) have "filter (\<lambda>t. \<not> rpm_stale now t) (old @ prune_rpm now q) = prune_rpm now q"
    by (simp add: filter_empty_conv filter_id_conv)
  then show ?thesis
    using old(1) by (simp add: rpm_stale_iff not_le)
qed

section \<open>Every step keeps the invariant\<close>

lemma limiter_inv_set:
  assumes inv: "limiter_inv avail s" and a: "a < length (limiters (lmap s))"
    and l: "max_concurrent l = max_concurrent (limiters (lmap s) ! a)"
      "rpm_limit l = rpm_limit (limiters (lmap s) ! a)"
    and perm: "count_list ps a + avail (concurrency l) = unat (max_concurrent l)"
      "\<And>b. b \<noteq> a \<Longrightarrow> count_list ps b = count_list (permits s) b"
      "set ps \<subseteq> insert a (set (permits s))"
    and adm: "rpm_ok (unat (rpm_limit l)) c (adm a) (rpm l)" "lclock s \<le> c"
      "\<And>b. b \<noteq> a \<Longrightarrow> adm b = admitted s b"
  shows "limiter_inv avail \<lparr>lmap = set_limiter a l (lmap s), permits = ps, admitted = adm, lclock = c\<rparr>"
proof (rule limiter_invI, goal_cases)
  case (1 u b)
  with limiter_invD(1) [OF inv] show ?case by simp
next
  case (2 b)
  with limiter_invD(2) [OF inv, of b] a perm(3) adm(3) [of b] show ?case by (cases "b = a") auto
next
  case (3 b)
  with limiter_invD(3) [OF inv, of b] l perm(1,2) show ?case by (cases "b = a") auto
next
  case (4 b)
  with rpm_ok_later [OF limiter_invD(4) [OF inv, of b] adm(2)] l adm(1,3) show ?case
    by (cases "b = a") auto
qed

lemma limiter_inv_get:
  assumes ok: "semaphore_ok ops avail" and inv: "limiter_inv avail s"
    and g: "get_or_create ops u mc rl (lmap s) = (a, m)"
  shows "limiter_inv avail (s\<lparr>lmap := m\<rparr>)"
proof -
  let ?n = "length (limiters (lmap s))"
  from get_or_create_spec(5) [OF g limiter_invD(1) [OF inv]] show ?thesis
  proof
    assume "m = lmap s"
    with inv show ?thesis by simp
  next
    assume m: "m = (lmap s)\<lparr>limiters := limiters (lmap s) @
               [\<lparr>concurrency = sem_new ops (unat mc), rpm = [], max_concurrent = mc, rpm_limit = rl\<rparr>],
             limiter_of := hm_insert u ?n (limiter_of (lmap s))\<rparr>"
    have fresh: "?n \<notin> set (permits s)" "admitted s ?n = []"
      using limiter_invD(2) [OF inv, of ?n] by auto
    show ?thesis
    proof (rule limiter_invI, goal_cases)
      case (1 v b)
      with limiter_invD(1) [OF inv, of v b] m show ?case
        by (auto simp: hm_get_insert less_SucI split: if_splits)
    next
      case (2 b)
      with limiter_invD(2) [OF inv, of b] m show ?case by auto
    next
      case (3 b)
      with limiter_invD(3) [OF inv, of b] m fresh(1) show ?case
        by (cases "b = ?n") (auto simp: nth_append semaphore_okD(1) [OF ok] count_list_0_iff)
    next
      case (4 b)
      with limiter_invD(4) [OF inv, of b] m fresh(2) show ?case
        by (cases "b = ?n") (auto simp: nth_append rpm_ok_def spaced_def)
    qed
  qed
qed

lemma count_list_remove1:
  "count_list (remove1 x xs) y = (if y = x then count_list xs y - 1 else count_list xs y)"
  by (induction xs) auto

lemma limiter_step_inv:
  assumes ok: "semaphore_ok ops avail" and inv: "limiter_inv avail s" and st: "limiter_step ops s e t"
  shows "limiter_inv avail t"
  using st
proof (cases rule: limiter_step.cases)
  case (step_get u mc rl a m)
  with limiter_inv_get [OF ok inv] show ?thesis by simp
next
  case (step_permit a m)
  let ?l = "limiters (lmap s) ! a"
  from step_permit obtain sm where sm: "sem_try_acquire ops (concurrency ?l) = Some sm"
    "m = set_limiter a (?l\<lparr>concurrency := sm\<rparr>) (lmap s)"
    by (auto simp: try_acquire_owned_def split: option.splits)
  have "limiter_inv avail \<lparr>lmap = m, permits = a # permits s, admitted = admitted s, lclock = lclock s\<rparr>"
    unfolding sm(2)
    by (rule limiter_inv_set [OF inv])
      (use step_permit limiter_invD(3,4) [OF inv, of a] semaphore_okD(3) [OF ok sm(1)] in auto)
  with step_permit show ?thesis by (cases s) simp
next
  case (step_admit a now m)
  let ?l = "limiters (lmap s) ! a" and ?q = "prune_rpm now (rpm (limiters (lmap s) ! a))"
  from step_admit have m: "length ?q < unat (rpm_limit ?l)"
    "m = set_limiter a (?l\<lparr>rpm := ?q @ [now]\<rparr>) (lmap s)"
    by (auto simp: check_rpm_limit_def Let_def split: if_splits)
  have "limiter_inv avail \<lparr>lmap = m, permits = permits s,
      admitted = (admitted s)(a := admitted s a @ [now]), lclock = now\<rparr>"
    unfolding m(2)
    by (rule limiter_inv_set [OF inv])
      (use step_admit limiter_invD(3) [OF inv, of a]
        rpm_ok_push [OF rpm_ok_prune [OF limiter_invD(4) [OF inv, of a]] m(1)] in auto)
  with step_admit show ?thesis by (cases s) simp
next
  case (step_refuse a now e m)
  let ?l = "limiters (lmap s) ! a" and ?q = "prune_rpm now (rpm (limiters (lmap s) ! a))"
  from step_refuse have m: "m = set_limiter a (?l\<lparr>rpm := ?q\<rparr>) (lmap s)"
    by (auto simp: check_rpm_limit_def Let_def split: if_splits)
  have "limiter_inv avail \<lparr>lmap = m, permits = permits s, admitted = admitted s, lclock = now\<rparr>"
    unfolding m
    by (rule limiter_inv_set [OF inv])
      (use step_refuse limiter_invD(3) [OF inv, of a]
        rpm_ok_prune [OF limiter_invD(4) [OF inv, of a]] in auto)
  with step_refuse show ?thesis by (cases s) simp
next
  case (step_drop a)
  let ?l = "limiters (lmap s) ! a"
  have a: "a < length (limiters (lmap s))"
    using limiter_invD(2) [OF inv] step_drop by blast
  have "0 < count_list (permits s) a"
    using step_drop by (metis count_list_0_iff gr0I)
  then have "limiter_inv avail \<lparr>lmap = drop_permit ops a (lmap s),
      permits = remove1 a (permits s), admitted = admitted s, lclock = lclock s\<rparr>"
    unfolding drop_permit_def Let_def
    by (intro limiter_inv_set [OF inv a])
      (use limiter_invD(3,4) [OF inv a] set_remove1_subset [of a "permits s"]
        in \<open>auto simp: semaphore_okD(4) [OF ok] count_list_remove1\<close>)
  with step_drop show ?thesis by (cases s) simp
next
  case (step_remove u)
  with inv show ?thesis
    by (auto simp: limiter_inv_def limiter_remove_def hm_get_remove split: if_splits)
qed (use inv in auto)

definition limiter_ok :: "'sem semaphore_ops \<Rightarrow> ('sem \<Rightarrow> nat) \<Rightarrow> 'sem limiter_run \<Rightarrow> bool" where
  "limiter_ok ops avail s \<longleftrightarrow> semaphore_ok ops avail \<and> limiter_inv avail s"

interpretation limiter: invariant_machine "limiter_step ops" "limiter_ok ops avail" for ops avail
  by unfold_locales (auto simp: limiter_ok_def intro: limiter_step_inv)

lemma limiter_reachable:
  assumes "semaphore_ok ops avail" and "run (limiter_step ops) limiter_init es s"
  shows "limiter_inv avail s"
proof -
  have "limiter_ok ops avail limiter_init"
    using assms(1) by (simp add: limiter_ok_def limiter_inv_def limiter_init_def limiter_map_new_def)
  with limiter.run_inv [OF assms(2)] show ?thesis
    by (simp add: limiter_ok_def)
qed

section \<open>Properties\<close>

text \<open>
  C9: Whatever the interleaving of the requests of all users, with policies that change and users
  that are removed, a limiter never has more permits outstanding than its concurrency limit, and
  any \<open>rpm_limit + 1\<close> consecutive admissions of a limiter span at least sixty seconds.
\<close>

theorem limiter_bounds:
  assumes "semaphore_ok ops avail" and "run (limiter_step ops) limiter_init es s"
    and "a < length (limiters (lmap s))"
  shows "count_list (permits s) a \<le> unat (max_concurrent (limiters (lmap s) ! a))
    \<and> (\<forall>i. i + unat (rpm_limit (limiters (lmap s) ! a)) < length (admitted s a) \<longrightarrow>
          admitted s a ! i + 60000000000
            \<le> admitted s a ! (i + unat (rpm_limit (limiters (lmap s) ! a))))"
  using limiter_invD(3,4) [OF limiter_reachable [OF assms(1,2)] assms(3)]
  by (simp add: rpm_ok_def spaced_def)

lemma unat_at_least_one: "n < 2 ^ 31 \<Longrightarrow> unat (at_least_one n) = nat (max n 1)"
  by (simp add: at_least_one_def unat_eq_nat_uint uint_word_of_int)

lemma try_acquire_owned_iff:
  assumes "semaphore_ok ops avail" and "limiter_inv avail s" and "a < length (limiters (lmap s))"
  shows "try_acquire_owned ops a (lmap s) = None \<longleftrightarrow>
    unat (max_concurrent (limiters (lmap s) ! a)) \<le> count_list (permits s) a"
  using limiter_invD(3) [OF assms(2,3)]
    semaphore_okD(2) [OF assms(1), of "concurrency (limiters (lmap s) ! a)"]
  by (auto simp: try_acquire_owned_def split: option.splits)

lemma check_rpm_limit_iff:
  assumes "limiter_inv avail s" and "a < length (limiters (lmap s))" and "lclock s \<le> now"
    and "rpm (limiters m ! a) = rpm (limiters (lmap s) ! a)"
  shows "fst (check_rpm_limit now a rl m) =
    (if unat rl \<le> length (filter (\<lambda>t. now < t + 60000000000) (admitted s a))
     then Inl RpmExceeded else Inr ())"
  using rpm_ok_window [OF limiter_invD(4) [OF assms(1,2)] assms(3)] assms(4)
  by (simp add: check_rpm_limit_def Let_def)

lemma try_acquire_owned_frame:
  assumes "try_acquire_owned ops a m = Some m'"
  shows "length (limiters m') = length (limiters m)"
    and "rpm (limiters m' ! b) = rpm (limiters m ! b)"
    and "rpm_limit (limiters m' ! b) = rpm_limit (limiters m ! b)"
proof -
  obtain sm where m': "m' = set_limiter a ((limiters m ! a)\<lparr>concurrency := sm\<rparr>) m"
    using assms by (auto simp: try_acquire_owned_def split: option.splits)
  show "length (limiters m') = length (limiters m)"
    by (simp add: m')
  have "limiters m' ! b = limiters m ! b
    \<or> limiters m' ! b = (limiters m ! b)\<lparr>concurrency := sm\<rparr>"
    by (cases "a < length (limiters m)") (auto simp: m' nth_list_update list_update_beyond)
  then show "rpm (limiters m' ! b) = rpm (limiters m ! b)"
    "rpm_limit (limiters m' ! b) = rpm_limit (limiters m ! b)"
    by auto
qed

lemma refuse_run:
  assumes "a < length (limiters (lmap s))" and "lclock s \<le> now" and "a \<in> set (permits s)"
    and "check_rpm_limit now a (rpm_limit (limiters (lmap s) ! a)) (lmap s) = (Inl e, m)"
  shows "run (limiter_step ops) s [Check_Rpm a now, Drop_Permit a]
    (s\<lparr>lmap := drop_permit ops a m, permits := remove1 a (permits s), lclock := now\<rparr>)"
proof -
  let ?t = "s\<lparr>lmap := m, lclock := now\<rparr>"
  have "limiter_step ops s (Check_Rpm a now) ?t"
    by (rule step_refuse [OF assms(1,2,4)])
  moreover have "limiter_step ops ?t (Drop_Permit a)
    (s\<lparr>lmap := drop_permit ops a m, permits := remove1 a (permits s), lclock := now\<rparr>)"
    using step_drop [of a ?t ops] assms(3) by (cases s) simp
  ultimately show ?thesis
    by (meson run_cons run_nil)
qed

text \<open>What \<open>acquire\<close> does once it has the limiter.\<close>

lemma acquire_tail:
  assumes ok: "semaphore_ok ops avail" and inv: "limiter_inv avail s" and now: "lclock s \<le> now"
    and a: "a < length (limiters (lmap s))"
  defines "mc \<equiv> max_concurrent (limiters (lmap s) ! a)" and "rl \<equiv> rpm_limit (limiters (lmap s) ! a)"
  assumes acq: "(res, m) = (case try_acquire_owned ops a (lmap s) of
           None \<Rightarrow> (Inl UserConcurrencyExceeded, lmap s)
         | Some m2 \<Rightarrow> (case check_rpm_limit now a rl m2 of
              (Inl e, m3) \<Rightarrow> (Inl e, drop_permit ops a m3) | (Inr _, m3) \<Rightarrow> (Inr a, m3)))"
  shows "res =
      (if unat mc \<le> count_list (permits s) a then Inl UserConcurrencyExceeded
       else if unat rl \<le> length (filter (\<lambda>t. now < t + 60000000000) (admitted s a))
       then Inl RpmExceeded else Inr a)
    \<and> (\<exists>fs t. run (limiter_step ops) s fs t \<and> lmap t = m
          \<and> permits t = (if res = Inr a then a # permits s else permits s)
          \<and> admitted t = (if res = Inr a then (admitted s)(a := admitted s a @ [now])
                           else admitted s))"
proof (cases "try_acquire_owned ops a (lmap s)")
  case None
  with try_acquire_owned_iff [OF ok inv a] acq show ?thesis
    by (intro conjI exI [of _ "[]"] exI [of _ s]) (simp_all add: mc_def)
next
  case (Some m2)
  let ?s2 = "s\<lparr>lmap := m2, permits := a # permits s\<rparr>"
  have st: "limiter_step ops s (Try_Permit a) ?s2"
    by (rule step_permit [OF a Some])
  have a2: "a < length (limiters (lmap ?s2))" "rl = rpm_limit (limiters (lmap ?s2) ! a)"
    using try_acquire_owned_frame [OF Some] a by (auto simp: rl_def)
  have free: "\<not> unat mc \<le> count_list (permits s) a"
    using try_acquire_owned_iff [OF ok inv a] Some by (simp add: mc_def)
  define m3 where "m3 = snd (check_rpm_limit now a rl m2)"
  then have ck: "check_rpm_limit now a rl m2 =
      (if unat rl \<le> length (filter (\<lambda>t. now < t + 60000000000) (admitted s a))
       then Inl RpmExceeded else Inr (), m3)"
    using check_rpm_limit_iff [OF inv a now try_acquire_owned_frame(2) [OF Some, of a], of rl]
    by (simp add: prod_eq_iff)
  show ?thesis
  proof (cases "unat rl \<le> length (filter (\<lambda>t. now < t + 60000000000) (admitted s a))")
    case True
    have "run (limiter_step ops) ?s2 [Check_Rpm a now, Drop_Permit a]
      (s\<lparr>lmap := drop_permit ops a m3, permits := permits s, lclock := now\<rparr>)" (is "run _ _ _ ?t")
      using refuse_run [of a ?s2 now] a2 now ck True by simp
    with st have "run (limiter_step ops) s [Try_Permit a, Check_Rpm a now, Drop_Permit a] ?t"
      by (rule run_cons)
    with True free acq Some ck show ?thesis
      by (intro conjI exI [of _ ?t] exI) (assumption | simp)+
  next
    case False
    let ?t = "?s2\<lparr>lmap := m3, admitted := (admitted s)(a := admitted s a @ [now]), lclock := now\<rparr>"
    have "limiter_step ops ?s2 (Check_Rpm a now) ?t"
      using step_admit [of a ?s2 now m3 ops] a2 now ck False by simp
    with st have "run (limiter_step ops) s [Try_Permit a, Check_Rpm a now] ?t"
      by (meson run_cons run_nil)
    with False free acq Some ck show ?thesis
      by (intro conjI exI [of _ ?t] exI) (assumption | simp)+
  qed
qed

text \<open>
  C40: \<open>acquire\<close> decides by the history alone. A user whose limiter has its limit of permits
  outstanding is refused without spending any of the minute's budget; otherwise the sliding window
  of the last sixty seconds decides, and a refusal there gives the permit back; otherwise the
  request takes exactly one permit and one admission. Negative and zero limits count as one. The
  calls of \<open>acquire\<close> are steps of the machine.
\<close>

theorem acquire_decides:
  assumes ok: "semaphore_ok ops avail" and r: "run (limiter_step ops) limiter_init es s"
    and now: "lclock s \<le> now" and i32: "mc < 2 ^ 31" "rl < 2 ^ 31"
    and g: "get_or_create ops u (at_least_one mc) (at_least_one rl) (lmap s) = (a, m1)"
    and acq: "acquire ops now u mc rl (lmap s) = (res, m)"
  shows "res =
      (if nat (max mc 1) \<le> count_list (permits s) a then Inl UserConcurrencyExceeded
       else if nat (max rl 1) \<le> length (filter (\<lambda>t. now < t + 60000000000) (admitted s a))
       then Inl RpmExceeded else Inr a)
    \<and> (\<exists>fs t. run (limiter_step ops) s fs t \<and> lmap t = m
          \<and> permits t = (if res = Inr a then a # permits s else permits s)
          \<and> admitted t = (if res = Inr a then (admitted s)(a := admitted s a @ [now])
                           else admitted s))"
proof -
  let ?mc = "at_least_one mc" and ?rl = "at_least_one rl" and ?s1 = "s\<lparr>lmap := m1\<rparr>"
  have st: "limiter_step ops s (Get_Limiter u ?mc ?rl) ?s1"
    by (rule step_get [OF g])
  have inv: "limiter_inv avail s"
    by (rule limiter_reachable [OF ok r])
  then have inv1: "limiter_inv avail ?s1"
    by (rule limiter_step_inv [OF ok _ st])
  have a: "a < length (limiters (lmap ?s1))" "max_concurrent (limiters (lmap ?s1) ! a) = ?mc"
    "rpm_limit (limiters (lmap ?s1) ! a) = ?rl"
    using get_or_create_spec(1,2,3) [OF g limiter_invD(1) [OF inv]] by auto
  have *: "(res, m) = (case try_acquire_owned ops a (lmap ?s1) of
           None \<Rightarrow> (Inl UserConcurrencyExceeded, lmap ?s1)
         | Some m2 \<Rightarrow> (case check_rpm_limit now a (rpm_limit (limiters (lmap ?s1) ! a)) m2 of
              (Inl e, m3) \<Rightarrow> (Inl e, drop_permit ops a m3) | (Inr _, m3) \<Rightarrow> (Inr a, m3)))"
    using acq [symmetric] g a(3) by (simp add: acquire_def Let_def cong: option.case_cong)
  have s1: "permits ?s1 = permits s" "admitted ?s1 = admitted s" "lclock ?s1 \<le> now"
    using now by simp_all
  from acquire_tail [OF ok inv1 s1(3) a(1) *, unfolded a(2,3) s1(1,2)
      unat_at_least_one [OF i32(1)] unat_at_least_one [OF i32(2)]]
  obtain fs t where "run (limiter_step ops) ?s1 fs t" and rest: "lmap t = m"
    "permits t = (if res = Inr a then a # permits s else permits s)"
    "admitted t = (if res = Inr a then (admitted s)(a := admitted s a @ [now]) else admitted s)"
    "res = (if nat (max mc 1) \<le> count_list (permits s) a then Inl UserConcurrencyExceeded
       else if nat (max rl 1) \<le> length (filter (\<lambda>t. now < t + 60000000000) (admitted s a))
       then Inl RpmExceeded else Inr a)"
    by blast
  then have "run (limiter_step ops) s (Get_Limiter u ?mc ?rl # fs) t"
    using st by (blast intro: run_cons)
  with rest show ?thesis by blast
qed

section \<open>Witnesses\<close>

definition nat_semaphore :: "nat semaphore_ops" where
  "nat_semaphore = \<lparr>sem_new = (\<lambda>n. n), sem_try_acquire = (\<lambda>n. case n of 0 \<Rightarrow> None | Suc k \<Rightarrow> Some k),
     sem_add_permit = Suc\<rparr>"

lemma nat_semaphore_ok: "semaphore_ok nat_semaphore (\<lambda>n. n)"
  by (auto simp: semaphore_ok_def nat_semaphore_def split: nat.splits)

definition one_user :: "nat limiter_run" where
  "one_user = \<lparr>lmap = snd (get_or_create nat_semaphore 7 1 2 limiter_map_new), permits = [],
     admitted = (\<lambda>_. []), lclock = 0\<rparr>"

lemma one_user_run: "run (limiter_step nat_semaphore) limiter_init [Get_Limiter 7 1 2] one_user"
  using step_get [of nat_semaphore 7 1 2 "limiter_init" 0 "lmap one_user"]
  by (simp add: run_Cons_iff one_user_def limiter_init_def get_or_create_def lookup_limiter_def
      create_limiter_def limiter_map_new_def)

theorem limiter_bounds_witness:
  "count_list (permits one_user) 0 \<le> unat (max_concurrent (limiters (lmap one_user) ! 0))"
  using limiter_bounds [OF nat_semaphore_ok one_user_run, of 0]
  by (simp add: one_user_def get_or_create_def lookup_limiter_def create_limiter_def limiter_map_new_def)

theorem acquire_decides_witness:
  "fst (acquire nat_semaphore 5 7 1 2 (lmap one_user)) = Inr 0"
proof -
  have g: "get_or_create nat_semaphore 7 (at_least_one 1) (at_least_one 2) (lmap one_user) = (0, lmap one_user)"
    by (simp add: one_user_def get_or_create_def lookup_limiter_def create_limiter_def
        limiter_map_new_def at_least_one_def)
  obtain res m where acq: "acquire nat_semaphore 5 7 1 2 (lmap one_user) = (res, m)"
    by (cases "acquire nat_semaphore 5 7 1 2 (lmap one_user)")
  from acquire_decides [OF nat_semaphore_ok one_user_run _ _ _ g acq] acq show ?thesis
    by (simp add: one_user_def)
qed

end
