(* ===== verification/Refresh_Guard.thy ===== *)
theory Refresh_Guard
  imports Hub_Prelude
begin

text \<open>
  The per-account lock around OAuth refreshes (\<open>src/src/services/oauth_refresh_guard.rs\<close>): a
  registry maps an account to an asynchronous mutex, which is created on first use and shared by
  reference. The store of mutexes is indexed by the reference. The mutex is tokio's; its
  operations are an argument, and \<open>mutex_ok\<close> states what its documentation promises.
\<close>

record 'm mutex_ops =
  mutex_new :: 'm
  mutex_lock :: "'m \<Rightarrow> 'm option"   \<comment> \<open>\<open>Some\<close>: the pending \<open>lock_owned\<close> completes\<close>
  mutex_unlock :: "'m \<Rightarrow> 'm"        \<comment> \<open>the \<open>OwnedMutexGuard\<close> is dropped\<close>

definition mutex_ok :: "'m mutex_ops \<Rightarrow> ('m \<Rightarrow> bool) \<Rightarrow> bool" where
  "mutex_ok ops locked \<longleftrightarrow>
     \<not> locked (mutex_new ops)
     \<and> (\<forall>m. mutex_lock ops m = None \<longleftrightarrow> locked m)
     \<and> (\<forall>m n. mutex_lock ops m = Some n \<longrightarrow> locked n)
     \<and> (\<forall>m. \<not> locked (mutex_unlock ops m))"

lemma mutex_okD:
  assumes "mutex_ok ops locked"
  shows "\<not> locked (mutex_new ops)" and "\<not> locked (mutex_unlock ops m)"
    and "mutex_lock ops m = None \<longleftrightarrow> locked m"
    and "mutex_lock ops m = Some n \<Longrightarrow> locked n \<and> \<not> locked m"
  using assms unfolding mutex_ok_def by (blast, blast, blast, metis option.distinct(1))

record 'm OAuthRefreshGuard =
  registry :: "(i64, nat) hash_map"
  mutexes :: "'m list"

definition guard_new :: "'m OAuthRefreshGuard" where
  "guard_new = \<lparr>registry = [], mutexes = []\<rparr>"

text \<open>
  \<open>lock\<close> has two parts: under the registry's own lock it finds or inserts the account's mutex
  (\<open>entry(..).or_insert_with(..).clone()\<close>), and then it waits for that mutex.
\<close>

definition lock_entry ::
  "'m mutex_ops \<Rightarrow> i64 \<Rightarrow> 'm OAuthRefreshGuard \<Rightarrow> nat \<times> 'm OAuthRefreshGuard" where
  "lock_entry ops account_id g =
     (case hm_get (registry g) account_id of
        Some a \<Rightarrow> (a, g)
      | None \<Rightarrow> (length (mutexes g),
          g\<lparr>registry := hm_insert account_id (length (mutexes g)) (registry g),
            mutexes := mutexes g @ [mutex_new ops]\<rparr>))"

definition lock_owned :: "'m mutex_ops \<Rightarrow> nat \<Rightarrow> 'm OAuthRefreshGuard \<Rightarrow> 'm OAuthRefreshGuard option" where
  "lock_owned ops a g =
     map_option (\<lambda>m. g\<lparr>mutexes := (mutexes g)[a := m]\<rparr>) (mutex_lock ops (mutexes g ! a))"

definition unlock_owned :: "'m mutex_ops \<Rightarrow> nat \<Rightarrow> 'm OAuthRefreshGuard \<Rightarrow> 'm OAuthRefreshGuard" where
  "unlock_owned ops a g = g\<lparr>mutexes := (mutexes g)[a := mutex_unlock ops (mutexes g ! a)]\<rparr>"

definition forget_account :: "i64 \<Rightarrow> 'm OAuthRefreshGuard \<Rightarrow> 'm OAuthRefreshGuard" where
  "forget_account account_id g = g\<lparr>registry := hm_remove account_id (registry g)\<rparr>"

section \<open>The guard as a machine\<close>

text \<open>
  Tasks are natural numbers. The history records which task waits for, and which task holds, the
  lock of which account through which mutex.
\<close>

datatype guard_event = Ask nat i64 | Granted nat | Dropped nat | Forgotten i64

record 'm guard_run =
  guard :: "'m OAuthRefreshGuard"
  waiting :: "nat \<rightharpoonup> i64 \<times> nat"
  holding :: "nat \<rightharpoonup> i64 \<times> nat"

definition guard_init :: "'m guard_run" where
  "guard_init = \<lparr>guard = guard_new, waiting = Map.empty, holding = Map.empty\<rparr>"

inductive guard_step :: "'m mutex_ops \<Rightarrow> 'm guard_run \<Rightarrow> guard_event \<Rightarrow> 'm guard_run \<Rightarrow> bool"
  for ops :: "'m mutex_ops" where
  step_ask: "waiting s t = None \<Longrightarrow> holding s t = None \<Longrightarrow> lock_entry ops i (guard s) = (a, g) \<Longrightarrow>
     guard_step ops s (Ask t i) (s\<lparr>guard := g, waiting := (waiting s)(t \<mapsto> (i, a))\<rparr>)"
| step_granted: "waiting s t = Some (i, a) \<Longrightarrow> lock_owned ops a (guard s) = Some g \<Longrightarrow>
     guard_step ops s (Granted t)
       (s\<lparr>guard := g, waiting := (waiting s)(t := None), holding := (holding s)(t \<mapsto> (i, a))\<rparr>)"
| step_dropped: "holding s t = Some (i, a) \<Longrightarrow>
     guard_step ops s (Dropped t)
       (s\<lparr>guard := unlock_owned ops a (guard s), holding := (holding s)(t := None)\<rparr>)"
| step_cancel: "waiting s t = Some (i, a) \<Longrightarrow>
     guard_step ops s (Dropped t) (s\<lparr>waiting := (waiting s)(t := None)\<rparr>)"
| step_forget: "guard_step ops s (Forgotten i) (s\<lparr>guard := forget_account i (guard s)\<rparr>)"

section \<open>The invariant\<close>

text \<open>
  \<open>refs s a i\<close>: mutex \<open>a\<close> stands for account \<open>i\<close>, in the registry or for a task that waits or
  holds. A mutex exists and stands for one account, and it is locked exactly while one task
  holds it.
\<close>

definition refs :: "'m guard_run \<Rightarrow> nat \<Rightarrow> i64 \<Rightarrow> bool" where
  "refs s a i \<longleftrightarrow> hm_get (registry (guard s)) i = Some a
     \<or> (\<exists>t. waiting s t = Some (i, a)) \<or> (\<exists>t. holding s t = Some (i, a))"

definition guard_inv :: "('m \<Rightarrow> bool) \<Rightarrow> 'm guard_run \<Rightarrow> bool" where
  "guard_inv locked s \<longleftrightarrow>
     (\<forall>a i. refs s a i \<longrightarrow> a < length (mutexes (guard s)))
     \<and> (\<forall>a i j. refs s a i \<longrightarrow> refs s a j \<longrightarrow> i = j)
     \<and> (\<forall>a < length (mutexes (guard s)).
          locked (mutexes (guard s) ! a) \<longleftrightarrow> (\<exists>t i. holding s t = Some (i, a)))
     \<and> (\<forall>t u i j a. holding s t = Some (i, a) \<longrightarrow> holding s u = Some (j, a) \<longrightarrow> t = u)
     \<and> (\<forall>t. waiting s t = None \<or> holding s t = None)"

lemma guard_invD:
  assumes "guard_inv locked s"
  shows "refs s a i \<Longrightarrow> a < length (mutexes (guard s))"
    and "refs s a i \<Longrightarrow> refs s a j \<Longrightarrow> i = j"
    and "a < length (mutexes (guard s)) \<Longrightarrow>
      locked (mutexes (guard s) ! a) \<longleftrightarrow> (\<exists>t i. holding s t = Some (i, a))"
    and "holding s t = Some (i, a) \<Longrightarrow> holding s u = Some (j, a) \<Longrightarrow> t = u"
    and "waiting s t = None \<or> holding s t = None"
proof -
  note inv = assms [unfolded guard_inv_def]
  from inv show "refs s a i \<Longrightarrow> a < length (mutexes (guard s))" by (elim conjE) blast
  from inv show "refs s a i \<Longrightarrow> refs s a j \<Longrightarrow> i = j" by (elim conjE) blast
  from inv show "a < length (mutexes (guard s)) \<Longrightarrow>
      locked (mutexes (guard s) ! a) \<longleftrightarrow> (\<exists>t i. holding s t = Some (i, a))" by (elim conjE) simp
  from inv show "holding s t = Some (i, a) \<Longrightarrow> holding s u = Some (j, a) \<Longrightarrow> t = u"
    by (elim conjE) blast
  from inv show "waiting s t = None \<or> holding s t = None" by (elim conjE) (erule spec)
qed

lemma guard_invI:
  assumes "\<And>a i. refs s a i \<Longrightarrow> a < length (mutexes (guard s))"
    and "\<And>a i j. refs s a i \<Longrightarrow> refs s a j \<Longrightarrow> i = j"
    and "\<And>a. a < length (mutexes (guard s)) \<Longrightarrow>
      locked (mutexes (guard s) ! a) \<longleftrightarrow> (\<exists>t i. holding s t = Some (i, a))"
    and "\<And>t u i j a. holding s t = Some (i, a) \<Longrightarrow> holding s u = Some (j, a) \<Longrightarrow> t = u"
    and "\<And>t. waiting s t = None \<or> holding s t = None"
  shows "guard_inv locked s"
  unfolding guard_inv_def
  by (intro conjI allI impI; (rule assms; assumption)?)

text \<open>How the existence of a holder changes with one entry of the map.\<close>

lemma ex_holder_upd:
  assumes "h t = None \<or> h t = Some p"
  shows "(\<exists>u j. (h(t \<mapsto> (i, a))) u = Some (j, b)) \<longleftrightarrow>
      b = a \<or> (\<exists>u j. h u = Some (j, b) \<and> u \<noteq> t)"
    and "(\<exists>u j. (h(t := None)) u = Some (j, b)) \<longleftrightarrow> (\<exists>u j. h u = Some (j, b) \<and> u \<noteq> t)"
  by auto

lemma lock_entry_cases:
  assumes "lock_entry ops i g = (a, g')"
  obtains "hm_get (registry g) i = Some a" "g' = g"
  | "hm_get (registry g) i = None" "a = length (mutexes g)"
    "g' = g\<lparr>registry := hm_insert i a (registry g), mutexes := mutexes g @ [mutex_new ops]\<rparr>"
  using assms by (auto simp: lock_entry_def split: option.splits)

lemma guard_inv_fewer:
  assumes "guard_inv locked s" and "\<And>b j. refs u b j \<Longrightarrow> refs s b j"
    and "mutexes (guard u) = mutexes (guard s)" "holding u = holding s"
    and "\<And>t. waiting u t = None \<or> holding s t = None"
  shows "guard_inv locked u"
proof (rule guard_invI, goal_cases)
  case (1 a i)
  with guard_invD(1) [OF assms(1,2)] assms(3) show ?case by simp
next
  case (2 a i j)
  with guard_invD(2) [OF assms(1,2,2)] show ?case by blast
next
  case (3 a)
  with guard_invD(3) [OF assms(1)] assms(3,4) show ?case by simp
next
  case (4 t v i j a)
  with guard_invD(4) [OF assms(1)] assms(4) show ?case by simp
next
  case (5 t)
  with assms(4,5) show ?case by simp
qed

lemma guard_inv_ask:
  assumes ok: "mutex_ok ops locked" and inv: "guard_inv locked s"
    and h: "holding s t = None" and l: "lock_entry ops i (guard s) = (a, g)"
  shows "guard_inv locked (s\<lparr>guard := g, waiting := (waiting s)(t \<mapsto> (i, a))\<rparr>)" (is "guard_inv _ ?u")
  using l
proof (cases rule: lock_entry_cases)
  case 1
  show ?thesis
    by (rule guard_inv_fewer [OF inv])
      (use 1 h guard_invD(5) [OF inv] in \<open>auto simp: refs_def split: if_splits\<close>)
next
  case 2
  have old: "refs s b j \<or> b = a \<and> j = i" if "refs ?u b j" for b j
    using that 2 by (auto simp: refs_def hm_get_insert split: if_splits)
  have new: "\<not> refs s a j" for j
    using guard_invD(1) [OF inv, of a j] 2 by auto
  then have free: "holding s u \<noteq> Some (j, a)" for u j
    by (auto simp: refs_def)
  show ?thesis
  proof (rule guard_invI, goal_cases)
    case (1 b j)
    with old [of b j] guard_invD(1) [OF inv, of b j] 2 show ?case by auto
  next
    case (2 b j k)
    with old [of b j] old [of b k] new guard_invD(2) [OF inv, of b j k] show ?case by blast
  next
    case (3 b)
    with 2 guard_invD(3) [OF inv, of b] free show ?case
      by (cases "b = a") (auto simp: nth_append mutex_okD(1) [OF ok])
  next
    case (4 v w j k b)
    with guard_invD(4) [OF inv] show ?case by simp
  next
    case (5 v)
    with guard_invD(5) [OF inv] h show ?case by simp
  qed
qed

lemma guard_inv_granted:
  assumes ok: "mutex_ok ops locked" and inv: "guard_inv locked s"
    and w: "waiting s t = Some (i, a)" and l: "lock_owned ops a (guard s) = Some g"
  shows "guard_inv locked (s\<lparr>guard := g, waiting := (waiting s)(t := None),
    holding := (holding s)(t \<mapsto> (i, a))\<rparr>)" (is "guard_inv _ ?u")
proof -
  obtain m where m: "mutex_lock ops (mutexes (guard s) ! a) = Some m"
    "g = (guard s)\<lparr>mutexes := (mutexes (guard s))[a := m]\<rparr>"
    using l by (auto simp: lock_owned_def)
  have ia: "refs s a i"
    using w by (auto simp: refs_def)
  have a: "a < length (mutexes (guard s))"
    by (rule guard_invD(1) [OF inv ia])
  have lk: "locked m" "\<not> locked (mutexes (guard s) ! a)"
    using mutex_okD(4) [OF ok m(1)] by simp_all
  then have free: "holding s u \<noteq> Some (j, a)" for u j
    using guard_invD(3) [OF inv a] by blast
  have old: "refs s b j" if "refs ?u b j" for b j
    using that ia m by (auto simp: refs_def split: if_splits)
  show ?thesis
  proof (rule guard_invI, goal_cases)
    case (1 b j)
    with guard_invD(1) [OF inv old] m show ?case by simp
  next
    case (2 b j k)
    with guard_invD(2) [OF inv old old] show ?case by blast
  next
    case (3 b)
    have "holding s t = None"
      using w guard_invD(5) [OF inv, of t] by simp
    then have "(\<exists>u j. holding ?u u = Some (j, b)) \<longleftrightarrow> b = a \<or> (\<exists>u j. holding s u = Some (j, b))"
      using ex_holder_upd(1) [of "holding s" t _ i a b] by auto
    with 3 guard_invD(3) [OF inv, of b] m lk free a show ?case
      by (cases "b = a") simp_all
  next
    case (4 v w j k b)
    with guard_invD(4) [OF inv] free show ?case by (auto split: if_splits)
  next
    case (5 v)
    with guard_invD(5) [OF inv] show ?case by simp
  qed
qed

lemma guard_inv_dropped:
  assumes ok: "mutex_ok ops locked" and inv: "guard_inv locked s" and h: "holding s t = Some (i, a)"
  shows "guard_inv locked (s\<lparr>guard := unlock_owned ops a (guard s), holding := (holding s)(t := None)\<rparr>)"
    (is "guard_inv _ ?u")
proof -
  have ia: "refs s a i"
    using h by (auto simp: refs_def)
  have a: "a < length (mutexes (guard s))"
    by (rule guard_invD(1) [OF inv ia])
  have old: "refs s b j" if "refs ?u b j" for b j
    using that by (auto simp: refs_def unlock_owned_def split: if_splits)
  show ?thesis
  proof (rule guard_invI, goal_cases)
    case (1 b j)
    with guard_invD(1) [OF inv old] show ?case by (simp add: unlock_owned_def)
  next
    case (2 b j k)
    with guard_invD(2) [OF inv old old] show ?case by blast
  next
    case (3 b)
    then show ?case
    proof (cases "b = a")
      case True
      with a guard_invD(4) [OF inv h] show ?thesis
        by (auto simp: unlock_owned_def mutex_okD(2) [OF ok])
    next
      case False
      then have "(\<exists>u j. holding ?u u = Some (j, b)) \<longleftrightarrow> (\<exists>u j. holding s u = Some (j, b))"
        using h ex_holder_upd(2) [of "holding s" t _ b] by auto
      with 3 False guard_invD(3) [OF inv, of b] show ?thesis
        by (simp add: unlock_owned_def)
    qed
  next
    case (4 v w j k b)
    with guard_invD(4) [OF inv] show ?case by (auto split: if_splits)
  next
    case (5 v)
    with guard_invD(5) [OF inv] show ?case by simp
  qed
qed

lemma guard_step_inv:
  assumes ok: "mutex_ok ops locked" and inv: "guard_inv locked s" and st: "guard_step ops s e u"
  shows "guard_inv locked u"
  using st
proof (cases rule: guard_step.cases)
  case (step_ask t i a g)
  with guard_inv_ask [OF ok inv] show ?thesis by simp
next
  case (step_granted t i a g)
  with guard_inv_granted [OF ok inv] show ?thesis by simp
next
  case (step_dropped t i a)
  with guard_inv_dropped [OF ok inv] show ?thesis by simp
next
  case (step_cancel t i a)
  then show ?thesis
    using guard_invD(5) [OF inv]
    by (intro guard_inv_fewer [OF inv]) (auto simp: refs_def split: if_splits)
next
  case (step_forget i)
  then show ?thesis
    using guard_invD(5) [OF inv]
    by (intro guard_inv_fewer [OF inv])
      (auto simp: refs_def forget_account_def hm_get_remove split: if_splits)
qed

text \<open>
  As long as the account is not forgotten, everyone concerned with it uses the mutex in the
  registry.
\<close>

definition one_mutex :: "i64 \<Rightarrow> 'm guard_run \<Rightarrow> bool" where
  "one_mutex i s \<longleftrightarrow> (\<forall>a. refs s a i \<longrightarrow> hm_get (registry (guard s)) i = Some a)"

lemma one_mutex_step:
  assumes "one_mutex i s" and "guard_step ops s e u" and "e \<noteq> Forgotten i"
  shows "one_mutex i u"
  using assms(2,1,3)
proof (cases rule: guard_step.cases)
  case (step_ask t j a g)
  from step_ask(5) show ?thesis
    using assms(1) step_ask(2)
    by (cases rule: lock_entry_cases) (auto simp: one_mutex_def refs_def hm_get_insert split: if_splits)
qed (auto simp: one_mutex_def refs_def lock_owned_def unlock_owned_def forget_account_def
    hm_get_remove split: if_splits)

definition guard_ok :: "'m mutex_ops \<Rightarrow> ('m \<Rightarrow> bool) \<Rightarrow> 'm guard_run \<Rightarrow> bool" where
  "guard_ok ops locked s \<longleftrightarrow> mutex_ok ops locked \<and> guard_inv locked s"

interpretation refresh_guard:
  stable_machine "guard_step ops" "guard_ok ops locked" "\<lambda>e. e \<noteq> Forgotten i" "one_mutex i"
  for ops locked i
  by unfold_locales (auto simp: guard_ok_def intro: guard_step_inv one_mutex_step)

lemma guard_init_inv: "guard_inv locked guard_init" "one_mutex i guard_init"
  by (simp_all add: guard_inv_def one_mutex_def refs_def guard_init_def guard_new_def)

text \<open>
  C16: In every run in which the account is not forgotten, at most one task holds its refresh lock;
  a task that waits for it can proceed exactly when no task holds the lock of that same account,
  so refreshes of other accounts never delay it.
\<close>

theorem refresh_exclusive:
  assumes "mutex_ok ops locked" and "run (guard_step ops) guard_init es s"
    and "list_all (\<lambda>e. e \<noteq> Forgotten i) es"
  shows "(\<forall>t u a b. holding s t = Some (i, a) \<longrightarrow> holding s u = Some (i, b) \<longrightarrow> t = u)
    \<and> (\<forall>t a. waiting s t = Some (i, a) \<longrightarrow>
          (lock_owned ops a (guard s) \<noteq> None \<longleftrightarrow> (\<forall>u b. holding s u \<noteq> Some (i, b))))"
proof -
  have "guard_ok ops locked s \<and> one_mutex i s"
    by (rule refresh_guard.run_stable [OF assms(2) _ _ assms(3)])
      (use assms(1) guard_init_inv in \<open>auto simp: guard_ok_def\<close>)
  then have inv: "guard_inv locked s" and one: "one_mutex i s"
    by (auto simp: guard_ok_def)
  have same: "a = b" if "refs s a i" "refs s b i" for a b
    using one that unfolding one_mutex_def by (metis option.inject)
  show ?thesis
  proof (intro conjI allI impI)
    fix t u a b assume h: "holding s t = Some (i, a)" "holding s u = Some (i, b)"
    then have "a = b" by (intro same) (auto simp: refs_def)
    with h guard_invD(4) [OF inv] show "t = u" by blast
  next
    fix t a assume w: "waiting s t = Some (i, a)"
    then have ra: "refs s a i" by (auto simp: refs_def)
    have "lock_owned ops a (guard s) \<noteq> None \<longleftrightarrow> \<not> locked (mutexes (guard s) ! a)"
      using mutex_okD(3) [OF assms(1)] by (simp add: lock_owned_def)
    also have "\<dots> \<longleftrightarrow> (\<forall>u j. holding s u \<noteq> Some (j, a))"
      using guard_invD(3) [OF inv guard_invD(1) [OF inv ra]] by blast
    also have "\<dots> \<longleftrightarrow> (\<forall>u b. holding s u \<noteq> Some (i, b))"
    proof -
      have "j = i" if "holding s u = Some (j, a)" for u j
        using guard_invD(2) [OF inv ra, of j] that by (auto simp: refs_def)
      moreover have "b = a" if "holding s u = Some (i, b)" for u b
        using same [OF ra, of b] that by (auto simp: refs_def)
      ultimately show ?thesis by blast
    qed
    finally show "lock_owned ops a (guard s) \<noteq> None \<longleftrightarrow> (\<forall>u b. holding s u \<noteq> Some (i, b))" .
  qed
qed

section \<open>Witness\<close>

definition bool_mutex :: "bool mutex_ops" where
  "bool_mutex = \<lparr>mutex_new = False, mutex_lock = (\<lambda>b. if b then None else Some True),
     mutex_unlock = (\<lambda>b. False)\<rparr>"

lemma bool_mutex_ok: "mutex_ok bool_mutex (\<lambda>b. b)"
  by (simp add: mutex_ok_def bool_mutex_def)

definition two_tasks :: "bool guard_run" where
  "two_tasks = \<lparr>guard = \<lparr>registry = [(1, 0)], mutexes = [True]\<rparr>, waiting = [9 \<mapsto> (1, 0)],
     holding = [8 \<mapsto> (1, 0)]\<rparr>"

lemma two_tasks_run: "run (guard_step bool_mutex) guard_init [Ask 8 1, Granted 8, Ask 9 1] two_tasks"
proof -
  let ?g = "\<lparr>registry = [(1, 0)], mutexes = [False]\<rparr>" and ?h = "\<lparr>registry = [(1, 0)], mutexes = [True]\<rparr>"
  let ?a = "\<lparr>guard = ?g, waiting = [8 \<mapsto> (1, 0)], holding = Map.empty\<rparr>"
  let ?b = "\<lparr>guard = ?h, waiting = Map.empty, holding = [8 \<mapsto> (1, 0)]\<rparr>"
  have "guard_step bool_mutex guard_init (Ask 8 1) ?a"
    using step_ask [of guard_init 8 bool_mutex 1 0 ?g]
    by (simp add: guard_init_def guard_new_def lock_entry_def bool_mutex_def)
  moreover have "guard_step bool_mutex ?a (Granted 8) ?b"
    using step_granted [of ?a 8 1 0 bool_mutex ?h] by (simp add: lock_owned_def bool_mutex_def)
  moreover have "guard_step bool_mutex ?b (Ask 9 1) two_tasks"
    using step_ask [of ?b 9 bool_mutex 1 0 ?h] by (simp add: lock_entry_def two_tasks_def)
  ultimately show ?thesis
    by (meson run_cons run_nil)
qed

theorem refresh_exclusive_witness:
  "lock_owned bool_mutex 0 (guard two_tasks) = None"
proof -
  have "waiting two_tasks 9 = Some (1, 0)" "holding two_tasks 8 = Some (1, 0)"
    by (simp_all add: two_tasks_def)
  moreover have "list_all (\<lambda>e. e \<noteq> Forgotten 1) [Ask 8 1, Granted 8, Ask 9 1]"
    by simp
  ultimately show ?thesis
    using refresh_exclusive [OF bool_mutex_ok two_tasks_run] by blast
qed

end
