(* ===== verification/Billing.thy ===== *)
theory Billing
  imports Clewdr_Error "HOL-Library.Signed_Division"
begin

text \<open>
  Pricing and accounting (\<open>src/src/billing.rs\<close>, \<open>src/src/db/billing.rs\<close>): the cost of a request,
  the normal form of model names, the accounting periods, the tables of request logs and usage
  totals as values, and the transaction that writes a request's log together with its totals.

  An \<open>i64\<close> computed by the program is an \<open>int\<close> with the wrap-around of the release build written
  out (\<open>i64_wrap\<close>). A number computed by SQLite is an integer as long as it fits 64 bits; a sum
  that does not fit becomes a floating-point value (\<open>SReal\<close>, whose value is not kept), which the
  driver refuses to read back as an \<open>i64\<close>. A real total stays real here; SQLite would turn it back into
  an integer if later additions brought it back into the range, which takes negative summands. Instants are nanoseconds since 1970, and a timestamp
  column holds the instant it denotes. The calendar of the chrono crate is an argument.
\<close>

section \<open>Cost\<close>

definition i64_wrap :: "int \<Rightarrow> int" where
  "i64_wrap n = signed_take_bit 63 n"

text \<open>\<open>u64 as i64\<close>.\<close>

definition as_i64 :: "u64 \<Rightarrow> int" where
  "as_i64 w = i64_wrap (uint w)"

abbreviation (input) CACHE_CREATION_NUM :: int where "CACHE_CREATION_NUM \<equiv> 125"
abbreviation (input) CACHE_CREATION_DEN :: int where "CACHE_CREATION_DEN \<equiv> 100"
abbreviation (input) CACHE_READ_NUM :: int where "CACHE_READ_NUM \<equiv> 10"
abbreviation (input) CACHE_READ_DEN :: int where "CACHE_READ_DEN \<equiv> 100"
abbreviation (input) FALLBACK_INPUT_PRICE :: int where "FALLBACK_INPUT_PRICE \<equiv> 15000"
abbreviation (input) FALLBACK_OUTPUT_PRICE :: int where "FALLBACK_OUTPUT_PRICE \<equiv> 75000"

record BillingUsage =
  bu_input_tokens :: u64
  bu_output_tokens :: u64
  bu_cache_creation_tokens :: u64
  bu_cache_read_tokens :: u64
  bu_ttft_ms :: "i64 option"

definition cost_nanousd :: "BillingUsage \<Rightarrow> i64 \<Rightarrow> i64 \<Rightarrow> i64" where
  "cost_nanousd u input_price output_price =
     (let base_input = i64_wrap (as_i64 (bu_input_tokens u) * input_price);
          cache_create = i64_wrap (i64_wrap (as_i64 (bu_cache_creation_tokens u) * input_price)
            * CACHE_CREATION_NUM) sdiv CACHE_CREATION_DEN;
          cache_read = i64_wrap (i64_wrap (as_i64 (bu_cache_read_tokens u) * input_price)
            * CACHE_READ_NUM) sdiv CACHE_READ_DEN;
          output = i64_wrap (as_i64 (bu_output_tokens u) * output_price)
      in i64_wrap (i64_wrap (i64_wrap (base_input + cache_create) + cache_read) + output))"

section \<open>Model names\<close>

definition KNOWN_ALIASES :: "(string \<times> string) list" where
  "KNOWN_ALIASES =
     [(''claude-fable-5'', ''claude-fable-5''),
      (''claude-opus-5'', ''claude-opus-5''),
      (''claude-opus-4-8'', ''claude-opus-4-8''),
      (''claude-opus-4-7'', ''claude-opus-4-7''),
      (''claude-opus-4-6'', ''claude-opus-4-6''),
      (''claude-opus-4-5'', ''claude-opus-4-5''),
      (''claude-opus-4-1'', ''claude-opus-4-1''),
      (''claude-opus-4-0'', ''claude-opus-4-0''),
      (''claude-sonnet-5'', ''claude-sonnet-5''),
      (''claude-sonnet-4-6'', ''claude-sonnet-4-6''),
      (''claude-sonnet-4-5'', ''claude-sonnet-4-5''),
      (''claude-sonnet-4-0'', ''claude-sonnet-4-0''),
      (''claude-haiku-4-5'', ''claude-haiku-4-5''),
      (''claude-haiku-3-5'', ''claude-haiku-3-5''),
      (''claude-3-5-sonnet'', ''claude-sonnet-4-0''),
      (''claude-3-5-haiku'', ''claude-haiku-3-5''),
      (''claude-3-haiku'', ''claude-haiku-3-5'')]"

definition alias_with_date :: "string \<Rightarrow> string \<Rightarrow> bool" where
  "alias_with_date m alias =
     (case strip_prefix m alias of
        None \<Rightarrow> False
      | Some rest \<Rightarrow> (case strip_prefix rest ''-'' of
            None \<Rightarrow> False
          | Some date_part \<Rightarrow> length date_part = 8 \<and> list_all is_ascii_digit date_part))"

definition normalize_model :: "string \<Rightarrow> string option" where
  "normalize_model raw =
     (let m = to_ascii_lowercase raw
      in case find (\<lambda>(alias, key). m = alias) KNOWN_ALIASES of
           Some (_, key) \<Rightarrow> Some key
         | None \<Rightarrow> (case find (\<lambda>(alias, key). alias_with_date m alias) KNOWN_ALIASES of
               Some (_, key) \<Rightarrow> Some key
             | None \<Rightarrow> None))"

definition compute_model_key :: "string \<Rightarrow> string option \<Rightarrow> string" where
  "compute_model_key model_raw model_normalized =
     (let fallback = (let raw = trim model_raw in if raw \<noteq> [] then raw else ''unknown'')
      in case model_normalized of
           Some n \<Rightarrow> if n \<noteq> [] then n else fallback
         | None \<Rightarrow> fallback)"

section \<open>Periods\<close>

text \<open>
  A date is its day number. \<open>cal_weekday\<close> is \<open>weekday().num_days_from_monday()\<close>, \<open>cal_ymd\<close> the year,
  month and day, \<open>cal_from_ymd\<close> is \<open>NaiveDate::from_ymd_opt\<close>, and \<open>cal_format\<close> prints
  \<open>%Y-%m-%d\<close>.
\<close>

record calendar =
  cal_weekday :: "int \<Rightarrow> nat"
  cal_ymd :: "int \<Rightarrow> int \<times> nat \<times> nat"
  cal_from_ymd :: "int \<Rightarrow> nat \<Rightarrow> nat \<Rightarrow> int option"
  cal_format :: "int \<Rightarrow> string"

definition date_naive :: "int \<Rightarrow> int" where
  "date_naive t = t div 86400000000000"

definition format_start :: "calendar \<Rightarrow> int \<Rightarrow> string" where
  "format_start cal d = cal_format cal d @ ''T00:00:00Z''"

definition week_days :: "calendar \<Rightarrow> int \<Rightarrow> int \<times> int" where
  "week_days cal now =
     (let weekday = cal_weekday cal (date_naive now); monday = date_naive now - int weekday
      in (monday, monday + 7))"

definition current_week_bounds :: "calendar \<Rightarrow> int \<Rightarrow> string \<times> string" where
  "current_week_bounds cal now =
     (case week_days cal now of (monday, next_monday) \<Rightarrow>
        (format_start cal monday, format_start cal next_monday))"

text \<open>\<open>None\<close>: one of the \<open>unwrap\<close>s panics.\<close>

definition month_days :: "calendar \<Rightarrow> int \<Rightarrow> (int \<times> int) option" where
  "month_days cal now =
     (case cal_ymd cal (date_naive now) of (y, m, d) \<Rightarrow>
        case cal_from_ymd cal y m 1 of
          None \<Rightarrow> None
        | Some month_start \<Rightarrow>
            (case (if m = 12 then cal_from_ymd cal (y + 1) 1 1 else cal_from_ymd cal y (m + 1) 1) of
               None \<Rightarrow> None
             | Some next_month \<Rightarrow> Some (month_start, next_month)))"

definition current_month_bounds :: "calendar \<Rightarrow> int \<Rightarrow> (string \<times> string) option" where
  "current_month_bounds cal now =
     map_option (\<lambda>(a, b). (format_start cal a, format_start cal b)) (month_days cal now)"

text \<open>\<open>with_timezone\<close> at UTC+8.\<close>

definition daily_bucket_date_local :: "calendar \<Rightarrow> int \<Rightarrow> string" where
  "daily_bucket_date_local cal started_at = cal_format cal (date_naive (started_at + 8 * 3600 * 1000000000))"

section \<open>Tables\<close>

datatype sql_num = SInt int | SReal

fun sql_add :: "sql_num \<Rightarrow> int \<Rightarrow> sql_num" where
  "sql_add (SInt a) b = (if is_i64 (a + b) then SInt (a + b) else SReal)"
| "sql_add SReal b = SReal"

record usage_row =
  ur_request_count :: sql_num
  ur_input_tokens :: sql_num
  ur_output_tokens :: sql_num
  ur_cache_creation_tokens :: sql_num
  ur_cache_read_tokens :: sql_num
  ur_cost_nanousd :: sql_num

record RequestLogRow =
  rl_id :: i64
  rl_request_id :: string
  rl_request_type :: string
  rl_user_id :: "i64 option"
  rl_api_key_id :: "i64 option"
  rl_account_id :: "i64 option"
  rl_model_raw :: "string option"
  rl_model_normalized :: "string option"
  rl_model_key :: string
  rl_usage_accounted :: bool
  rl_stream :: bool
  rl_started_at :: int
  rl_completed_at :: "int option"
  rl_duration_ms :: "i64 option"
  rl_ttft_ms :: "i64 option"
  rl_status :: string
  rl_http_status :: "u16 option"
  rl_input_tokens :: "i64 option"
  rl_output_tokens :: "i64 option"
  rl_cache_creation_tokens :: "i64 option"
  rl_cache_read_tokens :: "i64 option"
  rl_priced_input :: "i64 option"
  rl_priced_output :: "i64 option"
  rl_cost_nanousd :: i64
  rl_error_code :: "string option"
  rl_error_message :: "string option"
  rl_response_body :: "string option"

record RequestAuditSnapshot =
  au_peer_ip :: string
  au_client_ip :: string
  au_ip_source :: string
  au_forwarded_chain :: "string option"
  au_user_agent :: "string option"
  au_anthropic_version :: "string option"
  au_anthropic_beta :: "string option"
  au_api_surface :: "string option"
  au_content_length :: "i64 option"

record billing_db =
  b_logs :: "RequestLogRow list"
  b_audits :: "(i64, RequestAuditSnapshot) hash_map"
  b_rollups :: "(i64 \<times> string \<times> string, string \<times> usage_row) hash_map"
  b_lifetime :: "(i64, usage_row) hash_map"
  b_daily :: "(i64 \<times> string \<times> string, usage_row) hash_map"
  b_pricing :: "(string, i64 \<times> i64) hash_map"
  b_user_ids :: "i64 list"
  b_api_key_ids :: "i64 list"
  b_account_ids :: "i64 list"
  b_events :: "(string \<times> string) list"

section \<open>Statements\<close>

definition lookup_model_pricing :: "billing_db \<Rightarrow> string \<Rightarrow> (i64 \<times> i64) option" where
  "lookup_model_pricing db pricing_key = hm_get (b_pricing db) pricing_key"

definition log_statuses :: "string list" where
  "log_statuses =
     [''ok'', ''auth_rejected'', ''quota_rejected'', ''user_concurrency_rejected'', ''rpm_rejected'',
      ''no_account_available'', ''upstream_error'', ''client_abort'', ''internal_error'']"

definition fk_ok :: "i64 option \<Rightarrow> i64 list \<Rightarrow> bool" where
  "fk_ok r ids = (case r of None \<Rightarrow> True | Some i \<Rightarrow> i \<in> set ids)"

text \<open>
  The constraints of \<open>request_logs\<close>: the request id is unique, the status is one of the known
  ones, and the referenced user, key and account exist. The new row id is one more than the
  largest.
\<close>

definition insert_request_log :: "billing_db \<Rightarrow> RequestLogRow \<Rightarrow> (i64 \<times> billing_db) option" where
  "insert_request_log db r =
     (if rl_request_id r \<notin> set (map rl_request_id (b_logs db)) \<and> rl_status r \<in> set log_statuses
         \<and> fk_ok (rl_user_id r) (b_user_ids db) \<and> fk_ok (rl_api_key_id r) (b_api_key_ids db)
         \<and> fk_ok (rl_account_id r) (b_account_ids db)
      then let i = foldr max (map rl_id (b_logs db)) 0 + 1
           in Some (i, db\<lparr>b_logs := b_logs db @ [r\<lparr>rl_id := i\<rparr>]\<rparr>)
      else None)"

definition insert_request_log_audit ::
  "billing_db \<Rightarrow> i64 \<Rightarrow> RequestAuditSnapshot \<Rightarrow> billing_db option" where
  "insert_request_log_audit db request_log_id a =
     (if hm_contains (b_audits db) request_log_id \<or> request_log_id \<notin> set (map rl_id (b_logs db))
      then None else Some (db\<lparr>b_audits := hm_insert request_log_id a (b_audits db)\<rparr>))"

text \<open>The row an upsert inserts, and what \<open>ON CONFLICT DO UPDATE\<close> makes of the stored one.\<close>

definition first_usage :: "BillingUsage \<Rightarrow> i64 \<Rightarrow> usage_row" where
  "first_usage u cost =
     \<lparr>ur_request_count = SInt 1, ur_input_tokens = SInt (as_i64 (bu_input_tokens u)),
      ur_output_tokens = SInt (as_i64 (bu_output_tokens u)),
      ur_cache_creation_tokens = SInt (as_i64 (bu_cache_creation_tokens u)),
      ur_cache_read_tokens = SInt (as_i64 (bu_cache_read_tokens u)), ur_cost_nanousd = SInt cost\<rparr>"

definition add_usage :: "BillingUsage \<Rightarrow> i64 \<Rightarrow> usage_row \<Rightarrow> usage_row" where
  "add_usage u cost r =
     \<lparr>ur_request_count = sql_add (ur_request_count r) 1,
      ur_input_tokens = sql_add (ur_input_tokens r) (as_i64 (bu_input_tokens u)),
      ur_output_tokens = sql_add (ur_output_tokens r) (as_i64 (bu_output_tokens u)),
      ur_cache_creation_tokens =
        sql_add (ur_cache_creation_tokens r) (as_i64 (bu_cache_creation_tokens u)),
      ur_cache_read_tokens = sql_add (ur_cache_read_tokens r) (as_i64 (bu_cache_read_tokens u)),
      ur_cost_nanousd = sql_add (ur_cost_nanousd r) cost\<rparr>"

definition upsert_usage_rollup ::
  "billing_db \<Rightarrow> i64 \<Rightarrow> string \<Rightarrow> string \<Rightarrow> string \<Rightarrow> BillingUsage \<Rightarrow> i64 \<Rightarrow> billing_db option" where
  "upsert_usage_rollup db user_id period_type period_start period_end usage cost =
     (if user_id \<notin> set (b_user_ids db) then None
      else let k = (user_id, period_type, period_start)
           in Some (db\<lparr>b_rollups := (case hm_get (b_rollups db) k of
                None \<Rightarrow> hm_insert k (period_end, first_usage usage cost) (b_rollups db)
              | Some (e, r) \<Rightarrow> hm_insert k (e, add_usage usage cost r) (b_rollups db))\<rparr>))"

definition upsert_usage_lifetime_total ::
  "billing_db \<Rightarrow> i64 \<Rightarrow> BillingUsage \<Rightarrow> i64 \<Rightarrow> billing_db option" where
  "upsert_usage_lifetime_total db user_id usage cost =
     (if user_id \<notin> set (b_user_ids db) then None
      else Some (db\<lparr>b_lifetime := (case hm_get (b_lifetime db) user_id of
                None \<Rightarrow> hm_insert user_id (first_usage usage cost) (b_lifetime db)
              | Some r \<Rightarrow> hm_insert user_id (add_usage usage cost r) (b_lifetime db))\<rparr>))"

definition upsert_usage_daily_rollup ::
  "billing_db \<Rightarrow> i64 \<Rightarrow> string \<Rightarrow> string \<Rightarrow> BillingUsage \<Rightarrow> i64 \<Rightarrow> billing_db option" where
  "upsert_usage_daily_rollup db user_id model_key bucket_date usage cost =
     (if user_id \<notin> set (b_user_ids db) then None
      else let k = (user_id, model_key, bucket_date)
           in Some (db\<lparr>b_daily := (case hm_get (b_daily db) k of
                None \<Rightarrow> hm_insert k (first_usage usage cost) (b_daily db)
              | Some r \<Rightarrow> hm_insert k (add_usage usage cost r) (b_daily db))\<rparr>))"

text \<open>\<open>None\<close>: the driver fails to decode the column as an \<open>i64\<close>.\<close>

definition get_current_period_cost :: "billing_db \<Rightarrow> i64 \<Rightarrow> string \<Rightarrow> string \<Rightarrow> i64 option" where
  "get_current_period_cost db user_id period_type period_start =
     (case hm_get (b_rollups db) (user_id, period_type, period_start) of
        None \<Rightarrow> Some 0
      | Some (_, r) \<Rightarrow> (case ur_cost_nanousd r of SInt c \<Rightarrow> Some c | SReal \<Rightarrow> None))"

definition delete_usage_rollup :: "billing_db \<Rightarrow> i64 \<Rightarrow> string \<Rightarrow> string \<Rightarrow> nat \<times> billing_db" where
  "delete_usage_rollup db user_id period_type period_start =
     (let k = (user_id, period_type, period_start)
      in (if hm_contains (b_rollups db) k then 1 else 0,
          db\<lparr>b_rollups := hm_remove k (b_rollups db)\<rparr>))"

text \<open>The sidecar rows of a deleted log go with it (\<open>ON DELETE CASCADE\<close>).\<close>

definition delete_old_request_logs :: "billing_db \<Rightarrow> int \<Rightarrow> i64 \<Rightarrow> nat \<times> billing_db" where
  "delete_old_request_logs db now retention_days =
     (let cutoff = now - retention_days * 86400000000000;
          old = filter (\<lambda>r. rl_started_at r < cutoff) (b_logs db);
          keep = filter (\<lambda>r. \<not> rl_started_at r < cutoff) (b_logs db)
      in (length old,
          db\<lparr>b_logs := keep,
             b_audits := filter (\<lambda>(i, a). i \<notin> set (map rl_id old)) (b_audits db)\<rparr>))"

end
