(* ===== verification/Billing_Log.thy ===== *)
theory Billing_Log
  imports Billing
begin

text \<open>
  The terminal log of a request and the quota check (\<open>persist_terminal_request_log\<close>,
  \<open>persist_billing_to_db\<close>, \<open>persist_probe_log\<close> and \<open>check_quota\<close> of \<open>src/src/billing.rs\<close>), over the
  tables of \<open>Billing\<close>.

  Whether a statement reaches the database is the argument \<open>io\<close>: statement \<open>n\<close> of the call fails in
  the driver unless \<open>io n\<close>. A statement that fails, in the driver or by a constraint, rolls the
  transaction back.
\<close>

section \<open>Requests\<close>

datatype RequestType = Messages | ProbeCookie | ProbeOauth | ProbeProxy | Test

fun request_type_as_str :: "RequestType \<Rightarrow> string" where
  "request_type_as_str Messages = ''messages''"
| "request_type_as_str ProbeCookie = ''probe_cookie''"
| "request_type_as_str ProbeOauth = ''probe_oauth''"
| "request_type_as_str ProbeProxy = ''probe_proxy''"
| "request_type_as_str Test = ''test''"

record BillingContext =
  bc_user_id :: "i64 option"
  bc_api_key_id :: "i64 option"
  bc_account_id :: "i64 option"
  bc_model_raw :: string
  bc_request_id :: string
  bc_started_at :: int
  bc_audit :: "RequestAuditSnapshot option"

record TerminalLogOptions =
  to_request_type :: RequestType
  to_stream :: bool
  to_status :: string
  to_http_status :: "u16 option"
  to_usage :: "BillingUsage option"
  to_error_code :: "string option"
  to_error_message :: "string option"
  to_update_rollups :: bool
  to_response_body :: "string option"

section \<open>The terminal log\<close>

text \<open>The lookup has statement number 8; a failed lookup falls back like a missing price.\<close>

definition lookup_prices :: "(nat \<Rightarrow> bool) \<Rightarrow> billing_db \<Rightarrow> string option \<Rightarrow> i64 \<times> i64" where
  "lookup_prices io db normalized =
     (case normalized of
        None \<Rightarrow> (FALLBACK_INPUT_PRICE, FALLBACK_OUTPUT_PRICE)
      | Some key \<Rightarrow>
          if \<not> io 8 then (FALLBACK_INPUT_PRICE, FALLBACK_OUTPUT_PRICE)
          else (case lookup_model_pricing db key of
                  Some prices \<Rightarrow> prices
                | None \<Rightarrow> (FALLBACK_INPUT_PRICE, FALLBACK_OUTPUT_PRICE)))"

definition usage_accounted :: "TerminalLogOptions \<Rightarrow> bool" where
  "usage_accounted opts \<longleftrightarrow>
     to_request_type opts = Messages \<and> to_usage opts \<noteq> None \<and> to_update_rollups opts"

definition log_cost :: "(nat \<Rightarrow> bool) \<Rightarrow> billing_db \<Rightarrow> BillingContext \<Rightarrow> TerminalLogOptions \<Rightarrow> i64" where
  "log_cost io db ctx opts =
     (case to_usage opts of
        None \<Rightarrow> 0
      | Some usage \<Rightarrow> (case lookup_prices io db (normalize_model (bc_model_raw ctx)) of
            (input_price, output_price) \<Rightarrow> cost_nanousd usage input_price output_price))"

text \<open>\<open>num_milliseconds\<close> truncates towards zero.\<close>

definition terminal_row ::
  "(nat \<Rightarrow> bool) \<Rightarrow> billing_db \<Rightarrow> BillingContext \<Rightarrow> TerminalLogOptions \<Rightarrow> int \<Rightarrow> RequestLogRow" where
  "terminal_row io db ctx opts now =
     (let normalized = normalize_model (bc_model_raw ctx);
          prices = map_option (\<lambda>_. lookup_prices io db normalized) (to_usage opts);
          tokens = (\<lambda>f. map_option (\<lambda>u. as_i64 (f u)) (to_usage opts))
      in \<lparr>rl_id = 0,
          rl_request_id = bc_request_id ctx,
          rl_request_type = request_type_as_str (to_request_type opts),
          rl_user_id = bc_user_id ctx, rl_api_key_id = bc_api_key_id ctx,
          rl_account_id = bc_account_id ctx,
          rl_model_raw = (if bc_model_raw ctx \<noteq> [] then Some (bc_model_raw ctx) else None),
          rl_model_normalized = normalized,
          rl_model_key = compute_model_key (bc_model_raw ctx) normalized,
          rl_usage_accounted = usage_accounted opts,
          rl_stream = to_stream opts,
          rl_started_at = bc_started_at ctx, rl_completed_at = Some now,
          rl_duration_ms = Some ((now - bc_started_at ctx) sdiv 1000000),
          rl_ttft_ms = Option.bind (to_usage opts) bu_ttft_ms,
          rl_status = to_status opts, rl_http_status = to_http_status opts,
          rl_input_tokens = tokens bu_input_tokens, rl_output_tokens = tokens bu_output_tokens,
          rl_cache_creation_tokens = tokens bu_cache_creation_tokens,
          rl_cache_read_tokens = tokens bu_cache_read_tokens,
          rl_priced_input = map_option fst prices, rl_priced_output = map_option snd prices,
          rl_cost_nanousd = log_cost io db ctx opts,
          rl_error_code = (case to_error_code opts of
              Some c \<Rightarrow> Some c
            | None \<Rightarrow> if to_status opts \<noteq> ''ok'' then Some (to_status opts) else None),
          rl_error_message = to_error_message opts,
          rl_response_body = to_response_body opts\<rparr>)"

definition guarded :: "bool \<Rightarrow> 'a option \<Rightarrow> 'a option" where
  "guarded ok r = (if ok then r else None)"

text \<open>The four totals, in the order of the code (statements 3 to 6).\<close>

definition upsert_totals ::
  "(nat \<Rightarrow> bool) \<Rightarrow> i64 \<Rightarrow> string \<times> string \<Rightarrow> string \<times> string \<Rightarrow> string \<Rightarrow> string \<Rightarrow> BillingUsage \<Rightarrow> i64
     \<Rightarrow> billing_db \<Rightarrow> billing_db option" where
  "upsert_totals io user_id week month model_key bucket_date usage cost db =
     Option.bind (guarded (io 3)
       (upsert_usage_rollup db user_id ''week'' (fst week) (snd week) usage cost)) (\<lambda>db1.
     Option.bind (guarded (io 4)
       (upsert_usage_rollup db1 user_id ''month'' (fst month) (snd month) usage cost)) (\<lambda>db2.
     Option.bind (guarded (io 5) (upsert_usage_lifetime_total db2 user_id usage cost)) (\<lambda>db3.
     guarded (io 6) (upsert_usage_daily_rollup db3 user_id model_key bucket_date usage cost))))"

text \<open>
  The transaction: log, audit sidecar, totals, commit. The month's bounds are computed between the
  statements; a panic there leaves the transaction uncommitted.
\<close>

datatype tx_result = Tx_Ok billing_db | Tx_Err | Tx_Panic

definition tx_of :: "billing_db option \<Rightarrow> tx_result" where
  "tx_of r = (case r of None \<Rightarrow> Tx_Err | Some db \<Rightarrow> Tx_Ok db)"

definition log_transaction ::
  "calendar \<Rightarrow> (nat \<Rightarrow> bool) \<Rightarrow> BillingContext \<Rightarrow> TerminalLogOptions \<Rightarrow> int \<Rightarrow> billing_db \<Rightarrow> tx_result" where
  "log_transaction cal io ctx opts now db =
     (case guarded (io 0 \<and> io 1) (insert_request_log db (terminal_row io db ctx opts now)) of
        None \<Rightarrow> Tx_Err
      | Some (log_id, db1) \<Rightarrow>
          (case (case bc_audit ctx of
                   None \<Rightarrow> Some db1
                 | Some audit \<Rightarrow> guarded (io 2) (insert_request_log_audit db1 log_id audit)) of
             None \<Rightarrow> Tx_Err
           | Some db2 \<Rightarrow>
               (case (usage_accounted opts, bc_user_id ctx, to_usage opts) of
                  (True, Some user_id, Some usage) \<Rightarrow>
                    (case current_month_bounds cal now of
                       None \<Rightarrow> Tx_Panic
                     | Some month \<Rightarrow>
                         (case upsert_totals io user_id (current_week_bounds cal now) month
                                 (compute_model_key (bc_model_raw ctx) (normalize_model (bc_model_raw ctx)))
                                 (daily_bucket_date_local cal (bc_started_at ctx)) usage
                                 (log_cost io db ctx opts) db2 of
                            None \<Rightarrow> Tx_Err
                          | Some db3 \<Rightarrow> tx_of (guarded (io 7) (Some db3))))
                | _ \<Rightarrow> tx_of (guarded (io 7) (Some db2)))))"

text \<open>\<open>None\<close>: the release build aborts on the panic.\<close>

definition persist_terminal_request_log ::
  "calendar \<Rightarrow> (nat \<Rightarrow> bool) \<Rightarrow> BillingContext \<Rightarrow> TerminalLogOptions \<Rightarrow> int \<Rightarrow> billing_db
     \<Rightarrow> billing_db option" where
  "persist_terminal_request_log cal io ctx opts now db =
     (case log_transaction cal io ctx opts now db of
        Tx_Ok db' \<Rightarrow> Some (db'\<lparr>b_events := b_events db'
            @ [(request_type_as_str (to_request_type opts), to_status opts)]\<rparr>)
      | Tx_Err \<Rightarrow> Some db
      | Tx_Panic \<Rightarrow> None)"

definition persist_billing_to_db ::
  "calendar \<Rightarrow> (nat \<Rightarrow> bool) \<Rightarrow> BillingContext \<Rightarrow> BillingUsage \<Rightarrow> bool \<Rightarrow> int \<Rightarrow> billing_db
     \<Rightarrow> billing_db option" where
  "persist_billing_to_db cal io ctx usage stream =
     persist_terminal_request_log cal io ctx
       \<lparr>to_request_type = Messages, to_stream = stream, to_status = ''ok'', to_http_status = Some 200,
        to_usage = Some usage, to_error_code = None, to_error_message = None,
        to_update_rollups = True, to_response_body = None\<rparr>"

definition persist_probe_log ::
  "calendar \<Rightarrow> (nat \<Rightarrow> bool) \<Rightarrow> BillingContext \<Rightarrow> RequestType \<Rightarrow> string \<Rightarrow> u16 option \<Rightarrow> string
     \<Rightarrow> string option \<Rightarrow> int \<Rightarrow> billing_db \<Rightarrow> billing_db option" where
  "persist_probe_log cal io ctx request_type status http_status response_body error_message =
     persist_terminal_request_log cal io ctx
       \<lparr>to_request_type = request_type, to_stream = False, to_status = status,
        to_http_status = http_status, to_usage = None,
        to_error_code = map_option (\<lambda>_. status) error_message, to_error_message = error_message,
        to_update_rollups = False, to_response_body = Some response_body\<rparr>"

section \<open>Quota\<close>

text \<open>
  \<open>None\<close>: the month's bounds panic. A database error fails closed; its text is \<open>err\<close>. Statements 0
  and 1 are the weekly and the monthly look-up.
\<close>

definition check_period :: "bool \<Rightarrow> string \<Rightarrow> billing_db \<Rightarrow> i64 \<Rightarrow> string \<Rightarrow> string \<Rightarrow> i64 \<Rightarrow> ClewdrError + unit" where
  "check_period ok err db user_id period_type period_start budget =
     (case guarded ok (get_current_period_cost db user_id period_type period_start) of
        None \<Rightarrow> Inl (SqlxError err)
      | Some current \<Rightarrow> if budget \<le> current then Inl QuotaExceeded else Inr ())"

definition positive :: "i64 option \<Rightarrow> i64 option" where
  "positive b = (case b of None \<Rightarrow> None | Some n \<Rightarrow> if 0 < n then Some n else None)"

definition check_quota ::
  "calendar \<Rightarrow> (nat \<Rightarrow> bool) \<Rightarrow> string \<Rightarrow> int \<Rightarrow> billing_db \<Rightarrow> i64 \<Rightarrow> i64 option \<Rightarrow> i64 option
     \<Rightarrow> (ClewdrError + unit) option" where
  "check_quota cal io err now db user_id weekly_budget monthly_budget =
     (let weekly = (case positive weekly_budget of
             None \<Rightarrow> Inr ()
           | Some budget \<Rightarrow>
               check_period (io 0) err db user_id ''week'' (fst (current_week_bounds cal now)) budget)
      in case weekly of
           Inl e \<Rightarrow> Some (Inl e)
         | Inr _ \<Rightarrow>
             (case positive monthly_budget of
                None \<Rightarrow> Some (Inr ())
              | Some budget \<Rightarrow>
                  (case current_month_bounds cal now of
                     None \<Rightarrow> None
                   | Some (month_start, _) \<Rightarrow>
                       Some (check_period (io 1) err db user_id ''month'' month_start budget))))"

section \<open>Exactness of the cost\<close>

lemma i64_wrap_id: "is_i64 n \<Longrightarrow> i64_wrap n = n"
  by (simp add: i64_wrap_def is_i64_def i64_min_def i64_max_def signed_take_bit_int_eq_self_iff)

lemma as_i64_small: "uint w < 2 ^ 63 \<Longrightarrow> as_i64 w = uint w"
  unfolding as_i64_def
  by (rule i64_wrap_id) (simp add: is_i64_def i64_min_def i64_max_def order_trans [OF _ uint_ge_0])

lemma sdiv_pos: "0 \<le> a \<Longrightarrow> 0 < b \<Longrightarrow> a sdiv b = a div (b :: int)"
  by (auto simp: signed_divide_int_def sgn_if)

text \<open>
  C39: For up to \<open>2^32\<close> tokens of each kind and prices of up to a million nano-dollars per token (the
  fallback prices among them) no step of the cost computation wraps: the cost is the exact price
  of the tokens, with the two cache multipliers rounded down to whole nano-dollars, and it is not
  negative.
\<close>

theorem cost_exact:
  assumes "uint (bu_input_tokens u) \<le> 2 ^ 32" "uint (bu_output_tokens u) \<le> 2 ^ 32"
    and "uint (bu_cache_creation_tokens u) \<le> 2 ^ 32" "uint (bu_cache_read_tokens u) \<le> 2 ^ 32"
    and "0 \<le> pin" "pin \<le> 1000000" "0 \<le> pout" "pout \<le> 1000000"
  shows "cost_nanousd u pin pout =
      uint (bu_input_tokens u) * pin + uint (bu_cache_creation_tokens u) * pin * 125 div 100
      + uint (bu_cache_read_tokens u) * pin * 10 div 100 + uint (bu_output_tokens u) * pout
    \<and> 0 \<le> cost_nanousd u pin pout"
proof -
  have bound: "0 \<le> uint (w :: u64) * p \<and> uint w * p \<le> 2 ^ 32 * 1000000"
    if "uint w \<le> 2 ^ 32" "0 \<le> p" "p \<le> 1000000" for w p
    using that by (intro conjI mult_mono mult_nonneg_nonneg) auto
  note b = bound [OF assms(1,5,6)] bound [OF assms(2,7,8)] bound [OF assms(3,5,6)] bound [OF assms(4,5,6)]
  have small: "as_i64 (bu_input_tokens u) = uint (bu_input_tokens u)"
    "as_i64 (bu_output_tokens u) = uint (bu_output_tokens u)"
    "as_i64 (bu_cache_creation_tokens u) = uint (bu_cache_creation_tokens u)"
    "as_i64 (bu_cache_read_tokens u) = uint (bu_cache_read_tokens u)"
    using assms by (auto intro!: as_i64_small)
  have id: "i64_wrap n = n" if "0 \<le> n" "n \<le> 2 ^ 62" for n
    using that by (intro i64_wrap_id) (simp add: is_i64_def i64_min_def i64_max_def)
  define a c r q where p: "a = uint (bu_input_tokens u) * pin" "c = uint (bu_cache_creation_tokens u) * pin"
    "r = uint (bu_cache_read_tokens u) * pin" "q = uint (bu_output_tokens u) * pout"
  note b = b [folded p]
  have w: "i64_wrap a = a" "i64_wrap c = c" "i64_wrap r = r" "i64_wrap q = q"
    "i64_wrap (c * 125) = c * 125" "i64_wrap (r * 10) = r * 10"
    using b by (auto intro!: id)
  have s: "c * 125 sdiv 100 = c * 125 div 100" "r * 10 sdiv 100 = r * 10 div 100"
    by (rule sdiv_pos; use b in simp)+
  have d: "0 \<le> c * 125 div 100" "c * 125 div 100 \<le> 2 ^ 60" "0 \<le> r * 10 div 100" "r * 10 div 100 \<le> 2 ^ 60"
    using b by auto
  have e: "i64_wrap (a + c * 125 div 100) = a + c * 125 div 100"
    "i64_wrap (a + c * 125 div 100 + r * 10 div 100) = a + c * 125 div 100 + r * 10 div 100"
    "i64_wrap (a + c * 125 div 100 + r * 10 div 100 + q) = a + c * 125 div 100 + r * 10 div 100 + q"
    using b d by (intro id; simp; linarith)+
  have "cost_nanousd u pin pout = a + c * 125 div 100 + r * 10 div 100 + q"
    unfolding cost_nanousd_def Let_def small p [symmetric] w s e ..
  then show ?thesis
    unfolding p [symmetric] using b d by linarith
qed

section \<open>The books\<close>

text \<open>What the logs alone say a total should be.\<close>

definition log_usage :: "RequestLogRow \<Rightarrow> usage_row \<Rightarrow> usage_row" where
  "log_usage l r =
     \<lparr>ur_request_count = sql_add (ur_request_count r) 1,
      ur_input_tokens = sql_add (ur_input_tokens r) (case rl_input_tokens l of None \<Rightarrow> 0 | Some n \<Rightarrow> n),
      ur_output_tokens = sql_add (ur_output_tokens r) (case rl_output_tokens l of None \<Rightarrow> 0 | Some n \<Rightarrow> n),
      ur_cache_creation_tokens = sql_add (ur_cache_creation_tokens r)
        (case rl_cache_creation_tokens l of None \<Rightarrow> 0 | Some n \<Rightarrow> n),
      ur_cache_read_tokens = sql_add (ur_cache_read_tokens r)
        (case rl_cache_read_tokens l of None \<Rightarrow> 0 | Some n \<Rightarrow> n),
      ur_cost_nanousd = sql_add (ur_cost_nanousd r) (rl_cost_nanousd l)\<rparr>"

definition no_usage :: usage_row where
  "no_usage = \<lparr>ur_request_count = SInt 0, ur_input_tokens = SInt 0, ur_output_tokens = SInt 0,
     ur_cache_creation_tokens = SInt 0, ur_cache_read_tokens = SInt 0, ur_cost_nanousd = SInt 0\<rparr>"

definition tally :: "RequestLogRow list \<Rightarrow> usage_row option" where
  "tally ls = (if ls = [] then None else Some (foldl (\<lambda>r l. log_usage l r) no_usage ls))"

definition billed :: "i64 \<Rightarrow> (RequestLogRow \<Rightarrow> bool) \<Rightarrow> billing_db \<Rightarrow> RequestLogRow list" where
  "billed u p db = filter (\<lambda>l. rl_usage_accounted l \<and> rl_user_id l = Some u \<and> p l) (b_logs db)"

definition in_week :: "calendar \<Rightarrow> string \<Rightarrow> RequestLogRow \<Rightarrow> bool" where
  "in_week cal p l = (case rl_completed_at l of None \<Rightarrow> False
     | Some t \<Rightarrow> fst (current_week_bounds cal t) = p)"

definition in_month :: "calendar \<Rightarrow> string \<Rightarrow> RequestLogRow \<Rightarrow> bool" where
  "in_month cal p l = (case rl_completed_at l of None \<Rightarrow> False
     | Some t \<Rightarrow> map_option fst (current_month_bounds cal t) = Some p)"

definition on_day :: "calendar \<Rightarrow> string \<Rightarrow> string \<Rightarrow> RequestLogRow \<Rightarrow> bool" where
  "on_day cal k d l \<longleftrightarrow> rl_model_key l = k \<and> daily_bucket_date_local cal (rl_started_at l) = d"

text \<open>Every total is the tally of the logs it stands for, and no request is logged twice.\<close>

definition books_ok :: "calendar \<Rightarrow> billing_db \<Rightarrow> bool" where
  "books_ok cal db \<longleftrightarrow>
     (\<forall>u. hm_get (b_lifetime db) u = tally (billed u (\<lambda>l. True) db))
     \<and> (\<forall>u p. map_option snd (hm_get (b_rollups db) (u, ''week'', p)) = tally (billed u (in_week cal p) db))
     \<and> (\<forall>u p. map_option snd (hm_get (b_rollups db) (u, ''month'', p)) = tally (billed u (in_month cal p) db))
     \<and> (\<forall>u k d. hm_get (b_daily db) (u, k, d) = tally (billed u (on_day cal k d) db))
     \<and> distinct (map rl_request_id (b_logs db))"

lemma tally_snoc: "tally (ls @ [l]) = Some (log_usage l (case tally ls of None \<Rightarrow> no_usage | Some r \<Rightarrow> r))"
  by (simp add: tally_def)

lemma hm_get_upsert:
  "hm_get (case hm_get m k of None \<Rightarrow> hm_insert k a m | Some r \<Rightarrow> hm_insert k (f r) m) k' =
     (if k' = k then Some (case hm_get m k of None \<Rightarrow> a | Some r \<Rightarrow> f r) else hm_get m k')"
  by (simp add: hm_get_insert split: option.splits)

text \<open>The effect of one upsert on a total.\<close>

definition bump :: "BillingUsage \<Rightarrow> i64 \<Rightarrow> usage_row option \<Rightarrow> usage_row option" where
  "bump u c x = Some (case x of None \<Rightarrow> first_usage u c | Some r \<Rightarrow> add_usage u c r)"

lemma upsert_usage_rollup_get:
  assumes "upsert_usage_rollup db u pt ps pe us c = Some db'"
  shows "db' = db\<lparr>b_rollups := b_rollups db'\<rparr>"
    and "map_option snd (hm_get (b_rollups db') k) =
      (if k = (u, pt, ps) then bump us c (map_option snd (hm_get (b_rollups db) k))
       else map_option snd (hm_get (b_rollups db) k))"
  using assms
  by (auto simp: upsert_usage_rollup_def Let_def bump_def hm_get_insert split: if_splits option.splits)

lemma upsert_usage_lifetime_get:
  assumes "upsert_usage_lifetime_total db u us c = Some db'"
  shows "db' = db\<lparr>b_lifetime := b_lifetime db'\<rparr>"
    and "hm_get (b_lifetime db') k =
      (if k = u then bump us c (hm_get (b_lifetime db) k) else hm_get (b_lifetime db) k)"
  using assms
  by (auto simp: upsert_usage_lifetime_total_def bump_def hm_get_upsert split: if_splits)

lemma upsert_usage_daily_get:
  assumes "upsert_usage_daily_rollup db u mk d us c = Some db'"
  shows "db' = db\<lparr>b_daily := b_daily db'\<rparr>"
    and "hm_get (b_daily db') k =
      (if k = (u, mk, d) then bump us c (hm_get (b_daily db) k) else hm_get (b_daily db) k)"
  using assms
  by (auto simp: upsert_usage_daily_rollup_def Let_def bump_def hm_get_upsert split: if_splits)

lemma upsert_totals_get:
  assumes "upsert_totals io u week month mk d us c db = Some db'"
  shows "b_logs db' = b_logs db"
    and "map_option snd (hm_get (b_rollups db') (v, ''week'', p)) =
      (if v = u \<and> p = fst week then bump us c (map_option snd (hm_get (b_rollups db) (v, ''week'', p)))
       else map_option snd (hm_get (b_rollups db) (v, ''week'', p)))"
    and "map_option snd (hm_get (b_rollups db') (v, ''month'', p)) =
      (if v = u \<and> p = fst month then bump us c (map_option snd (hm_get (b_rollups db) (v, ''month'', p)))
       else map_option snd (hm_get (b_rollups db) (v, ''month'', p)))"
    and "hm_get (b_lifetime db') v =
      (if v = u then bump us c (hm_get (b_lifetime db) v) else hm_get (b_lifetime db) v)"
    and "hm_get (b_daily db') (v, k, e) =
      (if (v, k, e) = (u, mk, d) then bump us c (hm_get (b_daily db) (v, k, e))
       else hm_get (b_daily db) (v, k, e))"
proof -
  from assms obtain d1 d2 d3 where
    s1: "upsert_usage_rollup db u ''week'' (fst week) (snd week) us c = Some d1" and
    s2: "upsert_usage_rollup d1 u ''month'' (fst month) (snd month) us c = Some d2" and
    s3: "upsert_usage_lifetime_total d2 u us c = Some d3" and
    s4: "upsert_usage_daily_rollup d3 u mk d us c = Some db'"
    by (auto simp: upsert_totals_def guarded_def bind_eq_Some_conv split: if_splits)
  note e = upsert_usage_rollup_get(1) [OF s1] upsert_usage_rollup_get(1) [OF s2]
    upsert_usage_lifetime_get(1) [OF s3] upsert_usage_daily_get(1) [OF s4]
  have f: "b_logs db' = b_logs db" "b_rollups db' = b_rollups d2" "b_lifetime db' = b_lifetime d3"
    "b_lifetime d2 = b_lifetime db" "b_daily d3 = b_daily db"
    using arg_cong [OF e(1), of b_logs] arg_cong [OF e(2), of b_logs] arg_cong [OF e(3), of b_logs]
      arg_cong [OF e(4), of b_logs] arg_cong [OF e(3), of b_rollups] arg_cong [OF e(4), of b_rollups]
      arg_cong [OF e(4), of b_lifetime] arg_cong [OF e(1), of b_lifetime] arg_cong [OF e(2), of b_lifetime]
      arg_cong [OF e(1), of b_daily] arg_cong [OF e(2), of b_daily] arg_cong [OF e(3), of b_daily]
    by simp_all
  show "b_logs db' = b_logs db" by (rule f(1))
  show "map_option snd (hm_get (b_rollups db') (v, ''week'', p)) =
      (if v = u \<and> p = fst week then bump us c (map_option snd (hm_get (b_rollups db) (v, ''week'', p)))
       else map_option snd (hm_get (b_rollups db) (v, ''week'', p)))"
    unfolding f(2) upsert_usage_rollup_get(2) [OF s2] upsert_usage_rollup_get(2) [OF s1] by simp
  show "map_option snd (hm_get (b_rollups db') (v, ''month'', p)) =
      (if v = u \<and> p = fst month then bump us c (map_option snd (hm_get (b_rollups db) (v, ''month'', p)))
       else map_option snd (hm_get (b_rollups db) (v, ''month'', p)))"
    unfolding f(2) upsert_usage_rollup_get(2) [OF s2] upsert_usage_rollup_get(2) [OF s1] by simp
  show "hm_get (b_lifetime db') v =
      (if v = u then bump us c (hm_get (b_lifetime db) v) else hm_get (b_lifetime db) v)"
    unfolding f(3) upsert_usage_lifetime_get(2) [OF s3] f(4) by simp
  show "hm_get (b_daily db') (v, k, e) =
      (if (v, k, e) = (u, mk, d) then bump us c (hm_get (b_daily db) (v, k, e))
       else hm_get (b_daily db) (v, k, e))"
    unfolding upsert_usage_daily_get(2) [OF s4] f(5) by simp
qed

text \<open>A committed transaction: one log more, and the four totals bumped when the usage counts.\<close>

lemma insert_request_log_Some:
  assumes "insert_request_log db r = Some (i, db')"
  shows "db' = db\<lparr>b_logs := b_logs db @ [r\<lparr>rl_id := i\<rparr>]\<rparr>"
    and "rl_request_id r \<notin> set (map rl_request_id (b_logs db))"
  using assms by (auto simp: insert_request_log_def Let_def split: if_splits)

lemma audit_frame:
  assumes "(case a of None \<Rightarrow> Some db1 | Some x \<Rightarrow> guarded ok (insert_request_log_audit db1 i x)) = Some db2"
  shows "db2 = db1\<lparr>b_audits := b_audits db2\<rparr>"
  using assms by (auto simp: guarded_def insert_request_log_audit_def split: option.splits if_splits)

lemma log_transaction_cases:
  assumes "log_transaction cal io ctx opts now db = Tx_Ok db'"
  obtains i db1 where
    "insert_request_log db (terminal_row io db ctx opts now) = Some (i, db1)"
    "\<not> (usage_accounted opts \<and> bc_user_id ctx \<noteq> None)" "\<exists>x. db' = db1\<lparr>b_audits := x\<rparr>"
  | i db1 x u us month where
    "insert_request_log db (terminal_row io db ctx opts now) = Some (i, db1)"
    "usage_accounted opts" "bc_user_id ctx = Some u" "to_usage opts = Some us"
    "current_month_bounds cal now = Some month"
    "upsert_totals io u (current_week_bounds cal now) month
       (compute_model_key (bc_model_raw ctx) (normalize_model (bc_model_raw ctx)))
       (daily_bucket_date_local cal (bc_started_at ctx)) us (log_cost io db ctx opts)
       (db1\<lparr>b_audits := x\<rparr>) = Some db'"
proof -
  obtain i db1 where ins: "insert_request_log db (terminal_row io db ctx opts now) = Some (i, db1)"
    and rest: "(case (case bc_audit ctx of None \<Rightarrow> Some db1
        | Some audit \<Rightarrow> guarded (io 2) (insert_request_log_audit db1 i audit)) of
      None \<Rightarrow> Tx_Err
    | Some db2 \<Rightarrow> (case (usage_accounted opts, bc_user_id ctx, to_usage opts) of
          (True, Some user_id, Some usage) \<Rightarrow>
            (case current_month_bounds cal now of
               None \<Rightarrow> Tx_Panic
             | Some month \<Rightarrow>
                 (case upsert_totals io user_id (current_week_bounds cal now) month
                         (compute_model_key (bc_model_raw ctx) (normalize_model (bc_model_raw ctx)))
                         (daily_bucket_date_local cal (bc_started_at ctx)) usage
                         (log_cost io db ctx opts) db2 of
                    None \<Rightarrow> Tx_Err
                  | Some db3 \<Rightarrow> tx_of (guarded (io 7) (Some db3))))
        | _ \<Rightarrow> tx_of (guarded (io 7) (Some db2)))) = Tx_Ok db'"
    using assms by (auto simp: log_transaction_def guarded_def split: if_splits option.splits)
  from rest obtain db2 where db2: "(case bc_audit ctx of None \<Rightarrow> Some db1
        | Some audit \<Rightarrow> guarded (io 2) (insert_request_log_audit db1 i audit)) = Some db2"
    by (cases "case bc_audit ctx of None \<Rightarrow> Some db1
        | Some audit \<Rightarrow> guarded (io 2) (insert_request_log_audit db1 i audit)") auto
  have db2': "db2 = db1\<lparr>b_audits := b_audits db2\<rparr>"
    by (rule audit_frame [OF db2])
  show thesis
  proof (cases "usage_accounted opts \<and> bc_user_id ctx \<noteq> None")
    case False
    with rest db2 have "db' = db2"
      by (auto simp: tx_of_def guarded_def split: if_splits option.splits bool.splits)
    with that(1) [OF ins False] db2' show thesis by metis
  next
    case True
    then obtain u us where uu: "bc_user_id ctx = Some u" "to_usage opts = Some us"
      by (auto simp: usage_accounted_def)
    with rest db2 True obtain month where "current_month_bounds cal now = Some month"
      "upsert_totals io u (current_week_bounds cal now) month
       (compute_model_key (bc_model_raw ctx) (normalize_model (bc_model_raw ctx)))
       (daily_bucket_date_local cal (bc_started_at ctx)) us (log_cost io db ctx opts) db2 = Some db'"
      by (auto simp: tx_of_def guarded_def split: if_splits option.splits)
    with that(2) [OF ins _ uu] True db2' show thesis by metis
  qed
qed

lemma log_usage_terminal:
  assumes "to_usage opts = Some us" and "l = (terminal_row io db ctx opts now)\<lparr>rl_id := i\<rparr>"
  shows "log_usage l r = add_usage us (log_cost io db ctx opts) r"
  using assms by (simp add: log_usage_def add_usage_def terminal_row_def Let_def)

lemma i64_wrap_range: "is_i64 (i64_wrap n)"
  using signed_take_bit_int_greater_eq_minus_exp [of 63 n] signed_take_bit_int_less_exp [of 63 n]
  by (simp add: i64_wrap_def is_i64_def i64_min_def i64_max_def)

lemma cost_range: "is_i64 (log_cost io db ctx opts)"
proof -
  have "is_i64 0"
    by (simp add: is_i64_def i64_min_def i64_max_def)
  then show ?thesis
    by (simp add: log_cost_def cost_nanousd_def Let_def i64_wrap_range split: option.split prod.split)
qed

lemma add_usage_none:
  "is_i64 c \<Longrightarrow> add_usage us c no_usage = first_usage us c"
  by (simp add: add_usage_def first_usage_def no_usage_def as_i64_def i64_wrap_range)
    (simp add: is_i64_def i64_min_def i64_max_def)

lemma bump_tally:
  assumes "to_usage opts = Some us" and "l = (terminal_row io db ctx opts now)\<lparr>rl_id := i\<rparr>"
  shows "tally (ls @ [l]) = bump us (log_cost io db ctx opts) (tally ls)"
  unfolding tally_snoc log_usage_terminal [OF assms] bump_def
  by (simp add: add_usage_none [OF cost_range] split: option.splits)

lemma billed_snoc:
  assumes "b_logs db' = b_logs db @ [l]"
  shows "billed u p db' = billed u p db @
    (if rl_usage_accounted l \<and> rl_user_id l = Some u \<and> p l then [l] else [])"
  using assms by (simp add: billed_def)

text \<open>A committed transaction keeps the books in order.\<close>

lemma books_ok_log:
  assumes ok: "books_ok cal db" and tx: "log_transaction cal io ctx opts now db = Tx_Ok db'"
  shows "books_ok cal db'"
  using tx
proof (cases rule: log_transaction_cases)
  case (1 i db1)
  let ?l = "(terminal_row io db ctx opts now)\<lparr>rl_id := i\<rparr>"
  note ins = insert_request_log_Some [OF 1(1)]
  have eqs: "b_logs db' = b_logs db @ [?l]" "b_lifetime db' = b_lifetime db"
    "b_rollups db' = b_rollups db" "b_daily db' = b_daily db"
    using 1(3) ins(1) by auto
  have "\<not> (rl_usage_accounted ?l \<and> rl_user_id ?l = Some u)" for u
    using 1(2) by (auto simp: terminal_row_def Let_def)
  then have "billed u p db' = billed u p db" for u p
    by (auto simp: billed_snoc [OF eqs(1)])
  with ok ins(2) eqs show ?thesis
    by (simp add: books_ok_def)
next
  case (2 i db1 x u us month)
  let ?l = "(terminal_row io db ctx opts now)\<lparr>rl_id := i\<rparr>"
  note ins = insert_request_log_Some [OF 2(1)]
  note tot = upsert_totals_get [OF 2(6)]
  have logs: "b_logs db' = b_logs db @ [?l]"
    using tot(1) ins(1) by simp
  have old: "b_lifetime (db1\<lparr>b_audits := x\<rparr>) = b_lifetime db"
    "b_rollups (db1\<lparr>b_audits := x\<rparr>) = b_rollups db" "b_daily (db1\<lparr>b_audits := x\<rparr>) = b_daily db"
    using ins(1) by simp_all
  have l: "rl_usage_accounted ?l" "rl_user_id ?l = Some u" "rl_completed_at ?l = Some now"
    "rl_started_at ?l = bc_started_at ctx" "rl_request_id ?l = bc_request_id ctx"
    "rl_model_key ?l = compute_model_key (bc_model_raw ctx) (normalize_model (bc_model_raw ctx))"
    using 2(2,3) by (simp_all add: terminal_row_def Let_def)
  have b: "tally (billed v p db') =
    (if v = u \<and> p ?l then bump us (log_cost io db ctx opts) (tally (billed v p db)) else tally (billed v p db))"
    for v p
    using bump_tally [OF 2(4) refl] l(1,2) by (auto simp: billed_snoc [OF logs])
  have p: "in_week cal q ?l \<longleftrightarrow> q = fst (current_week_bounds cal now)"
    "in_month cal q ?l \<longleftrightarrow> q = fst month"
    "on_day cal k d ?l \<longleftrightarrow> k = compute_model_key (bc_model_raw ctx) (normalize_model (bc_model_raw ctx))
      \<and> d = daily_bucket_date_local cal (bc_started_at ctx)" for q k d
    using l(3,4,6) 2(5) by (auto simp: in_week_def in_month_def on_day_def)
  have "rl_request_id ?l \<notin> set (map rl_request_id (b_logs db))"
    using ins(2) by simp
  then show ?thesis
    using ok unfolding books_ok_def tot(2-5) old logs b p
    by (intro conjI allI) auto
qed

section \<open>Any sequence of logs\<close>

datatype billing_event = Log "nat \<Rightarrow> bool" BillingContext TerminalLogOptions int

inductive billing_step :: "calendar \<Rightarrow> billing_db \<Rightarrow> billing_event \<Rightarrow> billing_db \<Rightarrow> bool"
  for cal :: calendar where
  "persist_terminal_request_log cal io ctx opts now db = Some db' \<Longrightarrow>
     billing_step cal db (Log io ctx opts now) db'"

inductive_cases billing_stepE: "billing_step cal db e db'"

lemma persist_cases:
  assumes "persist_terminal_request_log cal io ctx opts now db = Some db'"
  obtains "db' = db"
  | tx where "log_transaction cal io ctx opts now db = Tx_Ok tx"
      "db' = tx\<lparr>b_events := b_events tx @ [(request_type_as_str (to_request_type opts), to_status opts)]\<rparr>"
  using assms by (auto simp: persist_terminal_request_log_def split: tx_result.splits)

lemma books_ok_events: "books_ok cal (db\<lparr>b_events := es\<rparr>) = books_ok cal db"
  by (simp add: books_ok_def billed_def)

lemma books_ok_persist:
  assumes "books_ok cal db" and "persist_terminal_request_log cal io ctx opts now db = Some db'"
  shows "books_ok cal db'"
  using assms(2) by (cases rule: persist_cases) (auto simp: books_ok_events assms(1) intro: books_ok_log [OF assms(1)])

interpretation books: invariant_machine "billing_step cal" "books_ok cal" for cal
  by unfold_locales (auto elim!: billing_stepE intro: books_ok_persist)

text \<open>
  C4: However many requests are logged, in whatever order, with whichever statements failing on
  the way, the weekly, monthly, lifetime and daily totals of every user stay the tallies of the
  logs they stand for, and no request is ever logged or billed twice.
\<close>

theorem totals_match_logs:
  assumes "books_ok cal db" and "run (billing_step cal) db es db'"
  shows "hm_get (b_lifetime db') u = tally (billed u (\<lambda>l. True) db')
    \<and> map_option snd (hm_get (b_rollups db') (u, ''week'', p)) = tally (billed u (in_week cal p) db')
    \<and> map_option snd (hm_get (b_rollups db') (u, ''month'', p)) = tally (billed u (in_month cal p) db')
    \<and> hm_get (b_daily db') (u, k, d) = tally (billed u (on_day cal k d) db')
    \<and> distinct (map rl_request_id (b_logs db'))"
  using books.run_inv [OF assms(2,1)] by (simp add: books_ok_def)

end
