(* ===== verification/Billing_Quota.thy ===== *)
theory Billing_Quota
  imports Billing_Log
begin

text \<open>
  The periods of the budgets: under the laws of the calendar (\<open>calendar_ok\<close>) they are the weeks from
  Monday to Monday and the calendar months, and the cost read back from a total is the sum of the costs
  it was built from. Also the witnesses of the billing properties.
\<close>

section \<open>The calendar\<close>

text \<open>
  The documented behaviour of chrono's dates on the days from \<open>lo\<close> to \<open>hi\<close>: the days of the week
  cycle, with day 0 (1 January 1970) a Thursday; every day lies in its month, which reaches from its
  first day to the first day of the next; a first day belongs to one month; and different dates
  print differently.
\<close>

definition next_month :: "calendar \<Rightarrow> int \<Rightarrow> nat \<Rightarrow> int option" where
  "next_month cal y m = (if m = 12 then cal_from_ymd cal (y + 1) 1 1 else cal_from_ymd cal y (m + 1) 1)"

definition calendar_ok :: "calendar \<Rightarrow> int \<Rightarrow> int \<Rightarrow> bool" where
  "calendar_ok cal lo hi \<longleftrightarrow>
     (\<forall>d \<in> {lo..hi}. int (cal_weekday cal d) = (d + 3) mod 7)
     \<and> (\<forall>d \<in> {lo..hi}. \<forall>y m k. cal_ymd cal d = (y, m, k) \<longrightarrow>
          (\<exists>s n. cal_from_ymd cal y m 1 = Some s \<and> next_month cal y m = Some n
            \<and> (\<forall>e \<in> {lo..hi}. s \<le> e \<and> e < n \<longleftrightarrow> (\<exists>j. cal_ymd cal e = (y, m, j)))))
     \<and> (\<forall>y m y' m' s. cal_from_ymd cal y m 1 = Some s \<longrightarrow> cal_from_ymd cal y' m' 1 = Some s \<longrightarrow>
          y = y' \<and> m = m')
     \<and> inj (cal_format cal)"

lemma format_start_inj:
  assumes "calendar_ok cal lo hi"
  shows "format_start cal a = format_start cal b \<longleftrightarrow> a = b"
  using assms by (auto simp: calendar_ok_def format_start_def inj_eq)

lemma calendar_month:
  assumes "calendar_ok cal lo hi" and "d \<in> {lo..hi}" and "cal_ymd cal d = (y, m, k)"
  obtains s n where "cal_from_ymd cal y m 1 = Some s" "next_month cal y m = Some n"
    "\<forall>e \<in> {lo..hi}. s \<le> e \<and> e < n \<longleftrightarrow> (\<exists>j. cal_ymd cal e = (y, m, j))"
proof -
  have "\<forall>d \<in> {lo..hi}. \<forall>y m k. cal_ymd cal d = (y, m, k) \<longrightarrow>
          (\<exists>s n. cal_from_ymd cal y m 1 = Some s \<and> next_month cal y m = Some n
            \<and> (\<forall>e \<in> {lo..hi}. s \<le> e \<and> e < n \<longleftrightarrow> (\<exists>j. cal_ymd cal e = (y, m, j))))"
    using assms(1) unfolding calendar_ok_def by (elim conjE) assumption
  from this [THEN bspec, OF assms(2), THEN spec, THEN spec, THEN spec, THEN mp, OF assms(3)] that
  show thesis by blast
qed

text \<open>A week is the seven days from its Monday, and every day has one week.\<close>

lemma week_days_same:
  assumes "calendar_ok cal lo hi" and "date_naive a \<in> {lo..hi}" "date_naive b \<in> {lo..hi}"
  shows "fst (week_days cal b) = fst (week_days cal a) \<longleftrightarrow>
    fst (week_days cal a) \<le> date_naive b \<and> date_naive b < snd (week_days cal a)"
    and "fst (week_days cal a) \<le> date_naive a \<and> date_naive a < snd (week_days cal a)"
proof -
  define x y where xy: "x = date_naive a" "y = date_naive b"
  have w: "int (cal_weekday cal x) = (x + 3) mod 7" "int (cal_weekday cal y) = (y + 3) mod 7"
    using assms by (auto simp: calendar_ok_def xy)
  define q where "q = (x + 3) div 7"
  have monday: "z - (z + 3) mod 7 = 7 * ((z + 3) div 7) - 3" for z :: int
    using div_mult_mod_eq [of "z + 3" 7] by linarith
  have "(y + 3) div 7 = q \<longleftrightarrow> 7 * q \<le> y + 3 \<and> y + 3 < 7 * q + 7"
    by presburger
  then have "y - (y + 3) mod 7 = x - (x + 3) mod 7 \<longleftrightarrow> x - (x + 3) mod 7 \<le> y \<and> y < x - (x + 3) mod 7 + 7"
    unfolding monday q_def [symmetric] by linarith
  moreover have "x - (x + 3) mod 7 \<le> x \<and> x < x - (x + 3) mod 7 + 7"
    using pos_mod_bound [of 7 "x + 3"] pos_mod_sign [of 7 "x + 3"] by linarith
  ultimately show "fst (week_days cal b) = fst (week_days cal a) \<longleftrightarrow>
    fst (week_days cal a) \<le> date_naive b \<and> date_naive b < snd (week_days cal a)"
    "fst (week_days cal a) \<le> date_naive a \<and> date_naive a < snd (week_days cal a)"
    using w by (simp_all add: week_days_def Let_def xy)
qed

lemma month_days_same:
  assumes ok: "calendar_ok cal lo hi" and a: "date_naive a \<in> {lo..hi}" and b: "date_naive b \<in> {lo..hi}"
  obtains s n where "month_days cal a = Some (s, n)" "s \<le> date_naive a" "date_naive a < n"
    "map_option fst (month_days cal b) = Some s \<longleftrightarrow> s \<le> date_naive b \<and> date_naive b < n"
proof -
  obtain y m k y' m' k' where ya: "cal_ymd cal (date_naive a) = (y, m, k)"
    and yb: "cal_ymd cal (date_naive b) = (y', m', k')"
    by (cases "cal_ymd cal (date_naive a)", cases "cal_ymd cal (date_naive b)") auto
  obtain s n where sn: "cal_from_ymd cal y m 1 = Some s" "next_month cal y m = Some n"
    and in_a: "\<forall>e \<in> {lo..hi}. s \<le> e \<and> e < n \<longleftrightarrow> (\<exists>j. cal_ymd cal e = (y, m, j))"
    by (rule calendar_month [OF ok a ya])
  obtain s' n' where sn': "cal_from_ymd cal y' m' 1 = Some s'" "next_month cal y' m' = Some n'"
    by (rule calendar_month [OF ok b yb])
  have "month_days cal a = Some (s, n)" "month_days cal b = Some (s', n')"
    using ya sn yb sn' by (simp_all add: month_days_def next_month_def split: if_splits)
  moreover have "s' = s \<longleftrightarrow> y' = y \<and> m' = m"
    using ok sn(1) sn'(1) unfolding calendar_ok_def by (metis option.inject)
  moreover have "s \<le> date_naive b \<and> date_naive b < n \<longleftrightarrow> y' = y \<and> m' = m"
    using in_a [THEN bspec, OF b] yb by auto
  moreover have "s \<le> date_naive a" "date_naive a < n"
    using in_a [THEN bspec, OF a] ya by auto
  ultimately show thesis
    using that by simp
qed

section \<open>The cost in a total\<close>

lemma tally_cost_foldl:
  assumes "ur_cost_nanousd r = SInt c" "0 \<le> c" "\<forall>l \<in> set ls. 0 \<le> rl_cost_nanousd l"
    and "c + sum_list (map rl_cost_nanousd ls) \<le> i64_max"
  shows "ur_cost_nanousd (foldl (\<lambda>r l. log_usage l r) r ls) = SInt (c + sum_list (map rl_cost_nanousd ls))"
  using assms
proof (induction ls arbitrary: r c)
  case (Cons l ls)
  have "0 \<le> sum_list (map rl_cost_nanousd ls)"
    using Cons.prems(3) by (auto intro!: sum_list_nonneg)
  then have "ur_cost_nanousd (log_usage l r) = SInt (c + rl_cost_nanousd l)"
    using Cons.prems by (simp add: log_usage_def is_i64_def i64_min_def i64_max_def)
  from Cons.IH [OF this] Cons.prems show ?case
    by (simp add: algebra_simps)
qed simp

lemma period_cost:
  assumes t: "map_option snd (hm_get (b_rollups db) (u, pt, p)) = tally ls"
    and nn: "\<forall>l \<in> set ls. 0 \<le> rl_cost_nanousd l" and mx: "sum_list (map rl_cost_nanousd ls) \<le> i64_max"
  shows "get_current_period_cost db u pt p = Some (sum_list (map rl_cost_nanousd ls))"
proof (cases "ls = []")
  case True
  with t show ?thesis
    by (simp add: tally_def get_current_period_cost_def)
next
  case False
  with t obtain e where e: "hm_get (b_rollups db) (u, pt, p) = Some (e, foldl (\<lambda>r l. log_usage l r) no_usage ls)"
    by (auto simp: tally_def)
  have "ur_cost_nanousd (foldl (\<lambda>r l. log_usage l r) no_usage ls) = SInt (0 + sum_list (map rl_cost_nanousd ls))"
    by (rule tally_cost_foldl) (use nn mx in \<open>simp_all add: no_usage_def\<close>)
  with e show ?thesis
    by (simp add: get_current_period_cost_def)
qed

lemma sum_filter_le:
  "\<forall>l \<in> set ls. 0 \<le> (f l :: int) \<Longrightarrow> sum_list (map f (filter p ls)) \<le> sum_list (map f ls)"
  by (induction ls) auto

section \<open>Witnesses\<close>

text \<open>January 1970, with dates printed in unary.\<close>

definition january :: calendar where
  "january =
     \<lparr>cal_weekday = (\<lambda>d. nat ((d + 3) mod 7)),
      cal_ymd = (\<lambda>d. (1970, 1, nat (d + 1))),
      cal_from_ymd = (\<lambda>y m k. if y = 1970 \<and> k = 1 \<and> m = 1 then Some 0
         else if y = 1970 \<and> k = 1 \<and> m = 2 then Some 31 else None),
      cal_format = (\<lambda>d. replicate (if d < 0 then nat (- (2 * d) - 1) else nat (2 * d)) CHR ''1'')\<rparr>"

lemma january_ok: "calendar_ok january 0 30"
proof -
  have "inj (cal_format january)"
  proof (rule injI)
    fix d e :: int
    assume "cal_format january d = cal_format january e"
    from arg_cong [OF this, of length] show "d = e"
      by (auto simp: january_def eq_nat_nat_iff split: if_splits) presburger+
  qed
  then show ?thesis
    by (auto simp: calendar_ok_def january_def next_month_def split: if_splits)
qed

definition empty_books :: billing_db where
  "empty_books = \<lparr>b_logs = [], b_audits = [], b_rollups = [], b_lifetime = [], b_daily = [],
     b_pricing = [(''claude-opus-4-6'', (5000, 25000))], b_user_ids = [5], b_api_key_ids = [],
     b_account_ids = [], b_events = []\<rparr>"

lemma empty_books_ok: "books_ok cal empty_books"
  by (simp add: books_ok_def empty_books_def billed_def tally_def)

definition sample_ctx :: BillingContext where
  "sample_ctx = \<lparr>bc_user_id = Some 5, bc_api_key_id = None, bc_account_id = None,
     bc_model_raw = ''claude-opus-4-6'', bc_request_id = ''r1'', bc_started_at = 0, bc_audit = None\<rparr>"

definition sample_usage :: BillingUsage where
  "sample_usage = \<lparr>bu_input_tokens = 100, bu_output_tokens = 10, bu_cache_creation_tokens = 3,
     bu_cache_read_tokens = 7, bu_ttft_ms = None\<rparr>"

definition sample_opts :: TerminalLogOptions where
  "sample_opts = \<lparr>to_request_type = Messages, to_stream = True, to_status = ''ok'', to_http_status = Some 200,
        to_usage = Some sample_usage, to_error_code = None, to_error_message = None,
        to_update_rollups = True, to_response_body = None\<rparr>"

definition one_log :: billing_db where
  "one_log = the (persist_terminal_request_log january (\<lambda>n. True) sample_ctx sample_opts 864000000000000 empty_books)"

lemma one_log_run:
  "run (billing_step january) empty_books [Log (\<lambda>n. True) sample_ctx sample_opts 864000000000000] one_log"
proof -
  have "persist_terminal_request_log january (\<lambda>n. True) sample_ctx sample_opts 864000000000000 empty_books \<noteq> None"
    by code_simp
  then have "persist_terminal_request_log january (\<lambda>n. True) sample_ctx sample_opts 864000000000000 empty_books
    = Some one_log"
    by (simp add: one_log_def)
  then show ?thesis
    by (auto simp: run_Cons_iff intro: billing_step.intros)
qed

theorem totals_match_logs_witness:
  "length (b_logs one_log) = 1 \<and> hm_get (b_lifetime one_log) 5 = tally (billed 5 (\<lambda>l. True) one_log)"
proof -
  have "length (b_logs one_log) = 1"
    by code_simp
  with totals_match_logs [OF empty_books_ok one_log_run, of 5] show ?thesis
    by blast
qed

theorem cost_exact_witness: "cost_nanousd sample_usage 5000 25000 = 772250"
proof -
  have "uint (bu_input_tokens sample_usage) = 100" "uint (bu_output_tokens sample_usage) = 10"
    "uint (bu_cache_creation_tokens sample_usage) = 3" "uint (bu_cache_read_tokens sample_usage) = 7"
    by (simp_all add: sample_usage_def)
  with cost_exact [of sample_usage 5000 25000] show ?thesis
    by simp
qed

end
