(* ===== verification/Stream_Accumulator.thy ===== *)
theory Stream_Accumulator
  imports Json_Value
begin

text \<open>
  \<open>NonStreamMessageAccumulator\<close> (\<open>src/src/claude_code_state/chat.rs\<close>): it rebuilds one Messages JSON
  document from the server-sent events of an upstream stream. The JSON parser is an argument
  \<open>from_str\<close> (\<open>Inl\<close> the text of its error); an object is an association list in which an insertion
  replaces the value of a present key. A failed event ends the stream, so a failure carries no
  state.
\<close>

section \<open>State and operations\<close>

record accumulator =
  message :: "json option"
  partial_json :: "(nat, string) hash_map"

definition new_accumulator :: accumulator where
  "new_accumulator = \<lparr>message = None, partial_json = []\<rparr>"

text \<open>\<open>content_mut\<close>: the content array, and the message with it replaced.\<close>

definition content_of :: "accumulator \<Rightarrow> string + json list" where
  "content_of acc =
     (case Option.bind (Option.bind (message acc) (\<lambda>m. json_get m ''content'')) as_array of
        None \<Rightarrow> Inl ''upstream message_start omitted content array''
      | Some xs \<Rightarrow> Inr xs)"

definition set_content :: "json list \<Rightarrow> accumulator \<Rightarrow> accumulator" where
  "set_content xs acc = acc\<lparr>message := map_option (\<lambda>m. case m of
       JObj kvs \<Rightarrow> JObj (hm_insert ''content'' (JArr xs) kvs) | _ \<Rightarrow> m) (message acc)\<rparr>"

definition set_content_block :: "nat \<Rightarrow> json \<Rightarrow> accumulator \<Rightarrow> string + accumulator" where
  "set_content_block index block acc =
     (case content_of acc of
        Inl e \<Rightarrow> Inl e
      | Inr content \<Rightarrow>
          if length content < index
          then Inl (''upstream content block index '' @ show_nat index @ '' skipped index ''
                    @ show_nat (length content))
          else if index = length content then Inr (set_content (content @ [block]) acc)
          else Inr (set_content (content[index := block]) acc))"

text \<open>
  \<open>self.content_mut()?.get_mut(index).and_then(as_object_mut).ok_or_else(..)?\<close> followed by a change of
  the block.
\<close>

definition with_block ::
  "nat \<Rightarrow> string \<Rightarrow> ((string \<times> json) list \<Rightarrow> string + (string \<times> json) list) \<Rightarrow> accumulator
     \<Rightarrow> string + accumulator" where
  "with_block index missing f acc =
     (case content_of acc of
        Inl e \<Rightarrow> Inl e
      | Inr content \<Rightarrow>
          (case (if index < length content then as_object (content ! index) else None) of
             None \<Rightarrow> Inl missing
           | Some block \<Rightarrow>
               (case f block of
                  Inl e \<Rightarrow> Inl e
                | Inr block' \<Rightarrow> Inr (set_content (content[index := JObj block']) acc))))"

definition append_block_string ::
  "nat \<Rightarrow> string \<Rightarrow> (string \<times> json) list \<Rightarrow> string \<Rightarrow> accumulator \<Rightarrow> string + accumulator" where
  "append_block_string index target_key delta delta_key acc =
     (case Option.bind (map_of delta delta_key) as_str of
        None \<Rightarrow> Inr acc
      | Some fragment \<Rightarrow>
          with_block index (''content block '' @ show_nat index @ '' was missing'') (\<lambda>block.
            case (case map_of block target_key of None \<Rightarrow> Some [] | Some v \<Rightarrow> as_str v) of
              None \<Rightarrow> Inl (''content block '' @ show_nat index @ ''.'' @ target_key @ '' was not a string'')
            | Some target \<Rightarrow> Inr (hm_insert target_key (JStr (target @ fragment)) block)) acc)"

definition finish_partial_json ::
  "(string \<Rightarrow> string + json) \<Rightarrow> nat \<Rightarrow> accumulator \<Rightarrow> string + accumulator" where
  "finish_partial_json from_str index acc =
     (case hm_get (partial_json acc) index of
        None \<Rightarrow> Inr acc
      | Some raw \<Rightarrow>
          (case from_str raw of
             Inl err \<Rightarrow> Inl (''invalid tool input JSON in block '' @ show_nat index @ '': '' @ err)
           | Inr input \<Rightarrow>
               with_block index (''tool content block '' @ show_nat index @ '' was missing'')
                 (\<lambda>block. Inr (hm_insert ''input'' input block))
                 (acc\<lparr>partial_json := hm_remove index (partial_json acc)\<rparr>)))"

fun finish_all ::
  "(string \<Rightarrow> string + json) \<Rightarrow> nat list \<Rightarrow> accumulator \<Rightarrow> string + accumulator" where
  "finish_all from_str [] acc = Inr acc"
| "finish_all from_str (i # is) acc =
     (case finish_partial_json from_str i acc of
        Inl e \<Rightarrow> Inl e | Inr acc' \<Rightarrow> finish_all from_str is acc')"

definition push_citation :: "nat \<Rightarrow> json \<Rightarrow> accumulator \<Rightarrow> string + accumulator" where
  "push_citation index citation =
     with_block index (''content block '' @ show_nat index @ '' was missing'') (\<lambda>block.
       case (case map_of block ''citations'' of None \<Rightarrow> Some [] | Some v \<Rightarrow> as_array v) of
         None \<Rightarrow> Inl (''content block '' @ show_nat index @ ''.citations was not an array'')
       | Some citations \<Rightarrow> Inr (hm_insert ''citations'' (JArr (citations @ [citation])) block))"

definition apply_delta :: "nat \<Rightarrow> (string \<times> json) list \<Rightarrow> accumulator \<Rightarrow> string + accumulator" where
  "apply_delta index delta acc =
     (let delta_type = unwrap_or_default (Option.bind (map_of delta ''type'') as_str)
      in if delta_type = ''text_delta'' then append_block_string index ''text'' delta ''text'' acc
         else if delta_type = ''thinking_delta''
         then append_block_string index ''thinking'' delta ''thinking'' acc
         else if delta_type = ''signature_delta''
         then append_block_string index ''signature'' delta ''signature'' acc
         else if delta_type = ''input_json_delta''
         then Inr (case Option.bind (map_of delta ''partial_json'') as_str of
                None \<Rightarrow> acc
              | Some fragment \<Rightarrow> acc\<lparr>partial_json := hm_insert index
                  (unwrap_or_default (hm_get (partial_json acc) index) @ fragment) (partial_json acc)\<rparr>)
         else if delta_type = ''citations_delta''
         then (case map_of delta ''citation'' of None \<Rightarrow> Inr acc | Some c \<Rightarrow> push_citation index c acc)
         else Inr acc)"

definition insert_present :: "string \<Rightarrow> (string \<times> json) list \<Rightarrow> (string \<times> json) list \<Rightarrow> (string \<times> json) list" where
  "insert_present k src target = (case map_of src k of None \<Rightarrow> target | Some v \<Rightarrow> hm_insert k v target)"

definition insert_all :: "(string \<times> json) list \<Rightarrow> (string \<times> json) list \<Rightarrow> (string \<times> json) list" where
  "insert_all src target = foldl (\<lambda>t (k, v). hm_insert k v t) target src"

definition apply_message_delta :: "json \<Rightarrow> accumulator \<Rightarrow> string + accumulator" where
  "apply_message_delta event acc =
     (case Option.bind (message acc) as_object of
        None \<Rightarrow> Inl ''message_delta arrived before message_start''
      | Some m0 \<Rightarrow>
          let m1 = (case get_object event ''delta'' of
                None \<Rightarrow> m0
              | Some delta \<Rightarrow> insert_present ''stop_sequence'' delta (insert_present ''stop_reason'' delta m0))
          in case get_object event ''usage'' of
               None \<Rightarrow> Inr (acc\<lparr>message := Some (JObj m1)\<rparr>)
             | Some usage \<Rightarrow>
                 (case as_object (case map_of m1 ''usage'' of None \<Rightarrow> JObj [] | Some v \<Rightarrow> v) of
                    None \<Rightarrow> Inl ''message usage was not an object''
                  | Some target \<Rightarrow>
                      Inr (acc\<lparr>message := Some (JObj (hm_insert ''usage''
                        (JObj (insert_all usage target)) m1))\<rparr>)))"

definition error_message_of :: "json \<Rightarrow> string" where
  "error_message_of event =
     (let error = (case json_get event ''error'' of None \<Rightarrow> event | Some e \<Rightarrow> e)
      in case get_str error ''message'' of
           None \<Rightarrow> ''upstream stream returned an error''
         | Some m \<Rightarrow> m)"

text \<open>\<open>apply\<close> after the event is parsed: the flag says that the message is complete.\<close>

definition apply_event ::
  "(string \<Rightarrow> string + json) \<Rightarrow> json \<Rightarrow> accumulator \<Rightarrow> string + bool \<times> accumulator" where
  "apply_event from_str event acc =
     (let event_type = unwrap_or_default (get_str event ''type'');
          continue = map_sum id (Pair False)
      in if event_type = ''message_start''
         then (case json_get event ''message'' of
                 None \<Rightarrow> Inl ''upstream message_start omitted message''
               | Some m \<Rightarrow> Inr (False, acc\<lparr>message := Some m\<rparr>))
         else if event_type = ''content_block_start''
         then (case get_u64 event ''index'' of
                 None \<Rightarrow> Inl ''content_block_start omitted index''
               | Some index \<Rightarrow>
                   (case json_get event ''content_block'' of
                      None \<Rightarrow> Inl ''content_block_start omitted content_block''
                    | Some block \<Rightarrow> continue (set_content_block index block acc)))
         else if event_type = ''content_block_delta''
         then (case get_u64 event ''index'' of
                 None \<Rightarrow> Inl ''content_block_delta omitted index''
               | Some index \<Rightarrow>
                   (case get_object event ''delta'' of
                      None \<Rightarrow> Inl ''content_block_delta omitted delta''
                    | Some delta \<Rightarrow> continue (apply_delta index delta acc)))
         else if event_type = ''content_block_stop''
         then (case get_u64 event ''index'' of
                 None \<Rightarrow> Inr (False, acc)
               | Some index \<Rightarrow> continue (finish_partial_json from_str index acc))
         else if event_type = ''message_delta'' then continue (apply_message_delta event acc)
         else if event_type = ''message_stop''
         then map_sum id (Pair True) (finish_all from_str (map fst (partial_json acc)) acc)
         else if event_type = ''error'' then Inl (error_message_of event)
         else Inr (False, acc))"

definition accumulator_apply ::
  "(string \<Rightarrow> string + json) \<Rightarrow> string \<Rightarrow> accumulator \<Rightarrow> string + bool \<times> accumulator" where
  "accumulator_apply from_str data acc =
     (case from_str data of
        Inl err \<Rightarrow> Inl (''invalid upstream SSE JSON: '' @ err)
      | Inr event \<Rightarrow> apply_event from_str event acc)"

text \<open>\<open>finish\<close>, up to the serialisation of the value.\<close>

definition accumulator_finish :: "accumulator \<Rightarrow> string + json" where
  "accumulator_finish acc =
     (case message acc of
        None \<Rightarrow> Inl ''upstream stream ended before message_start''
      | Some m \<Rightarrow> Inr m)"

text \<open>
  The loop of \<open>forward_stream_as_non_stream\<close>, as far as the document is concerned: events are applied
  in order until one completes the message or fails; a stream that ends before that is an error.
\<close>

fun accumulate :: "(string \<Rightarrow> string + json) \<Rightarrow> accumulator \<Rightarrow> string list \<Rightarrow> string + json" where
  "accumulate from_str acc [] = Inl ''upstream stream ended before message_stop''"
| "accumulate from_str acc (d # ds) =
     (case accumulator_apply from_str d acc of
        Inl e \<Rightarrow> Inl e
      | Inr (True, acc') \<Rightarrow> accumulator_finish acc'
      | Inr (False, acc') \<Rightarrow> accumulate from_str acc' ds)"

end
