(* ===== verification/Stream_Roundtrip.thy ===== *)
theory Stream_Roundtrip
  imports Stream_Accumulator
begin

text \<open>
  What an upstream stream of a finished message looks like, and that the accumulator rebuilds the
  message from it, however the text, the thinking, the signatures and the tool inputs are cut into
  fragments, and whatever keep-alive events lie between them.
\<close>

section \<open>Streams\<close>

datatype block_delta = Text_D string | Thinking_D string | Signature_D string | Json_D string | Cite_D json

fun delta_object :: "block_delta \<Rightarrow> (string \<times> json) list" where
  "delta_object (Text_D s) = [(''type'', JStr ''text_delta''), (''text'', JStr s)]"
| "delta_object (Thinking_D s) = [(''type'', JStr ''thinking_delta''), (''thinking'', JStr s)]"
| "delta_object (Signature_D s) = [(''type'', JStr ''signature_delta''), (''signature'', JStr s)]"
| "delta_object (Json_D s) = [(''type'', JStr ''input_json_delta''), (''partial_json'', JStr s)]"
| "delta_object (Cite_D c) = [(''type'', JStr ''citations_delta''), (''citation'', c)]"

definition start_event :: "(string \<times> json) list \<Rightarrow> json" where
  "start_event kvs = JObj [(''type'', JStr ''message_start''), (''message'', JObj kvs)]"

definition block_start_event :: "nat \<Rightarrow> (string \<times> json) list \<Rightarrow> json" where
  "block_start_event i obj =
     JObj [(''type'', JStr ''content_block_start''), (''index'', JInt (int i)), (''content_block'', JObj obj)]"

definition delta_event :: "nat \<Rightarrow> block_delta \<Rightarrow> json" where
  "delta_event i d =
     JObj [(''type'', JStr ''content_block_delta''), (''index'', JInt (int i)), (''delta'', JObj (delta_object d))]"

definition block_stop_event :: "nat \<Rightarrow> json" where
  "block_stop_event i = JObj [(''type'', JStr ''content_block_stop''), (''index'', JInt (int i))]"

definition message_delta_event :: "(string \<times> json) list \<Rightarrow> (string \<times> json) list \<Rightarrow> json" where
  "message_delta_event delta usage =
     JObj [(''type'', JStr ''message_delta''), (''delta'', JObj delta), (''usage'', JObj usage)]"

definition stop_event :: json where
  "stop_event = JObj [(''type'', JStr ''message_stop'')]"

definition ping_event :: json where
  "ping_event = JObj [(''type'', JStr ''ping'')]"

type_synonym stream_block = "(string \<times> json) list \<times> block_delta list"

definition block_events :: "nat \<Rightarrow> stream_block \<Rightarrow> json list" where
  "block_events i b = block_start_event i (fst b) # map (delta_event i) (snd b) @ [block_stop_event i]"

fun blocks_events :: "nat \<Rightarrow> stream_block list \<Rightarrow> json list" where
  "blocks_events i [] = []"
| "blocks_events i (b # bs) = block_events i b @ blocks_events (Suc i) bs"

definition stream_events ::
  "(string \<times> json) list \<Rightarrow> stream_block list \<Rightarrow> (string \<times> json) list \<Rightarrow> (string \<times> json) list \<Rightarrow> json list" where
  "stream_events kvs blocks delta usage =
     start_event kvs # blocks_events 0 blocks @ [message_delta_event delta usage, stop_event]"

section \<open>The message a stream stands for\<close>

fun texts :: "block_delta list \<Rightarrow> string list" where
  "texts [] = []" | "texts (Text_D s # ds) = s # texts ds" | "texts (_ # ds) = texts ds"

fun thinkings :: "block_delta list \<Rightarrow> string list" where
  "thinkings [] = []" | "thinkings (Thinking_D s # ds) = s # thinkings ds" | "thinkings (_ # ds) = thinkings ds"

fun signatures :: "block_delta list \<Rightarrow> string list" where
  "signatures [] = []" | "signatures (Signature_D s # ds) = s # signatures ds"
| "signatures (_ # ds) = signatures ds"

fun jsons :: "block_delta list \<Rightarrow> string list" where
  "jsons [] = []" | "jsons (Json_D s # ds) = s # jsons ds" | "jsons (_ # ds) = jsons ds"

fun cites :: "block_delta list \<Rightarrow> json list" where
  "cites [] = []" | "cites (Cite_D c # ds) = c # cites ds" | "cites (_ # ds) = cites ds"

text \<open>A string (array) field extended by fragments; absent counts as empty.\<close>

definition extended :: "json option \<Rightarrow> string list \<Rightarrow> json option" where
  "extended v frags = (if frags = [] then v
     else Some (JStr (unwrap_or_default (Option.bind v as_str) @ concat frags)))"

definition extended_array :: "json option \<Rightarrow> json list \<Rightarrow> json option" where
  "extended_array v cs = (if cs = [] then v
     else Some (JArr ((case Option.bind v as_array of None \<Rightarrow> [] | Some xs \<Rightarrow> xs) @ cs)))"

definition streamed :: "(string \<times> json) list \<Rightarrow> block_delta list \<Rightarrow> string \<rightharpoonup> json" where
  "streamed obj ds =
     (map_of obj)(''text'' := extended (map_of obj ''text'') (texts ds),
       ''thinking'' := extended (map_of obj ''thinking'') (thinkings ds),
       ''signature'' := extended (map_of obj ''signature'') (signatures ds),
       ''citations'' := extended_array (map_of obj ''citations'') (cites ds))"

text \<open>A finished block: its fields extended by their fragments, its input parsed.\<close>

definition finished_block ::
  "(string \<Rightarrow> string + json) \<Rightarrow> (string \<times> json) list \<Rightarrow> block_delta list \<Rightarrow> string \<rightharpoonup> json" where
  "finished_block from_str obj ds =
     (if jsons ds = [] then streamed obj ds
      else (streamed obj ds)(''input'' := (case from_str (concat (jsons ds)) of
         Inl e \<Rightarrow> None | Inr v \<Rightarrow> Some v)))"

definition str_field :: "(string \<times> json) list \<Rightarrow> string \<Rightarrow> bool" where
  "str_field obj k = (case map_of obj k of None \<Rightarrow> True | Some v \<Rightarrow> as_str v \<noteq> None)"

definition block_ok :: "(string \<Rightarrow> string + json) \<Rightarrow> stream_block \<Rightarrow> bool" where
  "block_ok from_str b \<longleftrightarrow>
     str_field (fst b) ''text'' \<and> str_field (fst b) ''thinking'' \<and> str_field (fst b) ''signature''
     \<and> (case map_of (fst b) ''citations'' of None \<Rightarrow> True | Some v \<Rightarrow> as_array v \<noteq> None)
     \<and> (jsons (snd b) = [] \<or> (\<exists>v. from_str (concat (jsons (snd b))) = Inr v))"

section \<open>The accumulator on parsed events\<close>

fun accumulate_parsed ::
  "(string \<Rightarrow> string + json) \<Rightarrow> accumulator \<Rightarrow> (string + json) list \<Rightarrow> string + json" where
  "accumulate_parsed from_str acc [] = Inl ''upstream stream ended before message_stop''"
| "accumulate_parsed from_str acc (Inl err # es) = Inl (''invalid upstream SSE JSON: '' @ err)"
| "accumulate_parsed from_str acc (Inr event # es) =
     (case apply_event from_str event acc of
        Inl e \<Rightarrow> Inl e
      | Inr (True, acc') \<Rightarrow> accumulator_finish acc'
      | Inr (False, acc') \<Rightarrow> accumulate_parsed from_str acc' es)"

fun apply_events ::
  "(string \<Rightarrow> string + json) \<Rightarrow> accumulator \<Rightarrow> json list \<Rightarrow> accumulator option" where
  "apply_events from_str acc [] = Some acc"
| "apply_events from_str acc (e # es) =
     (case apply_event from_str e acc of
        Inr (False, acc') \<Rightarrow> apply_events from_str acc' es
      | _ \<Rightarrow> None)"

lemma accumulate_parsed: "accumulate from_str acc ds = accumulate_parsed from_str acc (map from_str ds)"
  by (induction ds arbitrary: acc)
    (auto simp: accumulator_apply_def split: sum.splits prod.splits bool.splits)

lemma apply_ping: "apply_event from_str ping_event acc = Inr (False, acc)"
  by (simp add: apply_event_def ping_event_def get_str_def unwrap_or_default_def Let_def)

lemma accumulate_without_pings:
  "accumulate_parsed from_str acc (filter (\<lambda>e. e \<noteq> Inr ping_event) es) = accumulate_parsed from_str acc es"
  by (induction from_str acc es rule: accumulate_parsed.induct)
    (auto simp: apply_ping split: sum.splits prod.splits bool.splits)

lemma accumulate_prefix:
  "apply_events from_str acc es = Some acc' \<Longrightarrow>
     accumulate_parsed from_str acc (map Inr es @ rest) = accumulate_parsed from_str acc' rest"
  by (induction es arbitrary: acc) (auto split: sum.splits prod.splits bool.splits)

lemma apply_events_append:
  "apply_events from_str acc (es @ fs) =
     Option.bind (apply_events from_str acc es) (\<lambda>acc'. apply_events from_str acc' fs)"
  by (induction es arbitrary: acc) (auto split: sum.splits prod.splits bool.splits)

section \<open>One block\<close>

text \<open>The accumulator in the middle of a message: the finished blocks and the pending tool input.\<close>

definition midway :: "(string \<times> json) list \<Rightarrow> json list \<Rightarrow> (nat, string) hash_map \<Rightarrow> accumulator" where
  "midway kvs content pending =
     \<lparr>message = Some (JObj (hm_insert ''content'' (JArr content) kvs)), partial_json = pending\<rparr>"

lemma content_of_midway [simp]: "content_of (midway kvs content pending) = Inr content"
  by (simp add: content_of_def midway_def update_conv')

lemma set_content_midway [simp]:
  "set_content content' (midway kvs content pending) = midway kvs content' pending"
  by (simp add: set_content_def midway_def)

lemma partial_json_midway [simp]:
  "partial_json (midway kvs content pending) = pending"
  "(midway kvs content pending)\<lparr>partial_json := pending'\<rparr> = midway kvs content pending'"
  by (simp_all add: midway_def)

lemma with_block_last:
  "with_block (length cs) e f (midway kvs (cs @ [JObj b]) pending) =
     map_sum id (\<lambda>b'. midway kvs (cs @ [JObj b']) pending) (f b)"
  by (simp add: with_block_def split: sum.splits)

lemma get_fields [simp]:
  "json_get (JObj kvs) k = map_of kvs k"
  "get_str (JObj kvs) k = Option.bind (map_of kvs k) as_str"
  "get_u64 (JObj kvs) k = Option.bind (map_of kvs k) as_u64"
  "get_object (JObj kvs) k = Option.bind (map_of kvs k) as_object"
  by (simp_all add: get_str_def get_u64_def get_object_def)

lemma as_u64_int: "i < 2 ^ 64 \<Longrightarrow> as_u64 (JInt (int i)) = Some i"
  by simp

lemma fragments_append [simp]:
  "texts (ds @ es) = texts ds @ texts es" "thinkings (ds @ es) = thinkings ds @ thinkings es"
  "signatures (ds @ es) = signatures ds @ signatures es" "jsons (ds @ es) = jsons ds @ jsons es"
  "cites (ds @ es) = cites ds @ cites es"
  by (induction ds rule: texts.induct; simp)+

lemma extended_snoc:
  assumes "case v of None \<Rightarrow> True | Some w \<Rightarrow> as_str w \<noteq> None"
  obtains t where "(case extended v fs of None \<Rightarrow> Some [] | Some w \<Rightarrow> as_str w) = Some t"
    "extended v (fs @ [s]) = Some (JStr (t @ s))"
  using assms by (cases "fs = []") (auto simp: extended_def unwrap_or_default_def split: option.splits)

lemma extended_array_snoc:
  assumes "case v of None \<Rightarrow> True | Some w \<Rightarrow> as_array w \<noteq> None"
  obtains t where "(case extended_array v fs of None \<Rightarrow> Some [] | Some w \<Rightarrow> as_array w) = Some t"
    "extended_array v (fs @ [c]) = Some (JArr (t @ [c]))"
  using assms by (cases "fs = []") (auto simp: extended_array_def split: option.splits)

definition pending :: "nat \<Rightarrow> block_delta list \<Rightarrow> (nat, string) hash_map" where
  "pending i ds = (if jsons ds = [] then [] else [(i, concat (jsons ds))])"

lemma streamed_fields:
  "streamed obj ds ''text'' = extended (map_of obj ''text'') (texts ds)"
  "streamed obj ds ''thinking'' = extended (map_of obj ''thinking'') (thinkings ds)"
  "streamed obj ds ''signature'' = extended (map_of obj ''signature'') (signatures ds)"
  "streamed obj ds ''citations'' = extended_array (map_of obj ''citations'') (cites ds)"
  by (simp_all add: streamed_def)

lemma str_field_step:
  assumes "str_field obj k" and "map_of b k = extended (map_of obj k) fs"
  obtains t where "(case map_of b k of None \<Rightarrow> Some [] | Some w \<Rightarrow> as_str w) = Some t"
    "extended (map_of obj k) (fs @ [s]) = Some (JStr (t @ s))"
  using extended_snoc [of "map_of obj k" fs s thesis] assms unfolding str_field_def by auto

lemma append_string_last:
  assumes "map_of delta dk = Some (JStr s)"
    and "(case map_of b k of None \<Rightarrow> Some [] | Some w \<Rightarrow> as_str w) = Some t"
  shows "append_block_string (length cs) k delta dk (midway kvs (cs @ [JObj b]) pend) =
    Inr (midway kvs (cs @ [JObj (hm_insert k (JStr (t @ s)) b)]) pend)"
  using assms by (simp add: append_block_string_def with_block_last)

lemma apply_delta_step:
  assumes ok: "block_ok from_str (obj, ds)" and b: "map_of b = streamed obj ps"
  shows "\<exists>b'. apply_delta (length cs) (delta_object d) (midway kvs (cs @ [JObj b]) (pending (length cs) ps))
      = Inr (midway kvs (cs @ [JObj b']) (pending (length cs) (ps @ [d])))
    \<and> map_of b' = streamed obj (ps @ [d])"
proof (cases d)
  case (Text_D s)
  obtain t where t: "(case map_of b ''text'' of None \<Rightarrow> Some [] | Some w \<Rightarrow> as_str w) = Some t"
    "extended (map_of obj ''text'') (texts ps @ [s]) = Some (JStr (t @ s))"
    by (rule str_field_step [of obj "''text''" b "texts ps" s])
      (use ok in \<open>simp_all add: block_ok_def b streamed_fields\<close>)
  have "map_of (hm_insert ''text'' (JStr (t @ s)) b) = streamed obj (ps @ [d])"
    using Text_D b t(2) by (auto simp: streamed_def update_conv' fun_eq_iff)
  with append_string_last [OF _ t(1)] Text_D show ?thesis
    by (auto simp: apply_delta_def unwrap_or_default_def pending_def)
next
  case (Thinking_D s)
  obtain t where t: "(case map_of b ''thinking'' of None \<Rightarrow> Some [] | Some w \<Rightarrow> as_str w) = Some t"
    "extended (map_of obj ''thinking'') (thinkings ps @ [s]) = Some (JStr (t @ s))"
    by (rule str_field_step [of obj "''thinking''" b "thinkings ps" s])
      (use ok in \<open>simp_all add: block_ok_def b streamed_fields\<close>)
  have "map_of (hm_insert ''thinking'' (JStr (t @ s)) b) = streamed obj (ps @ [d])"
    using Thinking_D b t(2) by (auto simp: streamed_def update_conv' fun_eq_iff)
  with append_string_last [OF _ t(1)] Thinking_D show ?thesis
    by (auto simp: apply_delta_def unwrap_or_default_def pending_def)
next
  case (Signature_D s)
  obtain t where t: "(case map_of b ''signature'' of None \<Rightarrow> Some [] | Some w \<Rightarrow> as_str w) = Some t"
    "extended (map_of obj ''signature'') (signatures ps @ [s]) = Some (JStr (t @ s))"
    by (rule str_field_step [of obj "''signature''" b "signatures ps" s])
      (use ok in \<open>simp_all add: block_ok_def b streamed_fields\<close>)
  have "map_of (hm_insert ''signature'' (JStr (t @ s)) b) = streamed obj (ps @ [d])"
    using Signature_D b t(2) by (auto simp: streamed_def update_conv' fun_eq_iff)
  with append_string_last [OF _ t(1)] Signature_D show ?thesis
    by (auto simp: apply_delta_def unwrap_or_default_def pending_def)
next
  case (Json_D s)
  have "streamed obj (ps @ [d]) = streamed obj ps"
    using Json_D by (simp add: streamed_def)
  with Json_D b show ?thesis
    by (auto simp: apply_delta_def unwrap_or_default_def pending_def)
next
  case (Cite_D c)
  obtain t where t: "(case map_of b ''citations'' of None \<Rightarrow> Some [] | Some w \<Rightarrow> as_array w) = Some t"
    "extended_array (map_of obj ''citations'') (cites ps @ [c]) = Some (JArr (t @ [c]))"
    unfolding b streamed_fields
    by (rule extended_array_snoc [of "map_of obj ''citations''" "cites ps" c])
      (use ok in \<open>simp_all add: block_ok_def\<close>)
  have "map_of (hm_insert ''citations'' (JArr (t @ [c])) b) = streamed obj (ps @ [d])"
    using Cite_D b t(2) by (auto simp: streamed_def update_conv' fun_eq_iff)
  with t(1) Cite_D show ?thesis
    by (auto simp: apply_delta_def push_citation_def unwrap_or_default_def pending_def with_block_last)
qed

lemma apply_deltas:
  assumes ok: "block_ok from_str (obj, all)" and i: "length cs < 2 ^ 64" and b: "map_of b = streamed obj ps"
  shows "\<exists>b'. apply_events from_str (midway kvs (cs @ [JObj b]) (pending (length cs) ps))
        (map (delta_event (length cs)) ds)
      = Some (midway kvs (cs @ [JObj b']) (pending (length cs) (ps @ ds)))
    \<and> map_of b' = streamed obj (ps @ ds)"
  using b
proof (induction ds arbitrary: ps b)
  case (Cons d ds)
  from apply_delta_step [OF ok Cons.prems, of cs d kvs] obtain b1 where b1:
    "apply_delta (length cs) (delta_object d) (midway kvs (cs @ [JObj b]) (pending (length cs) ps))
      = Inr (midway kvs (cs @ [JObj b1]) (pending (length cs) (ps @ [d])))"
    "map_of b1 = streamed obj (ps @ [d])" by blast
  have "apply_event from_str (delta_event (length cs) d) (midway kvs (cs @ [JObj b]) (pending (length cs) ps))
      = Inr (False, midway kvs (cs @ [JObj b1]) (pending (length cs) (ps @ [d])))"
    using b1(1) i by (simp add: apply_event_def delta_event_def unwrap_or_default_def Let_def)
  with Cons.IH [OF b1(2)] show ?case by simp
qed auto

lemma apply_block:
  assumes ok: "block_ok from_str (obj, ds)" and i: "length cs < 2 ^ 64"
  shows "\<exists>b. apply_events from_str (midway kvs cs []) (block_events (length cs) (obj, ds))
      = Some (midway kvs (cs @ [JObj b]) []) \<and> map_of b = finished_block from_str obj ds"
proof -
  have start: "apply_event from_str (block_start_event (length cs) obj) (midway kvs cs []) =
    Inr (False, midway kvs (cs @ [JObj obj]) (pending (length cs) []))"
    using i by (simp add: apply_event_def block_start_event_def unwrap_or_default_def Let_def
        set_content_block_def pending_def)
  have "map_of obj = streamed obj []"
    by (simp add: streamed_def extended_def extended_array_def)
  from apply_deltas [OF ok i this, of kvs ds] obtain b where b:
    "apply_events from_str (midway kvs (cs @ [JObj obj]) (pending (length cs) []))
        (map (delta_event (length cs)) ds) = Some (midway kvs (cs @ [JObj b]) (pending (length cs) ds))"
    "map_of b = streamed obj ds" by auto
  define b' where "b' = (if jsons ds = [] then b
    else hm_insert ''input'' (case from_str (concat (jsons ds)) of Inl e \<Rightarrow> JNull | Inr v \<Rightarrow> v) b)"
  have "finish_partial_json from_str (length cs) (midway kvs (cs @ [JObj b]) (pending (length cs) ds)) =
    Inr (midway kvs (cs @ [JObj b']) [])"
    using ok by (auto simp: finish_partial_json_def pending_def b'_def block_ok_def with_block_last)
  then have "apply_event from_str (block_stop_event (length cs))
      (midway kvs (cs @ [JObj b]) (pending (length cs) ds)) = Inr (False, midway kvs (cs @ [JObj b']) [])"
    using i by (simp add: apply_event_def block_stop_event_def unwrap_or_default_def Let_def)
  moreover have "map_of b' = finished_block from_str obj ds"
    using b(2) ok by (auto simp: b'_def finished_block_def block_ok_def update_conv')
  ultimately show ?thesis
    using start b(1) by (intro exI [of _ b']) (simp add: block_events_def apply_events_append)
qed

lemma apply_blocks:
  assumes "\<forall>b \<in> set bs. block_ok from_str b" and "length cs + length bs \<le> 2 ^ 64"
  shows "\<exists>ds. apply_events from_str (midway kvs cs []) (blocks_events (length cs) bs)
      = Some (midway kvs (cs @ ds) []) \<and> length ds = length bs
    \<and> (\<forall>i < length bs. \<exists>b. ds ! i = JObj b \<and> map_of b = finished_block from_str (fst (bs ! i)) (snd (bs ! i)))"
  using assms
proof (induction bs arbitrary: cs)
  case (Cons x bs)
  have "block_ok from_str (fst x, snd x)" "length cs < 2 ^ 64"
    using Cons.prems by auto
  from apply_block [OF this, of kvs] obtain b where b:
    "apply_events from_str (midway kvs cs []) (block_events (length cs) x) = Some (midway kvs (cs @ [JObj b]) [])"
    "map_of b = finished_block from_str (fst x) (snd x)" by auto
  from Cons.IH [of "cs @ [JObj b]"] Cons.prems obtain ds where ds:
    "apply_events from_str (midway kvs (cs @ [JObj b]) []) (blocks_events (Suc (length cs)) bs)
      = Some (midway kvs (cs @ JObj b # ds) [])" "length ds = length bs"
    "\<forall>i < length bs. \<exists>b. ds ! i = JObj b \<and> map_of b = finished_block from_str (fst (bs ! i)) (snd (bs ! i))"
    by auto
  with b show ?case
    by (intro exI [of _ "JObj b # ds"]) (auto simp: apply_events_append nth_Cons split: nat.splits)
qed simp

section \<open>The whole stream\<close>

lemma map_of_insert_all:
  "distinct (map fst src) \<Longrightarrow>
     map_of (insert_all src target) k = (case map_of src k of Some v \<Rightarrow> Some v | None \<Rightarrow> map_of target k)"
proof (induction src arbitrary: target)
  case (Cons p src)
  obtain k' v where p: "p = (k', v)" by (cases p)
  with Cons.prems have "map_of src k' = None"
    by (auto simp: map_of_eq_None_iff)
  with Cons p show ?case
    by (auto simp: insert_all_def update_conv' split: option.splits)
qed (simp add: insert_all_def)

lemma map_of_insert_present:
  "map_of (insert_present k src target) k' =
     (if k' = k \<and> map_of src k \<noteq> None then map_of src k else map_of target k')"
  by (auto simp: insert_present_def update_conv' split: option.splits)

lemma apply_start:
  assumes "map_of kvs ''content'' = Some (JArr [])"
  shows "apply_event from_str (start_event kvs) new_accumulator = Inr (False, midway kvs [] [])"
proof -
  have "hm_insert ''content'' (JArr []) kvs = kvs"
    using assms by (induction kvs) auto
  then show ?thesis
    by (simp add: apply_event_def start_event_def new_accumulator_def midway_def unwrap_or_default_def Let_def)
qed

lemma apply_fin:
  assumes "map_of kvs ''usage'' = Some (JObj us0)" and "distinct (map fst usage)"
  shows "\<exists>m u. apply_event from_str (message_delta_event delta usage) (midway kvs cs []) =
      Inr (False, \<lparr>message = Some (JObj m), partial_json = []\<rparr>)
    \<and> map_of m ''content'' = Some (JArr cs) \<and> map_of m ''usage'' = Some (JObj u)
    \<and> (\<forall>k. map_of u k = (case map_of usage k of Some v \<Rightarrow> Some v | None \<Rightarrow> map_of us0 k))
    \<and> (\<forall>k. k \<noteq> ''content'' \<longrightarrow> k \<noteq> ''usage'' \<longrightarrow> map_of m k =
        (if k \<in> {''stop_reason'', ''stop_sequence''} \<and> map_of delta k \<noteq> None then map_of delta k
         else map_of kvs k))"
proof -
  let ?m = "hm_insert ''usage'' (JObj (insert_all usage us0)) (insert_present ''stop_sequence'' delta
    (insert_present ''stop_reason'' delta (hm_insert ''content'' (JArr cs) kvs)))"
  have "apply_event from_str (message_delta_event delta usage) (midway kvs cs []) =
      Inr (False, \<lparr>message = Some (JObj ?m), partial_json = []\<rparr>)"
    using assms(1)
    by (simp add: apply_event_def message_delta_event_def unwrap_or_default_def Let_def
        apply_message_delta_def midway_def map_of_insert_present update_conv')
  moreover have "map_of ?m ''content'' = Some (JArr cs)"
    "map_of ?m ''usage'' = Some (JObj (insert_all usage us0))"
    by (simp_all add: map_of_insert_present update_conv')
  moreover have "map_of ?m k = (if k \<in> {''stop_reason'', ''stop_sequence''} \<and> map_of delta k \<noteq> None
      then map_of delta k else map_of kvs k)" if "k \<noteq> ''content''" "k \<noteq> ''usage''" for k
    using that
    by (cases "k = ''stop_reason''"; cases "k = ''stop_sequence''"; cases "map_of delta k")
      (simp_all add: map_of_insert_present update_conv')
  ultimately show ?thesis
    using map_of_insert_all [OF assms(2)] by blast
qed

text \<open>
  C17: A stream that announces a message, sends its content blocks in order with their text, thinking,
  signature, citation and tool-input deltas cut and mixed arbitrarily, and ends with the stop reason
  and the final usage, is rebuilt completely, keep-alive events and anything after the stop
  notwithstanding: every block has each field's fragments joined in order and its tool input parsed,
  the usage is the initial one overridden by the final one, and all other fields are kept.
\<close>

theorem accumulate_rebuilds:
  assumes kvs: "map_of kvs ''content'' = Some (JArr [])" "map_of kvs ''usage'' = Some (JObj us0)"
    and blocks: "\<forall>b \<in> set blocks. block_ok from_str b" "length blocks \<le> 2 ^ 64"
    and usage: "distinct (map fst usage)"
    and data: "filter (\<lambda>e. e \<noteq> Inr ping_event) (map from_str data) =
      map Inr (stream_events kvs blocks delta usage) @ rest"
  shows "\<exists>m cs u. accumulate from_str new_accumulator data = Inr (JObj m)
    \<and> map_of m ''content'' = Some (JArr cs) \<and> length cs = length blocks
    \<and> (\<forall>i < length blocks. \<exists>b. cs ! i = JObj b
          \<and> map_of b = finished_block from_str (fst (blocks ! i)) (snd (blocks ! i)))
    \<and> map_of m ''usage'' = Some (JObj u)
    \<and> (\<forall>k. map_of u k = (case map_of usage k of Some v \<Rightarrow> Some v | None \<Rightarrow> map_of us0 k))
    \<and> (\<forall>k. k \<noteq> ''content'' \<longrightarrow> k \<noteq> ''usage'' \<longrightarrow> map_of m k =
        (if k \<in> {''stop_reason'', ''stop_sequence''} \<and> map_of delta k \<noteq> None then map_of delta k
         else map_of kvs k))"
proof -
  from apply_blocks [OF blocks(1), of "[]" kvs] blocks(2) obtain cs where cs:
    "apply_events from_str (midway kvs [] []) (blocks_events 0 blocks) = Some (midway kvs cs [])"
    "length cs = length blocks"
    "\<forall>i < length blocks. \<exists>b. cs ! i = JObj b
        \<and> map_of b = finished_block from_str (fst (blocks ! i)) (snd (blocks ! i))"
    by auto
  from apply_fin [OF kvs(2) usage, of from_str delta cs] obtain m u where m:
    "apply_event from_str (message_delta_event delta usage) (midway kvs cs []) =
      Inr (False, \<lparr>message = Some (JObj m), partial_json = []\<rparr>)"
    and rest: "map_of m ''content'' = Some (JArr cs)" "map_of m ''usage'' = Some (JObj u)"
    "\<forall>k. map_of u k = (case map_of usage k of Some v \<Rightarrow> Some v | None \<Rightarrow> map_of us0 k)"
    "\<forall>k. k \<noteq> ''content'' \<longrightarrow> k \<noteq> ''usage'' \<longrightarrow> map_of m k =
        (if k \<in> {''stop_reason'', ''stop_sequence''} \<and> map_of delta k \<noteq> None then map_of delta k
         else map_of kvs k)"
    by blast
  let ?done = "\<lparr>message = Some (JObj m), partial_json = []\<rparr>"
  have "apply_events from_str new_accumulator
      (start_event kvs # blocks_events 0 blocks @ [message_delta_event delta usage]) = Some ?done"
    using apply_start [OF kvs(1), of from_str] cs(1) m by (simp add: apply_events_append)
  from accumulate_prefix [OF this, of "Inr stop_event # rest"]
  have "accumulate_parsed from_str new_accumulator
      (map Inr (stream_events kvs blocks delta usage) @ rest) =
    accumulate_parsed from_str ?done (Inr stop_event # rest)"
    by (simp add: stream_events_def)
  also have "\<dots> = Inr (JObj m)"
    by (simp add: apply_event_def stop_event_def unwrap_or_default_def Let_def accumulator_finish_def)
  finally have "accumulate from_str new_accumulator data = Inr (JObj m)"
    unfolding accumulate_parsed data [symmetric] accumulate_without_pings .
  with cs rest show ?thesis by blast
qed

section \<open>Witness\<close>

text \<open>A parser that knows five events and a tool input, by their names.\<close>

definition sample_message :: "(string \<times> json) list" where
  "sample_message = [(''id'', JStr ''m''), (''content'', JArr []), (''usage'', JObj [(''input_tokens'', JInt 3)])]"

definition sample_blocks :: "stream_block list" where
  "sample_blocks = [([(''type'', JStr ''text''), (''text'', JStr [])], [Text_D ''he'', Text_D ''llo''])]"

definition sample_from_str :: "string \<Rightarrow> string + json" where
  "sample_from_str s =
     (case s of [c] \<Rightarrow>
        (let i = of_char c - 48 in
         if i < (7 :: nat) then Inr ((stream_events sample_message sample_blocks
             [(''stop_reason'', JStr ''end_turn'')] [(''output_tokens'', JInt 2)]) ! i)
         else Inr ping_event)
      | _ \<Rightarrow> Inl ''expected one character'')"

theorem accumulate_rebuilds_witness:
  "\<exists>m cs u b. accumulate sample_from_str new_accumulator [''0'', ''9'', ''1'', ''2'', ''9'', ''3'', ''4'', ''5'', ''6'']
      = Inr (JObj m)
    \<and> map_of m ''content'' = Some (JArr cs) \<and> cs ! 0 = JObj b \<and> map_of b ''text'' = Some (JStr ''hello'')
    \<and> map_of m ''usage'' = Some (JObj u) \<and> map_of u ''input_tokens'' = Some (JInt 3)
    \<and> map_of u ''output_tokens'' = Some (JInt 2) \<and> map_of m ''stop_reason'' = Some (JStr ''end_turn'')"
proof -
  have data: "filter (\<lambda>e. e \<noteq> Inr ping_event)
      (map sample_from_str [''0'', ''9'', ''1'', ''2'', ''9'', ''3'', ''4'', ''5'', ''6'']) =
    map Inr (stream_events sample_message sample_blocks
      [(''stop_reason'', JStr ''end_turn'')] [(''output_tokens'', JInt 2)]) @ []"
    by code_simp
  have blocks: "\<forall>b \<in> set sample_blocks. block_ok sample_from_str b" "length sample_blocks \<le> 2 ^ 64"
    by (simp_all add: sample_blocks_def block_ok_def str_field_def)
  have kvs: "map_of sample_message ''content'' = Some (JArr [])"
    "map_of sample_message ''usage'' = Some (JObj [(''input_tokens'', JInt 3)])"
    by (simp_all add: sample_message_def)
  have hello: "finished_block sample_from_str (fst (sample_blocks ! 0)) (snd (sample_blocks ! 0)) ''text''
      = Some (JStr ''hello'')"
    by (simp add: finished_block_def sample_blocks_def streamed_def extended_def unwrap_or_default_def)
  obtain m cs u where r: "accumulate sample_from_str new_accumulator
      [''0'', ''9'', ''1'', ''2'', ''9'', ''3'', ''4'', ''5'', ''6''] = Inr (JObj m)"
    "map_of m ''content'' = Some (JArr cs)"
    "\<forall>i < length sample_blocks. \<exists>b. cs ! i = JObj b
        \<and> map_of b = finished_block sample_from_str (fst (sample_blocks ! i)) (snd (sample_blocks ! i))"
    "map_of m ''usage'' = Some (JObj u)"
    "\<forall>k. map_of u k = (case map_of [(''output_tokens'', JInt 2)] k of Some v \<Rightarrow> Some v
        | None \<Rightarrow> map_of [(''input_tokens'', JInt 3)] k)"
    "\<forall>k. k \<noteq> ''content'' \<longrightarrow> k \<noteq> ''usage'' \<longrightarrow> map_of m k =
        (if k \<in> {''stop_reason'', ''stop_sequence''} \<and> map_of [(''stop_reason'', JStr ''end_turn'')] k \<noteq> None
         then map_of [(''stop_reason'', JStr ''end_turn'')] k else map_of sample_message k)"
    using accumulate_rebuilds [OF kvs blocks _ data] by auto
  have "0 < length sample_blocks"
    by (simp add: sample_blocks_def)
  with r(3) obtain b where "cs ! 0 = JObj b" "map_of b ''text'' = Some (JStr ''hello'')"
    using hello by metis
  moreover have "map_of u ''input_tokens'' = Some (JInt 3)" "map_of u ''output_tokens'' = Some (JInt 2)"
    using r(5) by simp_all
  moreover have "map_of m ''stop_reason'' = Some (JStr ''end_turn'')"
    using r(6) by simp
  ultimately show ?thesis
    using r(1,2,4) by blast
qed

text \<open>
  A tool block whose only fragment is empty makes the accumulator fail, although the block carries an
  input already: the empty text is no JSON document.
\<close>

lemma empty_fragment_fails:
  assumes "from_str [] = Inl e" "hm_get (partial_json acc) i = Some []"
  shows "finish_partial_json from_str i acc = Inl (''invalid tool input JSON in block '' @ show_nat i @ '': '' @ e)"
  using assms by (simp add: finish_partial_json_def)

end
