(* ===== verification/Chat_State.thy ===== *)
theory Chat_State
  imports Pool_Actor Billing_Log
begin

text \<open>
  The request state (\<open>ClaudeCodeState\<close> of \<open>src/src/claude_code_state/mod.rs\<close>) and the operations that
  tie it to the account pool: acquiring and releasing an account, the token check, the verdicts on
  failures and what they write (\<open>src/src/claude_code_state/chat.rs\<close>).

  An operation returns the effects it has on the outside, in order: messages to the pool actor,
  statements on the account tables, terminal logs. \<open>Granted\<close> marks the moment at which the pool has
  charged a slot to this request. What the outside answers is an argument. The URL type of the url
  crate, the header values of the http crate and the client builder of the wreq crate are arguments.
\<close>

section \<open>Base URLs\<close>

record 'u url_ops =
  u_parse :: "string \<Rightarrow> string + 'u"
  u_scheme :: "'u \<Rightarrow> string"
  u_path :: "'u \<Rightarrow> string"
  u_set_path :: "'u \<Rightarrow> string \<Rightarrow> 'u"

definition normalize_path :: "string \<Rightarrow> string" where
  "normalize_path path =
     (let stripped = (case strip_suffix path ''/v1/'' of
            Some s \<Rightarrow> s
          | None \<Rightarrow> (case strip_suffix path ''/v1'' of Some s \<Rightarrow> s | None \<Rightarrow> path))
      in if stripped = [] then ''/'' else if ends_with stripped ''/'' then stripped else stripped @ ''/'')"

definition normalize_api_key_base_url :: "'u url_ops \<Rightarrow> string \<Rightarrow> ClewdrError + 'u" where
  "normalize_api_key_base_url ops raw =
     (let trimmed = trim raw in
      if trimmed = [] then Inl (BadRequestMessage ''api_key base_url is empty'')
      else case u_parse ops trimmed of
             Inl e \<Rightarrow> Inl (BadRequestMessage (''api_key base_url is not a valid URL: '' @ e))
           | Inr url \<Rightarrow>
               if u_scheme ops url = ''http'' \<or> u_scheme ops url = ''https''
               then Inr (u_set_path ops url (normalize_path (u_path ops url)))
               else Inl (BadRequestMessage (''api_key base_url must use http or https scheme, got ''
                           @ [CHR 0x27] @ u_scheme ops url @ [CHR 0x27])))"

text \<open>
  A normalized path ends in a slash. It is not a fixed point: stripping \<open>/v1\<close> may leave a path that
  ends in \<open>/v1/\<close>, which the next normalization strips again.
\<close>

lemma normalize_path_slash: "ends_with (normalize_path path) ''/''"
  by (auto simp: normalize_path_def ends_with_def Let_def)

lemma normalized_path_not_stable:
  "normalize_path ''/v1/v1'' = ''/v1/''" "normalize_path (normalize_path ''/v1/v1'') = ''/''"
  by code_simp+

section \<open>State\<close>

record 'u chat_env =
  ce_url :: "'u url_ops"
  ce_endpoint :: 'u
  ce_header :: "string \<Rightarrow> ClewdrError option"
  ce_client :: "AccountSlot \<Rightarrow> ClewdrError option"
  ce_display :: "ClewdrError \<Rightarrow> string"
  ce_json_text :: "json \<Rightarrow> string"
  ce_lowercase :: "string \<Rightarrow> string"
  ce_query :: "string \<Rightarrow> string + (string \<times> string) list"
  ce_rfc3339 :: "string \<Rightarrow> i64 option"

record 'u ClaudeCodeState =
  cs_cookie :: "AccountSlot option"
  cs_cookie_header_value :: string
  cs_proxy_url :: "string option"
  cs_endpoint :: 'u
  cs_stream :: bool
  cs_non_stream_keepalive :: bool
  cs_system_prompt_hash :: "u64 option"
  cs_oauth_token :: "TokenInfo option"
  cs_account_id :: "i64 option"
  cs_organization_uuid :: "string option"
  cs_input_tokens :: u32
  cs_billing_ctx :: "BillingContext option"
  cs_bound_account_ids :: "i64 list"
  cs_selected_account_id :: "i64 option option"
  cs_api_key :: "string option"
  cs_api_key_extra_headers :: "(string \<times> string) list option"
  cs_api_key_extra_body :: "json option"
  cs_mimicry_mode :: MimicryMode
  cs_mimicry_config :: "ThirdPartyMimicryConfig option"

datatype (plugins only: code size) account_sql =
    Sql_Auth_Error i64 string
  | Sql_Disabled i64 string
  | Sql_Reset_Time i64 i64
  | Sql_Last_Failure i64 AccountFailureContextPersisted
  | Sql_OAuth i64 TokenInfo string
  | Sql_Metadata i64 AccountMetadataUpdate
  | Sql_Snapshot i64 RuntimeStateParams

datatype (plugins only: code size) chat_effect =
    Granted AccountSlot
  | Pool AccountPoolMessage
  | Sql account_sql
  | Bill BillingContext TerminalLogOptions

section \<open>Acquire and release\<close>

text \<open>The credential-dependent part shared by \<open>from_credential\<close> and \<open>acquire_account\<close>.\<close>

definition cookie_header_for :: "'u chat_env \<Rightarrow> string \<Rightarrow> AccountSlot \<Rightarrow> ClewdrError + string" where
  "cookie_header_for env missing slot =
     (case auth_method slot of
        Cookie \<Rightarrow>
          (case cookie slot of
             None \<Rightarrow> Inl (UnexpectedNone missing)
           | Some c \<Rightarrow> (case ce_header env (cookie_display c) of
                 Some e \<Rightarrow> Inl e | None \<Rightarrow> Inr (cookie_display c)))
      | _ \<Rightarrow> Inr [])"

definition set_selected :: "i64 option \<Rightarrow> 'u ClaudeCodeState \<Rightarrow> 'u ClaudeCodeState" where
  "set_selected v st = st\<lparr>cs_selected_account_id := map_option (\<lambda>_. v) (cs_selected_account_id st)\<rparr>"

definition install_credential ::
  "'u chat_env \<Rightarrow> string \<Rightarrow> AccountSlot \<Rightarrow> 'u ClaudeCodeState \<Rightarrow> ClewdrError + 'u ClaudeCodeState" where
  "install_credential env missing_base slot st =
     (case auth_method slot of
        ApiKey \<Rightarrow>
          (case api_key_base_url slot of
             None \<Rightarrow> Inl (UnexpectedNone missing_base)
           | Some raw \<Rightarrow>
               (case normalize_api_key_base_url (ce_url env) raw of
                  Inl e \<Rightarrow> Inl e
                | Inr url \<Rightarrow>
                    Inr (st\<lparr>cs_endpoint := url, cs_api_key := api_key_secret slot,
                           cs_api_key_extra_headers := api_key_extra_headers slot,
                           cs_api_key_extra_body := api_key_extra_body slot,
                           cs_mimicry_mode := mimicry_mode slot,
                           cs_mimicry_config := mimicry_config slot\<rparr>)))
      | _ \<Rightarrow>
          Inr (st\<lparr>cs_endpoint := ce_endpoint env, cs_api_key := None, cs_api_key_extra_headers := None,
                 cs_api_key_extra_body := None, cs_mimicry_mode := Mimicry_None,
                 cs_mimicry_config := None\<rparr>))"

text \<open>
  \<open>acquire_account\<close> with the pool's reply. Once the pool has answered with a slot, that slot is
  charged; the steps after it can still fail.
\<close>

definition acquire_account ::
  "'u chat_env \<Rightarrow> ClewdrError + AccountSlot \<Rightarrow> 'u ClaudeCodeState
     \<Rightarrow> (ClewdrError + AccountSlot) \<times> 'u ClaudeCodeState \<times> chat_effect list" where
  "acquire_account env answer st =
     (let st0 = set_selected None st in
      case answer of
        Inl e \<Rightarrow> (Inl e, st0, [])
      | Inr res \<Rightarrow>
          let st1 = st0\<lparr>cs_cookie := Some res\<rparr> in
          case cookie_header_for env ''Cookie kind invariant: dispatched cookie slot missing cookie blob'' res of
            Inl e \<Rightarrow> (Inl e, st1, [Granted res])
          | Inr header \<Rightarrow>
              let st2 = st1\<lparr>cs_cookie_header_value := header, cs_proxy_url := proxy_url res\<rparr> in
              case install_credential env
                     ''ApiKey kind invariant: dispatched api_key slot missing base_url'' res st2 of
                Inl e \<Rightarrow> (Inl e, st2, [Granted res])
              | Inr st3 \<Rightarrow>
                  (case ce_client env res of
                     Some e \<Rightarrow> (Inl e, st3, [Granted res])
                   | None \<Rightarrow> (Inr res, set_selected (account_id res) st3, [Granted res])))"

definition release_account :: "'u ClaudeCodeState \<Rightarrow> Reason option \<Rightarrow> chat_effect list" where
  "release_account st reason =
     (case cs_cookie st of
        None \<Rightarrow> []
      | Some slot \<Rightarrow>
          (case account_id slot of
             None \<Rightarrow> []
           | Some aid \<Rightarrow>
               [Pool (Return aid (to_runtime_params slot) reason (from_slot slot) Full)]))"

datatype TokenStatus = TS_None | TS_Expired | TS_Valid

definition check_token :: "instant \<Rightarrow> 'u ClaudeCodeState \<Rightarrow> TokenStatus" where
  "check_token now st =
     (if map_option auth_method (cs_cookie st) = Some ApiKey then TS_Valid
      else case cs_oauth_token st of
             Some t \<Rightarrow> if is_expired now t then TS_Expired else TS_Valid
           | None \<Rightarrow>
               (case Option.bind (cs_cookie st) token of
                  None \<Rightarrow> TS_None
                | Some t \<Rightarrow> if is_expired now t then TS_Expired else TS_Valid))"

section \<open>Verdicts\<close>

definition is_oauth_auth_failure :: "'u chat_env \<Rightarrow> ClewdrError \<Rightarrow> bool" where
  "is_oauth_auth_failure env err \<longleftrightarrow>
     fc_action (classify_account_failure (ce_display env) (ce_json_text env) err FS_Messages None None)
       = TerminalAuth"

record OAuthFailureVerdict =
  ov_disabled :: bool
  ov_cooldown_until :: "i64 option"
  ov_pool_reason :: "Reason option"
  ov_persisted :: AccountFailureContextPersisted

definition classify_oauth_failure ::
  "'u chat_env \<Rightarrow> ClewdrError \<Rightarrow> FailureSource \<Rightarrow> OAuthFailureVerdict" where
  "classify_oauth_failure env err source =
     (let ctx = classify_account_failure (ce_display env) (ce_json_text env) err source None None
      in \<lparr>ov_disabled = (fc_normalized_reason ctx = NR_OrganizationDisabled),
          ov_cooldown_until = (case fc_action ctx of Cooldown t \<Rightarrow> Some t | _ \<Rightarrow> None),
          ov_pool_reason = (case fc_action ctx of
              TransientUpstream \<Rightarrow> None | InternalError \<Rightarrow> None | _ \<Rightarrow> to_reason (fc_normalized_reason ctx)),
          ov_persisted = to_persisted ctx\<rparr>)"

definition should_retry_api_key_transient :: "ClewdrError \<Rightarrow> bool" where
  "should_retry_api_key_transient err =
     (case err of
        ClaudeHttpError code _ \<Rightarrow>
          if code = 408 \<or> code = 409 \<or> code = 425 \<or> code = 429 then True
          else \<not> (400 \<le> code \<and> code < 500)
      | _ \<Rightarrow> True)"

definition classify_persisted :: "'u chat_env \<Rightarrow> ClewdrError \<Rightarrow> FailureSource \<Rightarrow> AccountFailureContextPersisted" where
  "classify_persisted env err source =
     to_persisted (classify_account_failure (ce_display env) (ce_json_text env) err source None None)"

section \<open>Writing a verdict\<close>

text \<open>Without a billing context there is no database. \<open>ok\<close>: the first statement succeeds.\<close>

definition persist_last_failure ::
  "'u ClaudeCodeState \<Rightarrow> i64 \<Rightarrow> AccountFailureContextPersisted \<Rightarrow> chat_effect list" where
  "persist_last_failure st aid persisted =
     (if cs_billing_ctx st = None then [] else [Sql (Sql_Last_Failure aid persisted)])"

definition mark_account ::
  "bool \<Rightarrow> 'u ClaudeCodeState \<Rightarrow> i64 \<Rightarrow> account_sql \<Rightarrow> AccountFailureContextPersisted \<Rightarrow> Reason
     \<Rightarrow> chat_effect list" where
  "mark_account ok st aid stmt persisted reason =
     (if cs_billing_ctx st = None then []
      else if \<not> ok then [Sql stmt]
      else [Sql stmt, Sql (Sql_Last_Failure aid persisted), Pool (Invalidate aid reason)])"

definition mark_oauth_account_auth_error where
  "mark_oauth_account_auth_error ok st aid message persisted =
     mark_account ok st aid (Sql_Auth_Error aid message) persisted Null"

definition mark_oauth_account_disabled where
  "mark_oauth_account_disabled ok st aid persisted =
     mark_account ok st aid (Sql_Disabled aid ''disabled'') persisted Disabled"

definition mark_oauth_account_cooldown :: "'u ClaudeCodeState \<Rightarrow> i64 \<Rightarrow> i64 \<Rightarrow> chat_effect list" where
  "mark_oauth_account_cooldown st aid until =
     (if cs_billing_ctx st = None then [] else [Sql (Sql_Reset_Time aid until)])"

definition mark_api_key_account_auth_error where
  "mark_api_key_account_auth_error ok st aid message persisted =
     mark_account ok st aid (Sql_Auth_Error aid message) persisted Null"

definition mark_api_key_account_disabled where
  "mark_api_key_account_disabled ok st aid reason persisted =
     mark_account ok st aid (Sql_Disabled aid (to_db_string reason)) persisted reason"

section \<open>The slot guard\<close>

text \<open>
  \<open>SelectedSlotState\<close> is shared by the guard and its handles; the swap of \<open>slot_released\<close> is atomic,
  so the first of them to release wins.
\<close>

record slot_state =
  ss_account_id :: "i64 option"
  ss_slot_released :: bool

record slot_guard =
  sg_state :: slot_state
  sg_abort_log :: "(BillingContext \<times> bool) option"
  sg_completed :: bool

definition slot_guard_new :: "i64 option \<Rightarrow> (BillingContext \<times> bool) option \<Rightarrow> slot_guard" where
  "slot_guard_new aid abort_log =
     \<lparr>sg_state = \<lparr>ss_account_id = aid, ss_slot_released = False\<rparr>, sg_abort_log = abort_log,
      sg_completed = False\<rparr>"

definition release_slot_only :: "slot_state \<Rightarrow> slot_state \<times> chat_effect list" where
  "release_slot_only ss =
     (case ss_account_id ss of
        None \<Rightarrow> (ss, [])
      | Some aid \<Rightarrow>
          (ss\<lparr>ss_slot_released := True\<rparr>, if ss_slot_released ss then [] else [Pool (ReleaseSlot aid)]))"

definition slot_guard_finish :: "slot_guard \<Rightarrow> slot_guard \<times> chat_effect list" where
  "slot_guard_finish g =
     (case release_slot_only (sg_state g) of (ss, es) \<Rightarrow> (g\<lparr>sg_state := ss, sg_completed := True\<rparr>, es))"

definition slot_guard_disarm :: "slot_guard \<Rightarrow> slot_guard" where
  "slot_guard_disarm g = g\<lparr>sg_completed := True\<rparr>"

definition abort_options :: "bool \<Rightarrow> TerminalLogOptions" where
  "abort_options stream =
     \<lparr>to_request_type = Messages, to_stream = stream, to_status = ''client_abort'',
      to_http_status = Some 499, to_usage = None, to_error_code = Some ''client_abort'',
      to_error_message = Some ''request task dropped before response completed'',
      to_update_rollups = False, to_response_body = None\<rparr>"

text \<open>\<open>Drop\<close>: a guard that is not completed releases the slot and logs the abort.\<close>

definition slot_guard_drop :: "slot_guard \<Rightarrow> chat_effect list" where
  "slot_guard_drop g =
     (if sg_completed g then []
      else snd (release_slot_only (sg_state g))
        @ (case sg_abort_log g of None \<Rightarrow> [] | Some (ctx, stream) \<Rightarrow> [Bill ctx (abort_options stream)]))"

end
