(* ===== verification/Chat_Refresh.thy ===== *)
theory Chat_Refresh
  imports Chat_State
begin

text \<open>
  How a request gets a bearer token: the bootstrap call that names the organization
  (\<open>src/src/claude_code_state/organization.rs\<close>), the exchange and refresh of a cookie-backed token
  (\<open>exchange.rs\<close>) and the guarded refresh of an OAuth account (\<open>persist_oauth_refresh\<close> in \<open>chat.rs\<close>).

  Every call that leaves the process has its answer as an argument. An answer may be an interrupt:
  the call fails, the deadline of \<open>timeout_upstream\<close> passes while it is pending, the client goes away
  and the request's task is dropped there, or the code after it panics. The code can only catch a
  failure. Statements and messages are listed when they are issued.
\<close>

section \<open>Interruptible steps\<close>

datatype (plugins only: code size) interrupt =
    Failed ClewdrError
  | Deadline
  | Dropped
  | Panicked

type_synonym 'a awaited = "interrupt + 'a"

type_synonym ('u, 'a) run = "'a awaited \<times> 'u ClaudeCodeState \<times> chat_effect list"

definition done_with :: "'a \<Rightarrow> 'u ClaudeCodeState \<Rightarrow> ('u, 'a) run" where
  "done_with a st = (Inr a, st, [])"

definition fail_with :: "interrupt \<Rightarrow> 'u ClaudeCodeState \<Rightarrow> ('u, 'a) run" where
  "fail_with e st = (Inl e, st, [])"

definition await :: "'a awaited \<Rightarrow> 'u ClaudeCodeState \<Rightarrow> ('u, 'a) run" where
  "await a st = (a, st, [])"

definition issue :: "chat_effect list \<Rightarrow> 'a awaited \<Rightarrow> 'u ClaudeCodeState \<Rightarrow> ('u, 'a) run" where
  "issue es a st = (a, st, es)"

definition and_then ::
  "('u, 'a) run \<Rightarrow> ('a \<Rightarrow> 'u ClaudeCodeState \<Rightarrow> ('u, 'b) run) \<Rightarrow> ('u, 'b) run" where
  "and_then m f =
     (case m of (r, st, es) \<Rightarrow>
        (case r of
           Inl e \<Rightarrow> (Inl e, st, es)
         | Inr a \<Rightarrow> (case f a st of (r', st', es') \<Rightarrow> (r', st', es @ es'))))"

text \<open>An answer whose failure the code handles itself: \<open>None\<close> is a failure, other interrupts pass.\<close>

definition attempted :: "'a awaited \<Rightarrow> 'a option awaited" where
  "attempted a = (case a of Inl (Failed e) \<Rightarrow> Inr None | Inl i \<Rightarrow> Inl i | Inr x \<Rightarrow> Inr (Some x))"

section \<open>Bootstrap\<close>

record BootstrapInfo =
  bi_email :: string
  bi_org_uuid :: string
  bi_account_type :: string
  bi_capabilities :: "string list"
  bi_rate_limit_tier :: "string option"
  bi_billing_type :: "string option"
  bi_subscription_created_at :: "string option"

definition derive_account_type :: "string list \<Rightarrow> string" where
  "derive_account_type capabilities =
     (let has = (\<lambda>k. list_ex (\<lambda>c. str_contains c k) capabilities) in
      if has ''max'' then ''max''
      else if has ''enterprise'' then ''enterprise''
      else if has ''pro'' \<or> has ''raven'' then ''pro''
      else ''free'')"

text \<open>Indexing: a \<open>Value\<close> yields null where the key is missing, a \<open>Map\<close> panics.\<close>

definition value_index :: "json \<Rightarrow> string \<Rightarrow> json" where
  "value_index v k = (case json_get v k of Some x \<Rightarrow> x | None \<Rightarrow> JNull)"

definition map_index :: "(string \<times> json) list \<Rightarrow> string \<Rightarrow> interrupt + json" where
  "map_index kvs k = (case map_of kvs k of Some x \<Rightarrow> Inr x | None \<Rightarrow> Inl Panicked)"

definition invalid_cookie :: "Reason \<Rightarrow> interrupt" where
  "invalid_cookie r = Failed (InvalidCookie r)"

definition offers_chat :: "json \<Rightarrow> bool" where
  "offers_chat m =
     (case as_array (value_index (value_index m ''organization'') ''capabilities'') of
        None \<Rightarrow> False
      | Some cs \<Rightarrow> list_ex (\<lambda>c. as_str c = Some ''chat'') cs)"

definition or_else :: "'a option \<Rightarrow> 'a option \<Rightarrow> 'a option" where
  "or_else a b = (case a of Some x \<Rightarrow> Some x | None \<Rightarrow> b)"

definition entry_str :: "(string \<times> json) list \<Rightarrow> string \<Rightarrow> string option" where
  "entry_str kvs k = Option.bind (map_of kvs k) as_str"

definition parse_membership :: "json \<Rightarrow> json \<Rightarrow> interrupt + BootstrapInfo" where
  "parse_membership bootstrap m =
     (case as_object (value_index m ''organization'') of
        None \<Rightarrow> Inl (invalid_cookie Null)
      | Some org \<Rightarrow>
          (case map_index org ''capabilities'' of
             Inl i \<Rightarrow> Inl i
           | Inr caps \<Rightarrow>
               (case map_index org ''uuid'' of
                  Inl i \<Rightarrow> Inl i
                | Inr u \<Rightarrow>
                    (case as_str u of
                       None \<Rightarrow> Inl (Failed (UnexpectedNone ''Failed to get organization UUID''))
                     | Some uuid \<Rightarrow>
                         let cs = (case as_array caps of
                                     None \<Rightarrow> [] | Some xs \<Rightarrow> List.map_filter as_str xs)
                         in Inr
                           \<lparr>bi_email = (case as_str (value_index (value_index bootstrap ''account'')
                                                 ''email_address'') of Some e \<Rightarrow> e | None \<Rightarrow> []),
                            bi_org_uuid = uuid,
                            bi_account_type = derive_account_type cs,
                            bi_capabilities = cs,
                            bi_rate_limit_tier = entry_str org ''rate_limit_tier'',
                            bi_billing_type = entry_str org ''billing_type'',
                            bi_subscription_created_at =
                              or_else (entry_str org ''subscription_created_at'')
                                (or_else (entry_str org ''created_at'')
                                  (Option.bind (json_get m ''created_at'') as_str))\<rparr>))))"

definition parse_bootstrap_info :: "json \<Rightarrow> interrupt + BootstrapInfo" where
  "parse_bootstrap_info bootstrap =
     (if value_index bootstrap ''account'' = JNull then Inl (invalid_cookie Null)
      else case as_array (value_index (value_index bootstrap ''account'') ''memberships'') of
             None \<Rightarrow> Inl (invalid_cookie Null)
           | Some ms \<Rightarrow>
               (case find offers_chat ms of
                  None \<Rightarrow> Inl (invalid_cookie Null)
                | Some m \<Rightarrow> parse_membership bootstrap m))"

definition get_organization :: "json awaited \<Rightarrow> 'u ClaudeCodeState \<Rightarrow> ('u, string) run" where
  "get_organization answer st =
     and_then (await answer st) (\<lambda>bootstrap st.
     and_then (await (parse_bootstrap_info bootstrap) st) (\<lambda>info st.
       if bi_account_type info = ''free'' then fail_with (invalid_cookie Free) st
       else case cs_cookie st of
              None \<Rightarrow> fail_with Panicked st
            | Some _ \<Rightarrow> done_with (bi_org_uuid info) st))"

text \<open>The index into the organization object panics before the error for a missing uuid is reached.\<close>

lemma bootstrap_without_uuid_panics:
  assumes "find offers_chat ms = Some m" and "as_object (value_index m ''organization'') = Some org"
    and "map_of org ''capabilities'' \<noteq> None" and "map_of org ''uuid'' = None"
    and "as_array (value_index (value_index bootstrap ''account'') ''memberships'') = Some ms"
    and "value_index bootstrap ''account'' \<noteq> JNull"
  shows "parse_bootstrap_info bootstrap = Inl Panicked"
  using assms by (auto simp: parse_bootstrap_info_def parse_membership_def map_index_def)

section \<open>Cookie-backed tokens\<close>

text \<open>
  What the token endpoint grants (\<open>BasicTokenResponse\<close>: access token, refresh token and lifetime, the
  last two optional) and the refresh endpoint's refusal (\<open>RequestTokenError\<close>: its conversion to an
  error, and whether \<open>is_invalid_grant_error\<close> holds of it).
\<close>

record grant =
  gr_access :: string
  gr_refresh :: "string option"
  gr_expires_in :: "duration option"

record server_response =
  sr_error :: string
  sr_description :: "string option"

datatype (plugins only: code size) token_error =
    ServerResponse server_response
  | OtherTokenError

record exchange_answers =
  xa_now :: instant
  xa_bootstrap :: "json awaited"
  xa_redirect :: "json awaited"
  xa_grant :: "grant awaited"
  xa_refresh :: "(token_error \<times> ClewdrError + grant) awaited"

record ExchangeResult =
  er_code :: string
  er_state :: "string option"
  er_org_uuid :: string

definition token_new :: "instant \<Rightarrow> grant \<Rightarrow> string \<Rightarrow> TokenInfo" where
  "token_new now g org =
     token_from_parts now (gr_access g) (case gr_refresh g of Some r \<Rightarrow> r | None \<Rightarrow> [])
       (case gr_expires_in g of Some d \<Rightarrow> d | None \<Rightarrow> 0) org"

definition is_invalid_grant_error :: "(string \<Rightarrow> string) \<Rightarrow> token_error \<Rightarrow> bool" where
  "is_invalid_grant_error lowercase err =
     (case err of
        ServerResponse r \<Rightarrow>
          str_contains (lowercase (sr_error r)) ''invalid_grant''
          \<or> (case sr_description r of
               None \<Rightarrow> False
             | Some d \<Rightarrow> str_contains (lowercase d) ''refresh token not found''
                 \<or> (str_contains (lowercase d) ''refresh token'' \<and> str_contains (lowercase d) ''invalid''))
      | OtherTokenError \<Rightarrow> False)"

definition set_cookie_token :: "TokenInfo option \<Rightarrow> 'u ClaudeCodeState \<Rightarrow> 'u ClaudeCodeState" where
  "set_cookie_token t st = st\<lparr>cs_cookie := map_option (\<lambda>c. c\<lparr>token := t\<rparr>) (cs_cookie st)\<rparr>"

text \<open>
  The authorization endpoint answers with a URL whose query carries the code; a missing \<open>redirect_uri\<close>
  is an \<open>expect\<close> that panics. \<open>query\<close>: the url crate's parser and its decoded query pairs, of which the
  last with a key counts.
\<close>

definition redirect_code ::
  "(string \<Rightarrow> string + (string \<times> string) list) \<Rightarrow> string \<Rightarrow> json \<Rightarrow> ExchangeResult awaited" where
  "redirect_code query org j =
     (case as_str (value_index j ''redirect_uri'') of
        None \<Rightarrow> Inl Panicked
      | Some uri \<Rightarrow>
          (case query uri of
             Inl e \<Rightarrow> Inl (Failed (UrlError uri e))
           | Inr pairs \<Rightarrow>
               (case map_of (rev pairs) ''code'' of
                  None \<Rightarrow> Inl (Failed (UnexpectedNone ''No code found in redirect URL''))
                | Some code \<Rightarrow>
                    Inr \<lparr>er_code = code, er_state = map_of (rev pairs) ''state'', er_org_uuid = org\<rparr>)))"

definition exchange_code ::
  "'u chat_env \<Rightarrow> exchange_answers \<Rightarrow> string
     \<Rightarrow> 'u ClaudeCodeState \<Rightarrow> ('u, ExchangeResult) run" where
  "exchange_code env an org st =
     and_then (await (xa_redirect an) st) (\<lambda>j st. await (redirect_code (ce_query env) org j) st)"

definition exchange_token ::
  "exchange_answers \<Rightarrow> ExchangeResult \<Rightarrow> 'u ClaudeCodeState \<Rightarrow> ('u, unit) run" where
  "exchange_token an res st =
     and_then (await (xa_grant an) st) (\<lambda>g st.
       case cs_cookie st of
         None \<Rightarrow> fail_with (Failed (UnexpectedNone ''No cookie found to update with token info'')) st
       | Some _ \<Rightarrow> done_with () (set_cookie_token (Some (token_new (xa_now an) g (er_org_uuid res))) st))"

text \<open>The three calls that log a cookie in.\<close>

definition authorize ::
  "'u chat_env \<Rightarrow> exchange_answers \<Rightarrow> 'u ClaudeCodeState \<Rightarrow> ('u, unit) run" where
  "authorize env an st =
     and_then (get_organization (xa_bootstrap an) st) (\<lambda>org st.
     and_then (exchange_code env an org st) (\<lambda>res st. exchange_token an res st))"

definition refresh_cookie_token ::
  "'u chat_env \<Rightarrow> exchange_answers
     \<Rightarrow> 'u ClaudeCodeState \<Rightarrow> ('u, unit) run" where
  "refresh_cookie_token env an st =
     (case Option.bind (cs_cookie st) token of
        None \<Rightarrow> fail_with (Failed (UnexpectedNone ''No token found to refresh token'')) st
      | Some t \<Rightarrow>
          if \<not> is_expired (xa_now an) t then done_with () st
          else and_then (await (xa_refresh an) st) (\<lambda>res st.
            case res of
              Inr g \<Rightarrow>
                done_with () (set_cookie_token (Some (token_new (xa_now an) g (organization_uuid_of t))) st)
            | Inl (e, err) \<Rightarrow>
                if \<not> is_invalid_grant_error (ce_lowercase env) e then fail_with (Failed err) st
                else authorize env an (set_cookie_token None st)))"

section \<open>OAuth accounts\<close>

record OAuthAccountSnapshot =
  sn_email :: "string option"
  sn_account_type :: "string option"
  sn_organization_uuid :: string
  sn_rate_limit_tier :: "string option"
  sn_billing_type :: "string option"
  sn_subscription_created_at :: "string option"
  sn_runtime :: RuntimeStateParams

record OAuthExchangeResult =
  ex_token :: TokenInfo
  ex_snapshot :: OAuthAccountSnapshot

record oauth_answers =
  oa_now :: instant
  oa_lock :: "unit awaited"
  oa_pool_token :: "TokenInfo option awaited"
  oa_row :: "AccountWithRuntime option awaited"
  oa_row_fresh :: "AccountWithRuntime option awaited"
  oa_refreshed :: "OAuthExchangeResult awaited"
  oa_upsert :: "bool awaited"
  oa_row_lost :: "AccountWithRuntime option awaited"
  oa_pool_cas :: "bool awaited"
  oa_metadata :: "unit awaited"
  oa_snapshot :: "unit awaited"
  oa_return :: "unit awaited"

definition snapshot_metadata :: "OAuthAccountSnapshot \<Rightarrow> AccountMetadataUpdate" where
  "snapshot_metadata sn =
     \<lparr>mu_email = sn_email sn, mu_account_type = sn_account_type sn,
      mu_organization_uuid = Some (sn_organization_uuid sn), mu_rate_limit_tier = sn_rate_limit_tier sn,
      mu_subscription_created_at = sn_subscription_created_at sn, mu_billing_type = sn_billing_type sn\<rparr>"

definition with_token :: "TokenInfo \<Rightarrow> 'u ClaudeCodeState \<Rightarrow> 'u ClaudeCodeState" where
  "with_token t st =
     st\<lparr>cs_oauth_token := Some t, cs_organization_uuid := Some (organization_uuid_of t)\<rparr>"

definition apply_snapshot :: "RuntimeStateParams \<Rightarrow> 'u ClaudeCodeState \<Rightarrow> 'u ClaudeCodeState" where
  "apply_snapshot p st =
     st\<lparr>cs_cookie := map_option (apply_oauth_snapshot_runtime p) (cs_cookie st)\<rparr>"

text \<open>The token to refresh, read once the account's refresh lock is held.\<close>

definition current_token ::
  "oauth_answers \<Rightarrow> TokenInfo \<Rightarrow> 'u ClaudeCodeState \<Rightarrow> ('u, TokenInfo) run" where
  "current_token an fallback st =
     and_then (await (attempted (oa_pool_token an)) st) (\<lambda>t st.
       case Option.bind t id of
         Some t \<Rightarrow> done_with t st
       | None \<Rightarrow>
           and_then (await (attempted (oa_row an)) st) (\<lambda>row st.
             done_with (case Option.bind (Option.bind row id) acc_oauth_token of
                 Some t \<Rightarrow> t | None \<Rightarrow> fallback) st))"

text \<open>A peer has refreshed meanwhile: take its token, and its snapshot if the row has one.\<close>

definition adopt_fresh ::
  "oauth_answers \<Rightarrow> TokenInfo \<Rightarrow> 'u ClaudeCodeState \<Rightarrow> ('u, unit) run" where
  "adopt_fresh an t st =
     and_then (await (attempted (oa_row_fresh an)) (with_token t st)) (\<lambda>row st.
       done_with () (case Option.bind (Option.bind row id) acc_runtime of
           Some rt \<Rightarrow> apply_snapshot (to_params rt) st | None \<Rightarrow> st))"

text \<open>The refresh lost a race: take whatever token the table holds now.\<close>

definition adopt_stored :: "oauth_answers \<Rightarrow> 'u ClaudeCodeState \<Rightarrow> ('u, unit) run" where
  "adopt_stored an st =
     and_then (await (oa_row_lost an) st) (\<lambda>row st.
       case Option.bind row acc_oauth_token of
         Some t \<Rightarrow> done_with () (with_token t st)
       | None \<Rightarrow> fail_with (Failed InvalidAuth) st)"

definition store_snapshot ::
  "oauth_answers \<Rightarrow> i64 \<Rightarrow> OAuthExchangeResult \<Rightarrow> 'u ClaudeCodeState \<Rightarrow> ('u, unit) run" where
  "store_snapshot an aid r st =
     (let sn = ex_snapshot r in
      and_then (issue [Sql (Sql_Metadata aid (snapshot_metadata sn))] (oa_metadata an) st) (\<lambda>_ st.
      and_then (issue [Sql (Sql_Snapshot aid (sn_runtime sn))] (oa_snapshot an) st) (\<lambda>_ st.
      and_then (issue [Pool (Return aid (sn_runtime sn) None
                  (Some (from_oauth_refresh_token (refresh_token (ex_token r)))) OAuthSnapshot)]
                 (oa_return an) st) (\<lambda>_ st.
      done_with () ((apply_snapshot (sn_runtime sn) st)
        \<lparr>cs_oauth_token := Some (ex_token r), cs_organization_uuid := Some (sn_organization_uuid sn)\<rparr>)))))"

definition rotate_token ::
  "oauth_answers \<Rightarrow> i64 \<Rightarrow> TokenInfo \<Rightarrow> 'u ClaudeCodeState \<Rightarrow> ('u, unit) run" where
  "rotate_token an aid current st =
     and_then (await (oa_refreshed an) st) (\<lambda>r st.
     and_then (issue [Sql (Sql_OAuth aid (ex_token r) (refresh_token current))] (oa_upsert an) st) (\<lambda>ok st.
       if \<not> ok then adopt_stored an st
       else
         and_then (issue [Pool (UpdateCredentialIfCurrent aid (refresh_token current) (Some (ex_token r)))]
                    (oa_pool_cas an) st) (\<lambda>ok st.
           if \<not> ok then adopt_stored an st else store_snapshot an aid r st)))"

definition persist_oauth_refresh ::
  "oauth_answers \<Rightarrow> i64 \<Rightarrow> 'u ClaudeCodeState \<Rightarrow> ('u, unit) run" where
  "persist_oauth_refresh an aid st =
     (case cs_oauth_token st of
        None \<Rightarrow> done_with () st
      | Some fallback \<Rightarrow>
          and_then (await (oa_lock an) st) (\<lambda>_ st.
            if cs_billing_ctx st = None
            then fail_with (Failed (UnexpectedNone ''Missing billing context database'')) st
            else and_then (current_token an fallback st) (\<lambda>current st.
              if is_expired (oa_now an) current then rotate_token an aid current st
              else adopt_fresh an current st)))"

end
