(* ===== verification/Chat_Usage.thy ===== *)
theory Chat_Usage
  imports Chat_Refresh Stream_Accumulator
begin

text \<open>
  What a finished request writes about usage (\<open>src/src/claude_code_state/chat.rs\<close>): the usage windows
  of the account and their lazy refresh, the usage read from a response or a stream, the beta headers
  and the model family.
\<close>

section \<open>Headers and models\<close>

definition CLAUDE_BETA_BASE :: string where
  "CLAUDE_BETA_BASE = ''oauth-2025-04-20''"

definition CLAUDE_BETA_CONTEXT_1M_TOKEN :: string where
  "CLAUDE_BETA_CONTEXT_1M_TOKEN = ''context-1m-2025-08-07''"

definition api_key_beta_header :: "string option \<Rightarrow> string option" where
  "api_key_beta_header extra =
     (let cleaned = filter (\<lambda>t. t \<noteq> [] \<and> \<not> eq_ignore_ascii_case t CLAUDE_BETA_BASE)
                      (map trim (split_on (CHR '','') (unwrap_or_default extra)))
      in if cleaned = [] then None else Some (join_with '','' cleaned))"

text \<open>State: the lower-cased tokens seen and the tokens kept, in order.\<close>

definition push_beta :: "string \<Rightarrow> string set \<times> string list \<Rightarrow> string set \<times> string list" where
  "push_beta tok acc =
     (case acc of (seen, merged) \<Rightarrow>
        let trimmed = trim tok; key = to_ascii_lowercase trimmed in
        if trimmed = [] \<or> key = CLAUDE_BETA_CONTEXT_1M_TOKEN \<or> key \<in> seen then acc
        else (insert key seen, merged @ [trimmed]))"

definition merged_betas :: "string option \<Rightarrow> string list" where
  "merged_betas extra =
     snd (fold push_beta (CLAUDE_BETA_BASE # (case extra of None \<Rightarrow> [] | Some e \<Rightarrow> split_on (CHR '','') e))
            ({}, []))"

definition merge_anthropic_beta_header :: "string option \<Rightarrow> string" where
  "merge_anthropic_beta_header extra = join_with '','' (merged_betas extra)"

definition classify_model :: "string \<Rightarrow> ModelFamily" where
  "classify_model model =
     (let m = to_ascii_lowercase model in
      if str_contains m ''opus'' then Opus else if str_contains m ''sonnet'' then Sonnet else Other)"

section \<open>Usage windows\<close>

type_synonym resets = "i64 option \<times> i64 option \<times> i64 option \<times> i64 option"

text \<open>\<open>fetch_usage_metrics\<close>: the token ladder without a refresh lock, then the usage endpoint.\<close>

record usage_answers =
  us_exchange :: exchange_answers
  us_metrics :: "json awaited"

definition fetch_usage_metrics ::
  "'u chat_env \<Rightarrow> usage_answers \<Rightarrow> 'u ClaudeCodeState \<Rightarrow> ('u, json) run" where
  "fetch_usage_metrics env an st =
     and_then (case check_token (xa_now (us_exchange an)) st of
                 TS_None \<Rightarrow> authorize env (us_exchange an) st
               | TS_Expired \<Rightarrow> refresh_cookie_token env (us_exchange an) st
               | TS_Valid \<Rightarrow> done_with () st) (\<lambda>_ st.
       case Option.bind (cs_cookie st) token of
         None \<Rightarrow> fail_with (Failed (UnexpectedNone ''No access token available'')) st
       | Some _ \<Rightarrow> await (us_metrics an) st)"

definition new_state :: "'u chat_env \<Rightarrow> 'u ClaudeCodeState" where
  "new_state env =
     \<lparr>cs_cookie = None, cs_cookie_header_value = [], cs_proxy_url = None, cs_endpoint = ce_endpoint env,
      cs_stream = False, cs_non_stream_keepalive = False, cs_system_prompt_hash = None,
      cs_oauth_token = None, cs_account_id = None, cs_organization_uuid = None, cs_input_tokens = 0,
      cs_billing_ctx = None,
      cs_bound_account_ids = [], cs_selected_account_id = None, cs_api_key = None,
      cs_api_key_extra_headers = None, cs_api_key_extra_body = None, cs_mimicry_mode = Mimicry_None,
      cs_mimicry_config = None\<rparr>"

definition from_credential :: "'u chat_env \<Rightarrow> AccountSlot \<Rightarrow> ClewdrError + 'u ClaudeCodeState" where
  "from_credential env slot =
     (let st = (new_state env)\<lparr>cs_proxy_url := proxy_url slot\<rparr> in
      case cookie_header_for env ''Cookie kind invariant: slot.cookie missing on Cookie account'' slot of
        Inl e \<Rightarrow> Inl e
      | Inr header \<Rightarrow>
          (case install_credential env ''ApiKey kind invariant: slot.api_key_base_url missing'' slot
                  (st\<lparr>cs_cookie_header_value := header\<rparr>) of
             Inl e \<Rightarrow> Inl e
           | Inr st' \<Rightarrow>
               (case ce_client env slot of
                  Some e \<Rightarrow> Inl e | None \<Rightarrow> Inr (st'\<lparr>cs_cookie := Some slot\<rparr>))))"

definition parse_window :: "(string \<Rightarrow> i64 option) \<Rightarrow> json \<Rightarrow> string \<Rightarrow> i64 option \<times> f64 option" where
  "parse_window rfc3339 usage key =
     (let obj = json_get usage key in
      (Option.bind obj (\<lambda>w. Option.bind (get_str w ''resets_at'') rfc3339),
       Option.bind obj (\<lambda>w. Option.bind (json_get w ''utilization'') as_f64)))"

definition backfill ::
  "ScopedWeeklyLimit list \<Rightarrow> string \<Rightarrow> i64 option \<times> f64 option \<Rightarrow> i64 option \<times> f64 option" where
  "backfill limits name w =
     (case scoped_legacy_backfill limits name of
        None \<Rightarrow> w
      | Some (r, u) \<Rightarrow> (or_else (fst w) r, or_else (snd w) u))"

definition read_resets :: "(string \<Rightarrow> i64 option) \<Rightarrow> json \<Rightarrow> AccountSlot \<Rightarrow> resets \<times> AccountSlot" where
  "read_resets rfc3339 usage c =
     (let limits = parse_weekly_scoped_limits rfc3339 usage;
          session = parse_window rfc3339 usage ''five_hour'';
          week = parse_window rfc3339 usage ''seven_day'';
          opus = backfill limits ''opus'' (parse_window rfc3339 usage ''seven_day_opus'');
          sonnet = backfill limits ''sonnet'' (parse_window rfc3339 usage ''seven_day_sonnet'')
      in ((fst session, fst week, fst opus, fst sonnet),
          c\<lparr>weekly_scoped_limits := limits, session_utilization := snd session,
            weekly_utilization := snd week, weekly_opus_utilization := snd opus,
            weekly_sonnet_utilization := snd sonnet\<rparr>))"

text \<open>
  The fetch has its own deadline and drops every failure. On success the slot is the one of the
  private state, so a token refreshed there stays in it.
\<close>

definition fetch_usage_resets ::
  "'u chat_env \<Rightarrow> usage_answers \<Rightarrow> AccountSlot \<Rightarrow> resets option \<times> AccountSlot \<times> chat_effect list" where
  "fetch_usage_resets env an c =
     (case from_credential env c of
        Inl _ \<Rightarrow> (None, c, [])
      | Inr st \<Rightarrow>
          (case fetch_usage_metrics env an st of
             (Inl _, _, es) \<Rightarrow> (None, c, es)
           | (Inr usage, st', es) \<Rightarrow>
               let c' = (case cs_cookie st' of Some u \<Rightarrow> u | None \<Rightarrow> c);
                   res = read_resets (ce_rfc3339 env) usage c'
               in (Some (fst res), snd res, es @ release_account st' None)))"

definition SESSION_WINDOW_SECS :: int where
  "SESSION_WINDOW_SECS = 5 * 60 * 60"

definition WEEKLY_WINDOW_SECS :: int where
  "WEEKLY_WINDOW_SECS = 7 * 24 * 60 * 60"

text \<open>One window: whether it is tracked, its boundary, its counters.\<close>

record window =
  w_has_reset :: "bool option"
  w_resets_at :: "i64 option"
  w_usage :: UsageBreakdown

definition window_due :: "int \<Rightarrow> window \<Rightarrow> bool" where
  "window_due now w \<longleftrightarrow>
     w_has_reset w = Some True \<and> (case w_resets_at w of None \<Rightarrow> False | Some t \<Rightarrow> now \<ge> t)"

definition window_fetched :: "bool \<Rightarrow> i64 option \<Rightarrow> window \<Rightarrow> window" where
  "window_fetched is_due answer w =
     (let h = (case w_has_reset w of None \<Rightarrow> Some (answer \<noteq> None) | Some b \<Rightarrow> Some b);
          u = (if is_due then default_usage else w_usage w)
      in if h \<noteq> Some True then \<lparr>w_has_reset = h, w_resets_at = w_resets_at w, w_usage = u\<rparr>
         else case answer of
                Some ts \<Rightarrow> \<lparr>w_has_reset = h, w_resets_at = Some ts, w_usage = u\<rparr>
              | None \<Rightarrow> \<lparr>w_has_reset = Some False, w_resets_at = None, w_usage = u\<rparr>)"

definition window_fallback :: "int \<Rightarrow> int \<Rightarrow> bool \<Rightarrow> window \<Rightarrow> window" where
  "window_fallback now len is_due w =
     (if is_due then w\<lparr>w_usage := default_usage, w_resets_at := Some (now + len)\<rparr> else w)"

definition session_window :: "AccountSlot \<Rightarrow> window" where
  "session_window c =
     \<lparr>w_has_reset = session_has_reset c, w_resets_at = session_resets_at c, w_usage = session_usage c\<rparr>"

definition weekly_window :: "AccountSlot \<Rightarrow> window" where
  "weekly_window c =
     \<lparr>w_has_reset = weekly_has_reset c, w_resets_at = weekly_resets_at c, w_usage = weekly_usage c\<rparr>"

definition sonnet_window :: "AccountSlot \<Rightarrow> window" where
  "sonnet_window c =
     \<lparr>w_has_reset = weekly_sonnet_has_reset c, w_resets_at = weekly_sonnet_resets_at c,
      w_usage = weekly_sonnet_usage c\<rparr>"

definition opus_window :: "AccountSlot \<Rightarrow> window" where
  "opus_window c =
     \<lparr>w_has_reset = weekly_opus_has_reset c, w_resets_at = weekly_opus_resets_at c,
      w_usage = weekly_opus_usage c\<rparr>"

definition set_windows :: "window \<Rightarrow> window \<Rightarrow> window \<Rightarrow> window \<Rightarrow> AccountSlot \<Rightarrow> AccountSlot" where
  "set_windows s w n p c =
     c\<lparr>session_has_reset := w_has_reset s, session_resets_at := w_resets_at s, session_usage := w_usage s,
       weekly_has_reset := w_has_reset w, weekly_resets_at := w_resets_at w, weekly_usage := w_usage w,
       weekly_sonnet_has_reset := w_has_reset n, weekly_sonnet_resets_at := w_resets_at n,
       weekly_sonnet_usage := w_usage n,
       weekly_opus_has_reset := w_has_reset p, weekly_opus_resets_at := w_resets_at p,
       weekly_opus_usage := w_usage p\<rparr>"

definition needs_refresh :: "int \<Rightarrow> AccountSlot \<Rightarrow> bool" where
  "needs_refresh now c =
     list_ex (\<lambda>w. w_has_reset w = None \<or> window_due now w)
       [session_window c, weekly_window c, sonnet_window c, opus_window c]"

definition update_cookie_boundaries_if_due ::
  "'u chat_env \<Rightarrow> int \<Rightarrow> usage_answers \<Rightarrow> AccountSlot \<Rightarrow> AccountSlot \<times> chat_effect list" where
  "update_cookie_boundaries_if_due env now an c =
     (if \<not> needs_refresh now c then (c, [])
      else
        let sd = window_due now (session_window c); wd = window_due now (weekly_window c);
            nd = window_due now (sonnet_window c); pd = window_due now (opus_window c)
        in case fetch_usage_resets env an (c\<lparr>resets_last_checked_at := Some now\<rparr>) of
             (Some (sess, week, opus, sonnet), c', es) \<Rightarrow>
               (set_windows (window_fetched sd sess (session_window c'))
                  (window_fetched wd week (weekly_window c'))
                  (window_fetched nd sonnet (sonnet_window c'))
                  (window_fetched pd opus (opus_window c')) c', es)
           | (None, c', es) \<Rightarrow>
               (set_windows (window_fallback now SESSION_WINDOW_SECS sd (session_window c'))
                  (window_fallback now WEEKLY_WINDOW_SECS wd (weekly_window c'))
                  (window_fallback now WEEKLY_WINDOW_SECS nd (sonnet_window c'))
                  (window_fallback now WEEKLY_WINDOW_SECS pd (opus_window c')) c', es))"

section \<open>Persisting usage\<close>

definition return_runtime :: "AccountSlot \<Rightarrow> chat_effect list" where
  "return_runtime c =
     (case account_id c of
        None \<Rightarrow> []
      | Some aid \<Rightarrow> [Pool (Return aid (to_runtime_params c) None (from_slot c) Full)])"

text \<open>The steps shared by the non-stream, stream and bridged responses.\<close>

definition book_usage ::
  "'u chat_env \<Rightarrow> int \<Rightarrow> usage_answers \<Rightarrow> u64 \<Rightarrow> u64 \<Rightarrow> ModelFamily \<Rightarrow> AccountSlot
     \<Rightarrow> AccountSlot \<times> chat_effect list" where
  "book_usage env now an inp out family c =
     (case update_cookie_boundaries_if_due env now an c of
        (c', es) \<Rightarrow>
          let c'' = add_and_bucket_usage inp out family c' in (c'', es @ return_runtime c''))"

definition persist_usage_totals ::
  "'u chat_env \<Rightarrow> int \<Rightarrow> usage_answers \<Rightarrow> u64 \<Rightarrow> u64 \<Rightarrow> ModelFamily \<Rightarrow> 'u ClaudeCodeState
     \<Rightarrow> 'u ClaudeCodeState \<times> chat_effect list" where
  "persist_usage_totals env now an inp out family st =
     (if inp = 0 \<and> out = 0 then (st, [])
      else case cs_cookie st of
             None \<Rightarrow> (st, [])
           | Some c \<Rightarrow>
               if auth_method c = ApiKey then (st, [])
               else case book_usage env now an inp out family c of
                      (c', es) \<Rightarrow> (st\<lparr>cs_cookie := Some c'\<rparr>, es))"

definition persist_count_tokens_allowed ::
  "bool \<Rightarrow> 'u ClaudeCodeState \<Rightarrow> 'u ClaudeCodeState \<times> chat_effect list" where
  "persist_count_tokens_allowed value st =
     (case cs_cookie st of
        None \<Rightarrow> (st, [])
      | Some c \<Rightarrow>
          if auth_method c = ApiKey \<or> count_tokens_allowed c = Some value then (st, [])
          else let c' = set_count_tokens_allowed c (Some value)
               in (st\<lparr>cs_cookie := Some c'\<rparr>, return_runtime c'))"

section \<open>Usage of a response\<close>

definition json_as_i64 :: "json \<Rightarrow> int option" where
  "json_as_i64 v = (case v of JInt n \<Rightarrow> if is_i64 n then Some n else None | _ \<Rightarrow> None)"

definition usage_u64 :: "json \<Rightarrow> string \<Rightarrow> u64 option" where
  "usage_u64 usage key =
     Option.bind (json_get usage key) (\<lambda>v.
       case as_u64 v of
         Some n \<Rightarrow> Some (of_nat n)
       | None \<Rightarrow> map_option (\<lambda>n. word_of_int (max n 0)) (json_as_i64 v))"

text \<open>\<open>estimate\<close>: the tokens the o200k encoder counts in a body that parses as a Messages response.\<close>

definition extract_usage :: "(json \<Rightarrow> u64 option) \<Rightarrow> json option \<Rightarrow> BillingUsage option" where
  "extract_usage estimate body =
     (case body of
        None \<Rightarrow> None
      | Some value \<Rightarrow>
          (case Option.bind (json_get value ''usage'') (\<lambda>usage.
                  case (usage_u64 usage ''input_tokens'', usage_u64 usage ''output_tokens'') of
                    (Some inp, Some out) \<Rightarrow>
                      Some \<lparr>bu_input_tokens = inp, bu_output_tokens = out,
                            bu_cache_creation_tokens =
                              (case usage_u64 usage ''cache_creation_input_tokens'' of None \<Rightarrow> 0 | Some n \<Rightarrow> n),
                            bu_cache_read_tokens =
                              (case usage_u64 usage ''cache_read_input_tokens'' of None \<Rightarrow> 0 | Some n \<Rightarrow> n),
                            bu_ttft_ms = None\<rparr>
                  | _ \<Rightarrow> None) of
             Some u \<Rightarrow> Some u
           | None \<Rightarrow>
               map_option (\<lambda>out. \<lparr>bu_input_tokens = 0, bu_output_tokens = out,
                  bu_cache_creation_tokens = 0, bu_cache_read_tokens = 0, bu_ttft_ms = None\<rparr>)
                 (estimate value)))"

end
