(* ===== verification/Chat_Retry.thy ===== *)
theory Chat_Retry
  imports Chat_Usage
begin

text \<open>
  The two request loops, \<open>try_chat\<close> and \<open>try_count_tokens\<close> of \<open>src/src/claude_code_state/chat.rs\<close>:
  one attempt from the moment the pool has granted an account to the drop of its slot guard, and the
  bounded loop over attempts.
\<close>

section \<open>Steps under the slot guard\<close>

datatype (plugins only: code size) guard_step =
    Emit chat_effect
  | Release_Slot
  | Complete

definition guard_step_run :: "guard_step \<Rightarrow> slot_guard \<Rightarrow> slot_guard \<times> chat_effect list" where
  "guard_step_run s g =
     (case s of
        Emit e \<Rightarrow> (g, [e])
      | Release_Slot \<Rightarrow> (case release_slot_only (sg_state g) of (ss, es) \<Rightarrow> (g\<lparr>sg_state := ss\<rparr>, es))
      | Complete \<Rightarrow> (slot_guard_disarm g, []))"

fun run_steps :: "guard_step list \<Rightarrow> slot_guard \<Rightarrow> slot_guard \<times> chat_effect list" where
  "run_steps [] g = (g, [])"
| "run_steps (s # ss) g =
     (case guard_step_run s g of
        (g', es) \<Rightarrow> (case run_steps ss g' of (g'', es') \<Rightarrow> (g'', es @ es')))"

text \<open>The guard is dropped where its scope ends, however it ends.\<close>

definition under_guard :: "guard_step list \<Rightarrow> slot_guard \<Rightarrow> chat_effect list" where
  "under_guard ss g = (case run_steps ss g of (g', es) \<Rightarrow> es @ slot_guard_drop g')"

definition guard_finish :: "guard_step list" where
  "guard_finish = [Release_Slot, Complete]"

section \<open>Results and answers\<close>

datatype (plugins only: code size) handoff =
    Plain
  | Bridged "i64 option"
  | Streaming "i64 option"
  | Counted
  | Estimated

datatype (plugins only: code size) attempt_result =
    Respond handoff
  | Error ClewdrError
  | Retry
  | Gone
  | Unwound
  | Stranded "AccountSlot option"

datatype entry_point = Chat | Count_Tokens

record upstream =
  up_content_type :: "string option"
  up_body :: "json option awaited"

text \<open>
  The wait for the pool is an await as well. A task that is dropped there may already have been granted
  a slot: its message is in the queue of the pool, which charges the slot and then finds nobody waiting.
\<close>

datatype (plugins only: code size) acquire_outcome =
    Replied "ClewdrError + AccountSlot"
  | Abandoned "AccountSlot option"

record attempt_answers =
  an_acquire :: acquire_outcome
  an_now :: instant
  an_exchange :: exchange_answers
  an_oauth :: oauth_answers
  an_send :: "upstream awaited"
  an_usage :: usage_answers
  an_usage_cut :: "unit awaited"
  an_statement_ok :: bool
  an_arm_cut :: "nat option"

section \<open>Token ladder\<close>

definition prepare_attempt :: "AccountSlot \<Rightarrow> 'u ClaudeCodeState \<Rightarrow> 'u ClaudeCodeState" where
  "prepare_attempt slot st =
     st\<lparr>cs_oauth_token := (if auth_method slot = OAuth then token slot else None),
       cs_account_id := account_id slot,
       cs_billing_ctx := map_option (\<lambda>c. c\<lparr>bc_account_id := account_id slot\<rparr>) (cs_billing_ctx st)\<rparr>"

definition released :: "'u ClaudeCodeState \<Rightarrow> ('u, unit) run" where
  "released st = issue (release_account st None) (Inr ()) st"

definition ensure_token ::
  "'u chat_env \<Rightarrow> attempt_answers \<Rightarrow> AccountSlot \<Rightarrow> 'u ClaudeCodeState \<Rightarrow> ('u, unit) run" where
  "ensure_token env an slot st =
     (case check_token (an_now an) st of
        TS_None \<Rightarrow>
          if auth_method slot = OAuth
          then fail_with (Failed (UnexpectedNone ''OAuth token missing for oauth-bearing slot'')) st
          else and_then (authorize env (an_exchange an) st) (\<lambda>_ st. released st)
      | TS_Expired \<Rightarrow>
          if auth_method slot = OAuth
          then (case account_id slot of
                  None \<Rightarrow> fail_with (Failed (UnexpectedNone ''OAuth refresh requires account id'')) st
                | Some aid \<Rightarrow>
                    and_then (persist_oauth_refresh (an_oauth an) aid st)
                      (\<lambda>_ st. done_with () (set_cookie_token (cs_oauth_token st) st)))
          else and_then (refresh_cookie_token env (an_exchange an) st) (\<lambda>_ st. released st)
      | TS_Valid \<Rightarrow> done_with () st)"

definition bearer :: "'u ClaudeCodeState \<Rightarrow> string option" where
  "bearer st =
     or_else (map_option access_token (cs_oauth_token st))
       (map_option access_token (Option.bind (cs_cookie st) token))"

definition token_ladder ::
  "'u chat_env \<Rightarrow> attempt_answers \<Rightarrow> AccountSlot \<Rightarrow> 'u ClaudeCodeState \<Rightarrow> ('u, string) run" where
  "token_ladder env an slot st =
     (if auth_method slot = ApiKey then done_with [] st
      else and_then (ensure_token env an slot st) (\<lambda>_ st.
        case bearer st of
          Some t \<Rightarrow> done_with t st
        | None \<Rightarrow> fail_with (Failed (UnexpectedNone ''No access token found in cookie'')) st))"

section \<open>Sending\<close>

type_synonym ('u, 'a) guarded_run = "'a awaited \<times> 'u ClaudeCodeState \<times> guard_step list"

definition is_sse :: "string option \<Rightarrow> bool" where
  "is_sse content_type =
     (case content_type of
        None \<Rightarrow> False
      | Some v \<Rightarrow> eq_ignore_ascii_case (trim (hd (split_on (CHR '';'') v))) ''text/event-stream'')"

definition usage_or_estimate :: "'u ClaudeCodeState \<Rightarrow> BillingUsage option \<Rightarrow> BillingUsage" where
  "usage_or_estimate st u =
     (case u of
        Some b \<Rightarrow> b
      | None \<Rightarrow> \<lparr>bu_input_tokens = ucast (cs_input_tokens st), bu_output_tokens = 0,
                 bu_cache_creation_tokens = 0, bu_cache_read_tokens = 0, bu_ttft_ms = None\<rparr>)"

definition bill_ok :: "bool \<Rightarrow> BillingUsage \<Rightarrow> 'u ClaudeCodeState \<Rightarrow> chat_effect list" where
  "bill_ok stream u st =
     (case cs_billing_ctx st of
        None \<Rightarrow> []
      | Some ctx \<Rightarrow>
          [Bill ctx \<lparr>to_request_type = Messages, to_stream = stream, to_status = ''ok'',
             to_http_status = Some 200, to_usage = Some u, to_error_code = None, to_error_message = None,
             to_update_rollups = True, to_response_body = None\<rparr>])"

definition handle_success_response ::
  "'u chat_env \<Rightarrow> (json \<Rightarrow> u64 option) \<Rightarrow> attempt_answers \<Rightarrow> ModelFamily \<Rightarrow> upstream
     \<Rightarrow> 'u ClaudeCodeState \<Rightarrow> ('u, handoff) guarded_run" where
  "handle_success_response env estimate an family up st =
     (if \<not> cs_stream st \<and> cs_non_stream_keepalive st \<and> is_sse (up_content_type up)
      then (Inr (Bridged (cs_account_id st)), st, [])
      else if \<not> cs_stream st then
        (case up_body up of
           Inl i \<Rightarrow> (Inl i, st, [])
         | Inr body \<Rightarrow>
             let bu = usage_or_estimate st (extract_usage estimate body) in
             case an_usage_cut an of
               Inl i \<Rightarrow> (Inl i, st, [])
             | Inr _ \<Rightarrow>
                 (case persist_usage_totals env (an_now an) (an_usage an) (bu_input_tokens bu)
                         (bu_output_tokens bu) family st of
                    (st', es) \<Rightarrow>
                      (Inr Plain, st',
                       map Emit es @ [Release_Slot] @ map Emit (bill_ok False bu st'))))
      else (Inr (Streaming (or_else (cs_account_id st) (Option.bind (cs_cookie st) account_id))), st, []))"

definition is_count_tokens_unauthorized :: "ClewdrError \<Rightarrow> bool" where
  "is_count_tokens_unauthorized err =
     (case err of ClaudeHttpError code _ \<Rightarrow> code = 401 \<or> code = 403 \<or> code = 404 | _ \<Rightarrow> False)"

text \<open>\<open>up_body\<close> of a count is the body read and parsed as a token count, or the failure to.\<close>

definition perform_count_tokens ::
  "attempt_answers \<Rightarrow> 'u ClaudeCodeState \<Rightarrow> ('u, handoff) guarded_run" where
  "perform_count_tokens an st =
     (case an_send an of
        Inr up \<Rightarrow>
          (case persist_count_tokens_allowed True st of
             (st', es) \<Rightarrow>
               (case up_body up of Inl i \<Rightarrow> Inl i | Inr _ \<Rightarrow> Inr Counted, st', map Emit es))
      | Inl (Failed err) \<Rightarrow>
          if is_count_tokens_unauthorized err
          then (case persist_count_tokens_allowed False st of (st', es) \<Rightarrow> (Inl (Failed err), st', map Emit es))
          else (Inl (Failed err), st, [])
      | Inl i \<Rightarrow> (Inl i, st, []))"

definition send_chat ::
  "'u chat_env \<Rightarrow> (json \<Rightarrow> u64 option) \<Rightarrow> attempt_answers \<Rightarrow> string \<Rightarrow> 'u ClaudeCodeState
     \<Rightarrow> ('u, handoff) guarded_run" where
  "send_chat env estimate an model st =
     (case an_send an of
        Inl i \<Rightarrow> (Inl i, st, [])
      | Inr up \<Rightarrow> handle_success_response env estimate an (classify_model model) up st)"

text \<open>The future of an attempt; it runs under \<open>timeout_upstream\<close>.\<close>

definition attempt_future ::
  "'u chat_env \<Rightarrow> (json \<Rightarrow> u64 option) \<Rightarrow> entry_point \<Rightarrow> string \<Rightarrow> attempt_answers \<Rightarrow> AccountSlot
     \<Rightarrow> 'u ClaudeCodeState \<Rightarrow> ('u, handoff) guarded_run" where
  "attempt_future env estimate ep model an slot st =
     (case token_ladder env an slot st of
        (Inl i, st', es) \<Rightarrow> (Inl i, st', map Emit es)
      | (Inr _, st', es) \<Rightarrow>
          (case (case ep of Chat \<Rightarrow> send_chat env estimate an model st'
                          | Count_Tokens \<Rightarrow> perform_count_tokens an st') of
             (r, st'', ss) \<Rightarrow> (r, st'', map Emit es @ ss)))"

definition timeout_label :: "entry_point \<Rightarrow> string" where
  "timeout_label ep =
     (case ep of
        Chat \<Rightarrow> ''Claude messages request exceeded 600 seconds before response handoff''
      | Count_Tokens \<Rightarrow> ''Claude count_tokens request exceeded 60 seconds'')"

definition timeout_upstream :: "string \<Rightarrow> 'a awaited \<Rightarrow> 'a awaited" where
  "timeout_upstream label r = (case r of Inl Deadline \<Rightarrow> Inl (Failed (UpstreamTimeout label)) | _ \<Rightarrow> r)"

section \<open>The failure arms\<close>

definition failure_source :: "entry_point \<Rightarrow> FailureSource" where
  "failure_source ep = (case ep of Chat \<Rightarrow> FS_Messages | Count_Tokens \<Rightarrow> FS_CountTokens)"

definition mark_oauth_failure ::
  "'u chat_env \<Rightarrow> bool \<Rightarrow> 'u ClaudeCodeState \<Rightarrow> i64 \<Rightarrow> OAuthFailureVerdict \<Rightarrow> ClewdrError
     \<Rightarrow> chat_effect list" where
  "mark_oauth_failure env ok st aid v e =
     (if ov_disabled v then mark_oauth_account_disabled ok st aid (ov_persisted v)
      else case ov_cooldown_until v of
             Some t \<Rightarrow> mark_oauth_account_cooldown st aid t
           | None \<Rightarrow>
               if is_oauth_auth_failure env e
               then mark_oauth_account_auth_error ok st aid (ce_display env e) (ov_persisted v)
               else [])"

definition oauth_arm ::
  "'u chat_env \<Rightarrow> entry_point \<Rightarrow> bool \<Rightarrow> AccountSlot \<Rightarrow> ClewdrError \<Rightarrow> 'u ClaudeCodeState
     \<Rightarrow> attempt_result \<times> guard_step list" where
  "oauth_arm env ep ok slot e st =
     (let v = classify_oauth_failure env e (failure_source ep);
          marks = (case account_id slot of None \<Rightarrow> [] | Some aid \<Rightarrow> mark_oauth_failure env ok st aid v e)
      in (Error (if ov_cooldown_until v \<noteq> None then UpstreamCoolingDown else e),
          map Emit marks @ guard_finish
            @ (if ov_pool_reason v \<noteq> None then map Emit (release_account st (ov_pool_reason v)) else [])))"

definition api_key_arm ::
  "'u chat_env \<Rightarrow> entry_point \<Rightarrow> bool \<Rightarrow> AccountSlot \<Rightarrow> ClewdrError \<Rightarrow> 'u ClaudeCodeState
     \<Rightarrow> attempt_result \<times> guard_step list" where
  "api_key_arm env ep ok slot e st =
     (if cs_cookie st = None then (Unwound, guard_finish)
      else
        let v = classify_account_failure (ce_display env) (ce_json_text env) e (failure_source ep) None
                  (Some ApiKey)
        in case fc_action v of
             TerminalAuth \<Rightarrow>
               (Error e, guard_finish @ map Emit (case account_id slot of
                    None \<Rightarrow> []
                  | Some aid \<Rightarrow> mark_api_key_account_auth_error ok st aid (ce_display env e) (to_persisted v)))
           | TerminalDisabled \<Rightarrow>
               (Error e, guard_finish @ map Emit (case account_id slot of
                    None \<Rightarrow> []
                  | Some aid \<Rightarrow> mark_api_key_account_disabled ok st aid
                      (case to_reason (fc_normalized_reason v) of Some r \<Rightarrow> r | None \<Rightarrow> Disabled)
                      (to_persisted v)))
           | TransientUpstream \<Rightarrow>
               (if should_retry_api_key_transient e then Retry else Error e,
                guard_finish @ map Emit (release_account st None))
           | Cooldown _ \<Rightarrow> (Unwound, guard_finish)
           | InternalError \<Rightarrow> (Error e, guard_finish))"

definition cookie_arm ::
  "'u chat_env \<Rightarrow> entry_point \<Rightarrow> AccountSlot \<Rightarrow> ClewdrError \<Rightarrow> 'u ClaudeCodeState
     \<Rightarrow> attempt_result \<times> guard_step list" where
  "cookie_arm env ep slot e st =
     (if cs_cookie st = None then (Unwound, guard_finish)
      else case e of
             InvalidCookie reason \<Rightarrow>
               (Retry, guard_finish
                 @ map Emit (case account_id slot of
                     None \<Rightarrow> []
                   | Some aid \<Rightarrow> persist_last_failure st aid (classify_persisted env e (failure_source ep)))
                 @ map Emit (release_account st (Some reason)))
           | _ \<Rightarrow> (Error e, guard_finish))"

definition failure_arm ::
  "'u chat_env \<Rightarrow> entry_point \<Rightarrow> bool \<Rightarrow> AccountSlot \<Rightarrow> ClewdrError \<Rightarrow> 'u ClaudeCodeState
     \<Rightarrow> attempt_result \<times> guard_step list" where
  "failure_arm env ep ok slot e st =
     (case auth_method slot of
        OAuth \<Rightarrow> oauth_arm env ep ok slot e st
      | ApiKey \<Rightarrow> api_key_arm env ep ok slot e st
      | Cookie \<Rightarrow> cookie_arm env ep slot e st)"

text \<open>The statements of the arm are awaited: the task may be dropped after any of its steps.\<close>

definition cut_at :: "nat option \<Rightarrow> attempt_result \<times> guard_step list \<Rightarrow> attempt_result \<times> guard_step list" where
  "cut_at stop arm =
     (case stop of
        None \<Rightarrow> arm
      | Some n \<Rightarrow> if n < length (snd arm) then (Gone, take n (snd arm)) else arm)"

section \<open>One attempt\<close>

definition option_list :: "'a option \<Rightarrow> 'a list" where
  "option_list x = (case x of None \<Rightarrow> [] | Some a \<Rightarrow> [a])"

definition count_disallowed :: "entry_point \<Rightarrow> AccountSlot \<Rightarrow> bool" where
  "count_disallowed ep slot \<longleftrightarrow>
     ep = Count_Tokens \<and> auth_method slot \<noteq> ApiKey \<and> count_tokens_allowed slot = Some False"

definition attempt_body ::
  "'u chat_env \<Rightarrow> (json \<Rightarrow> u64 option) \<Rightarrow> entry_point \<Rightarrow> string \<Rightarrow> attempt_answers \<Rightarrow> AccountSlot
     \<Rightarrow> 'u ClaudeCodeState \<Rightarrow> attempt_result \<times> guard_step list" where
  "attempt_body env estimate ep model an slot st =
     (if count_disallowed ep slot
      then (Respond Estimated, guard_finish @ map Emit (snd (persist_count_tokens_allowed False st)))
      else case attempt_future env estimate ep model an slot st of
             (r, st', ss) \<Rightarrow>
               (case timeout_upstream (timeout_label ep) r of
                  Inr h \<Rightarrow>
                    (Respond h,
                     ss @ (if ep = Chat \<and> (cs_stream st \<or> cs_non_stream_keepalive st)
                           then [Complete] else guard_finish))
                | Inl (Failed e) \<Rightarrow>
                    (case cut_at (an_arm_cut an) (failure_arm env ep (an_statement_ok an) slot e st') of
                       (res, arm) \<Rightarrow> (res, ss @ arm))
                | Inl Panicked \<Rightarrow> (Unwound, ss)
                | Inl _ \<Rightarrow> (Gone, ss)))"

definition attempt ::
  "'u chat_env \<Rightarrow> (json \<Rightarrow> u64 option) \<Rightarrow> entry_point \<Rightarrow> string \<Rightarrow> attempt_answers
     \<Rightarrow> 'u ClaudeCodeState \<Rightarrow> attempt_result \<times> 'u ClaudeCodeState \<times> chat_effect list" where
  "attempt env estimate ep model an st =
     (case an_acquire an of
        Abandoned granted \<Rightarrow> (Stranded granted, set_selected None st, map Granted (option_list granted))
      | Replied answer \<Rightarrow>
          (case acquire_account env answer st of
             (Inl e, st', es) \<Rightarrow> (Error e, st', es)
           | (Inr slot, st', es) \<Rightarrow>
               let st'' = prepare_attempt slot st';
                   g = slot_guard_new (account_id slot)
                         (case ep of Chat \<Rightarrow> map_option (\<lambda>c. (c, cs_stream st'')) (cs_billing_ctx st'')
                                   | Count_Tokens \<Rightarrow> None)
               in case attempt_body env estimate ep model an slot st'' of
                    (r, ss) \<Rightarrow> (r, st'', es @ under_guard ss g)))"

section \<open>The loop\<close>

definition MAX_RETRIES :: nat where
  "MAX_RETRIES = 5"

text \<open>
  Every attempt starts from the same request state; only the cell for the selected account is shared
  between them. \<open>answers i\<close> is what the outside answers in attempt \<open>i\<close>.
\<close>

primrec attempts ::
  "nat \<Rightarrow> 'u chat_env \<Rightarrow> (json \<Rightarrow> u64 option) \<Rightarrow> entry_point \<Rightarrow> string \<Rightarrow> (nat \<Rightarrow> attempt_answers)
     \<Rightarrow> 'u ClaudeCodeState \<Rightarrow> attempt_result \<times> 'u ClaudeCodeState \<times> chat_effect list" where
  "attempts 0 env estimate ep model answers st = (Error TooManyRetries, st, [])"
| "attempts (Suc n) env estimate ep model answers st =
     (case attempt env estimate ep model (answers 0) st of
        (Retry, st', es) \<Rightarrow>
          (case attempts n env estimate ep model (\<lambda>i. answers (Suc i))
                  (st\<lparr>cs_selected_account_id := cs_selected_account_id st'\<rparr>) of
             (r, st'', es') \<Rightarrow> (r, st'', es @ es'))
      | (r, st', es) \<Rightarrow> (r, st\<lparr>cs_selected_account_id := cs_selected_account_id st'\<rparr>, es))"

definition try_chat ::
  "'u chat_env \<Rightarrow> (json \<Rightarrow> u64 option) \<Rightarrow> string \<Rightarrow> (nat \<Rightarrow> attempt_answers) \<Rightarrow> 'u ClaudeCodeState
     \<Rightarrow> attempt_result \<times> 'u ClaudeCodeState \<times> chat_effect list" where
  "try_chat env estimate model answers st = attempts (MAX_RETRIES + 1) env estimate Chat model answers st"

definition try_count_tokens ::
  "'u chat_env \<Rightarrow> (nat \<Rightarrow> attempt_answers) \<Rightarrow> 'u ClaudeCodeState
     \<Rightarrow> attempt_result \<times> 'u ClaudeCodeState \<times> chat_effect list" where
  "try_count_tokens env answers st =
     attempts (MAX_RETRIES + 1) env (\<lambda>_. None) Count_Tokens [] answers st"

end
