(* ===== verification/Chat_Slots.thy ===== *)
theory Chat_Slots
  imports Chat_Retry
begin

text \<open>
  The account slots over a whole request: every slot the pool grants is released exactly once or
  handed to the response body, whatever fails and wherever the request is cut; and the loop makes at
  most six attempts.
\<close>

section \<open>Counting\<close>

definition is_grant :: "i64 \<Rightarrow> chat_effect \<Rightarrow> bool" where
  "is_grant aid e = (case e of Granted s \<Rightarrow> account_id s = Some aid | _ \<Rightarrow> False)"

definition is_release :: "i64 \<Rightarrow> chat_effect \<Rightarrow> bool" where
  "is_release aid e = (case e of Pool (ReleaseSlot a) \<Rightarrow> a = aid | _ \<Rightarrow> False)"

definition grants :: "i64 \<Rightarrow> chat_effect list \<Rightarrow> nat" where
  "grants aid es = length (filter (is_grant aid) es)"

definition releases :: "i64 \<Rightarrow> chat_effect list \<Rightarrow> nat" where
  "releases aid es = length (filter (is_release aid) es)"

definition quiet :: "chat_effect list \<Rightarrow> bool" where
  "quiet es = list_all (\<lambda>e. case e of Granted _ \<Rightarrow> False | Pool (ReleaseSlot _) \<Rightarrow> False | _ \<Rightarrow> True) es"

lemma counts_simps [simp]:
  "grants aid [] = 0" "releases aid [] = 0" "quiet []"
  "grants aid (e # es) = (if is_grant aid e then 1 else 0) + grants aid es"
  "releases aid (e # es) = (if is_release aid e then 1 else 0) + releases aid es"
  "grants aid (xs @ ys) = grants aid xs + grants aid ys"
  "releases aid (xs @ ys) = releases aid xs + releases aid ys"
  "quiet (xs @ ys) \<longleftrightarrow> quiet xs \<and> quiet ys"
  by (simp_all add: grants_def releases_def quiet_def)

lemma is_simps [simp]:
  "is_grant aid (Granted s) \<longleftrightarrow> account_id s = Some aid"
  "\<not> is_grant aid (Pool m)" "\<not> is_grant aid (Sql q)" "\<not> is_grant aid (Bill c t)"
  "\<not> is_release aid (Granted s)" "is_release aid (Pool (ReleaseSlot a)) \<longleftrightarrow> a = aid"
  "\<not> is_release aid (Sql q)" "\<not> is_release aid (Bill c t)"
  by (simp_all add: is_grant_def is_release_def)

lemma quiet_counts [simp]:
  assumes "quiet es"
  shows "grants aid es = 0" and "releases aid es = 0"
  using assms
  by (induction es)
    (auto simp: quiet_def is_grant_def is_release_def split: chat_effect.splits AccountPoolMessage.splits)

lemma quiet_single [simp]:
  "quiet [Sql q]" "quiet [Bill c t]" "quiet [Pool (Return i p r f m)]"
  "quiet [Pool (UpdateCredentialIfCurrent i s tk)]" "quiet [Pool (Invalidate i rs)]"
  by (simp_all add: quiet_def)

lemma quiet_Cons [simp]:
  "quiet (Sql q # es) = quiet es" "quiet (Bill c t # es) = quiet es"
  "quiet (Pool (Invalidate i rs) # es) = quiet es"
  by (simp_all add: quiet_def)

lemma quiet_ConsD: "quiet (e # es) \<Longrightarrow> quiet es \<and> \<not> is_grant aid e \<and> \<not> is_release aid e"
  by (auto simp: quiet_def is_grant_def is_release_def split: chat_effect.splits AccountPoolMessage.splits)

lemma release_account_quiet [simp]: "quiet (release_account st r)"
  by (simp add: release_account_def split: option.splits)

lemma return_runtime_quiet [simp]: "quiet (return_runtime c)"
  by (simp add: return_runtime_def split: option.splits)

lemma mark_account_quiet [simp]: "quiet (mark_account ok st aid q p r)"
  by (simp add: mark_account_def)

lemma marks_quiet [simp]:
  "quiet (mark_oauth_failure env ok st aid v e)"
  "quiet (mark_api_key_account_auth_error ok st aid msg p)"
  "quiet (mark_api_key_account_disabled ok st aid rs p)"
  "quiet (persist_last_failure st aid p)"
  by (simp_all add: mark_oauth_failure_def mark_oauth_account_disabled_def mark_oauth_account_cooldown_def
      mark_oauth_account_auth_error_def mark_api_key_account_auth_error_def
      mark_api_key_account_disabled_def persist_last_failure_def split: option.splits)

section \<open>What the steps of an attempt leave alone\<close>

definition same_request :: "'u ClaudeCodeState \<Rightarrow> 'u ClaudeCodeState \<Rightarrow> bool" where
  "same_request st st' \<longleftrightarrow>
     cs_account_id st' = cs_account_id st \<and> cs_stream st' = cs_stream st
     \<and> cs_non_stream_keepalive st' = cs_non_stream_keepalive st
     \<and> map_option account_id (cs_cookie st') = map_option account_id (cs_cookie st)"

lemma same_request_refl [simp]: "same_request st st"
  by (simp add: same_request_def)

lemma same_request_trans: "same_request a b \<Longrightarrow> same_request b c \<Longrightarrow> same_request a c"
  by (simp add: same_request_def)

definition proper :: "'u ClaudeCodeState \<Rightarrow> ('u, 'a) run \<Rightarrow> bool" where
  "proper st m \<longleftrightarrow> same_request st (fst (snd m)) \<and> quiet (snd (snd m))"

lemma proper_basic [simp]:
  "proper st (done_with a st') \<longleftrightarrow> same_request st st'"
  "proper st (fail_with i st') \<longleftrightarrow> same_request st st'"
  "proper st (await x st') \<longleftrightarrow> same_request st st'"
  "proper st (issue es x st') \<longleftrightarrow> same_request st st' \<and> quiet es"
  by (simp_all add: proper_def done_with_def fail_with_def await_def issue_def)

lemma proper_and_then:
  assumes "proper st m" and "\<And>a st'. same_request st st' \<Longrightarrow> proper st (f a st')"
  shows "proper st (and_then m f)"
proof -
  obtain r st' es where m: "m = (r, st', es)" by (cases m)
  then have st': "same_request st st'" "quiet es" using assms(1) by (simp_all add: proper_def)
  show ?thesis
  proof (cases r)
    case (Inl i)
    then show ?thesis using m st' by (simp add: and_then_def proper_def)
  next
    case (Inr a)
    obtain r2 st2 es2 where f: "f a st' = (r2, st2, es2)" by (cases "f a st'")
    have "proper st (f a st')" by (rule assms(2) [OF st'(1)])
    then show ?thesis using m st' f Inr by (simp add: and_then_def proper_def)
  qed
qed

lemma proper_weaken: "proper st' m \<Longrightarrow> same_request st st' \<Longrightarrow> proper st m"
  by (auto simp: proper_def intro: same_request_trans)

lemma same_request_updates [simp]:
  "same_request st (set_cookie_token t st') \<longleftrightarrow> same_request st st'"
  "same_request st (with_token tk st') \<longleftrightarrow> same_request st st'"
  "same_request st (apply_snapshot p st') \<longleftrightarrow> same_request st st'"
  "same_request st (st'\<lparr>cs_oauth_token := x\<rparr>) \<longleftrightarrow> same_request st st'"
  "same_request st (st'\<lparr>cs_organization_uuid := y\<rparr>) \<longleftrightarrow> same_request st st'"
  by (simp_all add: same_request_def set_cookie_token_def with_token_def apply_snapshot_def
      option.map_comp comp_def apply_oauth_snapshot_runtime_def)

lemma authorize_proper: "same_request st st' \<Longrightarrow> proper st (authorize env an st')"
  unfolding authorize_def get_organization_def exchange_code_def exchange_token_def
  by (intro proper_and_then) (auto intro!: proper_and_then split: option.splits)

lemma refresh_cookie_token_proper: "same_request st st' \<Longrightarrow> proper st (refresh_cookie_token env an st')"
  unfolding refresh_cookie_token_def
  by (auto intro!: proper_and_then authorize_proper split: option.splits sum.splits)

lemma current_token_proper: "same_request st st' \<Longrightarrow> proper st (current_token an fb st')"
  unfolding current_token_def by (auto intro!: proper_and_then split: option.splits)

lemma adopt_proper:
  "same_request st st' \<Longrightarrow> proper st (adopt_fresh an t st')"
  "same_request st st' \<Longrightarrow> proper st (adopt_stored an st')"
  unfolding adopt_fresh_def adopt_stored_def
  by (auto intro!: proper_and_then split: option.splits)

lemma store_snapshot_proper: "same_request st st' \<Longrightarrow> proper st (store_snapshot an aid r st')"
  unfolding store_snapshot_def Let_def by (intro proper_and_then) auto

lemma rotate_token_proper: "same_request st st' \<Longrightarrow> proper st (rotate_token an aid t st')"
  unfolding rotate_token_def
  by (intro proper_and_then) (auto intro!: proper_and_then adopt_proper store_snapshot_proper)

lemma persist_oauth_refresh_proper:
  "same_request st st' \<Longrightarrow> proper st (persist_oauth_refresh an aid st')"
  unfolding persist_oauth_refresh_def
  by (auto intro!: proper_and_then current_token_proper rotate_token_proper adopt_proper
      split: option.splits)

lemma ensure_token_proper: "proper st (ensure_token env an slot st)"
  unfolding ensure_token_def released_def
  by (auto intro!: proper_and_then authorize_proper refresh_cookie_token_proper
      persist_oauth_refresh_proper split: TokenStatus.splits option.splits)

lemma token_ladder_proper: "proper st (token_ladder env an slot st)"
  unfolding token_ladder_def
  by (auto intro!: proper_and_then ensure_token_proper split: option.splits)

lemma fetch_usage_metrics_proper: "proper st (fetch_usage_metrics env an st)"
  unfolding fetch_usage_metrics_def
  by (auto intro!: proper_and_then authorize_proper refresh_cookie_token_proper
      split: TokenStatus.splits option.splits)

lemma fetch_usage_metrics_quiet: "fetch_usage_metrics env an st = (r, st', es) \<Longrightarrow> quiet es"
  using fetch_usage_metrics_proper [of st env an] by (simp add: proper_def)

lemma fetch_usage_resets_quiet:
  "fetch_usage_resets env an c = (r, c', es) \<Longrightarrow> quiet es"
  by (auto simp: fetch_usage_resets_def Let_def dest: fetch_usage_metrics_quiet
      split: sum.splits prod.splits)

lemma boundaries_quiet:
  "update_cookie_boundaries_if_due env now an c = (c', es) \<Longrightarrow> quiet es"
  by (auto simp: update_cookie_boundaries_if_due_def Let_def dest: fetch_usage_resets_quiet
      split: if_splits prod.splits option.splits)

lemma book_usage_quiet: "book_usage env now an i out f c = (c', es) \<Longrightarrow> quiet es"
  by (auto simp: book_usage_def Let_def dest: boundaries_quiet split: prod.splits)

lemma persist_usage_totals_quiet:
  "persist_usage_totals env now an i out f st = (st', es) \<Longrightarrow> quiet es"
  by (auto simp: persist_usage_totals_def dest: book_usage_quiet split: if_splits option.splits prod.splits)

lemma persist_count_tokens_allowed_quiet [simp]:
  "quiet (snd (persist_count_tokens_allowed b st))"
  by (simp add: persist_count_tokens_allowed_def Let_def split: option.splits)

lemma persist_count_tokens_allowed_quietD:
  "persist_count_tokens_allowed b st = (st', es) \<Longrightarrow> quiet es"
  using persist_count_tokens_allowed_quiet [of b st] by simp

lemma bill_ok_quiet [simp]: "quiet (bill_ok b u st)"
  by (simp add: bill_ok_def split: option.splits)

section \<open>The guard\<close>

definition emits :: "guard_step list \<Rightarrow> chat_effect list" where
  "emits ss = List.map_filter (\<lambda>s. case s of Emit e \<Rightarrow> Some e | _ \<Rightarrow> None) ss"

lemma emits_simps [simp]:
  "emits [] = []" "emits (Emit e # ss) = e # emits ss"
  "emits (Release_Slot # ss) = emits ss" "emits (Complete # ss) = emits ss"
  "emits (xs @ ys) = emits xs @ emits ys" "emits (map Emit es) = es" "emits guard_finish = []"
  by (simp_all add: emits_def List.map_filter_def comp_def guard_finish_def)

lemma quiet_emits_take: "quiet (emits ss) \<Longrightarrow> quiet (emits (take n ss))"
  by (metis append_take_drop_id counts_simps(8) emits_simps(5))

lemma under_guard_simps [simp]:
  "under_guard [] g = slot_guard_drop g"
  "under_guard (s # ss) g = (case guard_step_run s g of (g', es) \<Rightarrow> es @ under_guard ss g')"
  by (simp_all add: under_guard_def split: prod.splits)

lemma drop_counts:
  "grants aid (slot_guard_drop g) = 0"
  "releases aid (slot_guard_drop g) =
     (if \<not> sg_completed g \<and> ss_account_id (sg_state g) = Some aid \<and> \<not> ss_slot_released (sg_state g)
      then 1 else 0)"
  by (auto simp: slot_guard_drop_def release_slot_only_def split: option.splits)

lemma guard_step_counts:
  assumes "guard_step_run s g = (g', es)"
  shows "grants aid es = (case s of Emit e \<Rightarrow> grants aid [e] | _ \<Rightarrow> 0)"
    and "releases aid es =
      (case s of Emit e \<Rightarrow> releases aid [e]
       | Release_Slot \<Rightarrow>
           if ss_account_id (sg_state g) = Some aid \<and> \<not> ss_slot_released (sg_state g) then 1 else 0
       | Complete \<Rightarrow> 0)"
    and "ss_account_id (sg_state g') = ss_account_id (sg_state g)"
    and "ss_account_id (sg_state g) \<noteq> None \<Longrightarrow>
      ss_slot_released (sg_state g') \<longleftrightarrow> ss_slot_released (sg_state g) \<or> s = Release_Slot"
    and "sg_completed g' \<longleftrightarrow> sg_completed g \<or> s = Complete"
  using assms
  by (auto simp: guard_step_run_def release_slot_only_def slot_guard_disarm_def
      split: guard_step.splits option.splits if_splits)

text \<open>The swap on the flag makes the release happen once, by the first of release and drop.\<close>

lemma under_guard_counts:
  assumes "quiet (emits ss)"
  shows "grants aid (under_guard ss g) = 0
    \<and> releases aid (under_guard ss g) =
      (if ss_account_id (sg_state g) = Some aid \<and> \<not> ss_slot_released (sg_state g)
          \<and> (Release_Slot \<in> set ss \<or> \<not> sg_completed g \<and> Complete \<notin> set ss) then 1 else 0)"
  using assms
proof (induction ss arbitrary: g)
  case Nil
  then show ?case by (simp add: drop_counts)
next
  case (Cons s ss)
  obtain g' es where g': "guard_step_run s g = (g', es)" by (cases "guard_step_run s g")
  have "quiet (emits ss)" "\<And>e. s = Emit e \<Longrightarrow> \<not> is_grant aid e \<and> \<not> is_release aid e"
    using Cons.prems by (cases s; auto dest: quiet_ConsD)+
  then show ?case using Cons.IH [of g'] g' guard_step_counts [OF g'] by (cases s) auto
qed

text \<open>Steps that never complete the guard before the slot is released, wherever they are cut.\<close>

definition releasing :: "guard_step list \<Rightarrow> bool" where
  "releasing ss \<longleftrightarrow> Release_Slot \<in> set ss \<or> Complete \<notin> set ss"

lemma releasing_take_arm:
  "releasing (take n (map Emit xs @ guard_finish @ map Emit ys))"
proof (cases "n \<le> length xs + 1")
  case True
  have "Complete \<notin> set (take n (map Emit xs @ guard_finish @ map Emit ys))"
    using True by (auto simp: guard_finish_def take_Cons' take_map dest: in_set_takeD split: if_splits)
  then show ?thesis by (simp add: releasing_def)
next
  case False
  then have "Release_Slot \<in> set (take n (map Emit xs @ guard_finish @ map Emit ys))"
    by (simp add: guard_finish_def take_Cons')
  then show ?thesis by (simp add: releasing_def)
qed

definition arm_shape :: "guard_step list \<Rightarrow> bool" where
  "arm_shape ss \<longleftrightarrow> (\<exists>xs ys. ss = map Emit xs @ guard_finish @ map Emit ys \<and> quiet xs \<and> quiet ys)"

lemma arm_shapeI:
  "quiet xs \<Longrightarrow> quiet ys \<Longrightarrow> arm_shape (map Emit xs @ guard_finish @ map Emit ys)"
  "quiet ys \<Longrightarrow> arm_shape (guard_finish @ map Emit ys)"
  "arm_shape guard_finish"
  unfolding arm_shape_def by (blast, metis append_Nil list.simps(8) counts_simps(3),
    metis append_Nil append_Nil2 list.simps(8) counts_simps(3))

lemma arm_shapeD:
  assumes "arm_shape ss"
  shows "releasing (take n ss)" and "quiet (emits (take n ss))" and "releasing ss" and "quiet (emits ss)"
proof -
  obtain xs ys where ss: "ss = map Emit xs @ guard_finish @ map Emit ys" "quiet xs" "quiet ys"
    using assms unfolding arm_shape_def by blast
  show "releasing (take n ss)" unfolding ss(1) by (rule releasing_take_arm)
  show q: "quiet (emits ss)" using ss by simp
  show "quiet (emits (take n ss))" by (rule quiet_emits_take [OF q])
  show "releasing ss" using ss(1) by (simp add: releasing_def guard_finish_def)
qed

lemma failure_arm_shape: "arm_shape (snd (failure_arm env ep ok slot e st))"
proof -
  have "arm_shape (snd (oauth_arm env ep ok slot e st))"
    by (auto simp: oauth_arm_def Let_def intro: arm_shapeI arm_shapeI(1) [where ys = "[]", simplified]
        split: option.splits)
  moreover have "arm_shape (snd (api_key_arm env ep ok slot e st))"
    by (auto simp: api_key_arm_def Let_def intro: arm_shapeI
        split: AccountFailureAction.splits option.splits)
  moreover have "arm_shape (snd (cookie_arm env ep slot e st))"
    using arm_shapeI(2) [of "(case account_id slot of None \<Rightarrow> []
        | Some aid \<Rightarrow> persist_last_failure st aid (classify_persisted env e (failure_source ep)))
        @ release_account st (Some r)" for r]
    by (auto simp: cookie_arm_def intro: arm_shapeI split: ClewdrError.splits option.splits)
  ultimately show ?thesis by (simp add: failure_arm_def split: AuthMethod.splits)
qed

section \<open>One attempt\<close>

text \<open>The slot that the response body of a result still holds.\<close>

definition pending :: "i64 \<Rightarrow> attempt_result \<Rightarrow> nat" where
  "pending aid r =
     (case r of
        Respond (Bridged a) \<Rightarrow> if a = Some aid then 1 else 0
      | Respond (Streaming a) \<Rightarrow> if a = Some aid then 1 else 0
      | _ \<Rightarrow> 0)"

definition holder :: "handoff \<Rightarrow> i64 option option" where
  "holder h = (case h of Bridged a \<Rightarrow> Some a | Streaming a \<Rightarrow> Some a | _ \<Rightarrow> None)"

lemma pending_simps [simp]:
  "pending aid (Error e) = 0" "pending aid Retry = 0" "pending aid Gone = 0" "pending aid Unwound = 0"
  "pending aid (Respond h) = (if holder h = Some (Some aid) then 1 else 0)"
  by (simp_all add: pending_def holder_def split: handoff.splits)

text \<open>The slot that the pool charged for a task which was dropped while it waited.\<close>

definition stranded :: "i64 \<Rightarrow> attempt_result \<Rightarrow> nat" where
  "stranded aid r = (case r of Stranded (Some slot) \<Rightarrow> if account_id slot = Some aid then 1 else 0 | _ \<Rightarrow> 0)"

lemma stranded_simps [simp]:
  "stranded aid (Error e) = 0" "stranded aid Retry = 0" "stranded aid Gone = 0" "stranded aid Unwound = 0"
  "stranded aid (Respond h) = 0" "pending aid (Stranded x) = 0" "stranded aid (Stranded None) = 0"
  "stranded aid (Stranded (Some slot)) = (if account_id slot = Some aid then 1 else 0)"
  by (simp_all add: stranded_def pending_def)

lemma cut_at_cases:
  assumes "cut_at c arm = (r, ss)" and "arm_shape (snd arm)"
  shows "releasing ss \<and> quiet (emits ss) \<and> (r = Gone \<or> r = fst arm)"
  using assms arm_shapeD [of "snd arm"]
  by (cases arm) (auto simp: cut_at_def split: option.splits if_splits)

lemma failure_arm_result:
  "pending aid (fst (failure_arm env ep ok slot e st)) = 0"
  "stranded aid (fst (failure_arm env ep ok slot e st)) = 0"
  by (auto simp: failure_arm_def oauth_arm_def api_key_arm_def cookie_arm_def Let_def
      split: AuthMethod.splits AccountFailureAction.splits ClewdrError.splits)

text \<open>A future that succeeds has released the slot or leaves it to the body of a long response.\<close>

lemma send_chat_handoff:
  assumes "send_chat env est an model st = (r, st', ss)"
  shows "quiet (emits ss) \<and> Complete \<notin> set ss
    \<and> (\<forall>h. r = Inr h \<longrightarrow>
          (holder h = None \<and> Release_Slot \<in> set ss)
          \<or> (holder h = Some (or_else (cs_account_id st) (Option.bind (cs_cookie st) account_id))
              \<and> Release_Slot \<notin> set ss \<and> (cs_stream st \<or> cs_non_stream_keepalive st))
          \<or> (holder h = Some (cs_account_id st) \<and> Release_Slot \<notin> set ss
              \<and> (cs_stream st \<or> cs_non_stream_keepalive st)))"
  using assms
  by (auto simp: send_chat_def handle_success_response_def Let_def holder_def
      dest: persist_usage_totals_quiet split: sum.splits if_splits prod.splits)

lemma perform_count_tokens_handoff:
  assumes "perform_count_tokens an st = (r, st', ss)"
  shows "quiet (emits ss) \<and> Complete \<notin> set ss \<and> Release_Slot \<notin> set ss
    \<and> (\<forall>h. r = Inr h \<longrightarrow> holder h = None)"
  using assms
  by (auto simp: perform_count_tokens_def holder_def dest: persist_count_tokens_allowed_quietD
      split: sum.splits interrupt.splits if_splits prod.splits)

lemma attempt_future_handoff:
  assumes "attempt_future env est ep model an slot st = (r, st', ss)"
    and "cs_cookie st = Some slot" and "cs_account_id st = account_id slot"
  shows "quiet (emits ss) \<and> Complete \<notin> set ss
    \<and> (\<forall>h. r = Inr h \<longrightarrow>
          (holder h = None \<and> (ep = Chat \<longrightarrow> Release_Slot \<in> set ss))
          \<or> (holder h = Some (account_id slot) \<and> Release_Slot \<notin> set ss \<and> ep = Chat
              \<and> (cs_stream st \<or> cs_non_stream_keepalive st)))"
proof -
  obtain r1 st1 es1 where l: "token_ladder env an slot st = (r1, st1, es1)"
    by (cases "token_ladder env an slot st")
  have p: "same_request st st1" "quiet es1"
    using token_ladder_proper [of st env an slot] l by (simp_all add: proper_def)
  have ids: "or_else (cs_account_id st1) (Option.bind (cs_cookie st1) account_id) = account_id slot"
    "cs_account_id st1 = account_id slot" "cs_stream st1 = cs_stream st"
    "cs_non_stream_keepalive st1 = cs_non_stream_keepalive st"
    using p(1) assms(2,3)
    by (auto simp: same_request_def or_else_def map_option_case split: option.splits)
  show ?thesis
  proof (cases r1)
    case (Inl i)
    then show ?thesis using assms(1) l p(2) by (auto simp: attempt_future_def)
  next
    case (Inr t)
    show ?thesis
    proof (cases ep)
      case Chat
      obtain r2 st2 ss2 where s: "send_chat env est an model st1 = (r2, st2, ss2)"
        by (cases "send_chat env est an model st1")
      then have "r = r2" "ss = map Emit es1 @ ss2"
        using assms(1) l Inr Chat by (simp_all add: attempt_future_def)
      then show ?thesis using send_chat_handoff [OF s, unfolded ids(1)] p(2) Chat ids(2-) by auto
    next
      case Count_Tokens
      obtain r2 st2 ss2 where s: "perform_count_tokens an st1 = (r2, st2, ss2)"
        by (cases "perform_count_tokens an st1")
      then have "r = r2" "ss = map Emit es1 @ ss2"
        using assms(1) l Inr Count_Tokens by (simp_all add: attempt_future_def)
      then show ?thesis using perform_count_tokens_handoff [OF s] p(2) Count_Tokens by auto
    qed
  qed
qed

lemma attempt_body_slots:
  assumes "attempt_body env est ep model an slot st = (r, ss)"
    and "cs_cookie st = Some slot" and "cs_account_id st = account_id slot"
  shows "quiet (emits ss)
    \<and> pending aid r = (if \<not> releasing ss \<and> account_id slot = Some aid then 1 else 0)
    \<and> stranded aid r = 0
    \<and> (releasing ss \<or> ep = Chat)"
proof (cases "count_disallowed ep slot")
  case True
  then show ?thesis using assms(1) by (auto simp: attempt_body_def holder_def releasing_def guard_finish_def)
next
  case False
  obtain f st' s0 where f: "attempt_future env est ep model an slot st = (f, st', s0)"
    by (cases "attempt_future env est ep model an slot st")
  note h = attempt_future_handoff [OF f assms(2,3)]
  show ?thesis
  proof (cases "timeout_upstream (timeout_label ep) f")
    case (Inr x)
    then have "f = Inr x" by (auto simp: timeout_upstream_def split: sum.splits interrupt.splits)
    then show ?thesis using h Inr False f assms(1)
      by (auto simp: attempt_body_def releasing_def guard_finish_def split: if_splits)
  next
    case (Inl i)
    show ?thesis
    proof (cases i)
      case (Failed e)
      obtain res arm where c:
        "cut_at (an_arm_cut an) (failure_arm env ep (an_statement_ok an) slot e st') = (res, arm)"
        by fastforce
      have "r = res" "ss = s0 @ arm"
        using assms(1) False f Inl Failed c by (simp_all add: attempt_body_def)
      then show ?thesis
        using cut_at_cases [OF c failure_arm_shape] h failure_arm_result [of aid env ep "an_statement_ok an" slot e st']
        by (auto simp: releasing_def)
    qed (use assms(1) False f Inl h in \<open>auto simp: attempt_body_def releasing_def\<close>)
  qed
qed

section \<open>The whole request\<close>

text \<open>
  What \<open>acquire_account\<close> does after the pool has answered succeeds for this slot: its cookie is a
  legal header value, its base URL parses, its client can be built.
\<close>

definition setup_ok :: "'u chat_env \<Rightarrow> AccountSlot \<Rightarrow> bool" where
  "setup_ok env slot \<longleftrightarrow>
     \<not> isl (cookie_header_for env [] slot) \<and> ce_client env slot = None
     \<and> (auth_method slot = ApiKey \<longrightarrow>
          (case api_key_base_url slot of
             None \<Rightarrow> False | Some raw \<Rightarrow> \<not> isl (normalize_api_key_base_url (ce_url env) raw)))"

definition grant_usable :: "'u chat_env \<Rightarrow> attempt_answers \<Rightarrow> bool" where
  "grant_usable env an = (case an_acquire an of Replied (Inr slot) \<Rightarrow> setup_ok env slot | _ \<Rightarrow> True)"

lemma acquire_usable:
  assumes "setup_ok env slot"
  obtains st' where "acquire_account env (Inr slot) st = (Inr slot, st', [Granted slot])"
    and "cs_cookie st' = Some slot"
proof -
  have "\<exists>h. cookie_header_for env m slot = Inr h" for m
    using assms by (auto simp: setup_ok_def cookie_header_for_def split: AuthMethod.splits option.splits)
  then obtain h where h:
    "cookie_header_for env ''Cookie kind invariant: dispatched cookie slot missing cookie blob'' slot = Inr h"
    by blast
  define st2 where "st2 = (set_selected None st)
    \<lparr>cs_cookie := Some slot, cs_cookie_header_value := h, cs_proxy_url := proxy_url slot\<rparr>"
  have "\<exists>st3. install_credential env m slot st2 = Inr st3 \<and> cs_cookie st3 = cs_cookie st2" for m
    using assms by (cases "auth_method slot")
      (auto simp: setup_ok_def install_credential_def isl_def split: option.splits sum.splits)
  then obtain st3 where i: "install_credential env
      ''ApiKey kind invariant: dispatched api_key slot missing base_url'' slot st2 = Inr st3"
    "cs_cookie st3 = cs_cookie st2"
    by blast
  show ?thesis
  proof
    show "acquire_account env (Inr slot) st
        = (Inr slot, set_selected (account_id slot) st3, [Granted slot])"
      using assms h i(1) by (simp add: acquire_account_def Let_def st2_def setup_ok_def)
    show "cs_cookie (set_selected (account_id slot) st3) = Some slot"
      using i(2) by (simp add: set_selected_def st2_def)
  qed
qed

lemma attempt_balanced:
  assumes "attempt env est ep model an st = (r, st', es)" and "grant_usable env an"
  shows "grants aid es = releases aid es + pending aid r + stranded aid r
    \<and> (ep = Count_Tokens \<longrightarrow> pending aid r = 0)"
proof -
  consider granted where "an_acquire an = Abandoned granted" | e where "an_acquire an = Replied (Inl e)"
    | slot where "an_acquire an = Replied (Inr slot)"
    by (metis acquire_outcome.exhaust sum.exhaust)
  then show ?thesis
  proof cases
  case (1 granted)
  then show ?thesis using assms(1)
    by (cases granted) (auto simp: attempt_def option_list_def)
next
  case (2 e)
  then show ?thesis using assms(1) by (auto simp: attempt_def acquire_account_def Let_def)
next
  case (3 slot)
  have "setup_ok env slot" using assms(2) 3 by (simp add: grant_usable_def)
  then obtain st1 where a: "acquire_account env (Inr slot) st = (Inr slot, st1, [Granted slot])"
    "cs_cookie st1 = Some slot"
    by (rule acquire_usable)
  define st2 where "st2 = prepare_attempt slot st1"
  obtain r2 ss where b: "attempt_body env est ep model an slot st2 = (r2, ss)"
    by (cases "attempt_body env est ep model an slot st2")
  have s: "quiet (emits ss)"
    "pending aid r2 = (if \<not> releasing ss \<and> account_id slot = Some aid then 1 else 0)"
    "stranded aid r2 = 0" "releasing ss \<or> ep = Chat"
    using attempt_body_slots [OF b, of aid] a(2) by (auto simp: st2_def prepare_attempt_def)
  show ?thesis
    using assms(1) a(1) b s under_guard_counts [OF s(1), of aid]
    by (auto simp: attempt_def 3 Let_def st2_def [symmetric] slot_guard_new_def releasing_def
        split: if_splits)
  qed
qed

lemma attempts_balanced:
  assumes "attempts n env est ep model answers st = (r, st', es)"
    and "\<And>i. i < n \<Longrightarrow> grant_usable env (answers i)"
  shows "grants aid es = releases aid es + pending aid r + stranded aid r
    \<and> (ep = Count_Tokens \<longrightarrow> pending aid r = 0)"
  using assms
proof (induction n arbitrary: answers st r st' es)
  case 0
  then show ?case by auto
next
  case (Suc n)
  obtain r1 st1 es1 where a: "attempt env est ep model (answers 0) st = (r1, st1, es1)"
    by (cases "attempt env est ep model (answers 0) st")
  have b: "grants aid es1 = releases aid es1 + pending aid r1 + stranded aid r1
      \<and> (ep = Count_Tokens \<longrightarrow> pending aid r1 = 0)"
    by (rule attempt_balanced [OF a Suc.prems(2)]) simp
  show ?case
  proof (cases "r1 = Retry")
    case True
    let ?st = "st\<lparr>cs_selected_account_id := cs_selected_account_id st1\<rparr>"
    obtain r2 st2 es2 where t: "attempts n env est ep model (\<lambda>i. answers (Suc i)) ?st = (r2, st2, es2)"
      by (cases "attempts n env est ep model (\<lambda>i. answers (Suc i)) ?st")
    have "grants aid es2 = releases aid es2 + pending aid r2 + stranded aid r2
        \<and> (ep = Count_Tokens \<longrightarrow> pending aid r2 = 0)"
      by (rule Suc.IH [OF t]) (use Suc.prems(2) in simp)
    then show ?thesis using Suc.prems(1) a b t True by auto
  next
    case False
    then show ?thesis using Suc.prems(1) a b by (cases r1) auto
  qed
qed

section \<open>Bounds on the loop\<close>

definition granted :: "chat_effect list \<Rightarrow> nat" where
  "granted es = length (filter (\<lambda>e. case e of Granted _ \<Rightarrow> True | _ \<Rightarrow> False) es)"

lemma granted_simps [simp]:
  "granted [] = 0" "granted (xs @ ys) = granted xs + granted ys" "granted (Granted s # xs) = Suc (granted xs)"
  by (simp_all add: granted_def)

lemma quiet_granted: "quiet es \<Longrightarrow> granted es = 0"
  by (induction es) (auto simp: quiet_def granted_def split: chat_effect.splits)

lemma under_guard_granted: "quiet (emits ss) \<Longrightarrow> granted (under_guard ss g) = 0"
proof (induction ss arbitrary: g)
  case Nil
  then show ?case
    by (auto simp: granted_def slot_guard_drop_def release_slot_only_def split: option.splits)
next
  case (Cons s ss)
  then show ?case
    by (cases s)
      (auto simp: guard_step_run_def release_slot_only_def granted_def quiet_def
        split: option.splits chat_effect.splits)
qed

lemma acquire_effects:
  assumes "acquire_account env a st = (x, st', es)"
  shows "(es = [] \<and> isl x) \<or> (\<exists>slot. a = Inr slot \<and> es = [Granted slot]
    \<and> (\<forall>y. x = Inr y \<longrightarrow> y = slot \<and> cs_cookie st' = Some slot))"
  using assms
  by (auto simp: acquire_account_def Let_def set_selected_def install_credential_def isl_def
      split: sum.splits option.splits AuthMethod.splits)

lemma attempt_granted:
  assumes "attempt env est ep model an st = (r, st', es)"
  shows "granted es \<le> 1"
proof (cases "an_acquire an")
  case (Abandoned y)
  then show ?thesis using assms by (cases y) (auto simp: attempt_def option_list_def granted_def)
next
  case (Replied answer)
  obtain x st1 es1 where a: "acquire_account env answer st = (x, st1, es1)"
    by (cases "acquire_account env answer st")
  note c = acquire_effects [OF a]
  show ?thesis
  proof (cases x)
    case (Inl e)
    then show ?thesis using assms a c Replied by (auto simp: attempt_def)
  next
    case (Inr slot)
    then have e: "es1 = [Granted slot]" "cs_cookie st1 = Some slot" using c by auto
    define st2 where "st2 = prepare_attempt slot st1"
    obtain r2 ss where b: "attempt_body env est ep model an slot st2 = (r2, ss)"
      by (cases "attempt_body env est ep model an slot st2")
    have "quiet (emits ss)"
      using attempt_body_slots [OF b] e(2) by (auto simp: st2_def prepare_attempt_def)
    then show ?thesis
      using assms a b e(1) Inr Replied
      by (auto simp: attempt_def Let_def st2_def [symmetric] under_guard_granted)
  qed
qed

lemma attempts_bounded:
  assumes "attempts n env est ep model answers st = (r, st', es)"
  shows "r \<noteq> Retry \<and> granted es \<le> n"
  using assms
proof (induction n arbitrary: answers st r st' es)
  case 0
  then show ?case by auto
next
  case (Suc n)
  obtain r1 st1 es1 where a: "attempt env est ep model (answers 0) st = (r1, st1, es1)"
    by (cases "attempt env est ep model (answers 0) st")
  note g = attempt_granted [OF a]
  show ?case
  proof (cases "r1 = Retry")
    case True
    let ?st = "st\<lparr>cs_selected_account_id := cs_selected_account_id st1\<rparr>"
    obtain r2 st2 es2 where t: "attempts n env est ep model (\<lambda>i. answers (Suc i)) ?st = (r2, st2, es2)"
      by (cases "attempts n env est ep model (\<lambda>i. answers (Suc i)) ?st")
    show ?thesis using Suc.IH [OF t] Suc.prems a g t True by auto
  next
    case False
    then show ?thesis using Suc.prems a g by (cases r1) auto
  qed
qed

lemma attempts_cong:
  "(\<And>i. i < n \<Longrightarrow> answers i = answers' i) \<Longrightarrow>
     attempts n env est ep model answers st = attempts n env est ep model answers' st"
proof (induction n arbitrary: answers answers' st)
  case (Suc n)
  have "attempts n env est ep model (\<lambda>i. answers (Suc i)) st'
      = attempts n env est ep model (\<lambda>i. answers' (Suc i)) st'" for st'
    by (rule Suc.IH) (simp add: Suc.prems)
  then show ?case using Suc.prems [of 0]
    by (cases "attempt env est ep model (answers' 0) st") (simp split: attempt_result.split)
qed simp

lemma attempts_exhausted:
  "(\<And>i st. i < n \<Longrightarrow> fst (attempt env est ep model (answers i) st) = Retry) \<Longrightarrow>
     fst (attempts n env est ep model answers st) = Error TooManyRetries"
proof (induction n arbitrary: answers st)
  case (Suc n)
  have r: "fst (attempt env est ep model (answers 0) st) = Retry" using Suc.prems [of 0] by simp
  have "fst (attempts n env est ep model (\<lambda>i. answers (Suc i)) st') = Error TooManyRetries" for st'
    by (rule Suc.IH) (simp add: Suc.prems)
  then show ?case using r
    by (cases "attempt env est ep model (answers 0) st") (simp add: case_prod_unfold)
qed simp

section \<open>Properties\<close>

text \<open>
  C2: Over a whole chat request and a whole token count, with every failure, timeout, panic and disconnect of
  the client at any await, the pool is sent exactly one \<open>ReleaseSlot\<close> for every slot it granted, with two
  exceptions that the result names: the slot that a streaming or bridged response takes over, and the slot
  that was granted to a task which was dropped while it waited for the pool, and which nobody releases. The
  condition: the set-up that follows a grant (header, base URL, client) succeeds.
\<close>

theorem slots_balanced:
  assumes "\<forall>i \<le> MAX_RETRIES. grant_usable env (answers i)"
  shows "grants aid (snd (snd (try_chat env est model answers st)))
        = releases aid (snd (snd (try_chat env est model answers st)))
          + pending aid (fst (try_chat env est model answers st))
          + stranded aid (fst (try_chat env est model answers st))
    \<and> grants aid (snd (snd (try_count_tokens env answers st)))
        = releases aid (snd (snd (try_count_tokens env answers st)))
          + stranded aid (fst (try_count_tokens env answers st))"
proof -
  have u: "\<And>i. i < MAX_RETRIES + 1 \<Longrightarrow> grant_usable env (answers i)" using assms by simp
  obtain r1 st1 es1 where chat: "try_chat env est model answers st = (r1, st1, es1)"
    by (cases "try_chat env est model answers st")
  obtain r2 st2 es2 where count: "try_count_tokens env answers st = (r2, st2, es2)"
    by (cases "try_count_tokens env answers st")
  show ?thesis
    using attempts_balanced [OF chat [unfolded try_chat_def] u, of aid]
      attempts_balanced [OF count [unfolded try_count_tokens_def] u, of aid]
    by (simp add: chat count)
qed

text \<open>
  C14: the request loop ends: whatever the outside answers, it reads the answers of at most six
  attempts, is granted at most six accounts, and ends with a response, an error or the end of its
  task; if all six attempts ask for another one, the result is \<open>TooManyRetries\<close>.
\<close>

theorem retries_bounded:
  "granted (snd (snd (try_chat env est model answers st))) \<le> 6
   \<and> granted (snd (snd (try_count_tokens env answers st))) \<le> 6
   \<and> fst (try_chat env est model answers st) \<noteq> Retry
   \<and> fst (try_count_tokens env answers st) \<noteq> Retry
   \<and> try_chat env est model (\<lambda>i. answers (min i 5)) st = try_chat env est model answers st
   \<and> try_count_tokens env (\<lambda>i. answers (min i 5)) st = try_count_tokens env answers st
   \<and> ((\<forall>i st. i < 6 \<longrightarrow> fst (attempt env est Chat model (answers i) st) = Retry)
        \<longrightarrow> fst (try_chat env est model answers st) = Error TooManyRetries)"
proof -
  have six: "MAX_RETRIES + 1 = 6" by (simp add: MAX_RETRIES_def)
  have b: "granted (snd (snd (attempts 6 env e ep m answers st))) \<le> 6
      \<and> fst (attempts 6 env e ep m answers st) \<noteq> Retry" for e ep m
    using attempts_bounded [of 6 env e ep m answers st] by (metis prod.collapse)
  have c: "attempts 6 env e ep m (\<lambda>i. answers (min i 5)) st = attempts 6 env e ep m answers st" for e ep m
    by (rule attempts_cong) simp
  show ?thesis
    unfolding try_chat_def try_count_tokens_def six
    using b c attempts_exhausted [of 6 env est Chat model answers st] by simp
qed

text \<open>
  the condition of the balance is necessary. When the set-up of a granted account fails, the
  request ends with that error, the pool has charged the slot and nothing releases it: the guard is
  created only after \<open>acquire_account\<close> has returned.
\<close>

theorem failed_setup_leaks_slot:
  assumes "an_acquire (answers 0) = Replied (Inr slot)" and "\<not> setup_ok env slot" and "account_id slot = Some aid"
  shows "\<exists>e. fst (try_chat env est model answers st) = Error e
    \<and> grants aid (snd (snd (try_chat env est model answers st))) = 1
    \<and> releases aid (snd (snd (try_chat env est model answers st))) = 0"
proof -
  have "\<exists>e st'. acquire_account env (Inr slot) st = (Inl e, st', [Granted slot])"
    using assms(2)
    by (cases "auth_method slot")
      (auto simp: acquire_account_def setup_ok_def Let_def cookie_header_for_def install_credential_def
        isl_def split: option.splits sum.splits)
  then show ?thesis using assms(1,3) by (auto simp: try_chat_def attempt_def)
qed

text \<open>The other leak: the client disconnects while its request waits in the queue of the pool.\<close>

lemma abandoned_wait_leaks_slot:
  assumes "an_acquire (answers 0) = Abandoned (Some slot)" and "account_id slot = Some aid"
  shows "grants aid (snd (snd (try_chat env est model answers st))) = 1
    \<and> releases aid (snd (snd (try_chat env est model answers st))) = 0"
  using assms by (simp add: try_chat_def attempt_def option_list_def)

section \<open>Witnesses\<close>

text \<open>
  URLs are their own text, every header and client is legal. The pool grants a cookie account whose
  session is rejected, then an API-key account.
\<close>

definition sample_env :: "string chat_env" where
  "sample_env =
     \<lparr>ce_url = \<lparr>u_parse = Inr, u_scheme = (\<lambda>_. ''https''), u_path = (\<lambda>_. ''/''), u_set_path = (\<lambda>u _. u)\<rparr>,
      ce_endpoint = ''https://api.anthropic.com/'', ce_header = (\<lambda>_. None), ce_client = (\<lambda>_. None),
      ce_display = (\<lambda>_. ''error''), ce_json_text = (\<lambda>_. []), ce_lowercase = to_ascii_lowercase,
      ce_query = (\<lambda>_. Inr []), ce_rfc3339 = (\<lambda>_. None)\<rparr>"

definition sample_request :: "string ClaudeCodeState" where
  "sample_request = (new_state sample_env)\<lparr>cs_stream := True\<rparr>"

definition sample_slots :: "nat \<Rightarrow> AccountSlot" where
  "sample_slots i =
     (if i = 0 then (slot_of_cookie (ClewdrCookie ''sk'') None)\<lparr>account_id := Some 7\<rparr>
      else slot_api_key 8 ''https://relay.example'' ''key'' None None Mimicry_None None)"

definition sample_answers :: "nat \<Rightarrow> attempt_answers" where
  "sample_answers i =
     \<lparr>an_acquire = Replied (Inr (sample_slots i)), an_now = 0,
      an_exchange = \<lparr>xa_now = 0, xa_bootstrap = Inl (Failed (InvalidCookie Null)), xa_redirect = Inl Dropped,
                     xa_grant = Inl Dropped, xa_refresh = Inl Dropped\<rparr>,
      an_oauth = \<lparr>oa_now = 0, oa_lock = Inl Dropped, oa_pool_token = Inl Dropped, oa_row = Inl Dropped,
                  oa_row_fresh = Inl Dropped, oa_refreshed = Inl Dropped, oa_upsert = Inl Dropped,
                  oa_row_lost = Inl Dropped, oa_pool_cas = Inl Dropped, oa_metadata = Inl Dropped,
                  oa_snapshot = Inl Dropped, oa_return = Inl Dropped\<rparr>,
      an_send = Inr \<lparr>up_content_type = Some ''text/event-stream'', up_body = Inr None\<rparr>,
      an_usage = \<lparr>us_exchange = \<lparr>xa_now = 0, xa_bootstrap = Inl Dropped, xa_redirect = Inl Dropped,
                     xa_grant = Inl Dropped, xa_refresh = Inl Dropped\<rparr>, us_metrics = Inl Dropped\<rparr>,
      an_usage_cut = Inr (), an_statement_ok = True, an_arm_cut = None\<rparr>"

lemma sample_trim: "trim ''https://relay.example'' = ''https://relay.example''"
  by code_simp

lemma sample_usable: "grant_usable sample_env (sample_answers i)"
  by (simp add: sample_trim grant_usable_def setup_ok_def sample_answers_def sample_slots_def sample_env_def
      slot_of_cookie_def slot_api_key_def default_slot_def cookie_header_for_def
      normalize_api_key_base_url_def)

theorem slots_balanced_witness:
  "grants 7 (snd (snd (try_chat sample_env (\<lambda>_. None) ''claude'' sample_answers sample_request)))
     = releases 7 (snd (snd (try_chat sample_env (\<lambda>_. None) ''claude'' sample_answers sample_request)))
       + pending 7 (fst (try_chat sample_env (\<lambda>_. None) ''claude'' sample_answers sample_request))
       + stranded 7 (fst (try_chat sample_env (\<lambda>_. None) ''claude'' sample_answers sample_request))"
  using slots_balanced [of sample_env sample_answers 7 "\<lambda>_. None" "''claude''" sample_request]
  by (simp add: sample_usable)

text \<open>The first account alone, rejected every time.\<close>

lemma sample_retry: "fst (attempt sample_env est Chat model (sample_answers 0) st) = Retry"
  by (simp add: attempt_def acquire_account_def Let_def sample_answers_def sample_slots_def sample_env_def
      slot_of_cookie_def default_slot_def cookie_header_for_def install_credential_def
      attempt_body_def count_disallowed_def attempt_future_def token_ladder_def ensure_token_def
      check_token_def prepare_attempt_def set_selected_def authorize_def get_organization_def
      and_then_def await_def timeout_upstream_def cut_at_def failure_arm_def cookie_arm_def)

theorem retries_bounded_witness:
  "fst (try_chat sample_env (\<lambda>_. None) ''claude'' (\<lambda>_. sample_answers 0) sample_request)
     = Error TooManyRetries
   \<and> granted (snd (snd (try_chat sample_env (\<lambda>_. None) ''claude'' (\<lambda>_. sample_answers 0)
       sample_request))) \<le> 6"
  using retries_bounded [of sample_env "\<lambda>_. None" "''claude''" "\<lambda>_. sample_answers 0" sample_request]
  by (simp add: sample_retry)

theorem failed_setup_leaks_slot_witness:
  "grants 7 (snd (snd (try_chat (sample_env\<lparr>ce_client := (\<lambda>_. Some TestMessage)\<rparr>) (\<lambda>_. None) ''claude''
     sample_answers sample_request))) = 1
   \<and> releases 7 (snd (snd (try_chat (sample_env\<lparr>ce_client := (\<lambda>_. Some TestMessage)\<rparr>) (\<lambda>_. None)
     ''claude'' sample_answers sample_request))) = 0"
proof -
  have "an_acquire (sample_answers 0) = Replied (Inr (sample_slots 0))" "account_id (sample_slots 0) = Some 7"
    by (simp_all add: sample_answers_def sample_slots_def)
  moreover have "\<not> setup_ok (sample_env\<lparr>ce_client := (\<lambda>_. Some TestMessage)\<rparr>) (sample_slots 0)"
    by (simp add: setup_ok_def)
  ultimately show ?thesis
    using failed_setup_leaks_slot [of sample_answers "sample_slots 0" _ 7 "\<lambda>_. None" "''claude''" sample_request]
    by blast
qed

end
