(* ===== verification/Chat_Body.thy ===== *)
theory Chat_Body
  imports Chat_Slots
begin

text \<open>
  The response bodies that outlive the request handler (\<open>src/src/claude_code_state/chat.rs\<close>): the
  mirrored event stream (\<open>forward_stream_with_usage\<close> with its \<open>SlotDropGuard\<close>) and the event stream
  folded into one JSON document (\<open>forward_stream_as_non_stream\<close> with its \<open>BridgedNonStreamDropGuard\<close>).
  Both own the account slot. A body is a machine: upstream events, the tasks it has spawned and the
  drop of the body interleave freely.
\<close>

section \<open>Runs\<close>

fun run_body :: "('s \<Rightarrow> 'b \<Rightarrow> 'b \<times> 'e list) \<Rightarrow> 's list \<Rightarrow> 'b \<Rightarrow> 'b \<times> 'e list" where
  "run_body step [] b = (b, [])"
| "run_body step (s # ss) b =
     (case step s b of (b', es) \<Rightarrow> (case run_body step ss b' of (b'', es') \<Rightarrow> (b'', es @ es')))"

section \<open>Shared counters\<close>

record counters =
  ct_input :: u64
  ct_output :: u64
  ct_cache_creation :: u64
  ct_cache_read :: u64
  ct_ttft :: int
  ct_saw_usage :: bool
  ct_failed :: bool
  ct_error :: "string option"

definition new_counters :: "'u ClaudeCodeState \<Rightarrow> counters" where
  "new_counters st =
     \<lparr>ct_input = ucast (cs_input_tokens st), ct_output = 0, ct_cache_creation = 0, ct_cache_read = 0,
      ct_ttft = -1, ct_saw_usage = False, ct_failed = False, ct_error = None\<rparr>"

record body_params =
  bp_cookie :: "AccountSlot option"
  bp_account_id :: "i64 option"
  bp_ctx :: "BillingContext option"
  bp_family :: ModelFamily

text \<open>\<open>compare_exchange(-1, elapsed)\<close>: the first delta with a non-negative time counts.\<close>

definition note_ttft :: "body_params \<Rightarrow> int \<Rightarrow> counters \<Rightarrow> counters" where
  "note_ttft p elapsed ct =
     (if bp_ctx p \<noteq> None \<and> elapsed \<ge> 0 \<and> ct_ttft ct = -1 then ct\<lparr>ct_ttft := elapsed\<rparr> else ct)"

definition fail_body :: "string \<Rightarrow> counters \<Rightarrow> counters" where
  "fail_body msg ct = ct\<lparr>ct_failed := True, ct_error := Some msg\<rparr>"

definition measured_ttft :: "counters \<Rightarrow> int option" where
  "measured_ttft ct = (if ct_ttft ct \<ge> 0 then Some (ct_ttft ct) else None)"

definition usage_of :: "counters \<Rightarrow> BillingUsage" where
  "usage_of ct =
     \<lparr>bu_input_tokens = ct_input ct, bu_output_tokens = ct_output ct,
      bu_cache_creation_tokens = ct_cache_creation ct, bu_cache_read_tokens = ct_cache_read ct,
      bu_ttft_ms = measured_ttft ct\<rparr>"

definition has_usage :: "counters \<Rightarrow> bool" where
  "has_usage ct \<longleftrightarrow> ct_saw_usage ct \<or> ct_output ct > 0 \<or> ct_cache_creation ct > 0 \<or> ct_cache_read ct > 0"

definition broken_options :: "bool \<Rightarrow> string \<Rightarrow> counters \<Rightarrow> TerminalLogOptions" where
  "broken_options stream msg ct =
     (let status = if ct_failed ct then ''upstream_error'' else ''client_abort'' in
      \<lparr>to_request_type = Messages, to_stream = stream, to_status = status,
       to_http_status = Some (if ct_failed ct then 502 else 499),
       to_usage = (if has_usage ct then Some (usage_of ct) else None), to_error_code = Some status,
       to_error_message = Some msg, to_update_rollups = has_usage ct, to_response_body = None\<rparr>)"

definition ok_options :: "bool \<Rightarrow> BillingUsage \<Rightarrow> TerminalLogOptions" where
  "ok_options stream u =
     \<lparr>to_request_type = Messages, to_stream = stream, to_status = ''ok'', to_http_status = Some 200,
      to_usage = Some u, to_error_code = None, to_error_message = None, to_update_rollups = True,
      to_response_body = None\<rparr>"

definition bill :: "body_params \<Rightarrow> TerminalLogOptions \<Rightarrow> chat_effect list" where
  "bill p opts = (case bp_ctx p of None \<Rightarrow> [] | Some ctx \<Rightarrow> [Bill ctx opts])"

section \<open>The mirrored stream\<close>

record token_usage =
  tu_input :: u32
  tu_output :: u32
  tu_cache_creation :: "u32 option"
  tu_cache_read :: "u32 option"

datatype (plugins only: code size) stream_event =
    MessageStart "token_usage option"
  | ContentBlockDelta
  | MessageDelta "token_usage option"
  | StreamError string
  | MessageStop
  | OtherEvent

definition store_some :: "u32 option \<Rightarrow> u64 \<Rightarrow> u64" where
  "store_some v old = (case v of None \<Rightarrow> old | Some n \<Rightarrow> ucast n)"

definition stream_counters :: "body_params \<Rightarrow> int \<Rightarrow> stream_event \<Rightarrow> counters \<Rightarrow> counters" where
  "stream_counters p elapsed ev ct =
     (case ev of
        MessageStart (Some u) \<Rightarrow>
          ct\<lparr>ct_saw_usage := True, ct_input := ucast (tu_input u),
            ct_cache_creation := store_some (tu_cache_creation u) (ct_cache_creation ct),
            ct_cache_read := store_some (tu_cache_read u) (ct_cache_read ct)\<rparr>
      | ContentBlockDelta \<Rightarrow> note_ttft p elapsed ct
      | MessageDelta (Some u) \<Rightarrow>
          ct\<lparr>ct_saw_usage := True, ct_output := ucast (tu_output u),
            ct_input := (if tu_input u > 0 then ucast (tu_input u) else ct_input ct),
            ct_cache_creation := store_some (tu_cache_creation u) (ct_cache_creation ct),
            ct_cache_read := store_some (tu_cache_read u) (ct_cache_read ct)\<rparr>
      | StreamError msg \<Rightarrow> fail_body msg ct
      | _ \<Rightarrow> ct)"

record stream_body =
  sb_counters :: counters
  sb_completed :: bool
  sb_released :: bool
  sb_dropped :: bool
  sb_tasks :: "(u64 \<times> u64) list"

definition new_stream_body :: "'u ClaudeCodeState \<Rightarrow> stream_body" where
  "new_stream_body st =
     \<lparr>sb_counters = new_counters st, sb_completed = False, sb_released = False, sb_dropped = False,
      sb_tasks = []\<rparr>"

datatype (plugins only: code size) stream_step =
    Event "stream_event option" int
  | Read_Error string
  | Run_Task int usage_answers
  | Drop_Body int usage_answers

definition stream_stop :: "body_params \<Rightarrow> stream_body \<Rightarrow> stream_body \<times> chat_effect list" where
  "stream_stop p b =
     (let ct = sb_counters b in
      (b\<lparr>sb_completed := True,
        sb_tasks := (if bp_cookie p = None then sb_tasks b else sb_tasks b @ [(ct_input ct, ct_output ct)])\<rparr>,
       bill p (ok_options True (usage_of ct))))"

text \<open>The swap on \<open>slot_released\<close>, then the release.\<close>

definition stream_release :: "body_params \<Rightarrow> stream_body \<Rightarrow> stream_body \<times> chat_effect list" where
  "stream_release p b =
     (case bp_account_id p of
        None \<Rightarrow> (b, [])
      | Some aid \<Rightarrow>
          (b\<lparr>sb_released := True\<rparr>, if sb_released b then [] else [Pool (ReleaseSlot aid)]))"

definition stream_task ::
  "'u chat_env \<Rightarrow> body_params \<Rightarrow> int \<Rightarrow> usage_answers \<Rightarrow> stream_body \<Rightarrow> stream_body \<times> chat_effect list" where
  "stream_task env p now an b =
     (case (sb_tasks b, bp_cookie p) of
        ((inp, out) # ts, Some c) \<Rightarrow>
          (case stream_release p (b\<lparr>sb_tasks := ts\<rparr>) of
             (b', es) \<Rightarrow>
               (b', (if auth_method c = ApiKey then []
                     else snd (book_usage env now an inp out (bp_family p) c)) @ es))
      | _ \<Rightarrow> (b, []))"

definition book_broken ::
  "'u chat_env \<Rightarrow> body_params \<Rightarrow> int \<Rightarrow> usage_answers \<Rightarrow> counters \<Rightarrow> AccountSlot \<Rightarrow> chat_effect list" where
  "book_broken env p now an ct c =
     (if auth_method c = ApiKey then []
      else if has_usage ct then snd (book_usage env now an (ct_input ct) (ct_output ct) (bp_family p) c)
      else return_runtime c)"

definition stream_drop ::
  "'u chat_env \<Rightarrow> body_params \<Rightarrow> int \<Rightarrow> usage_answers \<Rightarrow> stream_body \<Rightarrow> stream_body \<times> chat_effect list" where
  "stream_drop env p now an b =
     (let ct = sb_counters b;
          msg = (case ct_error ct of Some m \<Rightarrow> m | None \<Rightarrow> ''stream ended before message_stop'');
          log = bill p (broken_options True msg ct);
          b' = b\<lparr>sb_dropped := True\<rparr>
      in case bp_account_id p of
           Some aid \<Rightarrow>
             if sb_released b then (b', [])
             else (b'\<lparr>sb_released := True\<rparr>,
                   (if sb_completed b then []
                    else (case bp_cookie p of None \<Rightarrow> [] | Some c \<Rightarrow> book_broken env p now an ct c) @ log)
                   @ [Pool (ReleaseSlot aid)])
         | None \<Rightarrow> (b', if sb_completed b then [] else log))"

definition stream_step_run ::
  "'u chat_env \<Rightarrow> body_params \<Rightarrow> stream_step \<Rightarrow> stream_body \<Rightarrow> stream_body \<times> chat_effect list" where
  "stream_step_run env p s b =
     (case s of
        Event ev elapsed \<Rightarrow>
          (if sb_dropped b then (b, [])
           else case ev of
                  None \<Rightarrow> (b, [])
                | Some e \<Rightarrow>
                    let b' = b\<lparr>sb_counters := stream_counters p elapsed e (sb_counters b)\<rparr>
                    in case e of MessageStop \<Rightarrow> stream_stop p b' | _ \<Rightarrow> (b', []))
      | Read_Error msg \<Rightarrow>
          (if sb_dropped b then (b, []) else (b\<lparr>sb_counters := fail_body msg (sb_counters b)\<rparr>, []))
      | Run_Task now an \<Rightarrow> stream_task env p now an b
      | Drop_Body now an \<Rightarrow> (if sb_dropped b then (b, []) else stream_drop env p now an b))"

definition stream_run ::
  "'u chat_env \<Rightarrow> body_params \<Rightarrow> stream_step list \<Rightarrow> stream_body \<Rightarrow> stream_body \<times> chat_effect list" where
  "stream_run env p = run_body (stream_step_run env p)"

section \<open>The bridged document\<close>

definition update_bridge_usage :: "json \<Rightarrow> counters \<Rightarrow> counters" where
  "update_bridge_usage event ct =
     (let ty = get_str event ''type'';
          usage = (if ty = Some ''message_start''
                   then Option.bind (json_get event ''message'') (\<lambda>m. json_get m ''usage'')
                   else if ty = Some ''message_delta'' then json_get event ''usage'' else None);
          store = (\<lambda>u k old. case get_u64 u k of None \<Rightarrow> old | Some n \<Rightarrow> of_nat n)
      in case usage of
           None \<Rightarrow> ct
         | Some u \<Rightarrow>
             ct\<lparr>ct_saw_usage := True, ct_input := store u ''input_tokens'' (ct_input ct),
               ct_output := store u ''output_tokens'' (ct_output ct),
               ct_cache_creation := store u ''cache_creation_input_tokens'' (ct_cache_creation ct),
               ct_cache_read := store u ''cache_read_input_tokens'' (ct_cache_read ct)\<rparr>)"

record bridge_body =
  bb_counters :: counters
  bb_accumulator :: accumulator
  bb_slot :: slot_state
  bb_completed :: bool
  bb_ended :: bool
  bb_dropped :: bool
  bb_tasks :: "BillingUsage list"
  bb_output :: "json option"

definition new_bridge_body :: "'u ClaudeCodeState \<Rightarrow> slot_state \<Rightarrow> bridge_body" where
  "new_bridge_body st ss =
     \<lparr>bb_counters = new_counters st, bb_accumulator = new_accumulator, bb_slot = ss,
      bb_completed = False, bb_ended = False, bb_dropped = False, bb_tasks = [], bb_output = None\<rparr>"

datatype (plugins only: code size) bridge_step =
    Upstream_Event string int
  | Upstream_Error string
  | Upstream_End
  | Bridge_Task int usage_answers
  | Bridge_Drop int usage_answers

definition error_document :: "string \<Rightarrow> json" where
  "error_document msg =
     JObj [(''type'', JStr ''error''),
           (''error'', JObj [(''type'', JStr ''api_error''), (''message'', JStr msg)])]"

definition bridge_fail :: "string \<Rightarrow> bridge_body \<Rightarrow> bridge_body" where
  "bridge_fail msg b =
     b\<lparr>bb_counters := fail_body msg (bb_counters b), bb_ended := True, bb_output := Some (error_document msg)\<rparr>"

definition bridge_complete ::
  "(json \<Rightarrow> u64 option) \<Rightarrow> body_params \<Rightarrow> json \<Rightarrow> bridge_body \<Rightarrow> bridge_body \<times> chat_effect list" where
  "bridge_complete estimate p doc b =
     (let ct = bb_counters b;
          u = (case extract_usage estimate (Some doc) of Some u \<Rightarrow> u | None \<Rightarrow> usage_of ct);
          u' = u\<lparr>bu_ttft_ms := or_else (bu_ttft_ms u) (measured_ttft ct)\<rparr>
      in (b\<lparr>bb_completed := True, bb_ended := True, bb_output := Some doc, bb_tasks := bb_tasks b @ [u']\<rparr>,
          bill p (ok_options False u')))"

definition bridge_event ::
  "(json \<Rightarrow> u64 option) \<Rightarrow> (string \<Rightarrow> string + json) \<Rightarrow> body_params \<Rightarrow> string \<Rightarrow> int \<Rightarrow> bridge_body
     \<Rightarrow> bridge_body \<times> chat_effect list" where
  "bridge_event estimate from_str p data elapsed b =
     (let ct = (case from_str data of
            Inl _ \<Rightarrow> bb_counters b
          | Inr v \<Rightarrow>
              let c = update_bridge_usage v (bb_counters b)
              in if get_str v ''type'' = Some ''content_block_delta'' then note_ttft p elapsed c else c);
          b1 = b\<lparr>bb_counters := ct\<rparr>
      in case accumulator_apply from_str data (bb_accumulator b) of
           Inl msg \<Rightarrow> (bridge_fail msg b1, [])
         | Inr (False, acc) \<Rightarrow> (b1\<lparr>bb_accumulator := acc\<rparr>, [])
         | Inr (True, acc) \<Rightarrow>
             (case accumulator_finish acc of
                Inl msg \<Rightarrow> (bridge_fail msg (b1\<lparr>bb_accumulator := acc\<rparr>), [])
              | Inr doc \<Rightarrow> bridge_complete estimate p doc (b1\<lparr>bb_accumulator := acc\<rparr>)))"

definition bridge_release :: "bridge_body \<Rightarrow> bridge_body \<times> chat_effect list" where
  "bridge_release b = (case release_slot_only (bb_slot b) of (ss, es) \<Rightarrow> (b\<lparr>bb_slot := ss\<rparr>, es))"

definition bridge_task ::
  "'u chat_env \<Rightarrow> body_params \<Rightarrow> int \<Rightarrow> usage_answers \<Rightarrow> bridge_body \<Rightarrow> bridge_body \<times> chat_effect list" where
  "bridge_task env p now an b =
     (case bb_tasks b of
        [] \<Rightarrow> (b, [])
      | u # us \<Rightarrow>
          (case bridge_release (b\<lparr>bb_tasks := us\<rparr>) of
             (b', es) \<Rightarrow>
               (b', (case bp_cookie p of
                       None \<Rightarrow> []
                     | Some c \<Rightarrow>
                         if auth_method c = ApiKey then []
                         else snd (book_usage env now an (bu_input_tokens u) (bu_output_tokens u)
                                (bp_family p) c)) @ es)))"

definition bridge_drop ::
  "'u chat_env \<Rightarrow> body_params \<Rightarrow> int \<Rightarrow> usage_answers \<Rightarrow> bridge_body \<Rightarrow> bridge_body \<times> chat_effect list" where
  "bridge_drop env p now an b =
     (let ct = bb_counters b;
          msg = (case ct_error ct of
                   Some m \<Rightarrow> m
                 | None \<Rightarrow> if ct_failed ct then ''upstream stream ended before message_stop''
                           else ''non-stream keepalive response dropped before completion'');
          b' = b\<lparr>bb_dropped := True\<rparr>
      in if bb_completed b then (b', [])
         else case bridge_release b' of
                (b'', es) \<Rightarrow>
                  (b'', (case bp_cookie p of
                           None \<Rightarrow> []
                         | Some c \<Rightarrow>
                             if auth_method c \<noteq> ApiKey \<and> has_usage ct
                             then snd (book_usage env now an (ct_input ct) (ct_output ct) (bp_family p) c)
                             else [])
                        @ bill p (broken_options False msg ct) @ es))"

definition bridge_step_run ::
  "'u chat_env \<Rightarrow> (json \<Rightarrow> u64 option) \<Rightarrow> (string \<Rightarrow> string + json) \<Rightarrow> body_params \<Rightarrow> bridge_step
     \<Rightarrow> bridge_body \<Rightarrow> bridge_body \<times> chat_effect list" where
  "bridge_step_run env estimate from_str p s b =
     (let live = \<not> bb_ended b \<and> \<not> bb_dropped b in
      case s of
        Upstream_Event data elapsed \<Rightarrow>
          (if live then bridge_event estimate from_str p data elapsed b else (b, []))
      | Upstream_Error err \<Rightarrow>
          (if live then (bridge_fail (''failed to read upstream SSE: '' @ err) b, []) else (b, []))
      | Upstream_End \<Rightarrow>
          (if live then (bridge_fail ''upstream stream ended before message_stop'' b, []) else (b, []))
      | Bridge_Task now an \<Rightarrow> bridge_task env p now an b
      | Bridge_Drop now an \<Rightarrow> (if bb_dropped b then (b, []) else bridge_drop env p now an b))"

definition bridge_run ::
  "'u chat_env \<Rightarrow> (json \<Rightarrow> u64 option) \<Rightarrow> (string \<Rightarrow> string + json) \<Rightarrow> body_params \<Rightarrow> bridge_step list
     \<Rightarrow> bridge_body \<Rightarrow> bridge_body \<times> chat_effect list" where
  "bridge_run env estimate from_str p = run_body (bridge_step_run env estimate from_str p)"

end
