(* ===== verification/Chat_Settle.thy ===== *)
theory Chat_Settle
  imports Chat_Body
begin

text \<open>
  A response body settles its request: once it is dropped and its tasks have run, its slot has been
  released exactly once and exactly one terminal log has been written, however upstream events, tasks
  and the drop interleave.
\<close>

section \<open>Counting along a run\<close>

fun run_allowed :: "('s \<Rightarrow> 'b \<Rightarrow> 'b \<times> 'e list) \<Rightarrow> ('s \<Rightarrow> 'b \<Rightarrow> bool) \<Rightarrow> 's list \<Rightarrow> 'b \<Rightarrow> bool" where
  "run_allowed step allowed [] b = True"
| "run_allowed step allowed (s # ss) b \<longleftrightarrow>
     allowed s b \<and> run_allowed step allowed ss (fst (step s b))"

lemma run_allowed_True [simp]: "run_allowed step (\<lambda>_ _. True) ss b"
  by (induction ss arbitrary: b) simp_all

text \<open>
  An effect that a machine has exactly when a flag of its state goes up, and a flag that never goes
  down: over a run the effect happens once if the flag went up and never otherwise.
\<close>

locale once_per_flag =
  fixes step :: "'s \<Rightarrow> 'b \<Rightarrow> 'b \<times> 'e list" and inv :: "'b \<Rightarrow> bool" and count :: "'e list \<Rightarrow> nat"
    and flag :: "'b \<Rightarrow> bool" and allowed :: "'s \<Rightarrow> 'b \<Rightarrow> bool"
  assumes count_nil: "count [] = 0" and count_append: "count (xs @ ys) = count xs + count ys"
    and step_once: "inv b \<Longrightarrow> allowed s b \<Longrightarrow> step s b = (b', es) \<Longrightarrow>
      inv b' \<and> count es + of_bool (flag b) = of_bool (flag b')"
begin

lemma run_once:
  "inv b \<Longrightarrow> run_allowed step allowed ss b \<Longrightarrow> run_body step ss b = (b', es) \<Longrightarrow>
     inv b' \<and> count es + of_bool (flag b) = of_bool (flag b')"
proof (induction ss arbitrary: b b' es)
  case Nil
  then show ?case by (simp add: count_nil)
next
  case (Cons s ss)
  obtain b1 es1 where s: "step s b = (b1, es1)" by (cases "step s b")
  obtain b2 es2 where r: "run_body step ss b1 = (b2, es2)" by (cases "run_body step ss b1")
  have 1: "inv b1" "count es1 + of_bool (flag b) = of_bool (flag b1)"
    using step_once [OF Cons.prems(1) _ s] Cons.prems(2) by simp_all
  have 2: "inv b2" "count es2 + of_bool (flag b1) = of_bool (flag b2)"
    using Cons.IH [OF 1(1) _ r] Cons.prems(2) s by simp_all
  have "b' = b2" "es = es1 @ es2" using Cons.prems(3) s r by simp_all
  then show ?case using 1(2) 2 by (simp add: count_append)
qed

end

definition bills :: "chat_effect list \<Rightarrow> nat" where
  "bills es = length (filter (\<lambda>e. case e of Bill _ _ \<Rightarrow> True | _ \<Rightarrow> False) es)"

lemma bills_simps [simp]:
  "bills [] = 0" "bills (xs @ ys) = bills xs + bills ys" "bills (Bill c t # xs) = Suc (bills xs)"
  "bills (Pool m # xs) = bills xs" "bills (Sql q # xs) = bills xs" "bills (Granted g # xs) = bills xs"
  by (simp_all add: bills_def)

section \<open>Booking usage writes no log and releases no slot\<close>

lemma and_then_silent:
  assumes "snd (snd m) = []" and "\<And>a st. snd (snd (f a st)) = []"
  shows "snd (snd (and_then m f)) = []"
proof (cases m)
  case (fields r st es)
  then show ?thesis using assms
    by (cases r) (auto simp: and_then_def case_prod_unfold)
qed

lemma silent_basic [simp]:
  "snd (snd (done_with a st)) = []" "snd (snd (fail_with i st)) = []" "snd (snd (await x st)) = []"
  by (simp_all add: done_with_def fail_with_def await_def)

lemma authorize_silent: "snd (snd (authorize env an st)) = []"
  unfolding authorize_def get_organization_def exchange_code_def exchange_token_def
  by (intro and_then_silent) (auto intro!: and_then_silent split: option.splits)

lemma refresh_cookie_token_silent: "snd (snd (refresh_cookie_token env an st)) = []"
  unfolding refresh_cookie_token_def
  by (auto intro!: and_then_silent authorize_silent split: option.splits sum.splits)

lemma fetch_usage_metrics_silent:
  "fetch_usage_metrics env an st = (r, st', es) \<Longrightarrow> es = []"
  using and_then_silent [of "case check_token (xa_now (us_exchange an)) st of
      TS_None \<Rightarrow> authorize env (us_exchange an) st
    | TS_Expired \<Rightarrow> refresh_cookie_token env (us_exchange an) st | TS_Valid \<Rightarrow> done_with () st"
    "\<lambda>_ st. case Option.bind (cs_cookie st) token of
         None \<Rightarrow> fail_with (Failed (UnexpectedNone ''No access token available'')) st
       | Some _ \<Rightarrow> await (us_metrics an) st"]
  by (simp add: fetch_usage_metrics_def authorize_silent refresh_cookie_token_silent
      split: TokenStatus.splits option.splits)

lemma bills_return [simp]: "bills (release_account st r) = 0" "bills (return_runtime c) = 0"
  by (simp_all add: release_account_def return_runtime_def split: option.splits)

lemma book_usage_bills:
  assumes "book_usage env now an i out f c = (c', es)"
  shows "bills es = 0"
proof -
  have "bills fs = 0" if "fetch_usage_resets env an d = (r, d', fs)" for d r d' fs
    using that
    by (auto simp: fetch_usage_resets_def Let_def dest!: fetch_usage_metrics_silent
        split: sum.splits prod.splits)
  then have "bills fs = 0" if "update_cookie_boundaries_if_due env now an c = (d, fs)" for d fs
    using that
    by (auto simp: update_cookie_boundaries_if_due_def Let_def split: if_splits prod.splits option.splits)
  then show ?thesis using assms by (auto simp: book_usage_def Let_def split: prod.splits)
qed

lemma book_usage_effects [simp]:
  "bills (snd (book_usage env now an i out f c)) = 0"
  "releases aid (snd (book_usage env now an i out f c)) = 0"
  "grants aid (snd (book_usage env now an i out f c)) = 0"
  using book_usage_bills [of env now an i out f c] book_usage_quiet [of env now an i out f c]
  by (cases "book_usage env now an i out f c"; simp)+

lemma book_broken_effects [simp]:
  "bills (book_broken env p now an ct c) = 0" "releases aid (book_broken env p now an ct c) = 0"
  by (simp_all add: book_broken_def)

lemma bill_effects [simp]:
  "bills (bill p opts) = of_bool (bp_ctx p \<noteq> None)" "releases aid (bill p opts) = 0"
  by (simp_all add: bill_def split: option.splits)

section \<open>The mirrored stream\<close>

definition stream_inv :: "body_params \<Rightarrow> stream_body \<Rightarrow> bool" where
  "stream_inv p b \<longleftrightarrow>
     (sb_released b \<longrightarrow> sb_completed b \<or> sb_dropped b)
     \<and> (sb_tasks b \<noteq> [] \<longrightarrow> sb_completed b)
     \<and> (sb_dropped b \<and> bp_account_id p \<noteq> None \<longrightarrow> sb_released b)"

text \<open>The only step excluded for the log: a second \<open>message_stop\<close>.\<close>

definition stream_allowed :: "stream_step \<Rightarrow> stream_body \<Rightarrow> bool" where
  "stream_allowed s b = (case s of Event (Some MessageStop) _ \<Rightarrow> \<not> sb_completed b | _ \<Rightarrow> True)"

lemmas stream_step_defs = stream_step_run_def stream_stop_def stream_task_def stream_release_def
  stream_drop_def Let_def

lemma stream_step_inv:
  "stream_inv p b \<Longrightarrow> stream_step_run env p s b = (b', es) \<Longrightarrow> stream_inv p b'"
  by (cases s)
    (auto simp: stream_inv_def stream_step_defs
      split: if_splits option.splits stream_event.splits list.splits prod.splits)

lemma stream_step_releases:
  "stream_inv p b \<Longrightarrow> stream_step_run env p s b = (b', es) \<Longrightarrow>
     releases aid es + of_bool (sb_released b \<and> bp_account_id p = Some aid)
       = of_bool (sb_released b' \<and> bp_account_id p = Some aid)"
  by (cases s)
    (auto simp: stream_inv_def stream_step_defs
      split: if_splits option.splits stream_event.splits list.splits prod.splits)

lemma stream_step_bills:
  "stream_inv p b \<Longrightarrow> stream_allowed s b \<Longrightarrow> stream_step_run env p s b = (b', es) \<Longrightarrow>
     bills es + of_bool ((sb_completed b \<or> sb_dropped b) \<and> bp_ctx p \<noteq> None)
       = of_bool ((sb_completed b' \<or> sb_dropped b') \<and> bp_ctx p \<noteq> None)"
  by (cases s)
    (auto simp: stream_inv_def stream_allowed_def stream_step_defs
      split: if_splits option.splits stream_event.splits list.splits prod.splits)

interpretation stream_slot: once_per_flag "stream_step_run env p" "stream_inv p" "releases aid"
    "\<lambda>b. sb_released b \<and> bp_account_id p = Some aid" "\<lambda>_ _. True" for env p aid
  by unfold_locales (simp, simp, rule conjI, erule (1) stream_step_inv, erule (1) stream_step_releases)

interpretation stream_log: once_per_flag "stream_step_run env p" "stream_inv p" bills
    "\<lambda>b. (sb_completed b \<or> sb_dropped b) \<and> bp_ctx p \<noteq> None" stream_allowed for env p
  by unfold_locales (simp, simp, rule conjI, erule (1) stream_step_inv, erule (2) stream_step_bills)

lemma stream_step_flags:
  assumes "stream_step_run env p s b = (b', es)"
  shows "sb_dropped b' \<longleftrightarrow> sb_dropped b \<or> (\<exists>now an. s = Drop_Body now an)"
    and "sb_completed b' \<Longrightarrow> sb_completed b \<or> (\<exists>t. s = Event (Some MessageStop) t)"
  using assms
  by (cases s; auto simp: stream_step_defs
      split: if_splits option.splits stream_event.splits list.splits prod.splits)+

lemma stream_run_dropped:
  assumes "stream_run env p ss b = (b', es)" and "Drop_Body now an \<in> set ss \<or> sb_dropped b"
  shows "sb_dropped b'"
  using assms
proof (induction ss arbitrary: b es)
  case (Cons s ss)
  obtain b1 es1 where s: "stream_step_run env p s b = (b1, es1)" by (cases "stream_step_run env p s b")
  obtain b2 es2 where r: "stream_run env p ss b1 = (b2, es2)" by (cases "stream_run env p ss b1")
  have "b' = b2" using Cons.prems(1) s r by (simp add: stream_run_def)
  then show ?case using Cons.IH [OF r [folded \<open>b' = b2\<close>]] Cons.prems(2) stream_step_flags(1) [OF s] by auto
qed (simp add: stream_run_def)

definition is_stop :: "stream_step \<Rightarrow> bool" where
  "is_stop s = (case s of Event (Some MessageStop) _ \<Rightarrow> True | _ \<Rightarrow> False)"

definition stops :: "stream_step list \<Rightarrow> nat" where
  "stops ss = length (filter is_stop ss)"

lemma stops_allowed:
  "stops ss + of_bool (sb_completed b) \<le> 1 \<Longrightarrow> run_allowed (stream_step_run env p) stream_allowed ss b"
proof (induction ss arbitrary: b)
  case (Cons s ss)
  obtain b1 es1 where s: "stream_step_run env p s b = (b1, es1)" by (cases "stream_step_run env p s b")
  have "sb_completed b1 \<Longrightarrow> sb_completed b \<or> is_stop s"
    using stream_step_flags(2) [OF s] by (auto simp: is_stop_def)
  then have "stops ss + of_bool (sb_completed b1) \<le> 1"
    using Cons.prems by (auto simp: stops_def of_bool_def split: if_splits)
  moreover have "stream_allowed s b"
    using Cons.prems
    by (auto simp: stream_allowed_def stops_def is_stop_def
        split: stream_step.splits option.splits stream_event.splits)
  ultimately show ?case using Cons.IH s by simp
qed simp

section \<open>The bridged document\<close>

definition bridge_inv :: "i64 option \<Rightarrow> bridge_body \<Rightarrow> bool" where
  "bridge_inv a b \<longleftrightarrow>
     ss_account_id (bb_slot b) = a
     \<and> (bb_completed b \<longrightarrow> bb_ended b)
     \<and> (bb_tasks b \<noteq> [] \<longrightarrow> bb_completed b)
     \<and> (bb_completed b \<and> bb_tasks b = [] \<and> a \<noteq> None \<longrightarrow> ss_slot_released (bb_slot b))
     \<and> (bb_dropped b \<and> \<not> bb_completed b \<and> a \<noteq> None \<longrightarrow> ss_slot_released (bb_slot b))"

lemma bridge_event_shape:
  assumes "bridge_event est fs p d t b = (b', es)"
  shows "bb_slot b' = bb_slot b \<and> bb_dropped b' = bb_dropped b
    \<and> (es = [] \<and> bb_completed b' = bb_completed b \<and> bb_tasks b' = bb_tasks b \<and> (bb_ended b \<longrightarrow> bb_ended b')
      \<or> bb_completed b' \<and> bb_ended b' \<and> bb_tasks b' \<noteq> [] \<and> (\<exists>opts. es = bill p opts))"
proof -
  obtain ct where e: "bridge_event est fs p d t b =
     (case accumulator_apply fs d (bb_accumulator b) of
        Inl msg \<Rightarrow> (bridge_fail msg (b\<lparr>bb_counters := ct\<rparr>), [])
      | Inr (False, acc) \<Rightarrow> (b\<lparr>bb_counters := ct, bb_accumulator := acc\<rparr>, [])
      | Inr (True, acc) \<Rightarrow>
          (case accumulator_finish acc of
             Inl msg \<Rightarrow> (bridge_fail msg (b\<lparr>bb_counters := ct, bb_accumulator := acc\<rparr>), [])
           | Inr doc \<Rightarrow> bridge_complete est p doc (b\<lparr>bb_counters := ct, bb_accumulator := acc\<rparr>)))"
    by (simp only: bridge_event_def Let_def)
  show ?thesis
  proof (cases "accumulator_apply fs d (bb_accumulator b)")
    case (Inl msg)
    then show ?thesis using assms e by (auto simp: bridge_fail_def)
  next
    case (Inr r)
    obtain fin acc where r: "r = (fin, acc)" by (cases r)
    show ?thesis using assms e Inr r
      by (cases fin; cases "accumulator_finish acc") (auto simp: bridge_fail_def bridge_complete_def Let_def)
  qed
qed

text \<open>A step is an event of a live body, or one that the definitions settle directly.\<close>

definition bridge_live :: "bridge_step \<Rightarrow> bool" where
  "bridge_live s = (case s of Bridge_Task _ _ \<Rightarrow> False | Bridge_Drop _ _ \<Rightarrow> False | _ \<Rightarrow> True)"

lemma bridge_step_cases:
  assumes "bridge_step_run env est fs p s b = (b', es)"
  obtains (event) d t where "\<not> bb_ended b" "\<not> bb_dropped b" "bridge_event est fs p d t b = (b', es)"
  | (failed) msg where "\<not> bb_ended b" "\<not> bb_dropped b" "b' = bridge_fail msg b" "es = []"
  | (idle) "b' = b" "es = []"
  | (task) now an where "bridge_task env p now an b = (b', es)"
  | (dropped) now an where "\<not> bb_dropped b" "bridge_drop env p now an b = (b', es)"
proof (cases "bridge_live s \<and> (bb_ended b \<or> bb_dropped b)")
  case True
  then have "b' = b" "es = []"
    using assms by (auto simp: bridge_step_run_def bridge_live_def split: bridge_step.splits)
  then show thesis by (rule idle)
next
  case False
  show thesis
  proof (cases s)
    case (Upstream_Event d t)
    show thesis by (rule event) (use False assms Upstream_Event in \<open>auto simp: bridge_step_run_def bridge_live_def\<close>)
  next
    case (Upstream_Error err)
    show thesis by (rule failed) (use False assms Upstream_Error in \<open>auto simp: bridge_step_run_def bridge_live_def\<close>)
  next
    case Upstream_End
    show thesis by (rule failed) (use False assms Upstream_End in \<open>auto simp: bridge_step_run_def bridge_live_def\<close>)
  next
    case (Bridge_Task now an)
    show thesis by (rule task) (use assms Bridge_Task in \<open>simp add: bridge_step_run_def\<close>)
  next
    case (Bridge_Drop now an)
    show thesis
    proof (cases "bb_dropped b")
      case True
      then have "b' = b" "es = []" using assms Bridge_Drop by (auto simp: bridge_step_run_def)
      then show thesis by (rule idle)
    next
      case False
      show thesis by (rule dropped) (use False assms Bridge_Drop in \<open>auto simp: bridge_step_run_def\<close>)
    qed
  qed
qed

lemma bridge_task_shape:
  assumes "bridge_task env p now an b = (b', es)"
  shows "b' = b \<and> es = [] \<and> bb_tasks b = []
    \<or> (\<exists>u us xs. bb_tasks b = u # us \<and> bills xs = 0 \<and> releases aid xs = 0
        \<and> b' = b\<lparr>bb_tasks := us, bb_slot := fst (release_slot_only (bb_slot b))\<rparr>
        \<and> es = xs @ snd (release_slot_only (bb_slot b)))"
proof (cases "bb_tasks b")
  case (Cons u us)
  define xs where "xs = (case bp_cookie p of
      None \<Rightarrow> []
    | Some c \<Rightarrow> if auth_method c = ApiKey then []
        else snd (book_usage env now an (bu_input_tokens u) (bu_output_tokens u) (bp_family p) c))"
  have "bills xs = 0" "releases aid xs = 0" by (simp_all add: xs_def split: option.splits)
  moreover have "(b', es) = (b\<lparr>bb_tasks := us, bb_slot := fst (release_slot_only (bb_slot b))\<rparr>,
      xs @ snd (release_slot_only (bb_slot b)))"
    unfolding assms [symmetric] bridge_task_def xs_def Cons
    by (simp add: bridge_release_def case_prod_unfold)
  ultimately show ?thesis using Cons by blast
qed (use assms in \<open>simp add: bridge_task_def\<close>)

lemma bridge_drop_shape:
  assumes "bridge_drop env p now an b = (b', es)"
  shows "bb_completed b \<and> b' = b\<lparr>bb_dropped := True\<rparr> \<and> es = []
    \<or> (\<exists>xs opts. \<not> bb_completed b \<and> bills xs = 0 \<and> releases aid xs = 0
        \<and> b' = b\<lparr>bb_dropped := True, bb_slot := fst (release_slot_only (bb_slot b))\<rparr>
        \<and> es = xs @ bill p opts @ snd (release_slot_only (bb_slot b)))"
proof (cases "bb_completed b")
  case False
  let ?ct = "bb_counters b"
  define xs where "xs = (case bp_cookie p of
      None \<Rightarrow> []
    | Some c \<Rightarrow> if auth_method c \<noteq> ApiKey \<and> has_usage ?ct
        then snd (book_usage env now an (ct_input ?ct) (ct_output ?ct) (bp_family p) c) else [])"
  have x: "bills xs = 0" "releases aid xs = 0" by (simp_all add: xs_def split: option.splits)
  obtain opts where "(b', es) = (b\<lparr>bb_dropped := True, bb_slot := fst (release_slot_only (bb_slot b))\<rparr>,
      xs @ bill p opts @ snd (release_slot_only (bb_slot b)))"
    unfolding assms [symmetric] bridge_drop_def Let_def xs_def using False
    by (simp add: bridge_release_def case_prod_unfold)
  then show ?thesis using False x by blast
qed (use assms in \<open>simp add: bridge_drop_def Let_def\<close>)

lemmas bridge_shapes = bridge_inv_def bridge_fail_def release_slot_only_def

lemma bridge_step_inv:
  assumes "bridge_inv a b" and "bridge_step_run env est fs p s b = (b', es)"
  shows "bridge_inv a b'"
  using assms(2)
proof (cases rule: bridge_step_cases)
  case (event d t)
  then show ?thesis using assms(1) bridge_event_shape [OF event(3)] by (auto simp: bridge_inv_def)
next
  case (task now an)
  then show ?thesis using assms(1) bridge_task_shape [OF task, of 0]
    by (auto simp: bridge_shapes split: option.splits)
next
  case (dropped now an)
  then show ?thesis using assms(1) bridge_drop_shape [OF dropped(2), of 0]
    by (auto simp: bridge_shapes split: option.splits)
qed (use assms(1) in \<open>auto simp: bridge_shapes\<close>)

lemma bridge_step_releases:
  assumes "bridge_inv a b" and "bridge_step_run env est fs p s b = (b', es)"
  shows "releases aid es + of_bool (ss_slot_released (bb_slot b) \<and> a = Some aid)
       = of_bool (ss_slot_released (bb_slot b') \<and> a = Some aid)"
  using assms(2)
proof (cases rule: bridge_step_cases)
  case (event d t)
  then show ?thesis using assms(1) bridge_event_shape [OF event(3)] by auto
next
  case (task now an)
  then show ?thesis using assms(1) bridge_task_shape [OF task, of aid]
    by (auto simp: bridge_shapes split: option.splits)
next
  case (dropped now an)
  then show ?thesis using assms(1) bridge_drop_shape [OF dropped(2), of aid]
    by (auto simp: bridge_shapes split: option.splits)
qed (use assms(1) in \<open>auto simp: bridge_shapes\<close>)

lemma bills_release [simp]: "bills (snd (release_slot_only ss)) = 0"
  by (simp add: release_slot_only_def split: option.splits)

lemma bridge_step_bills:
  assumes "bridge_inv a b" and "bridge_step_run env est fs p s b = (b', es)"
  shows "bills es + of_bool ((bb_completed b \<or> bb_dropped b) \<and> bp_ctx p \<noteq> None)
       = of_bool ((bb_completed b' \<or> bb_dropped b') \<and> bp_ctx p \<noteq> None)"
  using assms(2)
proof (cases rule: bridge_step_cases)
  case (event d t)
  then show ?thesis using assms(1) bridge_event_shape [OF event(3)] by (auto simp: bridge_inv_def)
next
  case (task now an)
  from bridge_task_shape [OF task, of 0] show ?thesis
    by (elim disjE exE conjE) (use assms(1) in \<open>simp_all add: bridge_inv_def\<close>)
next
  case (dropped now an)
  then show ?thesis using assms(1) bridge_drop_shape [OF dropped(2), of 0]
    by (auto simp: bridge_inv_def)
qed (use assms(1) in \<open>auto simp: bridge_shapes\<close>)

interpretation bridge_slot: once_per_flag "bridge_step_run env est fs p" "bridge_inv a" "releases aid"
    "\<lambda>b. ss_slot_released (bb_slot b) \<and> a = Some aid" "\<lambda>_ _. True" for env est fs p a aid
  by unfold_locales (simp, simp, rule conjI, erule (1) bridge_step_inv, erule (1) bridge_step_releases)

interpretation bridge_log: once_per_flag "bridge_step_run env est fs p" "bridge_inv a" bills
    "\<lambda>b. (bb_completed b \<or> bb_dropped b) \<and> bp_ctx p \<noteq> None" "\<lambda>_ _. True" for env est fs p a
  by unfold_locales (simp, simp, rule conjI, erule (1) bridge_step_inv, erule (1) bridge_step_bills)

section \<open>Properties\<close>

text \<open>
  C5: a mirrored stream that is dropped, with events, read errors and its spawned tasks before or
  after the drop in any order, releases its account's slot exactly once and no other; and as long as
  upstream sends at most one \<open>message_stop\<close>, exactly one terminal log is written when the request is
  billed: the success, or the abort with the usage seen so far.
\<close>

theorem stream_body_settles:
  assumes "stream_run env p ss (new_stream_body st) = (b, es)" and "Drop_Body now an \<in> set ss"
  shows "releases aid es = of_bool (bp_account_id p = Some aid)
    \<and> (stops ss \<le> 1 \<longrightarrow> bills es = of_bool (bp_ctx p \<noteq> None))"
proof -
  let ?b = "new_stream_body st"
  have i: "stream_inv p ?b" by (simp add: stream_inv_def new_stream_body_def)
  have d: "sb_dropped b" by (rule stream_run_dropped [OF assms(1)]) (use assms(2) in blast)
  note r = assms(1) [unfolded stream_run_def]
  have s: "stream_inv p b \<and> releases aid es = of_bool (sb_released b \<and> bp_account_id p = Some aid)"
    using stream_slot.run_once [OF i run_allowed_True r, of aid] by (simp add: new_stream_body_def)
  have "bills es = of_bool (bp_ctx p \<noteq> None)" if "stops ss \<le> 1"
  proof -
    have "run_allowed (stream_step_run env p) stream_allowed ss ?b"
      by (rule stops_allowed) (use that in \<open>simp add: new_stream_body_def\<close>)
    then show ?thesis using stream_log.run_once [OF i _ r] d by (simp add: new_stream_body_def)
  qed
  then show ?thesis using s d by (auto simp: stream_inv_def)
qed

text \<open>
  C6: a bridged document that is dropped and whose tasks have run releases its slot exactly once and
  writes exactly one terminal log when the request is billed, whether the document was completed, the
  upstream failed or ended early, or the client went away before, between or after.
\<close>

theorem bridge_body_settles:
  assumes "bridge_run env est fs p ss (new_bridge_body st \<lparr>ss_account_id = a, ss_slot_released = False\<rparr>)
      = (b, es)"
    and "bb_dropped b" and "bb_tasks b = []"
  shows "releases aid es = of_bool (a = Some aid) \<and> bills es = of_bool (bp_ctx p \<noteq> None)"
proof -
  let ?b = "new_bridge_body st \<lparr>ss_account_id = a, ss_slot_released = False\<rparr>"
  have i: "bridge_inv a ?b" by (simp add: bridge_inv_def new_bridge_body_def)
  note r = assms(1) [unfolded bridge_run_def]
  have "bridge_inv a b \<and> releases aid es = of_bool (ss_slot_released (bb_slot b) \<and> a = Some aid)"
    using bridge_slot.run_once [OF i run_allowed_True r, of aid] by (simp add: new_bridge_body_def)
  moreover have "bills es = of_bool ((bb_completed b \<or> bb_dropped b) \<and> bp_ctx p \<noteq> None)"
    using bridge_log.run_once [OF i run_allowed_True r] by (simp add: new_bridge_body_def)
  ultimately show ?thesis using assms(2,3) by (auto simp: bridge_inv_def)
qed

section \<open>Witnesses\<close>

definition sample_ctx :: BillingContext where
  "sample_ctx =
     \<lparr>bc_user_id = Some 1, bc_api_key_id = Some 2, bc_account_id = Some 8, bc_model_raw = ''claude'',
      bc_request_id = ''r'', bc_started_at = 0, bc_audit = None\<rparr>"

definition sample_params :: body_params where
  "sample_params =
     \<lparr>bp_cookie = Some (sample_slots 1), bp_account_id = Some 8, bp_ctx = Some sample_ctx, bp_family = Other\<rparr>"

definition sample_stream :: "stream_step list" where
  "sample_stream =
     [Event (Some ContentBlockDelta) 5, Event (Some MessageStop) 9,
      Drop_Body 0 (an_usage (sample_answers 0)), Run_Task 0 (an_usage (sample_answers 0))]"

theorem stream_body_settles_witness:
  "releases 8 (snd (stream_run sample_env sample_params sample_stream (new_stream_body sample_request))) = 1
   \<and> bills (snd (stream_run sample_env sample_params sample_stream (new_stream_body sample_request))) = 1"
  using stream_body_settles [of sample_env sample_params sample_stream sample_request
      "fst (stream_run sample_env sample_params sample_stream (new_stream_body sample_request))"
      "snd (stream_run sample_env sample_params sample_stream (new_stream_body sample_request))"
      0 "an_usage (sample_answers 0)" 8]
  by (simp add: sample_stream_def stops_def is_stop_def sample_params_def)

definition sample_bridge :: "bridge_step list" where
  "sample_bridge = [Upstream_End, Bridge_Drop 0 (an_usage (sample_answers 0))]"

definition sample_bridge_run :: "bridge_body \<times> chat_effect list" where
  "sample_bridge_run =
     bridge_run sample_env (\<lambda>_. None) (\<lambda>_. Inl []) sample_params sample_bridge
       (new_bridge_body sample_request \<lparr>ss_account_id = Some 8, ss_slot_released = False\<rparr>)"

lemma sample_params_ctx: "bp_ctx sample_params = Some sample_ctx"
  by (simp add: sample_params_def)

lemma sample_bridge_settled: "bb_dropped (fst sample_bridge_run) \<and> bb_tasks (fst sample_bridge_run) = []"
  by (simp add: sample_bridge_run_def bridge_run_def sample_bridge_def bridge_step_run_def
      bridge_drop_def bridge_release_def bridge_shapes Let_def new_bridge_body_def split: prod.splits)

theorem bridge_body_settles_witness:
  "releases 8 (snd sample_bridge_run) = 1 \<and> bills (snd sample_bridge_run) = 1"
  using bridge_body_settles [of sample_env "\<lambda>_. None" "\<lambda>_. Inl []" sample_params sample_bridge sample_request
      "Some 8" "fst sample_bridge_run" "snd sample_bridge_run" 8] sample_bridge_settled sample_params_ctx
  by (simp add: sample_bridge_run_def [symmetric])

end
