(* ===== verification/Claude_Types.thy ===== *)
theory Claude_Types
  imports Json_Value
begin

text \<open>
  The wire types of the Messages API (\<open>src/src/types/claude.rs\<close>): requests, content blocks, tools,
  responses and the events of a response stream, with the serialisation of content blocks and the
  hand-written deserialisation of \<open>tool_choice\<close>. An \<open>f32\<close> is its rational value. A JSON object is an
  association list with distinct keys.
\<close>

type_synonym f32 = rat

section \<open>Requests\<close>

datatype OutputEffort = Effort_Low | Effort_Medium | Effort_High | Effort_XHigh | Effort_Max

datatype (plugins only: code size) OutputFormat = JsonSchema json

record OutputConfig =
  effort :: "OutputEffort option"
  oc_format :: "OutputFormat option"

datatype ThinkingDisplay = Summarized | Omitted

datatype ServiceTier = Tier_Auto | StandardOnly

record FallbackTarget =
  target_model :: string

record McpServer =
  mcp_name :: string
  mcp_type :: string
  mcp_url :: string
  authorization_token :: "string option"
  tool_configuration :: "json option"

datatype CacheControlType = Ephemeral

record CacheControlEphemeral =
  cc_type :: CacheControlType
  cc_ttl :: "string option"

datatype Thinking =
    Thinking_Enabled u64 "ThinkingDisplay option"
  | Thinking_Disabled
  | Thinking_Adaptive "ThinkingDisplay option"

definition thinking_new :: "u64 \<Rightarrow> Thinking" where
  "thinking_new budget_tokens = Thinking_Enabled budget_tokens None"

definition adaptive :: Thinking where
  "adaptive = Thinking_Adaptive None"

definition adaptive_with_display :: "ThinkingDisplay \<Rightarrow> Thinking" where
  "adaptive_with_display display = Thinking_Adaptive (Some display)"

datatype Role = Role_System | Role_User | Role_Assistant

datatype (plugins only: code size) ImageSource =
    Base64 string string
  | Image_Url string
  | Image_File string

text \<open>The arguments are the fields in the order of the source.\<close>

datatype (plugins only: code size) ContentBlock =
    Text string "CacheControlEphemeral option" "json list option"
  | ImageBlock ImageSource "CacheControlEphemeral option"
  | ImageUrl string
  | Document json "CacheControlEphemeral option" "bool option option" "string option" "string option"
  | SearchResult "ContentBlock list" string string "CacheControlEphemeral option" "bool option option"
  | ThinkingBlock string string
  | RedactedThinking string
  | ToolUse string string json "CacheControlEphemeral option" "json option"
  | ToolResult string json "CacheControlEphemeral option" "bool option"
  | ToolReference string "CacheControlEphemeral option"
  | ServerToolUse string string json "CacheControlEphemeral option" "json option"
  | WebSearchToolResult string json "CacheControlEphemeral option"
  | WebFetchToolResult string json "CacheControlEphemeral option"
  | CodeExecutionToolResult string json "CacheControlEphemeral option"
  | BashCodeExecutionToolResult string json "CacheControlEphemeral option"
  | TextEditorCodeExecutionToolResult string json "CacheControlEphemeral option"
  | ToolSearchToolResult string json "CacheControlEphemeral option"
  | McpToolUse string string string json "CacheControlEphemeral option"
  | McpToolResult string json "CacheControlEphemeral option" "bool option"
  | ContainerUpload string "CacheControlEphemeral option"
  | Fallback "(string \<times> json) list"

datatype (plugins only: code size) MessageContent =
    Content_Text string
  | Content_Blocks "ContentBlock list"

record Message =
  role :: Role
  content :: MessageContent

definition new_text :: "Role \<Rightarrow> string \<Rightarrow> Message" where
  "new_text r t = \<lparr>role = r, content = Content_Text t\<rparr>"

definition new_blocks :: "Role \<Rightarrow> ContentBlock list \<Rightarrow> Message" where
  "new_blocks r blocks = \<lparr>role = r, content = Content_Blocks blocks\<rparr>"

definition text_block :: "string \<Rightarrow> ContentBlock" where
  "text_block t = Text t None None"

definition image_block :: "string \<Rightarrow> string \<Rightarrow> string \<Rightarrow> ContentBlock" where
  "image_block kind media_type data =
     ImageBlock (if kind = ''url'' then Image_Url data
            else if kind = ''file'' then Image_File data
            else Base64 media_type data) None"

fun fallback_target_model :: "ContentBlock \<Rightarrow> string option" where
  "fallback_target_model (Fallback details) =
     Option.bind (Option.bind (Option.bind (map_of details ''to'') as_object) (\<lambda>to. map_of to ''model'')) as_str"
| "fallback_target_model _ = None"

record CustomTool =
  ct_name :: string
  ct_description :: "string option"
  ct_input_schema :: json
  ct_allowed_callers :: "string list option"
  ct_cache_control :: "CacheControlEphemeral option"
  ct_defer_loading :: "bool option"
  ct_input_examples :: "json list option"
  ct_strict :: "bool option"
  ct_type :: "unit option"
  ct_extra :: "(string \<times> json) list"

text \<open>The known tools are passed through unread; a value of the type is its JSON text.\<close>

datatype (plugins only: code size) Tool = Tool_Custom CustomTool | Tool_Known json | Tool_Raw json

datatype ToolChoice =
    Choice_Auto "bool option"
  | Choice_Any "bool option"
  | Choice_Tool string "bool option"
  | Choice_None

record CreateMessageParams =
  max_tokens :: u32
  messages :: "Message list"
  model :: string
  container :: "json option"
  context_management :: "json option"
  mcp_servers :: "McpServer list option"
  system :: "json option"
  temperature :: "f32 option"
  stop_sequences :: "string list option"
  stream :: "bool option"
  thinking :: "Thinking option"
  top_k :: "u32 option"
  top_p :: "f32 option"
  tools :: "Tool list option"
  tool_choice :: "ToolChoice option"
  metadata :: "(string \<times> string) list option"
  output_config :: "OutputConfig option"
  output_format :: "OutputFormat option"
  service_tier :: "ServiceTier option"
  fallbacks :: "FallbackTarget list option"
  completions :: "u32 option"
  cache_control :: "CacheControlEphemeral option"

definition default_params :: CreateMessageParams where
  "default_params =
     \<lparr>max_tokens = 0, messages = [], model = [], container = None, context_management = None,
      mcp_servers = None, system = None, temperature = None, stop_sequences = None, stream = None,
      thinking = None, top_k = None, top_p = None, tools = None, tool_choice = None, metadata = None,
      output_config = None, output_format = None, service_tier = None, fallbacks = None,
      completions = None, cache_control = None\<rparr>"

section \<open>Responses and stream events\<close>

datatype StopReason =
    EndTurn | MaxTokens | StopSequence | Stop_ToolUse | PauseTurn | Refusal | ModelContextWindowExceeded

record Usage =
  input_tokens :: u32
  output_tokens :: u32
  cache_creation_input_tokens :: "u32 option"
  cache_read_input_tokens :: "u32 option"

text \<open>\<open>CreateMessageResponse\<close>; \<open>MessageStartContent\<close> has the same fields.\<close>

record CreateMessageResponse =
  resp_content :: "ContentBlock list"
  resp_id :: string
  resp_model :: string
  resp_role :: Role
  resp_stop_reason :: "StopReason option"
  resp_stop_sequence :: "string option"
  resp_type :: string
  resp_usage :: "Usage option"

datatype ContentBlockDelta =
    TextDelta string | InputJsonDelta string | ThinkingDelta string | SignatureDelta string

datatype (plugins only: code size) StreamEvent =
    MessageStart CreateMessageResponse
  | ContentBlockStart nat ContentBlock
  | ContentBlockDelta nat ContentBlockDelta
  | ContentBlockStop nat
  | MessageDelta "StopReason option" "string option" "Usage option"
  | MessageStop
  | Ping
  | StreamError string string

section \<open>Token counts\<close>

text \<open>
  The two token counts, over the encoder of the tiktoken crate as the argument \<open>encode\<close> (the number
  of tokens of a text). The casts \<open>as u32\<close> wrap.
\<close>

fun system_text :: "json option \<Rightarrow> string" where
  "system_text (Some (JStr s)) = s"
| "system_text (Some (JArr xs)) = concat (List.map_filter (\<lambda>v. get_str v ''text'') xs)"
| "system_text _ = []"

fun block_text :: "ContentBlock \<Rightarrow> string" where
  "block_text (Text t _ _) = t"
| "block_text _ = []"

fun message_text :: "MessageContent \<Rightarrow> string" where
  "message_text (Content_Text t) = t"
| "message_text (Content_Blocks bs) = concat (map block_text bs)"

definition count_tokens :: "(string \<Rightarrow> nat) \<Rightarrow> CreateMessageParams \<Rightarrow> u32" where
  "count_tokens encode body =
     of_nat (encode (system_text (system body)))
       + of_nat (encode (join_with [CHR 0x0A] (map (message_text \<circ> content) (messages body))))"

fun response_block_text :: "ContentBlock \<Rightarrow> string" where
  "response_block_text (Text t _ _) = t"
| "response_block_text (ImageBlock (Base64 _ data) _) = data"
| "response_block_text _ = []"

definition response_count_tokens :: "(string \<Rightarrow> nat) \<Rightarrow> CreateMessageResponse \<Rightarrow> u32" where
  "response_count_tokens encode resp =
     of_nat (encode (join_with [CHR 0x0A] (map response_block_text (resp_content resp))))"

section \<open>Serialisation\<close>

definition opt_field :: "string \<Rightarrow> ('a \<Rightarrow> json) \<Rightarrow> 'a option \<Rightarrow> (string \<times> json) list" where
  "opt_field k f v = (case v of None \<Rightarrow> [] | Some x \<Rightarrow> [(k, f x)])"

definition cache_control_json :: "CacheControlEphemeral \<Rightarrow> json" where
  "cache_control_json cc = JObj ((''type'', JStr ''ephemeral'') # opt_field ''ttl'' JStr (cc_ttl cc))"

definition citations_config_json :: "bool option \<Rightarrow> json" where
  "citations_config_json enabled = JObj (opt_field ''enabled'' JBool enabled)"

fun image_source_json :: "ImageSource \<Rightarrow> json" where
  "image_source_json (Base64 media_type data) =
     JObj [(''type'', JStr ''base64''), (''media_type'', JStr media_type), (''data'', JStr data)]"
| "image_source_json (Image_Url url) = JObj [(''type'', JStr ''url''), (''url'', JStr url)]"
| "image_source_json (Image_File file_id) = JObj [(''type'', JStr ''file''), (''file_id'', JStr file_id)]"

definition cache_field :: "CacheControlEphemeral option \<Rightarrow> (string \<times> json) list" where
  "cache_field = opt_field ''cache_control'' cache_control_json"

definition tagged :: "string \<Rightarrow> (string \<times> json) list \<Rightarrow> json" where
  "tagged t kvs = JObj ((''type'', JStr t) # kvs)"

definition result_json :: "string \<Rightarrow> string \<Rightarrow> json \<Rightarrow> CacheControlEphemeral option \<Rightarrow> json" where
  "result_json t ident c cc = tagged t ([(''tool_use_id'', JStr ident), (''content'', c)] @ cache_field cc)"

fun content_block_json :: "ContentBlock \<Rightarrow> json" where
  "content_block_json (Text t cc cits) =
     tagged ''text'' ([(''text'', JStr t)] @ cache_field cc @ opt_field ''citations'' JArr cits)"
| "content_block_json (ImageBlock src cc) =
     tagged ''image'' ([(''source'', image_source_json src)] @ cache_field cc)"
| "content_block_json (ImageUrl url) = tagged ''image_url'' [(''image_url'', JObj [(''url'', JStr url)])]"
| "content_block_json (Document src cc cits ctx title) =
     tagged ''document'' ([(''source'', src)] @ cache_field cc
       @ opt_field ''citations'' citations_config_json cits @ opt_field ''context'' JStr ctx
       @ opt_field ''title'' JStr title)"
| "content_block_json (SearchResult bs src title cc cits) =
     tagged ''search_result'' ([(''content'', JArr (map content_block_json bs)), (''source'', JStr src),
       (''title'', JStr title)] @ cache_field cc @ opt_field ''citations'' citations_config_json cits)"
| "content_block_json (ThinkingBlock sig t) =
     tagged ''thinking'' [(''signature'', JStr sig), (''thinking'', JStr t)]"
| "content_block_json (RedactedThinking d) = tagged ''redacted_thinking'' [(''data'', JStr d)]"
| "content_block_json (ToolUse ident n i cc caller) =
     tagged ''tool_use'' ([(''id'', JStr ident), (''name'', JStr n), (''input'', i)] @ cache_field cc
       @ opt_field ''caller'' (\<lambda>x. x) caller)"
| "content_block_json (ToolResult ident c cc err) =
     tagged ''tool_result'' ([(''tool_use_id'', JStr ident), (''content'', c)] @ cache_field cc
       @ opt_field ''is_error'' JBool err)"
| "content_block_json (ToolReference n cc) =
     tagged ''tool_reference'' ([(''tool_name'', JStr n)] @ cache_field cc)"
| "content_block_json (ServerToolUse ident n i cc caller) =
     tagged ''server_tool_use'' ([(''id'', JStr ident), (''name'', JStr n), (''input'', i)] @ cache_field cc
       @ opt_field ''caller'' (\<lambda>x. x) caller)"
| "content_block_json (WebSearchToolResult ident c cc) = result_json ''web_search_tool_result'' ident c cc"
| "content_block_json (WebFetchToolResult ident c cc) = result_json ''web_fetch_tool_result'' ident c cc"
| "content_block_json (CodeExecutionToolResult ident c cc) =
     result_json ''code_execution_tool_result'' ident c cc"
| "content_block_json (BashCodeExecutionToolResult ident c cc) =
     result_json ''bash_code_execution_tool_result'' ident c cc"
| "content_block_json (TextEditorCodeExecutionToolResult ident c cc) =
     result_json ''text_editor_code_execution_tool_result'' ident c cc"
| "content_block_json (ToolSearchToolResult ident c cc) = result_json ''tool_search_tool_result'' ident c cc"
| "content_block_json (McpToolUse ident n srv i cc) =
     tagged ''mcp_tool_use'' ([(''id'', JStr ident), (''name'', JStr n), (''server_name'', JStr srv),
       (''input'', i)] @ cache_field cc)"
| "content_block_json (McpToolResult ident c cc err) =
     tagged ''mcp_tool_result'' ([(''tool_use_id'', JStr ident), (''content'', c)] @ cache_field cc
       @ opt_field ''is_error'' JBool err)"
| "content_block_json (ContainerUpload f cc) =
     tagged ''container_upload'' ([(''file_id'', JStr f)] @ cache_field cc)"
| "content_block_json (Fallback details) = tagged ''fallback'' details"

section \<open>The tool choice\<close>

text \<open>
  \<open>ToolChoice\<close> is serialised by its derive and read back by a hand-written \<open>Deserialize\<close>, which also
  accepts the plain strings of other clients. \<open>tagged_choice\<close> is the derived \<open>ToolChoiceTagged\<close>; \<open>None\<close>
  stands for the error of serde.
\<close>

fun tool_choice_json :: "ToolChoice \<Rightarrow> json" where
  "tool_choice_json (Choice_Auto d) = tagged ''auto'' (opt_field ''disable_parallel_tool_use'' JBool d)"
| "tool_choice_json (Choice_Any d) = tagged ''any'' (opt_field ''disable_parallel_tool_use'' JBool d)"
| "tool_choice_json (Choice_Tool n d) =
     tagged ''tool'' ((''name'', JStr n) # opt_field ''disable_parallel_tool_use'' JBool d)"
| "tool_choice_json Choice_None = tagged ''none'' []"

fun opt_bool :: "json option \<Rightarrow> bool option option" where
  "opt_bool None = Some None"
| "opt_bool (Some JNull) = Some None"
| "opt_bool (Some (JBool b)) = Some (Some b)"
| "opt_bool (Some _) = None"

definition tagged_choice :: "(string \<times> json) list \<Rightarrow> ToolChoice option" where
  "tagged_choice kvs =
     (case Option.bind (map_of kvs ''type'') as_str of
        None \<Rightarrow> None
      | Some t \<Rightarrow>
          let disable = opt_bool (map_of kvs ''disable_parallel_tool_use'') in
          if t = ''auto'' then map_option Choice_Auto disable
          else if t = ''any'' then map_option Choice_Any disable
          else if t = ''tool''
          then (case Option.bind (map_of kvs ''name'') as_str of
                  None \<Rightarrow> None | Some n \<Rightarrow> map_option (Choice_Tool n) disable)
          else if t = ''none'' then Some Choice_None
          else None)"

fun tool_choice_from_json :: "json \<Rightarrow> ToolChoice option" where
  "tool_choice_from_json (JStr choice) =
     (if choice = ''auto'' then Some (Choice_Auto None)
      else if choice = ''any'' \<or> choice = ''required'' then Some (Choice_Any None)
      else if choice = ''none'' then Some Choice_None
      else None)"
| "tool_choice_from_json (JObj kvs) = tagged_choice kvs"
| "tool_choice_from_json _ = None"

lemma tool_choice_json_object: "\<exists>kvs. tool_choice_json tc = JObj kvs"
  by (cases tc) (simp_all add: tagged_def)

lemma opt_bool_field [simp]:
  "opt_bool (map_of (opt_field k JBool d) k) = Some d"
  by (cases d) (simp_all add: opt_field_def)

lemma opt_field_other [simp]: "k \<noteq> k' \<Longrightarrow> map_of (opt_field k f v) k' = None"
  by (simp add: opt_field_def split: option.split)

text \<open>Reading back what the gateway writes gives the same choice.\<close>

lemma tool_choice_roundtrip: "tool_choice_from_json (tool_choice_json tc) = Some tc"
  by (cases tc) (simp_all add: tagged_def tagged_choice_def)

text \<open>The tag of a serialised block determines its constructor; a text block keeps its text.\<close>

lemma content_block_json_text [simp]:
  "content_block_json (text_block t) = JObj [(''type'', JStr ''text''), (''text'', JStr t)]"
  by (simp add: text_block_def tagged_def cache_field_def opt_field_def)

end
