(* ===== verification/Openai_Request.thy ===== *)
theory Openai_Request
  imports Claude_Types
begin

text \<open>
  Translation of OpenAI chat completion requests (\<open>src/src/types/openai.rs\<close>,
  \<open>src/src/middleware/openai/request.rs\<close>) into Messages requests. Arguments stand for what the code
  takes from outside: \<open>from_str\<close> parses a JSON text and \<open>fresh\<close> gives the id that
  \<open>generate_tool_use_id\<close> draws for the tool call at a position. A rejected request is an \<open>Inl\<close> with its
  status and error body.
\<close>

section \<open>Wire types\<close>

datatype (plugins only: code size) ContentPart = Part_Text string | Part_ImageUrl string "string option"

datatype (plugins only: code size) ChatContent = Chat_Text string | Chat_Parts "ContentPart list"

record ToolCall =
  tc_id :: "string option"
  tc_kind :: "string option"
  tc_name :: string
  tc_arguments :: string

datatype (plugins only: code size) ChatMessage =
    Chat_System ChatContent "string option"
  | Chat_Developer ChatContent "string option"
  | Chat_User ChatContent "string option"
  | Chat_Assistant "ChatContent option" "ToolCall list option" "string option"
  | Chat_Tool ChatContent string

record ToolDef =
  td_kind :: string
  td_name :: string
  td_description :: "string option"
  td_parameters :: "json option"
  td_strict :: "bool option"
  td_extra :: "(string \<times> json) list"

datatype (plugins only: code size) ChatToolChoice = Mode string | Specific string string

datatype (plugins only: code size) ResponseFormat =
    Format_Text | Format_JsonObject | Format_JsonSchema json

datatype (plugins only: code size) StringOrVec = Stop_String string | Stop_Vec "string list"

text \<open>The flds that the translation never reads (penalties, seed, store and so on) are left out.\<close>

record ChatCompletionRequest =
  oai_model :: string
  oai_messages :: "ChatMessage list"
  oai_max_tokens :: "u32 option"
  oai_max_completion_tokens :: "u32 option"
  oai_temperature :: "f32 option"
  oai_top_p :: "f32 option"
  oai_top_k :: "u32 option"
  oai_stop :: "StringOrVec option"
  oai_stream :: "bool option"
  oai_include_usage :: "bool option option"
  oai_tools :: "ToolDef list option"
  oai_tool_choice :: "ChatToolChoice option"
  oai_response_format :: "ResponseFormat option"
  oai_reasoning_effort :: "string option"
  oai_user :: "string option"
  oai_n :: "u32 option"
  oai_logprobs :: "bool option"
  oai_metadata :: "(string \<times> json) list option"

record OpenAIErrorBody =
  err_message :: string
  err_kind :: string
  err_code :: "string option"
  err_param :: "string option"

definition invalid_request :: "string \<Rightarrow> OpenAIErrorBody" where
  "invalid_request m =
     \<lparr>err_message = m, err_kind = ''invalid_request_error'', err_code = None, err_param = None\<rparr>"

record OpenAIRequestError =
  req_status :: nat
  req_body :: OpenAIErrorBody

definition bad_request :: "string \<Rightarrow> OpenAIRequestError" where
  "bad_request m = \<lparr>req_status = 400, req_body = invalid_request m\<rparr>"

section \<open>Contents\<close>

definition system_entry :: "string \<Rightarrow> json" where
  "system_entry t = JObj [(''type'', JStr ''text''), (''text'', JStr t)]"

fun part_system :: "ContentPart \<Rightarrow> json list" where
  "part_system (Part_Text t) = (if t = [] then [] else [system_entry t])"
| "part_system (Part_ImageUrl _ _) = []"

fun push_system_entries :: "json list \<Rightarrow> ChatContent \<Rightarrow> json list" where
  "push_system_entries systems (Chat_Text t) = (if t = [] then systems else systems @ [system_entry t])"
| "push_system_entries systems (Chat_Parts parts) = systems @ concat (map part_system parts)"

definition SUPPORTED_IMAGE_MEDIA_TYPES :: "string list" where
  "SUPPORTED_IMAGE_MEDIA_TYPES = [''image/jpeg'', ''image/png'', ''image/gif'', ''image/webp'']"

definition image_url_to_block :: "string \<Rightarrow> OpenAIRequestError + ContentBlock" where
  "image_url_to_block url =
     (case strip_prefix url ''data:'' of
        Some rest \<Rightarrow>
          (case split_once (CHR '','') rest of
             None \<Rightarrow> Inl (bad_request ''malformed image data URL'')
           | Some (header, data) \<Rightarrow>
               let parts = split_on (CHR '';'') header;
                   media_type = to_ascii_lowercase (hd parts);
                   is_base64 = list_ex (\<lambda>p. eq_ignore_ascii_case (trim p) ''base64'') (tl parts)
               in if \<not> is_base64
                  then Inl (bad_request ''only base64-encoded image data URLs are supported'')
                  else if media_type \<notin> set SUPPORTED_IMAGE_MEDIA_TYPES
                  then Inl (bad_request (''unsupported image media type: '' @ media_type))
                  else Inr (ImageBlock (Base64 media_type data) None))
      | None \<Rightarrow>
          if starts_with url ''http://'' \<or> starts_with url ''https://''
          then Inr (ImageBlock (Image_Url url) None)
          else Inl (bad_request (''unsupported image_url scheme: '' @ take_chars 40 url)))"

fun parts_to_blocks :: "ContentPart list \<Rightarrow> OpenAIRequestError + ContentBlock list" where
  "parts_to_blocks [] = Inr []"
| "parts_to_blocks (Part_Text t # ps) =
     (if t = [] then parts_to_blocks ps else map_sum id (Cons (text_block t)) (parts_to_blocks ps))"
| "parts_to_blocks (Part_ImageUrl url _ # ps) =
     (case image_url_to_block url of
        Inl e \<Rightarrow> Inl e
      | Inr b \<Rightarrow> map_sum id (Cons b) (parts_to_blocks ps))"

fun user_content_to_blocks :: "ChatContent \<Rightarrow> OpenAIRequestError + ContentBlock list" where
  "user_content_to_blocks (Chat_Text t) = Inr (if t = [] then [] else [text_block t])"
| "user_content_to_blocks (Chat_Parts parts) = parts_to_blocks parts"

fun part_text_blocks :: "ContentPart \<Rightarrow> ContentBlock list" where
  "part_text_blocks (Part_Text t) = (if t = [] then [] else [text_block t])"
| "part_text_blocks (Part_ImageUrl _ _) = []"

fun assistant_text_to_blocks :: "ChatContent \<Rightarrow> ContentBlock list \<Rightarrow> ContentBlock list" where
  "assistant_text_to_blocks (Chat_Text t) out = (if t = [] then out else out @ [text_block t])"
| "assistant_text_to_blocks (Chat_Parts parts) out = out @ concat (map part_text_blocks parts)"

fun is_object :: "json \<Rightarrow> bool" where
  "is_object (JObj _) = True"
| "is_object _ = False"

definition parse_tool_call_arguments :: "(string \<Rightarrow> json option) \<Rightarrow> string \<Rightarrow> json" where
  "parse_tool_call_arguments from_str raw =
     (case from_str raw of None \<Rightarrow> JObj [] | Some v \<Rightarrow> if is_object v then v else JObj [])"

definition tool_call_to_block :: "(string \<Rightarrow> json option) \<Rightarrow> string \<Rightarrow> ToolCall \<Rightarrow> ContentBlock" where
  "tool_call_to_block from_str fresh call =
     ToolUse (case tc_id call of None \<Rightarrow> ''toolu_'' @ fresh | Some ident \<Rightarrow> ident) (tc_name call)
       (parse_tool_call_arguments from_str (tc_arguments call)) None None"

fun part_tool_text :: "ContentPart \<Rightarrow> string option" where
  "part_tool_text (Part_Text t) = Some t"
| "part_tool_text (Part_ImageUrl _ _) = None"

fun flatten_tool_content :: "ChatContent \<Rightarrow> string" where
  "flatten_tool_content (Chat_Text s) = s"
| "flatten_tool_content (Chat_Parts parts) = concat (List.map_filter part_tool_text parts)"

fun is_tool_result :: "ContentBlock \<Rightarrow> bool" where
  "is_tool_result (ToolResult _ _ _ _) = True"
| "is_tool_result _ = False"

definition append_tool_result :: "ContentBlock \<Rightarrow> Message list \<Rightarrow> Message list" where
  "append_tool_result block msgs =
     (let fresh_message = msgs @ [new_blocks Role_User [block]] in
      if msgs = [] then fresh_message
      else case content (last msgs) of
             Content_Blocks blocks \<Rightarrow>
               if role (last msgs) = Role_User \<and> list_all is_tool_result blocks
               then butlast msgs @ [(last msgs)\<lparr>content := Content_Blocks (blocks @ [block])\<rparr>]
               else fresh_message
           | Content_Text _ \<Rightarrow> fresh_message)"

section \<open>Messages\<close>

fun user_message :: "ContentBlock list \<Rightarrow> Message list" where
  "user_message [] = []"
| "user_message [Text t _ _] = [new_text Role_User t]"
| "user_message blocks = [new_blocks Role_User blocks]"

definition assistant_blocks ::
  "(string \<Rightarrow> json option) \<Rightarrow> (nat \<Rightarrow> string) \<Rightarrow> ChatContent option \<Rightarrow> ToolCall list option \<Rightarrow> ContentBlock list"
where
  "assistant_blocks from_str fresh c calls =
     (case c of None \<Rightarrow> [] | Some c \<Rightarrow> assistant_text_to_blocks c [])
       @ (case calls of None \<Rightarrow> []
          | Some cs \<Rightarrow> map (\<lambda>(i, call). tool_call_to_block from_str (fresh i) call) (enumerate 0 cs))"

definition assistant_message :: "ContentBlock list \<Rightarrow> Message list" where
  "assistant_message blocks = (if blocks = [] then [] else [new_blocks Role_Assistant blocks])"

text \<open>
  The loop over the messages; \<open>fresh\<close> also takes the number of messages still to come, so that every
  draw of an id is its own.
\<close>

fun translate_messages ::
  "(string \<Rightarrow> json option) \<Rightarrow> (nat \<Rightarrow> nat \<Rightarrow> string) \<Rightarrow> ChatMessage list \<Rightarrow> json list \<Rightarrow> Message list
     \<Rightarrow> OpenAIRequestError + json list \<times> Message list" where
  "translate_messages from_str fresh [] sys out = Inr (sys, out)"
| "translate_messages from_str fresh (Chat_System c _ # ms) sys out =
     translate_messages from_str fresh ms (push_system_entries sys c) out"
| "translate_messages from_str fresh (Chat_Developer c _ # ms) sys out =
     translate_messages from_str fresh ms (push_system_entries sys c) out"
| "translate_messages from_str fresh (Chat_User c _ # ms) sys out =
     (case user_content_to_blocks c of
        Inl e \<Rightarrow> Inl e
      | Inr blocks \<Rightarrow> translate_messages from_str fresh ms sys (out @ user_message blocks))"
| "translate_messages from_str fresh (Chat_Assistant c calls _ # ms) sys out =
     translate_messages from_str fresh ms sys
       (out @ assistant_message (assistant_blocks from_str (fresh (length ms)) c calls))"
| "translate_messages from_str fresh (Chat_Tool c ident # ms) sys out =
     translate_messages from_str fresh ms sys
       (append_tool_result (ToolResult ident (JStr (flatten_tool_content c)) None None) out)"

section \<open>The request\<close>

definition translate_tool :: "ToolDef \<Rightarrow> Tool" where
  "translate_tool d =
     Tool_Custom \<lparr>ct_name = td_name d, ct_description = td_description d,
       ct_input_schema = (case td_parameters d of None \<Rightarrow> JObj [(''type'', JStr ''object'')] | Some p \<Rightarrow> p),
       ct_allowed_callers = None, ct_cache_control = None, ct_defer_loading = None,
       ct_input_examples = None, ct_strict = td_strict d, ct_type = None, ct_extra = []\<rparr>"

definition translate_tools :: "ToolDef list \<Rightarrow> Tool list" where
  "translate_tools = map translate_tool"

fun translate_tool_choice :: "ChatToolChoice \<Rightarrow> OpenAIRequestError + ToolChoice option" where
  "translate_tool_choice (Mode mode) =
     (if mode = ''auto'' then Inr (Some (Choice_Auto None))
      else if mode = ''required'' then Inr (Some (Choice_Any None))
      else if mode = ''none'' then Inr (Some Choice_None)
      else Inl (bad_request (''unknown tool_choice mode: '' @ mode)))"
| "translate_tool_choice (Specific kind name) = Inr (Some (Choice_Tool name None))"

definition parse_effort :: "string \<Rightarrow> OutputEffort option" where
  "parse_effort raw =
     (let r = to_ascii_lowercase raw in
      if r = ''low'' then Some Effort_Low
      else if r = ''medium'' then Some Effort_Medium
      else if r = ''high'' then Some Effort_High
      else None)"

definition stop_list :: "StringOrVec \<Rightarrow> string list" where
  "stop_list s = (case s of Stop_String x \<Rightarrow> [x] | Stop_Vec xs \<Rightarrow> take 4 xs)"

definition translate_format :: "ResponseFormat option \<Rightarrow> OutputFormat option" where
  "translate_format f =
     (case f of Some (Format_JsonSchema js) \<Rightarrow> map_option JsonSchema (json_get js ''schema'') | _ \<Rightarrow> None)"

text \<open>\<open>Metadata.fields\<close>: the string entries, and the user unless a \<open>user_id\<close> is among them.\<close>

definition translate_metadata :: "(string \<times> json) list option \<Rightarrow> string option \<Rightarrow> (string \<times> string) list option"
where
  "translate_metadata meta user =
     (let flds = (case meta of None \<Rightarrow> []
            | Some kvs \<Rightarrow> List.map_filter (\<lambda>(k, v). map_option (Pair k) (as_str v)) kvs);
          flds' = (case user of
              Some u \<Rightarrow> if u \<noteq> [] \<and> map_of flds ''user_id'' = None then hm_insert ''user_id'' u flds else flds
            | None \<Rightarrow> flds)
      in if flds' = [] then None else Some flds')"

definition check_limits :: "ChatCompletionRequest \<Rightarrow> OpenAIRequestError option" where
  "check_limits oai =
     (if (case oai_n oai of None \<Rightarrow> False | Some n \<Rightarrow> n > 1)
      then Some (bad_request ''n > 1 is not supported by the OpenAI-compatible endpoint'')
      else if oai_logprobs oai = Some True
      then Some (bad_request ''logprobs is not supported by the OpenAI-compatible endpoint'')
      else None)"

definition translate_request ::
  "(string \<Rightarrow> json option) \<Rightarrow> (nat \<Rightarrow> nat \<Rightarrow> string) \<Rightarrow> ChatCompletionRequest
     \<Rightarrow> OpenAIRequestError + CreateMessageParams \<times> bool" where
  "translate_request from_str fresh oai =
     (case check_limits oai of
        Some e \<Rightarrow> Inl e
      | None \<Rightarrow>
     case translate_messages from_str fresh (oai_messages oai) [] [] of
        Inl e \<Rightarrow> Inl e
      | Inr (sys, msgs) \<Rightarrow>
     case (case oai_tool_choice oai of None \<Rightarrow> Inr None | Some c \<Rightarrow> translate_tool_choice c) of
        Inl e \<Rightarrow> Inl e
      | Inr choice \<Rightarrow>
          let (tools', choice') = (if choice = Some Choice_None then (None, None)
                                   else (map_option translate_tools (oai_tools oai), choice));
              strm = (case oai_stream oai of None \<Rightarrow> False | Some b \<Rightarrow> b)
          in Inr (default_params\<lparr>
               max_tokens := (case oai_max_completion_tokens oai of Some m \<Rightarrow> m
                 | None \<Rightarrow> (case oai_max_tokens oai of Some m \<Rightarrow> m | None \<Rightarrow> 16384)),
               messages := msgs,
               model := oai_model oai,
               system := (if sys = [] then None else Some (JArr sys)),
               temperature := oai_temperature oai,
               top_p := oai_top_p oai,
               top_k := oai_top_k oai,
               stop_sequences := map_option stop_list (oai_stop oai),
               stream := Some strm,
               tools := tools',
               tool_choice := choice',
               metadata := translate_metadata (oai_metadata oai) (oai_user oai),
               output_config := map_option (\<lambda>e. \<lparr>effort = Some e, oc_format = None\<rparr>)
                 (Option.bind (oai_reasoning_effort oai) parse_effort),
               output_format := translate_format (oai_response_format oai)\<rparr>, strm))"

definition parse_include_reasoning :: "string option option \<Rightarrow> bool" where
  "parse_include_reasoning header =
     (case header of
        Some (Some raw) \<Rightarrow> to_ascii_lowercase (trim raw) \<notin> {''false'', ''0'', ''no''}
      | _ \<Rightarrow> True)"

end
