(* ===== verification/Openai_Response.thy ===== *)
theory Openai_Response
  imports Openai_Request
begin

text \<open>
  Translation of Messages responses into chat completions (\<open>src/src/middleware/openai/response.rs\<close>,
  the response types of \<open>src/src/types/openai.rs\<close>). Arguments stand for the third-party code used:
  \<open>to_text\<close> prints a JSON value, \<open>from_slice\<close> parses one, \<open>parse_response\<close> is the derived
  deserialisation of a response (\<open>Inl\<close> the error text) and \<open>lossy\<close> is \<open>String::from_utf8_lossy\<close>. The drawn
  completion id and the clock are arguments as well.
\<close>

section \<open>Response types\<close>

record UsageOut =
  prompt_tokens :: u32
  completion_tokens :: u32
  total_tokens :: u32
  cached_tokens :: "u32 option"

record AssistantMessage =
  am_role :: string
  am_content :: "string option"
  am_tool_calls :: "ToolCall list option"
  am_reasoning_content :: "string option"

record Choice =
  ch_index :: nat
  ch_message :: AssistantMessage
  ch_finish_reason :: string
  ch_logprobs :: json

record ChatCompletion =
  cc_id :: string
  cc_object :: string
  cc_created :: i64
  cc_model :: string
  cc_choices :: "Choice list"
  cc_usage :: UsageOut
  cc_system_fingerprint :: "string option"

definition error_json :: "OpenAIErrorBody \<Rightarrow> json" where
  "error_json e =
     JObj [(''error'', JObj ([(''message'', JStr (err_message e)), (''type'', JStr (err_kind e))]
       @ opt_field ''code'' JStr (err_code e) @ opt_field ''param'' JStr (err_param e)))]"

definition u32_json :: "u32 \<Rightarrow> json" where
  "u32_json n = JInt (uint n)"

definition usage_json :: "UsageOut \<Rightarrow> json" where
  "usage_json u =
     JObj ([(''prompt_tokens'', u32_json (prompt_tokens u)),
            (''completion_tokens'', u32_json (completion_tokens u)),
            (''total_tokens'', u32_json (total_tokens u))]
       @ opt_field ''prompt_tokens_details'' (\<lambda>n. JObj [(''cached_tokens'', u32_json n)]) (cached_tokens u))"

definition tool_call_json :: "ToolCall \<Rightarrow> json" where
  "tool_call_json c =
     JObj (opt_field ''id'' JStr (tc_id c) @ opt_field ''type'' JStr (tc_kind c)
       @ [(''function'', JObj [(''name'', JStr (tc_name c)), (''arguments'', JStr (tc_arguments c))])])"

definition assistant_message_json :: "AssistantMessage \<Rightarrow> json" where
  "assistant_message_json m =
     JObj ([(''role'', JStr (am_role m)),
            (''content'', case am_content m of None \<Rightarrow> JNull | Some t \<Rightarrow> JStr t)]
       @ opt_field ''tool_calls'' (\<lambda>cs. JArr (map tool_call_json cs)) (am_tool_calls m)
       @ opt_field ''reasoning_content'' JStr (am_reasoning_content m))"

definition choice_json :: "Choice \<Rightarrow> json" where
  "choice_json c =
     JObj [(''index'', JInt (int (ch_index c))), (''message'', assistant_message_json (ch_message c)),
           (''finish_reason'', JStr (ch_finish_reason c)), (''logprobs'', ch_logprobs c)]"

definition completion_json :: "ChatCompletion \<Rightarrow> json" where
  "completion_json c =
     JObj ([(''id'', JStr (cc_id c)), (''object'', JStr (cc_object c)), (''created'', JInt (cc_created c)),
            (''model'', JStr (cc_model c)), (''choices'', JArr (map choice_json (cc_choices c))),
            (''usage'', usage_json (cc_usage c))]
       @ opt_field ''system_fingerprint'' JStr (cc_system_fingerprint c))"

section \<open>Mapping\<close>

definition map_stop_reason :: "StopReason option \<Rightarrow> bool \<Rightarrow> string" where
  "map_stop_reason stop_reason has_tool_calls =
     (if has_tool_calls then ''tool_calls''
      else case stop_reason of
             Some Stop_ToolUse \<Rightarrow> ''tool_calls''
           | Some MaxTokens \<Rightarrow> ''length''
           | Some ModelContextWindowExceeded \<Rightarrow> ''length''
           | Some Refusal \<Rightarrow> ''content_filter''
           | _ \<Rightarrow> ''stop'')"

definition u32_or_zero :: "u32 option \<Rightarrow> u32" where
  "u32_or_zero n = (case n of None \<Rightarrow> 0 | Some x \<Rightarrow> x)"

text \<open>The sums are \<open>u32\<close> additions of a release build: they wrap.\<close>

definition usage_out :: "u32 \<Rightarrow> u32 \<Rightarrow> u32 \<Rightarrow> u32 \<Rightarrow> UsageOut" where
  "usage_out input outp cache_create cache_read =
     (let prompt = input + cache_create + cache_read
      in \<lparr>prompt_tokens = prompt, completion_tokens = outp, total_tokens = prompt + outp,
          cached_tokens = Some cache_read\<rparr>)"

definition map_usage :: "Usage option \<Rightarrow> UsageOut" where
  "map_usage usage =
     (case usage of
        Some u \<Rightarrow> usage_out (input_tokens u) (output_tokens u)
          (u32_or_zero (cache_creation_input_tokens u)) (u32_or_zero (cache_read_input_tokens u))
      | None \<Rightarrow> usage_out 0 0 0 0)"

definition anthropic_type_to_oai :: "string \<Rightarrow> string" where
  "anthropic_type_to_oai t =
     (if t \<in> {''rate_limited'', ''overloaded_error'', ''rate_limit_error''} then ''rate_limit_exceeded''
      else if t = ''authentication_error'' then ''authentication_error''
      else if t = ''permission_error'' then ''permission_error''
      else if t = ''invalid_request_error'' then ''invalid_request_error''
      else if t = ''not_found_error'' then ''not_found_error''
      else ''api_error'')"

definition stringify_value :: "(json \<Rightarrow> string) \<Rightarrow> json \<Rightarrow> string" where
  "stringify_value to_text v = (case v of JStr s \<Rightarrow> s | _ \<Rightarrow> to_text v)"

definition api_error :: "string \<Rightarrow> OpenAIErrorBody" where
  "api_error m = \<lparr>err_message = m, err_kind = ''api_error'', err_code = None, err_param = None\<rparr>"

definition translate_upstream_error_body ::
  "(json \<Rightarrow> string) \<Rightarrow> (string \<Rightarrow> json option) \<Rightarrow> (string \<Rightarrow> string) \<Rightarrow> string \<Rightarrow> OpenAIErrorBody" where
  "translate_upstream_error_body to_text from_slice lossy bytes =
     (let parsed = (case from_slice bytes of None \<Rightarrow> JNull | Some v \<Rightarrow> v);
          inner_error = (case json_get parsed ''error'' of None \<Rightarrow> parsed | Some v \<Rightarrow> v);
          msg = (case json_get inner_error ''message'' of
                   None \<Rightarrow> lossy bytes | Some v \<Rightarrow> stringify_value to_text v);
          kind = (case get_str inner_error ''type'' of None \<Rightarrow> ''api_error'' | Some t \<Rightarrow> t)
      in \<lparr>err_message = msg, err_kind = anthropic_type_to_oai kind, err_code = None, err_param = None\<rparr>)"

section \<open>The completion\<close>

record completion_parts =
  cp_content :: string
  cp_tool_calls :: "ToolCall list"
  cp_reasoning :: string

fun add_block :: "(json \<Rightarrow> string) \<Rightarrow> bool \<Rightarrow> ContentBlock \<Rightarrow> completion_parts \<Rightarrow> completion_parts" where
  "add_block to_text include_reasoning (Text t _ _) parts = parts\<lparr>cp_content := cp_content parts @ t\<rparr>"
| "add_block to_text include_reasoning (ToolUse ident name input _ _) parts =
     parts\<lparr>cp_tool_calls := cp_tool_calls parts @
       [\<lparr>tc_id = Some ident, tc_kind = Some ''function'', tc_name = name, tc_arguments = to_text input\<rparr>]\<rparr>"
| "add_block to_text include_reasoning (ThinkingBlock _ t) parts =
     (if include_reasoning then parts\<lparr>cp_reasoning := cp_reasoning parts @ t\<rparr> else parts)"
| "add_block to_text include_reasoning _ parts = parts"

definition collect_parts :: "(json \<Rightarrow> string) \<Rightarrow> bool \<Rightarrow> ContentBlock list \<Rightarrow> completion_parts" where
  "collect_parts to_text include_reasoning blocks =
     fold (add_block to_text include_reasoning) blocks
       \<lparr>cp_content = [], cp_tool_calls = [], cp_reasoning = []\<rparr>"

definition then_some :: "'a list \<Rightarrow> 'a list option" where
  "then_some xs = (if xs = [] then None else Some xs)"

definition build_chat_completion ::
  "(json \<Rightarrow> string) \<Rightarrow> string \<Rightarrow> i64 \<Rightarrow> CreateMessageResponse \<Rightarrow> bool \<Rightarrow> ChatCompletion" where
  "build_chat_completion to_text fresh now upstream include_reasoning =
     (let parts = collect_parts to_text include_reasoning (resp_content upstream)
      in \<lparr>cc_id = ''chatcmpl-'' @ fresh, cc_object = ''chat.completion'', cc_created = now,
          cc_model = resp_model upstream,
          cc_choices =
            [\<lparr>ch_index = 0,
              ch_message = \<lparr>am_role = ''assistant'', am_content = then_some (cp_content parts),
                am_tool_calls = then_some (cp_tool_calls parts),
                am_reasoning_content = then_some (cp_reasoning parts)\<rparr>,
              ch_finish_reason = map_stop_reason (resp_stop_reason upstream) (cp_tool_calls parts \<noteq> []),
              ch_logprobs = JNull\<rparr>],
          cc_usage = map_usage (resp_usage upstream),
          cc_system_fingerprint = None\<rparr>)"

section \<open>The response\<close>

text \<open>The bodies are byte strings; a body that cannot be read is \<open>Inl\<close> the error text.\<close>

definition is_success :: "nat \<Rightarrow> bool" where
  "is_success status \<longleftrightarrow> 200 \<le> status \<and> status < 300"

record oai_ops =
  oo_to_text :: "json \<Rightarrow> string"
  oo_from_slice :: "string \<Rightarrow> json option"
  oo_lossy :: "string \<Rightarrow> string"
  oo_parse_response :: "string \<Rightarrow> string + CreateMessageResponse"
  oo_fresh :: string
  oo_now :: i64

definition to_openai_non_stream :: "oai_ops \<Rightarrow> nat \<Rightarrow> string + string \<Rightarrow> bool \<Rightarrow> nat \<times> json" where
  "to_openai_non_stream ops status body include_reasoning =
     (case body of
        Inl e \<Rightarrow> (502, error_json (api_error (''failed to read upstream body: '' @ e)))
      | Inr bytes \<Rightarrow>
          if \<not> is_success status
          then (status, error_json (translate_upstream_error_body (oo_to_text ops) (oo_from_slice ops)
                          (oo_lossy ops) bytes))
          else case oo_parse_response ops bytes of
                 Inl e \<Rightarrow> (502, error_json (api_error (''failed to parse upstream response: '' @ e)))
               | Inr upstream \<Rightarrow>
                   (200, completion_json (build_chat_completion (oo_to_text ops) (oo_fresh ops)
                           (oo_now ops) upstream include_reasoning)))"

definition RESPONSE_BODY_LIMIT :: nat where
  "RESPONSE_BODY_LIMIT = 32 * 1024 * 1024"

definition is_ascii_whitespace :: "char \<Rightarrow> bool" where
  "is_ascii_whitespace c \<longleftrightarrow> byte_of c \<in> {0x09, 0x0A, 0x0C, 0x0D, 0x20}"

definition keepalive_document :: "oai_ops \<Rightarrow> bool \<Rightarrow> string \<Rightarrow> json" where
  "keepalive_document ops include_reasoning final_body =
     (case oo_parse_response ops final_body of
        Inr upstream \<Rightarrow> completion_json (build_chat_completion (oo_to_text ops) (oo_fresh ops) (oo_now ops)
                          upstream include_reasoning)
      | Inl err \<Rightarrow>
          let translated = translate_upstream_error_body (oo_to_text ops) (oo_from_slice ops)
                (oo_lossy ops) final_body
          in error_json (if trim (err_message translated) = []
                         then api_error (''failed to parse upstream response: '' @ err)
                         else translated))"

text \<open>
  The frames of the keepalive body: white space is passed on until the document begins, the document
  is collected up to the limit and translated at the end. The result is the emitted heartbeat bytes
  and the final document.
\<close>

fun keepalive_frames ::
  "oai_ops \<Rightarrow> bool \<Rightarrow> string \<Rightarrow> (string + string) list \<Rightarrow> string list \<times> json" where
  "keepalive_frames ops include_reasoning final_body [] =
     ([], keepalive_document ops include_reasoning final_body)"
| "keepalive_frames ops include_reasoning final_body (Inr bytes # frames) =
     (if final_body = [] \<and> list_all is_ascii_whitespace bytes
      then apfst (Cons bytes) (keepalive_frames ops include_reasoning final_body frames)
      else if length final_body + length bytes > RESPONSE_BODY_LIMIT
      then ([], error_json (api_error (''upstream response exceeded '' @ show_nat RESPONSE_BODY_LIMIT
              @ '' byte limit'')))
      else keepalive_frames ops include_reasoning (final_body @ bytes) frames)"
| "keepalive_frames ops include_reasoning final_body (Inl e # frames) =
     ([], error_json (api_error (''failed to read upstream body: '' @ e)))"

definition to_openai_non_stream_keepalive ::
  "oai_ops \<Rightarrow> (string + string) list \<Rightarrow> bool \<Rightarrow> string list \<times> json" where
  "to_openai_non_stream_keepalive ops frames include_reasoning =
     keepalive_frames ops include_reasoning [] frames"

section \<open>Lemmas\<close>

lemma collect_parts_snoc:
  "collect_parts to_text r (bs @ [b]) = add_block to_text r b (collect_parts to_text r bs)"
  by (simp add: collect_parts_def)

lemma collect_parts_nil:
  "collect_parts to_text r [] = \<lparr>cp_content = [], cp_tool_calls = [], cp_reasoning = []\<rparr>"
  by (simp add: collect_parts_def)

text \<open>Within the range of \<open>u32\<close> the totals of a usage report add up.\<close>

lemma usage_out_exact:
  assumes "unat i + unat out + unat c + unat r < 2 ^ 32"
  shows "unat (total_tokens (usage_out i out c r)) = unat i + unat out + unat c + unat r"
  using assms by (simp add: usage_out_def Let_def unat_word_ariths)

text \<open>
  The keepalive body yields the same document as the plain translation of the whole body, whichever
  way the body is cut into frames, as long as it stays below the limit.
\<close>

lemma keepalive_frames_document:
  assumes "length final_body + length (concat frames) \<le> RESPONSE_BODY_LIMIT" "final_body \<noteq> []"
  shows "keepalive_frames ops r final_body (map Inr frames)
     = ([], keepalive_document ops r (final_body @ concat frames))"
  using assms by (induction frames arbitrary: final_body) simp_all

lemma keepalive_heartbeats:
  assumes "\<forall>h \<in> set beats. list_all is_ascii_whitespace h"
  shows "keepalive_frames ops r [] (map Inr beats @ frames)
     = apfst ((@) beats) (keepalive_frames ops r [] frames)"
  using assms by (induction beats) (simp_all add: apfst_def map_prod_def prod.case_eq_if)

lemma keepalive_same_document:
  assumes "\<forall>h \<in> set beats. list_all is_ascii_whitespace h"
    and "first \<noteq> []" "\<not> list_all is_ascii_whitespace first"
    and "length (concat (first # frames)) \<le> RESPONSE_BODY_LIMIT"
  shows "to_openai_non_stream_keepalive ops (map Inr (beats @ first # frames)) r
     = (beats, keepalive_document ops r (concat (first # frames)))"
  using assms keepalive_heartbeats [OF assms(1), of ops r "map Inr (first # frames)"]
    keepalive_frames_document [of first frames ops r]
  by (simp add: to_openai_non_stream_keepalive_def)

end
