(* ===== verification/Openai_Stream.thy ===== *)
theory Openai_Stream
  imports Openai_Response
begin

text \<open>
  The transformer of Messages stream events into chat completion chunks
  (\<open>src/src/middleware/openai/stream.rs\<close>): the state machine \<open>StreamState\<close> and the loop that drives it over
  the server-sent events. An \<open>Inl\<close> event is a transport error with its text; \<open>parse_event\<close> is the derived
  deserialisation of an event. The loop emits JSON documents; the final \<open>[DONE]\<close> is \<open>Done\<close>.
\<close>

section \<open>Chunks\<close>

record DeltaToolCall =
  dt_index :: nat
  dt_id :: "string option"
  dt_kind :: "string option"
  dt_name :: "string option"
  dt_arguments :: "string option"

record Delta =
  d_role :: "string option"
  d_content :: "string option"
  d_tool_calls :: "DeltaToolCall list option"
  d_reasoning_content :: "string option"

definition default_delta :: Delta where
  "default_delta = \<lparr>d_role = None, d_content = None, d_tool_calls = None, d_reasoning_content = None\<rparr>"

record StreamChoice =
  sc_index :: nat
  sc_delta :: Delta
  sc_finish_reason :: "string option"

record ChatCompletionChunk =
  ck_id :: string
  ck_object :: string
  ck_created :: i64
  ck_model :: string
  ck_choices :: "StreamChoice list"
  ck_usage :: "UsageOut option"

datatype (plugins only: code size) StreamPayload =
    Chunk ChatCompletionChunk
  | Payload_Error OpenAIErrorBody

definition delta_tool_call_json :: "DeltaToolCall \<Rightarrow> json" where
  "delta_tool_call_json c =
     JObj ([(''index'', JInt (int (dt_index c)))] @ opt_field ''id'' JStr (dt_id c)
       @ opt_field ''type'' JStr (dt_kind c)
       @ [(''function'', JObj (opt_field ''name'' JStr (dt_name c)
             @ opt_field ''arguments'' JStr (dt_arguments c)))])"

definition delta_json :: "Delta \<Rightarrow> json" where
  "delta_json d =
     JObj (opt_field ''role'' JStr (d_role d) @ opt_field ''content'' JStr (d_content d)
       @ opt_field ''tool_calls'' (\<lambda>cs. JArr (map delta_tool_call_json cs)) (d_tool_calls d)
       @ opt_field ''reasoning_content'' JStr (d_reasoning_content d))"

definition stream_choice_json :: "StreamChoice \<Rightarrow> json" where
  "stream_choice_json c =
     JObj ([(''index'', JInt (int (sc_index c))), (''delta'', delta_json (sc_delta c))]
       @ opt_field ''finish_reason'' JStr (sc_finish_reason c))"

fun payload_to_data :: "StreamPayload \<Rightarrow> json" where
  "payload_to_data (Chunk c) =
     JObj ([(''id'', JStr (ck_id c)), (''object'', JStr (ck_object c)), (''created'', JInt (ck_created c)),
            (''model'', JStr (ck_model c)), (''choices'', JArr (map stream_choice_json (ck_choices c)))]
       @ opt_field ''usage'' usage_json (ck_usage c))"
| "payload_to_data (Payload_Error e) = error_json e"

section \<open>State\<close>

datatype BlockKind = Kind_Text | Kind_Tool | Kind_Thinking | Kind_Other

record AccumulatedUsage =
  acc_input :: u32
  acc_output :: u32
  acc_creation :: u32
  acc_read :: u32

definition no_accumulated :: AccumulatedUsage where
  "no_accumulated = \<lparr>acc_input = 0, acc_output = 0, acc_creation = 0, acc_read = 0\<rparr>"

definition merge_cache :: "Usage \<Rightarrow> AccumulatedUsage \<Rightarrow> AccumulatedUsage" where
  "merge_cache u a =
     (let a' = (case cache_creation_input_tokens u of None \<Rightarrow> a | Some n \<Rightarrow> a\<lparr>acc_creation := n\<rparr>)
      in case cache_read_input_tokens u of None \<Rightarrow> a' | Some n \<Rightarrow> a'\<lparr>acc_read := n\<rparr>)"

definition merge_initial :: "Usage \<Rightarrow> AccumulatedUsage \<Rightarrow> AccumulatedUsage" where
  "merge_initial u a =
     (let a1 = (if input_tokens u > 0 then a\<lparr>acc_input := input_tokens u\<rparr> else a);
          a2 = (if output_tokens u > 0 then a1\<lparr>acc_output := output_tokens u\<rparr> else a1)
      in merge_cache u a2)"

definition merge_delta :: "Usage \<Rightarrow> AccumulatedUsage \<Rightarrow> AccumulatedUsage" where
  "merge_delta u a =
     (let a1 = a\<lparr>acc_output := output_tokens u\<rparr>;
          a2 = (if input_tokens u > 0 then a1\<lparr>acc_input := input_tokens u\<rparr> else a1)
      in merge_cache u a2)"

definition to_out :: "AccumulatedUsage \<Rightarrow> UsageOut" where
  "to_out a = usage_out (acc_input a) (acc_output a) (acc_creation a) (acc_read a)"

record StreamState =
  ss_id :: string
  ss_created :: i64
  ss_model :: string
  ss_block_kind :: "(nat, BlockKind) hash_map"
  ss_tool_sub_idx :: "(nat, nat) hash_map"
  ss_next_tool_idx :: nat
  ss_usage :: AccumulatedUsage
  ss_pending_finish_reason :: "string option"
  ss_role_chunk_sent :: bool
  ss_finished :: bool
  ss_seen_usage :: bool

definition new_stream_state :: "string \<Rightarrow> i64 \<Rightarrow> string \<Rightarrow> StreamState" where
  "new_stream_state fresh now request_model =
     \<lparr>ss_id = ''chatcmpl-'' @ fresh, ss_created = now, ss_model = request_model, ss_block_kind = [],
      ss_tool_sub_idx = [], ss_next_tool_idx = 0, ss_usage = no_accumulated,
      ss_pending_finish_reason = None, ss_role_chunk_sent = False, ss_finished = False,
      ss_seen_usage = False\<rparr>"

definition chunk_with_choice :: "StreamState \<Rightarrow> Delta \<Rightarrow> string option \<Rightarrow> ChatCompletionChunk" where
  "chunk_with_choice st delta finish_reason =
     \<lparr>ck_id = ss_id st, ck_object = ''chat.completion.chunk'', ck_created = ss_created st,
      ck_model = ss_model st,
      ck_choices = [\<lparr>sc_index = 0, sc_delta = delta, sc_finish_reason = finish_reason\<rparr>],
      ck_usage = None\<rparr>"

definition chunk_usage_only :: "StreamState \<Rightarrow> ChatCompletionChunk" where
  "chunk_usage_only st =
     \<lparr>ck_id = ss_id st, ck_object = ''chat.completion.chunk'', ck_created = ss_created st,
      ck_model = ss_model st, ck_choices = [], ck_usage = Some (to_out (ss_usage st))\<rparr>"

definition map_terminal_finish :: "StreamState \<Rightarrow> string" where
  "map_terminal_finish st =
     (case ss_pending_finish_reason st of
        Some r \<Rightarrow> r
      | None \<Rightarrow> map_stop_reason None (ss_next_tool_idx st > 0))"

section \<open>Events\<close>

definition set_kind :: "nat \<Rightarrow> BlockKind \<Rightarrow> StreamState \<Rightarrow> StreamState" where
  "set_kind index k st = st\<lparr>ss_block_kind := hm_insert index k (ss_block_kind st)\<rparr>"

definition delta_payload :: "StreamState \<Rightarrow> Delta \<Rightarrow> StreamPayload" where
  "delta_payload st delta = Chunk (chunk_with_choice st delta None)"

definition message_start :: "CreateMessageResponse \<Rightarrow> StreamState \<Rightarrow> StreamState \<times> StreamPayload list" where
  "message_start m st =
     (let st1 = (if resp_model m \<noteq> [] then st\<lparr>ss_model := resp_model m\<rparr> else st);
          st2 = (case resp_usage m of
                   None \<Rightarrow> st1
                 | Some u \<Rightarrow> st1\<lparr>ss_usage := merge_initial u (ss_usage st1), ss_seen_usage := True\<rparr>)
      in if ss_role_chunk_sent st2 then (st2, [])
         else let st3 = st2\<lparr>ss_role_chunk_sent := True\<rparr>
              in (st3, [delta_payload st3 (default_delta\<lparr>d_role := Some ''assistant''\<rparr>)]))"

fun block_start :: "nat \<Rightarrow> ContentBlock \<Rightarrow> StreamState \<Rightarrow> StreamState \<times> StreamPayload list" where
  "block_start index (Text _ _ _) st = (set_kind index Kind_Text st, [])"
| "block_start index (ToolUse ident name _ _ _) st =
     (let sub_idx = ss_next_tool_idx st;
          st' = (set_kind index Kind_Tool st)\<lparr>ss_next_tool_idx := sub_idx + 1,
                  ss_tool_sub_idx := hm_insert index sub_idx (ss_tool_sub_idx st)\<rparr>
      in (st', [delta_payload st' (default_delta\<lparr>d_tool_calls :=
            Some [\<lparr>dt_index = sub_idx, dt_id = Some ident, dt_kind = Some ''function'',
                   dt_name = Some name, dt_arguments = Some []\<rparr>]\<rparr>)]))"
| "block_start index (ThinkingBlock _ _) st = (set_kind index Kind_Thinking st, [])"
| "block_start index (Fallback details) st =
     (set_kind index Kind_Other (case fallback_target_model (Fallback details) of
        None \<Rightarrow> st | Some m \<Rightarrow> st\<lparr>ss_model := m\<rparr>), [])"
| "block_start index _ st = (set_kind index Kind_Other st, [])"

definition kind_of :: "StreamState \<Rightarrow> nat \<Rightarrow> BlockKind" where
  "kind_of st index = (case hm_get (ss_block_kind st) index of None \<Rightarrow> Kind_Other | Some k \<Rightarrow> k)"

definition delta_chunks :: "bool \<Rightarrow> nat \<Rightarrow> ContentBlockDelta \<Rightarrow> StreamState \<Rightarrow> StreamPayload list" where
  "delta_chunks include_reasoning index delta st =
     (case (kind_of st index, delta) of
        (Kind_Text, TextDelta t) \<Rightarrow> [delta_payload st (default_delta\<lparr>d_content := Some t\<rparr>)]
      | (Kind_Tool, InputJsonDelta partial) \<Rightarrow>
          (case hm_get (ss_tool_sub_idx st) index of
             None \<Rightarrow> []
           | Some sub_idx \<Rightarrow> [delta_payload st (default_delta\<lparr>d_tool_calls :=
               Some [\<lparr>dt_index = sub_idx, dt_id = None, dt_kind = None, dt_name = None,
                      dt_arguments = Some partial\<rparr>]\<rparr>)])
      | (Kind_Thinking, ThinkingDelta t) \<Rightarrow>
          (if include_reasoning then [delta_payload st (default_delta\<lparr>d_reasoning_content := Some t\<rparr>)]
           else [])
      | _ \<Rightarrow> [])"

definition message_delta :: "StopReason option \<Rightarrow> Usage option \<Rightarrow> StreamState \<Rightarrow> StreamState" where
  "message_delta stop usage st =
     (let st1 = (case stop of
            None \<Rightarrow> st
          | Some _ \<Rightarrow> st\<lparr>ss_pending_finish_reason :=
              Some (map_stop_reason stop (ss_next_tool_idx st > 0))\<rparr>)
      in case usage of
           None \<Rightarrow> st1
         | Some u \<Rightarrow> st1\<lparr>ss_usage := merge_delta u (ss_usage st1), ss_seen_usage := True\<rparr>)"

text \<open>The terminal chunks, shared by \<open>MessageStop\<close> and \<open>finalize\<close>.\<close>

definition terminate :: "bool \<Rightarrow> StreamState \<Rightarrow> StreamState \<times> StreamPayload list" where
  "terminate include_usage st =
     (st\<lparr>ss_finished := True\<rparr>,
      Chunk (chunk_with_choice st default_delta (Some (map_terminal_finish st)))
        # (if include_usage \<and> ss_seen_usage st then [Chunk (chunk_usage_only st)] else []))"

fun process_event ::
  "bool \<Rightarrow> bool \<Rightarrow> StreamEvent \<Rightarrow> StreamState \<Rightarrow> StreamState \<times> StreamPayload list" where
  "process_event include_reasoning include_usage (MessageStart m) st = message_start m st"
| "process_event include_reasoning include_usage (ContentBlockStart index b) st = block_start index b st"
| "process_event include_reasoning include_usage (ContentBlockDelta index d) st =
     (st, delta_chunks include_reasoning index d st)"
| "process_event include_reasoning include_usage (ContentBlockStop index) st = (st, [])"
| "process_event include_reasoning include_usage (MessageDelta stop ss usage) st =
     (message_delta stop usage st, [])"
| "process_event include_reasoning include_usage MessageStop st = terminate include_usage st"
| "process_event include_reasoning include_usage Ping st = (st, [])"
| "process_event include_reasoning include_usage (StreamError kind msg) st =
     (st\<lparr>ss_finished := True\<rparr>,
      [Payload_Error \<lparr>err_message = msg, err_kind = anthropic_type_to_oai kind, err_code = None,
                      err_param = None\<rparr>])"

definition stream_process ::
  "bool \<Rightarrow> bool \<Rightarrow> StreamEvent \<Rightarrow> StreamState \<Rightarrow> StreamState \<times> StreamPayload list" where
  "stream_process include_reasoning include_usage event st =
     (if ss_finished st then (st, []) else process_event include_reasoning include_usage event st)"

definition stream_finalize :: "bool \<Rightarrow> StreamState \<Rightarrow> StreamState \<times> StreamPayload list" where
  "stream_finalize include_usage st = (if ss_finished st then (st, []) else terminate include_usage st)"

section \<open>The driver\<close>

text \<open>
  The loop over the events, with the payloads it emits; \<open>finalize\<close> runs after the loop unless the
  transport failed.
\<close>

definition upstream_stream_error :: "string \<Rightarrow> OpenAIErrorBody" where
  "upstream_stream_error e =
     \<lparr>err_message = ''upstream stream error: '' @ e, err_kind = ''upstream_error'', err_code = None,
      err_param = None\<rparr>"

fun drive ::
  "(string \<Rightarrow> StreamEvent option) \<Rightarrow> bool \<Rightarrow> bool \<Rightarrow> StreamState \<Rightarrow> (string + string) list \<Rightarrow> StreamPayload list"
where
  "drive parse_event include_reasoning include_usage st [] = snd (stream_finalize include_usage st)"
| "drive parse_event include_reasoning include_usage st (Inl e # items) =
     [Payload_Error (upstream_stream_error e)]"
| "drive parse_event include_reasoning include_usage st (Inr data # items) =
     (if data = ''[DONE]'' then drive parse_event include_reasoning include_usage st items
      else case parse_event data of
             None \<Rightarrow> drive parse_event include_reasoning include_usage st items
           | Some event \<Rightarrow>
               (case stream_process include_reasoning include_usage event st of
                  (st', out) \<Rightarrow>
                    out @ (if ss_finished st' then snd (stream_finalize include_usage st')
                           else drive parse_event include_reasoning include_usage st' items)))"

datatype (plugins only: code size) sse = Data json | Done

definition to_openai_stream ::
  "oai_ops \<Rightarrow> (string \<Rightarrow> StreamEvent option) \<Rightarrow> nat \<Rightarrow> string \<Rightarrow> (string + string) list \<Rightarrow> bool \<Rightarrow> bool
     \<Rightarrow> string \<Rightarrow> sse list" where
  "to_openai_stream ops parse_event status error_bytes items include_reasoning include_usage request_model =
     (if \<not> is_success status
      then [Data (error_json (translate_upstream_error_body (oo_to_text ops) (oo_from_slice ops)
              (oo_lossy ops) error_bytes)), Done]
      else map (Data \<circ> payload_to_data)
             (drive parse_event include_reasoning include_usage
                (new_stream_state (oo_fresh ops) (oo_now ops) request_model) items) @ [Done])"

end
