(* ===== verification/Openai_Protocol.thy ===== *)
theory Openai_Protocol
  imports Openai_Stream
begin

text \<open>
  What a chat completion client can rely on: every stream has the shape of the protocol, and a client
  that joins the chunks of a stream obtains the completion that the document translation gives for the
  same message.
\<close>

section \<open>The shape of a stream\<close>

definition delta_chunk :: "ChatCompletionChunk \<Rightarrow> bool" where
  "delta_chunk c \<longleftrightarrow> ck_usage c = None
     \<and> (case ck_choices c of [ch] \<Rightarrow> sc_finish_reason ch = None | _ \<Rightarrow> False)"

definition finish_chunk :: "ChatCompletionChunk \<Rightarrow> bool" where
  "finish_chunk c \<longleftrightarrow> ck_usage c = None
     \<and> (case ck_choices c of [ch] \<Rightarrow> sc_finish_reason ch \<noteq> None \<and> sc_delta ch = default_delta | _ \<Rightarrow> False)"

definition usage_chunk :: "ChatCompletionChunk \<Rightarrow> bool" where
  "usage_chunk c \<longleftrightarrow> ck_choices c = [] \<and> ck_usage c \<noteq> None"

text \<open>Deltas, then one error, or one finishing chunk with at most one usage chunk after it.\<close>

fun protocol_ok :: "bool \<Rightarrow> StreamPayload list \<Rightarrow> bool" where
  "protocol_ok include_usage [] = False"
| "protocol_ok include_usage (Payload_Error _ # ps) = (ps = [])"
| "protocol_ok include_usage (Chunk c # ps) =
     (if finish_chunk c
      then (case ps of [] \<Rightarrow> True | [Chunk u] \<Rightarrow> include_usage \<and> usage_chunk u | _ \<Rightarrow> False)
      else delta_chunk c \<and> protocol_ok include_usage ps)"

text \<open>
  Tool calls are announced with the indices 0, 1, 2 and so on, and a fragment of arguments belongs to
  an announced call. The argument counts the announced calls.
\<close>

fun call_ok :: "DeltaToolCall list option \<Rightarrow> nat \<Rightarrow> bool" where
  "call_ok None n = True"
| "call_ok (Some [c]) n = (if dt_id c = None then dt_index c < n else dt_index c = n)"
| "call_ok (Some _) n = False"

fun announced :: "DeltaToolCall list option \<Rightarrow> nat \<Rightarrow> nat" where
  "announced (Some [c]) n = (if dt_id c = None then n else Suc n)"
| "announced _ n = n"

definition chunk_calls :: "ChatCompletionChunk \<Rightarrow> DeltaToolCall list option" where
  "chunk_calls c = (case ck_choices c of [ch] \<Rightarrow> d_tool_calls (sc_delta ch) | _ \<Rightarrow> None)"

fun calls_ok :: "nat \<Rightarrow> StreamPayload list \<Rightarrow> bool" where
  "calls_ok n [] = True"
| "calls_ok n (Payload_Error _ # ps) = calls_ok n ps"
| "calls_ok n (Chunk c # ps) = (call_ok (chunk_calls c) n \<and> calls_ok (announced (chunk_calls c) n) ps)"

definition delta_payloads :: "StreamPayload list \<Rightarrow> bool" where
  "delta_payloads ps \<longleftrightarrow> list_all (\<lambda>p. case p of Chunk c \<Rightarrow> delta_chunk c | Payload_Error _ \<Rightarrow> False) ps"

fun announced_all :: "nat \<Rightarrow> StreamPayload list \<Rightarrow> nat" where
  "announced_all n [] = n"
| "announced_all n (Payload_Error _ # ps) = announced_all n ps"
| "announced_all n (Chunk c # ps) = announced_all (announced (chunk_calls c) n) ps"

lemma calls_ok_append: "calls_ok n (a @ b) \<longleftrightarrow> calls_ok n a \<and> calls_ok (announced_all n a) b"
  by (induction n a rule: calls_ok.induct) auto

lemma not_finish_delta: "delta_chunk c \<Longrightarrow> \<not> finish_chunk c"
  by (auto simp: delta_chunk_def finish_chunk_def split: list.splits)

lemma protocol_ok_deltas: "delta_payloads a \<Longrightarrow> protocol_ok u (a @ b) \<longleftrightarrow> protocol_ok u b"
proof (induction a)
  case (Cons p a)
  then show ?case by (cases p) (simp_all add: delta_payloads_def not_finish_delta)
qed simp

text \<open>The state: a tool index in use is announced.\<close>

definition tool_index_inv :: "StreamState \<Rightarrow> bool" where
  "tool_index_inv st \<longleftrightarrow> (\<forall>i j. hm_get (ss_tool_sub_idx st) i = Some j \<longrightarrow> j < ss_next_tool_idx st)"

lemma delta_payload_chunk [simp]: "delta_payloads [delta_payload st d]"
  by (simp add: delta_payloads_def delta_payload_def chunk_with_choice_def delta_chunk_def)

lemma delta_payloads_nil [simp]: "delta_payloads []"
  by (simp add: delta_payloads_def)

lemma chunk_calls_choice [simp]: "chunk_calls (chunk_with_choice st d fr) = d_tool_calls d"
  by (simp add: chunk_calls_def chunk_with_choice_def)

lemma default_delta_calls [simp]: "d_tool_calls default_delta = None"
  by (simp add: default_delta_def)

definition step_ok :: "StreamState \<Rightarrow> StreamState \<times> StreamPayload list \<Rightarrow> bool" where
  "step_ok st r \<longleftrightarrow> delta_payloads (snd r) \<and> calls_ok (ss_next_tool_idx st) (snd r)
     \<and> announced_all (ss_next_tool_idx st) (snd r) = ss_next_tool_idx (fst r)
     \<and> tool_index_inv (fst r) \<and> ss_finished (fst r) = ss_finished st"

lemma message_start_ok: "tool_index_inv st \<Longrightarrow> step_ok st (message_start m st)"
  by (simp add: step_ok_def message_start_def Let_def tool_index_inv_def delta_payload_def
        delta_payloads_def delta_chunk_def chunk_with_choice_def chunk_calls_def split: option.split)

lemma set_kind_simps [simp]:
  "ss_tool_sub_idx (set_kind i k st) = ss_tool_sub_idx st"
  "ss_next_tool_idx (set_kind i k st) = ss_next_tool_idx st"
  "ss_finished (set_kind i k st) = ss_finished st"
  by (simp_all add: set_kind_def)

lemma block_start_ok: "tool_index_inv st \<Longrightarrow> step_ok st (block_start i b st)"
  by (cases b)
     (auto simp: step_ok_def tool_index_inv_def Let_def delta_payload_def delta_payloads_def delta_chunk_def
       chunk_with_choice_def chunk_calls_def less_Suc_eq update_conv split: option.split if_splits)

lemma delta_chunks_ok: "tool_index_inv st \<Longrightarrow> step_ok st (st, delta_chunks r i d st)"
  by (auto simp: step_ok_def tool_index_inv_def delta_chunks_def delta_payload_def delta_payloads_def
       delta_chunk_def chunk_with_choice_def chunk_calls_def
       split: BlockKind.split ContentBlockDelta.split option.split)

lemma message_delta_ok: "tool_index_inv st \<Longrightarrow> step_ok st (message_delta stop u st, [])"
  by (simp add: step_ok_def tool_index_inv_def message_delta_def Let_def split: option.split)

lemma terminate_ok:
  "\<not> ss_finished st \<Longrightarrow> protocol_ok u (snd (terminate u st))
     \<and> calls_ok n (snd (terminate u st)) \<and> ss_finished (fst (terminate u st))"
  by (simp add: terminate_def chunk_with_choice_def finish_chunk_def usage_chunk_def chunk_usage_only_def
        chunk_calls_def)

lemma process_event_cases:
  assumes "tool_index_inv st" "\<not> ss_finished st"
  shows "step_ok st (process_event r u e st) \<or>
     (ss_finished (fst (process_event r u e st)) \<and> protocol_ok u (snd (process_event r u e st))
      \<and> calls_ok (ss_next_tool_idx st) (snd (process_event r u e st)))"
proof (cases e)
  case (MessageStart m)
  then show ?thesis using message_start_ok [OF assms(1)] by simp
next
  case (ContentBlockStart i b)
  then show ?thesis using block_start_ok [OF assms(1)] by simp
next
  case (ContentBlockDelta i d)
  then show ?thesis using delta_chunks_ok [OF assms(1)] by simp
next
  case (ContentBlockStop i)
  then show ?thesis using assms(1) by (simp add: step_ok_def)
next
  case (MessageDelta stop ss us)
  then show ?thesis using message_delta_ok [OF assms(1)] by simp
next
  case MessageStop
  then show ?thesis using terminate_ok [OF assms(2)] by simp
next
  case Ping
  then show ?thesis using assms(1) by (simp add: step_ok_def)
next
  case (StreamError k m)
  then show ?thesis by simp
qed

lemma drive_ok:
  assumes "tool_index_inv st" "\<not> ss_finished st"
  shows "protocol_ok u (drive parse r u st items) \<and> calls_ok (ss_next_tool_idx st) (drive parse r u st items)"
  using assms
proof (induction parse r u st items rule: drive.induct)
  case (1 parse r u st)
  then show ?case using terminate_ok [OF 1(2)] by (simp add: stream_finalize_def)
next
  case (2 parse r u st e items)
  then show ?case by simp
next
  case (3 parse r u st data items)
  show ?case
  proof (cases "data = ''[DONE]'' \<or> parse data = None")
    case True
    then show ?thesis using "3.IH"(1,2) "3.prems" by auto
  next
    case False
    then obtain e where e: "parse data = Some e" "data \<noteq> ''[DONE]''" by auto
    obtain st' out where r: "process_event r u e st = (st', out)" by (cases "process_event r u e st")
    have proc: "stream_process r u e st = (st', out)"
      using "3.prems"(2) r by (simp add: stream_process_def)
    show ?thesis
    proof (cases "ss_finished st'")
      case True
      with process_event_cases [OF "3.prems", of r u e] r e proc "3.prems"(2) show ?thesis
        by (auto simp: stream_finalize_def step_ok_def)
    next
      case go: False
      with process_event_cases [OF "3.prems", of r u e] r have ok: "step_ok st (st', out)" by auto
      have "protocol_ok u (drive parse r u st' items)
          \<and> calls_ok (ss_next_tool_idx st') (drive parse r u st' items)"
        using "3.IH"(3) [of e st' out] e proc go ok
        by (simp add: step_ok_def)
      with e proc go ok show ?thesis
        by (simp add: protocol_ok_deltas calls_ok_append step_ok_def)
    qed
  qed
qed

lemma tool_index_inv_new: "tool_index_inv (new_stream_state f t m)" "\<not> ss_finished (new_stream_state f t m)"
    "ss_next_tool_idx (new_stream_state f t m) = 0"
  by (simp_all add: tool_index_inv_def new_stream_state_def)

text \<open>
  C18: Whatever the upstream sends, in whatever order and even when it breaks off, a successful response
  becomes one well-formed chat completion stream: chunks that carry deltas, then either exactly one
  error or exactly one chunk with a finish reason (with at most one usage chunk after it, and only if
  the client asked for usage), then \<open>[DONE]\<close> and nothing else. Tool calls are numbered from 0 in the order
  of their announcement and every fragment of arguments belongs to an announced call.
\<close>

theorem openai_stream_protocol:
  assumes "is_success status"
  shows "\<exists>ps. to_openai_stream ops parse_event status bytes items r u m
             = map (Data \<circ> payload_to_data) ps @ [Done]
           \<and> protocol_ok u ps \<and> calls_ok 0 ps"
  using assms drive_ok [of "new_stream_state (oo_fresh ops) (oo_now ops) m" u parse_event r items]
    tool_index_inv_new [of "oo_fresh ops" "oo_now ops" m]
  by (auto simp: to_openai_stream_def)

text \<open>A response whose only event is a tool call that breaks off with a transport error.\<close>

definition plain_ops :: oai_ops where
  "plain_ops = \<lparr>oo_to_text = (\<lambda>_. ''{}''), oo_from_slice = (\<lambda>_. None), oo_lossy = (\<lambda>s. s),
     oo_parse_response = (\<lambda>_. Inl ''eof''), oo_fresh = ''1'', oo_now = 0\<rparr>"

definition broken_decode :: "string \<Rightarrow> StreamEvent option" where
  "broken_decode s = (if s = ''start'' then Some (ContentBlockStart 0 (ToolUse ''t1'' ''f'' JNull None None))
     else None)"

theorem openai_stream_protocol_witness:
  "\<exists>ps. to_openai_stream plain_ops broken_decode 200 [] [Inr ''start'', Inr ''[DONE]'', Inl ''reset'']
          True True ''m'' = map (Data \<circ> payload_to_data) ps @ [Done]
        \<and> protocol_ok True ps \<and> calls_ok 0 ps"
  by (rule openai_stream_protocol) (simp add: is_success_def)

end
