(* ===== verification/Openai_Client.thy ===== *)
theory Openai_Client
  imports Openai_Protocol
begin

text \<open>
  Streams and documents agree: a client that joins the deltas of a chat completion stream ends with
  the choice that the document translation computes from the message the same events describe.
\<close>

section \<open>The client\<close>

text \<open>A client keeps the joined deltas, the role and the finish reason.\<close>

record client =
  cl_parts :: completion_parts
  cl_role :: "string option"
  cl_finish :: "string option"

definition new_client :: client where
  "new_client = \<lparr>cl_parts = \<lparr>cp_content = [], cp_tool_calls = [], cp_reasoning = []\<rparr>,
     cl_role = None, cl_finish = None\<rparr>"

definition opt_text :: "string option \<Rightarrow> string" where
  "opt_text t = (case t of None \<Rightarrow> [] | Some s \<Rightarrow> s)"

definition join_call :: "DeltaToolCall \<Rightarrow> ToolCall list \<Rightarrow> ToolCall list" where
  "join_call d calls =
     (if dt_id d \<noteq> None
      then calls @ [\<lparr>tc_id = dt_id d, tc_kind = dt_kind d, tc_name = opt_text (dt_name d),
                     tc_arguments = opt_text (dt_arguments d)\<rparr>]
      else let c = calls ! dt_index d
           in calls[dt_index d := c\<lparr>tc_arguments := tc_arguments c @ opt_text (dt_arguments d)\<rparr>])"

definition join_delta :: "Delta \<Rightarrow> completion_parts \<Rightarrow> completion_parts" where
  "join_delta d p =
     p\<lparr>cp_content := cp_content p @ opt_text (d_content d),
       cp_tool_calls := fold join_call (case d_tool_calls d of None \<Rightarrow> [] | Some cs \<Rightarrow> cs) (cp_tool_calls p),
       cp_reasoning := cp_reasoning p @ opt_text (d_reasoning_content d)\<rparr>"

definition join_choice :: "StreamChoice \<Rightarrow> client \<Rightarrow> client" where
  "join_choice ch cl =
     cl\<lparr>cl_parts := join_delta (sc_delta ch) (cl_parts cl),
        cl_role := (case d_role (sc_delta ch) of None \<Rightarrow> cl_role cl | Some r \<Rightarrow> Some r),
        cl_finish := (case sc_finish_reason ch of None \<Rightarrow> cl_finish cl | Some f \<Rightarrow> Some f)\<rparr>"

fun join_payload :: "StreamPayload \<Rightarrow> client \<Rightarrow> client" where
  "join_payload (Chunk c) cl = fold join_choice (ck_choices c) cl"
| "join_payload (Payload_Error _) cl = cl"

definition client_choice :: "client \<Rightarrow> Choice" where
  "client_choice cl =
     \<lparr>ch_index = 0,
      ch_message = \<lparr>am_role = opt_text (cl_role cl), am_content = then_some (cp_content (cl_parts cl)),
        am_tool_calls = then_some (cp_tool_calls (cl_parts cl)),
        am_reasoning_content = then_some (cp_reasoning (cl_parts cl))\<rparr>,
      ch_finish_reason = opt_text (cl_finish cl), ch_logprobs = JNull\<rparr>"

section \<open>The message of a stream\<close>

text \<open>
  The document that the block events of a stream describe. The input of a tool block is kept as the
  text received so far, which \<open>raw_text\<close> reads back.
\<close>

fun open_block :: "ContentBlock \<Rightarrow> ContentBlock" where
  "open_block (ToolUse ident n _ cc caller) = ToolUse ident n (JStr []) cc caller"
| "open_block b = b"

fun extend_block :: "ContentBlockDelta \<Rightarrow> ContentBlock \<Rightarrow> ContentBlock" where
  "extend_block (TextDelta t) (Text s cc cits) = Text (s @ t) cc cits"
| "extend_block (InputJsonDelta p) (ToolUse ident n (JStr s) cc caller) = ToolUse ident n (JStr (s @ p)) cc caller"
| "extend_block (ThinkingDelta t) (ThinkingBlock sig s) = ThinkingBlock sig (s @ t)"
| "extend_block (SignatureDelta s) (ThinkingBlock sig t) = ThinkingBlock (sig @ s) t"
| "extend_block _ b = b"

fun describe :: "StreamEvent \<Rightarrow> ContentBlock list \<Rightarrow> ContentBlock list" where
  "describe (ContentBlockStart _ b) doc = doc @ [open_block b]"
| "describe (ContentBlockDelta i d) doc = doc[i := extend_block d (doc ! i)]"
| "describe _ doc = doc"

definition described :: "StreamEvent list \<Rightarrow> ContentBlock list" where
  "described es = fold describe es []"

fun raw_text :: "json \<Rightarrow> string" where
  "raw_text (JStr s) = s"
| "raw_text _ = []"

text \<open>The block events of an orderly upstream: blocks start empty, one after the other.\<close>

fun starts_empty :: "ContentBlock \<Rightarrow> bool" where
  "starts_empty (Text t _ _) = (t = [])"
| "starts_empty (ThinkingBlock _ t) = (t = [])"
| "starts_empty _ = True"

fun orderly :: "nat \<Rightarrow> StreamEvent list \<Rightarrow> bool" where
  "orderly n [] = True"
| "orderly n (ContentBlockStart i b # es) = (i = n \<and> starts_empty b \<and> orderly (Suc n) es)"
| "orderly n (ContentBlockDelta i d # es) = (Suc i = n \<and> orderly n es)"
| "orderly n (ContentBlockStop i # es) = orderly n es"
| "orderly n (Ping # es) = orderly n es"
| "orderly n (_ # es) = False"

section \<open>Agreement on the block events\<close>

fun block_kind :: "ContentBlock \<Rightarrow> BlockKind" where
  "block_kind (Text _ _ _) = Kind_Text"
| "block_kind (ToolUse _ _ _ _ _) = Kind_Tool"
| "block_kind (ThinkingBlock _ _) = Kind_Thinking"
| "block_kind _ = Kind_Other"

definition tool_count :: "ContentBlock list \<Rightarrow> nat" where
  "tool_count doc = length (filter (\<lambda>b. block_kind b = Kind_Tool) doc)"

text \<open>
  The transformer knows the number of tool blocks and, for the last block, its kind and its tool
  number; the client has the parts of the document.
\<close>

definition agrees :: "bool \<Rightarrow> StreamState \<Rightarrow> client \<Rightarrow> ContentBlock list \<Rightarrow> bool" where
  "agrees r st cl doc \<longleftrightarrow>
     ss_next_tool_idx st = tool_count doc
     \<and> (doc \<noteq> [] \<longrightarrow> kind_of st (length doc - 1) = block_kind (last doc)
          \<and> (block_kind (last doc) = Kind_Tool
               \<longrightarrow> hm_get (ss_tool_sub_idx st) (length doc - 1) = Some (tool_count doc - 1)
                   \<and> (\<exists>ident n s cc ca. last doc = ToolUse ident n (JStr s) cc ca)))
     \<and> cl_parts cl = collect_parts raw_text r doc"

lemma collect_calls_count: "length (cp_tool_calls (collect_parts f r doc)) = tool_count doc"
proof (induction doc rule: rev_induct)
  case (snoc b doc)
  then show ?case by (cases b) (auto simp: collect_parts_snoc tool_count_def)
qed (simp add: collect_parts_nil tool_count_def)

lemma join_payload_delta [simp]:
  "join_payload (delta_payload st d) cl =
     cl\<lparr>cl_parts := join_delta d (cl_parts cl),
        cl_role := (case d_role d of None \<Rightarrow> cl_role cl | Some r \<Rightarrow> Some r)\<rparr>"
  by (simp add: delta_payload_def chunk_with_choice_def join_choice_def)

lemma tool_count_snoc [simp]:
  "tool_count (doc @ [b]) = tool_count doc + (if block_kind b = Kind_Tool then 1 else 0)"
  by (simp add: tool_count_def)

lemma kind_of_simps [simp]:
  "kind_of (set_kind i k st) i = k"
  "kind_of (st\<lparr>ss_next_tool_idx := n, ss_tool_sub_idx := t\<rparr>) i = kind_of st i"
  by (simp_all add: kind_of_def set_kind_def update_conv)

lemma agrees_start:
  assumes "agrees r st cl doc" "starts_empty b"
  shows "agrees r (fst (block_start (length doc) b st))
     (fold join_payload (snd (block_start (length doc) b st)) cl) (doc @ [open_block b])"
  using assms
  by (cases b)
     (simp_all add: agrees_def collect_parts_snoc Let_def join_delta_def join_call_def default_delta_def
       opt_text_def update_conv split: option.split)

lemma extend_kind [simp]: "block_kind (extend_block d b) = block_kind b"
  by (cases "(d, b)" rule: extend_block.cases) simp_all

lemma agrees_extend:
  assumes a: "agrees r st cl (doc @ [b])"
    and tool: "\<And>ident n s cc ca. b = ToolUse ident n (JStr s) cc ca
      \<Longrightarrow> \<exists>s'. extend_block d b = ToolUse ident n (JStr s') cc ca"
    and parts: "cl_parts cl' = collect_parts raw_text r (doc @ [extend_block d b])"
  shows "agrees r st cl' (doc @ [extend_block d b])"
  using a parts tool unfolding agrees_def by fastforce

lemma extend_tool:
  "\<exists>s'. extend_block d (ToolUse ident n (JStr s) cc ca) = ToolUse ident n (JStr s') cc ca"
  by (cases d) simp_all

lemma agrees_unchanged:
  assumes "agrees r st cl (doc @ [b])" "extend_block d b = b" "delta_chunks r (length doc) d st = []"
  shows "agrees r st (fold join_payload (delta_chunks r (length doc) d st) cl) (doc @ [extend_block d b])"
  using assms by simp

lemma agrees_delta:
  assumes a: "agrees r st cl (doc @ [b])"
  shows "agrees r st (fold join_payload (delta_chunks r (length doc) d st) cl) (doc @ [extend_block d b])"
proof -
  have kind: "kind_of st (length doc) = block_kind b"
    and parts: "cl_parts cl = collect_parts raw_text r (doc @ [b])"
    and tool: "block_kind b = Kind_Tool \<Longrightarrow> hm_get (ss_tool_sub_idx st) (length doc) = Some (tool_count doc)"
      "block_kind b = Kind_Tool \<Longrightarrow> \<exists>ident n s cc ca. b = ToolUse ident n (JStr s) cc ca"
    using a by (auto simp: agrees_def)
  have "cl_parts (fold join_payload (delta_chunks r (length doc) d st) cl)
      = collect_parts raw_text r (doc @ [extend_block d b])"
  proof (cases "block_kind b")
    case Kind_Text
    then obtain t cc ci where "b = Text t cc ci" by (cases b) simp_all
    with kind parts show ?thesis
      by (cases d) (simp_all add: delta_chunks_def collect_parts_snoc join_delta_def default_delta_def
        opt_text_def)
  next
    case Kind_Tool
    then obtain ident n s cc ca where b: "b = ToolUse ident n (JStr s) cc ca"
      using tool(2) by blast
    with kind parts tool(1) show ?thesis
      by (cases d) (simp_all add: delta_chunks_def collect_parts_snoc join_delta_def default_delta_def
        opt_text_def join_call_def Let_def nth_append list_update_append
        collect_calls_count [of raw_text r doc, symmetric])
  next
    case Kind_Thinking
    then obtain sig t where "b = ThinkingBlock sig t" by (cases b) simp_all
    with kind parts show ?thesis
      by (cases d) (simp_all add: delta_chunks_def collect_parts_snoc join_delta_def default_delta_def
        opt_text_def)
  next
    case Kind_Other
    then have "extend_block d b = b" by (cases d; cases b) simp_all
    with Kind_Other kind parts show ?thesis by (simp add: delta_chunks_def)
  qed
  from agrees_extend [OF a _ this] extend_tool show ?thesis by blast
qed

text \<open>The chunks of the block events leave the role and the finish reason of the client alone.\<close>

definition frame :: "client \<Rightarrow> client \<Rightarrow> bool" where
  "frame cl cl' \<longleftrightarrow> cl_role cl' = cl_role cl \<and> cl_finish cl' = cl_finish cl"

lemma frame_refl [simp]: "frame cl cl"
  by (simp add: frame_def)

lemma frame_start: "frame cl (fold join_payload (snd (block_start i b st)) cl)"
  by (cases b) (simp_all add: frame_def Let_def default_delta_def)

lemma frame_delta: "frame cl (fold join_payload (delta_chunks r i d st) cl)"
  by (simp add: delta_chunks_def frame_def default_delta_def
        split: BlockKind.split ContentBlockDelta.split option.split)

definition running :: "StreamState \<Rightarrow> bool" where
  "running st \<longleftrightarrow> \<not> ss_finished st \<and> ss_pending_finish_reason st = None"

lemma running_start [simp]: "running (fst (block_start i b st)) = running st"
  by (cases b) (simp_all add: running_def Let_def set_kind_def split: option.split)

lemma agrees_event:
  assumes "orderly (length doc) (e # es)" "running st" "agrees r st cl doc"
    and "process_event r u e st = (st', out)"
  shows "orderly (length (describe e doc)) es \<and> running st'
     \<and> agrees r st' (fold join_payload out cl) (describe e doc) \<and> frame cl (fold join_payload out cl)"
proof (cases e)
  case (ContentBlockStart i b)
  then have "st' = fst (block_start i b st)" "out = snd (block_start i b st)" "i = length doc"
    using assms(1,4) by (simp_all add: prod_eq_iff)
  with assms ContentBlockStart show ?thesis
    using agrees_start [OF assms(3), of b] frame_start [of cl i b st] by simp
next
  case (ContentBlockDelta i d)
  obtain pre b where doc: "doc = pre @ [b]" "i = length pre"
    using assms(1) ContentBlockDelta by (cases doc rule: rev_cases) auto
  with assms ContentBlockDelta show ?thesis
    using agrees_delta [of r st cl pre b d] frame_delta [of cl r i d st] by auto
qed (use assms in auto)

lemma drive_blocks:
  assumes "orderly (length doc) es" "running st" "agrees r st cl doc"
    and "list_all2 (\<lambda>s e. parse s = Some e \<and> s \<noteq> ''[DONE]'') ss es"
  shows "\<exists>st' out. drive parse r u st (map Inr ss @ rest) = out @ drive parse r u st' rest
     \<and> running st' \<and> agrees r st' (fold join_payload out cl) (fold describe es doc)
     \<and> frame cl (fold join_payload out cl)"
  using assms
proof (induction es arbitrary: doc st cl ss)
  case Nil
  then show ?case by (intro exI [of _ st] exI [of _ "[]"]) simp
next
  case (Cons e es)
  obtain s ss' where ss: "ss = s # ss'" "parse s = Some e" "s \<noteq> ''[DONE]''"
    "list_all2 (\<lambda>s e. parse s = Some e \<and> s \<noteq> ''[DONE]'') ss' es"
    using Cons.prems(4) by (cases ss) auto
  obtain st1 out where ev: "process_event r u e st = (st1, out)"
    by (cases "process_event r u e st")
  note step = agrees_event [OF Cons.prems(1-3) ev]
  from Cons.IH [of "describe e doc" st1 "fold join_payload out cl" ss'] step ss(4)
  obtain st' out' where out': "drive parse r u st1 (map Inr ss' @ rest) = out' @ drive parse r u st' rest"
    "running st'" "agrees r st' (fold join_payload out' (fold join_payload out cl))
       (fold describe es (describe e doc))"
    "frame (fold join_payload out cl) (fold join_payload out' (fold join_payload out cl))"
    by blast
  have "drive parse r u st (map Inr ss @ rest) = (out @ out') @ drive parse r u st' rest"
    using ss(1-3) ev step Cons.prems(2) out'(1) by (simp add: stream_process_def running_def)
  with out'(2-4) step show ?case
    by (intro exI [of _ st'] exI [of _ "out @ out'"]) (simp add: frame_def)
qed

section \<open>Result\<close>

text \<open>The response document of an orderly stream.\<close>

definition described_response ::
  "CreateMessageResponse \<Rightarrow> StreamEvent list \<Rightarrow> StopReason option \<Rightarrow> CreateMessageResponse" where
  "described_response m es stop = m\<lparr>resp_content := described es, resp_stop_reason := stop\<rparr>"

lemma agrees_message_start:
  assumes "message_start m (new_stream_state f t q) = (st, out)"
  shows "agrees r st (fold join_payload out new_client) [] \<and> running st
     \<and> cl_role (fold join_payload out new_client) = Some ''assistant''
     \<and> cl_finish (fold join_payload out new_client) = None"
  using assms
  by (auto simp: message_start_def Let_def new_stream_state_def agrees_def tool_count_def running_def
       collect_parts_nil new_client_def join_delta_def default_delta_def opt_text_def
       split: option.splits if_splits)

lemma drive_tail:
  assumes "running st" "parse s1 = Some (MessageDelta (Some stop) sq us)" "s1 \<noteq> ''[DONE]''"
    and "parse s2 = Some MessageStop" "s2 \<noteq> ''[DONE]''"
  shows "fold join_payload (drive parse r u st [Inr s1, Inr s2]) cl
     = cl\<lparr>cl_finish := Some (map_stop_reason (Some stop) (ss_next_tool_idx st > 0))\<rparr>"
  using assms
  by (simp add: running_def stream_process_def message_delta_def terminate_def chunk_with_choice_def
        chunk_usage_only_def join_choice_def join_delta_def default_delta_def opt_text_def
        map_terminal_finish_def stream_finalize_def Let_def split: option.split)


text \<open>
  The agreement is on the received text. For a tool call without arguments that text is empty, which is
  no JSON document, whereas the document translation prints the input of the block.
\<close>

lemma empty_arguments_differ:
  assumes "to_text (JObj []) = ''{}''"
  shows "map tc_arguments (cp_tool_calls (cl_parts (fold join_payload
            (snd (block_start 0 (ToolUse ''t'' ''f'' (JObj []) None None) (new_stream_state i c m))) new_client)))
         = [[]]"
    and "map tc_arguments (cp_tool_calls (collect_parts to_text r [ToolUse ''t'' ''f'' (JObj []) None None]))
         = [''{}'']"
  using assms
  by (simp_all add: new_stream_state_def join_delta_def join_call_def default_delta_def opt_text_def
        new_client_def collect_parts_def Let_def)

section \<open>Witnesses\<close>

text \<open>A message with a text, a tool call and its events, each event printed as its position.\<close>

definition greeting_message :: CreateMessageResponse where
  "greeting_message = \<lparr>resp_content = [], resp_id = ''msg_1'', resp_model = ''claude-opus-4-8'',
     resp_role = Role_Assistant, resp_stop_reason = None, resp_stop_sequence = None,
     resp_type = ''message'', resp_usage = None\<rparr>"

definition greeting_blocks :: "StreamEvent list" where
  "greeting_blocks =
     [ContentBlockStart 0 (text_block []), ContentBlockDelta 0 (TextDelta ''Look''), Ping,
      ContentBlockDelta 0 (TextDelta ''ing''), ContentBlockStop 0,
      ContentBlockStart 1 (ToolUse ''toolu_1'' ''find'' (JObj []) None None),
      ContentBlockDelta 1 (InputJsonDelta ''{}''), ContentBlockStop 1]"

definition sample_events :: "StreamEvent list" where
  "sample_events = MessageStart greeting_message # greeting_blocks
     @ [MessageDelta (Some Stop_ToolUse) None None, MessageStop]"

definition sample_decode :: "string \<Rightarrow> StreamEvent option" where
  "sample_decode s = (if length s < length sample_events then Some (sample_events ! length s) else None)"

definition sample_items :: "string list" where
  "sample_items = map (\<lambda>n. replicate n (CHR ''x'')) [0..<11]"

lemma sample_items_decode:
  "list_all2 (\<lambda>s e. sample_decode s = Some e \<and> s \<noteq> ''[DONE]'') sample_items
     (MessageStart greeting_message # greeting_blocks @ [MessageDelta (Some Stop_ToolUse) None None, MessageStop])"
  by (simp add: sample_items_def sample_decode_def sample_events_def greeting_blocks_def upt_rec numeral_eq_Suc)


end
