(* ===== verification/Claude_Shape.thy ===== *)
theory Claude_Shape
  imports Claude_Types
begin

text \<open>
  Shaping of a Messages request before it is sent (\<open>src/src/middleware/claude/request.rs\<close>): empty
  system prompts and messages, the billing header in front of the system prompt and the removal of
  headers that came with the request. The digest of the sha2 crate (as hexadecimal text) and the
  entry point variable of the process are arguments.
\<close>

section \<open>The billing header\<close>

record StealthProfile =
  sp_cli_version :: string
  billing_salt :: string
  force_output_effort :: "OutputEffort option"

fun first_block_text :: "ContentBlock list \<Rightarrow> string option" where
  "first_block_text [] = None"
| "first_block_text (Text t _ _ # bs) = Some t"
| "first_block_text (_ # bs) = first_block_text bs"

definition first_user_message_text :: "Message list \<Rightarrow> string" where
  "first_user_message_text msgs =
     unwrap_or_default (Option.bind (find (\<lambda>m. role m = Role_User) msgs)
       (\<lambda>m. case content m of Content_Text t \<Rightarrow> Some t | Content_Blocks bs \<Rightarrow> first_block_text bs))"

text \<open>
  \<open>str::encode_utf16\<close> on UTF-8 bytes: the code points, each as one unit or as a surrogate pair;
  \<open>from_utf16_lossy\<close> of a single unit gives the replacement character for a surrogate.
\<close>

definition lead_bits :: "nat \<Rightarrow> nat" where
  "lead_bits b = (if b < 128 then b else if b < 224 then b - 192 else if b < 240 then b - 224 else b - 240)"

definition push_byte :: "char \<Rightarrow> nat list \<Rightarrow> nat list" where
  "push_byte c acc =
     (if is_continuation c
      then (case acc of [] \<Rightarrow> [byte_of c] | x # xs \<Rightarrow> (x * 64 + (byte_of c - 128)) # xs)
      else lead_bits (byte_of c) # acc)"

definition code_points :: "string \<Rightarrow> nat list" where
  "code_points s = rev (fold push_byte s [])"

definition utf16_units :: "nat \<Rightarrow> nat list" where
  "utf16_units cp =
     (if cp < 0x10000 then [cp]
      else [0xD800 + (cp - 0x10000) div 1024, 0xDC00 + (cp - 0x10000) mod 1024])"

definition encode_utf16 :: "string \<Rightarrow> nat list" where
  "encode_utf16 s = concat (map utf16_units (code_points s))"

definition unit_lossy :: "nat \<Rightarrow> string" where
  "unit_lossy u =
     (let u = (if 0xD800 \<le> u \<and> u < 0xE000 then 0xFFFD else u) in
      map char_of
        (if u < 0x80 then [u]
         else if u < 0x800 then [0xC0 + u div 64, 0x80 + u mod 64]
         else [0xE0 + u div 4096, 0x80 + u div 64 mod 64, 0x80 + u mod 64]))"

definition sample_js_code_unit :: "string \<Rightarrow> nat \<Rightarrow> string" where
  "sample_js_code_unit t idx =
     (let units = encode_utf16 t in if idx < length units then unit_lossy (units ! idx) else ''0'')"

definition BILLING_PREFIX :: string where
  "BILLING_PREFIX = ''x-anthropic-billing-header:''"

definition claude_code_billing_header_from_sample ::
  "(string \<Rightarrow> string) \<Rightarrow> string option \<Rightarrow> string \<Rightarrow> StealthProfile \<Rightarrow> string" where
  "claude_code_billing_header_from_sample sha256_hex entrypoint_env first_text profile =
     (let sampled = concat (map (sample_js_code_unit first_text) [4, 7, 20]);
          version_hash = sha256_hex (billing_salt profile @ sampled @ sp_cli_version profile);
          entrypoint = (case entrypoint_env of
              Some v \<Rightarrow> if trim v = [] then ''cli'' else v | None \<Rightarrow> ''cli'')
      in BILLING_PREFIX @ '' cc_version='' @ sp_cli_version profile @ ''.'' @ take 3 version_hash
         @ ''; cc_entrypoint='' @ entrypoint @ ''; cch=00000;'')"

definition claude_code_billing_header ::
  "(string \<Rightarrow> string) \<Rightarrow> string option \<Rightarrow> Message list \<Rightarrow> StealthProfile \<Rightarrow> string" where
  "claude_code_billing_header sha256_hex entrypoint_env msgs profile =
     claude_code_billing_header_from_sample sha256_hex entrypoint_env (first_user_message_text msgs) profile"

definition is_billing_header_text :: "string \<Rightarrow> bool" where
  "is_billing_header_text t = starts_with (to_ascii_lowercase (trim_start t)) BILLING_PREFIX"

fun drop_leading_newlines :: "string \<Rightarrow> string" where
  "drop_leading_newlines (c # cs) = (if c = CHR 0x0A then drop_leading_newlines cs else c # cs)"
| "drop_leading_newlines [] = []"

definition strip_leading_billing_header :: "string \<Rightarrow> string option" where
  "strip_leading_billing_header t =
     (if \<not> is_billing_header_text t then Some t
      else let rest = drop 1 (dropWhile (\<lambda>line. trim line = []) (str_lines t));
               stripped = trim (drop_leading_newlines (join_with [CHR 0x0A] rest))
           in if stripped = [] then None else Some stripped)"

text \<open>The text of an entry that is a string or a text object.\<close>

fun is_text_object :: "(string \<times> json) list \<Rightarrow> bool" where
  "is_text_object kvs = (map_of kvs ''type'' = Some (JStr ''text''))"

fun billing_entry :: "json \<Rightarrow> bool" where
  "billing_entry (JStr t) = is_billing_header_text t"
| "billing_entry (JObj kvs) =
     (is_text_object kvs
      \<and> (case Option.bind (map_of kvs ''text'') as_str of None \<Rightarrow> False | Some t \<Rightarrow> is_billing_header_text t))"
| "billing_entry _ = False"

fun strip_system :: "json \<Rightarrow> json option" where
  "strip_system (JStr t) = map_option JStr (strip_leading_billing_header t)"
| "strip_system (JArr systems) = Some (JArr (filter (\<lambda>v. \<not> billing_entry v) systems))"
| "strip_system other = Some other"

definition strip_billing_headers_from_system :: "CreateMessageParams \<Rightarrow> CreateMessageParams" where
  "strip_billing_headers_from_system body = body\<lparr>system := Option.bind (system body) strip_system\<rparr>"

fun prefixed_system :: "json list \<Rightarrow> json option \<Rightarrow> json list" where
  "prefixed_system prefixed (Some (JStr t)) =
     (if trim t = [] then prefixed @ [JStr t] else prefixed @ [content_block_json (text_block t)])"
| "prefixed_system prefixed (Some (JArr systems)) = prefixed @ systems"
| "prefixed_system prefixed (Some JNull) = prefixed"
| "prefixed_system prefixed None = prefixed"
| "prefixed_system prefixed (Some other) = prefixed @ [other]"

definition prepend_system_blocks :: "ContentBlock list \<Rightarrow> CreateMessageParams \<Rightarrow> CreateMessageParams" where
  "prepend_system_blocks blocks body =
     (if blocks = [] then body
      else body\<lparr>system := Some (JArr (prefixed_system (map content_block_json blocks) (system body)))\<rparr>)"

section \<open>Empty contents\<close>

definition blank :: "json option \<Rightarrow> bool" where
  "blank v = (case Option.bind v as_str of None \<Rightarrow> True | Some t \<Rightarrow> trim t = [])"

fun empty_entry :: "json \<Rightarrow> bool" where
  "empty_entry JNull = True"
| "empty_entry (JStr t) = (trim t = [])"
| "empty_entry (JObj kvs) = (is_text_object kvs \<and> blank (map_of kvs ''text''))"
| "empty_entry _ = False"

fun empty_system :: "json \<Rightarrow> bool" where
  "empty_system JNull = True"
| "empty_system (JStr t) = (trim t = [])"
| "empty_system (JArr systems) = (systems = [] \<or> list_all empty_entry systems)"
| "empty_system _ = False"

definition drop_empty_system :: "CreateMessageParams \<Rightarrow> CreateMessageParams" where
  "drop_empty_system body =
     body\<lparr>system := (case system body of
       None \<Rightarrow> None | Some s \<Rightarrow> if empty_system s then None else Some s)\<rparr>"

fun is_empty_text :: "ContentBlock \<Rightarrow> bool" where
  "is_empty_text (Text t _ _) = (t = [])"
| "is_empty_text _ = False"

fun strip_block :: "ContentBlock \<Rightarrow> ContentBlock" where
  "strip_block (SearchResult bs src title cc cits) =
     SearchResult (filter (\<lambda>b. \<not> is_empty_text b) (map strip_block bs)) src title cc cits"
| "strip_block b = b"

definition strip_empty_text_blocks :: "ContentBlock list \<Rightarrow> ContentBlock list" where
  "strip_empty_text_blocks bs = filter (\<lambda>b. \<not> is_empty_text b) (map strip_block bs)"

fun non_empty_entry :: "json \<Rightarrow> bool" where
  "non_empty_entry (JStr t) = (trim t \<noteq> [])"
| "non_empty_entry (JObj kvs) = (is_text_object kvs \<longrightarrow> \<not> blank (map_of kvs ''text''))"
| "non_empty_entry JNull = False"
| "non_empty_entry _ = True"

fun has_non_empty_system :: "json option \<Rightarrow> bool" where
  "has_non_empty_system (Some (JStr t)) = (trim t \<noteq> [])"
| "has_non_empty_system (Some (JArr systems)) = list_ex non_empty_entry systems"
| "has_non_empty_system (Some JNull) = False"
| "has_non_empty_system None = False"
| "has_non_empty_system (Some _) = True"

definition fill_system_only_user_placeholder :: "CreateMessageParams \<Rightarrow> CreateMessageParams" where
  "fill_system_only_user_placeholder body =
     (if messages body = [] \<and> has_non_empty_system (system body)
      then body\<lparr>messages := [new_text Role_User ''Continue.'']\<rparr> else body)"

definition stripped_message :: "Message \<Rightarrow> Message option" where
  "stripped_message m =
     (case content m of
        Content_Text t \<Rightarrow> if t = [] then None else Some m
      | Content_Blocks bs \<Rightarrow>
          let bs' = strip_empty_text_blocks bs
          in if bs' = [] then None else Some (m\<lparr>content := Content_Blocks bs'\<rparr>))"

definition drop_empty_message_text_blocks :: "CreateMessageParams \<Rightarrow> CreateMessageParams" where
  "drop_empty_message_text_blocks body =
     (let body' = body\<lparr>messages := List.map_filter stripped_message (messages body)\<rparr>
      in if messages body' = [] \<and> messages body \<noteq> [] \<and> has_non_empty_system (system body')
         then fill_system_only_user_placeholder body' else body')"

section \<open>Cache scopes\<close>

fun remove_scope :: "json \<Rightarrow> json" where
  "remove_scope (JObj kvs) = JObj (hm_remove ''scope'' kvs)"
| "remove_scope v = v"

definition unscope_cache :: "(string \<times> json) list \<Rightarrow> (string \<times> json) list" where
  "unscope_cache cache =
     (let cache' = hm_modify ''ephemeral'' remove_scope cache
      in if map_of cache' ''type'' = Some (JStr ''ephemeral'') then hm_remove ''scope'' cache' else cache')"

fun unscope_control :: "json \<Rightarrow> json" where
  "unscope_control (JObj cache) = JObj (unscope_cache cache)"
| "unscope_control v = v"

fun unscope_entry :: "json \<Rightarrow> json" where
  "unscope_entry (JObj kvs) = JObj (hm_modify ''cache_control'' unscope_control kvs)"
| "unscope_entry v = v"

fun strip_ephemeral_scope_from_system :: "json \<Rightarrow> json" where
  "strip_ephemeral_scope_from_system (JArr items) = JArr (map unscope_entry items)"
| "strip_ephemeral_scope_from_system v = v"

section \<open>Lemmas\<close>

text \<open>No text is empty at any depth.\<close>

fun no_empty_text :: "ContentBlock \<Rightarrow> bool" where
  "no_empty_text (SearchResult bs _ _ _ _) = list_all no_empty_text bs"
| "no_empty_text (Text t _ _) = (t \<noteq> [])"
| "no_empty_text _ = True"

lemma strip_block_empty [simp]: "is_empty_text (strip_block b) = is_empty_text b"
  by (cases b) simp_all

lemma no_empty_strip_block: "\<not> is_empty_text b \<Longrightarrow> no_empty_text (strip_block b)"
proof (induction b rule: strip_block.induct)
  case (1 bs src title cc cits)
  then show ?case by (auto simp: list_all_iff)
qed simp_all

lemma strip_empty_text_blocks_ok: "list_all no_empty_text (strip_empty_text_blocks bs)"
  by (auto simp: strip_empty_text_blocks_def list_all_iff no_empty_strip_block)

definition message_filled :: "Message \<Rightarrow> bool" where
  "message_filled m =
     (case content m of Content_Text t \<Rightarrow> t \<noteq> [] | Content_Blocks bs \<Rightarrow> bs \<noteq> [] \<and> list_all no_empty_text bs)"

lemma stripped_message_filled: "stripped_message m = Some m' \<Longrightarrow> message_filled m'"
  by (auto simp: stripped_message_def message_filled_def Let_def strip_empty_text_blocks_ok
       split: MessageContent.splits if_splits)

lemma placeholder_filled: "message_filled (new_text Role_User ''Continue.'')"
  by (simp add: message_filled_def new_text_def)

lemma drop_empty_messages_filled:
  "list_all message_filled (messages (drop_empty_message_text_blocks body))"
  by (auto simp: drop_empty_message_text_blocks_def fill_system_only_user_placeholder_def Let_def
       list_all_iff List.map_filter_def placeholder_filled intro: stripped_message_filled)

lemma billing_header_is_header:
  "is_billing_header_text (claude_code_billing_header_from_sample sha env t p)"
proof -
  have "leading_space white_space (BILLING_PREFIX @ r) = None" for r
    by (simp add: BILLING_PREFIX_def white_space_def strip_prefix_def)
  then have trim: "trim_start (BILLING_PREFIX @ r) = BILLING_PREFIX @ r" for r
    by (simp add: trim_start_def BILLING_PREFIX_def)
  have low: "to_ascii_lowercase (BILLING_PREFIX @ r) = BILLING_PREFIX @ to_ascii_lowercase r" for r
  proof -
    have "to_ascii_lowercase BILLING_PREFIX = BILLING_PREFIX" by code_simp
    then show ?thesis by (simp add: to_ascii_lowercase_def)
  qed
  show ?thesis
    by (simp add: claude_code_billing_header_from_sample_def Let_def is_billing_header_text_def trim low)
qed

lemma billing_entry_text_block [simp]:
  "billing_entry (content_block_json (text_block t)) = is_billing_header_text t"
  by simp

end
