(* ===== verification/Claude_Model.thy ===== *)
theory Claude_Model
  imports Claude_Shape
begin

text \<open>
  Normalisation of the sampling and reasoning parameters (\<open>normalize_sampling_params\<close> and
  \<open>ReasoningFamily\<close> of \<open>src/src/middleware/claude/request.rs\<close>) and the fallback of the Fable models.
\<close>

section \<open>Model families\<close>

datatype ReasoningFamily = Fable5 | Opus5 | Sonnet5 | V4_5 | V4_6 | V4_7 | V4_8

definition matches_model_with_optional_date_suffix :: "string \<Rightarrow> string \<Rightarrow> bool" where
  "matches_model_with_optional_date_suffix name prefix =
     (let m = to_ascii_lowercase name in
      m = prefix
      \<or> (case strip_prefix m (prefix @ ''-'') of
           None \<Rightarrow> False | Some s \<Rightarrow> length s = 8 \<and> list_all is_ascii_digit s))"

definition FAMILY_TABLE :: "(string \<times> ReasoningFamily) list" where
  "FAMILY_TABLE =
     [(''claude-fable-5'', Fable5), (''claude-opus-5'', Opus5), (''claude-sonnet-5'', Sonnet5),
      (''claude-opus-4-8'', V4_8), (''claude-opus-4-7'', V4_7), (''claude-opus-4-6'', V4_6),
      (''claude-opus-4-5'', V4_5)]"

definition detect :: "string \<Rightarrow> ReasoningFamily option" where
  "detect name =
     map_option snd (find (\<lambda>(prefix, _). matches_model_with_optional_date_suffix name prefix) FAMILY_TABLE)"

definition requires_adaptive_thinking_rewrite :: "ReasoningFamily \<Rightarrow> bool" where
  "requires_adaptive_thinking_rewrite f \<longleftrightarrow> f \<in> {Fable5, Opus5, Sonnet5, V4_7, V4_8}"

definition requires_thinking :: "ReasoningFamily \<Rightarrow> bool" where
  "requires_thinking f \<longleftrightarrow> f = Fable5"

definition rejects_sampling_parameters :: "ReasoningFamily \<Rightarrow> bool" where
  "rejects_sampling_parameters f \<longleftrightarrow> f \<in> {Fable5, Opus5, Sonnet5, V4_7, V4_8}"

definition disabled_thinking_requires_rewrite :: "ReasoningFamily \<Rightarrow> OutputEffort option \<Rightarrow> bool" where
  "disabled_thinking_requires_rewrite f e \<longleftrightarrow> f = Opus5 \<and> e \<in> {Some Effort_XHigh, Some Effort_Max}"

fun clamp_forced_effort :: "ReasoningFamily \<Rightarrow> OutputEffort \<Rightarrow> OutputEffort" where
  "clamp_forced_effort V4_5 Effort_XHigh = Effort_High"
| "clamp_forced_effort V4_5 Effort_Max = Effort_High"
| "clamp_forced_effort V4_6 Effort_XHigh = Effort_Max"
| "clamp_forced_effort _ e = e"

definition some_and :: "ReasoningFamily option \<Rightarrow> (ReasoningFamily \<Rightarrow> bool) \<Rightarrow> bool" where
  "some_and f p = (case f of None \<Rightarrow> False | Some x \<Rightarrow> p x)"

section \<open>Normalisation\<close>

definition default_output_config :: OutputConfig where
  "default_output_config = \<lparr>effort = None, oc_format = None\<rparr>"

definition get_config :: "CreateMessageParams \<Rightarrow> OutputConfig" where
  "get_config body = (case output_config body of None \<Rightarrow> default_output_config | Some c \<Rightarrow> c)"

definition effective_effort :: "CreateMessageParams \<Rightarrow> OutputEffort option" where
  "effective_effort body = Option.bind (output_config body) effort"

text \<open>The steps of \<open>normalize_sampling_params\<close> in their order.\<close>

definition drop_top :: "CreateMessageParams \<Rightarrow> CreateMessageParams" where
  "drop_top body = body\<lparr>top_p := None, top_k := None\<rparr>"

definition rewrite_legacy :: "ReasoningFamily option \<Rightarrow> CreateMessageParams \<Rightarrow> CreateMessageParams \<times> bool" where
  "rewrite_legacy family body =
     (if some_and family requires_adaptive_thinking_rewrite
      then (case thinking body of
              Some (Thinking_Enabled _ display) \<Rightarrow>
                (body\<lparr>thinking := Some (Thinking_Adaptive
                   (Some (case display of None \<Rightarrow> Summarized | Some d \<Rightarrow> d)))\<rparr>, True)
            | _ \<Rightarrow> (body, False))
      else (body, False))"

definition force_thinking :: "ReasoningFamily option \<Rightarrow> CreateMessageParams \<Rightarrow> CreateMessageParams \<times> bool" where
  "force_thinking family body =
     (if some_and family requires_thinking \<and> (thinking body = None \<or> thinking body = Some Thinking_Disabled)
      then (body\<lparr>thinking := Some (adaptive_with_display Summarized)\<rparr>, True)
      else (body, False))"

definition default_effort :: "bool \<Rightarrow> CreateMessageParams \<Rightarrow> CreateMessageParams" where
  "default_effort rewrote body =
     (if rewrote
      then body\<lparr>output_config := Some ((get_config body)\<lparr>effort :=
             (case effort (get_config body) of None \<Rightarrow> Some Effort_High | Some e \<Rightarrow> Some e)\<rparr>)\<rparr>
      else body)"

definition forced_effort :: "ReasoningFamily option \<Rightarrow> StealthProfile \<Rightarrow> OutputEffort option" where
  "forced_effort family profile =
     Option.bind (force_output_effort profile) (\<lambda>e. map_option (\<lambda>f. clamp_forced_effort f e) family)"

definition force_effort ::
  "ReasoningFamily option \<Rightarrow> StealthProfile \<Rightarrow> CreateMessageParams \<Rightarrow> CreateMessageParams" where
  "force_effort family profile body =
     (case forced_effort family profile of
        None \<Rightarrow> body
      | Some e \<Rightarrow> body\<lparr>output_config := Some ((get_config body)\<lparr>effort := Some e\<rparr>)\<rparr>)"

definition enable_disabled :: "ReasoningFamily option \<Rightarrow> CreateMessageParams \<Rightarrow> CreateMessageParams" where
  "enable_disabled family body =
     (if some_and family (\<lambda>f. disabled_thinking_requires_rewrite f (effective_effort body))
         \<and> thinking body = Some Thinking_Disabled
      then body\<lparr>thinking := Some (adaptive_with_display Summarized)\<rparr>
      else body)"

fun thinking_active :: "Thinking option \<Rightarrow> bool" where
  "thinking_active (Some (Thinking_Adaptive _)) = True"
| "thinking_active (Some (Thinking_Enabled _ _)) = True"
| "thinking_active _ = False"

definition drop_temperature :: "ReasoningFamily option \<Rightarrow> CreateMessageParams \<Rightarrow> CreateMessageParams" where
  "drop_temperature family body =
     (if (thinking_active (thinking body) \<or> some_and family rejects_sampling_parameters)
         \<and> temperature body \<noteq> Some 1
      then body\<lparr>temperature := None\<rparr> else body)"

definition normalize_sampling_params :: "StealthProfile \<Rightarrow> CreateMessageParams \<Rightarrow> CreateMessageParams" where
  "normalize_sampling_params profile body =
     (let family = detect (model body);
          (body1, rewrote_legacy) = rewrite_legacy family (drop_top body);
          (body2, forced) = force_thinking family body1
      in drop_temperature family (enable_disabled family (force_effort family profile
           (default_effort (rewrote_legacy \<or> forced) body2))))"

section \<open>The Fable fallback\<close>

definition apply_fable_fallback :: "CreateMessageParams \<Rightarrow> CreateMessageParams \<times> bool" where
  "apply_fable_fallback body =
     (if matches_model_with_optional_date_suffix (model body) ''claude-fable-5''
      then (body\<lparr>fallbacks := Some [\<lparr>target_model = ''claude-opus-4-8''\<rparr>]\<rparr>, True)
      else (body, False))"

section \<open>What the upstream accepts\<close>

text \<open>
  The documented demands of the model families: no \<open>top_p\<close> or \<open>top_k\<close>; a temperature only where thinking
  is off and the family takes one (or the default 1); no thinking budget for families that dropped
  it; Fable always thinks; Opus 5 does not combine disabled thinking with the efforts above \<open>high\<close>.
\<close>

definition accepted :: "CreateMessageParams \<Rightarrow> bool" where
  "accepted body \<longleftrightarrow>
     top_p body = None \<and> top_k body = None
     \<and> (temperature body \<in> {None, Some 1}
        \<or> \<not> thinking_active (thinking body) \<and> \<not> some_and (detect (model body)) rejects_sampling_parameters)
     \<and> (case detect (model body) of
          None \<Rightarrow> True
        | Some f \<Rightarrow>
            (requires_adaptive_thinking_rewrite f
               \<longrightarrow> (case thinking body of Some (Thinking_Enabled _ _) \<Rightarrow> False | _ \<Rightarrow> True))
            \<and> (requires_thinking f \<longrightarrow> thinking_active (thinking body))
            \<and> (disabled_thinking_requires_rewrite f (effective_effort body)
               \<longrightarrow> thinking body \<noteq> Some Thinking_Disabled))"

section \<open>Frames\<close>

text \<open>The steps leave the conversation and the addressed model alone.\<close>

lemma drop_top_frame [simp]:
  "messages (drop_top body) = messages body"
  "system (drop_top body) = system body"
  "model (drop_top body) = model body"
  "stream (drop_top body) = stream body"
  "tools (drop_top body) = tools body"
  "max_tokens (drop_top body) = max_tokens body"
  "metadata (drop_top body) = metadata body"
  by (simp_all add: drop_top_def)

lemma rewrite_legacy_frame [simp]:
  "messages (fst (rewrite_legacy f body)) = messages body"
  "system (fst (rewrite_legacy f body)) = system body"
  "model (fst (rewrite_legacy f body)) = model body"
  "stream (fst (rewrite_legacy f body)) = stream body"
  "tools (fst (rewrite_legacy f body)) = tools body"
  "max_tokens (fst (rewrite_legacy f body)) = max_tokens body"
  "metadata (fst (rewrite_legacy f body)) = metadata body"
  by (simp_all add: rewrite_legacy_def split: option.split Thinking.split)

lemma force_thinking_frame [simp]:
  "messages (fst (force_thinking f body)) = messages body"
  "system (fst (force_thinking f body)) = system body"
  "model (fst (force_thinking f body)) = model body"
  "stream (fst (force_thinking f body)) = stream body"
  "tools (fst (force_thinking f body)) = tools body"
  "max_tokens (fst (force_thinking f body)) = max_tokens body"
  "metadata (fst (force_thinking f body)) = metadata body"
  by (simp_all add: force_thinking_def)

lemma default_effort_frame [simp]:
  "messages (default_effort w body) = messages body"
  "system (default_effort w body) = system body"
  "model (default_effort w body) = model body"
  "stream (default_effort w body) = stream body"
  "tools (default_effort w body) = tools body"
  "max_tokens (default_effort w body) = max_tokens body"
  "metadata (default_effort w body) = metadata body"
  by (simp_all add: default_effort_def)

lemma force_effort_frame [simp]:
  "messages (force_effort f p body) = messages body"
  "system (force_effort f p body) = system body"
  "model (force_effort f p body) = model body"
  "stream (force_effort f p body) = stream body"
  "tools (force_effort f p body) = tools body"
  "max_tokens (force_effort f p body) = max_tokens body"
  "metadata (force_effort f p body) = metadata body"
  by (simp_all add: force_effort_def split: option.split)

lemma enable_disabled_frame [simp]:
  "messages (enable_disabled f body) = messages body"
  "system (enable_disabled f body) = system body"
  "model (enable_disabled f body) = model body"
  "stream (enable_disabled f body) = stream body"
  "tools (enable_disabled f body) = tools body"
  "max_tokens (enable_disabled f body) = max_tokens body"
  "metadata (enable_disabled f body) = metadata body"
  by (simp_all add: enable_disabled_def)

lemma drop_temperature_frame [simp]:
  "messages (drop_temperature f body) = messages body"
  "system (drop_temperature f body) = system body"
  "model (drop_temperature f body) = model body"
  "stream (drop_temperature f body) = stream body"
  "tools (drop_temperature f body) = tools body"
  "max_tokens (drop_temperature f body) = max_tokens body"
  "metadata (drop_temperature f body) = metadata body"
  by (simp_all add: drop_temperature_def)

lemma normalize_frame [simp]:
  "messages (normalize_sampling_params p body) = messages body"
  "system (normalize_sampling_params p body) = system body"
  "model (normalize_sampling_params p body) = model body"
  "stream (normalize_sampling_params p body) = stream body"
  "tools (normalize_sampling_params p body) = tools body"
  "max_tokens (normalize_sampling_params p body) = max_tokens body"
  "metadata (normalize_sampling_params p body) = metadata body"
  by (simp_all add: normalize_sampling_params_def case_prod_beta Let_def)

section \<open>Steps\<close>

text \<open>What each step does to the thinking mode, the effort and the temperature.\<close>

lemma rewrite_legacy_simps [simp]:
  "output_config (fst (rewrite_legacy f body)) = output_config body"
  "temperature (fst (rewrite_legacy f body)) = temperature body"
  "top_p (fst (rewrite_legacy f body)) = top_p body" "top_k (fst (rewrite_legacy f body)) = top_k body"
  by (simp_all add: rewrite_legacy_def split: option.split Thinking.split)

lemma force_thinking_simps [simp]:
  "output_config (fst (force_thinking f body)) = output_config body"
  "temperature (fst (force_thinking f body)) = temperature body"
  "top_p (fst (force_thinking f body)) = top_p body" "top_k (fst (force_thinking f body)) = top_k body"
  by (simp_all add: force_thinking_def)

lemma effort_simps [simp]:
  "thinking (default_effort w body) = thinking body" "thinking (force_effort f p body) = thinking body"
  "temperature (default_effort w body) = temperature body"
  "temperature (force_effort f p body) = temperature body"
  "top_p (default_effort w body) = top_p body" "top_p (force_effort f p body) = top_p body"
  "top_k (default_effort w body) = top_k body" "top_k (force_effort f p body) = top_k body"
  by (simp_all add: default_effort_def force_effort_def split: option.split)

lemma enable_disabled_simps [simp]:
  "output_config (enable_disabled f body) = output_config body"
  "temperature (enable_disabled f body) = temperature body"
  "top_p (enable_disabled f body) = top_p body" "top_k (enable_disabled f body) = top_k body"
  by (simp_all add: enable_disabled_def)

lemma drop_temperature_simps [simp]:
  "output_config (drop_temperature f body) = output_config body"
  "thinking (drop_temperature f body) = thinking body"
  "top_p (drop_temperature f body) = top_p body" "top_k (drop_temperature f body) = top_k body"
  by (simp_all add: drop_temperature_def)

lemma drop_top_simps [simp]: "top_p (drop_top body) = None" "top_k (drop_top body) = None"
  by (simp_all add: drop_top_def)

lemma effective_effort_simps [simp]:
  "effective_effort (enable_disabled f body) = effective_effort body"
  "effective_effort (drop_temperature f body) = effective_effort body"
  by (simp_all add: effective_effort_def)

definition no_budget :: "ReasoningFamily option \<Rightarrow> Thinking option \<Rightarrow> bool" where
  "no_budget f t \<longleftrightarrow> some_and f requires_adaptive_thinking_rewrite
     \<longrightarrow> (case t of Some (Thinking_Enabled _ _) \<Rightarrow> False | _ \<Rightarrow> True)"

definition thinks :: "ReasoningFamily option \<Rightarrow> Thinking option \<Rightarrow> bool" where
  "thinks f t \<longleftrightarrow> some_and f requires_thinking \<longrightarrow> thinking_active t"

definition effort_fits :: "ReasoningFamily option \<Rightarrow> OutputEffort option \<Rightarrow> Thinking option \<Rightarrow> bool" where
  "effort_fits f e t \<longleftrightarrow> some_and f (\<lambda>f. disabled_thinking_requires_rewrite f e) \<longrightarrow> t \<noteq> Some Thinking_Disabled"

lemma rewrite_no_budget: "no_budget f (thinking (fst (rewrite_legacy f body)))"
  by (simp add: no_budget_def rewrite_legacy_def split: option.split Thinking.split)

lemma force_thinks:
  "no_budget f (thinking body) \<Longrightarrow> no_budget f (thinking (fst (force_thinking f body)))
     \<and> thinks f (thinking (fst (force_thinking f body)))"
  by (cases "thinking body"; cases "the (thinking body)")
     (auto simp: no_budget_def thinks_def force_thinking_def adaptive_with_display_def)

lemma enable_fits:
  assumes "no_budget f (thinking body)" "thinks f (thinking body)"
  shows "no_budget f (thinking (enable_disabled f body)) \<and> thinks f (thinking (enable_disabled f body))
     \<and> effort_fits f (effective_effort (enable_disabled f body)) (thinking (enable_disabled f body))"
  using assms
  by (auto simp: no_budget_def thinks_def effort_fits_def enable_disabled_def adaptive_with_display_def
       effective_effort_def)

lemma drop_temperature_ok:
  "temperature (drop_temperature f body) \<in> {None, Some 1}
   \<or> \<not> thinking_active (thinking body) \<and> \<not> some_and f rejects_sampling_parameters"
  by (simp add: drop_temperature_def)

lemma accepted_alt:
  "accepted body \<longleftrightarrow> top_p body = None \<and> top_k body = None
     \<and> (temperature body \<in> {None, Some 1}
        \<or> \<not> thinking_active (thinking body) \<and> \<not> some_and (detect (model body)) rejects_sampling_parameters)
     \<and> no_budget (detect (model body)) (thinking body) \<and> thinks (detect (model body)) (thinking body)
     \<and> effort_fits (detect (model body)) (effective_effort body) (thinking body)"
  by (auto simp: accepted_def no_budget_def thinks_def effort_fits_def some_and_def split: option.split)

lemma normalize_accepted: "accepted (normalize_sampling_params profile body)"
proof -
  define f where "f = detect (model body)"
  define b1 where "b1 = rewrite_legacy f (drop_top body)"
  define b2 where "b2 = force_thinking f (fst b1)"
  define b3 where "b3 = force_effort f profile (default_effort (snd b1 \<or> snd b2) (fst b2))"
  have n: "normalize_sampling_params profile body = drop_temperature f (enable_disabled f b3)"
    by (simp add: normalize_sampling_params_def case_prod_beta Let_def f_def b1_def b2_def b3_def)
  have m: "model (enable_disabled f b3) = model body"
    by (simp add: b3_def b2_def b1_def)
  have t: "no_budget f (thinking b3) \<and> thinks f (thinking b3)"
    using force_thinks [OF rewrite_no_budget, of f "drop_top body"]
    by (simp add: b3_def b2_def b1_def)
  have top: "top_p b3 = None" "top_k b3 = None"
    by (simp_all add: b3_def b2_def b1_def)
  show ?thesis
    unfolding n accepted_alt
    using enable_fits [of f b3] t top m drop_temperature_ok [of f "enable_disabled f b3"]
    by (simp add: f_def)
qed

text \<open>A normal request is left alone by every step.\<close>

lemma drop_top_fixed: "top_p body = None \<Longrightarrow> top_k body = None \<Longrightarrow> drop_top body = body"
  by (cases body) (simp add: drop_top_def)

lemma rewrite_legacy_fixed: "no_budget f (thinking body) \<Longrightarrow> rewrite_legacy f body = (body, False)"
  by (simp add: no_budget_def rewrite_legacy_def split: option.splits Thinking.splits)

lemma force_thinking_fixed: "thinks f (thinking body) \<Longrightarrow> force_thinking f body = (body, False)"
  by (cases "thinking body") (auto simp: thinks_def force_thinking_def)

lemma force_effort_fixed:
  assumes "forced_effort f profile = None \<or> effective_effort body = forced_effort f profile"
  shows "force_effort f profile body = body"
  using assms
  by (cases body)
     (auto simp: force_effort_def effective_effort_def get_config_def bind_eq_Some_conv split: option.splits)

lemma enable_disabled_fixed:
  "effort_fits f (effective_effort body) (thinking body) \<Longrightarrow> enable_disabled f body = body"
  by (auto simp: effort_fits_def enable_disabled_def)

lemma drop_temperature_fixed:
  assumes "temperature body \<in> {None, Some 1}
    \<or> \<not> thinking_active (thinking body) \<and> \<not> some_and f rejects_sampling_parameters"
  shows "drop_temperature f body = body"
  using assms by (cases body) (auto simp: drop_temperature_def)

lemma normalize_fixed:
  assumes "accepted body"
    and "forced_effort (detect (model body)) profile = None
      \<or> effective_effort body = forced_effort (detect (model body)) profile"
  shows "normalize_sampling_params profile body = body"
  using assms
  by (simp add: accepted_alt normalize_sampling_params_def Let_def drop_top_fixed rewrite_legacy_fixed
        force_thinking_fixed default_effort_def force_effort_fixed enable_disabled_fixed
        drop_temperature_fixed)

lemma force_effort_effective:
  "forced_effort f profile = Some e \<Longrightarrow> effective_effort (force_effort f profile body) = Some e"
  by (simp add: force_effort_def effective_effort_def)

lemma normalize_effort:
  "forced_effort (detect (model body)) profile = None
   \<or> effective_effort (normalize_sampling_params profile body) = forced_effort (detect (model body)) profile"
  by (cases "forced_effort (detect (model body)) profile")
     (simp_all add: normalize_sampling_params_def case_prod_beta Let_def force_effort_effective)

lemma clamp_idem: "clamp_forced_effort f (clamp_forced_effort f e) = clamp_forced_effort f e"
  by (cases f; cases e) simp_all

text \<open>
  C20: Whatever sampling and reasoning parameters a client sends, the normalised request satisfies the
  demands of the model family it addresses; an effort forced by the operator is the one that is sent;
  the conversation, the system prompt, the tools and the model are not touched; and normalising a
  second time changes nothing.
\<close>

theorem normalized_request_accepted:
  "accepted (normalize_sampling_params profile body)
   \<and> (forced_effort (detect (model body)) profile = None
      \<or> effective_effort (normalize_sampling_params profile body)
          = forced_effort (detect (model body)) profile)
   \<and> messages (normalize_sampling_params profile body) = messages body
   \<and> system (normalize_sampling_params profile body) = system body
   \<and> tools (normalize_sampling_params profile body) = tools body
   \<and> model (normalize_sampling_params profile body) = model body
   \<and> normalize_sampling_params profile (normalize_sampling_params profile body)
       = normalize_sampling_params profile body"
  using normalize_accepted [of profile body] normalize_effort [of body profile]
    normalize_fixed [of "normalize_sampling_params profile body" profile]
  by simp

end
