(* ===== verification/Claude_Preprocess.thy ===== *)
theory Claude_Preprocess
  imports Claude_Model Openai_Request Billing_Log
begin

text \<open>
  The two request extractors (\<open>ClaudeCodePreprocess\<close> in \<open>src/src/middleware/claude/request.rs\<close> and
  \<open>OpenAIChatPreprocess\<close> in \<open>src/src/middleware/openai/request.rs\<close>): beta headers, the affinity key, the
  request context and the shaping steps in their order. A header value that is not text is \<open>None\<close>.
  The hash function of the standard library, the JSON parser, the digest, the token encoder, the
  drawn request id and the clock are arguments.
\<close>

section \<open>Headers\<close>

type_synonym header_map = "(string \<times> string option) list"

definition header_text :: "header_map \<Rightarrow> string \<Rightarrow> string option" where
  "header_text headers k = Option.bind (map_of headers k) (\<lambda>v. v)"

definition non_stream_keepalive_requested :: "bool \<Rightarrow> header_map \<Rightarrow> bool" where
  "non_stream_keepalive_requested config headers =
     (case header_text headers ''x-clewdr-non-stream-keepalive'' of
        None \<Rightarrow> config
      | Some v \<Rightarrow> to_ascii_lowercase (trim v) \<in> {''1'', ''true'', ''yes'', ''on''})"

text \<open>\<open>str::parse::<u64>\<close>: an optional plus sign, at least one digit, the value in range.\<close>

definition parse_u64 :: "string \<Rightarrow> nat option" where
  "parse_u64 s =
     (case parse_digits (case s of c # cs \<Rightarrow> if c = CHR ''+'' then cs else s | [] \<Rightarrow> s) of
        None \<Rightarrow> None | Some n \<Rightarrow> if n < 2 ^ 64 then Some n else None)"

definition clamp_interval :: "nat \<Rightarrow> nat" where
  "clamp_interval n = max 250 (min 60000 n)"

definition non_stream_keepalive_interval_ms :: "nat \<Rightarrow> header_map \<Rightarrow> nat" where
  "non_stream_keepalive_interval_ms config headers =
     clamp_interval (case Option.bind (header_text headers ''x-clewdr-non-stream-keepalive-interval-ms'')
         (parse_u64 \<circ> trim) of None \<Rightarrow> config | Some n \<Rightarrow> n)"

definition beta_tokens :: "string \<Rightarrow> string list" where
  "beta_tokens raw = filter (\<lambda>t. t \<noteq> []) (map trim (split_on (CHR '','') raw))"

definition extract_anthropic_beta_header :: "header_map \<Rightarrow> string option" where
  "extract_anthropic_beta_header headers =
     (let parts = concat (List.map_filter (\<lambda>(k, v). if k = ''anthropic-beta''
            then map_option beta_tokens v else None) headers)
      in if parts = [] then None else Some (join_with '','' parts))"

fun dedup_tokens :: "string set \<Rightarrow> string list \<Rightarrow> string list" where
  "dedup_tokens seen [] = []"
| "dedup_tokens seen (t # ts) =
     (if to_ascii_lowercase t \<in> seen then dedup_tokens seen ts
      else t # dedup_tokens (insert (to_ascii_lowercase t) seen) ts)"

definition merged_tokens :: "string option \<Rightarrow> string \<Rightarrow> string list" where
  "merged_tokens current required =
     dedup_tokens {} (beta_tokens (unwrap_or_default current) @ filter (\<lambda>t. t \<noteq> []) [trim required])"

definition ensure_anthropic_beta_token :: "string option \<Rightarrow> string \<Rightarrow> string option" where
  "ensure_anthropic_beta_token current required =
     (let tokens = merged_tokens current required
      in if tokens = [] then None else Some (join_with '','' tokens))"

definition SERVER_SIDE_FALLBACK_BETA :: string where
  "SERVER_SIDE_FALLBACK_BETA = ''server-side-fallback-2026-06-01''"

definition is_count_tokens_path :: "string \<Rightarrow> bool" where
  "is_count_tokens_path path = ends_with path ''/count_tokens''"

section \<open>The user and the affinity key\<close>

record AuthenticatedUser =
  u_user_id :: i64
  u_username :: string
  u_role :: string
  u_api_key_id :: "i64 option"
  u_policy_id :: i64
  u_max_concurrent :: int
  u_rpm_limit :: int
  u_weekly_budget_nanousd :: i64
  u_monthly_budget_nanousd :: i64
  u_bound_account_ids :: "i64 list"
  u_auto_cache_enabled :: bool
  u_enhanced_audit_enabled :: bool

definition apply_auto_cache :: "AuthenticatedUser option \<Rightarrow> CreateMessageParams \<Rightarrow> CreateMessageParams" where
  "apply_auto_cache auth_user body =
     (case auth_user of
        Some u \<Rightarrow> if u_auto_cache_enabled u
                  then body\<lparr>cache_control := Some \<lparr>cc_type = Ephemeral, cc_ttl = None\<rparr>\<rparr> else body
      | None \<Rightarrow> body)"

text \<open>What is fed to the hasher: the cached system entries, or the session token with the user.\<close>

datatype (plugins only: code size) hash_input =
    Hash_System "json list"
  | Hash_Session string "(i64 \<times> i64 option) option"

definition cached_entry :: "json \<Rightarrow> bool" where
  "cached_entry v = (Option.bind (json_get v ''cache_control'') as_object \<noteq> None)"

definition cache_control_system_hash :: "(hash_input \<Rightarrow> u64) \<Rightarrow> CreateMessageParams \<Rightarrow> u64 option" where
  "cache_control_system_hash hash body =
     (let cache_systems = (case Option.bind (system body) as_array of
            None \<Rightarrow> [] | Some systems \<Rightarrow> filter cached_entry systems)
      in if cache_systems = [] then None else Some (hash (Hash_System cache_systems)))"

definition metadata_session_token :: "(string \<Rightarrow> json option) \<Rightarrow> string \<Rightarrow> string option" where
  "metadata_session_token from_str user_id =
     (let raw = trim user_id in
      if raw = [] then None
      else case Option.bind (from_str raw) (\<lambda>v. get_str v ''session_id'') of
             Some sid \<Rightarrow> if sid \<noteq> [] then Some sid
                         else if str_contains raw ''_session_'' then Some raw else None
           | None \<Rightarrow> if str_contains raw ''_session_'' then Some raw else None)"

definition inbound_session_token ::
  "(string \<Rightarrow> json option) \<Rightarrow> CreateMessageParams \<Rightarrow> string option \<Rightarrow> string option" where
  "inbound_session_token from_str body inbound_session_id =
     (case map_option trim inbound_session_id of
        Some (c # cs) \<Rightarrow> Some (c # cs)
      | _ \<Rightarrow> Option.bind (Option.bind (metadata body) (\<lambda>m. map_of m ''user_id''))
               (metadata_session_token from_str))"

definition claude_code_session_affinity_hash ::
  "(hash_input \<Rightarrow> u64) \<Rightarrow> (string \<Rightarrow> json option) \<Rightarrow> CreateMessageParams \<Rightarrow> AuthenticatedUser option
     \<Rightarrow> string option \<Rightarrow> u64 option" where
  "claude_code_session_affinity_hash hash from_str body auth_user inbound_session_id =
     map_option (\<lambda>t. hash (Hash_Session t (map_option (\<lambda>u. (u_user_id u, u_api_key_id u)) auth_user)))
       (inbound_session_token from_str body inbound_session_id)"

definition request_affinity_hash ::
  "(hash_input \<Rightarrow> u64) \<Rightarrow> (string \<Rightarrow> json option) \<Rightarrow> CreateMessageParams \<Rightarrow> AuthenticatedUser option
     \<Rightarrow> string option \<Rightarrow> u64 option" where
  "request_affinity_hash hash from_str body auth_user inbound_session_id =
     (case claude_code_session_affinity_hash hash from_str body auth_user inbound_session_id of
        Some h \<Rightarrow> Some h
      | None \<Rightarrow> cache_control_system_hash hash body)"

section \<open>The context\<close>

record ClaudeContext =
  cx_stream :: bool
  cx_non_stream_keepalive :: bool
  cx_non_stream_keepalive_interval_ms :: nat
  cx_system_prompt_hash :: "u64 option"
  cx_anthropic_beta :: "string option"
  cx_usage :: Usage
  cx_user_id :: "i64 option"
  cx_api_key_id :: "i64 option"
  cx_max_concurrent :: "int option"
  cx_rpm_limit :: "int option"
  cx_model_raw :: string
  cx_request_id :: string
  cx_started_at :: int
  cx_weekly_budget_nanousd :: "i64 option"
  cx_monthly_budget_nanousd :: "i64 option"
  cx_bound_account_ids :: "i64 list"
  cx_selected_account_id :: "i64 option"
  cx_audit :: "RequestAuditSnapshot option"
  cx_inbound_session_id :: "string option"

record request_env =
  re_hash :: "hash_input \<Rightarrow> u64"
  re_from_str :: "string \<Rightarrow> json option"
  re_sha256_hex :: "string \<Rightarrow> string"
  re_entrypoint :: "string option"
  re_encode :: "string \<Rightarrow> nat"
  re_request_id :: string
  re_now :: int
  re_keepalive :: bool
  re_keepalive_interval :: nat
  re_profile :: StealthProfile
  re_tool_id :: "nat \<Rightarrow> nat \<Rightarrow> string"

definition build_claude_context ::
  "request_env \<Rightarrow> CreateMessageParams \<Rightarrow> AuthenticatedUser option \<Rightarrow> string option \<Rightarrow> string option
     \<Rightarrow> ClaudeContext" where
  "build_claude_context env body auth_user anthropic_beta inbound_session_id =
     \<lparr>cx_stream = (case stream body of None \<Rightarrow> False | Some b \<Rightarrow> b),
      cx_non_stream_keepalive = False,
      cx_non_stream_keepalive_interval_ms = 6000,
      cx_system_prompt_hash =
        request_affinity_hash (re_hash env) (re_from_str env) body auth_user inbound_session_id,
      cx_anthropic_beta = anthropic_beta,
      cx_usage = \<lparr>input_tokens = count_tokens (re_encode env) body, output_tokens = 0,
                  cache_creation_input_tokens = None, cache_read_input_tokens = None\<rparr>,
      cx_user_id = map_option u_user_id auth_user,
      cx_api_key_id = Option.bind auth_user u_api_key_id,
      cx_max_concurrent = map_option u_max_concurrent auth_user,
      cx_rpm_limit = map_option u_rpm_limit auth_user,
      cx_model_raw = model body,
      cx_request_id = re_request_id env,
      cx_started_at = re_now env,
      cx_weekly_budget_nanousd = map_option u_weekly_budget_nanousd auth_user,
      cx_monthly_budget_nanousd = map_option u_monthly_budget_nanousd auth_user,
      cx_bound_account_ids = (case auth_user of None \<Rightarrow> [] | Some u \<Rightarrow> u_bound_account_ids u),
      cx_selected_account_id = None,
      cx_audit = None,
      cx_inbound_session_id = inbound_session_id\<rparr>"

definition tag_audit :: "string \<Rightarrow> RequestAuditSnapshot option \<Rightarrow> ClaudeContext \<Rightarrow> ClaudeContext" where
  "tag_audit surface snapshot cx =
     (case snapshot of
        None \<Rightarrow> cx
      | Some s \<Rightarrow> cx\<lparr>cx_audit := Some (s\<lparr>au_api_surface := Some surface\<rparr>)\<rparr>)"

section \<open>The extractors\<close>

record http_request =
  hr_auth_user :: "AuthenticatedUser option"
  hr_audit :: "RequestAuditSnapshot option"
  hr_headers :: header_map
  hr_path :: string

definition with_billing_header :: "request_env \<Rightarrow> CreateMessageParams \<Rightarrow> CreateMessageParams" where
  "with_billing_header env body =
     prepend_system_blocks [text_block (claude_code_billing_header (re_sha256_hex env) (re_entrypoint env)
       (messages body) (re_profile env))] body"

definition unscope_system :: "CreateMessageParams \<Rightarrow> CreateMessageParams" where
  "unscope_system body = body\<lparr>system := map_option strip_ephemeral_scope_from_system (system body)\<rparr>"

definition is_test_request :: "CreateMessageParams \<Rightarrow> bool" where
  "is_test_request body \<longleftrightarrow>
     (case stream body of None \<Rightarrow> True | Some b \<Rightarrow> \<not> b)
     \<and> (messages body = [new_blocks Role_User [text_block ''Hi'']]
        \<or> messages body = [new_text Role_User ''Hi''])"

text \<open>\<open>Inl\<close> the test message, which is answered without an upstream request.\<close>

definition claude_code_preprocess ::
  "request_env \<Rightarrow> http_request \<Rightarrow> CreateMessageParams \<Rightarrow> ClewdrError + CreateMessageParams \<times> ClaudeContext" where
  "claude_code_preprocess env req body0 =
     (let auth = hr_auth_user req;
          beta = extract_anthropic_beta_header (hr_headers req);
          session = header_text (hr_headers req) ''x-claude-code-session-id'';
          counting = is_count_tokens_path (hr_path req);
          body1 = normalize_sampling_params (re_profile env)
                    (drop_empty_message_text_blocks (drop_empty_system body0))
      in if is_test_request body1 then Inl TestMessage
         else
           let body2 = strip_billing_headers_from_system body1;
               body3 = unscope_system (if counting then body2 else with_billing_header env body2);
               (body4, fallback) = (if counting then (body3\<lparr>fallbacks := None\<rparr>, False)
                                    else apply_fable_fallback (apply_auto_cache auth body3));
               beta' = (if fallback then ensure_anthropic_beta_token beta SERVER_SIDE_FALLBACK_BETA else beta);
               cx = build_claude_context env body4 auth beta' session
           in Inr (body4, tag_audit ''anthropic'' (hr_audit req) (cx\<lparr>
                cx_non_stream_keepalive := \<not> counting \<and> \<not> cx_stream cx
                  \<and> non_stream_keepalive_requested (re_keepalive env) (hr_headers req),
                cx_non_stream_keepalive_interval_ms :=
                  non_stream_keepalive_interval_ms (re_keepalive_interval env) (hr_headers req)\<rparr>)))"

record OpenAIChatPreprocess =
  op_params :: CreateMessageParams
  op_context :: ClaudeContext
  op_include_reasoning :: bool
  op_include_usage :: bool

definition openai_chat_preprocess ::
  "request_env \<Rightarrow> http_request \<Rightarrow> ChatCompletionRequest \<Rightarrow> OpenAIRequestError + OpenAIChatPreprocess" where
  "openai_chat_preprocess env req oai =
     (case translate_request (re_from_str env) (re_tool_id env) oai of
        Inl e \<Rightarrow> Inl e
      | Inr (body0, _) \<Rightarrow>
          let auth = hr_auth_user req;
              body1 = normalize_sampling_params (re_profile env) (fill_system_only_user_placeholder
                        (drop_empty_message_text_blocks (drop_empty_system body0)));
              body3 = unscope_system (with_billing_header env (strip_billing_headers_from_system body1));
              (body4, fallback) = apply_fable_fallback (apply_auto_cache auth body3);
              beta = (if fallback then ensure_anthropic_beta_token None SERVER_SIDE_FALLBACK_BETA else None);
              cx = build_claude_context env body4 auth beta None
          in Inr \<lparr>op_params = body4,
               op_context = tag_audit ''openai'' (hr_audit req) (cx\<lparr>
                 cx_non_stream_keepalive := \<not> cx_stream cx
                   \<and> non_stream_keepalive_requested (re_keepalive env) (hr_headers req),
                 cx_non_stream_keepalive_interval_ms :=
                   non_stream_keepalive_interval_ms (re_keepalive_interval env) (hr_headers req)\<rparr>),
               op_include_reasoning =
                 parse_include_reasoning (map_of (hr_headers req) ''x-include-reasoning''),
               op_include_usage = (case oai_include_usage oai of Some (Some b) \<Rightarrow> b | _ \<Rightarrow> False)\<rparr>)"

end
