(* ===== verification/Openai_Typing.thy ===== *)
theory Openai_Typing
  imports Openai_Request
begin

text \<open>
  What the translation of a chat completion request guarantees: the result is a well-typed Messages
  request whatever the client sent, it carries the client's content in order, and the requests it
  refuses are exactly the unsupported ones.
\<close>

section \<open>The typing of translated requests\<close>

text \<open>
  The blocks a role may carry: no empty text, images of a supported kind, tool inputs that are JSON
  objects, tool results that are strings.
\<close>

fun image_typed :: "ImageSource \<Rightarrow> bool" where
  "image_typed (Base64 media_type _) = (media_type \<in> set SUPPORTED_IMAGE_MEDIA_TYPES)"
| "image_typed (Image_Url url) = (starts_with url ''http://'' \<or> starts_with url ''https://'')"
| "image_typed (Image_File _) = False"

fun block_typed :: "Role \<Rightarrow> ContentBlock \<Rightarrow> bool" where
  "block_typed Role_User (Text t _ _) = (t \<noteq> [])"
| "block_typed Role_User (ImageBlock src _) = image_typed src"
| "block_typed Role_User (ToolResult _ v _ _) = (as_str v \<noteq> None)"
| "block_typed Role_Assistant (Text t _ _) = (t \<noteq> [])"
| "block_typed Role_Assistant (ToolUse _ _ input _ _) = is_object input"
| "block_typed _ _ = False"

fun content_typed :: "Role \<Rightarrow> MessageContent \<Rightarrow> bool" where
  "content_typed r (Content_Text t) = (r = Role_User \<and> t \<noteq> [])"
| "content_typed r (Content_Blocks bs) = (bs \<noteq> [] \<and> list_all (block_typed r) bs)"

definition message_typed :: "Message \<Rightarrow> bool" where
  "message_typed m = content_typed (role m) (content m)"

definition entry_typed :: "json \<Rightarrow> bool" where
  "entry_typed v = (case get_str v ''text'' of
     None \<Rightarrow> False | Some t \<Rightarrow> t \<noteq> [] \<and> get_str v ''type'' = Some ''text'')"

definition system_typed :: "json option \<Rightarrow> bool" where
  "system_typed sys = (case sys of
     None \<Rightarrow> True | Some (JArr xs) \<Rightarrow> xs \<noteq> [] \<and> list_all entry_typed xs | Some _ \<Rightarrow> False)"

definition params_typed :: "CreateMessageParams \<Rightarrow> bool" where
  "params_typed p \<longleftrightarrow>
     list_all message_typed (messages p) \<and> system_typed (system p)
     \<and> (case stop_sequences p of None \<Rightarrow> True | Some ss \<Rightarrow> length ss \<le> 4)
     \<and> tool_choice p \<noteq> Some Choice_None
     \<and> (case metadata p of None \<Rightarrow> True | Some kvs \<Rightarrow> kvs \<noteq> [])"

lemma entry_typed_system_entry [simp]: "entry_typed (system_entry t) \<longleftrightarrow> t \<noteq> []"
  by (simp add: entry_typed_def system_entry_def get_str_def)

lemma push_system_entries_typed [simp]:
  "list_all entry_typed (push_system_entries sys c) \<longleftrightarrow> list_all entry_typed sys"
proof (cases c)
  case (Chat_Parts parts)
  have "list_all entry_typed (part_system p)" for p by (cases p) simp_all
  then have "list_all entry_typed (concat (map part_system parts))"
    by (induction parts) simp_all
  with Chat_Parts show ?thesis by simp
qed simp

lemma image_url_to_block_typed:
  "image_url_to_block url = Inr b \<Longrightarrow> block_typed Role_User b \<and> \<not> is_tool_result b"
  by (auto simp: image_url_to_block_def Let_def split: option.splits if_splits)

lemma parts_to_blocks_typed:
  "parts_to_blocks ps = Inr bs \<Longrightarrow> list_all (\<lambda>b. block_typed Role_User b \<and> \<not> is_tool_result b) bs"
proof (induction ps arbitrary: bs rule: parts_to_blocks.induct)
  case (2 t ps)
  then show ?case by (cases "parts_to_blocks ps") (auto simp: text_block_def split: if_splits)
next
  case (3 url d ps)
  then show ?case
    by (cases "image_url_to_block url"; cases "parts_to_blocks ps")
       (auto dest: image_url_to_block_typed)
qed simp

lemma user_content_typed:
  "user_content_to_blocks c = Inr bs \<Longrightarrow> list_all (\<lambda>b. block_typed Role_User b \<and> \<not> is_tool_result b) bs"
  by (cases c) (auto simp: text_block_def dest: parts_to_blocks_typed)

lemma user_message_typed:
  "list_all (\<lambda>b. block_typed Role_User b \<and> \<not> is_tool_result b) bs
     \<Longrightarrow> list_all message_typed (user_message bs)"
  by (cases bs rule: user_message.cases)
     (auto simp: message_typed_def new_text_def new_blocks_def list_all_iff)

lemma part_text_blocks_typed: "list_all (block_typed Role_Assistant) (concat (map part_text_blocks ps))"
proof (induction ps)
  case (Cons p ps)
  then show ?case by (cases p) (simp_all add: text_block_def)
qed simp

lemma assistant_blocks_typed: "list_all (block_typed Role_Assistant) (assistant_blocks from_str fresh c calls)"
proof -
  have "block_typed Role_Assistant (tool_call_to_block from_str f call)" for f call
    by (simp add: tool_call_to_block_def parse_tool_call_arguments_def split: option.split)
  moreover have "list_all (block_typed Role_Assistant) (assistant_text_to_blocks c [])" for c
    by (cases c) (simp_all add: text_block_def part_text_blocks_typed)
  ultimately show ?thesis
    by (auto simp: assistant_blocks_def list_all_iff split: option.split)
qed

lemma assistant_message_typed:
  "list_all message_typed (assistant_message (assistant_blocks from_str fresh c calls))"
  by (simp add: assistant_message_def message_typed_def new_blocks_def assistant_blocks_typed)

lemma append_tool_result_cases:
  obtains (extend) ms m bs where "msgs = ms @ [m]" "role m = Role_User" "content m = Content_Blocks bs"
      "list_all is_tool_result bs"
      "append_tool_result b msgs = ms @ [m\<lparr>content := Content_Blocks (bs @ [b])\<rparr>]"
    | (fresh) "append_tool_result b msgs = msgs @ [new_blocks Role_User [b]]"
        "msgs = [] \<or> \<not> (role (last msgs) = Role_User
           \<and> (\<exists>bs. content (last msgs) = Content_Blocks bs \<and> list_all is_tool_result bs))"
proof (cases "msgs \<noteq> [] \<and> role (last msgs) = Role_User
     \<and> (\<exists>bs. content (last msgs) = Content_Blocks bs \<and> list_all is_tool_result bs)")
  case True
  then obtain bs where bs: "content (last msgs) = Content_Blocks bs" "list_all is_tool_result bs" by blast
  have "append_tool_result b msgs
      = butlast msgs @ [(last msgs)\<lparr>content := Content_Blocks (bs @ [b])\<rparr>]"
    using True bs by (simp add: append_tool_result_def)
  moreover have "msgs = butlast msgs @ [last msgs]" using True by simp
  ultimately show thesis
    using True bs extend [of "butlast msgs" "last msgs" bs] by blast
next
  case False
  then have "append_tool_result b msgs = msgs @ [new_blocks Role_User [b]]"
    by (auto simp: append_tool_result_def Let_def split: MessageContent.split)
  with False show thesis using fresh by blast
qed

lemma append_tool_result_typed:
  assumes "list_all message_typed msgs" "block_typed Role_User b"
  shows "list_all message_typed (append_tool_result b msgs)"
  using assms
  by (cases rule: append_tool_result_cases [of msgs b]) (auto simp: message_typed_def new_blocks_def)

lemma translate_messages_typed:
  assumes "translate_messages from_str fresh ms sys out = Inr (sys', out')"
    and "list_all entry_typed sys" "list_all message_typed out"
  shows "list_all entry_typed sys' \<and> list_all message_typed out'"
  using assms
proof (induction from_str fresh ms sys out rule: translate_messages.induct)
  case (4 from_str fresh c n ms sys out)
  then show ?case
    by (cases "user_content_to_blocks c") (auto simp: user_content_typed user_message_typed)
qed (simp_all add: assistant_message_typed append_tool_result_typed)

section \<open>The conversation\<close>

text \<open>
  \<open>conversation\<close> reads a message list as the sequence of its blocks, each with the role that says it, and
  \<open>contributed\<close> is what one message of the client adds to it.
\<close>

fun content_blocks :: "MessageContent \<Rightarrow> ContentBlock list" where
  "content_blocks (Content_Text t) = [text_block t]"
| "content_blocks (Content_Blocks bs) = bs"

definition said :: "Message \<Rightarrow> (Role \<times> ContentBlock) list" where
  "said m = map (Pair (role m)) (content_blocks (content m))"

definition conversation :: "Message list \<Rightarrow> (Role \<times> ContentBlock) list" where
  "conversation msgs = concat (map said msgs)"

fun contributed ::
  "(string \<Rightarrow> json option) \<Rightarrow> (nat \<Rightarrow> string) \<Rightarrow> ChatMessage \<Rightarrow> (Role \<times> ContentBlock) list" where
  "contributed from_str fresh (Chat_System _ _) = []"
| "contributed from_str fresh (Chat_Developer _ _) = []"
| "contributed from_str fresh (Chat_User c _) =
     map (Pair Role_User) (case user_content_to_blocks c of Inl _ \<Rightarrow> [] | Inr bs \<Rightarrow> bs)"
| "contributed from_str fresh (Chat_Assistant c calls _) =
     map (Pair Role_Assistant) (assistant_blocks from_str fresh c calls)"
| "contributed from_str fresh (Chat_Tool c ident) =
     [(Role_User, ToolResult ident (JStr (flatten_tool_content c)) None None)]"

fun contributions ::
  "(string \<Rightarrow> json option) \<Rightarrow> (nat \<Rightarrow> nat \<Rightarrow> string) \<Rightarrow> ChatMessage list \<Rightarrow> (Role \<times> ContentBlock) list" where
  "contributions from_str fresh [] = []"
| "contributions from_str fresh (m # ms) =
     contributed from_str (fresh (length ms)) m @ contributions from_str fresh ms"

definition tool_message :: "Message \<Rightarrow> bool" where
  "tool_message m \<longleftrightarrow> role m = Role_User
     \<and> (case content m of Content_Text _ \<Rightarrow> False | Content_Blocks bs \<Rightarrow> list_all is_tool_result bs)"

text \<open>Tool results of one turn are gathered: no two neighbours are both tool messages.\<close>

fun gathered :: "Message list \<Rightarrow> bool" where
  "gathered (m # n # ms) = (\<not> (tool_message m \<and> tool_message n) \<and> gathered (n # ms))"
| "gathered _ = True"

lemma conversation_append [simp]: "conversation (a @ b) = conversation a @ conversation b"
  by (simp add: conversation_def)

lemma conversation_nil [simp]: "conversation [] = []"
  by (simp add: conversation_def)

fun plain_text :: "ContentBlock \<Rightarrow> bool" where
  "plain_text (Text t cc cits) = (cc = None \<and> cits = None)"
| "plain_text _ = True"

lemma parts_to_blocks_plain: "parts_to_blocks ps = Inr bs \<Longrightarrow> list_all plain_text bs"
proof (induction ps arbitrary: bs rule: parts_to_blocks.induct)
  case (2 t ps)
  then show ?case by (cases "parts_to_blocks ps") (auto simp: text_block_def split: if_splits)
next
  case (3 url d ps)
  have "plain_text b" if "image_url_to_block url = Inr b" for b
    using that by (auto simp: image_url_to_block_def Let_def split: option.splits if_splits)
  with 3 show ?case by (cases "image_url_to_block url"; cases "parts_to_blocks ps") auto
qed simp

lemma user_content_plain: "user_content_to_blocks c = Inr bs \<Longrightarrow> list_all plain_text bs"
  by (cases c) (auto simp: text_block_def dest: parts_to_blocks_plain)

lemma conversation_user_message:
  "list_all plain_text bs \<Longrightarrow> conversation (user_message bs) = map (Pair Role_User) bs"
  by (cases bs rule: user_message.cases)
     (auto simp: conversation_def said_def new_text_def new_blocks_def text_block_def)

lemma conversation_assistant_message:
  "conversation (assistant_message bs) = map (Pair Role_Assistant) bs"
  by (simp add: assistant_message_def conversation_def said_def new_blocks_def)

lemma conversation_append_tool_result:
  "conversation (append_tool_result b msgs) = conversation msgs @ [(Role_User, b)]"
  by (cases rule: append_tool_result_cases [of msgs b])
     (auto simp: conversation_def said_def new_blocks_def)

lemma gathered_append:
  "gathered (a @ b) \<longleftrightarrow> gathered a \<and> gathered b
     \<and> (a = [] \<or> b = [] \<or> \<not> (tool_message (last a) \<and> tool_message (hd b)))"
proof (induction a rule: induct_list012)
  case (2 m)
  then show ?case by (cases b) auto
qed auto

lemma gathered_single [simp]: "gathered [m]"
  by simp

lemma gathered_append_tool_result:
  assumes "gathered msgs" "is_tool_result b"
  shows "gathered (append_tool_result b msgs)"
proof (cases rule: append_tool_result_cases [of msgs b])
  case (extend ms m bs)
  have "tool_message (m\<lparr>content := Content_Blocks (bs @ [b])\<rparr>) = tool_message m"
    using extend assms(2) by (simp add: tool_message_def)
  with extend assms(1) show ?thesis by (simp add: gathered_append)
next
  case fresh
  then show ?thesis
    using assms by (auto simp: gathered_append tool_message_def new_blocks_def split: MessageContent.splits)
qed

lemma gathered_user:
  assumes "gathered out" "list_all (\<lambda>b. block_typed Role_User b \<and> \<not> is_tool_result b) bs"
  shows "gathered (out @ user_message bs)"
  using assms
  by (cases bs rule: user_message.cases) (auto simp: gathered_append tool_message_def new_text_def new_blocks_def)

lemma gathered_assistant: "gathered out \<Longrightarrow> gathered (out @ assistant_message bs)"
  by (simp add: assistant_message_def gathered_append tool_message_def new_blocks_def)

lemma translate_messages_conversation:
  assumes "translate_messages from_str fresh ms sys out = Inr (sys', out')" and "gathered out"
  shows "conversation out' = conversation out @ contributions from_str fresh ms \<and> gathered out'"
  using assms
proof (induction from_str fresh ms sys out rule: translate_messages.induct)
  case (4 from_str fresh c n ms sys out)
  then show ?case
    by (cases "user_content_to_blocks c")
       (auto simp: conversation_user_message user_content_plain gathered_user user_content_typed)
qed (simp_all add: conversation_assistant_message conversation_append_tool_result
       gathered_append_tool_result gathered_assistant)

section \<open>Shape of a translated request\<close>

lemma translate_request_cases:
  assumes "translate_request from_str fresh oai = Inr (p, strm)"
  obtains sys msgs choice where
    "translate_messages from_str fresh (oai_messages oai) [] [] = Inr (sys, msgs)"
    "messages p = msgs" "system p = (if sys = [] then None else Some (JArr sys))"
    "stop_sequences p = map_option stop_list (oai_stop oai)" "stream p = Some strm"
    "tool_choice p = (if choice = Some Choice_None then None else choice)"
    "metadata p = translate_metadata (oai_metadata oai) (oai_user oai)"
proof -
  from assms obtain sys msgs where m:
    "translate_messages from_str fresh (oai_messages oai) [] [] = Inr (sys, msgs)"
    by (auto simp: translate_request_def split: option.splits sum.splits)
  from assms m obtain choice where c:
    "(case oai_tool_choice oai of None \<Rightarrow> Inr None | Some c \<Rightarrow> translate_tool_choice c) = Inr choice"
    by (auto simp: translate_request_def split: option.splits sum.splits)
  from assms have "check_limits oai = None"
    by (auto simp: translate_request_def split: option.splits)
  with assms m c have "messages p = msgs" "system p = (if sys = [] then None else Some (JArr sys))"
    "stop_sequences p = map_option stop_list (oai_stop oai)" "stream p = Some strm"
    "tool_choice p = (if choice = Some Choice_None then None else choice)"
    "metadata p = translate_metadata (oai_metadata oai) (oai_user oai)"
    by (auto simp: translate_request_def Let_def split: if_splits)
  with m show thesis by (rule that)
qed

lemma stop_list_bound: "length (stop_list s) \<le> 4"
  by (simp add: stop_list_def split: StringOrVec.split)

lemma translate_metadata_nonempty: "translate_metadata meta user \<noteq> Some []"
  by (auto simp: translate_metadata_def Let_def split: if_splits)

section \<open>Refused requests\<close>

fun refused_part :: "ContentPart \<Rightarrow> bool" where
  "refused_part (Part_Text _) = False"
| "refused_part (Part_ImageUrl url _) = isl (image_url_to_block url)"

fun refused_message :: "ChatMessage \<Rightarrow> bool" where
  "refused_message (Chat_User (Chat_Parts ps) _) = list_ex refused_part ps"
| "refused_message _ = False"

fun refused_choice :: "ChatToolChoice \<Rightarrow> bool" where
  "refused_choice (Mode mode) = (mode \<notin> {''auto'', ''required'', ''none''})"
| "refused_choice (Specific _ _) = False"

definition unsupported :: "ChatCompletionRequest \<Rightarrow> bool" where
  "unsupported oai \<longleftrightarrow>
     (case oai_n oai of None \<Rightarrow> False | Some n \<Rightarrow> n > 1) \<or> oai_logprobs oai = Some True
     \<or> list_ex refused_message (oai_messages oai)
     \<or> (case oai_tool_choice oai of None \<Rightarrow> False | Some c \<Rightarrow> refused_choice c)"

definition client_error :: "OpenAIRequestError \<Rightarrow> bool" where
  "client_error e \<longleftrightarrow> req_status e = 400 \<and> err_kind (req_body e) = ''invalid_request_error''"

lemma client_error_bad_request [simp]: "client_error (bad_request m)"
  by (simp add: client_error_def bad_request_def invalid_request_def)

lemma image_url_to_block_error: "image_url_to_block url = Inl e \<Longrightarrow> client_error e"
  by (auto simp: image_url_to_block_def Let_def split: option.splits if_splits)

lemma parts_to_blocks_error:
  "case parts_to_blocks ps of Inl e \<Rightarrow> list_ex refused_part ps \<and> client_error e
   | Inr _ \<Rightarrow> \<not> list_ex refused_part ps"
proof (induction ps rule: parts_to_blocks.induct)
  case (2 t ps)
  then show ?case by (cases "parts_to_blocks ps") simp_all
next
  case (3 url d ps)
  then show ?case
    by (cases "image_url_to_block url"; cases "parts_to_blocks ps")
       (auto simp: image_url_to_block_error)
qed simp

lemma user_content_error:
  "case user_content_to_blocks c of Inl e \<Rightarrow> refused_message (Chat_User c n) \<and> client_error e
   | Inr _ \<Rightarrow> \<not> refused_message (Chat_User c n)"
proof (cases c)
  case (Chat_Parts ps)
  with parts_to_blocks_error [of ps] show ?thesis by (simp split: sum.splits)
qed simp

lemma translate_messages_error:
  "case translate_messages from_str fresh ms sys out of
     Inl e \<Rightarrow> list_ex refused_message ms \<and> client_error e
   | Inr _ \<Rightarrow> \<not> list_ex refused_message ms"
proof (induction from_str fresh ms sys out rule: translate_messages.induct)
  case (4 from_str fresh c n ms sys out)
  with user_content_error [of c n] show ?case
    by (cases "user_content_to_blocks c")
       (auto split: sum.splits)
qed (simp_all split: sum.splits)

lemma translate_tool_choice_error:
  "case translate_tool_choice c of Inl e \<Rightarrow> refused_choice c \<and> client_error e | Inr _ \<Rightarrow> \<not> refused_choice c"
  by (cases c) simp_all

lemma check_limits_error:
  "case check_limits oai of
     Some e \<Rightarrow> unsupported oai \<and> client_error e
   | None \<Rightarrow> \<not> (case oai_n oai of None \<Rightarrow> False | Some n \<Rightarrow> n > 1) \<and> oai_logprobs oai \<noteq> Some True"
  by (simp add: check_limits_def unsupported_def)

section \<open>Results\<close>

text \<open>
  Whatever an OpenAI client sends, a request that is translated is well typed for the Messages API:
  messages are from the user or the assistant and not empty, no text is empty, images are of a
  supported type, tool inputs are JSON objects, the system prompt is a list of non-empty text entries,
  at most four stop sequences are sent, and \<open>tool_choice: none\<close> is never forwarded.
\<close>

theorem translated_request_typed:
  assumes "translate_request from_str fresh oai = Inr (p, strm)"
  shows "params_typed p \<and> stream p = Some strm"
proof -
  obtain sys msgs choice where
    m: "translate_messages from_str fresh (oai_messages oai) [] [] = Inr (sys, msgs)"
    and p: "messages p = msgs" "system p = (if sys = [] then None else Some (JArr sys))"
      "stop_sequences p = map_option stop_list (oai_stop oai)" "stream p = Some strm"
      "tool_choice p = (if choice = Some Choice_None then None else choice)"
      "metadata p = translate_metadata (oai_metadata oai) (oai_user oai)"
    by (rule translate_request_cases [OF assms])
  have "list_all entry_typed sys \<and> list_all message_typed msgs"
    using translate_messages_typed [OF m] by simp
  with p show ?thesis
    by (auto simp: params_typed_def system_typed_def stop_list_bound translate_metadata_nonempty
          split: option.splits)
qed

text \<open>
  The translation keeps the conversation: reading the translated messages block by block gives the
  non-empty contents of the client's user, assistant and tool messages in their order and with their
  roles, and the results of parallel tool calls are gathered in one user message.
\<close>

theorem translated_request_keeps_conversation:
  assumes "translate_request from_str fresh oai = Inr (p, strm)"
  shows "conversation (messages p) = contributions from_str fresh (oai_messages oai)
         \<and> gathered (messages p)"
proof -
  obtain sys msgs where
    m: "translate_messages from_str fresh (oai_messages oai) [] [] = Inr (sys, msgs)"
    and p: "messages p = msgs"
    by (rule translate_request_cases [OF assms])
  from translate_messages_conversation [OF m] p show ?thesis by simp
qed

text \<open>
  The translation refuses exactly the unsupported requests (several completions, log
  probabilities, an image that is no supported data URL and no web address, an unknown tool choice
  mode), and every refusal is an HTTP 400 with an \<open>invalid_request_error\<close>.
\<close>

theorem refused_exactly_unsupported:
  "case translate_request from_str fresh oai of
     Inl e \<Rightarrow> unsupported oai \<and> req_status e = 400 \<and> err_kind (req_body e) = ''invalid_request_error''
   | Inr _ \<Rightarrow> \<not> unsupported oai"
proof -
  note limits = check_limits_error [of oai]
    and msgs = translate_messages_error [where from_str = from_str and fresh = fresh
        and ms = "oai_messages oai" and sys = "[]" and out = "[]"]
  show ?thesis
  proof (cases "check_limits oai")
    case (Some e)
    with limits show ?thesis by (simp add: translate_request_def client_error_def)
  next
    case ok: None
    show ?thesis
    proof (cases "translate_messages from_str fresh (oai_messages oai) [] []")
      case (Inl e)
      with ok msgs show ?thesis by (simp add: translate_request_def client_error_def unsupported_def)
    next
      case (Inr sm)
      obtain sys out where sm: "sm = (sys, out)" by (cases sm)
      show ?thesis
      proof (cases "oai_tool_choice oai")
        case None
        with ok Inr sm limits msgs show ?thesis
          by (simp add: translate_request_def Let_def unsupported_def)
      next
        case (Some c)
        with ok Inr sm limits msgs translate_tool_choice_error [of c] show ?thesis
          by (auto simp: translate_request_def Let_def unsupported_def client_error_def split: sum.splits)
      qed
    qed
  qed
qed

section \<open>Witnesses\<close>

definition sample_parse :: "string \<Rightarrow> json option" where
  "sample_parse s = (if s = ''{}'' then Some (JObj []) else None)"

definition sample_call :: ToolCall where
  "sample_call = \<lparr>tc_id = None, tc_kind = None, tc_name = ''look'', tc_arguments = ''{}''\<rparr>"

definition sample_oai :: ChatCompletionRequest where
  "sample_oai =
     \<lparr>oai_model = ''claude-opus-4-8'',
      oai_messages =
        [Chat_System (Chat_Text ''Be brief.'') None,
         Chat_User (Chat_Parts [Part_Text ''What is this?'',
           Part_ImageUrl ''data:image/PNG;base64,AAAA'' None]) None,
         Chat_Assistant (Some (Chat_Text [])) (Some [sample_call, sample_call]) None,
         Chat_Tool (Chat_Text ''a cat'') ''toolu_1'', Chat_Tool (Chat_Text []) ''toolu_2'',
         Chat_User (Chat_Text ''Thanks'') None],
      oai_max_tokens = None, oai_max_completion_tokens = None, oai_temperature = None,
      oai_top_p = None, oai_top_k = None,
      oai_stop = Some (Stop_Vec [''a'', ''b'', ''c'', ''d'', ''e'']), oai_stream = Some True,
      oai_include_usage = None, oai_tools = None, oai_tool_choice = Some (Mode ''none''),
      oai_response_format = None, oai_reasoning_effort = Some ''HIGH'', oai_user = Some ''me'',
      oai_n = Some 1, oai_logprobs = None, oai_metadata = None\<rparr>"

lemma sample_oai_accepted:
  "\<not> isl (translate_request sample_parse (\<lambda>i j. show_nat i @ show_nat j) sample_oai)"
  by code_simp

theorem translated_request_typed_witness:
  "\<exists>p strm. translate_request sample_parse (\<lambda>i j. show_nat i @ show_nat j) sample_oai = Inr (p, strm)
     \<and> params_typed p \<and> stream p = Some strm"
proof -
  obtain p strm where
    "translate_request sample_parse (\<lambda>i j. show_nat i @ show_nat j) sample_oai = Inr (p, strm)"
    using sample_oai_accepted
    by (cases "translate_request sample_parse (\<lambda>i j. show_nat i @ show_nat j) sample_oai") auto
  with translated_request_typed [OF this] show ?thesis by blast
qed

theorem translated_request_keeps_conversation_witness:
  "\<exists>p strm. translate_request sample_parse (\<lambda>i j. show_nat i @ show_nat j) sample_oai = Inr (p, strm)
     \<and> conversation (messages p)
       = contributions sample_parse (\<lambda>i j. show_nat i @ show_nat j) (oai_messages sample_oai)
     \<and> gathered (messages p)"
proof -
  obtain p strm where
    "translate_request sample_parse (\<lambda>i j. show_nat i @ show_nat j) sample_oai = Inr (p, strm)"
    using sample_oai_accepted
    by (cases "translate_request sample_parse (\<lambda>i j. show_nat i @ show_nat j) sample_oai") auto
  with translated_request_keeps_conversation [OF this] show ?thesis by blast
qed

end
