(* ===== verification/Claude_Pipeline.thy ===== *)
theory Claude_Pipeline
  imports Claude_Preprocess Openai_Typing
begin

text \<open>
  What the request extractors guarantee about the request they hand to the upstream and its context.
\<close>

section \<open>Beta tokens\<close>

lemma strip_while_suffix: "\<exists>p. s = p @ strip_while n ws s"
proof (induction n arbitrary: s)
  case (Suc n)
  show ?case
  proof (cases "leading_space ws s")
    case (Some r)
    then obtain w where "s = w @ r" using leading_space_Some by blast
    with Suc [of r] Some show ?thesis by (metis append.assoc option.simps(5) strip_while.simps(2))
  qed simp
qed simp

lemma leading_space_None_iff: "leading_space ws s = None \<longleftrightarrow> (\<forall>w \<in> set ws. \<not> starts_with s w)"
  by (induction ws) (auto simp: strip_prefix_def split: option.splits if_splits)

lemma leading_space_prefix: "leading_space ws (p @ q) = None \<Longrightarrow> leading_space ws p = None"
  by (fastforce simp: leading_space_None_iff starts_with_iff)

lemma strip_while_clean: "leading_space ws s = None \<Longrightarrow> strip_while n ws s = s"
  by (cases n) simp_all

lemma trim_idem [simp]: "trim (trim s) = trim s"
proof -
  let ?t = "trim_start s"
  have e: "leading_space (map rev white_space) (rev (trim_end ?t)) = None"
    unfolding trim_end_def rev_rev_ident
    by (rule strip_while_done) (auto simp: white_space_nonempty)
  obtain p where "rev ?t = p @ rev (trim_end ?t)"
    using strip_while_suffix [of "rev ?t" "length ?t" "map rev white_space"] by (auto simp: trim_end_def)
  then have "?t = trim_end ?t @ rev p" by (metis rev_append rev_rev_ident)
  then have "leading_space white_space (trim_end ?t) = None"
    using trim_start_done [of s] by (metis leading_space_prefix)
  then have "trim_start (trim_end ?t) = trim_end ?t"
    by (simp add: trim_start_def strip_while_clean)
  moreover have "trim_end (trim_end ?t) = trim_end ?t"
    using e by (simp add: trim_end_def [of "trim_end ?t"] strip_while_clean)
  ultimately show ?thesis by (simp add: trim_def)
qed

definition token_ok :: "string \<Rightarrow> bool" where
  "token_ok t \<longleftrightarrow> t \<noteq> [] \<and> trim t = t \<and> CHR '','' \<notin> set t"

lemma set_trim: "set (trim s) \<subseteq> set s"
proof -
  have "set (trim_start s) \<subseteq> set s" for s
    using strip_while_suffix [of s "length s" white_space] by (metis Un_iff set_append subsetI trim_start_def)
  moreover have "set (trim_end s) \<subseteq> set s" for s
    using strip_while_suffix [of "rev s" "length s" "map rev white_space"]
    by (metis Un_iff set_append set_rev subsetI trim_end_def)
  ultimately show ?thesis by (metis (no_types) subset_trans trim_def)
qed

lemma beta_tokens_ok: "t \<in> set (beta_tokens raw) \<Longrightarrow> token_ok t"
  using split_on_no_sep set_trim by (fastforce simp: beta_tokens_def token_ok_def)

lemma beta_tokens_join: "\<forall>t \<in> set ts. token_ok t \<Longrightarrow> ts \<noteq> [] \<Longrightarrow> beta_tokens (join_with '','' ts) = ts"
proof -
  assume ok: "\<forall>t \<in> set ts. token_ok t" and "ts \<noteq> []"
  then have "split_on (CHR '','') (join_with '','' ts) = ts"
    by (intro split_on_join) (auto simp: token_ok_def)
  moreover have "map trim ts = ts" "filter (\<lambda>t. t \<noteq> []) ts = ts"
    using ok by (auto simp: token_ok_def map_idI filter_id_conv)
  ultimately show ?thesis by (simp add: beta_tokens_def)
qed

lemma dedup_tokens_set:
  "to_ascii_lowercase ` set (dedup_tokens seen ts) = to_ascii_lowercase ` set ts - seen"
  by (induction ts arbitrary: seen) auto

lemma dedup_tokens_subset: "set (dedup_tokens seen ts) \<subseteq> set ts"
  by (induction ts arbitrary: seen) auto

lemma dedup_tokens_distinct: "distinct (map to_ascii_lowercase (dedup_tokens seen ts))"
proof (induction ts arbitrary: seen)
  case (Cons t ts)
  have "to_ascii_lowercase t \<notin> to_ascii_lowercase ` set (dedup_tokens (insert (to_ascii_lowercase t) seen) ts)"
    by (simp add: dedup_tokens_set)
  with Cons show ?case by auto
qed simp

lemma dedup_tokens_fixed:
  assumes "distinct (map to_ascii_lowercase ts)" "to_ascii_lowercase ` set ts \<inter> seen = {}"
  shows "dedup_tokens seen ts = ts"
  using assms by (induction ts arbitrary: seen) auto

lemma dedup_tokens_append_seen:
  assumes "distinct (map to_ascii_lowercase ts)" "to_ascii_lowercase ` set ts \<inter> seen = {}"
    and "to_ascii_lowercase r \<in> seen \<union> to_ascii_lowercase ` set ts"
  shows "dedup_tokens seen (ts @ [r]) = ts"
  using assms by (induction ts arbitrary: seen) auto

lemma merged_tokens_ok:
  assumes "token_ok required"
  shows "\<forall>t \<in> set (merged_tokens current required). token_ok t"
    "to_ascii_lowercase ` set (merged_tokens current required)
       = to_ascii_lowercase ` (set (beta_tokens (unwrap_or_default current)) \<union> {required})"
    "distinct (map to_ascii_lowercase (merged_tokens current required))"
proof -
  have m: "merged_tokens current required
      = dedup_tokens {} (beta_tokens (unwrap_or_default current) @ [required])"
    using assms by (simp add: merged_tokens_def token_ok_def)
  show "\<forall>t \<in> set (merged_tokens current required). token_ok t"
    using dedup_tokens_subset [of "{}" "beta_tokens (unwrap_or_default current) @ [required]"]
      beta_tokens_ok assms by (auto simp: m)
  show "to_ascii_lowercase ` set (merged_tokens current required)
       = to_ascii_lowercase ` (set (beta_tokens (unwrap_or_default current)) \<union> {required})"
    by (simp add: m dedup_tokens_set)
  show "distinct (map to_ascii_lowercase (merged_tokens current required))"
    by (simp add: m dedup_tokens_distinct)
qed

lemma ensure_beta_tokens:
  assumes "token_ok required"
  shows "\<exists>h. ensure_anthropic_beta_token current required = Some h
     \<and> beta_tokens h = merged_tokens current required
     \<and> ensure_anthropic_beta_token (Some h) required = Some h"
proof -
  let ?ts = "merged_tokens current required"
  note ok = merged_tokens_ok [OF assms, of current]
  have ne: "?ts \<noteq> []" using ok(2) by auto
  have h: "ensure_anthropic_beta_token current required = Some (join_with '','' ?ts)"
    using ne by (simp add: ensure_anthropic_beta_token_def Let_def)
  have b: "beta_tokens (join_with '','' ?ts) = ?ts"
    using beta_tokens_join ok(1) ne by blast
  have "merged_tokens (Some (join_with '','' ?ts)) required = ?ts"
    using assms ok(2,3) b
    by (simp add: merged_tokens_def [of "Some _"] unwrap_or_default_def dedup_tokens_append_seen token_ok_def)
  with h b ne show ?thesis by (simp add: ensure_anthropic_beta_token_def Let_def)
qed

section \<open>Frames of the shaping steps\<close>

text \<open>The steps after the normalisation touch the system prompt, the cache mark and the fallbacks only.\<close>

definition same_conversation :: "CreateMessageParams \<Rightarrow> CreateMessageParams \<Rightarrow> bool" where
  "same_conversation a b \<longleftrightarrow> (\<exists>s c f. b = a\<lparr>system := s, cache_control := c, fallbacks := f\<rparr>)"

lemma same_conversationI:
  "same_conversation a (a\<lparr>system := s\<rparr>)" "same_conversation a (a\<lparr>fallbacks := f\<rparr>)"
  "same_conversation a (a\<lparr>cache_control := c\<rparr>)" "same_conversation a a"
proof -
  have "a\<lparr>system := s\<rparr> = a\<lparr>system := s, cache_control := cache_control a, fallbacks := fallbacks a\<rparr>"
    "a\<lparr>fallbacks := f\<rparr> = a\<lparr>system := system a, cache_control := cache_control a, fallbacks := f\<rparr>"
    "a\<lparr>cache_control := c\<rparr> = a\<lparr>system := system a, cache_control := c, fallbacks := fallbacks a\<rparr>"
    "a = a\<lparr>system := system a, cache_control := cache_control a, fallbacks := fallbacks a\<rparr>"
    by (cases a; simp)+
  then show "same_conversation a (a\<lparr>system := s\<rparr>)" "same_conversation a (a\<lparr>fallbacks := f\<rparr>)"
    "same_conversation a (a\<lparr>cache_control := c\<rparr>)" "same_conversation a a"
    unfolding same_conversation_def by blast+
qed

lemma same_conversation_trans [trans]: "same_conversation a b \<Longrightarrow> same_conversation b c \<Longrightarrow> same_conversation a c"
  by (fastforce simp: same_conversation_def)

lemma same_conversation_steps:
  "same_conversation a (strip_billing_headers_from_system a)" "same_conversation a (with_billing_header env a)"
  "same_conversation a (unscope_system a)" "same_conversation a (apply_auto_cache auth a)"
  "same_conversation a (fst (apply_fable_fallback a))"
  by (simp_all add: strip_billing_headers_from_system_def with_billing_header_def prepend_system_blocks_def
        unscope_system_def apply_auto_cache_def apply_fable_fallback_def same_conversationI split: option.split)

lemma same_conversation_accepted: "same_conversation a b \<Longrightarrow> accepted a \<Longrightarrow> accepted b"
  by (auto simp: same_conversation_def accepted_alt effective_effort_def)

lemma same_conversation_fields:
  assumes "same_conversation a b"
  shows "messages b = messages a" "model b = model a" "stream b = stream a" "metadata b = metadata a"
  using assms by (auto simp: same_conversation_def)

text \<open>The final shape: the request after the normalisation with its system prompt finished.\<close>

definition normal_body :: "request_env \<Rightarrow> CreateMessageParams \<Rightarrow> CreateMessageParams" where
  "normal_body env body = normalize_sampling_params (re_profile env)
     (drop_empty_message_text_blocks (drop_empty_system body))"

definition finished_body :: "request_env \<Rightarrow> bool \<Rightarrow> CreateMessageParams \<Rightarrow> CreateMessageParams" where
  "finished_body env counting body =
     (let body2 = strip_billing_headers_from_system (normal_body env body)
      in unscope_system (if counting then body2 else with_billing_header env body2))"

lemma claude_code_preprocess_cases:
  assumes "claude_code_preprocess env req body0 = Inr (body, cx)"
  shows "same_conversation (normal_body env body0) body
     \<and> system body = system (finished_body env (is_count_tokens_path (hr_path req)) body0)
     \<and> cx_stream cx = (stream body = Some True)
     \<and> cx_non_stream_keepalive_interval_ms cx
         = non_stream_keepalive_interval_ms (re_keepalive_interval env) (hr_headers req)"
proof -
  let ?n = "normal_body env body0" and ?c = "is_count_tokens_path (hr_path req)"
  let ?auth = "hr_auth_user req"
  have nt: "\<not> is_test_request ?n"
    using assms by (auto simp: claude_code_preprocess_def Let_def normal_body_def)
  define b4 where "b4 = (if ?c then ((finished_body env ?c body0)\<lparr>fallbacks := None\<rparr>, False)
      else apply_fable_fallback (apply_auto_cache ?auth (finished_body env ?c body0)))"
  have "body = fst b4 \<and> cx_stream cx = (stream body = Some True)
      \<and> cx_non_stream_keepalive_interval_ms cx
         = non_stream_keepalive_interval_ms (re_keepalive_interval env) (hr_headers req)"
    using assms nt
    by (auto simp: claude_code_preprocess_def b4_def finished_body_def normal_body_def Let_def
          case_prod_beta tag_audit_def build_claude_context_def split: option.splits)
  moreover have "same_conversation ?n (finished_body env ?c body0)"
    using same_conversation_trans [OF same_conversation_steps(1) same_conversation_steps(3)]
      same_conversation_trans [OF same_conversation_trans [OF same_conversation_steps(1,2)] same_conversation_steps(3)]
    by (simp add: finished_body_def Let_def)
  moreover have "same_conversation (finished_body env ?c body0) (fst b4)"
    by (auto simp: b4_def intro: same_conversation_trans same_conversation_steps same_conversationI)
  moreover have "system (fst b4) = system (finished_body env ?c body0)"
    by (simp add: b4_def apply_fable_fallback_def apply_auto_cache_def split: option.split)
  ultimately show ?thesis by (auto intro: same_conversation_trans)
qed

lemma claude_code_preprocess_total:
  "\<not> is_test_request (normal_body env body0)
     \<Longrightarrow> \<exists>body cx. claude_code_preprocess env req body0 = Inr (body, cx)"
  by (simp add: claude_code_preprocess_def normal_body_def Let_def case_prod_beta)

lemma openai_chat_preprocess_total:
  "\<not> isl (translate_request (re_from_str env) (re_tool_id env) oai)
     \<Longrightarrow> \<exists>op. openai_chat_preprocess env req oai = Inr op"
  by (cases "translate_request (re_from_str env) (re_tool_id env) oai")
     (auto simp: openai_chat_preprocess_def Let_def case_prod_beta)

lemma interval_bounds:
  "250 \<le> non_stream_keepalive_interval_ms c h" "non_stream_keepalive_interval_ms c h \<le> 60000"
  by (simp_all add: non_stream_keepalive_interval_ms_def clamp_interval_def)

section \<open>The billing header\<close>

text \<open>
  A header of the client that outlives the stripping: a second header line of a string prompt, or a
  prompt that is a single text object.
\<close>

fun residual_header :: "json option \<Rightarrow> bool" where
  "residual_header (Some (JStr t)) = (case strip_leading_billing_header t of
     None \<Rightarrow> False | Some s \<Rightarrow> is_billing_header_text s)"
| "residual_header (Some (JObj kvs)) = billing_entry (JObj kvs)"
| "residual_header _ = False"

lemma unscope_entry_billing [simp]: "billing_entry (unscope_entry v) = billing_entry v"
  by (cases v) (simp_all add: hm_get_modify)

lemma strip_while_Nil:
  "strip_while n ws s = [] \<Longrightarrow> \<exists>vs. set vs \<subseteq> set ws \<and> s = concat vs"
proof (induction n arbitrary: s)
  case 0
  then show ?case by (intro exI [of _ "[]"]) simp
next
  case (Suc n)
  show ?case
  proof (cases "leading_space ws s")
    case None
    with Suc.prems show ?thesis by (intro exI [of _ "[]"]) simp
  next
    case (Some r)
    then obtain w where w: "w \<in> set ws" "s = w @ r" using leading_space_Some by blast
    from Suc Some obtain vs where "set vs \<subseteq> set ws" "r = concat vs" by auto
    with w show ?thesis by (intro exI [of _ "w # vs"]) simp
  qed
qed

lemma trim_Nil: "trim s = [] \<Longrightarrow> trim_start s = []"
proof (rule ccontr)
  assume "trim s = []" and ne: "trim_start s \<noteq> []"
  then have "strip_while (length (trim_start s)) (map rev white_space) (rev (trim_start s)) = []"
    by (simp add: trim_def trim_end_def)
  then obtain vs where vs: "set vs \<subseteq> rev ` set white_space" "rev (trim_start s) = concat vs"
    using strip_while_Nil by fastforce
  then have t: "trim_start s = concat (rev (map rev vs))"
    by (metis rev_concat rev_map rev_rev_ident)
  with ne have "vs \<noteq> []" by auto
  then obtain us v where "vs = us @ [v]" by (metis rev_exhaust)
  with t vs(1) have "starts_with (trim_start s) (rev v)" "rev v \<in> set white_space"
    by (auto simp: starts_with_iff)
  with trim_start_done [of s] show False by (auto simp: leading_space_None_iff)
qed

lemma blank_not_billing: "trim t = [] \<Longrightarrow> \<not> is_billing_header_text t"
  by (simp add: is_billing_header_text_def trim_Nil to_ascii_lowercase_def BILLING_PREFIX_def)

lemma empty_not_residual: "empty_system s \<Longrightarrow> \<not> residual_header (Some s)"
  by (cases s) (simp_all add: strip_leading_billing_header_def blank_not_billing)

lemma prefixed_residual:
  "\<exists>rest. prefixed_system [h] (Option.bind s strip_system) = h # rest
     \<and> ((\<exists>v \<in> set rest. billing_entry v) \<longleftrightarrow> residual_header s)"
proof (cases s)
  case (Some v)
  show ?thesis
  proof (cases v)
    case (JStr t)
    have "is_billing_header_text r = billing_entry (content_block_json (text_block r))" for r by simp
    with Some JStr show ?thesis
      by (cases "strip_leading_billing_header t") (auto simp: blank_not_billing)
  qed (use Some in auto)
qed simp

lemma header_shape:
  "\<exists>hdr rest. system (unscope_system (with_billing_header env (strip_billing_headers_from_system body)))
       = Some (JArr (hdr # rest)) \<and> billing_entry hdr
     \<and> ((\<exists>v \<in> set rest. billing_entry v) \<longleftrightarrow> residual_header (system body))"
proof -
  let ?h = "content_block_json (text_block (claude_code_billing_header (re_sha256_hex env)
    (re_entrypoint env) (messages body) (re_profile env)))"
  obtain rest where rest: "prefixed_system [?h] (Option.bind (system body) strip_system) = ?h # rest"
    "(\<exists>v \<in> set rest. billing_entry v) \<longleftrightarrow> residual_header (system body)"
    using prefixed_residual by blast
  have "system (unscope_system (with_billing_header env (strip_billing_headers_from_system body)))
      = Some (JArr (unscope_entry ?h # map unscope_entry rest))"
    using rest(1)
    by (simp add: unscope_system_def with_billing_header_def prepend_system_blocks_def
          strip_billing_headers_from_system_def del: content_block_json_text)
  moreover have "billing_entry ?h"
    by (simp add: claude_code_billing_header_def billing_header_is_header del: content_block_json_text)
  ultimately show ?thesis
    using rest(2)
    by (intro exI [of _ "unscope_entry ?h"] exI [of _ "map unscope_entry rest"])
       (simp del: content_block_json_text)
qed

lemma drop_empty_messages_system [simp]: "system (drop_empty_message_text_blocks body) = system body"
  by (simp add: drop_empty_message_text_blocks_def fill_system_only_user_placeholder_def Let_def)

lemma normal_body_system: "residual_header (system (normal_body env body)) = residual_header (system body)"
  by (auto simp: normal_body_def drop_empty_system_def empty_not_residual split: option.split)

lemma normal_body_ready:
  "accepted (normal_body env body)" "list_all message_filled (messages (normal_body env body))"
  by (simp_all add: normal_body_def normalize_accepted drop_empty_messages_filled)

section \<open>Results\<close>

text \<open>
  A request accepted on the Messages surface is ready to be sent: it satisfies the demands of its
  model family, no message and no text block at any depth is empty, the context streams exactly if the
  request asks for it, and the heartbeat interval is between 250 ms and one minute whatever the headers
  say.
\<close>

theorem claude_request_ready:
  assumes "claude_code_preprocess env req body0 = Inr (body, cx)"
  shows "accepted body \<and> list_all message_filled (messages body)
     \<and> cx_stream cx = (stream body = Some True)
     \<and> 250 \<le> cx_non_stream_keepalive_interval_ms cx
     \<and> cx_non_stream_keepalive_interval_ms cx \<le> 60000"
proof -
  from claude_code_preprocess_cases [OF assms] have same: "same_conversation (normal_body env body0) body"
    and cx: "cx_stream cx = (stream body = Some True)"
      "cx_non_stream_keepalive_interval_ms cx
         = non_stream_keepalive_interval_ms (re_keepalive_interval env) (hr_headers req)"
    by auto
  from same_conversation_accepted [OF same normal_body_ready(1)] same_conversation_fields [OF same]
    normal_body_ready(2) cx interval_bounds
  show ?thesis by simp
qed

text \<open>
  On the Messages surface the system prompt that is sent starts with the gateway's billing header,
  and a further billing header is sent exactly if the client's prompt is a string with a second header
  line or a single text object with a header; every other header of a client is removed.
\<close>

theorem billing_header_once:
  assumes "claude_code_preprocess env req body0 = Inr (body, cx)"
    and "\<not> is_count_tokens_path (hr_path req)"
  shows "\<exists>hdr rest. system body = Some (JArr (hdr # rest)) \<and> billing_entry hdr
     \<and> ((\<exists>v \<in> set rest. billing_entry v) \<longleftrightarrow> residual_header (system body0))"
  using claude_code_preprocess_cases [OF assms(1)] assms(2) header_shape [of env "normal_body env body0"]
  by (simp add: finished_body_def Let_def normal_body_system)

text \<open>
  A request accepted on the OpenAI surface is ready to be sent: it satisfies the demands of its
  model family, no message and no text block is empty, the system prompt starts with the gateway's
  billing header, and no other billing header is sent.
\<close>

theorem openai_request_ready:
  assumes "openai_chat_preprocess env req oai = Inr op"
  shows "accepted (op_params op) \<and> list_all message_filled (messages (op_params op))
     \<and> (\<exists>hdr rest. system (op_params op) = Some (JArr (hdr # rest)) \<and> billing_entry hdr
          \<and> \<not> (\<exists>v \<in> set rest. billing_entry v))"
proof -
  obtain body0 strm where tr: "translate_request (re_from_str env) (re_tool_id env) oai = Inr (body0, strm)"
    using assms by (auto simp: openai_chat_preprocess_def split: sum.splits)
  define b1 where "b1 = normalize_sampling_params (re_profile env) (fill_system_only_user_placeholder
      (drop_empty_message_text_blocks (drop_empty_system body0)))"
  define b3 where "b3 = unscope_system (with_billing_header env (strip_billing_headers_from_system b1))"
  have op: "op_params op = fst (apply_fable_fallback (apply_auto_cache (hr_auth_user req) b3))"
    using assms tr by (auto simp: openai_chat_preprocess_def Let_def case_prod_beta b1_def b3_def)
  have same: "same_conversation b1 (op_params op)"
    unfolding op b3_def by (meson same_conversation_steps same_conversation_trans)
  obtain sys where sys: "system body0 = (if sys = [] then None else Some (JArr sys))"
    by (rule translate_request_cases [OF tr])
  then have "\<not> residual_header (system b1)"
    by (simp add: b1_def drop_empty_system_def fill_system_only_user_placeholder_def)
  with header_shape [of env b1] obtain hdr rest where
    "system b3 = Some (JArr (hdr # rest))" "billing_entry hdr" "\<not> (\<exists>v \<in> set rest. billing_entry v)"
    unfolding b3_def by blast
  moreover have "system (op_params op) = system b3"
    by (simp add: op apply_fable_fallback_def apply_auto_cache_def split: option.split)
  moreover have "accepted b1" "list_all message_filled (messages b1)"
    using drop_empty_messages_filled [of "drop_empty_system body0"]
    by (simp_all add: b1_def normalize_accepted fill_system_only_user_placeholder_def placeholder_filled)
  ultimately show ?thesis
    using same_conversation_accepted [OF same] same_conversation_fields(1) [OF same] by auto
qed

text \<open>
  The beta header that is sent upstream carries the required token and every token of the client,
  each once up to letter case and in the client's order; requiring the token again changes nothing.
\<close>

theorem beta_header_merged:
  assumes "token_ok required"
  shows "\<exists>h. ensure_anthropic_beta_token current required = Some h
     \<and> distinct (map to_ascii_lowercase (beta_tokens h))
     \<and> to_ascii_lowercase ` set (beta_tokens h)
         = to_ascii_lowercase ` (set (beta_tokens (unwrap_or_default current)) \<union> {required})
     \<and> ensure_anthropic_beta_token (Some h) required = Some h"
  using ensure_beta_tokens [OF assms, of current] merged_tokens_ok [OF assms, of current] by auto

section \<open>Witnesses\<close>

definition plain_env :: request_env where
  "plain_env = \<lparr>re_hash = (\<lambda>_. 0), re_from_str = sample_parse, re_sha256_hex = (\<lambda>_. ''abcdef''),
     re_entrypoint = None, re_encode = length, re_request_id = ''r1'', re_now = 0, re_keepalive = True,
     re_keepalive_interval = 6000,
     re_profile = \<lparr>sp_cli_version = ''2.1.181'', billing_salt = ''59cf53e54c78'',
       force_output_effort = Some Effort_Max\<rparr>,
     re_tool_id = (\<lambda>i j. show_nat i @ show_nat j)\<rparr>"

definition plain_request :: http_request where
  "plain_request = \<lparr>hr_auth_user = None, hr_audit = None,
     hr_headers = [(''anthropic-beta'', Some ''a,B''),
       (''x-clewdr-non-stream-keepalive-interval-ms'', Some ''9'')],
     hr_path = ''/v1/messages''\<rparr>"

text \<open>A prompt with two header lines: the second is sent.\<close>

definition doubled_body :: CreateMessageParams where
  "doubled_body = default_params\<lparr>model := ''claude-opus-5'',
     messages := [new_text Role_User ''Good morning'', new_blocks Role_Assistant [text_block []]],
     system := Some (JStr (BILLING_PREFIX @ '' a'' @ [CHR 0x0A] @ BILLING_PREFIX @ '' b'')),
     thinking := Some Thinking_Disabled, temperature := Some (1 / 2)\<rparr>"

lemma doubled_body_sent:
  obtains body cx where "claude_code_preprocess plain_env plain_request doubled_body = Inr (body, cx)"
proof -
  have "messages (drop_empty_message_text_blocks (drop_empty_system doubled_body))
      = [new_text Role_User ''Good morning'']"
    by code_simp
  then have "\<not> is_test_request (normal_body plain_env doubled_body)"
    by (simp add: is_test_request_def normal_body_def new_text_def new_blocks_def)
  from claude_code_preprocess_total [OF this, of plain_request] that show thesis by blast
qed

lemma doubled_body_residual: "residual_header (system doubled_body)"
  by code_simp

theorem claude_request_ready_witness:
  "\<exists>body cx. claude_code_preprocess plain_env plain_request doubled_body = Inr (body, cx)
     \<and> accepted body \<and> list_all message_filled (messages body)
     \<and> cx_stream cx = (stream body = Some True)
     \<and> 250 \<le> cx_non_stream_keepalive_interval_ms cx
     \<and> cx_non_stream_keepalive_interval_ms cx \<le> 60000"
proof -
  obtain body cx where "claude_code_preprocess plain_env plain_request doubled_body = Inr (body, cx)"
    by (rule doubled_body_sent)
  with claude_request_ready [OF this] show ?thesis by blast
qed

theorem billing_header_once_witness:
  "\<exists>body cx hdr rest. claude_code_preprocess plain_env plain_request doubled_body = Inr (body, cx)
     \<and> system body = Some (JArr (hdr # rest)) \<and> billing_entry hdr
     \<and> (\<exists>v. v \<in> set rest \<and> billing_entry v)"
proof -
  obtain body cx where pre: "claude_code_preprocess plain_env plain_request doubled_body = Inr (body, cx)"
    by (rule doubled_body_sent)
  have "\<not> is_count_tokens_path (hr_path plain_request)" by code_simp
  from billing_header_once [OF pre this] doubled_body_residual pre show ?thesis by blast
qed

theorem openai_request_ready_witness:
  "\<exists>op. openai_chat_preprocess plain_env plain_request sample_oai = Inr op
     \<and> accepted (op_params op) \<and> list_all message_filled (messages (op_params op))
     \<and> (\<exists>hdr rest. system (op_params op) = Some (JArr (hdr # rest)) \<and> billing_entry hdr
          \<and> \<not> list_ex billing_entry rest)"
proof -
  obtain op where "openai_chat_preprocess plain_env plain_request sample_oai = Inr op"
    using sample_oai_accepted openai_chat_preprocess_total [of plain_env sample_oai plain_request]
    by (auto simp: plain_env_def)
  with openai_request_ready [OF this] show ?thesis by (auto simp: list_ex_iff)
qed

lemma fallback_token_ok: "token_ok SERVER_SIDE_FALLBACK_BETA"
  by code_simp

theorem beta_header_merged_witness:
  "\<exists>h. ensure_anthropic_beta_token (Some '' a,, A ,b'') SERVER_SIDE_FALLBACK_BETA = Some h
     \<and> distinct (map to_ascii_lowercase (beta_tokens h))
     \<and> to_ascii_lowercase ` set (beta_tokens h)
         = to_ascii_lowercase ` (set (beta_tokens (unwrap_or_default (Some '' a,, A ,b'')))
             \<union> {SERVER_SIDE_FALLBACK_BETA})
     \<and> ensure_anthropic_beta_token (Some h) SERVER_SIDE_FALLBACK_BETA = Some h"
  by (rule beta_header_merged [OF fallback_token_ok])

end
