(* ===== verification/Oauth_Client.thy ===== *)
theory Oauth_Client
  imports Chat_Usage
begin

text \<open>
  The OAuth client of the administration flow and of the refreshes, from \<open>src/src/oauth.rs\<close>: the token
  endpoint with its error handling, the account snapshot built from the profile and usage documents, and
  the authorizations that wait for their callback.

  The fields of \<open>oauth_env\<close> are the libraries and the network: sending a form, fetching a document,
  typed deserialisation, form and URL encoding, and the text of an HTTP status. A fetch of a document is
  the GET request with its status check and the parse of the body as JSON. Client construction,
  request headers and the random generator are left out: the random values of a new authorization are
  arguments.
\<close>

section \<open>Documents\<close>

record OAuthProfile =
  pr_email :: "string option"
  pr_has_claude_max :: bool
  pr_has_claude_pro :: bool
  pr_uuid :: "string option"
  pr_organization_type :: "string option"
  pr_rate_limit_tier :: "string option"
  pr_billing_type :: "string option"
  pr_subscription_created_at :: "string option"

record UsageBucketPayload =
  ub_utilization :: "f64 option"
  ub_resets_at :: "string option"

record UsagePayload =
  up_five_hour :: "UsageBucketPayload option"
  up_seven_day :: "UsageBucketPayload option"
  up_seven_day_sonnet :: "UsageBucketPayload option"
  up_seven_day_opus :: "UsageBucketPayload option"

record OAuthTokenErrorBody =
  tb_error :: "string option"
  tb_error_description :: "string option"

record OAuthTokenResponse =
  tr_access_token :: "string option"
  tr_refresh_token :: "string option"
  tr_expires_in :: "nat option"
  tr_organization :: "string option"
  tr_organization_uuid :: "string option"
  tr_error :: OAuthTokenErrorBody

record oauth_env =
  oe_client_id :: string
  oe_post_form :: "string \<Rightarrow> string option \<Rightarrow> ClewdrError + (u16 \<times> string)"
  oe_get_json :: "string \<Rightarrow> string \<Rightarrow> string option \<Rightarrow> ClewdrError + json"
  oe_form_encode :: "(string \<times> string) list \<Rightarrow> string"
  oe_utf8_lossy :: "string \<Rightarrow> string"
  oe_show_status :: "u16 \<Rightarrow> string"
  oe_error_body :: "string \<Rightarrow> OAuthTokenErrorBody option"
  oe_token_response :: "string \<Rightarrow> string + OAuthTokenResponse"
  oe_profile_of :: "json \<Rightarrow> string + OAuthProfile"
  oe_usage_of :: "json \<Rightarrow> string + UsagePayload"
  oe_rfc3339 :: "string \<Rightarrow> i64 option"
  oe_url_query :: "string \<Rightarrow> (string \<times> string) list option"
  oe_url_ok :: "string \<Rightarrow> bool"
  oe_authorize_url :: "string \<Rightarrow> string \<Rightarrow> string \<Rightarrow> string"

definition claude_auth_url :: string where
  "claude_auth_url = ''https://claude.ai/oauth/authorize''"

definition cc_token_url :: string where
  "cc_token_url = ''https://api.anthropic.com/v1/oauth/token''"

definition cc_redirect_uri :: string where
  "cc_redirect_uri = ''https://platform.claude.com/oauth/code/callback''"

definition admin_oauth_ttl :: duration where
  "admin_oauth_ttl = secs (30 * 60)"

section \<open>The token endpoint\<close>

definition status_success :: "u16 \<Rightarrow> bool" where
  "status_success status \<longleftrightarrow> 200 \<le> status \<and> status < 300"

definition keep_if :: "('a \<Rightarrow> bool) \<Rightarrow> 'a option \<Rightarrow> 'a option" where
  "keep_if p v = (case v of Some x \<Rightarrow> if p x then Some x else None | None \<Rightarrow> None)"

definition token_error_detail :: "oauth_env \<Rightarrow> string \<Rightarrow> string" where
  "token_error_detail env bytes =
     (case keep_if (\<lambda>m. m \<noteq> [])
             (map_option trim
               (Option.bind (oe_error_body env bytes)
                 (\<lambda>b. or_else (tb_error_description b) (tb_error b)))) of
        Some m \<Rightarrow> m
      | None \<Rightarrow> oe_utf8_lossy env bytes)"

definition send_oauth_token_request ::
    "oauth_env \<Rightarrow> string \<Rightarrow> string option \<Rightarrow> ClewdrError + OAuthTokenResponse" where
  "send_oauth_token_request env body proxy =
     (case oe_post_form env body proxy of
        Inl e \<Rightarrow> Inl e
      | Inr (status, bytes) \<Rightarrow>
          if \<not> status_success status
          then Inl (Whatever (''OAuth token request failed with status '' @ oe_show_status env status
                              @ '': '' @ token_error_detail env bytes) None)
          else case oe_token_response env bytes of
                 Inl source \<Rightarrow>
                   Inl (Whatever (''OAuth token response was not valid JSON: ''
                                  @ oe_utf8_lossy env bytes) (Some source))
               | Inr r \<Rightarrow> Inr r)"

definition exchange_params ::
    "oauth_env \<Rightarrow> string \<Rightarrow> string option \<Rightarrow> string \<Rightarrow> string \<Rightarrow> (string \<times> string) list" where
  "exchange_params env code state redirect_uri verifier =
     [(''grant_type'', ''authorization_code''), (''client_id'', oe_client_id env), (''code'', code),
      (''redirect_uri'', redirect_uri), (''code_verifier'', verifier)]
     @ (case keep_if (\<lambda>s. trim s \<noteq> []) state of Some s \<Rightarrow> [(''state'', s)] | None \<Rightarrow> [])"

definition exchange_oauth_code ::
    "oauth_env \<Rightarrow> string \<Rightarrow> string option \<Rightarrow> string \<Rightarrow> string \<Rightarrow> string option
      \<Rightarrow> ClewdrError + OAuthTokenResponse" where
  "exchange_oauth_code env code state redirect_uri verifier proxy =
     send_oauth_token_request env
       (oe_form_encode env (exchange_params env code state redirect_uri verifier)) proxy"

definition refresh_oauth_access_token ::
    "oauth_env \<Rightarrow> string \<Rightarrow> string option \<Rightarrow> ClewdrError + OAuthTokenResponse" where
  "refresh_oauth_access_token env refresh proxy =
     send_oauth_token_request env
       (oe_form_encode env
         [(''grant_type'', ''refresh_token''), (''client_id'', oe_client_id env),
          (''refresh_token'', refresh)]) proxy"

definition token_response_access_token ::
    "OAuthTokenResponse \<Rightarrow> string \<Rightarrow> ClewdrError + string" where
  "token_response_access_token t fallback_msg =
     (case tr_access_token t of
        Some a \<Rightarrow> Inr a
      | None \<Rightarrow>
          (case keep_if (\<lambda>m. trim m \<noteq> [])
                  (or_else (tb_error_description (tr_error t)) (tb_error (tr_error t))) of
             Some detail \<Rightarrow>
               Inl (Whatever (''OAuth token response missing access_token: '' @ detail) None)
           | None \<Rightarrow> Inl (UnexpectedNone fallback_msg)))"

section \<open>Snapshots\<close>

definition parse_account_type :: "OAuthProfile \<Rightarrow> string option" where
  "parse_account_type p =
     (case pr_organization_type p of
        Some kind \<Rightarrow> Some kind
      | None \<Rightarrow>
          if pr_has_claude_max p then Some ''max''
          else if pr_has_claude_pro p then Some ''pro''
          else None)"

definition fetch_oauth_profile ::
    "oauth_env \<Rightarrow> string \<Rightarrow> string option \<Rightarrow> ClewdrError + (OAuthProfile \<times> json)" where
  "fetch_oauth_profile env access proxy =
     (case oe_get_json env ''https://api.anthropic.com/api/oauth/profile'' access proxy of
        Inl e \<Rightarrow> Inl e
      | Inr raw \<Rightarrow>
          (case oe_profile_of env raw of
             Inl source \<Rightarrow>
               Inl (Whatever (''OAuth profile payload was not valid: '' @ source) (Some source))
           | Inr p \<Rightarrow> Inr (p, raw)))"

definition fetch_oauth_usage ::
    "oauth_env \<Rightarrow> string \<Rightarrow> string option \<Rightarrow> ClewdrError + (UsagePayload \<times> json)" where
  "fetch_oauth_usage env access proxy =
     (case oe_get_json env ''https://api.anthropic.com/api/oauth/usage'' access proxy of
        Inl e \<Rightarrow> Inl e
      | Inr raw \<Rightarrow>
          (case oe_usage_of env raw of
             Inl source \<Rightarrow>
               Inl (Whatever (''OAuth usage payload was not valid: '' @ source) (Some source))
           | Inr u \<Rightarrow> Inr (u, raw)))"

definition bucket_window ::
    "oauth_env \<Rightarrow> UsageBucketPayload option \<Rightarrow> i64 option \<times> f64 option" where
  "bucket_window env bucket =
     (case bucket of
        None \<Rightarrow> (None, None)
      | Some b \<Rightarrow> (Option.bind (ub_resets_at b) (oe_rfc3339 env), ub_utilization b))"

text \<open>The end of the cooldown: the latest reset of a window that is used up.\<close>

definition exhausted_until :: "(i64 option \<times> f64 option) list \<Rightarrow> i64 option" where
  "exhausted_until windows =
     (case List.map_filter fst (filter (\<lambda>(ts, util). util = Some 100 \<and> ts \<noteq> None) windows) of
        [] \<Rightarrow> None
      | ts \<Rightarrow> Some (Max (set ts)))"

definition snapshot_runtime :: "oauth_env \<Rightarrow> i64 \<Rightarrow> UsagePayload \<Rightarrow> json \<Rightarrow> RuntimeStateParams" where
  "snapshot_runtime env now usage usage_raw =
     (let session = bucket_window env (up_five_hour usage);
          weekly = bucket_window env (up_seven_day usage);
          limits = parse_weekly_scoped_limits (oe_rfc3339 env) usage_raw;
          opus = backfill limits ''opus'' (bucket_window env (up_seven_day_opus usage));
          sonnet = backfill limits ''sonnet'' (bucket_window env (up_seven_day_sonnet usage))
      in \<lparr>rp_reset_time = exhausted_until [session, weekly],
          rp_supports_claude_1m_sonnet = None, rp_supports_claude_1m_opus = None,
          rp_count_tokens_allowed = None,
          rp_session_resets_at = fst session, rp_weekly_resets_at = fst weekly,
          rp_weekly_sonnet_resets_at = fst sonnet, rp_weekly_opus_resets_at = fst opus,
          rp_resets_last_checked_at = Some now,
          rp_session_has_reset = Some (fst session \<noteq> None),
          rp_weekly_has_reset = Some (fst weekly \<noteq> None),
          rp_weekly_sonnet_has_reset = Some (fst sonnet \<noteq> None),
          rp_weekly_opus_has_reset = Some (fst opus \<noteq> None),
          rp_session_utilization = snd session, rp_weekly_utilization = snd weekly,
          rp_weekly_sonnet_utilization = snd sonnet, rp_weekly_opus_utilization = snd opus,
          rp_buckets = (default_usage, default_usage, default_usage, default_usage, default_usage),
          rp_weekly_scoped_limits = limits\<rparr>)"

definition fetch_oauth_snapshot_raw ::
    "oauth_env \<Rightarrow> i64 \<Rightarrow> string \<Rightarrow> string option
      \<Rightarrow> ClewdrError + (OAuthAccountSnapshot \<times> json \<times> json)" where
  "fetch_oauth_snapshot_raw env now access proxy =
     (case fetch_oauth_profile env access proxy of
        Inl e \<Rightarrow> Inl e
      | Inr (profile, profile_raw) \<Rightarrow>
          (case fetch_oauth_usage env access proxy of
             Inl e \<Rightarrow> Inl e
           | Inr (usage, usage_raw) \<Rightarrow>
               (case pr_uuid profile of
                  None \<Rightarrow> Inl (UnexpectedNone ''OAuth profile missing organization UUID'')
                | Some uuid \<Rightarrow>
                    Inr (\<lparr>sn_email = pr_email profile, sn_account_type = parse_account_type profile,
                          sn_organization_uuid = uuid,
                          sn_rate_limit_tier = pr_rate_limit_tier profile,
                          sn_billing_type = pr_billing_type profile,
                          sn_subscription_created_at = pr_subscription_created_at profile,
                          sn_runtime = snapshot_runtime env now usage usage_raw\<rparr>,
                         profile_raw, usage_raw))))"

definition fetch_oauth_snapshot ::
    "oauth_env \<Rightarrow> i64 \<Rightarrow> string \<Rightarrow> string option \<Rightarrow> ClewdrError + OAuthAccountSnapshot" where
  "fetch_oauth_snapshot env now access proxy =
     (case fetch_oauth_snapshot_raw env now access proxy of
        Inl e \<Rightarrow> Inl e | Inr (sn, _, _) \<Rightarrow> Inr sn)"

section \<open>Refresh\<close>

text \<open>The new token; what the response leaves out is taken over from the old one.\<close>

definition refreshed_token :: "instant \<Rightarrow> TokenInfo \<Rightarrow> OAuthTokenResponse \<Rightarrow> string \<Rightarrow> TokenInfo" where
  "refreshed_token nowi t raw access =
     token_from_parts nowi access
       (case tr_refresh_token raw of Some r \<Rightarrow> r | None \<Rightarrow> refresh_token t)
       (secs (int (case tr_expires_in raw of Some n \<Rightarrow> n | None \<Rightarrow> 0)))
       (case or_else (tr_organization raw) (tr_organization_uuid raw) of
          Some u \<Rightarrow> u | None \<Rightarrow> organization_uuid_of t)"

definition refresh_oauth_token_only ::
    "oauth_env \<Rightarrow> instant \<Rightarrow> TokenInfo \<Rightarrow> string option \<Rightarrow> ClewdrError + TokenInfo" where
  "refresh_oauth_token_only env nowi t proxy =
     (case refresh_oauth_access_token env (refresh_token t) proxy of
        Inl e \<Rightarrow> Inl e
      | Inr raw \<Rightarrow>
          (case token_response_access_token raw ''OAuth refresh response missing access_token'' of
             Inl e \<Rightarrow> Inl e
           | Inr access \<Rightarrow> Inr (refreshed_token nowi t raw access)))"

definition refresh_oauth_token_with_raw ::
    "oauth_env \<Rightarrow> i64 \<Rightarrow> instant \<Rightarrow> TokenInfo \<Rightarrow> string option
      \<Rightarrow> ClewdrError + (OAuthExchangeResult \<times> json \<times> json)" where
  "refresh_oauth_token_with_raw env now nowi t proxy =
     (case refresh_oauth_access_token env (refresh_token t) proxy of
        Inl e \<Rightarrow> Inl e
      | Inr raw \<Rightarrow>
          (case token_response_access_token raw ''OAuth refresh response missing access_token'' of
             Inl e \<Rightarrow> Inl e
           | Inr access \<Rightarrow>
               (case fetch_oauth_snapshot_raw env now access proxy of
                  Inl e \<Rightarrow> Inl e
                | Inr (sn, profile_raw, usage_raw) \<Rightarrow>
                    Inr (\<lparr>ex_token = refreshed_token nowi t raw access, ex_snapshot = sn\<rparr>,
                         profile_raw, usage_raw))))"

definition refresh_oauth_token ::
    "oauth_env \<Rightarrow> i64 \<Rightarrow> instant \<Rightarrow> TokenInfo \<Rightarrow> string option
      \<Rightarrow> ClewdrError + OAuthExchangeResult" where
  "refresh_oauth_token env now nowi t proxy =
     (case refresh_oauth_token_with_raw env now nowi t proxy of
        Inl e \<Rightarrow> Inl e | Inr (r, _, _) \<Rightarrow> Inr r)"

section \<open>Pending authorizations\<close>

record AdminOAuthState =
  ao_verifier :: string
  ao_redirect_uri :: string
  ao_created_at :: instant

type_synonym oauth_states = "(string, AdminOAuthState) hash_map"

record AdminOAuthStartResponse =
  as_auth_url :: string
  as_state :: string
  as_redirect_uri :: string

definition cleanup_expired_states :: "instant \<Rightarrow> oauth_states \<Rightarrow> oauth_states" where
  "cleanup_expired_states now states =
     filter (\<lambda>(_, item). max 0 (now - ao_created_at item) < admin_oauth_ttl) states"

definition setup_client :: "oauth_env \<Rightarrow> string \<Rightarrow> ClewdrError + unit" where
  "setup_client env redirect_uri =
     (if \<not> oe_url_ok env claude_auth_url then Inl (UnexpectedNone ''Invalid Claude auth URL'')
      else if \<not> oe_url_ok env redirect_uri then Inl (UnexpectedNone ''Invalid redirect URI'')
      else if \<not> oe_url_ok env cc_token_url then Inl (UnexpectedNone ''Invalid token URI'')
      else Inr ())"

text \<open>\<open>verifier\<close> and \<open>state_id\<close> are the random values; the clock is read after the lock was taken.\<close>

definition start_admin_oauth_flow ::
    "oauth_env \<Rightarrow> instant \<Rightarrow> string \<Rightarrow> string \<Rightarrow> string option \<Rightarrow> oauth_states
      \<Rightarrow> (ClewdrError + AdminOAuthStartResponse) \<times> oauth_states" where
  "start_admin_oauth_flow env now verifier state_id redirect_uri states =
     (let uri = (case keep_if (\<lambda>s. trim s \<noteq> []) redirect_uri of
                   Some u \<Rightarrow> u | None \<Rightarrow> cc_redirect_uri)
      in case setup_client env uri of
           Inl e \<Rightarrow> (Inl e, states)
         | Inr _ \<Rightarrow>
             (Inr \<lparr>as_auth_url = oe_authorize_url env uri verifier state_id, as_state = state_id,
                   as_redirect_uri = uri\<rparr>,
              hm_insert state_id
                \<lparr>ao_verifier = verifier, ao_redirect_uri = uri, ao_created_at = now\<rparr> []))"

text \<open>The query pairs are collected into a map, so that the last pair of a name counts.\<close>

definition parse_callback_input ::
    "oauth_env \<Rightarrow> string \<Rightarrow> string option \<Rightarrow> ClewdrError + (string \<times> string option)" where
  "parse_callback_input env input fallback_state =
     (let trimmed = trim input in
      if trimmed = [] then Inl (BadRequest ''oauth callback input is required'')
      else case oe_url_query env trimmed of
        Some pairs \<Rightarrow>
          (case map_of (rev pairs) ''code'' of
             None \<Rightarrow> Inl (UnexpectedNone ''No code found in callback URL'')
           | Some code \<Rightarrow> Inr (code, or_else (map_of (rev pairs) ''state'') fallback_state))
      | None \<Rightarrow>
          (case split_once (CHR ''#'') trimmed of
             Some (c, s) \<Rightarrow>
               if trim c \<noteq> []
               then Inr (trim c, or_else (if trim s \<noteq> [] then Some (trim s) else None) fallback_state)
               else Inr (trimmed, fallback_state)
           | None \<Rightarrow> Inr (trimmed, fallback_state)))"

definition remove_state ::
    "string \<Rightarrow> oauth_states \<Rightarrow> (ClewdrError + AdminOAuthState) \<times> oauth_states" where
  "remove_state k states =
     (case hm_get states k of
        Some st \<Rightarrow> (Inr st, hm_remove k states)
      | None \<Rightarrow> (Inl (BadRequest ''OAuth state not found or expired''), states))"

definition take_admin_oauth_state ::
    "instant \<Rightarrow> string option \<Rightarrow> oauth_states \<Rightarrow> (ClewdrError + AdminOAuthState) \<times> oauth_states" where
  "take_admin_oauth_state now state states0 =
     (let states = cleanup_expired_states now states0 in
      case state of
        Some state_id \<Rightarrow> remove_state state_id states
      | None \<Rightarrow>
          (case states of
             [(k, _)] \<Rightarrow> remove_state k states
           | [] \<Rightarrow>
               (Inl (BadRequest ''OAuth state not found or expired; generate a new authorization URL''),
                states)
           | _ \<Rightarrow>
               (Inl (BadRequest ''OAuth state is required when multiple pending authorizations exist''),
                states)))"

text \<open>The result, the states and the forms sent to the token endpoint.\<close>

definition exchange_admin_oauth_callback ::
    "oauth_env \<Rightarrow> i64 \<Rightarrow> instant \<Rightarrow> string \<Rightarrow> string option \<Rightarrow> string option \<Rightarrow> oauth_states
      \<Rightarrow> (ClewdrError + OAuthExchangeResult) \<times> oauth_states \<times> (string \<times> string) list list" where
  "exchange_admin_oauth_callback env now nowi input fallback_state proxy states =
     (case parse_callback_input env input fallback_state of
        Inl e \<Rightarrow> (Inl e, states, [])
      | Inr (code, state) \<Rightarrow>
          (case take_admin_oauth_state nowi state states of
             (Inl e, states') \<Rightarrow> (Inl e, states', [])
           | (Inr stored, states') \<Rightarrow>
               ((case exchange_oauth_code env code state (ao_redirect_uri stored) (ao_verifier stored)
                        proxy of
                   Inl e \<Rightarrow> Inl e
                 | Inr tok \<Rightarrow>
                     (case token_response_access_token tok
                             ''OAuth token response missing access_token'' of
                        Inl e \<Rightarrow> Inl e
                      | Inr access \<Rightarrow>
                          (case fetch_oauth_snapshot env now access proxy of
                             Inl e \<Rightarrow> Inl e
                           | Inr sn \<Rightarrow>
                               Inr \<lparr>ex_token =
                                      token_from_parts nowi access
                                        (unwrap_or_default (tr_refresh_token tok))
                                        (secs (int (case tr_expires_in tok of Some n \<Rightarrow> n | None \<Rightarrow> 0)))
                                        (case or_else (tr_organization tok) (tr_organization_uuid tok) of
                                           Some u \<Rightarrow> u | None \<Rightarrow> sn_organization_uuid sn),
                                    ex_snapshot = sn\<rparr>))),
                states',
                [exchange_params env code state (ao_redirect_uri stored) (ao_verifier stored)])))"

section \<open>An authorization is redeemed at most once\<close>

text \<open>
  The administration interface starts flows and submits callbacks in any order. \<open>oauth_run\<close> gives the
  states and the forms sent by a sequence of them.
\<close>

datatype oauth_op =
    Start_Flow instant string string "string option"
  | Submit i64 instant string "string option" "string option"

fun oauth_op_run ::
    "oauth_env \<Rightarrow> oauth_op \<Rightarrow> oauth_states \<Rightarrow> oauth_states \<times> (string \<times> string) list list" where
  "oauth_op_run env (Start_Flow now v k uri) states =
     (snd (start_admin_oauth_flow env now v k uri states), [])"
| "oauth_op_run env (Submit now nowi input fallback proxy) states =
     snd (exchange_admin_oauth_callback env now nowi input fallback proxy states)"

fun oauth_run ::
    "oauth_env \<Rightarrow> oauth_op list \<Rightarrow> oauth_states \<Rightarrow> oauth_states \<times> (string \<times> string) list list" where
  "oauth_run env [] states = (states, [])"
| "oauth_run env (p # ps) states =
     (case oauth_op_run env p states of (states1, fs) \<Rightarrow>
        (case oauth_run env ps states1 of (states2, gs) \<Rightarrow> (states2, fs @ gs)))"

text \<open>The latest flow that was started, and the verifier a form carries.\<close>

fun started :: "oauth_env \<Rightarrow> oauth_op \<Rightarrow> AdminOAuthState option" where
  "started env (Start_Flow now v k uri) =
     map_option snd (case snd (start_admin_oauth_flow env now v k uri []) of [] \<Rightarrow> None | p # _ \<Rightarrow> Some p)"
| "started env (Submit now nowi input fallback proxy) = None"

definition latest_flow :: "oauth_env \<Rightarrow> oauth_op list \<Rightarrow> AdminOAuthState option" where
  "latest_flow env ops =
     (case rev (List.map_filter (started env) ops) of [] \<Rightarrow> None | st # _ \<Rightarrow> Some st)"

definition form_verifier :: "(string \<times> string) list \<Rightarrow> string option" where
  "form_verifier f = map_of f ''code_verifier''"

definition fresh_verifiers :: "oauth_env \<Rightarrow> oauth_op list \<Rightarrow> bool" where
  "fresh_verifiers env ops \<longleftrightarrow> distinct (map ao_verifier (List.map_filter (started env) ops))"

lemma oauth_run_append:
  "oauth_run env (ps @ qs) states =
     (case oauth_run env ps states of (s1, fs) \<Rightarrow> (case oauth_run env qs s1 of (s2, gs) \<Rightarrow> (s2, fs @ gs)))"
  by (induction ps arbitrary: states) (auto split: prod.splits)

lemma form_verifier_exchange [simp]:
  "form_verifier (exchange_params env code state uri v) = Some v"
  by (simp add: form_verifier_def exchange_params_def)

lemma map_filter_snoc:
  "List.map_filter f (xs @ [x]) = List.map_filter f xs @ (case f x of Some y \<Rightarrow> [y] | None \<Rightarrow> [])"
  by (auto simp: map_filter_def split: option.splits)

lemma latest_flow_snoc:
  "latest_flow env (ops @ [p]) = (case started env p of Some st \<Rightarrow> Some st | None \<Rightarrow> latest_flow env ops)"
  by (simp add: latest_flow_def map_filter_snoc split: option.splits)

text \<open>The pending table holds nothing, or the latest flow.\<close>

lemma start_flow_cases:
  obtains e where "start_admin_oauth_flow env now v k uri states = (Inl e, states)"
      "started env (Start_Flow now v k uri) = None"
  | r st where "start_admin_oauth_flow env now v k uri states = (Inr r, [(k, st)])"
      "started env (Start_Flow now v k uri) = Some st"
  by (cases "setup_client env (case keep_if (\<lambda>s. trim s \<noteq> []) uri of
        Some u \<Rightarrow> u | None \<Rightarrow> cc_redirect_uri)")
     (simp_all add: start_admin_oauth_flow_def Let_def)

lemma take_single:
  assumes "states = [] \<or> (\<exists>k. states = [(k, st)])"
    and "take_admin_oauth_state now state states = (r, states')"
  shows "(\<exists>e. r = Inl e) \<and> (states' = [] \<or> states' = states)
    \<or> r = Inr st \<and> states' = [] \<and> states \<noteq> [] \<and> now - ao_created_at st < admin_oauth_ttl"
  using assms
  by (auto simp: take_admin_oauth_state_def remove_state_def cleanup_expired_states_def Let_def
      split: option.splits if_splits)

lemma submit_cases:
  assumes "states = [] \<or> (\<exists>k. states = [(k, st)])"
    and "exchange_admin_oauth_callback env now nowi input fallback proxy states = (r, states', forms)"
  shows "forms = [] \<and> (\<exists>e. r = Inl e) \<and> (states' = [] \<or> states' = states)
    \<or> (\<exists>code state. forms = [exchange_params env code state (ao_redirect_uri st) (ao_verifier st)])
        \<and> states' = [] \<and> states \<noteq> [] \<and> nowi - ao_created_at st < admin_oauth_ttl"
  using assms(2) take_single [OF assms(1)]
  by (fastforce simp: exchange_admin_oauth_callback_def split: sum.splits prod.splits)

definition redeem_inv :: "oauth_env \<Rightarrow> oauth_op list \<Rightarrow> bool" where
  "redeem_inv env ops \<longleftrightarrow>
     (case oauth_run env ops [] of (states, forms) \<Rightarrow>
        (states = [] \<or> (\<exists>k st. latest_flow env ops = Some st \<and> states = [(k, st)]
                            \<and> Some (ao_verifier st) \<notin> set (map form_verifier forms)))
        \<and> set (map form_verifier forms)
            \<subseteq> Some ` ao_verifier ` set (List.map_filter (started env) ops)
        \<and> distinct (map form_verifier forms))"

lemma redeem_invI: "fresh_verifiers env ops \<Longrightarrow> redeem_inv env ops"
proof (induction ops rule: rev_induct)
  case Nil
  then show ?case by (simp add: redeem_inv_def)
next
  case (snoc p ops)
  obtain states forms where run: "oauth_run env ops [] = (states, forms)" by fastforce
  have fresh: "fresh_verifiers env ops"
    and new: "\<And>st. started env p = Some st
        \<Longrightarrow> ao_verifier st \<notin> ao_verifier ` set (List.map_filter (started env) ops)"
    using snoc.prems by (auto simp: fresh_verifiers_def map_filter_snoc split: option.splits)
  note inv = snoc.IH [OF fresh, unfolded redeem_inv_def run prod.case]
  show ?case
  proof (cases p)
    case (Start_Flow now v k uri)
    show ?thesis
    proof (cases rule: start_flow_cases [of env now v k uri states])
      case (1 e)
      with inv Start_Flow run show ?thesis
        by (auto simp: redeem_inv_def oauth_run_append latest_flow_snoc map_filter_snoc)
    next
      case (2 r st)
      have "Some (ao_verifier st) \<notin> set (map form_verifier forms)"
        using new [of st] inv 2 by (auto simp: Start_Flow)
      with 2 inv Start_Flow run show ?thesis
        by (auto simp: redeem_inv_def oauth_run_append latest_flow_snoc map_filter_snoc)
    qed
  next
    case (Submit now nowi input fallback proxy)
    obtain r states' fs where
      ex: "exchange_admin_oauth_callback env now nowi input fallback proxy states = (r, states', fs)"
      by (cases "exchange_admin_oauth_callback env now nowi input fallback proxy states") auto
    obtain st where st: "states = [] \<or> (\<exists>k. states = [(k, st)])" "states \<noteq> [] \<Longrightarrow> latest_flow env ops = Some st"
      using inv by blast
    have in_started: "st \<in> set (List.map_filter (started env) ops)" if "states \<noteq> []"
      using st(2) [OF that] unfolding latest_flow_def
      by (metis list.case_eq_if list.set_sel(1) option.distinct(1) option.inject set_rev)
    from submit_cases [OF st(1) ex] inv st in_started show ?thesis
      by (auto simp: redeem_inv_def oauth_run_append latest_flow_snoc map_filter_snoc Submit run ex
          rev_image_eqI)
  qed
qed

text \<open>
  An authorization is redeemed at most once and only while it is the latest: in any sequence of started
  flows and submitted callbacks whose random verifiers are fresh, no verifier is sent to the token
  endpoint twice, and the next callback sends at most one form, which carries the verifier and the
  redirect address of the most recently started flow, less than thirty minutes old, and leaves nothing
  pending. At most one authorization is ever pending, so that a callback without a state is never
  ambiguous.
\<close>

theorem authorization_redeemed_once:
  assumes "fresh_verifiers env ops" and "oauth_run env ops [] = (states, forms)"
    and "exchange_admin_oauth_callback env now nowi input fallback proxy states = (r, states', fs)"
  shows "distinct (map form_verifier (forms @ fs)) \<and> length states \<le> 1
    \<and> (fs \<noteq> [] \<longrightarrow> states' = [] \<and> (\<exists>st code state. latest_flow env ops = Some st
          \<and> fs = [exchange_params env code state (ao_redirect_uri st) (ao_verifier st)]
          \<and> nowi - ao_created_at st < admin_oauth_ttl))
    \<and> (fs = [] \<longrightarrow> (\<exists>e. r = Inl e))"
proof -
  have fresh: "fresh_verifiers env (ops @ [Submit now nowi input fallback proxy])"
    using assms(1) by (simp add: fresh_verifiers_def map_filter_snoc)
  have "oauth_run env (ops @ [Submit now nowi input fallback proxy]) [] = (states', forms @ fs)"
    by (simp add: oauth_run_append assms)
  then have d: "distinct (map form_verifier (forms @ fs))"
    using redeem_invI [OF fresh] by (simp add: redeem_inv_def)
  obtain st where st: "states = [] \<or> (\<exists>k. states = [(k, st)])" "states \<noteq> [] \<Longrightarrow> latest_flow env ops = Some st"
    using redeem_invI [OF assms(1)] assms(2) unfolding redeem_inv_def by auto
  from submit_cases [OF st(1) assms(3)] st d show ?thesis by auto
qed

text \<open>Libraries for the witnesses: nothing is a URL, and the token endpoint refuses.\<close>

definition sample_oauth :: oauth_env where
  "sample_oauth =
     \<lparr>oe_client_id = ''id'', oe_post_form = (\<lambda>_ _. Inr (500, [])),
      oe_get_json = (\<lambda>_ _ _. Inr JNull), oe_form_encode = concat \<circ> map snd,
      oe_utf8_lossy = (\<lambda>s. s), oe_show_status = show_nat, oe_error_body = (\<lambda>_. None),
      oe_token_response = (\<lambda>s. Inl s), oe_profile_of = (\<lambda>_. Inl []), oe_usage_of = (\<lambda>_. Inl []),
      oe_rfc3339 = parse_i64, oe_url_query = (\<lambda>_. None), oe_url_ok = (\<lambda>_. True),
      oe_authorize_url = (\<lambda>u v k. u)\<rparr>"

definition sample_flow :: "oauth_op list" where
  "sample_flow = [Start_Flow 0 ''v1'' ''s1'' None, Start_Flow 1 ''v2'' ''s2'' None,
                  Submit 0 2 ''code#s1'' None None]"

lemma sample_flow_run:
  "fresh_verifiers sample_oauth sample_flow"
  "oauth_run sample_oauth sample_flow []
     = ([(''s2'', \<lparr>ao_verifier = ''v2'', ao_redirect_uri = cc_redirect_uri, ao_created_at = 1\<rparr>)], [])"
  by code_simp+

theorem authorization_redeemed_once_witness:
  "fresh_verifiers sample_oauth sample_flow
   \<and> fst (snd (exchange_admin_oauth_callback sample_oauth 0 3 ''code'' None None
        (fst (oauth_run sample_oauth sample_flow [])))) = []
   \<and> form_verifier (hd (snd (snd (exchange_admin_oauth_callback sample_oauth 0 3 ''code'' None None
        (fst (oauth_run sample_oauth sample_flow [])))))) = Some ''v2''"
proof -
  let ?ex = "exchange_admin_oauth_callback sample_oauth 0 3 ''code'' None None
     (fst (oauth_run sample_oauth sample_flow []))"
  obtain r states' fs where ex: "?ex = (r, states', fs)" by (cases ?ex) auto
  have "snd (snd ?ex) \<noteq> []"
    unfolding sample_flow_run(2) by code_simp
  then have "fs \<noteq> []"
    by (simp add: ex)
  moreover have "latest_flow sample_oauth sample_flow
      = Some \<lparr>ao_verifier = ''v2'', ao_redirect_uri = cc_redirect_uri, ao_created_at = 1\<rparr>"
    by code_simp
  ultimately show ?thesis
    using authorization_redeemed_once [OF sample_flow_run(1,2) ex [unfolded sample_flow_run(2) fst_conv]]
      sample_flow_run(1) ex by auto
qed

end
