(* ===== verification/Pool_Handle.thy ===== *)
theory Pool_Handle
  imports Pool_Actor
begin

text \<open>
  The handle other components hold on the account pool (\<open>src/src/services/account_pool/handle.rs\<close>). A call
  sends a message and waits for the reply, a cast only sends it. \<open>down\<close> is what the messaging library
  reports: \<open>None\<close> while the actor takes messages, otherwise the text of its error, which the handle
  wraps or, for the casts without a result, ignores. The two timers of \<open>start\<close> cast \<open>CheckReset\<close> every
  300 seconds and \<open>FlushDirty\<close> every 15.
\<close>

type_synonym ('c, 'a) pool_op = "'c AccountPoolState \<Rightarrow> (ClewdrError + 'a) \<times> 'c AccountPoolState"

definition check_interval :: nat where
  "check_interval = 300"

definition flush_interval :: nat where
  "flush_interval = 15"

definition pool_call ::
    "'c pool_env \<Rightarrow> turn \<Rightarrow> string option \<Rightarrow> string \<Rightarrow> AccountPoolMessage \<Rightarrow> (pool_reply \<Rightarrow> 'a)
      \<Rightarrow> ('c, 'a) pool_op" where
  "pool_call env tn down what msg out s =
     (case down of
        Some e \<Rightarrow> (Inl (RactorError (what @ '': '' @ e)), s)
      | None \<Rightarrow> (case handle env tn msg s of (_, r, t) \<Rightarrow> (Inr (out r), t)))"

definition pool_cast ::
    "'c pool_env \<Rightarrow> turn \<Rightarrow> string option \<Rightarrow> string \<Rightarrow> AccountPoolMessage \<Rightarrow> ('c, unit) pool_op" where
  "pool_cast env tn down what msg = pool_call env tn down what msg (\<lambda>_. ())"

text \<open>A cast whose failure is ignored.\<close>

definition pool_send ::
    "'c pool_env \<Rightarrow> turn \<Rightarrow> string option \<Rightarrow> AccountPoolMessage \<Rightarrow> 'c AccountPoolState
      \<Rightarrow> 'c AccountPoolState" where
  "pool_send env tn down msg s = snd (pool_cast env tn down [] msg s)"

definition comm :: "string \<Rightarrow> string" where
  "comm what = ''Failed to communicate with AccountPoolActor for '' @ what"

fun reply_slot :: "pool_reply \<Rightarrow> ClewdrError + AccountSlot" where
  "reply_slot (Slot_Reply r) = r" | "reply_slot _ = Inl NoValidUpstreamAccounts"

fun reply_bool :: "pool_reply \<Rightarrow> bool" where
  "reply_bool (Bool_Reply b) = b" | "reply_bool _ = False"

fun reply_status :: "pool_reply \<Rightarrow> AccountPoolStatus" where
  "reply_status (Status_Reply st) = st"
| "reply_status _ = \<lparr>st_valid = [], st_exhausted = [], st_invalid = []\<rparr>"

fun reply_ids :: "pool_reply \<Rightarrow> i64 list" where
  "reply_ids (Ids_Reply ids) = ids" | "reply_ids _ = []"

fun reply_id_set :: "pool_reply \<Rightarrow> i64 set" where
  "reply_id_set (Id_Set_Reply ids) = ids" | "reply_id_set _ = {}"

fun reply_errors :: "pool_reply \<Rightarrow> (i64, string) hash_map" where
  "reply_errors (Errors_Reply m) = m" | "reply_errors _ = []"

fun reply_token :: "pool_reply \<Rightarrow> TokenInfo option" where
  "reply_token (Token_Reply t) = t" | "reply_token _ = None"

fun reply_view :: "pool_reply \<Rightarrow> PoolSnapshotView option" where
  "reply_view (View_Reply v) = Some v" | "reply_view _ = None"

section \<open>The operations\<close>

definition handle_request ::
    "'c pool_env \<Rightarrow> turn \<Rightarrow> string option \<Rightarrow> u64 option \<Rightarrow> i64 list \<Rightarrow> ('c, AccountSlot) pool_op" where
  "handle_request env tn down cache_hash bound s =
     (case pool_call env tn down (comm ''request operation'') (Request cache_hash bound) reply_slot s of
        (Inl e, t) \<Rightarrow> (Inl e, t) | (Inr r, t) \<Rightarrow> (r, t))"

definition release_runtime ::
    "'c pool_env \<Rightarrow> turn \<Rightarrow> string option \<Rightarrow> i64 \<Rightarrow> RuntimeStateParams \<Rightarrow> Reason option
      \<Rightarrow> CredentialFingerprint option \<Rightarrow> ('c, unit) pool_op" where
  "release_runtime env tn down aid update reason fp =
     pool_cast env tn down (comm ''release_runtime operation'') (Return aid update reason fp Full)"

definition release_oauth_snapshot_runtime ::
    "'c pool_env \<Rightarrow> turn \<Rightarrow> string option \<Rightarrow> i64 \<Rightarrow> RuntimeStateParams
      \<Rightarrow> CredentialFingerprint option \<Rightarrow> ('c, unit) pool_op" where
  "release_oauth_snapshot_runtime env tn down aid update fp =
     pool_cast env tn down (comm ''release_oauth_snapshot_runtime operation'')
       (Return aid update None fp OAuthSnapshot)"

definition handle_get_status :: "'c pool_env \<Rightarrow> turn \<Rightarrow> string option \<Rightarrow> ('c, AccountPoolStatus) pool_op" where
  "handle_get_status env tn down = pool_call env tn down (comm ''get status operation'') GetStatus reply_status"

definition reload_from_db :: "'c pool_env \<Rightarrow> turn \<Rightarrow> string option \<Rightarrow> ('c, unit) pool_op" where
  "reload_from_db env tn down = pool_cast env tn down (comm ''reload operation'') ReloadFromDb"

definition handle_probe_accounts ::
    "'c pool_env \<Rightarrow> turn \<Rightarrow> string option \<Rightarrow> i64 list \<Rightarrow> ('c, i64 list) pool_op" where
  "handle_probe_accounts env tn down ids =
     pool_call env tn down (comm ''targeted probe'') (ProbeAccounts ids) reply_ids"

definition begin_probe :: "'c pool_env \<Rightarrow> turn \<Rightarrow> string option \<Rightarrow> i64 \<Rightarrow> ('c, bool) pool_op" where
  "begin_probe env tn down aid = pool_call env tn down (comm ''begin probe'') (BeginProbe aid) reply_bool"

definition handle_release_slot ::
    "'c pool_env \<Rightarrow> turn \<Rightarrow> string option \<Rightarrow> i64 \<Rightarrow> 'c AccountPoolState \<Rightarrow> 'c AccountPoolState" where
  "handle_release_slot env tn down aid = pool_send env tn down (ReleaseSlot aid)"

definition get_probing_ids :: "'c pool_env \<Rightarrow> turn \<Rightarrow> string option \<Rightarrow> ('c, i64 set) pool_op" where
  "get_probing_ids env tn down = pool_call env tn down (comm ''get probing ids'') GetProbingIds reply_id_set"

definition clear_probing :: "'c pool_env \<Rightarrow> turn \<Rightarrow> string option \<Rightarrow> i64 \<Rightarrow> ('c, unit) pool_op" where
  "clear_probing env tn down aid = pool_cast env tn down (comm ''clear probing'') (ClearProbing aid)"

definition set_probe_error ::
    "'c pool_env \<Rightarrow> turn \<Rightarrow> string option \<Rightarrow> i64 \<Rightarrow> string \<Rightarrow> 'c AccountPoolState
      \<Rightarrow> 'c AccountPoolState" where
  "set_probe_error env tn down aid msg = pool_send env tn down (SetProbeError aid msg)"

definition clear_probe_error ::
    "'c pool_env \<Rightarrow> turn \<Rightarrow> string option \<Rightarrow> i64 \<Rightarrow> 'c AccountPoolState \<Rightarrow> 'c AccountPoolState" where
  "clear_probe_error env tn down aid = pool_send env tn down (ClearProbeError aid)"

definition get_probe_errors ::
    "'c pool_env \<Rightarrow> turn \<Rightarrow> string option \<Rightarrow> ('c, (i64, string) hash_map) pool_op" where
  "get_probe_errors env tn down = pool_call env tn down (comm ''get probe errors'') GetProbeErrors reply_errors"

text \<open>The view is joined with the rows of the tables at the time of the load; \<open>load_error\<close> is a failed load.\<close>

definition get_health_snapshot ::
    "'c pool_env \<Rightarrow> turn \<Rightarrow> string option \<Rightarrow> ClewdrError option \<Rightarrow> ('c, AccountHealthSnapshot) pool_op" where
  "get_health_snapshot env tn down load_error s =
     (case pool_call env tn down (comm ''get_health_snapshot'') SnapshotPoolState reply_view s of
        (Inl e, t) \<Rightarrow> (Inl e, t)
      | (Inr None, t) \<Rightarrow> (Inl (RactorError (comm ''get_health_snapshot'')), t)
      | (Inr (Some view), t) \<Rightarrow>
          (case load_error of
             Some e \<Rightarrow> (Inl e, t)
           | None \<Rightarrow>
               (Inr (compose_health_snapshot view
                      (load_all_accounts (env_db env) (t_instant tn) (pool_db t)) (t_now tn)), t)))"

definition update_credential ::
    "'c pool_env \<Rightarrow> turn \<Rightarrow> string option \<Rightarrow> i64 \<Rightarrow> TokenInfo option \<Rightarrow> 'c AccountPoolState
      \<Rightarrow> 'c AccountPoolState" where
  "update_credential env tn down aid tok = pool_send env tn down (UpdateCredential aid tok)"

definition update_credential_if_current ::
    "'c pool_env \<Rightarrow> turn \<Rightarrow> string option \<Rightarrow> i64 \<Rightarrow> string \<Rightarrow> TokenInfo option \<Rightarrow> ('c, bool) pool_op" where
  "update_credential_if_current env tn down aid expected tok =
     pool_call env tn down ''Failed to conditionally update credential''
       (UpdateCredentialIfCurrent aid expected tok) reply_bool"

definition handle_get_token :: "'c pool_env \<Rightarrow> turn \<Rightarrow> string option \<Rightarrow> i64 \<Rightarrow> ('c, TokenInfo option) pool_op" where
  "handle_get_token env tn down aid = pool_call env tn down (comm ''get token'') (GetToken aid) reply_token"

definition handle_invalidate ::
    "'c pool_env \<Rightarrow> turn \<Rightarrow> string option \<Rightarrow> i64 \<Rightarrow> Reason \<Rightarrow> 'c AccountPoolState
      \<Rightarrow> 'c AccountPoolState" where
  "handle_invalidate env tn down aid reason = pool_send env tn down (Invalidate aid reason)"

definition invalidate_if_current ::
    "'c pool_env \<Rightarrow> turn \<Rightarrow> string option \<Rightarrow> i64 \<Rightarrow> string \<Rightarrow> Reason \<Rightarrow> ('c, bool) pool_op" where
  "invalidate_if_current env tn down aid expected reason =
     pool_call env tn down ''Failed to conditionally invalidate credential''
       (InvalidateIfCurrent aid expected reason) reply_bool"

section \<open>What the handle promises\<close>

lemma pool_call_state:
  "snd (pool_call env tn down what msg out s)
     = (if down = None then snd (snd (handle env tn msg s)) else s)"
  by (simp add: pool_call_def split: option.splits prod.splits)

lemma pool_inv_call [simp]: "pool_inv s \<Longrightarrow> pool_inv (snd (pool_call env tn down what msg out s))"
  by (simp add: pool_call_state pool_inv_handle)

lemma pool_inv_cast [simp]: "pool_inv s \<Longrightarrow> pool_inv (snd (pool_cast env tn down what msg s))"
  by (simp add: pool_cast_def)

text \<open>The conditional operations of the handle are the guarded statements of the actor.\<close>

lemma update_credential_if_current_up:
  "update_credential_if_current env tn None aid expected tok s =
     (case exec_bool env tn (UpdateCredentialIfCurrent aid expected tok) s of (b, t) \<Rightarrow> (Inr b, t))"
  by (simp add: update_credential_if_current_def pool_call_def exec_bool_def turn_result)

lemma invalidate_if_current_up:
  "invalidate_if_current env tn None aid expected reason s =
     (case exec_bool env tn (InvalidateIfCurrent aid expected reason) s of (b, t) \<Rightarrow> (Inr b, t))"
  by (simp add: invalidate_if_current_def pool_call_def exec_bool_def turn_result)

lemma conditional_down:
  "update_credential_if_current env tn (Some e) aid expected tok s = (Inl (RactorError
     (''Failed to conditionally update credential: '' @ e)), s)"
  "invalidate_if_current env tn (Some e) aid expected reason s = (Inl (RactorError
     (''Failed to conditionally invalidate credential: '' @ e)), s)"
  by (simp_all add: update_credential_if_current_def invalidate_if_current_def pool_call_def)

lemma invalidate_if_current_miss:
  assumes "pool_inv s" and "pool_token aid s \<noteq> Some expected"
  shows "snd (invalidate_if_current env tn down aid expected reason s) = s"
  using pool_verdict.miss [OF assms, of env tn reason]
  by (cases down) (simp_all add: invalidate_if_current_up conditional_down)

end
