(* ===== verification/Background_Task.thy ===== *)
theory Background_Task
  imports Oauth_Client Pool_Handle
begin

text \<open>
  What the background tasks (the OAuth keepalive and the account probes) share. A task runs beside the
  pool and the other users of the tables. Its state is the pool with its tables; every point at which it
  waits has a name, and the environment says for each of them what everybody else does to the state
  meanwhile, what the clock reads, and whether the statement or the message sent there fails.
\<close>

section \<open>The task and the others\<close>

record ('p, 'c) task_env =
  te_pool :: "'c pool_env"
  te_oauth :: oauth_env
  te_display :: "ClewdrError \<Rightarrow> string"
  te_json_text :: "json \<Rightarrow> string"
  te_turn :: "'p \<Rightarrow> turn"
  te_sql_error :: "'p \<Rightarrow> ClewdrError option"
  te_pool_down :: "'p \<Rightarrow> string option"
  te_others :: "'p \<Rightarrow> 'c AccountPoolState \<Rightarrow> 'c AccountPoolState"

definition te_db :: "('p, 'c) task_env \<Rightarrow> db_ext" where
  "te_db env = env_db (te_pool env)"

definition task_now :: "('p, 'c) task_env \<Rightarrow> 'p \<Rightarrow> instant" where
  "task_now env p = t_instant (te_turn env p)"

text \<open>A statement of the task, after what the others did meanwhile.\<close>

definition task_sql ::
    "('p, 'c) task_env \<Rightarrow> 'p \<Rightarrow> (database \<Rightarrow> 'a \<times> database) \<Rightarrow> 'c AccountPoolState
      \<Rightarrow> (ClewdrError + 'a) \<times> 'c AccountPoolState" where
  "task_sql env p stmt s =
     (let s1 = te_others env p s in
      case te_sql_error env p of
        Some e \<Rightarrow> (Inl e, s1)
      | None \<Rightarrow> (case stmt (pool_db s1) of (r, db) \<Rightarrow> (Inr r, s1\<lparr>pool_db := db\<rparr>)))"

text \<open>A message of the task to the pool.\<close>

definition task_send ::
    "('p, 'c) task_env \<Rightarrow> 'p \<Rightarrow> AccountPoolMessage \<Rightarrow> 'c AccountPoolState \<Rightarrow> 'c AccountPoolState" where
  "task_send env p msg s =
     pool_send (te_pool env) (te_turn env p) (te_pool_down env p) msg (te_others env p s)"

text \<open>The first twenty bytes; slicing inside a character panics.\<close>

definition access_prefix :: "string \<Rightarrow> string option" where
  "access_prefix access =
     (if 20 < length access \<and> is_continuation (access ! 20) then None else Some (take 20 access))"

section \<open>The pool invariant\<close>

text \<open>The others keep the pool consistent.\<close>

definition polite :: "('p, 'c) task_env \<Rightarrow> bool" where
  "polite env \<longleftrightarrow> (\<forall>p s. pool_inv s \<longrightarrow> pool_inv (te_others env p s))"

lemma db_wf_oauth_statements [simp]:
  "db_wf db \<Longrightarrow> db_wf (snd (upsert_account_oauth x nowi aid tok err e db))"
  "db_wf db \<Longrightarrow> db_wf (snd (set_oauth_account_failure_if_current x aid t status reason e2 failure db))"
  "db_wf db \<Longrightarrow> db_wf (update_account_metadata aid u src pfx db)"
  "db_wf db \<Longrightarrow> db_wf (upsert_oauth_snapshot_runtime_fields x aid p db)"
  by (simp_all add: upsert_account_oauth_def Let_def db_wf_update_where update_account_metadata_def
      apply_metadata_def failure_verdict.wf_exec upsert_oauth_snapshot_runtime_fields_def upsert_runtime_def)
     (simp add: db_wf_def)

lemma pool_inv_sql:
  assumes "polite env" "pool_inv s" "\<And>db. db_wf db \<Longrightarrow> db_wf (snd (stmt db))"
    and "task_sql env p stmt s = (r, t)"
  shows "pool_inv t"
proof -
  have "pool_inv (te_others env p s)"
    using assms(1,2) by (simp add: polite_def)
  moreover from this have "db_wf (snd (stmt (pool_db (te_others env p s))))"
    using assms(3) by (simp add: pool_inv_def)
  ultimately show ?thesis
    using assms(4) by (auto simp: task_sql_def Let_def split: option.splits prod.splits)
qed

section \<open>A task that is left alone\<close>

text \<open>Nobody interferes and no statement or message fails.\<close>

definition undisturbed :: "('p, 'c) task_env \<Rightarrow> bool" where
  "undisturbed env \<longleftrightarrow>
     (\<forall>p s. te_others env p s = s) \<and> (\<forall>p. te_sql_error env p = None) \<and> (\<forall>p. te_pool_down env p = None)"

lemma undisturbed_simps:
  assumes "undisturbed env"
  shows "te_others env p s = s" "te_sql_error env p = None" "te_pool_down env p = None" "polite env"
  using assms by (simp_all add: undisturbed_def polite_def)

lemma undisturbed_sql:
  "undisturbed env \<Longrightarrow> task_sql env p stmt s = (Inr (fst (stmt (pool_db s))), s\<lparr>pool_db := snd (stmt (pool_db s))\<rparr>)"
  by (simp add: task_sql_def undisturbed_simps case_prod_beta)

lemma oauth_token_of_credentials:
  assumes "credentials db = credentials db'"
  shows "oauth_token_of aid db = oauth_token_of aid db'"
proof -
  have tok: "oauth_token_of aid db =
      (case find (\<lambda>(i, _). i = aid) (credentials db) of
         Some (_, src, _, _, rt, _) \<Rightarrow> if src = ''oauth'' then rt else None
       | None \<Rightarrow> None)" for db
  proof -
    have "find (\<lambda>(i, _). i = aid) (map credential_cols xs)
        = map_option credential_cols (find (\<lambda>a. a_id a = aid) xs)" for xs
      by (induction xs) (auto simp: credential_cols_def)
    then show ?thesis
      by (auto simp: oauth_token_of_def credentials_def credential_cols_def split: option.splits)
  qed
  show ?thesis
    using assms by (simp add: tok)
qed

lemma pool_token_pool_db [simp]: "pool_token aid (s\<lparr>pool_db := db\<rparr>) = pool_token aid s"
  by (simp add: pool_token_def pool_slot_def split: option.splits)

lemma collect_keeps_token:
  assumes "pool_inv s"
  shows "pool_token aid (snd (collect_by_id aid update None fp mode s)) = pool_token aid s"
    and "pool_db (snd (collect_by_id aid update None fp mode s)) = pool_db s"
proof -
  obtain p t where c: "collect_by_id aid update None fp mode s = (p, t)" by fastforce
  have "pool_token aid t = pool_token aid s \<and> pool_db t = pool_db s"
  proof (cases "if sticky_guard s aid \<or> fingerprint_guard s aid fp then None else pool_slot s aid")
    case None
    with c assms have "t = s\<lparr>probing := probing s - {aid}\<rparr>"
      by (simp add: collect_eq)
    then show ?thesis by (simp add: pool_token_def)
  next
    case (Some d)
    let ?m = "merge_runtime mode update d" and ?w = "without aid (s\<lparr>probing := probing s - {aid}\<rparr>)"
    have t: "t = mark_dirty (Some aid) (rebucket aid None ?m ?w)"
      using c assms Some by (simp add: collect_eq)
    have d: "pool_slot s aid = Some d"
      using Some by (simp split: if_splits)
    have ai: "account_id ?m = Some aid"
      using pool_slot_ids(1) [OF d assms] by simp
    have "pool_slot t aid = Some ?m"
      unfolding t using ai by (simp add: pool_slot_rebucket_self pool_slot_without)
    moreover have "token ?m = token d"
      by (rule credential_eqD(4)) simp
    moreover have "pool_db t = pool_db s"
      unfolding t by (simp add: rebucket_def without_def mark_dirty_def)
    ultimately show ?thesis
      by (simp add: pool_token_def d)
  qed
  with c show "pool_token aid (snd (collect_by_id aid update None fp mode s)) = pool_token aid s"
    "pool_db (snd (collect_by_id aid update None fp mode s)) = pool_db s" by simp_all
qed

lemma pool_token_rotated:
  assumes "pool_token aid u = Some t"
  shows "pool_token aid (snd (exec_bool env tn (UpdateCredentialIfCurrent aid t (Some new)) u))
    = Some (refresh_token new)"
proof -
  have "snd (exec_bool env tn (UpdateCredentialIfCurrent aid t (Some new)) u)
      = update_slot_credential aid (Some new) u"
    using assms by (simp add: exec_bool_def turn_result token_matches_iff)
  with assms show ?thesis
    by (cases "pool_slot u aid") (auto simp: pool_token_def pool_slot_update_credential)
qed

lemma return_keeps_token:
  assumes "pool_inv s"
  shows "pool_token aid (snd (release_oauth_snapshot_runtime env tn down aid p fp s)) = pool_token aid s"
    and "credentials (pool_db (snd (release_oauth_snapshot_runtime env tn down aid p fp s)))
           = credentials (pool_db s)"
proof -
  obtain b t where c: "collect_by_id aid p None fp OAuthSnapshot s = (b, t)" by fastforce
  have t: "pool_token aid t = pool_token aid s" "pool_db t = pool_db s" "reactivated t = {}"
    using collect_keeps_token [OF assms, of aid p fp OAuthSnapshot]
      reactivated_collect [OF assms, of aid p None fp OAuthSnapshot] by (simp_all add: c)
  have "pool_token aid (emit_accounts_refresh (do_flush env fl t)) = pool_token aid s"
    "credentials (pool_db (emit_accounts_refresh (do_flush env fl t))) = credentials (pool_db s)" for fl
    using t by (simp_all add: do_flush_eq pool_token_def pool_slot_def flush_db_def cong: option.case_cong)
  with t show "pool_token aid (snd (release_oauth_snapshot_runtime env tn down aid p fp s)) = pool_token aid s"
    "credentials (pool_db (snd (release_oauth_snapshot_runtime env tn down aid p fp s)))
       = credentials (pool_db s)"
    by (auto simp: release_oauth_snapshot_runtime_def pool_cast_def pool_call_state c turn_result)
qed

end
