(* ===== verification/Oauth_Keepalive.thy ===== *)
theory Oauth_Keepalive
  imports Background_Task
begin

text \<open>
  The background refresh of OAuth accounts (\<open>src/src/services/oauth_keepalive.rs\<close>): which accounts are due,
  the refresh of one account with its persistence of the token, the snapshot and the failure verdict, and
  the daily scan. The theory instantiates the background tasks of \<open>Background_Task\<close> with the await
  points of this one.
\<close>

section \<open>Which accounts are due\<close>

definition scan_interval :: duration where
  "scan_interval = secs (24 * 60 * 60)"

definition expiry_refresh_window :: duration where
  "expiry_refresh_window = secs (12 * 3600)"

definition max_refresh_age :: duration where
  "max_refresh_age = secs (7 * 86400)"

definition is_oauth_keepalive_candidate :: "AccountWithRuntime \<Rightarrow> bool" where
  "is_oauth_keepalive_candidate account \<longleftrightarrow>
     acc_auth_source account = ''oauth'' \<and> acc_status account \<noteq> ''disabled''
     \<and> acc_oauth_token account \<noteq> None"

definition should_refresh_oauth_keepalive ::
    "(string \<Rightarrow> instant option) \<Rightarrow> AccountWithRuntime \<Rightarrow> instant \<Rightarrow> bool" where
  "should_refresh_oauth_keepalive parse_rfc3339 account now =
     (if \<not> is_oauth_keepalive_candidate account then False
      else case acc_oauth_token account of
             None \<Rightarrow> False
           | Some t \<Rightarrow>
               if expires_at t \<le> now + expiry_refresh_window then True
               else case Option.bind (acc_last_refresh_at account) parse_rfc3339 of
                      None \<Rightarrow> True
                    | Some last_refresh \<Rightarrow> last_refresh \<le> now - max_refresh_age)"

section \<open>The task and the others\<close>

datatype ka_await =
    KA_Load | KA_Reload | KA_Refresh | KA_Persist | KA_Pool_Update | KA_Snapshot | KA_Metadata | KA_Check
  | KA_Runtime | KA_Return | KA_Failure | KA_Pool_Invalidate

type_synonym 'c keepalive_env = "(ka_await, 'c) task_env"

section \<open>Persistence\<close>

definition persist_refreshed_token ::
    "'c keepalive_env \<Rightarrow> i64 \<Rightarrow> string \<Rightarrow> TokenInfo \<Rightarrow> 'c AccountPoolState
      \<Rightarrow> (ClewdrError + bool) \<times> 'c AccountPoolState" where
  "persist_refreshed_token env aid expected tok s =
     (case task_sql env KA_Persist
             (upsert_account_oauth (te_db env) (task_now env KA_Persist) aid (Some tok) None (Some expected)) s of
        (Inl e, s1) \<Rightarrow> (Inl e, s1)
      | (Inr False, s1) \<Rightarrow> (Inr False, s1)
      | (Inr True, s1) \<Rightarrow>
          (case update_credential_if_current (te_pool env) (te_turn env KA_Pool_Update)
                  (te_pool_down env KA_Pool_Update) aid expected (Some tok)
                  (te_others env KA_Pool_Update s1) of
             (Inl e, s2) \<Rightarrow> (Inl e, s2)
           | (Inr _, s2) \<Rightarrow> (Inr True, s2)))"

text \<open>The flag tells whether the task is still alive.\<close>

definition persist_snapshot ::
    "'c keepalive_env \<Rightarrow> i64 \<Rightarrow> TokenInfo \<Rightarrow> OAuthAccountSnapshot \<Rightarrow> 'c AccountPoolState
      \<Rightarrow> bool \<times> 'c AccountPoolState" where
  "persist_snapshot env aid tok sn s =
     (case access_prefix (access_token tok) of
        None \<Rightarrow> (False, s)
      | Some pfx \<Rightarrow>
          (case task_sql env KA_Metadata
                  (\<lambda>db. ((), update_account_metadata aid (snapshot_metadata sn) ''oauth'' pfx db)) s of
             (_, s1) \<Rightarrow>
               (case task_sql env KA_Check
                       (\<lambda>db. (account_credential_matches_prefix aid ''oauth'' pfx db, db)) s1 of
                  (Inl _, s2) \<Rightarrow> (True, s2)
                | (Inr False, s2) \<Rightarrow> (True, s2)
                | (Inr True, s2) \<Rightarrow>
                    (case task_sql env KA_Runtime
                            (\<lambda>db. ((), upsert_oauth_snapshot_runtime_fields (te_db env) aid (sn_runtime sn) db))
                            s2 of
                       (_, s3) \<Rightarrow>
                         (True, snd (release_oauth_snapshot_runtime (te_pool env) (te_turn env KA_Return)
                            (te_pool_down env KA_Return) aid (sn_runtime sn)
                            (Some (from_oauth_refresh_token (refresh_token tok)))
                            (te_others env KA_Return s3)))))))"

text \<open>Status, invalid reason and pool reason of a terminal failure.\<close>

definition terminal_verdict ::
    "AccountFailureContext \<Rightarrow> (string \<times> string option \<times> Reason) option" where
  "terminal_verdict ctx =
     (case fc_action ctx of
        TerminalAuth \<Rightarrow> Some (''auth_error'', None, Null)
      | TerminalDisabled \<Rightarrow>
          (let reason = (case to_reason (fc_normalized_reason ctx) of Some r \<Rightarrow> r | None \<Rightarrow> Disabled)
           in Some (''disabled'', Some (to_db_string reason), reason))
      | _ \<Rightarrow> None)"

definition persist_failure ::
    "'c keepalive_env \<Rightarrow> i64 \<Rightarrow> string \<Rightarrow> ClewdrError \<Rightarrow> 'c AccountPoolState \<Rightarrow> 'c AccountPoolState" where
  "persist_failure env aid expected err s =
     (let ctx = classify_account_failure (te_display env) (te_json_text env) err FS_OauthRefresh
                  (Some ''refresh'') None
      in case terminal_verdict ctx of
           None \<Rightarrow> s
         | Some (status, invalid_reason, pool_reason) \<Rightarrow>
             (case task_sql env KA_Failure
                     (set_oauth_account_failure_if_current (te_db env) aid expected status invalid_reason
                       (te_display env err) (to_persisted ctx)) s of
                (Inr True, s1) \<Rightarrow>
                  snd (invalidate_if_current (te_pool env) (te_turn env KA_Pool_Invalidate)
                    (te_pool_down env KA_Pool_Invalidate) aid expected pool_reason
                    (te_others env KA_Pool_Invalidate s1))
              | (Inr False, s1) \<Rightarrow> s1
              | (Inl _, s1) \<Rightarrow> s1))"

section \<open>One account and the scan\<close>

definition refresh_answer ::
    "'c keepalive_env \<Rightarrow> TokenInfo \<Rightarrow> string option \<Rightarrow> ClewdrError + TokenInfo" where
  "refresh_answer env tok proxy =
     refresh_oauth_token_only (te_oauth env) (task_now env KA_Refresh) tok proxy"

definition snapshot_answer ::
    "'c keepalive_env \<Rightarrow> string \<Rightarrow> string option \<Rightarrow> ClewdrError + OAuthAccountSnapshot" where
  "snapshot_answer env access proxy =
     fetch_oauth_snapshot (te_oauth env) (t_now (te_turn env KA_Snapshot)) access proxy"

text \<open>The account is read under its refresh lock; the network answers after the others acted.\<close>

definition refresh_account ::
    "'c keepalive_env \<Rightarrow> i64 \<Rightarrow> 'c AccountPoolState \<Rightarrow> bool \<times> 'c AccountPoolState" where
  "refresh_account env aid s =
     (case task_sql env KA_Reload
             (\<lambda>db. (get_account_by_id (te_db env) (task_now env KA_Reload) db aid, db)) s of
        (Inl _, s1) \<Rightarrow> (True, s1)
      | (Inr None, s1) \<Rightarrow> (True, s1)
      | (Inr (Some account), s1) \<Rightarrow>
          if \<not> should_refresh_oauth_keepalive (x_parse_rfc3339 (te_db env)) account (task_now env KA_Reload)
          then (True, s1)
          else case acc_oauth_token account of
            None \<Rightarrow> (True, s1)
          | Some tok \<Rightarrow>
              (let expected = refresh_token tok; s2 = te_others env KA_Refresh s1
               in case refresh_answer env tok (acc_proxy_url account) of
                    Inl err \<Rightarrow> (True, persist_failure env aid expected err s2)
                  | Inr refreshed \<Rightarrow>
                      (case persist_refreshed_token env aid expected refreshed s2 of
                         (Inl _, s3) \<Rightarrow> (True, s3)
                       | (Inr False, s3) \<Rightarrow> (True, s3)
                       | (Inr True, s3) \<Rightarrow>
                           (let s4 = te_others env KA_Snapshot s3
                            in case snapshot_answer env (access_token refreshed) (acc_proxy_url account) of
                                 Inr sn \<Rightarrow> persist_snapshot env aid refreshed sn s4
                               | Inl err \<Rightarrow>
                                   (True, persist_failure env aid (refresh_token refreshed) err s4)))))"

text \<open>The candidates one after the other; every account has its own environment. A panic ends the task.\<close>

fun refresh_all ::
    "(i64 \<Rightarrow> 'c keepalive_env) \<Rightarrow> i64 list \<Rightarrow> 'c AccountPoolState \<Rightarrow> bool \<times> 'c AccountPoolState" where
  "refresh_all envs [] s = (True, s)"
| "refresh_all envs (i # ids) s =
     (case refresh_account (envs i) i s of
        (False, t) \<Rightarrow> (False, t)
      | (True, t) \<Rightarrow> refresh_all envs ids t)"

definition run_once_with_refresher ::
    "'c keepalive_env \<Rightarrow> (i64 \<Rightarrow> 'c keepalive_env) \<Rightarrow> 'c AccountPoolState
      \<Rightarrow> bool \<times> 'c AccountPoolState" where
  "run_once_with_refresher env envs s =
     (case task_sql env KA_Load (\<lambda>db. (load_all_accounts (te_db env) (task_now env KA_Load) db, db)) s of
        (Inl _, s1) \<Rightarrow> (True, s1)
      | (Inr rows, s1) \<Rightarrow>
          refresh_all envs
            (map acc_id
              (filter (\<lambda>a. should_refresh_oauth_keepalive (x_parse_rfc3339 (te_db env)) a (task_now env KA_Load))
                (filter is_oauth_keepalive_candidate rows))) s1)"

section \<open>The pool invariant\<close>

lemma pool_inv_persist_refreshed_token:
  assumes "polite env" "pool_inv s" "persist_refreshed_token env aid expected tok s = (r, t)"
  shows "pool_inv t"
proof -
  obtain q u where sql: "task_sql env KA_Persist
      (upsert_account_oauth (te_db env) (task_now env KA_Persist) aid (Some tok) None (Some expected)) s = (q, u)"
    by fastforce
  have u: "pool_inv u"
    by (rule pool_inv_sql [OF assms(1,2) _ sql]) simp
  then have "pool_inv (te_others env KA_Pool_Update u)"
    using assms(1) by (simp add: polite_def)
  then have "pool_inv (snd (update_credential_if_current (te_pool env) tn down aid expected (Some tok)
      (te_others env KA_Pool_Update u)))" for tn down
    unfolding update_credential_if_current_def by (rule pool_inv_call)
  with u show ?thesis
    using assms(3) unfolding persist_refreshed_token_def sql
    by (auto split: sum.splits bool.splits prod.splits) (metis snd_conv)+
qed

lemma pool_inv_persist_snapshot:
  assumes "polite env" "pool_inv s" "persist_snapshot env aid tok sn s = (r, t)"
  shows "pool_inv t"
proof (cases "access_prefix (access_token tok)")
  case None
  with assms(2,3) show ?thesis by (simp add: persist_snapshot_def)
next
  case (Some pfx)
  obtain q1 s1 where s1: "task_sql env KA_Metadata
      (\<lambda>db. ((), update_account_metadata aid (snapshot_metadata sn) ''oauth'' pfx db)) s = (q1, s1)" by fastforce
  obtain q2 s2 where s2: "task_sql env KA_Check
      (\<lambda>db. (account_credential_matches_prefix aid ''oauth'' pfx db, db)) s1 = (q2, s2)" by fastforce
  obtain q3 s3 where s3: "task_sql env KA_Runtime
      (\<lambda>db. ((), upsert_oauth_snapshot_runtime_fields (te_db env) aid (sn_runtime sn) db)) s2 = (q3, s3)"
    by fastforce
  have i2: "pool_inv s2"
    by (rule pool_inv_sql [OF assms(1) pool_inv_sql [OF assms(1,2) _ s1] _ s2]) simp_all
  have "pool_inv (te_others env KA_Return s3)"
    using pool_inv_sql [OF assms(1) i2 _ s3] assms(1) by (simp add: polite_def)
  then have "pool_inv (snd (release_oauth_snapshot_runtime (te_pool env) tn down aid p fp
      (te_others env KA_Return s3)))" for tn down p fp
    unfolding release_oauth_snapshot_runtime_def by (rule pool_inv_cast)
  with i2 show ?thesis
    using assms(3) by (auto simp: persist_snapshot_def Some s1 s2 s3 split: sum.splits bool.splits)
qed

text \<open>The context a failure is classified as, and the verdict it leads to.\<close>

definition keepalive_verdict ::
    "'c keepalive_env \<Rightarrow> ClewdrError \<Rightarrow> (string \<times> string option \<times> Reason) option" where
  "keepalive_verdict env err =
     terminal_verdict (classify_account_failure (te_display env) (te_json_text env) err FS_OauthRefresh
       (Some ''refresh'') None)"

lemma persist_failure_cases:
  obtains "persist_failure env aid expected err s = s" "keepalive_verdict env err = None"
  | status reason preason failure q t where
      "keepalive_verdict env err = Some (status, reason, preason)"
      "task_sql env KA_Failure (set_oauth_account_failure_if_current (te_db env) aid expected status reason
         (te_display env err) failure) s = (q, t)"
      "persist_failure env aid expected err s =
         (if q = Inr True
          then snd (invalidate_if_current (te_pool env) (te_turn env KA_Pool_Invalidate)
                 (te_pool_down env KA_Pool_Invalidate) aid expected preason
                 (te_others env KA_Pool_Invalidate t))
          else t)"
proof (cases "keepalive_verdict env err")
  case None
  then show ?thesis
    by (intro that(1)) (simp_all add: persist_failure_def keepalive_verdict_def Let_def)
next
  case (Some v)
  obtain status reason preason where v: "v = (status, reason, preason)" by (cases v)
  let ?f = "to_persisted (classify_account_failure (te_display env) (te_json_text env) err FS_OauthRefresh
       (Some ''refresh'') None)"
  obtain q t where sql: "task_sql env KA_Failure (set_oauth_account_failure_if_current (te_db env) aid
      expected status reason (te_display env err) ?f) s = (q, t)" by fastforce
  show ?thesis
    by (rule that(2) [OF Some [unfolded v] sql])
      (use Some in \<open>auto simp: persist_failure_def keepalive_verdict_def Let_def v sql
         split: sum.splits bool.splits\<close>)
qed

lemma pool_inv_persist_failure:
  assumes "polite env" "pool_inv s"
  shows "pool_inv (persist_failure env aid expected err s)"
proof (cases rule: persist_failure_cases [of env aid expected err s])
  case 1
  with assms(2) show ?thesis by simp
next
  case (2 status reason preason failure q t)
  have t: "pool_inv t"
    by (rule pool_inv_sql [OF assms _ 2(2)]) simp
  then have "pool_inv (te_others env KA_Pool_Invalidate t)"
    using assms(1) by (simp add: polite_def)
  then show ?thesis
    using t by (simp add: 2(3) invalidate_if_current_def)
qed

lemma pool_inv_refresh_account:
  assumes "polite env" "pool_inv s"
  shows "pool_inv (snd (refresh_account env aid s))"
proof -
  obtain q s1 where s1: "task_sql env KA_Reload
      (\<lambda>db. (get_account_by_id (te_db env) (task_now env KA_Reload) db aid, db)) s = (q, s1)" by fastforce
  have i1: "pool_inv s1"
    by (rule pool_inv_sql [OF assms _ s1]) simp
  have after: "pool_inv (te_others env p t)" if "pool_inv t" for p t
    using assms(1) that by (simp add: polite_def)
  have fail: "pool_inv (persist_failure env aid e err (te_others env p t))" if "pool_inv t" for e err p t
    by (rule pool_inv_persist_failure [OF assms(1) after [OF that]])
  have snap: "pool_inv (snd (persist_snapshot env aid tok sn (te_others env p t)))" if "pool_inv t" for tok sn p t
    using pool_inv_persist_snapshot [OF assms(1) after [OF that] prod.collapse [symmetric]] .
  have rot: "pool_inv t" if "persist_refreshed_token env aid e tok (te_others env KA_Refresh s1) = (r, t)" for e tok r t
    by (rule pool_inv_persist_refreshed_token [OF assms(1) after [OF i1] that])
  show ?thesis
    unfolding refresh_account_def s1
    by (auto simp: Let_def i1 fail split: sum.splits option.splits prod.splits bool.splits
        dest!: rot intro!: fail snap [simplified])
qed

lemma pool_inv_refresh_all:
  assumes "\<And>i. polite (envs i)" "pool_inv s"
  shows "pool_inv (snd (refresh_all envs ids s))"
  using assms(2)
proof (induction ids arbitrary: s)
  case (Cons i ids)
  from pool_inv_refresh_account [OF assms(1) Cons.prems, of i i] Cons.IH show ?case
    by (auto split: prod.splits bool.splits)
qed simp

section \<open>A refresh that lost the race\<close>

lemma stale_persist_failure:
  assumes "polite env" "pool_inv s"
    and "oauth_token_of aid (pool_db (te_others env KA_Failure s)) \<noteq> Some expected"
  shows "persist_failure env aid expected err s \<in> {s, te_others env KA_Failure s}"
proof (cases rule: persist_failure_cases [of env aid expected err s])
  case (2 status reason preason failure q t)
  have "db_wf (pool_db (te_others env KA_Failure s))"
    using assms(1,2) by (auto simp: polite_def pool_inv_def)
  note miss = failure_verdict.miss [OF this assms(3), of "te_db env" status reason "te_display env err" failure]
  from 2(2) have "t = te_others env KA_Failure s \<and> q \<noteq> Inr True"
    by (auto simp: task_sql_def Let_def miss split: option.splits)
  with 2(3) show ?thesis by simp
qed simp

lemma stale_persist_token:
  assumes "polite env" "pool_inv s"
    and "oauth_token_of aid (pool_db (te_others env KA_Persist s)) \<noteq> Some expected"
  shows "\<exists>r. persist_refreshed_token env aid expected tok s = (r, te_others env KA_Persist s) \<and> r \<noteq> Inr True"
proof -
  have "db_wf (pool_db (te_others env KA_Persist s))"
    using assms(1,2) by (auto simp: polite_def pool_inv_def)
  note miss = token_rotation.miss [OF this assms(3), of "te_db env" "task_now env KA_Persist" "Some tok" None]
  show ?thesis
    by (auto simp: persist_refreshed_token_def task_sql_def Let_def miss split: option.splits)
qed

text \<open>
  C21: A keepalive that lost the race is harmless: if somebody replaced the refresh token of the account
  while the keepalive was waiting for the token endpoint, then whatever the endpoint answered, a new token or
  a terminal refusal, the task writes nothing and sends nothing that takes effect: the tables and the
  pool are exactly what the others made of them, and the task goes on to the next account. (The row of the
  account could be read at the start and held a token, and the others keep the pool consistent.)
\<close>

theorem stale_keepalive_harmless:
  assumes "polite env" and "pool_inv s" and "te_sql_error env KA_Reload = None"
    and "get_account_by_id (te_db env) (task_now env KA_Reload) (pool_db (te_others env KA_Reload s)) aid
           = Some account"
    and "acc_oauth_token account = Some tok"
    and "\<And>p. p \<in> {KA_Persist, KA_Failure} \<Longrightarrow>
           oauth_token_of aid (pool_db (te_others env p (te_others env KA_Refresh (te_others env KA_Reload s))))
             \<noteq> Some (refresh_token tok)"
  shows "\<exists>ps. set ps \<subseteq> {KA_Reload, KA_Refresh, KA_Persist, KA_Failure}
    \<and> refresh_account env aid s = (True, foldl (\<lambda>t p. te_others env p t) s ps)"
proof -
  let ?s1 = "te_others env KA_Reload s"
  let ?s2 = "te_others env KA_Refresh ?s1"
  have i2: "pool_inv ?s2"
    using assms(1,2) by (simp add: polite_def)
  have load: "task_sql env KA_Reload
      (\<lambda>db. (get_account_by_id (te_db env) (task_now env KA_Reload) db aid, db)) s = (Inr (Some account), ?s1)"
    using assms(3,4) by (simp add: task_sql_def)
  have "refresh_account env aid s
      \<in> {(True, ?s1), (True, ?s2), (True, te_others env KA_Failure ?s2), (True, te_others env KA_Persist ?s2)}"
  proof (cases "should_refresh_oauth_keepalive (x_parse_rfc3339 (te_db env)) account (task_now env KA_Reload)")
    case False
    then show ?thesis by (simp add: refresh_account_def load)
  next
    case True
    show ?thesis
    proof (cases "refresh_answer env tok (acc_proxy_url account)")
      case (Inl err)
      with True stale_persist_failure [OF assms(1) i2, of aid "refresh_token tok" err] assms(6) show ?thesis
        by (auto simp: refresh_account_def load assms(5) Let_def)
    next
      case (Inr new)
      with True stale_persist_token [OF assms(1) i2, of aid "refresh_token tok" new] assms(6) show ?thesis
        by (auto simp: refresh_account_def load assms(5) Let_def split: sum.splits bool.splits)
    qed
  qed
  then consider "refresh_account env aid s = (True, foldl (\<lambda>t p. te_others env p t) s [KA_Reload])"
    | "refresh_account env aid s = (True, foldl (\<lambda>t p. te_others env p t) s [KA_Reload, KA_Refresh])"
    | "refresh_account env aid s = (True, foldl (\<lambda>t p. te_others env p t) s [KA_Reload, KA_Refresh, KA_Failure])"
    | "refresh_account env aid s = (True, foldl (\<lambda>t p. te_others env p t) s [KA_Reload, KA_Refresh, KA_Persist])"
    by auto
  then show ?thesis
    by cases (metis set_simps empty_subsetI insert_subset insertCI)+
qed

section \<open>A refresh that succeeds\<close>

lemma persist_snapshot_keeps:
  assumes "undisturbed env" "pool_inv s"
  shows "pool_token aid (snd (persist_snapshot env aid tok sn s)) = pool_token aid s"
    and "credentials (pool_db (snd (persist_snapshot env aid tok sn s))) = credentials (pool_db s)"
proof -
  have "pool_token aid (snd (persist_snapshot env aid tok sn s)) = pool_token aid s
    \<and> credentials (pool_db (snd (persist_snapshot env aid tok sn s))) = credentials (pool_db s)"
  proof (cases "access_prefix (access_token tok)")
    case (Some pfx)
    let ?db1 = "update_account_metadata aid (snapshot_metadata sn) ''oauth'' pfx (pool_db s)"
    let ?s3 = "s\<lparr>pool_db := upsert_oauth_snapshot_runtime_fields (te_db env) aid (sn_runtime sn) ?db1\<rparr>"
    have "pool_inv ?s3"
      using assms(2) by (simp add: pool_inv_def pooled_ids_def)
    from return_keeps_token [OF this] Some show ?thesis
      by (auto simp: persist_snapshot_def undisturbed_sql [OF assms(1)] undisturbed_simps [OF assms(1)]
          split: bool.splits)
  qed (simp add: persist_snapshot_def)
  then show "pool_token aid (snd (persist_snapshot env aid tok sn s)) = pool_token aid s"
    "credentials (pool_db (snd (persist_snapshot env aid tok sn s))) = credentials (pool_db s)" by simp_all
qed

lemma credentials_failure:
  "credentials (snd (set_oauth_account_failure_if_current x aid t status reason e failure db)) = credentials db"
  by (simp add: set_oauth_account_failure_if_current_def Let_def credentials_update_where credential_cols_def)

lemma persist_failure_keeps:
  assumes "undisturbed env"
  shows "credentials (pool_db (persist_failure env aid expected err s)) = credentials (pool_db s)"
    and "keepalive_verdict env err = None \<Longrightarrow> persist_failure env aid expected err s = s"
proof -
  have conv: "pool_db (snd (invalidate_if_current pe tn None aid t r u)) = pool_db u" for pe tn t r u
    by (simp add: invalidate_if_current_def pool_call_state turn_result converge_invalidate_def Let_def
        split: option.splits)
  show "credentials (pool_db (persist_failure env aid expected err s)) = credentials (pool_db s)"
    by (cases rule: persist_failure_cases [of env aid expected err s])
       (auto simp: undisturbed_sql [OF assms] undisturbed_simps [OF assms] conv credentials_failure)
  show "keepalive_verdict env err = None \<Longrightarrow> persist_failure env aid expected err s = s"
    by (cases rule: persist_failure_cases [of env aid expected err s]) simp_all
qed

text \<open>
  A refresh that succeeds is never lost: for a due account whose stored token is the one that was
  refreshed, with nobody interfering, the tables hold the new refresh token afterwards, whatever the
  profile and usage requests that follow answer, a terminal refusal included; and if the pool had the
  old token it has the new one, unless such a refusal took the account out of service.
\<close>

theorem keepalive_keeps_rotated_token:
  assumes "undisturbed env" and "pool_inv s"
    and "get_account_by_id (te_db env) (task_now env KA_Reload) (pool_db s) aid = Some account"
    and "should_refresh_oauth_keepalive (x_parse_rfc3339 (te_db env)) account (task_now env KA_Reload)"
    and "acc_oauth_token account = Some tok"
    and "oauth_token_of aid (pool_db s) = Some (refresh_token tok)"
    and "refresh_answer env tok (acc_proxy_url account) = Inr new"
    and "refresh_account env aid s = (alive, t)"
  shows "oauth_token_of aid (pool_db t) = Some (refresh_token new)
    \<and> (pool_token aid s = Some (refresh_token tok)
        \<longrightarrow> (\<forall>err. snapshot_answer env (access_token new) (acc_proxy_url account) = Inl err
               \<longrightarrow> keepalive_verdict env err = None)
        \<longrightarrow> pool_token aid t = Some (refresh_token new))"
proof -
  let ?db = "snd (upsert_account_oauth (te_db env) (task_now env KA_Persist) aid (Some new) None
      (Some (refresh_token tok)) (pool_db s))"
  let ?tn = "te_turn env KA_Pool_Update"
  let ?s1 = "s\<lparr>pool_db := ?db\<rparr>"
  let ?s2 = "snd (exec_bool (te_pool env) ?tn (UpdateCredentialIfCurrent aid (refresh_token tok) (Some new)) ?s1)"
  have wf: "db_wf (pool_db s)"
    using assms(2) by (simp add: pool_inv_def)
  have hit: "fst (upsert_account_oauth (te_db env) (task_now env KA_Persist) aid (Some new) None
      (Some (refresh_token tok)) (pool_db s))"
    by (rule token_rotation.hit [OF wf assms(6)])
  have new_db: "oauth_token_of aid ?db = Some (refresh_token new)"
    by (rule oauth_token_of_rotated [OF wf assms(6)])
  have i1: "pool_inv ?s1"
    using assms(2) wf by (simp add: pool_inv_def pooled_ids_def)
  then have i2: "pool_inv ?s2"
    by (rule pool_rotation.wf_exec)
  have persist: "persist_refreshed_token env aid (refresh_token tok) new s = (Inr True, ?s2)"
    by (simp add: persist_refreshed_token_def undisturbed_sql [OF assms(1)] undisturbed_simps [OF assms(1)]
        hit update_credential_if_current_up case_prod_beta)
  have db2: "pool_db ?s2 = ?db"
    by (simp add: exec_bool_def turn_result update_slot_credential_def)
  have pool2: "pool_token aid ?s2 = Some (refresh_token new)" if "pool_token aid s = Some (refresh_token tok)"
    by (rule pool_token_rotated) (simp add: that)
  have run: "refresh_account env aid s =
      (case snapshot_answer env (access_token new) (acc_proxy_url account) of
         Inr sn \<Rightarrow> persist_snapshot env aid new sn ?s2
       | Inl err \<Rightarrow> (True, persist_failure env aid (refresh_token new) err ?s2))"
    by (simp add: refresh_account_def undisturbed_sql [OF assms(1)] undisturbed_simps [OF assms(1)] assms
        Let_def persist)
  show ?thesis
  proof (cases "snapshot_answer env (access_token new) (acc_proxy_url account)")
    case (Inl err)
    then have t: "t = persist_failure env aid (refresh_token new) err ?s2"
      using assms(8) by (simp add: run)
    have "oauth_token_of aid (pool_db t) = oauth_token_of aid (pool_db ?s2)"
      unfolding t by (rule oauth_token_of_credentials [OF persist_failure_keeps(1) [OF assms(1)]])
    with new_db db2 pool2 Inl persist_failure_keeps(2) [OF assms(1), of err aid "refresh_token new" ?s2]
    show ?thesis by (simp add: t)
  next
    case (Inr sn)
    then have t: "t = snd (persist_snapshot env aid new sn ?s2)"
      using assms(8) by (simp add: run)
    have "oauth_token_of aid (pool_db t) = oauth_token_of aid (pool_db ?s2)"
      unfolding t by (rule oauth_token_of_credentials [OF persist_snapshot_keeps(2) [OF assms(1) i2]])
    with new_db db2 pool2 persist_snapshot_keeps(1) [OF assms(1) i2, of aid new sn] show ?thesis
      by (simp add: t)
  qed
qed

lemma find_valid_row:
  "distinct (map a_id rows) \<Longrightarrow> a \<in> set rows \<Longrightarrow> a_id a = aid \<Longrightarrow> find (\<lambda>a. a_id a = aid) rows = Some a"
  by (induction rows) (auto simp: rev_image_eqI)

text \<open>
  A refreshed account is left alone until it is due again: once a keepalive has stored a token at time
  \<open>nowi\<close>, the account, unless it is disabled, is due exactly from twelve hours before the token expires,
  or from seven days after the refresh. (The date library has to read back the timestamps it
  printed.)
\<close>

theorem keepalive_schedule:
  assumes "db_wf db" and "a \<in> set (accounts db)" and "a_id a = aid" and "a_status a \<noteq> ''disabled''"
    and "a_organization_uuid a \<noteq> None" and "oauth_token_of aid db = Some expected"
    and "\<And>i. i \<in> {nowi, expires_at tok} \<Longrightarrow> x_parse_rfc3339 x (x_fmt_rfc3339 x i) = Some i"
    and "upsert_account_oauth x nowi aid (Some tok) None (Some expected) db = (stored, db')"
  shows "stored \<and> (\<exists>account. get_account_by_id x nowi' db' aid = Some account
    \<and> (should_refresh_oauth_keepalive (x_parse_rfc3339 x) account now
        \<longleftrightarrow> expires_at tok \<le> now + expiry_refresh_window \<or> nowi \<le> now - max_refresh_age))"
proof -
  let ?f = "\<lambda>a. a\<lparr>a_oauth_access_token := Some (access_token tok), a_oauth_refresh_token := Some (refresh_token tok),
      a_oauth_expires_at := Some (x_fmt_rfc3339 x (expires_at tok)),
      a_last_refresh_at := Some (x_fmt_rfc3339 x nowi), a_last_error := None\<rparr>"
  have f: "find (\<lambda>a. a_id a = aid) (accounts db) = Some a"
    using assms(1-3) by (intro find_valid_row) (simp_all add: db_wf_def)
  have src: "a_auth_source a = ''oauth''" and rt: "a_oauth_refresh_token a = Some expected"
    using assms(6) f by (auto simp: oauth_token_of_def split: if_splits)
  have st: "stored"
    using token_rotation.hit [OF assms(1,6), of x nowi "Some tok" None] assms(8) by simp
  have mem: "?f a \<in> set (accounts db')"
    using assms(2,3,8) src rt
    by (auto simp: upsert_account_oauth_def Let_def update_where_def coalesce_def intro!: rev_image_eqI)
  have "db_wf db'"
    using db_wf_oauth_statements(1) [OF assms(1), of x nowi aid "Some tok" None "Some expected"] assms(8)
    by simp
  then have uniq: "b = ?f a" if "b \<in> set (accounts db')" "a_id b = a_id (?f a)" for b
    using find_valid_row [OF _ that(1) that(2)] find_valid_row [OF _ mem refl] by (simp add: db_wf_def)
  from find_loaded [OF mem, of x nowi'] uniq
  have g: "get_account_by_id x nowi' db' aid = Some (load_account x nowi' db' (?f a))"
    using assms(3) by auto
  obtain org where org: "a_organization_uuid a = Some org"
    using assms(5) by blast
  show ?thesis
    using st g assms(4) src
    by (auto simp: should_refresh_oauth_keepalive_def is_oauth_keepalive_candidate_def load_account_def
        load_token_def org assms(7))
qed

section \<open>Concrete runs\<close>

definition sample_keepalive :: "(u64, i64) hash_map keepalive_env" where
  "sample_keepalive =
     \<lparr>te_pool = list_env,
      te_oauth = sample_oauth
        \<lparr>oe_post_form := \<lambda>_ _. Inr (200, []),
         oe_token_response := \<lambda>_. Inr
           \<lparr>tr_access_token = Some ''at2'', tr_refresh_token = Some ''rt2'', tr_expires_in = Some 900,
            tr_organization = None, tr_organization_uuid = None,
            tr_error = \<lparr>tb_error = None, tb_error_description = None\<rparr>\<rparr>\<rparr>,
      te_display = (\<lambda>_. ''error''), te_json_text = (\<lambda>_. []), te_turn = (\<lambda>_. sample_turn),
      te_sql_error = (\<lambda>_. None), te_pool_down = (\<lambda>_. None), te_others = (\<lambda>_ s. s)\<rparr>"

text \<open>While the keepalive waits for the endpoint, an administrator stores another token.\<close>

definition sample_race :: "(u64, i64) hash_map keepalive_env" where
  "sample_race = sample_keepalive
     \<lparr>te_others := \<lambda>p s. if p = KA_Refresh
        then s\<lparr>pool_db := snd (upsert_account_oauth sample_ext 0 1 (Some (sample_token ''rt9'')) None None
                 (pool_db s))\<rparr>
        else s\<rparr>"

lemma sample_race_polite: "polite sample_race"
  by (auto simp: polite_def sample_race_def pool_inv_def pooled_ids_def)

lemma sample_keepalive_undisturbed: "undisturbed sample_keepalive"
  by (simp add: undisturbed_def sample_keepalive_def)

lemma sample_account:
  "\<exists>account. get_account_by_id sample_ext 0 sample_db 1 = Some account
     \<and> map_option refresh_token (acc_oauth_token account) = Some ''rt''
     \<and> should_refresh_oauth_keepalive (x_parse_rfc3339 sample_ext) account 0"
proof -
  have "(case get_account_by_id sample_ext 0 sample_db 1 of
      Some account \<Rightarrow> map_option refresh_token (acc_oauth_token account) = Some ''rt''
        \<and> should_refresh_oauth_keepalive (x_parse_rfc3339 sample_ext) account 0
    | None \<Rightarrow> False)" by code_simp
  then show ?thesis by (auto split: option.splits)
qed

lemma sample_keepalive_fields:
  "te_db sample_keepalive = sample_ext" "task_now sample_keepalive p = 0"
  "te_db sample_race = sample_ext" "task_now sample_race p = 0" "te_sql_error sample_race p = None"
  "te_others sample_race p s = (if p = KA_Refresh
     then s\<lparr>pool_db := snd (upsert_account_oauth sample_ext 0 1 (Some (sample_token ''rt9'')) None None (pool_db s))\<rparr>
     else s)"
  by (simp_all add: te_db_def task_now_def sample_race_def sample_keepalive_def list_env_def sample_turn_def)

theorem stale_keepalive_harmless_witness:
  "polite sample_race
   \<and> (\<exists>ps. set ps \<subseteq> {KA_Reload, KA_Refresh, KA_Persist, KA_Failure}
       \<and> refresh_account sample_race 1 sample_pool
           = (True, foldl (\<lambda>t p. te_others sample_race p t) sample_pool ps))"
proof
  obtain account tok where acc: "get_account_by_id sample_ext 0 sample_db 1 = Some account"
    "acc_oauth_token account = Some tok" "refresh_token tok = ''rt''"
    using sample_account by auto
  have stale: "oauth_token_of 1 (snd (upsert_account_oauth sample_ext 0 1 (Some (sample_token ''rt9'')) None None
      sample_db)) = Some ''rt9''"
    by (simp add: oauth_token_of_def upsert_account_oauth_def Let_def update_where_def sample_db_def
        sample_row_def sample_token_def token_from_parts_def)
  have db: "pool_db sample_pool = sample_db" by (simp add: sample_pool_def)
  show "\<exists>ps. set ps \<subseteq> {KA_Reload, KA_Refresh, KA_Persist, KA_Failure}
       \<and> refresh_account sample_race 1 sample_pool
           = (True, foldl (\<lambda>t p. te_others sample_race p t) sample_pool ps)"
    by (rule stale_keepalive_harmless [where account = account and tok = tok])
       (use acc stale in \<open>auto simp: sample_race_polite sample_pool_inv sample_keepalive_fields db\<close>)
qed (rule sample_race_polite)

theorem keepalive_keeps_rotated_token_witness:
  "undisturbed sample_keepalive
   \<and> oauth_token_of 1 (pool_db (snd (refresh_account sample_keepalive 1 sample_pool))) = Some ''rt2''
   \<and> pool_token 1 (snd (refresh_account sample_keepalive 1 sample_pool)) = Some ''rt2''"
proof -
  obtain account tok where acc: "get_account_by_id sample_ext 0 sample_db 1 = Some account"
    "acc_oauth_token account = Some tok" "refresh_token tok = ''rt''"
    "should_refresh_oauth_keepalive (x_parse_rfc3339 sample_ext) account 0"
    using sample_account by auto
  have db: "pool_db sample_pool = sample_db" by (simp add: sample_pool_def)
  have rt: "oauth_token_of 1 sample_db = Some ''rt''" by code_simp
  have pt: "pool_token 1 sample_pool = Some ''rt''"
    by (simp add: pool_token_def pool_slot_def sample_pool_def sample_slot_def slot_oauth_def
        sample_token_def token_from_parts_def)
  obtain new where new: "refresh_answer sample_keepalive tok (acc_proxy_url account) = Inr new"
    "refresh_token new = ''rt2''"
    by (simp add: refresh_answer_def refresh_oauth_token_only_def refresh_oauth_access_token_def
        send_oauth_token_request_def sample_keepalive_def sample_oauth_def status_success_def
        token_response_access_token_def refreshed_token_def token_from_parts_def)
  have sn: "keepalive_verdict sample_keepalive err = None"
    if "snapshot_answer sample_keepalive (access_token new) (acc_proxy_url account) = Inl err" for err
    using that
    by (auto simp: snapshot_answer_def fetch_oauth_snapshot_def fetch_oauth_snapshot_raw_def
        fetch_oauth_profile_def sample_keepalive_def sample_oauth_def keepalive_verdict_def
        classify_account_failure_def terminal_verdict_def) (code_simp)
  from keepalive_keeps_rotated_token [OF sample_keepalive_undisturbed sample_pool_inv _ _ acc(2) _ new(1)
      prod.collapse [symmetric], of 1]
  show ?thesis
    using acc rt pt new(2) sn sample_keepalive_undisturbed by (auto simp: sample_keepalive_fields db)
qed

theorem keepalive_schedule_witness:
  "\<exists>account. get_account_by_id sample_ext 5
       (snd (upsert_account_oauth sample_ext 0 2 (Some (sample_token ''rt2'')) None (Some ''rt'') sample_db)) 2
      = Some account
    \<and> \<not> should_refresh_oauth_keepalive (x_parse_rfc3339 sample_ext) account (- secs (12 * 3600))"
proof -
  have wf: "db_wf sample_db" by (simp add: db_wf_def sample_db_def sample_row_def)
  have rt: "oauth_token_of 2 sample_db = Some ''rt''" by code_simp
  have e: "expires_at (sample_token ''rt2'') = 1000000000"
    by (simp add: sample_token_def token_from_parts_def)
  have x: "x_parse_rfc3339 sample_ext (x_fmt_rfc3339 sample_ext i) = Some i"
    if "i \<in> {0, expires_at (sample_token ''rt2'')}" for i
    using that by (auto simp: e sample_ext_def is_i64_def i64_min_def i64_max_def intro!: parse_show_i64)
  show ?thesis
    using e keepalive_schedule [OF wf _ _ _ _ rt x prod.collapse [symmetric], of "sample_row 2" 0
        "sample_token ''rt2''" 5 "- secs (12 * 3600)"]
    by (simp add: sample_db_def sample_row_def expiry_refresh_window_def max_refresh_age_def secs_def)
qed

end
