(* ===== verification/Probe_Report.thy ===== *)
theory Probe_Report
  imports Background_Task
begin

text \<open>
  What an account probe reports (\<open>src/src/claude_code_state/probe.rs\<close>): the bundle of documents it
  collected, the summary of a bootstrap document, the failure with its classification, and the row of the
  request log. A JSON map is an association list; printing JSON, the file system and the random
  part of the request id are arguments.
\<close>

section \<open>Bundles\<close>

type_synonym json_map = "(string \<times> json) list"

definition probe_body_max_bytes :: nat where
  "probe_body_max_bytes = 262144"

definition probe_bundle_component_sizes :: "(json \<Rightarrow> string) \<Rightarrow> json_map \<Rightarrow> json_map" where
  "probe_bundle_component_sizes json_text bundle =
     foldl (\<lambda>sizes (key, v). hm_insert key (JInt (int (length (json_text v)))) sizes) [] bundle"

definition insert_if_present :: "json_map \<Rightarrow> string \<Rightarrow> json option \<Rightarrow> json_map" where
  "insert_if_present dst key v =
     (case v of Some x \<Rightarrow> if x \<noteq> JNull then hm_insert key x dst else dst | None \<Rightarrow> dst)"

definition insert_present_keys :: "json_map \<Rightarrow> string list \<Rightarrow> json_map \<Rightarrow> json_map" where
  "insert_present_keys src keys dst =
     foldl (\<lambda>d k. insert_if_present d k (map_of src k)) dst keys"

definition insert_nonempty :: "string \<Rightarrow> json_map \<Rightarrow> json_map \<Rightarrow> json_map" where
  "insert_nonempty key m dst = (if m = [] then dst else hm_insert key (JObj m) dst)"

definition account_summary_keys :: "string list" where
  "account_summary_keys =
     [''email_address'', ''display_name'', ''full_name'', ''created_at'', ''updated_at'', ''uuid'',
      ''is_verified'']"

definition organization_summary_keys :: "string list" where
  "organization_summary_keys =
     [''uuid'', ''name'', ''billing_type'', ''rate_limit_tier'', ''merchant_of_record'',
      ''free_credits_status'', ''capabilities'']"

definition membership_summary :: "json_map \<Rightarrow> json_map" where
  "membership_summary m =
     (let base = insert_present_keys m [''role'', ''created_at''] []
      in case Option.bind (map_of m ''organization'') as_object of
           Some org \<Rightarrow>
             insert_nonempty ''organization'' (insert_present_keys org organization_summary_keys []) base
         | None \<Rightarrow> base)"

definition summarize_cookie_bootstrap :: "json \<Rightarrow> string \<Rightarrow> json" where
  "summarize_cookie_bootstrap bootstrap derived_account_type =
     (let account = Option.bind (json_get bootstrap ''account'') as_object;
          summary1 = (case account of
             Some acc \<Rightarrow>
               insert_nonempty ''account'' (insert_present_keys acc account_summary_keys []) []
           | None \<Rightarrow> []);
          memberships = Option.bind (Option.bind account (\<lambda>acc. map_of acc ''memberships'')) as_array;
          selected = Option.bind (Option.bind memberships (find offers_chat)) as_object;
          summary2 = (case selected of
             Some m \<Rightarrow> insert_nonempty ''selected_membership'' (membership_summary m) summary1
           | None \<Rightarrow> summary1);
          derived = hm_insert ''memberships_count''
             (JInt (int (case memberships of Some ms \<Rightarrow> length ms | None \<Rightarrow> 0)))
             (hm_insert ''account_type'' (JStr derived_account_type) [])
      in JObj (hm_insert ''derived'' (JObj derived) summary2))"

section \<open>Failures\<close>

record ProbeFailure =
  pf_stage :: string
  pf_message :: string
  pf_http_status :: "u16 option"
  pf_action :: AccountFailureAction

definition extract_cookie_reason :: "ClewdrError \<Rightarrow> Reason option" where
  "extract_cookie_reason e = (case e of InvalidCookie reason \<Rightarrow> Some reason | _ \<Rightarrow> None)"

definition classify_probe_persisted ::
    "(ClewdrError \<Rightarrow> string) \<Rightarrow> (json \<Rightarrow> string) \<Rightarrow> ClewdrError \<Rightarrow> FailureSource \<Rightarrow> string
      \<Rightarrow> AccountFailureContextPersisted" where
  "classify_probe_persisted display json_text err source stage =
     to_persisted (classify_account_failure display json_text err source (Some stage) None)"

definition probe_failure_from_err ::
    "(ClewdrError \<Rightarrow> string) \<Rightarrow> (json \<Rightarrow> string) \<Rightarrow> FailureSource \<Rightarrow> string \<Rightarrow> ClewdrError
      \<Rightarrow> ProbeFailure" where
  "probe_failure_from_err display json_text source stage err =
     (let ctx = classify_account_failure display json_text err source (Some stage) None
      in \<lparr>pf_stage = stage, pf_message = display err, pf_http_status = fc_upstream_http_status ctx,
          pf_action = fc_action ctx\<rparr>)"

definition internal_failure :: "string \<Rightarrow> string \<Rightarrow> ProbeFailure" where
  "internal_failure stage msg =
     \<lparr>pf_stage = stage, pf_message = msg, pf_http_status = None, pf_action = InternalError\<rparr>"

definition to_bundle_entry :: "ProbeFailure \<Rightarrow> json" where
  "to_bundle_entry f =
     JObj [(''stage'', JStr (pf_stage f)), (''message'', JStr (pf_message f)),
           (''http_status'', case pf_http_status f of Some n \<Rightarrow> JInt (int n) | None \<Rightarrow> JNull)]"

text \<open>How a probe ends: it finishes, it fails, or its task panics.\<close>

datatype probe_end = Probe_Ok | Probe_Failed ProbeFailure | Probe_Panicked

section \<open>The log row\<close>

definition probe_row :: "probe_end \<Rightarrow> string \<times> u16 option \<times> string option" where
  "probe_row outcome =
     (case outcome of
        Probe_Failed f \<Rightarrow> (to_log_status (pf_action f), pf_http_status f, Some (pf_message f))
      | _ \<Rightarrow> (''ok'', Some 200, None))"

text \<open>A bundle that prints too long is replaced by its sizes.\<close>

definition probe_row_body :: "(json \<Rightarrow> string) \<Rightarrow> json_map \<Rightarrow> string" where
  "probe_row_body json_text bundle =
     (let body = json_text (JObj bundle) in
      if probe_body_max_bytes < length body
      then json_text (JObj
        (insert_if_present
          (insert_if_present
            (hm_insert ''component_bytes'' (JObj (probe_bundle_component_sizes json_text bundle))
              (hm_insert ''bytes'' (JInt (int (length body)))
                (hm_insert ''truncated'' (JBool True) [])))
            ''debug_dump_file'' (map_of bundle ''debug_dump_file''))
          ''debug_component_bytes'' (map_of bundle ''debug_component_bytes'')))
      else body)"

definition probe_context :: "i64 \<Rightarrow> string \<Rightarrow> int \<Rightarrow> BillingContext" where
  "probe_context aid uuid started_at =
     \<lparr>bc_user_id = None, bc_api_key_id = None, bc_account_id = Some aid, bc_model_raw = [],
      bc_request_id = ''probe-'' @ show_i64 aid @ ''-'' @ uuid, bc_started_at = started_at,
      bc_audit = None\<rparr>"

definition persist_probe_row ::
    "calendar \<Rightarrow> (nat \<Rightarrow> bool) \<Rightarrow> (json \<Rightarrow> string) \<Rightarrow> string \<Rightarrow> i64 \<Rightarrow> int \<Rightarrow> RequestType \<Rightarrow> json_map
      \<Rightarrow> probe_end \<Rightarrow> int \<Rightarrow> billing_db \<Rightarrow> billing_db option" where
  "persist_probe_row cal io json_text uuid aid started_at request_type bundle outcome now db =
     (case probe_row outcome of
        (status, http_status, err_msg) \<Rightarrow>
          persist_probe_log cal io (probe_context aid uuid started_at) request_type status http_status
            (probe_row_body json_text bundle) err_msg now db)"

text \<open>\<open>stamp\<close> is the formatted start; without a file system nothing is dumped.\<close>

definition dump_probe_bundle ::
    "bool \<Rightarrow> RequestType \<Rightarrow> i64 \<Rightarrow> string \<Rightarrow> string \<Rightarrow> (string \<times> (string \<times> string)) option" where
  "dump_probe_bundle no_fs request_type aid stamp body_pretty =
     (if no_fs then None
      else let rel_path = ''probe-dumps/'' @ request_type_as_str request_type @ ''-account-'' @ show_i64 aid
                           @ ''-'' @ stamp @ ''.json''
           in Some (rel_path, (rel_path, body_pretty)))"

text \<open>The bundle gains the failure, and the dump with its sizes when one was written.\<close>

definition bundle_outcome :: "probe_end \<Rightarrow> json_map \<Rightarrow> json_map" where
  "bundle_outcome outcome bundle =
     (case outcome of Probe_Failed f \<Rightarrow> hm_insert ''error'' (to_bundle_entry f) bundle | _ \<Rightarrow> bundle)"

definition bundle_dump ::
    "(json \<Rightarrow> string) \<Rightarrow> string option \<Rightarrow> json_map \<Rightarrow> json_map \<Rightarrow> json_map" where
  "bundle_dump json_text dump_file raw bundle =
     (case dump_file of
        Some f \<Rightarrow>
          hm_insert ''debug_component_bytes'' (JObj (probe_bundle_component_sizes json_text raw))
            (hm_insert ''debug_dump_file'' (JStr f) bundle)
      | None \<Rightarrow> bundle)"

section \<open>The summary leaks nothing else\<close>

lemma hm_keys_insert_if_present: "hm_keys (insert_if_present dst k v) \<subseteq> insert k (hm_keys dst)"
  by (auto simp: insert_if_present_def split: option.splits)

lemma hm_keys_insert_present_keys: "hm_keys (insert_present_keys src ks dst) \<subseteq> set ks \<union> hm_keys dst"
proof (induction ks arbitrary: dst)
  case (Cons k ks)
  show ?case
    using Cons.IH [of "insert_if_present dst k (map_of src k)"]
      hm_keys_insert_if_present [of dst k "map_of src k"]
    by (auto simp: insert_present_keys_def)
qed (simp add: insert_present_keys_def)

lemma map_of_insert_present_keys:
  assumes "map_of (insert_present_keys src ks []) k = Some v"
  shows "k \<in> set ks \<and> map_of src k = Some v"
proof -
  have "map_of (insert_present_keys src ks dst) k = Some v \<Longrightarrow>
      map_of dst k = Some v \<or> k \<in> set ks \<and> map_of src k = Some v" for dst
  proof (induction ks arbitrary: dst)
    case (Cons x ks)
    show ?case
      using Cons.IH [of "insert_if_present dst x (map_of src x)"] Cons.prems
      by (auto simp: insert_present_keys_def insert_if_present_def hm_get_insert
          split: option.splits if_splits)
  qed (simp add: insert_present_keys_def)
  from this [OF assms] show ?thesis by simp
qed

text \<open>
  The summary of a bootstrap document carries only the listed fields of the account, with the values of
  the document.
\<close>

lemma summary_account_fields:
  assumes "json_get (summarize_cookie_bootstrap bootstrap ty) ''account'' = Some (JObj m)"
    and "map_of m k = Some v"
  shows "k \<in> set account_summary_keys
    \<and> (\<exists>acc. json_get bootstrap ''account'' = Some (JObj acc) \<and> map_of acc k = Some v)"
proof -
  let ?account = "Option.bind (json_get bootstrap ''account'') as_object"
  have "\<exists>acc. ?account = Some acc \<and> m = insert_present_keys acc account_summary_keys []"
    using assms(1) unfolding summarize_cookie_bootstrap_def Let_def
    by (cases ?account) (auto simp: hm_get_insert insert_nonempty_def split: option.splits if_splits)
  then obtain acc where acc: "?account = Some acc" and m: "m = insert_present_keys acc account_summary_keys []"
    by blast
  have "json_get bootstrap ''account'' = Some (JObj acc)"
    using acc by (cases "json_get bootstrap ''account''") (auto elim!: as_object.elims)
  with map_of_insert_present_keys [of acc account_summary_keys k v] assms(2) show ?thesis
    by (simp add: m)
qed

end
