(* ===== verification/Oauth_Probe.thy ===== *)
theory Oauth_Probe
  imports Probe_Report
begin

text \<open>
  The probe of an OAuth account (\<open>run_oauth_probe\<close> and \<open>probe_oauth_upstream_failure\<close> in
  \<open>src/src/claude_code_state/probe.rs\<close>) as a background task: under the refresh lock it takes the current
  token, asks the upstream for the account's profile and usage, refreshing the token first when it has
  expired, and commits what it learned step by step, each step guarded by the credential it started
  from. A step either goes on or ends the probe.
\<close>

section \<open>Steps\<close>

datatype probe_await =
    PA_Lookup | PA_Token | PA_Row | PA_Upstream | PA_Persist | PA_Pool_Update | PA_Recheck | PA_Reload
  | PA_Metadata | PA_Check | PA_Runtime | PA_Return | PA_Active | PA_Error | PA_Clear_Error | PA_Clear
  | PA_Reload_Active | PA_Failure_Check | PA_Auth_Error | PA_Last_Failure | PA_Invalidate
  | PC_Bootstrap | PC_Metadata | PC_Code | PC_Grant | PC_Usage | PC_Release

type_synonym 'c probe_env = "(probe_await, 'c) task_env"

text \<open>\<open>None\<close>: the probe goes on.\<close>

type_synonym 'c probe_step = "probe_end option \<times> 'c AccountPoolState"

definition probe_then ::
    "'c probe_step \<Rightarrow> ('c AccountPoolState \<Rightarrow> 'c probe_step) \<Rightarrow> 'c probe_step" where
  "probe_then m f = (case m of (None, s) \<Rightarrow> f s | (Some e, s) \<Rightarrow> (Some e, s))"

definition end_probing :: "'c probe_env \<Rightarrow> i64 \<Rightarrow> 'c AccountPoolState \<Rightarrow> 'c AccountPoolState" where
  "end_probing env aid s = task_send env PA_Clear (ClearProbing aid) s"

definition drop_probe_error :: "'c probe_env \<Rightarrow> i64 \<Rightarrow> 'c AccountPoolState \<Rightarrow> 'c AccountPoolState" where
  "drop_probe_error env aid s = task_send env PA_Clear_Error (ClearProbeError aid) s"

definition report_probe_error ::
    "'c probe_env \<Rightarrow> i64 \<Rightarrow> string \<Rightarrow> 'c AccountPoolState \<Rightarrow> 'c AccountPoolState" where
  "report_probe_error env aid msg s = task_send env PA_Error (SetProbeError aid msg) s"

text \<open>The end of a probe that failed on this side; \<open>shown\<close> is what the pool keeps as the error.\<close>

definition probe_failed ::
    "'c probe_env \<Rightarrow> i64 \<Rightarrow> string \<Rightarrow> string \<Rightarrow> string \<Rightarrow> 'c AccountPoolState \<Rightarrow> 'c probe_step" where
  "probe_failed env aid stage shown msg s =
     (Some (Probe_Failed (internal_failure stage msg)), end_probing env aid (report_probe_error env aid shown s))"

definition oauth_failed ::
    "'c probe_env \<Rightarrow> i64 \<Rightarrow> string \<Rightarrow> string \<Rightarrow> 'c AccountPoolState \<Rightarrow> 'c probe_step" where
  "oauth_failed env aid stage msg s = probe_failed env aid stage (''OAuth probe failed: '' @ msg) msg s"

definition persist_probe_last_failure ::
    "'c probe_env \<Rightarrow> i64 \<Rightarrow> AccountFailureContextPersisted \<Rightarrow> 'c AccountPoolState
      \<Rightarrow> 'c AccountPoolState" where
  "persist_probe_last_failure env aid persisted s =
     snd (task_sql env PA_Last_Failure
       (\<lambda>db. ((), set_account_last_failure (te_db env) aid (Some persisted) db)) s)"

section \<open>The upstream calls\<close>

definition probe_token ::
    "'c probe_env \<Rightarrow> i64 \<Rightarrow> TokenInfo \<Rightarrow> 'c AccountPoolState \<Rightarrow> TokenInfo \<times> 'c AccountPoolState" where
  "probe_token env aid fallback s =
     (case handle_get_token (te_pool env) (te_turn env PA_Token) (te_pool_down env PA_Token) aid
             (te_others env PA_Token s) of
        (Inr (Some t), s1) \<Rightarrow> (t, s1)
      | (_, s1) \<Rightarrow>
          (case task_sql env PA_Row
                  (\<lambda>db. (get_account_by_id (te_db env) (task_now env PA_Row) db aid, db)) s1 of
             (Inr (Some acc), s2) \<Rightarrow> (case acc_oauth_token acc of Some t \<Rightarrow> t | None \<Rightarrow> fallback, s2)
           | (_, s2) \<Rightarrow> (fallback, s2)))"

text \<open>A refresh only when the token has expired. The result: the new token if any, and the documents.\<close>

definition probe_fetch ::
    "'c probe_env \<Rightarrow> TokenInfo \<Rightarrow> string option
      \<Rightarrow> ClewdrError + (TokenInfo option \<times> json \<times> json \<times> OAuthAccountSnapshot)" where
  "probe_fetch env tok proxy =
     (let now = t_now (te_turn env PA_Upstream); nowi = task_now env PA_Upstream in
      if is_expired nowi tok
      then (case refresh_oauth_token_with_raw (te_oauth env) now nowi tok proxy of
              Inl e \<Rightarrow> Inl e
            | Inr (r, profile_raw, usage_raw) \<Rightarrow> Inr (Some (ex_token r), profile_raw, usage_raw, ex_snapshot r))
      else (case fetch_oauth_snapshot_raw (te_oauth env) now (access_token tok) proxy of
              Inl e \<Rightarrow> Inl e
            | Inr (sn, profile_raw, usage_raw) \<Rightarrow> Inr (None, profile_raw, usage_raw, sn)))"

definition probe_oauth_upstream_failure ::
    "'c probe_env \<Rightarrow> i64 \<Rightarrow> string \<Rightarrow> ClewdrError \<Rightarrow> 'c AccountPoolState \<Rightarrow> 'c probe_step" where
  "probe_oauth_upstream_failure env aid expected_prefix err s =
     (let msg = te_display env err;
          ctx = classify_account_failure (te_display env) (te_json_text env) err FS_ProbeOauth
                  (Some ''refresh'') None;
          auth = (fc_action ctx = TerminalAuth)
      in case task_sql env PA_Failure_Check
                (\<lambda>db. (account_credential_matches_prefix aid ''oauth'' expected_prefix db, db)) s of
           (checked, s1) \<Rightarrow>
             (let still_current = (checked = Inr True);
                  s2 = (if auth \<and> still_current
                        then (case task_sql env PA_Auth_Error (\<lambda>db. ((), set_account_auth_error aid msg db)) s1 of
                                (Inr _, t1) \<Rightarrow>
                                  (case task_sql env PA_Last_Failure
                                          (\<lambda>db. ((), set_account_last_failure (te_db env) aid
                                                   (Some (to_persisted ctx)) db)) t1 of
                                     (_, t2) \<Rightarrow>
                                       drop_probe_error env aid
                                         (task_send env PA_Invalidate (Invalidate aid Null) t2))
                              | (Inl _, t1) \<Rightarrow> report_probe_error env aid (''OAuth probe failed: '' @ msg) t1)
                        else if auth then drop_probe_error env aid s1
                        else if still_current
                        then report_probe_error env aid (''OAuth probe failed: '' @ msg) s1
                        else drop_probe_error env aid s1)
              in (Some (Probe_Failed \<lparr>pf_stage = ''refresh'', pf_message = msg,
                          pf_http_status = fc_upstream_http_status ctx, pf_action = fc_action ctx\<rparr>),
                  end_probing env aid s2)))"

section \<open>The commits\<close>

definition same_refresh_token :: "string \<Rightarrow> AccountWithRuntime option \<Rightarrow> bool" where
  "same_refresh_token rt row =
     (case Option.bind row acc_oauth_token of Some t \<Rightarrow> refresh_token t = rt | None \<Rightarrow> False)"

definition commit_token ::
    "'c probe_env \<Rightarrow> i64 \<Rightarrow> TokenInfo \<Rightarrow> TokenInfo \<Rightarrow> 'c AccountPoolState \<Rightarrow> 'c probe_step" where
  "commit_token env aid old new s =
     (case task_sql env PA_Persist
             (upsert_account_oauth (te_db env) (task_now env PA_Persist) aid (Some new) None
               (Some (refresh_token old))) s of
        (Inl err, s1) \<Rightarrow>
          oauth_failed env aid ''persist_token''
            (''failed to persist refreshed token: '' @ te_display env err) s1
      | (Inr False, s1) \<Rightarrow> (Some Probe_Ok, end_probing env aid s1)
      | (Inr True, s1) \<Rightarrow>
          (case update_credential_if_current (te_pool env) (te_turn env PA_Pool_Update)
                  (te_pool_down env PA_Pool_Update) aid (refresh_token old) (Some new)
                  (te_others env PA_Pool_Update s1) of
             (Inr True, s2) \<Rightarrow> (None, s2)
           | (Inr False, s2) \<Rightarrow>
               (case task_sql env PA_Recheck
                       (\<lambda>db. (get_account_by_id (te_db env) (task_now env PA_Recheck) db aid, db)) s2 of
                  (row, s3) \<Rightarrow>
                    if same_refresh_token (refresh_token new) (case row of Inr r \<Rightarrow> r | Inl _ \<Rightarrow> None)
                    then (None, task_send env PA_Reload ReloadFromDb s3)
                    else (Some Probe_Ok, end_probing env aid s3))
           | (Inl err, s2) \<Rightarrow>
               (Some (Probe_Failed (internal_failure ''persist_token''
                  (''failed to conditionally update pool credential: '' @ te_display env err))),
                end_probing env aid s2)))"

definition commit_metadata ::
    "'c probe_env \<Rightarrow> i64 \<Rightarrow> string \<Rightarrow> OAuthAccountSnapshot \<Rightarrow> 'c AccountPoolState \<Rightarrow> 'c probe_step" where
  "commit_metadata env aid pfx sn s =
     (case task_sql env PA_Metadata
             (\<lambda>db. ((), update_account_metadata aid (snapshot_metadata sn) ''oauth'' pfx db)) s of
        (Inl err, s1) \<Rightarrow>
          oauth_failed env aid ''persist_metadata'' (''failed to persist metadata: '' @ te_display env err) s1
      | (Inr _, s1) \<Rightarrow>
          (case task_sql env PA_Check
                  (\<lambda>db. (account_credential_matches_prefix aid ''oauth'' pfx db, db)) s1 of
             (Inr True, s2) \<Rightarrow> (None, s2)
           | (Inr False, s2) \<Rightarrow> (Some Probe_Ok, end_probing env aid (drop_probe_error env aid s2))
           | (Inl err, s2) \<Rightarrow>
               oauth_failed env aid ''fingerprint_check''
                 (''credential fingerprint check failed: '' @ te_display env err) s2))"

definition commit_runtime ::
    "'c probe_env \<Rightarrow> i64 \<Rightarrow> string \<Rightarrow> OAuthAccountSnapshot \<Rightarrow> 'c AccountPoolState \<Rightarrow> 'c probe_step" where
  "commit_runtime env aid rt sn s =
     (case task_sql env PA_Runtime
             (\<lambda>db. ((), upsert_oauth_snapshot_runtime_fields (te_db env) aid (sn_runtime sn) db)) s of
        (Inl err, s1) \<Rightarrow>
          oauth_failed env aid ''persist_runtime'' (''failed to persist runtime: '' @ te_display env err) s1
      | (Inr _, s1) \<Rightarrow>
          (case release_oauth_snapshot_runtime (te_pool env) (te_turn env PA_Return)
                  (te_pool_down env PA_Return) aid (sn_runtime sn) (Some (from_oauth_refresh_token rt))
                  (te_others env PA_Return s1) of
             (Inr _, s2) \<Rightarrow> (None, s2)
           | (Inl err, s2) \<Rightarrow>
               oauth_failed env aid ''sync_pool_runtime''
                 (''failed to sync probe runtime into pool: '' @ te_display env err) s2))"

definition commit_status ::
    "'c probe_env \<Rightarrow> i64 \<Rightarrow> string \<Rightarrow> 'c AccountPoolState \<Rightarrow> 'c probe_step" where
  "commit_status env aid status s =
     (if status = ''auth_error''
      then (case task_sql env PA_Active (\<lambda>db. ((), set_account_active aid db)) s of
              (Inl err, s1) \<Rightarrow>
                oauth_failed env aid ''reactivate'' (''failed to reactivate account: '' @ te_display env err) s1
            | (Inr _, s1) \<Rightarrow>
                (Some Probe_Ok,
                 task_send env PA_Reload_Active ReloadFromDb
                   (end_probing env aid (drop_probe_error env aid s1))))
      else (Some Probe_Ok, end_probing env aid (drop_probe_error env aid s)))"

text \<open>Everything after the upstream answered; the new token, if any, is committed first.\<close>

definition commit_probe ::
    "'c probe_env \<Rightarrow> AccountWithRuntime \<Rightarrow> TokenInfo \<Rightarrow> TokenInfo option \<Rightarrow> OAuthAccountSnapshot
      \<Rightarrow> 'c AccountPoolState \<Rightarrow> 'c probe_step" where
  "commit_probe env account tok new sn s =
     (let aid = acc_id account; current = (case new of Some t \<Rightarrow> t | None \<Rightarrow> tok) in
      probe_then (case new of Some t \<Rightarrow> commit_token env aid tok t s | None \<Rightarrow> (None, s)) (\<lambda>s.
      case access_prefix (access_token current) of
        None \<Rightarrow> (Some Probe_Panicked, s)
      | Some pfx \<Rightarrow>
          probe_then (commit_metadata env aid pfx sn s) (\<lambda>s.
          probe_then (commit_runtime env aid (refresh_token current) sn s) (\<lambda>s.
          commit_status env aid (acc_status account) s))))"

definition run_oauth_probe ::
    "'c probe_env \<Rightarrow> AccountWithRuntime \<Rightarrow> 'c AccountPoolState
      \<Rightarrow> probe_end \<times> json_map \<times> 'c AccountPoolState" where
  "run_oauth_probe env account s =
     (let aid = acc_id account; fin = (\<lambda>bundle (e, t). (case e of Some o' \<Rightarrow> o' | None \<Rightarrow> Probe_Ok, bundle, t)) in
      case acc_oauth_token account of
        None \<Rightarrow>
          fin [] (probe_failed env aid ''token'' ''missing stored OAuth token'' ''missing stored OAuth token'' s)
      | Some fallback \<Rightarrow>
          (case probe_token env aid fallback s of
             (tok, s1) \<Rightarrow>
               (case access_prefix (access_token tok) of
                  None \<Rightarrow> (Probe_Panicked, [], s1)
                | Some pfx \<Rightarrow>
                    (let s2 = te_others env PA_Upstream s1 in
                     case probe_fetch env tok (acc_proxy_url account) of
                       Inl err \<Rightarrow> fin [] (probe_oauth_upstream_failure env aid pfx err s2)
                     | Inr (new, profile_raw, usage_raw, sn) \<Rightarrow>
                         fin [(''profile'', profile_raw), (''usage'', usage_raw)]
                           (commit_probe env account tok new sn s2)))))"

text \<open>With a log sink the outcome is logged; \<open>log\<close> is that write, with the bundle and the outcome.\<close>

definition probe_oauth_account ::
    "'c probe_env \<Rightarrow> (json_map \<Rightarrow> probe_end \<Rightarrow> billing_db \<Rightarrow> billing_db option) option
      \<Rightarrow> AccountWithRuntime \<Rightarrow> 'c AccountPoolState \<Rightarrow> billing_db
      \<Rightarrow> probe_end \<times> billing_db option \<times> 'c AccountPoolState" where
  "probe_oauth_account env log_sink account s bdb =
     (case run_oauth_probe env account s of
        (outcome, bundle, t) \<Rightarrow>
          (outcome,
           case log_sink of
             Some w \<Rightarrow> if outcome = Probe_Panicked then None else w (bundle_outcome outcome bundle) outcome bdb
           | None \<Rightarrow> Some bdb,
           t))"

section \<open>A probe always ends\<close>

text \<open>
  The account is no longer marked as being probed, at the end or right before the last step, which is the
  reload that follows a reactivation or the statement that stores a failure.
\<close>

definition probing_ended :: "'c probe_env \<Rightarrow> i64 \<Rightarrow> 'c AccountPoolState \<Rightarrow> bool" where
  "probing_ended env aid t \<longleftrightarrow>
     (\<exists>u. aid \<notin> probing u \<and> (t = u \<or> t = task_send env PA_Reload_Active ReloadFromDb u
        \<or> (\<exists>f. t = persist_probe_last_failure env aid f u)))"

definition pool_up :: "'c probe_env \<Rightarrow> bool" where
  "pool_up env \<longleftrightarrow> (\<forall>p. te_pool_down env p = None)"

lemma task_send_up:
  "pool_up env \<Longrightarrow> task_send env p msg s = snd (snd (handle (te_pool env) (te_turn env p) msg (te_others env p s)))"
  by (simp add: task_send_def pool_send_def pool_cast_def pool_call_state pool_up_def)

lemma end_probing_probing: "pool_up env \<Longrightarrow> aid \<notin> probing (end_probing env aid s)"
  by (simp add: end_probing_def task_send_up turn_result emit_accounts_refresh_def)

lemma probing_ended_steps [simp]:
  "pool_up env \<Longrightarrow> probing_ended env aid (end_probing env aid s)"
  "pool_up env \<Longrightarrow> probing_ended env aid (task_send env PA_Reload_Active ReloadFromDb (end_probing env aid s))"
  using end_probing_probing [of env aid s] by (auto simp: probing_ended_def)

definition ends_well :: "'c probe_env \<Rightarrow> i64 \<Rightarrow> 'c probe_step \<Rightarrow> bool" where
  "ends_well env aid m \<longleftrightarrow>
     (case m of (Some e, t) \<Rightarrow> e = Probe_Panicked \<or> probing_ended env aid t | (None, _) \<Rightarrow> True)"

lemma ends_well_then:
  "ends_well env aid m \<Longrightarrow> (\<And>s. ends_well env aid (f s)) \<Longrightarrow> ends_well env aid (probe_then m f)"
  by (cases m) (simp add: ends_well_def probe_then_def split: option.splits)

lemma ends_well_steps:
  assumes "pool_up env"
  shows "ends_well env aid (probe_failed env aid stage shown msg s)"
    "ends_well env aid (oauth_failed env aid stage msg s)"
    "ends_well env aid (probe_oauth_upstream_failure env aid pfx err s)"
    "ends_well env aid (commit_token env aid old new s)"
    "ends_well env aid (commit_metadata env aid pfx sn s)"
    "ends_well env aid (commit_runtime env aid rt sn s)"
    "ends_well env aid (commit_status env aid status s)"
  using assms
  by (auto simp: ends_well_def oauth_failed_def probe_failed_def probe_oauth_upstream_failure_def Let_def
      commit_token_def commit_metadata_def commit_runtime_def commit_status_def
      split: sum.splits bool.splits prod.splits option.splits)

lemma commit_status_ends: "\<exists>e. fst (commit_status env aid status s) = Some e"
  by (auto simp: commit_status_def oauth_failed_def probe_failed_def split: sum.splits prod.splits)

lemma upstream_failure_ends: "\<exists>e. fst (probe_oauth_upstream_failure env aid pfx err s) = Some e"
  by (auto simp: probe_oauth_upstream_failure_def Let_def split: prod.splits)

lemma probe_then_ends: "(\<And>s. \<exists>e. fst (f s) = Some e) \<Longrightarrow> \<exists>e. fst (probe_then m f) = Some e"
  by (auto simp: probe_then_def split: option.splits prod.splits)

lemma commit_probe_ends: "\<exists>e. fst (commit_probe env account tok new sn s) = Some e"
  unfolding commit_probe_def Let_def
  by (intro probe_then_ends) (simp split: option.splits add: probe_then_ends commit_status_ends)

lemma commit_probe_ends_well:
  assumes "pool_up env"
  shows "ends_well env (acc_id account) (commit_probe env account tok new sn s)"
proof -
  have "ends_well env aid (Some Probe_Panicked, t)" "ends_well env aid (None, t)" for aid t
    by (simp_all add: ends_well_def)
  then show ?thesis
    unfolding commit_probe_def Let_def
    by (auto split: option.splits intro!: ends_well_then ends_well_steps [OF assms])
qed

lemma oauth_probe_ends:
  assumes "pool_up env" and "run_oauth_probe env account s = (outcome, bundle, t)"
    and "outcome \<noteq> Probe_Panicked"
  shows "probing_ended env (acc_id account) t"
proof -
  let ?aid = "acc_id account"
  have fin: "probing_ended env ?aid t"
    if "ends_well env ?aid m" "\<exists>e. fst m = Some e" "(case m of (e, u) \<Rightarrow> (case e of Some x \<Rightarrow> x | None \<Rightarrow> Probe_Ok, b, u))
      = (outcome, bundle, t)" for m b
    using that assms(3) by (auto simp: ends_well_def split: option.splits prod.splits)
  show ?thesis
  proof (cases "acc_oauth_token account")
    case None
    with assms(2) show ?thesis
      by (intro fin [OF ends_well_steps(1) [OF assms(1)]])
         (auto simp: run_oauth_probe_def Let_def probe_failed_def)
  next
    case (Some fallback)
    obtain tok s1 where tok: "probe_token env ?aid fallback s = (tok, s1)" by fastforce
    obtain pfx where pfx: "access_prefix (access_token tok) = Some pfx"
      using assms(2,3) Some tok by (cases "access_prefix (access_token tok)") (auto simp: run_oauth_probe_def)
    show ?thesis
    proof (cases "probe_fetch env tok (acc_proxy_url account)")
      case (Inl err)
      show ?thesis
        by (rule fin [OF ends_well_steps(3) [OF assms(1)] upstream_failure_ends])
           (use assms(2) Some tok pfx Inl in \<open>simp add: run_oauth_probe_def Let_def\<close>)
    next
      case (Inr r)
      obtain new p u sn where r: "r = (new, p, u, sn)" by (cases r)
      show ?thesis
        by (rule fin [OF commit_probe_ends_well [OF assms(1)] commit_probe_ends])
           (use assms(2) Some tok pfx Inr r in \<open>simp add: run_oauth_probe_def Let_def\<close>)
    qed
  qed
qed

section \<open>A stale probe commits nothing\<close>

text \<open>The state without the bookkeeping of probes and the counter of notifications.\<close>

definition without_probes :: "'c AccountPoolState \<Rightarrow> 'c AccountPoolState" where
  "without_probes s = s\<lparr>refresh_events := 0, probing := {}, probe_errors := []\<rparr>"

text \<open>Nobody acts after the upstream has answered.\<close>

definition calm_after_upstream :: "'c probe_env \<Rightarrow> bool" where
  "calm_after_upstream env \<longleftrightarrow> (\<forall>p s. p \<noteq> PA_Upstream \<longrightarrow> te_others env p s = s)"

definition holds_access_token :: "i64 \<Rightarrow> string \<Rightarrow> database \<Rightarrow> bool" where
  "holds_access_token aid pfx db =
     list_ex (\<lambda>a. a_id a = aid \<and> has_prefix (a_oauth_access_token a) pfx) (accounts db)"

lemma without_probes_send:
  assumes "calm_after_upstream env"
  shows "without_probes (end_probing env aid s) = without_probes s"
    "without_probes (drop_probe_error env aid s) = without_probes s"
    "without_probes (report_probe_error env aid e s) = without_probes s"
  using assms
  by (simp_all add: end_probing_def drop_probe_error_def report_probe_error_def task_send_def pool_send_def
      pool_cast_def pool_call_state calm_after_upstream_def turn_result emit_accounts_refresh_def
      without_probes_def)

lemma rotated_token_committed_nowhere:
  assumes "calm_after_upstream env" "db_wf (pool_db s)" "oauth_token_of aid (pool_db s) \<noteq> Some (refresh_token old)"
  shows "\<exists>e t. commit_token env aid old new s = (Some e, t) \<and> without_probes t = without_probes s"
proof -
  note miss = token_rotation.miss [OF assms(2,3)]
  show ?thesis
    using assms(1)
    by (auto simp: commit_token_def task_sql_def Let_def miss calm_after_upstream_def
        oauth_failed_def probe_failed_def without_probes_send [OF assms(1)] split: option.splits)
qed

lemma stale_prefix:
  assumes "\<not> holds_access_token aid pfx db"
  shows "update_account_metadata aid u ''oauth'' pfx db = db"
    and "\<not> account_credential_matches_prefix aid ''oauth'' pfx db"
proof -
  have "rows_affected (\<lambda>a. a_id a = aid \<and> has_prefix (a_oauth_access_token a) pfx) db = 0"
    using assms by (auto simp: rows_affected_def holds_access_token_def list_ex_iff filter_empty_conv)
  then show "update_account_metadata aid u ''oauth'' pfx db = db"
    by (simp add: update_account_metadata_def update_where_id_if)
  show "\<not> account_credential_matches_prefix aid ''oauth'' pfx db"
    using assms by (auto simp: account_credential_matches_prefix_def holds_access_token_def list_ex_iff)
qed

lemma stale_metadata:
  assumes "calm_after_upstream env" "\<not> holds_access_token aid pfx (pool_db s)"
  shows "\<exists>e t. commit_metadata env aid pfx sn s = (Some e, t) \<and> without_probes t = without_probes s"
  using assms(1) stale_prefix [OF assms(2)]
  by (auto simp: commit_metadata_def task_sql_def Let_def calm_after_upstream_def oauth_failed_def
      probe_failed_def without_probes_send [OF assms(1)] split: option.splits)

lemma stale_upstream_failure:
  assumes "calm_after_upstream env" "\<not> holds_access_token aid pfx (pool_db s)"
  shows "without_probes (snd (probe_oauth_upstream_failure env aid pfx err s)) = without_probes s"
  using assms(1) stale_prefix(2) [OF assms(2)]
  by (auto simp: probe_oauth_upstream_failure_def task_sql_def Let_def calm_after_upstream_def
      without_probes_send [OF assms(1)] split: option.splits)

text \<open>
  A probe whose credential was replaced while it waited for the upstream commits nothing: if by then the
  account's row holds neither the access token nor the refresh token the probe started from, then whatever
  the upstream answered, success, refresh or a terminal refusal, the tables, the buckets of the pool and
  all counters stay as the others left them; only the bookkeeping of probes changes.
\<close>

theorem stale_probe_commits_nothing:
  assumes "calm_after_upstream env" and "acc_oauth_token account = Some fallback"
    and "probe_token env (acc_id account) fallback s = (tok, s1)"
    and "access_prefix (access_token tok) = Some pfx"
    and "db_wf (pool_db (te_others env PA_Upstream s1))"
    and "\<not> holds_access_token (acc_id account) pfx (pool_db (te_others env PA_Upstream s1))"
    and "oauth_token_of (acc_id account) (pool_db (te_others env PA_Upstream s1)) \<noteq> Some (refresh_token tok)"
    and "run_oauth_probe env account s = (outcome, bundle, t)"
  shows "without_probes t = without_probes (te_others env PA_Upstream s1)"
proof (cases "probe_fetch env tok (acc_proxy_url account)")
  case (Inl err)
  with assms stale_upstream_failure [OF assms(1,6), of err] show ?thesis
    by (auto simp: run_oauth_probe_def Let_def split: prod.splits)
next
  case (Inr r)
  obtain new p u sn where r: "r = (new, p, u, sn)" by (cases r)
  let ?s2 = "te_others env PA_Upstream s1"
  have "without_probes (snd (commit_probe env account tok new sn ?s2)) = without_probes ?s2"
  proof (cases new)
    case None
    with assms(4) stale_metadata [OF assms(1,6), of sn] show ?thesis
      by (auto simp: commit_probe_def Let_def probe_then_def)
  next
    case (Some t)
    with rotated_token_committed_nowhere [OF assms(1,5,7), of t] show ?thesis
      by (auto simp: commit_probe_def Let_def probe_then_def)
  qed
  with assms(2,3,4,8) Inr r show ?thesis
    by (auto simp: run_oauth_probe_def Let_def split: prod.splits)
qed

section \<open>Concrete runs\<close>

definition sample_probe :: "(u64, i64) hash_map probe_env" where
  "sample_probe =
     \<lparr>te_pool = list_env, te_oauth = sample_oauth, te_display = (\<lambda>_. ''error''), te_json_text = (\<lambda>_. []),
      te_turn = (\<lambda>_. sample_turn), te_sql_error = (\<lambda>_. None), te_pool_down = (\<lambda>_. None),
      te_others = (\<lambda>p s. if p = PA_Upstream
        then s\<lparr>pool_db := snd (upsert_account_oauth sample_ext 0 1
                 (Some ((sample_token ''rt9'')\<lparr>access_token := ''zz''\<rparr>)) None None (pool_db s))\<rparr>
        else s)\<rparr>"

definition sample_probe_account :: AccountWithRuntime where
  "sample_probe_account = load_account sample_ext 0 sample_db (sample_row 1)"

lemma sample_probe_token:
  "acc_id sample_probe_account = 1" "\<exists>t. acc_oauth_token sample_probe_account = Some t"
  "probe_token sample_probe 1 fallback sample_pool = (sample_token ''rt'', sample_pool)"
  "access_prefix (access_token (sample_token ''rt'')) = Some ''at2''"
  "pool_up sample_probe" "calm_after_upstream sample_probe"
proof -
  show "acc_id sample_probe_account = 1"
    by (simp add: sample_probe_account_def load_account_def sample_row_def)
  have "load_token sample_ext 0 (sample_row 1) \<noteq> None" by code_simp
  then show "\<exists>t. acc_oauth_token sample_probe_account = Some t"
    by (simp add: sample_probe_account_def load_account_def)
  show "probe_token sample_probe 1 fallback sample_pool = (sample_token ''rt'', sample_pool)"
    by (simp add: probe_token_def handle_get_token_def pool_call_def sample_probe_def turn_result get_token_def
        sample_pool_def sample_slot_def slot_oauth_def)
qed (simp_all add: access_prefix_def sample_token_def token_from_parts_def pool_up_def sample_probe_def
       calm_after_upstream_def)

theorem stale_probe_commits_nothing_witness:
  "oauth_token_of 1 (pool_db (te_others sample_probe PA_Upstream sample_pool)) = Some ''rt9''
   \<and> without_probes (snd (snd (run_oauth_probe sample_probe sample_probe_account sample_pool)))
       = without_probes (te_others sample_probe PA_Upstream sample_pool)"
proof -
  obtain fallback where fb: "acc_oauth_token sample_probe_account = Some fallback"
    using sample_probe_token(2) by blast
  let ?db = "pool_db (te_others sample_probe PA_Upstream sample_pool)"
  note defs = sample_probe_def sample_pool_def upsert_account_oauth_def Let_def update_where_def sample_db_def
    sample_row_def sample_token_def token_from_parts_def
  have rt: "oauth_token_of 1 ?db = Some ''rt9''"
    by (simp add: oauth_token_of_def defs)
  have ac: "\<not> holds_access_token 1 ''at2'' ?db"
    by (simp add: holds_access_token_def has_prefix_def defs)
  have wf: "db_wf ?db"
    using sample_db_wf by (simp add: sample_probe_def sample_pool_def)
  have ne: "oauth_token_of 1 ?db \<noteq> Some (refresh_token (sample_token ''rt''))"
    unfolding rt by (simp add: sample_token_def token_from_parts_def)
  let ?run = "run_oauth_probe sample_probe sample_probe_account sample_pool"
  have "?run = (fst ?run, fst (snd ?run), snd (snd ?run))" by simp
  from stale_probe_commits_nothing [OF sample_probe_token(6) fb _ sample_probe_token(4) _ _ _ this]
  show ?thesis
    using rt ac wf ne by (simp add: sample_probe_token)
qed

end
