(* ===== verification/Cookie_Probe.thy ===== *)
theory Cookie_Probe
  imports Oauth_Probe Chat_Slots
begin

text \<open>
  The probe of a cookie account (\<open>run_cookie_probe\<close> and \<open>probe_cookie\<close> in
  \<open>src/src/claude_code_state/probe.rs\<close>) and the task that the pool spawns for a probe (the body of
  \<open>spawn_probe_guarded\<close> in \<open>src/src/services/account_pool/probes.rs\<close>), which loads the account and chooses
  the probe by its kind. The probe runs the login steps of the request state: bootstrap, code and token
  exchange, usage. Their answers are arguments; an answer is a failure or a document, or the step panics.
\<close>

section \<open>Environment\<close>

record cookie_answers =
  ca_bootstrap :: "json awaited"
  ca_exchange :: exchange_answers
  ca_usage :: usage_answers

text \<open>The messages among the effects of a step of the request state.\<close>

definition send_effects ::
    "'c probe_env \<Rightarrow> probe_await \<Rightarrow> chat_effect list \<Rightarrow> 'c AccountPoolState \<Rightarrow> 'c AccountPoolState" where
  "send_effects env p es s =
     foldl (\<lambda>s e. case e of Pool msg \<Rightarrow> task_send env p msg s | _ \<Rightarrow> s) s es"

definition release_to_pool ::
    "'c probe_env \<Rightarrow> 'u ClaudeCodeState \<Rightarrow> Reason option \<Rightarrow> 'c AccountPoolState \<Rightarrow> 'c AccountPoolState" where
  "release_to_pool env st reason s = send_effects env PC_Release (release_account st reason) s"

section \<open>Failures of a step\<close>

text \<open>A rejected cookie is returned with the reason, and the classification is stored.\<close>

definition reject_cookie ::
    "'c probe_env \<Rightarrow> i64 \<Rightarrow> string \<Rightarrow> ClewdrError \<Rightarrow> Reason \<Rightarrow> 'u ClaudeCodeState \<Rightarrow> 'c AccountPoolState
      \<Rightarrow> 'c AccountPoolState" where
  "reject_cookie env aid stage err reason st s =
     persist_probe_last_failure env aid
       (classify_probe_persisted (te_display env) (te_json_text env) err FS_ProbeCookie stage)
       (release_to_pool env st (Some reason) s)"

text \<open>
  Any other failure is only reported; a failed bootstrap ends the mark, later steps return the account.
\<close>

definition cookie_step_failed ::
    "'c probe_env \<Rightarrow> i64 \<Rightarrow> string \<Rightarrow> string \<Rightarrow> ClewdrError \<Rightarrow> 'u ClaudeCodeState \<Rightarrow> 'c AccountPoolState
      \<Rightarrow> probe_end \<times> 'c AccountPoolState" where
  "cookie_step_failed env aid stage what err st s =
     (Probe_Failed (probe_failure_from_err (te_display env) (te_json_text env) FS_ProbeCookie stage err),
      case extract_cookie_reason err of
        Some reason \<Rightarrow> reject_cookie env aid stage err reason st s
      | None \<Rightarrow>
          (let s1 = report_probe_error env aid (what @ '' failed: '' @ te_display env err) s
           in if stage = ''bootstrap'' then end_probing env aid s1 else release_to_pool env st None s1))"

section \<open>Usage\<close>

text \<open>\<open>util >= &Some(100.0)\<close>: an absent utilization is below every present one.\<close>

definition cooldown_until :: "(i64 option \<times> f64 option) list \<Rightarrow> i64 option" where
  "cooldown_until windows =
     (case List.map_filter fst
             (filter (\<lambda>(ts, util). (case util of Some u \<Rightarrow> u \<ge> 100 | None \<Rightarrow> False) \<and> ts \<noteq> None) windows) of
        [] \<Rightarrow> None
      | ts \<Rightarrow> Some (Max (set ts)))"

definition probe_usage_slot ::
    "(string \<Rightarrow> i64 option) \<Rightarrow> i64 \<Rightarrow> json \<Rightarrow> AccountSlot \<Rightarrow> AccountSlot" where
  "probe_usage_slot rfc3339 now usage c =
     (let session = parse_window rfc3339 usage ''five_hour'';
          weekly = parse_window rfc3339 usage ''seven_day'';
          limits = parse_weekly_scoped_limits rfc3339 usage;
          opus = backfill limits ''opus'' (parse_window rfc3339 usage ''seven_day_opus'');
          sonnet = backfill limits ''sonnet'' (parse_window rfc3339 usage ''seven_day_sonnet'')
      in c\<lparr>weekly_scoped_limits := limits,
           session_has_reset := Some (fst session \<noteq> None), weekly_has_reset := Some (fst weekly \<noteq> None),
           weekly_opus_has_reset := Some (fst opus \<noteq> None),
           weekly_sonnet_has_reset := Some (fst sonnet \<noteq> None),
           session_resets_at := fst session, weekly_resets_at := fst weekly,
           weekly_opus_resets_at := fst opus, weekly_sonnet_resets_at := fst sonnet,
           session_utilization := snd session, weekly_utilization := snd weekly,
           weekly_opus_utilization := snd opus, weekly_sonnet_utilization := snd sonnet,
           resets_last_checked_at := Some now,
           reset_time := cooldown_until [session, weekly]\<rparr>)"

definition with_cookie_slot ::
    "(AccountSlot \<Rightarrow> AccountSlot) \<Rightarrow> 'u ClaudeCodeState \<Rightarrow> 'u ClaudeCodeState" where
  "with_cookie_slot f st = st\<lparr>cs_cookie := map_option f (cs_cookie st)\<rparr>"

section \<open>The probe\<close>

definition bootstrap_metadata :: "BootstrapInfo \<Rightarrow> AccountMetadataUpdate" where
  "bootstrap_metadata info =
     \<lparr>mu_email = Some (bi_email info), mu_account_type = Some (bi_account_type info),
      mu_organization_uuid = Some (bi_org_uuid info), mu_rate_limit_tier = bi_rate_limit_tier info,
      mu_subscription_created_at = bi_subscription_created_at info,
      mu_billing_type = bi_billing_type info\<rparr>"

text \<open>From the code exchange on; the result carries the usage document when it was fetched.\<close>

definition cookie_probe_login ::
    "'c probe_env \<Rightarrow> 'u chat_env \<Rightarrow> cookie_answers \<Rightarrow> i64 \<Rightarrow> BootstrapInfo \<Rightarrow> 'u ClaudeCodeState
      \<Rightarrow> 'c AccountPoolState \<Rightarrow> probe_end \<times> json option \<times> 'c AccountPoolState" where
  "cookie_probe_login env chat an aid info st s =
     (let step = (\<lambda>stage what i st s.
            case i of
              Failed e \<Rightarrow> (case cookie_step_failed env aid stage what e st s of (r, t) \<Rightarrow> (r, None, t))
            | _ \<Rightarrow> (Probe_Panicked, None, s))
      in case exchange_code chat (ca_exchange an) (bi_org_uuid info) st of
           (Inl i, st1, _) \<Rightarrow>
             step ''oauth_code'' ''OAuth code exchange'' i st1 (te_others env PC_Code s)
         | (Inr code_res, st1, _) \<Rightarrow>
             (case exchange_token (ca_exchange an) code_res st1 of
                (Inl i, st2, _) \<Rightarrow>
                  step ''oauth_token'' ''OAuth token exchange'' i st2
                    (te_others env PC_Grant (te_others env PC_Code s))
              | (Inr _, st2, _) \<Rightarrow>
                  (let s2 = te_others env PC_Usage (te_others env PC_Grant (te_others env PC_Code s))
                   in case fetch_usage_metrics chat (ca_usage an) st2 of
                        (Inl i, st3, _) \<Rightarrow> step ''usage'' ''usage fetch'' i st3 s2
                      | (Inr usage, st3, _) \<Rightarrow>
                          (let st4 = with_cookie_slot
                                 (probe_usage_slot (ce_rfc3339 chat) (t_now (te_turn env PC_Usage)) usage) st3
                           in (Probe_Ok, Some usage,
                               release_to_pool env st4 None (drop_probe_error env aid s2))))))"

text \<open>The outcome, the bundle, the raw documents for the debug dump, the state.\<close>

definition run_cookie_probe ::
    "'c probe_env \<Rightarrow> 'u chat_env \<Rightarrow> cookie_answers \<Rightarrow> i64 \<Rightarrow> AccountSlot \<Rightarrow> 'c AccountPoolState
      \<Rightarrow> probe_end \<times> json_map \<times> json_map \<times> 'c AccountPoolState" where
  "run_cookie_probe env chat an aid slot s =
     (let failed = (\<lambda>msg. (Probe_Failed (internal_failure ''init'' msg), [], [],
                             end_probing env aid (report_probe_error env aid msg s)))
      in case cookie slot of
        None \<Rightarrow> failed ''Cookie kind invariant: probe slot missing cookie blob''
      | Some blob \<Rightarrow>
          (case access_prefix (inner blob) of
             None \<Rightarrow> (Probe_Panicked, [], [], s)
           | Some pfx \<Rightarrow>
               (case from_credential chat slot of
                  Inl e \<Rightarrow> failed (''init failed: '' @ te_display env e)
                | Inr st \<Rightarrow>
                    (let s1 = te_others env PC_Bootstrap s in
                     case (case ca_bootstrap an of
                             Inl i \<Rightarrow> Inl i
                           | Inr raw \<Rightarrow> (case parse_bootstrap_info raw of Inl i \<Rightarrow> Inl i | Inr info \<Rightarrow> Inr (info, raw))) of
                       Inl (Failed e) \<Rightarrow>
                         (case cookie_step_failed env aid ''bootstrap'' ''bootstrap'' e st s1 of
                            (r, t) \<Rightarrow> (r, [], [], t))
                     | Inl _ \<Rightarrow> (Probe_Panicked, [], [], s1)
                     | Inr (info, raw) \<Rightarrow>
                         (let summary = (''bootstrap_summary'', summarize_cookie_bootstrap raw (bi_account_type info));
                              s2 = snd (task_sql env PC_Metadata
                                     (\<lambda>db. ((), update_account_metadata aid (bootstrap_metadata info) ''cookie'' pfx db)) s1)
                          in if bi_account_type info = ''free''
                             then (Probe_Failed \<lparr>pf_stage = ''bootstrap'',
                                     pf_message = ''cookie belongs to a free-tier account and was rejected'',
                                     pf_http_status = None, pf_action = TerminalDisabled\<rparr>,
                                   [summary], [(''bootstrap'', raw)],
                                   reject_cookie env aid ''bootstrap'' (InvalidCookie Free) Free st s2)
                             else
                               (case cookie_probe_login env chat an aid info
                                       (with_cookie_slot (\<lambda>c. c\<lparr>email := Some (bi_email info),
                                          account_type := Some (bi_account_type info)\<rparr>) st) s2 of
                                  (r, usage, t) \<Rightarrow>
                                    (let u = (case usage of Some x \<Rightarrow> [(''usage'', x)] | None \<Rightarrow> [])
                                     in (r, summary # u, (''bootstrap'', raw) # u, t))))))))"

text \<open>
  With a log sink the outcome is logged; with the debug setting and a file system, the raw documents
  are dumped before. \<open>stamp\<close> is the formatted start of the probe and \<open>pretty\<close> the JSON printer of the
  dump.
\<close>

definition probe_cookie ::
    "'c probe_env \<Rightarrow> 'u chat_env \<Rightarrow> cookie_answers \<Rightarrow> bool \<Rightarrow> bool \<Rightarrow> string \<Rightarrow> (json \<Rightarrow> string)
      \<Rightarrow> (json_map \<Rightarrow> probe_end \<Rightarrow> billing_db \<Rightarrow> billing_db option) option
      \<Rightarrow> i64 \<Rightarrow> AccountSlot \<Rightarrow> 'c AccountPoolState \<Rightarrow> billing_db
      \<Rightarrow> probe_end \<times> billing_db option \<times> (string \<times> string) option \<times> 'c AccountPoolState" where
  "probe_cookie env chat an debug no_fs stamp pretty log_sink aid slot s bdb =
     (case run_cookie_probe env chat an aid slot s of
        (outcome, bundle, raw, t) \<Rightarrow>
          (let dump = (if log_sink \<noteq> None \<and> debug \<and> raw \<noteq> []
                       then dump_probe_bundle no_fs ProbeCookie aid stamp (pretty (JObj raw)) else None);
               full = bundle_dump (te_json_text env) (map_option fst dump) raw (bundle_outcome outcome bundle)
           in (outcome,
               case log_sink of
                 Some w \<Rightarrow> if outcome = Probe_Panicked then None else w full outcome bdb
               | None \<Rightarrow> Some bdb,
               map_option snd dump, t)))"

section \<open>The spawned task\<close>

text \<open>\<open>mem_runtime\<close> is the runtime state of the slot when the probe was spawned.\<close>

definition probe_task ::
    "'c probe_env \<Rightarrow> 'u chat_env \<Rightarrow> cookie_answers \<Rightarrow> i64 \<Rightarrow> RuntimeStateParams option
      \<Rightarrow> 'c AccountPoolState \<Rightarrow> probe_end \<times> 'c AccountPoolState" where
  "probe_task env chat an aid mem_runtime s =
     (let failed = (\<lambda>msg s. (Probe_Failed (internal_failure ''init'' msg),
                               end_probing env aid (report_probe_error env aid msg s)))
      in case task_sql env PA_Lookup
                (\<lambda>db. (get_account_by_id (te_db env) (task_now env PA_Lookup) db aid, db)) s of
           (Inl e, s1) \<Rightarrow> failed (''DB load failed: '' @ te_display env e) s1
         | (Inr None, s1) \<Rightarrow> failed (''account '' @ show_i64 aid @ '' not found at probe time'') s1
         | (Inr (Some account), s1) \<Rightarrow>
             (case from_auth_source (acc_auth_source account) of
                OAuth \<Rightarrow> (case run_oauth_probe env account s1 of (r, _, t) \<Rightarrow> (r, t))
              | Cookie \<Rightarrow>
                  (case build_cookie_probe_slot (t_now (te_turn env PA_Lookup)) account mem_runtime of
                     Inl msg \<Rightarrow> failed msg s1
                   | Inr slot \<Rightarrow>
                       (case run_cookie_probe env chat an aid
                               (case acc_oauth_token account of Some t \<Rightarrow> slot\<lparr>token := Some t\<rparr> | None \<Rightarrow> slot) s1 of
                          (r, _, _, t) \<Rightarrow> (r, t)))
              | ApiKey \<Rightarrow> (Probe_Ok, end_probing env aid s1)))"

section \<open>Every probe ends\<close>

lemma collect_ends_probing: "aid \<notin> probing (snd (collect_by_id aid update reason fp mode s))"
  by (auto simp: collect_by_id_def Let_def mark_dirty_def rebucket_def split: option.splits Reason.splits)

lemma flush_probing [simp]:
  fixes s :: "'c AccountPoolState"
  shows "probing (do_flush env fl s) = probing s"
proof -
  have fold: "(\<And>t e. probing (f t e) = probing t) \<Longrightarrow> probing (foldl f u xs) = probing u"
    for f :: "'c AccountPoolState \<Rightarrow> i64 \<times> string \<Rightarrow> 'c AccountPoolState" and u xs
    by (induction xs arbitrary: u) simp_all
  show ?thesis
    by (cases "dirty s = {}") (simp_all add: do_flush_def Let_def fold split: prod.splits)
qed

lemma return_ends_probing:
  assumes "pool_up env"
  shows "aid \<notin> probing (task_send env p (Return aid update reason fp mode) s)"
proof -
  obtain b t where c: "collect_by_id aid update reason fp mode (te_others env p s) = (b, t)" by fastforce
  have "aid \<notin> probing t"
    using collect_ends_probing [of aid update reason fp mode "te_others env p s"] by (simp add: c)
  then show ?thesis
    by (simp add: task_send_up [OF assms] c turn_result emit_accounts_refresh_def)
qed

text \<open>The request state still carries the slot of the account.\<close>

definition holds_slot :: "i64 \<Rightarrow> 'u ClaudeCodeState \<Rightarrow> bool" where
  "holds_slot aid st \<longleftrightarrow> map_option account_id (cs_cookie st) = Some (Some aid)"

lemma holds_slot_same: "same_request st st' \<Longrightarrow> holds_slot aid st \<Longrightarrow> holds_slot aid st'"
  by (simp add: same_request_def holds_slot_def)

lemma release_ends_probing:
  assumes "pool_up env" "holds_slot aid st"
  shows "aid \<notin> probing (release_to_pool env st reason s)"
  using assms
  by (auto simp: holds_slot_def release_to_pool_def send_effects_def release_account_def return_ends_probing)

lemma probing_endedI: "aid \<notin> probing t \<Longrightarrow> probing_ended env aid t"
  by (auto simp: probing_ended_def)

lemma reject_ended:
  assumes "pool_up env" "holds_slot aid st"
  shows "probing_ended env aid (reject_cookie env aid stage err reason st s)"
  using release_ends_probing [OF assms, of "Some reason" s] unfolding probing_ended_def reject_cookie_def by blast

lemma step_failed_ended:
  assumes "pool_up env" "holds_slot aid st" "cookie_step_failed env aid stage what err st s = (r, t)"
  shows "probing_ended env aid t"
  using reject_ended [OF assms(1,2)] release_ends_probing [OF assms(1,2)] assms(1,3)
  by (auto simp: cookie_step_failed_def Let_def probing_endedI split: option.splits if_splits)

lemma exchange_proper:
  "proper st (exchange_code env an org st)" "proper st (exchange_token an res st)"
  unfolding exchange_code_def exchange_token_def
  by (auto intro!: proper_and_then split: option.splits)

lemma login_ended:
  assumes "pool_up env" "holds_slot aid st"
    and "cookie_probe_login env chat an aid info st s = (outcome, u, t)" "outcome \<noteq> Probe_Panicked"
  shows "probing_ended env aid t"
proof -
  obtain r1 st1 e1 where c: "exchange_code chat (ca_exchange an) (bi_org_uuid info) st = (r1, st1, e1)"
    using prod_cases3 by blast
  have h1: "holds_slot aid st1"
    using exchange_proper(1) [of st chat "ca_exchange an" "bi_org_uuid info"] assms(2)
    by (auto simp: c proper_def intro: holds_slot_same)
  note ended = step_failed_ended [OF assms(1)] assms(3,4)
  show ?thesis
  proof (cases r1)
    case (Inl i)
    with ended(1) [OF h1] assms(3,4) c show ?thesis
      by (cases i) (auto simp: cookie_probe_login_def Let_def split: prod.splits)
  next
    case (Inr code)
    obtain r2 st2 e2 where g: "exchange_token (ca_exchange an) code st1 = (r2, st2, e2)"
      using prod_cases3 by blast
    have h2: "holds_slot aid st2"
      using exchange_proper(2) [of st1 "ca_exchange an" code] h1 by (auto simp: g proper_def intro: holds_slot_same)
    show ?thesis
    proof (cases r2)
      case (Inl i)
      with ended(1) [OF h2] assms(3,4) c g Inr show ?thesis
        by (cases i) (auto simp: cookie_probe_login_def Let_def split: prod.splits)
    next
      case r2: (Inr v)
      obtain r3 st3 e3 where us: "fetch_usage_metrics chat (ca_usage an) st2 = (r3, st3, e3)"
        using prod_cases3 by blast
      have h3: "holds_slot aid st3"
        using fetch_usage_metrics_proper [of st2 chat "ca_usage an"] h2
        by (auto simp: us proper_def intro: holds_slot_same)
      then have h4: "holds_slot aid (with_cookie_slot (probe_usage_slot rfc now usage) st3)" for rfc now usage
        by (cases "cs_cookie st3") (auto simp: holds_slot_def with_cookie_slot_def probe_usage_slot_def Let_def)
      show ?thesis
      proof (cases r3)
        case (Inl i)
        with ended(1) [OF h3] assms(3,4) c g us Inr r2 show ?thesis
          by (cases i) (auto simp: cookie_probe_login_def Let_def split: prod.splits)
      next
        case r3: (Inr usage)
        with assms(3) c g us Inr r2 release_ends_probing [OF assms(1) h4] show ?thesis
          by (auto simp: cookie_probe_login_def Let_def intro!: probing_endedI)
      qed
    qed
  qed
qed

lemma from_credential_slot: "from_credential env slot = Inr st \<Longrightarrow> cs_cookie st = Some slot"
  by (auto simp: from_credential_def Let_def split: sum.splits option.splits)

lemma cookie_probe_ended:
  assumes "pool_up env" "account_id slot = Some aid"
    and "run_cookie_probe env chat an aid slot s = (outcome, b, raw, t)" "outcome \<noteq> Probe_Panicked"
  shows "probing_ended env aid t"
proof (cases "\<exists>blob pfx st. cookie slot = Some blob \<and> access_prefix (inner blob) = Some pfx
    \<and> from_credential chat slot = Inr st")
  case False
  with assms show ?thesis
    by (auto simp: run_cookie_probe_def Let_def split: option.splits sum.splits)
next
  case True
  then obtain blob pfx st where st: "cookie slot = Some blob" "access_prefix (inner blob) = Some pfx"
    "from_credential chat slot = Inr st" by blast
  have h: "holds_slot aid st"
    using from_credential_slot [OF st(3)] assms(2) by (simp add: holds_slot_def)
  then have h': "holds_slot aid (with_cookie_slot (\<lambda>c. c\<lparr>email := e, account_type := ty\<rparr>) st)" for e ty
    by (auto simp: holds_slot_def with_cookie_slot_def)
  let ?boot = "case ca_bootstrap an of Inl i \<Rightarrow> Inl i
     | Inr raw \<Rightarrow> (case parse_bootstrap_info raw of Inl i \<Rightarrow> Inl i | Inr info \<Rightarrow> Inr (info, raw))"
  show ?thesis
  proof (cases ?boot)
    case (Inl i)
    with st assms(3,4) step_failed_ended [OF assms(1) h] show ?thesis
      by (cases i) (auto simp: run_cookie_probe_def Let_def split: prod.splits)
  next
    case (Inr r)
    obtain info rw where r: "r = (info, rw)" by (cases r)
    show ?thesis
    proof (cases "bi_account_type info = ''free''")
      case True
      with st assms(3) Inr r reject_ended [OF assms(1) h] show ?thesis
        by (auto simp: run_cookie_probe_def Let_def)
    next
      case False
      with st assms(3,4) Inr r login_ended [OF assms(1) h'] show ?thesis
        by (auto simp: run_cookie_probe_def Let_def split: prod.splits)
    qed
  qed
qed

lemma build_slot_id: "build_cookie_probe_slot now account mem = Inr slot \<Longrightarrow> account_id slot = Some (acc_id account)"
  by (auto simp: build_cookie_probe_slot_def Let_def split: option.splits sum.splits)

text \<open>
  No probe leaves its account marked as being probed: while the pool takes messages, whatever the tables
  and the upstream answer, whatever fails and whatever everybody else does between its steps, the task
  spawned for a probe of a cookie, OAuth or key account ends the mark unless it panics: at the
  end, or right before its last step, a reload or the record of a failure.
\<close>

theorem probe_task_ends:
  assumes "pool_up env" and "probe_task env chat an aid mem_runtime s = (outcome, t)"
    and "outcome \<noteq> Probe_Panicked"
  shows "probing_ended env aid t"
proof -
  obtain q s1 where q: "task_sql env PA_Lookup
      (\<lambda>db. (get_account_by_id (te_db env) (task_now env PA_Lookup) db aid, db)) s = (q, s1)" by fastforce
  show ?thesis
  proof (cases "\<exists>account. q = Inr (Some account)")
    case False
    then show ?thesis
      using assms by (auto simp: probe_task_def Let_def q split: sum.splits option.splits)
  next
    case True
    then obtain account where acc: "q = Inr (Some account)" by blast
    have aid: "acc_id account = aid"
      using q acc by (auto simp: task_sql_def Let_def get_account_by_id_def find_Some_iff
          split: option.splits prod.splits)
    show ?thesis
    proof (cases "from_auth_source (acc_auth_source account)")
      case Cookie
      show ?thesis
      proof (cases "build_cookie_probe_slot (t_now (te_turn env PA_Lookup)) account mem_runtime")
        case (Inl msg)
        with Cookie assms acc q show ?thesis
          by (auto simp: probe_task_def Let_def)
      next
        case (Inr slot)
        let ?slot = "case acc_oauth_token account of Some t \<Rightarrow> slot\<lparr>token := Some t\<rparr> | None \<Rightarrow> slot"
        obtain r b raw u where run: "run_cookie_probe env chat an aid ?slot s1 = (r, b, raw, u)"
          using prod_cases4 by blast
        have "account_id ?slot = Some aid"
          using build_slot_id [OF Inr] aid by (simp split: option.splits)
        from cookie_probe_ended [OF assms(1) this run] Cookie Inr assms(2,3) acc q run show ?thesis
          by (simp add: probe_task_def)
      qed
    next
      case OAuth
      with assms acc q oauth_probe_ends [OF assms(1), of account s1] aid show ?thesis
        by (auto simp: probe_task_def Let_def split: prod.splits)
    next
      case ApiKey
      with assms acc q show ?thesis
        by (auto simp: probe_task_def Let_def)
    qed
  qed
qed

section \<open>Where the two probes differ\<close>

text \<open>
  A window above 100 percent: the cookie probe puts the account into cooldown until the window resets, the
  OAuth snapshot, which compares for equality, does not.
\<close>

lemma overused_window_cooldown:
  "cooldown_until [(Some ts, Some 101), (None, None)] = Some ts"
  "exhausted_until [(Some ts, Some 101), (None, None)] = None"
  by (simp_all add: cooldown_until_def exhausted_until_def map_filter_def)

text \<open>At exactly 100 percent, and below, both agree.\<close>

lemma cooldowns_agree:
  assumes "\<And>ts u. (ts, Some u) \<in> set windows \<Longrightarrow> u \<le> 100"
  shows "cooldown_until windows = exhausted_until windows"
proof -
  have "filter (\<lambda>(ts, util). (case util of Some u \<Rightarrow> u \<ge> 100 | None \<Rightarrow> False) \<and> ts \<noteq> None) windows
      = filter (\<lambda>(ts, util). util = Some 100 \<and> ts \<noteq> None) windows"
    using assms by (intro filter_cong) (auto split: option.splits dest!: assms)
  then show ?thesis
    by (simp only: cooldown_until_def exhausted_until_def)
qed

text \<open>
  A bootstrap document whose organization carries no uuid ends the task by a panic, and the mark of the
  account stays.
\<close>

lemma malformed_bootstrap_panics:
  assumes "ca_bootstrap an = Inr raw" "parse_bootstrap_info raw = Inl Panicked"
    and "cookie slot = Some blob" "access_prefix (inner blob) = Some pfx" "from_credential chat slot = Inr st"
  shows "run_cookie_probe env chat an aid slot s = (Probe_Panicked, [], [], te_others env PC_Bootstrap s)"
  using assms by (simp add: run_cookie_probe_def Let_def)

section \<open>A concrete run\<close>

definition refused :: "'a awaited" where
  "refused = Inl (Failed UpstreamCoolingDown)"

definition sample_cookie_answers :: cookie_answers where
  "sample_cookie_answers =
     (let ex = \<lparr>xa_now = 0, xa_bootstrap = refused, xa_redirect = refused, xa_grant = refused,
                xa_refresh = refused\<rparr>
      in \<lparr>ca_bootstrap = refused, ca_exchange = ex,
          ca_usage = \<lparr>us_exchange = ex, us_metrics = refused\<rparr>\<rparr>)"

lemma sample_probe_lookup: "get_account_by_id sample_ext 0 sample_db 1 = Some sample_probe_account"
proof -
  have "sample_row 1 \<in> set (accounts sample_db)" by (simp add: sample_db_def)
  from find_loaded [OF this, of sample_ext 0] show ?thesis
    by (auto simp: sample_db_def sample_probe_account_def) (auto simp: sample_row_def)
qed

lemma sample_probe_not_panicked:
  "fst (run_oauth_probe sample_probe sample_probe_account sample_pool) \<noteq> Probe_Panicked"
proof -
  obtain fallback where fb: "acc_oauth_token sample_probe_account = Some fallback"
    using sample_probe_token(2) by blast
  have "\<exists>err. probe_fetch sample_probe (sample_token ''rt'') proxy = Inl err" for proxy
    by (simp add: probe_fetch_def Let_def fetch_oauth_snapshot_raw_def fetch_oauth_profile_def
        refresh_oauth_token_with_raw_def refresh_oauth_access_token_def send_oauth_token_request_def
        status_success_def sample_probe_def sample_oauth_def)
  from this [of "acc_proxy_url sample_probe_account"] show ?thesis
    by (auto simp: run_oauth_probe_def fb sample_probe_token Let_def probe_oauth_upstream_failure_def
        split: prod.splits)
qed

theorem probe_task_ends_witness:
  "fst (probe_task sample_probe sample_env sample_cookie_answers 1 None sample_pool) \<noteq> Probe_Panicked
   \<and> probing_ended sample_probe 1 (snd (probe_task sample_probe sample_env sample_cookie_answers 1 None sample_pool))"
proof -
  let ?t = "probe_task sample_probe sample_env sample_cookie_answers 1 None sample_pool"
  have "te_db sample_probe = sample_ext" "task_now sample_probe PA_Lookup = 0"
    "te_sql_error sample_probe PA_Lookup = None" "te_others sample_probe PA_Lookup sample_pool = sample_pool"
    "pool_db sample_pool = sample_db"
    by (simp_all add: te_db_def task_now_def sample_probe_def list_env_def sample_turn_def sample_pool_def)
  then have "task_sql sample_probe PA_Lookup
      (\<lambda>db. (get_account_by_id (te_db sample_probe) (task_now sample_probe PA_Lookup) db 1, db)) sample_pool
      = (Inr (Some sample_probe_account), sample_pool)"
    by (simp add: task_sql_def sample_probe_lookup)
  moreover have "from_auth_source (acc_auth_source sample_probe_account) = OAuth"
    by (simp add: sample_probe_account_def load_account_def sample_row_def from_auth_source_def)
  ultimately have "fst ?t = fst (run_oauth_probe sample_probe sample_probe_account sample_pool)"
    by (simp add: probe_task_def Let_def split: prod.splits)
  then have np: "fst ?t \<noteq> Probe_Panicked"
    using sample_probe_not_panicked by simp
  from probe_task_ends [OF sample_probe_token(5) prod.collapse [symmetric] np] np show ?thesis by simp
qed

end
