(* ===== verification/Bundle_Format.thy ===== *)
theory Bundle_Format
  imports Clewdr_Error
begin

text \<open>
  The configuration bundle of the command line (\<open>src/src/cli/bundle.rs\<close>): cells, rows, table schemas, their
  JSON form, the readers of the tables and the removal of secrets.

  A \<open>BTreeMap\<close> is an association list; the order of its keys plays no role. The base64 coder of the
  blobs is an argument of the JSON form. \<open>f64\<close> has no infinities; SQLite stores none that a client sends.
\<close>

section \<open>Types\<close>

text \<open>The dash of the messages, in UTF-8.\<close>

definition em_dash :: string where
  "em_dash = [CHR 0xE2, CHR 0x80, CHR 0x94]"

datatype CellValue =
    CNull
  | CInteger i64
  | CReal f64
  | CText string
  | CBlob string

type_synonym row = "(string, CellValue) hash_map"

record ColumnInfo =
  ci_name :: string
  ci_kind :: string
  ci_notnull :: bool
  ci_default_value :: "string option"

record TableSchema =
  ts_columns :: "ColumnInfo list"
  ts_pk :: "string list"

record Bundle =
  bu_version :: nat
  bu_produced_at :: string
  bu_clewdr_version :: string
  bu_schema :: "(string, TableSchema) hash_map"
  bu_config_toml :: string
  bu_tables :: "(string, row list) hash_map"
  bu_skipped :: "string list"

definition bundle_version :: nat where
  "bundle_version = 1"

definition default_tables :: "string list" where
  "default_tables =
     [''policies'', ''users'', ''api_keys'', ''api_key_account_bindings'', ''accounts'', ''proxies'',
      ''settings'', ''models'', ''model_pricing'']"

definition runtime_tables :: "string list" where
  "runtime_tables =
     [''account_runtime_state'', ''usage_rollups'', ''usage_lifetime_totals'', ''usage_daily_rollups'',
      ''usage_daily_rollup_state'']"

definition never_exported :: "string list" where
  "never_exported = [''request_logs'', ''request_log_audits'', ''_sqlx_migrations'']"

definition settings_keys_never_exported :: "string list" where
  "settings_keys_never_exported = [''session_secret'']"

section \<open>Cells as JSON\<close>

fun cell_json :: "(string \<Rightarrow> string) \<Rightarrow> CellValue \<Rightarrow> json" where
  "cell_json b64 CNull = JNull"
| "cell_json b64 (CInteger i) = JInt i"
| "cell_json b64 (CReal f) = JFloat f"
| "cell_json b64 (CText t) = JStr t"
| "cell_json b64 (CBlob b) = JObj [(''type'', JStr ''blob''), (''base64'', JStr (b64 b))]"

text \<open>\<open>Number::as_i64\<close> first; an integer above the range of \<open>i64\<close> is read as a double.\<close>

fun cell_of_json :: "(string \<Rightarrow> string + string) \<Rightarrow> json \<Rightarrow> string + CellValue" where
  "cell_of_json unb64 JNull = Inr CNull"
| "cell_of_json unb64 (JBool b) = Inr (CInteger (if b then 1 else 0))"
| "cell_of_json unb64 (JInt n) =
     (if is_i64 n then Inr (CInteger n) else Inr (CReal (f64_of_int n)))"
| "cell_of_json unb64 (JFloat f) = Inr (CReal f)"
| "cell_of_json unb64 (JStr s) = Inr (CText s)"
| "cell_of_json unb64 (JObj kvs) =
     (case (Option.bind (map_of kvs ''type'') as_str, Option.bind (map_of kvs ''base64'') as_str) of
        (Some ty, Some b) \<Rightarrow>
          if ty = ''blob'' then (case unb64 b of Inl e \<Rightarrow> Inl e | Inr bytes \<Rightarrow> Inr (CBlob bytes))
          else Inl ''object cell must have type=blob and base64 fields''
      | _ \<Rightarrow> Inl ''object cell must have type=blob and base64 fields'')"
| "cell_of_json unb64 (JArr _) = Inl ''arrays are not valid cells''"

fun cell_ok :: "CellValue \<Rightarrow> bool" where
  "cell_ok (CInteger i) = is_i64 i"
| "cell_ok _ = True"

text \<open>Every cell survives the JSON form, provided the base64 decoder inverts the encoder.\<close>

lemma cell_roundtrip:
  "(\<And>b. unb64 (b64 b) = Inr b) \<Longrightarrow> cell_ok c \<Longrightarrow> cell_of_json unb64 (cell_json b64 c) = Inr c"
  by (cases c) simp_all

section \<open>Bundles as JSON\<close>

text \<open>
  The derived \<open>Serialize\<close> and \<open>Deserialize\<close>: a struct is an object with its fields, a missing field is an error
  unless it is an \<open>Option\<close>, other fields are ignored. (The derived readers take a struct from an array as
  well; the writers never produce one.)
\<close>

fun map_all :: "('a \<Rightarrow> string + 'b) \<Rightarrow> 'a list \<Rightarrow> string + 'b list" where
  "map_all f [] = Inr []"
| "map_all f (x # xs) =
     (case f x of Inl e \<Rightarrow> Inl e
      | Inr y \<Rightarrow> (case map_all f xs of Inl e \<Rightarrow> Inl e | Inr ys \<Rightarrow> Inr (y # ys)))"

definition json_field :: "json \<Rightarrow> string \<Rightarrow> (json \<Rightarrow> string + 'a) \<Rightarrow> string + 'a" where
  "json_field v k f =
     (case json_get v k of None \<Rightarrow> Inl (''missing field '' @ k) | Some x \<Rightarrow> f x)"

fun str_of_json :: "json \<Rightarrow> string + string" where
  "str_of_json (JStr s) = Inr s"
| "str_of_json _ = Inl ''invalid type: expected a string''"

fun bool_of_json :: "json \<Rightarrow> string + bool" where
  "bool_of_json (JBool b) = Inr b"
| "bool_of_json _ = Inl ''invalid type: expected a boolean''"

fun u32_of_json :: "json \<Rightarrow> string + nat" where
  "u32_of_json (JInt n) =
     (if 0 \<le> n \<and> n < 2 ^ 32 then Inr (nat n) else Inl ''invalid value: expected u32'')"
| "u32_of_json _ = Inl ''invalid type: expected u32''"

fun list_of_json :: "(json \<Rightarrow> string + 'a) \<Rightarrow> json \<Rightarrow> string + 'a list" where
  "list_of_json f (JArr xs) = map_all f xs"
| "list_of_json f _ = Inl ''invalid type: expected a sequence''"

text \<open>Into a map: the last entry of a key counts.\<close>

fun entries_of_json :: "(json \<Rightarrow> string + 'a) \<Rightarrow> json \<Rightarrow> string + (string, 'a) hash_map" where
  "entries_of_json f (JObj kvs) =
     map_sum id (foldl (\<lambda>m (k, v). hm_insert k v m) [])
       (map_all (\<lambda>(k, v). case f v of Inl e \<Rightarrow> Inl e | Inr y \<Rightarrow> Inr (k, y)) kvs)"
| "entries_of_json f _ = Inl ''invalid type: expected a map''"

definition opt_str_of_json :: "json option \<Rightarrow> string + string option" where
  "opt_str_of_json v =
     (case v of None \<Rightarrow> Inr None | Some JNull \<Rightarrow> Inr None | Some x \<Rightarrow> map_sum id Some (str_of_json x))"

definition column_json :: "ColumnInfo \<Rightarrow> json" where
  "column_json c =
     JObj [(''name'', JStr (ci_name c)), (''kind'', JStr (ci_kind c)), (''notnull'', JBool (ci_notnull c)),
           (''default_value'', case ci_default_value c of Some d \<Rightarrow> JStr d | None \<Rightarrow> JNull)]"

definition column_of_json :: "json \<Rightarrow> string + ColumnInfo" where
  "column_of_json v =
     (case json_field v ''name'' str_of_json of Inl e \<Rightarrow> Inl e | Inr n \<Rightarrow>
     (case json_field v ''kind'' str_of_json of Inl e \<Rightarrow> Inl e | Inr k \<Rightarrow>
     (case json_field v ''notnull'' bool_of_json of Inl e \<Rightarrow> Inl e | Inr b \<Rightarrow>
     (case opt_str_of_json (json_get v ''default_value'') of Inl e \<Rightarrow> Inl e | Inr d \<Rightarrow>
        Inr \<lparr>ci_name = n, ci_kind = k, ci_notnull = b, ci_default_value = d\<rparr>))))"

definition schema_json :: "TableSchema \<Rightarrow> json" where
  "schema_json s =
     JObj [(''columns'', JArr (map column_json (ts_columns s))), (''pk'', JArr (map JStr (ts_pk s)))]"

definition schema_of_json :: "json \<Rightarrow> string + TableSchema" where
  "schema_of_json v =
     (case json_field v ''columns'' (list_of_json column_of_json) of Inl e \<Rightarrow> Inl e | Inr cols \<Rightarrow>
     (case json_field v ''pk'' (list_of_json str_of_json) of Inl e \<Rightarrow> Inl e | Inr pk \<Rightarrow>
        Inr \<lparr>ts_columns = cols, ts_pk = pk\<rparr>))"

definition row_json :: "(string \<Rightarrow> string) \<Rightarrow> row \<Rightarrow> json" where
  "row_json b64 r = JObj (map (\<lambda>(k, c). (k, cell_json b64 c)) r)"

definition row_of_json :: "(string \<Rightarrow> string + string) \<Rightarrow> json \<Rightarrow> string + row" where
  "row_of_json unb64 = entries_of_json (cell_of_json unb64)"

definition bundle_json :: "(string \<Rightarrow> string) \<Rightarrow> Bundle \<Rightarrow> json" where
  "bundle_json b64 b =
     JObj [(''version'', JInt (int (bu_version b))), (''produced_at'', JStr (bu_produced_at b)),
           (''clewdr_version'', JStr (bu_clewdr_version b)),
           (''schema'', JObj (map (\<lambda>(t, s). (t, schema_json s)) (bu_schema b))),
           (''config_toml'', JStr (bu_config_toml b)),
           (''tables'', JObj (map (\<lambda>(t, rows). (t, JArr (map (row_json b64) rows))) (bu_tables b))),
           (''skipped'', JArr (map JStr (bu_skipped b)))]"

definition bundle_of_json :: "(string \<Rightarrow> string + string) \<Rightarrow> json \<Rightarrow> string + Bundle" where
  "bundle_of_json unb64 v =
     (case json_field v ''version'' u32_of_json of Inl e \<Rightarrow> Inl e | Inr ver \<Rightarrow>
     (case json_field v ''produced_at'' str_of_json of Inl e \<Rightarrow> Inl e | Inr produced \<Rightarrow>
     (case json_field v ''clewdr_version'' str_of_json of Inl e \<Rightarrow> Inl e | Inr cv \<Rightarrow>
     (case json_field v ''schema'' (entries_of_json schema_of_json) of Inl e \<Rightarrow> Inl e | Inr schema \<Rightarrow>
     (case json_field v ''config_toml'' str_of_json of Inl e \<Rightarrow> Inl e | Inr toml \<Rightarrow>
     (case json_field v ''tables'' (entries_of_json (list_of_json (row_of_json unb64))) of
        Inl e \<Rightarrow> Inl e | Inr tables \<Rightarrow>
     (case json_field v ''skipped'' (list_of_json str_of_json) of Inl e \<Rightarrow> Inl e | Inr skipped \<Rightarrow>
        Inr \<lparr>bu_version = ver, bu_produced_at = produced, bu_clewdr_version = cv, bu_schema = schema,
             bu_config_toml = toml, bu_tables = tables, bu_skipped = skipped\<rparr>)))))))"

text \<open>What a reader of a list or of a map gives back, element by element.\<close>

lemma map_all_map:
  "(\<And>x. x \<in> set xs \<Longrightarrow> f (g x) = Inr (h x)) \<Longrightarrow> map_all f (map g xs) = Inr (map h xs)"
  by (induction xs) simp_all

lemma foldl_hm_insert:
  "hm_wf (m @ kvs) \<Longrightarrow> foldl (\<lambda>m (k, v). hm_insert k v m) m kvs = m @ kvs"
proof (induction kvs arbitrary: m)
  case (Cons kv kvs)
  have "hm_insert (fst kv) (snd kv) m = m @ [kv]"
    using Cons.prems by (induction m) auto
  with Cons show ?case by (simp add: case_prod_beta)
qed simp

lemma entries_roundtrip:
  assumes "hm_wf m" and "\<And>k v. (k, v) \<in> set m \<Longrightarrow> f (g v) = Inr v"
  shows "entries_of_json f (JObj (map (\<lambda>(k, v). (k, g v)) m)) = Inr m"
proof -
  have "map_all (\<lambda>(k, v). case f v of Inl e \<Rightarrow> Inl e | Inr y \<Rightarrow> Inr (k, y)) (map (\<lambda>(k, v). (k, g v)) m)
      = Inr (map id m)"
    using assms(2) by (intro map_all_map) (auto split: prod.splits)
  then show ?thesis
    using foldl_hm_insert [of "[]" m] assms(1) by simp
qed

definition row_ok :: "row \<Rightarrow> bool" where
  "row_ok r \<longleftrightarrow> hm_wf r \<and> (\<forall>(k, c) \<in> set r. cell_ok c)"

definition bundle_ok :: "Bundle \<Rightarrow> bool" where
  "bundle_ok b \<longleftrightarrow> bu_version b < 2 ^ 32 \<and> hm_wf (bu_schema b) \<and> hm_wf (bu_tables b)
     \<and> (\<forall>(t, rows) \<in> set (bu_tables b). \<forall>r \<in> set rows. row_ok r)"

lemma column_roundtrip: "column_of_json (column_json c) = Inr c"
  by (cases "ci_default_value c")
     (simp_all add: column_of_json_def column_json_def json_field_def opt_str_of_json_def)

lemma schema_roundtrip: "schema_of_json (schema_json s) = Inr s"
proof -
  have "map_all column_of_json (map column_json cs) = Inr (map id cs)" for cs
    by (rule map_all_map) (simp add: column_roundtrip)
  moreover have "map_all str_of_json (map JStr ks) = Inr (map id ks)" for ks
    by (rule map_all_map) simp
  ultimately show ?thesis
    by (simp add: schema_of_json_def schema_json_def json_field_def)
qed

lemma row_roundtrip:
  "(\<And>b. unb64 (b64 b) = Inr b) \<Longrightarrow> row_ok r \<Longrightarrow> row_of_json unb64 (row_json b64 r) = Inr r"
  unfolding row_of_json_def row_json_def
  by (rule entries_roundtrip) (auto simp: row_ok_def intro!: cell_roundtrip)

lemma bundle_roundtrip:
  assumes b64: "\<And>b. unb64 (b64 b) = Inr b" and ok: "bundle_ok b"
  shows "bundle_of_json unb64 (bundle_json b64 b) = Inr b"
proof -
  have "entries_of_json schema_of_json (JObj (map (\<lambda>(t, s). (t, schema_json s)) (bu_schema b))) = Inr (bu_schema b)"
    by (rule entries_roundtrip) (use ok in \<open>simp_all add: bundle_ok_def schema_roundtrip\<close>)
  moreover have "entries_of_json (list_of_json (row_of_json unb64))
      (JObj (map (\<lambda>(t, rows). (t, JArr (map (row_json b64) rows))) (bu_tables b))) = Inr (bu_tables b)"
  proof (rule entries_roundtrip)
    fix t rows assume "(t, rows) \<in> set (bu_tables b)"
    then have "map_all (row_of_json unb64) (map (row_json b64) rows) = Inr (map id rows)"
      using ok by (intro map_all_map) (auto simp: bundle_ok_def intro!: row_roundtrip b64)
    then show "list_of_json (row_of_json unb64) (JArr (map (row_json b64) rows)) = Inr rows" by simp
  qed (use ok in \<open>simp add: bundle_ok_def\<close>)
  moreover have "map_all str_of_json (map JStr ks) = Inr (map id ks)" for ks
    by (rule map_all_map) simp
  ultimately show ?thesis
    using ok by (simp add: bundle_of_json_def bundle_json_def json_field_def bundle_ok_def)
qed

section \<open>Reading tables\<close>

text \<open>A row of \<open>PRAGMA table_info\<close>: cid, name, type, notnull, default, position in the primary key.\<close>

record pragma_row =
  pg_cid :: i64
  pg_name :: string
  pg_type :: string
  pg_notnull :: i64
  pg_dflt_value :: "string option"
  pg_pk :: i64

definition column_of_pragma :: "pragma_row \<Rightarrow> ColumnInfo" where
  "column_of_pragma p =
     \<lparr>ci_name = pg_name p, ci_kind = pg_type p, ci_notnull = (pg_notnull p \<noteq> 0),
      ci_default_value = pg_dflt_value p\<rparr>"

definition read_table_schema :: "pragma_row list \<Rightarrow> ClewdrError + TableSchema" where
  "read_table_schema rows =
     (if rows = [] then Inl (NotFound ''table not found in schema'')
      else Inr \<lparr>ts_columns = map column_of_pragma rows,
                ts_pk = map pg_name (sort_key pg_pk (filter (\<lambda>p. 0 < pg_pk p) rows))\<rparr>)"

text \<open>
  A raw cell as the driver hands it out: the name of its type, the cell read as an integer, as a double,
  as text and as bytes; a conversion that the driver refuses is an error.
\<close>

record raw_cell =
  rc_null :: bool
  rc_type :: string
  rc_i64 :: "ClewdrError + i64"
  rc_f64 :: "ClewdrError + f64"
  rc_text :: "ClewdrError + string"
  rc_blob :: "ClewdrError + string"

definition ascii_upper :: "string \<Rightarrow> string" where
  "ascii_upper s = map (\<lambda>c. if is_ascii_lower c then char_of (of_char c - (32 :: nat)) else c) s"

definition read_cell :: "raw_cell \<Rightarrow> ClewdrError + CellValue" where
  "read_cell r =
     (let ty = ascii_upper (rc_type r) in
      if rc_null r then Inr CNull
      else if ty \<in> {''INTEGER'', ''INT'', ''BIGINT'', ''BOOLEAN''} then map_sum id CInteger (rc_i64 r)
      else if ty \<in> {''REAL'', ''FLOAT'', ''DOUBLE'', ''NUMERIC''}
      then (case rc_i64 r of Inr i \<Rightarrow> Inr (CInteger i) | Inl _ \<Rightarrow> map_sum id CReal (rc_f64 r))
      else if ty \<in> {''TEXT'', ''VARCHAR'', ''CHAR'', ''CLOB'', ''DATETIME'', ''DATE''}
      then map_sum id CText (rc_text r)
      else if ty = ''BLOB'' then map_sum id CBlob (rc_blob r)
      else case rc_text r of Inr s \<Rightarrow> Inr (CText s) | Inl _ \<Rightarrow> map_sum id CBlob (rc_blob r))"

fun read_cells :: "(string \<times> raw_cell) list \<Rightarrow> row \<Rightarrow> ClewdrError + row" where
  "read_cells [] cells = Inr cells"
| "read_cells ((name, raw) # cols) cells =
     (case read_cell raw of Inl e \<Rightarrow> Inl e | Inr c \<Rightarrow> read_cells cols (hm_insert name c cells))"

definition declare_columns :: "ColumnInfo list \<Rightarrow> row \<Rightarrow> row" where
  "declare_columns cols cells =
     foldl (\<lambda>r c. if hm_contains r (ci_name c) then r else hm_insert (ci_name c) CNull r) cells cols"

fun read_table_rows ::
    "(string \<times> raw_cell) list list \<Rightarrow> TableSchema \<Rightarrow> ClewdrError + row list" where
  "read_table_rows [] schema = Inr []"
| "read_table_rows (r # rs) schema =
     (case read_cells r [] of
        Inl e \<Rightarrow> Inl e
      | Inr cells \<Rightarrow>
          (case read_table_rows rs schema of
             Inl e \<Rightarrow> Inl e
           | Inr rest \<Rightarrow> Inr (declare_columns (ts_columns schema) cells # rest)))"

section \<open>Secrets\<close>

definition secret_columns_for :: "string \<Rightarrow> string list" where
  "secret_columns_for table =
     (if table = ''accounts''
      then [''cookie_blob'', ''oauth_access_token'', ''oauth_refresh_token'', ''api_key_secret'',
            ''api_key_extra_headers'']
      else if table = ''api_keys'' then [''plaintext_key'', ''key_hash'']
      else if table = ''proxies'' then [''password'']
      else if table = ''users'' then [''password_hash'']
      else [])"

definition redact_row :: "string list \<Rightarrow> row \<Rightarrow> row" where
  "redact_row cols r =
     foldl (\<lambda>r c. case map_of r c of
                    Some v \<Rightarrow> if v \<noteq> CNull then hm_insert c CNull r else r
                  | None \<Rightarrow> r) r cols"

definition redact_secrets_in_place :: "string \<Rightarrow> row list \<Rightarrow> row list" where
  "redact_secrets_in_place table rows =
     (let cols = secret_columns_for table in if cols = [] then rows else map (redact_row cols) rows)"

definition blocked_setting :: "row \<Rightarrow> bool" where
  "blocked_setting r \<longleftrightarrow>
     (case map_of r ''key'' of
        Some (CText k) \<Rightarrow> k \<in> set settings_keys_never_exported
      | _ \<Rightarrow> False)"

definition drop_blocked_settings_rows :: "row list \<Rightarrow> row list" where
  "drop_blocked_settings_rows rows = filter (\<lambda>r. \<not> blocked_setting r) rows"

lemma map_of_redact_row:
  "map_of (redact_row cols r) c = (if c \<in> set cols then map_option (\<lambda>_. CNull) (map_of r c) else map_of r c)"
  unfolding redact_row_def
  by (induction cols arbitrary: r) (auto simp: hm_get_insert split: option.splits)

lemma redact_row_Nil: "redact_row [] = (\<lambda>r. r)"
  by (rule ext) (simp add: redact_row_def)

lemma redacted_rows:
  "redact_secrets_in_place table rows = map (redact_row (secret_columns_for table)) rows"
  by (simp add: redact_secrets_in_place_def Let_def redact_row_Nil)

end
