(* ===== verification/Bundle_Export.thy ===== *)
theory Bundle_Export
  imports Bundle_Format
begin

text \<open>
  \<open>clewdr export-config\<close> (\<open>src/src/cli/export.rs\<close>) and the encryption of bundles (\<open>src/src/cli/crypto.rs\<close>):
  which tables and rows go into a bundle, what is removed from them, and the encrypted file.

  Arguments are the key derivation and the authenticated cipher, the terminal, the tables as the driver
  hands them out inside the pinned read transaction, the TOML reader and printer, and the file system.
\<close>

section \<open>Encryption\<close>

definition encrypted_bundle_magic :: string where
  "encrypted_bundle_magic = ''CLWDR1'' @ [CHR 0x00]"

definition salt_len :: nat where "salt_len = 16"

definition nonce_len :: nat where "nonce_len = 12"

definition header_len :: nat where
  "header_len = length encrypted_bundle_magic + salt_len + nonce_len"

definition tag_len :: nat where "tag_len = 16"

text \<open>
  \<open>cf_enabled\<close> is the cargo feature. The cipher takes key, nonce, associated data and message;
  \<open>None\<close> is a refused message, or a failed authentication.
\<close>

record cipher_env =
  cf_enabled :: bool
  cf_derive_key :: "string \<Rightarrow> string \<Rightarrow> string"
  cf_encrypt :: "string \<Rightarrow> string \<Rightarrow> string \<Rightarrow> string \<Rightarrow> string option"
  cf_decrypt :: "string \<Rightarrow> string \<Rightarrow> string \<Rightarrow> string \<Rightarrow> string option"

text \<open>\<open>salt\<close> and \<open>nonce\<close> are the random values.\<close>

definition encrypt_bundle ::
    "cipher_env \<Rightarrow> string \<Rightarrow> string \<Rightarrow> string \<Rightarrow> string \<Rightarrow> ClewdrError + string" where
  "encrypt_bundle cf salt nonce plaintext passphrase =
     (if \<not> cf_enabled cf
      then Inl (BadRequest ''binary built without --features encrypt; pass --no-encrypt or rebuild with default features'')
      else let key = cf_derive_key cf passphrase salt;
               header = encrypted_bundle_magic @ salt @ nonce
           in case cf_encrypt cf key nonce header plaintext of
                None \<Rightarrow> Inl (BadRequest ''AES-GCM encryption failed (unexpected; report a bug)'')
              | Some ciphertext \<Rightarrow> Inr (header @ ciphertext))"

definition decrypt_bundle :: "cipher_env \<Rightarrow> string \<Rightarrow> string \<Rightarrow> ClewdrError + string" where
  "decrypt_bundle cf raw passphrase =
     (if \<not> cf_enabled cf
      then Inl (BadRequest ''this bundle is encrypted but the binary was built without --features encrypt; rebuild with default features to decrypt'')
      else if length raw < header_len + tag_len
      then Inl (BadRequest ''encrypted bundle is too short to contain a valid header + AEAD tag'')
      else if \<not> starts_with raw encrypted_bundle_magic
      then Inl (BadRequest (''missing CLWDR1 magic '' @ em_dash @ '' file is not an encrypted clewdr bundle''))
      else let header = take header_len raw;
               salt = take salt_len (drop (length encrypted_bundle_magic) header);
               nonce = drop (length encrypted_bundle_magic + salt_len) header;
               ciphertext = drop header_len raw
           in case cf_decrypt cf (cf_derive_key cf passphrase salt) nonce header ciphertext of
                None \<Rightarrow> Inl (BadRequest ''passphrase or bundle is invalid (AEAD authentication failed)'')
              | Some plaintext \<Rightarrow> Inr plaintext)"

text \<open>The terminal: one line of standard input, whether it is a terminal, and the two hidden prompts.\<close>

record terminal =
  tm_line :: "ClewdrError + string"
  tm_is_tty :: bool
  tm_prompt :: "ClewdrError + string"
  tm_confirm :: "ClewdrError + string"

definition trim_line_end :: "string \<Rightarrow> string" where
  "trim_line_end s = rev (dropWhile (\<lambda>c. c = CHR 0x0D \<or> c = CHR 0x0A) (rev s))"

definition read_one_line_from_stdin :: "terminal \<Rightarrow> ClewdrError + string" where
  "read_one_line_from_stdin tm =
     (case tm_line tm of
        Inl e \<Rightarrow> Inl e
      | Inr line \<Rightarrow>
          if trim_line_end line = [] then Inl (BadRequest ''empty passphrase received on stdin'')
          else Inr (trim_line_end line))"

definition read_export_passphrase :: "terminal \<Rightarrow> bool \<Rightarrow> ClewdrError + string" where
  "read_export_passphrase tm from_stdin =
     (if from_stdin then read_one_line_from_stdin tm
      else if \<not> tm_is_tty tm
      then Inl (BadRequest (''no TTY available for passphrase prompt '' @ em_dash @ '' pass --passphrase-stdin or --no-encrypt''))
      else case tm_prompt tm of
             Inl e \<Rightarrow> Inl e
           | Inr pwd \<Rightarrow>
               if pwd = [] then Inl (BadRequest ''passphrase cannot be empty'')
               else case tm_confirm tm of
                      Inl e \<Rightarrow> Inl e
                    | Inr again \<Rightarrow>
                        if pwd \<noteq> again then Inl (BadRequest ''passphrases do not match'') else Inr pwd)"

definition read_import_passphrase :: "terminal \<Rightarrow> bool \<Rightarrow> ClewdrError + string" where
  "read_import_passphrase tm from_stdin =
     (if from_stdin then read_one_line_from_stdin tm
      else if \<not> tm_is_tty tm
      then Inl (BadRequest (''no TTY available for passphrase prompt '' @ em_dash @ '' pass --passphrase-stdin''))
      else case tm_prompt tm of
             Inl e \<Rightarrow> Inl e
           | Inr pwd \<Rightarrow> if pwd = [] then Inl (BadRequest ''passphrase cannot be empty'') else Inr pwd)"

section \<open>Assembly\<close>

record export_args =
  ea_no_encrypt :: bool
  ea_no_secrets :: bool
  ea_include_runtime :: bool
  ea_passphrase_stdin :: bool

text \<open>A TOML document: a table at the top, or another value.\<close>

datatype 't toml = Toml_Table "(string, 't) hash_map" | Toml_Other 't

record 't export_env =
  ee_no_fs :: bool
  ee_begin :: "ClewdrError option"
  ee_pragma :: "string \<Rightarrow> ClewdrError + pragma_row list"
  ee_select :: "string \<Rightarrow> ClewdrError + (string \<times> raw_cell) list list"
  ee_toml_file :: "string option"
  ee_toml_parse :: "string \<Rightarrow> ClewdrError + 't toml"
  ee_toml_print :: "'t toml \<Rightarrow> ClewdrError + string"
  ee_now :: string
  ee_version :: string
  ee_json_print :: "json \<Rightarrow> string"
  ee_b64 :: "string \<Rightarrow> string"

definition toml_keys_redacted :: "string list" where
  "toml_keys_redacted = [''proxy'']"

definition redact_toml :: "'t toml \<Rightarrow> 't toml" where
  "redact_toml v =
     (case v of
        Toml_Table t \<Rightarrow> Toml_Table (foldl (\<lambda>t k. hm_remove k t) t toml_keys_redacted)
      | Toml_Other x \<Rightarrow> Toml_Other x)"

definition sanitize_toml_for_no_secrets :: "'t export_env \<Rightarrow> string \<Rightarrow> ClewdrError + string" where
  "sanitize_toml_for_no_secrets env raw =
     (if trim raw = [] then Inr []
      else case ee_toml_parse env raw of
             Inl e \<Rightarrow> Inl e
           | Inr v \<Rightarrow> ee_toml_print env (redact_toml v))"

definition tables_to_export :: "export_args \<Rightarrow> string list" where
  "tables_to_export args = default_tables @ (if ea_include_runtime args then runtime_tables else [])"

definition skipped_tables :: "export_args \<Rightarrow> string list" where
  "skipped_tables args = never_exported @ (if ea_include_runtime args then [] else runtime_tables)"

text \<open>The rows of one table, as they go into the bundle.\<close>

definition export_rows :: "export_args \<Rightarrow> string \<Rightarrow> row list \<Rightarrow> row list" where
  "export_rows args table rows =
     (let rows = (if table = ''settings'' then drop_blocked_settings_rows rows else rows)
      in if ea_no_secrets args \<and> secret_columns_for table \<noteq> []
         then redact_secrets_in_place table rows else rows)"

fun export_tables ::
    "'t export_env \<Rightarrow> export_args \<Rightarrow> string list
      \<Rightarrow> (string, TableSchema) hash_map \<times> (string, row list) hash_map
      \<Rightarrow> ClewdrError + (string, TableSchema) hash_map \<times> (string, row list) hash_map" where
  "export_tables env args [] acc = Inr acc"
| "export_tables env args (table # rest) (schemas, tables) =
     (case (case ee_pragma env table of Inl e \<Rightarrow> Inl e | Inr ps \<Rightarrow> read_table_schema ps) of
        Inl e \<Rightarrow> Inl e
      | Inr schema \<Rightarrow>
          (case (case ee_select env table of Inl e \<Rightarrow> Inl e | Inr raws \<Rightarrow> read_table_rows raws schema) of
             Inl e \<Rightarrow> Inl e
           | Inr rows \<Rightarrow>
               export_tables env args rest
                 (hm_insert table schema schemas, hm_insert table (export_rows args table rows) tables)))"

definition build_bundle :: "'t export_env \<Rightarrow> export_args \<Rightarrow> ClewdrError + Bundle" where
  "build_bundle env args =
     (case ee_begin env of
        Some e \<Rightarrow> Inl e
      | None \<Rightarrow>
          (case export_tables env args (tables_to_export args) ([], []) of
             Inl e \<Rightarrow> Inl e
           | Inr (schemas, tables) \<Rightarrow>
               (let raw_toml = (case ee_toml_file env of Some t \<Rightarrow> t | None \<Rightarrow> [])
                in case (if ea_no_secrets args then sanitize_toml_for_no_secrets env raw_toml
                         else Inr raw_toml) of
                     Inl e \<Rightarrow> Inl e
                   | Inr toml \<Rightarrow>
                       Inr \<lparr>bu_version = bundle_version, bu_produced_at = ee_now env,
                            bu_clewdr_version = ee_version env, bu_schema = schemas,
                            bu_config_toml = toml, bu_tables = tables,
                            bu_skipped = skipped_tables args\<rparr>)))"

text \<open>The file that is written, with mode 0600, by an atomic rename.\<close>

definition export_run ::
    "'t export_env \<Rightarrow> cipher_env \<Rightarrow> terminal \<Rightarrow> string \<Rightarrow> string \<Rightarrow> export_args \<Rightarrow> ClewdrError + string" where
  "export_run env cf tm salt nonce args =
     (if ee_no_fs env
      then Inl (BadRequest ''export-config is not supported in no_fs mode (in-memory state is ephemeral)'')
      else case (if ea_no_encrypt args then Inr None
                 else map_sum id Some (read_export_passphrase tm (ea_passphrase_stdin args))) of
             Inl e \<Rightarrow> Inl e
           | Inr passphrase \<Rightarrow>
               (case build_bundle env args of
                  Inl e \<Rightarrow> Inl e
                | Inr bundle \<Rightarrow>
                    (let js = ee_json_print env (bundle_json (ee_b64 env) bundle)
                     in case passphrase of
                          Some pwd \<Rightarrow> encrypt_bundle cf salt nonce js pwd
                        | None \<Rightarrow> Inr js)))"

section \<open>Encrypted files\<close>

lemma magic_len [simp]: "length encrypted_bundle_magic = 7"
  by (simp add: encrypted_bundle_magic_def)

lemma header_split:
  assumes "starts_with raw encrypted_bundle_magic" and "header_len + tag_len \<le> length raw"
  defines "header \<equiv> take header_len raw"
  shows "header = encrypted_bundle_magic @ take salt_len (drop 7 header) @ drop (7 + salt_len) header"
    "length (take salt_len (drop 7 header)) = salt_len" "length (drop (7 + salt_len) header) = nonce_len"
proof -
  have len: "length header = header_len" using assms by (simp add: header_len_def)
  obtain r where r: "raw = encrypted_bundle_magic @ r" using assms(1) by (auto simp: starts_with_iff)
  have "take 7 header = encrypted_bundle_magic" by (simp add: header_def r header_len_def)
  then have "header = encrypted_bundle_magic @ drop 7 header" by (metis append_take_drop_id)
  moreover have "drop 7 header = take salt_len (drop 7 header) @ drop (7 + salt_len) header"
    by (metis add.commute append_take_drop_id drop_drop)
  ultimately show "header = encrypted_bundle_magic @ take salt_len (drop 7 header) @ drop (7 + salt_len) header"
    by metis
  show "length (take salt_len (drop 7 header)) = salt_len" "length (drop (7 + salt_len) header) = nonce_len"
    using len by (simp_all add: header_len_def)
qed

lemma decrypt_encrypted:
  assumes "encrypt_bundle cf salt nonce m pwd = Inr raw" and "length salt = salt_len" "length nonce = nonce_len"
    and "\<And>k n a c. cf_encrypt cf k n a m = Some c \<Longrightarrow> length c = length m + tag_len \<and> cf_decrypt cf k n a c = Some m"
  shows "decrypt_bundle cf raw pwd = Inr m"
proof -
  let ?h = "encrypted_bundle_magic @ salt @ nonce"
  obtain c where on: "cf_enabled cf" and c: "cf_encrypt cf (cf_derive_key cf pwd salt) nonce ?h m = Some c"
    and raw: "raw = ?h @ c"
    using assms(1) by (auto simp: encrypt_bundle_def Let_def split: if_splits option.splits)
  have h: "length ?h = header_len" using assms(2,3) by (simp add: header_len_def)
  have lc: "tag_len \<le> length c" using assms(4) [OF c] by simp
  have "take header_len raw = ?h" "drop header_len raw = c" by (simp_all add: raw flip: h)
  moreover have "starts_with raw encrypted_bundle_magic" by (simp add: raw)
  moreover have "header_len + tag_len \<le> length raw" using lc by (simp add: raw flip: h)
  ultimately show ?thesis
    using on assms(2,4) c by (simp add: decrypt_bundle_def Let_def drop_append)
qed

text \<open>
  The decryption accepts exactly what the encryption writes: a file decrypts to a document under a
  passphrase if and only if it is the encryption of that document under the passphrase with some salt
  and nonce. So every encrypted bundle can be read back, and no file with a changed header, salt,
  nonce, cipher text or length is accepted unless it is itself such an encryption. (The cipher has to
  invert itself and to accept only its own output, which its authentication tag gives.)
\<close>

theorem decrypt_exactly_encrypted:
  assumes "cf_enabled cf"
    and "\<And>k n a c. cf_encrypt cf k n a m = Some c \<Longrightarrow> length c = length m + tag_len \<and> cf_decrypt cf k n a c = Some m"
    and "\<And>k n a c. cf_decrypt cf k n a c = Some m \<Longrightarrow> cf_encrypt cf k n a m = Some c"
  shows "decrypt_bundle cf raw pwd = Inr m
    \<longleftrightarrow> (\<exists>salt nonce. length salt = salt_len \<and> length nonce = nonce_len
          \<and> encrypt_bundle cf salt nonce m pwd = Inr raw)"
proof
  let ?h = "take header_len raw"
  let ?salt = "take salt_len (drop 7 ?h)" and ?nonce = "drop (7 + salt_len) ?h"
  assume d: "decrypt_bundle cf raw pwd = Inr m"
  then have sw: "starts_with raw encrypted_bundle_magic" and len: "header_len + tag_len \<le> length raw"
    and c: "cf_decrypt cf (cf_derive_key cf pwd ?salt) ?nonce ?h (drop header_len raw) = Some m"
    by (auto simp: decrypt_bundle_def Let_def split: if_splits option.splits)
  note h = header_split [OF sw len]
  have "encrypt_bundle cf ?salt ?nonce m pwd = Inr raw"
    using assms(1) assms(3) [OF c] h(1)
    by (simp add: encrypt_bundle_def Let_def)
  with h(2,3) show "\<exists>salt nonce. length salt = salt_len \<and> length nonce = nonce_len
      \<and> encrypt_bundle cf salt nonce m pwd = Inr raw" by blast
next
  show "\<exists>salt nonce. length salt = salt_len \<and> length nonce = nonce_len
      \<and> encrypt_bundle cf salt nonce m pwd = Inr raw \<Longrightarrow> decrypt_bundle cf raw pwd = Inr m"
    using decrypt_encrypted assms(2) by blast
qed

text \<open>A cipher that only appends its tag, to evaluate on.\<close>

definition tagging_cipher :: cipher_env where
  "tagging_cipher =
     \<lparr>cf_enabled = True, cf_derive_key = (\<lambda>p s. p @ s),
      cf_encrypt = (\<lambda>k n a m. Some (m @ replicate tag_len CHR ''t'')),
      cf_decrypt = (\<lambda>k n a c. if tag_len \<le> length c \<and> drop (length c - tag_len) c = replicate tag_len CHR ''t''
                               then Some (take (length c - tag_len) c) else None)\<rparr>"

lemma tagging_cipher_laws:
  "cf_encrypt tagging_cipher k n a m = Some c
     \<Longrightarrow> length c = length m + tag_len \<and> cf_decrypt tagging_cipher k n a c = Some m"
  "cf_decrypt tagging_cipher k n a c = Some m \<Longrightarrow> cf_encrypt tagging_cipher k n a m = Some c"
  by (auto simp: tagging_cipher_def split: if_splits) (metis append_take_drop_id)

theorem decrypt_exactly_encrypted_witness:
  "cf_enabled tagging_cipher
   \<and> decrypt_bundle tagging_cipher (encrypted_bundle_magic @ replicate 28 CHR ''r'' @ ''{}'' @ replicate 16 CHR ''t'') ''pw''
       = Inr ''{}''"
proof -
  let ?raw = "encrypted_bundle_magic @ replicate 28 CHR ''r'' @ ''{}'' @ replicate 16 CHR ''t''"
  have on: "cf_enabled tagging_cipher" by (simp add: tagging_cipher_def)
  have "encrypt_bundle tagging_cipher (replicate 16 CHR ''r'') (replicate 12 CHR ''r'') ''{}'' ''pw'' = Inr ?raw"
    by (simp add: encrypt_bundle_def tagging_cipher_def tag_len_def numeral_eq_Suc)
  then have "\<exists>salt nonce. length salt = salt_len \<and> length nonce = nonce_len
      \<and> encrypt_bundle tagging_cipher salt nonce ''{}'' ''pw'' = Inr ?raw"
    by (metis length_replicate salt_len_def nonce_len_def)
  with iffD2 [OF decrypt_exactly_encrypted [OF on tagging_cipher_laws]] on show ?thesis by blast
qed

section \<open>What a bundle carries\<close>

text \<open>The rows of a table as the export reads them.\<close>

definition source_rows :: "'t export_env \<Rightarrow> string \<Rightarrow> ClewdrError + row list" where
  "source_rows env table =
     (case (case ee_pragma env table of Inl e \<Rightarrow> Inl e | Inr ps \<Rightarrow> read_table_schema ps) of
        Inl e \<Rightarrow> Inl e
      | Inr schema \<Rightarrow> (case ee_select env table of Inl e \<Rightarrow> Inl e | Inr raws \<Rightarrow> read_table_rows raws schema))"

lemma export_tables_rows:
  assumes "export_tables env args ts (schemas, tables) = Inr (schemas', tables')"
  shows "map_of tables' t
    = (if t \<in> set ts then map_option (export_rows args t) (case source_rows env t of Inr rows \<Rightarrow> Some rows | Inl _ \<Rightarrow> None)
       else map_of tables t)
    \<and> (t \<in> set ts \<longrightarrow> (\<exists>rows. source_rows env t = Inr rows))"
  using assms
proof (induction ts arbitrary: schemas tables)
  case (Cons u ts)
  from Cons.prems obtain schema rows where
    r: "source_rows env u = Inr rows"
    and next_: "export_tables env args ts
      (hm_insert u schema schemas, hm_insert u (export_rows args u rows) tables) = Inr (schemas', tables')"
    by (auto simp: source_rows_def split: sum.splits)
  from Cons.IH [OF next_] r show ?case by (auto simp: hm_get_insert)
qed simp

lemma export_rows_cells:
  "list_all2 (\<lambda>r s. \<forall>c. map_of r c
       = (if ea_no_secrets args \<and> c \<in> set (secret_columns_for table) then map_option (\<lambda>_. CNull) (map_of s c)
          else map_of s c))
     (export_rows args table rows) (if table = ''settings'' then filter (\<lambda>r. \<not> blocked_setting r) rows else rows)"
  by (auto simp: export_rows_def Let_def redacted_rows drop_blocked_settings_rows_def map_of_redact_row
      list_all2_map1 list_all2_same)

text \<open>
  What an export carries: exactly the chosen tables, never the request logs, their audits or the
  migrations; the rows of a table as they were read, in order, but for the settings row of the session
  secret, which no flag lets through; and with \<open>--no-secrets\<close> every secret column is \<open>NULL\<close> in every row
  while all other columns are kept, and the configuration file has lost its proxy.
\<close>

theorem export_carries_no_secrets:
  assumes "build_bundle env args = Inr b" and "map_of (bu_tables b) t = Some rows"
  shows "t \<in> set (tables_to_export args) \<and> t \<notin> set never_exported
    \<and> (\<exists>src. source_rows env t = Inr src
         \<and> list_all2 (\<lambda>r s. \<forall>c. map_of r c
               = (if ea_no_secrets args \<and> c \<in> set (secret_columns_for t) then map_option (\<lambda>_. CNull) (map_of s c)
                  else map_of s c))
             rows (if t = ''settings'' then filter (\<lambda>r. \<not> blocked_setting r) src else src))
    \<and> (t = ''settings'' \<longrightarrow> (\<forall>r \<in> set rows. map_of r ''key'' \<noteq> Some (CText ''session_secret'')))
    \<and> (ea_no_secrets args \<longrightarrow> bu_config_toml b = []
         \<or> (\<exists>v. ee_toml_print env v = Inr (bu_config_toml b)
               \<and> (\<forall>m. v = Toml_Table m \<longrightarrow> \<not> hm_contains m ''proxy'')))"
proof -
  obtain schemas tables where ts: "export_tables env args (tables_to_export args) ([], []) = Inr (schemas, tables)"
    and b: "bu_tables b = tables"
    using assms(1) by (auto simp: build_bundle_def Let_def split: option.splits sum.splits)
  obtain src where src: "source_rows env t = Inr src" and rows: "rows = export_rows args t src"
    and mem: "t \<in> set (tables_to_export args)"
    using export_tables_rows [OF ts, of t] assms(2) b by (auto split: if_splits)
  have "t \<notin> set never_exported"
    using mem by (auto simp: tables_to_export_def default_tables_def runtime_tables_def never_exported_def split: if_splits)
  moreover have "t = ''settings'' \<longrightarrow> (\<forall>r \<in> set rows. map_of r ''key'' \<noteq> Some (CText ''session_secret''))"
    by (auto simp: rows export_rows_def Let_def drop_blocked_settings_rows_def blocked_setting_def
        settings_keys_never_exported_def secret_columns_for_def)
  moreover have "ea_no_secrets args \<longrightarrow> bu_config_toml b = []
         \<or> (\<exists>v. ee_toml_print env v = Inr (bu_config_toml b) \<and> (\<forall>m. v = Toml_Table m \<longrightarrow> \<not> hm_contains m ''proxy''))"
    using assms(1)
    by (fastforce simp: build_bundle_def Let_def sanitize_toml_for_no_secrets_def redact_toml_def toml_keys_redacted_def
        hm_get_remove split: option.splits sum.splits if_splits toml.splits)
  ultimately show ?thesis
    using mem src rows export_rows_cells by blast
qed

definition sample_raw :: "string \<Rightarrow> string \<Rightarrow> raw_cell" where
  "sample_raw ty v =
     \<lparr>rc_null = False, rc_type = ty, rc_i64 = Inl (SqlxError ''type''), rc_f64 = Inl (SqlxError ''type''),
      rc_text = Inr v, rc_blob = Inr v\<rparr>"

definition sample_export :: "string export_env" where
  "sample_export =
     \<lparr>ee_no_fs = False, ee_begin = None,
      ee_pragma = (\<lambda>t. Inr [\<lparr>pg_cid = 0, pg_name = ''name'', pg_type = ''TEXT'', pg_notnull = 1, pg_dflt_value = None, pg_pk = 1\<rparr>]),
      ee_select = (\<lambda>t. Inr (if t = ''proxies'' then [[(''name'', sample_raw ''TEXT'' ''p1''), (''password'', sample_raw ''TEXT'' ''hunter2'')]]
                          else [])),
      ee_toml_file = Some ''proxy = 1'', ee_toml_parse = (\<lambda>_. Inr (Toml_Table [(''proxy'', ''1'')])),
      ee_toml_print = (\<lambda>v. Inr ''printed''), ee_now = ''now'', ee_version = ''1.2.3'', ee_json_print = (\<lambda>_. ''{}''),
      ee_b64 = (\<lambda>b. b)\<rparr>"

definition sample_export_args :: export_args where
  "sample_export_args =
     \<lparr>ea_no_encrypt = True, ea_no_secrets = True, ea_include_runtime = False, ea_passphrase_stdin = False\<rparr>"

lemma sample_export_built:
  "\<exists>b. build_bundle sample_export sample_export_args = Inr b
     \<and> map_of (bu_tables b) ''proxies'' = Some [[(''name'', CText ''p1''), (''password'', CNull)]]"
  by (simp add: build_bundle_def sample_export_def sample_export_args_def sample_raw_def tables_to_export_def default_tables_def
      read_table_schema_def export_rows_def redact_secrets_in_place_def secret_columns_for_def redact_row_def
      drop_blocked_settings_rows_def read_cell_def Let_def declare_columns_def column_of_pragma_def ascii_upper_def
      is_ascii_lower_def sanitize_toml_for_no_secrets_def redact_toml_def)

theorem export_carries_no_secrets_witness:
  "\<exists>b src. build_bundle sample_export sample_export_args = Inr b
     \<and> map_of (bu_tables b) ''proxies'' = Some [[(''name'', CText ''p1''), (''password'', CNull)]]
     \<and> source_rows sample_export ''proxies'' = Inr src \<and> length src = 1"
proof -
  obtain b where b: "build_bundle sample_export sample_export_args = Inr b"
    and t: "map_of (bu_tables b) ''proxies'' = Some [[(''name'', CText ''p1''), (''password'', CNull)]]"
    using sample_export_built by blast
  from export_carries_no_secrets [OF b t] obtain src where "source_rows sample_export ''proxies'' = Inr src"
    and "length src = 1"
    by (auto simp: list_all2_Cons1)
  with b t show ?thesis by blast
qed

end
