(* ===== verification/Bundle_Import.thy ===== *)
theory Bundle_Import
  imports Bundle_Export
begin

text \<open>
  \<open>clewdr import-config\<close> (\<open>src/src/cli/import.rs\<close>): reading a bundle file, the version check, the check for
  removed secrets, the column plan, and the writes of one transaction in merge and in restore mode.

  The database is a function from table names to rows. Its engine is described by \<open>sqlite\<close>: the
  schema, the unique indexes, defaults, row ids, and the constraints, which may refuse a row for any
  reason, input and output errors included; references are checked at the commit, as with
  \<open>PRAGMA defer_foreign_keys\<close>. Values are stored as they are bound and compared by identity; the columns of the
  natural keys are text and integers. The delete actions of references only reach tables that a bundle
  does not hold, because children are wiped before their parents.
\<close>

section \<open>Reading a bundle\<close>

datatype import_mode = Mode_Merge | Mode_Restore

record import_args =
  ia_mode :: import_mode
  ia_yes :: bool
  ia_overwrite_admin :: bool
  ia_dry_run :: bool
  ia_force :: bool
  ia_passphrase_stdin :: bool

record import_env =
  ie_no_fs :: bool
  ie_read :: "ClewdrError + string"
  ie_json_parse :: "string \<Rightarrow> string + json"
  ie_unb64 :: "string \<Rightarrow> string + string"
  ie_semver :: "string \<Rightarrow> (nat \<times> nat) option"
  ie_version :: string

definition parse_plaintext_bundle :: "import_env \<Rightarrow> string \<Rightarrow> ClewdrError + Bundle" where
  "parse_plaintext_bundle env raw =
     (case (case ie_json_parse env raw of Inl e \<Rightarrow> Inl e | Inr v \<Rightarrow> bundle_of_json (ie_unb64 env) v) of
        Inl e \<Rightarrow> Inl (JsonError e)
      | Inr b \<Rightarrow>
          if bu_version b \<noteq> bundle_version
          then Inl (BadRequestMessage
            (''unsupported bundle version '' @ show_nat (bu_version b) @ '' (this clewdr reads version ''
             @ show_nat bundle_version @ '')''
             @ (if bundle_version < bu_version b then ''; upgrade clewdr to import this bundle'' else [])))
          else Inr b)"

definition parse_bundle :: "import_env \<Rightarrow> cipher_env \<Rightarrow> terminal \<Rightarrow> string \<Rightarrow> bool \<Rightarrow> ClewdrError + Bundle" where
  "parse_bundle env cf tm raw from_stdin =
     (if starts_with raw encrypted_bundle_magic
      then (case read_import_passphrase tm from_stdin of
              Inl e \<Rightarrow> Inl e
            | Inr pwd \<Rightarrow>
                (case decrypt_bundle cf raw pwd of
                   Inl e \<Rightarrow> Inl e
                 | Inr plaintext \<Rightarrow> parse_plaintext_bundle env plaintext))
      else parse_plaintext_bundle env raw)"

definition parse_clewdr_version :: "import_env \<Rightarrow> string \<Rightarrow> ClewdrError + (nat \<times> nat)" where
  "parse_clewdr_version env s =
     (case ie_semver env (dropWhile (\<lambda>c. c = CHR ''v'') s) of
        Some v \<Rightarrow> Inr v
      | None \<Rightarrow> Inl (InvalidVersion s))"

definition check_version_compatibility :: "import_env \<Rightarrow> Bundle \<Rightarrow> bool \<Rightarrow> ClewdrError + unit" where
  "check_version_compatibility env b force =
     (case parse_clewdr_version env (bu_clewdr_version b) of Inl e \<Rightarrow> Inl e | Inr (bmajor, bminor) \<Rightarrow>
     (case parse_clewdr_version env (ie_version env) of Inl e \<Rightarrow> Inl e | Inr (major, minor) \<Rightarrow>
        if major < bmajor
        then Inl (BadRequest ''bundle was produced by a newer major version; refusing to import'')
        else if bmajor = major \<and> minor < bminor \<and> \<not> force
        then Inl (BadRequest ''bundle is from a newer minor version; pass --force to attempt anyway'')
        else Inr ()))"

section \<open>Removed secrets\<close>

definition null_or_missing :: "row \<Rightarrow> string \<Rightarrow> bool" where
  "null_or_missing r c \<longleftrightarrow> map_of r c \<in> {None, Some CNull}"

definition redacted_account :: "row \<Rightarrow> string option" where
  "redacted_account r =
     (case map_of r ''auth_source'' of
        Some (CText auth) \<Rightarrow>
          if auth = ''cookie'' \<and> null_or_missing r ''cookie_blob''
          then Some (''bundle has accounts row with cookie auth but cookie_blob is NULL '' @ em_dash
                     @ '' this bundle was produced with --no-secrets and cannot be imported. Re-export without --no-secrets, or rotate credentials manually after a partial restore.'')
          else if auth = ''oauth''
                  \<and> (null_or_missing r ''oauth_access_token'' \<or> null_or_missing r ''oauth_refresh_token'')
          then Some (''bundle has accounts row with oauth auth but oauth tokens are NULL '' @ em_dash
                     @ '' this bundle was produced with --no-secrets and cannot be imported. Re-export without --no-secrets.'')
          else if auth = ''api_key''
                  \<and> (null_or_missing r ''api_key_secret'' \<or> null_or_missing r ''api_key_base_url'')
          then Some (''bundle has accounts row with api_key auth but api_key_secret or api_key_base_url is NULL '' @ em_dash
                     @ '' this bundle was produced with --no-secrets and cannot be imported. Re-export without --no-secrets, or recreate the api_key account after a partial restore.'')
          else None
      | _ \<Rightarrow> None)"

definition redacted_api_key :: "row \<Rightarrow> string option" where
  "redacted_api_key r =
     (if null_or_missing r ''key_hash''
      then Some (''bundle has api_keys row with NULL key_hash '' @ em_dash
                 @ '' this bundle was produced with --no-secrets and cannot be imported. Re-export without --no-secrets, or recreate keys after partial restore.'')
      else None)"

definition redacted_user :: "row \<Rightarrow> string option" where
  "redacted_user r =
     (if map_of r ''role'' = Some (CText ''admin'') \<and> null_or_missing r ''password_hash''
      then Some (''bundle has admin user with NULL password_hash '' @ em_dash
                 @ '' this bundle was produced with --no-secrets and cannot be imported. Re-export without --no-secrets, then run `clewdr reset-admin-password` if you want to rotate.'')
      else None)"

definition first_redacted :: "Bundle \<Rightarrow> string \<Rightarrow> (row \<Rightarrow> string option) \<Rightarrow> string option" where
  "first_redacted b table f =
     (case map_of (bu_tables b) table of
        None \<Rightarrow> None
      | Some rows \<Rightarrow> (case List.map_filter f rows of [] \<Rightarrow> None | m # _ \<Rightarrow> Some m))"

definition detect_redacted_bundle :: "Bundle \<Rightarrow> ClewdrError + unit" where
  "detect_redacted_bundle b =
     (case first_redacted b ''accounts'' redacted_account of Some m \<Rightarrow> Inl (BadRequest m) | None \<Rightarrow>
     (case first_redacted b ''api_keys'' redacted_api_key of Some m \<Rightarrow> Inl (BadRequest m) | None \<Rightarrow>
     (case first_redacted b ''users'' redacted_user of Some m \<Rightarrow> Inl (BadRequest m) | None \<Rightarrow> Inr ())))"

section \<open>The engine\<close>

type_synonym tables = "string \<Rightarrow> row list"

datatype import_point =
    IP_Acquire | IP_Schema string | IP_Begin | IP_Defer | IP_Admin | IP_Wipe string | IP_Capture string | IP_Commit

record sqlite =
  sq_pragma :: "string \<Rightarrow> pragma_row list"
  sq_unique :: "string \<Rightarrow> string list list"
  sq_default :: "string \<Rightarrow> string \<Rightarrow> CellValue"
  sq_new_id :: "string \<Rightarrow> row list \<Rightarrow> i64"
  sq_refuse :: "string \<Rightarrow> row \<Rightarrow> ClewdrError option"
  sq_constraint :: "string \<Rightarrow> ClewdrError"
  sq_references :: "tables \<Rightarrow> ClewdrError option"
  sq_io :: "import_point \<Rightarrow> ClewdrError option"

definition cell :: "row \<Rightarrow> string \<Rightarrow> CellValue" where
  "cell r c = (case map_of r c of Some v \<Rightarrow> v | None \<Rightarrow> CNull)"

definition same_key :: "string list \<Rightarrow> row \<Rightarrow> row \<Rightarrow> bool" where
  "same_key ks r s \<longleftrightarrow> ks \<noteq> [] \<and> list_all (\<lambda>k. cell r k \<noteq> CNull \<and> cell r k = cell s k) ks"

text \<open>An \<open>INTEGER PRIMARY KEY\<close> is the row id: \<open>NULL\<close> asks for a new one.\<close>

definition rowid_column :: "sqlite \<Rightarrow> string \<Rightarrow> string option" where
  "rowid_column sq t =
     (case filter (\<lambda>p. 0 < pg_pk p) (sq_pragma sq t) of
        [p] \<Rightarrow> if pg_type p = ''INTEGER'' then Some (pg_name p) else None
      | _ \<Rightarrow> None)"

definition stored_row :: "sqlite \<Rightarrow> string \<Rightarrow> string list \<Rightarrow> row \<Rightarrow> row list \<Rightarrow> row" where
  "stored_row sq t cols r rows =
     map (\<lambda>p. let c = pg_name p; v = (if c \<in> set cols then cell r c else sq_default sq t c)
              in (c, if v = CNull \<and> rowid_column sq t = Some c then CInteger (sq_new_id sq t rows) else v))
       (sq_pragma sq t)"

definition violates :: "sqlite \<Rightarrow> string \<Rightarrow> row \<Rightarrow> row list \<Rightarrow> bool" where
  "violates sq t r rows \<longleftrightarrow> list_ex (\<lambda>ks. list_ex (same_key ks r) rows) (sq_unique sq t)"

definition sql_insert ::
    "sqlite \<Rightarrow> string \<Rightarrow> string list \<Rightarrow> row \<Rightarrow> row list \<Rightarrow> ClewdrError + row list" where
  "sql_insert sq t cols r rows =
     (let n = stored_row sq t cols r rows in
      case sq_refuse sq t n of
        Some e \<Rightarrow> Inl e
      | None \<Rightarrow> if violates sq t n rows then Inl (sq_constraint sq t) else Inr (rows @ [n]))"

text \<open>\<open>INSERT OR IGNORE\<close>.\<close>

definition sql_insert_or_ignore ::
    "sqlite \<Rightarrow> string \<Rightarrow> string list \<Rightarrow> row \<Rightarrow> row list \<Rightarrow> ClewdrError + row list" where
  "sql_insert_or_ignore sq t cols r rows =
     (let n = stored_row sq t cols r rows in
      if violates sq t n rows \<or> sq_refuse sq t n \<noteq> None then Inr rows else Inr (rows @ [n]))"

definition update_row :: "string list \<Rightarrow> row \<Rightarrow> row \<Rightarrow> row" where
  "update_row cols n r = foldl (\<lambda>r c. hm_insert c (cell n c) r) r cols"

text \<open>
  \<open>INSERT ... ON CONFLICT(key) DO UPDATE SET\<close> the columns of \<open>updates\<close>, or \<open>DO NOTHING\<close> without any. The
  target has to be a unique index.
\<close>

definition sql_upsert ::
    "sqlite \<Rightarrow> string \<Rightarrow> string list \<Rightarrow> string list \<Rightarrow> string list \<Rightarrow> row \<Rightarrow> row list
      \<Rightarrow> ClewdrError + row list" where
  "sql_upsert sq t cols key updates r rows =
     (if \<not> list_ex (\<lambda>ks. set ks = set key) (sq_unique sq t) then Inl (sq_constraint sq t)
      else let n = stored_row sq t cols r rows in
           case sq_refuse sq t n of
             Some e \<Rightarrow> Inl e
           | None \<Rightarrow>
               (case List.extract (same_key key n) rows of
                  None \<Rightarrow> if violates sq t n rows then Inl (sq_constraint sq t) else Inr (rows @ [n])
                | Some (before, old, after) \<Rightarrow>
                    if updates = [] then Inr rows
                    else let u = update_row updates n old in
                         if violates sq t u (before @ after) then Inl (sq_constraint sq t)
                         else case sq_refuse sq t u of
                                Some e \<Rightarrow> Inl e
                              | None \<Rightarrow> Inr (before @ u # after)))"

section \<open>Which columns are written\<close>

record ColumnPlan =
  cp_writable :: "string list"
  cp_extra_in_bundle :: "string list"
  cp_missing_in_bundle :: "string list"
  cp_warnings :: "string list"

text \<open>The order of the warnings for missing columns is the order of the table here.\<close>

definition plan_build :: "TableSchema \<Rightarrow> TableSchema \<Rightarrow> string \<Rightarrow> ClewdrError + ColumnPlan" where
  "plan_build bundle db table =
     (let bundle_cols = map ci_name (ts_columns bundle);
          db_cols = map ci_name (ts_columns db);
          extra = filter (\<lambda>c. c \<notin> set db_cols) bundle_cols;
          missing = filter (\<lambda>c. ci_name c \<notin> set bundle_cols) (ts_columns db)
      in if list_ex (\<lambda>c. ci_notnull c \<and> ci_default_value c = None) missing
         then Inl (BadRequest ''live DB has a required column that the bundle is missing'')
         else Inr \<lparr>cp_writable = filter (\<lambda>c. c \<in> set db_cols) bundle_cols, cp_extra_in_bundle = extra,
                   cp_missing_in_bundle = map ci_name missing,
                   cp_warnings =
                     map (\<lambda>c. ''table '' @ table @ '': bundle column '' @ c @ '' not present in live DB; dropped'') extra
                     @ map (\<lambda>c. ''table '' @ table @ '': live DB column '' @ ci_name c @ '' not in bundle; will use default/NULL'')
                         missing\<rparr>)"

section \<open>Keys and references\<close>

definition table_insert_order :: "string list" where
  "table_insert_order =
     [''policies'', ''proxies'', ''users'', ''accounts'', ''account_runtime_state'', ''api_keys'',
      ''api_key_account_bindings'', ''settings'', ''models'', ''model_pricing'', ''usage_rollups'',
      ''usage_lifetime_totals'', ''usage_daily_rollups'', ''usage_daily_rollup_state'']"

definition table_delete_order_restore :: "string list" where
  "table_delete_order_restore =
     [''usage_daily_rollup_state'', ''usage_daily_rollups'', ''usage_lifetime_totals'', ''usage_rollups'',
      ''model_pricing'', ''models'', ''settings'', ''api_key_account_bindings'', ''api_keys'',
      ''account_runtime_state'', ''accounts'', ''users'', ''proxies'', ''policies'']"

definition tables_wiped_even_in_merge :: "string list" where
  "tables_wiped_even_in_merge = [''api_key_account_bindings'']"

record TableMergeSpec =
  ms_id_column :: "string option"
  ms_natural_key :: "string list"
  ms_fks :: "(string \<times> string) list"

definition merge_spec_of ::
    "string option \<Rightarrow> string list \<Rightarrow> (string \<times> string) list \<Rightarrow> TableMergeSpec" where
  "merge_spec_of i k f = \<lparr>ms_id_column = i, ms_natural_key = k, ms_fks = f\<rparr>"

definition merge_specs :: "(string \<times> TableMergeSpec) list" where
  "merge_specs =
     [(''policies'', merge_spec_of (Some ''id'') [''name''] []),
      (''users'', merge_spec_of (Some ''id'') [''username''] [(''policy_id'', ''policies'')]),
      (''proxies'', merge_spec_of (Some ''id'') [''name''] []),
      (''accounts'', merge_spec_of (Some ''id'') [''name''] [(''proxy_id'', ''proxies'')]),
      (''api_keys'', merge_spec_of (Some ''id'') [''lookup_key''] [(''user_id'', ''users'')]),
      (''api_key_account_bindings'', merge_spec_of None [''api_key_id'', ''account_id'']
         [(''api_key_id'', ''api_keys''), (''account_id'', ''accounts'')]),
      (''account_runtime_state'', merge_spec_of None [''account_id''] [(''account_id'', ''accounts'')]),
      (''settings'', merge_spec_of None [''key''] []),
      (''models'', merge_spec_of None [''model_id''] []),
      (''model_pricing'', merge_spec_of (Some ''id'') [''pricing_key''] []),
      (''usage_rollups'', merge_spec_of (Some ''id'') [''user_id'', ''period_type'', ''period_start'']
         [(''user_id'', ''users'')]),
      (''usage_lifetime_totals'', merge_spec_of None [''user_id''] [(''user_id'', ''users'')]),
      (''usage_daily_rollups'', merge_spec_of (Some ''id'') [''user_id'', ''model_key'', ''bucket_date_local'']
         [(''user_id'', ''users'')]),
      (''usage_daily_rollup_state'', merge_spec_of None [''id''] [])]"

definition merge_spec :: "string \<Rightarrow> TableMergeSpec" where
  "merge_spec table =
     (case map_of merge_specs table of Some s \<Rightarrow> s | None \<Rightarrow> merge_spec_of None [] [])"

section \<open>The writes\<close>

record TableCounts =
  tc_inserted :: nat
  tc_skipped_admin :: nat
  tc_skipped_blocked_settings :: nat
  tc_deleted_first :: nat

definition no_counts :: TableCounts where
  "no_counts = \<lparr>tc_inserted = 0, tc_skipped_admin = 0, tc_skipped_blocked_settings = 0, tc_deleted_first = 0\<rparr>"

text \<open>\<open>is_ids\<close> maps the ids of a table in the bundle to the ids of this database.\<close>

record import_state =
  is_tables :: tables
  is_ids :: "string \<Rightarrow> i64 \<Rightarrow> i64 option"
  is_counts :: "(string, TableCounts) hash_map"

definition count :: "string \<Rightarrow> (TableCounts \<Rightarrow> TableCounts) \<Rightarrow> import_state \<Rightarrow> import_state" where
  "count table f st =
     st\<lparr>is_counts := hm_insert table
          (f (case map_of (is_counts st) table of Some c \<Rightarrow> c | None \<Rightarrow> no_counts)) (is_counts st)\<rparr>"

text \<open>Which rows \<open>wipe_table\<close> keeps; a comparison with \<open>NULL\<close> deletes nothing.\<close>

definition wipe_keeps :: "tables \<Rightarrow> string \<Rightarrow> bool \<Rightarrow> row \<Rightarrow> bool" where
  "wipe_keeps db table preserve r =
     (if table = ''settings''
      then cell r ''key'' = CNull \<or> cell r ''key'' \<in> CText ` set settings_keys_never_exported
      else if preserve \<and> table = ''users'' then cell r ''username'' \<in> {CNull, CText ''admin''}
      else if preserve \<and> table = ''policies''
      then (let ids = map (\<lambda>u. cell u ''policy_id'') (filter (\<lambda>u. cell u ''username'' = CText ''admin'') (db ''users''))
            in ids \<noteq> [] \<and> (cell r ''id'' = CNull \<or> cell r ''id'' \<in> set ids \<or> CNull \<in> set ids))
      else False)"

definition wipe_table ::
    "sqlite \<Rightarrow> string \<Rightarrow> bool \<Rightarrow> import_state \<Rightarrow> ClewdrError + import_state" where
  "wipe_table sq table preserve st =
     (case sq_io sq (IP_Wipe table) of
        Some e \<Rightarrow> Inl e
      | None \<Rightarrow>
          (let db = is_tables st; kept = filter (wipe_keeps db table preserve) (db table)
           in Inr (count table (\<lambda>c. c\<lparr>tc_deleted_first := length (db table) - length kept\<rparr>)
                     (st\<lparr>is_tables := db(table := kept)\<rparr>))))"

fun wipe_tables ::
    "sqlite \<Rightarrow> string list \<Rightarrow> bool \<Rightarrow> import_state \<Rightarrow> ClewdrError + import_state" where
  "wipe_tables sq [] preserve st = Inr st"
| "wipe_tables sq (t # ts) preserve st =
     (case wipe_table sq t preserve st of Inl e \<Rightarrow> Inl e | Inr st' \<Rightarrow> wipe_tables sq ts preserve st')"

definition upsert_updates :: "string list \<Rightarrow> string list \<Rightarrow> string list" where
  "upsert_updates cols key = filter (\<lambda>c. c \<notin> set key \<and> c \<noteq> ''id'') cols"

definition execute_row_insert ::
    "sqlite \<Rightarrow> string \<Rightarrow> string list \<Rightarrow> string list \<Rightarrow> row \<Rightarrow> import_mode \<Rightarrow> row list
      \<Rightarrow> ClewdrError + row list" where
  "execute_row_insert sq table writable key r mode rows =
     (if writable = [] then Inr rows
      else case mode of
             Mode_Restore \<Rightarrow> sql_insert sq table writable r rows
           | Mode_Merge \<Rightarrow>
               if key = [] then sql_insert_or_ignore sq table writable r rows
               else sql_upsert sq table writable key (upsert_updates writable key) r rows)"

fun cell_int :: "CellValue \<Rightarrow> i64 option" where
  "cell_int (CInteger i) = Some i"
| "cell_int _ = None"

definition capture_local_id ::
    "sqlite \<Rightarrow> string \<Rightarrow> string list \<Rightarrow> row \<Rightarrow> row list \<Rightarrow> ClewdrError + i64 option" where
  "capture_local_id sq table key r rows =
     (if key = [] then Inr None
      else case sq_io sq (IP_Capture table) of
             Some e \<Rightarrow> Inl e
           | None \<Rightarrow> Inr (Option.bind (find (same_key key r) rows) (\<lambda>s. cell_int (cell s ''id''))))"

text \<open>The id of a bundle row is noted together with the id that its natural key has here.\<close>

definition note_id ::
    "sqlite \<Rightarrow> string \<Rightarrow> TableMergeSpec \<Rightarrow> row \<Rightarrow> row \<Rightarrow> import_state \<Rightarrow> ClewdrError + import_state" where
  "note_id sq table spec bundle_row r st =
     (case Option.bind (ms_id_column spec) (\<lambda>c. Option.bind (map_of bundle_row c) cell_int) of
        None \<Rightarrow> Inr st
      | Some bundle_id \<Rightarrow>
          (case capture_local_id sq table (ms_natural_key spec) r (is_tables st table) of
             Inl e \<Rightarrow> Inl e
           | Inr None \<Rightarrow> Inr st
           | Inr (Some lid) \<Rightarrow>
               Inr (st\<lparr>is_ids := (is_ids st)(table := (is_ids st table)(bundle_id \<mapsto> lid))\<rparr>)))"

definition translate_fk ::
    "(string \<Rightarrow> i64 \<Rightarrow> i64 option) \<Rightarrow> string \<times> string \<Rightarrow> row \<Rightarrow> ClewdrError + row" where
  "translate_fk ids fk r =
     (case fk of (c, parent) \<Rightarrow>
        (case map_of r c of
           None \<Rightarrow> Inr r
         | Some CNull \<Rightarrow> Inr r
         | Some (CInteger i) \<Rightarrow>
             (case ids parent i of
                Some lid \<Rightarrow> Inr (hm_insert c (CInteger lid) r)
              | None \<Rightarrow>
                  Inl (ConflictMessage (''FK '' @ c @ '' = '' @ show_i64 i @ '' (bundle id) has no matching row in parent table ''
                    @ parent @ ''; bundle is internally inconsistent'')))
         | Some _ \<Rightarrow>
             Inl (ConflictMessage (''FK column '' @ c @ '' has non-integer value; cannot translate during merge''))))"

fun translate_fks ::
    "(string \<Rightarrow> i64 \<Rightarrow> i64 option) \<Rightarrow> (string \<times> string) list \<Rightarrow> row \<Rightarrow> ClewdrError + row" where
  "translate_fks ids [] r = Inr r"
| "translate_fks ids (fk # fks) r =
     (case translate_fk ids fk r of Inl e \<Rightarrow> Inl e | Inr r' \<Rightarrow> translate_fks ids fks r')"

definition is_admin_row :: "string \<Rightarrow> row \<Rightarrow> bool" where
  "is_admin_row table r \<longleftrightarrow> table = ''users'' \<and> map_of r ''username'' = Some (CText ''admin'')"

text \<open>One row; \<open>translate\<close> is \<open>translate_all_ids\<close>.\<close>

definition import_row ::
    "sqlite \<Rightarrow> import_mode \<Rightarrow> bool \<Rightarrow> bool \<Rightarrow> string \<Rightarrow> string list \<Rightarrow> row \<Rightarrow> import_state
      \<Rightarrow> ClewdrError + import_state" where
  "import_row sq mode preserve translate table writable bundle_row st =
     (let spec = merge_spec table in
      if is_admin_row table bundle_row \<and> preserve
      then note_id sq table spec bundle_row bundle_row
             (count table (\<lambda>c. c\<lparr>tc_skipped_admin := tc_skipped_admin c + 1\<rparr>) st)
      else if table = ''settings'' \<and> blocked_setting bundle_row
      then Inr (count table (\<lambda>c. c\<lparr>tc_skipped_blocked_settings := tc_skipped_blocked_settings c + 1\<rparr>) st)
      else case (if translate then translate_fks (is_ids st) (ms_fks spec) bundle_row else Inr bundle_row) of
             Inl e \<Rightarrow> Inl e
           | Inr r \<Rightarrow>
               (case execute_row_insert sq table writable (ms_natural_key spec) r
                       (if translate then Mode_Merge else mode) (is_tables st table) of
                  Inl e \<Rightarrow> Inl e
                | Inr rows \<Rightarrow>
                    (let st1 = count table (\<lambda>c. c\<lparr>tc_inserted := tc_inserted c + 1\<rparr>)
                                 (st\<lparr>is_tables := (is_tables st)(table := rows)\<rparr>)
                     in if translate then note_id sq table spec bundle_row r st1 else Inr st1)))"

fun import_rows ::
    "sqlite \<Rightarrow> import_mode \<Rightarrow> bool \<Rightarrow> bool \<Rightarrow> string \<Rightarrow> string list \<Rightarrow> row list \<Rightarrow> import_state
      \<Rightarrow> ClewdrError + import_state" where
  "import_rows sq mode preserve translate table writable [] st = Inr st"
| "import_rows sq mode preserve translate table writable (r # rs) st =
     (case import_row sq mode preserve translate table writable r st of
        Inl e \<Rightarrow> Inl e
      | Inr st' \<Rightarrow> import_rows sq mode preserve translate table writable rs st')"

definition writable_columns :: "bool \<Rightarrow> TableMergeSpec \<Rightarrow> ColumnPlan \<Rightarrow> string list" where
  "writable_columns translate spec plan =
     (case ms_id_column spec of
        Some c \<Rightarrow> if translate then filter (\<lambda>x. x \<noteq> c) (cp_writable plan) else cp_writable plan
      | None \<Rightarrow> cp_writable plan)"

definition import_table ::
    "sqlite \<Rightarrow> import_mode \<Rightarrow> bool \<Rightarrow> bool \<Rightarrow> (string, ColumnPlan) hash_map \<Rightarrow> Bundle \<Rightarrow> string \<Rightarrow> import_state
      \<Rightarrow> ClewdrError + import_state" where
  "import_table sq mode preserve translate plans b table st =
     (case (map_of plans table, map_of (bu_tables b) table) of
        (Some plan, Some rows) \<Rightarrow>
          (case (if mode = Mode_Merge \<and> table \<in> set tables_wiped_even_in_merge
                 then wipe_table sq table False st else Inr st) of
             Inl e \<Rightarrow> Inl e
           | Inr st1 \<Rightarrow>
               import_rows sq mode preserve translate table
                 (writable_columns translate (merge_spec table) plan) rows (count table (\<lambda>c. c) st1))
      | _ \<Rightarrow> Inr st)"

fun import_tables ::
    "sqlite \<Rightarrow> import_mode \<Rightarrow> bool \<Rightarrow> bool \<Rightarrow> (string, ColumnPlan) hash_map \<Rightarrow> Bundle \<Rightarrow> string list \<Rightarrow> import_state
      \<Rightarrow> ClewdrError + import_state" where
  "import_tables sq mode preserve translate plans b [] st = Inr st"
| "import_tables sq mode preserve translate plans b (t # ts) st =
     (case import_table sq mode preserve translate plans b t st of
        Inl e \<Rightarrow> Inl e
      | Inr st' \<Rightarrow> import_tables sq mode preserve translate plans b ts st')"

definition has_local_admin :: "tables \<Rightarrow> bool" where
  "has_local_admin db \<longleftrightarrow> list_ex (\<lambda>u. cell u ''username'' = CText ''admin'') (db ''users'')"

definition apply_tables ::
    "sqlite \<Rightarrow> import_args \<Rightarrow> (string, ColumnPlan) hash_map \<Rightarrow> Bundle \<Rightarrow> tables \<Rightarrow> ClewdrError + import_state" where
  "apply_tables sq args plans b db =
     (case (if ia_overwrite_admin args then Inr False
            else case sq_io sq IP_Admin of Some e \<Rightarrow> Inl e | None \<Rightarrow> Inr (has_local_admin db)) of
        Inl e \<Rightarrow> Inl e
      | Inr preserve \<Rightarrow>
          (let st = \<lparr>is_tables = db, is_ids = (\<lambda>_. Map.empty), is_counts = []\<rparr>;
               translate = (ia_mode args = Mode_Merge \<or> (ia_mode args = Mode_Restore \<and> preserve))
           in case (if ia_mode args = Mode_Restore
                    then wipe_tables sq table_delete_order_restore preserve st else Inr st) of
                Inl e \<Rightarrow> Inl e
              | Inr st1 \<Rightarrow>
                  import_tables sq (ia_mode args) preserve translate plans b table_insert_order st1))"

section \<open>The transaction\<close>

record ImportSummary =
  su_per_table :: "(string, TableCounts) hash_map"
  su_schema_warnings :: "string list"

fun build_plans ::
    "sqlite \<Rightarrow> Bundle \<Rightarrow> string list \<Rightarrow> ClewdrError + ((string, ColumnPlan) hash_map \<times> string list)" where
  "build_plans sq b [] = Inr ([], [])"
| "build_plans sq b (t # ts) =
     (if \<not> hm_contains (bu_tables b) t then build_plans sq b ts
      else case map_of (bu_schema b) t of
        None \<Rightarrow> Inl (BadRequest ''bundle has rows but no schema for a table'')
      | Some schema \<Rightarrow>
          (case (case sq_io sq (IP_Schema t) of Some e \<Rightarrow> Inl e | None \<Rightarrow> read_table_schema (sq_pragma sq t)) of
             Inl e \<Rightarrow> Inl e
           | Inr db_schema \<Rightarrow>
               (case plan_build schema db_schema t of
                  Inl e \<Rightarrow> Inl e
                | Inr plan \<Rightarrow>
                    (case build_plans sq b ts of
                       Inl e \<Rightarrow> Inl e
                     | Inr (plans, warnings) \<Rightarrow> Inr ((t, plan) # plans, cp_warnings plan @ warnings)))))"

definition ignored_warnings :: "Bundle \<Rightarrow> string list" where
  "ignored_warnings b =
     concat (map (\<lambda>(t, _).
       if t \<in> set never_exported then [''ignored never-exported table in bundle: '' @ t]
       else if t \<notin> set table_insert_order then [''ignored unknown table in bundle: '' @ t] else []) (bu_tables b))"

text \<open>
  The result and the committed tables. After an error behind \<open>BEGIN\<close> the connection is closed with its
  transaction open, which rolls it back.
\<close>

definition apply_bundle ::
    "sqlite \<Rightarrow> Bundle \<Rightarrow> import_args \<Rightarrow> tables \<Rightarrow> (ClewdrError + ImportSummary) \<times> tables" where
  "apply_bundle sq b args db =
     (case sq_io sq IP_Acquire of Some e \<Rightarrow> (Inl e, db) | None \<Rightarrow>
     (case build_plans sq b table_insert_order of
        Inl e \<Rightarrow> (Inl e, db)
      | Inr (plans, warnings) \<Rightarrow>
          (case sq_io sq IP_Begin of Some e \<Rightarrow> (Inl e, db) | None \<Rightarrow>
          (case sq_io sq IP_Defer of Some e \<Rightarrow> (Inl e, db) | None \<Rightarrow>
          (case apply_tables sq args plans b db of
             Inl e \<Rightarrow> (Inl e, db)
           | Inr st \<Rightarrow>
               (let summary = \<lparr>su_per_table = is_counts st, su_schema_warnings = warnings @ ignored_warnings b\<rparr>
                in if ia_dry_run args then (Inr summary, db)
                   else case sq_io sq IP_Commit of
                          Some e \<Rightarrow> (Inl e, db)
                        | None \<Rightarrow>
                            (case sq_references sq (is_tables st) of
                               Some e \<Rightarrow> (Inl e, db)
                             | None \<Rightarrow> (Inr summary, is_tables st))))))))"

text \<open>The configuration file: \<open>fw_rename\<close>, \<open>fw_mkdir\<close> and \<open>fw_write\<close> tell which step fails.\<close>

record file_outcomes =
  fw_rename :: "ClewdrError option"
  fw_mkdir :: "ClewdrError option"
  fw_write :: "ClewdrError option"

text \<open>The result, the file and its backup.\<close>

definition restore_config_toml ::
    "file_outcomes \<Rightarrow> string \<Rightarrow> string option \<Rightarrow> (ClewdrError + unit) \<times> string option \<times> string option" where
  "restore_config_toml fw contents config =
     (case (case config of Some _ \<Rightarrow> fw_rename fw | None \<Rightarrow> None) of
        Some e \<Rightarrow> (Inl e, config, None)
      | None \<Rightarrow>
          (case fw_mkdir fw of
             Some e \<Rightarrow> (Inl e, None, config)
           | None \<Rightarrow>
               (case fw_write fw of
                  Some e \<Rightarrow> (Inl e, None, config)
                | None \<Rightarrow> (Inr (), Some contents, config))))"

text \<open>\<open>opened\<close> is the database as \<open>init_pool\<close> or \<open>open_existing_pool\<close> open it.\<close>

definition import_run ::
    "import_env \<Rightarrow> cipher_env \<Rightarrow> terminal \<Rightarrow> sqlite \<Rightarrow> file_outcomes \<Rightarrow> (ClewdrError + unit) \<Rightarrow> import_args
      \<Rightarrow> tables \<Rightarrow> string option \<Rightarrow> (ClewdrError + ImportSummary) \<times> tables \<times> string option" where
  "import_run env cf tm sq fw opened args db config =
     (if ie_no_fs env
      then (Inl (BadRequest ''import-config is not supported in no_fs mode (in-memory state is ephemeral)''), db, config)
      else if ia_mode args = Mode_Restore \<and> \<not> ia_yes args
      then (Inl (BadRequest ''`--mode restore` truncates target tables; pass --yes to confirm''), db, config)
      else case (case ie_read env of Inl e \<Rightarrow> Inl e | Inr raw \<Rightarrow>
                (case parse_bundle env cf tm raw (ia_passphrase_stdin args) of Inl e \<Rightarrow> Inl e | Inr b \<Rightarrow>
                (case check_version_compatibility env b (ia_force args) of Inl e \<Rightarrow> Inl e | Inr _ \<Rightarrow>
                (case detect_redacted_bundle b of Inl e \<Rightarrow> Inl e | Inr _ \<Rightarrow>
                (case opened of Inl e \<Rightarrow> Inl e | Inr _ \<Rightarrow> Inr b))))) of
             Inl e \<Rightarrow> (Inl e, db, config)
           | Inr b \<Rightarrow>
               (case apply_bundle sq b args db of
                  (Inl e, db') \<Rightarrow> (Inl e, db', config)
                | (Inr summary, db') \<Rightarrow>
                    if \<not> ia_dry_run args \<and> trim (bu_config_toml b) \<noteq> []
                    then (case restore_config_toml fw (bu_config_toml b) config of
                            (Inl e, config', _) \<Rightarrow> (Inl e, db', config')
                          | (Inr _, config', _) \<Rightarrow> (Inr summary, db', config'))
                    else (Inr summary, db', config)))"

end
