(* ===== verification/Import_Safety.thy ===== *)
theory Import_Safety
  imports Bundle_Import
begin

text \<open>
  What an import guarantees: nothing is written unless everything succeeds, the local administrator and the
  session secret survive, a bundle without secrets is refused, and a file that was exported is read
  back unchanged.
\<close>

section \<open>Rows and statements\<close>

lemma cell_stored_row:
  "cell (stored_row sq t cols r rows) c
    = (if c \<in> pg_name ` set (sq_pragma sq t)
       then (let v = (if c \<in> set cols then cell r c else sq_default sq t c)
             in if v = CNull \<and> rowid_column sq t = Some c then CInteger (sq_new_id sq t rows) else v)
       else CNull)"
proof -
  let ?g = "\<lambda>c. let v = (if c \<in> set cols then cell r c else sq_default sq t c)
             in if v = CNull \<and> rowid_column sq t = Some c then CInteger (sq_new_id sq t rows) else v"
  have "map_of (map (\<lambda>p. (pg_name p, g (pg_name p))) ps) c = (if c \<in> pg_name ` set ps then Some (g c) else None)"
    for g :: "string \<Rightarrow> CellValue" and ps
    by (induction ps) auto
  from this [of ?g "sq_pragma sq t"]
  have "map_of (stored_row sq t cols r rows) c = (if c \<in> pg_name ` set (sq_pragma sq t) then Some (?g c) else None)"
    by (simp add: stored_row_def Let_def)
  then show ?thesis
    by (simp add: cell_def [of "stored_row sq t cols r rows"])
qed

lemma cell_insert: "cell (hm_insert c v r) c' = (if c' = c then v else cell r c')"
  by (simp add: cell_def hm_get_insert)

lemma cell_update_row: "cell (update_row cols n r) c = (if c \<in> set cols then cell n c else cell r c)"
  unfolding update_row_def by (induction cols arbitrary: r) (auto simp: cell_insert)

lemma same_key_cell: "same_key ks r s \<Longrightarrow> k \<in> set ks \<Longrightarrow> cell r k = cell s k \<and> cell s k \<noteq> CNull"
  by (auto simp: same_key_def list_all_iff)

text \<open>How a successful upsert changes the rows.\<close>

lemma sql_upsert_cases:
  assumes "sql_upsert sq t cols key updates r rows = Inr rows'"
  obtains (Insert) "rows' = rows @ [stored_row sq t cols r rows]"
      and "\<forall>s \<in> set rows. \<not> same_key key (stored_row sq t cols r rows) s"
  | (Nothing) old where "rows' = rows" and "updates = []" and "old \<in> set rows"
      and "same_key key (stored_row sq t cols r rows) old"
  | (Update) before old after where "rows = before @ old # after"
      and "rows' = before @ update_row updates (stored_row sq t cols r rows) old # after"
      and "same_key key (stored_row sq t cols r rows) old"
proof -
  let ?n = "stored_row sq t cols r rows"
  show thesis
  proof (cases "List.extract (same_key key ?n) rows")
    case None
    with assms have "rows' = rows @ [?n]"
      by (auto simp: sql_upsert_def Let_def split: if_splits option.splits)
    with None Insert show thesis by (simp add: extract_None_iff)
  next
    case (Some x)
    obtain before old after where x: "x = (before, old, after)" by (cases x)
    have "List.extract (same_key key ?n) rows = Some (before, old, after)"
      using Some x by simp
    then have rows: "rows = before @ old # after" "same_key key ?n old"
      unfolding extract_Some_iff by blast+
    show thesis
    proof (cases "updates = []")
      case True
      with assms have "rows' = rows"
        by (auto simp: sql_upsert_def Let_def Some x split: if_splits option.splits)
      moreover have "old \<in> set rows" using rows by simp
      ultimately show thesis using True rows(2) by (intro Nothing)
    next
      case False
      with assms have "rows' = before @ update_row updates ?n old # after"
        by (auto simp: sql_upsert_def Let_def Some x split: if_splits option.splits)
      with rows Update show thesis by blast
    qed
  qed
qed

lemma translate_fks_cell:
  "translate_fks ids fks r = Inr r' \<Longrightarrow> c \<notin> fst ` set fks \<Longrightarrow> map_of r' c = map_of r c"
  by (induction fks arbitrary: r)
     (auto simp: translate_fk_def hm_get_insert split: sum.splits option.splits CellValue.splits)

section \<open>Rows that no import touches\<close>

text \<open>A write of a row whose column differs from the value leaves all rows with that value alone.\<close>

lemma execute_keeps_rows:
  assumes "execute_row_insert sq t writable key r mode rows = Inr rows'" and "k \<in> set key"
    and "cell r k \<noteq> v" and "sq_default sq t k \<noteq> v" and "v = CText x"
  shows "filter (\<lambda>r. cell r k = v) rows' = filter (\<lambda>r. cell r k = v) rows"
proof -
  let ?n = "stored_row sq t writable r rows"
  have n: "cell ?n k \<noteq> v"
    using assms(3-5) by (simp add: cell_stored_row Let_def)
  have upd: "k \<notin> set (upsert_updates writable key)"
    using assms(2) by (simp add: upsert_updates_def)
  show ?thesis
  proof (cases "writable = [] \<or> mode = Mode_Restore")
    case True
    then show ?thesis
      using assms(1) n
      by (auto simp: execute_row_insert_def sql_insert_def Let_def split: if_splits option.splits)
  next
    case False
    then have "sql_upsert sq t writable key (upsert_updates writable key) r rows = Inr rows'"
      using assms(1,2) by (auto simp: execute_row_insert_def split: import_mode.splits if_splits)
    then show ?thesis
    proof (cases rule: sql_upsert_cases)
      case (Update before old after)
      then have "cell old k \<noteq> v" using same_key_cell [OF Update(3) assms(2)] n by simp
      then show ?thesis
        using Update(1,2) upd by (simp add: cell_update_row)
    qed (use n in simp_all)
  qed
qed

definition admin_rows :: "tables \<Rightarrow> row list" where
  "admin_rows db = filter (\<lambda>r. cell r ''username'' = CText ''admin'') (db ''users'')"

definition secret_rows :: "tables \<Rightarrow> row list" where
  "secret_rows db = filter (\<lambda>r. cell r ''key'' = CText ''session_secret'') (db ''settings'')"

text \<open>No default value is the name of the administrator or of the secret.\<close>

definition plain_defaults :: "sqlite \<Rightarrow> bool" where
  "plain_defaults sq \<longleftrightarrow> sq_default sq ''users'' ''username'' = CNull \<and> sq_default sq ''settings'' ''key'' = CNull"

lemma is_tables_count [simp]: "is_tables (count t f st) = is_tables st" "is_ids (count t f st) = is_ids st"
  by (simp_all add: count_def)

lemma note_id_tables: "note_id sq t spec br r st = Inr st' \<Longrightarrow> is_tables st' = is_tables st"
  by (auto simp: note_id_def split: option.splits sum.splits)

lemma merge_spec_simps:
  "merge_spec ''users'' = merge_spec_of (Some ''id'') [''username''] [(''policy_id'', ''policies'')]"
  "merge_spec ''settings'' = merge_spec_of None [''key''] []"
  by (simp_all add: merge_spec_def merge_specs_def)

text \<open>What a row import does to the tables: nothing, or one write to its own table.\<close>

lemma import_row_tables:
  assumes "import_row sq mode preserve translate t writable br st = Inr st'"
  obtains (Skipped) "is_tables st' = is_tables st"
  | (Written) r rows where "is_tables st' = (is_tables st)(t := rows)"
      and "execute_row_insert sq t writable (ms_natural_key (merge_spec t)) r
             (if translate then Mode_Merge else mode) (is_tables st t) = Inr rows"
      and "if translate then translate_fks (is_ids st) (ms_fks (merge_spec t)) br = Inr r else r = br"
      and "\<not> (is_admin_row t br \<and> preserve)" and "\<not> (t = ''settings'' \<and> blocked_setting br)"
proof (cases "is_admin_row t br \<and> preserve \<or> t = ''settings'' \<and> blocked_setting br")
  case True
  then have "is_tables st' = is_tables st"
    using assms by (auto simp: import_row_def Let_def dest!: note_id_tables split: if_splits)
  then show ?thesis by (rule Skipped)
next
  case False
  then obtain r rows where r: "(if translate then translate_fks (is_ids st) (ms_fks (merge_spec t)) br else Inr br) = Inr r"
    and ex: "execute_row_insert sq t writable (ms_natural_key (merge_spec t)) r
        (if translate then Mode_Merge else mode) (is_tables st t) = Inr rows"
    and st': "(let st1 = count t (\<lambda>c. c\<lparr>tc_inserted := tc_inserted c + 1\<rparr>)
                 (st\<lparr>is_tables := (is_tables st)(t := rows)\<rparr>)
         in if translate then note_id sq t (merge_spec t) br r st1 else Inr st1) = Inr st'"
    using assms unfolding import_row_def Let_def by (auto split: sum.splits if_splits)
  have "is_tables st' = (is_tables st)(t := rows)"
    using st' by (auto simp: Let_def dest!: note_id_tables split: if_splits)
  then show ?thesis
    by (rule Written [OF _ ex]) (use r False in \<open>auto split: if_splits\<close>)
qed

text \<open>The secrets are kept, and the administrator if he is preserved.\<close>

definition keeps :: "bool \<Rightarrow> tables \<Rightarrow> tables \<Rightarrow> bool" where
  "keeps admin db db' \<longleftrightarrow>
     secret_rows db' = secret_rows db \<and> (admin \<longrightarrow> admin_rows db' = admin_rows db)"

lemma keeps_refl [simp]: "keeps admin db db"
  by (simp add: keeps_def)

lemma keeps_trans [trans]: "keeps admin db db1 \<Longrightarrow> keeps admin db1 db2 \<Longrightarrow> keeps admin db db2"
  by (simp add: keeps_def)

lemma import_row_keeps:
  assumes "import_row sq mode preserve translate t writable br st = Inr st'" and "plain_defaults sq"
  shows "keeps (preserve \<and> translate) (is_tables st) (is_tables st')"
  using assms(1)
proof (cases rule: import_row_tables)
  case (Written r rows)
  note kept = execute_keeps_rows [OF Written(2)]
  have "secret_rows (is_tables st') = secret_rows (is_tables st)"
  proof (cases "t = ''settings''")
    case True
    with Written(3,5) have "cell r ''key'' \<noteq> CText ''session_secret''"
      by (auto simp: merge_spec_simps merge_spec_of_def blocked_setting_def settings_keys_never_exported_def cell_def
          split: option.splits if_splits)
    from kept [OF _ this] assms(2) True show ?thesis
      by (simp add: secret_rows_def Written(1) plain_defaults_def merge_spec_simps merge_spec_of_def)
  qed (simp add: secret_rows_def Written(1))
  moreover have "admin_rows (is_tables st') = admin_rows (is_tables st)" if p: "preserve" "translate"
  proof (cases "t = ''users''")
    case True
    have "map_of r ''username'' = map_of br ''username''"
      by (rule translate_fks_cell [of "is_ids st" "ms_fks (merge_spec t)"])
         (use Written(3) p True in \<open>simp_all add: merge_spec_simps merge_spec_of_def\<close>)
    with Written(4) p True have "cell r ''username'' \<noteq> CText ''admin''"
      by (auto simp: is_admin_row_def cell_def split: option.splits)
    from kept [OF _ this] assms(2) True show ?thesis
      by (simp add: admin_rows_def Written(1) plain_defaults_def merge_spec_simps merge_spec_of_def)
  qed (simp add: admin_rows_def Written(1))
  ultimately show ?thesis by (simp add: keeps_def)
qed simp

lemma import_rows_keeps:
  assumes "plain_defaults sq"
  shows "import_rows sq mode preserve translate t writable brs st = Inr st'
    \<Longrightarrow> keeps (preserve \<and> translate) (is_tables st) (is_tables st')"
proof (induction brs arbitrary: st)
  case (Cons br brs)
  then obtain st1 where "import_row sq mode preserve translate t writable br st = Inr st1"
    and "import_rows sq mode preserve translate t writable brs st1 = Inr st'"
    by (auto split: sum.splits)
  with import_row_keeps [OF _ assms] Cons.IH show ?case by (blast intro: keeps_trans)
qed simp

lemma wipe_table_keeps:
  assumes "wipe_table sq t preserve st = Inr st'" and "preserve \<or> t \<noteq> ''users'' \<or> \<not> admin"
  shows "keeps admin (is_tables st) (is_tables st')"
proof -
  have st': "is_tables st' = (is_tables st)(t := filter (wipe_keeps (is_tables st) t preserve) (is_tables st t))"
    using assms by (auto simp: wipe_table_def Let_def split: option.splits)
  have "secret_rows (is_tables st') = secret_rows (is_tables st)"
    by (auto simp: st' secret_rows_def wipe_keeps_def settings_keys_never_exported_def intro!: filter_cong)
  moreover have "admin \<Longrightarrow> admin_rows (is_tables st') = admin_rows (is_tables st)"
    using assms(2) by (auto simp: st' admin_rows_def wipe_keeps_def intro!: filter_cong)
  ultimately show ?thesis by (simp add: keeps_def)
qed

lemma wipe_tables_keeps:
  "wipe_tables sq ts preserve st = Inr st' \<Longrightarrow> keeps preserve (is_tables st) (is_tables st')"
proof (induction ts arbitrary: st)
  case (Cons t ts)
  then obtain st1 where "wipe_table sq t preserve st = Inr st1" and "wipe_tables sq ts preserve st1 = Inr st'"
    by (auto split: sum.splits)
  with wipe_table_keeps [of sq t preserve st st1 preserve] Cons.IH show ?case by (blast intro: keeps_trans)
qed simp

lemma import_table_keeps:
  assumes "import_table sq mode preserve translate plans b t st = Inr st'" and "plain_defaults sq"
  shows "keeps (preserve \<and> translate) (is_tables st) (is_tables st')"
proof (cases "\<exists>plan rows. map_of plans t = Some plan \<and> map_of (bu_tables b) t = Some rows")
  case True
  then obtain plan rows st1 where
    w: "(if mode = Mode_Merge \<and> t \<in> set tables_wiped_even_in_merge then wipe_table sq t False st else Inr st) = Inr st1"
    and r: "import_rows sq mode preserve translate t (writable_columns translate (merge_spec t) plan) rows
      (count t (\<lambda>c. c) st1) = Inr st'"
    using assms(1) by (auto simp: import_table_def split: sum.splits)
  have "keeps (preserve \<and> translate) (is_tables st) (is_tables st1)"
    using w wipe_table_keeps [of sq t False st st1 "preserve \<and> translate"]
    by (auto simp: tables_wiped_even_in_merge_def split: if_splits)
  with import_rows_keeps [OF assms(2) r] show ?thesis by (auto intro: keeps_trans)
qed (use assms(1) in \<open>auto simp: import_table_def split: option.splits\<close>)

lemma import_tables_keeps:
  assumes "plain_defaults sq"
  shows "import_tables sq mode preserve translate plans b ts st = Inr st'
    \<Longrightarrow> keeps (preserve \<and> translate) (is_tables st) (is_tables st')"
proof (induction ts arbitrary: st)
  case (Cons t ts)
  then obtain st1 where "import_table sq mode preserve translate plans b t st = Inr st1"
    and "import_tables sq mode preserve translate plans b ts st1 = Inr st'"
    by (auto split: sum.splits)
  with import_table_keeps [OF _ assms] Cons.IH show ?case by (blast intro: keeps_trans)
qed simp

text \<open>The phases of \<open>apply_tables\<close>.\<close>

abbreviation first_state :: "tables \<Rightarrow> import_state" where
  "first_state db \<equiv> \<lparr>is_tables = db, is_ids = (\<lambda>_. Map.empty), is_counts = []\<rparr>"

lemma apply_tables_cases:
  assumes "apply_tables sq args plans b db = Inr st"
  obtains preserve st1 where "preserve \<longleftrightarrow> \<not> ia_overwrite_admin args \<and> has_local_admin db"
    and "(if ia_mode args = Mode_Restore then wipe_tables sq table_delete_order_restore preserve (first_state db)
          else Inr (first_state db)) = Inr st1"
    and "import_tables sq (ia_mode args) preserve (ia_mode args = Mode_Merge \<or> preserve) plans b
          table_insert_order st1 = Inr st"
proof -
  obtain preserve st1 where p: "preserve \<longleftrightarrow> \<not> ia_overwrite_admin args \<and> has_local_admin db"
    and w: "(if ia_mode args = Mode_Restore then wipe_tables sq table_delete_order_restore preserve (first_state db)
          else Inr (first_state db)) = Inr st1"
    and i: "import_tables sq (ia_mode args) preserve
              (ia_mode args = Mode_Merge \<or> (ia_mode args = Mode_Restore \<and> preserve)) plans b table_insert_order st1 = Inr st"
    using assms unfolding apply_tables_def Let_def
    by (cases "ia_overwrite_admin args") (auto split: sum.splits option.splits)
  have eq: "(ia_mode args = Mode_Merge \<or> (ia_mode args = Mode_Restore \<and> preserve)) = (ia_mode args = Mode_Merge \<or> preserve)"
    by (cases "ia_mode args") simp_all
  show thesis
    by (rule that [OF p w]) (use i in \<open>simp only: eq\<close>)
qed

lemma apply_tables_keeps:
  assumes "apply_tables sq args plans b db = Inr st" and "plain_defaults sq"
  shows "keeps (\<not> ia_overwrite_admin args \<and> has_local_admin db) db (is_tables st)"
  using assms(1)
proof (cases rule: apply_tables_cases)
  case (1 preserve st1)
  have "keeps preserve db (is_tables st1)"
    using 1(2) wipe_tables_keeps [of sq table_delete_order_restore preserve "first_state db" st1]
    by (auto split: if_splits)
  moreover have "keeps preserve (is_tables st1) (is_tables st)"
    using import_tables_keeps [OF assms(2) 1(3)] by (auto simp: keeps_def)
  ultimately show ?thesis using 1(1) by (auto intro: keeps_trans)
qed

text \<open>What a committed import went through.\<close>

lemma apply_bundle_cases:
  assumes "apply_bundle sq b args db = (r, db')"
  obtains (Unchanged) "db' = db" and "ia_dry_run args \<or> (\<exists>e. r = Inl e)"
  | (Committed) plans warnings st where "build_plans sq b table_insert_order = Inr (plans, warnings)"
      and "apply_tables sq args plans b db = Inr st" and "db' = is_tables st" and "\<exists>s. r = Inr s"
      and "sq_references sq db' = None" and "\<not> ia_dry_run args"
  using assms unfolding apply_bundle_def Let_def
  by (auto split: option.splits sum.splits prod.splits if_splits)

text \<open>
  The operator keeps control of the installation: an import, merging or restoring, whatever the bundle
  holds, leaves every row of the session secret exactly as it was, and, unless \<open>--overwrite-admin\<close> is given,
  the row of the local administrator with all its columns; no second administrator of that name appears.
  (No column default may be the name of either.)
\<close>

theorem import_preserves_local_admin:
  assumes "apply_bundle sq b args db = (r, db')" and "plain_defaults sq"
  shows "secret_rows db' = secret_rows db
    \<and> (\<not> ia_overwrite_admin args \<longrightarrow> has_local_admin db \<longrightarrow> admin_rows db' = admin_rows db)"
  using assms(1)
proof (cases rule: apply_bundle_cases)
  case (Committed plans warnings st)
  with apply_tables_keeps [OF Committed(2) assms(2)] show ?thesis by (simp add: keeps_def)
qed simp

definition sample_column :: "string \<Rightarrow> string \<Rightarrow> i64 \<Rightarrow> pragma_row" where
  "sample_column name ty pk =
     \<lparr>pg_cid = 0, pg_name = name, pg_type = ty, pg_notnull = 1, pg_dflt_value = None, pg_pk = pk\<rparr>"

definition sample_columns :: "string \<Rightarrow> pragma_row list" where
  "sample_columns t =
     (if t = ''users''
      then [sample_column ''id'' ''INTEGER'' 1, sample_column ''username'' ''TEXT'' 0, sample_column ''policy_id'' ''INTEGER'' 0]
      else if t = ''policies'' then [sample_column ''id'' ''INTEGER'' 1, sample_column ''name'' ''TEXT'' 0] else [])"

definition sample_sqlite :: sqlite where
  "sample_sqlite =
     \<lparr>sq_pragma = sample_columns,
      sq_unique = (\<lambda>t. if t = ''users'' then [[''id''], [''username'']] else [[''id''], [''name'']]),
      sq_default = (\<lambda>_ _. CNull), sq_new_id = (\<lambda>_ rows. int (length rows) + 1), sq_refuse = (\<lambda>_ _. None),
      sq_constraint = (\<lambda>t. SqlxError (''UNIQUE constraint failed: '' @ t)), sq_references = (\<lambda>_. None),
      sq_io = (\<lambda>_. None)\<rparr>"

definition sample_user :: "i64 \<Rightarrow> string \<Rightarrow> i64 \<Rightarrow> row" where
  "sample_user i name policy = [(''id'', CInteger i), (''username'', CText name), (''policy_id'', CInteger policy)]"

definition sample_policy :: "i64 \<Rightarrow> string \<Rightarrow> row" where
  "sample_policy i name = [(''id'', CInteger i), (''name'', CText name)]"

definition sample_schema :: "string \<Rightarrow> TableSchema" where
  "sample_schema t = \<lparr>ts_columns = map column_of_pragma (sample_columns t), ts_pk = [''id'']\<rparr>"

text \<open>A bundle with the administrator and another user, whose policy has another id here.\<close>

definition sample_bundle :: Bundle where
  "sample_bundle =
     \<lparr>bu_version = 1, bu_produced_at = ''now'', bu_clewdr_version = ''1.0.0'',
      bu_schema = [(''policies'', sample_schema ''policies''), (''users'', sample_schema ''users'')],
      bu_config_toml = [],
      bu_tables = [(''policies'', [sample_policy 1 ''team'']),
                   (''users'', [sample_user 1 ''admin'' 1, sample_user 2 ''bob'' 1])],
      bu_skipped = []\<rparr>"

definition sample_tables :: tables where
  "sample_tables =
     (\<lambda>_. [])(''policies'' := [sample_policy 1 ''default''], ''users'' := [sample_user 7 ''admin'' 1])"

definition sample_import_args :: import_args where
  "sample_import_args =
     \<lparr>ia_mode = Mode_Merge, ia_yes = False, ia_overwrite_admin = False, ia_dry_run = False, ia_force = False,
      ia_passphrase_stdin = False\<rparr>"

lemmas sample_import_defs = sample_column_def sample_columns_def sample_sqlite_def sample_user_def sample_policy_def
  sample_schema_def sample_bundle_def sample_tables_def sample_import_args_def

lemma sample_import_users:
  "\<exists>s db'. apply_bundle sample_sqlite sample_bundle sample_import_args sample_tables = (Inr s, db')
     \<and> db' ''users'' = [sample_user 7 ''admin'' 1, sample_user 2 ''bob'' 2]
     \<and> db' ''policies'' = [sample_policy 1 ''default'', sample_policy 2 ''team'']"
  by (simp add: sample_import_defs apply_bundle_def table_insert_order_def read_table_schema_def column_of_pragma_def
      plan_build_def apply_tables_def has_local_admin_def cell_def import_table_def import_row_def Let_def merge_spec_def
      merge_specs_def merge_spec_of_def is_admin_row_def note_id_def capture_local_id_def same_key_def count_def
      execute_row_insert_def writable_columns_def sql_upsert_def stored_row_def rowid_column_def List.extract_def
      violates_def upsert_updates_def translate_fk_def tables_wiped_even_in_merge_def)

theorem import_preserves_local_admin_witness:
  "\<exists>s db'. apply_bundle sample_sqlite sample_bundle sample_import_args sample_tables = (Inr s, db')
     \<and> plain_defaults sample_sqlite \<and> length (db' ''users'') = 2
     \<and> admin_rows db' = [sample_user 7 ''admin'' 1]"
proof -
  obtain s db' where a: "apply_bundle sample_sqlite sample_bundle sample_import_args sample_tables = (Inr s, db')"
    and "db' ''users'' = [sample_user 7 ''admin'' 1, sample_user 2 ''bob'' 2]"
    using sample_import_users by blast
  moreover have d: "plain_defaults sample_sqlite" by (simp add: plain_defaults_def sample_sqlite_def)
  moreover have "\<not> ia_overwrite_admin sample_import_args" "has_local_admin sample_tables"
    and "admin_rows sample_tables = [sample_user 7 ''admin'' 1]"
    by (simp_all add: sample_import_defs has_local_admin_def admin_rows_def cell_def)
  ultimately show ?thesis
    using import_preserves_local_admin [OF a d] by (auto simp del: length_0_conv)
qed

section \<open>All or nothing\<close>

text \<open>
  An import is all or nothing: a dry run changes nothing; if the tables or the configuration file changed,
  then the file was read, its version accepted, no secret was missing, a restore was confirmed, every
  table was written and the references held at the commit; and if the command reports an error although
  the tables changed, the error is that of writing the configuration file, which comes last.
\<close>

theorem failed_import_changes_nothing:
  assumes "import_run env cf tm sq fw opened args db config = (r, db', config')"
  shows "(ia_dry_run args \<longrightarrow> db' = db \<and> config' = config)
    \<and> (db' \<noteq> db \<or> config' \<noteq> config \<longrightarrow>
        (\<exists>raw b plans warnings st. ie_read env = Inr raw \<and> parse_bundle env cf tm raw (ia_passphrase_stdin args) = Inr b
           \<and> check_version_compatibility env b (ia_force args) = Inr () \<and> detect_redacted_bundle b = Inr ()
           \<and> (ia_mode args = Mode_Restore \<longrightarrow> ia_yes args)
           \<and> build_plans sq b table_insert_order = Inr (plans, warnings)
           \<and> apply_tables sq args plans b db = Inr st \<and> db' = is_tables st \<and> sq_references sq db' = None
           \<and> (\<forall>e. r = Inl e \<longrightarrow> fst (restore_config_toml fw (bu_config_toml b) config) = Inl e)))"
proof (cases "\<exists>raw b. \<not> ie_no_fs env \<and> \<not> (ia_mode args = Mode_Restore \<and> \<not> ia_yes args) \<and> ie_read env = Inr raw
    \<and> parse_bundle env cf tm raw (ia_passphrase_stdin args) = Inr b
    \<and> check_version_compatibility env b (ia_force args) = Inr () \<and> detect_redacted_bundle b = Inr () \<and> opened = Inr ()")
  case True
  then obtain raw b where ok: "\<not> ie_no_fs env" "\<not> (ia_mode args = Mode_Restore \<and> \<not> ia_yes args)" "ie_read env = Inr raw"
      "parse_bundle env cf tm raw (ia_passphrase_stdin args) = Inr b"
      "check_version_compatibility env b (ia_force args) = Inr ()" "detect_redacted_bundle b = Inr ()" "opened = Inr ()"
    by blast
  obtain q db1 where ap: "apply_bundle sq b args db = (q, db1)" by fastforce
  have run: "import_run env cf tm sq fw opened args db config
      = (case (q, db1) of (Inl e, db') \<Rightarrow> (Inl e, db', config)
         | (Inr summary, db') \<Rightarrow>
             if \<not> ia_dry_run args \<and> trim (bu_config_toml b) \<noteq> []
             then (case restore_config_toml fw (bu_config_toml b) config of
                     (Inl e, config', _) \<Rightarrow> (Inl e, db', config')
                   | (Inr _, config', _) \<Rightarrow> (Inr summary, db', config'))
             else (Inr summary, db', config))"
    unfolding import_run_def using ok ap by auto
  from ap show ?thesis
  proof (cases rule: apply_bundle_cases)
    case Unchanged
    then have "db' = db \<and> config' = config"
      using assms run by (cases q) (auto split: if_splits)
    then show ?thesis by blast
  next
    case (Committed plans warnings st)
    then have "db' = db1"
      using assms run by (auto split: if_splits sum.splits prod.splits)
    moreover have "fst (restore_config_toml fw (bu_config_toml b) config) = Inl e" if "r = Inl e" for e
      using assms run Committed(4) that by (auto split: if_splits sum.splits prod.splits)
    ultimately show ?thesis using ok Committed by blast
  qed
next
  case False
  then have "db' = db \<and> config' = config"
    using assms unfolding import_run_def by (auto split: if_splits sum.splits)
  then show ?thesis by blast
qed

definition sample_import_env :: import_env where
  "sample_import_env =
     \<lparr>ie_no_fs = False, ie_read = Inr ''{}'', ie_json_parse = (\<lambda>_. Inr (bundle_json (\<lambda>x. x) sample_bundle)),
      ie_unb64 = Inr, ie_semver = (\<lambda>_. Some (1, 0)), ie_version = ''1.0.0''\<rparr>"

definition sample_terminal :: terminal where
  "sample_terminal = \<lparr>tm_line = Inr ''pw'', tm_is_tty = False, tm_prompt = Inr [], tm_confirm = Inr []\<rparr>"

definition sample_files :: file_outcomes where
  "sample_files = \<lparr>fw_rename = None, fw_mkdir = None, fw_write = None\<rparr>"

lemma sample_bundle_parsed:
  "parse_bundle sample_import_env tagging_cipher sample_terminal ''{}'' False = Inr sample_bundle"
proof -
  have "bundle_ok sample_bundle"
    by (simp add: bundle_ok_def sample_bundle_def row_ok_def sample_policy_def sample_user_def is_i64_def i64_min_def i64_max_def)
  then have "bundle_of_json Inr (bundle_json (\<lambda>x. x) sample_bundle) = Inr sample_bundle"
    by (intro bundle_roundtrip) simp_all
  then show ?thesis
    by (simp add: parse_bundle_def parse_plaintext_bundle_def sample_import_env_def encrypted_bundle_magic_def
        bundle_version_def sample_bundle_def)
qed

theorem failed_import_changes_nothing_witness:
  "\<exists>s db' raw b plans st. import_run sample_import_env tagging_cipher sample_terminal sample_sqlite sample_files (Inr ())
       sample_import_args sample_tables None = (Inr s, db', None)
     \<and> length (db' ''users'') = 2 \<and> parse_bundle sample_import_env tagging_cipher sample_terminal raw False = Inr b
     \<and> apply_tables sample_sqlite sample_import_args plans b sample_tables = Inr st \<and> db' = is_tables st"
proof -
  obtain s db' where a: "apply_bundle sample_sqlite sample_bundle sample_import_args sample_tables = (Inr s, db')"
    and u: "db' ''users'' = [sample_user 7 ''admin'' 1, sample_user 2 ''bob'' 2]"
    using sample_import_users by blast
  have r: "import_run sample_import_env tagging_cipher sample_terminal sample_sqlite sample_files (Inr ())
      sample_import_args sample_tables None = (Inr s, db', None)"
    using sample_bundle_parsed a
    by (simp add: import_run_def sample_import_env_def sample_import_args_def check_version_compatibility_def
        parse_clewdr_version_def sample_bundle_def detect_redacted_bundle_def first_redacted_def redacted_user_def
        sample_user_def map_filter_def trim_def trim_end_def trim_start_def)
  have "db' \<noteq> sample_tables" using u by (auto simp: sample_tables_def sample_user_def)
  with failed_import_changes_nothing [OF r] obtain raw b plans st where
    "parse_bundle sample_import_env tagging_cipher sample_terminal raw (ia_passphrase_stdin sample_import_args) = Inr b"
    "apply_tables sample_sqlite sample_import_args plans b sample_tables = Inr st" "db' = is_tables st" by blast
  moreover have "\<not> ia_passphrase_stdin sample_import_args" "length (db' ''users'') = 2"
    by (simp_all add: sample_import_args_def u)
  ultimately show ?thesis using r by auto
qed

section \<open>Bundles without secrets\<close>

lemma first_redacted_None:
  "first_redacted b t f = None \<longleftrightarrow> (\<forall>rows. map_of (bu_tables b) t = Some rows \<longrightarrow> (\<forall>r \<in> set rows. f r = None))"
proof -
  have "List.map_filter f rows = [] \<longleftrightarrow> (\<forall>r \<in> set rows. f r = None)" for rows
    by (induction rows) (auto simp: map_filter_simps split: option.splits)
  then show ?thesis
  proof (cases "map_of (bu_tables b) t")
    case (Some rows)
    have "first_redacted b t f = None \<longleftrightarrow> List.map_filter f rows = []"
      by (simp add: first_redacted_def Some split: list.splits)
    also have "\<dots> \<longleftrightarrow> (\<forall>r \<in> set rows. f r = None)" by fact
    finally show ?thesis by (simp add: Some)
  qed (simp add: first_redacted_def)
qed

lemma detect_accepts_iff:
  "detect_redacted_bundle b = Inr () \<longleftrightarrow>
     first_redacted b ''accounts'' redacted_account = None \<and> first_redacted b ''api_keys'' redacted_api_key = None
     \<and> first_redacted b ''users'' redacted_user = None"
  by (simp add: detect_redacted_bundle_def split: option.splits)

lemma build_bundle_rows:
  assumes "build_bundle env args = Inr b" and "t \<in> set default_tables"
  obtains src where "source_rows env t = Inr src" and "map_of (bu_tables b) t = Some (export_rows args t src)"
proof -
  obtain schemas tables where ts: "export_tables env args (tables_to_export args) ([], []) = Inr (schemas, tables)"
    and b: "bu_tables b = tables"
    using assms(1) by (auto simp: build_bundle_def Let_def split: option.splits sum.splits)
  from export_tables_rows [OF ts, of t] assms(2) that b show thesis
    by (auto simp: tables_to_export_def)
qed

text \<open>The rows that cannot be restored without their secrets, and rows that have them.\<close>

definition needs_secret :: "string \<Rightarrow> row \<Rightarrow> bool" where
  "needs_secret t r \<longleftrightarrow>
     (t = ''accounts'' \<and> map_of r ''auth_source'' \<in> Some ` CText ` {''cookie'', ''oauth'', ''api_key''})
     \<or> t = ''api_keys'' \<or> (t = ''users'' \<and> map_of r ''role'' = Some (CText ''admin''))"

definition has_secret :: "string \<Rightarrow> row \<Rightarrow> bool" where
  "has_secret t r \<longleftrightarrow>
     (if t = ''accounts''
      then (map_of r ''auth_source'' = Some (CText ''cookie'') \<longrightarrow> \<not> null_or_missing r ''cookie_blob'')
         \<and> (map_of r ''auth_source'' = Some (CText ''oauth'') \<longrightarrow>
              \<not> null_or_missing r ''oauth_access_token'' \<and> \<not> null_or_missing r ''oauth_refresh_token'')
         \<and> (map_of r ''auth_source'' = Some (CText ''api_key'') \<longrightarrow>
              \<not> null_or_missing r ''api_key_secret'' \<and> \<not> null_or_missing r ''api_key_base_url'')
      else if t = ''api_keys'' then \<not> null_or_missing r ''key_hash''
      else t = ''users'' \<longrightarrow> map_of r ''role'' = Some (CText ''admin'') \<longrightarrow> \<not> null_or_missing r ''password_hash'')"

lemma redacted_iff:
  "redacted_account r = None \<longleftrightarrow> has_secret ''accounts'' r"
  "redacted_api_key r = None \<longleftrightarrow> has_secret ''api_keys'' r"
  "redacted_user r = None \<longleftrightarrow> has_secret ''users'' r"
  by (auto simp: redacted_account_def redacted_api_key_def redacted_user_def has_secret_def
      split: option.splits CellValue.splits)

lemma has_secret_redacted: "has_secret t (redact_row (secret_columns_for t) r) \<longleftrightarrow> \<not> needs_secret t r"
proof -
  let ?r = "redact_row (secret_columns_for t) r"
  have null: "null_or_missing ?r c" if "c \<in> set (secret_columns_for t)" for c
    using that by (cases "map_of r c") (simp_all add: null_or_missing_def map_of_redact_row)
  have kept: "map_of ?r c = map_of r c" if "c \<notin> set (secret_columns_for t)" for c
    using that by (simp add: map_of_redact_row)
  consider "t = ''accounts''" | "t = ''api_keys''" | "t = ''users''" | "t \<notin> {''accounts'', ''api_keys'', ''users''}"
    by blast
  then show ?thesis
  proof cases
    case 1
    have "null_or_missing ?r ''cookie_blob''" "null_or_missing ?r ''oauth_access_token''"
      "null_or_missing ?r ''api_key_secret''" "map_of ?r ''auth_source'' = map_of r ''auth_source''"
      by (rule null kept; simp add: 1 secret_columns_for_def)+
    then show ?thesis by (auto simp: 1 has_secret_def needs_secret_def)
  next
    case 2
    have "null_or_missing ?r ''key_hash''" by (rule null) (simp add: 2 secret_columns_for_def)
    then show ?thesis by (simp add: 2 has_secret_def needs_secret_def)
  next
    case 3
    have "null_or_missing ?r ''password_hash''" "map_of ?r ''role'' = map_of r ''role''"
      by (rule null kept; simp add: 3 secret_columns_for_def)+
    then show ?thesis by (simp add: 3 has_secret_def needs_secret_def)
  next
    case 4
    then show ?thesis by (simp add: has_secret_def needs_secret_def)
  qed
qed

text \<open>
  The check of a bundle for removed secrets answers exactly the question it is for: the bundle of an export
  with \<open>--no-secrets\<close> is refused if and only if the exported database has a cookie, OAuth or key account, an
  API key or an administrator; and the bundle of an export with secrets is accepted if and only if every
  such row has its secrets, which the constraints of the tables demand.
\<close>

theorem redacted_bundle_refused:
  assumes "build_bundle env args = Inr b"
  shows "detect_redacted_bundle b = Inr () \<longleftrightarrow>
    (\<forall>t \<in> {''accounts'', ''api_keys'', ''users''}. \<forall>src. source_rows env t = Inr src \<longrightarrow>
       (\<forall>r \<in> set src. if ea_no_secrets args then \<not> needs_secret t r else has_secret t r))"
proof -
  have "(\<forall>rows. map_of (bu_tables b) t = Some rows \<longrightarrow> (\<forall>r \<in> set rows. has_secret t r))
      \<longleftrightarrow> (\<forall>src. source_rows env t = Inr src \<longrightarrow>
            (\<forall>r \<in> set src. if ea_no_secrets args then \<not> needs_secret t r else has_secret t r))"
    if t: "t \<in> {''accounts'', ''api_keys'', ''users''}" for t
  proof -
    obtain src where src: "source_rows env t = Inr src" and m: "map_of (bu_tables b) t = Some (export_rows args t src)"
    proof -
      have "t \<in> set default_tables" using t by (elim insertE; simp add: default_tables_def)
      from build_bundle_rows [OF assms this] that show thesis by blast
    qed
    have "t \<noteq> ''settings''" "secret_columns_for t \<noteq> []"
      using t by (elim insertE; simp add: secret_columns_for_def)+
    then have "export_rows args t src
        = (if ea_no_secrets args then map (redact_row (secret_columns_for t)) src else src)"
      by (simp add: export_rows_def redacted_rows)
    then show ?thesis by (auto simp: m src has_secret_redacted)
  qed
  then show ?thesis
    by (simp add: detect_accepts_iff first_redacted_None redacted_iff)
qed

definition sample_admin_export :: "string export_env" where
  "sample_admin_export = sample_export\<lparr>ee_select := (\<lambda>t. Inr (if t = ''users''
     then [[(''name'', sample_raw ''TEXT'' ''admin''), (''role'', sample_raw ''TEXT'' ''admin''),
            (''password_hash'', sample_raw ''TEXT'' ''h'')]] else []))\<rparr>"

lemma sample_admin_built:
  "\<exists>b. build_bundle sample_admin_export sample_export_args = Inr b"
  "source_rows sample_admin_export ''users''
     = Inr [[(''name'', CText ''admin''), (''role'', CText ''admin''), (''password_hash'', CText ''h'')]]"
  by (simp_all add: source_rows_def build_bundle_def sample_admin_export_def sample_export_def sample_export_args_def sample_raw_def
      tables_to_export_def default_tables_def read_table_schema_def read_cell_def Let_def declare_columns_def
      column_of_pragma_def ascii_upper_def is_ascii_lower_def sanitize_toml_for_no_secrets_def)

theorem redacted_bundle_refused_witness:
  "\<exists>b. build_bundle sample_admin_export sample_export_args = Inr b \<and> detect_redacted_bundle b \<noteq> Inr ()"
proof -
  obtain b where b: "build_bundle sample_admin_export sample_export_args = Inr b"
    using sample_admin_built(1) by blast
  have "needs_secret ''users'' [(''name'', CText ''admin''), (''role'', CText ''admin''), (''password_hash'', CText ''h'')]"
    "ea_no_secrets sample_export_args"
    by (simp_all add: needs_secret_def sample_export_args_def)
  with redacted_bundle_refused [OF b] sample_admin_built(2) b show ?thesis by auto
qed

section \<open>Files are read back\<close>

lemma read_cell_integer: "read_cell c = Inr (CInteger i) \<Longrightarrow> rc_i64 c = Inr i"
proof -
  have pick: "x = Inr i"
    if "(if n then Inr CNull else if p1 then map_sum id CInteger x
         else if p2 then (case x of Inr i \<Rightarrow> Inr (CInteger i) | Inl _ \<Rightarrow> map_sum id CReal f)
         else if p3 then map_sum id CText t else if p4 then map_sum id CBlob b
         else case t of Inr s \<Rightarrow> Inr (CText s) | Inl _ \<Rightarrow> map_sum id CBlob b) = Inr (CInteger i)"
    for n p1 p2 p3 p4 :: bool and x :: "ClewdrError + i64" and f :: "ClewdrError + f64"
      and t b :: "ClewdrError + string"
    using that by (cases x; cases f; cases t; cases b) (auto split: if_splits)
  assume "read_cell c = Inr (CInteger i)"
  then show ?thesis unfolding read_cell_def Let_def by (rule pick)
qed

lemma read_cells_ok:
  "read_cells cols cells = Inr r \<Longrightarrow> row_ok cells
    \<Longrightarrow> (\<forall>(n, c) \<in> set cols. \<forall>i. rc_i64 c = Inr i \<longrightarrow> is_i64 i) \<Longrightarrow> row_ok r"
proof (induction cols arbitrary: cells)
  case (Cons nc cols)
  obtain n c where nc: "nc = (n, c)" by fastforce
  obtain v where v: "read_cell c = Inr v" and rest: "read_cells cols (hm_insert n v cells) = Inr r"
    using Cons.prems(1) by (auto simp: nc split: sum.splits)
  have "cell_ok v"
    using v Cons.prems(3) read_cell_integer by (cases v) (auto simp: nc)
  then have "row_ok (hm_insert n v cells)"
    using Cons.prems(2) by (auto simp: row_ok_def set_hm_insert)
  from Cons.IH [OF rest this] Cons.prems(3) show ?case by (simp add: nc)
qed simp

lemma declare_columns_ok: "row_ok r \<Longrightarrow> row_ok (declare_columns cols r)"
proof (induction cols arbitrary: r)
  case (Cons c cols)
  have "row_ok (hm_insert (ci_name c) CNull r)"
    using Cons.prems by (auto simp: row_ok_def set_hm_insert)
  with Cons show ?case by (simp add: declare_columns_def)
qed (simp add: declare_columns_def)

definition driver_ok :: "'t export_env \<Rightarrow> bool" where
  "driver_ok env \<longleftrightarrow> (\<forall>t raws r n c i. ee_select env t = Inr raws \<longrightarrow> r \<in> set raws \<longrightarrow> (n, c) \<in> set r
     \<longrightarrow> rc_i64 c = Inr i \<longrightarrow> is_i64 i)"

lemma read_table_rows_ok:
  "read_table_rows raws schema = Inr rows
    \<Longrightarrow> (\<forall>r \<in> set raws. \<forall>(n, c) \<in> set r. \<forall>i. rc_i64 c = Inr i \<longrightarrow> is_i64 i) \<Longrightarrow> \<forall>r \<in> set rows. row_ok r"
proof (induction raws arbitrary: rows)
  case (Cons raw raws)
  obtain cells rest where c: "read_cells raw [] = Inr cells" and r: "read_table_rows raws schema = Inr rest"
    and rows: "rows = declare_columns (ts_columns schema) cells # rest"
    using Cons.prems(1) by (auto split: sum.splits)
  have "row_ok []" by (simp add: row_ok_def)
  from read_cells_ok [OF c this] Cons.prems(2) have "row_ok cells" by simp
  with Cons.IH [OF r] Cons.prems(2) show ?case by (simp add: rows declare_columns_ok)
qed simp

lemma redact_row_ok: "row_ok r \<Longrightarrow> row_ok (redact_row cols r)"
proof (induction cols arbitrary: r)
  case (Cons c cols)
  have "row_ok (hm_insert c CNull r)"
    using Cons.prems by (auto simp: row_ok_def set_hm_insert)
  with Cons show ?case by (simp add: redact_row_def split: option.splits)
qed (simp add: redact_row_def)

lemma export_rows_ok: "\<forall>r \<in> set rows. row_ok r \<Longrightarrow> \<forall>r \<in> set (export_rows args t rows). row_ok r"
  by (auto simp: export_rows_def Let_def redacted_rows drop_blocked_settings_rows_def intro!: redact_row_ok)

lemma export_tables_ok:
  assumes "driver_ok env"
  shows "export_tables env args ts (schemas, tables) = Inr (schemas', tables') \<Longrightarrow> hm_wf schemas \<Longrightarrow> hm_wf tables
    \<Longrightarrow> (\<forall>(t, rows) \<in> set tables. \<forall>r \<in> set rows. row_ok r)
    \<Longrightarrow> hm_wf schemas' \<and> hm_wf tables' \<and> (\<forall>(t, rows) \<in> set tables'. \<forall>r \<in> set rows. row_ok r)"
proof (induction ts arbitrary: schemas tables)
  case (Cons u ts)
  from Cons.prems(1) obtain schema rows raws where
    sel: "ee_select env u = Inr raws" and rows: "read_table_rows raws schema = Inr rows"
    and more: "export_tables env args ts
      (hm_insert u schema schemas, hm_insert u (export_rows args u rows) tables) = Inr (schemas', tables')"
    by (auto split: sum.splits)
  have "\<forall>r \<in> set rows. row_ok r"
    using assms sel by (intro read_table_rows_ok [OF rows]) (auto simp: driver_ok_def)
  note export_rows_ok [OF this, of args u]
  then have "\<forall>(t, rows) \<in> set (hm_insert u (export_rows args u rows) tables). \<forall>r \<in> set rows. row_ok r"
    using Cons.prems(3,4) by (auto simp: set_hm_insert)
  with Cons.IH [OF more] Cons.prems(2,3) show ?case by simp
qed simp

lemma build_bundle_ok:
  assumes "driver_ok env" and "build_bundle env args = Inr b"
  shows "bundle_ok b \<and> bu_version b = bundle_version"
proof -
  obtain schemas tables where "export_tables env args (tables_to_export args) ([], []) = Inr (schemas, tables)"
    and "bu_tables b = tables" "bu_schema b = schemas" "bu_version b = bundle_version"
    using assms(2) by (auto simp: build_bundle_def Let_def split: option.splits sum.splits)
  with export_tables_ok [OF assms(1)] show ?thesis
    by (fastforce simp: bundle_ok_def bundle_version_def)
qed

text \<open>
  A bundle file is read back exactly: what \<open>export-config\<close> writes, encrypted or not, \<open>import-config\<close> parses
  into the very bundle that was assembled from the tables, with every cell, blobs and integers included,
  every schema and the configuration file. (The JSON parser inverts the printer on this document, whose
  text does not begin like an encrypted file; base64 and the cipher invert themselves; and the same
  passphrase is entered.)
\<close>

theorem exported_file_read_back:
  assumes "export_run env cf tm salt nonce args = Inr raw" and "driver_ok env"
    and "length salt = salt_len" "length nonce = nonce_len"
    and "\<And>x. ie_unb64 ienv (ee_b64 env x) = Inr x"
    and "\<And>b. build_bundle env args = Inr b \<Longrightarrow>
           ie_json_parse ienv (ee_json_print env (bundle_json (ee_b64 env) b)) = Inr (bundle_json (ee_b64 env) b)
           \<and> \<not> starts_with (ee_json_print env (bundle_json (ee_b64 env) b)) encrypted_bundle_magic"
    and "\<And>k n a m c. cf_encrypt cf k n a m = Some c \<Longrightarrow> length c = length m + tag_len \<and> cf_decrypt cf k n a c = Some m"
    and "\<And>pwd. read_export_passphrase tm (ea_passphrase_stdin args) = Inr pwd
           \<Longrightarrow> read_import_passphrase tm' from_stdin = Inr pwd"
  shows "\<exists>b. build_bundle env args = Inr b \<and> parse_bundle ienv cf tm' raw from_stdin = Inr b"
proof -
  obtain b where b: "build_bundle env args = Inr b"
    using assms(1) by (auto simp: export_run_def split: if_splits sum.splits)
  let ?js = "ee_json_print env (bundle_json (ee_b64 env) b)"
  have "bundle_of_json (ie_unb64 ienv) (bundle_json (ee_b64 env) b) = Inr b"
    using build_bundle_ok [OF assms(2) b] assms(5) by (intro bundle_roundtrip) simp_all
  then have plain: "parse_plaintext_bundle ienv ?js = Inr b"
    using assms(6) [OF b] build_bundle_ok [OF assms(2) b] by (simp add: parse_plaintext_bundle_def)
  show ?thesis
  proof (cases "ea_no_encrypt args")
    case True
    then have "raw = ?js" using assms(1) b by (auto simp: export_run_def split: if_splits)
    with plain assms(6) [OF b] b show ?thesis by (simp add: parse_bundle_def)
  next
    case False
    then obtain pwd where pwd: "read_export_passphrase tm (ea_passphrase_stdin args) = Inr pwd"
      and raw: "encrypt_bundle cf salt nonce ?js pwd = Inr raw"
      using assms(1) b
      by (cases "read_export_passphrase tm (ea_passphrase_stdin args)")
         (auto simp: export_run_def Let_def split: if_splits)
    have "decrypt_bundle cf raw pwd = Inr ?js"
      by (rule decrypt_encrypted [OF raw assms(3,4)]) (rule assms(7))
    moreover have "starts_with raw encrypted_bundle_magic"
      using raw by (auto simp: encrypt_bundle_def Let_def split: if_splits option.splits)
    ultimately show ?thesis
      using assms(8) [OF pwd] plain b by (simp add: parse_bundle_def)
  qed
qed

definition sample_encrypted_args :: export_args where
  "sample_encrypted_args = sample_export_args\<lparr>ea_no_encrypt := False, ea_passphrase_stdin := True\<rparr>"

lemma sample_encrypted_built: "\<exists>b. build_bundle sample_export sample_encrypted_args = Inr b"
  by (simp add: build_bundle_def sample_export_def sample_encrypted_args_def sample_export_args_def sample_raw_def
      tables_to_export_def default_tables_def read_table_schema_def read_cell_def Let_def declare_columns_def
      column_of_pragma_def ascii_upper_def is_ascii_lower_def sanitize_toml_for_no_secrets_def)

theorem exported_file_read_back_witness:
  "\<exists>b raw. build_bundle sample_export sample_encrypted_args = Inr b
     \<and> export_run sample_export tagging_cipher sample_terminal (replicate 16 CHR ''s'') (replicate 12 CHR ''n'')
         sample_encrypted_args = Inr raw
     \<and> parse_bundle (sample_import_env\<lparr>ie_json_parse := (\<lambda>_. Inr (bundle_json (\<lambda>x. x) b))\<rparr>) tagging_cipher
         sample_terminal raw True = Inr b"
proof -
  let ?salt = "replicate 16 CHR ''s''" and ?nonce = "replicate 12 CHR ''n''"
  obtain b where b: "build_bundle sample_export sample_encrypted_args = Inr b"
    using sample_encrypted_built by blast
  let ?ienv = "sample_import_env\<lparr>ie_json_parse := (\<lambda>_. Inr (bundle_json (\<lambda>x. x) b))\<rparr>"
  have flags: "ea_passphrase_stdin sample_encrypted_args" "\<not> ea_no_encrypt sample_encrypted_args"
    by (simp_all add: sample_encrypted_args_def)
  have pw: "read_export_passphrase sample_terminal True = Inr ''pw''" "read_import_passphrase sample_terminal True = Inr ''pw''"
    by (simp_all add: read_export_passphrase_def read_import_passphrase_def read_one_line_from_stdin_def
        sample_terminal_def trim_line_end_def)
  have fs: "\<not> ee_no_fs sample_export" by (simp add: sample_export_def)
  obtain raw where raw: "export_run sample_export tagging_cipher sample_terminal ?salt ?nonce sample_encrypted_args = Inr raw"
    using b pw flags fs by (simp add: export_run_def Let_def encrypt_bundle_def tagging_cipher_def)
  have "\<exists>b'. build_bundle sample_export sample_encrypted_args = Inr b'
      \<and> parse_bundle ?ienv tagging_cipher sample_terminal raw True = Inr b'"
  proof (rule exported_file_read_back [OF raw])
    show "driver_ok sample_export"
      by (auto simp: driver_ok_def sample_export_def sample_raw_def split: if_splits)
    show "read_import_passphrase sample_terminal True = Inr pwd"
      if "read_export_passphrase sample_terminal (ea_passphrase_stdin sample_encrypted_args) = Inr pwd" for pwd
      using that pw flags by simp
    show "ie_json_parse ?ienv (ee_json_print sample_export (bundle_json (ee_b64 sample_export) b'))
        = Inr (bundle_json (ee_b64 sample_export) b')
        \<and> \<not> starts_with (ee_json_print sample_export (bundle_json (ee_b64 sample_export) b')) encrypted_bundle_magic"
      if b': "build_bundle sample_export sample_encrypted_args = Inr b'" for b'
    proof -
      have "b' = b" using b b' by simp
      then show ?thesis by (simp add: sample_export_def encrypted_bundle_magic_def)
    qed
    show "length c = length m + tag_len \<and> cf_decrypt tagging_cipher k n a c = Some m"
      if "cf_encrypt tagging_cipher k n a m = Some c" for k n a m c
      using that by (rule tagging_cipher_laws)
  qed (simp_all add: salt_len_def nonce_len_def sample_import_env_def sample_export_def)
  with b raw show ?thesis by auto
qed

end
