(* ===== verification/Import_References.thy ===== *)
theory Import_References
  imports Import_Safety
begin

text \<open>
  The translation of ids during an import that keeps local rows: every written row refers to the local row of
  the parent that it had in the bundle. Two consequences of the way rows are merged that an operator may not
  expect close the theory.
\<close>

section \<open>Well-formed bundles\<close>

text \<open>
  The natural key columns and the references of every table of the bundle are columns of both schemas, and
  the rows have keys that are present and differ from each other.
\<close>

definition spec_columns :: "TableMergeSpec \<Rightarrow> string list" where
  "spec_columns spec = ms_natural_key spec @ map fst (ms_fks spec)"

definition bundle_keys_ok :: "sqlite \<Rightarrow> Bundle \<Rightarrow> bool" where
  "bundle_keys_ok sq b \<longleftrightarrow>
     list_all (\<lambda>(t, rows).
       (case map_of (bu_schema b) t of
          None \<Rightarrow> True
        | Some schema \<Rightarrow>
            list_all (\<lambda>c. c \<in> ci_name ` set (ts_columns schema) \<and> c \<in> pg_name ` set (sq_pragma sq t))
              (spec_columns (merge_spec t)))
       \<and> list_all (\<lambda>r. list_all (\<lambda>k. cell r k \<noteq> CNull) (ms_natural_key (merge_spec t))) rows
       \<and> distinct (map (\<lambda>r. map (cell r) (ms_natural_key (merge_spec t))) rows)) (bu_tables b)"

text \<open>The tables that others refer to.\<close>

definition parent_tables :: "string list" where
  "parent_tables = [''policies'', ''proxies'', ''users'', ''accounts'', ''api_keys'']"

text \<open>What holds of every entry of the table of specifications, checked entry by entry.\<close>

lemma merge_spec_all:
  assumes "list_all (\<lambda>(t, s). P t s) merge_specs" and "t \<notin> fst ` set merge_specs \<Longrightarrow> P t (merge_spec_of None [] [])"
  shows "P t (merge_spec t)"
proof (cases "map_of merge_specs t")
  case (Some s)
  then have "(t, s) \<in> set merge_specs" by (rule map_of_SomeD)
  with assms(1) show ?thesis by (auto simp: list_all_iff merge_spec_def Some)
next
  case None
  then have "t \<notin> fst ` set merge_specs" by (simp add: map_of_eq_None_iff)
  from assms(2) [OF this] None show ?thesis by (simp add: merge_spec_def)
qed

definition fk_entry_ok :: "string \<Rightarrow> TableMergeSpec \<Rightarrow> string \<times> string \<Rightarrow> bool" where
  "fk_entry_ok t s fk \<longleftrightarrow>
     snd fk \<in> set parent_tables \<and> snd fk \<noteq> t \<and> fst fk \<noteq> ''id''
     \<and> (fst fk \<in> set (ms_natural_key s) \<or> list_all (\<lambda>k. k \<notin> fst ` set (ms_fks s)) (ms_natural_key s))"

definition reference_ok :: "string \<Rightarrow> TableMergeSpec \<Rightarrow> bool" where
  "reference_ok t s \<longleftrightarrow>
     list_all (fk_entry_ok t s) (ms_fks s)
     \<and> distinct (map fst (ms_fks s)) \<and> ms_id_column s \<in> {None, Some ''id''}
     \<and> list_all (\<lambda>k. ms_id_column s \<noteq> Some k) (ms_natural_key s)
     \<and> (ms_fks s \<noteq> [] \<longrightarrow> ms_natural_key s \<noteq> [])
     \<and> (t \<in> set parent_tables \<longrightarrow> ms_id_column s = Some ''id'' \<and> ms_natural_key s \<noteq> []
          \<and> list_all (\<lambda>k. k \<noteq> ''id'' \<and> k \<notin> fst ` set (ms_fks s)) (ms_natural_key s)
          \<and> t \<notin> set tables_wiped_even_in_merge)"

lemma reference_ok_merge_spec: "reference_ok t (merge_spec t)"
proof (rule merge_spec_all)
  show "list_all (\<lambda>(t, s). reference_ok t s) merge_specs" by code_simp
  have "set parent_tables \<subseteq> fst ` set merge_specs" by code_simp
  then show "t \<notin> fst ` set merge_specs \<Longrightarrow> reference_ok t (merge_spec_of None [] [])"
    by (auto simp: reference_ok_def merge_spec_of_def)
qed

lemma fk_specD:
  assumes "(c, parent) \<in> set (ms_fks (merge_spec t))"
  shows "parent \<in> set parent_tables" "parent \<noteq> t" "c \<noteq> ''id''" "ms_natural_key (merge_spec t) \<noteq> []"
    "c \<in> set (ms_natural_key (merge_spec t))
      \<or> set (ms_natural_key (merge_spec t)) \<inter> fst ` set (ms_fks (merge_spec t)) = {}"
proof -
  have e: "fk_entry_ok t (merge_spec t) (c, parent)"
    using assms reference_ok_merge_spec [of t] unfolding reference_ok_def list_all_iff by blast
  then show "parent \<in> set parent_tables" "parent \<noteq> t" "c \<noteq> ''id''" by (simp_all add: fk_entry_ok_def)
  have "ms_fks (merge_spec t) \<noteq> []" using assms by auto
  then show "ms_natural_key (merge_spec t) \<noteq> []"
    using reference_ok_merge_spec [of t] unfolding reference_ok_def by blast
  show "c \<in> set (ms_natural_key (merge_spec t))
      \<or> set (ms_natural_key (merge_spec t)) \<inter> fst ` set (ms_fks (merge_spec t)) = {}"
    using e unfolding fk_entry_ok_def list_all_iff fst_conv by blast
qed

lemma parent_specD:
  assumes "t \<in> set parent_tables"
  shows "ms_id_column (merge_spec t) = Some ''id''" "ms_natural_key (merge_spec t) \<noteq> []"
    "set (ms_natural_key (merge_spec t)) \<inter> fst ` set (ms_fks (merge_spec t)) = {}"
    "t \<notin> set tables_wiped_even_in_merge"
  using assms reference_ok_merge_spec [of t] unfolding reference_ok_def list_all_iff by blast+

section \<open>Keys and ids are never changed\<close>

abbreviation nat_key :: "string \<Rightarrow> string list" where
  "nat_key t \<equiv> ms_natural_key (merge_spec t)"

lemma execute_merge_cases:
  assumes "execute_row_insert sq t writable key r Mode_Merge rows = Inr rows'" and "key \<noteq> []"
  obtains (Empty) "writable = []" "rows' = rows"
  | (Upsert) "sql_upsert sq t writable key (upsert_updates writable key) r rows = Inr rows'"
proof (cases "writable = []")
  case True
  with assms that(1) show thesis by (simp add: execute_row_insert_def)
next
  case False
  with assms have "sql_upsert sq t writable key (upsert_updates writable key) r rows = Inr rows'"
    by (simp add: execute_row_insert_def)
  then show thesis by (rule that(2))
qed

text \<open>A row keeps its natural key and its id through every write.\<close>

lemma execute_keeps_key:
  assumes "execute_row_insert sq t writable key r Mode_Merge rows = Inr rows'" and "key \<noteq> []" and "s \<in> set rows"
  shows "\<exists>s' \<in> set rows'. \<forall>k. k \<in> set key \<or> k = ''id'' \<longrightarrow> cell s' k = cell s k"
  using assms(1,2)
proof (cases rule: execute_merge_cases)
  case Upsert
  then show ?thesis
  proof (cases rule: sql_upsert_cases)
    case (Update before old after)
    have "\<forall>k. k \<in> set key \<or> k = ''id'' \<longrightarrow>
        cell (update_row (upsert_updates writable key) (stored_row sq t writable r rows) old) k = cell old k"
      by (auto simp: cell_update_row upsert_updates_def)
    then show ?thesis
      using assms(3) Update(1,2) by (cases "s = old") auto
  qed (use assms(3) in auto)
qed (use assms(3) in auto)

text \<open>Between two states of an import the keyed rows of the tables that are referred to stay.\<close>

definition keyed_kept :: "tables \<Rightarrow> tables \<Rightarrow> bool" where
  "keyed_kept db db' \<longleftrightarrow> (\<forall>P \<in> set parent_tables. \<forall>s \<in> set (db P). \<exists>s' \<in> set (db' P).
     \<forall>k. k \<in> set (nat_key P) \<or> k = ''id'' \<longrightarrow> cell s' k = cell s k)"

lemma keyed_kept_refl [simp]: "keyed_kept db db"
  by (auto simp: keyed_kept_def)

lemma keyed_kept_trans: "keyed_kept db db1 \<Longrightarrow> keyed_kept db1 db2 \<Longrightarrow> keyed_kept db db2"
  unfolding keyed_kept_def by (metis (no_types, lifting))

lemma import_row_kept:
  assumes "import_row sq mode preserve True t writable br st = Inr st'"
  shows "keyed_kept (is_tables st) (is_tables st') \<and> (\<forall>u. u \<noteq> t \<longrightarrow> is_tables st' u = is_tables st u)"
  using assms
proof (cases rule: import_row_tables)
  case (Written r rows)
  have "keyed_kept (is_tables st) (is_tables st')"
    unfolding keyed_kept_def
  proof (intro ballI)
    fix P s assume P: "P \<in> set parent_tables" and s: "s \<in> set (is_tables st P)"
    show "\<exists>s' \<in> set (is_tables st' P). \<forall>k. k \<in> set (nat_key P) \<or> k = ''id'' \<longrightarrow> cell s' k = cell s k"
    proof (cases "P = t")
      case True
      from execute_keeps_key [of sq t writable "nat_key t" r "is_tables st t" rows s] Written(1,2)
        parent_specD(2) [OF P] s True show ?thesis by simp
    qed (use s Written(1) in auto)
  qed
  then show ?thesis by (simp add: Written(1))
qed simp

lemma import_rows_kept:
  "import_rows sq mode preserve True t writable brs st = Inr st'
    \<Longrightarrow> keyed_kept (is_tables st) (is_tables st') \<and> (\<forall>u. u \<noteq> t \<longrightarrow> is_tables st' u = is_tables st u)"
proof (induction brs arbitrary: st)
  case (Cons br brs)
  then obtain st1 where "import_row sq mode preserve True t writable br st = Inr st1"
    and "import_rows sq mode preserve True t writable brs st1 = Inr st'" by (auto split: sum.splits)
  with import_row_kept Cons.IH show ?case by (metis (no_types, lifting) keyed_kept_trans)
qed simp

section \<open>The noted ids\<close>

text \<open>A noted id belongs to a row of the bundle whose natural key a local row with the noted id has.\<close>

definition ids_ok :: "Bundle \<Rightarrow> import_state \<Rightarrow> bool" where
  "ids_ok b st \<longleftrightarrow> (\<forall>P \<in> set parent_tables. \<forall>i lid. is_ids st P i = Some lid \<longrightarrow>
     (\<exists>prows p s. map_of (bu_tables b) P = Some prows \<and> p \<in> set prows \<and> map_of p ''id'' = Some (CInteger i)
        \<and> s \<in> set (is_tables st P) \<and> same_key (nat_key P) p s \<and> cell s ''id'' = CInteger lid))"

lemma same_key_trans:
  "same_key ks p s \<Longrightarrow> (\<forall>k \<in> set ks. cell s' k = cell s k) \<Longrightarrow> same_key ks p s'"
  by (auto simp: same_key_def list_all_iff)

lemma ids_ok_kept:
  assumes "ids_ok b st" and "keyed_kept (is_tables st) (is_tables st')" and "is_ids st' = is_ids st"
  shows "ids_ok b st'"
  unfolding ids_ok_def
proof (intro ballI allI impI)
  fix P i lid assume P: "P \<in> set parent_tables" and "is_ids st' P i = Some lid"
  then obtain prows p s where p: "map_of (bu_tables b) P = Some prows" "p \<in> set prows" "map_of p ''id'' = Some (CInteger i)"
    and s: "s \<in> set (is_tables st P)" "same_key (nat_key P) p s" "cell s ''id'' = CInteger lid"
    using assms(1,3) unfolding ids_ok_def by metis
  obtain s' where s': "s' \<in> set (is_tables st' P)" "\<forall>k. k \<in> set (nat_key P) \<or> k = ''id'' \<longrightarrow> cell s' k = cell s k"
    using assms(2) P s(1) unfolding keyed_kept_def by blast
  with s have "same_key (nat_key P) p s'" "cell s' ''id'' = CInteger lid"
    by (auto intro: same_key_trans)
  with p s'(1) show "\<exists>prows p s. map_of (bu_tables b) P = Some prows \<and> p \<in> set prows \<and> map_of p ''id'' = Some (CInteger i)
        \<and> s \<in> set (is_tables st' P) \<and> same_key (nat_key P) p s \<and> cell s ''id'' = CInteger lid" by blast
qed

lemma cell_int_Some: "cell_int v = Some i \<longleftrightarrow> v = CInteger i"
  by (cases v) auto

text \<open>What \<open>note_id\<close> adds.\<close>

lemma note_id_cases:
  assumes "note_id sq t spec br r st = Inr st'"
  obtains (Same) "st' = st"
  | (Noted) c i lid s where "ms_id_column spec = Some c" and "map_of br c = Some (CInteger i)"
      and "s \<in> set (is_tables st t)" and "same_key (ms_natural_key spec) r s" and "cell s ''id'' = CInteger lid"
      and "st' = st\<lparr>is_ids := (is_ids st)(t := (is_ids st t)(i \<mapsto> lid))\<rparr>"
proof (cases "Option.bind (ms_id_column spec) (\<lambda>c. Option.bind (map_of br c) cell_int)")
  case None
  with assms Same show thesis by (simp add: note_id_def)
next
  case (Some i)
  then obtain c where c: "ms_id_column spec = Some c" "map_of br c = Some (CInteger i)"
    by (auto simp: bind_eq_Some_conv cell_int_Some)
  obtain l where l: "capture_local_id sq t (ms_natural_key spec) r (is_tables st t) = Inr l"
    and st': "st' = (case l of None \<Rightarrow> st | Some lid \<Rightarrow> st\<lparr>is_ids := (is_ids st)(t := (is_ids st t)(i \<mapsto> lid))\<rparr>)"
    using assms by (auto simp: note_id_def Some split: sum.splits option.splits)
  show thesis
  proof (cases l)
    case None
    with st' Same show thesis by simp
  next
    case (Some lid)
    then obtain s where "find (same_key (ms_natural_key spec) r) (is_tables st t) = Some s" "cell s ''id'' = CInteger lid"
      using l by (auto simp: capture_local_id_def bind_eq_Some_conv cell_int_Some split: if_splits option.splits)
    then have "s \<in> set (is_tables st t)" "same_key (ms_natural_key spec) r s" "cell s ''id'' = CInteger lid"
      by (auto simp: find_Some_iff)
    with c st' Some Noted show thesis by simp
  qed
qed

lemma note_id_ok:
  assumes "note_id sq t (merge_spec t) br r st = Inr st'" and "ids_ok b st"
    and "map_of (bu_tables b) t = Some brs" and "br \<in> set brs"
    and "t \<in> set parent_tables \<Longrightarrow> \<forall>k \<in> set (nat_key t). cell r k = cell br k"
  shows "ids_ok b st'"
  using assms(1)
proof (cases rule: note_id_cases)
  case (Noted c i lid s)
  show ?thesis
    unfolding ids_ok_def
  proof (intro ballI allI impI)
    fix P j l assume P: "P \<in> set parent_tables" and j: "is_ids st' P j = Some l"
    show "\<exists>prows p s. map_of (bu_tables b) P = Some prows \<and> p \<in> set prows \<and> map_of p ''id'' = Some (CInteger j)
        \<and> s \<in> set (is_tables st' P) \<and> same_key (nat_key P) p s \<and> cell s ''id'' = CInteger l"
    proof (cases "P = t \<and> j = i")
      case True
      then have "c = ''id''" using parent_specD(1) [OF P] Noted(1) by simp
      moreover have "same_key (nat_key t) br s"
        using Noted(4) assms(5) P True by (auto simp: same_key_def list_all_iff)
      moreover have "l = lid" using j True Noted(6) by simp
      moreover have "s \<in> set (is_tables st' t)" using Noted(3,6) by simp
      ultimately show ?thesis using True assms(3,4) Noted(2,5) by blast
    next
      case False
      then have "is_ids st P j = Some l" "is_tables st' P = is_tables st P" using j Noted(6) by (auto split: if_splits)
      with assms(2) P show ?thesis unfolding ids_ok_def by metis
    qed
  qed
qed (use assms(2) in simp)

text \<open>The pieces of a row import: the translated row, the write and the note.\<close>

lemma import_row_written:
  assumes "import_row sq mode preserve True t writable br st = Inr st'"
    and "\<not> (is_admin_row t br \<and> preserve)" and "\<not> (t = ''settings'' \<and> blocked_setting br)"
  obtains r rows st1 where "translate_fks (is_ids st) (ms_fks (merge_spec t)) br = Inr r"
    and "execute_row_insert sq t writable (nat_key t) r Mode_Merge (is_tables st t) = Inr rows"
    and "is_tables st1 = (is_tables st)(t := rows)" and "is_ids st1 = is_ids st"
    and "note_id sq t (merge_spec t) br r st1 = Inr st'"
proof -
  obtain r where r: "translate_fks (is_ids st) (ms_fks (merge_spec t)) br = Inr r"
    using assms unfolding import_row_def Let_def by (auto split: sum.splits if_splits)
  then obtain rows where rows: "execute_row_insert sq t writable (nat_key t) r Mode_Merge (is_tables st t) = Inr rows"
    using assms unfolding import_row_def Let_def by (auto split: sum.splits if_splits)
  let ?st1 = "count t (\<lambda>c. c\<lparr>tc_inserted := tc_inserted c + 1\<rparr>) (st\<lparr>is_tables := (is_tables st)(t := rows)\<rparr>)"
  have "note_id sq t (merge_spec t) br r ?st1 = Inr st'"
    using assms r rows unfolding import_row_def Let_def by (auto split: if_splits)
  from that [OF r rows _ _ this] show thesis by simp
qed

lemma import_row_ids:
  assumes "import_row sq mode preserve True t writable br st = Inr st'" and "ids_ok b st"
    and "map_of (bu_tables b) t = Some brs" and "br \<in> set brs"
  shows "ids_ok b st'"
proof (cases "is_admin_row t br \<and> preserve")
  case True
  then have n: "note_id sq t (merge_spec t) br br
      (count t (\<lambda>c. c\<lparr>tc_skipped_admin := tc_skipped_admin c + 1\<rparr>) st) = Inr st'"
    using assms(1) by (simp add: import_row_def Let_def)
  have "ids_ok b (count t (\<lambda>c. c\<lparr>tc_skipped_admin := tc_skipped_admin c + 1\<rparr>) st)"
    using assms(2) by (rule ids_ok_kept) simp_all
  from note_id_ok [OF n this assms(3,4)] show ?thesis by simp
next
  case not_admin: False
  show ?thesis
  proof (cases "t = ''settings'' \<and> blocked_setting br")
    case True
    then have "st' = count t (\<lambda>c. c\<lparr>tc_skipped_blocked_settings := tc_skipped_blocked_settings c + 1\<rparr>) st"
      using assms(1) not_admin by (auto simp: import_row_def Let_def split: if_splits)
    with assms(2) show ?thesis by (auto intro: ids_ok_kept)
  next
    case False
    from import_row_written [OF assms(1) not_admin False] obtain r rows st1 where
      r: "translate_fks (is_ids st) (ms_fks (merge_spec t)) br = Inr r"
      and w: "execute_row_insert sq t writable (nat_key t) r Mode_Merge (is_tables st t) = Inr rows"
      and st1: "is_tables st1 = (is_tables st)(t := rows)" "is_ids st1 = is_ids st"
      and n: "note_id sq t (merge_spec t) br r st1 = Inr st'" .
    have "is_tables st1 = is_tables st'" using note_id_tables [OF n] by simp
    then have "keyed_kept (is_tables st) (is_tables st1)"
      using import_row_kept [OF assms(1)] by simp
    from ids_ok_kept [OF assms(2) this st1(2)] have "ids_ok b st1" .
    show ?thesis
    proof (rule note_id_ok [OF n \<open>ids_ok b st1\<close> assms(3,4)])
      assume "t \<in> set parent_tables"
      note disjoint = parent_specD(3) [OF this]
      show "\<forall>k \<in> set (nat_key t). cell r k = cell br k"
      proof
        fix k assume "k \<in> set (nat_key t)"
        with disjoint have "k \<notin> fst ` set (ms_fks (merge_spec t))" by blast
        from translate_fks_cell [OF r this] show "cell r k = cell br k" by (simp add: cell_def)
      qed
    qed
  qed
qed

lemma import_rows_ids:
  "import_rows sq mode preserve True t writable rs st = Inr st' \<Longrightarrow> ids_ok b st
    \<Longrightarrow> map_of (bu_tables b) t = Some brs \<Longrightarrow> set rs \<subseteq> set brs \<Longrightarrow> ids_ok b st'"
proof (induction rs arbitrary: st)
  case (Cons r rs)
  then obtain st1 where "import_row sq mode preserve True t writable r st = Inr st1"
    and "import_rows sq mode preserve True t writable rs st1 = Inr st'" by (auto split: sum.splits)
  with import_row_ids [OF _ Cons.prems(2,3)] Cons.IH Cons.prems(3,4) show ?case by simp
qed simp

section \<open>Rows that refer to others\<close>

lemma translate_fks_get:
  "translate_fks ids fks r = Inr r' \<Longrightarrow> (c, P) \<in> set fks \<Longrightarrow> distinct (map fst fks)
    \<Longrightarrow> map_of r c = Some (CInteger i) \<Longrightarrow> \<exists>lid. ids P i = Some lid \<and> map_of r' c = Some (CInteger lid)"
proof (induction fks arbitrary: r)
  case (Cons fk fks)
  then obtain r1 where t: "translate_fk ids fk r = Inr r1" and more: "translate_fks ids fks r1 = Inr r'"
    by (auto split: sum.splits)
  show ?case
  proof (cases "fk = (c, P)")
    case True
    then obtain lid where "ids P i = Some lid" "map_of r1 c = Some (CInteger lid)"
      using t Cons.prems(4) by (auto simp: translate_fk_def hm_get_insert split: option.splits)
    moreover have "map_of r' c = map_of r1 c"
      using Cons.prems(3) True by (intro translate_fks_cell [OF more]) simp
    ultimately show ?thesis by simp
  next
    case False
    then have "c \<in> fst ` set fks" using Cons.prems(2) by (metis fst_conv image_eqI set_ConsD)
    then have "fst fk \<noteq> c" using Cons.prems(3) by auto
    then have "map_of r1 c = map_of r c"
      using translate_fks_cell [of ids "[fk]" r r1 c] t by simp
    with Cons.IH [OF more] Cons.prems False show ?thesis by simp
  qed
qed simp

lemma translate_fks_present:
  "translate_fks ids fks r = Inr r' \<Longrightarrow> cell r k \<noteq> CNull \<Longrightarrow> cell r' k \<noteq> CNull"
proof (induction fks arbitrary: r)
  case (Cons fk fks)
  then obtain r1 where t: "translate_fk ids fk r = Inr r1" and more: "translate_fks ids fks r1 = Inr r'"
    by (auto split: sum.splits)
  have "cell r1 k \<noteq> CNull"
    using t Cons.prems(2)
    by (auto simp: translate_fk_def cell_insert split: prod.splits option.splits CellValue.splits if_splits)
  from Cons.IH [OF more this] show ?case .
qed simp

text \<open>The columns in question are written as they are bound.\<close>

definition writes :: "sqlite \<Rightarrow> string \<Rightarrow> string list \<Rightarrow> string \<Rightarrow> bool" where
  "writes sq t writable c \<longleftrightarrow> c \<in> set writable \<and> c \<in> pg_name ` set (sq_pragma sq t)"

lemma cell_stored_written:
  "writes sq t writable c \<Longrightarrow> cell r c \<noteq> CNull \<Longrightarrow> cell (stored_row sq t writable r rows) c = cell r c"
  by (simp add: writes_def cell_stored_row Let_def)

lemma execute_stores:
  assumes "execute_row_insert sq t writable key r Mode_Merge rows = Inr rows'" and "key \<noteq> []"
    and "\<And>k. k \<in> set key \<or> k = c \<Longrightarrow> writes sq t writable k \<and> cell r k \<noteq> CNull" and "c \<noteq> ''id''"
  shows "\<exists>q \<in> set rows'. (\<forall>k \<in> set key. cell q k = cell r k) \<and> cell q c = cell r c"
  using assms(1,2)
proof (cases rule: execute_merge_cases)
  case Empty
  with assms(3) [of c] show ?thesis by (simp add: writes_def)
next
  case Upsert
  let ?n = "stored_row sq t writable r rows"
  have n: "cell ?n k = cell r k" if "k \<in> set key \<or> k = c" for k
    using assms(3) [OF that] by (simp add: cell_stored_written)
  from Upsert show ?thesis
  proof (cases rule: sql_upsert_cases)
    case Insert
    with n show ?thesis by auto
  next
    case (Nothing old)
    have "c \<in> set key"
      using Nothing(2) assms(3) [of c] assms(4) by (auto simp: upsert_updates_def writes_def filter_empty_conv)
    moreover have "cell old k = cell r k" if "k \<in> set key" for k
      using same_key_cell [OF Nothing(4) that] n that by simp
    ultimately show ?thesis using Nothing(1,3) by auto
  next
    case (Update before old after)
    let ?u = "update_row (upsert_updates writable key) ?n old"
    have k: "cell ?u k = cell r k" if "k \<in> set key" for k
      using same_key_cell [OF Update(3) that] n that by (simp add: cell_update_row upsert_updates_def)
    have "cell ?u c = cell r c"
    proof (cases "c \<in> set key")
      case False
      then show ?thesis
        using assms(3) [of c] assms(4) n by (simp add: cell_update_row upsert_updates_def writes_def)
    qed (rule k)
    with k Update(2) show ?thesis by auto
  qed
qed

lemma execute_keeps_other:
  assumes "execute_row_insert sq t writable key r Mode_Merge rows = Inr rows'" and "key \<noteq> []" and "q \<in> set rows"
    and "\<And>k. k \<in> set key \<Longrightarrow> writes sq t writable k \<and> cell r k \<noteq> CNull"
    and "c \<in> set key \<or> (\<exists>k \<in> set key. cell r k \<noteq> cell q k)"
  shows "\<exists>q' \<in> set rows'. (\<forall>k \<in> set key. cell q' k = cell q k) \<and> cell q' c = cell q c"
  using assms(1,2)
proof (cases rule: execute_merge_cases)
  case Upsert
  then show ?thesis
  proof (cases rule: sql_upsert_cases)
    case (Update before old after)
    show ?thesis
    proof (cases "q = old")
      case False
      with assms(3) Update(1,2) show ?thesis by auto
    next
      case True
      have "cell r k = cell q k" if "k \<in> set key" for k
        using same_key_cell [OF Update(3) that] assms(4) [OF that] True by (simp add: cell_stored_written)
      with assms(5) have "c \<in> set key" by blast
      then have "\<forall>k. k \<in> set key \<or> k = c \<longrightarrow>
          cell (update_row (upsert_updates writable key) (stored_row sq t writable r rows) old) k = cell old k"
        by (auto simp: cell_update_row upsert_updates_def)
      with True Update(2) show ?thesis by auto
    qed
  qed (use assms(3) in auto)
qed (use assms(3) in auto)

text \<open>What is known of the rows of a table and of the columns that are written.\<close>

definition rows_ok :: "sqlite \<Rightarrow> string \<Rightarrow> string list \<Rightarrow> row list \<Rightarrow> bool" where
  "rows_ok sq t writable rows \<longleftrightarrow>
     (\<forall>c \<in> set (spec_columns (merge_spec t)). writes sq t writable c)
     \<and> (\<forall>r \<in> set rows. \<forall>k \<in> set (nat_key t). cell r k \<noteq> CNull)
     \<and> distinct (map (\<lambda>r. map (cell r) (nat_key t)) rows)"

text \<open>A local row that stands for a row of the bundle, seen through the reference \<open>c\<close>.\<close>

definition stands_for :: "string \<Rightarrow> string \<Rightarrow> i64 \<Rightarrow> row \<Rightarrow> row \<Rightarrow> bool" where
  "stands_for t c lid r q \<longleftrightarrow> cell q c = CInteger lid
     \<and> (\<forall>k \<in> set (nat_key t). k \<notin> fst ` set (ms_fks (merge_spec t)) \<longrightarrow> cell q k = cell r k)"

lemma translated_key:
  assumes "translate_fks ids (ms_fks (merge_spec t)) br = Inr r" and "k \<notin> fst ` set (ms_fks (merge_spec t))"
  shows "cell r k = cell br k"
  using translate_fks_cell [OF assms] by (simp add: cell_def)

lemma import_row_stores:
  assumes "import_row sq mode preserve True t writable br st = Inr st'" and "rows_ok sq t writable brs" and "br \<in> set brs"
    and "\<not> (is_admin_row t br \<and> preserve)" and "(c, P) \<in> set (ms_fks (merge_spec t))"
    and "map_of br c = Some (CInteger i)"
  shows "\<exists>lid. is_ids st P i = Some lid \<and> (\<exists>q \<in> set (is_tables st' t). stands_for t c lid br q)"
proof -
  have "merge_spec ''settings'' = merge_spec_of None [''key''] []" by (rule merge_spec_simps)
  with assms(5) have "\<not> (t = ''settings'' \<and> blocked_setting br)" by (auto simp: merge_spec_of_def)
  from import_row_written [OF assms(1,4) this] obtain r rows st1 where
    r: "translate_fks (is_ids st) (ms_fks (merge_spec t)) br = Inr r"
    and w: "execute_row_insert sq t writable (nat_key t) r Mode_Merge (is_tables st t) = Inr rows"
    and st1: "is_tables st1 = (is_tables st)(t := rows)"
    and n: "note_id sq t (merge_spec t) br r st1 = Inr st'" by metis
  have "distinct (map fst (ms_fks (merge_spec t)))"
    using reference_ok_merge_spec [of t] unfolding reference_ok_def by blast
  from translate_fks_get [OF r assms(5) this assms(6)] obtain lid where
    lid: "is_ids st P i = Some lid" "cell r c = CInteger lid" by (auto simp: cell_def)
  have "writes sq t writable k \<and> cell r k \<noteq> CNull" if "k \<in> set (nat_key t) \<or> k = c" for k
  proof -
    have "k \<in> set (spec_columns (merge_spec t))"
      using that assms(5) by (force simp: spec_columns_def)
    moreover have "cell br k \<noteq> CNull \<or> k = c"
      using that assms(2,3) by (auto simp: rows_ok_def)
    ultimately show ?thesis
      using assms(2) lid(2) translate_fks_present [OF r] by (auto simp: rows_ok_def)
  qed
  from execute_stores [OF w fk_specD(4) [OF assms(5)] this fk_specD(3) [OF assms(5)]]
  obtain q where "q \<in> set rows" "\<forall>k \<in> set (nat_key t). cell q k = cell r k" "cell q c = cell r c" by blast
  moreover have "is_tables st' t = rows" using note_id_tables [OF n] st1 by simp
  ultimately show ?thesis
    using lid translated_key [OF r] by (auto simp: stands_for_def)
qed

lemma import_row_keeps_child:
  assumes "import_row sq mode preserve True t writable r2 st = Inr st'" and "rows_ok sq t writable brs"
    and "r2 \<in> set brs" and "br \<in> set brs" and "map (cell r2) (nat_key t) \<noteq> map (cell br) (nat_key t)"
    and fk: "(c, P) \<in> set (ms_fks (merge_spec t))" and q: "q \<in> set (is_tables st t)" "stands_for t c lid br q"
  shows "\<exists>q \<in> set (is_tables st' t). stands_for t c lid br q"
  using assms(1)
proof (cases rule: import_row_tables)
  case (Written r rows)
  have r: "translate_fks (is_ids st) (ms_fks (merge_spec t)) r2 = Inr r" using Written(3) by simp
  have w: "execute_row_insert sq t writable (nat_key t) r Mode_Merge (is_tables st t) = Inr rows"
    using Written(2) by simp
  have "c \<in> set (nat_key t) \<or> (\<exists>k \<in> set (nat_key t). cell r k \<noteq> cell q k)"
  proof (cases "c \<in> set (nat_key t)")
    case False
    with fk_specD(5) [OF fk] have no: "set (nat_key t) \<inter> fst ` set (ms_fks (merge_spec t)) = {}" by blast
    obtain k where k: "k \<in> set (nat_key t)" "cell r2 k \<noteq> cell br k" using assms(5) by (auto simp: map_eq_conv)
    with no have "k \<notin> fst ` set (ms_fks (merge_spec t))" by blast
    with translated_key [OF r this] k q(2) show ?thesis by (auto simp: stands_for_def)
  qed simp
  moreover have "writes sq t writable k \<and> cell r k \<noteq> CNull" if "k \<in> set (nat_key t)" for k
    using that assms(2,3) translate_fks_present [OF r] by (auto simp: rows_ok_def spec_columns_def)
  ultimately obtain q' where "q' \<in> set rows" "\<forall>k \<in> set (nat_key t). cell q' k = cell q k" "cell q' c = cell q c"
    using execute_keeps_other [OF w fk_specD(4) [OF fk] q(1)] by metis
  with q(2) show ?thesis by (auto simp: stands_for_def Written(1))
qed (use q in auto)

lemma import_rows_child:
  assumes fk: "(c, P) \<in> set (ms_fks (merge_spec t))" and i: "map_of br c = Some (CInteger i)"
    and adm: "\<not> (is_admin_row t br \<and> preserve)" and ok: "rows_ok sq t writable brs"
    and bt: "map_of (bu_tables b) t = Some brs"
  shows "import_rows sq mode preserve True t writable rs st = Inr st' \<Longrightarrow> ids_ok b st \<Longrightarrow> br \<in> set rs
    \<Longrightarrow> set rs \<subseteq> set brs \<Longrightarrow> distinct (map (\<lambda>r. map (cell r) (nat_key t)) rs)
    \<Longrightarrow> \<exists>st1 lid. ids_ok b st1 \<and> keyed_kept (is_tables st1) (is_tables st') \<and> is_ids st1 P i = Some lid
          \<and> (\<exists>q \<in> set (is_tables st' t). stands_for t c lid br q)"
proof (induction rs arbitrary: st)
  case (Cons r rs)
  obtain st2 where one: "import_row sq mode preserve True t writable r st = Inr st2"
    and more: "import_rows sq mode preserve True t writable rs st2 = Inr st'"
    using Cons.prems(1) by (auto split: sum.splits)
  show ?case
  proof (cases "br \<in> set rs")
    case True
    have "ids_ok b st2"
      using import_row_ids [OF one Cons.prems(2) bt] Cons.prems(4) by simp
    with Cons.IH [OF more] Cons.prems(4,5) True show ?thesis by simp
  next
    case False
    then have br: "r = br" using Cons.prems(3) by simp
    obtain lid q where lid: "is_ids st P i = Some lid" and q: "q \<in> set (is_tables st2 t)" "stands_for t c lid br q"
      using import_row_stores [OF one ok _ _ fk] i adm Cons.prems(4) br by auto
    have fresh: "map (cell br) (nat_key t) \<notin> (\<lambda>r. map (cell r) (nat_key t)) ` set rs"
      using Cons.prems(5) br by simp
    have keep: "\<exists>q \<in> set (is_tables st' t). stands_for t c lid br q"
      if "import_rows sq mode preserve True t writable rs' st3 = Inr st'" "set rs' \<subseteq> set rs"
        "q \<in> set (is_tables st3 t)" "stands_for t c lid br q" for rs' st3 q
      using that
    proof (induction rs' arbitrary: st3 q)
      case (Cons r2 rs')
      obtain st4 where a: "import_row sq mode preserve True t writable r2 st3 = Inr st4"
        and b: "import_rows sq mode preserve True t writable rs' st4 = Inr st'"
        using Cons.prems(1) by (auto split: sum.splits)
      have "map (cell r2) (nat_key t) \<in> (\<lambda>r. map (cell r) (nat_key t)) ` set rs"
        using Cons.prems(2) by (intro imageI) simp
      with fresh have "map (cell r2) (nat_key t) \<noteq> map (cell br) (nat_key t)" by metis
      then obtain q' where "q' \<in> set (is_tables st4 t)" "stands_for t c lid br q'"
        using import_row_keeps_child [OF a ok _ _ _ fk Cons.prems(3,4)] Cons.prems(2)
          \<open>set (r # rs) \<subseteq> set brs\<close> br by auto
      with Cons.IH [OF b] Cons.prems(2) show ?case by simp
    qed auto
    have "keyed_kept (is_tables st) (is_tables st')"
      using import_rows_kept [OF Cons.prems(1)] by simp
    with keep [OF more _ q] lid Cons.prems(2) show ?thesis by blast
  qed
qed simp

section \<open>Tables\<close>

lemma import_table_phases:
  assumes "import_table sq mode preserve True plans b t st = Inr st'"
    and "map_of plans t = Some plan" and "map_of (bu_tables b) t = Some rows" and "ids_ok b st"
  obtains st1 where "ids_ok b st1" and "keyed_kept (is_tables st) (is_tables st1)"
    and "\<forall>u. u \<noteq> t \<longrightarrow> is_tables st1 u = is_tables st u"
    and "import_rows sq mode preserve True t (writable_columns True (merge_spec t) plan) rows st1 = Inr st'"
proof -
  obtain st0 where w: "(if mode = Mode_Merge \<and> t \<in> set tables_wiped_even_in_merge then wipe_table sq t False st else Inr st) = Inr st0"
    and r: "import_rows sq mode preserve True t (writable_columns True (merge_spec t) plan) rows
      (count t (\<lambda>c. c) st0) = Inr st'"
    using assms(1-3) by (auto simp: import_table_def split: sum.splits)
  have kept: "keyed_kept (is_tables st) (is_tables st0) \<and> is_ids st0 = is_ids st
      \<and> (\<forall>u. u \<noteq> t \<longrightarrow> is_tables st0 u = is_tables st u)"
  proof (cases "mode = Mode_Merge \<and> t \<in> set tables_wiped_even_in_merge")
    case True
    then have "t \<notin> set parent_tables" using parent_specD(4) by blast
    moreover have "is_ids st0 = is_ids st" "is_tables st0 = (is_tables st)(t := is_tables st0 t)"
      using w True by (auto simp: wipe_table_def Let_def split: option.splits)
    ultimately show ?thesis by (auto simp: keyed_kept_def) (metis fun_upd_other)+
  next
    case False
    with w have "st0 = st" by auto
    then show ?thesis by simp
  qed
  then have "ids_ok b (count t (\<lambda>c. c) st0)"
    using assms(4) by (intro ids_ok_kept [OF assms(4)]) simp_all
  with kept r that show thesis by simp
qed

lemma import_table_kept:
  assumes "import_table sq mode preserve True plans b t st = Inr st'" and "ids_ok b st"
  shows "ids_ok b st' \<and> keyed_kept (is_tables st) (is_tables st') \<and> (\<forall>u. u \<noteq> t \<longrightarrow> is_tables st' u = is_tables st u)"
proof (cases "\<exists>plan rows. map_of plans t = Some plan \<and> map_of (bu_tables b) t = Some rows")
  case True
  then obtain plan rows where pr: "map_of plans t = Some plan" "map_of (bu_tables b) t = Some rows" by blast
  from import_table_phases [OF assms(1) pr assms(2)] obtain st1 where
    a: "ids_ok b st1" "keyed_kept (is_tables st) (is_tables st1)" "\<forall>u. u \<noteq> t \<longrightarrow> is_tables st1 u = is_tables st u"
    and r: "import_rows sq mode preserve True t (writable_columns True (merge_spec t) plan) rows st1 = Inr st'" .
  from import_rows_ids [OF r a(1) pr(2) order_refl] import_rows_kept [OF r] a(2,3) keyed_kept_trans
  show ?thesis by metis
next
  case False
  then have "st' = st" using assms(1) by (auto simp: import_table_def split: option.splits)
  with assms(2) show ?thesis by simp
qed

lemma import_tables_kept:
  "import_tables sq mode preserve True plans b ts st = Inr st' \<Longrightarrow> ids_ok b st
    \<Longrightarrow> keyed_kept (is_tables st) (is_tables st') \<and> (\<forall>u. u \<notin> set ts \<longrightarrow> is_tables st' u = is_tables st u)"
proof (induction ts arbitrary: st)
  case (Cons v ts)
  then obtain st1 where a: "import_table sq mode preserve True plans b v st = Inr st1"
    and more: "import_tables sq mode preserve True plans b ts st1 = Inr st'" by (auto split: sum.splits)
  from import_table_kept [OF a Cons.prems(2)] have k: "ids_ok b st1" "keyed_kept (is_tables st) (is_tables st1)"
    "\<forall>u. u \<noteq> v \<longrightarrow> is_tables st1 u = is_tables st u" by blast+
  with Cons.IH [OF more k(1)] keyed_kept_trans show ?case by (metis list.set_intros)
qed simp

lemma import_tables_at:
  "import_tables sq mode preserve True plans b ts st = Inr st' \<Longrightarrow> ids_ok b st \<Longrightarrow> t \<in> set ts \<Longrightarrow> distinct ts
    \<Longrightarrow> \<exists>st1 st2. ids_ok b st1 \<and> import_table sq mode preserve True plans b t st1 = Inr st2
          \<and> keyed_kept (is_tables st2) (is_tables st') \<and> is_tables st' t = is_tables st2 t"
proof (induction ts arbitrary: st)
  case (Cons u ts)
  then obtain st1 where one: "import_table sq mode preserve True plans b u st = Inr st1"
    and more: "import_tables sq mode preserve True plans b ts st1 = Inr st'" by (auto split: sum.splits)
  have k: "ids_ok b st1" using import_table_kept [OF one Cons.prems(2)] by blast
  show ?case
  proof (cases "t = u")
    case False
    with Cons.IH [OF more k] Cons.prems(3,4) show ?thesis by simp
  next
    case True
    with import_tables_kept [OF more k] Cons.prems(2,4) one show ?thesis by auto
  qed
qed simp

section \<open>Every reference is translated\<close>

lemma build_plans_get:
  "build_plans sq b ts = Inr (plans, warnings) \<Longrightarrow> t \<in> set ts \<Longrightarrow> map_of (bu_tables b) t = Some rows
    \<Longrightarrow> \<exists>plan schema db_schema. map_of plans t = Some plan \<and> map_of (bu_schema b) t = Some schema
          \<and> read_table_schema (sq_pragma sq t) = Inr db_schema \<and> plan_build schema db_schema t = Inr plan"
proof (induction ts arbitrary: plans warnings)
  case (Cons u ts)
  show ?case
  proof (cases "hm_contains (bu_tables b) u")
    case False
    with Cons show ?thesis by auto
  next
    case True
    then obtain schema db_schema plan plans' w where
      u: "map_of (bu_schema b) u = Some schema" "read_table_schema (sq_pragma sq u) = Inr db_schema"
        "plan_build schema db_schema u = Inr plan" and more: "build_plans sq b ts = Inr (plans', w)"
      and plans: "plans = (u, plan) # plans'"
      using Cons.prems(1) by (auto split: option.splits sum.splits prod.splits)
    show ?thesis
    proof (cases "t = u")
      case True
      with u plans show ?thesis by simp
    next
      case False
      with Cons.IH [OF more] Cons.prems(2,3) plans show ?thesis by simp
    qed
  qed
qed simp

lemma plan_rows_ok:
  assumes "bundle_keys_ok sq b" and "map_of (bu_tables b) t = Some rows" and "map_of (bu_schema b) t = Some schema"
    and "read_table_schema (sq_pragma sq t) = Inr db_schema" and "plan_build schema db_schema t = Inr plan"
    and "(c, P) \<in> set (ms_fks (merge_spec t))"
  shows "rows_ok sq t (writable_columns True (merge_spec t) plan) rows"
proof -
  have "(t, rows) \<in> set (bu_tables b)" using assms(2) by (rule map_of_SomeD)
  with assms(1,3) have k: "\<forall>x \<in> set (spec_columns (merge_spec t)).
        x \<in> ci_name ` set (ts_columns schema) \<and> x \<in> pg_name ` set (sq_pragma sq t)"
    "\<forall>r \<in> set rows. \<forall>k \<in> set (nat_key t). cell r k \<noteq> CNull" "distinct (map (\<lambda>r. map (cell r) (nat_key t)) rows)"
    by (fastforce simp: bundle_keys_ok_def list_all_iff)+
  have db: "ts_columns db_schema = map column_of_pragma (sq_pragma sq t)"
    using assms(4) by (auto simp: read_table_schema_def split: if_splits)
  have w: "cp_writable plan = filter (\<lambda>x. x \<in> set (map ci_name (ts_columns db_schema))) (map ci_name (ts_columns schema))"
    using assms(5) by (auto simp: plan_build_def Let_def split: if_splits)
  have noid: "ms_id_column (merge_spec t) \<noteq> Some x" if x: "x \<in> set (spec_columns (merge_spec t))" for x
  proof (cases "x \<in> set (nat_key t)")
    case True
    then show ?thesis using reference_ok_merge_spec [of t] unfolding reference_ok_def list_all_iff by blast
  next
    case False
    then obtain p where "(x, p) \<in> set (ms_fks (merge_spec t))" using x by (auto simp: spec_columns_def)
    then show ?thesis
      using fk_specD(3) reference_ok_merge_spec [of t] unfolding reference_ok_def by (metis insertE option.distinct(1) option.inject singletonD)
  qed
  have "writes sq t (writable_columns True (merge_spec t) plan) x" if x: "x \<in> set (spec_columns (merge_spec t))" for x
    using k(1) x noid [OF x]
    by (auto simp: writes_def writable_columns_def w db column_of_pragma_def image_iff split: option.splits)
  with k(2,3) show ?thesis by (simp add: rows_ok_def)
qed



section \<open>Two surprises\<close>

text \<open>
  A merge empties the bindings of API keys before it writes those of the bundle: the bindings of a local key
  that the bundle does not know are lost, and a key without bindings may use every account.
\<close>

lemma merge_drops_local_bindings:
  assumes "import_table sq Mode_Merge preserve True plans b ''api_key_account_bindings'' st = Inr st'"
    and "map_of plans ''api_key_account_bindings'' = Some plan"
    and "map_of (bu_tables b) ''api_key_account_bindings'' = Some []"
  shows "is_tables st' ''api_key_account_bindings'' = []"
  using assms
  by (auto simp: import_table_def tables_wiped_even_in_merge_def wipe_table_def Let_def wipe_keeps_def
      split: option.splits)

text \<open>
  The position of an account in the rotation is unique, and every installation numbers from one: a merge
  that brings an account whose position is taken by a local account of another name is refused.
\<close>

lemma merge_refuses_taken_order:
  assumes "[''rr_order''] \<in> set (sq_unique sq ''accounts'')" and "old \<in> set rows"
    and "cell old ''rr_order'' = cell r ''rr_order''" and "cell r ''rr_order'' = CInteger n"
    and "writes sq ''accounts'' writable ''rr_order''" and "writes sq ''accounts'' writable ''name''"
    and "cell r ''name'' = CText x" and "\<forall>s \<in> set rows. cell s ''name'' \<noteq> CText x"
  shows "\<exists>e. execute_row_insert sq ''accounts'' writable [''name''] r Mode_Merge rows = Inl e"
proof -
  let ?n = "stored_row sq ''accounts'' writable r rows"
  have n: "cell ?n ''name'' = CText x" "cell ?n ''rr_order'' = CInteger n"
    using assms(4-7) by (simp_all add: cell_stored_written)
  have "violates sq ''accounts'' ?n rows"
  proof -
    have "same_key [''rr_order''] ?n old" using assms(3,4) n by (simp add: same_key_def)
    with assms(1,2) show ?thesis unfolding violates_def list_ex_iff by blast
  qed
  moreover have "List.extract (same_key [''name''] ?n) rows = None"
    using assms(8) n by (auto simp: extract_None_iff same_key_def)
  moreover have "writable \<noteq> []" using assms(5) by (auto simp: writes_def)
  ultimately show ?thesis
    by (auto simp: execute_row_insert_def sql_upsert_def Let_def split: option.splits)
qed

end
