(* ===== verification/Auth_Tables.thy ===== *)
theory Auth_Tables
  imports Billing
begin

text \<open>
  The tables of users, policies and API keys (columns of \<open>migrations/\<close>, structs of \<open>src/src/db/models.rs\<close>), with
  the statements of \<open>src/src/db/queries.rs\<close>, \<open>src/src/db/mod.rs\<close> and the handlers on them. A statement that
  violates a constraint answers with the kind of the violation; everything else that can fail in the
  driver is an answer \<open>de_io\<close> for the number of the statement within its handler.
\<close>

section \<open>Results\<close>

text \<open>Rust's question mark.\<close>

definition try_then :: "'e + 'a \<Rightarrow> ('a \<Rightarrow> 'e + 'b) \<Rightarrow> 'e + 'b" where
  "try_then x f = (case x of Inl e \<Rightarrow> Inl e | Inr a \<Rightarrow> f a)"

lemma try_then_simps [simp]: "try_then (Inl e) f = Inl e" "try_then (Inr a) f = f a"
  by (simp_all add: try_then_def)

lemma try_then_Inr [simp]: "try_then x f = Inr b \<longleftrightarrow> (\<exists>a. x = Inr a \<and> f a = Inr b)"
  by (cases x) auto

lemma try_then_cong [fundef_cong, cong]:
  "x = y \<Longrightarrow> (\<And>a. y = Inr a \<Longrightarrow> f a = g a) \<Longrightarrow> try_then x f = try_then y g"
  by (cases y) auto

datatype sql_error = Unique_Error | Constraint_Error

record db_env =
  de_io :: "nat \<Rightarrow> ClewdrError option"
  de_from :: "sql_error \<Rightarrow> ClewdrError"
  de_row_not_found :: ClewdrError
  de_decode :: ClewdrError
  de_now :: string

definition io_step :: "db_env \<Rightarrow> nat \<Rightarrow> ClewdrError + unit" where
  "io_step env n = (case de_io env n of Some e \<Rightarrow> Inl e | None \<Rightarrow> Inr ())"

text \<open>A statement, and the conversion of its violation.\<close>

definition sql :: "db_env \<Rightarrow> nat \<Rightarrow> sql_error + 'a \<Rightarrow> ClewdrError + 'a" where
  "sql env n r = try_then (io_step env n) (\<lambda>_. map_sum (de_from env) id r)"

definition sql_unique :: "db_env \<Rightarrow> nat \<Rightarrow> ClewdrError \<Rightarrow> sql_error + 'a \<Rightarrow> ClewdrError + 'a" where
  "sql_unique env n e r =
     try_then (io_step env n) (\<lambda>_. case r of
        Inl Unique_Error \<Rightarrow> Inl e
      | Inl Constraint_Error \<Rightarrow> Inl (de_from env Constraint_Error)
      | Inr a \<Rightarrow> Inr a)"

lemma sql_Inr [simp]: "sql env n r = Inr a \<longleftrightarrow> de_io env n = None \<and> r = Inr a"
  by (cases r) (auto simp: sql_def io_step_def split: option.splits)

lemma sql_unique_Inr [simp]: "sql_unique env n e r = Inr a \<longleftrightarrow> de_io env n = None \<and> r = Inr a"
  by (auto simp: sql_unique_def io_step_def split: option.splits sum.splits sql_error.splits)

lemma io_step_Inr [simp]: "io_step env n = Inr u \<longleftrightarrow> de_io env n = None"
  by (auto simp: io_step_def split: option.splits)

section \<open>Tables\<close>

record user_row =
  us_id :: i64
  us_username :: string
  us_display_name :: "string option"
  us_password_hash :: "string option"
  us_role :: string
  us_policy_id :: i64
  us_disabled_at :: "string option"
  us_last_seen_at :: "string option"
  us_notes :: "string option"
  us_created_at :: string
  us_updated_at :: string
  us_must_change_password :: i64
  us_session_version :: i64

record policy_row =
  po_id :: i64
  po_name :: string
  po_max_concurrent :: i64
  po_rpm_limit :: i64
  po_weekly_budget_nanousd :: i64
  po_monthly_budget_nanousd :: i64
  po_created_at :: string
  po_updated_at :: string

record key_row =
  ak_id :: i64
  ak_user_id :: i64
  ak_label :: "string option"
  ak_lookup_key :: string
  ak_key_hash :: string
  ak_disabled_at :: "string option"
  ak_expires_at :: "string option"
  ak_last_used_at :: "string option"
  ak_last_used_ip :: "string option"
  ak_created_at :: string
  ak_plaintext_key :: "string option"
  ak_auto_cache_enabled :: i64
  ak_enhanced_audit_enabled :: i64

text \<open>The ledger of \<open>Billing\<close> holds the rollups and logs that refer to these rows.\<close>

record hub_db =
  hd_users :: "user_row list"
  hd_policies :: "policy_row list"
  hd_keys :: "key_row list"
  hd_bindings :: "(i64 \<times> i64) list"
  hd_settings :: "(string, string) hash_map"
  hd_books :: billing_db

text \<open>An \<open>INTEGER PRIMARY KEY\<close> without a value: one more than the largest.\<close>

definition next_id :: "i64 list \<Rightarrow> i64" where
  "next_id ids = foldr max ids 0 + 1"

definition user_by_id :: "hub_db \<Rightarrow> i64 \<Rightarrow> user_row option" where
  "user_by_id db i = find (\<lambda>u. us_id u = i) (hd_users db)"

definition policy_by_id :: "hub_db \<Rightarrow> i64 \<Rightarrow> policy_row option" where
  "policy_by_id db i = find (\<lambda>p. po_id p = i) (hd_policies db)"

definition is_active_admin :: "user_row \<Rightarrow> bool" where
  "is_active_admin u \<longleftrightarrow> us_role u = ''admin'' \<and> us_disabled_at u = None"

text \<open>The checks and references of a row of \<open>users\<close>.\<close>

definition user_checks :: "user_row \<Rightarrow> bool" where
  "user_checks u \<longleftrightarrow>
     (us_role u = ''admin'' \<or> us_role u = ''member'') \<and> (us_role u = ''admin'' \<longrightarrow> us_password_hash u \<noteq> None)"

definition user_fits :: "hub_db \<Rightarrow> user_row \<Rightarrow> bool" where
  "user_fits db u \<longleftrightarrow> user_checks u \<and> us_policy_id u \<in> po_id ` set (hd_policies db)"

definition insert_user :: "hub_db \<Rightarrow> user_row \<Rightarrow> sql_error + hub_db" where
  "insert_user db u =
     (if us_username u \<in> set (map us_username (hd_users db)) then Inl Unique_Error
      else if \<not> user_fits db u then Inl Constraint_Error
      else let i = next_id (map us_id (hd_users db)) in
           Inr (db\<lparr>hd_users := hd_users db @ [u\<lparr>us_id := i\<rparr>],
                   hd_books := (hd_books db)\<lparr>b_user_ids := b_user_ids (hd_books db) @ [i]\<rparr>\<rparr>))"

text \<open>\<open>UPDATE users SET .. WHERE id = ?\<close>.\<close>

definition update_user :: "i64 \<Rightarrow> (user_row \<Rightarrow> user_row) \<Rightarrow> hub_db \<Rightarrow> hub_db" where
  "update_user i f db = db\<lparr>hd_users := map (\<lambda>u. if us_id u = i then f u else u) (hd_users db)\<rparr>"

definition rename_user :: "i64 \<Rightarrow> string \<Rightarrow> string \<Rightarrow> hub_db \<Rightarrow> sql_error + hub_db" where
  "rename_user i now name db =
     (if name \<in> set (map us_username (filter (\<lambda>u. us_id u \<noteq> i) (hd_users db))) then Inl Unique_Error
      else Inr (update_user i (\<lambda>u. u\<lparr>us_username := name, us_updated_at := now\<rparr>) db))"

definition assign_policy :: "i64 \<Rightarrow> string \<Rightarrow> i64 \<Rightarrow> hub_db \<Rightarrow> sql_error + hub_db" where
  "assign_policy i now policy db =
     (if policy \<notin> set (map po_id (hd_policies db)) then Inl Constraint_Error
      else Inr (update_user i (\<lambda>u. u\<lparr>us_policy_id := policy, us_updated_at := now\<rparr>) db))"

text \<open>What goes with the deleted keys: their bindings, and their references in the logs.\<close>

definition delete_keys :: "(key_row \<Rightarrow> bool) \<Rightarrow> hub_db \<Rightarrow> hub_db" where
  "delete_keys p db =
     (let gone = map ak_id (filter p (hd_keys db));
          forget = (\<lambda>l. if (\<exists>i \<in> set gone. rl_api_key_id l = Some i) then l\<lparr>rl_api_key_id := None\<rparr> else l)
      in db\<lparr>hd_keys := filter (\<lambda>k. \<not> p k) (hd_keys db),
            hd_bindings := filter (\<lambda>b. fst b \<notin> set gone) (hd_bindings db),
            hd_books := (hd_books db)\<lparr>b_logs := map forget (b_logs (hd_books db)),
              b_api_key_ids := filter (\<lambda>i. i \<notin> set gone) (b_api_key_ids (hd_books db))\<rparr>\<rparr>)"

text \<open>The ledger without a user: logs keep their row, totals go.\<close>

definition forget_user :: "i64 \<Rightarrow> billing_db \<Rightarrow> billing_db" where
  "forget_user i bk =
     bk\<lparr>b_logs := map (\<lambda>l. if rl_user_id l = Some i then l\<lparr>rl_user_id := None\<rparr> else l) (b_logs bk),
        b_rollups := filter (\<lambda>(k, _). fst k \<noteq> i) (b_rollups bk),
        b_lifetime := filter (\<lambda>(k, _). k \<noteq> i) (b_lifetime bk),
        b_daily := filter (\<lambda>(k, _). fst k \<noteq> i) (b_daily bk),
        b_user_ids := filter (\<lambda>k. k \<noteq> i) (b_user_ids bk)\<rparr>"

definition delete_user :: "i64 \<Rightarrow> hub_db \<Rightarrow> hub_db" where
  "delete_user i db =
     (let db1 = delete_keys (\<lambda>k. ak_user_id k = i) db
      in db1\<lparr>hd_users := filter (\<lambda>u. us_id u \<noteq> i) (hd_users db1), hd_books := forget_user i (hd_books db1)\<rparr>)"

definition insert_key :: "hub_db \<Rightarrow> key_row \<Rightarrow> sql_error + hub_db" where
  "insert_key db k =
     (if ak_lookup_key k \<in> set (map ak_lookup_key (hd_keys db)) \<or> ak_key_hash k \<in> set (map ak_key_hash (hd_keys db))
      then Inl Unique_Error
      else if ak_user_id k \<notin> set (map us_id (hd_users db)) then Inl Constraint_Error
      else let i = next_id (map ak_id (hd_keys db)) in
           Inr (db\<lparr>hd_keys := hd_keys db @ [k\<lparr>ak_id := i\<rparr>],
                   hd_books := (hd_books db)\<lparr>b_api_key_ids := b_api_key_ids (hd_books db) @ [i]\<rparr>\<rparr>))"

definition update_key :: "i64 \<Rightarrow> (key_row \<Rightarrow> key_row) \<Rightarrow> hub_db \<Rightarrow> hub_db" where
  "update_key i f db = db\<lparr>hd_keys := map (\<lambda>k. if ak_id k = i then f k else k) (hd_keys db)\<rparr>"

definition insert_binding :: "hub_db \<Rightarrow> i64 \<times> i64 \<Rightarrow> sql_error + hub_db" where
  "insert_binding db b =
     (if b \<in> set (hd_bindings db) then Inl Unique_Error
      else if fst b \<notin> set (map ak_id (hd_keys db)) \<or> snd b \<notin> set (b_account_ids (hd_books db)) then Inl Constraint_Error
      else Inr (db\<lparr>hd_bindings := hd_bindings db @ [b]\<rparr>))"

definition policy_fits :: "policy_row \<Rightarrow> bool" where
  "policy_fits p \<longleftrightarrow> 0 < po_max_concurrent p \<and> 0 < po_rpm_limit p
     \<and> 0 \<le> po_weekly_budget_nanousd p \<and> 0 \<le> po_monthly_budget_nanousd p"

definition insert_policy :: "hub_db \<Rightarrow> policy_row \<Rightarrow> sql_error + hub_db" where
  "insert_policy db p =
     (if po_name p \<in> set (map po_name (hd_policies db)) then Inl Unique_Error
      else if \<not> policy_fits p then Inl Constraint_Error
      else Inr (db\<lparr>hd_policies := hd_policies db @ [p\<lparr>po_id := next_id (map po_id (hd_policies db))\<rparr>]\<rparr>))"

definition update_policy :: "i64 \<Rightarrow> (policy_row \<Rightarrow> policy_row) \<Rightarrow> hub_db \<Rightarrow> sql_error + hub_db" where
  "update_policy i f db =
     (let ps = map (\<lambda>p. if po_id p = i then f p else p) (hd_policies db) in
      if \<not> distinct (map po_name ps) then Inl Unique_Error
      else if \<not> list_all policy_fits ps then Inl Constraint_Error
      else Inr (db\<lparr>hd_policies := ps\<rparr>))"

definition delete_policy :: "i64 \<Rightarrow> hub_db \<Rightarrow> sql_error + hub_db" where
  "delete_policy i db =
     (if i \<in> set (map us_policy_id (hd_users db)) then Inl Constraint_Error
      else Inr (db\<lparr>hd_policies := filter (\<lambda>p. po_id p \<noteq> i) (hd_policies db)\<rparr>))"

section \<open>Integrity\<close>

text \<open>What the constraints of the tables promise.\<close>

definition hub_parts ::
    "user_row list \<Rightarrow> policy_row list \<Rightarrow> key_row list \<Rightarrow> (i64 \<times> i64) list \<Rightarrow> i64 list \<Rightarrow> i64 list \<Rightarrow> i64 list
      \<Rightarrow> bool" where
  "hub_parts us ps ks bs accounts user_ids key_ids \<longleftrightarrow>
     distinct (map us_id us) \<and> distinct (map us_username us) \<and> list_all user_checks us
     \<and> us_policy_id ` set us \<subseteq> po_id ` set ps
     \<and> distinct (map po_id ps) \<and> distinct (map po_name ps) \<and> list_all policy_fits ps
     \<and> distinct (map ak_id ks) \<and> distinct (map ak_lookup_key ks) \<and> distinct (map ak_key_hash ks)
     \<and> ak_user_id ` set ks \<subseteq> us_id ` set us
     \<and> distinct bs \<and> fst ` set bs \<subseteq> ak_id ` set ks \<and> snd ` set bs \<subseteq> set accounts
     \<and> set user_ids = us_id ` set us \<and> set key_ids = ak_id ` set ks"

definition hub_ok :: "hub_db \<Rightarrow> bool" where
  "hub_ok db \<longleftrightarrow>
     hub_parts (hd_users db) (hd_policies db) (hd_keys db) (hd_bindings db) (b_account_ids (hd_books db))
       (b_user_ids (hd_books db)) (b_api_key_ids (hd_books db))"

lemma next_id_fresh: "next_id ids \<notin> set ids"
proof -
  have "i \<in> set ids \<Longrightarrow> i \<le> foldr max ids 0" for i
    by (induction ids) (auto simp: max_def)
  then show ?thesis by (force simp: next_id_def)
qed

lemma hub_okD:
  assumes "hub_ok db"
  shows "distinct (map us_id (hd_users db))" "distinct (map ak_id (hd_keys db))" "distinct (map po_id (hd_policies db))"
    "distinct (map ak_lookup_key (hd_keys db))" "distinct (map us_username (hd_users db))"
    "list_all user_checks (hd_users db)" "us_policy_id ` set (hd_users db) \<subseteq> po_id ` set (hd_policies db)"
    "ak_user_id ` set (hd_keys db) \<subseteq> us_id ` set (hd_users db)"
    "fst ` set (hd_bindings db) \<subseteq> ak_id ` set (hd_keys db)"
    "snd ` set (hd_bindings db) \<subseteq> set (b_account_ids (hd_books db))"
proof -
qed (insert assms, unfold hub_ok_def hub_parts_def, elim conjE, assumption)+

lemma user_fits_all: "hub_ok db \<Longrightarrow> u \<in> set (hd_users db) \<Longrightarrow> user_fits db u"
  using hub_okD(6,7) unfolding list_all_iff user_fits_def by blast

lemma distinct_map_filter': "distinct (map f xs) \<Longrightarrow> distinct (map f (filter p xs))"
  by (induction xs) auto

lemma list_all_filter: "list_all p xs \<Longrightarrow> list_all p (filter q xs)"
  by (simp add: list_all_iff)

lemma hub_ok_insert_user:
  assumes "hub_ok db" and "insert_user db u = Inr db'"
  shows "hub_ok db'"
proof -
  let ?i = "next_id (map us_id (hd_users db))"
  have "us_username u \<notin> us_username ` set (hd_users db)" "user_fits db u"
    and db': "db' = db\<lparr>hd_users := hd_users db @ [u\<lparr>us_id := ?i\<rparr>],
                   hd_books := (hd_books db)\<lparr>b_user_ids := b_user_ids (hd_books db) @ [?i]\<rparr>\<rparr>"
    using assms(2) by (simp_all add: insert_user_def Let_def split: if_splits)
  moreover have "?i \<notin> us_id ` set (hd_users db)" using next_id_fresh [of "map us_id (hd_users db)"] by simp
  moreover have "ak_user_id ` set (hd_keys db) \<subseteq> insert ?i (us_id ` set (hd_users db))"
    using hub_okD(8) [OF assms(1)] by blast
  ultimately show ?thesis using assms(1)
    by (simp add: hub_ok_def hub_parts_def user_fits_def user_checks_def)
qed

lemma map_update_same:
  "(\<And>x. x \<in> set xs \<Longrightarrow> p x \<Longrightarrow> g (f x) = g x) \<Longrightarrow> map g (map (\<lambda>x. if p x then f x else x) xs) = map g xs"
  by simp

lemma hub_ok_update_user:
  assumes "hub_ok db"
    and "\<And>u. u \<in> set (hd_users db) \<Longrightarrow> us_id u = i \<Longrightarrow> us_id (f u) = us_id u \<and> (user_fits db u \<longrightarrow> user_fits db (f u))"
    and "distinct (map us_username (hd_users (update_user i f db)))"
  shows "hub_ok (update_user i f db)"
proof -
  let ?us = "map (\<lambda>u. if us_id u = i then f u else u) (hd_users db)"
  have ids: "map us_id ?us = map us_id (hd_users db)"
    using assms(2) by (intro map_update_same) blast
  have "user_fits db v" if "v \<in> set ?us" for v
    using that user_fits_all [OF assms(1)] assms(2) by (auto split: if_splits)
  then have "list_all user_checks ?us" "us_policy_id ` set ?us \<subseteq> po_id ` set (hd_policies db)"
    unfolding user_fits_def list_all_iff by blast+
  moreover have "us_id ` set ?us = us_id ` set (hd_users db)"
    using arg_cong [OF ids, of set] by (simp only: set_map)
  ultimately show ?thesis
    using assms(1,3) ids by (simp add: hub_ok_def update_user_def del: map_map set_map) (simp only: hub_parts_def simp_thms)
qed

lemma update_user_names:
  "(\<And>u. us_username (f u) = us_username u)
   \<Longrightarrow> map us_username (hd_users (update_user i f db)) = map us_username (hd_users db)"
  by (simp add: update_user_def)

lemma hub_ok_rename_user:
  assumes "hub_ok db" and "rename_user i now name db = Inr db'"
  shows "hub_ok db'"
proof -
  have new: "name \<notin> set (map us_username (filter (\<lambda>u. us_id u \<noteq> i) (hd_users db)))"
    and db': "db' = update_user i (\<lambda>u. u\<lparr>us_username := name, us_updated_at := now\<rparr>) db"
    using assms(2) by (simp_all add: rename_user_def split: if_splits)
  have "distinct (map us_id us) \<Longrightarrow> distinct (map us_username us)
      \<Longrightarrow> name \<notin> set (map us_username (filter (\<lambda>u. us_id u \<noteq> i) us))
      \<Longrightarrow> distinct (map us_username (map (\<lambda>u. if us_id u = i then u\<lparr>us_username := name, us_updated_at := now\<rparr> else u) us))"
    for us :: "user_row list"
  proof (induction us)
    case (Cons u us)
    then show ?case by (auto simp: image_iff split: if_splits)
  qed simp
  from this [OF hub_okD(1,5) [OF assms(1)] new] show ?thesis
    unfolding db' by (intro hub_ok_update_user [OF assms(1)]) (simp_all add: update_user_def user_fits_def user_checks_def)
qed

lemma delete_keys_fields:
  "hd_users (delete_keys p db) = hd_users db" "hd_policies (delete_keys p db) = hd_policies db"
  "hd_keys (delete_keys p db) = filter (\<lambda>k. \<not> p k) (hd_keys db)"
  "hd_settings (delete_keys p db) = hd_settings db"
  by (simp_all add: delete_keys_def Let_def)

lemma hub_ok_delete_keys:
  assumes "hub_ok db"
  shows "hub_ok (delete_keys p db)"
proof -
  let ?gone = "set (map ak_id (filter p (hd_keys db)))"
  have "ak_id k \<notin> ?gone" if "k \<in> set (hd_keys db)" "\<not> p k" for k
    using hub_okD(2) [OF assms] that by (auto simp: distinct_map inj_on_def)
  then have ids: "ak_id ` set (filter (\<lambda>k. \<not> p k) (hd_keys db)) = ak_id ` set (hd_keys db) - ?gone"
    by auto
  have "fst ` set (filter (\<lambda>b. fst b \<notin> ?gone) (hd_bindings db)) \<subseteq> ak_id ` set (hd_keys db) - ?gone"
    "snd ` set (filter (\<lambda>b. fst b \<notin> ?gone) (hd_bindings db)) \<subseteq> set (b_account_ids (hd_books db))"
    using hub_okD(9,10) [OF assms] by auto
  moreover have "ak_user_id ` set (filter (\<lambda>k. \<not> p k) (hd_keys db)) \<subseteq> us_id ` set (hd_users db)"
    using hub_okD(8) [OF assms] by auto
  ultimately have "hub_parts (hd_users db) (hd_policies db) (filter (\<lambda>k. \<not> p k) (hd_keys db))
      (filter (\<lambda>b. fst b \<notin> ?gone) (hd_bindings db)) (b_account_ids (hd_books db)) (b_user_ids (hd_books db))
      (filter (\<lambda>i. i \<notin> ?gone) (b_api_key_ids (hd_books db)))"
    using assms ids unfolding hub_ok_def hub_parts_def
    by (simp only: simp_thms distinct_map_filter' distinct_filter) (simp add: set_diff_eq)
  then show ?thesis by (simp add: hub_ok_def delete_keys_def Let_def)
qed

lemma hub_ok_delete_user:
  assumes "hub_ok db"
  shows "hub_ok (delete_user i db)"
proof -
  let ?db = "delete_keys (\<lambda>k. ak_user_id k = i) db"
  have "ak_user_id ` set (hd_keys ?db) \<subseteq> us_id ` set (filter (\<lambda>u. us_id u \<noteq> i) (hd_users ?db))"
    using hub_okD(8) [OF assms] by (auto simp: delete_keys_fields)
  moreover have "us_id ` set (filter (\<lambda>u. us_id u \<noteq> i) (hd_users ?db)) = us_id ` set (hd_users ?db) - {i}"
    by auto
  moreover note hub_ok_delete_keys [OF assms, of "\<lambda>k. ak_user_id k = i"]
  ultimately show ?thesis
    by (simp add: hub_ok_def delete_user_def forget_user_def Let_def) (auto simp: hub_parts_def distinct_map_filter' list_all_iff)
qed

lemma hub_ok_insert_key:
  assumes "hub_ok db" and "insert_key db k = Inr db'"
  shows "hub_ok db'"
proof -
  let ?i = "next_id (map ak_id (hd_keys db))"
  have "ak_lookup_key k \<notin> ak_lookup_key ` set (hd_keys db)" "ak_key_hash k \<notin> ak_key_hash ` set (hd_keys db)"
    "ak_user_id k \<in> us_id ` set (hd_users db)"
    and db': "db' = db\<lparr>hd_keys := hd_keys db @ [k\<lparr>ak_id := ?i\<rparr>],
                   hd_books := (hd_books db)\<lparr>b_api_key_ids := b_api_key_ids (hd_books db) @ [?i]\<rparr>\<rparr>"
    using assms(2) by (simp_all add: insert_key_def Let_def split: if_splits)
  moreover have "?i \<notin> ak_id ` set (hd_keys db)" using next_id_fresh [of "map ak_id (hd_keys db)"] by simp
  ultimately show ?thesis using assms(1) by (simp add: hub_ok_def hub_parts_def) blast
qed

lemma hub_ok_update_key:
  assumes "hub_ok db" and "\<And>k. ak_id (f k) = ak_id k \<and> ak_user_id (f k) = ak_user_id k
      \<and> ak_lookup_key (f k) = ak_lookup_key k \<and> ak_key_hash (f k) = ak_key_hash k"
  shows "hub_ok (update_key i f db)"
proof -
  let ?ks = "map (\<lambda>k. if ak_id k = i then f k else k) (hd_keys db)"
  have m: "map ak_id ?ks = map ak_id (hd_keys db)" "map ak_lookup_key ?ks = map ak_lookup_key (hd_keys db)"
    "map ak_key_hash ?ks = map ak_key_hash (hd_keys db)" "map ak_user_id ?ks = map ak_user_id (hd_keys db)"
    using assms(2) by (simp_all only: map_update_same)
  then have "ak_id ` set ?ks = ak_id ` set (hd_keys db)" "ak_user_id ` set ?ks = ak_user_id ` set (hd_keys db)"
    by (simp_all only: set_map [symmetric])
  with assms(1) m show ?thesis
    by (simp add: hub_ok_def update_key_def del: map_map set_map) (simp only: hub_parts_def simp_thms)
qed

lemma hub_ok_insert_binding: "hub_ok db \<Longrightarrow> insert_binding db b = Inr db' \<Longrightarrow> hub_ok db'"
  by (clarsimp simp: insert_binding_def hub_ok_def hub_parts_def split: if_splits)

lemma hub_ok_insert_policy:
  assumes "hub_ok db" and "insert_policy db p = Inr db'"
  shows "hub_ok db'"
proof -
  let ?i = "next_id (map po_id (hd_policies db))"
  have "po_name p \<notin> po_name ` set (hd_policies db)" "policy_fits p"
    and db': "db' = db\<lparr>hd_policies := hd_policies db @ [p\<lparr>po_id := ?i\<rparr>]\<rparr>"
    using assms(2) by (simp_all add: insert_policy_def split: if_splits)
  moreover have "?i \<notin> po_id ` set (hd_policies db)" using next_id_fresh [of "map po_id (hd_policies db)"] by simp
  moreover have "us_policy_id ` set (hd_users db) \<subseteq> insert ?i (po_id ` set (hd_policies db))"
    using hub_okD(7) [OF assms(1)] by blast
  ultimately show ?thesis using assms(1) by (simp add: hub_ok_def hub_parts_def policy_fits_def)
qed

lemma hub_ok_update_policy:
  assumes "hub_ok db" and "update_policy i f db = Inr db'" and "\<And>p. po_id (f p) = po_id p"
  shows "hub_ok db'"
proof -
  let ?ps = "map (\<lambda>p. if po_id p = i then f p else p) (hd_policies db)"
  have m: "map po_id ?ps = map po_id (hd_policies db)" using assms(3) by (simp only: map_update_same)
  then have "po_id ` set ?ps = po_id ` set (hd_policies db)" by (simp only: set_map [symmetric])
  moreover have "distinct (map po_name ?ps)" "list_all policy_fits ?ps" and db': "db' = db\<lparr>hd_policies := ?ps\<rparr>"
    using assms(2) unfolding update_policy_def Let_def by (simp_all only: split: if_splits) auto
  ultimately show ?thesis using assms(1) m unfolding db'
    by (simp add: hub_ok_def del: map_map set_map) (simp only: hub_parts_def simp_thms)
qed

lemma hub_ok_delete_policy:
  assumes "hub_ok db" and "delete_policy i db = Inr db'"
  shows "hub_ok db'"
proof -
  have free: "i \<notin> us_policy_id ` set (hd_users db)" and db': "db' = db\<lparr>hd_policies := filter (\<lambda>p. po_id p \<noteq> i) (hd_policies db)\<rparr>"
    using assms(2) by (simp_all add: delete_policy_def split: if_splits)
  have "j \<in> po_id ` set (filter (\<lambda>p. po_id p \<noteq> i) (hd_policies db))" if "j \<in> us_policy_id ` set (hd_users db)" for j
  proof -
    have "j \<noteq> i" using free that by metis
    moreover have "j \<in> po_id ` set (hd_policies db)" using hub_okD(7) [OF assms(1)] that by (rule subsetD)
    ultimately show ?thesis by auto
  qed
  then have "us_policy_id ` set (hd_users db) \<subseteq> po_id ` set (filter (\<lambda>p. po_id p \<noteq> i) (hd_policies db))"
    by (rule subsetI)
  with assms(1) show ?thesis
    unfolding db' by (simp add: hub_ok_def hub_parts_def distinct_map_filter' list_all_filter)
qed

end
