(* ===== verification/Session_Cookie.thy ===== *)
theory Session_Cookie
  imports Hub_Strings
begin

unbundle bit_operations_syntax

text \<open>
  The signed cookies of web sessions (\<open>src/src/session.rs\<close>). The HMAC is a parameter \<open>mac\<close> from the secret
  and the payload to the bytes of the signature; the current Unix time is an argument.
\<close>

section \<open>Numbers and bytes\<close>

definition is_i32 :: "int \<Rightarrow> bool" where
  "is_i32 n \<longleftrightarrow> - 2147483648 \<le> n \<and> n \<le> 2147483647"

definition parse_i32 :: "string \<Rightarrow> int option" where
  "parse_i32 s = Option.bind (parse_i64 s) (\<lambda>n. if is_i32 n then Some n else None)"

text \<open>\<open>str::parse::<u64>\<close> takes a plus sign.\<close>

definition parse_word64 :: "string \<Rightarrow> u64 option" where
  "parse_word64 s =
     (case parse_digits (case strip_prefix s ''+'' of Some r \<Rightarrow> r | None \<Rightarrow> s) of
        None \<Rightarrow> None
      | Some m \<Rightarrow> if m < 2 ^ 64 then Some (of_nat m) else None)"

definition show_u64 :: "u64 \<Rightarrow> string" where
  "show_u64 n = show_nat (unat n)"

definition hex_digit :: "nat \<Rightarrow> char" where
  "hex_digit d = char_of (if d < 10 then 48 + d else 87 + d)"

text \<open>\<open>{b:02x}\<close>.\<close>

definition hex_byte :: "char \<Rightarrow> string" where
  "hex_byte b = [hex_digit (byte_of b div 16), hex_digit (byte_of b mod 16)]"

definition sign :: "(string \<Rightarrow> string \<Rightarrow> string) \<Rightarrow> string \<Rightarrow> string \<Rightarrow> string" where
  "sign mac secret payload = concat (map hex_byte (mac secret payload))"

definition constant_time_eq :: "string \<Rightarrow> string \<Rightarrow> bool" where
  "constant_time_eq a b \<longleftrightarrow>
     length a = length b
     \<and> foldl (\<lambda>acc (x, y). acc OR (of_char x XOR of_char y)) (0 :: 8 word) (zip a b) = 0"

text \<open>\<open>str::rsplitn(2, ..)\<close> with two pieces, and \<open>str::split("; ")\<close>.\<close>

definition rsplit_once :: "char \<Rightarrow> string \<Rightarrow> (string \<times> string) option" where
  "rsplit_once d s = map_option (\<lambda>(a, b). (rev b, rev a)) (split_once d (rev s))"

fun split_semicolon :: "string \<Rightarrow> string list" where
  "split_semicolon [] = [[]]"
| "split_semicolon [c] = [[c]]"
| "split_semicolon (c # d # cs) =
     (if c = CHR '';'' \<and> d = CHR '' '' then [] # split_semicolon cs
      else case split_semicolon (d # cs) of [] \<Rightarrow> [[c]] | p # ps \<Rightarrow> (c # p) # ps)"

section \<open>Cookies\<close>

record SessionClaims =
  sc_user_id :: i64
  sc_session_version :: int
  sc_expires_at :: u64

definition session_payload :: "i64 \<Rightarrow> int \<Rightarrow> u64 \<Rightarrow> string" where
  "session_payload user_id session_version expires =
     show_i64 user_id @ ''.'' @ show_i64 session_version @ ''.'' @ show_u64 expires"

definition create_session_cookie ::
    "(string \<Rightarrow> string \<Rightarrow> string) \<Rightarrow> u64 \<Rightarrow> string \<Rightarrow> i64 \<Rightarrow> int \<Rightarrow> u64 \<Rightarrow> string" where
  "create_session_cookie mac now secret user_id session_version ttl_secs =
     (let payload = session_payload user_id session_version (saturating_add now ttl_secs)
      in payload @ ''.'' @ sign mac secret payload)"

definition validate_session_cookie ::
    "(string \<Rightarrow> string \<Rightarrow> string) \<Rightarrow> u64 \<Rightarrow> string \<Rightarrow> string \<Rightarrow> SessionClaims option" where
  "validate_session_cookie mac now secret v =
     (case rsplit_once (CHR ''.'') v of
        None \<Rightarrow> None
      | Some (payload, sig_hex) \<Rightarrow>
          if \<not> constant_time_eq sig_hex (sign mac secret payload) then None
          else (case split_on (CHR ''.'') payload of
                  [a, b, c] \<Rightarrow>
                    (case (parse_i64 a, parse_i32 b, parse_word64 c) of
                       (Some user_id, Some session_version, Some expires) \<Rightarrow>
                         if expires < now then None
                         else Some \<lparr>sc_user_id = user_id, sc_session_version = session_version,
                                    sc_expires_at = expires\<rparr>
                     | _ \<Rightarrow> None)
                | _ \<Rightarrow> None))"

definition cookie_name :: string where
  "cookie_name = ''clewdr_session''"

definition set_cookie_header :: "string \<Rightarrow> u64 \<Rightarrow> bool \<Rightarrow> string" where
  "set_cookie_header v max_age secure =
     cookie_name @ ''='' @ v @ ''; HttpOnly; SameSite=Lax; Path=/; Max-Age='' @ show_u64 max_age
       @ (if secure then ''; Secure'' else [])"

definition clear_cookie_header :: "bool \<Rightarrow> string" where
  "clear_cookie_header secure =
     cookie_name @ ''=; HttpOnly; SameSite=Lax; Path=/; Max-Age=0'' @ (if secure then ''; Secure'' else [])"

fun first_session_value :: "string list \<Rightarrow> string option" where
  "first_session_value [] = None"
| "first_session_value (p # ps) =
     (case strip_prefix p ''clewdr_session='' of
        Some v \<Rightarrow> if v \<noteq> [] then Some v else first_session_value ps
      | None \<Rightarrow> first_session_value ps)"

definition extract_session_cookie :: "string \<Rightarrow> string option" where
  "extract_session_cookie header = first_session_value (split_semicolon header)"

section \<open>The comparison\<close>

lemma xor_zero_iff: "(a XOR b = (0 :: 'a::len word)) \<longleftrightarrow> a = b"
  by (metis xor.assoc xor.left_neutral xor.right_neutral xor_self_eq)

lemma byte_less: "byte_of c < (256 :: nat)"
  by (metis mod_less_divisor of_char_mod_256 zero_less_numeral)

lemma char_word_inj: "of_char x = (of_char y :: 8 word) \<longleftrightarrow> x = y"
proof -
  have "unat (of_char c :: 8 word) = byte_of c" for c
  proof -
    have "of_char c = (of_nat (byte_of c) :: 8 word)" by (rule of_nat_of_char [symmetric])
    then show ?thesis using byte_less [of c] by (simp add: unat_of_nat del: of_nat_of_char)
  qed
  then show ?thesis by (metis of_char_eq_iff)
qed

lemma foldl_or_zero:
  fixes acc :: "8 word"
  shows "foldl (\<lambda>acc (x, y). acc OR (of_char x XOR of_char y)) acc ps = 0
    \<longleftrightarrow> acc = 0 \<and> (\<forall>(x, y) \<in> set ps. x = y)"
  by (induction ps arbitrary: acc) (auto simp: or_eq_0_iff xor_zero_iff char_word_inj)

text \<open>The comparison that does not stop at the first difference is equality.\<close>

lemma constant_time_eq_iff: "constant_time_eq a b \<longleftrightarrow> a = b"
proof -
  have "length a = length b \<Longrightarrow> (\<forall>(x, y) \<in> set (zip a b). x = y) \<longleftrightarrow> a = b"
    by (induction a b rule: list_induct2) auto
  then show ?thesis by (auto simp: constant_time_eq_def foldl_or_zero)
qed

section \<open>What is accepted\<close>

lemma rsplit_once_iff: "rsplit_once d s = Some (a, b) \<longleftrightarrow> s = a @ d # b \<and> d \<notin> set b"
proof -
  have "rsplit_once d s = Some (a, b) \<longleftrightarrow> split_once d (rev s) = Some (rev b, rev a)"
    by (force simp: rsplit_once_def)
  also have "\<dots> \<longleftrightarrow> s = a @ d # b \<and> d \<notin> set b"
    by (simp add: split_once_iff) (metis append.assoc append_Cons append_Nil rev.simps(2) rev_append rev_rev_ident rev_swap)
  finally show ?thesis .
qed

lemma hex_no_dot: "CHR ''.'' \<notin> set (sign mac secret payload)"
proof -
  have digit: "CHR ''.'' \<noteq> hex_digit d" if "d < 16" for d
  proof
    assume "CHR ''.'' = hex_digit d"
    then have "byte_of (hex_digit d) = byte_of (CHR ''.'')" by (simp only:)
    with that show False by (simp add: hex_digit_def split: if_splits)
  qed
  have "byte_of b div 16 < 16" for b
    using byte_less [of b] by linarith
  then have "CHR ''.'' \<notin> set (hex_byte b)" for b
    by (simp add: hex_byte_def digit)
  then show ?thesis by (simp add: sign_def)
qed

lemma digits_no_dot: "list_all is_ascii_digit s \<Longrightarrow> CHR ''.'' \<notin> set s"
  by (auto simp: list_all_iff is_ascii_digit_def)

lemma show_i64_no_dot: "CHR ''.'' \<notin> set (show_i64 n)"
  using digits_no_dot [OF show_nat_digits] by (auto simp: show_i64_def)

lemma show_u64_no_dot: "CHR ''.'' \<notin> set (show_u64 n)"
  using digits_no_dot [OF show_nat_digits] by (auto simp: show_u64_def)

lemma split_payload: "split_on (CHR ''.'') (session_payload u s e) = [show_i64 u, show_i64 s, show_u64 e]"
proof -
  have "session_payload u s e = join_with [CHR ''.''] [show_i64 u, show_i64 s, show_u64 e]"
    by (simp add: session_payload_def)
  then show ?thesis
    by (simp only: split_on_join list.distinct list.set ball_simps show_i64_no_dot show_u64_no_dot not_False_eq_True)
qed

lemma parse_show_i32: "is_i32 n \<Longrightarrow> parse_i32 (show_i64 n) = Some n"
  by (simp add: parse_i32_def parse_show_i64 is_i32_def is_i64_def i64_min_def i64_max_def)

lemma parse_show_u64: "parse_word64 (show_u64 n) = Some n"
proof -
  obtain c cs where s: "show_nat (unat n) = c # cs" "c \<noteq> CHR ''-''" "c \<noteq> CHR ''+''"
    by (rule show_nat_no_sign)
  then have "strip_prefix (show_u64 n) ''+'' = None"
    by (simp add: show_u64_def strip_prefix_def)
  moreover have "parse_digits (show_u64 n) = Some (unat n)"
    by (simp add: show_u64_def)
  ultimately show ?thesis using unat_less_pow [of n] by (simp add: parse_word64_def)
qed

lemma signed_split: "rsplit_once (CHR ''.'') (payload @ ''.'' @ sign mac secret payload) = Some (payload, sign mac secret payload)"
  by (simp add: rsplit_once_iff hex_no_dot)

lemma signed_unique:
  assumes "payload @ ''.'' @ sign mac secret payload = payload' @ ''.'' @ sign mac secret payload'"
  shows "payload = payload'"
proof -
  have "Some (payload, sign mac secret payload) = Some (payload', sign mac secret payload')"
    by (simp only: signed_split [symmetric] assms)
  then show ?thesis by simp
qed

lemma validate_signed:
  assumes "is_i64 u" and "is_i32 s"
  shows "validate_session_cookie mac now secret (session_payload u s e @ ''.'' @ sign mac secret (session_payload u s e))
    = (if e < now then None else Some \<lparr>sc_user_id = u, sc_session_version = s, sc_expires_at = e\<rparr>)"
  by (simp only: validate_session_cookie_def signed_split option.case prod.case constant_time_eq_iff not_True_eq_False
      if_False split_payload list.case refl parse_show_i64 [OF assms(1)] parse_show_i32 [OF assms(2)] parse_show_u64)

lemma validate_SomeE:
  assumes "validate_session_cookie mac now secret v = Some c"
  obtains payload a b e where "v = payload @ ''.'' @ sign mac secret payload" "split_on (CHR ''.'') payload = [a, b, e]"
    "parse_i64 a = Some (sc_user_id c)" "parse_i32 b = Some (sc_session_version c)" "parse_word64 e = Some (sc_expires_at c)"
    "now \<le> sc_expires_at c"
  using assms
  by (auto simp: validate_session_cookie_def rsplit_once_iff constant_time_eq_iff
      split: option.splits prod.splits if_splits list.splits)

text \<open>
  A session cookie is accepted exactly as long as it lives: the cookie that the login makes for a user, a
  session version and a lifetime is accepted until its expiry, with exactly these claims, and refused
  afterwards; and if nobody but the server can sign, an accepted cookie is such a cookie: its claims are
  those of a login that took place, however the text of the cookie was put together.
\<close>

theorem session_cookie_exact:
  assumes "is_i64 u" and "is_i32 s"
  shows "validate_session_cookie mac now' secret (create_session_cookie mac now secret u s ttl)
      = (if saturating_add now ttl < now' then None
         else Some \<lparr>sc_user_id = u, sc_session_version = s, sc_expires_at = saturating_add now ttl\<rparr>)
    \<and> (validate_session_cookie mac now' secret v = Some c
        \<and> (\<forall>payload. v = payload @ ''.'' @ sign mac secret payload
             \<longrightarrow> (\<exists>(u, s, e) \<in> logins. payload = session_payload u s e \<and> is_i64 u \<and> is_i32 s))
       \<longrightarrow> (sc_user_id c, sc_session_version c, sc_expires_at c) \<in> logins \<and> now' \<le> sc_expires_at c)"
proof (intro conjI impI)
  show "validate_session_cookie mac now' secret (create_session_cookie mac now secret u s ttl)
      = (if saturating_add now ttl < now' then None
         else Some \<lparr>sc_user_id = u, sc_session_version = s, sc_expires_at = saturating_add now ttl\<rparr>)"
    unfolding create_session_cookie_def Let_def by (rule validate_signed [OF assms])
next
  assume a: "validate_session_cookie mac now' secret v = Some c
    \<and> (\<forall>payload. v = payload @ ''.'' @ sign mac secret payload
         \<longrightarrow> (\<exists>(u, s, e) \<in> logins. payload = session_payload u s e \<and> is_i64 u \<and> is_i32 s))"
  then obtain payload where v: "v = payload @ ''.'' @ sign mac secret payload" by (blast elim: validate_SomeE)
  with a obtain u' s' e' where l: "(u', s', e') \<in> logins" "payload = session_payload u' s' e'" "is_i64 u'" "is_i32 s'"
    by blast
  from a have "validate_session_cookie mac now' secret v = Some c" by blast
  then show "(sc_user_id c, sc_session_version c, sc_expires_at c) \<in> logins" "now' \<le> sc_expires_at c"
    using l(1) by (simp_all only: v l(2) validate_signed [OF l(3,4)] split: if_splits) auto
qed

definition sample_mac :: "string \<Rightarrow> string \<Rightarrow> string" where
  "sample_mac secret payload = secret @ payload"

lemma session_cookie_exact_witness:
  "validate_session_cookie sample_mac 1500 ''k'' (create_session_cookie sample_mac 1000 ''k'' 7 2 600)
     = Some \<lparr>sc_user_id = 7, sc_session_version = 2, sc_expires_at = 1600\<rparr>
   \<and> validate_session_cookie sample_mac 1601 ''k'' (create_session_cookie sample_mac 1000 ''k'' 7 2 600) = None
   \<and> (7, 2, 1600) \<in> {(7 :: i64, 2 :: int, 1600 :: u64)}"
proof -
  have i: "is_i64 7" "is_i32 2" by (simp_all add: is_i64_def i64_min_def i64_max_def is_i32_def)
  let ?v = "create_session_cookie sample_mac 1000 ''k'' 7 2 600"
  have e: "saturating_add 1000 600 = (1600 :: u64)" by (simp add: saturating_add_def)
  have v: "?v = session_payload 7 2 1600 @ ''.'' @ sign sample_mac ''k'' (session_payload 7 2 1600)"
    unfolding create_session_cookie_def Let_def e ..
  have l: "\<forall>payload. ?v = payload @ ''.'' @ sign sample_mac ''k'' payload \<longrightarrow>
      (\<exists>(u, s, e) \<in> {(7, 2, 1600)}. payload = session_payload u s e \<and> is_i64 u \<and> is_i32 s)"
  proof (intro allI impI)
    fix payload assume "?v = payload @ ''.'' @ sign sample_mac ''k'' payload"
    then have "session_payload 7 2 1600 = payload" unfolding v by (rule signed_unique)
    with i show "\<exists>(u, s, e) \<in> {(7, 2, 1600)}. payload = session_payload u s e \<and> is_i64 u \<and> is_i32 s" by simp
  qed
  note exact = session_cookie_exact [OF i, of sample_mac _ "''k''" 1000 600 ?v _ "{(7, 2, 1600)}", unfolded e]
  have ok: "validate_session_cookie sample_mac 1500 ''k'' ?v
      = Some \<lparr>sc_user_id = 7, sc_session_version = 2, sc_expires_at = 1600\<rparr>"
    using exact [of 1500] by simp
  moreover have "validate_session_cookie sample_mac 1601 ''k'' ?v = None"
    using exact [of 1601] by simp
  moreover have "(7, 2, 1600) \<in> {(7 :: i64, 2 :: int, 1600 :: u64)}"
    using exact [of 1500] ok l by simp
  ultimately show ?thesis by blast
qed

end
