(* ===== verification/Client_Address.thy ===== *)
theory Client_Address
  imports Hub_Strings
begin

text \<open>
  From which address a request comes (\<open>src/src/middleware/auth.rs\<close>). The type of addresses, their parser and
  the networks with their membership are parameters.
\<close>

section \<open>Headers\<close>

text \<open>A \<open>HeaderMap\<close> in wire order; names are in lower case and \<open>get\<close> answers with the first value.\<close>

type_synonym headers = "(string \<times> string) list"

text \<open>\<open>HeaderValue::to_str\<close>: visible ASCII, spaces and tabs.\<close>

definition visible :: "char \<Rightarrow> bool" where
  "visible c \<longleftrightarrow> 32 \<le> byte_of c \<and> byte_of c < 127 \<or> byte_of c = 9"

definition header_str :: "headers \<Rightarrow> string \<Rightarrow> string option" where
  "header_str hs name =
     (case map_of hs name of
        None \<Rightarrow> None
      | Some v \<Rightarrow> if list_all visible v then Some v else None)"

definition max_xff_raw_bytes :: nat where "max_xff_raw_bytes = 1024"
definition max_xff_hops :: nat where "max_xff_hops = 16"
definition max_ip_token_bytes :: nat where "max_ip_token_bytes = 64"
definition max_user_agent_bytes :: nat where "max_user_agent_bytes = 512"
definition max_anthropic_version_bytes :: nat where "max_anthropic_version_bytes = 64"
definition max_anthropic_beta_bytes :: nat where "max_anthropic_beta_bytes = 256"

text \<open>Cutting visible ASCII at any byte is cutting it between characters.\<close>

definition header_truncated :: "headers \<Rightarrow> string \<Rightarrow> nat \<Rightarrow> string option" where
  "header_truncated hs name mx =
     (case header_str hs name of
        None \<Rightarrow> None
      | Some v \<Rightarrow> if trim v = [] then None
                  else if length (trim v) \<le> mx then Some (trim v) else Some (take mx (trim v)))"

definition extract_key_from_headers :: "headers \<Rightarrow> string option" where
  "extract_key_from_headers hs =
     (case header_str hs ''x-api-key'' of
        Some key \<Rightarrow> Some key
      | None \<Rightarrow>
          (case header_str hs ''authorization'' of
             Some auth \<Rightarrow> strip_prefix auth ''Bearer ''
           | None \<Rightarrow> None))"

section \<open>Addresses\<close>

datatype ClientIpSource = Peer | Xff | Xri

fun source_str :: "ClientIpSource \<Rightarrow> string" where
  "source_str Peer = ''peer''"
| "source_str Xff = ''xff''"
| "source_str Xri = ''xri''"

record ResolvedClientIp =
  rc_client_ip :: string
  rc_source :: ClientIpSource
  rc_peer_ip :: string
  rc_forwarded_chain :: "string option"

record ('ip, 'net) ip_env =
  ip_parse :: "string \<Rightarrow> 'ip option"
  ip_in_net :: "'net \<Rightarrow> 'ip \<Rightarrow> bool"

definition ip_is_trusted :: "('ip, 'net) ip_env \<Rightarrow> 'ip \<Rightarrow> 'net list \<Rightarrow> bool" where
  "ip_is_trusted env ip trusted = list_ex (\<lambda>n. ip_in_net env n ip) trusted"

definition truncate_token :: "string \<Rightarrow> string" where
  "truncate_token s =
     (if length (trim s) \<le> max_ip_token_bytes then trim s else take max_ip_token_bytes (trim s))"

definition truncate_chain :: "string \<Rightarrow> string" where
  "truncate_chain s = (if length s \<le> max_xff_raw_bytes then s else take max_xff_raw_bytes s)"

text \<open>The hops are given from the right.\<close>

fun first_untrusted :: "('ip, 'net) ip_env \<Rightarrow> 'net list \<Rightarrow> string list \<Rightarrow> string option" where
  "first_untrusted env trusted [] = None"
| "first_untrusted env trusted (hop # hops) =
     (let token = truncate_token hop in
      if token = [] then first_untrusted env trusted hops
      else case ip_parse env token of
             Some ip \<Rightarrow> if \<not> ip_is_trusted env ip trusted then Some token
                        else first_untrusted env trusted hops
           | None \<Rightarrow> first_untrusted env trusted hops)"

definition forwarded_hop :: "('ip, 'net) ip_env \<Rightarrow> 'net list \<Rightarrow> string \<Rightarrow> string option" where
  "forwarded_hop env trusted raw =
     (let all_hops = split_on (CHR '','') raw;
          scan_start = length all_hops - max_xff_hops
      in first_untrusted env trusted (rev (drop scan_start all_hops)))"

definition resolve_client_ip_from ::
    "('ip, 'net) ip_env \<Rightarrow> headers \<Rightarrow> string \<Rightarrow> 'net list \<Rightarrow> ResolvedClientIp" where
  "resolve_client_ip_from env hs peer_ip trusted =
     (let chain = (case header_str hs ''x-forwarded-for'' of
                     Some v \<Rightarrow> if trim v \<noteq> [] then Some (truncate_chain v) else None
                   | None \<Rightarrow> None);
          peer_trusted = (case ip_parse env peer_ip of Some ip \<Rightarrow> ip_is_trusted env ip trusted | None \<Rightarrow> False);
          found = (\<lambda>ip src. \<lparr>rc_client_ip = ip, rc_source = src, rc_peer_ip = peer_ip, rc_forwarded_chain = chain\<rparr>)
      in if \<not> peer_trusted then found peer_ip Peer
         else case Option.bind chain (forwarded_hop env trusted) of
                Some token \<Rightarrow> found token Xff
              | None \<Rightarrow>
                  (case map_option truncate_token (header_str hs ''x-real-ip'') of
                     Some xri \<Rightarrow> if xri \<noteq> [] then found xri Xri else found peer_ip Peer
                   | None \<Rightarrow> found peer_ip Peer))"

definition resolve_client_ip ::
    "('ip, 'net) ip_env \<Rightarrow> headers \<Rightarrow> string option \<Rightarrow> 'net list \<Rightarrow> ResolvedClientIp" where
  "resolve_client_ip env hs connect_info trusted =
     resolve_client_ip_from env hs (case connect_info of Some ip \<Rightarrow> ip | None \<Rightarrow> ''0.0.0.0'') trusted"

section \<open>Who chooses the address\<close>

definition skipped_hop :: "('ip, 'net) ip_env \<Rightarrow> 'net list \<Rightarrow> string \<Rightarrow> bool" where
  "skipped_hop env trusted hop \<longleftrightarrow>
     truncate_token hop = []
     \<or> (case ip_parse env (truncate_token hop) of None \<Rightarrow> True | Some ip \<Rightarrow> ip_is_trusted env ip trusted)"

definition client_hop :: "('ip, 'net) ip_env \<Rightarrow> 'net list \<Rightarrow> string \<Rightarrow> bool" where
  "client_hop env trusted hop \<longleftrightarrow> \<not> skipped_hop env trusted hop"

lemma first_untrusted_skip:
  "list_all (skipped_hop env trusted) xs \<Longrightarrow> client_hop env trusted h
   \<Longrightarrow> first_untrusted env trusted (xs @ h # ys) = Some (truncate_token h)"
  by (induction xs) (auto simp: skipped_hop_def client_hop_def Let_def split: option.splits if_splits)

lemma first_untrusted_SomeD:
  "first_untrusted env trusted hops = Some t
   \<Longrightarrow> \<exists>h \<in> set hops. client_hop env trusted h \<and> t = truncate_token h"
  by (induction hops) (auto simp: skipped_hop_def client_hop_def Let_def split: option.splits if_splits)

lemma split_on_concat: "split_on d (pre @ d # s) = split_on d pre @ split_on d s"
proof (induction pre)
  case (Cons c cs)
  then show ?case by (cases "split_on d cs"; cases "split_on d s") auto
qed (auto split: list.splits)

lemma forwarded_hop_appended:
  assumes "raw = join_with '','' (h # infra) \<or> raw = pre @ '','' @ join_with '','' (h # infra)"
    and "\<forall>x \<in> set (h # infra). CHR '','' \<notin> set x" and "length infra < max_xff_hops"
    and "list_all (skipped_hop env trusted) infra" and "client_hop env trusted h"
  shows "forwarded_hop env trusted raw = Some (truncate_token h)"
proof -
  have "split_on (CHR '','') (join_with '','' (h # infra)) = h # infra"
    by (rule split_on_join) (use assms(2) in auto)
  then obtain us where s: "split_on (CHR '','') raw = us @ h # infra"
    using assms(1) by (auto simp: split_on_concat)
  let ?n = "length (us @ h # infra) - max_xff_hops"
  have "?n \<le> length us" using assms(3) by simp
  then have "rev (drop ?n (us @ h # infra)) = rev infra @ h # rev (drop ?n us)"
    by simp
  moreover have "list_all (skipped_hop env trusted) (rev infra)" using assms(4) by (simp add: list_all_iff)
  ultimately show ?thesis
    unfolding forwarded_hop_def Let_def s using first_untrusted_skip assms(5) by metis
qed

definition peer_trusted :: "('ip, 'net) ip_env \<Rightarrow> 'net list \<Rightarrow> string \<Rightarrow> bool" where
  "peer_trusted env trusted peer_ip \<longleftrightarrow>
     (case ip_parse env peer_ip of Some ip \<Rightarrow> ip_is_trusted env ip trusted | None \<Rightarrow> False)"

lemma resolve_untrusted:
  "\<not> peer_trusted env trusted peer_ip \<Longrightarrow>
   rc_client_ip (resolve_client_ip_from env hs peer_ip trusted) = peer_ip
   \<and> rc_source (resolve_client_ip_from env hs peer_ip trusted) = Peer"
  by (simp add: resolve_client_ip_from_def peer_trusted_def Let_def)

lemma resolve_forwarded:
  assumes "peer_trusted env trusted peer_ip" and "header_str hs ''x-forwarded-for'' = Some raw" and "trim raw \<noteq> []"
    and "forwarded_hop env trusted (truncate_chain raw) = Some token"
  shows "rc_client_ip (resolve_client_ip_from env hs peer_ip trusted) = token
    \<and> rc_source (resolve_client_ip_from env hs peer_ip trusted) = Xff"
  using assms by (simp add: resolve_client_ip_from_def peer_trusted_def Let_def)

text \<open>
  A caller does not choose its address: a direct caller is known by its peer address whatever headers it
  sends; and behind trusted proxies that append to \<open>X-Forwarded-For\<close>, the address is the one that the
  outermost of at most sixteen trusted proxies saw, whatever the caller put in front of it, as long as the
  header has at most 1024 bytes.
\<close>

theorem client_address_not_chosen:
  assumes "peer_trusted env trusted peer_ip \<longrightarrow> header_str hs ''x-forwarded-for'' = Some raw"
    and "raw = join_with '','' (h # infra) \<or> raw = pre @ '','' @ join_with '','' (h # infra)"
    and "\<forall>x \<in> set (h # infra). CHR '','' \<notin> set x" and "length infra < max_xff_hops"
    and "list_all (skipped_hop env trusted) infra" and "client_hop env trusted h"
    and "trim raw \<noteq> []" and "length raw \<le> max_xff_raw_bytes"
  shows "rc_client_ip (resolve_client_ip_from env hs peer_ip trusted)
      = (if peer_trusted env trusted peer_ip then truncate_token h else peer_ip)
    \<and> rc_source (resolve_client_ip_from env hs peer_ip trusted)
      = (if peer_trusted env trusted peer_ip then Xff else Peer)"
proof (cases "peer_trusted env trusted peer_ip")
  case True
  have "truncate_chain raw = raw" using assms(8) by (simp add: truncate_chain_def)
  then have "forwarded_hop env trusted (truncate_chain raw) = Some (truncate_token h)"
    using forwarded_hop_appended assms(2-6) by metis
  from resolve_forwarded [OF True assms(1) [rule_format, OF True] assms(7) this] True show ?thesis by simp
next
  case False
  with resolve_untrusted [OF False] show ?thesis by simp
qed

text \<open>
  The bound on the length matters: the chain is cut from the right, before the hops are read from the
  right, so a caller that sends a long header chooses its address, whatever the proxies append.
\<close>

lemma long_chain_spoofs:
  assumes "peer_trusted env trusted peer_ip" and "client_hop env trusted ip" and "truncate_token ip = ip"
    and "CHR '','' \<notin> set ip" and "list_all visible ip" and "length ip \<le> 64"
  shows "\<exists>pre. \<forall>appended. list_all visible appended \<and> trim (pre @ appended) \<noteq> []
      \<and> map_of hs ''x-forwarded-for'' = Some (pre @ appended) \<longrightarrow>
        rc_client_ip (resolve_client_ip_from env hs peer_ip trusted) = ip"
proof (intro exI allI impI; elim conjE)
  let ?pre = "replicate (1023 - length ip) (CHR '' '') @ '','' @ ip"
  fix appended
  assume v: "list_all visible appended" and t: "trim (?pre @ appended) \<noteq> []"
    and h: "map_of hs ''x-forwarded-for'' = Some (?pre @ appended)"
  have "visible (CHR '' '')" "visible (CHR '','')" by (simp_all add: visible_def)
  then have "list_all visible (?pre @ appended)" using assms(5) v by (auto simp: list_all_iff)
  with h have hs: "header_str hs ''x-forwarded-for'' = Some (?pre @ appended)"
    by (simp add: header_str_def del: append_assoc)
  have "length ?pre = max_xff_raw_bytes" using assms(6) by (simp add: max_xff_raw_bytes_def)
  then have c: "truncate_chain (?pre @ appended) = ?pre"
    by (auto simp: truncate_chain_def simp del: append_assoc)
  have "forwarded_hop env trusted ?pre = Some (truncate_token ip)"
    by (rule forwarded_hop_appended [where infra = "[]"]) (use assms(2,4) in \<open>auto simp: max_xff_hops_def\<close>)
  then have "forwarded_hop env trusted (truncate_chain (?pre @ appended)) = Some ip"
    by (simp only: c assms(3))
  from resolve_forwarded [OF assms(1) hs t this]
  show "rc_client_ip (resolve_client_ip_from env hs peer_ip trusted) = ip" by blast
qed

text \<open>Addresses are one letter in this sample; capitals belong to the trusted network.\<close>

definition sample_ip_env :: "(char, unit) ip_env" where
  "sample_ip_env = \<lparr>ip_parse = (\<lambda>s. case s of [c] \<Rightarrow> Some c | _ \<Rightarrow> None), ip_in_net = (\<lambda>_ c. is_ascii_upper c)\<rparr>"

lemma client_address_not_chosen_witness:
  "rc_client_ip (resolve_client_ip_from sample_ip_env [(''x-forwarded-for'', ''z,y, c, P'')] ''Q'' [()]) = ''c''
   \<and> rc_source (resolve_client_ip_from sample_ip_env [(''x-forwarded-for'', ''z,y, c, P'')] ''Q'' [()]) = Xff"
proof -
  have p: "peer_trusted sample_ip_env [()] ''Q''"
    and h: "header_str [(''x-forwarded-for'', ''z,y, c, P'')] ''x-forwarded-for'' = Some ''z,y, c, P''"
    and i: "list_all (skipped_hop sample_ip_env [()]) ['' P'']" and c: "client_hop sample_ip_env [()] '' c''"
    and t: "trim ''z,y, c, P'' \<noteq> []" and k: "truncate_token '' c'' = ''c''"
    by code_simp+
  show ?thesis
    using client_address_not_chosen [where env = sample_ip_env and trusted = "[()]" and peer_ip = "''Q''"
        and hs = "[(''x-forwarded-for'', ''z,y, c, P'')]" and h = "'' c''" and infra = "['' P'']"
        and pre = "''z,y''", OF impI [OF h] _ _ _ i c t] p k
    by (simp add: max_xff_hops_def max_xff_raw_bytes_def)
qed

end
