(* ===== verification/Auth_Requests.thy ===== *)
theory Auth_Requests
  imports Auth_Tables Session_Cookie Client_Address Claude_Preprocess
begin

text \<open>
  Who may do what: API keys (\<open>src/src/db/api_key.rs\<close>, \<open>src/src/db/queries.rs\<close>) and the extractors that guard the
  routes (\<open>src/src/middleware/auth.rs\<close>). The hash of a key and the random indices of a new one are arguments.
\<close>

section \<open>API keys\<close>

definition key_prefix :: string where "key_prefix = ''sk-''"
definition key_body_len :: nat where "key_body_len = 40"
definition lookup_key_len :: nat where "lookup_key_len = 8"

definition charset :: string where
  "charset = ''abcdefghijkmnpqrstuvwxyzABCDEFGHJKLMNPQRSTUVWXYZ23456789''"

text \<open>\<open>draws\<close> are the \<open>KEY_BODY_LEN\<close> random indices.\<close>

definition generate_api_key :: "(string \<Rightarrow> string) \<Rightarrow> nat list \<Rightarrow> string \<times> string \<times> string" where
  "generate_api_key blake3 draws =
     (let body = map (\<lambda>i. charset ! i) draws; plaintext = key_prefix @ body
      in (plaintext, take lookup_key_len body, blake3 plaintext))"

text \<open>A key is visible ASCII here, so the cut after eight bytes is between characters.\<close>

definition parse_api_key :: "(string \<Rightarrow> string) \<Rightarrow> string \<Rightarrow> (string \<times> string) option" where
  "parse_api_key blake3 key =
     (case strip_prefix key key_prefix of
        None \<Rightarrow> None
      | Some body \<Rightarrow> if length body < lookup_key_len then None else Some (take lookup_key_len body, blake3 key))"

text \<open>SQL compares texts byte by byte.\<close>

fun text_less :: "string \<Rightarrow> string \<Rightarrow> bool" where
  "text_less _ [] = False"
| "text_less [] (_ # _) = True"
| "text_less (a # as) (b # bs) = (byte_of a < byte_of b \<or> a = b \<and> text_less as bs)"

definition key_valid :: "string \<Rightarrow> key_row \<Rightarrow> bool" where
  "key_valid now k \<longleftrightarrow> ak_disabled_at k = None \<and> (case ak_expires_at k of None \<Rightarrow> True | Some t \<Rightarrow> text_less now t)"

text \<open>The driver refuses a column that does not fit the 32 bits of the struct.\<close>

definition decode_i32 :: "i64 \<Rightarrow> int option" where
  "decode_i32 n = (if is_i32 n then Some n else None)"

definition key_owner :: "hub_db \<Rightarrow> key_row \<Rightarrow> (user_row \<times> policy_row) option" where
  "key_owner db k =
     (case user_by_id db (ak_user_id k) of
        None \<Rightarrow> None
      | Some u \<Rightarrow> if us_disabled_at u \<noteq> None then None
                  else map_option (Pair u) (policy_by_id db (us_policy_id u)))"

definition authenticate_api_key ::
    "db_env \<Rightarrow> hub_db \<Rightarrow> string \<Rightarrow> string \<Rightarrow> ClewdrError + AuthenticatedUser option" where
  "authenticate_api_key env db lookup_key full_key_hash =
     try_then (io_step env 0) (\<lambda>_.
       case find (\<lambda>k. ak_lookup_key k = lookup_key \<and> key_valid (de_now env) k \<and> key_owner db k \<noteq> None) (hd_keys db) of
         None \<Rightarrow> Inr None
       | Some k \<Rightarrow>
           (case key_owner db k of
              None \<Rightarrow> Inr None
            | Some (u, p) \<Rightarrow>
                (case (decode_i32 (po_max_concurrent p), decode_i32 (po_rpm_limit p)) of
                   (Some mx, Some rpm) \<Rightarrow>
                     if length (ak_key_hash k) \<noteq> 32 \<or> ak_key_hash k \<noteq> full_key_hash then Inr None
                     else try_then (io_step env 1) (\<lambda>_. Inr (Some
                       \<lparr>u_user_id = us_id u, u_username = us_username u, u_role = us_role u,
                        u_api_key_id = Some (ak_id k), u_policy_id = us_policy_id u, u_max_concurrent = mx,
                        u_rpm_limit = rpm, u_weekly_budget_nanousd = po_weekly_budget_nanousd p,
                        u_monthly_budget_nanousd = po_monthly_budget_nanousd p,
                        u_bound_account_ids = map snd (filter (\<lambda>b. fst b = ak_id k) (hd_bindings db)),
                        u_auto_cache_enabled = (ak_auto_cache_enabled k \<noteq> 0),
                        u_enhanced_audit_enabled = (ak_enhanced_audit_enabled k \<noteq> 0)\<rparr>))
                 | _ \<Rightarrow> Inl (de_decode env))))"

definition touch_api_key :: "db_env \<Rightarrow> hub_db \<Rightarrow> i64 \<Rightarrow> string option \<Rightarrow> ClewdrError + hub_db" where
  "touch_api_key env db api_key_id ip =
     try_then (io_step env 0) (\<lambda>_.
       Inr (update_key api_key_id (\<lambda>k. k\<lparr>ak_last_used_at := Some (de_now env), ak_last_used_ip := ip\<rparr>) db))"

definition touch_user :: "db_env \<Rightarrow> hub_db \<Rightarrow> i64 \<Rightarrow> ClewdrError + hub_db" where
  "touch_user env db user_id =
     try_then (io_step env 0) (\<lambda>_. Inr (update_user user_id (\<lambda>u. u\<lparr>us_last_seen_at := Some (de_now env)\<rparr>) db))"

definition new_key :: "db_env \<Rightarrow> i64 \<Rightarrow> string option \<Rightarrow> string \<Rightarrow> string \<Rightarrow> string \<Rightarrow> key_row" where
  "new_key env user_id label plaintext lookup_key key_hash =
     \<lparr>ak_id = 0, ak_user_id = user_id, ak_label = label, ak_lookup_key = lookup_key, ak_key_hash = key_hash,
      ak_disabled_at = None, ak_expires_at = None, ak_last_used_at = None, ak_last_used_ip = None,
      ak_created_at = de_now env, ak_plaintext_key = Some plaintext, ak_auto_cache_enabled = 0,
      ak_enhanced_audit_enabled = 0\<rparr>"

text \<open>\<open>None\<close>: every draw collided and the loop goes on.\<close>

fun create_api_key ::
    "db_env \<Rightarrow> (string \<Rightarrow> string) \<Rightarrow> hub_db \<Rightarrow> i64 \<Rightarrow> string option \<Rightarrow> nat \<Rightarrow> nat list list
      \<Rightarrow> (ClewdrError + string \<times> hub_db) option" where
  "create_api_key env blake3 db user_id label n [] = None"
| "create_api_key env blake3 db user_id label n (draws # later) =
     (case generate_api_key blake3 draws of (plaintext, lookup_key, key_hash) \<Rightarrow>
      (case io_step env n of
         Inl e \<Rightarrow> Some (Inl e)
       | Inr _ \<Rightarrow>
           (case insert_key db (new_key env user_id label plaintext lookup_key key_hash) of
              Inr db' \<Rightarrow> Some (Inr (plaintext, db'))
            | Inl Unique_Error \<Rightarrow> create_api_key env blake3 db user_id label (Suc n) later
            | Inl Constraint_Error \<Rightarrow> Some (Inl (de_from env Constraint_Error)))))"

section \<open>Requests with a key\<close>

datatype touch = Touch_Key i64 string | Touch_User i64

record flexible_auth =
  fa_user :: AuthenticatedUser
  fa_resolved :: ResolvedClientIp
  fa_audit :: "RequestAuditSnapshot option"
  fa_touches :: "touch list"

definition audit_snapshot :: "headers \<Rightarrow> ResolvedClientIp \<Rightarrow> RequestAuditSnapshot" where
  "audit_snapshot hs r =
     \<lparr>au_peer_ip = rc_peer_ip r, au_client_ip = rc_client_ip r, au_ip_source = source_str (rc_source r),
      au_forwarded_chain = rc_forwarded_chain r,
      au_user_agent = header_truncated hs ''user-agent'' max_user_agent_bytes,
      au_anthropic_version = header_truncated hs ''anthropic-version'' max_anthropic_version_bytes,
      au_anthropic_beta = header_truncated hs ''anthropic-beta'' max_anthropic_beta_bytes,
      au_api_surface = None,
      au_content_length = Option.bind (header_str hs ''content-length'') parse_i64\<rparr>"

definition require_flexible_auth ::
    "db_env \<Rightarrow> (string \<Rightarrow> string) \<Rightarrow> ('ip, 'net) ip_env \<Rightarrow> 'net list \<Rightarrow> hub_db \<Rightarrow> headers \<Rightarrow> string option
      \<Rightarrow> ClewdrError + flexible_auth" where
  "require_flexible_auth env blake3 ips trusted db hs connect_info =
     (case extract_key_from_headers hs of
        None \<Rightarrow> Inl InvalidAuth
      | Some key \<Rightarrow>
          (case parse_api_key blake3 key of
             None \<Rightarrow> Inl InvalidAuth
           | Some (lookup, hash) \<Rightarrow>
               (case authenticate_api_key env db lookup hash of
                  Inr (Some u) \<Rightarrow>
                    (let r = resolve_client_ip ips hs connect_info trusted in
                     Inr \<lparr>fa_user = u, fa_resolved = r,
                          fa_audit = (if u_enhanced_audit_enabled u then Some (audit_snapshot hs r) else None),
                          fa_touches = (case u_api_key_id u of Some i \<Rightarrow> [Touch_Key i (rc_client_ip r)] | None \<Rightarrow> [])
                            @ [Touch_User (u_user_id u)]\<rparr>)
                | _ \<Rightarrow> Inl InvalidAuth)))"

text \<open>The spawned updates: a failure is ignored.\<close>

definition run_touch :: "db_env \<Rightarrow> touch \<Rightarrow> hub_db \<Rightarrow> hub_db" where
  "run_touch env t db =
     (case (case t of Touch_Key i ip \<Rightarrow> touch_api_key env db i (Some ip) | Touch_User i \<Rightarrow> touch_user env db i) of
        Inl _ \<Rightarrow> db | Inr db' \<Rightarrow> db')"

definition require_flexible_auth_openai ::
    "(ClewdrError \<Rightarrow> string) \<Rightarrow> ClewdrError + flexible_auth \<Rightarrow> OpenAIRequestError + flexible_auth" where
  "require_flexible_auth_openai display r =
     (case r of
        Inr a \<Rightarrow> Inr a
      | Inl e \<Rightarrow> Inl \<lparr>req_status = 401, req_body = invalid_request (display e)\<rparr>)"

section \<open>Requests of administrators\<close>

record admin_session =
  as_claims :: SessionClaims
  as_must_change_password :: bool
  as_user :: AuthenticatedUser

record session_env =
  se_mac :: "string \<Rightarrow> string \<Rightarrow> string"
  se_secret :: string
  se_now :: u64

definition require_admin_session ::
    "db_env \<Rightarrow> session_env \<Rightarrow> hub_db \<Rightarrow> headers \<Rightarrow> ClewdrError + admin_session" where
  "require_admin_session env se db hs =
     (case Option.bind (extract_session_cookie (case header_str hs ''cookie'' of Some c \<Rightarrow> c | None \<Rightarrow> []))
             (validate_session_cookie (se_mac se) (se_now se) (se_secret se)) of
        None \<Rightarrow> Inl InvalidAuth
      | Some claims \<Rightarrow>
          if de_io env 0 \<noteq> None then Inl InvalidAuth
          else (case user_by_id db (sc_user_id claims) of
             None \<Rightarrow> Inl InvalidAuth
           | Some u \<Rightarrow>
               (case (decode_i32 (us_session_version u), decode_i32 (us_must_change_password u)) of
                  (Some version, Some must_change) \<Rightarrow>
                    if us_disabled_at u \<noteq> None \<or> us_role u \<noteq> ''admin'' \<or> version \<noteq> sc_session_version claims
                    then Inl InvalidAuth
                    else if de_io env 1 \<noteq> None then Inl InvalidAuth
                    else (case policy_by_id db (us_policy_id u) of
                       None \<Rightarrow> Inl InvalidAuth
                     | Some p \<Rightarrow>
                         (case (decode_i32 (po_max_concurrent p), decode_i32 (po_rpm_limit p)) of
                            (Some mx, Some rpm) \<Rightarrow>
                              Inr \<lparr>as_claims = claims, as_must_change_password = (must_change \<noteq> 0),
                                   as_user = \<lparr>u_user_id = us_id u, u_username = us_username u, u_role = us_role u,
                                     u_api_key_id = None, u_policy_id = us_policy_id u, u_max_concurrent = mx,
                                     u_rpm_limit = rpm, u_weekly_budget_nanousd = po_weekly_budget_nanousd p,
                                     u_monthly_budget_nanousd = po_monthly_budget_nanousd p,
                                     u_bound_account_ids = [], u_auto_cache_enabled = False,
                                     u_enhanced_audit_enabled = False\<rparr>\<rparr>
                          | _ \<Rightarrow> Inl InvalidAuth))
                | _ \<Rightarrow> Inl InvalidAuth)))"

definition require_admin_auth ::
    "db_env \<Rightarrow> session_env \<Rightarrow> hub_db \<Rightarrow> headers \<Rightarrow> ClewdrError + admin_session" where
  "require_admin_auth env se db hs =
     try_then (require_admin_session env se db hs) (\<lambda>s.
       if as_must_change_password s then Inl PasswordChangeRequired else Inr s)"

end
