(* ===== verification/Admin_Login.thy ===== *)
theory Admin_Login
  imports Auth_Requests
begin

text \<open>
  The login of administrators and its limiter (\<open>src/src/api/auth.rs\<close>), and the events of \<open>src/src/state.rs\<close>. Instants
  are nanoseconds of the monotonic clock; the verification of a password is an argument.
\<close>

section \<open>The limiter\<close>

definition login_window :: nat where "login_window = 600 * 1000000000"
definition max_login_failures :: u32 where "max_login_failures = 10"
definition max_tracked_login_ips :: nat where "max_tracked_login_ips = 4096"
definition login_verifiers :: nat where "login_verifiers = 2"

record LoginFailures =
  lf_count :: u32
  lf_window_started :: nat

type_synonym login_failures = "(string, LoginFailures) hash_map"

definition login_retry_after :: "nat \<Rightarrow> string \<Rightarrow> login_failures \<Rightarrow> u64 option \<times> login_failures" where
  "login_retry_after now ip fs =
     (case hm_get fs ip of
        None \<Rightarrow> (None, fs)
      | Some e \<Rightarrow>
          (let elapsed = now - lf_window_started e in
           if login_window \<le> elapsed then (None, hm_remove ip fs)
           else if lf_count e < max_login_failures then (None, fs)
           else (Some (of_nat (max 1 ((login_window - elapsed) div 1000000000))), fs)))"

definition live_failures :: "nat \<Rightarrow> login_failures \<Rightarrow> login_failures" where
  "live_failures now fs = filter (\<lambda>(_, e). now - lf_window_started e < login_window) fs"

definition record_login_failure :: "nat \<Rightarrow> string \<Rightarrow> login_failures \<Rightarrow> login_failures" where
  "record_login_failure now ip fs =
     (let fs = live_failures now fs in
      if \<not> hm_contains fs ip \<and> max_tracked_login_ips \<le> length fs then fs
      else let e = (case hm_get fs ip of
                      Some e \<Rightarrow> e
                    | None \<Rightarrow> \<lparr>lf_count = 0, lf_window_started = now\<rparr>);
               e = (if login_window \<le> now - lf_window_started e
                    then \<lparr>lf_count = 0, lf_window_started = now\<rparr> else e)
           in hm_insert ip (e\<lparr>lf_count := saturating_add (lf_count e) 1\<rparr>) fs)"

section \<open>Events\<close>

record AdminEvent =
  ev_topic :: string
  ev_request_type :: "string option"
  ev_status :: "string option"
  ev_user_id :: "i64 option"

definition event_request_log :: "string \<Rightarrow> string \<Rightarrow> AdminEvent" where
  "event_request_log request_type status =
     \<lparr>ev_topic = ''request_logs'', ev_request_type = Some request_type, ev_status = Some status, ev_user_id = None\<rparr>"

definition event_request_logs_refresh :: AdminEvent where
  "event_request_logs_refresh =
     \<lparr>ev_topic = ''request_logs'', ev_request_type = None, ev_status = None, ev_user_id = None\<rparr>"

definition event_accounts_refresh :: AdminEvent where
  "event_accounts_refresh = \<lparr>ev_topic = ''accounts'', ev_request_type = None, ev_status = None, ev_user_id = None\<rparr>"

definition event_user_usage_reset :: "i64 \<Rightarrow> AdminEvent" where
  "event_user_usage_reset user_id =
     \<lparr>ev_topic = ''users'', ev_request_type = None, ev_status = Some ''usage_reset'', ev_user_id = Some user_id\<rparr>"

definition event_auth_revoked :: "string \<Rightarrow> AdminEvent" where
  "event_auth_revoked reason =
     \<lparr>ev_topic = ''auth'', ev_request_type = None, ev_status = Some reason, ev_user_id = None\<rparr>"

section \<open>Login\<close>

record LoginResponse =
  lr_user_id :: i64
  lr_username :: string
  lr_role :: string
  lr_must_change_password :: bool
  lr_expires_at :: u64

record login_env =
  le_db :: db_env
  le_session :: session_env
  le_ttl_hours :: u64
  le_cookie_secure :: bool
  le_verify :: "string \<Rightarrow> string \<Rightarrow> bool"

text \<open>\<open>u64::saturating_mul\<close>.\<close>

definition saturating_mul :: "u64 \<Rightarrow> u64 \<Rightarrow> u64" where
  "saturating_mul a b = (if unat a * unat b < 2 ^ 64 then a * b else - 1)"

text \<open>The user whose password is to be verified: id, hash, session version and the flag, or nobody.\<close>

definition login_candidate ::
    "db_env \<Rightarrow> hub_db \<Rightarrow> string \<Rightarrow> ClewdrError + (user_row \<times> string \<times> int \<times> int) option" where
  "login_candidate env db username =
     try_then (io_step env 0) (\<lambda>_.
       case find (\<lambda>u. us_username u = username \<and> us_disabled_at u = None) (hd_users db) of
         None \<Rightarrow> Inr None
       | Some u \<Rightarrow>
           (case (decode_i32 (us_must_change_password u), decode_i32 (us_session_version u)) of
              (Some must_change, Some version) \<Rightarrow>
                (if us_role u \<noteq> ''admin'' then Inr None
                 else Inr (map_option (\<lambda>h. (u, h, must_change, version)) (us_password_hash u)))
            | _ \<Rightarrow> Inl (de_decode env)))"

text \<open>The cookie and the body of a verified login.\<close>

definition login_success ::
    "login_env \<Rightarrow> user_row \<Rightarrow> int \<Rightarrow> int \<Rightarrow> ClewdrError + string \<times> LoginResponse" where
  "login_success le u must_change version =
     (let se = le_session le;
          ttl = saturating_mul (le_ttl_hours le) 3600;
          cookie = create_session_cookie (se_mac se) (se_now se) (se_secret se) (us_id u) version ttl
      in case validate_session_cookie (se_mac se) (se_now se) (se_secret se) cookie of
           None \<Rightarrow> Inl InvalidAuth
         | Some claims \<Rightarrow>
             Inr (set_cookie_header cookie ttl (le_cookie_secure le),
                  \<lparr>lr_user_id = us_id u, lr_username = us_username u, lr_role = us_role u,
                   lr_must_change_password = (must_change \<noteq> 0), lr_expires_at = sc_expires_at claims\<rparr>))"

text \<open>
  The steps of one login: the check of the limiter; the look-up, which either ends the login or takes a
  verifier; the verification. \<open>busy\<close> counts the verifiers in use. Other logins run between them.
\<close>

definition login_check :: "nat \<Rightarrow> string \<Rightarrow> login_failures \<Rightarrow> (ClewdrError + unit) \<times> login_failures" where
  "login_check now ip fs =
     (case login_retry_after now ip fs of
        (Some wait, fs') \<Rightarrow> (Inl (LoginRateLimited wait), fs')
      | (None, fs') \<Rightarrow> (Inr (), fs'))"

definition login_lookup ::
    "db_env \<Rightarrow> hub_db \<Rightarrow> nat \<Rightarrow> string \<Rightarrow> string \<Rightarrow> nat \<Rightarrow> login_failures
      \<Rightarrow> (ClewdrError + user_row \<times> string \<times> int \<times> int) \<times> nat \<times> login_failures" where
  "login_lookup env db now ip username busy fs =
     (case login_candidate env db username of
        Inl e \<Rightarrow> (Inl e, busy, fs)
      | Inr None \<Rightarrow> (Inl InvalidAuth, busy, record_login_failure now ip fs)
      | Inr (Some c) \<Rightarrow>
          if login_verifiers \<le> busy then (Inl (LoginRateLimited 1), busy, fs) else (Inr c, Suc busy, fs))"

text \<open>The verifier is given back when the handler ends, that is with this step.\<close>

definition login_verify ::
    "login_env \<Rightarrow> nat \<Rightarrow> string \<Rightarrow> string \<Rightarrow> user_row \<times> string \<times> int \<times> int \<Rightarrow> nat \<Rightarrow> login_failures
      \<Rightarrow> (ClewdrError + string \<times> LoginResponse) \<times> nat \<times> login_failures \<times> touch list" where
  "login_verify le now ip password c busy fs =
     (case c of (u, hash, must_change, version) \<Rightarrow>
        if \<not> le_verify le password hash then (Inl InvalidAuth, busy - 1, record_login_failure now ip fs, [])
        else let r = login_success le u must_change version
             in (r, busy - 1, hm_remove ip fs, if isl r then [] else [Touch_User (us_id u)]))"

text \<open>The handler without interruption.\<close>

definition login ::
    "login_env \<Rightarrow> hub_db \<Rightarrow> nat \<Rightarrow> string \<Rightarrow> string \<Rightarrow> string \<Rightarrow> nat \<Rightarrow> login_failures
      \<Rightarrow> (ClewdrError + string \<times> LoginResponse) \<times> login_failures \<times> touch list" where
  "login le db now ip username password busy fs =
     (case login_check now ip fs of
        (Inl e, fs1) \<Rightarrow> (Inl e, fs1, [])
      | (Inr _, fs1) \<Rightarrow>
          (case login_lookup (le_db le) db now ip username busy fs1 of
             (Inl e, _, fs2) \<Rightarrow> (Inl e, fs2, [])
           | (Inr c, busy', fs2) \<Rightarrow>
               (case login_verify le now ip password c busy' fs2 of
                  (r, _, fs3, touches) \<Rightarrow> (r, fs3, touches))))"

definition current_session :: "admin_session \<Rightarrow> LoginResponse" where
  "current_session s =
     \<lparr>lr_user_id = u_user_id (as_user s), lr_username = u_username (as_user s), lr_role = u_role (as_user s),
      lr_must_change_password = as_must_change_password s, lr_expires_at = sc_expires_at (as_claims s)\<rparr>"

definition logout :: "bool \<Rightarrow> string" where
  "logout cookie_secure = clear_cookie_header cookie_secure"

text \<open>\<open>session_version + 1\<close>, for a row that is an administrator.\<close>

definition bump_session :: "db_env \<Rightarrow> i64 \<Rightarrow> hub_db \<Rightarrow> hub_db" where
  "bump_session env user_id db =
     update_user user_id (\<lambda>u. if us_role u = ''admin''
        then u\<lparr>us_session_version := us_session_version u + 1, us_updated_at := de_now env\<rparr> else u) db"

definition logout_all :: "db_env \<Rightarrow> bool \<Rightarrow> i64 \<Rightarrow> hub_db \<Rightarrow> ClewdrError + string \<times> AdminEvent \<times> hub_db" where
  "logout_all env cookie_secure user_id db =
     try_then (io_step env 0) (\<lambda>_.
       Inr (clear_cookie_header cookie_secure, event_auth_revoked ''logout_all'', bump_session env user_id db))"

section \<open>Concurrent logins\<close>

record limiter_state =
  li_failures :: login_failures
  li_busy :: nat
  li_clock :: nat

datatype login_event =
    Tick
  | Checked string "ClewdrError + unit"
  | Failed string
  | Cleared string
  | Other

text \<open>The steps of all logins in any order, on any state of the tables.\<close>

inductive login_step :: "login_env \<Rightarrow> limiter_state \<Rightarrow> login_event \<Rightarrow> limiter_state \<Rightarrow> bool"
  for le :: login_env where
  tick: "li_clock s \<le> t \<Longrightarrow> login_step le s Tick (s\<lparr>li_clock := t\<rparr>)"
| check: "login_check (li_clock s) ip (li_failures s) = (r, fs)
    \<Longrightarrow> login_step le s (Checked ip r) (s\<lparr>li_failures := fs\<rparr>)"
| lookup: "login_lookup (le_db le) db (li_clock s) ip name (li_busy s) (li_failures s) = (r, busy, fs)
    \<Longrightarrow> login_step le s (if login_candidate (le_db le) db name = Inr None then Failed ip else Other)
          (s\<lparr>li_failures := fs, li_busy := busy\<rparr>)"
| verify: "login_verify le (li_clock s) ip password (u, h, m, v) (li_busy s) (li_failures s) = (r, busy, fs, touches)
    \<Longrightarrow> 0 < li_busy s
    \<Longrightarrow> login_step le s (if le_verify le password h then Cleared ip else Failed ip)
          (s\<lparr>li_failures := fs, li_busy := busy\<rparr>)"

definition login_limiter_ok :: "limiter_state \<Rightarrow> bool" where
  "login_limiter_ok s \<longleftrightarrow> hm_wf (li_failures s) \<and> length (li_failures s) \<le> max_tracked_login_ips
     \<and> li_busy s \<le> login_verifiers"

lemma length_hm_insert: "length (hm_insert k v m) = (if hm_contains m k then length m else Suc (length m))"
  by (induction m) auto

lemma live_keeps:
  "length (live_failures now fs) \<le> length fs" "hm_wf fs \<Longrightarrow> hm_wf (live_failures now fs)"
  unfolding live_failures_def by (rule length_filter_le, induction fs, auto)

lemma live_get:
  assumes "hm_wf fs"
  shows "hm_get (live_failures now fs) ip =
    (case hm_get fs ip of
       Some e \<Rightarrow> if now - lf_window_started e < login_window then Some e else None
     | None \<Rightarrow> None)"
  using assms by (induction fs) (auto simp: live_failures_def map_of_eq_None_iff split: option.splits)

lemma record_keeps:
  assumes "hm_wf fs" and "length fs \<le> max_tracked_login_ips"
  shows "hm_wf (record_login_failure now ip fs)" "length (record_login_failure now ip fs) \<le> max_tracked_login_ips"
    "length (record_login_failure now ip fs) \<le> Suc (length fs)"
proof -
  note l = live_keeps(1) [of now fs]
  show "hm_wf (record_login_failure now ip fs)"
    using live_keeps(2) [OF assms(1)] by (simp add: record_login_failure_def Let_def)
  show "length (record_login_failure now ip fs) \<le> max_tracked_login_ips"
    "length (record_login_failure now ip fs) \<le> Suc (length fs)"
    using l assms(2) by (auto simp: record_login_failure_def Let_def length_hm_insert)
qed

lemma retry_keeps:
  assumes "login_retry_after now ip fs = (r, fs')"
  shows "hm_wf fs \<Longrightarrow> hm_wf fs'" "length fs' \<le> length fs"
  using assms length_delete_le [of ip fs]
  by (auto simp: login_retry_after_def Let_def split: option.splits if_splits)

lemma login_limiter_ok_step:
  assumes "login_limiter_ok s" and "login_step le s e t"
  shows "login_limiter_ok t"
  using assms(2,1)
proof cases
  case (check ip r fs)
  then show ?thesis using assms(1) retry_keeps
    by (auto simp: login_check_def login_limiter_ok_def split: prod.splits option.splits) (meson order_trans)+
next
  case (lookup db ip name r busy fs)
  then show ?thesis using assms(1) record_keeps
    by (auto simp: login_lookup_def login_limiter_ok_def split: sum.splits option.splits if_splits)
next
  case (verify ip password u h m v r busy fs touches)
  then show ?thesis using assms(1) record_keeps length_delete_le [of ip "li_failures s"]
    by (auto simp: login_verify_def login_limiter_ok_def Let_def split: if_splits)
qed (simp add: login_limiter_ok_def)

interpretation login_machine: invariant_machine "login_step le" login_limiter_ok for le
  by unfold_locales (rule login_limiter_ok_step)

text \<open>After \<open>k\<close> failures of one address since \<open>start\<close>, with room for \<open>room\<close> more addresses.\<close>

fun entry_since :: "nat \<Rightarrow> nat \<Rightarrow> nat \<Rightarrow> LoginFailures option \<Rightarrow> bool" where
  "entry_since start k clock None = (k = 0)"
| "entry_since start k clock (Some e) =
     (start \<le> lf_window_started e \<and> lf_window_started e \<le> clock \<and> min k (2 ^ 32 - 1) \<le> unat (lf_count e))"

definition failing :: "string \<Rightarrow> nat \<Rightarrow> nat \<Rightarrow> nat \<Rightarrow> limiter_state \<Rightarrow> bool" where
  "failing ip start k room s \<longleftrightarrow>
     hm_wf (li_failures s) \<and> start \<le> li_clock s \<and> length (li_failures s) + room \<le> max_tracked_login_ips
     \<and> entry_since start k (li_clock s) (hm_get (li_failures s) ip)"

lemma failing_record:
  assumes "failing ip start k (Suc room) s" and "li_clock s < start + login_window"
  shows "failing ip start (k + (if ip' = ip then 1 else 0)) room
    (s\<lparr>li_failures := record_login_failure (li_clock s) ip' (li_failures s), li_busy := b\<rparr>)"
proof -
  let ?fs = "live_failures (li_clock s) (li_failures s)"
  have wf: "hm_wf (li_failures s)" and room: "length (li_failures s) + Suc room \<le> max_tracked_login_ips"
    using assms(1) by (simp_all add: failing_def)
  have space: "\<not> max_tracked_login_ips \<le> length ?fs"
    using live_keeps(1) [of "li_clock s" "li_failures s"] room by linarith
  have live: "hm_get ?fs ip = hm_get (li_failures s) ip"
  proof (cases "hm_get (li_failures s) ip")
    case (Some e)
    with assms(1) have "start \<le> lf_window_started e" "lf_window_started e \<le> li_clock s"
      unfolding failing_def by auto
    with assms(2) have "li_clock s - lf_window_started e < login_window" by linarith
    with Some show ?thesis by (simp only: live_get [OF wf] option.case if_True)
  qed (simp only: live_get [OF wf] option.case)
  note keeps = record_keeps [OF wf, of "li_clock s" ip']
  have len: "length (record_login_failure (li_clock s) ip' (li_failures s)) + room \<le> max_tracked_login_ips"
    using keeps(3) room by linarith
  have "hm_wf (record_login_failure (li_clock s) ip' (li_failures s))" using keeps(1) room by simp
  moreover have "entry_since start (k + (if ip' = ip then 1 else 0)) (li_clock s)
      (hm_get (record_login_failure (li_clock s) ip' (li_failures s)) ip)"
  proof (cases "ip' = ip")
    case False
    then have "hm_get (record_login_failure (li_clock s) ip' (li_failures s)) ip = hm_get (li_failures s) ip"
      using live space by (simp add: record_login_failure_def Let_def hm_get_insert)
    with False assms(1) show ?thesis by (simp add: failing_def)
  next
    case True
    have "hm_get (record_login_failure (li_clock s) ip (li_failures s)) ip
        = (case hm_get (li_failures s) ip of
             None \<Rightarrow> Some \<lparr>lf_count = saturating_add 0 1, lf_window_started = li_clock s\<rparr>
           | Some e \<Rightarrow> Some (e\<lparr>lf_count := saturating_add (lf_count e) 1\<rparr>))"
    proof (cases "hm_get (li_failures s) ip")
      case None
      then show ?thesis using space live
        by (simp add: record_login_failure_def Let_def hm_get_insert login_window_def)
    next
      case (Some e)
      with assms(1) have "start \<le> lf_window_started e" "lf_window_started e \<le> li_clock s"
        unfolding failing_def by auto
      with assms(2) have "\<not> login_window \<le> li_clock s - lf_window_started e" by linarith
      with Some live show ?thesis by (simp add: record_login_failure_def Let_def hm_get_insert)
    qed
    then show ?thesis using True assms(1)
      by (cases "hm_get (li_failures s) ip") (auto simp: failing_def unat_saturating_add)
  qed
  ultimately show ?thesis using assms(1) len by (simp add: failing_def)
qed

lemma failing_shrink:
  assumes "failing ip start k (Suc room) s" and "hm_wf fs" and "length fs \<le> length (li_failures s)"
    and "hm_get fs ip = hm_get (li_failures s) ip"
  shows "failing ip start k room (s\<lparr>li_failures := fs, li_busy := b\<rparr>)"
  using assms by (simp add: failing_def)

lemma failing_check:
  assumes "failing ip start k (Suc room) s" and "li_clock s < start + login_window"
    and "login_retry_after (li_clock s) ip' (li_failures s) = (r, fs)"
  shows "failing ip start k room (s\<lparr>li_failures := fs\<rparr>)"
proof -
  have wf: "hm_wf (li_failures s)" using assms(1) by (simp add: failing_def)
  have "hm_get fs ip = hm_get (li_failures s) ip"
  proof (cases "ip' = ip")
    case False
    then show ?thesis using assms(3)
      by (auto simp: login_retry_after_def Let_def hm_get_remove split: option.splits if_splits)
  next
    case True
    show ?thesis
    proof (cases "hm_get (li_failures s) ip")
      case None
      then show ?thesis using assms(3) True by (simp add: login_retry_after_def)
    next
      case (Some e)
      with assms(1) have "start \<le> lf_window_started e" "lf_window_started e \<le> li_clock s"
        unfolding failing_def by auto
      with assms(2) have "\<not> login_window \<le> li_clock s - lf_window_started e" by linarith
      then show ?thesis using assms(3) Some True
        by (auto simp: login_retry_after_def Let_def split: if_splits)
    qed
  qed
  with failing_shrink [OF assms(1) _ _ this, of "li_busy s"] retry_keeps [OF assms(3)] wf show ?thesis by simp
qed

definition failures_of :: "string \<Rightarrow> login_event list \<Rightarrow> nat" where
  "failures_of ip es = length (filter (\<lambda>e. e = Failed ip) es)"

lemma failures_of_Cons: "failures_of ip (e # es) = failures_of ip [e] + failures_of ip es"
  by (simp add: failures_of_def)

lemma failing_step:
  assumes "login_step le s e t" and "failing ip start k (Suc room) s" and "e \<noteq> Cleared ip"
    and "li_clock t < start + login_window"
  shows "failing ip start (k + failures_of ip [e]) room t"
  using assms(1)
proof cases
  case (tick t')
  then show ?thesis using assms(2)
    by (cases "hm_get (li_failures s) ip") (auto simp: failing_def failures_of_def)
next
  case (check ip' r fs)
  then obtain r' where "login_retry_after (li_clock s) ip' (li_failures s) = (r', fs)"
    by (auto simp: login_check_def split: prod.splits option.splits)
  from failing_check [OF assms(2) _ this] check assms(4) show ?thesis by (simp add: failures_of_def)
next
  case (lookup db ip' name r busy fs)
  have clock: "li_clock s < start + login_window" using lookup assms(4) by simp
  show ?thesis
  proof (cases "login_candidate (le_db le) db name = Inr None")
    case True
    with lookup failing_record [OF assms(2) clock, of ip' busy] show ?thesis
      by (auto simp: login_lookup_def failures_of_def)
  next
    case False
    with lookup have "fs = li_failures s" by (auto simp: login_lookup_def split: sum.splits option.splits if_splits)
    with lookup False failing_shrink [OF assms(2), of fs busy] assms(2) show ?thesis
      by (simp add: failures_of_def failing_def)
  qed
next
  case (verify ip' password u h m v r busy fs touches)
  have clock: "li_clock s < start + login_window" using verify assms(4) by simp
  show ?thesis
  proof (cases "le_verify le password h")
    case False
    with verify failing_record [OF assms(2) clock, of ip' busy] show ?thesis
      by (auto simp: login_verify_def failures_of_def)
  next
    case True
    with verify assms(3) have "ip' \<noteq> ip" "fs = hm_remove ip' (li_failures s)"
      by (auto simp: login_verify_def Let_def)
    with verify True failing_shrink [OF assms(2), of fs busy] assms(2) length_delete_le [of ip' "li_failures s"]
    show ?thesis by (simp add: failures_of_def failing_def hm_get_remove)
  qed
qed

lemma failing_clock: "login_step le s e t \<Longrightarrow> li_clock s \<le> li_clock t"
  by (induction rule: login_step.induct) simp_all

lemma run_clock: "run (login_step le) s es t \<Longrightarrow> li_clock s \<le> li_clock t"
  by (induction rule: run.induct) (auto dest: failing_clock)

lemma failing_run:
  "run (login_step le) s es t \<Longrightarrow> failing ip start k (length es + room) s \<Longrightarrow> Cleared ip \<notin> set es
   \<Longrightarrow> li_clock t < start + login_window \<Longrightarrow> failing ip start (k + failures_of ip es) room t"
proof (induction arbitrary: k rule: run.induct)
  case (run_nil s)
  then show ?case by (simp add: failures_of_def)
next
  case (run_cons s e t es u)
  have "li_clock t < start + login_window" using run_clock [OF run_cons.hyps(2)] run_cons.prems(3) by linarith
  then have "failing ip start (k + failures_of ip [e]) (length es + room) t"
    using failing_step [OF run_cons.hyps(1), of ip start k "length es + room"] run_cons.prems by auto
  from run_cons.IH [OF this] run_cons.prems show ?case
    by (simp add: failures_of_Cons [of ip e es] add.assoc)
qed


definition sample_db_env :: db_env where
  "sample_db_env =
     \<lparr>de_io = (\<lambda>_. None), de_from = (\<lambda>_. SqlxError ''constraint''), de_row_not_found = SqlxError ''no rows'',
      de_decode = SqlxError ''decode'', de_now = ''2026-08-01 00:00:00''\<rparr>"

definition no_hub :: hub_db where
  "no_hub =
     \<lparr>hd_users = [], hd_policies = [], hd_keys = [], hd_bindings = [], hd_settings = [],
      hd_books = \<lparr>b_logs = [], b_audits = [], b_rollups = [], b_lifetime = [], b_daily = [], b_pricing = [],
        b_user_ids = [], b_api_key_ids = [], b_account_ids = [], b_events = []\<rparr>\<rparr>"

definition sample_login :: login_env where
  "sample_login =
     \<lparr>le_db = sample_db_env, le_session = \<lparr>se_mac = sample_mac, se_secret = ''k'', se_now = 1000\<rparr>,
      le_ttl_hours = 24, le_cookie_secure = True, le_verify = (\<lambda>p h. p = h)\<rparr>"

lemma unknown_user_fails:
  "login_step sample_login s (Failed ip) (s\<lparr>li_failures := record_login_failure (li_clock s) ip (li_failures s)\<rparr>)"
proof -
  have c: "login_candidate (le_db sample_login) no_hub name = Inr None" for name
    by (simp add: login_candidate_def sample_login_def sample_db_env_def no_hub_def io_step_def)
  have "login_lookup (le_db sample_login) no_hub (li_clock s) ip [] (li_busy s) (li_failures s)
      = (Inl InvalidAuth, li_busy s, record_login_failure (li_clock s) ip (li_failures s))"
    by (simp add: login_lookup_def c)
  from login_step.lookup [OF this] c show ?thesis by simp
qed

lemma unknown_users_fail: "\<exists>t. run (login_step sample_login) s (replicate n (Failed ip)) t \<and> li_clock t = li_clock s"
proof (induction n arbitrary: s)
  case (Suc n)
  from Suc.IH [of "s\<lparr>li_failures := record_login_failure (li_clock s) ip (li_failures s)\<rparr>"]
  show ?case using unknown_user_fails [of s ip] by (auto simp: run_Cons_iff)
qed auto


end
