(* ===== verification/Admin_Users.thy ===== *)
theory Admin_Users
  imports Admin_Login Bundle_Export
begin

text \<open>
  The handlers on users (\<open>src/src/api/admin/users.rs\<close>, \<open>src/src/api/admin/me.rs\<close>), the first administrator and the reset of its
  password (\<open>src/src/db/mod.rs\<close>, \<open>src/src/cli/reset.rs\<close>). A handler answers with its result, the tables and what it sends.
  The hash of a password is an argument that may fail.
\<close>

section \<open>Common parts\<close>

datatype admin_effect = Remove_Limiter i64 | Send_Event AdminEvent

record PaginationParams =
  pg_offset :: "i64 option"
  pg_limit :: "i64 option"

definition pagination_resolve :: "PaginationParams \<Rightarrow> i64 \<times> i64" where
  "pagination_resolve p =
     (max 0 (case pg_offset p of Some o' \<Rightarrow> o' | None \<Rightarrow> 0),
      max 1 (min 100 (case pg_limit p of Some l \<Rightarrow> l | None \<Rightarrow> 50)))"

record 'a Paginated =
  pd_items :: "'a list"
  pd_total :: i64
  pd_offset :: i64
  pd_limit :: i64

text \<open>\<open>LIMIT\<close> and \<open>OFFSET\<close>.\<close>

definition page_of :: "i64 \<times> i64 \<Rightarrow> 'a list \<Rightarrow> 'a list" where
  "page_of p xs = take (nat (snd p)) (drop (nat (fst p)) xs)"

definition normalize_optional :: "string option \<Rightarrow> string option" where
  "normalize_optional v = Option.bind v (\<lambda>s. if trim s \<noteq> [] then Some (trim s) else None)"

text \<open>A field of a request that may be absent.\<close>

definition opt_step :: "'a option \<Rightarrow> ('a \<Rightarrow> hub_db \<Rightarrow> ClewdrError + hub_db) \<Rightarrow> hub_db \<Rightarrow> ClewdrError + hub_db" where
  "opt_step x f db = (case x of None \<Rightarrow> Inr db | Some a \<Rightarrow> f a db)"

section \<open>Answers\<close>

record UserResponse =
  uv_user :: user_row
  uv_policy_name :: string
  uv_key_count :: nat
  uv_current_week_cost_nanousd :: i64
  uv_current_month_cost_nanousd :: i64

definition current_period_starts :: "calendar \<Rightarrow> int \<Rightarrow> (string \<times> string) option" where
  "current_period_starts cal now =
     map_option (\<lambda>month. (fst (current_week_bounds cal now), fst month)) (current_month_bounds cal now)"

text \<open>A row of \<open>user_list_query\<close>: \<open>None\<close> without the policy, which the join drops.\<close>

definition user_response :: "db_env \<Rightarrow> hub_db \<Rightarrow> string \<times> string \<Rightarrow> user_row \<Rightarrow> (ClewdrError + UserResponse) option" where
  "user_response env db starts u =
     map_option (\<lambda>p.
       case (get_current_period_cost (hd_books db) (us_id u) ''week'' (fst starts),
             get_current_period_cost (hd_books db) (us_id u) ''month'' (snd starts)) of
         (Some week, Some month) \<Rightarrow>
           Inr \<lparr>uv_user = u, uv_policy_name = po_name p,
                uv_key_count = length (filter (\<lambda>k. ak_user_id k = us_id u) (hd_keys db)),
                uv_current_week_cost_nanousd = week, uv_current_month_cost_nanousd = month\<rparr>
       | _ \<Rightarrow> Inl (de_decode env)) (policy_by_id db (us_policy_id u))"

definition fetch_user :: "db_env \<Rightarrow> nat \<Rightarrow> hub_db \<Rightarrow> string \<times> string \<Rightarrow> i64 \<Rightarrow> ClewdrError + UserResponse" where
  "fetch_user env n db starts i =
     try_then (io_step env n) (\<lambda>_.
       case Option.bind (user_by_id db i) (user_response env db starts) of
         None \<Rightarrow> Inl (de_row_not_found env)
       | Some r \<Rightarrow> r)"

text \<open>\<open>fetch_all\<close>: the first row that does not decode fails the query.\<close>

fun all_rows :: "('e + 'a) list \<Rightarrow> 'e + 'a list" where
  "all_rows [] = Inr []"
| "all_rows (r # rs) = try_then r (\<lambda>a. map_sum id (Cons a) (all_rows rs))"

definition list_users ::
    "db_env \<Rightarrow> string \<times> string \<Rightarrow> PaginationParams \<Rightarrow> hub_db \<Rightarrow> ClewdrError + UserResponse Paginated" where
  "list_users env starts params db =
     (let page = pagination_resolve params in
      try_then (io_step env 0) (\<lambda>_. try_then (io_step env 1) (\<lambda>_.
        try_then (all_rows (page_of page (List.map_filter (user_response env db starts) (sort_key us_id (hd_users db)))))
          (\<lambda>items. Inr \<lparr>pd_items = items, pd_total = int (length (hd_users db)), pd_offset = fst page,
                        pd_limit = snd page\<rparr>))))"

section \<open>Creation\<close>

record CreateUserRequest =
  cu_username :: string
  cu_display_name :: "string option"
  cu_password :: "string option"
  cu_policy_id :: "i64 option"
  cu_notes :: "string option"

definition checked_hash :: "(string \<Rightarrow> ClewdrError + string) \<Rightarrow> string \<Rightarrow> ClewdrError + string" where
  "checked_hash hash pw = (if trim pw = [] then Inl (BadRequest ''password cannot be empty'') else hash pw)"

definition new_user ::
    "db_env \<Rightarrow> string \<Rightarrow> string option \<Rightarrow> string option \<Rightarrow> string \<Rightarrow> i64 \<Rightarrow> string option \<Rightarrow> i64 \<Rightarrow> user_row" where
  "new_user env username display_name password_hash user_role policy_id notes must_change =
     \<lparr>us_id = 0, us_username = username, us_display_name = display_name, us_password_hash = password_hash,
      us_role = user_role, us_policy_id = policy_id, us_disabled_at = None, us_last_seen_at = None, us_notes = notes,
      us_created_at = de_now env, us_updated_at = de_now env, us_must_change_password = must_change,
      us_session_version = 1\<rparr>"

definition create_user ::
    "db_env \<Rightarrow> (string \<Rightarrow> ClewdrError + string) \<Rightarrow> string \<times> string \<Rightarrow> CreateUserRequest \<Rightarrow> hub_db
      \<Rightarrow> (ClewdrError + UserResponse) \<times> hub_db" where
  "create_user env hash starts req db =
     (let policy_id = (case cu_policy_id req of Some p \<Rightarrow> p | None \<Rightarrow> 1) in
      case try_then (io_step env 0) (\<lambda>_.
             if policy_by_id db policy_id = None then Inl (BadRequest ''policy_id does not exist'')
             else try_then (case cu_password req of
                              Some pw \<Rightarrow> map_sum id Some (checked_hash hash pw)
                            | None \<Rightarrow> Inr None) (\<lambda>h.
               sql_unique env 1 (Conflict ''username already exists'')
                 (insert_user db (new_user env (cu_username req) (cu_display_name req) h ''member'' policy_id
                    (cu_notes req) 0)))) of
        Inl e \<Rightarrow> (Inl e, db)
      | Inr db' \<Rightarrow> (fetch_user env 2 db' starts (next_id (map us_id (hd_users db))), db'))"

section \<open>Changes\<close>

record UpdateUserRequest =
  uq_username :: "string option"
  uq_display_name :: "string option"
  uq_password :: "string option"
  uq_role :: "string option"
  uq_policy_id :: "i64 option"
  uq_disabled :: "bool option"
  uq_notes :: "string option"

definition other_active_admins :: "hub_db \<Rightarrow> i64 \<Rightarrow> nat" where
  "other_active_admins db i = length (filter (\<lambda>u. is_active_admin u \<and> us_id u \<noteq> i) (hd_users db))"

definition set_password :: "db_env \<Rightarrow> (string \<Rightarrow> ClewdrError + string) \<Rightarrow> i64 \<Rightarrow> string \<Rightarrow> hub_db \<Rightarrow> ClewdrError + hub_db" where
  "set_password env hash i pw db =
     try_then (checked_hash hash pw) (\<lambda>h.
     try_then (io_step env 4) (\<lambda>_. try_then (io_step env 5) (\<lambda>_.
       Inr (update_user i (\<lambda>u. u\<lparr>us_session_version := us_session_version u + 1\<rparr>)
             (update_user i (\<lambda>u. u\<lparr>us_password_hash := Some h, us_updated_at := de_now env\<rparr>) db)))))"

definition set_policy :: "db_env \<Rightarrow> i64 \<Rightarrow> i64 \<Rightarrow> hub_db \<Rightarrow> ClewdrError + hub_db" where
  "set_policy env i policy db =
     try_then (io_step env 6) (\<lambda>_.
       if policy_by_id db policy = None then Inl (BadRequest ''policy_id does not exist'')
       else sql env 7 (assign_policy i (de_now env) policy db))"

definition set_disabled :: "db_env \<Rightarrow> string \<Rightarrow> i64 \<Rightarrow> bool \<Rightarrow> hub_db \<Rightarrow> ClewdrError + hub_db" where
  "set_disabled env current_role i disabled db =
     (if disabled
      then try_then (io_step env 8) (\<lambda>_.
             if current_role = ''admin'' \<and> other_active_admins db i = 0
             then Inl (Conflict ''cannot disable the last active admin'')
             else sql env 9 (Inr (update_user i
                    (\<lambda>u. u\<lparr>us_disabled_at := Some (de_now env), us_updated_at := de_now env\<rparr>) db)))
      else sql env 9 (Inr (update_user i (\<lambda>u. u\<lparr>us_disabled_at := None, us_updated_at := de_now env\<rparr>) db)))"

text \<open>The transaction.\<close>

definition update_user_tx ::
    "db_env \<Rightarrow> (string \<Rightarrow> ClewdrError + string) \<Rightarrow> i64 \<Rightarrow> UpdateUserRequest \<Rightarrow> hub_db \<Rightarrow> ClewdrError + hub_db" where
  "update_user_tx env hash i req db =
     try_then (io_step env 0) (\<lambda>_. try_then (io_step env 1) (\<lambda>_.
       case user_by_id db i of
         None \<Rightarrow> Inl (NotFound ''user not found'')
       | Some u \<Rightarrow>
           if us_role u = ''admin'' \<and> uq_username req \<noteq> None
           then Inl (BadRequest ''admin username cannot be changed'')
           else if uq_role req \<noteq> None then Inl (BadRequest ''role changes are not supported'')
           else
             try_then (opt_step (uq_username req) (\<lambda>name db.
               sql_unique env 2 (Conflict ''username already exists'') (rename_user i (de_now env) name db)) db) (\<lambda>db.
             try_then (opt_step (uq_display_name req) (\<lambda>name db.
               sql env 3 (Inr (update_user i
                 (\<lambda>u. u\<lparr>us_display_name := Some name, us_updated_at := de_now env\<rparr>) db))) db) (\<lambda>db.
             try_then (opt_step (uq_password req) (set_password env hash i) db) (\<lambda>db.
             try_then (opt_step (uq_policy_id req) (set_policy env i) db) (\<lambda>db.
             try_then (opt_step (uq_disabled req) (set_disabled env (us_role u) i) db) (\<lambda>db.
             try_then (opt_step (uq_notes req) (\<lambda>notes db.
               sql env 10 (Inr (update_user i (\<lambda>u. u\<lparr>us_notes := Some notes, us_updated_at := de_now env\<rparr>) db))) db)
             (\<lambda>db. map_sum id (\<lambda>_. db) (io_step env 11)))))))))"

definition update_user_handler ::
    "db_env \<Rightarrow> (string \<Rightarrow> ClewdrError + string) \<Rightarrow> string \<times> string \<Rightarrow> i64 \<Rightarrow> UpdateUserRequest \<Rightarrow> hub_db
      \<Rightarrow> (ClewdrError + UserResponse) \<times> hub_db \<times> admin_effect list" where
  "update_user_handler env hash starts i req db =
     (case update_user_tx env hash i req db of
        Inl e \<Rightarrow> (Inl e, db, [])
      | Inr db' \<Rightarrow>
          (fetch_user env 12 db' starts i, db', if uq_disabled req = Some True then [Remove_Limiter i] else []))"

section \<open>Removal and usage\<close>

definition remove_user :: "db_env \<Rightarrow> i64 \<Rightarrow> hub_db \<Rightarrow> (ClewdrError + unit) \<times> hub_db \<times> admin_effect list" where
  "remove_user env i db =
     (case try_then (io_step env 0) (\<lambda>_. try_then (io_step env 1) (\<lambda>_.
             case user_by_id db i of
               None \<Rightarrow> Inl (NotFound ''user not found'')
             | Some u \<Rightarrow>
                 try_then (if is_active_admin u
                           then try_then (io_step env 2) (\<lambda>_.
                             if other_active_admins db i = 0 then Inl (Conflict ''cannot delete the last active admin'')
                             else Inr ())
                           else Inr ()) (\<lambda>_.
                 try_then (io_step env 3) (\<lambda>_. try_then (io_step env 4) (\<lambda>_. Inr (delete_user i db)))))) of
        Inl e \<Rightarrow> (Inl e, db, [])
      | Inr db' \<Rightarrow> (Inr (), db', [Remove_Limiter i]))"

definition drop_rollup :: "i64 \<Rightarrow> string \<Rightarrow> string \<Rightarrow> hub_db \<Rightarrow> hub_db" where
  "drop_rollup i period start db =
     db\<lparr>hd_books := snd (delete_usage_rollup (hd_books db) i period start)\<rparr>"

definition reset_usage ::
    "db_env \<Rightarrow> string \<times> string \<Rightarrow> i64 \<Rightarrow> string \<Rightarrow> hub_db
      \<Rightarrow> (ClewdrError + UserResponse) \<times> hub_db \<times> admin_effect list" where
  "reset_usage env starts i period db =
     (case try_then (io_step env 0) (\<lambda>_.
             if user_by_id db i = None then Inl (NotFound ''user not found'')
             else if period = ''week'' then sql env 1 (Inr (drop_rollup i ''week'' (fst starts) db))
             else if period = ''month'' then sql env 1 (Inr (drop_rollup i ''month'' (snd starts) db))
             else if period = ''all''
             then try_then (io_step env 1) (\<lambda>_. try_then (io_step env 2) (\<lambda>_. try_then (io_step env 3) (\<lambda>_.
                    try_then (io_step env 4) (\<lambda>_.
                      Inr (drop_rollup i ''month'' (snd starts) (drop_rollup i ''week'' (fst starts) db))))))
             else Inl (BadRequest ''period must be one of: week, month, all'')) of
        Inl e \<Rightarrow> (Inl e, db, [])
      | Inr db' \<Rightarrow> (fetch_user env 5 db' starts i, db', [Send_Event (event_user_usage_reset i)]))"

section \<open>Passwords of administrators\<close>

record ChangePasswordRequest =
  cp_current_password :: string
  cp_new_password :: string

text \<open>
  The row is read from \<open>db\<close>; while the passwords are hashed, others change the tables to \<open>later\<close>, which is
  updated if the stored hash is still the one that was verified.
\<close>

definition change_password ::
    "db_env \<Rightarrow> (string \<Rightarrow> string \<Rightarrow> bool) \<Rightarrow> (string \<Rightarrow> ClewdrError + string) \<Rightarrow> bool \<Rightarrow> i64 \<Rightarrow> ChangePasswordRequest
      \<Rightarrow> hub_db \<Rightarrow> hub_db \<Rightarrow> (ClewdrError + string) \<times> hub_db \<times> admin_effect list" where
  "change_password env verify hash cookie_secure user_id req db later =
     (let new_password = trim (cp_new_password req) in
      if length new_password < 6
      then (Inl (BadRequest ''new password must be at least 6 characters''), later, [])
      else if new_password = trim (cp_current_password req)
      then (Inl (BadRequest ''new password must differ from current password''), later, [])
      else case try_then (io_step env 0) (\<lambda>_.
             case find (\<lambda>u. us_id u = user_id \<and> us_role u = ''admin'') (hd_users db) of
               None \<Rightarrow> Inl (NotFound ''admin user not found'')
             | Some u \<Rightarrow>
                 (case us_password_hash u of
                    None \<Rightarrow> Inl (de_decode env)
                  | Some current_hash \<Rightarrow>
                      if \<not> verify (cp_current_password req) current_hash then Inl InvalidAuth
                      else try_then (hash new_password) (\<lambda>new_hash.
                        try_then (io_step env 1) (\<lambda>_.
                          if \<not> list_ex (\<lambda>u. us_id u = user_id \<and> us_password_hash u = Some current_hash) (hd_users later)
                          then Inl (de_row_not_found env)
                          else Inr (update_user user_id (\<lambda>u. if us_password_hash u = Some current_hash
                             then u\<lparr>us_password_hash := Some new_hash, us_must_change_password := 0,
                                    us_session_version := us_session_version u + 1, us_updated_at := de_now env\<rparr>
                             else u) later))))) of
        Inl e \<Rightarrow> (Inl e, later, [])
      | Inr db' \<Rightarrow>
          (case Option.bind (user_by_id db' user_id) (\<lambda>u. decode_i32 (us_session_version u)) of
             None \<Rightarrow> (Inl (de_decode env), db', [])
           | Some _ \<Rightarrow>
               (Inr (clear_cookie_header cookie_secure), db', [Send_Event (event_auth_revoked ''password_changed'')])))"

definition reset_admin_password :: "db_env \<Rightarrow> nat \<Rightarrow> string \<Rightarrow> string \<Rightarrow> hub_db \<Rightarrow> ClewdrError + hub_db" where
  "reset_admin_password env n username password_hash db =
     try_then (io_step env n) (\<lambda>_.
       if \<not> list_ex (\<lambda>u. us_username u = username \<and> us_role u = ''admin'') (hd_users db)
       then Inl (NotFound ''no admin user with that username'')
       else Inr (db\<lparr>hd_users := map (\<lambda>u. if us_username u = username \<and> us_role u = ''admin''
              then u\<lparr>us_password_hash := Some password_hash, us_must_change_password := 0,
                     us_session_version := us_session_version u + 1, us_updated_at := de_now env\<rparr>
              else u) (hd_users db)\<rparr>))"

section \<open>The command line and the first start\<close>

record reset_args =
  ra_password :: "string option"
  ra_from_env :: bool
  ra_username :: string

definition resolve_password :: "terminal \<Rightarrow> string option \<Rightarrow> reset_args \<Rightarrow> ClewdrError + string" where
  "resolve_password tm env_var args =
     (case ra_password args of
        Some pwd \<Rightarrow> if pwd = [] then Inl (BadRequest ''--password cannot be empty'') else Inr pwd
      | None \<Rightarrow>
          if ra_from_env args
          then (case env_var of
                  Some v \<Rightarrow> if trim v = [] then Inl (BadRequest ''ADMIN_PASSWORD env var is not set or empty'') else Inr v
                | None \<Rightarrow> Inl (BadRequest ''ADMIN_PASSWORD env var is not set or empty''))
          else if \<not> tm_is_tty tm
          then Inl (BadRequest (''no TTY available '' @ em_dash
                 @ '' pass --password <pwd> or --from-env (with ADMIN_PASSWORD set)''))
          else try_then (tm_prompt tm) (\<lambda>pwd.
            if pwd = [] then Inl (BadRequest ''password cannot be empty'')
            else try_then (tm_confirm tm) (\<lambda>confirm.
              if pwd \<noteq> confirm then Inl (BadRequest ''passwords do not match'') else Inr pwd)))"

text \<open>\<open>opened\<close> is the answer of \<open>open_existing_pool\<close>.\<close>

definition reset_run ::
    "db_env \<Rightarrow> terminal \<Rightarrow> string option \<Rightarrow> (string \<Rightarrow> ClewdrError + string) \<Rightarrow> ClewdrError + unit \<Rightarrow> reset_args
      \<Rightarrow> hub_db \<Rightarrow> ClewdrError + hub_db" where
  "reset_run env tm env_var hash opened args db =
     try_then (resolve_password tm env_var args) (\<lambda>password.
     try_then (hash password) (\<lambda>h.
     try_then opened (\<lambda>_. reset_admin_password env 0 (ra_username args) h db)))"

definition default_password_hash :: string where
  "default_password_hash =
     ''$argon2id$v=19$m=65536,t=3,p=1$Li5+S+9BeUmy3TFviGbZ9Q$tI+ZLpzW3LhrR5OA8izKSR+mw4APjT6m4rQTicuXNsE''"

record seed_env =
  sd_admin_password :: "string option"
  sd_debug_build :: bool
  sd_generated_password :: string
  sd_fresh_secret :: string

definition seed_password :: "seed_env \<Rightarrow> (string \<Rightarrow> ClewdrError + string) \<Rightarrow> ClewdrError + string \<times> i64" where
  "seed_password sd hash =
     (case Option.bind (sd_admin_password sd) (\<lambda>p. if trim p \<noteq> [] then Some p else None) of
        Some p \<Rightarrow> map_sum id (\<lambda>h. (h, 0)) (hash p)
      | None \<Rightarrow>
          if sd_debug_build sd then Inr (default_password_hash, 1)
          else map_sum id (\<lambda>h. (h, 1)) (hash (sd_generated_password sd)))"

text \<open>\<open>INSERT OR IGNORE\<close>: a foreign key is not ignored.\<close>

definition insert_user_or_ignore :: "hub_db \<Rightarrow> user_row \<Rightarrow> sql_error + hub_db" where
  "insert_user_or_ignore db u =
     (if us_username u \<in> set (map us_username (hd_users db)) \<or> \<not> user_checks u then Inr db else insert_user db u)"

definition seed_admin_user ::
    "db_env \<Rightarrow> seed_env \<Rightarrow> (string \<Rightarrow> ClewdrError + string) \<Rightarrow> hub_db \<Rightarrow> ClewdrError + hub_db" where
  "seed_admin_user env sd hash db =
     try_then (io_step env 0) (\<lambda>_.
       if list_ex (\<lambda>u. us_role u = ''admin'') (hd_users db) then Inr db
       else try_then (seed_password sd hash) (\<lambda>(h, must_change).
         sql env 1 (insert_user_or_ignore db
           (new_user env ''admin'' (Some ''Administrator'') (Some h) ''admin'' 1 None must_change))))"

definition seed_secret :: "db_env \<Rightarrow> seed_env \<Rightarrow> hub_db \<Rightarrow> ClewdrError + hub_db" where
  "seed_secret env sd db =
     try_then (io_step env 2) (\<lambda>_.
       if hm_contains (hd_settings db) ''session_secret'' then Inr db
       else sql env 3 (Inr (db\<lparr>hd_settings := hm_insert ''session_secret'' (sd_fresh_secret sd) (hd_settings db)\<rparr>)))"

text \<open>The part of \<open>seed_admin\<close> before the models; each statement is a transaction of its own.\<close>

definition seed_admin ::
    "db_env \<Rightarrow> seed_env \<Rightarrow> (string \<Rightarrow> ClewdrError + string) \<Rightarrow> hub_db \<Rightarrow> (ClewdrError + unit) \<times> hub_db" where
  "seed_admin env sd hash db =
     (case seed_admin_user env sd hash db of
        Inl e \<Rightarrow> (Inl e, db)
      | Inr db1 \<Rightarrow>
          (case seed_secret env sd db1 of
             Inl e \<Rightarrow> (Inl e, db1)
           | Inr db2 \<Rightarrow> (Inr (), db2)))"

end
