(* ===== verification/Admin_Keys.thy ===== *)
theory Admin_Keys
  imports Admin_Users
begin

text \<open>
  The handlers on API keys and their bindings (\<open>src/src/api/admin/keys.rs\<close>) and on policies
  (\<open>src/src/api/admin/policies.rs\<close>). The statements on keys are no transaction: an error leaves what was written.
\<close>

section \<open>Keys\<close>

record KeyResponse =
  kr_key :: key_row
  kr_username :: string
  kr_bound_account_ids :: "i64 list"
  kr_auto_cache_enabled :: bool
  kr_enhanced_audit_enabled :: bool

record KeyCreatedResponse =
  kc_id :: i64
  kc_user_id :: i64
  kc_label :: "string option"
  kc_lookup_key :: string
  kc_plaintext_key :: string
  kc_created_at :: string
  kc_bound_account_ids :: "i64 list"
  kc_auto_cache_enabled :: bool
  kc_enhanced_audit_enabled :: bool

record CreateKeyRequest =
  ck_user_id :: i64
  ck_label :: "string option"
  ck_bound_account_ids :: "i64 list option"
  ck_auto_cache_enabled :: bool
  ck_enhanced_audit_enabled :: bool

record KeyListParams =
  kp_user_id :: "i64 option"
  kp_page :: PaginationParams

definition load_bindings_for_keys :: "db_env \<Rightarrow> nat \<Rightarrow> hub_db \<Rightarrow> i64 list \<Rightarrow> ClewdrError + (i64 \<times> i64) list" where
  "load_bindings_for_keys env n db key_ids =
     (if key_ids = [] then Inr []
      else sql env n (Inr (filter (\<lambda>b. fst b \<in> set key_ids) (hd_bindings db))))"

definition attach_bindings :: "(key_row \<times> string) list \<Rightarrow> (i64 \<times> i64) list \<Rightarrow> KeyResponse list" where
  "attach_bindings keys bindings =
     map (\<lambda>(k, name).
       \<lparr>kr_key = k, kr_username = name, kr_bound_account_ids = map snd (filter (\<lambda>b. fst b = ak_id k) bindings),
        kr_auto_cache_enabled = (ak_auto_cache_enabled k \<noteq> 0),
        kr_enhanced_audit_enabled = (ak_enhanced_audit_enabled k \<noteq> 0)\<rparr>) keys"

text \<open>The join with the users drops a key without one.\<close>

definition list_keys :: "db_env \<Rightarrow> KeyListParams \<Rightarrow> hub_db \<Rightarrow> ClewdrError + KeyResponse Paginated" where
  "list_keys env params db =
     (let page = pagination_resolve (kp_page params);
          mine = (\<lambda>k. case kp_user_id params of Some u \<Rightarrow> ak_user_id k = u | None \<Rightarrow> True);
          rows = page_of page (List.map_filter (\<lambda>k. map_option (\<lambda>u. (k, us_username u)) (user_by_id db (ak_user_id k)))
                   (sort_key ak_id (filter mine (hd_keys db))))
      in try_then (io_step env 0) (\<lambda>_. try_then (io_step env 1) (\<lambda>_.
         try_then (load_bindings_for_keys env 2 db (map (ak_id \<circ> fst) rows)) (\<lambda>bindings.
           Inr \<lparr>pd_items = attach_bindings rows bindings, pd_total = int (length (filter mine (hd_keys db))),
                pd_offset = fst page, pd_limit = snd page\<rparr>))))"

text \<open>The loop over the accounts: the result, and the tables as they are then.\<close>

fun insert_bindings :: "db_env \<Rightarrow> nat \<Rightarrow> i64 \<Rightarrow> i64 list \<Rightarrow> hub_db \<Rightarrow> (ClewdrError + unit) \<times> hub_db" where
  "insert_bindings env n key [] db = (Inr (), db)"
| "insert_bindings env n key (a # as) db =
     (case sql env n (insert_binding db (key, a)) of
        Inl e \<Rightarrow> (Inl e, db)
      | Inr db' \<Rightarrow> insert_bindings env (Suc n) key as db')"

text \<open>\<open>attempts\<close> are the answers of the driver to the insertions of new keys.\<close>

definition create_key ::
    "db_env \<Rightarrow> (nat \<Rightarrow> ClewdrError option) \<Rightarrow> (string \<Rightarrow> string) \<Rightarrow> nat list list \<Rightarrow> CreateKeyRequest \<Rightarrow> hub_db
      \<Rightarrow> ((ClewdrError + KeyCreatedResponse) \<times> hub_db) option" where
  "create_key env attempts blake3 draws req db =
     (case try_then (io_step env 0) (\<lambda>_.
             if user_by_id db (ck_user_id req) = None then Inl (NotFound ''user not found'') else Inr ()) of
        Inl e \<Rightarrow> Some (Inl e, db)
      | Inr _ \<Rightarrow>
          (case create_api_key (env\<lparr>de_io := attempts\<rparr>) blake3 db (ck_user_id req) (ck_label req) 0 draws of
             None \<Rightarrow> None
           | Some (Inl e) \<Rightarrow> Some (Inl e, db)
           | Some (Inr (plaintext, db1)) \<Rightarrow>
               (let lookup_key = take 8 (drop 3 plaintext) in
                case try_then (io_step env 1) (\<lambda>_.
                       case find (\<lambda>k. ak_lookup_key k = lookup_key) (hd_keys db1) of
                         None \<Rightarrow> Inl (de_row_not_found env) | Some k \<Rightarrow> Inr k) of
                  Inl e \<Rightarrow> Some (Inl e, db1)
                | Inr k \<Rightarrow>
                    (let bound = (case ck_bound_account_ids req of Some b \<Rightarrow> b | None \<Rightarrow> []) in
                     case insert_bindings env 3 (ak_id k) bound db1 of
                       (Inl e, db2) \<Rightarrow> Some (Inl e, db2)
                     | (Inr _, db2) \<Rightarrow>
                         (case (if ck_auto_cache_enabled req \<or> ck_enhanced_audit_enabled req
                                then sql env 2 (Inr (update_key (ak_id k)
                                       (\<lambda>k. k\<lparr>ak_auto_cache_enabled := of_bool (ck_auto_cache_enabled req),
                                             ak_enhanced_audit_enabled := of_bool (ck_enhanced_audit_enabled req)\<rparr>) db2))
                                else Inr db2) of
                            Inl e \<Rightarrow> Some (Inl e, db2)
                          | Inr db3 \<Rightarrow>
                              Some (Inr \<lparr>kc_id = ak_id k, kc_user_id = ck_user_id req, kc_label = ck_label req,
                                     kc_lookup_key = lookup_key, kc_plaintext_key = plaintext,
                                     kc_created_at = ak_created_at k, kc_bound_account_ids = bound,
                                     kc_auto_cache_enabled = ck_auto_cache_enabled req,
                                     kc_enhanced_audit_enabled = ck_enhanced_audit_enabled req\<rparr>, db3))))))"

definition key_exists :: "hub_db \<Rightarrow> i64 \<Rightarrow> bool" where
  "key_exists db i \<longleftrightarrow> list_ex (\<lambda>k. ak_id k = i) (hd_keys db)"

definition update_bindings :: "db_env \<Rightarrow> i64 \<Rightarrow> i64 list \<Rightarrow> hub_db \<Rightarrow> (ClewdrError + unit) \<times> hub_db" where
  "update_bindings env i account_ids db =
     (case try_then (io_step env 0) (\<lambda>_.
             if \<not> key_exists db i then Inl (NotFound ''api key not found'')
             else sql env 1 (Inr (db\<lparr>hd_bindings := filter (\<lambda>b. fst b \<noteq> i) (hd_bindings db)\<rparr>))) of
        Inl e \<Rightarrow> (Inl e, db)
      | Inr db1 \<Rightarrow> insert_bindings env 2 i account_ids db1)"

definition on_key :: "db_env \<Rightarrow> i64 \<Rightarrow> hub_db \<Rightarrow> hub_db \<Rightarrow> (ClewdrError + unit) \<times> hub_db" where
  "on_key env i db db' =
     (if de_io env 0 \<noteq> None then (map_sum id id (io_step env 0), db)
      else if \<not> key_exists db i then (Inl (NotFound ''api key not found''), db)
      else (Inr (), db'))"

definition remove_key :: "db_env \<Rightarrow> i64 \<Rightarrow> hub_db \<Rightarrow> (ClewdrError + unit) \<times> hub_db" where
  "remove_key env i db = on_key env i db (delete_keys (\<lambda>k. ak_id k = i) db)"

definition update_auto_cache :: "db_env \<Rightarrow> i64 \<Rightarrow> bool \<Rightarrow> hub_db \<Rightarrow> (ClewdrError + unit) \<times> hub_db" where
  "update_auto_cache env i enabled db =
     on_key env i db (update_key i (\<lambda>k. k\<lparr>ak_auto_cache_enabled := of_bool enabled\<rparr>) db)"

definition update_enhanced_audit :: "db_env \<Rightarrow> i64 \<Rightarrow> bool \<Rightarrow> hub_db \<Rightarrow> (ClewdrError + unit) \<times> hub_db" where
  "update_enhanced_audit env i enabled db =
     on_key env i db (update_key i (\<lambda>k. k\<lparr>ak_enhanced_audit_enabled := of_bool enabled\<rparr>) db)"

section \<open>Policies\<close>

record PolicyResponse =
  pv_policy :: policy_row
  pv_assigned_user_count :: nat

record CreatePolicyRequest =
  cpol_name :: string
  cpol_max_concurrent :: i64
  cpol_rpm_limit :: i64
  cpol_weekly_budget_nanousd :: i64
  cpol_monthly_budget_nanousd :: i64

record UpdatePolicyRequest =
  upol_name :: "string option"
  upol_max_concurrent :: "i64 option"
  upol_rpm_limit :: "i64 option"
  upol_weekly_budget_nanousd :: "i64 option"
  upol_monthly_budget_nanousd :: "i64 option"

definition policy_response :: "hub_db \<Rightarrow> policy_row \<Rightarrow> PolicyResponse" where
  "policy_response db p =
     \<lparr>pv_policy = p, pv_assigned_user_count = length (filter (\<lambda>u. us_policy_id u = po_id p) (hd_users db))\<rparr>"

definition fetch_policy :: "db_env \<Rightarrow> nat \<Rightarrow> hub_db \<Rightarrow> i64 \<Rightarrow> ClewdrError + PolicyResponse" where
  "fetch_policy env n db i =
     try_then (io_step env n) (\<lambda>_.
       case policy_by_id db i of None \<Rightarrow> Inl (de_row_not_found env) | Some p \<Rightarrow> Inr (policy_response db p))"

definition list_policies :: "db_env \<Rightarrow> PaginationParams \<Rightarrow> hub_db \<Rightarrow> ClewdrError + PolicyResponse Paginated" where
  "list_policies env params db =
     (let page = pagination_resolve params in
      try_then (io_step env 0) (\<lambda>_. try_then (io_step env 1) (\<lambda>_.
        Inr \<lparr>pd_items = page_of page (map (policy_response db) (sort_key po_id (hd_policies db))),
             pd_total = int (length (hd_policies db)), pd_offset = fst page, pd_limit = snd page\<rparr>)))"

definition create_policy ::
    "db_env \<Rightarrow> CreatePolicyRequest \<Rightarrow> hub_db \<Rightarrow> (ClewdrError + PolicyResponse) \<times> hub_db" where
  "create_policy env req db =
     (if cpol_max_concurrent req \<le> 0 \<or> cpol_rpm_limit req \<le> 0
      then (Inl (BadRequest ''max_concurrent and rpm_limit must be positive''), db)
      else case sql_unique env 0 (Conflict ''policy name already exists'') (insert_policy db
             \<lparr>po_id = 0, po_name = cpol_name req, po_max_concurrent = cpol_max_concurrent req,
              po_rpm_limit = cpol_rpm_limit req, po_weekly_budget_nanousd = cpol_weekly_budget_nanousd req,
              po_monthly_budget_nanousd = cpol_monthly_budget_nanousd req, po_created_at = de_now env,
              po_updated_at = de_now env\<rparr>) of
             Inl e \<Rightarrow> (Inl e, db)
           | Inr db' \<Rightarrow> (fetch_policy env 1 db' (next_id (map po_id (hd_policies db))), db'))"

definition update_policy_tx :: "db_env \<Rightarrow> i64 \<Rightarrow> UpdatePolicyRequest \<Rightarrow> hub_db \<Rightarrow> ClewdrError + hub_db" where
  "update_policy_tx env i req db =
     (let now = de_now env in
      if upol_max_concurrent req \<noteq> None \<and> the (upol_max_concurrent req) \<le> 0
      then Inl (BadRequest ''max_concurrent must be positive'')
      else if upol_rpm_limit req \<noteq> None \<and> the (upol_rpm_limit req) \<le> 0
      then Inl (BadRequest ''rpm_limit must be positive'')
      else try_then (io_step env 0) (\<lambda>_. try_then (io_step env 1) (\<lambda>_.
        if policy_by_id db i = None then Inl (NotFound ''policy not found'')
        else
          try_then (opt_step (upol_name req) (\<lambda>v db. sql_unique env 2 (Conflict ''policy name already exists'')
            (update_policy i (\<lambda>p. p\<lparr>po_name := v, po_updated_at := now\<rparr>) db)) db) (\<lambda>db.
          try_then (opt_step (upol_max_concurrent req) (\<lambda>v db.
            sql env 3 (update_policy i (\<lambda>p. p\<lparr>po_max_concurrent := v, po_updated_at := now\<rparr>) db)) db) (\<lambda>db.
          try_then (opt_step (upol_rpm_limit req) (\<lambda>v db.
            sql env 4 (update_policy i (\<lambda>p. p\<lparr>po_rpm_limit := v, po_updated_at := now\<rparr>) db)) db) (\<lambda>db.
          try_then (opt_step (upol_weekly_budget_nanousd req) (\<lambda>v db.
            sql env 5 (update_policy i (\<lambda>p. p\<lparr>po_weekly_budget_nanousd := v, po_updated_at := now\<rparr>) db)) db) (\<lambda>db.
          try_then (opt_step (upol_monthly_budget_nanousd req) (\<lambda>v db.
            sql env 6 (update_policy i (\<lambda>p. p\<lparr>po_monthly_budget_nanousd := v, po_updated_at := now\<rparr>) db)) db)
          (\<lambda>db. map_sum id (\<lambda>_. db) (io_step env 7)))))))))"

definition update_policy_handler ::
    "db_env \<Rightarrow> i64 \<Rightarrow> UpdatePolicyRequest \<Rightarrow> hub_db \<Rightarrow> (ClewdrError + PolicyResponse) \<times> hub_db" where
  "update_policy_handler env i req db =
     (case update_policy_tx env i req db of Inl e \<Rightarrow> (Inl e, db) | Inr db' \<Rightarrow> (fetch_policy env 8 db' i, db'))"

definition remove_policy :: "db_env \<Rightarrow> i64 \<Rightarrow> hub_db \<Rightarrow> (ClewdrError + unit) \<times> hub_db" where
  "remove_policy env i db =
     (if i = 1 then (Inl (Conflict ''cannot delete the default policy''), db)
      else case try_then (io_step env 0) (\<lambda>_. try_then (io_step env 1) (\<lambda>_.
             if i \<in> set (map us_policy_id (hd_users db)) then Inl (Conflict ''policy is still assigned to users'')
             else try_then (sql env 2 (delete_policy i db)) (\<lambda>db'.
               if policy_by_id db i = None then Inl (NotFound ''policy not found'')
               else map_sum id (\<lambda>_. db') (io_step env 3)))) of
             Inl e \<Rightarrow> (Inl e, db)
           | Inr db' \<Rightarrow> (Inr (), db'))"

end
