(* ===== verification/Admin_Machine.thy ===== *)
theory Admin_Machine
  imports Admin_Keys
begin

text \<open>
  All handlers on users, keys and policies in any order, with any failing statement: what stays true of the
  tables, that an active administrator remains, and that a revoked session stays revoked.
\<close>

section \<open>Tame changes\<close>

definition has_active_admin :: "hub_db \<Rightarrow> bool" where
  "has_active_admin db \<longleftrightarrow> (\<exists>u \<in> set (hd_users db). is_active_admin u)"

definition governed :: "hub_db \<Rightarrow> bool" where
  "governed db \<longleftrightarrow> hub_ok db \<and> has_active_admin db"

text \<open>Nobody becomes an administrator, and session versions do not decrease.\<close>

definition admins_from :: "hub_db \<Rightarrow> hub_db \<Rightarrow> bool" where
  "admins_from db db' \<longleftrightarrow>
     (\<forall>u' \<in> set (hd_users db'). us_role u' = ''admin'' \<longrightarrow>
        (\<exists>u \<in> set (hd_users db). us_id u = us_id u' \<and> us_role u = ''admin''
           \<and> us_session_version u \<le> us_session_version u'))"

definition tame :: "hub_db \<Rightarrow> hub_db \<Rightarrow> bool" where
  "tame db db' \<longleftrightarrow> (governed db \<longrightarrow> governed db' \<and> admins_from db db')"

lemma tame_refl [simp]: "tame db db"
  by (auto simp: tame_def admins_from_def)

lemma tame_trans:
  assumes "tame a b" and "tame b c"
  shows "tame a c"
proof -
  have "\<exists>u \<in> set (hd_users a). us_id u = us_id w \<and> us_role u = ''admin'' \<and> us_session_version u \<le> us_session_version w"
    if g: "governed a" and w: "w \<in> set (hd_users c)" "us_role w = ''admin''" for w
  proof -
    from g assms have "admins_from a b" "admins_from b c" by (simp_all add: tame_def)
    with w obtain v where v: "v \<in> set (hd_users b)" "us_role v = ''admin''" "us_id v = us_id w"
        "us_session_version v \<le> us_session_version w"
      unfolding admins_from_def by blast
    with \<open>admins_from a b\<close> obtain u where "u \<in> set (hd_users a)" "us_role u = ''admin''" "us_id u = us_id v"
        "us_session_version u \<le> us_session_version v"
      unfolding admins_from_def by blast
    with v show ?thesis by (intro bexI [of _ u]) simp_all
  qed
  with assms show ?thesis by (simp add: tame_def admins_from_def)
qed

text \<open>A step of a handler, when it succeeds.\<close>

definition tame_result :: "hub_db \<Rightarrow> 'e + hub_db \<Rightarrow> bool" where
  "tame_result db r \<longleftrightarrow> (\<forall>db'. r = Inr db' \<longrightarrow> tame db db')"

lemma tame_result_simps [simp]: "tame_result db (Inl e)" "tame_result db (Inr db') \<longleftrightarrow> tame db db'"
  by (simp_all add: tame_result_def)

lemma tame_result_try:
  assumes "tame_result db x" and "\<And>a. tame_result a (f a)"
  shows "tame_result db (try_then x f)"
  using assms by (cases x) (auto simp: tame_result_def intro: tame_trans)

lemma tame_result_io: "(\<And>a. tame_result db (f a)) \<Longrightarrow> tame_result db (try_then (x :: 'e + 'a) f)"
  by (cases x) simp_all

lemma tame_result_chain:
  assumes "tame o1 a" and "tame_result a x" and "\<And>b. tame o1 b \<Longrightarrow> tame_result o1 (f b)"
  shows "tame_result o1 (try_then x f)"
  using assms by (cases x) (auto simp: tame_result_def intro: tame_trans)

lemma tame_result_commit: "tame db a \<Longrightarrow> tame_result db (map_sum id (\<lambda>_. a) x)"
  by (cases x) simp_all

lemma tame_result_opt: "(\<And>a. tame_result db (f a db)) \<Longrightarrow> tame_result db (opt_step x f db)"
  by (cases x) (simp_all add: opt_step_def)

lemma tame_sql: "tame_result db r \<Longrightarrow> tame_result db (sql env n r)" "tame_result db r \<Longrightarrow> tame_result db (sql_unique env n e r)"
  by (auto simp: tame_result_def)

lemma tame_same_users:
  assumes "hd_users db' = hd_users db" and "hub_ok db \<Longrightarrow> hub_ok db'"
  shows "tame db db'"
  using assms by (auto simp: tame_def governed_def has_active_admin_def admins_from_def)

lemma tame_update_user:
  assumes "\<And>u. us_id (f u) = us_id u \<and> us_role (f u) = us_role u \<and> us_username (f u) = us_username u
      \<and> us_policy_id (f u) = us_policy_id u \<and> us_session_version u \<le> us_session_version (f u)
      \<and> (us_password_hash u \<noteq> None \<longrightarrow> us_password_hash (f u) \<noteq> None)"
    and "governed db \<Longrightarrow> has_active_admin (update_user i f db)"
  shows "tame db (update_user i f db)"
proof -
  have "hub_ok (update_user i f db)" if g: "governed db"
  proof (rule hub_ok_update_user)
    show ok: "hub_ok db" using g by (simp add: governed_def)
    show "distinct (map us_username (hd_users (update_user i f db)))"
      using hub_okD(5) [OF ok] update_user_names [of f i db] assms(1) by simp
    show "us_id (f u) = us_id u \<and> (user_fits db u \<longrightarrow> user_fits db (f u))" for u
      using assms(1) [of u] by (auto simp: user_fits_def user_checks_def)
  qed
  moreover have "admins_from db (update_user i f db)"
    using assms(1) by (auto simp: admins_from_def update_user_def)
  ultimately show ?thesis using assms(2) by (simp add: tame_def governed_def)
qed

lemma active_admin_update:
  assumes "has_active_admin db" and "\<And>u. is_active_admin u \<Longrightarrow> is_active_admin (f u)"
  shows "has_active_admin (update_user i f db)"
proof -
  obtain u where "u \<in> set (hd_users db)" "is_active_admin u"
    using assms(1) unfolding has_active_admin_def by blast
  then show ?thesis using assms(2) [of u]
    by (auto simp: has_active_admin_def update_user_def)
qed

lemma active_admin_elsewhere:
  assumes "u \<in> set (hd_users db)" "is_active_admin u" "us_id u \<noteq> i"
  shows "has_active_admin (update_user i f db)"
  using assms by (force simp: has_active_admin_def update_user_def)

lemma tame_update_plain:
  assumes "\<And>u. us_id (f u) = us_id u \<and> us_role (f u) = us_role u \<and> us_username (f u) = us_username u
      \<and> us_policy_id (f u) = us_policy_id u \<and> us_session_version u \<le> us_session_version (f u)
      \<and> (us_password_hash u \<noteq> None \<longrightarrow> us_password_hash (f u) \<noteq> None)
      \<and> (us_disabled_at u = None \<longrightarrow> us_disabled_at (f u) = None)"
  shows "tame db (update_user i f db)"
proof (rule tame_update_user)
  show "governed db \<Longrightarrow> has_active_admin (update_user i f db)"
    using assms by (auto simp: governed_def is_active_admin_def intro!: active_admin_update)
qed (use assms in blast)

section \<open>The handlers\<close>

lemma rename_tame: "tame_result db (rename_user i now name db)"
proof -
  have "tame db db'" if "rename_user i now name db = Inr db'" for db'
  proof -
    from that have db': "db' = update_user i (\<lambda>u. u\<lparr>us_username := name, us_updated_at := now\<rparr>) db"
      by (auto simp: rename_user_def split: if_splits)
    have "has_active_admin db \<Longrightarrow> has_active_admin db'"
      unfolding db' by (erule active_admin_update) (simp add: is_active_admin_def)
    moreover have "admins_from db db'" by (auto simp: db' admins_from_def update_user_def)
    moreover note hub_ok_rename_user [OF _ that]
    ultimately show ?thesis by (simp add: tame_def governed_def)
  qed
  then show ?thesis by (simp add: tame_result_def)
qed

lemma assign_tame: "tame_result db (assign_policy i now p db)"
proof -
  have "tame db db'" if "assign_policy i now p db = Inr db'" for db'
  proof -
    let ?f = "\<lambda>u :: user_row. u\<lparr>us_policy_id := p, us_updated_at := now\<rparr>"
    from that have db': "db' = update_user i ?f db" and p: "p \<in> po_id ` set (hd_policies db)"
      by (auto simp: assign_policy_def split: if_splits)
    have "hub_ok db'" if ok: "hub_ok db"
      unfolding db'
    proof (rule hub_ok_update_user [OF ok])
      show "distinct (map us_username (hd_users (update_user i ?f db)))"
        using hub_okD(5) [OF ok] by (simp add: update_user_names)
    qed (use p in \<open>simp add: user_fits_def user_checks_def\<close>)
    moreover have "has_active_admin db \<Longrightarrow> has_active_admin db'"
      unfolding db' by (erule active_admin_update) (simp add: is_active_admin_def)
    moreover have "admins_from db db'" by (auto simp: db' admins_from_def update_user_def)
    ultimately show ?thesis by (simp add: tame_def governed_def)
  qed
  then show ?thesis by (simp add: tame_result_def)
qed

lemma set_password_tame: "tame_result db (set_password env hash i pw db)"
  unfolding set_password_def
  by (intro tame_result_io) (auto intro!: tame_trans [OF tame_update_plain tame_update_plain])

lemma set_policy_tame: "tame_result db (set_policy env i p db)"
  unfolding set_policy_def by (intro tame_result_io) (simp add: tame_sql assign_tame)

lemma insert_admin_elsewhere: "0 < other_active_admins db i \<Longrightarrow> \<exists>u \<in> set (hd_users db). is_active_admin u \<and> us_id u \<noteq> i"
  by (auto simp: other_active_admins_def filter_empty_conv)

lemma user_by_idD:
  assumes "user_by_id db i = Some u"
  shows "u \<in> set (hd_users db)" "us_id u = i"
  using assms by (auto simp: user_by_id_def find_Some_iff)

lemma only_user:
  assumes "hub_ok db" and "user_by_id db i = Some u" and "v \<in> set (hd_users db)" "us_id v = i"
  shows "v = u"
  using hub_okD(1) [OF assms(1)] user_by_idD [OF assms(2)] assms(3,4) by (auto simp: distinct_map inj_on_def)

text \<open>The role that was read still says whether the user is an administrator.\<close>

definition role_known :: "i64 \<Rightarrow> string \<Rightarrow> hub_db \<Rightarrow> bool" where
  "role_known i r db \<longleftrightarrow> r = ''admin'' \<or> (\<forall>u \<in> set (hd_users db). us_id u = i \<longrightarrow> us_role u \<noteq> ''admin'')"

lemma role_known_tame: "governed db \<Longrightarrow> role_known i r db \<Longrightarrow> tame db db' \<Longrightarrow> role_known i r db'"
  unfolding tame_def admins_from_def role_known_def by metis

lemma role_known_user:
  assumes "governed db" and "user_by_id db i = Some u"
  shows "role_known i (us_role u) db"
proof -
  have "us_role v = us_role u" if "v \<in> set (hd_users db)" "us_id v = i" for v
    using only_user [OF _ assms(2) that] assms(1) by (simp add: governed_def)
  then show ?thesis unfolding role_known_def by metis
qed

lemma set_disabled_tame:
  assumes "role_known i r db"
  shows "tame_result db (set_disabled env r i disabled db)"
proof (cases disabled)
  case False
  then show ?thesis unfolding set_disabled_def
    by (simp add: tame_sql tame_update_plain)
next
  case True
  let ?f = "\<lambda>u :: user_row. u\<lparr>us_disabled_at := Some (de_now env), us_updated_at := de_now env\<rparr>"
  have "tame db (update_user i ?f db)" if free: "\<not> (r = ''admin'' \<and> other_active_admins db i = 0)"
  proof (rule tame_update_user)
    assume "governed db"
    then obtain v where v: "v \<in> set (hd_users db)" "is_active_admin v"
      unfolding governed_def has_active_admin_def by blast
    show "has_active_admin (update_user i ?f db)"
    proof (cases "r = ''admin''")
      case True
      with free insert_admin_elsewhere [of db i] show ?thesis by (auto intro: active_admin_elsewhere)
    next
      case False
      with assms v have "us_id v \<noteq> i" unfolding role_known_def is_active_admin_def by blast
      with v show ?thesis by (rule active_admin_elsewhere)
    qed
  qed simp
  with True show ?thesis unfolding set_disabled_def
    by (auto intro!: tame_result_io tame_sql)
qed

lemma update_user_tx_tame: "tame_result db (update_user_tx env hash i req db)"
proof (cases "governed db")
  case g: True
  show ?thesis
  proof (cases "user_by_id db i")
    case None
    then show ?thesis by (simp add: update_user_tx_def tame_result_io)
  next
    case (Some u)
    have known: "role_known i (us_role u) db" using g Some by (rule role_known_user)
    let ?n = "\<lambda>name db. sql_unique env 2 (Conflict ''username already exists'') (rename_user i (de_now env) name db)"
    have 1: "tame_result a (opt_step x (set_disabled env (us_role u) i) a)" if "tame db a" for x a
      by (intro tame_result_opt set_disabled_tame role_known_tame [OF g known that])
    have 2: "tame_result a (opt_step x ?n a)" for x a
      by (intro tame_result_opt tame_sql rename_tame)
    have 3: "tame_result a (opt_step x (\<lambda>v db. sql env n (Inr (update_user i (f v) db))) a)"
      if "\<And>v u. us_id (f v u) = us_id u \<and> us_role (f v u) = us_role u \<and> us_username (f v u) = us_username u
      \<and> us_policy_id (f v u) = us_policy_id u \<and> us_session_version u \<le> us_session_version (f v u)
      \<and> (us_password_hash u \<noteq> None \<longrightarrow> us_password_hash (f v u) \<noteq> None)
      \<and> (us_disabled_at u = None \<longrightarrow> us_disabled_at (f v u) = None)" for x a n and f :: "string \<Rightarrow> user_row \<Rightarrow> user_row"
      using that by (intro tame_result_opt tame_sql) (simp add: tame_update_plain)
    have 4: "tame_result a (opt_step x (set_password env hash i) a)" for x a
      by (intro tame_result_opt set_password_tame)
    have 5: "tame_result a (opt_step x (set_policy env i) a)" for x a
      by (intro tame_result_opt set_policy_tame)
    show ?thesis
      unfolding update_user_tx_def Some option.case
      by (intro tame_result_io) (auto intro!: tame_result_chain [OF _ 2] tame_result_chain [OF _ 3] tame_result_chain [OF _ 4]
          tame_result_chain [OF _ 5] tame_result_chain [OF _ 1] tame_result_commit)
  qed
qed (simp add: tame_result_def tame_def)

lemma insert_user_tame:
  assumes "us_role u = ''member''"
  shows "tame_result db (insert_user db u)"
proof -
  have "tame db db'" if "insert_user db u = Inr db'" for db'
  proof -
    have "hd_users db' = hd_users db @ [u\<lparr>us_id := next_id (map us_id (hd_users db))\<rparr>]"
      using that by (auto simp: insert_user_def Let_def split: if_splits)
    with assms hub_ok_insert_user [OF _ that] show ?thesis
      by (auto simp: tame_def governed_def has_active_admin_def admins_from_def)
  qed
  then show ?thesis by (simp add: tame_result_def)
qed

lemma delete_user_tame:
  assumes "user_by_id db i = Some u" and "is_active_admin u \<Longrightarrow> other_active_admins db i \<noteq> 0"
  shows "tame db (delete_user i db)"
proof -
  have us: "hd_users (delete_user i db) = filter (\<lambda>u. us_id u \<noteq> i) (hd_users db)"
    by (simp add: delete_user_def Let_def delete_keys_fields)
  have "has_active_admin (delete_user i db)" if g: "governed db"
  proof (cases "is_active_admin u")
    case True
    with assms(2) insert_admin_elsewhere [of db i] show ?thesis by (auto simp: has_active_admin_def us)
  next
    case False
    from g obtain v where v: "v \<in> set (hd_users db)" "is_active_admin v"
      unfolding governed_def has_active_admin_def by blast
    with False only_user [OF _ assms(1)] g have "us_id v \<noteq> i" unfolding governed_def by blast
    with v show ?thesis by (auto simp: has_active_admin_def us)
  qed
  moreover have "admins_from db (delete_user i db)" by (auto simp: admins_from_def us)
  ultimately show ?thesis by (simp add: tame_def governed_def hub_ok_delete_user)
qed

lemma drop_rollup_tame: "tame db (drop_rollup i period start db)"
proof (rule tame_same_users)
  show "hub_ok db \<Longrightarrow> hub_ok (drop_rollup i period start db)"
    by (simp add: drop_rollup_def hub_ok_def delete_usage_rollup_def Let_def)
qed (simp add: drop_rollup_def)

text \<open>A handler's result and tables.\<close>

lemma tame_case:
  assumes "case_sum f g x = out" and "tame_result db x"
    and "\<And>e. f e = out \<Longrightarrow> tame db t" and "\<And>a. tame db a \<Longrightarrow> g a = out \<Longrightarrow> tame db t"
  shows "tame db t"
  using assms by (cases x) (auto simp: tame_result_def)

lemma create_user_tame: "create_user env hash starts req db = (r, db') \<Longrightarrow> tame db db'"
  unfolding create_user_def Let_def
  by (erule tame_case) (auto intro!: tame_result_io tame_sql insert_user_tame simp: new_user_def)

lemma update_user_handler_tame: "update_user_handler env hash starts i req db = (r, db', fx) \<Longrightarrow> tame db db'"
  unfolding update_user_handler_def
  by (erule tame_case) (auto simp: update_user_tx_tame)

lemma tame_result_guard: "(\<And>a. x = Inr a \<Longrightarrow> tame_result db (f a)) \<Longrightarrow> tame_result db (try_then x f)"
  by (cases x) simp_all

lemma remove_user_tame: "remove_user env i db = (r, db', fx) \<Longrightarrow> tame db db'"
  unfolding remove_user_def
proof (erule tame_case)
  show "tame_result db (try_then (io_step env 0) (\<lambda>_. try_then (io_step env 1) (\<lambda>_.
             case user_by_id db i of
               None \<Rightarrow> Inl (NotFound ''user not found'')
             | Some u \<Rightarrow>
                 try_then (if is_active_admin u
                           then try_then (io_step env 2) (\<lambda>_.
                             if other_active_admins db i = 0 then Inl (Conflict ''cannot delete the last active admin'')
                             else Inr ())
                           else Inr ()) (\<lambda>_.
                 try_then (io_step env 3) (\<lambda>_. try_then (io_step env 4) (\<lambda>_. Inr (delete_user i db)))))))"
  proof (cases "user_by_id db i")
    case (Some u)
    show ?thesis unfolding Some option.case
      by (intro tame_result_io tame_result_guard) (auto intro!: delete_user_tame [OF Some] split: if_splits)
  qed (simp add: tame_result_io)
qed auto

lemma reset_usage_tame: "reset_usage env starts i period db = (r, db', fx) \<Longrightarrow> tame db db'"
  unfolding reset_usage_def
  by (erule tame_case) (auto intro!: tame_result_io tame_sql drop_rollup_tame tame_trans [OF drop_rollup_tame drop_rollup_tame])

lemma if_outE:
  assumes "(if b then x else y) = out" and "x = out \<Longrightarrow> P" and "y = out \<Longrightarrow> P"
  shows P
  using assms by (cases b) simp_all

lemma change_password_tame: "change_password env verify hash secure i req before db = (r, db', fx) \<Longrightarrow> tame db db'"
  unfolding change_password_def Let_def
proof (elim if_outE tame_case)
  fix a
  assume "tame db a" and "(case Option.bind (user_by_id a i) (\<lambda>u. decode_i32 (us_session_version u)) of
      None \<Rightarrow> (Inl (de_decode env), a, [])
    | Some _ \<Rightarrow> (Inr (clear_cookie_header secure), a, [Send_Event (event_auth_revoked ''password_changed'')])) = (r, db', fx)"
  then show "tame db db'" by (cases "Option.bind (user_by_id a i) (\<lambda>u. decode_i32 (us_session_version u))") simp_all
qed (auto intro!: tame_result_io tame_update_plain split: option.splits)

lemma bump_session_tame: "tame db (bump_session env i db)"
  unfolding bump_session_def by (rule tame_update_plain) simp

lemma logout_all_tame: "logout_all env secure i db = Inr (h, ev, db') \<Longrightarrow> tame db db'"
  by (auto simp: logout_all_def bump_session_tame)

text \<open>A name belongs to one row, so the reset is an update of that row.\<close>

lemma reset_is_update:
  assumes "hub_ok db" and "u \<in> set (hd_users db)" "us_username u = name" "us_role u = ''admin''"
  shows "db\<lparr>hd_users := map (\<lambda>u. if us_username u = name \<and> us_role u = ''admin'' then f u else u) (hd_users db)\<rparr>
    = update_user (us_id u) f db"
proof -
  have "us_username v = name \<and> us_role v = ''admin'' \<longleftrightarrow> us_id v = us_id u" if "v \<in> set (hd_users db)" for v
  proof
    assume "us_username v = name \<and> us_role v = ''admin''"
    with inj_onD [of us_username "set (hd_users db)" v u] hub_okD(5) [OF assms(1)] assms(2,3) that
    show "us_id v = us_id u" by (simp add: distinct_map)
  next
    assume "us_id v = us_id u"
    with inj_onD [of us_id "set (hd_users db)" v u] hub_okD(1) [OF assms(1)] assms(2-4) that
    show "us_username v = name \<and> us_role v = ''admin''" by (simp add: distinct_map)
  qed
  then have "map (\<lambda>u. if us_username u = name \<and> us_role u = ''admin'' then f u else u) (hd_users db)
      = map (\<lambda>v. if us_id v = us_id u then f v else v) (hd_users db)"
    by (intro map_cong [OF refl]) simp
  then show ?thesis by (simp only: update_user_def)
qed

lemma reset_admin_password_update:
  assumes "hub_ok db" and "reset_admin_password env n name h db = Inr db'"
  obtains u where "u \<in> set (hd_users db)" "us_username u = name" "us_role u = ''admin''"
    "db' = update_user (us_id u) (\<lambda>u. u\<lparr>us_password_hash := Some h, us_must_change_password := 0,
       us_session_version := us_session_version u + 1, us_updated_at := de_now env\<rparr>) db"
proof -
  from assms(2) obtain u where u: "u \<in> set (hd_users db)" "us_username u = name" "us_role u = ''admin''"
    by (auto simp: reset_admin_password_def list_ex_iff split: if_splits)
  moreover from assms(2) have "db' = db\<lparr>hd_users := map (\<lambda>u. if us_username u = name \<and> us_role u = ''admin''
              then u\<lparr>us_password_hash := Some h, us_must_change_password := 0,
                     us_session_version := us_session_version u + 1, us_updated_at := de_now env\<rparr>
              else u) (hd_users db)\<rparr>"
    by (simp add: reset_admin_password_def split: if_splits)
  ultimately show ?thesis using that reset_is_update [OF assms(1) u] by simp
qed

lemma reset_admin_password_tame: "tame_result db (reset_admin_password env n name h db)"
proof -
  have "tame db db'" if r: "reset_admin_password env n name h db = Inr db'" for db'
  proof (cases "hub_ok db")
    case True
    show ?thesis
    proof (rule reset_admin_password_update [OF True r])
      fix u
      assume "db' = update_user (us_id u) (\<lambda>u. u\<lparr>us_password_hash := Some h, us_must_change_password := 0,
         us_session_version := us_session_version u + 1, us_updated_at := de_now env\<rparr>) db"
      then show "tame db db'" by (simp only:) (rule tame_update_plain, simp)
    qed
  qed (simp add: tame_def governed_def)
  then show ?thesis by (simp add: tame_result_def)
qed

lemma reset_run_tame: "reset_run env tm v hash opened args db = Inr db' \<Longrightarrow> tame db db'"
  using reset_admin_password_tame by (auto simp: reset_run_def tame_result_def)

lemma seed_secret_tame: "tame_result db (seed_secret env sd db)"
  unfolding seed_secret_def
  by (intro tame_result_io) (auto intro!: tame_sql tame_same_users simp: hub_ok_def)

lemma seed_admin_user_governed: "governed db \<Longrightarrow> seed_admin_user env sd hash db = Inr db' \<Longrightarrow> db' = db"
  by (auto simp: seed_admin_user_def governed_def has_active_admin_def is_active_admin_def list_ex_iff split: if_splits)

lemma seed_admin_user_tame: "tame_result db (seed_admin_user env sd hash db)"
proof -
  have "tame db a" if "seed_admin_user env sd hash db = Inr a" for a
    using seed_admin_user_governed [OF _ that] by (cases "governed db") (auto simp: tame_def admins_from_def)
  then show ?thesis by (simp add: tame_result_def)
qed

lemma seed_admin_tame:
  assumes "seed_admin env sd hash db = (r, db')"
  shows "tame db db'"
proof (cases "seed_admin_user env sd hash db")
  case (Inl e)
  with assms show ?thesis by (simp add: seed_admin_def)
next
  case (Inr a)
  with seed_admin_user_tame [of db env sd hash] have a: "tame db a" by simp
  show ?thesis
  proof (cases "seed_secret env sd a")
    case (Inl e)
    with assms Inr a show ?thesis by (simp add: seed_admin_def)
  next
    case secret: (Inr b)
    with seed_secret_tame [of a env sd] have "tame a b" by simp
    with assms Inr secret tame_trans [OF a] show ?thesis by (simp add: seed_admin_def)
  qed
qed

lemma key_update_tame:
  assumes "\<And>k. ak_id (f k) = ak_id k \<and> ak_user_id (f k) = ak_user_id k
      \<and> ak_lookup_key (f k) = ak_lookup_key k \<and> ak_key_hash (f k) = ak_key_hash k"
  shows "tame db (update_key i f db)"
  by (rule tame_same_users) (simp_all add: hub_ok_update_key assms, simp add: update_key_def)

lemma run_touch_tame: "tame db (run_touch env t db)"
proof (cases t)
  case (Touch_Key i ip)
  have "tame db (update_key i (\<lambda>k. k\<lparr>ak_last_used_at := Some (de_now env), ak_last_used_ip := Some ip\<rparr>) db)"
    by (rule key_update_tame) simp
  with Touch_Key show ?thesis by (simp add: run_touch_def touch_api_key_def io_step_def split: option.splits)
next
  case (Touch_User i)
  then show ?thesis
    by (auto simp: run_touch_def touch_user_def io_step_def split: option.splits intro!: tame_update_plain)
qed

subsection \<open>Keys and policies\<close>

lemma insert_key_tame: "tame_result db (insert_key db k)"
proof -
  have "tame db db'" if "insert_key db k = Inr db'" for db'
  proof (rule tame_same_users)
    show "hd_users db' = hd_users db" using that by (auto simp: insert_key_def Let_def split: if_splits)
  qed (rule hub_ok_insert_key [OF _ that])
  then show ?thesis by (simp add: tame_result_def)
qed

lemma create_api_key_tame:
  "create_api_key env blake3 db i label n draws = Some (Inr (plaintext, db')) \<Longrightarrow> tame db db'"
proof (induction draws arbitrary: n)
  case (Cons d ds)
  then show ?case using insert_key_tame [of db]
    by (auto simp: generate_api_key_def Let_def tame_result_def split: sum.splits sql_error.splits)
qed simp

lemma insert_bindings_tame: "insert_bindings env n key as db = (r, db') \<Longrightarrow> tame db db'"
proof (induction as arbitrary: n db)
  case (Cons a as)
  have "tame db b" if "sql env n (insert_binding db (key, a)) = Inr b" for b
  proof (rule tame_same_users)
    show "hub_ok db \<Longrightarrow> hub_ok b" using that by (auto intro: hub_ok_insert_binding)
  qed (use that in \<open>auto simp: insert_binding_def split: if_splits\<close>)
  then have "tame_result db (sql env n (insert_binding db (key, a)))" by (simp add: tame_result_def)
  with Cons show ?case by (auto elim!: tame_case intro: tame_trans simp: tame_result_def split: sum.splits)
qed simp

lemma update_bindings_tame: "update_bindings env i as db = (r, db') \<Longrightarrow> tame db db'"
  unfolding update_bindings_def
proof (erule tame_case)
  have "hub_ok db \<Longrightarrow> hub_ok (db\<lparr>hd_bindings := filter (\<lambda>b. fst b \<noteq> i) (hd_bindings db)\<rparr>)"
    by (auto simp: hub_ok_def hub_parts_def)
  then have "tame db (db\<lparr>hd_bindings := filter (\<lambda>b. fst b \<noteq> i) (hd_bindings db)\<rparr>)"
    by (intro tame_same_users) simp_all
  then show "tame_result db (try_then (io_step env 0) (\<lambda>_.
             if \<not> key_exists db i then Inl (NotFound ''api key not found'')
             else sql env 1 (Inr (db\<lparr>hd_bindings := filter (\<lambda>b. fst b \<noteq> i) (hd_bindings db)\<rparr>))))"
    by (auto intro!: tame_result_io tame_sql)
qed (auto intro: tame_trans insert_bindings_tame)

lemma on_key_tame: "on_key env i db a = (r, db') \<Longrightarrow> tame db a \<Longrightarrow> tame db db'"
  by (auto simp: on_key_def split: if_splits)

lemma remove_key_tame: "remove_key env i db = (r, db') \<Longrightarrow> tame db db'"
  unfolding remove_key_def
  by (erule on_key_tame) (simp add: tame_same_users delete_keys_fields hub_ok_delete_keys)

lemma key_switches_tame:
  "update_auto_cache env i b db = (r, db') \<Longrightarrow> tame db db'"
  "update_enhanced_audit env i b db = (r, db') \<Longrightarrow> tame db db'"
  unfolding update_auto_cache_def update_enhanced_audit_def
  by (erule on_key_tame, rule key_update_tame, simp)+

lemma update_policy_tame:
  assumes "\<And>p. po_id (f p) = po_id p"
  shows "tame_result db (update_policy i f db)"
proof -
  have "tame db db'" if "update_policy i f db = Inr db'" for db'
  proof (rule tame_same_users)
    show "hd_users db' = hd_users db" using that by (auto simp: update_policy_def Let_def split: if_splits)
  qed (rule hub_ok_update_policy [OF _ that assms])
  then show ?thesis by (simp add: tame_result_def)
qed

lemma create_policy_tame: "create_policy env req db = (r, db') \<Longrightarrow> tame db db'"
  unfolding create_policy_def
proof (elim if_outE tame_case)
  have "tame db a" if "insert_policy db p = Inr a" for p a
  proof (rule tame_same_users)
    show "hd_users a = hd_users db" using that by (auto simp: insert_policy_def split: if_splits)
  qed (rule hub_ok_insert_policy [OF _ that])
  then show "tame_result db (sql_unique env 0 e (insert_policy db p))" for e p
    by (auto simp: tame_result_def)
qed auto

lemma update_policy_tx_tame: "tame_result db (update_policy_tx env i req db)"
proof -
  have 1: "tame_result a (opt_step x (\<lambda>v db. sql env n (update_policy i (f v) db)) a)"
    if "\<And>v p. po_id (f v p) = po_id p" for x a n and f :: "i64 \<Rightarrow> policy_row \<Rightarrow> policy_row"
    using that by (intro tame_result_opt tame_sql update_policy_tame) simp
  have 2: "tame_result a (opt_step x (\<lambda>v db. sql_unique env 2 e
      (update_policy i (\<lambda>p. p\<lparr>po_name := v, po_updated_at := de_now env\<rparr>) db)) a)" for x a e
    by (intro tame_result_opt tame_sql update_policy_tame) simp
  show ?thesis unfolding update_policy_tx_def Let_def
    by (auto intro!: tame_result_io [where x = "io_step env n" for n] tame_result_chain [OF _ 2]
        tame_result_chain [OF _ 1] tame_result_commit)
qed

lemma update_policy_handler_tame: "update_policy_handler env i req db = (r, db') \<Longrightarrow> tame db db'"
  unfolding update_policy_handler_def by (erule tame_case) (auto simp: update_policy_tx_tame)

lemma remove_policy_tame: "remove_policy env i db = (r, db') \<Longrightarrow> tame db db'"
  unfolding remove_policy_def
proof (elim if_outE tame_case)
  have "tame db a" if "delete_policy i db = Inr a" for a
  proof (rule tame_same_users)
    show "hd_users a = hd_users db" using that by (auto simp: delete_policy_def split: if_splits)
  qed (rule hub_ok_delete_policy [OF _ that])
  then show "tame_result db (try_then (io_step env 0) (\<lambda>_. try_then (io_step env 1) (\<lambda>_.
             if i \<in> set (map us_policy_id (hd_users db)) then Inl (Conflict ''policy is still assigned to users'')
             else try_then (sql env 2 (delete_policy i db)) (\<lambda>db'.
               if policy_by_id db i = None then Inl (NotFound ''policy not found'')
               else map_sum id (\<lambda>_. db') (io_step env 3)))))"
    by (intro tame_result_io) (auto intro!: tame_result_guard tame_result_commit)
qed auto

lemma create_key_tame:
  assumes "create_key env attempts blake3 draws req db = Some (r, db')"
  shows "tame db db'"
  using assms unfolding create_key_def Let_def
  by (auto split: sum.splits option.splits prod.splits if_splits
      intro: create_api_key_tame insert_bindings_tame tame_trans [OF create_api_key_tame key_update_tame]
        tame_trans [OF create_api_key_tame insert_bindings_tame] tame_trans [OF tame_trans [OF create_api_key_tame insert_bindings_tame] key_update_tame])

section \<open>The machine\<close>

datatype admin_label = Revoked i64 | Changed

text \<open>
  One handler after the other on the same tables, with any request, any answers of the driver and any hash.
  \<open>Revoked i\<close> labels what ends the sessions of user \<open>i\<close>. \<open>elsewhere\<close>: the other components, which write no user.
\<close>

inductive admin_step :: "hub_db \<Rightarrow> admin_label \<Rightarrow> hub_db \<Rightarrow> bool" where
  create_user: "create_user env hash starts req db = (r, db') \<Longrightarrow> admin_step db Changed db'"
| update_user: "update_user_handler env hash starts i req db = (r, db', fx)
    \<Longrightarrow> admin_step db (if \<not> isl (update_user_tx env hash i req db) \<and> uq_password req \<noteq> None then Revoked i else Changed) db'"
| remove_user: "remove_user env i db = (r, db', fx) \<Longrightarrow> admin_step db Changed db'"
| reset_usage: "reset_usage env starts i period db = (r, db', fx) \<Longrightarrow> admin_step db Changed db'"
| change_password: "change_password env verify hash secure i req before db = (r, db', fx)
    \<Longrightarrow> admin_step db (if isl r then Changed else Revoked i) db'"
| logout_all: "logout_all env secure i db = Inr (h, ev, db') \<Longrightarrow> admin_step db (Revoked i) db'"
| reset_run: "reset_run env tm v hash opened args db = Inr db'
    \<Longrightarrow> u \<in> set (hd_users db) \<Longrightarrow> us_username u = ra_username args \<Longrightarrow> us_role u = ''admin''
    \<Longrightarrow> admin_step db (Revoked (us_id u)) db'"
| seed_admin: "seed_admin env sd hash db = (r, db') \<Longrightarrow> admin_step db Changed db'"
| create_key: "create_key env attempts blake3 draws req db = Some (r, db') \<Longrightarrow> admin_step db Changed db'"
| update_bindings: "update_bindings env i as db = (r, db') \<Longrightarrow> admin_step db Changed db'"
| remove_key: "remove_key env i db = (r, db') \<Longrightarrow> admin_step db Changed db'"
| auto_cache: "update_auto_cache env i b db = (r, db') \<Longrightarrow> admin_step db Changed db'"
| enhanced_audit: "update_enhanced_audit env i b db = (r, db') \<Longrightarrow> admin_step db Changed db'"
| create_policy: "create_policy env req db = (r, db') \<Longrightarrow> admin_step db Changed db'"
| update_policy: "update_policy_handler env i req db = (r, db') \<Longrightarrow> admin_step db Changed db'"
| remove_policy: "remove_policy env i db = (r, db') \<Longrightarrow> admin_step db Changed db'"
| touched: "admin_step db Changed (run_touch env t db)"
| elsewhere: "hd_users db' = hd_users db \<Longrightarrow> (hub_ok db \<Longrightarrow> hub_ok db') \<Longrightarrow> admin_step db Changed db'"

lemmas handlers_tame = create_user_tame update_user_handler_tame remove_user_tame reset_usage_tame
  change_password_tame logout_all_tame reset_run_tame seed_admin_tame create_key_tame update_bindings_tame
  remove_key_tame key_switches_tame create_policy_tame update_policy_handler_tame remove_policy_tame
  run_touch_tame tame_same_users

lemma admin_step_tame: "admin_step db l db' \<Longrightarrow> tame db db'"
  by (erule admin_step.cases) (hypsubst, erule handlers_tame | hypsubst, rule handlers_tame; assumption)+

interpretation admin_machine: invariant_machine admin_step governed
  by unfold_locales (auto dest: admin_step_tame simp: tame_def)

section \<open>Revoked sessions\<close>

definition barred :: "i64 \<Rightarrow> int \<Rightarrow> hub_db \<Rightarrow> bool" where
  "barred i v db \<longleftrightarrow> (\<forall>u \<in> set (hd_users db). us_id u = i \<longrightarrow> us_role u = ''admin'' \<longrightarrow> v < us_session_version u)"

lemma barred_tame: "governed db \<Longrightarrow> tame db db' \<Longrightarrow> barred i v db \<Longrightarrow> barred i v db'"
  unfolding tame_def admins_from_def barred_def by (metis order_less_le_trans)

interpretation barred_machine: stable_machine admin_step governed "\<lambda>_. True" "barred i v" for i v
  by unfold_locales (blast dest: admin_step_tame barred_tame)

lemma barred_before:
  assumes "governed db" and "user_by_id db i = Some u"
  shows "barred i (us_session_version u - 1) db"
  using only_user [OF _ assms(2)] assms(1) by (auto simp: barred_def governed_def)

lemma barred_bump:
  assumes "barred i (v - 1) db"
    and "\<And>u. u \<in> set (hd_users db) \<Longrightarrow> us_id u = i \<Longrightarrow> us_role (f u) = ''admin''
      \<Longrightarrow> us_role u = ''admin'' \<and> us_session_version (f u) = us_session_version u + 1"
    and "\<And>u. us_id (f u) = us_id u"
  shows "barred i v (update_user i f db)"
  unfolding barred_def
proof (intro ballI impI)
  fix w
  assume w: "w \<in> set (hd_users (update_user i f db))" "us_id w = i" "us_role w = ''admin''"
  then obtain u where u: "u \<in> set (hd_users db)" "w = (if us_id u = i then f u else u)"
    by (auto simp: update_user_def)
  with w(2) assms(3) have "us_id u = i" by (auto split: if_splits)
  with u w assms(1,2) show "v < us_session_version w" by (force simp: barred_def)
qed

lemma barred_same:
  assumes "\<And>u. us_id (f u) = us_id u \<and> us_role (f u) = us_role u \<and> us_session_version (f u) = us_session_version u"
    and "barred i v db"
  shows "barred i v (update_user j f db)"
  unfolding barred_def
proof (intro ballI impI)
  fix w
  assume w: "w \<in> set (hd_users (update_user j f db))" "us_id w = i" "us_role w = ''admin''"
  then obtain u where u: "u \<in> set (hd_users db)" "w = u \<or> w = f u"
    by (auto simp: update_user_def split: if_splits)
  with assms(1) [of u] w have "us_id u = i" "us_role u = ''admin''" "us_session_version w = us_session_version u"
    by auto
  with u(1) assms(2) show "v < us_session_version w" by (simp add: barred_def)
qed

lemma commit_Inr: "map_sum id (\<lambda>_. a) x = Inr b \<longleftrightarrow> \<not> isl x \<and> a = b"
  by (cases x) auto

lemma set_password_bars:
  assumes "set_password env hash i pw db = Inr db'" and "barred i (v - 1) db"
  shows "barred i v db'"
proof -
  obtain h where db': "db' = update_user i (\<lambda>u. u\<lparr>us_session_version := us_session_version u + 1\<rparr>)
      (update_user i (\<lambda>u. u\<lparr>us_password_hash := Some h, us_updated_at := de_now env\<rparr>) db)"
    using assms(1) unfolding set_password_def by auto
  have "barred i (v - 1) (update_user i (\<lambda>u. u\<lparr>us_password_hash := Some h, us_updated_at := de_now env\<rparr>) db)"
    using assms(2) by (rule barred_same [rotated]) simp
  then show ?thesis unfolding db' by (rule barred_bump) simp_all
qed

lemma update_user_tx_bars:
  assumes g: "governed db" and u: "user_by_id db i = Some u" and "update_user_tx env hash i req db = Inr db'"
    and "uq_password req = Some pw"
  shows "barred i (us_session_version u) db'"
proof -
  let ?rename = "\<lambda>name db. sql_unique env 2 (Conflict ''username already exists'') (rename_user i (de_now env) name db)"
  let ?display = "\<lambda>name db. sql env 3 (Inr (update_user i
      (\<lambda>u. u\<lparr>us_display_name := Some name, us_updated_at := de_now env\<rparr>) db))"
  let ?notes = "\<lambda>notes db. sql env 10 (Inr (update_user i (\<lambda>u. u\<lparr>us_notes := Some notes, us_updated_at := de_now env\<rparr>) db))"
  obtain a b c d e where steps: "opt_step (uq_username req) ?rename db = Inr a"
      "opt_step (uq_display_name req) ?display a = Inr b" "set_password env hash i pw b = Inr c"
      "opt_step (uq_policy_id req) (set_policy env i) c = Inr d"
      "opt_step (uq_disabled req) (set_disabled env (us_role u) i) d = Inr e"
      "opt_step (uq_notes req) ?notes e = Inr db'"
    using assms(3) unfolding update_user_tx_def u option.case assms(4)
    by (auto simp: opt_step_def [of "Some pw"] commit_Inr split: if_splits)
  have t: "tame db a" "tame a b" "tame b c" "tame c d" "tame e db'"
    using tame_result_opt [of db ?rename "uq_username req"] tame_result_opt [of a ?display "uq_display_name req"]
      set_password_tame [of b env hash i pw] tame_result_opt [of c "set_policy env i" "uq_policy_id req"]
      tame_result_opt [of e ?notes "uq_notes req"] steps
    by (simp_all add: tame_sql rename_tame tame_update_plain set_policy_tame)
  note db_b = tame_trans [OF t(1,2)]
  note db_d = tame_trans [OF tame_trans [OF db_b t(3)] t(4)]
  have "tame_result d (opt_step (uq_disabled req) (set_disabled env (us_role u) i) d)"
    by (intro tame_result_opt set_disabled_tame role_known_tame [OF g role_known_user [OF g u] db_d])
  then have de: "tame d e" by (simp only: steps(5) tame_result_simps)
  have gov: "governed b" "governed c"
    using g db_b tame_trans [OF db_b t(3)] by (simp_all add: tame_def)
  have "barred i (us_session_version u - 1) b" using g db_b barred_before [OF g u] by (rule barred_tame)
  then have "barred i (us_session_version u) c" by (rule set_password_bars [OF steps(3)])
  with gov(2) tame_trans [OF tame_trans [OF t(4) de] t(5)] show ?thesis by (rule barred_tame)
qed

lemma change_password_bars:
  assumes g: "governed db" and u: "user_by_id db i = Some u"
    and "change_password env verify hash secure i req before db = (Inr h, db', fx)"
  shows "barred i (us_session_version u) db'"
proof -
  let ?f = "\<lambda>current new u :: user_row. if us_password_hash u = Some current
      then u\<lparr>us_password_hash := Some new, us_must_change_password := 0,
             us_session_version := us_session_version u + 1, us_updated_at := de_now env\<rparr> else u"
  obtain current new where l: "list_ex (\<lambda>u. us_id u = i \<and> us_password_hash u = Some current) (hd_users db)"
      and db': "db' = update_user i (?f current new) db"
    using assms(3) unfolding change_password_def Let_def
    by (auto split: if_splits sum.splits option.splits)
  from l obtain w where "w \<in> set (hd_users db)" "us_id w = i" "us_password_hash w = Some current"
    by (auto simp: list_ex_iff)
  moreover note only = only_user [OF _ u]
  ultimately have pw: "us_password_hash u = Some current" using g by (auto simp: governed_def)
  show ?thesis unfolding db'
  proof (rule barred_bump [OF barred_before [OF g u]])
    fix v assume "v \<in> set (hd_users db)" "us_id v = i" "us_role (?f current new v) = ''admin''"
    moreover from this only g have "v = u" by (simp add: governed_def)
    ultimately show "us_role v = ''admin'' \<and> us_session_version (?f current new v) = us_session_version v + 1"
      using pw by simp
  qed simp
qed

lemma bump_session_bars: "governed db \<Longrightarrow> user_by_id db i = Some u \<Longrightarrow> barred i (us_session_version u) (bump_session env i db)"
  unfolding bump_session_def by (rule barred_bump [OF barred_before]) (auto split: if_splits)

lemma reset_run_bars:
  assumes g: "governed db" and u: "user_by_id db (us_id w) = Some u"
    and "reset_run env tm v hash opened args db = Inr db'"
    and w: "w \<in> set (hd_users db)" "us_username w = ra_username args" "us_role w = ''admin''"
  shows "barred (us_id w) (us_session_version u) db'"
proof -
  obtain h where "reset_admin_password env 0 (ra_username args) h db = Inr db'"
    using assms(3) by (auto simp: reset_run_def)
  then have "db' = db\<lparr>hd_users := map (\<lambda>u. if us_username u = ra_username args \<and> us_role u = ''admin''
              then u\<lparr>us_password_hash := Some h, us_must_change_password := 0,
                     us_session_version := us_session_version u + 1, us_updated_at := de_now env\<rparr>
              else u) (hd_users db)\<rparr>"
    by (simp add: reset_admin_password_def split: if_splits)
  with reset_is_update [OF _ w] g have "db' = update_user (us_id w) (\<lambda>u. u\<lparr>us_password_hash := Some h,
      us_must_change_password := 0, us_session_version := us_session_version u + 1, us_updated_at := de_now env\<rparr>) db"
    by (simp add: governed_def)
  then show ?thesis by (simp only:) (rule barred_bump [OF barred_before [OF g u]], simp_all)
qed

lemma revoked_bars:
  assumes "governed db" and "user_by_id db i = Some u" and "admin_step db (Revoked i) db'"
  shows "barred i (us_session_version u) db'"
  using assms(3)
proof cases
  case (update_user env hash starts i' req r fx)
  then obtain a pw where "update_user_tx env hash i req db = Inr a" "uq_password req = Some pw"
    by (auto split: if_splits sum.splits simp: isl_def) (metis isl_def sum.exhaust)
  with update_user update_user_tx_bars [OF assms(1,2) this] show ?thesis
    by (simp add: update_user_handler_def split: if_splits)
next
  case (change_password env verify hash secure i' req before r fx)
  then obtain h where "change_password env verify hash secure i req before db = (Inr h, db', fx)"
    by (cases r) (simp_all split: if_splits)
  then show ?thesis by (rule change_password_bars [OF assms(1,2)])
next
  case (logout_all env secure h ev)
  then have "db' = bump_session env i db" by (simp add: logout_all_def)
  then show ?thesis using bump_session_bars [OF assms(1,2)] by simp
next
  case (reset_run env tm v hash opened args w)
  with assms(2) reset_run_bars [OF assms(1) _ reset_run(2-5)] show ?thesis by simp
qed

lemma barred_session_refused:
  assumes "barred i v db" and "sc_user_id claims = i" "sc_session_version claims \<le> v"
    and "Option.bind (extract_session_cookie (case header_str hs ''cookie'' of Some c \<Rightarrow> c | None \<Rightarrow> []))
      (validate_session_cookie (se_mac se) (se_now se) (se_secret se)) = Some claims"
  shows "require_admin_session env se db hs = Inl InvalidAuth"
proof (cases "user_by_id db i")
  case None
  then show ?thesis by (simp add: require_admin_session_def assms(2,4))
next
  case (Some u)
  with user_by_idD [OF Some] assms(1,3) have "us_role u = ''admin'' \<Longrightarrow> us_session_version u \<noteq> sc_session_version claims"
    by (auto simp: barred_def)
  then show ?thesis
    by (auto simp: require_admin_session_def assms(2,4) Some decode_i32_def split: option.splits)
qed

text \<open>
  Whatever administrators, the command line and requests do with users, keys and policies, in any order and with
  any failing statement, the tables keep their constraints and references, and an active administrator remains.
\<close>

theorem active_admin_kept:
  assumes "governed db" and "run admin_step db ls db'"
  shows "hub_ok db' \<and> (\<exists>u \<in> set (hd_users db'). us_role u = ''admin'' \<and> us_disabled_at u = None)"
  using admin_machine.run_inv [OF assms(2,1)] by (auto simp: governed_def has_active_admin_def is_active_admin_def)

text \<open>
  C23: Once the sessions of a user are revoked, by logging out everywhere, by a new password or by the reset of the
  command line, a cookie signed for that user before is refused after any later run of handlers, whatever its expiry,
  even if the user was deleted and the id was given to somebody else.
\<close>

theorem revoked_sessions_stay_out:
  assumes "governed db" and "user_by_id db i = Some u" and "admin_step db (Revoked i) db1"
    and "run admin_step db1 ls db2"
    and "sc_user_id claims = i" "sc_session_version claims \<le> us_session_version u"
    and "Option.bind (extract_session_cookie (case header_str hs ''cookie'' of Some c \<Rightarrow> c | None \<Rightarrow> []))
      (validate_session_cookie (se_mac se) (se_now se) (se_secret se)) = Some claims"
  shows "require_admin_session env se db2 hs = Inl InvalidAuth"
proof -
  have "governed db1" using assms(1,3) by (rule admin_machine.step_inv)
  with barred_machine.run_stable [OF assms(4), of i "us_session_version u"] revoked_bars [OF assms(1-3)]
  have "barred i (us_session_version u) db2" by (simp add: list_all_iff)
  then show ?thesis by (rule barred_session_refused [OF _ assms(5-7)])
qed

section \<open>Samples\<close>

definition sample_admin :: user_row where
  "sample_admin = (new_user sample_db_env ''admin'' None (Some ''secret'') ''admin'' 1 None 0)\<lparr>us_id := 1\<rparr>"

definition admin_hub :: hub_db where
  "admin_hub = no_hub\<lparr>hd_users := [sample_admin],
     hd_policies := [\<lparr>po_id = 1, po_name = ''default'', po_max_concurrent = 5, po_rpm_limit = 30,
       po_weekly_budget_nanousd = 0, po_monthly_budget_nanousd = 0, po_created_at = [], po_updated_at = []\<rparr>],
     hd_books := (hd_books no_hub)\<lparr>b_user_ids := [1]\<rparr>\<rparr>"

lemmas sample_hub_defs = admin_hub_def no_hub_def sample_admin_def new_user_def sample_db_env_def

lemma admin_hub_rows:
  "hd_users admin_hub = [sample_admin]" "map po_id (hd_policies admin_hub) = [1]" "hd_keys admin_hub = []"
  "hd_bindings admin_hub = []" "b_user_ids (hd_books admin_hub) = [1]" "b_api_key_ids (hd_books admin_hub) = []"
  "us_id sample_admin = 1" "us_role sample_admin = ''admin''" "us_disabled_at sample_admin = None"
  "us_password_hash sample_admin \<noteq> None" "us_policy_id sample_admin = 1" "us_session_version sample_admin = 1"
  "distinct (map po_name (hd_policies admin_hub))" "list_all policy_fits (hd_policies admin_hub)"
  by (simp_all add: sample_hub_defs policy_fits_def)

lemma admin_hub_governed: "governed admin_hub"
proof -
  have "po_id ` set (hd_policies admin_hub) = {1}" by (simp add: admin_hub_def)
  then show ?thesis
    by (simp add: governed_def has_active_admin_def is_active_admin_def hub_ok_def hub_parts_def user_checks_def
        admin_hub_rows)
qed

lemma admin_hub_user: "user_by_id admin_hub 1 = Some sample_admin"
  by (simp add: user_by_id_def admin_hub_rows)

lemma admin_hub_logout: "admin_step admin_hub (Revoked 1) (bump_session sample_db_env 1 admin_hub)"
  by (rule admin_step.logout_all [where env = sample_db_env]) (simp add: logout_all_def sample_db_env_def)

lemma active_admin_kept_witness:
  "governed admin_hub \<and> hub_ok (bump_session sample_db_env 1 admin_hub)
   \<and> us_session_version (hd (hd_users (bump_session sample_db_env 1 admin_hub))) = 2"
proof -
  have "run admin_step admin_hub [Revoked 1] (bump_session sample_db_env 1 admin_hub)"
    by (simp add: run_Cons_iff admin_hub_logout)
  from active_admin_kept [OF admin_hub_governed this] admin_hub_governed show ?thesis
    by (simp add: bump_session_def update_user_def admin_hub_rows)
qed

definition sample_headers :: headers where
  "sample_headers = [(''cookie'', ''clewdr_session=1.1.99.'')]"

definition sample_session :: session_env where
  "sample_session = \<lparr>se_mac = (\<lambda>_ _. []), se_secret = [], se_now = 5\<rparr>"

lemma sample_cookie_fields: "parse_i64 ''1'' = Some 1" "parse_i32 ''1'' = Some 1" "parse_word64 ''99'' = Some 99"
proof -
  show "parse_i64 ''1'' = Some 1" "parse_i32 ''1'' = Some 1" by code_simp+
  have "digits_val ''99'' = 99" "is_ascii_digit (CHR ''9'')" by code_simp+
  then show "parse_word64 ''99'' = Some 99" by (simp add: parse_word64_def strip_prefix_def parse_digits_def)
qed

lemma sample_cookie_claims:
  "Option.bind (extract_session_cookie (case header_str sample_headers ''cookie'' of Some c \<Rightarrow> c | None \<Rightarrow> []))
      (validate_session_cookie (se_mac sample_session) (se_now sample_session) (se_secret sample_session))
     = Some \<lparr>sc_user_id = 1, sc_session_version = 1, sc_expires_at = 99\<rparr>"
proof -
  have "header_str sample_headers ''cookie'' = Some ''clewdr_session=1.1.99.''"
    by (simp add: header_str_def sample_headers_def visible_def)
  moreover have "extract_session_cookie ''clewdr_session=1.1.99.'' = Some ''1.1.99.''"
    by (simp add: extract_session_cookie_def strip_prefix_def)
  moreover have "rsplit_once (CHR ''.'') ''1.1.99.'' = Some (''1.1.99'', [])" by (simp add: rsplit_once_def)
  moreover have "split_on (CHR ''.'') ''1.1.99'' = [''1'', ''1'', ''99'']" by simp
  ultimately show ?thesis
    by (simp add: validate_session_cookie_def sample_session_def sign_def constant_time_eq_def sample_cookie_fields
        del: split_on.simps)
qed

lemma revoked_sessions_stay_out_witness:
  "require_admin_session sample_db_env sample_session admin_hub sample_headers \<noteq> Inl InvalidAuth
   \<and> require_admin_session sample_db_env sample_session (bump_session sample_db_env 1 admin_hub) sample_headers
     = Inl InvalidAuth"
proof
  show "require_admin_session sample_db_env sample_session admin_hub sample_headers \<noteq> Inl InvalidAuth"
    unfolding require_admin_session_def sample_cookie_claims
    by (simp add: admin_hub_user) (simp add: decode_i32_def is_i32_def policy_by_id_def sample_hub_defs)
  from revoked_sessions_stay_out [OF admin_hub_governed admin_hub_user admin_hub_logout run_nil _ _ sample_cookie_claims]
  show "require_admin_session sample_db_env sample_session (bump_session sample_db_env 1 admin_hub) sample_headers
     = Inl InvalidAuth"
    by (simp add: admin_hub_rows)
qed

end
