(* ===== verification/Auth_Access.thy ===== *)
theory Auth_Access
  imports Admin_Machine
begin

text \<open>
  Who is let in: the keys that authenticate a request and the cookies that open the admin interface, and three
  behaviours of the handlers that surprise: a failed rebinding, a policy too large to read, and a new
  password with blanks.
\<close>

section \<open>Look-ups\<close>

lemma find_unique:
  assumes "distinct (map f xs)"
  shows "find (\<lambda>x. f x = i \<and> p x) xs = Some x \<longleftrightarrow> x \<in> set xs \<and> f x = i \<and> p x"
  using assms by (induction xs) auto

lemma user_by_id_iff: "hub_ok db \<Longrightarrow> user_by_id db i = Some u \<longleftrightarrow> u \<in> set (hd_users db) \<and> us_id u = i"
  using find_unique [OF hub_okD(1), of db i "\<lambda>_. True" u] by (simp add: user_by_id_def)

lemma policy_by_id_iff: "hub_ok db \<Longrightarrow> policy_by_id db i = Some p \<longleftrightarrow> p \<in> set (hd_policies db) \<and> po_id p = i"
  using find_unique [OF hub_okD(3), of db i "\<lambda>_. True" p] by (simp add: policy_by_id_def)

lemma key_owner_iff:
  assumes "hub_ok db"
  shows "key_owner db k = Some (u, p) \<longleftrightarrow>
     u \<in> set (hd_users db) \<and> us_id u = ak_user_id k \<and> us_disabled_at u = None
     \<and> p \<in> set (hd_policies db) \<and> po_id p = us_policy_id u"
proof -
  have "key_owner db k = Some (u, p) \<longleftrightarrow> user_by_id db (ak_user_id k) = Some u \<and> us_disabled_at u = None
      \<and> policy_by_id db (us_policy_id u) = Some p"
    by (auto simp: key_owner_def split: option.splits)
  then show ?thesis using assms by (auto simp: user_by_id_iff policy_by_id_iff)
qed

lemma try_step_ok: "de_io env n = None \<Longrightarrow> try_then (io_step env n) f = f ()"
  by (simp add: io_step_def try_then_def)

lemma failed_step: "de_io env n = Some e \<Longrightarrow> try_then (io_step env n) f = Inl e"
  by (simp add: io_step_def try_then_def)

lemma sql_step_ok: "de_io env n = None \<Longrightarrow> sql env n r = map_sum (de_from env) id r"
  by (simp add: sql_def try_step_ok)

section \<open>Requests with a key\<close>

text \<open>The caller that a key stands for.\<close>

definition key_user :: "hub_db \<Rightarrow> key_row \<Rightarrow> user_row \<Rightarrow> policy_row \<Rightarrow> AuthenticatedUser" where
  "key_user db k u p =
     \<lparr>u_user_id = us_id u, u_username = us_username u, u_role = us_role u, u_api_key_id = Some (ak_id k),
      u_policy_id = po_id p, u_max_concurrent = po_max_concurrent p, u_rpm_limit = po_rpm_limit p,
      u_weekly_budget_nanousd = po_weekly_budget_nanousd p, u_monthly_budget_nanousd = po_monthly_budget_nanousd p,
      u_bound_account_ids = map snd (filter (\<lambda>b. fst b = ak_id k) (hd_bindings db)),
      u_auto_cache_enabled = (ak_auto_cache_enabled k \<noteq> 0),
      u_enhanced_audit_enabled = (ak_enhanced_audit_enabled k \<noteq> 0)\<rparr>"

text \<open>The rows that let a key in.\<close>

definition key_grants ::
    "(string \<Rightarrow> string) \<Rightarrow> string \<Rightarrow> hub_db \<Rightarrow> string \<Rightarrow> key_row \<Rightarrow> user_row \<Rightarrow> policy_row \<Rightarrow> bool" where
  "key_grants blake3 now db key k u p \<longleftrightarrow>
     (\<exists>body. key = ''sk-'' @ body \<and> 8 \<le> length body \<and> ak_lookup_key k = take 8 body)
     \<and> k \<in> set (hd_keys db) \<and> ak_key_hash k = blake3 key
     \<and> ak_disabled_at k = None \<and> (\<forall>t \<in> set_option (ak_expires_at k). text_less now t)
     \<and> u \<in> set (hd_users db) \<and> us_id u = ak_user_id k \<and> us_disabled_at u = None
     \<and> p \<in> set (hd_policies db) \<and> po_id p = us_policy_id u"

definition readable_policy :: "policy_row \<Rightarrow> bool" where
  "readable_policy p \<longleftrightarrow> is_i32 (po_max_concurrent p) \<and> is_i32 (po_rpm_limit p)"

lemma parse_api_key_iff:
  "parse_api_key blake3 key = Some (l, h) \<longleftrightarrow>
     (\<exists>body. key = ''sk-'' @ body \<and> 8 \<le> length body \<and> l = take 8 body) \<and> h = blake3 key"
proof (cases "strip_prefix key key_prefix")
  case None
  then show ?thesis using strip_prefix_append [of "''sk-''"] by (auto simp: parse_api_key_def key_prefix_def)
next
  case (Some body)
  then have "key = ''sk-'' @ body" by (simp add: strip_prefix_Some_iff key_prefix_def)
  with Some show ?thesis by (auto simp: parse_api_key_def lookup_key_len_def)
qed

lemma key_valid_iff:
  "key_valid now k \<longleftrightarrow> ak_disabled_at k = None \<and> (\<forall>t \<in> set_option (ak_expires_at k). text_less now t)"
  by (cases "ak_expires_at k") (auto simp: key_valid_def)

lemma authenticate_iff:
  assumes ok: "hub_ok db" and io: "de_io env = (\<lambda>_. None)" and fit: "list_all readable_policy (hd_policies db)"
    and len: "length h = 32"
  shows "authenticate_api_key env db l h = Inr (Some w) \<longleftrightarrow>
     (\<exists>k u p. k \<in> set (hd_keys db) \<and> ak_lookup_key k = l \<and> key_valid (de_now env) k \<and> key_owner db k = Some (u, p)
        \<and> ak_key_hash k = h \<and> w = key_user db k u p)"
proof -
  let ?found = "find (\<lambda>k. ak_lookup_key k = l \<and> key_valid (de_now env) k \<and> key_owner db k \<noteq> None) (hd_keys db)"
  have found: "?found = Some k \<longleftrightarrow> k \<in> set (hd_keys db) \<and> ak_lookup_key k = l \<and> key_valid (de_now env) k
      \<and> key_owner db k \<noteq> None" for k
    using hub_okD(4) [OF ok] by (rule find_unique)
  have step: "io_step env n = Inr ()" for n by (simp add: io)
  have fits: "decode_i32 (po_max_concurrent p) = Some (po_max_concurrent p)"
    "decode_i32 (po_rpm_limit p) = Some (po_rpm_limit p)" "us_policy_id u = po_id p"
    if "key_owner db k = Some (u, p)" for k u p
    using that fit key_owner_iff [OF ok] by (auto simp: list_all_iff readable_policy_def decode_i32_def)
  show ?thesis
  proof (cases ?found)
    case None
    with found show ?thesis by (force simp: authenticate_api_key_def step)
  next
    case (Some k)
    with found [of k] obtain u p where owner: "key_owner db k = Some (u, p)" by auto
    have "authenticate_api_key env db l h = Inr (if ak_key_hash k = h then Some (key_user db k u p) else None)"
      using len fits [OF owner] unfolding authenticate_api_key_def Some by (auto simp: step owner key_user_def)
    then have "authenticate_api_key env db l h = Inr (Some w) \<longleftrightarrow> ak_key_hash k = h \<and> w = key_user db k u p"
      by (cases "ak_key_hash k = h") auto
    also have "\<dots> \<longleftrightarrow> (\<exists>k u p. k \<in> set (hd_keys db) \<and> ak_lookup_key k = l \<and> key_valid (de_now env) k
        \<and> key_owner db k = Some (u, p) \<and> ak_key_hash k = h \<and> w = key_user db k u p)"
    proof
      assume "ak_key_hash k = h \<and> w = key_user db k u p"
      with found [of k] Some owner show "\<exists>k u p. k \<in> set (hd_keys db) \<and> ak_lookup_key k = l \<and> key_valid (de_now env) k
        \<and> key_owner db k = Some (u, p) \<and> ak_key_hash k = h \<and> w = key_user db k u p" by blast
    next
      assume "\<exists>k u p. k \<in> set (hd_keys db) \<and> ak_lookup_key k = l \<and> key_valid (de_now env) k
        \<and> key_owner db k = Some (u, p) \<and> ak_key_hash k = h \<and> w = key_user db k u p"
      then obtain k' u' p' where k': "k' \<in> set (hd_keys db)" "ak_lookup_key k' = l" "key_valid (de_now env) k'"
        "key_owner db k' = Some (u', p')" "ak_key_hash k' = h" "w = key_user db k' u' p'" by blast
      with found [of k'] Some have "k' = k" by simp
      with k' owner show "ak_key_hash k = h \<and> w = key_user db k u p" by simp
    qed
    finally show ?thesis .
  qed
qed

text \<open>
  C24: With the driver answering and policies that can be read, a request is let in with exactly the keys that are a \<open>sk-\<close> text whose hash is stored
  for its look-up part, neither disabled nor expired, of a user who is not disabled; and the caller it then acts for
  is that user, with the limits of the user's policy and the accounts bound to that key.
\<close>

theorem key_access_exact:
  assumes "hub_ok db" and "de_io env = (\<lambda>_. None)" and "list_all readable_policy (hd_policies db)"
    and "\<And>s. length (blake3 s) = 32"
  shows "(\<exists>a. require_flexible_auth env blake3 ips trusted db hs connect_info = Inr a \<and> fa_user a = w) \<longleftrightarrow>
     (\<exists>key k u p. extract_key_from_headers hs = Some key \<and> key_grants blake3 (de_now env) db key k u p
        \<and> w = key_user db k u p)"
proof (cases "extract_key_from_headers hs")
  case None
  then show ?thesis by (simp add: require_flexible_auth_def)
next
  case (Some key)
  show ?thesis
  proof (cases "parse_api_key blake3 key")
    case None
    then have "\<not> key_grants blake3 (de_now env) db key k u p" for k u p
      using parse_api_key_iff [of blake3 key] by (force simp: key_grants_def)
    with None Some show ?thesis by (simp add: require_flexible_auth_def)
  next
    case parsed: (Some lh)
    then obtain l h where lh: "parse_api_key blake3 key = Some (l, h)" by (cases lh) simp
    then have h: "h = blake3 key" "\<exists>body. key = ''sk-'' @ body \<and> 8 \<le> length body \<and> l = take 8 body"
      by (simp_all add: parse_api_key_iff)
    have "(\<exists>a. require_flexible_auth env blake3 ips trusted db hs connect_info = Inr a \<and> fa_user a = w) \<longleftrightarrow>
        authenticate_api_key env db l h = Inr (Some w)"
      by (auto simp: require_flexible_auth_def Some lh Let_def split: sum.splits option.splits)
    also have "\<dots> \<longleftrightarrow> (\<exists>k u p. key_grants blake3 (de_now env) db key k u p \<and> w = key_user db k u p)"
      unfolding authenticate_iff [OF assms(1-3) assms(4) [of key, folded h(1)]]
      using h by (fastforce simp: key_grants_def key_valid_iff key_owner_iff [OF assms(1)])
    finally show ?thesis by (simp add: Some)
  qed
qed

section \<open>Surprises\<close>

text \<open>
  The bindings of a key are deleted before the new ones are inserted one by one. An unknown or repeated account
  ends the loop, and a key without bindings may use every account.
\<close>

lemma failed_rebinding_unbinds:
  assumes "key_exists db i" and "de_io env = (\<lambda>_. None)" and "a \<notin> set (b_account_ids (hd_books db))"
  shows "isl (fst (update_bindings env i (a # as) db))"
    "ak_id k = i \<Longrightarrow> u_bound_account_ids (key_user (snd (update_bindings env i (a # as) db)) k u p) = []"
  using assms by (simp_all add: update_bindings_def try_step_ok sql_step_ok insert_binding_def key_user_def)

text \<open>
  The handlers take any positive limit, the extractors read 32 bits: with a larger one every key of the users of that
  policy is refused.
\<close>

lemma oversized_policy_locks_out:
  assumes "hub_ok db" and "\<not> readable_policy p" and "key_grants blake3 (de_now env) db key k u p"
    and "extract_key_from_headers hs = Some key"
  shows "require_flexible_auth env blake3 ips trusted db hs connect_info = Inl InvalidAuth"
proof -
  from assms(3) obtain body where b: "key = ''sk-'' @ body" "8 \<le> length body" "ak_lookup_key k = take 8 body"
    unfolding key_grants_def by blast
  then have parsed: "parse_api_key blake3 key = Some (take 8 body, blake3 key)" by (auto simp: parse_api_key_iff)
  have owner: "key_owner db k = Some (u, p)" and k: "k \<in> set (hd_keys db)" "key_valid (de_now env) k"
    using assms(3) by (simp_all add: key_grants_def key_owner_iff [OF assms(1)] key_valid_iff)
  then have "find (\<lambda>k. ak_lookup_key k = take 8 body \<and> key_valid (de_now env) k \<and> key_owner db k \<noteq> None) (hd_keys db)
      = Some k"
    unfolding find_unique [OF hub_okD(4) [OF assms(1)]] using b by simp
  moreover have "decode_i32 (po_max_concurrent p) = None \<or> decode_i32 (po_rpm_limit p) = None"
    using assms(2) by (auto simp: readable_policy_def decode_i32_def)
  ultimately have "\<exists>e. authenticate_api_key env db (take 8 body) (blake3 key) = Inl e"
    unfolding authenticate_api_key_def
    by (cases "de_io env 0"; cases "decode_i32 (po_max_concurrent p)")
       (auto simp: owner try_step_ok failed_step split: option.splits)
  then show ?thesis using assms(4) by (auto simp: require_flexible_auth_def parsed)
qed

text \<open>The new password is stored without its outer blanks, the login takes what is typed.\<close>

lemma changed_password_is_trimmed:
  assumes "change_password env verify hash secure i req before db = (Inr h, db', fx)"
  obtains new where "hash (trim (cp_new_password req)) = Inr new"
    and "\<exists>u \<in> set (hd_users db'). us_id u = i \<and> us_password_hash u = Some new"
proof -
  obtain current new where l: "list_ex (\<lambda>u. us_id u = i \<and> us_password_hash u = Some current) (hd_users db)"
      and new: "hash (trim (cp_new_password req)) = Inr new"
      and db': "db' = update_user i (\<lambda>u. if us_password_hash u = Some current
        then u\<lparr>us_password_hash := Some new, us_must_change_password := 0,
               us_session_version := us_session_version u + 1, us_updated_at := de_now env\<rparr> else u) db"
    using assms unfolding change_password_def Let_def
    by (auto split: if_splits sum.splits option.splits)
  from l obtain u where "u \<in> set (hd_users db)" "us_id u = i" "us_password_hash u = Some current"
    by (auto simp: list_ex_iff)
  then have "\<exists>u \<in> set (hd_users db'). us_id u = i \<and> us_password_hash u = Some new"
    unfolding db' update_user_def by (intro bexI [of _ "u\<lparr>us_password_hash := Some new, us_must_change_password := 0,
      us_session_version := us_session_version u + 1, us_updated_at := de_now env\<rparr>"]) (simp_all add: image_iff, force)
  with new that show ?thesis by blast
qed

section \<open>Samples\<close>

definition sample_key :: key_row where
  "sample_key = (new_key sample_db_env 1 None ''sk-abcdefgh'' ''abcdefgh'' (replicate 32 (CHR ''h'')))\<lparr>ak_id := 4\<rparr>"

definition key_hub :: hub_db where
  "key_hub = admin_hub\<lparr>hd_keys := [sample_key], hd_books := (hd_books admin_hub)\<lparr>b_api_key_ids := [4]\<rparr>\<rparr>"

lemma key_hub_rows:
  "hd_users key_hub = [sample_admin]" "hd_policies key_hub = hd_policies admin_hub" "hd_keys key_hub = [sample_key]"
  "hd_bindings key_hub = []" "b_user_ids (hd_books key_hub) = [1]" "b_api_key_ids (hd_books key_hub) = [4]"
  "ak_id sample_key = 4" "ak_user_id sample_key = 1" "ak_lookup_key sample_key = ''abcdefgh''"
  "ak_key_hash sample_key = replicate 32 (CHR ''h'')" "ak_disabled_at sample_key = None" "ak_expires_at sample_key = None"
  by (simp_all add: key_hub_def admin_hub_rows sample_key_def new_key_def)

lemma key_hub_ok: "hub_ok key_hub"
proof -
  have "po_id ` set (hd_policies admin_hub) = {1}" by (simp add: admin_hub_def)
  then show ?thesis by (simp add: hub_ok_def hub_parts_def user_checks_def admin_hub_rows key_hub_rows)
qed

lemma key_access_exact_witness:
  "\<exists>a. require_flexible_auth sample_db_env (\<lambda>_. replicate 32 (CHR ''h'')) sample_ip_env [] key_hub
      [(''x-api-key'', ''sk-abcdefgh'')] None = Inr a \<and> u_user_id (fa_user a) = 1 \<and> u_api_key_id (fa_user a) = Some 4
      \<and> u_rpm_limit (fa_user a) = 30"
proof -
  let ?p = "hd (hd_policies admin_hub)"
  have p: "?p \<in> set (hd_policies admin_hub)" "po_id ?p = 1" "po_rpm_limit ?p = 30"
    "list_all readable_policy (hd_policies key_hub)"
    by (simp_all add: admin_hub_def key_hub_rows readable_policy_def is_i32_def)
  have io: "de_io sample_db_env = (\<lambda>_. None)" by (simp add: sample_db_env_def)
  have key: "extract_key_from_headers [(''x-api-key'', ''sk-abcdefgh'')] = Some ''sk-abcdefgh''"
    by (simp add: extract_key_from_headers_def header_str_def visible_def)
  have "key_grants (\<lambda>_. replicate 32 (CHR ''h'')) (de_now sample_db_env) key_hub ''sk-abcdefgh'' sample_key sample_admin ?p"
    by (simp add: key_grants_def key_hub_rows admin_hub_rows p)
  with key have "\<exists>key k u p. extract_key_from_headers [(''x-api-key'', ''sk-abcdefgh'')] = Some key
      \<and> key_grants (\<lambda>_. replicate 32 (CHR ''h'')) (de_now sample_db_env) key_hub key k u p
      \<and> key_user key_hub sample_key sample_admin ?p = key_user key_hub k u p" by blast
  then have "\<exists>a. require_flexible_auth sample_db_env (\<lambda>_. replicate 32 (CHR ''h'')) sample_ip_env [] key_hub
      [(''x-api-key'', ''sk-abcdefgh'')] None = Inr a \<and> fa_user a = key_user key_hub sample_key sample_admin ?p"
    by (subst key_access_exact [OF key_hub_ok io p(4)]) simp_all
  then show ?thesis by (auto simp: key_user_def key_hub_rows admin_hub_rows p(3))
qed

end
