(* ===== verification/Admin_Accounts.thy ===== *)
theory Admin_Accounts
  imports Admin_Users Chat_State Oauth_Client Pool_Handle
begin

text \<open>
  The handlers that list, create, change, remove and probe accounts (\<open>src/src/api/admin/accounts.rs\<close>). A \<open>BTreeMap\<close> is an
  association list in the order of its keys. The exchange of an OAuth callback (\<open>Oauth_Client\<close>), URLs and the
  printing and parsing of JSON are arguments; the reload of the pool is sent by the caller of the model when
  the handler says so.
\<close>

section \<open>Environment\<close>

record 'u accounts_env =
  an_db :: db_env
  an_ext :: db_ext
  an_url :: "'u url_ops"
  an_url_str :: "'u \<Rightarrow> string"
  an_headers_json :: "(string \<times> string) list \<Rightarrow> string"
  an_headers_of :: "string \<Rightarrow> (string \<times> string) list option"
  an_json_text :: "json \<Rightarrow> string"
  an_json_of :: "string \<Rightarrow> json option"
  an_config_json :: "ThirdPartyMimicryConfig \<Rightarrow> string"
  an_config_of :: "string \<Rightarrow> ThirdPartyMimicryConfig option"
  an_format_time :: "i64 \<Rightarrow> string"
  an_exchange :: "string \<Rightarrow> string option \<Rightarrow> string option \<Rightarrow> ClewdrError + OAuthExchangeResult"
  an_instant :: instant

section \<open>Requests\<close>

record CreateAccountRequest =
  ca_name :: string
  ca_rr_order :: "i64 option"
  ca_max_slots :: "i64 option"
  ca_proxy_id :: "i64 option"
  ca_drain_first :: "bool option"
  ca_auth_source :: "string option"
  ca_cookie_blob :: "string option"
  ca_oauth_callback_input :: "string option"
  ca_oauth_state :: "string option"
  ca_organization_uuid :: "string option"
  ca_api_key_base_url :: "string option"
  ca_api_key_secret :: "string option"
  ca_api_key_extra_headers :: "(string \<times> string) list option"
  ca_api_key_extra_body :: "json option"
  ca_mimicry_mode :: "string option"
  ca_mimicry_config :: "ThirdPartyMimicryConfig option"

record UpdateAccountRequest =
  ua_name :: "string option"
  ua_rr_order :: "i64 option"
  ua_max_slots :: "i64 option"
  ua_proxy_id :: "i64 option"
  ua_drain_first :: "bool option"
  ua_status :: "string option"
  ua_auth_source :: "string option"
  ua_cookie_blob :: "string option"
  ua_oauth_callback_input :: "string option"
  ua_oauth_state :: "string option"
  ua_organization_uuid :: "string option"
  ua_api_key_base_url :: "string option"
  ua_api_key_secret :: "string option"
  ua_api_key_extra_headers :: "(string \<times> string) list option"
  ua_api_key_extra_body :: "json option"
  ua_mimicry_mode :: "string option"
  ua_mimicry_config :: "ThirdPartyMimicryConfig option"

section \<open>Validation\<close>

definition normalize_cookie_blob :: "string option \<Rightarrow> ClewdrError + string option" where
  "normalize_cookie_blob v =
     (case normalize_optional v of
        None \<Rightarrow> Inr None
      | Some s \<Rightarrow>
          (case cookie_from_str s of
             Inl _ \<Rightarrow> Inl (BadRequest ''cookie format invalid'')
           | Inr c \<Rightarrow> Inr (Some (inner c))))"

text \<open>Chinese characters as UTF-8.\<close>

definition utf8_bytes :: "nat list \<Rightarrow> string" where
  "utf8_bytes = map char_of"

definition cookie_taken :: string where
  "cookie_taken = utf8_bytes [0xE8, 0xAF, 0xA5] @ '' Cookie ''
     @ utf8_bytes [0xE5, 0xB7, 0xB2, 0xE8, 0xA2, 0xAB, 0xE5, 0x85, 0xB6, 0xE4, 0xBB, 0x96, 0xE8, 0xB4, 0xA6,
         0xE5, 0x8F, 0xB7, 0xE4, 0xBD, 0xBF, 0xE7, 0x94, 0xA8]"

definition oauth_taken :: "i64 \<Rightarrow> string \<Rightarrow> string" where
  "oauth_taken i name =
     utf8_bytes [0xE8, 0xAF, 0xA5] @ '' OAuth ''
       @ utf8_bytes [0xE8, 0xB4, 0xA6, 0xE5, 0x8F, 0xB7, 0xE5, 0xB7, 0xB2, 0xE8, 0xA2, 0xAB, 0xE8, 0xB4, 0xA6, 0xE5, 0x8F, 0xB7]
       @ '' #'' @ show_i64 i @ '' ('' @ name @ '') '' @ utf8_bytes [0xE4, 0xBD, 0xBF, 0xE7, 0x94, 0xA8]"

definition reject_duplicate_oauth_identity ::
    "string \<Rightarrow> i64 option \<Rightarrow> database \<Rightarrow> ClewdrError + unit" where
  "reject_duplicate_oauth_identity org excluded db =
     (case find_account_by_organization_uuid org excluded db of
        Some (i, name) \<Rightarrow> Inl (ConflictMessage (oauth_taken i name))
      | None \<Rightarrow> Inr ())"

definition positive_id :: "i64 option \<Rightarrow> i64 option" where
  "positive_id v = Option.bind v (\<lambda>i. if 0 < i then Some i else None)"

definition resolve_proxy_url ::
    "'u accounts_env \<Rightarrow> nat \<Rightarrow> database \<Rightarrow> i64 option \<Rightarrow> ClewdrError + (i64 \<times> string) option" where
  "resolve_proxy_url env n db proxy_id =
     (case positive_id proxy_id of
        None \<Rightarrow> Inr None
      | Some i \<Rightarrow>
          try_then (io_step (an_db env) n) (\<lambda>_.
            case hm_get (proxies db) i of
              None \<Rightarrow> Inl (NotFound ''proxy not found'')
            | Some p \<Rightarrow>
                (case build_proxy_url_from_parts (an_ext env) (px_protocol p) (px_host p) (px_port p)
                        (px_username p) (px_password p) of
                   None \<Rightarrow> Inl (BadRequest ''Invalid proxy configuration'')
                 | Some url \<Rightarrow> Inr (Some (i, url)))))"

definition auth_sources :: "string list" where
  "auth_sources = [''cookie'', ''oauth'', ''api_key'']"

definition one_credential :: ClewdrError where
  "one_credential = BadRequest ''Submit exactly one credential kind: cookie, OAuth callback, or API key''"

definition derive_auth_source ::
    "string option \<Rightarrow> bool \<Rightarrow> bool \<Rightarrow> bool \<Rightarrow> string option \<Rightarrow> ClewdrError + string" where
  "derive_auth_source requested submitted_cookie submitted_oauth submitted_api_key existing =
     (if 1 < of_bool submitted_cookie + of_bool submitted_oauth + (of_bool submitted_api_key :: nat)
      then Inl one_credential
      else try_then
        (if submitted_cookie then Inr ''cookie''
         else if submitted_oauth then Inr ''oauth''
         else if submitted_api_key then Inr ''api_key''
         else (case existing of
                 Some e \<Rightarrow> if e \<in> set auth_sources then Inr e
                           else Inl (BadRequest ''Either cookie, OAuth callback, or API key is required'')
               | None \<Rightarrow> Inl (BadRequest ''Either cookie, OAuth callback, or API key is required'')))
        (\<lambda>derived.
          case requested of
            None \<Rightarrow> Inr derived
          | Some r \<Rightarrow>
              if r = derived then Inr derived
              else if r \<in> set auth_sources
              then Inl (BadRequest ''Requested auth_source does not match provided credentials'')
              else Inl (BadRequest ''Invalid auth_source'')))"

definition api_key_reserved_extra_headers :: "string list" where
  "api_key_reserved_extra_headers =
     [''x-api-key'', ''authorization'', ''anthropic-version'', ''anthropic-beta'', ''user-agent'', ''host'',
      ''content-length'', ''content-type'', ''accept'', ''accept-encoding'']"

definition is_reserved_api_key_extra_header :: "string \<Rightarrow> bool" where
  "is_reserved_api_key_extra_header name = list_ex (\<lambda>r. eq_ignore_ascii_case r name) api_key_reserved_extra_headers"

definition api_key_reserved_extra_body_keys :: "string list" where
  "api_key_reserved_extra_body_keys = [''messages'', ''system'', ''stream'', ''metadata'']"

definition is_reserved_api_key_extra_body_key :: "string \<Rightarrow> bool" where
  "is_reserved_api_key_extra_body_key name =
     list_ex (\<lambda>r. eq_ignore_ascii_case r name) api_key_reserved_extra_body_keys"

definition quoted :: "string \<Rightarrow> string" where
  "quoted s = [CHR 0x27] @ s @ [CHR 0x27]"

fun validate_keys :: "string \<Rightarrow> (string \<Rightarrow> bool) \<Rightarrow> string \<Rightarrow> string list \<Rightarrow> ClewdrError + unit" where
  "validate_keys what reserved why [] = Inr ()"
| "validate_keys what reserved why (k # ks) =
     (if trim k = [] then Inl (BadRequest (what @ '' contains an empty key''))
      else if reserved (trim k)
      then Inl (BadRequestMessage (what @ '' key '' @ quoted (trim k) @ '' is reserved ('' @ why @ '')''))
      else validate_keys what reserved why ks)"

definition validate_api_key_extra_headers :: "(string \<times> string) list \<Rightarrow> ClewdrError + unit" where
  "validate_api_key_extra_headers m =
     validate_keys ''api_key_extra_headers'' is_reserved_api_key_extra_header
       ''would shadow a header the ApiKey dispatch sets itself or the transport owns'' (map fst m)"

definition extra_headers_to_db :: "'u accounts_env \<Rightarrow> (string \<times> string) list \<Rightarrow> string option" where
  "extra_headers_to_db env m = (if m = [] then None else Some (an_headers_json env m))"

definition validate_api_key_extra_body :: "json \<Rightarrow> ClewdrError + unit" where
  "validate_api_key_extra_body v =
     (case as_object v of
        None \<Rightarrow> Inl (BadRequest ''api_key_extra_body must be a JSON object'')
      | Some obj \<Rightarrow>
          validate_keys ''api_key_extra_body'' is_reserved_api_key_extra_body_key
            ''it carries the conversation and is rewritten by the cloak; overriding it would corrupt the request''
            (map fst obj))"

definition extra_body_to_db :: "'u accounts_env \<Rightarrow> json \<Rightarrow> string option" where
  "extra_body_to_db env v =
     (case as_object v of
        Some obj \<Rightarrow> if obj \<noteq> [] then Some (an_json_text env v) else None
      | None \<Rightarrow> None)"

definition validate_third_party_config :: "ThirdPartyMimicryConfig \<Rightarrow> ClewdrError + unit" where
  "validate_third_party_config cfg =
     (if list_ex (\<lambda>t. trim t = []) (extra_beta cfg)
      then Inl (BadRequest ''mimicry_config.extra_beta tokens must be non-empty'')
      else case cli_version cfg of
             None \<Rightarrow> Inr ()
           | Some version \<Rightarrow>
               if trim version = [] \<or> \<not> is_valid_claude_cli_version (trim version)
               then Inl (BadRequest ''mimicry_config.cli_version must be x.y.z when provided'')
               else Inr ())"

definition resolve_mimicry ::
    "'u accounts_env \<Rightarrow> string \<Rightarrow> string option \<Rightarrow> ThirdPartyMimicryConfig option
      \<Rightarrow> ClewdrError + (string \<times> string option)" where
  "resolve_mimicry env source mode cfg =
     (let m = (case mode of Some m \<Rightarrow> trim m | None \<Rightarrow> ''none'') in
      if m = ''none'' then Inr (''none'', None)
      else if m = ''third_party'' then
        (if source \<noteq> ''api_key'' then Inl (BadRequest ''third_party mimicry requires an api_key account'')
         else let c = (case cfg of Some c \<Rightarrow> c | None \<Rightarrow> default_mimicry_config) in
              map_sum id (\<lambda>_. (''third_party'', Some (an_config_json env c))) (validate_third_party_config c))
      else Inl (BadRequest (''mimicry_mode must be '' @ quoted ''none'' @ '' or '' @ quoted ''third_party'')))"

text \<open>The three inputs of an API key that are checked before anything is written.\<close>

definition check_api_key_inputs ::
    "'u accounts_env \<Rightarrow> string option \<Rightarrow> (string \<times> string) list option \<Rightarrow> json option \<Rightarrow> ClewdrError + string option" where
  "check_api_key_inputs env base_url headers body =
     try_then (case base_url of
                 None \<Rightarrow> Inr None
               | Some raw \<Rightarrow> map_sum id (\<lambda>u. Some (an_url_str env u)) (normalize_api_key_base_url (an_url env) raw))
       (\<lambda>url. try_then (case headers of None \<Rightarrow> Inr () | Some m \<Rightarrow> validate_api_key_extra_headers m)
       (\<lambda>_. try_then (case body of None \<Rightarrow> Inr () | Some v \<Rightarrow> validate_api_key_extra_body v) (\<lambda>_. Inr url)))"

section \<open>Rows and statements\<close>

text \<open>The constraints of the table \<open>accounts\<close>: one credential, and a cloak only on an API key.\<close>

definition account_mutex :: "account_row \<Rightarrow> bool" where
  "account_mutex a \<longleftrightarrow>
     (if a_auth_source a = ''api_key''
      then a_cookie_blob a = None \<and> a_oauth_access_token a = None \<and> a_oauth_refresh_token a = None
        \<and> a_oauth_expires_at a = None \<and> a_api_key_secret a \<noteq> None \<and> a_api_key_base_url a \<noteq> None
        \<and> (a_mimicry_config a = None \<or> a_mimicry_mode a = ''third_party'')
      else a_api_key_base_url a = None \<and> a_api_key_secret a = None \<and> a_api_key_extra_headers a = None
        \<and> a_api_key_extra_body a = None \<and> a_mimicry_mode a = ''none'' \<and> a_mimicry_config a = None
        \<and> (if a_auth_source a = ''cookie''
           then a_cookie_blob a \<noteq> None \<and> a_oauth_access_token a = None \<and> a_oauth_refresh_token a = None
             \<and> a_oauth_expires_at a = None
           else a_auth_source a = ''oauth'' \<and> a_cookie_blob a = None \<and> a_oauth_access_token a \<noteq> None
             \<and> a_oauth_refresh_token a \<noteq> None \<and> a_oauth_expires_at a \<noteq> None))"

definition account_checks :: "account_row \<Rightarrow> bool" where
  "account_checks a \<longleftrightarrow>
     0 < a_max_slots a \<and> (a_drain_first a = 0 \<or> a_drain_first a = 1)
     \<and> a_status a \<in> {''active'', ''cooldown'', ''auth_error'', ''disabled''}
     \<and> a_mimicry_mode a \<in> {''none'', ''third_party''} \<and> account_mutex a"

definition proxy_known :: "i64 set \<Rightarrow> account_row \<Rightarrow> bool" where
  "proxy_known proxy_ids a \<longleftrightarrow> set_option (a_proxy_id a) \<subseteq> proxy_ids"

definition accounts_fit :: "database \<Rightarrow> bool" where
  "accounts_fit db \<longleftrightarrow>
     list_all account_checks (accounts db) \<and> list_all (proxy_known (hm_keys (proxies db))) (accounts db)"

definition accounts_unique :: "database \<Rightarrow> bool" where
  "accounts_unique db \<longleftrightarrow> distinct (map a_name (accounts db)) \<and> distinct (map a_rr_order (accounts db))"

text \<open>A statement, with the constraints it may violate, in the order in which they are tested.\<close>

definition checked_tables :: "database \<Rightarrow> sql_error + database" where
  "checked_tables db =
     (if \<not> list_all account_checks (accounts db) then Inl Constraint_Error
      else if \<not> accounts_unique db then Inl Unique_Error
      else if \<not> accounts_fit db then Inl Constraint_Error else Inr db)"

definition write_account :: "i64 \<Rightarrow> (account_row \<Rightarrow> account_row) \<Rightarrow> database \<Rightarrow> sql_error + database" where
  "write_account i f db = checked_tables (update_where (\<lambda>a. a_id a = i) f db)"

definition insert_account :: "account_row \<Rightarrow> database \<Rightarrow> sql_error + database" where
  "insert_account a db =
     checked_tables (db\<lparr>accounts := accounts db @ [a\<lparr>a_id := next_id (map a_id (accounts db))\<rparr>]\<rparr>)"

text \<open>
  \<open>DELETE FROM accounts\<close> with what refers to the row. The bindings of keys, which go as well, are in another record of
  tables (\<open>Auth_Tables\<close>).
\<close>

definition delete_account :: "i64 \<Rightarrow> database \<Rightarrow> database" where
  "delete_account i db =
     db\<lparr>accounts := filter (\<lambda>a. a_id a \<noteq> i) (accounts db), runtime_state := hm_remove i (runtime_state db),
        request_logs := map (\<lambda>l. if l_account_id l = Some i then l\<lparr>l_account_id := None\<rparr> else l) (request_logs db)\<rparr>"

definition set_field :: "'a option \<Rightarrow> ('a \<Rightarrow> database \<Rightarrow> ClewdrError + database) \<Rightarrow> database \<Rightarrow> ClewdrError + database" where
  "set_field x f db = (case x of None \<Rightarrow> Inr db | Some a \<Rightarrow> f a db)"

text \<open>The runtime state of a fresh OAuth credential; the row refers to the account.\<close>

definition upsert_snapshot :: "'u accounts_env \<Rightarrow> i64 \<Rightarrow> OAuthExchangeResult \<Rightarrow> database \<Rightarrow> sql_error + database" where
  "upsert_snapshot env i oauth db =
     (if i \<notin> set (map a_id (accounts db)) then Inl Constraint_Error
      else Inr (batch_upsert_runtime_states (an_ext env) [(i, sn_runtime (ex_snapshot oauth))] db))"

definition rfc3339_now :: "'u accounts_env \<Rightarrow> string" where
  "rfc3339_now env = x_fmt_rfc3339 (an_ext env) (an_instant env)"

definition expiry_text :: "'u accounts_env \<Rightarrow> OAuthExchangeResult \<Rightarrow> string" where
  "expiry_text env oauth = x_fmt_rfc3339 (an_ext env) (expires_at (ex_token oauth))"

section \<open>Creation\<close>

definition next_rr_order :: "database \<Rightarrow> i64" where
  "next_rr_order db =
     (case map a_rr_order (accounts db) of [] \<Rightarrow> 0 | r # rs \<Rightarrow> i64_wrap (foldr max rs r + 1))"

definition new_account ::
    "'u accounts_env \<Rightarrow> CreateAccountRequest \<Rightarrow> i64 \<Rightarrow> i64 \<Rightarrow> i64 option \<Rightarrow> string \<Rightarrow> string option
      \<Rightarrow> OAuthExchangeResult option \<Rightarrow> string option \<Rightarrow> string option \<Rightarrow> string \<times> string option \<Rightarrow> account_row" where
  "new_account env req rr_order max_slots proxy_id source blob oauth base_url secret mimicry =
     (let sn = map_option ex_snapshot oauth in
      \<lparr>a_id = 0, a_name = ca_name req, a_rr_order = rr_order, a_max_slots = max_slots, a_proxy_id = proxy_id,
       a_drain_first = of_bool (case ca_drain_first req of Some d \<Rightarrow> d | None \<Rightarrow> False), a_status = ''active'',
       a_auth_source = source, a_cookie_blob = blob,
       a_oauth_access_token = map_option (\<lambda>v. access_token (ex_token v)) oauth,
       a_oauth_refresh_token = map_option (\<lambda>v. refresh_token (ex_token v)) oauth,
       a_oauth_expires_at = map_option (expiry_text env) oauth,
       a_organization_uuid = or_else (map_option sn_organization_uuid sn) (ca_organization_uuid req),
       a_last_refresh_at = map_option (\<lambda>_. rfc3339_now env) oauth, a_last_error = None, a_invalid_reason = None,
       a_last_failure_json = None, a_email = Option.bind sn sn_email, a_account_type = Option.bind sn sn_account_type,
       a_rate_limit_tier = Option.bind sn sn_rate_limit_tier,
       a_subscription_created_at = Option.bind sn sn_subscription_created_at,
       a_billing_type = Option.bind sn sn_billing_type, a_api_key_base_url = base_url, a_api_key_secret = secret,
       a_api_key_extra_headers = Option.bind (ca_api_key_extra_headers req) (extra_headers_to_db env),
       a_api_key_extra_body = Option.bind (ca_api_key_extra_body req) (extra_body_to_db env),
       a_mimicry_mode = fst mimicry, a_mimicry_config = snd mimicry\<rparr>)"

text \<open>What is known before the transaction.\<close>

record create_inputs =
  ci_max_slots :: i64
  ci_proxy :: "(i64 \<times> string) option"
  ci_cookie :: "string option"
  ci_base_url :: "string option"
  ci_secret :: "string option"
  ci_oauth :: "OAuthExchangeResult option"
  ci_source :: string
  ci_mimicry :: "string \<times> string option"

definition submits_api_key ::
    "string option \<Rightarrow> string option \<Rightarrow> (string \<times> string) list option \<Rightarrow> json option \<Rightarrow> bool" where
  "submits_api_key base_url secret headers body \<longleftrightarrow> base_url \<noteq> None \<or> secret \<noteq> None \<or> headers \<noteq> None \<or> body \<noteq> None"

definition submitted_oauth ::
    "'u accounts_env \<Rightarrow> string option \<Rightarrow> string option \<Rightarrow> (i64 \<times> string) option
      \<Rightarrow> ClewdrError + OAuthExchangeResult option" where
  "submitted_oauth env input state proxy =
     (case input of
        None \<Rightarrow> Inr None
      | Some i \<Rightarrow> map_sum id Some (an_exchange env i state (map_option snd proxy)))"

definition create_checked :: "'u accounts_env \<Rightarrow> CreateAccountRequest \<Rightarrow> database \<Rightarrow> ClewdrError + create_inputs" where
  "create_checked env req db =
     (let max_slots = (case ca_max_slots req of Some m \<Rightarrow> m | None \<Rightarrow> 5) in
      if max_slots \<le> 0 then Inl (BadRequest ''max_slots must be positive'')
      else
        try_then (resolve_proxy_url env 0 db (ca_proxy_id req)) (\<lambda>proxy.
        try_then (normalize_cookie_blob (ca_cookie_blob req)) (\<lambda>cookie.
        let input = normalize_optional (ca_oauth_callback_input req);
            base_url = normalize_optional (ca_api_key_base_url req);
            secret = normalize_optional (ca_api_key_secret req);
            api = submits_api_key base_url secret (ca_api_key_extra_headers req) (ca_api_key_extra_body req) in
        try_then (check_api_key_inputs env base_url (ca_api_key_extra_headers req) (ca_api_key_extra_body req)) (\<lambda>url.
        if 1 < of_bool (cookie \<noteq> None) + of_bool (input \<noteq> None) + (of_bool api :: nat) then Inl one_credential
        else
        try_then (submitted_oauth env input (normalize_optional (ca_oauth_state req)) proxy) (\<lambda>oauth.
        try_then (derive_auth_source (ca_auth_source req) (cookie \<noteq> None) (oauth \<noteq> None) api None) (\<lambda>source.
        if source = ''api_key'' \<and> url = None
        then Inl (BadRequest ''api_key_base_url is required for api_key accounts'')
        else if source = ''api_key'' \<and> secret = None
        then Inl (BadRequest ''api_key_secret is required for api_key accounts'')
        else
        try_then (resolve_mimicry env source (ca_mimicry_mode req) (ca_mimicry_config req)) (\<lambda>mimicry.
          Inr \<lparr>ci_max_slots = max_slots, ci_proxy = proxy, ci_cookie = cookie, ci_base_url = url, ci_secret = secret,
               ci_oauth = oauth, ci_source = source, ci_mimicry = mimicry\<rparr>)))))))"

definition cookie_used :: "(i64 \<Rightarrow> bool) \<Rightarrow> string \<Rightarrow> database \<Rightarrow> bool" where
  "cookie_used other blob db = list_ex (\<lambda>a. a_cookie_blob a = Some blob \<and> other (a_id a)) (accounts db)"

text \<open>The transaction, on the tables as they are when it starts.\<close>

definition create_tx :: "'u accounts_env \<Rightarrow> CreateAccountRequest \<Rightarrow> create_inputs \<Rightarrow> database \<Rightarrow> ClewdrError + database" where
  "create_tx env req ci db =
     (let de = an_db env in
      try_then (io_step de 1) (\<lambda>_.
      try_then (case ci_cookie ci of
                  None \<Rightarrow> Inr ()
                | Some blob \<Rightarrow> try_then (io_step de 2) (\<lambda>_.
                    if cookie_used (\<lambda>_. True) blob db then Inl (Conflict cookie_taken) else Inr ())) (\<lambda>_.
      try_then (case ci_oauth ci of
                  None \<Rightarrow> Inr ()
                | Some o1 \<Rightarrow> try_then (io_step de 3) (\<lambda>_.
                    reject_duplicate_oauth_identity (sn_organization_uuid (ex_snapshot o1)) None db)) (\<lambda>_.
      try_then (case ca_rr_order req of
                  Some v \<Rightarrow> Inr v
                | None \<Rightarrow> map_sum id (\<lambda>_. next_rr_order db) (io_step de 4)) (\<lambda>rr.
      try_then (sql_unique de 5 (Conflict ''account name or rr_order already exists'')
        (insert_account (new_account env req rr (ci_max_slots ci) (map_option fst (ci_proxy ci)) (ci_source ci)
           (ci_cookie ci) (ci_oauth ci) (ci_base_url ci) (ci_secret ci) (ci_mimicry ci)) db)) (\<lambda>db1.
      map_sum id (\<lambda>_. db1) (io_step de 6)))))))"

text \<open>The result, the tables, and whether the pool is told to reload. \<open>later\<close>: the tables after the checks.\<close>

definition create_account ::
    "'u accounts_env \<Rightarrow> CreateAccountRequest \<Rightarrow> database \<Rightarrow> database \<Rightarrow> (ClewdrError + i64) \<times> database \<times> bool" where
  "create_account env req db later =
     (case create_checked env req db of
        Inl e \<Rightarrow> (Inl e, later, False)
      | Inr ci \<Rightarrow>
          (case create_tx env req ci later of
             Inl e \<Rightarrow> (Inl e, later, False)
           | Inr db1 \<Rightarrow>
               (let i = next_id (map a_id (accounts later)) in
                case (case ci_oauth ci of
                        None \<Rightarrow> Inr db1
                      | Some o1 \<Rightarrow> sql (an_db env) 7 (upsert_snapshot env i o1 db1)) of
                  Inl e \<Rightarrow> (Inl e, db1, False)
                | Inr db2 \<Rightarrow> (Inr i, db2, True))))"

section \<open>Changes\<close>

record update_inputs =
  ui_proxy_id :: "i64 option"
  ui_cookie :: "string option"
  ui_base_url :: "string option"
  ui_secret :: "string option"
  ui_api_key :: bool
  ui_oauth :: "OAuthExchangeResult option"
  ui_existing :: AccountWithRuntime

definition update_checked :: "'u accounts_env \<Rightarrow> i64 \<Rightarrow> UpdateAccountRequest \<Rightarrow> database \<Rightarrow> ClewdrError + update_inputs" where
  "update_checked env i req db =
     (if ua_max_slots req \<noteq> None \<and> the (ua_max_slots req) \<le> 0 then Inl (BadRequest ''max_slots must be positive'')
      else if ua_status req \<noteq> None \<and> the (ua_status req) \<notin> set [''active'', ''disabled'', ''auth_error'']
      then Inl (BadRequest ''invalid status value'')
      else try_then (io_step (an_db env) 0) (\<lambda>_.
        case get_account_by_id (an_ext env) (an_instant env) db i of
          None \<Rightarrow> Inl (NotFound ''account not found'')
        | Some existing \<Rightarrow>
            try_then (if ua_proxy_id req \<noteq> None
                      then resolve_proxy_url env 1 db (positive_id (ua_proxy_id req))
                      else Inr (case (acc_proxy_id existing, acc_proxy_url existing) of
                                  (Some p, Some url) \<Rightarrow> Some (p, url) | _ \<Rightarrow> None)) (\<lambda>proxy.
            try_then (normalize_cookie_blob (ua_cookie_blob req)) (\<lambda>cookie.
            let input = normalize_optional (ua_oauth_callback_input req);
                base_url = normalize_optional (ua_api_key_base_url req);
                secret = normalize_optional (ua_api_key_secret req);
                api = submits_api_key base_url secret (ua_api_key_extra_headers req) (ua_api_key_extra_body req) in
            try_then (check_api_key_inputs env base_url (ua_api_key_extra_headers req) (ua_api_key_extra_body req)) (\<lambda>url.
            if 1 < of_bool (cookie \<noteq> None) + of_bool (input \<noteq> None) + (of_bool api :: nat) then Inl one_credential
            else
            try_then (submitted_oauth env input (normalize_optional (ua_oauth_state req)) proxy) (\<lambda>oauth.
            try_then (derive_auth_source (ua_auth_source req) (cookie \<noteq> None) (oauth \<noteq> None) api
                        (Some (acc_auth_source existing))) (\<lambda>_.
              Inr \<lparr>ui_proxy_id = positive_id (ua_proxy_id req), ui_cookie = cookie, ui_base_url = url,
                   ui_secret = secret, ui_api_key = api, ui_oauth = oauth, ui_existing = existing\<rparr>)))))))"

text \<open>The columns of the credential, written by one statement.\<close>

definition forget_identity :: "account_row \<Rightarrow> account_row" where
  "forget_identity a =
     a\<lparr>a_organization_uuid := None, a_email := None, a_account_type := None, a_rate_limit_tier := None,
       a_subscription_created_at := None, a_billing_type := None\<rparr>"

definition revive :: "account_row \<Rightarrow> account_row" where
  "revive a = a\<lparr>a_status := ''active'', a_invalid_reason := None, a_last_error := None, a_last_failure_json := None\<rparr>"

definition no_api_key :: "account_row \<Rightarrow> account_row" where
  "no_api_key a =
     a\<lparr>a_api_key_base_url := None, a_api_key_secret := None, a_api_key_extra_headers := None,
       a_api_key_extra_body := None, a_mimicry_mode := ''none'', a_mimicry_config := None\<rparr>"

definition no_oauth :: "account_row \<Rightarrow> account_row" where
  "no_oauth a =
     a\<lparr>a_oauth_access_token := None, a_oauth_refresh_token := None, a_oauth_expires_at := None,
       a_last_refresh_at := None\<rparr>"

definition use_cookie :: "string \<Rightarrow> account_row \<Rightarrow> account_row" where
  "use_cookie blob a =
     revive (no_api_key (forget_identity (no_oauth (a\<lparr>a_cookie_blob := Some blob, a_auth_source := ''cookie''\<rparr>))))"

definition use_oauth :: "'u accounts_env \<Rightarrow> OAuthExchangeResult \<Rightarrow> account_row \<Rightarrow> account_row" where
  "use_oauth env o1 a =
     revive (no_api_key (a\<lparr>a_cookie_blob := None, a_oauth_access_token := Some (access_token (ex_token o1)),
       a_oauth_refresh_token := Some (refresh_token (ex_token o1)), a_oauth_expires_at := Some (expiry_text env o1),
       a_last_refresh_at := Some (rfc3339_now env),
       a_organization_uuid := Some (sn_organization_uuid (ex_snapshot o1)), a_auth_source := ''oauth''\<rparr>))"

definition use_api_key :: "string \<Rightarrow> string \<Rightarrow> string option \<Rightarrow> string option \<Rightarrow> account_row \<Rightarrow> account_row" where
  "use_api_key base_url secret headers body a =
     revive (forget_identity (no_oauth (a\<lparr>a_cookie_blob := None, a_api_key_base_url := Some base_url,
       a_api_key_secret := Some secret, a_api_key_extra_headers := headers, a_api_key_extra_body := body,
       a_auth_source := ''api_key''\<rparr>)))"

definition set_status :: "string \<Rightarrow> account_row \<Rightarrow> account_row" where
  "set_status st a =
     a\<lparr>a_status := st, a_invalid_reason := (if st = ''active'' then None else a_invalid_reason a),
       a_last_error := (if st = ''active'' then None else a_last_error a), a_last_failure_json := None\<rparr>"

definition kept_or :: "bool \<Rightarrow> string option \<Rightarrow> string option \<Rightarrow> string \<Rightarrow> ClewdrError + string" where
  "kept_or switching submitted existing why =
     (case submitted of
        Some v \<Rightarrow> Inr v
      | None \<Rightarrow> (case existing of
                   Some v \<Rightarrow> if switching then Inl (BadRequest why) else Inr v
                 | None \<Rightarrow> Inl (BadRequest why)))"

text \<open>The credential, if one is submitted.\<close>

definition update_credentials ::
    "'u accounts_env \<Rightarrow> i64 \<Rightarrow> UpdateAccountRequest \<Rightarrow> update_inputs \<Rightarrow> database \<Rightarrow> ClewdrError + database" where
  "update_credentials env i req ui db =
     (let de = an_db env; existing = ui_existing ui in
      case (ui_cookie ui, ui_oauth ui) of
        (Some blob, _) \<Rightarrow>
          try_then (io_step de 10) (\<lambda>_.
            if cookie_used (\<lambda>j. j \<noteq> i) blob db then Inl (Conflict cookie_taken)
            else sql de 11 (write_account i (use_cookie blob) db))
      | (None, Some o1) \<Rightarrow> sql de 10 (write_account i (use_oauth env o1) db)
      | (None, None) \<Rightarrow>
          if \<not> ui_api_key ui then Inr db
          else
            (let switching = (acc_auth_source existing \<noteq> ''api_key'') in
             try_then (kept_or switching (ui_base_url ui) (acc_api_key_base_url existing)
                         ''api_key_base_url is required when switching to api_key'') (\<lambda>url.
             try_then (kept_or switching (ui_secret ui) (acc_api_key_secret existing)
                         ''api_key_secret is required when switching to api_key'') (\<lambda>secret.
             try_then (sql de 10 (write_account i (use_api_key url secret
                 (case ua_api_key_extra_headers req of
                    None \<Rightarrow> acc_api_key_extra_headers existing | Some m \<Rightarrow> extra_headers_to_db env m)
                 (case ua_api_key_extra_body req of
                    None \<Rightarrow> acc_api_key_extra_body existing | Some v \<Rightarrow> extra_body_to_db env v)) db)) (\<lambda>db1.
             if switching
             then sql de 11 (Inr (db1\<lparr>runtime_state := hm_remove i (runtime_state db1)\<rparr>)) else Inr db1)))))"

definition effective_auth :: "update_inputs \<Rightarrow> string" where
  "effective_auth ui =
     (if ui_cookie ui \<noteq> None then ''cookie'' else if ui_oauth ui \<noteq> None then ''oauth''
      else if ui_api_key ui then ''api_key'' else acc_auth_source (ui_existing ui))"

definition update_mimicry ::
    "'u accounts_env \<Rightarrow> i64 \<Rightarrow> UpdateAccountRequest \<Rightarrow> update_inputs \<Rightarrow> database \<Rightarrow> ClewdrError + database" where
  "update_mimicry env i req ui db =
     (if ua_mimicry_mode req = None \<and> ua_mimicry_config req = None then Inr db
      else try_then (resolve_mimicry env (effective_auth ui)
             (Some (case ua_mimicry_mode req of Some m \<Rightarrow> m | None \<Rightarrow> acc_mimicry_mode (ui_existing ui)))
             (ua_mimicry_config req)) (\<lambda>(mode, cfg).
        sql (an_db env) 12 (write_account i (\<lambda>a. a\<lparr>a_mimicry_mode := mode, a_mimicry_config := cfg\<rparr>) db)))"

definition update_tx ::
    "'u accounts_env \<Rightarrow> i64 \<Rightarrow> UpdateAccountRequest \<Rightarrow> update_inputs \<Rightarrow> database \<Rightarrow> ClewdrError + database" where
  "update_tx env i req ui db =
     (let de = an_db env in
      try_then (io_step de 2) (\<lambda>_.
      try_then (case ui_oauth ui of
                  None \<Rightarrow> Inr ()
                | Some o1 \<Rightarrow> try_then (io_step de 3) (\<lambda>_.
                    reject_duplicate_oauth_identity (sn_organization_uuid (ex_snapshot o1)) (Some i) db)) (\<lambda>_.
      try_then (set_field (ua_name req) (\<lambda>v db. sql_unique de 4 (Conflict ''account name already exists'')
        (write_account i (\<lambda>a. a\<lparr>a_name := v\<rparr>) db)) db) (\<lambda>db.
      try_then (set_field (ua_rr_order req) (\<lambda>v db. sql_unique de 5 (Conflict ''rr_order already exists'')
        (write_account i (\<lambda>a. a\<lparr>a_rr_order := v\<rparr>) db)) db) (\<lambda>db.
      try_then (set_field (ua_max_slots req) (\<lambda>v db. sql de 6 (write_account i (\<lambda>a. a\<lparr>a_max_slots := v\<rparr>) db)) db) (\<lambda>db.
      try_then (set_field (map_option (\<lambda>_. ui_proxy_id ui) (ua_proxy_id req)) (\<lambda>v db.
        sql de 7 (write_account i (\<lambda>a. a\<lparr>a_proxy_id := v\<rparr>) db)) db) (\<lambda>db.
      try_then (set_field (ua_drain_first req) (\<lambda>v db.
        sql de 8 (write_account i (\<lambda>a. a\<lparr>a_drain_first := of_bool v\<rparr>) db)) db) (\<lambda>db.
      try_then (set_field (ua_status req) (\<lambda>v db. sql de 9 (write_account i (set_status v) db)) db) (\<lambda>db.
      try_then (update_credentials env i req ui db) (\<lambda>db.
      try_then (update_mimicry env i req ui db) (\<lambda>db.
      try_then (set_field (ua_organization_uuid req) (\<lambda>v db.
        sql de 13 (write_account i (\<lambda>a. a\<lparr>a_organization_uuid := Some v\<rparr>) db)) db) (\<lambda>db.
      map_sum id (\<lambda>_. db) (io_step de 14)))))))))))))"

definition oauth_metadata :: "OAuthExchangeResult \<Rightarrow> AccountMetadataUpdate" where
  "oauth_metadata o1 =
     (let sn = ex_snapshot o1 in
      \<lparr>mu_email = sn_email sn, mu_account_type = sn_account_type sn,
       mu_organization_uuid = Some (sn_organization_uuid sn), mu_rate_limit_tier = sn_rate_limit_tier sn,
       mu_subscription_created_at = sn_subscription_created_at sn, mu_billing_type = sn_billing_type sn\<rparr>)"

definition update_account ::
    "'u accounts_env \<Rightarrow> i64 \<Rightarrow> UpdateAccountRequest \<Rightarrow> database \<Rightarrow> database \<Rightarrow> (ClewdrError + unit) \<times> database \<times> bool" where
  "update_account env i req db later =
     (case update_checked env i req db of
        Inl e \<Rightarrow> (Inl e, later, False)
      | Inr ui \<Rightarrow>
          (case update_tx env i req ui later of
             Inl e \<Rightarrow> (Inl e, later, False)
           | Inr db1 \<Rightarrow>
               (case ui_oauth ui of
                  None \<Rightarrow> (Inr (), db1, True)
                | Some o1 \<Rightarrow>
                    (case sql (an_db env) 15 (Inr (update_account_metadata_unchecked i (oauth_metadata o1) db1)) of
                       Inl e \<Rightarrow> (Inl e, db1, False)
                     | Inr db2 \<Rightarrow>
                         (case sql (an_db env) 16 (upsert_snapshot env i o1 db2) of
                            Inl e \<Rightarrow> (Inl e, db2, False)
                          | Inr db3 \<Rightarrow> (Inr (), db3, True))))))"

section \<open>Removal and probes\<close>

definition remove_account :: "'u accounts_env \<Rightarrow> i64 \<Rightarrow> database \<Rightarrow> (ClewdrError + unit) \<times> database \<times> bool" where
  "remove_account env i db =
     (case io_step (an_db env) 0 of
        Inl e \<Rightarrow> (Inl e, db, False)
      | Inr _ \<Rightarrow>
          if rows_affected (\<lambda>a. a_id a = i) db = 0 then (Inl (NotFound ''account not found''), db, False)
          else (Inr (), delete_account i db, True))"

definition eligible_for_probe :: "AccountWithRuntime \<Rightarrow> bool" where
  "eligible_for_probe a \<longleftrightarrow>
     (if acc_auth_source a = ''oauth'' then acc_status a \<noteq> ''disabled'' \<and> acc_oauth_token a \<noteq> None
      else if acc_auth_source a = ''api_key'' then False
      else acc_cookie_blob a \<noteq> None)"

text \<open>\<open>probe\<close> is the call of the pool (\<open>handle_probe_accounts\<close>).\<close>

definition probe_all ::
    "'u accounts_env \<Rightarrow> (i64 list \<Rightarrow> 's \<Rightarrow> (ClewdrError + i64 list) \<times> 's) \<Rightarrow> database \<Rightarrow> 's
      \<Rightarrow> (ClewdrError + i64 list) \<times> 's" where
  "probe_all env probe db s =
     (case io_step (an_db env) 0 of
        Inl e \<Rightarrow> (Inl e, s)
      | Inr _ \<Rightarrow>
          (let ids = map acc_id (filter eligible_for_probe (load_all_accounts (an_ext env) (an_instant env) db))
           in if ids = [] then (Inr [], s) else probe ids s))"

section \<open>Answers\<close>

definition reason_display :: "(i64 \<Rightarrow> string) \<Rightarrow> Reason \<Rightarrow> string" where
  "reason_display format_time r =
     (case r of
        Disabled \<Rightarrow> ''Organization disabled''
      | Free \<Rightarrow> ''Free-tier account''
      | Banned \<Rightarrow> ''Account banned''
      | Null \<Rightarrow> ''Account unavailable''
      | Restricted i \<Rightarrow> ''Account restricted until '' @ format_time i
      | TooManyRequest i \<Rightarrow> ''Account cooling down until '' @ format_time i)"

text \<open>\<open>str::replace\<close> of a text that is not empty.\<close>

fun str_replace :: "string \<Rightarrow> string \<Rightarrow> string \<Rightarrow> string" where
  "str_replace [] old new = []"
| "str_replace (c # cs) old new =
     (if starts_with (c # cs) old then new @ str_replace (drop (length old - 1) cs) old new
      else c # str_replace cs old new)"

definition sanitize_account_error_message :: "(i64 \<Rightarrow> string) \<Rightarrow> string \<Rightarrow> string" where
  "sanitize_account_error_message ft raw =
     (if trim raw = [] then []
      else foldl (\<lambda>m (old, new). str_replace m old new) (trim raw)
        [(''Invalid Cookie: Null'', reason_display ft Null), (''Invalid Cookie: Banned'', reason_display ft Banned),
         (''Invalid Cookie: Free account'', reason_display ft Free),
         (''Invalid Cookie: Organization Disabled'', reason_display ft Disabled),
         (''Invalid Cookie: Restricted/Warning: until'', ''Account restricted until''),
         (''Invalid Cookie: 429 Too many request: until'', ''Account cooling down until'')])"

definition display_account_invalid_reason :: "(i64 \<Rightarrow> string) \<Rightarrow> string \<Rightarrow> string" where
  "display_account_invalid_reason ft raw =
     (if trim raw = [] then []
      else case from_db_string_checked (trim raw) of
             Some r \<Rightarrow> reason_display ft r
           | None \<Rightarrow> sanitize_account_error_message ft (trim raw))"

record UsageWindowResponse =
  uw_has_reset :: "bool option"
  uw_resets_at :: "i64 option"
  uw_utilization :: "f64 option"

record AccountRuntimeResponse =
  an_reset_time :: "i64 option"
  an_resets_last_checked_at :: "i64 option"
  an_session :: UsageWindowResponse
  an_weekly :: UsageWindowResponse
  an_weekly_sonnet :: UsageWindowResponse
  an_weekly_opus :: UsageWindowResponse
  an_weekly_scoped :: "(string \<times> UsageWindowResponse) list"

record AccountResponse =
  ar_id :: i64
  ar_name :: string
  ar_rr_order :: i64
  ar_proxy_id :: "i64 option"
  ar_proxy_name :: "string option"
  ar_drain_first :: bool
  ar_status :: string
  ar_auth_source :: string
  ar_has_cookie :: bool
  ar_has_oauth :: bool
  ar_has_api_key :: bool
  ar_api_key_base_url :: "string option"
  ar_api_key_extra_headers :: "(string \<times> string) list option"
  ar_api_key_extra_body :: "json option"
  ar_mimicry_mode :: string
  ar_mimicry_config :: "ThirdPartyMimicryConfig option"
  ar_total_cost_nanousd :: i64
  ar_oauth_expires_at :: "string option"
  ar_last_refresh_at :: "string option"
  ar_last_error :: "string option"
  ar_email :: "string option"
  ar_account_type :: "string option"
  ar_rate_limit_tier :: "string option"
  ar_subscription_created_at :: "string option"
  ar_billing_type :: "string option"
  ar_invalid_reason :: "string option"
  ar_runtime :: "AccountRuntimeResponse option"
  ar_health :: "AccountHealth option"

definition usage_window :: "bool option \<Rightarrow> i64 option \<Rightarrow> f64 option \<Rightarrow> UsageWindowResponse" where
  "usage_window has resets util = \<lparr>uw_has_reset = has, uw_resets_at = resets, uw_utilization = util\<rparr>"

definition map_runtime :: "RuntimeStateRow \<Rightarrow> AccountRuntimeResponse" where
  "map_runtime rt =
     \<lparr>an_reset_time = rr_reset_time rt, an_resets_last_checked_at = rr_resets_last_checked_at rt,
      an_session = usage_window (rr_session_has_reset rt) (rr_session_resets_at rt) (rr_session_utilization rt),
      an_weekly = usage_window (rr_weekly_has_reset rt) (rr_weekly_resets_at rt) (rr_weekly_utilization rt),
      an_weekly_sonnet = usage_window (rr_weekly_sonnet_has_reset rt) (rr_weekly_sonnet_resets_at rt)
        (rr_weekly_sonnet_utilization rt),
      an_weekly_opus = usage_window (rr_weekly_opus_has_reset rt) (rr_weekly_opus_resets_at rt)
        (rr_weekly_opus_utilization rt),
      an_weekly_scoped = map (\<lambda>e. (model_display_name e, usage_window (Some True) (sl_resets_at e) (sl_utilization e)))
        (rr_weekly_scoped_limits rt)\<rparr>"

definition opt_filter :: "('a \<Rightarrow> bool) \<Rightarrow> 'a option \<Rightarrow> 'a option" where
  "opt_filter p v = Option.bind v (\<lambda>a. if p a then Some a else None)"

definition map_account :: "'u accounts_env \<Rightarrow> AccountWithRuntime \<Rightarrow> AccountHealth option \<Rightarrow> AccountResponse" where
  "map_account env row health =
     (let api = (acc_auth_source row = ''api_key'') in
      \<lparr>ar_id = acc_id row, ar_name = acc_name row, ar_rr_order = acc_rr_order row, ar_proxy_id = acc_proxy_id row,
       ar_proxy_name = acc_proxy_name row, ar_drain_first = acc_drain_first row, ar_status = acc_status row,
       ar_auth_source = acc_auth_source row, ar_has_cookie = non_empty (acc_cookie_blob row),
       ar_has_oauth = (acc_oauth_token row \<noteq> None),
       ar_has_api_key = (api \<and> non_empty (acc_api_key_base_url row) \<and> non_empty (acc_api_key_secret row)),
       ar_api_key_base_url = (if api then acc_api_key_base_url row else None),
       ar_api_key_extra_headers = opt_filter (\<lambda>m. m \<noteq> [])
         (Option.bind (acc_api_key_extra_headers row) (an_headers_of env)),
       ar_api_key_extra_body = opt_filter (\<lambda>v. \<exists>obj \<in> set_option (as_object v). obj \<noteq> [])
         (Option.bind (opt_filter (\<lambda>_. api) (acc_api_key_extra_body row)) (an_json_of env)),
       ar_mimicry_mode = acc_mimicry_mode row,
       ar_mimicry_config = Option.bind (opt_filter (\<lambda>_. acc_mimicry_mode row = ''third_party'') (acc_mimicry_config row))
         (an_config_of env),
       ar_total_cost_nanousd = acc_total_cost_nanousd row, ar_oauth_expires_at = acc_oauth_expires_at row,
       ar_last_refresh_at = acc_last_refresh_at row,
       ar_last_error = map_option (sanitize_account_error_message (an_format_time env)) (acc_last_error row),
       ar_email = acc_email row, ar_account_type = acc_account_type row, ar_rate_limit_tier = acc_rate_limit_tier row,
       ar_subscription_created_at = acc_subscription_created_at row, ar_billing_type = acc_billing_type row,
       ar_invalid_reason = map_option (display_account_invalid_reason (an_format_time env)) (acc_invalid_reason row),
       ar_runtime = map_option map_runtime (acc_runtime row), ar_health = health\<rparr>)"

text \<open>\<open>snapshot\<close> is the call of the pool (\<open>get_health_snapshot\<close>).\<close>

definition list_accounts ::
    "'u accounts_env \<Rightarrow> ClewdrError + AccountHealthSnapshot \<Rightarrow> database \<Rightarrow> ClewdrError + AccountResponse list" where
  "list_accounts env snapshot db =
     try_then (io_step (an_db env) 0) (\<lambda>_. try_then snapshot (\<lambda>sn.
       Inr (map (\<lambda>row. map_account env row (hm_get (sn_per_account sn) (acc_id row)))
              (load_all_accounts (an_ext env) (an_instant env) db))))"

end
