(* ===== verification/Account_Changes.thy ===== *)
theory Account_Changes
  imports Admin_Accounts
begin

text \<open>
  What the handlers on accounts promise (\<open>Admin_Accounts\<close>): the checks of a request are complete, so that no
  constraint of the table answers for them; a change touches one account; and no two accounts share a cookie,
  whatever fails and whatever the tables were when the request was checked.
\<close>

section \<open>Answers of a chain of steps\<close>

definition answers :: "('e \<Rightarrow> bool) \<Rightarrow> ('a \<Rightarrow> bool) \<Rightarrow> 'e + 'a \<Rightarrow> bool" where
  "answers E Q r = (case r of Inl e \<Rightarrow> E e | Inr a \<Rightarrow> Q a)"

lemma answers_simps [simp]: "answers E Q (Inl e) = E e" "answers E Q (Inr a) = Q a"
  by (simp_all add: answers_def)

lemma answers_try: "answers E P x \<Longrightarrow> (\<And>a. P a \<Longrightarrow> answers E Q (f a)) \<Longrightarrow> answers E Q (try_then x f)"
  by (cases x) simp_all

lemma answers_io: "(\<And>e. de_io env n = Some e \<Longrightarrow> E e) \<Longrightarrow> Q () \<Longrightarrow> answers E Q (io_step env n)"
  by (simp add: io_step_def split: option.split)

lemma answers_commit: "(\<And>e. de_io env n = Some e \<Longrightarrow> E e) \<Longrightarrow> Q a \<Longrightarrow> answers E Q (map_sum id (\<lambda>_. a) (io_step env n))"
  by (simp add: io_step_def split: option.split)

lemma answers_field: "Q db \<Longrightarrow> (\<And>v. x = Some v \<Longrightarrow> answers E Q (f v db)) \<Longrightarrow> answers E Q (set_field x f db)"
  by (simp add: set_field_def split: option.split)

lemma answers_sql:
  assumes "\<And>e. de_io env n = Some e \<Longrightarrow> E e"
    and "\<And>v. r = Inl v \<Longrightarrow> E (de_from env v)" and "\<And>a. r = Inr a \<Longrightarrow> Q a"
  shows "answers E Q (sql env n r)"
  using assms by (cases r) (auto simp: sql_def io_step_def split: option.split)

lemma answers_unique:
  assumes "\<And>e. de_io env n = Some e \<Longrightarrow> E e" and "r = Inl Unique_Error \<Longrightarrow> E e"
    and "r = Inl Constraint_Error \<Longrightarrow> E (de_from env Constraint_Error)" and "\<And>a. r = Inr a \<Longrightarrow> Q a"
  shows "answers E Q (sql_unique env n e r)"
proof (cases r)
  case (Inl v)
  with assms show ?thesis by (cases v) (auto simp: sql_unique_def io_step_def split: option.split)
next
  case (Inr a)
  with assms show ?thesis by (auto simp: sql_unique_def io_step_def split: option.split)
qed

lemma answers_option:
  "(x = None \<Longrightarrow> answers E Q n) \<Longrightarrow> (\<And>v. x = Some v \<Longrightarrow> answers E Q (f v)) \<Longrightarrow>
    answers E Q (case x of None \<Rightarrow> n | Some v \<Rightarrow> f v)"
  by (simp split: option.split)

lemma answers_if: "(b \<Longrightarrow> answers E Q x) \<Longrightarrow> (\<not> b \<Longrightarrow> answers E Q y) \<Longrightarrow> answers E Q (if b then x else y)"
  by simp

section \<open>Cookies\<close>

text \<open>Ids are unique, and a cookie belongs to one account.\<close>

definition cookies_ok :: "database \<Rightarrow> bool" where
  "cookies_ok db \<longleftrightarrow>
     distinct (map a_id (accounts db))
     \<and> (\<forall>a \<in> set (accounts db). \<forall>b \<in> set (accounts db).
          a_cookie_blob a \<noteq> None \<and> a_cookie_blob b = a_cookie_blob a \<longrightarrow> a_id b = a_id a)"

lemma cookies_okD:
  assumes "cookies_ok db" "a \<in> set (accounts db)" "b \<in> set (accounts db)" "a_cookie_blob a = Some c" "a_cookie_blob b = Some c"
  shows "a_id b = a_id a"
  using assms unfolding cookies_ok_def by (metis option.distinct(1))

lemma accounts_update_where [simp]: "accounts (update_where w f db) = map (\<lambda>a. if w a then f a else a) (accounts db)"
  by (simp add: update_where_def)

lemma cookies_ok_update:
  assumes "cookies_ok db" and "\<And>a. a_id (f a) = a_id a"
    and "\<And>a b c. \<lbrakk>a \<in> set (accounts db); a_id a = i; b \<in> set (accounts db); a_id b \<noteq> i;
           a_cookie_blob (f a) = Some c; a_cookie_blob b = Some c\<rbrakk> \<Longrightarrow> False"
  shows "cookies_ok (update_where (\<lambda>a. a_id a = i) f db)"
proof -
  let ?g = "\<lambda>a. if a_id a = i then f a else a"
  have ids: "a_id (?g a) = a_id a" for a using assms(2) by simp
  have "map a_id (map ?g (accounts db)) = map a_id (accounts db)" unfolding map_map by (rule map_cong) (simp_all add: assms(2))
  then have d: "distinct (map a_id (map ?g (accounts db)))" using assms(1) by (simp only: cookies_ok_def)
  have owner: "a_id b = a_id a"
    if m: "a \<in> set (accounts db)" "b \<in> set (accounts db)"
      and c: "a_cookie_blob (?g a) = Some c" "a_cookie_blob (?g b) = Some c" for a b c
  proof (cases "a_id a = i"; cases "a_id b = i")
    assume "a_id a \<noteq> i" "a_id b \<noteq> i"
    with m c assms(1) show ?thesis by (auto intro: cookies_okD)
  qed (use m c assms(3) in auto)
  have share: "a_id y = a_id x"
    if x: "x \<in> ?g ` set (accounts db)" and y: "y \<in> ?g ` set (accounts db)"
      and c: "a_cookie_blob x \<noteq> None" "a_cookie_blob y = a_cookie_blob x" for x y
  proof -
    from c obtain blob where blob: "a_cookie_blob x = Some blob" "a_cookie_blob y = Some blob" by auto
    from x obtain a where a: "x = ?g a" "a \<in> set (accounts db)" by (rule imageE)
    from y obtain b where b: "y = ?g b" "b \<in> set (accounts db)" by (rule imageE)
    have "a_id b = a_id a" using a b blob by (intro owner [of a b blob]) simp_all
    then show ?thesis unfolding a(1) b(1) ids .
  qed
  show ?thesis
    unfolding cookies_ok_def accounts_update_where set_map
    by (intro conjI ballI impI d, elim conjE, rule share)
qed

text \<open>A write that leaves the cookie alone or removes it.\<close>

lemma cookies_ok_plain:
  assumes "cookies_ok db" and "\<And>a. a_id (f a) = a_id a \<and> (a_cookie_blob (f a) = None \<or> a_cookie_blob (f a) = a_cookie_blob a)"
  shows "cookies_ok (update_where (\<lambda>a. a_id a = i) f db)"
proof (rule cookies_ok_update)
  fix a b c
  assume "a \<in> set (accounts db)" "a_id a = i" "b \<in> set (accounts db)" "a_id b \<noteq> i"
    "a_cookie_blob (f a) = Some c" "a_cookie_blob b = Some c"
  with assms(2) [of a] cookies_okD [OF assms(1), of a b c] show False by auto
qed (use assms in auto)

lemma checked_tables_Inr [simp]: "checked_tables db = Inr db' \<longleftrightarrow> db' = db \<and> accounts_unique db \<and> accounts_fit db"
  by (auto simp: checked_tables_def accounts_fit_def)

lemma cookies_ok_use_cookie:
  assumes "cookies_ok db" and "\<not> cookie_used (\<lambda>j. j \<noteq> i) blob db"
  shows "cookies_ok (update_where (\<lambda>a. a_id a = i) (use_cookie blob) db)"
proof (rule cookies_ok_update)
  fix a b c
  assume "b \<in> set (accounts db)" "a_id b \<noteq> i" "a_cookie_blob (use_cookie blob a) = Some c" "a_cookie_blob b = Some c"
  with assms(2) show False
    by (auto simp: cookie_used_def list_ex_iff use_cookie_def revive_def no_api_key_def forget_identity_def no_oauth_def)
qed (use assms in \<open>simp_all add: use_cookie_def revive_def no_api_key_def forget_identity_def no_oauth_def\<close>)

section \<open>Changes of one account\<close>

definition tables_ok :: "database \<Rightarrow> bool" where
  "tables_ok db \<longleftrightarrow> accounts_fit db \<and> accounts_unique db \<and> cookies_ok db"

text \<open>Sound tables, the kind \<open>s\<close> of the credential of account \<open>i\<close>, and the rest as in \<open>db0\<close>.\<close>

definition changed_only :: "i64 \<Rightarrow> string \<Rightarrow> database \<Rightarrow> database \<Rightarrow> bool" where
  "changed_only i s db0 db \<longleftrightarrow>
     tables_ok db \<and> proxies db = proxies db0 \<and> request_logs db = request_logs db0
     \<and> map a_id (accounts db) = map a_id (accounts db0)
     \<and> filter (\<lambda>a. a_id a \<noteq> i) (accounts db) = filter (\<lambda>a. a_id a \<noteq> i) (accounts db0)
     \<and> (\<forall>a \<in> set (accounts db). a_id a = i \<longrightarrow> a_auth_source a = s)"

lemma changed_only_refl:
  assumes "tables_ok db" and "\<And>a. a \<in> set (accounts db) \<Longrightarrow> a_id a = i \<Longrightarrow> a_auth_source a = s"
  shows "changed_only i s db db"
  using assms by (auto simp: changed_only_def)

lemma changed_only_ok: "changed_only i s db0 db \<Longrightarrow> tables_ok db"
  by (simp add: changed_only_def)

lemma filter_others: "(\<And>a. a_id (f a) = a_id a) \<Longrightarrow>
    filter (\<lambda>a. a_id a \<noteq> i) (map (\<lambda>a. if a_id a = i then f a else a) xs) = filter (\<lambda>a. a_id a \<noteq> i) xs"
  by (induction xs) auto

text \<open>A write that fits, unless it is rejected as not unique.\<close>

definition fitting :: "database \<Rightarrow> i64 \<Rightarrow> string \<Rightarrow> string \<Rightarrow> (account_row \<Rightarrow> account_row) \<Rightarrow> bool" where
  "fitting db i s s' f \<longleftrightarrow>
     (\<forall>a. a_id (f a) = a_id a
        \<and> (a_id a = i \<and> a_auth_source a = s \<and> account_checks a \<longrightarrow> account_checks (f a) \<and> a_auth_source (f a) = s')
        \<and> (proxy_known (hm_keys (proxies db)) a \<longrightarrow> proxy_known (hm_keys (proxies db)) (f a)))"

lemma write_fitting:
  assumes c: "changed_only i s db0 db" and f: "fitting db i s s' f"
    and k: "cookies_ok (update_where (\<lambda>a. a_id a = i) f db)"
  shows "write_account i f db \<noteq> Inl Constraint_Error"
    and "write_account i f db = Inr db' \<Longrightarrow> changed_only i s' db0 db'"
    and "map a_name (accounts (update_where (\<lambda>a. a_id a = i) f db)) = map a_name (accounts db) \<Longrightarrow>
      map a_rr_order (accounts (update_where (\<lambda>a. a_id a = i) f db)) = map a_rr_order (accounts db) \<Longrightarrow>
      \<exists>db'. write_account i f db = Inr db'"
proof -
  let ?db = "update_where (\<lambda>a. a_id a = i) f db"
  have fit: "accounts_fit db" and src: "\<And>a. a \<in> set (accounts db) \<Longrightarrow> a_id a = i \<Longrightarrow> a_auth_source a = s"
    and u: "accounts_unique db"
    using c by (simp_all add: changed_only_def tables_ok_def)
  have checks: "list_all account_checks (accounts ?db)"
    using fit f src by (auto simp: accounts_fit_def list_all_iff fitting_def)
  moreover have "list_all (proxy_known (hm_keys (proxies db))) (accounts ?db)"
    using fit f by (auto simp: accounts_fit_def list_all_iff fitting_def)
  ultimately have fit': "accounts_fit ?db" by (simp add: accounts_fit_def)
  with checks show "write_account i f db \<noteq> Inl Constraint_Error"
    by (simp add: write_account_def checked_tables_def)
  have id: "a_id (f a) = a_id a" for a using f by (simp add: fitting_def)
  have "changed_only i s' db0 ?db" if u': "accounts_unique ?db"
  proof -
    have "map a_id (accounts ?db) = map a_id (accounts db)" by (rule map_update_where) (rule id)
    moreover have "\<forall>a \<in> set (accounts ?db). a_id a = i \<longrightarrow> a_auth_source a = s'"
      using fit f src by (auto simp: accounts_fit_def list_all_iff fitting_def)
    moreover have "filter (\<lambda>a. a_id a \<noteq> i) (accounts ?db) = filter (\<lambda>a. a_id a \<noteq> i) (accounts db)"
      unfolding accounts_update_where by (rule filter_others) (rule id)
    ultimately show ?thesis using c fit' u' k by (simp only: changed_only_def tables_ok_def update_where_frame)
  qed
  then show "write_account i f db = Inr db' \<Longrightarrow> changed_only i s' db0 db'"
    by (simp add: write_account_def)
  show "map a_name (accounts ?db) = map a_name (accounts db) \<Longrightarrow>
      map a_rr_order (accounts ?db) = map a_rr_order (accounts db) \<Longrightarrow> \<exists>db'. write_account i f db = Inr db'"
    using u fit' unfolding write_account_def checked_tables_Inr accounts_unique_def by metis
qed

section \<open>The steps of a change\<close>

definition admin_refusal :: "ClewdrError \<Rightarrow> bool" where
  "admin_refusal e \<longleftrightarrow>
     (case e of BadRequest _ \<Rightarrow> True | BadRequestMessage _ \<Rightarrow> True | NotFound _ \<Rightarrow> True | Conflict _ \<Rightarrow> True
      | ConflictMessage _ \<Rightarrow> True | _ \<Rightarrow> False)"

text \<open>What a handler may answer when no constraint of the tables is violated.\<close>

definition expected_error :: "'u accounts_env \<Rightarrow> ClewdrError \<Rightarrow> bool" where
  "expected_error env e \<longleftrightarrow>
     admin_refusal e \<or> (\<exists>input st proxy. an_exchange env input st proxy = Inl e) \<or> (\<exists>n. de_io (an_db env) n = Some e)"

lemma expected_client [simp]:
  "expected_error env (BadRequest m)" "expected_error env (BadRequestMessage m)" "expected_error env (NotFound m)"
  "expected_error env (Conflict m)" "expected_error env (ConflictMessage m)"
  by (simp_all add: expected_error_def admin_refusal_def)

lemma expected_io: "de_io (an_db env) n = Some e \<Longrightarrow> expected_error env e"
  by (auto simp: expected_error_def)

lemmas answers_steps = answers_io [OF expected_io] answers_commit [OF expected_io]

definition keeps_order :: "(account_row \<Rightarrow> account_row) \<Rightarrow> bool" where
  "keeps_order f \<longleftrightarrow> (\<forall>a. a_name (f a) = a_name a \<and> a_rr_order (f a) = a_rr_order a)"

lemma plain_write:
  assumes "changed_only i s db0 db" "fitting db i s s' f" "keeps_order f"
    and "cookies_ok (update_where (\<lambda>a. a_id a = i) f db)"
  shows "answers (expected_error env) (changed_only i s' db0) (sql (an_db env) n (write_account i f db))"
proof -
  have "map a_name (accounts (update_where (\<lambda>a. a_id a = i) f db)) = map a_name (accounts db)"
    "map a_rr_order (accounts (update_where (\<lambda>a. a_id a = i) f db)) = map a_rr_order (accounts db)"
    using assms(3) by (intro map_update_where; simp add: keeps_order_def)+
  with write_fitting(3) [OF assms(1,2,4)] obtain db' where "write_account i f db = Inr db'" by blast
  with write_fitting(2) [OF assms(1,2,4)] show ?thesis
    by (intro answers_sql expected_io) simp_all
qed

lemma unique_write:
  assumes "changed_only i s db0 db" "fitting db i s s' f" "expected_error env e"
    and "cookies_ok (update_where (\<lambda>a. a_id a = i) f db)"
  shows "answers (expected_error env) (changed_only i s' db0) (sql_unique (an_db env) n e (write_account i f db))"
proof (rule answers_unique)
  show "\<And>e. de_io (an_db env) n = Some e \<Longrightarrow> expected_error env e" by (rule expected_io)
qed (use write_fitting(1,2) [OF assms(1,2,4)] assms(3) in auto)

lemma changed_only_cookies: "changed_only i s db0 db \<Longrightarrow> cookies_ok db"
  by (simp add: changed_only_def tables_ok_def)

text \<open>A single column outside the credential.\<close>

lemma column_write:
  assumes "changed_only i s db0 db" "fitting db i s s f" "keeps_order f"
    and "\<And>a. a_cookie_blob (f a) = a_cookie_blob a"
  shows "answers (expected_error env) (changed_only i s db0) (sql (an_db env) n (write_account i f db))"
  using assms by (intro plain_write cookies_ok_plain changed_only_cookies [OF assms(1)]) (auto simp: fitting_def)

text \<open>What the checks establish.\<close>

definition update_fits :: "i64 \<Rightarrow> UpdateAccountRequest \<Rightarrow> update_inputs \<Rightarrow> database \<Rightarrow> bool" where
  "update_fits i req ui db \<longleftrightarrow>
     (\<forall>m \<in> set_option (ua_max_slots req). 0 < m)
     \<and> set_option (ua_status req) \<subseteq> set [''active'', ''disabled'', ''auth_error'']
     \<and> set_option (ui_proxy_id ui) \<subseteq> hm_keys (proxies db)
     \<and> (\<exists>a \<in> set (accounts db). a_id a = i \<and> a_auth_source a = acc_auth_source (ui_existing ui))"

lemma existing_row:
  assumes "get_account_by_id x t db i = Some ex"
  shows "\<exists>a \<in> set (accounts db). a_id a = i \<and> ex = load_account x t db a"
proof -
  from assms have "ex \<in> set (load_all_accounts x t db)" "acc_id ex = i"
    unfolding get_account_by_id_def by (auto simp: find_Some_iff)
  then show ?thesis by (auto simp: load_all_accounts_def load_account_def)
qed

lemma resolve_proxy_url_answers:
  "answers (expected_error env) (\<lambda>r. map_option fst r = positive_id p \<and> set_option (positive_id p) \<subseteq> hm_keys (proxies db))
     (resolve_proxy_url env n db p)"
proof (cases "positive_id p")
  case (Some j)
  show ?thesis
  proof (cases "hm_get (proxies db) j")
    case (Some q)
    then have "j \<in> hm_keys (proxies db)" by (metis hm_contains_iff option.distinct(1))
    with Some \<open>positive_id p = Some j\<close> show ?thesis
      by (auto simp: resolve_proxy_url_def split: option.split intro!: answers_try answers_io [OF expected_io])
  qed (auto simp: resolve_proxy_url_def Some intro!: answers_try answers_io [OF expected_io])
qed (simp add: resolve_proxy_url_def)

lemma normalize_cookie_answers: "answers (expected_error env) (\<lambda>_. True) (normalize_cookie_blob v)"
  by (simp add: normalize_cookie_blob_def split: option.split sum.split)

lemma validate_keys_answers: "answers (expected_error env) (\<lambda>_. True) (validate_keys what r why ks)"
  by (induction ks) simp_all

lemma api_key_answers:
  "answers (expected_error env) (\<lambda>u. (u = None) = (url = None)) (check_api_key_inputs env url headers body)"
proof -
  have u: "answers (expected_error env) (\<lambda>u. (u = None) = (url = None))
      (case url of None \<Rightarrow> Inr None
       | Some raw \<Rightarrow> map_sum id (\<lambda>u. Some (an_url_str env u)) (normalize_api_key_base_url (an_url env) raw))"
    by (simp add: normalize_api_key_base_url_def Let_def split: option.split sum.split)
  have h: "answers (expected_error env) (\<lambda>_. True)
      (case headers of None \<Rightarrow> Inr () | Some m \<Rightarrow> validate_api_key_extra_headers m)"
    by (simp add: validate_api_key_extra_headers_def validate_keys_answers split: option.split)
  have b: "answers (expected_error env) (\<lambda>_. True)
      (case body of None \<Rightarrow> Inr () | Some v \<Rightarrow> validate_api_key_extra_body v)"
    by (simp add: validate_api_key_extra_body_def validate_keys_answers split: option.split)
  show ?thesis
    unfolding check_api_key_inputs_def
    by (rule answers_try [OF u], rule answers_try [OF h], rule answers_try [OF b], simp)
qed

lemma submitted_oauth_answers:
  "answers (expected_error env) (\<lambda>o1. (o1 = None) = (input = None)) (submitted_oauth env input st proxy)"
proof (cases input)
  case (Some v)
  then show ?thesis
    by (cases "an_exchange env v st (map_option snd proxy)") (auto simp: submitted_oauth_def expected_error_def)
qed (simp add: submitted_oauth_def)

lemma derive_answers:
  "answers (expected_error env) (\<lambda>s.
       s = (if c then ''cookie'' else if o1 then ''oauth'' else if k then ''api_key'' else the existing)
       \<and> (existing = None \<longrightarrow> c \<or> o1 \<or> k))
     (derive_auth_source req c o1 k existing)"
  unfolding derive_auth_source_def one_credential_def
  by (rule if_split [THEN iffD2], intro conjI impI, simp, rule answers_try
        [where P = "\<lambda>s. s = (if c then ''cookie'' else if o1 then ''oauth'' else if k then ''api_key'' else the existing)
           \<and> (existing = None \<longrightarrow> c \<or> o1 \<or> k)"])
     (auto split: option.split)

lemma ui_checks_answers:
  assumes "\<forall>m \<in> set_option (ua_max_slots req). 0 < m"
    and "set_option (ua_status req) \<subseteq> set [''active'', ''disabled'', ''auth_error'']"
    and "\<exists>a \<in> set (accounts db). a_id a = i \<and> a_auth_source a = acc_auth_source ex"
    and "ua_proxy_id req = None \<or> set_option p \<subseteq> hm_keys (proxies db)" and "p = positive_id (ua_proxy_id req)"
  shows "update_fits i req \<lparr>ui_proxy_id = p, ui_cookie = c, ui_base_url = u, ui_secret = s, ui_api_key = k,
           ui_oauth = o1, ui_existing = ex\<rparr> db"
  using assms by (auto simp: update_fits_def positive_id_def simp del: set_simps)

lemma update_checked_answers:
  "answers (expected_error env) (\<lambda>ui. update_fits i req ui db) (update_checked env i req db)"
proof (cases "(ua_max_slots req \<noteq> None \<and> the (ua_max_slots req) \<le> 0)
    \<or> (ua_status req \<noteq> None \<and> the (ua_status req) \<notin> set [''active'', ''disabled'', ''auth_error''])")
  case True
  then show ?thesis unfolding update_checked_def by (auto simp del: set_simps)
next
  case False
  then have slots: "\<forall>m \<in> set_option (ua_max_slots req). 0 < m"
    and st: "set_option (ua_status req) \<subseteq> set [''active'', ''disabled'', ''auth_error'']"
    by (auto simp del: set_simps)
  let ?P = "\<lambda>_. ua_proxy_id req = None \<or> set_option (positive_id (ua_proxy_id req)) \<subseteq> hm_keys (proxies db)"
  have proxy: "answers (expected_error env) ?P
      (if ua_proxy_id req \<noteq> None then resolve_proxy_url env 1 db (positive_id (ua_proxy_id req)) else Inr r)" for r
  proof -
    have "positive_id (positive_id p) = positive_id p" for p
      by (cases p) (simp_all add: positive_id_def)
    then show ?thesis using resolve_proxy_url_answers [of env "positive_id (ua_proxy_id req)" db 1]
      by (auto simp: answers_def split: sum.splits)
  qed
  show ?thesis
    unfolding update_checked_def Let_def
      if_not_P [OF False [unfolded de_Morgan_disj, THEN conjunct1]]
      if_not_P [OF False [unfolded de_Morgan_disj, THEN conjunct2]]
    apply (rule answers_try [OF answers_io [OF expected_io TrueI]], assumption)
    apply (rule answers_option, simp)
    apply (rule answers_try [OF proxy])
    apply (rule answers_try [OF normalize_cookie_answers])
    apply (rule answers_try [OF api_key_answers])
    apply (rule answers_if, simp add: one_credential_def)
    apply (rule answers_try [OF submitted_oauth_answers])
    apply (rule answers_try [OF derive_answers])
    apply (unfold answers_simps)
    apply (rule ui_checks_answers [OF slots st])
      apply (drule existing_row, auto simp: load_account_def)
    done
qed

lemma changed_only_runtime [simp]: "changed_only i s db0 (db\<lparr>runtime_state := r\<rparr>) = changed_only i s db0 db"
  by (simp add: changed_only_def tables_ok_def accounts_fit_def accounts_unique_def cookies_ok_def)

lemmas credential_writes =
  use_cookie_def use_oauth_def use_api_key_def revive_def no_api_key_def forget_identity_def no_oauth_def

lemma credential_fits:
  "fitting db i s ''cookie'' (use_cookie blob)"
  "fitting db i s ''oauth'' (use_oauth env o1)"
  "fitting db i s ''api_key'' (use_api_key url secret headers body)"
  by (simp_all add: fitting_def credential_writes account_checks_def account_mutex_def proxy_known_def)

lemma credential_order:
  "keeps_order (use_cookie blob)" "keeps_order (use_oauth env o1)" "keeps_order (use_api_key url secret headers body)"
  by (simp_all add: keeps_order_def credential_writes)

lemma kept_or_answers: "answers (expected_error env) (\<lambda>_. True) (kept_or switching v old why)"
  by (simp add: kept_or_def split: option.split)

lemma update_credentials_answers:
  assumes c: "changed_only i (acc_auth_source (ui_existing ui)) db0 db"
  shows "answers (expected_error env) (changed_only i (effective_auth ui) db0) (update_credentials env i req ui db)"
proof -
  note ok = changed_only_cookies [OF c]
  have cookie: "answers (expected_error env) (changed_only i ''cookie'' db0)
      (try_then (io_step (an_db env) 10) (\<lambda>_. if cookie_used (\<lambda>j. j \<noteq> i) blob db then Inl (Conflict cookie_taken)
         else sql (an_db env) 11 (write_account i (use_cookie blob) db)))" for blob
    by (rule answers_try [OF answers_io [OF expected_io TrueI]], assumption, rule answers_if, simp,
        rule plain_write [OF c credential_fits(1) credential_order(1)], rule cookies_ok_use_cookie [OF ok])
  have oauth: "answers (expected_error env) (changed_only i ''oauth'' db0)
      (sql (an_db env) 10 (write_account i (use_oauth env o1) db))" for o1
    by (rule plain_write [OF c credential_fits(2) credential_order(2)], rule cookies_ok_plain [OF ok])
      (simp add: credential_writes)
  have key: "answers (expected_error env) (changed_only i ''api_key'' db0)
      (sql (an_db env) 10 (write_account i (use_api_key url secret headers body) db))" for url secret headers body
    by (rule plain_write [OF c credential_fits(3) credential_order(3)], rule cookies_ok_plain [OF ok])
      (simp add: credential_writes)
  have switch: "answers (expected_error env) (changed_only i ''api_key'' db0)
      (if b then sql (an_db env) 11 (Inr (db1\<lparr>runtime_state := hm_remove i (runtime_state db1)\<rparr>)) else Inr db1)"
    if "changed_only i ''api_key'' db0 db1" for b db1
    using that by (auto intro!: answers_sql expected_io)
  show ?thesis
  proof (cases "ui_cookie ui"; cases "ui_oauth ui"; cases "ui_api_key ui")
    assume n: "ui_cookie ui = None" "ui_oauth ui = None" "ui_api_key ui"
    then show ?thesis
      by (simp only: update_credentials_def effective_auth_def Let_def prod.case option.case if_True not_True_eq_False
            if_False simp_thms option.distinct)
        (rule answers_try [OF kept_or_answers], rule answers_try [OF kept_or_answers], rule answers_try [OF key],
         erule switch)
  qed (use cookie oauth c in \<open>simp_all add: update_credentials_def effective_auth_def Let_def\<close>)
qed

lemma resolve_mimicry_answers:
  "answers (expected_error env) (\<lambda>(m, cfg). m = ''none'' \<and> cfg = None
      \<or> m = ''third_party'' \<and> cfg \<noteq> None \<and> source = ''api_key'') (resolve_mimicry env source mode cfg)"
  by (auto simp: resolve_mimicry_def validate_third_party_config_def Let_def split: option.split)

lemma update_mimicry_answers:
  assumes c: "changed_only i (effective_auth ui) db0 db"
  shows "answers (expected_error env) (changed_only i (effective_auth ui) db0) (update_mimicry env i req ui db)"
proof -
  have one: "answers (expected_error env) (changed_only i (effective_auth ui) db0)
      (sql (an_db env) 12 (write_account i (\<lambda>a. a\<lparr>a_mimicry_mode := m, a_mimicry_config := cfg\<rparr>) db))"
    if "m = ''none'' \<and> cfg = None \<or> m = ''third_party'' \<and> cfg \<noteq> None \<and> effective_auth ui = ''api_key''" for m cfg
  proof (rule column_write [OF c])
    show "fitting db i (effective_auth ui) (effective_auth ui) (\<lambda>a. a\<lparr>a_mimicry_mode := m, a_mimicry_config := cfg\<rparr>)"
      using that
      by (elim disjE conjE) (simp_all add: fitting_def account_checks_def account_mutex_def proxy_known_def)
  qed (simp_all add: keeps_order_def)
  show ?thesis
    unfolding update_mimicry_def
    by (rule answers_if, simp add: c, rule answers_try [OF resolve_mimicry_answers])
      (simp only: case_prod_beta, rule one)
qed

lemma duplicate_answers: "answers (expected_error env) (\<lambda>_. True) (reject_duplicate_oauth_identity org ex db)"
  by (simp add: reject_duplicate_oauth_identity_def split: option.split prod.split)

text \<open>The columns before the credential, each by its own statement.\<close>

lemma column_answers:
  assumes c: "changed_only i s db0 db"
  shows "answers (expected_error env) (changed_only i s db0) (sql_unique (an_db env) n (Conflict m)
      (write_account i (\<lambda>a. a\<lparr>a_name := name\<rparr>) db))"
    and "answers (expected_error env) (changed_only i s db0) (sql_unique (an_db env) n (Conflict m)
      (write_account i (\<lambda>a. a\<lparr>a_rr_order := rr\<rparr>) db))"
    and "0 < slots \<Longrightarrow> answers (expected_error env) (changed_only i s db0) (sql (an_db env) n
      (write_account i (\<lambda>a. a\<lparr>a_max_slots := slots\<rparr>) db))"
    and "set_option p \<subseteq> hm_keys (proxies db0) \<Longrightarrow> answers (expected_error env) (changed_only i s db0) (sql (an_db env) n
      (write_account i (\<lambda>a. a\<lparr>a_proxy_id := p\<rparr>) db))"
    and "answers (expected_error env) (changed_only i s db0) (sql (an_db env) n
      (write_account i (\<lambda>a. a\<lparr>a_drain_first := of_bool d\<rparr>) db))"
    and "st \<in> set [''active'', ''disabled'', ''auth_error''] \<Longrightarrow> answers (expected_error env) (changed_only i s db0)
      (sql (an_db env) n (write_account i (set_status st) db))"
    and "answers (expected_error env) (changed_only i s db0) (sql (an_db env) n
      (write_account i (\<lambda>a. a\<lparr>a_organization_uuid := org\<rparr>) db))"
proof -
  note ok = cookies_ok_plain [OF changed_only_cookies [OF c]]
  have px: "proxies db = proxies db0" using c by (simp add: changed_only_def)
  show "answers (expected_error env) (changed_only i s db0) (sql_unique (an_db env) n (Conflict m)
      (write_account i (\<lambda>a. a\<lparr>a_name := name\<rparr>) db))"
    by (rule unique_write [OF c]) (simp_all add: fitting_def account_checks_def account_mutex_def proxy_known_def ok)
  show "answers (expected_error env) (changed_only i s db0) (sql_unique (an_db env) n (Conflict m)
      (write_account i (\<lambda>a. a\<lparr>a_rr_order := rr\<rparr>) db))"
    by (rule unique_write [OF c]) (simp_all add: fitting_def account_checks_def account_mutex_def proxy_known_def ok)
  show "0 < slots \<Longrightarrow> answers (expected_error env) (changed_only i s db0) (sql (an_db env) n
      (write_account i (\<lambda>a. a\<lparr>a_max_slots := slots\<rparr>) db))"
    by (rule column_write [OF c])
      (simp_all add: fitting_def account_checks_def account_mutex_def proxy_known_def keeps_order_def)
  show "set_option p \<subseteq> hm_keys (proxies db0) \<Longrightarrow> answers (expected_error env) (changed_only i s db0) (sql (an_db env) n
      (write_account i (\<lambda>a. a\<lparr>a_proxy_id := p\<rparr>) db))"
    by (rule column_write [OF c])
      (simp_all add: fitting_def account_checks_def account_mutex_def proxy_known_def keeps_order_def px)
  show "answers (expected_error env) (changed_only i s db0) (sql (an_db env) n
      (write_account i (\<lambda>a. a\<lparr>a_drain_first := of_bool d\<rparr>) db))"
    by (rule column_write [OF c])
      (simp_all add: fitting_def account_checks_def account_mutex_def proxy_known_def keeps_order_def)
  show "st \<in> set [''active'', ''disabled'', ''auth_error''] \<Longrightarrow> answers (expected_error env) (changed_only i s db0)
      (sql (an_db env) n (write_account i (set_status st) db))"
    by (rule column_write [OF c])
      (auto simp: fitting_def account_checks_def account_mutex_def proxy_known_def keeps_order_def set_status_def)
  show "answers (expected_error env) (changed_only i s db0) (sql (an_db env) n
      (write_account i (\<lambda>a. a\<lparr>a_organization_uuid := org\<rparr>) db))"
    by (rule column_write [OF c])
      (simp_all add: fitting_def account_checks_def account_mutex_def proxy_known_def keeps_order_def)
qed

lemma update_tx_answers:
  assumes ok: "tables_ok db" and ui: "update_fits i req ui db"
  shows "answers (expected_error env) (changed_only i (effective_auth ui) db) (update_tx env i req ui db)"
proof -
  have src: "a_auth_source a = acc_auth_source (ui_existing ui)" if a: "a \<in> set (accounts db)" "a_id a = i" for a
  proof -
    from ui obtain b where b: "b \<in> set (accounts db)" "a_id b = i" "a_auth_source b = acc_auth_source (ui_existing ui)"
      by (auto simp: update_fits_def)
    have "distinct (map a_id (accounts db))" using ok by (simp add: tables_ok_def cookies_ok_def)
    then have "a = b" using a b by (metis distinct_map inj_onD)
    with b show ?thesis by simp
  qed
  have c0: "changed_only i (acc_auth_source (ui_existing ui)) db db"
    by (rule changed_only_refl [OF ok src])
  have slots: "ua_max_slots req = Some m \<Longrightarrow> 0 < m" for m using ui by (simp add: update_fits_def)
  have st: "ua_status req = Some v \<Longrightarrow> v \<in> set [''active'', ''disabled'', ''auth_error'']" for v
    using ui by (simp add: update_fits_def)
  have px: "set_option (ui_proxy_id ui) \<subseteq> hm_keys (proxies db)" using ui by (simp only: update_fits_def)
  have dup: "answers (expected_error env) (\<lambda>_. True) (case ui_oauth ui of
        None \<Rightarrow> Inr ()
      | Some o1 \<Rightarrow> try_then (io_step (an_db env) 3) (\<lambda>_.
          reject_duplicate_oauth_identity (sn_organization_uuid (ex_snapshot o1)) (Some i) db))"
    by (rule answers_option, simp, rule answers_try [OF answers_io [OF expected_io TrueI]], assumption,
        rule duplicate_answers)
  note step = answers_try [where P = "changed_only i (acc_auth_source (ui_existing ui)) db", OF answers_field]
  note late = answers_try [where P = "changed_only i (effective_auth ui) db"]
  show ?thesis
    unfolding update_tx_def Let_def
    apply (rule answers_try [OF answers_io [OF expected_io TrueI]], assumption)
    apply (rule answers_try [OF dup])
    apply (rule step, rule c0, rule column_answers(1), rule c0)
    apply (rule step, assumption, rule column_answers(2), assumption)
    apply (rule step, assumption, rule column_answers(3), assumption, erule slots)
    apply (rule step, assumption, rule column_answers(4), assumption, clarsimp, rule subsetD [OF px], simp)
    apply (rule step, assumption, rule column_answers(5), assumption)
    apply (rule step, assumption, rule column_answers(6), assumption, erule st)
    apply (rule late, erule update_credentials_answers)
    apply (rule late, erule update_mimicry_answers)
    apply (rule late, rule answers_field, assumption, rule column_answers(7), assumption)
    apply (rule answers_commit [OF expected_io], assumption+)
    done
qed

lemma snapshot_accounts [simp]: "accounts (batch_upsert_runtime_states x st db) = accounts db"
  by (simp add: batch_upsert_runtime_states_def)

lemma changed_only_upsert [simp]:
  "changed_only i s db0 (batch_upsert_runtime_states x st db) = changed_only i s db0 db"
  by (simp add: batch_upsert_runtime_states_def)

lemma changed_only_metadata:
  assumes c: "changed_only i s db0 db"
  shows "changed_only i s db0 (update_account_metadata_unchecked i mu db)"
proof -
  let ?f = "\<lambda>a. (apply_metadata mu a)\<lparr>a_invalid_reason := None\<rparr>"
  have f: "fitting db i s s ?f"
    by (simp add: fitting_def apply_metadata_def account_checks_def account_mutex_def proxy_known_def)
  have k: "cookies_ok (update_where (\<lambda>a. a_id a = i) ?f db)"
    by (rule cookies_ok_plain [OF changed_only_cookies [OF c]]) (simp add: apply_metadata_def)
  have "map a_name (accounts (update_where (\<lambda>a. a_id a = i) ?f db)) = map a_name (accounts db)"
    "map a_rr_order (accounts (update_where (\<lambda>a. a_id a = i) ?f db)) = map a_rr_order (accounts db)"
    by (intro map_update_where; simp add: apply_metadata_def)+
  with write_fitting(3) [OF c f k] have "write_account i ?f db = Inr (update_where (\<lambda>a. a_id a = i) ?f db)"
    by (auto simp: write_account_def)
  from write_fitting(2) [OF c f k this] show ?thesis by (simp add: update_account_metadata_unchecked_def)
qed

lemma update_checked_fits: "update_checked env i req db = Inr ui \<Longrightarrow> update_fits i req ui db"
  using update_checked_answers [of env i req db] by simp

lemma update_checked_error: "update_checked env i req db = Inl e \<Longrightarrow> expected_error env e"
  using update_checked_answers [of env i req db] by simp

lemma update_tx_cases:
  assumes "tables_ok db" "update_fits i req ui db"
  obtains e where "update_tx env i req ui db = Inl e" "expected_error env e"
  | db' where "update_tx env i req ui db = Inr db'" "changed_only i (effective_auth ui) db db'"
  using update_tx_answers [OF assms, of env] by (cases "update_tx env i req ui db") auto

lemma account_present: "update_fits i req ui db \<Longrightarrow> changed_only i s db db' \<Longrightarrow> i \<in> set (map a_id (accounts db'))"
  by (auto simp: update_fits_def changed_only_def)

text \<open>The result of a change, as one predicate.\<close>

definition change_outcome ::
    "'u accounts_env \<Rightarrow> i64 \<Rightarrow> UpdateAccountRequest \<Rightarrow> database \<Rightarrow> (ClewdrError + unit) \<times> database \<times> bool \<Rightarrow> bool" where
  "change_outcome env i req db out \<longleftrightarrow>
     (case out of
        (Inl e, db', reload) \<Rightarrow>
          expected_error env e \<and> \<not> reload \<and> (db' = db \<or> de_io (an_db env) 15 = Some e \<or> de_io (an_db env) 16 = Some e)
      | (Inr _, db', reload) \<Rightarrow>
          reload \<and> (\<exists>ui. update_checked env i req db = Inr ui \<and> changed_only i (effective_auth ui) db db'))"

lemma change_outcome_update:
  assumes ok: "tables_ok db"
  shows "change_outcome env i req db (update_account env i req db db)"
proof (cases "update_checked env i req db")
  case (Inl e)
  then show ?thesis using update_checked_error [OF Inl] by (simp add: change_outcome_def update_account_def)
next
  case (Inr ui)
  note fits = update_checked_fits [OF Inr]
  show ?thesis
  proof (rule update_tx_cases [OF ok fits, of env])
    fix e assume "update_tx env i req ui db = Inl e" "expected_error env e"
    then show ?thesis by (simp add: change_outcome_def update_account_def Inr)
  next
    fix db1 assume tx: "update_tx env i req ui db = Inr db1" "changed_only i (effective_auth ui) db db1"
    show ?thesis
    proof (cases "ui_oauth ui")
      case None
      with tx Inr show ?thesis by (simp add: change_outcome_def update_account_def)
    next
      case (Some o1)
      let ?db2 = "update_account_metadata_unchecked i (oauth_metadata o1) db1"
      have c2: "changed_only i (effective_auth ui) db ?db2" by (rule changed_only_metadata [OF tx(2)])
      note present = account_present [OF fits c2]
      show ?thesis
        using tx(1) Inr Some c2 present expected_io [of env 15] expected_io [of env 16]
        by (cases "de_io (an_db env) 15"; cases "de_io (an_db env) 16")
          (auto simp: change_outcome_def update_account_def sql_def io_step_def upsert_snapshot_def)
    qed
  qed
qed

section \<open>Creation\<close>

definition created_row :: "'u accounts_env \<Rightarrow> CreateAccountRequest \<Rightarrow> create_inputs \<Rightarrow> i64 \<Rightarrow> account_row" where
  "created_row env req ci rr =
     new_account env req rr (ci_max_slots ci) (map_option fst (ci_proxy ci)) (ci_source ci) (ci_cookie ci) (ci_oauth ci)
       (ci_base_url ci) (ci_secret ci) (ci_mimicry ci)"

definition create_fits :: "'u accounts_env \<Rightarrow> CreateAccountRequest \<Rightarrow> create_inputs \<Rightarrow> database \<Rightarrow> bool" where
  "create_fits env req ci db \<longleftrightarrow>
     account_checks (created_row env req ci 0) \<and> set_option (map_option fst (ci_proxy ci)) \<subseteq> hm_keys (proxies db)"

lemma created_row_checks: "account_checks (created_row env req ci rr) = account_checks (created_row env req ci 0)"
  by (simp add: created_row_def new_account_def account_checks_def account_mutex_def Let_def)

lemma create_inputs_fit:
  assumes "\<not> m \<le> 0" and "map_option fst px = positive_id p \<and> set_option (positive_id p) \<subseteq> hm_keys (proxies db)"
    and api: "api = submits_api_key base secret (ca_api_key_extra_headers req) (ca_api_key_extra_body req)"
    and "\<not> 1 < of_bool (c \<noteq> None) + of_bool (input \<noteq> None) + (of_bool api :: nat)"
    and "(o1 = None) = (input = None)"
    and s: "s = (if c \<noteq> None then ''cookie'' else if o1 \<noteq> None then ''oauth'' else if api then ''api_key'' else the None)
      \<and> (None = None \<longrightarrow> c \<noteq> None \<or> o1 \<noteq> None \<or> api)"
    and "(url = None) = (base = None)"
    and "\<not> (s = ''api_key'' \<and> url = None)" "\<not> (s = ''api_key'' \<and> secret = None)"
    and "case mi of (md, cfg) \<Rightarrow> md = ''none'' \<and> cfg = None \<or> md = ''third_party'' \<and> cfg \<noteq> None \<and> s = ''api_key''"
  shows "create_fits env req \<lparr>ci_max_slots = m, ci_proxy = px, ci_cookie = c, ci_base_url = url, ci_secret = secret,
      ci_oauth = o1, ci_source = s, ci_mimicry = mi\<rparr> db"
proof -
  consider "c \<noteq> None" "o1 = None" "\<not> api" | "c = None" "o1 \<noteq> None" "\<not> api" | "c = None" "o1 = None" "api"
    using assms(4,5) s by (cases "c = None"; cases "input = None"; cases api) auto
  then show ?thesis
  proof cases
    case 1
    with assms show ?thesis
      by (auto simp: create_fits_def created_row_def new_account_def account_checks_def account_mutex_def Let_def
          submits_api_key_def)
  next
    case 2
    with assms show ?thesis
      by (auto simp: create_fits_def created_row_def new_account_def account_checks_def account_mutex_def Let_def
          submits_api_key_def)
  next
    case 3
    with assms show ?thesis
      by (auto simp: create_fits_def created_row_def new_account_def account_checks_def account_mutex_def Let_def)
  qed
qed

lemma create_checked_answers:
  "answers (expected_error env) (\<lambda>ci. create_fits env req ci db) (create_checked env req db)"
  unfolding create_checked_def Let_def
  apply (rule answers_if, simp)
  apply (rule answers_try [OF resolve_proxy_url_answers])
  apply (rule answers_try [OF normalize_cookie_answers])
  apply (rule answers_try [OF api_key_answers])
  apply (rule answers_if, simp add: one_credential_def)
  apply (rule answers_try [OF submitted_oauth_answers])
  apply (rule answers_try [OF derive_answers])
  apply (rule answers_if, simp)
  apply (rule answers_if, simp)
  apply (rule answers_try [OF resolve_mimicry_answers])
  apply (unfold answers_simps)
  apply (erule create_inputs_fit, assumption, rule refl, assumption+)
  done

lemma created_proxy: "create_fits env req ci db \<Longrightarrow> proxy_known (hm_keys (proxies db)) (created_row env req ci rr)"
  by (simp add: create_fits_def created_row_def new_account_def proxy_known_def Let_def)

definition account_added :: "'u accounts_env \<Rightarrow> CreateAccountRequest \<Rightarrow> create_inputs \<Rightarrow> database \<Rightarrow> database \<Rightarrow> bool" where
  "account_added env req ci db db' \<longleftrightarrow>
     tables_ok db'
     \<and> (\<exists>rr. accounts db' = accounts db @ [(created_row env req ci rr)\<lparr>a_id := next_id (map a_id (accounts db))\<rparr>])
     \<and> proxies db' = proxies db \<and> request_logs db' = request_logs db"

lemma cookies_ok_added:
  assumes ok: "cookies_ok db" and free: "\<And>c. a_cookie_blob r = Some c \<Longrightarrow> \<not> cookie_used (\<lambda>_. True) c db"
  shows "cookies_ok (db\<lparr>accounts := accounts db @ [r\<lparr>a_id := next_id (map a_id (accounts db))\<rparr>]\<rparr>)" (is "cookies_ok ?db")
  unfolding cookies_ok_def
proof (intro conjI ballI impI, goal_cases)
  case 1
  show ?case using ok next_id_fresh [of "map a_id (accounts db)"] by (simp add: cookies_ok_def)
next
  case (2 x y)
  let ?a = "r\<lparr>a_id := next_id (map a_id (accounts db))\<rparr>"
  obtain c where c: "a_cookie_blob x = Some c" "a_cookie_blob y = Some c" using 2 by auto
  from 2 have m: "x = ?a \<or> x \<in> set (accounts db)" "y = ?a \<or> y \<in> set (accounts db)" by auto
  have new: False if "a_cookie_blob r = Some c" "z \<in> set (accounts db)" "a_cookie_blob z = Some c" for z
    using free [OF that(1)] that(2,3) by (auto simp: cookie_used_def list_ex_iff)
  from m show ?case
  proof (elim disjE)
    assume "x = ?a" "y \<in> set (accounts db)"
    with c new [of y] show ?thesis by simp
  next
    assume "y = ?a" "x \<in> set (accounts db)"
    with c new [of x] show ?thesis by simp
  qed (use c ok in \<open>auto intro: cookies_okD\<close>)
qed

lemma insert_created:
  assumes ok: "tables_ok db" and f: "create_fits env req ci db"
    and free: "\<And>c. ci_cookie ci = Some c \<Longrightarrow> \<not> cookie_used (\<lambda>_. True) c db"
  shows "insert_account (created_row env req ci rr) db \<noteq> Inl Constraint_Error"
    and "insert_account (created_row env req ci rr) db = Inr db' \<Longrightarrow> account_added env req ci db db'"
proof -
  let ?k = "next_id (map a_id (accounts db))" and ?r = "created_row env req ci rr"
  let ?a = "?r\<lparr>a_id := ?k\<rparr>" and ?db = "db\<lparr>accounts := accounts db @ [?r\<lparr>a_id := ?k\<rparr>]\<rparr>"
  have same: "account_checks ?a = account_checks ?r" "proxy_known P ?a = proxy_known P ?r" for P
    by (simp_all add: account_checks_def account_mutex_def proxy_known_def)
  have ch: "account_checks ?a" using f unfolding same created_row_checks [of env req ci rr] by (simp add: create_fits_def)
  have fit: "accounts_fit ?db" "list_all account_checks (accounts ?db)"
    using ok ch created_proxy [OF f, of rr] by (simp_all add: accounts_fit_def tables_ok_def same)
  then show "insert_account ?r db \<noteq> Inl Constraint_Error" by (simp add: insert_account_def checked_tables_def)
  have "a_cookie_blob ?r = ci_cookie ci" by (simp add: created_row_def new_account_def Let_def)
  with ok free have "cookies_ok ?db" by (intro cookies_ok_added) (simp_all add: tables_ok_def)
  with fit show "insert_account ?r db = Inr db' \<Longrightarrow> account_added env req ci db db'"
    by (auto simp: insert_account_def account_added_def tables_ok_def)
qed

lemma create_tx_answers:
  assumes ok: "tables_ok db" and f: "create_fits env req ci db"
  shows "answers (expected_error env) (account_added env req ci db) (create_tx env req ci db)"
proof -
  have dup: "answers (expected_error env) (\<lambda>_. \<forall>c. ci_cookie ci = Some c \<longrightarrow> \<not> cookie_used (\<lambda>_. True) c db)
      (case ci_cookie ci of None \<Rightarrow> Inr ()
       | Some blob \<Rightarrow> try_then (io_step (an_db env) 2)
           (\<lambda>_. if cookie_used (\<lambda>_. True) blob db then Inl (Conflict cookie_taken) else Inr ()))"
    by (rule answers_option, simp, rule answers_try [OF answers_io [OF expected_io TrueI]], assumption) simp
  have org: "answers (expected_error env) (\<lambda>_. True) (case ui of None \<Rightarrow> Inr ()
      | Some o1 \<Rightarrow> try_then (io_step (an_db env) 3) (\<lambda>_.
          reject_duplicate_oauth_identity (sn_organization_uuid (ex_snapshot o1)) None db))" for ui
    by (rule answers_option, simp, rule answers_try [OF answers_io [OF expected_io TrueI]], assumption,
        rule duplicate_answers)
  have rr: "answers (expected_error env) (\<lambda>_. True) (case ca_rr_order req of Some v \<Rightarrow> Inr v
      | None \<Rightarrow> map_sum id (\<lambda>_. next_rr_order db) (io_step (an_db env) 4))"
    by (rule answers_option, rule answers_commit [OF expected_io], assumption, rule TrueI, simp)
  have ins: "answers (expected_error env) (account_added env req ci db)
      (sql_unique (an_db env) 5 (Conflict m) (insert_account (created_row env req ci r) db))"
    if "\<forall>c. ci_cookie ci = Some c \<longrightarrow> \<not> cookie_used (\<lambda>_. True) c db" for r m
  proof (rule answers_unique)
    show "\<And>e. de_io (an_db env) 5 = Some e \<Longrightarrow> expected_error env e" by (rule expected_io)
  qed (use insert_created [OF ok f, of r] that in auto)
  show ?thesis
    unfolding create_tx_def Let_def created_row_def [symmetric]
    apply (rule answers_try [OF answers_io [OF expected_io TrueI]], assumption)
    apply (rule answers_try [OF dup])
    apply (rule answers_try [OF org])
    apply (rule answers_try [OF rr])
    apply (rule answers_try [OF ins], assumption)
    apply (rule answers_commit [OF expected_io], assumption+)
    done
qed

definition create_outcome ::
    "'u accounts_env \<Rightarrow> CreateAccountRequest \<Rightarrow> database \<Rightarrow> (ClewdrError + i64) \<times> database \<times> bool \<Rightarrow> bool" where
  "create_outcome env req db out \<longleftrightarrow>
     (case out of
        (Inl e, db', reload) \<Rightarrow> expected_error env e \<and> \<not> reload \<and> (db' = db \<or> de_io (an_db env) 7 = Some e)
      | (Inr k, db', reload) \<Rightarrow>
          reload \<and> k = next_id (map a_id (accounts db))
          \<and> (\<exists>ci. create_checked env req db = Inr ci \<and> account_added env req ci db db'))"

lemma account_added_upsert [simp]:
  "account_added env req ci db (batch_upsert_runtime_states x st db') = account_added env req ci db db'"
  by (simp add: account_added_def batch_upsert_runtime_states_def tables_ok_def accounts_fit_def accounts_unique_def
      cookies_ok_def)

lemma create_outcome_create:
  assumes ok: "tables_ok db"
  shows "create_outcome env req db (create_account env req db db)"
proof (cases "create_checked env req db")
  case (Inl e)
  then have "expected_error env e" using create_checked_answers [of env req db] by simp
  with Inl show ?thesis by (simp add: create_outcome_def create_account_def)
next
  case (Inr ci)
  then have f: "create_fits env req ci db" using create_checked_answers [of env req db] by simp
  note tx = create_tx_answers [OF ok f]
  show ?thesis
  proof (cases "create_tx env req ci db")
    case (Inl e)
    with tx Inr show ?thesis by (simp add: create_outcome_def create_account_def)
  next
    case (Inr db1)
    with tx have a: "account_added env req ci db db1" by simp
    then have "next_id (map a_id (accounts db)) \<in> set (map a_id (accounts db1))" by (auto simp: account_added_def)
    with a Inr \<open>create_checked env req db = Inr ci\<close> expected_io [of env 7] show ?thesis
      by (cases "ci_oauth ci"; cases "de_io (an_db env) 7")
        (auto simp: create_outcome_def create_account_def sql_def io_step_def upsert_snapshot_def Let_def)
  qed
qed

section \<open>All handlers, in any order\<close>

text \<open>
  An event carries its environment, so that any statement may fail at any time, and the tables as they were when
  the request was checked. \<open>Elsewhere\<close>: any statement of the program that leaves the credentials alone.
\<close>

datatype 'u account_event =
    Create_Account "'u accounts_env" CreateAccountRequest database
  | Update_Account "'u accounts_env" i64 UpdateAccountRequest database
  | Remove_Account "'u accounts_env" i64
  | Elsewhere database

inductive account_step :: "database \<Rightarrow> 'u account_event \<Rightarrow> database \<Rightarrow> bool" where
  step_create: "create_account env req old db = (r, db', reload) \<Longrightarrow> account_step db (Create_Account env req old) db'"
| step_update: "update_account env i req old db = (r, db', reload) \<Longrightarrow> account_step db (Update_Account env i req old) db'"
| step_remove: "remove_account env i db = (r, db', reload) \<Longrightarrow> account_step db (Remove_Account env i) db'"
| step_elsewhere: "credentials db' = credentials db \<Longrightarrow> account_step db (Elsewhere db') db'"

text \<open>What a chain keeps, whatever the tables of the checks were.\<close>

abbreviation keeps_cookies :: "ClewdrError + database \<Rightarrow> bool" where
  "keeps_cookies \<equiv> answers (\<lambda>_. True) cookies_ok"

lemma any_answer: "answers (\<lambda>_. True) (\<lambda>_. True) x"
  by (cases x) simp_all

lemma keeps_write:
  assumes "cookies_ok db" and "\<And>a. a_id (f a) = a_id a \<and> (a_cookie_blob (f a) = None \<or> a_cookie_blob (f a) = a_cookie_blob a)"
  shows "keeps_cookies (sql env n (write_account i f db))" "keeps_cookies (sql_unique env n e (write_account i f db))"
proof -
  have "cookies_ok db'" if "write_account i f db = Inr db'" for db'
    using that cookies_ok_plain [OF assms] by (simp add: write_account_def)
  then show "keeps_cookies (sql env n (write_account i f db))" "keeps_cookies (sql_unique env n e (write_account i f db))"
    by (auto intro!: answers_sql answers_unique)
qed

lemma cookies_ok_runtime [simp]: "cookies_ok (db\<lparr>runtime_state := r\<rparr>) = cookies_ok db"
  by (simp add: cookies_ok_def)

lemma update_credentials_cookies:
  assumes ok: "cookies_ok db"
  shows "keeps_cookies (update_credentials env i req ui db)"
proof -
  have cookie: "keeps_cookies (try_then (io_step (an_db env) 10)
      (\<lambda>_. if cookie_used (\<lambda>j. j \<noteq> i) blob db then Inl (Conflict cookie_taken)
         else sql (an_db env) 11 (write_account i (use_cookie blob) db)))" for blob
    by (rule answers_try [OF any_answer], rule answers_if, simp, rule answers_sql)
      (simp_all add: write_account_def cookies_ok_use_cookie [OF ok])
  have oauth: "keeps_cookies (sql (an_db env) 10 (write_account i (use_oauth env o1) db))" for o1
    by (rule keeps_write [OF ok]) (simp add: credential_writes)
  have key: "keeps_cookies (sql (an_db env) 10 (write_account i (use_api_key url secret headers body) db))"
    for url secret headers body
    by (rule keeps_write [OF ok]) (simp add: credential_writes)
  have switch: "keeps_cookies (if b then sql (an_db env) 11 (Inr (db1\<lparr>runtime_state := hm_remove i (runtime_state db1)\<rparr>))
      else Inr db1)" if "cookies_ok db1" for b db1
    using that by (auto intro!: answers_sql)
  show ?thesis
  proof (cases "ui_cookie ui"; cases "ui_oauth ui"; cases "ui_api_key ui")
    assume n: "ui_cookie ui = None" "ui_oauth ui = None" "ui_api_key ui"
    then show ?thesis
      by (simp only: update_credentials_def Let_def prod.case option.case if_False not_True_eq_False)
        (rule answers_try [OF any_answer], rule answers_try [OF any_answer], rule answers_try [OF key], erule switch)
  qed (use cookie oauth ok in \<open>simp_all add: update_credentials_def Let_def\<close>)
qed

lemma update_mimicry_cookies: "cookies_ok db \<Longrightarrow> keeps_cookies (update_mimicry env i req ui db)"
  unfolding update_mimicry_def case_prod_beta
  by (rule answers_if, simp, rule answers_try [OF any_answer], rule keeps_write) simp_all

lemma update_tx_cookies:
  assumes ok: "cookies_ok db"
  shows "keeps_cookies (update_tx env i req ui db)"
proof -
  note step = answers_try [where P = cookies_ok, OF answers_field]
  note late = answers_try [where P = cookies_ok]
  show ?thesis
    unfolding update_tx_def Let_def
    apply (rule answers_try [OF any_answer])
    apply (rule answers_try [OF any_answer])
    apply (rule step, rule ok, rule keeps_write, rule ok, simp)
    apply (rule step, assumption, erule keeps_write, simp)
    apply (rule step, assumption, erule keeps_write, simp)
    apply (rule step, assumption, erule keeps_write, simp)
    apply (rule step, assumption, erule keeps_write, simp)
    apply (rule step, assumption, erule keeps_write, simp add: set_status_def)
    apply (rule late, erule update_credentials_cookies)
    apply (rule late, erule update_mimicry_cookies)
    apply (rule late, rule answers_field, assumption, erule keeps_write, simp)
    apply (simp add: io_step_def split: option.split)
    done
qed

lemma create_tx_cookies:
  assumes ok: "cookies_ok db"
  shows "keeps_cookies (create_tx env req ci db)"
proof -
  have dup: "answers (\<lambda>_. True) (\<lambda>_. \<forall>c. ci_cookie ci = Some c \<longrightarrow> \<not> cookie_used (\<lambda>_. True) c db)
      (case ci_cookie ci of None \<Rightarrow> Inr ()
       | Some blob \<Rightarrow> try_then (io_step (an_db env) 2)
           (\<lambda>_. if cookie_used (\<lambda>_. True) blob db then Inl (Conflict cookie_taken) else Inr ()))"
    by (rule answers_option, simp, rule answers_try [OF any_answer]) simp
  have ins: "keeps_cookies (sql_unique (an_db env) 5 (Conflict m) (insert_account (created_row env req ci rr) db))"
    if "\<forall>c. ci_cookie ci = Some c \<longrightarrow> \<not> cookie_used (\<lambda>_. True) c db" for m rr
  proof -
    have "a_cookie_blob (created_row env req ci rr) = ci_cookie ci"
      by (simp add: created_row_def new_account_def Let_def)
    with cookies_ok_added [OF ok, of "created_row env req ci rr"] that show ?thesis
      by (intro answers_unique) (auto simp: insert_account_def)
  qed
  show ?thesis
    unfolding create_tx_def Let_def created_row_def [symmetric]
    apply (rule answers_try [OF any_answer], rule answers_try [OF dup])
    apply (rule answers_try [OF any_answer], rule answers_try [OF any_answer])
    apply (rule answers_try [OF ins], assumption)
    apply (simp add: io_step_def split: option.split)
    done
qed

lemma create_cookies:
  assumes ok: "cookies_ok db"
  shows "cookies_ok (fst (snd (create_account env req old db)))"
proof (cases "create_checked env req old")
  case (Inr ci)
  show ?thesis
  proof (cases "create_tx env req ci db")
    case (Inr db1)
    with create_tx_cookies [OF ok, of env req ci] have "cookies_ok db1" by simp
    with Inr \<open>create_checked env req old = Inr ci\<close> show ?thesis
      by (auto simp: create_account_def Let_def sql_def io_step_def upsert_snapshot_def batch_upsert_runtime_states_def
          split: option.split)
  qed (use ok Inr in \<open>simp add: create_account_def\<close>)
qed (use ok in \<open>simp add: create_account_def\<close>)

lemma update_cookies:
  assumes ok: "cookies_ok db"
  shows "cookies_ok (fst (snd (update_account env i req old db)))"
proof (cases "update_checked env i req old")
  case (Inr ui)
  show ?thesis
  proof (cases "update_tx env i req ui db")
    case (Inr db1)
    with update_tx_cookies [OF ok, of env i req ui] have ok1: "cookies_ok db1" by simp
    have "cookies_ok (update_account_metadata_unchecked i mu db1)" for mu
      unfolding update_account_metadata_unchecked_def
      by (rule cookies_ok_plain [OF ok1]) (simp add: apply_metadata_def)
    with ok1 Inr \<open>update_checked env i req old = Inr ui\<close> show ?thesis
      by (auto simp: update_account_def sql_def io_step_def upsert_snapshot_def batch_upsert_runtime_states_def
          split: option.split)
  qed (use ok Inr in \<open>simp add: update_account_def\<close>)
qed (use ok in \<open>simp add: update_account_def\<close>)

lemma delete_cookies:
  assumes "cookies_ok db"
  shows "cookies_ok (delete_account i db)"
proof -
  have "set (filter (\<lambda>a. a_id a \<noteq> i) (accounts db)) \<subseteq> set (accounts db)" by simp
  moreover have "distinct (map a_id (filter (\<lambda>a. a_id a \<noteq> i) (accounts db)))"
    using assms by (simp add: cookies_ok_def distinct_map_filter)
  moreover have "accounts (delete_account i db) = filter (\<lambda>a. a_id a \<noteq> i) (accounts db)"
    by (simp add: delete_account_def)
  ultimately show ?thesis
    using assms unfolding cookies_ok_def by (simp only:) (meson subsetD)
qed

lemma remove_cookies: "cookies_ok db \<Longrightarrow> cookies_ok (fst (snd (remove_account env i db)))"
  by (cases "de_io (an_db env) 0") (simp_all add: remove_account_def io_step_def delete_cookies)

text \<open>The invariant depends on the credentials alone.\<close>

lemma cookies_ok_credentials:
  assumes "credentials db' = credentials db" and "cookies_ok db"
  shows "cookies_ok db'"
proof -
  have ids: "map a_id (accounts d) = map fst (credentials d)"
    and bl: "map (\<lambda>a. (a_id a, a_cookie_blob a)) (accounts d) = map (\<lambda>c. (fst c, fst (snd (snd c)))) (credentials d)" for d
    by (simp_all add: credentials_def credential_cols_def)
  have ok: "cookies_ok d \<longleftrightarrow> distinct (map a_id (accounts d))
      \<and> (\<forall>p \<in> set (map (\<lambda>a. (a_id a, a_cookie_blob a)) (accounts d)).
          \<forall>q \<in> set (map (\<lambda>a. (a_id a, a_cookie_blob a)) (accounts d)).
            snd p \<noteq> None \<and> snd q = snd p \<longrightarrow> fst q = fst p)" for d
    by (simp add: cookies_ok_def)
  show ?thesis using assms(2) unfolding ok [of db] ok [of db'] ids bl assms(1) .
qed

lemma account_step_cookies: "account_step db e db' \<Longrightarrow> cookies_ok db \<Longrightarrow> cookies_ok db'"
proof (induction rule: account_step.induct)
  case (step_create env req old db r db' reload)
  with create_cookies [of db env req old] show ?case by simp
next
  case (step_update env i req old db r db' reload)
  with update_cookies [of db env i req old] show ?case by simp
next
  case (step_remove env i db r db' reload)
  with remove_cookies [of db env i] show ?case by simp
next
  case (step_elsewhere db' db)
  then show ?case by (rule cookies_ok_credentials)
qed

interpretation account_machine: invariant_machine account_step cookies_ok
  by unfold_locales (rule account_step_cookies)

section \<open>Properties\<close>

text \<open>
  On tables that satisfy their constraints, the creation of an account answers every request that cannot be stored
  with an error of the client (or the error of the OAuth exchange or of the driver), never with a violated constraint,
  and then leaves the tables alone; otherwise one active row with a fresh id is appended, the constraints hold and the
  pool is reloaded. Only a failure of the last statement, after the commit, leaves the row without a reload.
\<close>

theorem account_created_or_refused:
  assumes "tables_ok db" and "create_account env req db db = (r, db', reload)"
  shows "case r of
      Inl e \<Rightarrow> expected_error env e \<and> \<not> reload \<and> (db' = db \<or> de_io (an_db env) 7 = Some e)
    | Inr k \<Rightarrow> reload \<and> tables_ok db' \<and> k \<notin> set (map a_id (accounts db))
        \<and> (\<exists>a. accounts db' = accounts db @ [a] \<and> a_id a = k \<and> a_name a = ca_name req \<and> a_status a = ''active'')"
proof -
  have "create_outcome env req db (r, db', reload)" using create_outcome_create [OF assms(1), of env req] assms(2) by simp
  moreover have "a_name (created_row env req ci rr) = ca_name req" "a_status (created_row env req ci rr) = ''active''" for ci rr
    by (simp_all add: created_row_def new_account_def Let_def)
  ultimately show ?thesis
    using next_id_fresh [of "map a_id (accounts db)"]
    by (cases r) (auto simp: create_outcome_def account_added_def)
qed

text \<open>
  On tables that satisfy their constraints, a change of an account is refused with an error of the client (or of
  the OAuth exchange or the driver), never because a constraint is violated, and then leaves the tables alone unless a
  statement after the commit fails; otherwise the constraints hold again, every other account is untouched, the
  account has the submitted kind of credential (the one it had when none is submitted), and the pool is reloaded.
\<close>

theorem account_changed_or_refused:
  assumes "tables_ok db" and "update_account env i req db db = (r, db', reload)"
  shows "case r of
      Inl e \<Rightarrow> expected_error env e \<and> \<not> reload
        \<and> (db' = db \<or> de_io (an_db env) 15 = Some e \<or> de_io (an_db env) 16 = Some e)
    | Inr _ \<Rightarrow> reload \<and> tables_ok db' \<and> map a_id (accounts db') = map a_id (accounts db)
        \<and> filter (\<lambda>a. a_id a \<noteq> i) (accounts db') = filter (\<lambda>a. a_id a \<noteq> i) (accounts db)
        \<and> (\<exists>ui. update_checked env i req db = Inr ui
            \<and> (\<forall>a \<in> set (accounts db'). a_id a = i \<longrightarrow> a_auth_source a = effective_auth ui))"
proof -
  have "change_outcome env i req db (r, db', reload)" using change_outcome_update [OF assms(1), of env i req] assms(2) by simp
  then show ?thesis by (cases r) (auto simp: change_outcome_def changed_only_def)
qed

text \<open>
  C26: Whatever the handlers on accounts do, in any order, with any failing statement, whatever the tables were when a
  request was checked, and between any statements of the program that leave credentials alone, two accounts never
  have the same cookie.
\<close>

theorem cookies_never_shared:
  assumes "cookies_ok db" and "run account_step db es db'"
    and "a \<in> set (accounts db')" "b \<in> set (accounts db')" and "a_cookie_blob a = Some c" "a_cookie_blob b = Some c"
  shows "a = b"
proof -
  have ok: "cookies_ok db'" using account_machine.run_inv [OF assms(2,1)] .
  then have "distinct (map a_id (accounts db'))" by (simp add: cookies_ok_def)
  moreover have "a_id b = a_id a" by (rule cookies_okD [OF ok assms(3-6)])
  ultimately show ?thesis using assms(3,4) by (metis distinct_map inj_onD)
qed

section \<open>Samples\<close>

definition sample_accounts :: "string accounts_env" where
  "sample_accounts =
     \<lparr>an_db = sample_db_env, an_ext = sample_ext,
      an_url = \<lparr>u_parse = Inr, u_scheme = (\<lambda>_. ''https''), u_path = (\<lambda>_. ''/''), u_set_path = (\<lambda>u _. u)\<rparr>,
      an_url_str = (\<lambda>u. u), an_headers_json = (\<lambda>_. ''{..}''), an_headers_of = (\<lambda>_. None), an_json_text = (\<lambda>_. ''{..}''),
      an_json_of = (\<lambda>_. None), an_config_json = (\<lambda>_. ''{..}''), an_config_of = (\<lambda>_. None), an_format_time = show_i64,
      an_exchange = (\<lambda>_ _ _. Inl (BadRequest ''OAuth callback'')), an_instant = 0\<rparr>"

definition no_request :: CreateAccountRequest where
  "no_request =
     \<lparr>ca_name = ''new'', ca_rr_order = None, ca_max_slots = None, ca_proxy_id = None, ca_drain_first = None,
      ca_auth_source = None, ca_cookie_blob = None, ca_oauth_callback_input = None, ca_oauth_state = None,
      ca_organization_uuid = None, ca_api_key_base_url = None, ca_api_key_secret = None,
      ca_api_key_extra_headers = None, ca_api_key_extra_body = None, ca_mimicry_mode = None, ca_mimicry_config = None\<rparr>"

definition no_change :: UpdateAccountRequest where
  "no_change =
     \<lparr>ua_name = None, ua_rr_order = None, ua_max_slots = None, ua_proxy_id = None, ua_drain_first = None,
      ua_status = None, ua_auth_source = None, ua_cookie_blob = None, ua_oauth_callback_input = None,
      ua_oauth_state = None, ua_organization_uuid = None, ua_api_key_base_url = None, ua_api_key_secret = None,
      ua_api_key_extra_headers = None, ua_api_key_extra_body = None, ua_mimicry_mode = None, ua_mimicry_config = None\<rparr>"

text \<open>A relay account and a cookie account.\<close>

definition two_accounts :: database where
  "two_accounts =
     sample_db\<lparr>accounts :=
       [use_api_key ''https://relay/'' ''secret'' None None (sample_row 1),
        use_cookie ''cookie'' ((sample_row 2)\<lparr>a_name := ''second''\<rparr>)]\<rparr>"

lemma two_accounts_ok: "tables_ok two_accounts"
  by code_simp

definition relay_request :: CreateAccountRequest where
  "relay_request = no_request\<lparr>ca_api_key_base_url := Some ''https://other/'', ca_api_key_secret := Some ''key''\<rparr>"

definition cloak_request :: UpdateAccountRequest where
  "cloak_request = no_change\<lparr>ua_mimicry_mode := Some ''third_party''\<rparr>"

text \<open>Evaluation of a chain from the outside in: what follows a step is not looked at before the step is evaluated.\<close>

lemma try_then_weak: "x = y \<Longrightarrow> try_then x f = try_then y f"
  by simp

lemma sample_trims:
  "trim ''third_party'' = ''third_party''" "trim ''https://other/'' = ''https://other/''" "trim ''key'' = ''key''"
  "trim ''rotated'' = ''rotated''" "trim ''code'' = ''code''"
  by code_simp+

lemmas account_evaluation =
  create_account_def create_checked_def create_tx_def update_account_def update_checked_def update_tx_def
  update_credentials_def update_mimicry_def effective_auth_def kept_or_def
  io_step_def sql_def sql_unique_def set_field_def normalize_optional_def normalize_cookie_blob_def positive_id_def
  resolve_proxy_url_def submits_api_key_def check_api_key_inputs_def normalize_api_key_base_url_def submitted_oauth_def
  derive_auth_source_def auth_sources_def resolve_mimicry_def validate_third_party_config_def default_mimicry_config_def
  get_account_by_id_def load_all_accounts_def load_account_def load_proxy_url_def write_account_def insert_account_def
  checked_tables_def accounts_unique_def accounts_fit_def account_checks_def account_mutex_def proxy_known_def
  new_account_def next_rr_order_def next_id_def i64_wrap_def set_status_def credential_writes sample_trims
  no_request_def no_change_def relay_request_def cloak_request_def sample_accounts_def sample_db_env_def
  two_accounts_def sample_db_def sample_row_def Let_def


lemma relay_created:
  "create_account sample_accounts relay_request two_accounts two_accounts
     = (Inr 3, fst (snd (create_account sample_accounts relay_request two_accounts two_accounts)), True)"
  by (simp add: account_evaluation cong: try_then_weak)

theorem account_created_or_refused_witness:
  "tables_ok (fst (snd (create_account sample_accounts relay_request two_accounts two_accounts)))
   \<and> (3 :: i64) \<notin> set (map a_id (accounts two_accounts))
   \<and> (\<exists>a. accounts (fst (snd (create_account sample_accounts relay_request two_accounts two_accounts)))
           = accounts two_accounts @ [a] \<and> a_id a = 3 \<and> a_name a = ''new'' \<and> a_status a = ''active'')"
  using account_created_or_refused [OF two_accounts_ok relay_created] by (simp add: relay_request_def no_request_def)

lemma cloak_applied:
  "update_account sample_accounts 1 cloak_request two_accounts two_accounts
     = (Inr (), fst (snd (update_account sample_accounts 1 cloak_request two_accounts two_accounts)), True)"
  by (simp add: account_evaluation cong: try_then_weak)

theorem account_changed_or_refused_witness:
  "tables_ok (fst (snd (update_account sample_accounts 1 cloak_request two_accounts two_accounts)))
   \<and> filter (\<lambda>a. a_id a \<noteq> 1) (accounts (fst (snd (update_account sample_accounts 1 cloak_request two_accounts two_accounts))))
       = filter (\<lambda>a. a_id a \<noteq> 1) (accounts two_accounts)"
  using account_changed_or_refused [OF two_accounts_ok cloak_applied] by simp

text \<open>The second account is renamed, the first removed.\<close>

definition renamed_tables :: database where
  "renamed_tables = two_accounts\<lparr>accounts := [hd (accounts two_accounts), (last (accounts two_accounts))\<lparr>a_name := ''third''\<rparr>]\<rparr>"

lemma account_run:
  "run account_step two_accounts
     [Update_Account sample_accounts 2 (no_change\<lparr>ua_name := Some ''third''\<rparr>) two_accounts, Remove_Account sample_accounts 1]
     (delete_account 1 renamed_tables)"
proof (intro run.intros)
  have "update_account sample_accounts 2 (no_change\<lparr>ua_name := Some ''third''\<rparr>) two_accounts two_accounts
      = (Inr (), renamed_tables, True)"
    by (simp add: account_evaluation renamed_tables_def update_where_def cong: try_then_weak)
  then show "account_step two_accounts (Update_Account sample_accounts 2 (no_change\<lparr>ua_name := Some ''third''\<rparr>) two_accounts)
      renamed_tables"
    by (rule step_update)
  have "remove_account sample_accounts 1 renamed_tables = (Inr (), delete_account 1 renamed_tables, True)"
    by code_simp
  then show "account_step renamed_tables (Remove_Account sample_accounts 1) (delete_account 1 renamed_tables)"
    by (rule step_remove)
qed (rule run_nil)

lemma account_rows:
  "length (accounts (delete_account 1 renamed_tables)) = 1"
  "a_cookie_blob (accounts (delete_account 1 renamed_tables) ! 0) = Some ''cookie''"
  "a_cookie_blob (last (accounts (delete_account 1 renamed_tables))) = Some ''cookie''"
  by code_simp+

theorem cookies_never_shared_witness:
  "accounts (delete_account 1 renamed_tables) ! 0 = last (accounts (delete_account 1 renamed_tables))"
proof (rule cookies_never_shared [OF _ account_run _ _ account_rows(2,3)])
  show "cookies_ok two_accounts" using two_accounts_ok by (simp add: tables_ok_def)
  show "accounts (delete_account 1 renamed_tables) ! 0 \<in> set (accounts (delete_account 1 renamed_tables))"
    using account_rows(1) by simp
  show "last (accounts (delete_account 1 renamed_tables)) \<in> set (accounts (delete_account 1 renamed_tables))"
    using account_rows(1) by (intro last_in_set) auto
qed

section \<open>What the model shows\<close>

text \<open>A new credential revives the account although the same request disables it.\<close>

lemma credential_overrides_status:
  "map a_status (accounts (fst (snd (update_account sample_accounts 1
      (no_change\<lparr>ua_status := Some ''disabled'', ua_api_key_secret := Some ''rotated''\<rparr>) two_accounts two_accounts))))
     = [''active'', ''active'']"
  by (simp add: account_evaluation cong: try_then_weak)

text \<open>The mode that is already set, submitted without a configuration, resets the stored configuration.\<close>

definition cloaked :: database where
  "cloaked = two_accounts\<lparr>accounts := [(hd (accounts two_accounts))\<lparr>a_mimicry_mode := ''third_party'',
     a_mimicry_config := Some ''chosen''\<rparr>]\<rparr>"

lemma mode_only_resets_config:
  "map a_mimicry_config (accounts (fst (snd (update_account sample_accounts 1 cloak_request cloaked cloaked)))) = [Some ''{..}'']"
  by (simp add: account_evaluation cloaked_def cong: try_then_weak)

text \<open>
  The organization of a request is stored without the check for duplicates; the account that owns it then cannot
  renew its OAuth credential.
\<close>

definition claimed :: "string \<Rightarrow> database" where
  "claimed org = two_accounts\<lparr>accounts :=
     [sample_row 1, (use_cookie ''cookie'' ((sample_row 2)\<lparr>a_name := ''second''\<rparr>))\<lparr>a_organization_uuid := Some org\<rparr>]\<rparr>"

lemma submitted_organization_not_checked:
  "update_account sample_accounts 2 (no_change\<lparr>ua_organization_uuid := Some ''org''\<rparr>) (claimed ''own'') (claimed ''own'')
     = (Inr (), claimed ''org'', True)"
  "reject_duplicate_oauth_identity ''org'' (Some 1) (claimed ''org'') = Inl (ConflictMessage (oauth_taken 2 ''second''))"
  by (simp_all add: account_evaluation claimed_def update_where_def reject_duplicate_oauth_identity_def
      find_account_by_organization_uuid_def cong: try_then_weak)

text \<open>A failure after the commit: the account is stored, the answer is an error, the pool does not learn of it.\<close>

definition failing_upsert :: "RuntimeStateParams \<Rightarrow> string accounts_env" where
  "failing_upsert p =
     sample_accounts\<lparr>an_db := sample_db_env\<lparr>de_io := (\<lambda>n. if n = 7 then Some (SqlxError ''busy'') else None)\<rparr>,
       an_exchange := (\<lambda>_ _ _. Inr \<lparr>ex_token =
           \<lparr>access_token = ''at'', expires_in = 0, organization_uuid_of = ''fresh'', refresh_token = ''rt'', expires_at = 0\<rparr>,
         ex_snapshot =
         \<lparr>sn_email = None, sn_account_type = None, sn_organization_uuid = ''fresh'', sn_rate_limit_tier = None,
          sn_billing_type = None, sn_subscription_created_at = None, sn_runtime = p\<rparr>\<rparr>)\<rparr>"

lemma created_without_reload:
  "(case create_account (failing_upsert p) (no_request\<lparr>ca_oauth_callback_input := Some ''code''\<rparr>) two_accounts two_accounts of
      (r, db, reload) \<Rightarrow>
        r = Inl (SqlxError ''busy'') \<and> \<not> reload \<and> map a_name (accounts db) = [''acct'', ''second'', ''new''])"
  by (simp add: account_evaluation failing_upsert_def expiry_text_def rfc3339_now_def
      reject_duplicate_oauth_identity_def find_account_by_organization_uuid_def cong: try_then_weak)

end
