(* ===== verification/Pool_Service.thy ===== *)
theory Pool_Service
  imports Pool_Actor
begin

text \<open>
  Cooldowns over whole runs of the pool actor (\<open>src/src/services/account_pool/\<close>): how long an account whose
  request came back with a rate limit or a restriction stays out of the queue while other messages are
  processed, and in which state it comes back.
\<close>

section \<open>Resting accounts\<close>

text \<open>
  An account rests until \<open>u\<close> when it is in the exhausted bucket with a reset time not before \<open>u\<close>, or when it
  has been invalidated in the meantime.
\<close>

definition resting :: "i64 \<Rightarrow> i64 \<Rightarrow> 'c AccountPoolState \<Rightarrow> bool" where
  "resting i u s \<longleftrightarrow>
     (\<exists>c v. hm_get (exhausted s) i = Some c \<and> reset_time c = Some v \<and> u \<le> v) \<or> i \<in> invalid_ids s"

text \<open>
  The events that leave a cooldown until \<open>u\<close> alone: everything before \<open>u\<close> except a reload, and except the
  return of another request of the same account that ends the cooldown earlier.
\<close>

definition rests_on :: "i64 \<Rightarrow> RuntimeStateParams \<Rightarrow> Reason option \<Rightarrow> bool" where
  "rests_on u update reason =
     (case reason of
        None \<Rightarrow> (case rp_reset_time update of Some v \<Rightarrow> u \<le> v | None \<Rightarrow> False)
      | Some (TooManyRequest v) \<Rightarrow> u \<le> v
      | Some (Restricted v) \<Rightarrow> u \<le> v
      | Some _ \<Rightarrow> True)"

fun within_cooldown :: "i64 \<Rightarrow> i64 \<Rightarrow> pool_event \<Rightarrow> bool" where
  "within_cooldown i u (External _) = True"
| "within_cooldown i u (Msg tn ReloadFromDb) = False"
| "within_cooldown i u (Msg tn (Return j update reason fp mode)) =
     (t_now tn < u \<and> (j = i \<longrightarrow> rests_on u update reason))"
| "within_cooldown i u (Msg tn msg) = (t_now tn < u)"

lemma within_cooldown_msg:
  assumes "within_cooldown i u (Msg tn msg)"
  shows "msg \<noteq> ReloadFromDb" and "t_now tn < u"
  using assms by (cases msg; simp)+

section \<open>Every allowed event keeps a cooldown\<close>

lemma exhausted_ok_of_inv: "pool_inv s \<Longrightarrow> exhausted_ok (exhausted s)"
  by (simp add: pool_inv_def buckets_ok_def)

lemma exhausted_slot_iff:
  assumes "pool_inv s"
  shows "hm_get (exhausted s) i = Some c \<longleftrightarrow> pool_slot s i = Some c \<and> reset_time c \<noteq> None"
proof -
  have ok: "valid_ok (valid s)" and disj: "valid_ids s \<inter> exhausted_ids s = {}"
    using assms by (simp_all add: pool_inv_def buckets_ok_def)
  show ?thesis
  proof (cases "find (\<lambda>d. account_id d = Some i) (valid s)")
    case None
    then show ?thesis
      using exhausted_ok_get [OF exhausted_ok_of_inv [OF assms]] by (auto simp: pool_slot_def)
  next
    case (Some d)
    then have d: "d \<in> set (valid s)" "account_id d = Some i"
      by (simp_all add: find_valid [OF ok])
    then have "i \<notin> exhausted_ids s"
      using disj mem_ids_of [of d "valid s" i] by blast
    then have "hm_get (exhausted s) i = None"
      by (simp add: map_of_eq_None_iff)
    with Some d ok show ?thesis
      by (auto simp: pool_slot_def valid_ok_def)
  qed
qed

lemma exhausted_reset:
  assumes "pool_inv s" and "hm_get (exhausted s) i = Some c" and "reset_time c = Some v" and "now < v"
  shows "hm_get (exhausted (pool_reset now s)) i = Some c"
proof -
  have wf: "hm_wf (exhausted s)" "hm_wf (exhausted (pool_reset now s))"
    using exhausted_ok_of_inv [OF assms(1)] exhausted_ok_of_inv [OF pool_inv_reset [OF assms(1)]]
    by (simp_all add: exhausted_ok_def)
  have "(i, c) \<in> set (exhausted (pool_reset now s))"
    using assms(2-4) by (simp add: hm_get_mem [OF wf(1)] pool_reset_eq lapsed_iff)
  then show ?thesis
    by (simp add: hm_get_mem [OF wf(2)])
qed

lemma exhausted_windows:
  "hm_get (exhausted (snd (refresh_usage_windows now s))) i =
     map_option (\<lambda>c. snd (apply_resets now c)) (hm_get (exhausted s) i)"
proof -
  have "hm_get (map (\<lambda>(k, c). (k, f c)) m) i = map_option f (hm_get m i)"
    for f :: "AccountSlot \<Rightarrow> AccountSlot" and m :: "(i64, AccountSlot) hash_map"
    by (induction m) auto
  then show ?thesis
    by (simp add: refresh_usage_windows_def Let_def)
qed

lemma resting_return:
  assumes inv: "pool_inv s" and c: "hm_get (exhausted s) i = Some c" "reset_time c = Some v" "u \<le> v"
    and al: "aid = i \<longrightarrow> rests_on u update reason"
  shows "resting i u (snd (collect_by_id aid update reason fp mode s))"
proof -
  obtain p t where t: "collect_by_id aid update reason fp mode s = (p, t)" by fastforce
  have invt: "pool_inv t"
    using pool_inv_collect [OF inv, of aid update reason fp mode] by (simp add: t)
  have slot: "pool_slot s i = Some c"
    using c(1) exhausted_slot_iff [OF inv] by blast
  show ?thesis
  proof (cases "aid = i")
    case False
    then have "pool_slot t i = Some c"
      using collect_frame(1) [OF inv t] slot by simp
    with c show ?thesis
      by (auto simp: t resting_def exhausted_slot_iff [OF invt])
  next
    case True
    show ?thesis
    proof (cases "sticky_guard s aid \<or> fingerprint_guard s aid fp")
      case guarded: True
      with c show ?thesis
        by (auto simp: collect_eq [OF inv] resting_def)
    next
      case False
      with True slot al show ?thesis
        by (auto simp: collect_eq [OF inv] resting_def rebucket_def rests_on_def hm_get_insert
            split: option.splits Reason.splits)
    qed
  qed
qed

lemma resting_flush:
  assumes "pool_inv s"
  shows "resting i u (do_flush env fl s) = resting i u s"
    and "resting i u (emit_accounts_refresh s) = resting i u s"
  using assms by (simp_all add: resting_def pool_inv_def)

lemma resting_dispatch:
  assumes inv: "pool_inv s" and c: "hm_get (exhausted s) i = Some c" "reset_time c = Some v" "u \<le> v"
    and "now < u" and d: "dispatch env now h bound s = (r, t)"
  shows "resting i u t"
proof -
  have ex: "hm_get (exhausted (pool_reset now s)) i = Some c"
    using exhausted_reset [OF inv c(1,2)] assms(4,5) by simp
  show ?thesis
    using inv d
  proof (cases rule: dispatch_cases)
    case (served m key rw pos j)
    then have "exhausted t = exhausted (pool_reset now s)"
      using commit_fields(3) [OF _ _ served(1)] by simp
    with c ex show ?thesis
      by (auto simp: resting_def)
  qed (use c ex in \<open>auto simp: resting_def\<close>)
qed

lemma resting_converge:
  assumes inv: "pool_inv s" and c: "hm_get (exhausted s) i = Some c" "reset_time c = Some v" "u \<le> v"
  shows "resting i u (converge_invalidate env aid reason s)"
proof (cases "aid = i")
  case True
  have "removed_kind aid s \<noteq> None"
    using c(1) True by (auto simp: removed_kind_def split: option.splits)
  with True show ?thesis
    by (auto simp: resting_def converge_invalidate_def Let_def)
next
  case False
  with c show ?thesis
    by (auto simp: resting_def converge_invalidate_def Let_def hm_get_remove split: option.splits)
qed

lemma resting_handle:
  assumes inv: "pool_inv s" and al: "within_cooldown i u (Msg tn msg)"
    and c: "hm_get (exhausted s) i = Some c" "reset_time c = Some v" "u \<le> v"
  shows "resting i u (snd (snd (handle env tn msg s)))"
proof -
  have rest: "resting i u s"
    using c by (auto simp: resting_def)
  note al' = within_cooldown_msg [OF al]
  show ?thesis
  proof (cases msg)
    case (Return aid update reason fp mode)
    then have "resting i u (snd (collect_by_id aid update reason fp mode s))"
      using resting_return [OF inv c] al by simp
    with Return pool_inv_collect [OF inv, of aid update reason fp mode] show ?thesis
      by (auto simp: turn_result resting_flush pool_inv_flush split: prod.splits)
  next
    case CheckReset
    let ?w = "snd (refresh_usage_windows (t_now tn) s)"
    let ?c = "snd (apply_resets (t_now tn) c)"
    have "hm_get (exhausted ?w) i = Some ?c" "reset_time ?c = Some v"
      using c by (simp_all add: exhausted_windows)
    then have "hm_get (exhausted (pool_reset (t_now tn) ?w)) i = Some ?c"
      using exhausted_reset [OF pool_inv_windows [OF inv]] al'(2) c(3) by simp
    with CheckReset c show ?thesis
      by (auto simp: turn_result resting_def)
  next
    case GetStatus
    with c show ?thesis
      by (auto simp: turn_result resting_def exhausted_windows)
  next
    case (Request h bound)
    with resting_dispatch [OF inv c al'(2)] show ?thesis
      by (auto simp: turn_result split: prod.splits)
  next
    case (UpdateCredential aid tok)
    with c show ?thesis
      by (auto simp: turn_result resting_def update_slot_credential_def hm_get_modify)
  next
    case (UpdateCredentialIfCurrent aid expected tok)
    with c rest show ?thesis
      by (auto simp: turn_result resting_def update_slot_credential_def hm_get_modify)
  next
    case (Invalidate aid reason)
    with resting_converge [OF inv c] show ?thesis
      by (simp add: turn_result)
  next
    case (InvalidateIfCurrent aid expected reason)
    with resting_converge [OF inv c] rest show ?thesis
      by (simp add: turn_result)
  qed (use rest al'(1) inv in \<open>simp_all add: turn_result resting_flush resting_def pool_inv_def
         spawn_probe_accounts_def spawn_probes_for_unprobed_def\<close>)
qed

interpretation cooldown: stable_machine "pool_step env" pool_inv "within_cooldown i u" "resting i u"
  for env :: "'c pool_env" and i u
proof
  fix s t :: "'c AccountPoolState" and e
  assume inv: "pool_inv s" and rest: "resting i u s" and al: "within_cooldown i u e"
    and st: "pool_step env s e t"
  show "resting i u t"
  proof (cases e)
    case (External db')
    with st rest show ?thesis by (simp add: pool_step_external resting_def)
  next
    case (Msg tn msg)
    with st have t: "t = snd (snd (handle env tn msg s))"
      by (simp add: pool_step_handle)
    note al = al [unfolded Msg]
    show ?thesis
    proof (cases "i \<in> invalid_ids s")
      case True
      then obtain w where "hm_get (invalid s) i = Some w"
        using hm_contains_iff [of "invalid s" i] by auto
      from handle_invalid [OF inv within_cooldown_msg(1) [OF al] this, of env tn] show ?thesis
        using hm_contains_iff [of "invalid t" i] by (simp add: t resting_def)
    next
      case False
      with rest obtain c v where "hm_get (exhausted s) i = Some c" "reset_time c = Some v" "u \<le> v"
        by (auto simp: resting_def)
      with resting_handle [OF inv al] show ?thesis
        by (simp add: t)
    qed
  qed
qed

section \<open>Cooldowns\<close>

lemma invalid_not_served:
  assumes "pool_inv s" and "i \<in> invalid_ids s" and "dispatch env now h bound s = (Inr d, t)"
  shows "account_id d \<noteq> Some i"
  using assms(1,3)
proof (cases rule: dispatch_cases)
  case (served m key rw pos j)
  have "valid_ids (pool_reset now s) \<inter> invalid_ids (pool_reset now s) = {}"
    using pool_inv_reset [OF assms(1), of now] by (simp add: pool_inv_def buckets_ok_def)
  moreover have "invalid_ids (pool_reset now s) = invalid_ids s"
    by (simp add: pool_reset_eq)
  ultimately show ?thesis
    using served(3,4,8) assms(2) by auto
qed simp

lemma resting_not_served:
  assumes inv: "pool_inv s" and "resting i u s" and "now < u"
    and d: "dispatch env now h bound s = (Inr d, t)"
  shows "account_id d \<noteq> Some i"
  using assms(2) unfolding resting_def
proof (elim disjE exE conjE)
  fix c v
  assume "hm_get (exhausted s) i = Some c" "reset_time c = Some v" "u \<le> v"
  with exhausted_not_dispatched [OF inv _ _ _ d] assms(3) show ?thesis by simp
next
  assume "i \<in> invalid_ids s"
  then show ?thesis by (rule invalid_not_served [OF inv _ d])
qed

lemma return_cools_down:
  assumes inv: "pool_inv s" and c: "pool_slot s aid = Some c" and "\<not> fingerprint_guard s aid fp"
    and "reason = TooManyRequest u \<or> reason = Restricted u"
    and t: "t = snd (snd (handle env tn (Return aid update (Some reason) fp mode) s))"
  shows "pool_inv t" and "hm_get (exhausted t) aid
    = Some (reset_window_usage ((merge_runtime mode update c)\<lparr>reset_time := Some u\<rparr>))"
proof -
  obtain p t1 where t1: "collect_by_id aid update (Some reason) fp mode s = (p, t1)" by fastforce
  have inv1: "pool_inv t1"
    using pool_inv_collect [OF inv, of aid update "Some reason" fp mode] by (simp add: t1)
  have "\<not> sticky_guard s aid"
    using pool_slot_ids(3) [OF c inv] by (auto simp: sticky_guard_def map_of_eq_None_iff [THEN iffD2]
        split: option.splits dest: map_of_SomeD)
  then have "t1 = mark_dirty (Some aid) (rebucket aid (Some reason) (merge_runtime mode update c)
      (without aid (s\<lparr>probing := probing s - {aid}\<rparr>)))"
    using assms(2,3) t1 by (simp add: collect_eq [OF inv])
  then have ex: "hm_get (exhausted t1) aid
      = Some (reset_window_usage ((merge_runtime mode update c)\<lparr>reset_time := Some u\<rparr>))"
    using assms(4) by (auto simp: rebucket_def hm_get_insert)
  have "exhausted t = exhausted t1"
    using inv1 by (simp add: t turn_result t1 pool_inv_def)
  with ex show "hm_get (exhausted t) aid
    = Some (reset_window_usage ((merge_runtime mode update c)\<lparr>reset_time := Some u\<rparr>))"
    by simp
  show "pool_inv t"
    unfolding t by (rule pool_inv_handle [OF inv])
qed

text \<open>
  C11: A cooldown is respected over whole runs. When a request of a pooled account returns with a rate limit
  or a restriction until \<open>u\<close> and its credential has not been replaced, the account is in the exhausted
  bucket with reset time \<open>u\<close>. After any further messages processed before \<open>u\<close>, other than a reload and
  other than a return of another request of the same account that names no cooldown or one that ends
  before \<open>u\<close>, and after any change of the tables, the account is still exhausted or has been
  invalidated, and no request processed before \<open>u\<close> is answered with it, whatever the cache binds to it.
  While it is exhausted, its reset time is not before \<open>u\<close>, and from that time on the wake-up moves
  it to the valid queue with no reset time, with all four usage windows (session, weekly, weekly Sonnet,
  weekly Opus) empty, and with its credential and its lifetime usage unchanged. The two exceptions
  are real: such a return, and a reload, can end a cooldown early.
\<close>

theorem cooldown_respected:
  assumes "pool_inv s" and "pool_slot s aid = Some c" and "\<not> fingerprint_guard s aid fp"
    and "reason = TooManyRequest u \<or> reason = Restricted u"
    and "t = snd (snd (handle env tn (Return aid update (Some reason) fp mode) s))"
    and "run (pool_step env) t es w" and "list_all (within_cooldown aid u) es"
  shows "map_option reset_time (hm_get (exhausted t) aid) = Some (Some u)
    \<and> aid \<in> exhausted_ids w \<union> invalid_ids w
    \<and> (\<forall>tn' hash bound d. t_now tn' < u
          \<longrightarrow> fst (snd (handle env tn' (Request hash bound) w)) = Slot_Reply (Inr d)
          \<longrightarrow> account_id d \<noteq> Some aid)
    \<and> (\<forall>e. hm_get (exhausted w) aid = Some e \<longrightarrow>
          (\<exists>v. reset_time e = Some v \<and> u \<le> v
            \<and> (\<forall>now. v \<le> now \<longrightarrow>
                (\<exists>d. pool_slot (pool_reset now w) aid = Some d \<and> d \<in> set (valid (pool_reset now w))
                  \<and> reset_time d = None
                  \<and> session_usage d = default_usage \<and> weekly_usage d = default_usage
                  \<and> weekly_sonnet_usage d = default_usage \<and> weekly_opus_usage d = default_usage
                  \<and> lifetime_usage d = lifetime_usage e \<and> credential d = credential e))))"
proof -
  note t = return_cools_down [OF assms(1-5)]
  have rt: "map_option reset_time (hm_get (exhausted t) aid) = Some (Some u)"
    by (simp add: t(2))
  then have "resting aid u t"
    by (auto simp: resting_def)
  then have w: "pool_inv w" "resting aid u w"
    using cooldown.run_stable [OF assms(6) t(1) _ assms(7)] by blast+
  have "aid \<in> exhausted_ids w \<union> invalid_ids w"
    using w(2) hm_contains_iff [of "exhausted w" aid] by (auto simp: resting_def)
  moreover have "account_id d \<noteq> Some aid"
    if "t_now tn' < u" "fst (snd (handle env tn' (Request hash bound) w)) = Slot_Reply (Inr d)"
    for tn' hash bound d
    using resting_not_served [OF w that(1)] that(2)
    by (cases "dispatch env (t_now tn') hash bound w") (auto simp: turn_result)
  moreover have "\<exists>v. reset_time e = Some v \<and> u \<le> v"
    if e: "hm_get (exhausted w) aid = Some e" for e
  proof -
    have "aid \<in> exhausted_ids w"
      using e hm_contains_iff [of "exhausted w" aid] by simp
    then have "aid \<notin> invalid_ids w"
      using w(1) by (auto simp: pool_inv_def buckets_ok_def)
    with w(2) e show ?thesis
      by (auto simp: resting_def)
  qed
  moreover have "\<exists>d. pool_slot (pool_reset now w) aid = Some d \<and> d \<in> set (valid (pool_reset now w))
      \<and> reset_time d = None
      \<and> session_usage d = default_usage \<and> weekly_usage d = default_usage
      \<and> weekly_sonnet_usage d = default_usage \<and> weekly_opus_usage d = default_usage
      \<and> lifetime_usage d = lifetime_usage e \<and> credential d = credential e"
    if "hm_get (exhausted w) aid = Some e" "reset_time e = Some v" "v \<le> now" for e v now
    using exhausted_wakes [OF w(1) that] that(2,3) by (auto simp: slot_reset_def credential_def)
  ultimately show ?thesis
    using rt by (intro conjI allI impI) (blast | meson)+
qed

subsection \<open>Witness\<close>

definition cooled_pool :: "(u64, i64) hash_map AccountPoolState" where
  "cooled_pool = snd (snd (handle list_env sample_turn
     (Return 2 sample_params (Some (TooManyRequest 600)) None Full) sample_pool))"

definition later_pool :: "(u64, i64) hash_map AccountPoolState" where
  "later_pool = snd (snd (handle list_env sample_turn (Request None [])
     (snd (snd (handle list_env sample_turn
        (Return 2 sample_params (Some (Restricted 700)) None Full) cooled_pool)))))"

theorem cooldown_respected_witness:
  "2 \<in> exhausted_ids later_pool \<union> invalid_ids later_pool
   \<and> (\<exists>e. hm_get (exhausted later_pool) 2 = Some e \<and> reset_time e = Some 700)
   \<and> (\<exists>d. pool_slot (pool_reset 700 later_pool) 2 = Some d \<and> reset_time d = None)"
proof -
  let ?es = "[Msg sample_turn (Return 2 sample_params (Some (Restricted 700)) None Full),
      Msg sample_turn (Request None [])]"
  have g: "\<not> fingerprint_guard sample_pool 2 None"
    by (simp add: fingerprint_guard_def)
  have al: "list_all (within_cooldown 2 600) ?es"
    by (simp add: sample_turn_def rests_on_def)
  have run: "run (pool_step list_env) cooled_pool ?es later_pool"
    by (simp add: run_Cons_iff pool_step_handle later_pool_def)
  have "map_option reset_time (hm_get (exhausted later_pool) 2) = Some (Some 700)"
    unfolding later_pool_def cooled_pool_def by code_simp
  then obtain e where "hm_get (exhausted later_pool) 2 = Some e" "reset_time e = Some 700"
    by auto
  with cooldown_respected [OF sample_pool_inv sample_slot_2 g _ cooled_pool_def run al]
  show ?thesis by auto
qed

end
