(* ===== verification/Pool_Refine.thy ===== *)
theory Pool_Refine
  imports Pool_Reload
begin

text \<open>
  What a reload (\<open>src/src/services/account_pool/persistence.rs\<close>) owes to the tables, stated on the columns of a
  row and the fields of the slot in memory, without the functions of the reload: the bucket, the
  credential, the runtime and the order of the queue.
\<close>

section \<open>The specification of one row\<close>

text \<open>The cookie in a row, and whether a row holds a credential that its kind of account can use.\<close>

definition row_cookie :: "AccountWithRuntime \<Rightarrow> ClewdrCookie option" where
  "row_cookie row =
     (case acc_cookie_blob row of
        Some blob \<Rightarrow> (case cookie_from_str blob of Inr k \<Rightarrow> Some k | Inl _ \<Rightarrow> None)
      | None \<Rightarrow> None)"

definition row_usable :: "AccountWithRuntime \<Rightarrow> bool" where
  "row_usable row \<longleftrightarrow>
     (if from_auth_source (acc_auth_source row) = ApiKey
      then acc_api_key_base_url row \<noteq> None \<and> acc_api_key_secret row \<noteq> None
      else if acc_cookie_blob row \<noteq> None then row_cookie row \<noteq> None
      else acc_oauth_token row \<noteq> None)"

text \<open>Memory still speaks about the credential in the row.\<close>

definition same_account :: "AccountSlot \<Rightarrow> AccountWithRuntime \<Rightarrow> bool" where
  "same_account m row \<longleftrightarrow>
     auth_method m = from_auth_source (acc_auth_source row)
     \<and> (auth_method m = Cookie \<longrightarrow> cookie m = row_cookie row)"

definition remembered :: "AccountSlot option \<Rightarrow> AccountWithRuntime \<Rightarrow> AccountSlot option" where
  "remembered mem row = (case mem of Some m \<Rightarrow> if same_account m row then Some m else None | None \<Rightarrow> None)"

text \<open>
  The runtime the slot must have: that of memory when memory knows the account, the stored one (without a
  cooldown that is over) when the account is not in memory at all and is not a key account, and a
  fresh one otherwise.
\<close>

definition owed_runtime :: "i64 \<Rightarrow> AccountSlot option \<Rightarrow> AccountWithRuntime \<Rightarrow> RuntimeStateParams" where
  "owed_runtime now mem row =
     (case remembered mem row of
        Some m \<Rightarrow> to_runtime_params m
      | None \<Rightarrow>
          (case acc_runtime row of
             Some r \<Rightarrow>
               if mem = None \<and> from_auth_source (acc_auth_source row) \<noteq> ApiKey
               then (to_params r)
                 \<lparr>rp_reset_time :=
                   (case rr_reset_time r of Some ts \<Rightarrow> if now < ts then Some ts else None | None \<Rightarrow> None)\<rparr>
               else to_runtime_params default_slot
           | None \<Rightarrow> to_runtime_params default_slot))"

text \<open>The credential and the identity the slot must have.\<close>

definition owed_identity :: "AccountSlot option \<Rightarrow> AccountWithRuntime \<Rightarrow> AccountSlot \<Rightarrow> bool" where
  "owed_identity mem row c \<longleftrightarrow>
     account_id c = Some (acc_id row)
     \<and> auth_method c = from_auth_source (acc_auth_source row)
     \<and> proxy_url c = acc_proxy_url row
     \<and> email c = (case acc_email row of
           Some e \<Rightarrow> Some e | None \<Rightarrow> Option.bind (remembered mem row) email)
     \<and> account_type c = (case acc_account_type row of
           Some a \<Rightarrow> Some a | None \<Rightarrow> Option.bind (remembered mem row) account_type)
     \<and> (if auth_method c = ApiKey
        then api_key_base_url c = acc_api_key_base_url row \<and> api_key_secret c = acc_api_key_secret row
          \<and> mimicry_mode c = mimicry_from_db (acc_mimicry_mode row) \<and> cookie c = None
        else api_key_base_url c = None \<and> api_key_secret c = None \<and> cookie c = row_cookie row)
     \<and> token c = (case remembered mem row of
           Some m \<Rightarrow> if auth_method m = Cookie then token m else acc_oauth_token row
         | None \<Rightarrow> acc_oauth_token row)"

definition in_queue :: "'c AccountPoolState \<Rightarrow> i64 \<Rightarrow> AccountSlot \<Rightarrow> bool" where
  "in_queue t i c \<longleftrightarrow> c \<in> set (valid t) \<and> i \<notin> exhausted_ids t \<and> i \<notin> invalid_ids t"

definition in_cooldown :: "'c AccountPoolState \<Rightarrow> i64 \<Rightarrow> AccountSlot \<Rightarrow> bool" where
  "in_cooldown t i c \<longleftrightarrow> hm_get (exhausted t) i = Some c \<and> i \<notin> valid_ids t \<and> i \<notin> invalid_ids t"

definition row_respected ::
    "i64 \<Rightarrow> AccountSlot option \<Rightarrow> AccountWithRuntime \<Rightarrow> 'c AccountPoolState \<Rightarrow> bool" where
  "row_respected now mem row t \<longleftrightarrow>
     (let i = acc_id row in
      if acc_status row = ''disabled'' \<or> acc_status row = ''auth_error'' then
        i \<notin> valid_ids t \<and> i \<notin> exhausted_ids t
        \<and> hm_get (invalid t) i =
            (if acc_cookie_blob row = None \<and> acc_oauth_token row = None \<and> acc_api_key_secret row = None
             then None
             else Some \<lparr>inv_account_id = i, inv_auth_method = from_auth_source (acc_auth_source row),
                       inv_reason = (case acc_invalid_reason row of
                          Some r \<Rightarrow> from_db_string r | None \<Rightarrow> Null)\<rparr>)
      else if \<not> row_usable row then i \<notin> pooled_ids t
      else \<exists>c. owed_identity mem row c \<and> to_runtime_params c = owed_runtime now mem row
             \<and> (if rp_reset_time (owed_runtime now mem row) = None
                then in_queue t i c else in_cooldown t i c))"

section \<open>The reload meets it\<close>

lemma slot_of_row_usable: "slot_of_row env row = None \<longleftrightarrow> \<not> row_usable row"
  by (cases "from_auth_source (acc_auth_source row)")
    (auto simp: slot_of_row_def row_usable_def row_cookie_def slot_new_def Let_def
      split: option.splits sum.splits)

lemma fresh_runtime [simp]:
  "to_runtime_params (slot_of_cookie k None) = to_runtime_params default_slot"
  "to_runtime_params (slot_oauth i tok) = to_runtime_params default_slot"
  "to_runtime_params (slot_api_key i b sec h body mode cfg) = to_runtime_params default_slot"
  by (simp_all add: to_runtime_params_def slot_of_cookie_def slot_oauth_def slot_api_key_def default_slot_def)

lemma slot_of_row_contents:
  assumes "slot_of_row env row = Some cs"
  shows "owed_identity None row cs" and "to_runtime_params cs = to_runtime_params default_slot"
    and "from_auth_source (acc_auth_source row) \<noteq> ApiKey \<Longrightarrow> cookie cs = row_cookie row"
proof -
  have id: "remembered None row = None"
    by (simp add: remembered_def)
  have rt: "to_runtime_params (c\<lparr>account_id := a, auth_method := b, proxy_url := p, email := e,
      account_type := k\<rparr>) = to_runtime_params c"
    "to_runtime_params (c\<lparr>token := tok\<rparr>) = to_runtime_params c" for c :: AccountSlot and a b p e k tok
    by (simp_all add: to_runtime_params_def)
  show "to_runtime_params cs = to_runtime_params default_slot"
    using assms
    by (cases "from_auth_source (acc_auth_source row)")
      (auto simp: slot_of_row_def slot_new_def Let_def rt split: option.splits sum.splits)
  show o: "owed_identity None row cs"
    using assms
    by (cases "from_auth_source (acc_auth_source row)")
      (auto simp: slot_of_row_def slot_new_def Let_def owed_identity_def id row_cookie_def
        slot_of_cookie_def slot_oauth_def slot_api_key_def default_slot_def
        split: option.splits sum.splits)
  show "from_auth_source (acc_auth_source row) \<noteq> ApiKey \<Longrightarrow> cookie cs = row_cookie row"
    using o by (simp add: owed_identity_def)
qed

lemma to_runtime_apply: "to_runtime_params (apply_runtime_state p s) = p"
  by (simp add: to_runtime_params_def apply_runtime_state_def split: prod.splits)

lemma to_runtime_memory: "to_runtime_params (apply_in_memory_runtime d m k) = to_runtime_params m"
  by (simp add: to_runtime_params_def apply_in_memory_runtime_def)

lemma expected_slot_owed:
  assumes cs: "slot_of_row env row = Some cs" and c: "c = snd (reload_slot now row mem cs)"
  shows "owed_identity mem row c" and "to_runtime_params c = owed_runtime now mem row"
proof -
  note contents = slot_of_row_contents [OF cs]
  let ?kind = "from_auth_source (acc_auth_source row)"
  have kept: "auth_method m = ?kind \<and> \<not> (?kind = Cookie \<and> cookie m \<noteq> cookie cs)
      \<longleftrightarrow> same_account m row" for m
    using contents(3) by (auto simp: same_account_def)
  have "owed_identity mem row c \<and> to_runtime_params c = owed_runtime now mem row"
  proof (cases mem)
    case None
    have "to_runtime_params (cs'\<lparr>reset_time := x\<rparr>) = (to_runtime_params cs')\<lparr>rp_reset_time := x\<rparr>"
      for cs' :: AccountSlot and x
      by (simp add: to_runtime_params_def)
    moreover have "owed_identity None row (apply_runtime_state p cs)"
      "owed_identity None row ((apply_runtime_state p cs)\<lparr>reset_time := x\<rparr>)" for p x
      using contents(1) by (auto simp: owed_identity_def apply_runtime_state_def split: prod.splits)
    ultimately have cold: "owed_identity None row d"
        "to_runtime_params d = (to_params r)\<lparr>rp_reset_time := x\<rparr>"
      if "d = (apply_runtime_state (to_params r) cs)\<lparr>reset_time := x\<rparr>" for d r x
      using that by (simp_all add: to_runtime_apply)
    have upd: "(if reset_time d \<noteq> x then (Cold True, d\<lparr>reset_time := x\<rparr>) else (Cold False, d))
        = (Cold (reset_time d \<noteq> x), d\<lparr>reset_time := x\<rparr>)" for d :: AccountSlot and x
      by simp
    show ?thesis
    proof (cases "acc_runtime row")
      case None
      with contents(1,2) \<open>mem = None\<close> show ?thesis
        by (simp add: c reload_slot_def owed_runtime_def remembered_def Let_def)
    next
      case (Some r)
      show ?thesis
      proof (cases "?kind = ApiKey")
        case True
        with contents(1,2) Some \<open>mem = None\<close> show ?thesis
          by (simp add: c reload_slot_def owed_runtime_def remembered_def Let_def)
      next
        case False
        then have "c = (apply_runtime_state (to_params r) cs)\<lparr>reset_time := active_reset_time now row\<rparr>"
          using Some \<open>mem = None\<close> by (simp only: c reload_slot_def Let_def upd) simp
        from cold [OF this] False Some \<open>mem = None\<close> show ?thesis
          by (simp add: owed_runtime_def remembered_def active_reset_time_def)
      qed
    qed
  next
    case (Some m)
    show ?thesis
    proof (cases "same_account m row")
      case True
      then have c': "c = (apply_in_memory_runtime cs m (?kind = Cookie))\<lparr>proxy_url := acc_proxy_url row\<rparr>"
        using kept [of m] Some by (simp add: c reload_slot_def Let_def)
      have r: "remembered mem row = Some m" "auth_method m = ?kind"
        using True Some by (simp_all add: remembered_def same_account_def)
      have "to_runtime_params (d\<lparr>proxy_url := x\<rparr>) = to_runtime_params d" for d :: AccountSlot and x
        by (simp add: to_runtime_params_def)
      then have "to_runtime_params c = owed_runtime now mem row"
        by (simp add: c' owed_runtime_def r to_runtime_memory)
      moreover have n: "remembered None row = None"
        by (simp add: remembered_def)
      have "owed_identity mem row c"
        using contents(1) unfolding owed_identity_def r n c'
        by (cases ?kind; cases "acc_email row"; cases "acc_account_type row")
          (simp_all add: r apply_in_memory_runtime_def)
      ultimately show ?thesis by simp
    next
      case False
      then have "c = cs"
        using kept [of m] Some unfolding c reload_slot_def Let_def by auto
      with contents(1,2) False Some show ?thesis
        by (simp add: owed_identity_def owed_runtime_def remembered_def split: option.splits)
    qed
  qed
  then show "owed_identity mem row c" "to_runtime_params c = owed_runtime now mem row"
    by simp_all
qed

lemma row_respected_reload:
  assumes inv: "pool_inv t"
    and slot: "pool_slot t (acc_id row) = expected_slot env now (hm_get mem) row"
    and bad: "hm_get (invalid t) (acc_id row) = expected_invalid row"
  shows "row_respected now (hm_get mem (acc_id row)) row t"
proof (cases "row_invalid row")
  case True
  then have "pool_slot t (acc_id row) = None"
    by (simp add: slot expected_slot_def)
  with True bad show ?thesis
    by (auto simp: row_respected_def Let_def row_invalid_def pool_slot_None_iff expected_invalid_def
        row_has_credential_def invalid_of_row_def)
next
  case False
  then have ni: "hm_get (invalid t) (acc_id row) = None"
    by (simp add: bad expected_invalid_def)
  then have ni': "acc_id row \<notin> invalid_ids t"
    by (simp add: map_of_eq_None_iff)
  show ?thesis
  proof (cases "slot_of_row env row")
    case None
    then have "pool_slot t (acc_id row) = None"
      by (simp add: slot expected_slot_def)
    with None ni have "acc_id row \<notin> pooled_ids t" "\<not> row_usable row"
      using slot_of_row_usable [of env row] by (simp_all add: pooled_ids_iff)
    with False show ?thesis
      by (simp add: row_respected_def Let_def row_invalid_def)
  next
    case (Some cs)
    define c where "c = snd (reload_slot now row (hm_get mem (acc_id row)) cs)"
    have c: "pool_slot t (acc_id row) = Some c"
      using False Some by (simp add: slot expected_slot_def c_def)
    note owed = expected_slot_owed [OF Some c_def]
    have rt: "rp_reset_time (owed_runtime now (hm_get mem (acc_id row)) row) = reset_time c"
      by (simp add: owed(2) [symmetric] to_runtime_params_def)
    have ok: "valid_ok (valid t)" "exhausted_ok (exhausted t)" and disj: "valid_ids t \<inter> exhausted_ids t = {}"
      using inv by (simp_all add: pool_inv_def buckets_ok_def)
    have "if reset_time c = None then in_queue t (acc_id row) c else in_cooldown t (acc_id row) c"
    proof (cases "find (\<lambda>d. account_id d = Some (acc_id row)) (valid t)")
      case (Some d)
      with c have d: "c \<in> set (valid t)" "account_id c = Some (acc_id row)"
        by (simp_all add: pool_slot_def find_valid [OF ok(1)])
      with disj ok(1) ni' mem_ids_of [of c "valid t"] show ?thesis
        by (auto simp: in_queue_def valid_ok_def)
    next
      case None
      with c have "hm_get (exhausted t) (acc_id row) = Some c" "acc_id row \<notin> valid_ids t"
        by (simp_all add: pool_slot_def find_none_iff_ids)
      moreover from this have "reset_time c \<noteq> None"
        using exhausted_ok_get [OF ok(2)] by blast
      ultimately show ?thesis
        using ni' by (auto simp: in_cooldown_def)
    qed
    moreover have "row_usable row"
      using Some slot_of_row_usable [of env row] by simp
    ultimately show ?thesis
      using False owed rt by (auto simp: row_respected_def Let_def row_invalid_def)
  qed
qed

section \<open>The order of the queue\<close>

lemma reload_row_valid:
  assumes "reload_row env now row (s, mem, rep) = (t, mem', rep')"
  shows "valid t = valid s \<or> (\<exists>c. valid t = valid s @ [c] \<and> account_id c = Some (acc_id row))"
  using assms slot_of_row_facts(1) [of env row]
  by (auto simp: reload_row_def Let_def split: if_splits option.splits prod.splits)
     (metis reload_slot_id snd_conv)+

lemma reload_rows_valid:
  assumes "fold (reload_row env now) rows (s, mem, rep) = (t, mem', rep')" and "distinct rows"
  shows "\<exists>p. map account_id (valid t) = map account_id (valid s) @ map (Some \<circ> acc_id) (filter p rows)"
  using assms
proof (induction rows arbitrary: s mem rep)
  case (Cons row rows)
  obtain s1 mem1 rep1 where step: "reload_row env now row (s, mem, rep) = (s1, mem1, rep1)"
    by (cases "reload_row env now row (s, mem, rep)")
  have "fold (reload_row env now) rows (s1, mem1, rep1) = (t, mem', rep')" "distinct rows"
    using Cons.prems step by simp_all
  from Cons.IH [OF this] obtain p where
    p: "map account_id (valid t) = map account_id (valid s1) @ map (Some \<circ> acc_id) (filter p rows)"
    by blast
  let ?q = "\<lambda>r. if r = row then valid s1 \<noteq> valid s else p r"
  have "filter ?q rows = filter p rows"
    using Cons.prems(2) by (intro filter_cong) auto
  moreover have "map account_id (valid s1) = map account_id (valid s)
      @ (if valid s1 \<noteq> valid s then [Some (acc_id row)] else [])"
    using reload_row_valid [OF step] by auto
  ultimately have "map account_id (valid t) = map account_id (valid s)
      @ map (Some \<circ> acc_id) (filter ?q (row # rows))"
    using p by simp
  then show ?case by blast
qed (simp add: exI [of _ "\<lambda>_. True"])

lemma reload_queue_order:
  assumes "distinct (map acc_id rows)"
  shows "map account_id (valid (reload_rows env now rows s)) =
    map (Some \<circ> acc_id) (filter (\<lambda>r. acc_id r \<in> valid_ids (reload_rows env now rows s)) rows)"
proof -
  let ?t = "reload_rows env now rows s"
  let ?s0 = "s\<lparr>valid := [], exhausted := [], invalid := []\<rparr>"
  obtain s1 mem1 rep1 where f: "fold (reload_row env now) rows (?s0, mem_index s, []) = (s1, mem1, rep1)"
    by (cases "fold (reload_row env now) rows (?s0, mem_index s, [])")
  have v: "valid ?t = valid s1"
    by (simp add: reload_rows_def f spawn_probes_for_unprobed_def)
  have dis: "distinct rows" "inj_on acc_id (set rows)"
    using assms by (simp_all add: distinct_map)
  obtain p where p: "map account_id (valid ?t) = map (Some \<circ> acc_id) (filter p rows)"
    using reload_rows_valid [OF f dis(1)] by (auto simp: v)
  have "i \<in> valid_ids ?t \<longleftrightarrow> Some i \<in> set (map account_id (valid ?t))" for i
    by (force simp: ids_of_def image_iff)
  then have "acc_id r \<in> valid_ids ?t \<longleftrightarrow> p r" if "r \<in> set rows" for r
    using that dis(2) by (auto simp: p dest: inj_onD)
  then have "filter p rows = filter (\<lambda>r. acc_id r \<in> valid_ids ?t) rows"
    by (intro filter_cong) auto
  then show ?thesis
    by (simp add: p)
qed

section \<open>The reload\<close>

text \<open>
  C13: A reload that can read the tables brings the pool to what they say, keeping what only memory knows. For
  every loaded row: a disabled or rejected account is in neither service bucket and has an invalid record
  with its id, its kind and its stored reason (none if the row has no credential); an account whose
  credential columns cannot be used is in no bucket; any other account is in exactly one of the
  queue and the exhausted bucket, in the latter exactly when it has a running cooldown, with the
  identity and the credential of the row and the runtime of memory (when memory holds the account with
  the same kind of credential and, for a cookie account, the same cookie), the stored runtime without a
  lapsed cooldown (when memory does not hold the account and it is not a key account), or a fresh
  runtime. The queue is in the order of the rows, an account without a row is in no bucket, exactly the rows
  with a credential have a counter of requests in flight, which keeps its value and takes its limit from the row, the
  drain-first set is the set of flagged rows, and the affinity cache is cleared.
\<close>

theorem reload_refines_rows:
  assumes "pool_inv s" and "\<not> f_load fl"
    and "rows = load_all_accounts (env_db env) nowi (pool_db (do_flush env fl s))"
    and "do_reload env fl now nowi s = t"
  shows "(\<forall>row \<in> set rows. row_respected now (pool_slot s (acc_id row)) row t)
    \<and> map account_id (valid t) = map (Some \<circ> acc_id) (filter (\<lambda>r. acc_id r \<in> valid_ids t) rows)
    \<and> pooled_ids t \<subseteq> acc_id ` set rows
    \<and> hm_keys (inflight t) = acc_id ` {r \<in> set rows. row_has_credential r}
    \<and> (\<forall>row \<in> set rows. row_has_credential row \<longrightarrow> hm_get (inflight t) (acc_id row) =
          Some (case hm_get (inflight s) (acc_id row) of Some (cur, _) \<Rightarrow> cur | None \<Rightarrow> 0,
                word_of_int (acc_max_slots row)))
    \<and> drain_first_ids t = acc_id ` {r \<in> set rows. acc_drain_first r}
    \<and> moka t = mk_invalidate_all env (moka s)"
proof -
  note spec = do_reload_spec [OF assms]
  have inv: "pool_inv t"
    using pool_inv_reload [OF assms(1), of env fl now nowi] assms(4) by simp
  have ok: "buckets_ok (valid s) (exhausted s) (invalid s)"
    using assms(1) by (simp add: pool_inv_def)
  have dis: "distinct (map acc_id rows)"
    using pool_inv_flush [OF assms(1), of env fl] unfolding assms(3)
    by (intro distinct_loaded_ids) (simp add: pool_inv_def)
  have t: "t = reload_rows env now rows (do_flush env fl s)"
    using assms(2-4) by (simp add: do_reload_def Let_def)
  have g: "hm_get (mem_index s) = pool_slot s"
    by (rule ext) (rule mem_index_get [OF ok])
  have "row_respected now (pool_slot s (acc_id row)) row t" if "row \<in> set rows" for row
    using row_respected_reload [OF inv, of row env now "mem_index s"] spec(1,2) [OF that] unfolding g by blast
  moreover have "map account_id (valid t) = map (Some \<circ> acc_id) (filter (\<lambda>r. acc_id r \<in> valid_ids t) rows)"
    unfolding t by (rule reload_queue_order [OF dis])
  moreover have "hm_keys (inflight t) = acc_id ` {r \<in> set rows. row_has_credential r}"
    using rebuild_inflight_get(2) [OF dis] by (simp add: t reload_rows_def Let_def spawn_probes_for_unprobed_def split: prod.splits)
  ultimately show ?thesis
    using spec(3-6) by blast
qed

subsection \<open>Witness\<close>

theorem reload_refines_rows_witness:
  "pooled_ids (do_reload list_env no_faults 100 0 sample_pool) \<subseteq> {1, 2}
   \<and> hm_get (inflight (do_reload list_env no_faults 100 0 sample_pool)) 1 = Some (0, 5)
   \<and> (\<exists>c. in_queue (do_reload list_env no_faults 100 0 sample_pool) 1 c
        \<and> map_option access_token (token c) = Some ''at''
        \<and> to_runtime_params c = to_runtime_params (sample_slot 1))"
proof -
  let ?row = "load_account sample_ext 0 sample_db (sample_row 1)"
  let ?t = "do_reload list_env no_faults 100 0 sample_pool"
  have nl: "\<not> f_load no_faults"
    by (simp add: no_faults_def)
  have infl: "hm_get (inflight sample_pool) 1 = Some (0, 1)"
    by (simp add: sample_pool_def)
  have slot: "pool_slot sample_pool 1 = Some (sample_slot 1)"
    by (simp add: pool_slot_def sample_pool_def sample_slot_def slot_oauth_def)
  note spec = reload_refines_rows [OF sample_pool_inv nl refl refl, of list_env 0 100,
      unfolded sample_flush sample_rows]
  have same: "same_account (sample_slot 1) ?row"
    by (simp add: same_account_def sample_row_loaded sample_slot_def slot_oauth_def from_auth_source_def)
  then have rem: "remembered (Some (sample_slot 1)) ?row = Some (sample_slot 1)"
    by (simp add: remembered_def)
  have usable: "row_usable ?row" "map_option access_token (acc_oauth_token ?row) = Some ''at''"
    by code_simp+
  have "row_respected 100 (Some (sample_slot 1)) ?row ?t"
    using spec by (simp add: sample_row_loaded slot)
  moreover have "rp_reset_time (to_runtime_params (sample_slot 1)) = None" "auth_method (sample_slot 1) = OAuth"
    by (simp_all add: to_runtime_params_def sample_slot_def slot_oauth_def default_slot_def)
  moreover have "\<not> (acc_status ?row = ''disabled'' \<or> acc_status ?row = ''auth_error'')"
    using sample_row_loaded(4) [of 1] by (simp add: row_invalid_def)
  ultimately have "\<exists>c. in_queue ?t 1 c \<and> map_option access_token (token c) = Some ''at''
      \<and> to_runtime_params c = to_runtime_params (sample_slot 1)"
    using usable by (auto simp: row_respected_def Let_def owed_identity_def owed_runtime_def rem sample_row_loaded)
  with spec show ?thesis
    by (simp add: sample_row_loaded infl)
qed

end
