(* ===== verification/Quota_History.thy ===== *)
theory Quota_History
  imports Billing_Quota Auth_Tables
begin

text \<open>
  What the budgets of \<open>check_quota\<close> (\<open>src/src/billing.rs\<close>) measure over the life of the server: the cost of
  the requests booked in the period since an administrator last reset it, whatever the log rotation has
  deleted in the meantime.
\<close>

section \<open>The life of the ledger\<close>

text \<open>
  The ledger, every log row ever committed to it, in order, and for each total the number of rows that had
  been committed when the total was last reset.
\<close>

record ledger =
  lg_db :: billing_db
  lg_ever :: "RequestLogRow list"
  lg_reset :: "i64 \<times> string \<times> string \<Rightarrow> nat"

datatype ledger_event =
    Booked "nat \<Rightarrow> bool" BillingContext TerminalLogOptions int
  | Pruned int i64
  | Reset_Period i64 string string
  | Forgot_User i64
  | Elsewhere billing_db

text \<open>
  A terminal log with any failing statements; the log rotation; the reset of one total by an
  administrator; the deletion of a user; and any other statement that leaves the totals alone.
\<close>

inductive ledger_step :: "calendar \<Rightarrow> ledger \<Rightarrow> ledger_event \<Rightarrow> ledger \<Rightarrow> bool" for cal :: calendar where
  booked: "persist_terminal_request_log cal io ctx opts now (lg_db s) = Some db' \<Longrightarrow>
    ledger_step cal s (Booked io ctx opts now)
      (s\<lparr>lg_db := db', lg_ever := lg_ever s @ drop (length (b_logs (lg_db s))) (b_logs db')\<rparr>)"
| pruned: "ledger_step cal s (Pruned now days)
      (s\<lparr>lg_db := snd (delete_old_request_logs (lg_db s) now days)\<rparr>)"
| reset_period: "ledger_step cal s (Reset_Period u pt p)
      (s\<lparr>lg_db := snd (delete_usage_rollup (lg_db s) u pt p),
         lg_reset := (lg_reset s)((u, pt, p) := length (lg_ever s))\<rparr>)"
| forgot_user: "ledger_step cal s (Forgot_User u)
      (s\<lparr>lg_db := forget_user u (lg_db s),
         lg_reset := (\<lambda>k. if fst k = u then length (lg_ever s) else lg_reset s k)\<rparr>)"
| elsewhere: "b_rollups db' = b_rollups (lg_db s) \<Longrightarrow>
    ledger_step cal s (Elsewhere db') (s\<lparr>lg_db := db'\<rparr>)"

inductive_cases ledger_stepE: "ledger_step cal s e t"

definition new_ledger :: "billing_db \<Rightarrow> ledger" where
  "new_ledger db = \<lparr>lg_db = db, lg_ever = [], lg_reset = (\<lambda>_. 0)\<rparr>"

text \<open>The billed requests of a user since a total was reset.\<close>

definition since_reset ::
    "ledger \<Rightarrow> i64 \<times> string \<times> string \<Rightarrow> (RequestLogRow \<Rightarrow> bool) \<Rightarrow> RequestLogRow list" where
  "since_reset s k p =
     filter (\<lambda>l. rl_usage_accounted l \<and> rl_user_id l = Some (fst k) \<and> p l) (drop (lg_reset s k) (lg_ever s))"

definition ledger_ok :: "calendar \<Rightarrow> ledger \<Rightarrow> bool" where
  "ledger_ok cal s \<longleftrightarrow>
     (\<forall>u p. map_option snd (hm_get (b_rollups (lg_db s)) (u, ''week'', p))
          = tally (since_reset s (u, ''week'', p) (in_week cal p)))
     \<and> (\<forall>u p. map_option snd (hm_get (b_rollups (lg_db s)) (u, ''month'', p))
          = tally (since_reset s (u, ''month'', p) (in_month cal p)))
     \<and> (\<forall>k. lg_reset s k \<le> length (lg_ever s))"

section \<open>The totals are the tallies since the last reset\<close>

lemma since_reset_snoc:
  assumes "lg_reset s k \<le> length (lg_ever s)"
  shows "since_reset (s\<lparr>lg_db := db', lg_ever := lg_ever s @ [l]\<rparr>) k p =
    since_reset s k p @ (if rl_usage_accounted l \<and> rl_user_id l = Some (fst k) \<and> p l then [l] else [])"
  using assms by (simp add: since_reset_def)

lemma since_reset_cong:
  "lg_ever t = lg_ever s \<Longrightarrow> lg_reset t k = lg_reset s k \<Longrightarrow> since_reset t k p = since_reset s k p"
  by (simp add: since_reset_def)

lemma since_reset_now: "lg_reset s k = length (lg_ever s) \<Longrightarrow> since_reset s k p = []"
  by (simp add: since_reset_def)

lemma tally_Nil [simp]: "tally [] = None"
  by (simp add: tally_def)

lemma ledger_ok_le: "ledger_ok cal s \<Longrightarrow> lg_reset s k \<le> length (lg_ever s)"
  unfolding ledger_ok_def by blast

text \<open>An event that empties some totals and starts them afresh.\<close>

lemma ledger_ok_cleared:
  assumes ok: "ledger_ok cal s" and "lg_ever t = lg_ever s"
    and r: "\<And>k. lg_reset t k = (if p k then length (lg_ever s) else lg_reset s k)"
    and b: "\<And>k. hm_get (b_rollups (lg_db t)) k = (if p k then None else hm_get (b_rollups (lg_db s)) k)"
  shows "ledger_ok cal t"
proof -
  have "since_reset t k q = (if p k then [] else since_reset s k q)" for k q
    by (simp add: since_reset_def assms(2) r)
  then show ?thesis
    using ok by (simp add: ledger_ok_def b r assms(2))
qed

lemma ledger_ok_booked:
  assumes ok: "ledger_ok cal s"
    and step: "persist_terminal_request_log cal io ctx opts now (lg_db s) = Some db'"
  shows "ledger_ok cal (s\<lparr>lg_db := db', lg_ever := lg_ever s @ drop (length (b_logs (lg_db s))) (b_logs db')\<rparr>)"
  using step
proof (cases rule: persist_cases)
  case 1
  with ok show ?thesis
    by (simp add: ledger_ok_def since_reset_def)
next
  case (2 tx)
  note le = ledger_ok_le [OF ok]
  have db': "b_logs db' = b_logs tx" "b_rollups db' = b_rollups tx"
    by (simp_all add: 2(2))
  show ?thesis
    using 2(1)
  proof (cases rule: log_transaction_cases)
    case (1 i db1)
    let ?l = "(terminal_row io (lg_db s) ctx opts now)\<lparr>rl_id := i\<rparr>"
    have logs: "b_logs db' = b_logs (lg_db s) @ [?l]" "b_rollups db' = b_rollups (lg_db s)"
      using 1(3) insert_request_log_Some(1) [OF 1(1)] by (auto simp: db')
    have "\<not> (rl_usage_accounted ?l \<and> rl_user_id ?l = Some u)" for u
      using 1(2) by (auto simp: terminal_row_def Let_def)
    then have "since_reset (s\<lparr>lg_db := db', lg_ever := lg_ever s @ [?l]\<rparr>) k p = since_reset s k p" for k p
      unfolding since_reset_snoc [OF le] by auto
    moreover have "ledger_ok cal s' \<longleftrightarrow> ledger_ok cal s"
      if "b_rollups (lg_db s') = b_rollups (lg_db s)" "\<And>k p. since_reset s' k p = since_reset s k p"
        "lg_reset s' = lg_reset s" "\<And>k. lg_reset s k \<le> length (lg_ever s')" for s'
      using that le by (simp add: ledger_ok_def)
    ultimately show ?thesis
      using ok le by (simp add: logs le_SucI)
  next
    case (2 i db1 x u us month)
    let ?l = "(terminal_row io (lg_db s) ctx opts now)\<lparr>rl_id := i\<rparr>"
    note ins = insert_request_log_Some [OF 2(1)]
    note tot = upsert_totals_get [OF 2(6)]
    have logs: "b_logs db' = b_logs (lg_db s) @ [?l]"
      using tot(1) ins(1) by (simp add: db')
    have old: "b_rollups (db1\<lparr>b_audits := x\<rparr>) = b_rollups (lg_db s)"
      using ins(1) by simp
    have l: "rl_usage_accounted ?l" "rl_user_id ?l = Some u" "rl_completed_at ?l = Some now"
      using 2(2,3) by (simp_all add: terminal_row_def Let_def)
    have p: "in_week cal q ?l \<longleftrightarrow> q = fst (current_week_bounds cal now)"
      "in_month cal q ?l \<longleftrightarrow> q = fst month" for q
      using l(3) 2(5) by (auto simp: in_week_def in_month_def)
    let ?s' = "s\<lparr>lg_db := db', lg_ever := lg_ever s @ [?l]\<rparr>"
    have b: "tally (since_reset ?s' (v, pt, q) P) =
        (if v = u \<and> P ?l then bump us (log_cost io (lg_db s) ctx opts) (tally (since_reset s (v, pt, q) P))
         else tally (since_reset s (v, pt, q) P))" for v pt q P
      using bump_tally [OF 2(4) refl] l(1,2) by (auto simp: since_reset_snoc [OF le])
    have "ledger_ok cal ?s'"
      using ok le unfolding ledger_ok_def b p by (auto simp: db' tot(2,3) old le_SucI)
    then show ?thesis
      by (simp add: logs)
  qed
qed

lemma ledger_ok_step:
  assumes ok: "ledger_ok cal s" and step: "ledger_step cal s e t"
  shows "ledger_ok cal t"
  using step
proof (cases rule: ledger_step.cases)
  case (booked io ctx opts now db')
  then show ?thesis
    using ledger_ok_booked [OF ok] by simp
next
  case (pruned now days)
  then show ?thesis
    using ok by (simp add: ledger_ok_def delete_old_request_logs_def Let_def since_reset_def)
next
  case (reset_period u pt p)
  show ?thesis
    by (rule ledger_ok_cleared [OF ok, of _ "\<lambda>k. k = (u, pt, p)"])
      (simp_all add: reset_period delete_usage_rollup_def Let_def hm_get_remove)
next
  case (forgot_user u)
  have "hm_get (filter (\<lambda>(k, _). fst k \<noteq> u) m) k = (if fst k = u then None else hm_get m k)"
    for m :: "(i64 \<times> string \<times> string, string \<times> usage_row) hash_map" and k
    by (induction m) auto
  then show ?thesis
    by (intro ledger_ok_cleared [OF ok, of _ "\<lambda>k. fst k = u"]) (simp_all add: forgot_user forget_user_def)
next
  case (elsewhere db')
  then show ?thesis
    using ok by (simp add: ledger_ok_def since_reset_def)
qed

interpretation ledger: invariant_machine "ledger_step cal" "ledger_ok cal" for cal
  by unfold_locales (rule ledger_ok_step)

lemma new_ledger_ok: "b_rollups db = [] \<Longrightarrow> ledger_ok cal (new_ledger db)"
  by (simp add: ledger_ok_def new_ledger_def since_reset_def tally_def)

section \<open>Budgets\<close>

text \<open>
  The cost of the user's requests that were booked since the total was reset and completed on the days
  from \<open>s\<close> to before \<open>n\<close>.
\<close>

definition spent_since :: "ledger \<Rightarrow> i64 \<times> string \<times> string \<Rightarrow> int \<Rightarrow> int \<Rightarrow> int" where
  "spent_since st k s n = sum_list (map rl_cost_nanousd (since_reset st k (\<lambda>l. case rl_completed_at l of
     None \<Rightarrow> False | Some t \<Rightarrow> s \<le> date_naive t \<and> date_naive t < n)))"

text \<open>Costs of the user are not negative, add up within 64 bits, and fall on known days.\<close>

definition plain_history :: "i64 \<Rightarrow> int \<Rightarrow> int \<Rightarrow> ledger \<Rightarrow> bool" where
  "plain_history u lo hi st \<longleftrightarrow>
     (let mine = filter (\<lambda>l. rl_usage_accounted l \<and> rl_user_id l = Some u) (lg_ever st)
      in (\<forall>l \<in> set mine. 0 \<le> rl_cost_nanousd l
            \<and> (\<exists>t. rl_completed_at l = Some t \<and> date_naive t \<in> {lo..hi}))
         \<and> sum_list (map rl_cost_nanousd mine) \<le> i64_max)"

lemma sum_drop_le:
  "\<forall>l \<in> set ls. 0 \<le> (f l :: int) \<Longrightarrow> sum_list (map f (drop n ls)) \<le> sum_list (map f ls)"
proof -
  assume "\<forall>l \<in> set ls. 0 \<le> f l"
  then have "0 \<le> sum_list (map f (take n ls))"
    by (intro sum_list_nonneg) (fastforce dest: in_set_takeD)
  moreover have "sum_list (map f ls) = sum_list (map f (take n ls)) + sum_list (map f (drop n ls))"
    by (metis append_take_drop_id map_append sum_list_append)
  ultimately show ?thesis by linarith
qed

lemma since_reset_sum_le:
  assumes "plain_history u lo hi st"
  shows "sum_list (map rl_cost_nanousd (since_reset st (u, pt, q) P)) \<le> i64_max"
proof -
  let ?acc = "\<lambda>l. rl_usage_accounted l \<and> rl_user_id l = Some u"
  let ?new = "filter ?acc (drop (lg_reset st (u, pt, q)) (lg_ever st))"
  let ?c = "\<lambda>l. if ?acc l then rl_cost_nanousd l else 0"
  have c: "sum_list (map ?c ls) = sum_list (map rl_cost_nanousd (filter ?acc ls))" for ls
    by (induction ls) auto
  have nn: "\<forall>l \<in> set (lg_ever st). 0 \<le> ?c l" and mx: "sum_list (map ?c (lg_ever st)) \<le> i64_max"
    using assms unfolding c by (auto simp: plain_history_def Let_def)
  have "since_reset st (u, pt, q) P = filter P ?new"
    by (simp add: since_reset_def conj_ac)
  moreover have "sum_list (map rl_cost_nanousd (filter P ?new)) \<le> sum_list (map rl_cost_nanousd ?new)"
    using nn by (intro sum_filter_le) (auto dest!: in_set_dropD split: if_splits)
  moreover have "sum_list (map rl_cost_nanousd ?new) \<le> i64_max"
    using sum_drop_le [OF nn, of "lg_reset st (u, pt, q)"] mx unfolding c by linarith
  ultimately show ?thesis by simp
qed

lemma period_since_reset:
  assumes ph: "plain_history u lo hi st"
    and t: "map_option snd (hm_get (b_rollups (lg_db st)) (u, pt, p)) = tally (since_reset st (u, pt, p) q)"
    and q: "\<And>l t. rl_completed_at l = Some t \<Longrightarrow> date_naive t \<in> {lo..hi} \<Longrightarrow>
      q l \<longleftrightarrow> s \<le> date_naive t \<and> date_naive t < n"
  shows "get_current_period_cost (lg_db st) u pt p = Some (spent_since st (u, pt, p) s n)"
proof -
  have day: "\<exists>t. rl_completed_at l = Some t \<and> date_naive t \<in> {lo..hi}" "0 \<le> rl_cost_nanousd l"
    if "l \<in> set (lg_ever st)" "rl_usage_accounted l" "rl_user_id l = Some u" for l
    using ph that by (auto simp: plain_history_def Let_def)
  have "since_reset st (u, pt, p) q = since_reset st (u, pt, p) (\<lambda>l. case rl_completed_at l of
     None \<Rightarrow> False | Some t \<Rightarrow> s \<le> date_naive t \<and> date_naive t < n)"
    unfolding since_reset_def
    by (rule filter_cong) (use day(1) q in \<open>fastforce dest: in_set_dropD\<close>)+
  moreover have "get_current_period_cost (lg_db st) u pt p
      = Some (sum_list (map rl_cost_nanousd (since_reset st (u, pt, p) q)))"
    by (rule period_cost [OF t])
      (use day(2) since_reset_sum_le [OF ph] in \<open>auto simp: since_reset_def dest: in_set_dropD\<close>)
  ultimately show ?thesis
    by (simp add: spent_since_def)
qed

text \<open>
  C15: A budget measures what was booked since the last reset. Take any run from a ledger without totals: terminal
  logs with any statements failing, deletions of old logs, resets of a period by an administrator, deletions
  of users, and other statements that leave the totals alone (a restored backup is not among them).
  Then \<open>check_quota\<close> lets a request of user \<open>u\<close> pass exactly when, for a positive weekly budget,
  the look-up succeeds and the cost of the user's billed requests of the week of \<open>now\<close> since the week
  was last reset is below it, and the same for a positive monthly budget and the month of \<open>now\<close>; budgets
  that are absent, zero or negative let everything pass; and when both look-ups succeed, the only
  refusal is \<open>QuotaExceeded\<close>. The side conditions: the dates obey the calendar laws \<open>calendar_ok\<close> between
  two days that enclose \<open>now\<close> and the user's requests, and the user's costs are not negative and add up
  within 64 bits.
\<close>

theorem quota_by_history:
  assumes ok: "calendar_ok cal lo hi"
    and run: "b_rollups db0 = []" "run (ledger_step cal) (new_ledger db0) es st"
    and ph: "plain_history u lo hi st" and now: "date_naive now \<in> {lo..hi}"
    and week: "week_days cal now = (ws, we)" and month: "month_days cal now = Some (ms, me)"
  shows "\<exists>answer. check_quota cal io err now (lg_db st) u wb mb = Some answer
    \<and> (answer = Inr () \<longleftrightarrow>
         (\<forall>b. wb = Some b \<and> 0 < b \<longrightarrow> io 0 \<and> spent_since st (u, ''week'', format_start cal ws) ws we < b)
         \<and> (\<forall>b. mb = Some b \<and> 0 < b \<longrightarrow> io 1 \<and> spent_since st (u, ''month'', format_start cal ms) ms me < b))
    \<and> (io 0 \<and> io 1 \<longrightarrow> answer = Inr () \<or> answer = Inl QuotaExceeded)
    \<and> ws \<le> date_naive now \<and> date_naive now < we \<and> ms \<le> date_naive now \<and> date_naive now < me"
proof -
  have inv: "ledger_ok cal st"
    using ledger.run_inv [OF run(2) new_ledger_ok [OF run(1)]] .
  have wk: "fst (current_week_bounds cal now) = format_start cal ws"
    by (simp add: current_week_bounds_def week)
  have w: "get_current_period_cost (lg_db st) u ''week'' (format_start cal ws)
      = Some (spent_since st (u, ''week'', format_start cal ws) ws we)"
  proof (rule period_since_reset [OF ph])
    show "map_option snd (hm_get (b_rollups (lg_db st)) (u, ''week'', format_start cal ws)) =
      tally (since_reset st (u, ''week'', format_start cal ws) (in_week cal (format_start cal ws)))"
      using inv by (simp add: ledger_ok_def)
    show "in_week cal (format_start cal ws) l \<longleftrightarrow> ws \<le> date_naive t \<and> date_naive t < we"
      if "rl_completed_at l = Some t" "date_naive t \<in> {lo..hi}" for l t
      using week_days_same(1) [OF ok now that(2)] week that(1)
      by (cases "week_days cal t")
        (simp add: in_week_def current_week_bounds_def format_start_inj [OF ok])
  qed
  have m: "get_current_period_cost (lg_db st) u ''month'' (format_start cal ms)
      = Some (spent_since st (u, ''month'', format_start cal ms) ms me)"
  proof (rule period_since_reset [OF ph])
    show "map_option snd (hm_get (b_rollups (lg_db st)) (u, ''month'', format_start cal ms)) =
      tally (since_reset st (u, ''month'', format_start cal ms) (in_month cal (format_start cal ms)))"
      using inv by (simp add: ledger_ok_def)
    show "in_month cal (format_start cal ms) l \<longleftrightarrow> ms \<le> date_naive t \<and> date_naive t < me"
      if t: "rl_completed_at l = Some t" "date_naive t \<in> {lo..hi}" for l t
    proof -
      obtain s n where "month_days cal now = Some (s, n)"
        "map_option fst (month_days cal t) = Some s \<longleftrightarrow> s \<le> date_naive t \<and> date_naive t < n"
        by (rule month_days_same [OF ok now t(2)])
      with month t(1) show ?thesis
        by (cases "month_days cal t")
          (auto simp: in_month_def current_month_bounds_def format_start_inj [OF ok])
    qed
  qed
  obtain s n where "month_days cal now = Some (s, n)" "s \<le> date_naive now" "date_naive now < n"
    by (rule month_days_same [OF ok now now])
  then have days: "ws \<le> date_naive now \<and> date_naive now < we" "ms \<le> date_naive now \<and> date_naive now < me"
    using week_days_same(2) [OF ok now now] week month by auto
  have mb: "current_month_bounds cal now = Some (format_start cal ms, format_start cal me)"
    by (simp add: current_month_bounds_def month)
  have "io 1 = io (Suc 0)" by simp
  with days w m show ?thesis
    unfolding check_quota_def check_period_def wk mb positive_def guarded_def Let_def
    by (cases wb; cases mb) (auto split: if_splits)
qed

subsection \<open>Witness\<close>

text \<open>One request for 772250 nano-dollars, then a rotation that deletes its log.\<close>

definition used_ledger :: ledger where
  "used_ledger = \<lparr>lg_db = snd (delete_old_request_logs one_log 864000000000000 0),
     lg_ever = b_logs one_log, lg_reset = (\<lambda>_. 0)\<rparr>"

theorem quota_by_history_witness:
  "check_quota january (\<lambda>n. True) [] 864000000000000 (lg_db used_ledger) 5 (Some 772250) None = Some (Inl QuotaExceeded)
   \<and> check_quota january (\<lambda>n. True) [] 864000000000000 (lg_db used_ledger) 5 (Some 772251) None = Some (Inr ())
   \<and> b_logs (lg_db used_ledger) = []"
proof -
  let ?es = "[Booked (\<lambda>n. True) sample_ctx sample_opts 864000000000000, Pruned 864000000000000 0]"
  have "persist_terminal_request_log january (\<lambda>n. True) sample_ctx sample_opts 864000000000000 empty_books \<noteq> None"
    by code_simp
  then have one: "persist_terminal_request_log january (\<lambda>n. True) sample_ctx sample_opts 864000000000000 empty_books
    = Some one_log"
    by (simp add: one_log_def)
  have empty: "b_logs empty_books = []" "b_rollups empty_books = []"
    by (simp_all add: empty_books_def)
  have "ledger_step january (new_ledger empty_books) (Booked (\<lambda>n. True) sample_ctx sample_opts 864000000000000)
      \<lparr>lg_db = one_log, lg_ever = b_logs one_log, lg_reset = (\<lambda>_. 0)\<rparr>"
    using ledger_step.booked [of january "\<lambda>n. True" sample_ctx sample_opts 864000000000000
        "new_ledger empty_books" one_log] one
    by (simp add: new_ledger_def empty)
  moreover have "ledger_step january \<lparr>lg_db = one_log, lg_ever = b_logs one_log, lg_reset = (\<lambda>_. 0)\<rparr>
      (Pruned 864000000000000 0) used_ledger"
    using ledger_step.pruned [of january "\<lparr>lg_db = one_log, lg_ever = b_logs one_log, lg_reset = (\<lambda>_. 0)\<rparr>"
        864000000000000 0]
    by (simp add: used_ledger_def)
  ultimately have run: "run (ledger_step january) (new_ledger empty_books) ?es used_ledger"
    by (auto simp: run_Cons_iff)
  have facts: "map (\<lambda>l. (rl_usage_accounted l, rl_user_id l, rl_cost_nanousd l, rl_completed_at l)) (b_logs one_log)
      = [(True, Some 5, 772250, Some 864000000000000)]"
    by code_simp
  then obtain l where l: "b_logs one_log = [l]" "rl_usage_accounted l" "rl_user_id l = Some 5"
    "rl_cost_nanousd l = 772250" "rl_completed_at l = Some 864000000000000"
    by auto
  have now: "date_naive 864000000000000 = 10"
    by (simp add: date_naive_def)
  have ph: "plain_history 5 0 30 used_ledger"
    using l by (simp add: plain_history_def used_ledger_def now i64_max_def)
  have week: "week_days january 864000000000000 = (4, 11)"
    by (simp add: week_days_def now january_def Let_def)
  have month: "month_days january 864000000000000 = Some (0, 31)"
    by (simp add: month_days_def now january_def)
  have sp: "spent_since used_ledger (5, k) 4 11 = 772250" for k
    using l by (simp add: spent_since_def since_reset_def used_ledger_def now)
  note quota = quota_by_history [OF january_ok empty(2) run ph _ week month, of "\<lambda>n. True" "[]"]
  have "b_logs (lg_db used_ledger) = []"
    unfolding used_ledger_def by code_simp
  then show ?thesis
    using quota [of "Some 772250" None] quota [of "Some 772251" None] by (auto simp: now sp)
qed

end
