(* ===== verification/Spec2Isabelle.thy ===== *)
theory Spec2Isabelle
  imports Pool_Actor User_Limiter Refresh_Guard Billing_Quota Stream_Roundtrip Chat_Settle
    Openai_Client Claude_Pipeline Oauth_Keepalive Cookie_Probe Import_References Auth_Access Account_Changes
    Pool_Service Pool_Refine Quota_History
begin

text \<open>
  Clewdr-hub is a gateway between several users and a pool of Claude accounts. A user presents an API key on the
  Messages or on the OpenAI surface; the request is authenticated, limited and shaped, an actor picks an account
  with room, the request is sent and retried, the answer is streamed back and booked. Administrators keep users,
  policies, keys and accounts; background tasks refresh and probe the accounts; a command line exports and
  imports the configuration. This development models the Rust code under \<open>src/src/\<close>, component by component, and
  proves what makes each component correct and what they promise each other.

  \<^bold>\<open>Conventions.\<close> A struct is a record whose fields have a prefix, an enum is a datatype, a Rust \<open>u8\<close>, \<open>u32\<close> or \<open>u64\<close> whose
  overflow matters is a word; an \<open>i64\<close> is an integer whose wrapping is written out where the code computes with
  it (\<open>Billing\<close>). Strings are UTF-8 byte strings. A \<open>HashMap\<close> or a table is an association list with distinct
  keys (\<open>hash_map\<close>), and any order of its entries is allowed. \<open>Result\<close> is a sum with the error on the left,
  written with \<open>try_then\<close> for the question mark; a panic is a value of its own. What the outside answers (the HTTP
  client, the database driver, the clock, random draws, caches, hashes, parsers of third-party crates) is an
  argument; laws about it are named hypotheses (\<open>calendar_ok\<close>, the locales of \<open>User_Limiter\<close> and \<open>Refresh_Guard\<close>, the
  codecs of \<open>Bundle_Format\<close>) and every property with such a hypothesis has a witness on concrete functions.
  Logging and metrics are left out.

  \<^bold>\<open>Shared theories.\<close> \<open>Hub_Prelude\<close> holds machine integers, list and map lemmas and three interfaces as locales:
  \<open>codec\<close> (what is encoded is decoded), \<open>invariant_machine\<close> (every step keeps the invariant) and \<open>stable_machine\<close> (and
  admitted steps keep a property); \<open>run\<close> is a trace of labelled steps. The pool actor, the limiters, the ledger,
  the login and the administration are interpretations of these locales on their own step relations.
  \<open>Hub_Strings\<close> and \<open>Json_Value\<close> model the parts of the standard library and of JSON values that the code uses;
  \<open>Clewdr_Error\<close> is the error type.

  \<^bold>\<open>Accounts.\<close> \<open>Account_Types\<close>, \<open>Account_Slot\<close> and \<open>Cookie_Parse\<close> (\<open>config/cookie.rs\<close>, \<open>reason.rs\<close>, \<open>token.rs\<close>, \<open>mimicry.rs\<close>) are
  the data of an account and its usage windows; \<open>Account_Failure\<close> (\<open>services/account_error.rs\<close>, \<open>error.rs\<close>) decides from
  an upstream failure what happens to the account; \<open>Account_Db\<close> and \<open>Account_Statements\<close> (\<open>db/accounts.rs\<close>) are the tables
  and their guarded statements; \<open>Account_Health\<close> (\<open>services/account_health.rs\<close>) is the view of the administrators.

  \<^bold>\<open>The pool.\<close> \<open>Pool_State\<close>, \<open>Pool_Dispatch\<close>, \<open>Pool_Affinity\<close>, \<open>Pool_Collect\<close>, \<open>Pool_Persistence\<close>, \<open>Pool_Reload\<close>, \<open>Pool_Actor\<close> and
  \<open>Pool_Handle\<close> follow the files of \<open>services/account_pool/\<close>: three buckets (a queue of usable accounts, those cooling
  down, those invalid), requests in flight, dirty marks, probes. Every message is a step of the machine \<open>pool_step\<close>,
  together with the writers of the tables and the timers. The lemmas show that the buckets stay disjoint and the
  counters match (\<open>pool_always_consistent\<close>), what is served and when (\<open>dispatch_served_iff\<close>), the limits
  (\<open>concurrency_limit_respected\<close>), the life of cooldowns and invalidations over whole runs (\<open>Pool_Service\<close>), that a
  failed flush loses nothing, and that a reload meets a specification of every account on the columns of its row
  and the fields of its slot (\<open>Pool_Refine\<close>).

  \<^bold>\<open>Requests.\<close> \<open>Claude_Types\<close>, \<open>Claude_Shape\<close>, \<open>Claude_Model\<close>, \<open>Claude_Preprocess\<close> and \<open>Claude_Pipeline\<close>
  (\<open>types/claude.rs\<close>, \<open>middleware/claude/\<close>) shape a Messages request; \<open>Openai_Request\<close>, \<open>Openai_Typing\<close>, \<open>Openai_Response\<close>,
  \<open>Openai_Stream\<close>, \<open>Openai_Protocol\<close> and \<open>Openai_Client\<close> (\<open>types/openai.rs\<close>, \<open>middleware/openai/\<close>) translate the OpenAI surface
  in both directions; the lemmas show typing, the demands of the model families, the protocol of streams and that
  stream and document agree. \<open>Chat_State\<close>, \<open>Chat_Refresh\<close>, \<open>Chat_Usage\<close>, \<open>Chat_Retry\<close>, \<open>Chat_Slots\<close>, \<open>Chat_Body\<close>, \<open>Chat_Settle\<close>,
  \<open>Stream_Accumulator\<close> and \<open>Stream_Roundtrip\<close> (\<open>claude_code_state/\<close>) execute it: six attempts at most (\<open>attempts\<close> is a
  recursion on the number left, the code's counter), a slot guard for each, a token when it is missing, and a
  body that outlives the handler. The lemmas show that every slot is given back exactly once (except the slot of
  a client that disconnects while it waits for the pool, and the slot of an account whose set-up fails, which are
  shown to leak), that exactly one terminal log is written, and that folding a stream gives back the message.

  \<^bold>\<open>Limits and books.\<close> \<open>User_Limiter\<close> (\<open>services/user_limiter.rs\<close>) bounds the requests of a user; \<open>Billing\<close>, \<open>Billing_Log\<close>,
  \<open>Billing_Quota\<close> and \<open>Quota_History\<close> (\<open>billing.rs\<close>, \<open>db/billing.rs\<close>) price and book them: the totals are the tallies
  of the logs, and the quota check compares the budget with what was booked in the period since its last
  reset, also after the logs have been rotated away.

  \<^bold>\<open>Background tasks.\<close> \<open>Refresh_Guard\<close>, \<open>Oauth_Client\<close>, \<open>Background_Task\<close>, \<open>Oauth_Keepalive\<close>, \<open>Probe_Report\<close>, \<open>Oauth_Probe\<close> and
  \<open>Cookie_Probe\<close> (\<open>oauth.rs\<close>, \<open>services/oauth_keepalive.rs\<close>, \<open>services/oauth_refresh_guard.rs\<close>, \<open>claude_code_state/probe.rs\<close>): at
  every point where a task waits, all others may act on pool and tables. The lemmas show that a task whose
  credential was replaced changes nothing, that refreshes of one account exclude each other, and that every probe
  ends its mark.

  \<^bold>\<open>Configuration bundles.\<close> \<open>Bundle_Format\<close>, \<open>Bundle_Export\<close>, \<open>Bundle_Import\<close>, \<open>Import_Safety\<close> and \<open>Import_References\<close>
  (\<open>cli/bundle.rs\<close>, \<open>crypto.rs\<close>, \<open>export.rs\<close>, \<open>import.rs\<close>): an exported file is read back, carries no secret it should not,
  an import is all or nothing, spares the local administrator, and translates every reference.

  \<^bold>\<open>Access and administration.\<close> \<open>Session_Cookie\<close> (\<open>session.rs\<close>), \<open>Client_Address\<close> and \<open>Auth_Requests\<close>
  (\<open>middleware/auth.rs\<close>, \<open>db/queries.rs\<close>, \<open>db/api_key.rs\<close>) decide who is let in; \<open>Admin_Login\<close> (\<open>api/auth.rs\<close>) is the login
  with its limiter as a machine of interleaved logins; \<open>Auth_Tables\<close> holds users, policies, keys and bindings with
  the constraints of the migrations; \<open>Admin_Users\<close> and \<open>Admin_Keys\<close> are the handlers (\<open>api/admin/users.rs\<close>, \<open>me.rs\<close>, \<open>keys.rs\<close>,
  \<open>policies.rs\<close>, \<open>cli/reset.rs\<close>, the first start of \<open>db/mod.rs\<close>). \<open>Admin_Machine\<close> runs all of them in any order with
  any failing statement, and \<open>Auth_Access\<close> states exactly which keys authenticate. The lemmas show
  that the constraints and an active administrator remain, that revoked sessions stay out, and that guessing
  passwords is bounded. The machine takes a handler that is one transaction or one statement as one step; the
  change of a password, which waits for two hashes in between, reads one state and writes another.
  \<open>create_api_key\<close> repeats until a draw is free and is a recursion on the list of the draws: \<open>None\<close> when
  all of them collided.

  \<^bold>\<open>Accounts.\<close> \<open>Admin_Accounts\<close> (\<open>api/admin/accounts.rs\<close>) lists, creates, changes, removes and probes accounts on the tables
  of \<open>Account_Db\<close>, with the constraints of the migrations and an error for every statement; a handler takes the
  tables as its checks saw them and the tables as its transaction finds them. \<open>Account_Changes\<close> shows that the
  checks are complete (no constraint is ever violated when nobody else writes in between), that a change touches
  one account, and, for any sequence of handlers, that two accounts never share a cookie; it ends with what
  modelling showed about statuses, configurations, organizations and failures after the commit.

  \<^bold>\<open>Not modelled.\<close> The cache of HTTP clients and the request fingerprint, wire mimicry and TLS settings (they configure
  client libraries); the test of an account by a request of its own (\<open>api/admin/accounts.rs\<close>); the handlers for
  proxies, models, settings, request logs and reports (queries and forms; to the pool they are the external writers
  of its machine); the commands for system services, status, diagnosis and menus (processes, files and console); routing,
  start-up and the migrations, which frameworks run; the web frontend. Of the modelled files, the derived
  serialisation of pass-through types, the assembly of HTTP requests and PKCE, the timers that only send a
  message, and messages on the console are left out.
\<close>

end
